(* ===== verification/Prelude.thy ===== *)
theory Prelude
  imports Main "HOL-Library.AList"
begin

text \<open>
  What the components share: the Go values the model uses (byte strings, clock
  readings, maps with a length and an iteration), the functions of Go's
  \<^verbatim>\<open>strings\<close> package that the repository calls, and the lemmas about them that
  the component proofs use.

  A Go string is a sequence of bytes, and so is \<^typ>\<open>string\<close>.  The case mapping
  of \<^verbatim>\<open>ToLower\<close>, \<^verbatim>\<open>ToUpper\<close> and the classes \<^verbatim>\<open>IsUpper\<close>, \<^verbatim>\<open>IsLower\<close>
  are modelled on ASCII (other bytes are left alone and belong to no class);
  \<^verbatim>\<open>TrimSpace\<close> is modelled in full: the table below lists the UTF-8 encodings of
  all the code points that \<^verbatim>\<open>unicode.IsSpace\<close> accepts.

  A clock reading (\<^verbatim>\<open>time.Time\<close>) is the number of nanoseconds since Go's zero
  time, so \<^verbatim>\<open>IsZero\<close> is being 0; every operation takes the reading of the clock
  it makes as an argument.
\<close>

named_theorems gostr \<open>definitions of the string functions\<close>
named_theorems gomap_simps \<open>lookups in maps after an update, a deletion or a filter\<close>

type_synonym gotime = int
type_synonym duration = int

abbreviation (input) Second :: duration where "Second \<equiv> 1000000000"

section \<open>Strings\<close>

definition IsEmpty :: "string \<Rightarrow> bool" where
  "IsEmpty s \<longleftrightarrow> s = []"

definition HasPrefix :: "string \<Rightarrow> string \<Rightarrow> bool" where
  "HasPrefix s p \<longleftrightarrow> take (length p) s = p"

definition HasSuffix :: "string \<Rightarrow> string \<Rightarrow> bool" where
  "HasSuffix s p \<longleftrightarrow> length p \<le> length s \<and> drop (length s - length p) s = p"

definition TrimPrefix :: "string \<Rightarrow> string \<Rightarrow> string" where
  "TrimPrefix s p = (if HasPrefix s p then drop (length p) s else s)"

fun Contains :: "string \<Rightarrow> string \<Rightarrow> bool" where
  "Contains [] p \<longleftrightarrow> p = []"
| "Contains (c # s) p \<longleftrightarrow> HasPrefix (c # s) p \<or> Contains s p"

definition ContainsAny :: "string \<Rightarrow> string \<Rightarrow> bool" where
  "ContainsAny s cs \<longleftrightarrow> list_ex (\<lambda>c. c \<in> set cs) s"

text \<open>\<^verbatim>\<open>strings.Split\<close> at a one-byte separator: never an empty list.\<close>

fun Split :: "char \<Rightarrow> string \<Rightarrow> string list" where
  "Split c [] = [[]]"
| "Split c (x # xs) =
     (if x = c then [] # Split c xs
      else (case Split c xs of [] \<Rightarrow> [[x]] | t # ts \<Rightarrow> (x # t) # ts))"

fun Join :: "string \<Rightarrow> string list \<Rightarrow> string" where
  "Join sep [] = []"
| "Join sep [t] = t"
| "Join sep (t # u # ts) = t @ sep @ Join sep (u # ts)"

text \<open>\<^verbatim>\<open>strings.Cut\<close> at a one-byte separator: before, after, found.\<close>

fun Cut :: "char \<Rightarrow> string \<Rightarrow> string \<times> string \<times> bool" where
  "Cut c [] = ([], [], False)"
| "Cut c (x # xs) =
     (if x = c then ([], xs, True)
      else (case Cut c xs of (b, a, f) \<Rightarrow> (x # b, a, f)))"

definition is_upper :: "char \<Rightarrow> bool" where
  "is_upper c \<longleftrightarrow> c \<in> set ''ABCDEFGHIJKLMNOPQRSTUVWXYZ''"

definition is_lower :: "char \<Rightarrow> bool" where
  "is_lower c \<longleftrightarrow> c \<in> set ''abcdefghijklmnopqrstuvwxyz''"

definition lower_table :: "(char \<times> char) list" where
  "lower_table = zip ''ABCDEFGHIJKLMNOPQRSTUVWXYZ'' ''abcdefghijklmnopqrstuvwxyz''"

definition upper_table :: "(char \<times> char) list" where
  "upper_table = zip ''abcdefghijklmnopqrstuvwxyz'' ''ABCDEFGHIJKLMNOPQRSTUVWXYZ''"

definition lower_byte :: "char \<Rightarrow> char" where
  "lower_byte c = (case map_of lower_table c of None \<Rightarrow> c | Some d \<Rightarrow> d)"

definition upper_byte :: "char \<Rightarrow> char" where
  "upper_byte c = (case map_of upper_table c of None \<Rightarrow> c | Some d \<Rightarrow> d)"

definition ToLower :: "string \<Rightarrow> string" where
  "ToLower s = map lower_byte s"

definition ToUpper :: "string \<Rightarrow> string" where
  "ToUpper s = map upper_byte s"

definition EqualFold :: "string \<Rightarrow> string \<Rightarrow> bool" where
  "EqualFold s t \<longleftrightarrow> ToLower s = ToLower t"

text \<open>The encodings of the white space code points (\<^verbatim>\<open>unicode.IsSpace\<close>).\<close>

definition space_runes :: "string list" where
  "space_runes =
     [[CHR 0x09], [CHR 0x0A], [CHR 0x0B], [CHR 0x0C], [CHR 0x0D], [CHR 0x20],
      [CHR 0xC2, CHR 0x85], [CHR 0xC2, CHR 0xA0],
      [CHR 0xE1, CHR 0x9A, CHR 0x80],
      [CHR 0xE2, CHR 0x80, CHR 0x80], [CHR 0xE2, CHR 0x80, CHR 0x81],
      [CHR 0xE2, CHR 0x80, CHR 0x82], [CHR 0xE2, CHR 0x80, CHR 0x83],
      [CHR 0xE2, CHR 0x80, CHR 0x84], [CHR 0xE2, CHR 0x80, CHR 0x85],
      [CHR 0xE2, CHR 0x80, CHR 0x86], [CHR 0xE2, CHR 0x80, CHR 0x87],
      [CHR 0xE2, CHR 0x80, CHR 0x88], [CHR 0xE2, CHR 0x80, CHR 0x89],
      [CHR 0xE2, CHR 0x80, CHR 0x8A],
      [CHR 0xE2, CHR 0x80, CHR 0xA8], [CHR 0xE2, CHR 0x80, CHR 0xA9],
      [CHR 0xE2, CHR 0x80, CHR 0xAF],
      [CHR 0xE2, CHR 0x81, CHR 0x9F],
      [CHR 0xE3, CHR 0x80, CHR 0x80]]"

function strip_by :: "string list \<Rightarrow> string \<Rightarrow> string" where
  "strip_by ws s =
     (case find (\<lambda>w. w \<noteq> [] \<and> HasPrefix s w) ws of
        None \<Rightarrow> s
      | Some w \<Rightarrow> strip_by ws (drop (length w) s))"
  by pat_completeness auto
termination
proof (relation "measure (\<lambda>(ws, s). length s)", goal_cases)
  case (2 ws s w)
  then have "w \<noteq> []" and "HasPrefix s w"
    by (auto simp: find_Some_iff)
  then show ?case
    by (cases s) (auto simp: HasPrefix_def)
qed auto

declare strip_by.simps [simp del]

definition TrimSpace :: "string \<Rightarrow> string" where
  "TrimSpace s =
     (let l = strip_by space_runes s
      in rev (strip_by (map rev space_runes) (rev l)))"

subsection \<open>Lemmas on strings\<close>

lemma IsEmpty_iff [simp]: "IsEmpty s \<longleftrightarrow> s = []"
  by (simp add: IsEmpty_def)

lemma HasPrefix_append [simp]: "HasPrefix (p @ s) p"
  by (simp add: HasPrefix_def)

lemma HasPrefix_iff: "HasPrefix s p \<longleftrightarrow> (\<exists>r. s = p @ r)"
  by (metis HasPrefix_append HasPrefix_def append_take_drop_id)

lemma HasPrefix_Nil [simp]: "HasPrefix s []"
  by (simp add: HasPrefix_def)

lemma HasPrefix_Cons [simp]: "HasPrefix (c # s) (d # p) \<longleftrightarrow> c = d \<and> HasPrefix s p"
  by (simp add: HasPrefix_def)

lemma HasPrefix_Nil_Cons [simp]: "\<not> HasPrefix [] (d # p)"
  by (simp add: HasPrefix_def)

lemma HasPrefix_same_append [simp]: "HasPrefix (p @ s) (p @ q) \<longleftrightarrow> HasPrefix s q"
  by (induction p) auto

lemma TrimPrefix_append [simp]: "TrimPrefix (p @ s) p = s"
  by (simp add: TrimPrefix_def)

lemma HasSuffix_iff: "HasSuffix s p \<longleftrightarrow> (\<exists>r. s = r @ p)"
  unfolding HasSuffix_def
  by (metis add_diff_cancel_right' append_eq_conv_conj append_take_drop_id
      le_add2 length_append)

lemma Contains_append: "Contains (a @ p @ b) p"
proof (induction a)
  case Nil
  show ?case
  proof (cases "p @ b")
    case Nil
    then show ?thesis by simp
  next
    case (Cons x xs)
    then have "HasPrefix (x # xs) p" by (metis HasPrefix_append)
    then show ?thesis using Cons by simp
  qed
next
  case (Cons c a)
  then show ?case by simp
qed

lemma Contains_iff: "Contains s p \<longleftrightarrow> (\<exists>a b. s = a @ p @ b)"
proof
  assume "Contains s p"
  then show "\<exists>a b. s = a @ p @ b"
  proof (induction s)
    case Nil
    then show ?case by simp
  next
    case (Cons c s)
    then show ?case
      by (metis Contains.simps(2) HasPrefix_iff append_Cons append_Nil)
  qed
next
  assume "\<exists>a b. s = a @ p @ b"
  then show "Contains s p" by (auto simp: Contains_append)
qed

lemma Contains_single [simp]: "Contains s [c] \<longleftrightarrow> c \<in> set s"
  by (auto simp: Contains_iff in_set_conv_decomp)

lemma ContainsAny_iff: "ContainsAny s cs \<longleftrightarrow> set s \<inter> set cs \<noteq> {}"
  by (auto simp: ContainsAny_def list_ex_iff)

lemma Split_not_Nil [simp]: "Split c s \<noteq> []"
  by (cases s) (auto split: list.splits)

lemma Join_Split: "Join [c] (Split c s) = s"
proof (induction s)
  case Nil
  then show ?case by simp
next
  case (Cons x s)
  obtain t ts where "Split c s = t # ts"
    by (meson Split_not_Nil neq_Nil_conv)
  with Cons show ?case by (cases ts) auto
qed

lemma Split_sep_free: "c \<notin> set t \<Longrightarrow> Split c t = [t]"
  by (induction t) auto

lemma Split_append_sep:
  "c \<notin> set t \<Longrightarrow> Split c (t @ c # s) = t # Split c s"
  by (induction t) auto

lemma Split_Join:
  "ts \<noteq> [] \<Longrightarrow> \<forall>t\<in>set ts. c \<notin> set t \<Longrightarrow> Split c (Join [c] ts) = ts"
  by (induction "[c]" ts rule: Join.induct) (auto simp: Split_sep_free Split_append_sep)

lemma Split_tokens_sep_free: "t \<in> set (Split c s) \<Longrightarrow> c \<notin> set t"
  by (induction s arbitrary: t) (auto split: if_splits list.splits)

lemma set_Split_subset: "t \<in> set (Split c s) \<Longrightarrow> set t \<subseteq> set s"
  by (induction s arbitrary: t) (fastforce split: if_splits list.splits)+

lemma Cut_append_sep [simp]: "c \<notin> set b \<Longrightarrow> Cut c (b @ c # a) = (b, a, True)"
  by (induction b) auto

lemma Cut_sep_free [simp]: "c \<notin> set b \<Longrightarrow> Cut c b = (b, [], False)"
  by (induction b) auto

lemma Cut_before_sep_free: "Cut c s = (b, a, f) \<Longrightarrow> c \<notin> set b"
  by (induction s arbitrary: b) (auto split: if_splits prod.splits)

lemma Cut_sound:
  "Cut c s = (b, a, f) \<Longrightarrow>
     c \<notin> set b \<and> (if f then s = b @ c # a else s = b \<and> a = [])"
proof (induction s arbitrary: b)
  case Nil
  then show ?case by auto
next
  case (Cons x s)
  obtain b' a' f' where "Cut c s = (b', a', f')" by (cases "Cut c s")
  with Cons show ?case by (cases "x = c") auto
qed

lemma length_ToLower [simp]: "length (ToLower s) = length s"
  by (simp add: ToLower_def)

lemma ToLower_append [simp]: "ToLower (s @ t) = ToLower s @ ToLower t"
  by (simp add: ToLower_def)

lemma lower_table_range:
  assumes "map_of lower_table c = Some d"
  shows "lower_byte d = d \<and> \<not> is_upper d"
proof -
  have "d \<in> set (map snd lower_table)"
    using assms by (force dest: map_of_SomeD)
  moreover have "\<forall>d\<in>set (map snd lower_table). lower_byte d = d \<and> \<not> is_upper d"
    by code_simp
  ultimately show ?thesis by blast
qed

lemma lower_byte_idem [simp]: "lower_byte (lower_byte c) = lower_byte c"
proof (cases "map_of lower_table c")
  case None
  then show ?thesis by (simp add: lower_byte_def)
next
  case (Some d)
  then have "lower_byte c = d" by (simp add: lower_byte_def)
  moreover have "lower_byte d = d"
    using lower_table_range [OF Some] by blast
  ultimately show ?thesis by simp
qed

lemma ToLower_idem [simp]: "ToLower (ToLower s) = ToLower s"
  by (simp add: ToLower_def)

lemma lower_byte_not_upper [simp]: "\<not> is_upper (lower_byte c)"
proof (cases "map_of lower_table c")
  case None
  have "\<forall>d\<in>set ''ABCDEFGHIJKLMNOPQRSTUVWXYZ''. map_of lower_table d \<noteq> None"
    by code_simp
  with None show ?thesis by (auto simp: lower_byte_def is_upper_def)
next
  case (Some d)
  then have "lower_byte c = d" by (simp add: lower_byte_def)
  then show ?thesis using lower_table_range [OF Some] by simp
qed

lemma lower_byte_id: "\<not> is_upper c \<Longrightarrow> lower_byte c = c"
proof -
  assume c: "\<not> is_upper c"
  have "set (map fst lower_table) \<subseteq> Collect is_upper"
  proof -
    have "\<forall>d\<in>set (map fst lower_table). is_upper d" by code_simp
    then show ?thesis by auto
  qed
  with c have "map_of lower_table c = None"
    by (auto simp: map_of_eq_None_iff)
  then show ?thesis by (simp add: lower_byte_def)
qed

lemma ToLower_id: "\<forall>c\<in>set s. \<not> is_upper c \<Longrightarrow> ToLower s = s"
  by (simp add: ToLower_def lower_byte_id map_idI)

subsection \<open>Trimming\<close>

definition space_bytes :: "char list" where
  "space_bytes = concat space_runes"

lemma strip_by_suffix: "\<exists>p. s = p @ strip_by ws s"
proof (induction ws s rule: strip_by.induct)
  case (1 ws s)
  show ?case
  proof (cases "find (\<lambda>w. w \<noteq> [] \<and> HasPrefix s w) ws")
    case None
    then show ?thesis by (simp add: strip_by.simps [of ws s])
  next
    case (Some w)
    with 1 obtain p where "drop (length w) s = p @ strip_by ws (drop (length w) s)" by blast
    then have "s = (take (length w) s @ p) @ strip_by ws (drop (length w) s)"
      by (metis append.assoc append_take_drop_id)
    with Some show ?thesis unfolding strip_by.simps [of ws s] by (metis option.simps(5))
  qed
qed

lemma strip_by_stops:
  "w \<in> set ws \<Longrightarrow> w \<noteq> [] \<Longrightarrow> \<not> HasPrefix (strip_by ws s) w"
proof (induction ws s rule: strip_by.induct)
  case (1 ws s)
  show ?case
  proof (cases "find (\<lambda>w. w \<noteq> [] \<and> HasPrefix s w) ws")
    case None
    then have "strip_by ws s = s" by (simp add: strip_by.simps [of ws s])
    moreover have "\<not> HasPrefix s w" using None 1(2,3) by (auto simp: find_None_iff)
    ultimately show ?thesis by simp
  next
    case (Some v)
    then have "strip_by ws s = strip_by ws (drop (length v) s)"
      by (simp add: strip_by.simps [of ws s])
    with 1 Some show ?thesis by simp
  qed
qed

lemma strip_by_id:
  "\<forall>w\<in>set ws. w \<noteq> [] \<longrightarrow> \<not> HasPrefix s w \<Longrightarrow> strip_by ws s = s"
proof -
  assume "\<forall>w\<in>set ws. w \<noteq> [] \<longrightarrow> \<not> HasPrefix s w"
  then have "find (\<lambda>w. w \<noteq> [] \<and> HasPrefix s w) ws = None"
    by (auto simp: find_None_iff)
  then show ?thesis by (simp add: strip_by.simps [of ws s])
qed

lemma HasPrefix_append_left: "HasPrefix s w \<Longrightarrow> HasPrefix (s @ r) w"
  by (auto simp: HasPrefix_iff)

lemma TrimSpace_idem [simp]: "TrimSpace (TrimSpace s) = TrimSpace s"
proof -
  let ?l = "strip_by space_runes s"
  let ?r = "strip_by (map rev space_runes) (rev ?l)"
  obtain p where p: "rev ?l = p @ ?r" using strip_by_suffix by blast
  have l: "?l = rev ?r @ rev p" using arg_cong [OF p, of rev] by simp
  have "strip_by space_runes (rev ?r) = rev ?r"
  proof (rule strip_by_id, intro ballI impI notI)
    fix w assume w: "w \<in> set space_runes" "w \<noteq> []" "HasPrefix (rev ?r) w"
    then have "HasPrefix ?l w" using l HasPrefix_append_left by metis
    with w strip_by_stops show False by blast
  qed
  moreover have "strip_by (map rev space_runes) ?r = ?r"
    by (rule strip_by_id) (blast dest: strip_by_stops)
  ultimately show ?thesis by (simp add: TrimSpace_def Let_def)
qed

lemma TrimSpace_id:
  assumes "set s \<inter> set space_bytes = {}"
  shows "TrimSpace s = s"
proof -
  have *: "\<not> HasPrefix t w"
    if "w \<noteq> []" "set w \<subseteq> set space_bytes" "set t = set s" for w t
    using that assms by (cases w; cases t) auto
  have "strip_by space_runes s = s"
    by (rule strip_by_id) (use * [of _ s] in \<open>auto simp: space_bytes_def\<close>)
  moreover have "strip_by (map rev space_runes) (rev s) = rev s"
  proof (rule strip_by_id, intro ballI impI)
    fix w assume w: "w \<in> set (map rev space_runes)" "w \<noteq> []"
    then have "set w \<subseteq> set space_bytes"
      by (force simp: space_bytes_def)
    with w show "\<not> HasPrefix (rev s) w"
      using * [of w "rev s"] by simp
  qed
  ultimately show ?thesis by (simp add: TrimSpace_def)
qed

lemma TrimSpace_Nil [simp]: "TrimSpace [] = []"
  by (rule TrimSpace_id) simp

lemma TrimSpace_sublist: "\<exists>a b. s = a @ TrimSpace s @ b"
proof -
  obtain a where a: "s = a @ strip_by space_runes s" using strip_by_suffix by blast
  obtain b where "rev (strip_by space_runes s) =
      b @ strip_by (map rev space_runes) (rev (strip_by space_runes s))"
    using strip_by_suffix by blast
  then have "strip_by space_runes s = TrimSpace s @ rev b"
    by (metis TrimSpace_def rev_append rev_rev_ident)
  with a show ?thesis by metis
qed

lemma set_TrimSpace_subset: "set (TrimSpace s) \<subseteq> set s"
  by (metis TrimSpace_sublist Un_upper2 le_supI1 set_append sup_commute)

section \<open>Maps that have a length and an iteration\<close>

text \<open>
  A Go map whose length is read or whose entries are iterated over is an
  association list; the invariant \<open>wf_gomap\<close> says that each key occurs once.
\<close>

type_synonym ('k, 'v) gomap = "('k \<times> 'v) list"

definition wf_gomap :: "('k, 'v) gomap \<Rightarrow> bool" where
  "wf_gomap m \<longleftrightarrow> distinct (map fst m)"

lemma wf_gomap_Nil [simp, intro]: "wf_gomap []"
  by (simp add: wf_gomap_def)

lemma wf_gomap_update [simp, intro]: "wf_gomap m \<Longrightarrow> wf_gomap (AList.update k v m)"
  by (simp add: wf_gomap_def distinct_update)

lemma wf_gomap_delete [simp, intro]: "wf_gomap m \<Longrightarrow> wf_gomap (AList.delete k m)"
  by (simp add: wf_gomap_def distinct_delete)

lemma wf_gomap_filter [simp, intro]: "wf_gomap m \<Longrightarrow> wf_gomap (filter P m)"
  by (simp add: wf_gomap_def distinct_map_filter)

lemma map_of_update [gomap_simps]: "map_of (AList.update k v m) = (map_of m)(k \<mapsto> v)"
  by (simp add: update_conv')

lemma map_of_delete [gomap_simps]: "map_of (AList.delete k m) = (map_of m)(k := None)"
  by (simp add: delete_conv')

lemma map_of_filter_wf [gomap_simps]:
  "wf_gomap m \<Longrightarrow>
   map_of (filter P m) k =
     (case map_of m k of None \<Rightarrow> None | Some v \<Rightarrow> if P (k, v) then Some v else None)"
proof (induction m)
  case Nil
  then show ?case by simp
next
  case (Cons kv m)
  then have wf: "wf_gomap m" and "fst kv \<notin> fst ` set m"
    by (auto simp: wf_gomap_def)
  then have none: "map_of m (fst kv) = None"
    by (simp add: map_of_eq_None_iff)
  show ?case
    using Cons.IH [OF wf] none by (cases kv) (auto split: option.splits)
qed

section \<open>Error results\<close>

text \<open>A Go result \<^verbatim>\<open>(T, error)\<close> is a sum, the error on the left.\<close>

type_synonym ('e, 'a) result = "'e + 'a"

fun is_ok :: "('e, 'a) result \<Rightarrow> bool" where
  "is_ok (Inl _) \<longleftrightarrow> False"
| "is_ok (Inr _) \<longleftrightarrow> True"

lemma is_ok_iff: "is_ok r \<longleftrightarrow> (\<exists>a. r = Inr a)"
  by (cases r) auto

end
