(* ===== verification/Permissions.thy ===== *)
theory Permissions
  imports Prelude
begin

text \<open>
  The data of identity and access (\<^verbatim>\<open>internal/domain\<close>: \<^verbatim>\<open>user.go\<close>,
  \<^verbatim>\<open>access_rules.go\<close>, \<^verbatim>\<open>access_grant.go\<close>, \<^verbatim>\<open>errors.go\<close>), the roles and the
  effective permissions (\<^verbatim>\<open>role.go\<close>, \<^verbatim>\<open>permissions.go\<close>) and the validation of
  access rules.  The order \<open>perm_le\<close> says what it means that one set of effective
  permissions allows no more than another; \<open>SupersetOf\<close> and
  \<open>CanAssignAccessRules\<close> are compared with it.
\<close>

section \<open>Errors and data\<close>

datatype domain_error =
    ErrNotFound | ErrForbidden | ErrRootProtected | ErrRootExists | ErrCannotEscalate
  | ErrInvalidInput string | ErrInvalidRange | ErrAlertNotFound | ErrAlertRuleNotFound
  | ErrEventCatalogEntryNotFound | ErrSigningGroupProtected | ErrSigningGroupInUse
  | ErrConflict
  | ErrOther string  \<comment> \<open>\<^verbatim>\<open>errors.New\<close> at the place of the error\<close>

definition RoleAdmin :: string where "RoleAdmin = ''admin''"
definition RoleOperator :: string where "RoleOperator = ''operator''"
definition RoleViewer :: string where "RoleViewer = ''viewer''"

lemmas role_defs = RoleAdmin_def RoleOperator_def RoleViewer_def

record AccessRules =
  ar_ClusterIDs :: "string list"
  ar_AssignableRoles :: "string list"
  ar_ManageUsers :: bool
  ar_ViewAudit :: bool
  ar_DeleteClusters :: bool

record AccessGrant =
  g_CreatedAt :: gotime
  g_UpdatedAt :: gotime
  g_ID :: string
  g_UserID :: string
  g_ResourceType :: string
  g_ResourceKey :: string
  g_Role :: string
  g_Username :: string
  g_Email :: string

record User =
  u_CreatedAt :: gotime
  u_AccessRules :: "AccessRules option"
  u_Grants :: "AccessGrant list"
  u_ID :: string
  u_Username :: string
  u_Email :: string
  u_OIDCSub :: string
  u_Roles :: "string list"
  u_IsRoot :: bool
  u_SessionVersion :: int

record UserCreate =
  uc_AccessRules :: "AccessRules option"
  uc_Username :: string
  uc_Email :: string
  uc_Password :: string
  uc_OIDCSub :: string
  uc_PasswordHash :: string
  uc_Roles :: "string list"
  uc_IsRoot :: bool

record UserUpdate =
  uu_Email :: "string option"
  uu_Password :: "string option"
  uu_AccessRules :: "AccessRules option"
  uu_Roles :: "string list"
  uu_SetRoles :: bool
  uu_SetRules :: bool

text \<open>The zero values of Go, for building concrete users and grants.\<close>

definition zero_user :: User where
  "zero_user = \<lparr>u_CreatedAt = 0, u_AccessRules = None, u_Grants = [], u_ID = [],
     u_Username = [], u_Email = [], u_OIDCSub = [], u_Roles = [], u_IsRoot = False,
     u_SessionVersion = 0\<rparr>"

definition zero_grant :: AccessGrant where
  "zero_grant = \<lparr>g_CreatedAt = 0, g_UpdatedAt = 0, g_ID = [], g_UserID = [],
     g_ResourceType = [], g_ResourceKey = [], g_Role = [], g_Username = [], g_Email = []\<rparr>"

section \<open>Roles\<close>

definition HasRole :: "string list \<Rightarrow> string \<Rightarrow> bool" where
  "HasRole roles role \<longleftrightarrow> role \<in> set roles"

definition HighestRole :: "string list \<Rightarrow> string" where
  "HighestRole roles =
     (if HasRole roles RoleAdmin then RoleAdmin
      else if HasRole roles RoleOperator then RoleOperator
      else if HasRole roles RoleViewer then RoleViewer
      else [])"

definition AccessRules_AllowsCluster :: "AccessRules option \<Rightarrow> string \<Rightarrow> bool" where
  "AccessRules_AllowsCluster r clusterID =
     (case r of None \<Rightarrow> False | Some r \<Rightarrow> clusterID \<in> set (ar_ClusterIDs r))"

definition AccessRules_AllowsRole :: "AccessRules option \<Rightarrow> string \<Rightarrow> bool" where
  "AccessRules_AllowsRole r role =
     (case r of None \<Rightarrow> False
      | Some r \<Rightarrow> if ar_AssignableRoles r = [] then False
                  else HasRole (ar_AssignableRoles r) role)"

definition known_role :: "string \<Rightarrow> bool" where
  "known_role role \<longleftrightarrow> role \<in> {RoleAdmin, RoleOperator, RoleViewer}"

definition ValidateAccessRules :: "AccessRules option \<Rightarrow> domain_error option" where
  "ValidateAccessRules rules =
     (case rules of
        None \<Rightarrow> None
      | Some r \<Rightarrow>
          if ar_ClusterIDs r = [] then
            Some (ErrOther ''clusterIds required: assign at least one cluster'')
          else (case find (\<lambda>role. \<not> known_role role) (ar_AssignableRoles r) of
              Some role \<Rightarrow> Some (ErrOther (''invalid assignable role: '' @ role))
            | None \<Rightarrow>
                if ar_ManageUsers r \<and> ar_AssignableRoles r = [] then
                  Some (ErrOther ''assignableRoles required when manageUsers is true'')
                else None))"

section \<open>Effective permissions\<close>

record Permissions =
  p_ClusterIDs :: "string list"
  p_AssignableRoles :: "string list"
  p_IsRoot :: bool
  p_AllClusters :: bool
  p_ManageUsers :: bool
  p_ViewAudit :: bool
  p_DeleteClusters :: bool

definition FullPermissions :: Permissions where
  "FullPermissions =
     \<lparr>p_ClusterIDs = [], p_AssignableRoles = [RoleAdmin, RoleOperator, RoleViewer],
      p_IsRoot = True, p_AllClusters = True, p_ManageUsers = True, p_ViewAudit = True,
      p_DeleteClusters = True\<rparr>"

definition PermissionsFor :: "User \<Rightarrow> Permissions" where
  "PermissionsFor user =
     (if u_IsRoot user then FullPermissions
      else if HasRole (u_Roles user) RoleAdmin \<and> u_AccessRules user = None then
        \<lparr>p_ClusterIDs = [], p_AssignableRoles = [RoleAdmin, RoleOperator, RoleViewer],
         p_IsRoot = False, p_AllClusters = True, p_ManageUsers = True, p_ViewAudit = True,
         p_DeleteClusters = True\<rparr>
      else (case u_AccessRules user of
          None \<Rightarrow>
            \<lparr>p_ClusterIDs = [], p_AssignableRoles = [], p_IsRoot = False,
             p_AllClusters = False, p_ManageUsers = False, p_ViewAudit = False,
             p_DeleteClusters = False\<rparr>
        | Some rules \<Rightarrow>
            \<lparr>p_ClusterIDs = ar_ClusterIDs rules,
             p_AssignableRoles = ar_AssignableRoles rules,
             p_IsRoot = False, p_AllClusters = False,
             p_ManageUsers = ar_ManageUsers rules, p_ViewAudit = ar_ViewAudit rules,
             p_DeleteClusters = ar_DeleteClusters rules\<rparr>))"

definition AllowsCluster :: "Permissions \<Rightarrow> string \<Rightarrow> bool" where
  "AllowsCluster p clusterID \<longleftrightarrow>
     (if p_IsRoot p \<or> p_AllClusters p then True else clusterID \<in> set (p_ClusterIDs p))"

definition AllowsRole :: "Permissions \<Rightarrow> string \<Rightarrow> bool" where
  "AllowsRole p role \<longleftrightarrow>
     (if p_IsRoot p then True
      else if p_AssignableRoles p = [] then False
      else HasRole (p_AssignableRoles p) role)"

fun AllowsRoles :: "Permissions \<Rightarrow> string list \<Rightarrow> bool" where
  "AllowsRoles p [] \<longleftrightarrow> True"
| "AllowsRoles p (role # roles) \<longleftrightarrow> (if \<not> AllowsRole p role then False else AllowsRoles p roles)"

fun allows_clusters :: "Permissions \<Rightarrow> string list \<Rightarrow> bool" where
  "allows_clusters p [] \<longleftrightarrow> True"
| "allows_clusters p (c # cs) \<longleftrightarrow> (if \<not> AllowsCluster p c then False else allows_clusters p cs)"

definition CanAssignAccessRules :: "Permissions \<Rightarrow> AccessRules option \<Rightarrow> bool" where
  "CanAssignAccessRules p rules =
     (if p_IsRoot p then True
      else (case rules of
          None \<Rightarrow> False
        | Some r \<Rightarrow>
            if ar_ManageUsers r \<and> \<not> p_ManageUsers p then False
            else if ar_ViewAudit r \<and> \<not> p_ViewAudit p then False
            else if ar_DeleteClusters r \<and> \<not> p_DeleteClusters p then False
            else if \<not> allows_clusters p (ar_ClusterIDs r) then False
            else AllowsRoles p (ar_AssignableRoles r)))"

definition SupersetOf :: "Permissions \<Rightarrow> Permissions \<Rightarrow> bool" where
  "SupersetOf p other =
     (if p_IsRoot p then True
      else if p_ManageUsers other \<and> \<not> p_ManageUsers p then False
      else if p_ViewAudit other \<and> \<not> p_ViewAudit p then False
      else if p_DeleteClusters other \<and> \<not> p_DeleteClusters p then False
      else if \<not> allows_clusters p (p_ClusterIDs other) then False
      else AllowsRoles p (p_AssignableRoles other))"

section \<open>The order of permissions\<close>

definition perm_le :: "Permissions \<Rightarrow> Permissions \<Rightarrow> bool" where
  "perm_le q p \<longleftrightarrow>
     (\<forall>c. AllowsCluster q c \<longrightarrow> AllowsCluster p c) \<and>
     (\<forall>r. AllowsRole q r \<longrightarrow> AllowsRole p r) \<and>
     (p_ManageUsers q \<longrightarrow> p_ManageUsers p) \<and>
     (p_ViewAudit q \<longrightarrow> p_ViewAudit p) \<and>
     (p_DeleteClusters q \<longrightarrow> p_DeleteClusters p)"

lemma perm_le_refl [simp, intro]: "perm_le p p"
  by (simp add: perm_le_def)

lemma perm_le_trans [trans]: "perm_le p q \<Longrightarrow> perm_le q r \<Longrightarrow> perm_le p r"
  by (auto simp: perm_le_def)

lemma AllowsRoles_iff [simp]: "AllowsRoles p roles \<longleftrightarrow> (\<forall>r\<in>set roles. AllowsRole p r)"
  by (induction roles) auto

lemma allows_clusters_iff [simp]: "allows_clusters p cs \<longleftrightarrow> (\<forall>c\<in>set cs. AllowsCluster p c)"
  by (induction cs) auto

lemma AllowsRole_iff:
  "AllowsRole p role \<longleftrightarrow> p_IsRoot p \<or> role \<in> set (p_AssignableRoles p)"
  by (auto simp: AllowsRole_def HasRole_def)

lemma AllowsCluster_iff:
  "AllowsCluster p c \<longleftrightarrow> p_IsRoot p \<or> p_AllClusters p \<or> c \<in> set (p_ClusterIDs p)"
  by (auto simp: AllowsCluster_def)

lemma HighestRole_admin_iff [simp]: "HighestRole roles = RoleAdmin \<longleftrightarrow> HasRole roles RoleAdmin"
  by (auto simp: HighestRole_def role_defs)

lemma HighestRole_operator_iff:
  "HighestRole roles = RoleOperator \<longleftrightarrow>
     HasRole roles RoleOperator \<and> \<not> HasRole roles RoleAdmin"
  by (auto simp: HighestRole_def role_defs)

lemmas perm_order_simps = perm_le_def AllowsRole_iff AllowsCluster_iff

lemma PermissionsFor_rules:
  assumes "\<not> u_IsRoot u" and "u_AccessRules u = Some r"
  shows "PermissionsFor u =
    \<lparr>p_ClusterIDs = ar_ClusterIDs r, p_AssignableRoles = ar_AssignableRoles r,
     p_IsRoot = False, p_AllClusters = False, p_ManageUsers = ar_ManageUsers r,
     p_ViewAudit = ar_ViewAudit r, p_DeleteClusters = ar_DeleteClusters r\<rparr>"
  using assms by (simp add: PermissionsFor_def)

lemma PermissionsFor_IsRoot [simp]: "p_IsRoot (PermissionsFor u) \<longleftrightarrow> u_IsRoot u"
  by (auto simp: PermissionsFor_def FullPermissions_def split: option.splits)

lemma PermissionsFor_root_top: "u_IsRoot u \<Longrightarrow> perm_le q (PermissionsFor u)"
  by (simp add: PermissionsFor_def FullPermissions_def perm_order_simps)

lemma CanAssignAccessRules_Some:
  "\<not> p_IsRoot p \<Longrightarrow>
   CanAssignAccessRules p (Some r) \<longleftrightarrow>
     (ar_ManageUsers r \<longrightarrow> p_ManageUsers p) \<and> (ar_ViewAudit r \<longrightarrow> p_ViewAudit p) \<and>
     (ar_DeleteClusters r \<longrightarrow> p_DeleteClusters p) \<and>
     (\<forall>c\<in>set (ar_ClusterIDs r). AllowsCluster p c) \<and>
     (\<forall>role\<in>set (ar_AssignableRoles r). AllowsRole p role)"
  by (auto simp: CanAssignAccessRules_def)

lemma CanAssignAccessRules_perm_le:
  assumes "\<not> p_IsRoot p" and "\<not> u_IsRoot u" and "u_AccessRules u = Some r"
  shows "CanAssignAccessRules p (Some r) \<longleftrightarrow> perm_le (PermissionsFor u) p"
  using assms
  by (auto simp: CanAssignAccessRules_Some PermissionsFor_rules perm_order_simps)

lemma SupersetOf_perm_le:
  assumes "SupersetOf p q" and "\<not> p_IsRoot p" and "\<not> p_IsRoot q" and "\<not> p_AllClusters q"
  shows "perm_le q p"
  using assms by (auto simp: SupersetOf_def perm_order_simps split: if_splits)

section \<open>Properties\<close>

definition scoped_manager :: User where
  "scoped_manager = zero_user\<lparr>u_ID := ''m'', u_Roles := [RoleAdmin],
     u_AccessRules := Some \<lparr>ar_ClusterIDs = [''east''],
       ar_AssignableRoles = [RoleAdmin, RoleOperator, RoleViewer],
       ar_ManageUsers = True, ar_ViewAudit = True, ar_DeleteClusters = True\<rparr>\<rparr>"

definition legacy_admin :: User where
  "legacy_admin = zero_user\<lparr>u_ID := ''l'', u_Roles := [RoleAdmin]\<rparr>"

text \<open>Delegation never amplifies and never refuses needlessly.  A holder of
  permissions \<open>p\<close> that is not the root may assign the access rules \<open>rules\<close> exactly
  when rules are given at all and the user who gets them is allowed nothing (no cluster,
  no assignable role, no capability) that \<open>p\<close> does not allow.\<close>

theorem delegation_exact:
  assumes "\<not> p_IsRoot p"
  shows "CanAssignAccessRules p rules \<longleftrightarrow>
     rules \<noteq> None \<and>
     perm_le (PermissionsFor (u\<lparr>u_IsRoot := False, u_AccessRules := rules\<rparr>)) p"
proof (cases rules)
  case None
  with assms show ?thesis by (simp add: CanAssignAccessRules_def)
next
  case (Some r)
  then have "u_AccessRules (u\<lparr>u_IsRoot := False, u_AccessRules := rules\<rparr>) = Some r" by simp
  with assms Some CanAssignAccessRules_perm_le [OF assms]
  show ?thesis by (metis User.select_convs(9) User.surjective User.update_convs(2,9) option.distinct(1))
qed

theorem delegation_exact_witness:
  "\<not> p_IsRoot (PermissionsFor scoped_manager) \<and>
   CanAssignAccessRules (PermissionsFor scoped_manager) (u_AccessRules scoped_manager) \<and>
   perm_le (PermissionsFor (zero_user\<lparr>u_IsRoot := False,
     u_AccessRules := u_AccessRules scoped_manager\<rparr>)) (PermissionsFor scoped_manager)"
proof -
  have r: "\<not> p_IsRoot (PermissionsFor scoped_manager)" by code_simp
  have "CanAssignAccessRules (PermissionsFor scoped_manager) (u_AccessRules scoped_manager)"
    by code_simp
  with r delegation_exact [OF r] show ?thesis by blast
qed

text \<open>Between two users that are not the root, where the target is not an admin
  without access rules, \<open>SupersetOf\<close> (the guard of every change to another user) holds
  exactly when the target is allowed nothing that the actor is not allowed.\<close>

theorem superset_exact:
  assumes "\<not> u_IsRoot actor" and "\<not> u_IsRoot target"
    and "u_AccessRules target \<noteq> None \<or> \<not> HasRole (u_Roles target) RoleAdmin"
  shows "SupersetOf (PermissionsFor actor) (PermissionsFor target) \<longleftrightarrow>
     perm_le (PermissionsFor target) (PermissionsFor actor)"
proof
  have "\<not> p_AllClusters (PermissionsFor target)"
    using assms by (auto simp: PermissionsFor_def split: option.splits)
  with assms(1,2) show "perm_le (PermissionsFor target) (PermissionsFor actor)"
    if "SupersetOf (PermissionsFor actor) (PermissionsFor target)"
    using that by (simp add: SupersetOf_perm_le)
  show "SupersetOf (PermissionsFor actor) (PermissionsFor target)"
    if "perm_le (PermissionsFor target) (PermissionsFor actor)"
    using that by (auto simp: SupersetOf_def perm_order_simps)
qed

theorem superset_exact_witness:
  "SupersetOf (PermissionsFor legacy_admin) (PermissionsFor scoped_manager) \<and>
   perm_le (PermissionsFor scoped_manager) (PermissionsFor legacy_admin)"
proof -
  have "SupersetOf (PermissionsFor legacy_admin) (PermissionsFor scoped_manager)" by code_simp
  moreover have "\<not> u_IsRoot legacy_admin" "\<not> u_IsRoot scoped_manager"
    "u_AccessRules scoped_manager \<noteq> None" by code_simp+
  ultimately show ?thesis using superset_exact [of legacy_admin scoped_manager] by blast
qed

text \<open>The case that the previous property leaves out is not covered by the code.
  \<open>SupersetOf\<close> reads the list of clusters of the other side but not its
  \<^verbatim>\<open>AllClusters\<close>: a manager of one cluster, with all the capabilities, passes as
  a superset of a legacy admin, who is allowed every cluster.\<close>

theorem superset_ignores_all_clusters:
  "SupersetOf (PermissionsFor scoped_manager) (PermissionsFor legacy_admin) \<and>
   AllowsCluster (PermissionsFor legacy_admin) ''west'' \<and>
   \<not> AllowsCluster (PermissionsFor scoped_manager) ''west''"
  by code_simp

end
