(* ===== verification/Authz.thy ===== *)
theory Authz
  imports Permissions
begin

text \<open>
  Authorization decisions: the grants and their resource keys
  (\<^verbatim>\<open>internal/domain/access_grant.go\<close>), the predicates \<open>Can\<dots>\<close> and their
  dispatch (\<^verbatim>\<open>internal/domain/authz.go\<close>, \<^verbatim>\<open>internal/app/policy\<close>), and the
  filtering of clusters and audit entries for an actor
  (\<^verbatim>\<open>internal/api/apikit/rbac.go\<close>).

  A grant names its resource by a string key.  The abstract view of a grant is a
  \<open>scope\<close>; the refinement lemmas show that the string comparisons of the code
  decide exactly what the scopes say, as long as the parts of the keys hold no colon.
\<close>

section \<open>Grants and resource keys\<close>

definition ResourceSystem :: string where "ResourceSystem = ''system''"
definition ResourceAccount :: string where "ResourceAccount = ''account''"
definition ResourceNATSUser :: string where "ResourceNATSUser = ''nats_user''"
definition GrantAdmin :: string where "GrantAdmin = ''admin''"
definition GrantObserver :: string where "GrantObserver = ''observer''"
definition GrantCredentialDownloader :: string where
  "GrantCredentialDownloader = ''credential_downloader''"

lemmas grant_defs = ResourceSystem_def ResourceAccount_def ResourceNATSUser_def
  GrantAdmin_def GrantObserver_def GrantCredentialDownloader_def

definition AccountResourceKey :: "string \<Rightarrow> string \<Rightarrow> string" where
  "AccountResourceKey clusterID accountName = clusterID @ '':'' @ accountName"

definition NATSUserResourceKey :: "string \<Rightarrow> string \<Rightarrow> string \<Rightarrow> string" where
  "NATSUserResourceKey clusterID accountName natsUserID =
     clusterID @ '':'' @ accountName @ '':'' @ natsUserID"

definition ValidateAccountName :: "string \<Rightarrow> domain_error option" where
  "ValidateAccountName name =
     (if IsEmpty (TrimSpace name) then Some (ErrInvalidInput ''account name is required'')
      else if Contains name '':'' then
        Some (ErrInvalidInput (''account name must not contain '' @ [CHR 0x27, CHR '':'', CHR 0x27]))
      else None)"

section \<open>Authorization predicates\<close>

definition isLegacyFullAdmin :: "User \<Rightarrow> bool" where
  "isLegacyFullAdmin user \<longleftrightarrow> HighestRole (u_Roles user) = RoleAdmin \<and> u_AccessRules user = None"

definition allowsClusterRules :: "User \<Rightarrow> string \<Rightarrow> bool" where
  "allowsClusterRules user clusterID =
     (if u_IsRoot user \<or> isLegacyFullAdmin user then True
      else (case u_AccessRules user of
          None \<Rightarrow> False
        | Some rules \<Rightarrow> clusterID \<in> set (ar_ClusterIDs rules)))"

definition hasAdminOrObserverGrant :: "User \<Rightarrow> string \<Rightarrow> string \<Rightarrow> bool" where
  "hasAdminOrObserverGrant user resourceType resourceKey =
     list_ex (\<lambda>g. g_ResourceType g = resourceType \<and> g_ResourceKey g = resourceKey)
       (u_Grants user)"

definition hasAdminGrant :: "User \<Rightarrow> string \<Rightarrow> string \<Rightarrow> bool" where
  "hasAdminGrant user resourceType resourceKey =
     list_ex (\<lambda>g. g_ResourceType g = resourceType \<and> g_ResourceKey g = resourceKey \<and>
                  g_Role g = GrantAdmin)
       (u_Grants user)"

definition natsUserGrantCoversAccount :: "string \<Rightarrow> string \<Rightarrow> string \<Rightarrow> bool" where
  "natsUserGrantCoversAccount resourceKey clusterID accountName =
     (let prefix = clusterID @ '':'' @ accountName @ '':''
      in if \<not> HasPrefix resourceKey prefix then False
         else (let uid = TrimPrefix resourceKey prefix
               in \<not> IsEmpty uid \<and> \<not> Contains uid '':''))"

definition CanWrite :: "User \<Rightarrow> bool" where
  "CanWrite user =
     (if u_IsRoot user then True
      else (let role = HighestRole (u_Roles user) in role = RoleAdmin \<or> role = RoleOperator))"

definition CanDeleteCluster :: "User \<Rightarrow> bool" where
  "CanDeleteCluster user =
     (if u_IsRoot user \<or> isLegacyFullAdmin user then True
      else (case u_AccessRules user of Some r \<Rightarrow> ar_DeleteClusters r | None \<Rightarrow> False))"

definition CanManageUsers :: "User \<Rightarrow> bool" where
  "CanManageUsers user =
     (if u_IsRoot user \<or> isLegacyFullAdmin user then True
      else (case u_AccessRules user of Some r \<Rightarrow> ar_ManageUsers r | None \<Rightarrow> False))"

definition CanViewAudit :: "User \<Rightarrow> bool" where
  "CanViewAudit user =
     (if u_IsRoot user \<or> isLegacyFullAdmin user then True
      else (case u_AccessRules user of Some r \<Rightarrow> ar_ViewAudit r | None \<Rightarrow> False))"

definition CanViewProfiling :: "User \<Rightarrow> bool" where
  "CanViewProfiling user =
     (if u_IsRoot user then True else HighestRole (u_Roles user) = RoleAdmin)"

definition CanManageAlertRules :: "User \<Rightarrow> bool" where
  "CanManageAlertRules user =
     (if u_IsRoot user then True
      else HighestRole (u_Roles user) = RoleAdmin \<or> CanManageUsers user)"

definition CanAccessCluster :: "User \<Rightarrow> string \<Rightarrow> bool" where
  "CanAccessCluster user clusterID =
     (if allowsClusterRules user clusterID then True
      else hasAdminOrObserverGrant user ResourceSystem clusterID)"

definition CanAccessClusterOrAccount :: "User \<Rightarrow> string \<Rightarrow> bool" where
  "CanAccessClusterOrAccount user clusterID =
     (if CanAccessCluster user clusterID then True
      else list_ex (\<lambda>g.
        g_ResourceType g \<in> {ResourceAccount, ResourceNATSUser} \<and>
        (g_ResourceKey g = clusterID \<or> HasPrefix (g_ResourceKey g) (clusterID @ '':'')))
        (u_Grants user))"

definition CanAccessAccount :: "User \<Rightarrow> string \<Rightarrow> string \<Rightarrow> bool" where
  "CanAccessAccount user clusterID accountName =
     (if CanAccessCluster user clusterID then True
      else (let accountKey = AccountResourceKey clusterID accountName
        in list_ex (\<lambda>g.
             if g_ResourceType g = ResourceAccount then g_ResourceKey g = accountKey
             else if g_ResourceType g = ResourceNATSUser then
               natsUserGrantCoversAccount (g_ResourceKey g) clusterID accountName
             else False)
           (u_Grants user)))"

definition CanWriteCluster :: "User \<Rightarrow> string \<Rightarrow> bool" where
  "CanWriteCluster user clusterID =
     (if u_IsRoot user then True
      else if hasAdminGrant user ResourceSystem clusterID then True
      else CanWrite user \<and> allowsClusterRules user clusterID)"

definition CanManageJetStream :: "User \<Rightarrow> string \<Rightarrow> bool" where
  "CanManageJetStream user clusterID =
     (if u_IsRoot user then True
      else if hasAdminGrant user ResourceSystem clusterID then True
      else HighestRole (u_Roles user) = RoleAdmin \<and> allowsClusterRules user clusterID)"

definition CanManageJetStreamAccount :: "User \<Rightarrow> string \<Rightarrow> string \<Rightarrow> bool" where
  "CanManageJetStreamAccount user clusterID accountName =
     (if CanManageJetStream user clusterID then True
      else hasAdminGrant user ResourceAccount (AccountResourceKey clusterID accountName))"

definition CanDownloadCreds :: "User \<Rightarrow> string \<Rightarrow> string \<Rightarrow> string \<Rightarrow> bool" where
  "CanDownloadCreds user clusterID accountName natsUserID =
     (if u_IsRoot user then True
      else if hasAdminGrant user ResourceSystem clusterID then True
      else
        (let accountKey = AccountResourceKey clusterID accountName;
             natsUserKey = (if \<not> IsEmpty natsUserID
                            then NATSUserResourceKey clusterID accountName natsUserID else [])
         in if list_ex (\<lambda>g.
                 g_Role g \<in> {GrantAdmin, GrantCredentialDownloader} \<and>
                 (if g_ResourceType g = ResourceAccount then g_ResourceKey g = accountKey
                  else if g_ResourceType g = ResourceNATSUser then
                    \<not> IsEmpty natsUserKey \<and> g_ResourceKey g = natsUserKey
                  else False))
               (u_Grants user)
            then True
            else HighestRole (u_Roles user) = RoleAdmin \<and> allowsClusterRules user clusterID))"

definition CanManageSystemAccess :: "User \<Rightarrow> string \<Rightarrow> bool" where
  "CanManageSystemAccess user clusterID =
     (if u_IsRoot user then True
      else if hasAdminGrant user ResourceSystem clusterID then True
      else CanManageUsers user \<and> CanAccessCluster user clusterID)"

definition CanManageAccountAccess :: "User \<Rightarrow> string \<Rightarrow> string \<Rightarrow> bool" where
  "CanManageAccountAccess user clusterID accountName =
     (if CanManageSystemAccess user clusterID then True
      else hasAdminGrant user ResourceAccount (AccountResourceKey clusterID accountName))"

definition CanMintAdminGrant :: "User \<Rightarrow> string \<Rightarrow> string \<Rightarrow> bool" where
  "CanMintAdminGrant user resourceType resourceKey =
     (if u_IsRoot user \<or> isLegacyFullAdmin user then True
      else hasAdminGrant user resourceType resourceKey)"

section \<open>Dispatch\<close>

record Resource =
  rs_Type :: string
  rs_Key :: string
  rs_ClusterID :: string
  rs_Account :: string
  rs_NATSUserID :: string

definition Can :: "User \<Rightarrow> string \<Rightarrow> Resource \<Rightarrow> bool" where
  "Can user action resource =
     (if action = ''write'' then CanWrite user
      else if action = ''delete_cluster'' then CanDeleteCluster user
      else if action = ''manage_users'' then CanManageUsers user
      else if action = ''view_audit'' then CanViewAudit user
      else if action = ''view_profiling'' then CanViewProfiling user
      else if action = ''manage_alert_rules'' then CanManageAlertRules user
      else if action = ''access_cluster'' then CanAccessCluster user (rs_ClusterID resource)
      else if action = ''access_cluster_or_account'' then
        CanAccessClusterOrAccount user (rs_ClusterID resource)
      else if action = ''access_account'' then
        CanAccessAccount user (rs_ClusterID resource) (rs_Account resource)
      else if action = ''write_cluster'' then CanWriteCluster user (rs_ClusterID resource)
      else if action = ''manage_jetstream'' then
        CanManageJetStream user (rs_ClusterID resource)
      else if action = ''manage_jetstream_account'' then
        CanManageJetStreamAccount user (rs_ClusterID resource) (rs_Account resource)
      else if action = ''download_creds'' then
        CanDownloadCreds user (rs_ClusterID resource) (rs_Account resource)
          (rs_NATSUserID resource)
      else if action = ''manage_system_access'' then
        CanManageSystemAccess user (rs_ClusterID resource)
      else if action = ''manage_account_access'' then
        CanManageAccountAccess user (rs_ClusterID resource) (rs_Account resource)
      else if action = ''mint_admin_grant'' then
        CanMintAdminGrant user (rs_Type resource) (rs_Key resource)
      else False)"

definition Authorize :: "User \<Rightarrow> string \<Rightarrow> Resource \<Rightarrow> bool" where
  "Authorize user action resource = Can user action resource"

section \<open>Filtering for an actor\<close>

definition shouldFilterClusters :: "Permissions \<Rightarrow> bool" where
  "shouldFilterClusters perms \<longleftrightarrow> \<not> p_IsRoot perms \<and> \<not> p_AllClusters perms"

definition AllowsClusterWithGrants :: "User \<Rightarrow> string \<Rightarrow> bool" where
  "AllowsClusterWithGrants actor clusterID =
     (if AllowsCluster (PermissionsFor actor) clusterID then True
      else list_ex (\<lambda>g.
        if g_ResourceType g = ResourceSystem then g_ResourceKey g = clusterID
        else if g_ResourceType g \<in> {ResourceAccount, ResourceNATSUser} then
          g_ResourceKey g = clusterID \<or> HasPrefix (g_ResourceKey g) (clusterID @ '':'')
        else False)
        (u_Grants actor))"

text \<open>The two filters differ only in how an element names its cluster.\<close>

definition FilterClustersForActor :: "('a \<Rightarrow> string) \<Rightarrow> 'a list \<Rightarrow> User \<Rightarrow> 'a list" where
  "FilterClustersForActor clusterID clusters actor =
     (if \<not> shouldFilterClusters (PermissionsFor actor) then clusters
      else filter (\<lambda>c. AllowsClusterWithGrants actor (clusterID c)) clusters)"

fun collect_grant_clusters :: "AccessGrant list \<Rightarrow> string list \<Rightarrow> string list" where
  "collect_grant_clusters [] ids = ids"
| "collect_grant_clusters (g # gs) ids =
     (let cid = (case Cut CHR '':'' (g_ResourceKey g) of (before, _, _) \<Rightarrow> before)
      in if IsEmpty cid then collect_grant_clusters gs ids
         else if cid \<in> set ids then collect_grant_clusters gs ids
         else collect_grant_clusters gs (ids @ [cid]))"

definition ClusterIDsForActor :: "User \<Rightarrow> string list" where
  "ClusterIDsForActor actor =
     collect_grant_clusters (u_Grants actor) (p_ClusterIDs (PermissionsFor actor))"

text \<open>The cluster part of \<^verbatim>\<open>domain.AuditFilter\<close>: one cluster, a list, or neither.\<close>

record AuditFilter =
  af_ClusterID :: string
  af_ClusterIDs :: "string list option"

definition AuditFilterForActor :: "User \<Rightarrow> string \<Rightarrow> (domain_error, AuditFilter) result" where
  "AuditFilterForActor actor clusterID =
     (if \<not> IsEmpty clusterID then
        if \<not> AllowsClusterWithGrants actor clusterID then Inl ErrForbidden
        else Inr \<lparr>af_ClusterID = clusterID, af_ClusterIDs = None\<rparr>
      else if \<not> shouldFilterClusters (PermissionsFor actor) then
        Inr \<lparr>af_ClusterID = [], af_ClusterIDs = None\<rparr>
      else Inr \<lparr>af_ClusterID = [], af_ClusterIDs = Some (ClusterIDsForActor actor)\<rparr>)"

section \<open>Lemmas\<close>

lemma isLegacyFullAdmin_iff:
  "isLegacyFullAdmin u \<longleftrightarrow> HasRole (u_Roles u) RoleAdmin \<and> u_AccessRules u = None"
  by (simp add: isLegacyFullAdmin_def)

lemma CanWrite_iff:
  "CanWrite u \<longleftrightarrow> u_IsRoot u \<or> HasRole (u_Roles u) RoleAdmin \<or> HasRole (u_Roles u) RoleOperator"
  by (auto simp: CanWrite_def Let_def HighestRole_operator_iff)

lemma allowsClusterRules_perms:
  "allowsClusterRules u c \<longleftrightarrow> AllowsCluster (PermissionsFor u) c"
  by (auto simp: allowsClusterRules_def isLegacyFullAdmin_iff PermissionsFor_def
      FullPermissions_def AllowsCluster_iff split: option.splits)

lemma hasAdminGrant_any: "hasAdminGrant u t k \<Longrightarrow> hasAdminOrObserverGrant u t k"
  by (auto simp: hasAdminGrant_def hasAdminOrObserverGrant_def list_ex_iff)

lemma CanAccessCluster_iff:
  "CanAccessCluster u c \<longleftrightarrow>
     allowsClusterRules u c \<or> hasAdminOrObserverGrant u ResourceSystem c"
  by (simp add: CanAccessCluster_def)

lemma root_allowsClusterRules [simp]: "u_IsRoot u \<Longrightarrow> allowsClusterRules u c"
  by (simp add: allowsClusterRules_def)

lemmas can_defs = CanAccessCluster_def CanAccessClusterOrAccount_def CanAccessAccount_def
  CanWriteCluster_def CanManageJetStream_def CanManageJetStreamAccount_def
  CanManageSystemAccess_def CanManageAccountAccess_def CanMintAdminGrant_def

subsection \<open>The hierarchy of rights\<close>

lemma CanManageJetStream_write: "CanManageJetStream u c \<Longrightarrow> CanWriteCluster u c"
  by (auto simp: CanManageJetStream_def CanWriteCluster_def CanWrite_iff split: if_splits)

lemma CanWriteCluster_access: "CanWriteCluster u c \<Longrightarrow> CanAccessCluster u c"
  by (auto simp: CanWriteCluster_def CanAccessCluster_iff hasAdminGrant_any split: if_splits)

lemma resource_types_distinct [simp]:
  "ResourceSystem \<noteq> ResourceAccount" "ResourceSystem \<noteq> ResourceNATSUser"
  "ResourceAccount \<noteq> ResourceSystem" "ResourceAccount \<noteq> ResourceNATSUser"
  "ResourceNATSUser \<noteq> ResourceSystem" "ResourceNATSUser \<noteq> ResourceAccount"
  by (simp_all add: grant_defs)

lemma CanAccessAccount_iff:
  "CanAccessAccount u c a \<longleftrightarrow> CanAccessCluster u c \<or>
     (\<exists>g\<in>set (u_Grants u).
        g_ResourceType g = ResourceAccount \<and> g_ResourceKey g = AccountResourceKey c a \<or>
        g_ResourceType g = ResourceNATSUser \<and>
          natsUserGrantCoversAccount (g_ResourceKey g) c a)"
proof -
  have "list_ex (\<lambda>g. if g_ResourceType g = ResourceAccount
            then g_ResourceKey g = AccountResourceKey c a
          else if g_ResourceType g = ResourceNATSUser then
            natsUserGrantCoversAccount (g_ResourceKey g) c a
          else False) (u_Grants u) \<longleftrightarrow>
     (\<exists>g\<in>set (u_Grants u).
        g_ResourceType g = ResourceAccount \<and> g_ResourceKey g = AccountResourceKey c a \<or>
        g_ResourceType g = ResourceNATSUser \<and>
          natsUserGrantCoversAccount (g_ResourceKey g) c a)"
    unfolding list_ex_iff by (rule bex_cong) auto
  then show ?thesis by (simp add: CanAccessAccount_def Let_def)
qed

lemma CanAccessCluster_account: "CanAccessCluster u c \<Longrightarrow> CanAccessAccount u c a"
  by (simp add: CanAccessAccount_def)

lemma natsUserGrantCoversAccount_iff:
  "natsUserGrantCoversAccount k c a \<longleftrightarrow>
     (\<exists>i. k = NATSUserResourceKey c a i \<and> i \<noteq> [] \<and> CHR '':'' \<notin> set i)"
proof
  assume n: "natsUserGrantCoversAccount k c a"
  let ?p = "c @ '':'' @ a @ '':''"
  from n have "HasPrefix k ?p"
    by (simp add: natsUserGrantCoversAccount_def Let_def split: if_splits)
  then obtain i where i: "k = ?p @ i" by (auto simp: HasPrefix_iff)
  then have "TrimPrefix k ?p = i" by (metis TrimPrefix_append)
  with n i show "\<exists>i. k = NATSUserResourceKey c a i \<and> i \<noteq> [] \<and> CHR '':'' \<notin> set i"
    by (auto simp: natsUserGrantCoversAccount_def NATSUserResourceKey_def Let_def split: if_splits)
next
  assume "\<exists>i. k = NATSUserResourceKey c a i \<and> i \<noteq> [] \<and> CHR '':'' \<notin> set i"
  then obtain i where i: "k = (c @ '':'' @ a @ '':'') @ i" "i \<noteq> []" "CHR '':'' \<notin> set i"
    by (auto simp: NATSUserResourceKey_def)
  then show "natsUserGrantCoversAccount k c a"
    unfolding natsUserGrantCoversAccount_def Let_def by (simp only: i(1) HasPrefix_append TrimPrefix_append) (simp add: i)
qed

lemma account_key_prefix: "HasPrefix (AccountResourceKey c a) (c @ '':'')"
  unfolding AccountResourceKey_def by simp

lemma nats_user_key_prefix: "HasPrefix (NATSUserResourceKey c a i) (c @ '':'')"
  unfolding NATSUserResourceKey_def by simp

lemma CanAccessAccount_cluster:
  assumes "CanAccessAccount u c a"
  shows "CanAccessClusterOrAccount u c"
proof (cases "CanAccessCluster u c")
  case True
  then show ?thesis by (simp add: CanAccessClusterOrAccount_def)
next
  case False
  with assms obtain g where g: "g \<in> set (u_Grants u)"
    and "g_ResourceType g = ResourceAccount \<and> g_ResourceKey g = AccountResourceKey c a \<or>
         g_ResourceType g = ResourceNATSUser \<and> natsUserGrantCoversAccount (g_ResourceKey g) c a"
    by (auto simp: CanAccessAccount_iff)
  then have "g_ResourceType g \<in> {ResourceAccount, ResourceNATSUser}"
    and "HasPrefix (g_ResourceKey g) (c @ '':'')"
    by (auto simp: natsUserGrantCoversAccount_iff account_key_prefix nats_user_key_prefix)
  with g False show ?thesis
    by (auto simp: CanAccessClusterOrAccount_def list_ex_iff)
qed

lemma CanManageJetStreamAccount_access:
  "CanManageJetStreamAccount u c a \<Longrightarrow> CanAccessAccount u c a"
  using CanManageJetStream_write CanWriteCluster_access
  by (auto simp: CanManageJetStreamAccount_def CanAccessAccount_iff hasAdminGrant_def
      list_ex_iff split: if_splits)

lemma CanDownloadCreds_iff:
  "CanDownloadCreds u c a i \<longleftrightarrow>
     u_IsRoot u \<or> hasAdminGrant u ResourceSystem c \<or>
     HasRole (u_Roles u) RoleAdmin \<and> allowsClusterRules u c \<or>
     (\<exists>g\<in>set (u_Grants u). g_Role g \<in> {GrantAdmin, GrantCredentialDownloader} \<and>
        (g_ResourceType g = ResourceAccount \<and> g_ResourceKey g = AccountResourceKey c a \<or>
         g_ResourceType g = ResourceNATSUser \<and> i \<noteq> [] \<and>
           g_ResourceKey g = NATSUserResourceKey c a i))"
proof -
  let ?nk = "if \<not> IsEmpty i then NATSUserResourceKey c a i else []"
  have "list_ex (\<lambda>g. g_Role g \<in> {GrantAdmin, GrantCredentialDownloader} \<and>
          (if g_ResourceType g = ResourceAccount then g_ResourceKey g = AccountResourceKey c a
           else if g_ResourceType g = ResourceNATSUser then
             \<not> IsEmpty ?nk \<and> g_ResourceKey g = ?nk else False)) (u_Grants u) \<longleftrightarrow>
     (\<exists>g\<in>set (u_Grants u). g_Role g \<in> {GrantAdmin, GrantCredentialDownloader} \<and>
        (g_ResourceType g = ResourceAccount \<and> g_ResourceKey g = AccountResourceKey c a \<or>
         g_ResourceType g = ResourceNATSUser \<and> i \<noteq> [] \<and>
           g_ResourceKey g = NATSUserResourceKey c a i))"
    unfolding list_ex_iff
    by (rule bex_cong) (auto simp: NATSUserResourceKey_def)
  then show ?thesis
    unfolding CanDownloadCreds_def Let_def HighestRole_admin_iff by argo
qed

lemma CanDownloadCreds_access:
  assumes "CanDownloadCreds u c a i" and "CHR '':'' \<notin> set i"
  shows "CanAccessAccount u c a"
proof (cases "CanAccessCluster u c")
  case True
  then show ?thesis by (rule CanAccessCluster_account)
next
  case False
  then have "\<not> u_IsRoot u" "\<not> hasAdminGrant u ResourceSystem c" "\<not> allowsClusterRules u c"
    by (auto simp: CanAccessCluster_iff hasAdminGrant_any)
  with assms show ?thesis
    unfolding CanDownloadCreds_iff CanAccessAccount_iff natsUserGrantCoversAccount_iff by blast
qed

subsection \<open>The two ways to decide on a cluster agree\<close>

lemma AllowsClusterWithGrants_eq:
  "AllowsClusterWithGrants u c \<longleftrightarrow> CanAccessClusterOrAccount u c"
  by (auto simp: AllowsClusterWithGrants_def CanAccessClusterOrAccount_def CanAccessCluster_iff
      allowsClusterRules_perms hasAdminOrObserverGrant_def list_ex_iff grant_defs
      split: if_splits)

subsection \<open>Grants as scopes\<close>

datatype scope =
    SystemScope string
  | AccountScope string string
  | NATSUserScope string string string

fun scope_type :: "scope \<Rightarrow> string" where
  "scope_type (SystemScope c) = ResourceSystem"
| "scope_type (AccountScope c a) = ResourceAccount"
| "scope_type (NATSUserScope c a i) = ResourceNATSUser"

fun scope_key :: "scope \<Rightarrow> string" where
  "scope_key (SystemScope c) = c"
| "scope_key (AccountScope c a) = AccountResourceKey c a"
| "scope_key (NATSUserScope c a i) = NATSUserResourceKey c a i"

fun scope_cluster :: "scope \<Rightarrow> string" where
  "scope_cluster (SystemScope c) = c"
| "scope_cluster (AccountScope c a) = c"
| "scope_cluster (NATSUserScope c a i) = c"

definition colon_free :: "string \<Rightarrow> bool" where
  "colon_free s \<longleftrightarrow> s \<noteq> [] \<and> CHR '':'' \<notin> set s"

fun wf_scope :: "scope \<Rightarrow> bool" where
  "wf_scope (SystemScope c) \<longleftrightarrow> colon_free c"
| "wf_scope (AccountScope c a) \<longleftrightarrow> colon_free c \<and> colon_free a"
| "wf_scope (NATSUserScope c a i) \<longleftrightarrow> colon_free c \<and> colon_free a \<and> colon_free i"

fun covers_account :: "scope \<Rightarrow> string \<Rightarrow> string \<Rightarrow> bool" where
  "covers_account (SystemScope c') c a \<longleftrightarrow> c' = c"
| "covers_account (AccountScope c' a') c a \<longleftrightarrow> c' = c \<and> a' = a"
| "covers_account (NATSUserScope c' a' i) c a \<longleftrightarrow> c' = c \<and> a' = a"

definition grant_of :: "scope \<Rightarrow> AccessGrant \<Rightarrow> bool" where
  "grant_of sc g \<longleftrightarrow>
     wf_scope sc \<and> g_ResourceType g = scope_type sc \<and> g_ResourceKey g = scope_key sc"

definition wf_grants :: "User \<Rightarrow> bool" where
  "wf_grants u \<longleftrightarrow> (\<forall>g\<in>set (u_Grants u). \<exists>sc. grant_of sc g)"

lemma colon_parts_eq:
  assumes "c @ CHR '':'' # r = c' @ CHR '':'' # r'"
    and "CHR '':'' \<notin> set c" and "CHR '':'' \<notin> set c'"
  shows "c = c' \<and> r = r'"
  using arg_cong [OF assms(1), of "Cut CHR '':''"] assms(2,3) by simp

lemma ValidateAccountName_colon_free: "ValidateAccountName a = None \<Longrightarrow> colon_free a"
  by (auto simp: ValidateAccountName_def colon_free_def split: if_splits)

lemma account_key_eq:
  "colon_free c \<Longrightarrow> colon_free c' \<Longrightarrow>
   AccountResourceKey c a = AccountResourceKey c' a' \<longleftrightarrow> c = c' \<and> a = a'"
  by (auto simp: AccountResourceKey_def colon_free_def dest: colon_parts_eq)

lemma nats_user_key_eq:
  assumes "colon_free c" "colon_free c'" "colon_free a" "colon_free a'"
  shows "NATSUserResourceKey c a i = NATSUserResourceKey c' a' i' \<longleftrightarrow>
     c = c' \<and> a = a' \<and> i = i'"
  using assms by (auto simp: NATSUserResourceKey_def colon_free_def dest!: colon_parts_eq)

lemma scope_covers_account:
  assumes "grant_of sc g" and "colon_free c" and "colon_free a"
  shows "(g_ResourceType g = ResourceSystem \<and> g_ResourceKey g = c \<or>
          g_ResourceType g = ResourceAccount \<and> g_ResourceKey g = AccountResourceKey c a \<or>
          g_ResourceType g = ResourceNATSUser \<and>
            natsUserGrantCoversAccount (g_ResourceKey g) c a)
         \<longleftrightarrow> covers_account sc c a"
proof (cases sc)
  case (SystemScope c')
  with assms show ?thesis by (auto simp: grant_of_def grant_defs)
next
  case (AccountScope c' a')
  with assms show ?thesis by (auto simp: grant_of_def grant_defs account_key_eq)
next
  case (NATSUserScope c' a' i)
  with assms show ?thesis
    by (auto simp: grant_of_def grant_defs natsUserGrantCoversAccount_iff nats_user_key_eq)
      (auto simp: colon_free_def)
qed

lemma CanAccessAccount_any_grant:
  "CanAccessAccount u c a \<longleftrightarrow> allowsClusterRules u c \<or>
     (\<exists>g\<in>set (u_Grants u).
        g_ResourceType g = ResourceSystem \<and> g_ResourceKey g = c \<or>
        g_ResourceType g = ResourceAccount \<and> g_ResourceKey g = AccountResourceKey c a \<or>
        g_ResourceType g = ResourceNATSUser \<and>
          natsUserGrantCoversAccount (g_ResourceKey g) c a)"
  unfolding CanAccessAccount_iff CanAccessCluster_iff hasAdminOrObserverGrant_def list_ex_iff
  by blast

lemma CanAccessAccount_scopes:
  assumes "wf_grants u" and "colon_free c" and "colon_free a"
  shows "CanAccessAccount u c a \<longleftrightarrow> allowsClusterRules u c \<or>
     (\<exists>g\<in>set (u_Grants u). \<exists>sc. grant_of sc g \<and> covers_account sc c a)"
proof -
  have "(g_ResourceType g = ResourceSystem \<and> g_ResourceKey g = c \<or>
          g_ResourceType g = ResourceAccount \<and> g_ResourceKey g = AccountResourceKey c a \<or>
          g_ResourceType g = ResourceNATSUser \<and>
            natsUserGrantCoversAccount (g_ResourceKey g) c a)
         \<longleftrightarrow> (\<exists>sc. grant_of sc g \<and> covers_account sc c a)" if "g \<in> set (u_Grants u)" for g
    using that assms(1) scope_covers_account [OF _ assms(2,3)] unfolding wf_grants_def by blast
  then show ?thesis unfolding CanAccessAccount_any_grant by blast
qed

lemma scope_key_cluster:
  assumes "grant_of sc g" and "colon_free c"
  shows "(g_ResourceKey g = c \<or> HasPrefix (g_ResourceKey g) (c @ '':'')) \<longleftrightarrow>
     scope_cluster sc = c"
proof (cases sc)
  case (SystemScope c')
  with assms show ?thesis
    by (auto simp: grant_of_def colon_free_def HasPrefix_iff)
next
  case (AccountScope c' a')
  with assms show ?thesis
    by (auto simp: grant_of_def AccountResourceKey_def colon_free_def HasPrefix_iff
        dest: colon_parts_eq)
next
  case (NATSUserScope c' a' i)
  with assms show ?thesis
    by (auto simp: grant_of_def NATSUserResourceKey_def colon_free_def HasPrefix_iff
        dest: colon_parts_eq)
qed

lemma Cut_scope_key: "wf_scope sc \<Longrightarrow> fst (Cut CHR '':'' (scope_key sc)) = scope_cluster sc"
  by (cases sc) (auto simp: colon_free_def AccountResourceKey_def NATSUserResourceKey_def)

lemma set_collect_grant_clusters:
  "set (collect_grant_clusters gs ids) =
     set ids \<union> {c. c \<noteq> [] \<and> (\<exists>g\<in>set gs. c = fst (Cut CHR '':'' (g_ResourceKey g)))}"
  by (induction gs ids rule: collect_grant_clusters.induct)
    (auto simp: Let_def split: prod.splits)

lemma grant_of_type:
  "grant_of sc g \<Longrightarrow>
   g_ResourceType g = ResourceSystem \<or> g_ResourceType g = ResourceAccount \<or>
   g_ResourceType g = ResourceNATSUser"
  by (cases sc) (auto simp: grant_of_def)

lemma grant_of_system_key:
  "grant_of sc g \<Longrightarrow> g_ResourceType g = ResourceSystem \<Longrightarrow> g_ResourceKey g = scope_cluster sc"
  by (cases sc) (auto simp: grant_of_def grant_defs)

lemma ClusterIDsForActor_scopes:
  assumes "wf_grants u"
  shows "set (ClusterIDsForActor u) =
     set (p_ClusterIDs (PermissionsFor u)) \<union>
     {scope_cluster sc |sc g. g \<in> set (u_Grants u) \<and> grant_of sc g}"
proof -
  have eq: "fst (Cut CHR '':'' (g_ResourceKey g)) = scope_cluster sc \<and> scope_cluster sc \<noteq> []"
    if "grant_of sc g" for sc g
    using that Cut_scope_key [of sc] by (cases sc) (auto simp: grant_of_def colon_free_def)
  have "{c. c \<noteq> [] \<and> (\<exists>g\<in>set (u_Grants u). c = fst (Cut CHR '':'' (g_ResourceKey g)))} =
     {scope_cluster sc |sc g. g \<in> set (u_Grants u) \<and> grant_of sc g}" (is "?L = ?R")
  proof
    show "?L \<subseteq> ?R" using assms eq unfolding wf_grants_def by blast
    show "?R \<subseteq> ?L" using eq by force
  qed
  then show ?thesis by (simp add: ClusterIDsForActor_def set_collect_grant_clusters)
qed

lemma AllowsClusterWithGrants_scopes:
  assumes "wf_grants u" and "colon_free c"
  shows "AllowsClusterWithGrants u c \<longleftrightarrow> AllowsCluster (PermissionsFor u) c \<or>
     (\<exists>sc g. g \<in> set (u_Grants u) \<and> grant_of sc g \<and> scope_cluster sc = c)"
proof -
  have *: "(if g_ResourceType g = ResourceSystem then g_ResourceKey g = c
         else if g_ResourceType g \<in> {ResourceAccount, ResourceNATSUser} then
           g_ResourceKey g = c \<or> HasPrefix (g_ResourceKey g) (c @ '':'')
         else False) \<longleftrightarrow> scope_cluster sc = c"
    if "grant_of sc g" for sc g
    using grant_of_type [OF that] scope_key_cluster [OF that assms(2)] grant_of_system_key [OF that]
    by auto
  have "list_ex (\<lambda>g. if g_ResourceType g = ResourceSystem then g_ResourceKey g = c
         else if g_ResourceType g \<in> {ResourceAccount, ResourceNATSUser} then
           g_ResourceKey g = c \<or> HasPrefix (g_ResourceKey g) (c @ '':'')
         else False) (u_Grants u) \<longleftrightarrow>
     (\<exists>g\<in>set (u_Grants u). \<exists>sc. grant_of sc g \<and> scope_cluster sc = c)"
    unfolding list_ex_iff
  proof (rule bex_cong [OF refl])
    fix g assume "g \<in> set (u_Grants u)"
    with assms(1) obtain sc where "grant_of sc g" unfolding wf_grants_def by blast
    with * show "(if g_ResourceType g = ResourceSystem then g_ResourceKey g = c
         else if g_ResourceType g \<in> {ResourceAccount, ResourceNATSUser} then
           g_ResourceKey g = c \<or> HasPrefix (g_ResourceKey g) (c @ '':'')
         else False) \<longleftrightarrow> (\<exists>sc. grant_of sc g \<and> scope_cluster sc = c)" by metis
  qed
  then show ?thesis unfolding AllowsClusterWithGrants_def by auto
qed

lemma ClusterIDsForActor_iff:
  assumes "wf_grants u" and "shouldFilterClusters (PermissionsFor u)" and "colon_free c"
  shows "c \<in> set (ClusterIDsForActor u) \<longleftrightarrow> AllowsClusterWithGrants u c"
  using assms
  by (auto simp: ClusterIDsForActor_scopes AllowsClusterWithGrants_scopes AllowsCluster_iff
      shouldFilterClusters_def)

section \<open>Properties\<close>

definition observer_user :: User where
  "observer_user = zero_user\<lparr>u_ID := ''o'', u_Roles := [RoleViewer], u_Grants :=
     [zero_grant\<lparr>g_ResourceType := ResourceAccount, g_ResourceKey := ''c1:orders'',
        g_Role := GrantObserver\<rparr>,
      zero_grant\<lparr>g_ResourceType := ResourceNATSUser, g_ResourceKey := ''c1:orders:u7'',
        g_Role := GrantCredentialDownloader\<rparr>]\<rparr>"

lemma observer_user_wf: "wf_grants observer_user"
proof -
  have "grant_of (AccountScope ''c1'' ''orders'') (u_Grants observer_user ! 0)"
    "grant_of (NATSUserScope ''c1'' ''orders'' ''u7'') (u_Grants observer_user ! 1)"
    by code_simp+
  moreover have "set (u_Grants observer_user) =
      {u_Grants observer_user ! 0, u_Grants observer_user ! 1}"
    by (simp add: observer_user_def)
  ultimately show ?thesis unfolding wf_grants_def by auto
qed

text \<open>The rights on a cluster form a chain.  Managing JetStream includes writing,
  writing includes access to the cluster, which includes access to each of its accounts,
  which makes the cluster visible; and who may download the credentials of a NATS user
  may access its account.\<close>

theorem rights_hierarchy:
  "(CanManageJetStream u c \<longrightarrow> CanWriteCluster u c) \<and>
   (CanWriteCluster u c \<longrightarrow> CanAccessCluster u c) \<and>
   (CanAccessCluster u c \<longrightarrow> CanAccessAccount u c a) \<and>
   (CanManageJetStreamAccount u c a \<longrightarrow> CanAccessAccount u c a) \<and>
   (CanDownloadCreds u c a i \<and> CHR '':'' \<notin> set i \<longrightarrow> CanAccessAccount u c a) \<and>
   (CanAccessAccount u c a \<longrightarrow> CanAccessClusterOrAccount u c)"
  using CanManageJetStream_write CanWriteCluster_access CanAccessCluster_account
    CanManageJetStreamAccount_access CanDownloadCreds_access CanAccessAccount_cluster
  by blast

theorem rights_hierarchy_witness:
  "CanDownloadCreds observer_user ''c1'' ''orders'' ''u7'' \<and>
   CanAccessAccount observer_user ''c1'' ''orders'' \<and>
   CanAccessClusterOrAccount observer_user ''c1'' \<and>
   \<not> CanAccessCluster observer_user ''c1''"
proof -
  have "CanDownloadCreds observer_user ''c1'' ''orders'' ''u7''"
    "CHR '':'' \<notin> set ''u7''" "\<not> CanAccessCluster observer_user ''c1''"
    by code_simp+
  with rights_hierarchy [of observer_user "''c1''" "''orders''" "''u7''"] show ?thesis by blast
qed

text \<open>Access to an account, decided by comparing strings, is what the grants mean.
  When the keys of the grants are built from parts without a colon, a user may access
  the account \<open>a\<close> of the cluster \<open>c\<close> exactly when the rules allow the cluster or a
  grant covers it: one on the system, one on this account, or one on a NATS user of this
  account; no other account of the cluster, whatever its name begins with.\<close>

theorem account_access_by_scope:
  assumes "wf_grants u" and "colon_free c" and "ValidateAccountName a = None"
  shows "CanAccessAccount u c a \<longleftrightarrow> AllowsCluster (PermissionsFor u) c \<or>
     (\<exists>g\<in>set (u_Grants u). \<exists>sc. grant_of sc g \<and> covers_account sc c a)"
  using CanAccessAccount_scopes [OF assms(1,2) ValidateAccountName_colon_free [OF assms(3)]]
  by (simp add: allowsClusterRules_perms)

theorem account_access_by_scope_witness:
  "(CanAccessAccount observer_user ''c1'' ''orders'' \<longleftrightarrow>
     AllowsCluster (PermissionsFor observer_user) ''c1'' \<or>
     (\<exists>g\<in>set (u_Grants observer_user). \<exists>sc. grant_of sc g \<and> covers_account sc ''c1'' ''orders'')) \<and>
   \<not> CanAccessAccount observer_user ''c1'' ''order''"
proof -
  have "colon_free ''c1''" "ValidateAccountName ''orders'' = None"
    "\<not> CanAccessAccount observer_user ''c1'' ''order''" by code_simp+
  with account_access_by_scope [OF observer_user_wf] show ?thesis by blast
qed

text \<open>A listing of clusters (or of cluster metrics) for an actor is exact: it keeps
  the order, and holds the elements whose cluster the actor can see and no others, so
  the listing and the decision on each single cluster never disagree.\<close>

theorem filter_clusters_exact:
  "FilterClustersForActor clusterID clusters actor =
     filter (\<lambda>c. CanAccessClusterOrAccount actor (clusterID c)) clusters"
proof (cases "shouldFilterClusters (PermissionsFor actor)")
  case True
  then show ?thesis by (simp add: FilterClustersForActor_def AllowsClusterWithGrants_eq)
next
  case False
  then have "AllowsClusterWithGrants actor c" for c
    by (auto simp: shouldFilterClusters_def AllowsClusterWithGrants_def AllowsCluster_iff)
  then show ?thesis
    using False by (simp add: FilterClustersForActor_def flip: AllowsClusterWithGrants_eq)
qed

text \<open>What an audit filter selects, by the cluster of the entry.\<close>

definition filter_selects :: "AuditFilter \<Rightarrow> string \<Rightarrow> bool" where
  "filter_selects f c \<longleftrightarrow>
     (if af_ClusterID f \<noteq> [] then c = af_ClusterID f
      else (case af_ClusterIDs f of None \<Rightarrow> True | Some cs \<Rightarrow> c \<in> set cs))"

text \<open>The audit filter built for an actor leaks no entry of a cluster that the actor
  cannot see and hides no entry of one that it can: a request without a cluster selects
  exactly the visible clusters, and a request for one cluster is refused or selects
  exactly that one.\<close>

theorem audit_filter_exact:
  assumes "wf_grants actor" and "colon_free c"
  shows "(case AuditFilterForActor actor req of
       Inl e \<Rightarrow> e = ErrForbidden \<and> req \<noteq> [] \<and> \<not> CanAccessClusterOrAccount actor req
     | Inr f \<Rightarrow> filter_selects f c \<longleftrightarrow>
         CanAccessClusterOrAccount actor c \<and> (req = [] \<or> c = req))"
proof (cases "req = []")
  case False
  then show ?thesis
    by (auto simp: AuditFilterForActor_def filter_selects_def AllowsClusterWithGrants_eq)
next
  case True
  show ?thesis
  proof (cases "shouldFilterClusters (PermissionsFor actor)")
    case f: True
    then show ?thesis
      using True ClusterIDsForActor_iff [OF assms(1) f assms(2)]
      by (simp add: AuditFilterForActor_def filter_selects_def AllowsClusterWithGrants_eq)
  next
    case False
    then have "AllowsClusterWithGrants actor c"
      by (auto simp: shouldFilterClusters_def AllowsClusterWithGrants_def AllowsCluster_iff)
    then show ?thesis using True False
      by (simp add: AuditFilterForActor_def filter_selects_def AllowsClusterWithGrants_eq)
  qed
qed

theorem audit_filter_exact_witness:
  "AuditFilterForActor observer_user [] = Inr \<lparr>af_ClusterID = [], af_ClusterIDs = Some [''c1'']\<rparr> \<and>
   CanAccessClusterOrAccount observer_user ''c1'' \<and>
   \<not> CanAccessClusterOrAccount observer_user ''c2''"
proof -
  have f: "AuditFilterForActor observer_user [] =
      Inr \<lparr>af_ClusterID = [], af_ClusterIDs = Some [''c1'']\<rparr>"
    "colon_free ''c1''" "colon_free ''c2''" by code_simp+
  have "filter_selects \<lparr>af_ClusterID = [], af_ClusterIDs = Some [''c1'']\<rparr> ''c1''"
    "\<not> filter_selects \<lparr>af_ClusterID = [], af_ClusterIDs = Some [''c1'']\<rparr> ''c2''" by code_simp+
  with f audit_filter_exact [OF observer_user_wf f(2), of "[]"]
    audit_filter_exact [OF observer_user_wf f(3), of "[]"] show ?thesis by simp
qed

end
