(* ===== verification/Users.thy ===== *)
theory Users
  imports Authz
begin

text \<open>
  User administration: the table of users (\<^verbatim>\<open>internal/repo/users.go\<close> behind
  \<^verbatim>\<open>internal/adapter/postgres/db.go\<close>) and the service over it
  (\<^verbatim>\<open>internal/app/users.go\<close>).

  The database state holds the rows of \<^verbatim>\<open>users\<close>, of \<^verbatim>\<open>user_roles\<close> and of
  \<^verbatim>\<open>access_grants\<close>, with the constraints of the schema (\<^verbatim>\<open>migrations/004\<close>,
  \<^verbatim>\<open>005\<close>, \<^verbatim>\<open>010\<close>) checked where a statement runs into them; a statement that
  fails rolls its transaction back.  The generated id, the clock reading and the bcrypt
  hash are arguments.  Failures of the connection, and the order of the rows of a
  listing (by name, in the collation of the database), are not modelled.

  The port \<^verbatim>\<open>port.UserRepository\<close> is a record of operations; what the service relies
  on is the locale \<open>user_repository\<close>, which the database model is shown to meet.
\<close>

section \<open>The tables\<close>

record UserRow =
  r_ID :: string
  r_Username :: string
  r_Email :: string
  r_PasswordHash :: string
  r_OIDCSub :: string
  r_IsRoot :: bool
  r_AccessRules :: "AccessRules option"
  r_CreatedAt :: gotime

record UserDB =
  db_users :: "UserRow list"
  db_user_roles :: "(string \<times> string) list"
  db_grants :: "AccessGrant list"

definition roles_of :: "UserDB \<Rightarrow> string \<Rightarrow> string list" where
  "roles_of db userID =
     filter (\<lambda>role. (userID, role) \<in> set (db_user_roles db)) [RoleAdmin, RoleOperator, RoleViewer]"

definition grants_of :: "UserDB \<Rightarrow> string \<Rightarrow> AccessGrant list" where
  "grants_of db userID = filter (\<lambda>g. g_UserID g = userID) (db_grants db)"

definition toDomainUser :: "UserDB \<Rightarrow> UserRow \<Rightarrow> User" where
  "toDomainUser db r =
     \<lparr>u_CreatedAt = r_CreatedAt r, u_AccessRules = r_AccessRules r,
      u_Grants = grants_of db (r_ID r), u_ID = r_ID r, u_Username = r_Username r,
      u_Email = r_Email r, u_OIDCSub = r_OIDCSub r, u_Roles = roles_of db (r_ID r),
      u_IsRoot = r_IsRoot r, u_SessionVersion = 0\<rparr>"

definition getUserWhere ::
  "(UserRow \<Rightarrow> bool) \<Rightarrow> UserDB \<Rightarrow> (domain_error, User) result" where
  "getUserWhere P db =
     (case find P (db_users db) of
        None \<Rightarrow> Inl ErrNotFound
      | Some r \<Rightarrow> Inr (toDomainUser db r))"

definition GetUserByID :: "UserDB \<Rightarrow> string \<Rightarrow> (domain_error, User) result" where
  "GetUserByID db userID = getUserWhere (\<lambda>r. r_ID r = userID) db"

definition GetUserByOIDCSub :: "UserDB \<Rightarrow> string \<Rightarrow> (domain_error, User) result" where
  "GetUserByOIDCSub db sub = getUserWhere (\<lambda>r. r_OIDCSub r = sub) db"

definition GetUserByUsername ::
  "UserDB \<Rightarrow> string \<Rightarrow> (domain_error, User \<times> string) result" where
  "GetUserByUsername db name =
     (case find (\<lambda>r. r_Username r = name) (db_users db) of
        None \<Rightarrow> Inl ErrNotFound
      | Some r \<Rightarrow> Inr (toDomainUser db r, r_PasswordHash r))"

definition ListUsers :: "UserDB \<Rightarrow> User list" where
  "ListUsers db = map (toDomainUser db) (db_users db)"

definition CountUsers :: "UserDB \<Rightarrow> nat" where
  "CountUsers db = length (db_users db)"

definition HasRootUser :: "UserDB \<Rightarrow> bool" where
  "HasRootUser db \<longleftrightarrow> list_ex r_IsRoot (db_users db)"

section \<open>Statements\<close>

definition unique_violation :: domain_error where
  "unique_violation = ErrOther ''duplicate key value violates unique constraint''"

text \<open>The insertion checks the primary key and the three unique indexes.\<close>

definition insert_user :: "UserRow \<Rightarrow> UserDB \<Rightarrow> (domain_error, UserDB) result" where
  "insert_user row db =
     (if list_ex (\<lambda>r. r_ID r = r_ID row \<or> r_Username r = r_Username row \<or>
                     (r_OIDCSub row \<noteq> [] \<and> r_OIDCSub r = r_OIDCSub row) \<or>
                     (r_IsRoot row \<and> r_IsRoot r)) (db_users db)
      then Inl unique_violation
      else Inr (db\<lparr>db_users := db_users db @ [row]\<rparr>))"

definition update_row :: "string \<Rightarrow> (UserRow \<Rightarrow> UserRow) \<Rightarrow> UserDB \<Rightarrow> UserDB" where
  "update_row userID f db =
     db\<lparr>db_users := map (\<lambda>r. if r_ID r = userID then f r else r) (db_users db)\<rparr>"

fun insert_roles ::
  "string \<Rightarrow> string list \<Rightarrow> UserDB \<Rightarrow> (domain_error, UserDB) result" where
  "insert_roles userID [] db = Inr db"
| "insert_roles userID (role # roles) db =
     (if \<not> known_role role then Inl (ErrOther (''unknown role '' @ role))
      else if (userID, role) \<in> set (db_user_roles db) then Inl unique_violation
      else if \<not> list_ex (\<lambda>r. r_ID r = userID) (db_users db) then
        Inl (ErrOther ''violates foreign key constraint'')
      else insert_roles userID roles
             (db\<lparr>db_user_roles := db_user_roles db @ [(userID, role)]\<rparr>))"

definition setUserRolesTx ::
  "string \<Rightarrow> string list \<Rightarrow> UserDB \<Rightarrow> (domain_error, UserDB) result" where
  "setUserRolesTx userID roles db =
     insert_roles userID roles
       (db\<lparr>db_user_roles := filter (\<lambda>ur. fst ur \<noteq> userID) (db_user_roles db)\<rparr>)"

section \<open>Operations of the repository\<close>

type_synonym bcrypt = "string \<Rightarrow> string option"

definition CreateUser ::
  "bcrypt \<Rightarrow> string \<Rightarrow> gotime \<Rightarrow> UserDB \<Rightarrow> UserCreate \<Rightarrow> (domain_error, User) result \<times> UserDB"
where
  "CreateUser bcrypt newID now db i =
     (if uc_IsRoot i \<and> HasRootUser db then (Inl ErrConflict, db)
      else
        (case (if IsEmpty (uc_PasswordHash i) \<and> \<not> IsEmpty (uc_Password i)
               then bcrypt (uc_Password i) else Some (uc_PasswordHash i)) of
           None \<Rightarrow> (Inl (ErrOther ''bcrypt''), db)
         | Some passwordHash \<Rightarrow>
             (let row = \<lparr>r_ID = newID, r_Username = uc_Username i, r_Email = uc_Email i,
                    r_PasswordHash = passwordHash, r_OIDCSub = uc_OIDCSub i,
                    r_IsRoot = uc_IsRoot i, r_AccessRules = uc_AccessRules i,
                    r_CreatedAt = now\<rparr>;
                  roles = (if uc_Roles i = [] then [RoleViewer] else uc_Roles i)
              in (case insert_user row db of
                    Inl e \<Rightarrow> (Inl e, db)
                  | Inr tx \<Rightarrow>
                      (case setUserRolesTx newID roles tx of
                         Inl e \<Rightarrow> (Inl e, db)
                       | Inr tx' \<Rightarrow>
                           (Inr \<lparr>u_CreatedAt = now, u_AccessRules = uc_AccessRules i,
                              u_Grants = [], u_ID = newID, u_Username = uc_Username i,
                              u_Email = uc_Email i, u_OIDCSub = uc_OIDCSub i,
                              u_Roles = roles, u_IsRoot = uc_IsRoot i,
                              u_SessionVersion = 0\<rparr>, tx'))))))"

text \<open>The three statements for the email address and the password.\<close>

definition update_login ::
  "bcrypt \<Rightarrow> string \<Rightarrow> string option \<Rightarrow> string option \<Rightarrow> UserDB \<Rightarrow> (domain_error, UserDB) result"
where
  "update_login bcrypt userID email password db =
     (case password of
        None \<Rightarrow>
          (case email of
             None \<Rightarrow> Inr db
           | Some em \<Rightarrow> Inr (update_row userID (\<lambda>r. r\<lparr>r_Email := em\<rparr>) db))
      | Some pw \<Rightarrow>
          (case bcrypt pw of
             None \<Rightarrow> Inl (ErrOther ''bcrypt'')
           | Some hash \<Rightarrow>
               (case email of
                  None \<Rightarrow> Inr (update_row userID (\<lambda>r. r\<lparr>r_PasswordHash := hash\<rparr>) db)
                | Some em \<Rightarrow>
                    Inr (update_row userID
                      (\<lambda>r. r\<lparr>r_Email := em, r_PasswordHash := hash\<rparr>) db))))"

definition UpdateUser ::
  "bcrypt \<Rightarrow> UserDB \<Rightarrow> string \<Rightarrow> UserUpdate \<Rightarrow> (domain_error, User) result \<times> UserDB"
where
  "UpdateUser bcrypt db userID i =
     (case update_login bcrypt userID (uu_Email i) (uu_Password i) db of
        Inl e \<Rightarrow> (Inl e, db)
      | Inr tx \<Rightarrow>
          (let tx1 = (if uu_SetRules i
                 then update_row userID (\<lambda>r. r\<lparr>r_AccessRules := uu_AccessRules i\<rparr>) tx
                 else tx)
           in (case (if uu_SetRoles i then setUserRolesTx userID (uu_Roles i) tx1
                     else Inr tx1) of
                 Inl e \<Rightarrow> (Inl e, db)
               | Inr tx2 \<Rightarrow> (GetUserByID tx2 userID, tx2))))"

definition DeleteUser :: "UserDB \<Rightarrow> string \<Rightarrow> domain_error option \<times> UserDB" where
  "DeleteUser db userID =
     (case GetUserByID db userID of
        Inl e \<Rightarrow> (Some e, db)
      | Inr user \<Rightarrow>
          if u_IsRoot user then (Some ErrRootProtected, db)
          else
            (if list_ex (\<lambda>r. r_ID r = userID \<and> \<not> r_IsRoot r) (db_users db) then
               (None, \<lparr>db_users = filter (\<lambda>r. \<not> (r_ID r = userID \<and> \<not> r_IsRoot r)) (db_users db),
                  db_user_roles = filter (\<lambda>ur. fst ur \<noteq> userID) (db_user_roles db),
                  db_grants = filter (\<lambda>g. g_UserID g \<noteq> userID) (db_grants db)\<rparr>)
             else (Some ErrNotFound, db)))"

definition SetUserRoles ::
  "UserDB \<Rightarrow> string \<Rightarrow> string list \<Rightarrow> domain_error option \<times> UserDB" where
  "SetUserRoles db userID roles =
     (case setUserRolesTx userID roles db of
        Inl e \<Rightarrow> (Some e, db) | Inr tx \<Rightarrow> (None, tx))"

section \<open>The service\<close>

text \<open>The operations of \<^verbatim>\<open>port.UserRepository\<close> that the service calls.\<close>

record 's UserRepository =
  ur_List :: "'s \<Rightarrow> User list"
  ur_GetByID :: "'s \<Rightarrow> string \<Rightarrow> (domain_error, User) result"
  ur_CreateUser :: "'s \<Rightarrow> UserCreate \<Rightarrow> (domain_error, User) result \<times> 's"
  ur_UpdateUser :: "'s \<Rightarrow> string \<Rightarrow> UserUpdate \<Rightarrow> (domain_error, User) result \<times> 's"
  ur_DeleteUser :: "'s \<Rightarrow> string \<Rightarrow> domain_error option \<times> 's"

definition DB_users :: "bcrypt \<Rightarrow> string \<times> gotime \<Rightarrow> UserDB UserRepository" where
  "DB_users bcrypt env =
     \<lparr>ur_List = ListUsers, ur_GetByID = GetUserByID,
      ur_CreateUser = CreateUser bcrypt (fst env) (snd env),
      ur_UpdateUser = UpdateUser bcrypt, ur_DeleteUser = DeleteUser\<rparr>"

definition validateRoles :: "string list \<Rightarrow> domain_error option" where
  "validateRoles roles =
     (if roles = [] then Some (ErrOther ''roles required'')
      else (case find (\<lambda>role. \<not> known_role role) roles of
          Some role \<Rightarrow> Some (ErrOther (''invalid role: '' @ role))
        | None \<Rightarrow> None))"

definition authorizeUserMutation :: "User \<Rightarrow> User \<Rightarrow> domain_error option" where
  "authorizeUserMutation actor target =
     (if u_IsRoot target \<and> \<not> u_IsRoot actor then Some ErrRootProtected
      else if u_ID actor = u_ID target \<and> \<not> u_IsRoot actor then Some ErrForbidden
      else
        (let perms = PermissionsFor actor
         in if \<not> p_ManageUsers perms then Some ErrForbidden
            else if p_IsRoot perms then None
            else if \<not> SupersetOf perms (PermissionsFor target) \<and> u_ID actor \<noteq> u_ID target
            then Some ErrForbidden
            else None))"

definition UserService_List ::
  "'s UserRepository \<Rightarrow> 's \<Rightarrow> User \<Rightarrow> (domain_error, User list) result" where
  "UserService_List repo s actor =
     (let perms = PermissionsFor actor
      in if \<not> p_ManageUsers perms \<and> \<not> p_IsRoot perms then Inl ErrForbidden
         else
           (let users = ur_List repo s
            in if p_IsRoot perms then Inr users
               else Inr (filter (\<lambda>user. \<not> u_IsRoot user \<and>
                      (SupersetOf perms (PermissionsFor user) \<or> u_ID actor = u_ID user)) users)))"

definition UserService_Create ::
  "'s UserRepository \<Rightarrow> 's \<Rightarrow> User \<Rightarrow> UserCreate \<Rightarrow> (domain_error, User) result \<times> 's"
where
  "UserService_Create repo s actor i =
     (let perms = PermissionsFor actor
      in if \<not> p_ManageUsers perms then (Inl ErrForbidden, s)
         else if uc_IsRoot i then (Inl ErrForbidden, s)
         else (case validateRoles (uc_Roles i) of Some e \<Rightarrow> (Inl e, s) | None \<Rightarrow>
           (case (if uc_AccessRules i = None then
                    (if \<not> p_IsRoot perms \<or> \<not> HasRole (uc_Roles i) RoleAdmin
                     then Some (ErrOther ''accessRules required'') else None)
                  else ValidateAccessRules (uc_AccessRules i)) of
              Some e \<Rightarrow> (Inl e, s)
            | None \<Rightarrow>
                if \<not> p_IsRoot perms \<and> \<not> AllowsRoles perms (uc_Roles i)
                then (Inl ErrCannotEscalate, s)
                else if \<not> p_IsRoot perms \<and> \<not> CanAssignAccessRules perms (uc_AccessRules i)
                then (Inl ErrCannotEscalate, s)
                else ur_CreateUser repo s i)))"

text \<open>The checks of an update before it reaches the repository.\<close>

definition update_checks :: "Permissions \<Rightarrow> UserUpdate \<Rightarrow> domain_error option" where
  "update_checks perms i =
     (case (if uu_SetRoles i then
              (case validateRoles (uu_Roles i) of
                 Some e \<Rightarrow> Some e
               | None \<Rightarrow> if \<not> AllowsRoles perms (uu_Roles i) then Some ErrCannotEscalate else None)
            else None) of
        Some e \<Rightarrow> Some e
      | None \<Rightarrow>
          if uu_SetRules i then
            (if uu_AccessRules i = None then
               (if \<not> p_IsRoot perms then Some ErrCannotEscalate else None)
             else (case ValidateAccessRules (uu_AccessRules i) of
                 Some e \<Rightarrow> Some e
               | None \<Rightarrow>
                   if \<not> CanAssignAccessRules perms (uu_AccessRules i)
                   then Some ErrCannotEscalate else None))
          else None)"

definition UserService_Update ::
  "'s UserRepository \<Rightarrow> 's \<Rightarrow> User \<Rightarrow> string \<Rightarrow> UserUpdate \<Rightarrow>
   (domain_error, User) result \<times> 's"
where
  "UserService_Update repo s actor userID i =
     (case ur_GetByID repo s userID of
        Inl e \<Rightarrow> (Inl e, s)
      | Inr target \<Rightarrow>
          (case authorizeUserMutation actor target of
             Some e \<Rightarrow> (Inl e, s)
           | None \<Rightarrow>
               (case update_checks (PermissionsFor actor) i of
                  Some e \<Rightarrow> (Inl e, s)
                | None \<Rightarrow> ur_UpdateUser repo s userID i)))"

definition UserService_Delete ::
  "'s UserRepository \<Rightarrow> 's \<Rightarrow> User \<Rightarrow> string \<Rightarrow> domain_error option \<times> 's" where
  "UserService_Delete repo s actor userID =
     (if u_ID actor = userID then (Some ErrForbidden, s)
      else (case ur_GetByID repo s userID of
          Inl e \<Rightarrow> (Some e, s)
        | Inr target \<Rightarrow>
            (case authorizeUserMutation actor target of
               Some e \<Rightarrow> (Some e, s)
             | None \<Rightarrow> ur_DeleteUser repo s userID)))"

definition UserService_SetRoles ::
  "'s UserRepository \<Rightarrow> 's \<Rightarrow> User \<Rightarrow> string \<Rightarrow> string list \<Rightarrow>
   (domain_error, User) result \<times> 's"
where
  "UserService_SetRoles repo s actor userID roles =
     UserService_Update repo s actor userID
       \<lparr>uu_Email = None, uu_Password = None, uu_AccessRules = None, uu_Roles = roles,
        uu_SetRoles = True, uu_SetRules = False\<rparr>"

section \<open>Steps of the service\<close>

text \<open>A call of the service by an actor that the repository holds; the environment \<open>e\<close>
  (the id and the clock reading) may differ from call to call.\<close>

inductive user_step :: "('e \<Rightarrow> 's UserRepository) \<Rightarrow> User \<Rightarrow> 's \<Rightarrow> 's \<Rightarrow> bool"
  for repo :: "'e \<Rightarrow> 's UserRepository" and actor :: User
where
  step_create:
    "ur_GetByID (repo e) s aid = Inr actor \<Longrightarrow>
     UserService_Create (repo e) s actor c = (r, s') \<Longrightarrow> user_step repo actor s s'"
| step_update:
    "ur_GetByID (repo e) s aid = Inr actor \<Longrightarrow>
     UserService_Update (repo e) s actor userID m = (r, s') \<Longrightarrow> user_step repo actor s s'"
| step_setroles:
    "ur_GetByID (repo e) s aid = Inr actor \<Longrightarrow>
     UserService_SetRoles (repo e) s actor userID roles = (r, s') \<Longrightarrow> user_step repo actor s s'"
| step_delete:
    "ur_GetByID (repo e) s aid = Inr actor \<Longrightarrow>
     UserService_Delete (repo e) s actor userID = (d, s') \<Longrightarrow> user_step repo actor s s'"

definition any_step :: "('e \<Rightarrow> 's UserRepository) \<Rightarrow> 's \<Rightarrow> 's \<Rightarrow> bool" where
  "any_step repo s s' \<longleftrightarrow> (\<exists>actor. user_step repo actor s s')"

definition delegated_step :: "('e \<Rightarrow> 's UserRepository) \<Rightarrow> 's \<Rightarrow> 's \<Rightarrow> bool" where
  "delegated_step repo s s' \<longleftrightarrow> (\<exists>actor. \<not> u_IsRoot actor \<and> user_step repo actor s s')"

type_synonym 's getter = "'s \<Rightarrow> string \<Rightarrow> (domain_error, User) result"

definition delegate :: "'s getter \<Rightarrow> 's \<Rightarrow> User \<Rightarrow> bool" where
  "delegate get s u \<longleftrightarrow> (\<exists>i. get s i = Inr u) \<and> \<not> u_IsRoot u"

text \<open>All users but the root are scoped by access rules.\<close>

definition all_scoped :: "'s getter \<Rightarrow> 's \<Rightarrow> bool" where
  "all_scoped get s \<longleftrightarrow> (\<forall>u. delegate get s u \<longrightarrow> u_AccessRules u \<noteq> None)"

text \<open>Nobody but the root has more in \<open>s'\<close> than somebody but the root had in \<open>s\<close>: no
  permissions beyond those of one user, and no role that nobody held or could assign.\<close>

definition confined :: "'s getter \<Rightarrow> 's \<Rightarrow> 's \<Rightarrow> bool" where
  "confined get s s' \<longleftrightarrow> (\<forall>u. delegate get s' u \<longrightarrow>
     (\<exists>v. delegate get s v \<and> perm_le (PermissionsFor u) (PermissionsFor v)) \<and>
     (\<forall>role\<in>set (u_Roles u). \<exists>v. delegate get s v \<and>
        (role \<in> set (u_Roles v) \<or> AllowsRole (PermissionsFor v) role)))"

lemma confined_refl: "confined get s s"
  unfolding confined_def by blast

lemma confined_trans:
  assumes "confined get s t" and "confined get t w"
  shows "confined get s w"
proof -
  have "\<exists>v. delegate get s v \<and> perm_le (PermissionsFor u) (PermissionsFor v)"
    if u: "delegate get w u" for u
    using assms u unfolding confined_def by (meson perm_le_trans)
  moreover have "\<exists>v. delegate get s v \<and> (role \<in> set (u_Roles v) \<or> AllowsRole (PermissionsFor v) role)"
    if u: "delegate get w u" "role \<in> set (u_Roles u)" for u role
  proof -
    obtain v where v: "delegate get t v" "role \<in> set (u_Roles v) \<or> AllowsRole (PermissionsFor v) role"
      using assms(2) u unfolding confined_def by blast
    then show ?thesis using assms(1) unfolding confined_def perm_le_def by meson
  qed
  ultimately show ?thesis unfolding confined_def by blast
qed

subsection \<open>What the checks of the service guarantee\<close>

lemma authorizeUserMutation_None:
  assumes "authorizeUserMutation actor target = None" and "\<not> u_IsRoot actor"
  shows "\<not> u_IsRoot target" and "u_ID actor \<noteq> u_ID target"
    and "SupersetOf (PermissionsFor actor) (PermissionsFor target)"
  using assms by (auto simp: authorizeUserMutation_def Let_def split: if_splits)

lemma update_checks_None:
  assumes "update_checks p m = None" and "\<not> p_IsRoot p"
  shows "uu_SetRoles m \<Longrightarrow> \<forall>role\<in>set (uu_Roles m). AllowsRole p role"
    and "uu_SetRules m \<Longrightarrow> \<exists>r. uu_AccessRules m = Some r \<and> CanAssignAccessRules p (Some r)"
  using assms by (auto simp: update_checks_def split: if_splits option.splits)

lemma UserService_Create_cases:
  assumes "UserService_Create repo s actor c = (r, s')"
  obtains e where "r = Inl e" "s' = s"
  | "ur_CreateUser repo s c = (r, s')" "\<not> uc_IsRoot c" "uc_Roles c \<noteq> []"
    "\<not> u_IsRoot actor \<Longrightarrow>
       (\<forall>role\<in>set (uc_Roles c). AllowsRole (PermissionsFor actor) role) \<and>
       (\<exists>rl. uc_AccessRules c = Some rl \<and> CanAssignAccessRules (PermissionsFor actor) (Some rl))"
proof (cases "\<exists>e. r = Inl e \<and> s' = s")
  case True
  with that(1) show ?thesis by blast
next
  case False
  with assms have "ur_CreateUser repo s c = (r, s') \<and> \<not> uc_IsRoot c \<and> uc_Roles c \<noteq> [] \<and>
    (\<not> u_IsRoot actor \<longrightarrow>
       (\<forall>role\<in>set (uc_Roles c). AllowsRole (PermissionsFor actor) role) \<and>
       (\<exists>rl. uc_AccessRules c = Some rl \<and> CanAssignAccessRules (PermissionsFor actor) (Some rl)))"
    by (auto simp: UserService_Create_def Let_def validateRoles_def
        split: if_splits option.splits)
  with that(2) show ?thesis by blast
qed

lemma UserService_Update_cases:
  assumes "UserService_Update repo s actor i m = (r, s')"
  obtains e where "r = Inl e" "s' = s"
  | t where "ur_GetByID repo s i = Inr t" "authorizeUserMutation actor t = None"
    "update_checks (PermissionsFor actor) m = None" "ur_UpdateUser repo s i m = (r, s')"
proof (cases "\<exists>e. r = Inl e \<and> s' = s")
  case True
  with that(1) show ?thesis by blast
next
  case False
  show ?thesis
  proof (cases "ur_GetByID repo s i")
    case (Inl e)
    then have "r = Inl e" and "s' = s" using assms by (simp_all add: UserService_Update_def)
    with False show ?thesis by blast
  next
    case (Inr t)
    with assms False that(2) show ?thesis
      by (auto simp: UserService_Update_def split: option.splits)
  qed
qed

lemma UserService_Delete_cases:
  assumes "UserService_Delete repo s actor i = (d, s')"
  obtains "d \<noteq> None" "s' = s"
  | t where "ur_GetByID repo s i = Inr t" "authorizeUserMutation actor t = None"
    "ur_DeleteUser repo s i = (d, s')"
proof (cases "d \<noteq> None \<and> s' = s")
  case True
  with that(1) show ?thesis by blast
next
  case False
  with assms that(2) show ?thesis
    by (auto simp: UserService_Delete_def split: sum.splits option.splits if_splits)
qed

section \<open>The contract of the repository\<close>

locale user_repository =
  fixes repo :: "'e \<Rightarrow> 's UserRepository"
    and get :: "'s getter"
    and inv :: "'s \<Rightarrow> bool"
  assumes GetByID: "ur_GetByID (repo e) = get"
    and get_ID: "get s i = Inr u \<Longrightarrow> u_ID u = i"
    and inv_create: "inv s \<Longrightarrow> ur_CreateUser (repo e) s c = (r, s') \<Longrightarrow> inv s'"
    and inv_update: "inv s \<Longrightarrow> ur_UpdateUser (repo e) s i m = (r, s') \<Longrightarrow> inv s'"
    and inv_delete: "inv s \<Longrightarrow> ur_DeleteUser (repo e) s i = (d, s') \<Longrightarrow> inv s'"
    and create_err: "ur_CreateUser (repo e) s c = (Inl err, s') \<Longrightarrow> s' = s"
    and create_ok:
      "inv s \<Longrightarrow> ur_CreateUser (repo e) s c = (Inr u, s') \<Longrightarrow>
       (\<exists>u'. get s' (u_ID u) = Inr u' \<and> u_IsRoot u' = uc_IsRoot c \<and>
          u_AccessRules u' = uc_AccessRules c \<and>
          (uc_Roles c \<noteq> [] \<longrightarrow> set (u_Roles u') = set (uc_Roles c))) \<and>
       get s (u_ID u) = Inl ErrNotFound \<and> (\<forall>j. j \<noteq> u_ID u \<longrightarrow> get s' j = get s j)"
    and update:
      "inv s \<Longrightarrow> get s i = Inr t \<Longrightarrow> ur_UpdateUser (repo e) s i m = (r, s') \<Longrightarrow>
       s' = s \<or>
       (\<exists>u. get s' i = Inr u \<and> u_IsRoot u = u_IsRoot t \<and>
          u_AccessRules u = (if uu_SetRules m then uu_AccessRules m else u_AccessRules t) \<and>
          set (u_Roles u) = (if uu_SetRoles m then set (uu_Roles m) else set (u_Roles t))) \<and>
       (\<forall>j. j \<noteq> i \<longrightarrow> get s' j = get s j)"
    and delete:
      "inv s \<Longrightarrow> ur_DeleteUser (repo e) s i = (d, s') \<Longrightarrow>
       s' = s \<or>
       (\<exists>t. get s i = Inr t \<and> \<not> u_IsRoot t) \<and> get s' i = Inl ErrNotFound \<and>
       (\<forall>j. j \<noteq> i \<longrightarrow> get s' j = get s j)"
begin

text \<open>Every call falls into one of four cases, whoever makes it.\<close>

lemma step_cases:
  assumes "user_step repo actor s s'" and "inv s"
  obtains "s' = s"
  | u c where "get s (u_ID u) = Inl ErrNotFound" "get s' (u_ID u) = Inr u"
      "\<And>j. j \<noteq> u_ID u \<Longrightarrow> get s' j = get s j"
      "\<not> u_IsRoot u" "u_AccessRules u = uc_AccessRules (c :: UserCreate)" "set (u_Roles u) = set (uc_Roles c)"
      "\<exists>i. get s i = Inr actor"
      "\<not> u_IsRoot actor \<Longrightarrow>
       (\<forall>role\<in>set (uc_Roles c). AllowsRole (PermissionsFor actor) role) \<and>
       (\<exists>rl. uc_AccessRules c = Some rl \<and> CanAssignAccessRules (PermissionsFor actor) (Some rl))"
  | i t u m where "get s i = Inr t" "get s' i = Inr u" "\<And>j. j \<noteq> i \<Longrightarrow> get s' j = get s j"
      "u_IsRoot u = u_IsRoot t" "authorizeUserMutation actor t = None"
      "update_checks (PermissionsFor actor) (m :: UserUpdate) = None" "\<exists>i. get s i = Inr actor"
      "u_AccessRules u = (if uu_SetRules m then uu_AccessRules m else u_AccessRules t)"
      "set (u_Roles u) = (if uu_SetRoles m then set (uu_Roles m) else set (u_Roles t))"
  | i t where "get s i = Inr t" "\<not> u_IsRoot t" "get s' i = Inl ErrNotFound"
      "\<And>j. j \<noteq> i \<Longrightarrow> get s' j = get s j"
  using assms(1)
proof cases
  case (step_create e aid c r)
  from step_create(2) show thesis
  proof (cases rule: UserService_Create_cases)
    case (1 e) then show ?thesis using that(1) by blast
  next
    case 2
    show ?thesis
    proof (cases r)
      case (Inl err)
      with 2(1) create_err that(1) show ?thesis by blast
    next
      case (Inr u)
      from create_ok [OF assms(2) 2(1)[unfolded Inr]] obtain u' where
        u': "get s' (u_ID u) = Inr u'" "u_IsRoot u' = uc_IsRoot c"
          "u_AccessRules u' = uc_AccessRules c" "set (u_Roles u') = set (uc_Roles c)"
          "get s (u_ID u) = Inl ErrNotFound" "\<And>j. j \<noteq> u_ID u \<Longrightarrow> get s' j = get s j"
        using 2(3) by blast
      have "u_ID u' = u_ID u" using get_ID [OF u'(1)] .
      then show ?thesis
        using that(2) [of u' c] u' 2(2,4) step_create(1) by (metis GetByID)
    qed
  qed
next
  case (step_update e aid i m r)
  then have a: "\<exists>i. get s i = Inr actor" using GetByID by metis
  from step_update(2) show thesis
  proof (cases rule: UserService_Update_cases)
    case (1 e) then show ?thesis using that(1) by blast
  next
    case (2 t)
    from 2(1) have t: "get s i = Inr t" by (simp add: GetByID)
    from update [OF assms(2) t 2(4)] show ?thesis
      using that(1) that(3) [OF t _ _ _ 2(2,3) a] by blast
  qed
next
  case (step_setroles e aid i roles r)
  then have a: "\<exists>i. get s i = Inr actor" using GetByID by metis
  from step_setroles(2) [unfolded UserService_SetRoles_def] show thesis
  proof (cases rule: UserService_Update_cases)
    case (1 e) then show ?thesis using that(1) by blast
  next
    case (2 t)
    from 2(1) have t: "get s i = Inr t" by (simp add: GetByID)
    from update [OF assms(2) t 2(4)] show ?thesis
      using that(1) that(3) [OF t _ _ _ 2(2,3) a] by blast
  qed
next
  case (step_delete e aid i d)
  from step_delete(2) show thesis
  proof (cases rule: UserService_Delete_cases)
    case 1 then show ?thesis using that(1) by blast
  next
    case (2 t)
    from delete [OF assms(2) 2(3)] show ?thesis using that(1,4) by blast
  qed
qed

lemma step_inv: "user_step repo actor s s' \<Longrightarrow> inv s \<Longrightarrow> inv s'"
proof (induction rule: user_step.induct)
  case (step_create e s aid c r s')
  from step_create(2) show ?case
    by (cases rule: UserService_Create_cases) (use step_create inv_create in blast)+
next
  case (step_update e s aid i m r s')
  from step_update(2) show ?case
    by (cases rule: UserService_Update_cases) (use step_update inv_update in blast)+
next
  case (step_setroles e s aid i roles r s')
  from step_setroles(2) [unfolded UserService_SetRoles_def] show ?case
    by (cases rule: UserService_Update_cases) (use step_setroles inv_update in blast)+
next
  case (step_delete e s aid i d s')
  from step_delete(2) show ?case
    by (cases rule: UserService_Delete_cases) (use step_delete inv_delete in blast)+
qed

definition roots :: "'s \<Rightarrow> string set" where
  "roots s = {i. \<exists>u. get s i = Inr u \<and> u_IsRoot u}"

lemma roots_step:
  assumes "user_step repo actor s s'" and "inv s"
  shows "roots s' = roots s"
proof (cases rule: step_cases [OF assms])
  case (2 u c)
  have "j \<in> roots s' \<longleftrightarrow> j \<in> roots s" for j
    using 2(1-4) by (cases "j = u_ID u") (auto simp: roots_def)
  then show ?thesis by blast
next
  case (3 i t u m)
  have "j \<in> roots s' \<longleftrightarrow> j \<in> roots s" for j
    using 3(1-4) by (cases "j = i") (auto simp: roots_def)
  then show ?thesis by blast
next
  case (4 i t)
  have "j \<in> roots s' \<longleftrightarrow> j \<in> roots s" for j
    using 4 by (cases "j = i") (auto simp: roots_def)
  then show ?thesis by blast
qed simp

lemma roots_steps: "(any_step repo)\<^sup>*\<^sup>* s s' \<Longrightarrow> inv s \<Longrightarrow> roots s' = roots s \<and> inv s'"
proof (induction rule: rtranclp_induct)
  case base
  then show ?case by simp
next
  case (step t w)
  then obtain actor where "user_step repo actor t w" by (auto simp: any_step_def)
  with step show ?case using roots_step step_inv by blast
qed

text \<open>One call by an actor that is not the root.\<close>

lemma delegated_step_user:
  assumes step: "user_step repo actor s s'" "inv s" and nr: "\<not> u_IsRoot actor"
    and scoped: "all_scoped get s" and u: "get s' i = Inr u" "\<not> u_IsRoot u"
    and changed: "get s i \<noteq> Inr u"
  shows "delegate get s actor \<and> u_AccessRules u \<noteq> None \<and>
    perm_le (PermissionsFor u) (PermissionsFor actor) \<and>
    (\<forall>role\<in>set (u_Roles u). AllowsRole (PermissionsFor actor) role \<or>
       (\<exists>t. delegate get s t \<and> role \<in> set (u_Roles t)))"
  using step
proof (cases rule: step_cases)
  case 1
  with u changed show ?thesis by simp
next
  case (2 n c)
  with u changed have n: "u = n" by (metis sum.inject(2))
  from 2(8) nr obtain rl where "u_AccessRules u = Some rl"
    "CanAssignAccessRules (PermissionsFor actor) (Some rl)" unfolding n 2(5) by blast
  then have "perm_le (PermissionsFor u) (PermissionsFor actor)"
    using CanAssignAccessRules_perm_le nr u(2) by simp
  with 2(6,7,8) nr \<open>u_AccessRules u = Some rl\<close> show ?thesis
    unfolding n delegate_def by auto
next
  case (3 j t n m)
  with u changed have n: "u = n" by (metis sum.inject(2))
  have t: "delegate get s t" using 3(1,4) u(2) n unfolding delegate_def by blast
  then obtain rt where rt: "u_AccessRules t = Some rt" using scoped unfolding all_scoped_def by blast
  have le_t: "perm_le (PermissionsFor t) (PermissionsFor actor)"
    using authorizeUserMutation_None [OF 3(5) nr] nr rt
    by (auto intro: SupersetOf_perm_le simp: PermissionsFor_rules)
  have "u_AccessRules u \<noteq> None \<and> perm_le (PermissionsFor u) (PermissionsFor actor)"
  proof (cases "uu_SetRules m")
    case True
    with update_checks_None(2) [OF 3(6)] nr 3(8) obtain rl where
      "u_AccessRules u = Some rl" "CanAssignAccessRules (PermissionsFor actor) (Some rl)"
      unfolding n by auto
    then show ?thesis using CanAssignAccessRules_perm_le nr u(2) by simp
  next
    case False
    then have "u_AccessRules u = Some rt" using 3(8) rt n by simp
    moreover from this have "PermissionsFor u = PermissionsFor t"
      using rt u(2) t by (simp add: PermissionsFor_rules delegate_def)
    ultimately show ?thesis using le_t by simp
  qed
  moreover have "\<forall>role\<in>set (u_Roles u). AllowsRole (PermissionsFor actor) role \<or>
      role \<in> set (u_Roles t)"
    using 3(9) update_checks_None(1) [OF 3(6)] nr unfolding n by auto
  ultimately show ?thesis using t 3(7) nr unfolding delegate_def by blast
next
  case (4 j t)
  with u changed show ?thesis by (metis sum.distinct(1))
qed

lemma delegated_step_confined:
  assumes "delegated_step repo s s'" and "inv s" and "all_scoped get s"
  shows "all_scoped get s' \<and> confined get s s'"
proof -
  obtain actor where a: "user_step repo actor s s'" "\<not> u_IsRoot actor"
    using assms(1) by (auto simp: delegated_step_def)
  note * = delegated_step_user [OF a(1) assms(2) a(2) assms(3)]
  have "u_AccessRules u \<noteq> None \<and>
    (\<exists>v. delegate get s v \<and> perm_le (PermissionsFor u) (PermissionsFor v)) \<and>
     (\<forall>role\<in>set (u_Roles u). \<exists>v. delegate get s v \<and>
        (role \<in> set (u_Roles v) \<or> AllowsRole (PermissionsFor v) role))"
    if "delegate get s' u" for u
  proof -
    from that obtain i where i: "get s' i = Inr u" "\<not> u_IsRoot u" by (auto simp: delegate_def)
    show ?thesis
    proof (cases "get s i = Inr u")
      case True
      with i have "delegate get s u" by (auto simp: delegate_def)
      then show ?thesis using assms(3) unfolding all_scoped_def by blast
    next
      case False
      with *[OF i] show ?thesis by blast
    qed
  qed
  then show ?thesis unfolding all_scoped_def confined_def by blast
qed

lemma delegated_steps_confined:
  "(delegated_step repo)\<^sup>*\<^sup>* s s' \<Longrightarrow> inv s \<Longrightarrow> all_scoped get s \<Longrightarrow>
     inv s' \<and> all_scoped get s' \<and> confined get s s'"
proof (induction rule: rtranclp_induct)
  case base
  then show ?case by (simp add: confined_refl)
next
  case (step t w)
  then show ?case
    using delegated_step_confined confined_trans step_inv by (metis delegated_step_def)
qed

end

section \<open>The database meets the contract\<close>

definition db_ok :: "UserDB \<Rightarrow> bool" where
  "db_ok db \<longleftrightarrow>
     distinct (map r_ID (db_users db)) \<and> distinct (map r_Username (db_users db)) \<and>
     length (filter r_IsRoot (db_users db)) \<le> 1 \<and>
     distinct (db_user_roles db) \<and>
     (\<forall>ur\<in>set (db_user_roles db). known_role (snd ur) \<and> fst ur \<in> r_ID ` set (db_users db))"

lemma known_role_iff: "known_role role \<longleftrightarrow> role \<in> set [RoleAdmin, RoleOperator, RoleViewer]"
  by (simp add: known_role_def)

lemma set_roles_of:
  "set (roles_of db i) = {role. known_role role \<and> (i, role) \<in> set (db_user_roles db)}"
  by (auto simp: roles_of_def known_role_iff)

lemma find_mem: "find P xs = Some x \<Longrightarrow> x \<in> set xs \<and> P x"
  by (auto simp: find_Some_iff)

lemma find_ID: "find (\<lambda>r. r_ID r = i) rs = Some r \<Longrightarrow> r_ID r = i"
  by (auto simp: find_Some_iff)

lemma GetUserByID_ID: "GetUserByID db i = Inr u \<Longrightarrow> u_ID u = i"
  by (auto simp: GetUserByID_def getUserWhere_def toDomainUser_def dest: find_ID split: option.splits)

lemma GetUserByID_row:
  "GetUserByID db i = Inr u \<Longrightarrow> \<exists>r\<in>set (db_users db). r_ID r = i \<and> u = toDomainUser db r"
  by (cases "find (\<lambda>r. r_ID r = i) (db_users db)")
    (auto simp: GetUserByID_def getUserWhere_def dest: find_mem)

lemma insert_roles_Inr:
  "insert_roles i roles db = Inr db' \<Longrightarrow>
     db' = db\<lparr>db_user_roles := db_user_roles db @ map (Pair i) roles\<rparr> \<and>
     (\<forall>role\<in>set roles. known_role role) \<and> distinct roles \<and>
     (\<forall>role\<in>set roles. (i, role) \<notin> set (db_user_roles db)) \<and>
     (roles \<noteq> [] \<longrightarrow> i \<in> r_ID ` set (db_users db))"
proof (induction i roles db rule: insert_roles.induct)
  case (2 i role roles db)
  let ?db = "db\<lparr>db_user_roles := db_user_roles db @ [(i, role)]\<rparr>"
  from 2(2) have c: "known_role role" "(i, role) \<notin> set (db_user_roles db)"
    "list_ex (\<lambda>r. r_ID r = i) (db_users db)" "insert_roles i roles ?db = Inr db'"
    by (auto split: if_splits)
  with 2(1) show ?case by (auto simp: list_ex_iff)
qed simp

lemma setUserRolesTx_Inr:
  assumes "setUserRolesTx i roles db = Inr db'"
  shows "db_users db' = db_users db" and "db_grants db' = db_grants db"
    and "roles_of db' j = (if j = i then filter (\<lambda>role. role \<in> set roles)
           [RoleAdmin, RoleOperator, RoleViewer] else roles_of db j)"
    and "\<forall>role\<in>set roles. known_role role"
    and "db_ok db \<Longrightarrow> db_ok db'"
  using insert_roles_Inr [OF assms [unfolded setUserRolesTx_def]]
  by (auto simp: roles_of_def db_ok_def distinct_map inj_on_def intro!: filter_cong)

lemma insert_user_Inr:
  assumes "insert_user row db = Inr db'"
  shows "db' = db\<lparr>db_users := db_users db @ [row]\<rparr>" and "r_ID row \<notin> r_ID ` set (db_users db)"
    and "db_ok db \<Longrightarrow> db_ok db'"
proof -
  from assms show eq: "db' = db\<lparr>db_users := db_users db @ [row]\<rparr>"
    and "r_ID row \<notin> r_ID ` set (db_users db)"
    by (auto simp: insert_user_def list_ex_iff split: if_splits)
  have "r_IsRoot row \<Longrightarrow> filter r_IsRoot (db_users db) = []"
    using assms by (auto simp: insert_user_def list_ex_iff filter_empty_conv split: if_splits)
  moreover have "r_ID row \<notin> r_ID ` set (db_users db)" "r_Username row \<notin> r_Username ` set (db_users db)"
    using assms by (auto simp: insert_user_def list_ex_iff split: if_splits)
  ultimately show "db_ok db \<Longrightarrow> db_ok db'" unfolding eq db_ok_def by auto
qed

lemma find_append: "find P (xs @ ys) = (case find P xs of None \<Rightarrow> find P ys | Some x \<Rightarrow> Some x)"
  by (induction xs) auto

lemma find_ID_None: "i \<notin> r_ID ` set rs \<Longrightarrow> find (\<lambda>r. r_ID r = i) rs = None"
  by (auto simp: find_None_iff)

lemma GetUserByID_same:
  assumes "grants_of db' j = grants_of db j" and "roles_of db' j = roles_of db j"
    and "find (\<lambda>r. r_ID r = j) (db_users db') = find (\<lambda>r. r_ID r = j) (db_users db)"
  shows "GetUserByID db' j = GetUserByID db j"
  using assms
  by (auto simp: GetUserByID_def getUserWhere_def toDomainUser_def
      split: option.splits dest: find_ID)

lemma CreateUser_cases:
  assumes "CreateUser bcrypt newID now db c = (r, db')"
  obtains e where "r = Inl e" "db' = db"
  | u row tx roles where "r = Inr u" "u_ID u = newID" "r_ID row = newID"
    "r_IsRoot row = uc_IsRoot c" "r_AccessRules row = uc_AccessRules c"
    "insert_user row db = Inr tx" "setUserRolesTx newID roles tx = Inr db'"
    "roles = (if uc_Roles c = [] then [RoleViewer] else uc_Roles c)"
proof (cases "\<exists>e. r = Inl e \<and> db' = db")
  case True
  with that(1) show ?thesis by blast
next
  case ok: False
  define roles where "roles = (if uc_Roles c = [] then [RoleViewer] else uc_Roles c)"
  define hash where "hash = (if IsEmpty (uc_PasswordHash c) \<and> \<not> IsEmpty (uc_Password c)
    then bcrypt (uc_Password c) else Some (uc_PasswordHash c))"
  define row where "row h = \<lparr>r_ID = newID, r_Username = uc_Username c, r_Email = uc_Email c,
    r_PasswordHash = h, r_OIDCSub = uc_OIDCSub c, r_IsRoot = uc_IsRoot c,
    r_AccessRules = uc_AccessRules c, r_CreatedAt = now\<rparr>" for h
  note eq = assms [unfolded CreateUser_def Let_def, folded roles_def row_def hash_def]
  obtain h where h: "\<not> (uc_IsRoot c \<and> HasRootUser db)" "hash = Some h"
    using eq ok by (cases hash) (auto split: if_splits)
  obtain tx where tx: "insert_user (row h) db = Inr tx"
    using eq ok h by (cases "insert_user (row h) db") auto
  obtain tx' where tx': "setUserRolesTx newID roles tx = Inr tx'"
    using eq ok h tx by (cases "setUserRolesTx newID roles tx") auto
  then obtain u where "r = Inr u" "u_ID u = newID" "tx' = db'"
    using eq h tx by auto
  with tx tx' that(2) [of u "row h" tx roles] show ?thesis by (simp add: row_def roles_def)
qed

lemma CreateUser_contract:
  assumes "CreateUser bcrypt newID now db c = (Inr u, db')"
  shows "(\<exists>u'. GetUserByID db' (u_ID u) = Inr u' \<and> u_IsRoot u' = uc_IsRoot c \<and>
          u_AccessRules u' = uc_AccessRules c \<and>
          (uc_Roles c \<noteq> [] \<longrightarrow> set (u_Roles u') = set (uc_Roles c))) \<and>
       GetUserByID db (u_ID u) = Inl ErrNotFound \<and>
       (\<forall>j. j \<noteq> u_ID u \<longrightarrow> GetUserByID db' j = GetUserByID db j)"
  using assms
proof (cases rule: CreateUser_cases)
  case (2 u2 row tx roles)
  note tx = insert_user_Inr(1,2) [OF 2(6)] and roles = setUserRolesTx_Inr(1-4) [OF 2(7)]
  have u: "u_ID u = newID" using 2(1,2) by simp
  have none: "find (\<lambda>r. r_ID r = newID) (db_users db) = None"
    using tx(2) 2(3) by (metis find_ID_None)
  have "find (\<lambda>r. r_ID r = newID) (db_users db') = Some row"
    using none 2(3) by (simp add: roles(1) tx(1) find_append)
  then have "GetUserByID db' newID = Inr (toDomainUser db' row)"
    by (simp add: GetUserByID_def getUserWhere_def)
  moreover have "u_Roles (toDomainUser db' row) =
      filter (\<lambda>role. role \<in> set roles) [RoleAdmin, RoleOperator, RoleViewer]"
    using roles(3) [of newID] 2(3) by (simp add: toDomainUser_def)
  then have "set (u_Roles (toDomainUser db' row)) = set roles"
    using roles(4) unfolding known_role_iff by (auto simp del: filter.simps)
  moreover have "GetUserByID db newID = Inl ErrNotFound"
    using none by (simp add: GetUserByID_def getUserWhere_def)
  moreover have "GetUserByID db' j = GetUserByID db j" if "j \<noteq> newID" for j
  proof (rule GetUserByID_same)
    show "roles_of db' j = roles_of db j" using that roles(3) tx(1) by (simp add: roles_of_def)
    show "find (\<lambda>r. r_ID r = j) (db_users db') = find (\<lambda>r. r_ID r = j) (db_users db)"
      using that 2(3) by (auto simp: roles(1) tx(1) find_append split: option.splits)
  qed (simp add: grants_of_def roles tx)
  ultimately show ?thesis using 2(4,5,8) unfolding u by (auto simp: toDomainUser_def)
qed simp

lemma CreateUser_db_ok:
  "CreateUser bcrypt newID now db c = (r, db') \<Longrightarrow> db_ok db \<Longrightarrow> db_ok db'"
  by (cases rule: CreateUser_cases)
    (auto intro: insert_user_Inr(3) setUserRolesTx_Inr(5))

lemma find_update_row:
  assumes "\<And>r. r_ID (f r) = r_ID r"
  shows "find (\<lambda>r. r_ID r = j) (db_users (update_row i f db)) =
    map_option (\<lambda>r. if r_ID r = i then f r else r) (find (\<lambda>r. r_ID r = j) (db_users db))"
proof -
  have "find (\<lambda>r. r_ID r = j) (map (\<lambda>r. if r_ID r = i then f r else r) rs) =
    map_option (\<lambda>r. if r_ID r = i then f r else r) (find (\<lambda>r. r_ID r = j) rs)" for rs
    using assms by (induction rs) auto
  then show ?thesis by (simp add: update_row_def)
qed

definition keeps_identity :: "(UserRow \<Rightarrow> UserRow) \<Rightarrow> bool" where
  "keeps_identity f \<longleftrightarrow>
     (\<forall>r. r_ID (f r) = r_ID r \<and> r_Username (f r) = r_Username r \<and> r_IsRoot (f r) = r_IsRoot r)"

lemma update_row_db_ok:
  assumes "keeps_identity f"
  shows "db_ok (update_row i f db) \<longleftrightarrow> db_ok db"
proof -
  define g where "g = (\<lambda>r. if r_ID r = i then f r else r)"
  have g: "r_ID (g r) = r_ID r" "r_Username (g r) = r_Username r" "r_IsRoot (g r) = r_IsRoot r" for r
    using assms by (auto simp: keeps_identity_def g_def)
  have "map r_ID (map g rs) = map r_ID rs" "map r_Username (map g rs) = map r_Username rs"
    "length (filter r_IsRoot (map g rs)) = length (filter r_IsRoot rs)"
    "r_ID ` g ` set rs = r_ID ` set rs" for rs
    using g by (simp_all add: filter_map comp_def image_image)
  then show ?thesis
    unfolding db_ok_def update_row_def by (simp del: map_map add: g_def [symmetric])
qed

lemma update_row_tables [simp]:
  "db_grants (update_row i f db) = db_grants db" "roles_of (update_row i f db) j = roles_of db j"
  by (simp_all add: update_row_def roles_of_def)

lemma update_row_find:
  assumes "keeps_identity f" and "find (\<lambda>r. r_ID r = i) (db_users db) = Some r"
  shows "find (\<lambda>r. r_ID r = i) (db_users (update_row i f db)) = Some (f r)"
  using assms find_ID [OF assms(2)] by (simp add: find_update_row keeps_identity_def)

lemma update_row_find_other:
  assumes "keeps_identity f" and "j \<noteq> i"
  shows "find (\<lambda>r. r_ID r = j) (db_users (update_row i f db)) = find (\<lambda>r. r_ID r = j) (db_users db)"
  using assms
  by (cases "find (\<lambda>r. r_ID r = j) (db_users db)")
    (auto simp: find_update_row keeps_identity_def dest: find_ID)

lemma update_login_Inr:
  assumes "update_login bcrypt i em pw db = Inr tx"
  obtains f where "tx = update_row i f db" "keeps_identity f"
    "\<And>r. r_AccessRules (f r) = r_AccessRules r"
proof -
  have id: "db = update_row i (\<lambda>r. r) db"
    unfolding update_row_def by (simp add: map_idI)
  show ?thesis
  proof (cases "pw = None \<and> em = None")
    case True
    with assms have "tx = update_row i (\<lambda>r. r) db" using id by (simp add: update_login_def)
    then show ?thesis using that by (simp add: keeps_identity_def)
  next
    case False
    with assms that show ?thesis
      by (auto simp: update_login_def keeps_identity_def split: option.splits)
  qed
qed

text \<open>An update rewrites the row of the user, and its roles when they are to be set.\<close>

lemma UpdateUser_cases:
  assumes "UpdateUser bcrypt db i m = (r, db')"
  obtains "db' = db"
  | f where "keeps_identity f"
      "\<And>x. r_AccessRules (f x) = (if uu_SetRules m then uu_AccessRules m else r_AccessRules x)"
      "(if uu_SetRoles m then setUserRolesTx i (uu_Roles m) (update_row i f db)
        else Inr (update_row i f db)) = Inr db'"
proof (cases "update_login bcrypt i (uu_Email m) (uu_Password m) db")
  case (Inl e)
  with assms that(1) show ?thesis by (simp add: UpdateUser_def)
next
  case (Inr tx)
  then obtain f where f: "tx = update_row i f db" "keeps_identity f"
    "\<And>r. r_AccessRules (f r) = r_AccessRules r" by (rule update_login_Inr) blast
  define g where "g = (if uu_SetRules m then (\<lambda>x. f x\<lparr>r_AccessRules := uu_AccessRules m\<rparr>) else f)"
  have g: "keeps_identity g"
    "\<And>x. r_AccessRules (g x) = (if uu_SetRules m then uu_AccessRules m else r_AccessRules x)"
    using f(2,3) by (auto simp: g_def keeps_identity_def)
  have "(if uu_SetRules m then update_row i (\<lambda>r. r\<lparr>r_AccessRules := uu_AccessRules m\<rparr>) tx else tx) =
      update_row i g db"
    using f(2) by (auto simp: f(1) g_def update_row_def keeps_identity_def)
  then have "(case (if uu_SetRoles m then setUserRolesTx i (uu_Roles m) (update_row i g db)
        else Inr (update_row i g db)) of
      Inl e \<Rightarrow> (Inl e, db) | Inr tx2 \<Rightarrow> (GetUserByID tx2 i, tx2)) = (r, db')"
    using assms Inr by (simp add: UpdateUser_def Let_def)
  then show ?thesis using that(1) that(2) [OF g] by (auto split: sum.splits)
qed

lemma UpdateUser_db_ok:
  assumes "UpdateUser bcrypt db i m = (r, db')" and "db_ok db"
  shows "db_ok db'"
  using assms(1)
proof (cases rule: UpdateUser_cases)
  case (2 f)
  then have "db_ok (update_row i f db)" using update_row_db_ok assms(2) by simp
  then show ?thesis using 2(3) setUserRolesTx_Inr(5) by (cases "uu_SetRoles m") auto
qed (simp add: assms)

lemma UpdateUser_contract:
  assumes "GetUserByID db i = Inr t" and "UpdateUser bcrypt db i m = (r, db')"
  shows "db' = db \<or>
    (\<exists>u. GetUserByID db' i = Inr u \<and> u_IsRoot u = u_IsRoot t \<and>
       u_AccessRules u = (if uu_SetRules m then uu_AccessRules m else u_AccessRules t) \<and>
       set (u_Roles u) = (if uu_SetRoles m then set (uu_Roles m) else set (u_Roles t))) \<and>
    (\<forall>j. j \<noteq> i \<longrightarrow> GetUserByID db' j = GetUserByID db j)"
  using assms(2)
proof (cases rule: UpdateUser_cases)
  case (2 f)
  from assms(1) obtain x where x: "find (\<lambda>r. r_ID r = i) (db_users db) = Some x"
    "t = toDomainUser db x"
    by (auto simp: GetUserByID_def getUserWhere_def split: option.splits)
  have db': "db_users db' = db_users (update_row i f db) \<and> db_grants db' = db_grants db \<and>
      (\<forall>j. j \<noteq> i \<longrightarrow> roles_of db' j = roles_of db j) \<and>
      set (roles_of db' i) = (if uu_SetRoles m then set (uu_Roles m) else set (roles_of db i))"
  proof (cases "uu_SetRoles m")
    case True
    with 2(3) have tx: "setUserRolesTx i (uu_Roles m) (update_row i f db) = Inr db'" by simp
    have "set (roles_of db' i) = set (uu_Roles m)"
      using setUserRolesTx_Inr(3) [OF tx, of i] setUserRolesTx_Inr(4) [OF tx]
      unfolding known_role_iff by (auto simp del: filter.simps)
    with True setUserRolesTx_Inr(1-3) [OF tx] show ?thesis by simp
  next
    case False
    then have "db' = update_row i f db" using 2(3) by simp
    then show ?thesis using False by simp
  qed
  have "GetUserByID db' i = Inr (toDomainUser db' (f x))"
    using update_row_find [OF 2(1) x(1)] db' by (simp add: GetUserByID_def getUserWhere_def)
  moreover have "r_ID (f x) = i" "r_IsRoot (f x) = r_IsRoot x" "r_ID x = i"
    using 2(1) find_ID [OF x(1)] by (auto simp: keeps_identity_def)
  moreover have "GetUserByID db' j = GetUserByID db j" if "j \<noteq> i" for j
    using that db' update_row_find_other [OF 2(1) that]
    by (intro GetUserByID_same) (auto simp: grants_of_def)
  moreover have "u_IsRoot (toDomainUser db' (f x)) = u_IsRoot t"
    "u_AccessRules (toDomainUser db' (f x)) =
       (if uu_SetRules m then uu_AccessRules m else u_AccessRules t)"
    "set (u_Roles (toDomainUser db' (f x))) =
       (if uu_SetRoles m then set (uu_Roles m) else set (u_Roles t))"
    using calculation(2-4) 2(2) [of x] db' by (simp_all add: x(2) toDomainUser_def)
  ultimately show ?thesis by blast
qed simp

lemma DeleteUser_cases:
  assumes "DeleteUser db i = (d, db')"
  obtains "db' = db"
  | t where "GetUserByID db i = Inr t" "\<not> u_IsRoot t"
    "db' = \<lparr>db_users = filter (\<lambda>r. \<not> (r_ID r = i \<and> \<not> r_IsRoot r)) (db_users db),
       db_user_roles = filter (\<lambda>ur. fst ur \<noteq> i) (db_user_roles db),
       db_grants = filter (\<lambda>g. g_UserID g \<noteq> i) (db_grants db)\<rparr>"
  using assms by (auto simp: DeleteUser_def split: sum.splits if_splits)

lemma db_ok_unique:
  "db_ok db \<Longrightarrow> r \<in> set (db_users db) \<Longrightarrow> r' \<in> set (db_users db) \<Longrightarrow> r_ID r = r_ID r' \<Longrightarrow> r = r'"
  by (auto simp: db_ok_def distinct_map inj_on_def)

lemma DeleteUser_users:
  assumes "db_ok db" and "GetUserByID db i = Inr t" and "\<not> u_IsRoot t"
  shows "filter (\<lambda>r. \<not> (r_ID r = i \<and> \<not> r_IsRoot r)) (db_users db) =
    filter (\<lambda>r. r_ID r \<noteq> i) (db_users db)"
proof (rule filter_cong [OF refl])
  fix r assume r: "r \<in> set (db_users db)"
  from assms(2,3) obtain x where x: "x \<in> set (db_users db)" "r_ID x = i" "\<not> r_IsRoot x"
    by (auto simp: GetUserByID_def getUserWhere_def toDomainUser_def
        split: option.splits dest!: find_mem)
  then show "(\<not> (r_ID r = i \<and> \<not> r_IsRoot r)) = (r_ID r \<noteq> i)"
    using db_ok_unique [OF assms(1) r x(1)] by auto
qed

lemma find_filter_other:
  "j \<noteq> i \<Longrightarrow> find (\<lambda>r. r_ID r = j) (filter (\<lambda>r. r_ID r \<noteq> i) rs) = find (\<lambda>r. r_ID r = j) rs"
  by (induction rs) auto

lemma DeleteUser_contract:
  assumes "db_ok db" and "DeleteUser db i = (d, db')"
  shows "db' = db \<or> (\<exists>t. GetUserByID db i = Inr t \<and> \<not> u_IsRoot t) \<and>
     GetUserByID db' i = Inl ErrNotFound \<and> (\<forall>j. j \<noteq> i \<longrightarrow> GetUserByID db' j = GetUserByID db j)"
  using assms(2)
proof (cases rule: DeleteUser_cases)
  case (2 t)
  note users = DeleteUser_users [OF assms(1) 2(1,2)]
  have "find (\<lambda>r. r_ID r = i) (filter (\<lambda>r. r_ID r \<noteq> i) (db_users db)) = None"
    by (simp add: find_None_iff)
  then have "GetUserByID db' i = Inl ErrNotFound"
    unfolding GetUserByID_def getUserWhere_def 2(3) users by simp
  moreover have "GetUserByID db' j = GetUserByID db j" if j: "j \<noteq> i" for j
  proof -
    have "roles_of db' j = roles_of db j" "grants_of db' j = grants_of db j"
      using j by (auto simp: 2(3) roles_of_def grants_of_def intro!: filter_cong)
    moreover have "db_users db' = filter (\<lambda>r. r_ID r \<noteq> i) (db_users db)"
      using users by (simp add: 2(3))
    ultimately show ?thesis using j by (intro GetUserByID_same) (simp_all add: find_filter_other)
  qed
  ultimately show ?thesis using 2(1,2) by blast
qed simp

lemma DeleteUser_db_ok:
  assumes "DeleteUser db i = (d, db')" and ok: "db_ok db"
  shows "db_ok db'"
  using assms(1)
proof (cases rule: DeleteUser_cases)
  case (2 t)
  note users = DeleteUser_users [OF ok 2(1,2)]
  have "length (filter r_IsRoot (filter (\<lambda>r. r_ID r \<noteq> i) rs)) \<le> length (filter r_IsRoot rs)" for rs
    by (induction rs) auto
  from order_trans [OF this [of "db_users db"]] ok show ?thesis
    unfolding 2(3) users db_ok_def by (auto simp: distinct_map_filter)
qed (simp add: ok)

interpretation dbu: user_repository "DB_users bcrypt" GetUserByID db_ok
proof
qed (auto simp: DB_users_def GetUserByID_ID intro: CreateUser_db_ok UpdateUser_db_ok DeleteUser_db_ok
    elim: CreateUser_cases dest: CreateUser_contract UpdateUser_contract DeleteUser_contract)

section \<open>Properties\<close>

definition manager_row :: UserRow where
  "manager_row = \<lparr>r_ID = ''m'', r_Username = ''mia'', r_Email = [], r_PasswordHash = [],
     r_OIDCSub = [], r_IsRoot = False, r_AccessRules = u_AccessRules scoped_manager, r_CreatedAt = 0\<rparr>"

definition sample_db :: UserDB where
  "sample_db = \<lparr>db_users = [manager_row\<lparr>r_ID := ''r'', r_Username := ''root'', r_IsRoot := True\<rparr>,
       manager_row],
     db_user_roles = [(''m'', RoleAdmin)], db_grants = []\<rparr>"

definition new_viewer :: UserCreate where
  "new_viewer = \<lparr>uc_AccessRules = Some \<lparr>ar_ClusterIDs = [''east''], ar_AssignableRoles = [],
       ar_ManageUsers = False, ar_ViewAudit = True, ar_DeleteClusters = False\<rparr>,
     uc_Username = ''vic'', uc_Email = [], uc_Password = ''pw'', uc_OIDCSub = [],
     uc_PasswordHash = [], uc_Roles = [RoleViewer], uc_IsRoot = False\<rparr>"

definition toy_bcrypt :: bcrypt where "toy_bcrypt pw = Some (''hash:'' @ pw)"

definition sample_db' :: UserDB where
  "sample_db' = snd (UserService_Create (DB_users toy_bcrypt (''v'', 7)) sample_db
     (toDomainUser sample_db manager_row) new_viewer)"

lemma sample_step:
  "user_step (DB_users toy_bcrypt) (toDomainUser sample_db manager_row) sample_db sample_db'"
proof (rule step_create)
  show "ur_GetByID (DB_users toy_bcrypt (''v'', 7)) sample_db ''m'' =
    Inr (toDomainUser sample_db manager_row)" by code_simp
  show "UserService_Create (DB_users toy_bcrypt (''v'', 7)) sample_db
      (toDomainUser sample_db manager_row) new_viewer =
    (fst (UserService_Create (DB_users toy_bcrypt (''v'', 7)) sample_db
      (toDomainUser sample_db manager_row) new_viewer), sample_db')"
    by (simp add: sample_db'_def)
qed

lemma sample_db_facts:
  "db_ok sample_db" "\<not> u_IsRoot (toDomainUser sample_db manager_row)" by code_simp+



text \<open>C9: no sequence of calls of the service by any actors, the root included, makes
  another user the root, takes the root away or deletes it; and the constraints of the
  tables, among them that there is at most one root, hold throughout.\<close>

theorem root_is_fixed:
  assumes "db_ok db" and "(any_step (DB_users bcrypt))\<^sup>*\<^sup>* db db'"
  shows "db_ok db' \<and> (\<forall>i. (\<exists>u. GetUserByID db' i = Inr u \<and> u_IsRoot u) \<longleftrightarrow>
     (\<exists>u. GetUserByID db i = Inr u \<and> u_IsRoot u))"
  using dbu.roots_steps [OF assms(2,1)] unfolding dbu.roots_def by blast

theorem root_is_fixed_witness:
  "db_ok sample_db' \<and> (\<exists>u. GetUserByID sample_db' ''r'' = Inr u \<and> u_IsRoot u)"
proof -
  have "any_step (DB_users toy_bcrypt) sample_db sample_db'"
    unfolding any_step_def using sample_step by blast
  from root_is_fixed [OF sample_db_facts(1) r_into_rtranclp [of "any_step (DB_users toy_bcrypt)", OF this]]
  have "db_ok sample_db'" "(\<exists>u. GetUserByID sample_db' ''r'' = Inr u \<and> u_IsRoot u) \<longleftrightarrow>
     (\<exists>u. GetUserByID sample_db ''r'' = Inr u \<and> u_IsRoot u)" by blast+
  moreover have "GetUserByID sample_db ''r'' = Inr (toDomainUser sample_db (db_users sample_db ! 0)) \<and>
    u_IsRoot (toDomainUser sample_db (db_users sample_db ! 0))" by code_simp
  ultimately show ?thesis by blast
qed

text \<open>Without that assumption the confinement fails.  On a viewer without access
  rules, a manager of one cluster may set the role admin alone: the viewer becomes an admin
  without access rules, with all clusters, which the comments of \<^verbatim>\<open>Create\<close> and
  \<^verbatim>\<open>Update\<close> reserve to the root.\<close>

theorem setroles_mints_legacy_admin:
  "case UserService_SetRoles (DB_users toy_bcrypt ([], 0))
      (sample_db\<lparr>db_users := db_users sample_db @
         [manager_row\<lparr>r_ID := ''w'', r_Username := ''wes'', r_AccessRules := None\<rparr>],
       db_user_roles := [(''m'', RoleAdmin), (''w'', RoleViewer)]\<rparr>)
      (toDomainUser sample_db manager_row) ''w'' [RoleAdmin] of
    (Inr u, db') \<Rightarrow> isLegacyFullAdmin u \<and> CanAccessCluster u ''west'' \<and>
       \<not> CanAccessCluster (toDomainUser sample_db manager_row) ''west''
  | _ \<Rightarrow> False"
  by code_simp

end
