(* ===== verification/Ttl_Cache.thy ===== *)
theory Ttl_Cache
  imports Permissions "HOL-Library.Word"
begin

text \<open>
  The caches of authentication (\<^verbatim>\<open>internal/auth\<close>: \<^verbatim>\<open>ttl_cache.go\<close>,
  \<^verbatim>\<open>session_cache.go\<close>, \<^verbatim>\<open>user_cache.go\<close>) and the list of revoked sessions
  (\<^verbatim>\<open>session_revoke.go\<close>).

  What their clients rely on is one contract, the locale \<open>expiring_store\<close>: a value is
  visible from the operation that sets it until its expiry, unless it is replaced or
  removed; purges are invisible.  Inside the locale every sequence of operations is
  compared with the history of the calls.  Both stores are interpretations of it.

  An operation that reads the clock twice takes both readings.  The counter of
  operations is a 64-bit word, as in the code.
\<close>

section \<open>The generic cache\<close>

definition defaultTTLCacheTTL :: duration where "defaultTTLCacheTTL = 45 * Second"
definition ttlCachePurgeEvery :: "64 word" where "ttlCachePurgeEvery = 256"
definition ttlCacheMaxStaleKeys :: nat where "ttlCacheMaxStaleKeys = 512"

record 'v ttlCacheEntry =
  e_expiresAt :: gotime
  e_value :: 'v

record ('k, 'v) ttlCache =
  c_entries :: "('k, 'v ttlCacheEntry) gomap"
  c_ttl :: duration
  c_ops :: "64 word"

definition newTTLCache :: "duration \<Rightarrow> ('k, 'v) ttlCache" where
  "newTTLCache ttl =
     \<lparr>c_entries = [], c_ttl = (if ttl \<le> 0 then defaultTTLCacheTTL else ttl), c_ops = 0\<rparr>"

text \<open>\<^verbatim>\<open>Get\<close> looks up under the read lock and, when the entry has expired, takes the
  write lock and looks again before it deletes.\<close>

definition evict :: "('k, 'v) ttlCache \<Rightarrow> 'k \<Rightarrow> gotime \<Rightarrow> ('k, 'v) ttlCache" where
  "evict c key now =
     (case map_of (c_entries c) key of
        Some e \<Rightarrow> if now > e_expiresAt e
                  then c\<lparr>c_entries := AList.delete key (c_entries c)\<rparr> else c
      | None \<Rightarrow> c)"

definition Get :: "('k, 'v) ttlCache \<Rightarrow> 'k \<Rightarrow> gotime \<times> gotime \<Rightarrow> 'v option \<times> ('k, 'v) ttlCache"
where
  "Get c key clock =
     (case map_of (c_entries c) key of
        None \<Rightarrow> (None, c)
      | Some entry \<Rightarrow>
          if \<not> fst clock > e_expiresAt entry then (Some (e_value entry), c)
          else (None, evict c key (snd clock)))"

definition purgeExpiredLocked :: "('k, 'v) ttlCache \<Rightarrow> gotime \<Rightarrow> ('k, 'v) ttlCache" where
  "purgeExpiredLocked c now =
     c\<lparr>c_entries := filter (\<lambda>kv. \<not> now > e_expiresAt (snd kv)) (c_entries c)\<rparr>"

definition Set :: "('k, 'v) ttlCache \<Rightarrow> 'k \<Rightarrow> 'v \<Rightarrow> gotime \<times> gotime \<Rightarrow> ('k, 'v) ttlCache" where
  "Set c key v clock =
     (let c1 = c\<lparr>c_entries := AList.update key
                   \<lparr>e_expiresAt = fst clock + c_ttl c, e_value = v\<rparr> (c_entries c),
                 c_ops := c_ops c + 1\<rparr>
      in if c_ops c1 mod ttlCachePurgeEvery = 0 \<or> length (c_entries c1) > ttlCacheMaxStaleKeys
         then purgeExpiredLocked c1 (snd clock) else c1)"

definition Invalidate :: "('k, 'v) ttlCache \<Rightarrow> 'k \<Rightarrow> ('k, 'v) ttlCache" where
  "Invalidate c key = c\<lparr>c_entries := AList.delete key (c_entries c)\<rparr>"

definition cache_len :: "('k, 'v) ttlCache \<Rightarrow> nat" where
  "cache_len c = length (c_entries c)"

section \<open>Session and user caches\<close>

record cachedSession =
  cs_fingerprint :: string
  cs_user :: User

type_synonym sessionCache = "(string, cachedSession) ttlCache"
type_synonym userCache = "(string, User) ttlCache"

definition newSessionCache :: "duration \<Rightarrow> sessionCache" where
  "newSessionCache ttl = newTTLCache (if ttl \<le> 0 then 45 * Second else ttl)"

definition sessionCache_Get ::
  "sessionCache \<Rightarrow> string \<Rightarrow> string \<Rightarrow> gotime \<times> gotime \<Rightarrow> User option \<times> sessionCache" where
  "sessionCache_Get c token fingerprint clock =
     (case Get c token clock of
        (Some entry, c') \<Rightarrow>
          if cs_fingerprint entry \<noteq> fingerprint then (None, c') else (Some (cs_user entry), c')
      | (None, c') \<Rightarrow> (None, c'))"

definition sessionCache_Set ::
  "sessionCache \<Rightarrow> string \<Rightarrow> string \<Rightarrow> User \<Rightarrow> gotime \<times> gotime \<Rightarrow> sessionCache" where
  "sessionCache_Set c token fingerprint user clock =
     (if IsEmpty token then c
      else Set c token \<lparr>cs_fingerprint = fingerprint, cs_user = user\<rparr> clock)"

definition sessionCache_Invalidate :: "sessionCache \<Rightarrow> string \<Rightarrow> sessionCache" where
  "sessionCache_Invalidate c token = (if IsEmpty token then c else Invalidate c token)"

definition newUserCache :: "duration \<Rightarrow> userCache" where
  "newUserCache ttl = newTTLCache (if ttl \<le> 0 then 5 * Second else ttl)"

definition userCache_Get :: "userCache \<Rightarrow> string \<Rightarrow> gotime \<times> gotime \<Rightarrow> User option \<times> userCache"
where
  "userCache_Get c userID clock = Get c userID clock"

definition userCache_Set :: "userCache \<Rightarrow> User \<Rightarrow> gotime \<times> gotime \<Rightarrow> userCache" where
  "userCache_Set c user clock = (if IsEmpty (u_ID user) then c else Set c (u_ID user) user clock)"

definition userCache_Invalidate :: "userCache \<Rightarrow> string \<Rightarrow> userCache" where
  "userCache_Invalidate c userID = (if IsEmpty userID then c else Invalidate c userID)"

section \<open>Revoked sessions\<close>

record sessionRevocations =
  sr_entries :: "(string, gotime) gomap"
  sr_ops :: "64 word"

definition newSessionRevocations :: sessionRevocations where
  "newSessionRevocations = \<lparr>sr_entries = [], sr_ops = 0\<rparr>"

definition rev_purgeExpiredLocked :: "sessionRevocations \<Rightarrow> gotime \<Rightarrow> sessionRevocations" where
  "rev_purgeExpiredLocked r now =
     r\<lparr>sr_entries := filter (\<lambda>kv. \<not> now > snd kv) (sr_entries r)\<rparr>"

text \<open>The two operations on the key, the hash of the token.\<close>

definition revoke_key ::
  "sessionRevocations \<Rightarrow> string \<Rightarrow> gotime \<Rightarrow> gotime \<times> gotime \<Rightarrow> sessionRevocations" where
  "revoke_key r key until clock =
     (let r1 = r\<lparr>sr_entries := AList.update key until (sr_entries r), sr_ops := sr_ops r + 1\<rparr>
      in if sr_ops r1 mod 256 = 0 then rev_purgeExpiredLocked r1 (snd clock) else r1)"

definition lookup_key ::
  "sessionRevocations \<Rightarrow> string \<Rightarrow> gotime \<times> gotime \<Rightarrow> gotime option \<times> sessionRevocations"
where
  "lookup_key r key clock =
     (case map_of (sr_entries r) key of
        None \<Rightarrow> (None, r)
      | Some until \<Rightarrow>
          if fst clock > until then (None, r\<lparr>sr_entries := AList.delete key (sr_entries r)\<rparr>)
          else (Some until, r))"

text \<open>SHA-256 in hexadecimal is the parameter \<open>hashSessionToken\<close>.\<close>

definition Revoke ::
  "(string \<Rightarrow> string) \<Rightarrow> sessionRevocations \<Rightarrow> string \<Rightarrow> gotime \<Rightarrow> gotime \<Rightarrow> sessionRevocations"
where
  "Revoke hashSessionToken r token until now =
     (if IsEmpty token \<or> until = 0 then r
      else revoke_key r (hashSessionToken token) until (now, now))"

definition IsRevoked ::
  "(string \<Rightarrow> string) \<Rightarrow> sessionRevocations \<Rightarrow> string \<Rightarrow> gotime \<Rightarrow> bool \<times> sessionRevocations" where
  "IsRevoked hashSessionToken r token now =
     (if IsEmpty token then (False, r)
      else (case lookup_key r (hashSessionToken token) (now, now) of
          (found, r') \<Rightarrow> (found \<noteq> None, r')))"

section \<open>The contract\<close>

datatype ('k, 'v) cache_op =
    OGet 'k "gotime \<times> gotime"
  | OSet 'k 'v "gotime \<times> gotime"
  | OInvalidate 'k

text \<open>The history, newest first: when and what was set last for a key, if it was not
  removed since.\<close>

fun last_set :: "('k, 'v) cache_op list \<Rightarrow> 'k \<Rightarrow> (gotime \<times> 'v) option" where
  "last_set [] k = None"
| "last_set (OGet _ _ # h) k = last_set h k"
| "last_set (OSet k' v clock # h) k = (if k' = k then Some (fst clock, v) else last_set h k)"
| "last_set (OInvalidate k' # h) k = (if k' = k then None else last_set h k)"

text \<open>The clock does not go back, within a call or between calls.\<close>

fun clock_ok :: "('k, 'v) cache_op list \<Rightarrow> gotime \<Rightarrow> bool" where
  "clock_ok [] now \<longleftrightarrow> True"
| "clock_ok (OGet _ (t, t') # h) now \<longleftrightarrow> t \<le> t' \<and> t' \<le> now \<and> clock_ok h t"
| "clock_ok (OSet _ _ (t, t') # h) now \<longleftrightarrow> t \<le> t' \<and> t' \<le> now \<and> clock_ok h t"
| "clock_ok (OInvalidate _ # h) now \<longleftrightarrow> clock_ok h now"

lemma clock_ok_later: "clock_ok h t \<Longrightarrow> t \<le> t' \<Longrightarrow> clock_ok h t'"
  by (induction h t rule: clock_ok.induct) auto

definition spec_view ::
  "('v \<Rightarrow> gotime \<Rightarrow> gotime) \<Rightarrow> ('k, 'v) cache_op list \<Rightarrow> gotime \<Rightarrow> 'k \<Rightarrow> 'v option" where
  "spec_view expiry h now k =
     (case last_set h k of
        None \<Rightarrow> None
      | Some (t, v) \<Rightarrow> if now \<le> expiry v t then Some v else None)"

fun run_ops ::
  "('s \<Rightarrow> 'k \<Rightarrow> gotime \<times> gotime \<Rightarrow> 'v option \<times> 's) \<Rightarrow>
   ('s \<Rightarrow> 'k \<Rightarrow> 'v \<Rightarrow> gotime \<times> gotime \<Rightarrow> 's) \<Rightarrow> ('s \<Rightarrow> 'k \<Rightarrow> 's) \<Rightarrow>
   's \<Rightarrow> ('k, 'v) cache_op list \<Rightarrow> 's"
where
  "run_ops gt st dl s [] = s"
| "run_ops gt st dl s (OGet k clock # h) = snd (gt (run_ops gt st dl s h) k clock)"
| "run_ops gt st dl s (OSet k v clock # h) = st (run_ops gt st dl s h) k v clock"
| "run_ops gt st dl s (OInvalidate k # h) = dl (run_ops gt st dl s h) k"

locale expiring_store =
  fixes view :: "'s \<Rightarrow> gotime \<Rightarrow> 'k \<Rightarrow> 'v option"
    and get :: "'s \<Rightarrow> 'k \<Rightarrow> gotime \<times> gotime \<Rightarrow> 'v option \<times> 's"
    and set_val :: "'s \<Rightarrow> 'k \<Rightarrow> 'v \<Rightarrow> gotime \<times> gotime \<Rightarrow> 's"
    and invalidate :: "'s \<Rightarrow> 'k \<Rightarrow> 's"
    and expiry :: "'v \<Rightarrow> gotime \<Rightarrow> gotime"
    and inv :: "'s \<Rightarrow> bool"
  assumes inv_get: "inv s \<Longrightarrow> inv (snd (get s k clock))"
    and inv_set: "inv s \<Longrightarrow> inv (set_val s k v clock)"
    and inv_invalidate: "inv s \<Longrightarrow> inv (invalidate s k)"
    and get_value: "inv s \<Longrightarrow> fst (get s k clock) = view s (fst clock) k"
    and get_view:
      "inv s \<Longrightarrow> fst clock \<le> now \<Longrightarrow> snd clock \<le> now \<Longrightarrow> view (snd (get s k clock)) now = view s now"
    and set_view:
      "inv s \<Longrightarrow> snd clock \<le> now \<Longrightarrow>
       view (set_val s k v clock) now =
         (view s now)(k := if now \<le> expiry v (fst clock) then Some v else None)"
    and invalidate_view: "inv s \<Longrightarrow> view (invalidate s k) now = (view s now)(k := None)"
begin

lemma run_inv: "inv s \<Longrightarrow> inv (run_ops get set_val invalidate s h)"
proof (induction h)
  case (Cons op h)
  then show ?case by (cases op) (auto intro: inv_get inv_set inv_invalidate)
qed simp

text \<open>What is visible after any operations is what the history says.\<close>

lemma run_view:
  assumes "inv s" and "\<And>now k. view s now k = None" and "clock_ok h now"
  shows "view (run_ops get set_val invalidate s h) now k = spec_view expiry h now k"
  using assms(3)
proof (induction h arbitrary: now)
  case Nil
  then show ?case by (simp add: spec_view_def assms(2))
next
  case (Cons op h)
  let ?s = "run_ops get set_val invalidate s h"
  have i: "inv ?s" using run_inv [OF assms(1)] .
  show ?case
  proof (cases op)
    case (OGet k' clock)
    obtain t t' where clock: "clock = (t, t')" by (cases clock)
    with Cons.prems OGet have "t \<le> now" "t' \<le> now" "clock_ok h now"
      using clock_ok_later [of h t now] by auto
    with Cons.IH OGet clock show ?thesis
      using get_view [OF i, of clock now k'] by (simp add: spec_view_def)
  next
    case (OSet k' v clock)
    obtain t t' where clock: "clock = (t, t')" by (cases clock)
    with Cons.prems OSet have "t' \<le> now" "clock_ok h now"
      using clock_ok_later [of h t now] by auto
    with Cons.IH OSet clock show ?thesis
      using set_view [OF i, of clock now k' v] by (simp add: spec_view_def)
  next
    case (OInvalidate k')
    with Cons show ?thesis using invalidate_view [OF i] by (simp add: spec_view_def)
  qed
qed

lemma run_get:
  assumes "inv s" and "\<And>now k. view s now k = None" and "clock_ok h (fst clock)"
  shows "fst (get (run_ops get set_val invalidate s h) k clock) = spec_view expiry h (fst clock) k"
  using get_value [OF run_inv [OF assms(1)]] run_view [OF assms] by simp

end

section \<open>The stores meet the contract\<close>

definition cache_view :: "('k, 'v) ttlCache \<Rightarrow> gotime \<Rightarrow> 'k \<Rightarrow> 'v option" where
  "cache_view c now k =
     (case map_of (c_entries c) k of
        None \<Rightarrow> None
      | Some e \<Rightarrow> if now > e_expiresAt e then None else Some (e_value e))"

definition wf_cache :: "duration \<Rightarrow> ('k, 'v) ttlCache \<Rightarrow> bool" where
  "wf_cache ttl c \<longleftrightarrow> wf_gomap (c_entries c) \<and> c_ttl c = ttl"

lemma purge_view:
  "wf_gomap (c_entries c) \<Longrightarrow> t \<le> now \<Longrightarrow> cache_view (purgeExpiredLocked c t) now = cache_view c now"
  by (auto simp: cache_view_def purgeExpiredLocked_def gomap_simps split: option.splits)

lemma evict_view: "t \<le> now \<Longrightarrow> cache_view (evict c k t) now = cache_view c now"
  by (auto simp: cache_view_def evict_def gomap_simps split: option.splits)

lemma evict_wf: "wf_cache ttl c \<Longrightarrow> wf_cache ttl (evict c k t)"
  by (auto simp: wf_cache_def evict_def split: option.splits)

lemma purge_wf_cache: "wf_cache ttl c \<Longrightarrow> wf_cache ttl (purgeExpiredLocked c t)"
  by (simp add: wf_cache_def purgeExpiredLocked_def)

lemma Set_wf: "wf_cache ttl c \<Longrightarrow> wf_cache ttl (Set c k v clock)"
  by (auto simp: Set_def Let_def purgeExpiredLocked_def wf_cache_def)

lemma Set_view:
  assumes "wf_cache ttl c" and "snd clock \<le> now"
  shows "cache_view (Set c k v clock) now =
    (cache_view c now)(k := if now \<le> fst clock + ttl then Some v else None)"
proof -
  let ?c1 = "c\<lparr>c_entries := AList.update k \<lparr>e_expiresAt = fst clock + c_ttl c, e_value = v\<rparr>
    (c_entries c), c_ops := c_ops c + 1\<rparr>"
  have "cache_view ?c1 now =
      (cache_view c now)(k := if now \<le> fst clock + ttl then Some v else None)"
    using assms(1) by (auto simp: cache_view_def wf_cache_def gomap_simps)
  moreover have "wf_gomap (c_entries ?c1)" using assms(1) by (simp add: wf_cache_def)
  then have "cache_view (purgeExpiredLocked ?c1 (snd clock)) now = cache_view ?c1 now"
    using assms(2) by (rule purge_view)
  ultimately show ?thesis by (simp add: Set_def Let_def)
qed

interpretation ttlc: expiring_store cache_view Get Set Invalidate "\<lambda>_ t. t + ttl" "wf_cache ttl"
  for ttl
proof
  fix s :: "('k, 'v) ttlCache" and k clock and now :: gotime
  assume s: "wf_cache ttl s"
  then show "wf_cache ttl (snd (Get s k clock))"
    by (auto simp: Get_def evict_wf split: option.splits)
  show "wf_cache ttl (Invalidate s k)" using s by (simp add: Invalidate_def wf_cache_def)
  show "cache_view (Invalidate s k) now = (cache_view s now)(k := None)"
    by (auto simp: cache_view_def Invalidate_def gomap_simps)
  show "fst (Get s k clock) = cache_view s (fst clock) k"
    by (auto simp: Get_def cache_view_def split: option.splits)
  show "cache_view (snd (Get s k clock)) now = cache_view s now" if "snd clock \<le> now"
    using that by (auto simp: Get_def evict_view split: option.splits)
qed (simp_all add: Set_wf Set_view)

definition rev_view :: "sessionRevocations \<Rightarrow> gotime \<Rightarrow> string \<Rightarrow> gotime option" where
  "rev_view r now k =
     (case map_of (sr_entries r) k of
        None \<Rightarrow> None | Some until \<Rightarrow> if now > until then None else Some until)"

definition forget_key :: "sessionRevocations \<Rightarrow> string \<Rightarrow> sessionRevocations" where
  "forget_key r k = r\<lparr>sr_entries := AList.delete k (sr_entries r)\<rparr>"

lemma rev_purge_view:
  "wf_gomap (sr_entries r) \<Longrightarrow> t \<le> now \<Longrightarrow> rev_view (rev_purgeExpiredLocked r t) now = rev_view r now"
  by (auto simp: rev_view_def rev_purgeExpiredLocked_def gomap_simps split: option.splits)

lemma revoke_key_view:
  assumes "wf_gomap (sr_entries r)" and "snd clock \<le> now"
  shows "rev_view (revoke_key r k until clock) now =
    (rev_view r now)(k := if now \<le> until then Some until else None)"
proof -
  let ?r1 = "r\<lparr>sr_entries := AList.update k until (sr_entries r), sr_ops := sr_ops r + 1\<rparr>"
  have "rev_view ?r1 now = (rev_view r now)(k := if now \<le> until then Some until else None)"
    by (auto simp: rev_view_def gomap_simps)
  moreover have "rev_view (rev_purgeExpiredLocked ?r1 (snd clock)) now = rev_view ?r1 now"
    using assms by (intro rev_purge_view) auto
  ultimately show ?thesis by (simp add: revoke_key_def Let_def)
qed

interpretation revs: expiring_store rev_view lookup_key revoke_key forget_key "\<lambda>until _. until"
  "\<lambda>r. wf_gomap (sr_entries r)"
proof
  fix r :: sessionRevocations and k clock until and now :: gotime
  assume r: "wf_gomap (sr_entries r)"
  then show "wf_gomap (sr_entries (snd (lookup_key r k clock)))"
    by (auto simp: lookup_key_def split: option.splits)
  show "wf_gomap (sr_entries (revoke_key r k until clock))"
    using r by (auto simp: revoke_key_def rev_purgeExpiredLocked_def Let_def)
  show "wf_gomap (sr_entries (forget_key r k))" using r by (simp add: forget_key_def)
  show "rev_view (forget_key r k) now = (rev_view r now)(k := None)"
    by (auto simp: rev_view_def forget_key_def gomap_simps)
  show "fst (lookup_key r k clock) = rev_view r (fst clock) k"
    by (auto simp: lookup_key_def rev_view_def split: option.splits)
  show "rev_view (snd (lookup_key r k clock)) now = rev_view r now" if "fst clock \<le> now"
    using that by (auto simp: lookup_key_def rev_view_def gomap_simps split: option.splits)
qed (simp add: revoke_key_view)

section \<open>Sequences of revocations and checks\<close>

datatype rev_op = RRevoke string gotime gotime | RCheck string gotime

fun run_rev :: "(string \<Rightarrow> string) \<Rightarrow> sessionRevocations \<Rightarrow> rev_op list \<Rightarrow> sessionRevocations" where
  "run_rev hash r [] = r"
| "run_rev hash r (RRevoke token until now # h) = Revoke hash (run_rev hash r h) token until now"
| "run_rev hash r (RCheck token now # h) = snd (IsRevoked hash (run_rev hash r h) token now)"

text \<open>The same, as operations on keys.\<close>

fun key_ops :: "(string \<Rightarrow> string) \<Rightarrow> rev_op list \<Rightarrow> (string, gotime) cache_op list" where
  "key_ops hash [] = []"
| "key_ops hash (RRevoke token until now # h) =
     (if token = [] \<or> until = 0 then [] else [OSet (hash token) until (now, now)]) @ key_ops hash h"
| "key_ops hash (RCheck token now # h) =
     (if token = [] then [] else [OGet (hash token) (now, now)]) @ key_ops hash h"

fun rev_clock_ok :: "rev_op list \<Rightarrow> gotime \<Rightarrow> bool" where
  "rev_clock_ok [] now \<longleftrightarrow> True"
| "rev_clock_ok (RRevoke _ _ t # h) now \<longleftrightarrow> t \<le> now \<and> rev_clock_ok h t"
| "rev_clock_ok (RCheck _ t # h) now \<longleftrightarrow> t \<le> now \<and> rev_clock_ok h t"

text \<open>Until when the token was revoked by the last effective call for its hash.\<close>

fun revoked_until :: "(string \<Rightarrow> string) \<Rightarrow> rev_op list \<Rightarrow> string \<Rightarrow> gotime option" where
  "revoked_until hash [] token = None"
| "revoked_until hash (RRevoke token' until now # h) token =
     (if token' \<noteq> [] \<and> until \<noteq> 0 \<and> hash token' = hash token then Some until
      else revoked_until hash h token)"
| "revoked_until hash (RCheck _ _ # h) token = revoked_until hash h token"

lemma run_rev_key_ops:
  "run_rev hash r h = run_ops lookup_key revoke_key forget_key r (key_ops hash h)"
  by (induction hash r h rule: run_rev.induct)
    (auto simp: Revoke_def IsRevoked_def split: prod.splits)

lemma key_ops_clock: "rev_clock_ok h now \<Longrightarrow> clock_ok (key_ops hash h) now"
  by (induction h now rule: rev_clock_ok.induct) (auto intro: clock_ok_later)

lemma last_set_key_ops:
  "map_option snd (last_set (key_ops hash h) (hash token)) = revoked_until hash h token"
  by (induction hash h token rule: revoked_until.induct) auto

lemma newSessionRevocations_empty:
  "wf_gomap (sr_entries newSessionRevocations)" "rev_view newSessionRevocations now k = None"
  by (simp_all add: newSessionRevocations_def rev_view_def)

lemma newTTLCache_empty: "cache_view (newTTLCache ttl) now k = None"
  by (simp add: newTTLCache_def cache_view_def)

section \<open>Properties\<close>

text \<open>A cache read returns what the history of the calls says.  After any sequence of
  reads, writes and invalidations at times that do not go back, a read returns the value of
  the last write to the key exactly when no invalidation of the key followed and at most the
  time to live has passed since; the purges and the deletion of expired entries never
  show.\<close>

theorem cache_refines_history:
  assumes "clock_ok h (fst clock)"
  shows "fst (Get (run_ops Get Set Invalidate (newTTLCache ttl) h) k clock) =
    spec_view (\<lambda>_ t. t + (if ttl \<le> 0 then 45 * Second else ttl)) h (fst clock) k"
proof -
  have "wf_cache (if ttl \<le> 0 then 45 * Second else ttl) (newTTLCache ttl)"
    by (simp add: wf_cache_def newTTLCache_def defaultTTLCacheTTL_def)
  from ttlc.run_get [OF this newTTLCache_empty assms] show ?thesis .
qed

definition sample_ops :: "(string, int) cache_op list" where
  "sample_ops = [OGet ''a'' (8, 8), OInvalidate ''b'', OSet ''b'' 2 (7, 7), OSet ''a'' 1 (3, 4)]"

theorem cache_refines_history_witness:
  "fst (Get (run_ops Get Set Invalidate (newTTLCache 10) sample_ops) ''a'' (13, 13)) = Some 1 \<and>
   fst (Get (run_ops Get Set Invalidate (newTTLCache 10) sample_ops) ''a'' (14, 14)) = None"
proof -
  have "clock_ok sample_ops 13" "clock_ok sample_ops 14" by code_simp+
  moreover have "spec_view (\<lambda>_ t. t + (if (10 :: duration) \<le> 0 then 45 * Second else 10))
      sample_ops 13 ''a'' = Some 1"
    "spec_view (\<lambda>_ t. t + (if (10 :: duration) \<le> 0 then 45 * Second else 10))
      sample_ops 14 ''a'' = None" by code_simp+
  ultimately show ?thesis
    using cache_refines_history [of sample_ops "(13, 13)" 10 "''a''"]
      cache_refines_history [of sample_ops "(14, 14)" 10 "''a''"] by simp
qed

text \<open>A logged-out session stays logged out until it expires.  After any sequence of
  revocations and checks at times that do not go back, a token counts as revoked exactly
  when the last revocation for its hash lasts until now or later; purging every 256
  revocations forgets none of them.\<close>

theorem revocation_exact:
  assumes "token \<noteq> []" and "rev_clock_ok h now"
  shows "fst (IsRevoked hash (run_rev hash newSessionRevocations h) token now) \<longleftrightarrow>
    (\<exists>until. revoked_until hash h token = Some until \<and> now \<le> until)"
proof -
  have "fst (lookup_key (run_rev hash newSessionRevocations h) (hash token) (now, now)) =
      spec_view (\<lambda>until _. until) (key_ops hash h) now (hash token)"
    using revs.run_get [OF newSessionRevocations_empty, of "key_ops hash h" "(now, now)"]
      key_ops_clock [OF assms(2)] by (simp add: run_rev_key_ops)
  moreover have "spec_view (\<lambda>until _. until) (key_ops hash h) now (hash token) \<noteq> None \<longleftrightarrow>
      (\<exists>until. revoked_until hash h token = Some until \<and> now \<le> until)"
    using last_set_key_ops [of hash h token]
    by (cases "last_set (key_ops hash h) (hash token)") (force simp: spec_view_def split: if_splits)+
  ultimately show ?thesis using assms(1) by (auto simp: IsRevoked_def split: prod.splits)
qed

theorem revocation_exact_witness:
  "fst (IsRevoked (\<lambda>x. x) (run_rev (\<lambda>x. x) newSessionRevocations
     [RCheck ''j'' 20, RRevoke ''k'' 11 6, RRevoke ''j'' 50 5]) ''j'' 30)"
proof -
  have "rev_clock_ok [RCheck ''j'' 20, RRevoke ''k'' 11 6, RRevoke ''j'' 50 5] 30" by simp
  from revocation_exact [OF _ this, of "''j''" "\<lambda>x. x"] show ?thesis by simp
qed

end
