(* ===== verification/Auth_Service.thy ===== *)
theory Auth_Service
  imports Users Ttl_Cache
begin

text \<open>
  Sessions, users and refresh tokens (\<^verbatim>\<open>internal/auth\<close>: \<^verbatim>\<open>auth.go\<close>,
  \<^verbatim>\<open>refresh.go\<close>, \<^verbatim>\<open>fingerprint.go\<close>; \<^verbatim>\<open>internal/repo\<close>:
  \<^verbatim>\<open>auth_persistence.go\<close>, \<^verbatim>\<open>refresh_tokens.go\<close>; the session handlers of
  \<^verbatim>\<open>internal/api/auth_handlers.go\<close>).

  A replica holds caches and a list of revoked sessions; the database is shared.  A call
  takes its clock reading \<open>now\<close> and, where the code degrades when the database cannot be
  reached, whether it can (\<open>up\<close>); \<^term>\<open>None\<close> for the database is the nil handle of a
  service without one.  The parser and the signer of JWTs, SHA-256 and bcrypt are the
  parameters of \<open>AuthParams\<close>.
\<close>

section \<open>Data\<close>

record Claims =
  cl_UserID :: string
  cl_Username :: string
  cl_Fingerprint :: string
  cl_Roles :: "string list"
  cl_UserVersion :: int
  cl_IsRoot :: bool
  cl_ExpiresAt :: gotime
  cl_IssuedAt :: gotime

record RefreshToken =
  rt_ID :: string
  rt_UserID :: string
  rt_TokenHash :: string
  rt_FingerprintHash :: string
  rt_ExpiresAt :: gotime
  rt_CreatedAt :: gotime
  rt_ReplacedBy :: string

record AuthDB =
  ad_users :: UserDB
  ad_versions :: "string \<rightharpoonup> int"
  ad_revocations :: "string \<rightharpoonup> gotime"
  ad_refresh :: "RefreshToken list"

record AuthParams =
  ap_SessionTTL :: duration
  ap_RefreshTokenTTL :: duration
  ap_AdminUsername :: string
  ap_AdminPassword :: string
  ap_sign :: "Claims \<Rightarrow> string"
  ap_parse :: "string \<Rightarrow> gotime \<Rightarrow> Claims option"
  ap_sha256 :: "string \<Rightarrow> string"
  ap_bcrypt :: bcrypt
  ap_CheckPassword :: "string \<Rightarrow> string \<Rightarrow> bool"

datatype auth_error = ErrUnauthorized | ErrRefreshReuse | ErrStore domain_error

record AuthService =
  as_users :: userCache
  as_localVersions :: "string \<rightharpoonup> int"
  as_versionCache :: "(string, int) ttlCache"
  as_sessions :: sessionCache
  as_revocations :: sessionRevocations
  as_revocationCache :: "(string, bool) ttlCache"

definition revocationCacheTTL :: duration where "revocationCacheTTL = 5 * Second"
definition userVersionCacheTTL :: duration where "userVersionCacheTTL = 5 * Second"
definition defaultUserCacheTTL :: duration where "defaultUserCacheTTL = 5 * Second"
definition defaultSessionCacheTTL :: duration where "defaultSessionCacheTTL = 45 * Second"

definition NewService :: AuthService where
  "NewService =
     \<lparr>as_users = newUserCache defaultUserCacheTTL, as_localVersions = Map.empty,
      as_versionCache = newTTLCache userVersionCacheTTL,
      as_sessions = newSessionCache defaultSessionCacheTTL,
      as_revocations = newSessionRevocations,
      as_revocationCache = newTTLCache revocationCacheTTL\<rparr>"

definition DeviceFingerprint :: "AuthParams \<Rightarrow> string \<Rightarrow> string \<Rightarrow> string" where
  "DeviceFingerprint P userAgent clientIP = ap_sha256 P (userAgent @ ''|'' @ clientIP)"

definition hashRefreshToken :: "AuthParams \<Rightarrow> string \<Rightarrow> string" where
  "hashRefreshToken P raw = ap_sha256 P raw"

section \<open>The tables of authentication\<close>

definition GetUserVersion :: "AuthDB \<Rightarrow> string \<Rightarrow> int" where
  "GetUserVersion db userID = (case ad_versions db userID of None \<Rightarrow> 1 | Some v \<Rightarrow> v)"

definition db_BumpUserVersion :: "AuthDB \<Rightarrow> string \<Rightarrow> int \<times> AuthDB" where
  "db_BumpUserVersion db userID =
     (let v = (case ad_versions db userID of None \<Rightarrow> 2 | Some v \<Rightarrow> v + 1)
      in (v, db\<lparr>ad_versions := (ad_versions db)(userID \<mapsto> v)\<rparr>))"

definition RevokeSession :: "AuthDB \<Rightarrow> string \<Rightarrow> gotime \<Rightarrow> AuthDB" where
  "RevokeSession db jti expiresAt =
     db\<lparr>ad_revocations := (ad_revocations db)(jti \<mapsto>
          (case ad_revocations db jti of None \<Rightarrow> expiresAt | Some e \<Rightarrow> max e expiresAt))\<rparr>"

definition IsSessionRevoked :: "AuthDB \<Rightarrow> string \<Rightarrow> gotime \<Rightarrow> bool" where
  "IsSessionRevoked db jti now =
     (case ad_revocations db jti of None \<Rightarrow> False | Some expiresAt \<Rightarrow> now < expiresAt)"

definition PurgeExpiredSessionRevocations :: "AuthDB \<Rightarrow> gotime \<Rightarrow> AuthDB" where
  "PurgeExpiredSessionRevocations db now =
     db\<lparr>ad_revocations := (\<lambda>jti. case ad_revocations db jti of
          None \<Rightarrow> None | Some e \<Rightarrow> if e < now then None else Some e)\<rparr>"

definition InsertRefreshToken ::
  "string \<Rightarrow> AuthDB \<Rightarrow> string \<Rightarrow> string \<Rightarrow> string \<Rightarrow> gotime \<Rightarrow> gotime \<Rightarrow>
   (domain_error, RefreshToken \<times> AuthDB) result"
where
  "InsertRefreshToken newID db userID tokenHash fingerprintHash expiresAt now =
     (if list_ex (\<lambda>rt. rt_ID rt = newID \<or> rt_TokenHash rt = tokenHash) (ad_refresh db)
      then Inl unique_violation
      else
        (let rt = \<lparr>rt_ID = newID, rt_UserID = userID, rt_TokenHash = tokenHash,
                   rt_FingerprintHash = fingerprintHash, rt_ExpiresAt = expiresAt,
                   rt_CreatedAt = now, rt_ReplacedBy = []\<rparr>
         in Inr (rt, db\<lparr>ad_refresh := ad_refresh db @ [rt]\<rparr>)))"

definition GetRefreshTokenByHash :: "AuthDB \<Rightarrow> string \<Rightarrow> RefreshToken option" where
  "GetRefreshTokenByHash db tokenHash = find (\<lambda>rt. rt_TokenHash rt = tokenHash) (ad_refresh db)"

definition fk_violation :: domain_error where
  "fk_violation = ErrOther ''violates foreign key constraint on auth_refresh_tokens''"

text \<open>The update fails when a row is set to a successor that is not in the table.\<close>

definition MarkRefreshTokenReplaced ::
  "AuthDB \<Rightarrow> string \<Rightarrow> string \<Rightarrow> (domain_error, bool \<times> AuthDB) result" where
  "MarkRefreshTokenReplaced db tokenID newID =
     (if \<not> list_ex (\<lambda>rt. rt_ID rt = tokenID \<and> rt_ReplacedBy rt = []) (ad_refresh db)
      then Inr (False, db)
      else if \<not> list_ex (\<lambda>rt. rt_ID rt = newID) (ad_refresh db) then Inl fk_violation
      else Inr (True, db\<lparr>ad_refresh := map (\<lambda>rt. if rt_ID rt = tokenID \<and> rt_ReplacedBy rt = []
             then rt\<lparr>rt_ReplacedBy := newID\<rparr> else rt) (ad_refresh db)\<rparr>))"

text \<open>A deletion that would leave a row whose \<^verbatim>\<open>replaced_by\<close> is deleted fails: the
  column references the table (\<^verbatim>\<open>migrations/024\<close>, without an action on deletion).\<close>

definition delete_refresh ::
  "(RefreshToken \<Rightarrow> bool) \<Rightarrow> AuthDB \<Rightarrow> (domain_error, AuthDB) result" where
  "delete_refresh P db =
     (let gone = filter P (ad_refresh db); rest = filter (\<lambda>rt. \<not> P rt) (ad_refresh db)
      in if list_ex (\<lambda>rt. rt_ReplacedBy rt \<noteq> [] \<and> rt_ReplacedBy rt \<in> rt_ID ` set gone) rest
         then Inl fk_violation else Inr (db\<lparr>ad_refresh := rest\<rparr>))"

definition DeleteRefreshTokensByUser :: "AuthDB \<Rightarrow> string \<Rightarrow> (domain_error, AuthDB) result" where
  "DeleteRefreshTokensByUser db userID = delete_refresh (\<lambda>rt. rt_UserID rt = userID) db"

definition DeleteRefreshTokenByHash :: "AuthDB \<Rightarrow> string \<Rightarrow> (domain_error, AuthDB) result" where
  "DeleteRefreshTokenByHash db tokenHash = delete_refresh (\<lambda>rt. rt_TokenHash rt = tokenHash) db"

definition PurgeExpiredRefreshTokens :: "AuthDB \<Rightarrow> gotime \<Rightarrow> (domain_error, AuthDB) result" where
  "PurgeExpiredRefreshTokens db now = delete_refresh (\<lambda>rt. rt_ExpiresAt rt < now) db"

text \<open>An error of a deletion is logged and the call goes on.\<close>

definition or_log :: "(domain_error, AuthDB) result \<Rightarrow> AuthDB \<Rightarrow> AuthDB" where
  "or_log r db = (case r of Inl _ \<Rightarrow> db | Inr db' \<Rightarrow> db')"

section \<open>User versions\<close>

definition currentLocalVersion :: "(string \<rightharpoonup> int) \<Rightarrow> string \<Rightarrow> int" where
  "currentLocalVersion m userID = (case m userID of Some v \<Rightarrow> v | None \<Rightarrow> 1)"

text \<open>The compare-and-swap loop; \<^term>\<open>None\<close> when it does not end.\<close>

partial_function (option) bumpLocalVersion ::
  "(string \<rightharpoonup> int) \<Rightarrow> string \<Rightarrow> (int \<times> (string \<rightharpoonup> int)) option"
where
  "bumpLocalVersion m userID =
     (let cur = currentLocalVersion m userID; nxt = cur + 1
      in if cur = 1 then
           (case m userID of
              None \<Rightarrow> Some (nxt, m(userID \<mapsto> nxt))
            | Some _ \<Rightarrow> bumpLocalVersion m userID)
         else if m userID = Some cur then Some (nxt, m(userID \<mapsto> nxt))
         else bumpLocalVersion m userID)"

definition CurrentUserVersion ::
  "AuthDB option \<Rightarrow> bool \<Rightarrow> AuthService \<Rightarrow> string \<Rightarrow> gotime \<Rightarrow> int \<times> AuthService" where
  "CurrentUserVersion db up s userID now =
     (if IsEmpty userID then (0, s)
      else (case db of
          None \<Rightarrow> (currentLocalVersion (as_localVersions s) userID, s)
        | Some d \<Rightarrow>
            (case Get (as_versionCache s) userID (now, now) of
               (Some v, vc) \<Rightarrow> (v, s\<lparr>as_versionCache := vc\<rparr>)
             | (None, vc) \<Rightarrow>
                 if \<not> up then
                   (currentLocalVersion (as_localVersions s) userID, s\<lparr>as_versionCache := vc\<rparr>)
                 else (let v = GetUserVersion d userID
                       in (v, s\<lparr>as_versionCache := Set vc userID v (now, now)\<rparr>)))))"

definition BumpUserVersion ::
  "AuthDB option \<Rightarrow> bool \<Rightarrow> AuthService \<Rightarrow> string \<Rightarrow> gotime \<Rightarrow>
   (int \<times> AuthService \<times> AuthDB option) option"
where
  "BumpUserVersion db up s userID now =
     (if IsEmpty userID then Some (0, s, db)
      else
        (let local_bump = (case bumpLocalVersion (as_localVersions s) userID of
                None \<Rightarrow> None
              | Some (v, m) \<Rightarrow> Some (v, s\<lparr>as_localVersions := m\<rparr>, db))
         in (case db of
               None \<Rightarrow> local_bump
             | Some d \<Rightarrow>
                 if \<not> up then local_bump
                 else (case db_BumpUserVersion d userID of
                     (v, d') \<Rightarrow>
                       Some (v, s\<lparr>as_versionCache := Set (as_versionCache s) userID v (now, now),
                                 as_localVersions := (as_localVersions s)(userID \<mapsto> v)\<rparr>,
                             Some d')))))"

section \<open>Loading users\<close>

text \<open>\<^verbatim>\<open>StoreUserToDomain\<close> copies the record with the session version filled in.\<close>

definition StoreUserToDomain :: "User \<Rightarrow> int \<Rightarrow> User" where
  "StoreUserToDomain user version = user\<lparr>u_SessionVersion := version\<rparr>"

definition LoadUser ::
  "AuthDB \<Rightarrow> bool \<Rightarrow> AuthService \<Rightarrow> string \<Rightarrow> gotime \<Rightarrow> (auth_error, User) result \<times> AuthService"
where
  "LoadUser d up s userID now =
     (if IsEmpty userID then (Inl ErrUnauthorized, s)
      else (case userCache_Get (as_users s) userID (now, now) of
          (Some user, uc) \<Rightarrow> (Inr user, s\<lparr>as_users := uc\<rparr>)
        | (None, uc) \<Rightarrow>
            (let s1 = s\<lparr>as_users := uc\<rparr>
             in (case GetUserByID (ad_users d) userID of
                   Inl e \<Rightarrow> (Inl (ErrStore e), s1)
                 | Inr repoUser \<Rightarrow>
                     (case CurrentUserVersion (Some d) up s1 userID now of
                        (v, s2) \<Rightarrow>
                          (let user = StoreUserToDomain repoUser v
                           in (Inr user, s2\<lparr>as_users := userCache_Set (as_users s2) user (now, now)\<rparr>)))))))"

definition LoadUserForSession ::
  "AuthDB option \<Rightarrow> bool \<Rightarrow> AuthService \<Rightarrow> User \<Rightarrow> gotime \<Rightarrow>
   (auth_error, User) result \<times> AuthService"
where
  "LoadUserForSession db up s partial now =
     (if IsEmpty (u_ID partial) then (Inl ErrUnauthorized, s)
      else
        (case CurrentUserVersion db up s (u_ID partial) now of
           (current, s1) \<Rightarrow>
             (let fast = (u_SessionVersion partial > 0 \<and> u_SessionVersion partial = current);
                  (hit, s2) = (if fast
                     then (case userCache_Get (as_users s1) (u_ID partial) (now, now) of
                             (h, uc) \<Rightarrow> (h, s1\<lparr>as_users := uc\<rparr>))
                     else (None, s1))
              in (case hit of
                    Some user \<Rightarrow> (Inr user, s2)
                  | None \<Rightarrow>
                      (case db of
                         None \<Rightarrow> if fast then (Inr partial, s2) else (Inl ErrUnauthorized, s2)
                       | Some d \<Rightarrow>
                           (case GetUserByID (ad_users d) (u_ID partial) of
                              Inl e \<Rightarrow> (Inl (ErrStore e), s2)
                            | Inr repoUser \<Rightarrow>
                                (let user = StoreUserToDomain repoUser current
                                 in (Inr user,
                                     s2\<lparr>as_users := userCache_Set (as_users s2) user (now, now)\<rparr>))))))))"

definition LoadUserFresh ::
  "AuthDB option \<Rightarrow> bool \<Rightarrow> AuthService \<Rightarrow> string \<Rightarrow> gotime \<Rightarrow>
   (auth_error, User) result \<times> AuthService"
where
  "LoadUserFresh db up s userID now =
     (if IsEmpty userID then (Inl ErrUnauthorized, s)
      else
        (let s1 = s\<lparr>as_users := userCache_Invalidate (as_users s) userID,
                    as_versionCache := Invalidate (as_versionCache s) userID\<rparr>
         in (case db of
               None \<Rightarrow> (Inl ErrUnauthorized, s1)
             | Some d \<Rightarrow>
                 (case GetUserByID (ad_users d) userID of
                    Inl e \<Rightarrow> (Inl (ErrStore e), s1)
                  | Inr repoUser \<Rightarrow>
                      (case CurrentUserVersion db up s1 userID now of
                         (v, s2) \<Rightarrow>
                           (let user = StoreUserToDomain repoUser v
                            in (Inr user,
                                s2\<lparr>as_users := userCache_Set (as_users s2) user (now, now)\<rparr>)))))))"

definition InvalidateUser ::
  "AuthDB option \<Rightarrow> bool \<Rightarrow> AuthService \<Rightarrow> string \<Rightarrow> gotime \<Rightarrow>
   (AuthService \<times> AuthDB option) option"
where
  "InvalidateUser db up s userID now =
     (case BumpUserVersion db up
             (s\<lparr>as_users := userCache_Invalidate (as_users s) userID,
                as_versionCache := Invalidate (as_versionCache s) userID\<rparr>) userID now of
        None \<Rightarrow> None
      | Some (_, s', db') \<Rightarrow> Some (s', db'))"

section \<open>Sessions\<close>

definition CreateSession ::
  "AuthParams \<Rightarrow> AuthDB option \<Rightarrow> bool \<Rightarrow> AuthService \<Rightarrow> User \<Rightarrow> string \<Rightarrow> gotime \<Rightarrow>
   (auth_error, string) result \<times> AuthService"
where
  "CreateSession P db up s user fingerprint now =
     (if IsEmpty (u_ID user) \<or> IsEmpty fingerprint then (Inl ErrUnauthorized, s)
      else (case CurrentUserVersion db up s (u_ID user) now of
          (version, s1) \<Rightarrow>
            (Inr (ap_sign P \<lparr>cl_UserID = u_ID user, cl_Username = u_Username user,
                cl_Fingerprint = fingerprint, cl_Roles = u_Roles user, cl_UserVersion = version,
                cl_IsRoot = u_IsRoot user,
                cl_ExpiresAt = (now + ap_SessionTTL P) div Second * Second,
                cl_IssuedAt = now div Second * Second\<rparr>), s1)))"

definition InvalidateSession ::
  "AuthParams \<Rightarrow> AuthDB option \<Rightarrow> bool \<Rightarrow> AuthService \<Rightarrow> string \<Rightarrow> gotime \<Rightarrow>
   AuthService \<times> AuthDB option"
where
  "InvalidateSession P db up s token now =
     (let until = now + ap_SessionTTL P;
          s' = s\<lparr>as_sessions := sessionCache_Invalidate (as_sessions s) token,
                 as_revocations := Revoke (ap_sha256 P) (as_revocations s) token until now\<rparr>
      in (s', (case db of
                 None \<Rightarrow> None
               | Some d \<Rightarrow> Some (if up then RevokeSession d (ap_sha256 P token) until else d))))"

definition isPersistentlyRevoked ::
  "AuthParams \<Rightarrow> AuthDB option \<Rightarrow> bool \<Rightarrow> AuthService \<Rightarrow> string \<Rightarrow> gotime \<Rightarrow> bool \<times> AuthService"
where
  "isPersistentlyRevoked P db up s token now =
     (case db of
        None \<Rightarrow> (False, s)
      | Some d \<Rightarrow>
          if IsEmpty token then (False, s)
          else
            (let jti = ap_sha256 P token
             in (case Get (as_revocationCache s) jti (now, now) of
                   (Some v, rc) \<Rightarrow> (v, s\<lparr>as_revocationCache := rc\<rparr>)
                 | (None, rc) \<Rightarrow>
                     if \<not> up then (True, s\<lparr>as_revocationCache := rc\<rparr>)
                     else
                       (let revoked = IsSessionRevoked d jti now;
                            s1 = s\<lparr>as_revocationCache := Set rc jti revoked (now, now)\<rparr>
                        in if revoked then
                             (True, s1\<lparr>as_revocations := Revoke (ap_sha256 P) (as_revocations s1)
                                        token (now + ap_SessionTTL P) now\<rparr>)
                           else (False, s1)))))"

definition user_of_claims :: "Claims \<Rightarrow> User" where
  "user_of_claims claims =
     zero_user\<lparr>u_ID := cl_UserID claims, u_Username := cl_Username claims,
       u_Roles := cl_Roles claims, u_IsRoot := cl_IsRoot claims,
       u_SessionVersion := cl_UserVersion claims\<rparr>"

definition ParseSession ::
  "AuthParams \<Rightarrow> AuthDB option \<Rightarrow> bool \<Rightarrow> AuthService \<Rightarrow> string \<Rightarrow> string \<Rightarrow> gotime \<Rightarrow>
   (auth_error, User) result \<times> AuthService"
where
  "ParseSession P db up s token fingerprint now =
     (if IsEmpty fingerprint then (Inl ErrUnauthorized, s)
      else
        (case IsRevoked (ap_sha256 P) (as_revocations s) token now of
           (revoked, rv) \<Rightarrow>
             (let s1 = s\<lparr>as_revocations := rv\<rparr>
              in if revoked then (Inl ErrUnauthorized, s1)
                 else
                   (case isPersistentlyRevoked P db up s1 token now of
                      (True, s2) \<Rightarrow> (Inl ErrUnauthorized, s2)
                    | (False, s2) \<Rightarrow>
                        (case sessionCache_Get (as_sessions s2) token fingerprint (now, now) of
                           (Some user, sc) \<Rightarrow> (Inr user, s2\<lparr>as_sessions := sc\<rparr>)
                         | (None, sc) \<Rightarrow>
                             (let s3 = s2\<lparr>as_sessions := sc\<rparr>
                              in (case ap_parse P token now of
                                    None \<Rightarrow> (Inl ErrUnauthorized, s3)
                                  | Some claims \<Rightarrow>
                                      if IsEmpty (cl_Fingerprint claims) \<or>
                                         cl_Fingerprint claims \<noteq> fingerprint
                                      then (Inl ErrUnauthorized, s3)
                                      else
                                        (let user = user_of_claims claims
                                         in (Inr user, s3\<lparr>as_sessions := sessionCache_Set
                                               (as_sessions s3) token fingerprint user (now, now)\<rparr>)))))))))"

section \<open>Login\<close>

definition env_admin :: "AuthParams \<Rightarrow> bool \<Rightarrow> UserCreate" where
  "env_admin P isRoot =
     \<lparr>uc_AccessRules = None, uc_Username = ap_AdminUsername P,
      uc_Email = ap_AdminUsername P @ ''@local'', uc_Password = ap_AdminPassword P,
      uc_OIDCSub = [], uc_PasswordHash = [], uc_Roles = [RoleAdmin], uc_IsRoot = isRoot\<rparr>"

definition SeedAdmin ::
  "AuthParams \<Rightarrow> string \<Rightarrow> gotime \<Rightarrow> UserDB \<Rightarrow> domain_error option \<times> UserDB" where
  "SeedAdmin P newID now db =
     (if CountUsers db > 0 then (None, db)
      else (case CreateUser (ap_bcrypt P) newID now db (env_admin P True) of
          (Inl e, db') \<Rightarrow> (Some e, db')
        | (Inr _, db') \<Rightarrow> (None, db')))"

text \<open>The second creation has its own generated id.\<close>

definition ensureEnvAdminUser ::
  "AuthParams \<Rightarrow> string \<times> string \<Rightarrow> gotime \<Rightarrow> UserDB \<Rightarrow> (auth_error, User) result \<times> UserDB"
where
  "ensureEnvAdminUser P newIDs now db =
     (let refetch = (\<lambda>db. case GetUserByUsername db (ap_AdminUsername P) of
             Inr (user, _) \<Rightarrow> if \<not> IsEmpty (u_ID user) then Inr user else Inl ErrUnauthorized
           | Inl _ \<Rightarrow> Inl ErrUnauthorized)
      in (case CreateUser (ap_bcrypt P) (fst newIDs) now db (env_admin P True) of
            (Inr created, db1) \<Rightarrow> (Inr created, db1)
          | (Inl e, db1) \<Rightarrow>
              if e = ErrConflict then
                (case CreateUser (ap_bcrypt P) (snd newIDs) now db1 (env_admin P False) of
                   (Inr created, db2) \<Rightarrow> (Inr created, db2)
                 | (Inl _, db2) \<Rightarrow> (refetch db2, db2))
              else (refetch db1, db1)))"

definition AuthenticateBasic ::
  "AuthParams \<Rightarrow> string \<times> string \<Rightarrow> gotime \<Rightarrow> UserDB \<Rightarrow> string \<Rightarrow> string \<Rightarrow>
   (auth_error, User) result \<times> UserDB"
where
  "AuthenticateBasic P newIDs now db username password =
     (case GetUserByUsername db username of
        Inl e \<Rightarrow>
          if e = ErrNotFound \<and> username = ap_AdminUsername P \<and> password = ap_AdminPassword P
          then ensureEnvAdminUser P newIDs now db
          else (Inl ErrUnauthorized, db)
      | Inr (user, hash) \<Rightarrow>
          if IsEmpty hash \<or> \<not> ap_CheckPassword P hash password then (Inl ErrUnauthorized, db)
          else (Inr user, db))"

section \<open>Refresh tokens\<close>

text \<open>\<open>fresh\<close> is the pair of the random token and the generated row id.\<close>

definition IssueRefresh ::
  "AuthParams \<Rightarrow> string \<times> string \<Rightarrow> AuthDB \<Rightarrow> string \<Rightarrow> string \<Rightarrow> gotime \<Rightarrow>
   (auth_error, string \<times> string) result \<times> AuthDB"
where
  "IssueRefresh P fresh d userID fingerprint now =
     (if IsEmpty userID \<or> IsEmpty fingerprint then (Inl ErrUnauthorized, d)
      else (case InsertRefreshToken (snd fresh) d userID (hashRefreshToken P (fst fresh))
                   fingerprint (now + ap_RefreshTokenTTL P) now of
          Inl e \<Rightarrow> (Inl (ErrStore e), d)
        | Inr (row, d') \<Rightarrow> (Inr (fst fresh, rt_ID row), d')))"

definition RotateRefresh ::
  "AuthParams \<Rightarrow> string \<times> string \<Rightarrow> AuthDB \<Rightarrow> bool \<Rightarrow> AuthService \<Rightarrow> string \<Rightarrow> string \<Rightarrow> gotime \<Rightarrow>
   (auth_error, User \<times> string \<times> string) result \<times> AuthService \<times> AuthDB"
where
  "RotateRefresh P fresh d up s raw fingerprint now =
     (if IsEmpty raw \<or> IsEmpty fingerprint then (Inl ErrUnauthorized, s, d)
      else (case GetRefreshTokenByHash d (hashRefreshToken P raw) of
          None \<Rightarrow> (Inl ErrUnauthorized, s, d)
        | Some existing \<Rightarrow>
            if \<not> IsEmpty (rt_ReplacedBy existing) then
              (Inl ErrRefreshReuse, s, or_log (DeleteRefreshTokensByUser d (rt_UserID existing)) d)
            else if now > rt_ExpiresAt existing then
              (Inl ErrUnauthorized, s, or_log (DeleteRefreshTokenByHash d (rt_TokenHash existing)) d)
            else if rt_FingerprintHash existing \<noteq> fingerprint then (Inl ErrUnauthorized, s, d)
            else (case LoadUser d up s (rt_UserID existing) now of
                (Inl _, s1) \<Rightarrow> (Inl ErrUnauthorized, s1, d)
              | (Inr user, s1) \<Rightarrow>
                  (case IssueRefresh P fresh d (u_ID user) fingerprint now of
                     (Inl e, d1) \<Rightarrow> (Inl e, s1, d1)
                   | (Inr (newRefresh, newID), d1) \<Rightarrow>
                       (case MarkRefreshTokenReplaced d1 (rt_ID existing) newID of
                          Inl e \<Rightarrow> (Inl (ErrStore e), s1, d1)
                        | Inr (False, d2) \<Rightarrow>
                            (Inl ErrRefreshReuse, s1,
                             or_log (DeleteRefreshTokensByUser d2 (rt_UserID existing)) d2)
                        | Inr (True, d2) \<Rightarrow>
                            (case CreateSession P (Some d2) up s1 user fingerprint now of
                               (Inl e, s2) \<Rightarrow> (Inl e, s2, d2)
                             | (Inr access, s2) \<Rightarrow> (Inr (user, access, newRefresh), s2, d2)))))))"

definition RevokeRefreshTokensForUser :: "AuthDB \<Rightarrow> string \<Rightarrow> AuthDB" where
  "RevokeRefreshTokensForUser d userID =
     (if IsEmpty userID then d else or_log (DeleteRefreshTokensByUser d userID) d)"

definition RevokeRefreshToken :: "AuthParams \<Rightarrow> AuthDB \<Rightarrow> string \<Rightarrow> AuthDB" where
  "RevokeRefreshToken P d raw =
     (if IsEmpty raw then d else or_log (DeleteRefreshTokenByHash d (hashRefreshToken P raw)) d)"

text \<open>The state changes of the logout handler; the cookies it clears are the client's.\<close>

definition Logout ::
  "AuthParams \<Rightarrow> AuthDB \<Rightarrow> bool \<Rightarrow> AuthService \<Rightarrow> string \<Rightarrow> string \<Rightarrow> string \<Rightarrow> gotime \<Rightarrow>
   AuthService \<times> AuthDB"
where
  "Logout P d up s sessionTok refreshTok fingerprint now =
     (if \<not> IsEmpty sessionTok then
        (case ParseSession P (Some d) up s sessionTok fingerprint now of
           (r, s1) \<Rightarrow>
             (let d1 = (case r of
                   Inr user \<Rightarrow> RevokeRefreshTokensForUser d (u_ID user)
                 | Inl _ \<Rightarrow> if \<not> IsEmpty refreshTok then RevokeRefreshToken P d refreshTok else d)
              in (case InvalidateSession P (Some d1) up s1 sessionTok now of
                    (s2, Some d2) \<Rightarrow> (s2, d2)
                  | (s2, None) \<Rightarrow> (s2, d1))))
      else if \<not> IsEmpty refreshTok then (s, RevokeRefreshToken P d refreshTok)
      else (s, d))"

section \<open>Replicas over one database\<close>

type_synonym system = "(nat \<Rightarrow> AuthService) \<times> AuthDB"

text \<open>One call on replica \<open>k\<close> at time \<open>now\<close>, a purge, or a change of the users tables.\<close>

inductive auth_step :: "AuthParams \<Rightarrow> gotime \<Rightarrow> system \<Rightarrow> system \<Rightarrow> bool" for P now where
  as_parse: "ParseSession P (Some d) up (reps k) token fp now = (r, s') \<Longrightarrow>
     auth_step P now (reps, d) (reps(k := s'), d)"
| as_invalidate: "InvalidateSession P (Some d) up (reps k) token now = (s', Some d') \<Longrightarrow>
     auth_step P now (reps, d) (reps(k := s'), d')"
| as_logout: "Logout P d up (reps k) sess rfr fp now = (s', d') \<Longrightarrow>
     auth_step P now (reps, d) (reps(k := s'), d')"
| as_load: "LoadUser d up (reps k) userID now = (r, s') \<Longrightarrow>
     auth_step P now (reps, d) (reps(k := s'), d)"
| as_load_session: "LoadUserForSession (Some d) up (reps k) partial now = (r, s') \<Longrightarrow>
     auth_step P now (reps, d) (reps(k := s'), d)"
| as_load_fresh: "LoadUserFresh (Some d) up (reps k) userID now = (r, s') \<Longrightarrow>
     auth_step P now (reps, d) (reps(k := s'), d)"
| as_invalidate_user: "InvalidateUser (Some d) up (reps k) userID now = Some (s', Some d') \<Longrightarrow>
     auth_step P now (reps, d) (reps(k := s'), d')"
| as_create: "CreateSession P (Some d) up (reps k) user fp now = (r', s') \<Longrightarrow>
     auth_step P now (reps, d) (reps(k := s'), d)"
| as_issue: "IssueRefresh P fresh d userID fp now = (r'', d') \<Longrightarrow>
     auth_step P now (reps, d) (reps, d')"
| as_rotate: "RotateRefresh P fresh d up (reps k) raw fp now = (r3, s', d') \<Longrightarrow>
     auth_step P now (reps, d) (reps(k := s'), d')"
| as_purge: "auth_step P now (reps, d) (reps, PurgeExpiredSessionRevocations d now)"
| as_purge_refresh: "PurgeExpiredRefreshTokens d now = Inr d' \<Longrightarrow>
     auth_step P now (reps, d) (reps, d')"
| as_users: "auth_step P now (reps, d) (reps, d\<lparr>ad_users := users'\<rparr>)"

text \<open>Sequences of steps at times that do not go back.\<close>

inductive auth_steps :: "AuthParams \<Rightarrow> gotime \<Rightarrow> system \<Rightarrow> gotime \<Rightarrow> system \<Rightarrow> bool" for P where
  steps_refl: "auth_steps P t \<sigma> t \<sigma>"
| steps_wait: "auth_steps P t \<sigma> t1 \<sigma>' \<Longrightarrow> t1 \<le> t2 \<Longrightarrow> auth_steps P t \<sigma> t2 \<sigma>'"
| steps_step: "auth_steps P t \<sigma> t1 \<sigma>1 \<Longrightarrow> auth_step P t1 \<sigma>1 \<sigma>2 \<Longrightarrow> auth_steps P t \<sigma> t1 \<sigma>2"

subsection \<open>What the calls leave alone\<close>

definition session_part ::
  "AuthService \<Rightarrow> sessionCache \<times> sessionRevocations \<times> (string, bool) ttlCache" where
  "session_part s = (as_sessions s, as_revocations s, as_revocationCache s)"

lemma CurrentUserVersion_frame:
  "CurrentUserVersion db up s userID now = (v, s') \<Longrightarrow>
     session_part s' = session_part s \<and> as_users s' = as_users s"
  by (auto simp: CurrentUserVersion_def session_part_def Let_def
      split: if_splits option.splits prod.splits)

lemma LoadUser_frame:
  assumes "LoadUser d up s userID now = (r, s')"
  shows "session_part s' = session_part s"
proof -
  have "session_part (snd (LoadUser d up s userID now)) = session_part s"
    using CurrentUserVersion_frame
    by (auto simp: LoadUser_def session_part_def Let_def split: option.splits prod.splits sum.splits)
  then show ?thesis using assms by simp
qed

lemma LoadUserForSession_frame:
  assumes "LoadUserForSession db up s partial now = (r, s')"
  shows "session_part s' = session_part s"
proof -
  obtain v s1 where v: "CurrentUserVersion db up s (u_ID partial) now = (v, s1)" by fastforce
  then have s1: "session_part s1 = session_part s" using CurrentUserVersion_frame by blast
  show ?thesis
    using assms s1 unfolding LoadUserForSession_def v Let_def
    by (auto simp: session_part_def Let_def split: if_splits option.splits prod.splits sum.splits)
qed

lemma LoadUserFresh_frame:
  assumes "LoadUserFresh db up s userID now = (r, s')"
  shows "session_part s' = session_part s"
proof -
  define s1 where "s1 = s\<lparr>as_users := userCache_Invalidate (as_users s) userID,
    as_versionCache := Invalidate (as_versionCache s) userID\<rparr>"
  obtain v s2 where v: "CurrentUserVersion db up s1 userID now = (v, s2)" by fastforce
  then have "session_part s2 = session_part s1" using CurrentUserVersion_frame by blast
  moreover have "session_part s1 = session_part s" by (simp add: s1_def session_part_def)
  moreover have "s' = s \<or> s' = s1 \<or> session_part s' = session_part s2"
    using assms v unfolding LoadUserFresh_def Let_def s1_def [symmetric]
    by (auto simp: session_part_def split: if_splits option.splits prod.splits sum.splits)
  ultimately show ?thesis by auto
qed

lemma BumpUserVersion_frame:
  "BumpUserVersion (Some d) up s userID now = Some (v, s', db') \<Longrightarrow>
     session_part s' = session_part s \<and>
     (\<exists>d'. db' = Some d' \<and> ad_revocations d' = ad_revocations d)"
  by (auto simp: BumpUserVersion_def db_BumpUserVersion_def session_part_def Let_def
      split: if_splits option.splits prod.splits)

lemma InvalidateUser_frame:
  assumes "InvalidateUser (Some d) up s userID now = Some (s', Some d')"
  shows "session_part s' = session_part s" and "ad_revocations d' = ad_revocations d"
  using assms
  by (auto simp: InvalidateUser_def session_part_def split: option.splits dest!: BumpUserVersion_frame)

lemma CreateSession_frame:
  "CreateSession P db up s user fp now = (r, s') \<Longrightarrow> session_part s' = session_part s"
  by (auto simp: CreateSession_def split: if_splits prod.splits dest: CurrentUserVersion_frame)

lemma delete_refresh_frame:
  "delete_refresh Q d = Inr d' \<Longrightarrow> ad_revocations d' = ad_revocations d \<and> ad_users d' = ad_users d"
  by (auto simp: delete_refresh_def Let_def split: if_splits)

lemma or_log_frame:
  "ad_revocations (or_log (delete_refresh Q d) d) = ad_revocations d"
  by (auto simp: or_log_def split: sum.splits dest: delete_refresh_frame)

lemma InsertRefreshToken_frame:
  "InsertRefreshToken newID d u h f e now = Inr (row, d') \<Longrightarrow> ad_revocations d' = ad_revocations d"
  by (auto simp: InsertRefreshToken_def Let_def split: if_splits)

lemma IssueRefresh_frame:
  "IssueRefresh P fresh d userID fp now = (r, d') \<Longrightarrow> ad_revocations d' = ad_revocations d"
  by (auto simp: IssueRefresh_def split: if_splits sum.splits prod.splits dest: InsertRefreshToken_frame)

lemma MarkRefreshTokenReplaced_frame:
  "MarkRefreshTokenReplaced d i j = Inr (ok, d') \<Longrightarrow> ad_revocations d' = ad_revocations d"
  by (auto simp: MarkRefreshTokenReplaced_def split: if_splits)

lemma RotateRefresh_frame:
  assumes "RotateRefresh P fresh d up s raw fp now = (r, s', d')"
  shows "session_part s' = session_part s \<and> ad_revocations d' = ad_revocations d"
  using assms unfolding RotateRefresh_def
  by (auto simp: DeleteRefreshTokensByUser_def DeleteRefreshTokenByHash_def or_log_frame
      split: if_splits sum.splits prod.splits option.splits bool.splits
      dest!: LoadUser_frame IssueRefresh_frame MarkRefreshTokenReplaced_frame CreateSession_frame)

section \<open>Logged-out sessions\<close>

text \<open>The caches are well-formed, and nothing in them outlives its time to live.\<close>

definition caches_ok :: "gotime \<Rightarrow> AuthService \<Rightarrow> bool" where
  "caches_ok now s \<longleftrightarrow>
     wf_cache revocationCacheTTL (as_revocationCache s) \<and>
     wf_cache defaultSessionCacheTTL (as_sessions s) \<and>
     wf_gomap (sr_entries (as_revocations s)) \<and>
     (\<forall>x k. now \<le> x \<longrightarrow> cache_view (as_revocationCache s) x k \<noteq> None \<longrightarrow> x \<le> now + revocationCacheTTL) \<and>
     (\<forall>x k. now \<le> x \<longrightarrow> cache_view (as_sessions s) x k \<noteq> None \<longrightarrow> x \<le> now + defaultSessionCacheTTL)"

text \<open>What a replica holds about the token \<open>tok\<close> after its logout at time \<open>t\<close>: a cached
  answer that it is not revoked, and a cached session, only for a bounded time; and on the
  replica that served the logout (\<open>local\<close>) neither, but the revocation.\<close>

definition logged_out :: "AuthParams \<Rightarrow> string \<Rightarrow> gotime \<Rightarrow> bool \<Rightarrow> gotime \<Rightarrow> AuthService \<Rightarrow> bool" where
  "logged_out P tok t locl now s \<longleftrightarrow>
     wf_cache revocationCacheTTL (as_revocationCache s) \<and>
     wf_cache defaultSessionCacheTTL (as_sessions s) \<and>
     wf_gomap (sr_entries (as_revocations s)) \<and>
     (\<forall>x\<ge>now. now < t + ap_SessionTTL P \<longrightarrow>
        cache_view (as_revocationCache s) x (ap_sha256 P tok) = Some False \<longrightarrow>
        x \<le> t + revocationCacheTTL) \<and>
     (\<forall>x\<ge>now. cache_view (as_sessions s) x tok \<noteq> None \<longrightarrow>
        x \<le> t + revocationCacheTTL + defaultSessionCacheTTL \<and> \<not> locl) \<and>
     (locl \<longrightarrow> (\<forall>x\<ge>now. x \<le> t + ap_SessionTTL P \<longrightarrow>
        rev_view (as_revocations s) x (ap_sha256 P tok) \<noteq> None))"

definition db_logged_out :: "AuthParams \<Rightarrow> string \<Rightarrow> gotime \<Rightarrow> gotime \<Rightarrow> AuthDB \<Rightarrow> bool" where
  "db_logged_out P tok t now d \<longleftrightarrow>
     (now \<le> t + ap_SessionTTL P \<longrightarrow>
      (\<exists>e. ad_revocations d (ap_sha256 P tok) = Some e \<and> t + ap_SessionTTL P \<le> e))"

text \<open>The token was issued before its logout, by this service: the parser, which checks the
  expiry, accepts it no longer than one time to live from then.\<close>

definition expires_by :: "AuthParams \<Rightarrow> string \<Rightarrow> gotime \<Rightarrow> bool" where
  "expires_by P tok deadline \<longleftrightarrow> (\<forall>now c. ap_parse P tok now = Some c \<longrightarrow> now < deadline)"

lemma logged_out_later:
  assumes "logged_out P tok t locl now s" and "now \<le> now'"
  shows "logged_out P tok t locl now' s"
  using assms unfolding logged_out_def by (meson order.strict_trans1 order_trans)

lemma logged_out_part:
  "session_part s' = session_part s \<Longrightarrow>
   logged_out P tok t locl now s' \<longleftrightarrow> logged_out P tok t locl now s"
  by (simp add: logged_out_def session_part_def)

lemma logged_outI:
  assumes "wf_cache revocationCacheTTL (as_revocationCache s)"
    and "wf_cache defaultSessionCacheTTL (as_sessions s)"
    and "wf_gomap (sr_entries (as_revocations s))"
    and "\<And>x. now \<le> x \<Longrightarrow> now < t + ap_SessionTTL P \<Longrightarrow>
        cache_view (as_revocationCache s) x (ap_sha256 P tok) = Some False \<Longrightarrow> x \<le> t + revocationCacheTTL"
    and "\<And>x. now \<le> x \<Longrightarrow> cache_view (as_sessions s) x tok \<noteq> None \<Longrightarrow>
        x \<le> t + revocationCacheTTL + defaultSessionCacheTTL \<and> \<not> locl"
    and "\<And>x. locl \<Longrightarrow> now \<le> x \<Longrightarrow> x \<le> t + ap_SessionTTL P \<Longrightarrow>
        rev_view (as_revocations s) x (ap_sha256 P tok) \<noteq> None"
  shows "logged_out P tok t locl now s"
  using assms by (auto simp: logged_out_def)

lemmas logged_outD = logged_out_def [THEN iffD1, THEN conjunct1]
  logged_out_def [THEN iffD1, THEN conjunct2, THEN conjunct1]
  logged_out_def [THEN iffD1, THEN conjunct2, THEN conjunct2, THEN conjunct1]

lemma logged_out_rc:
  "logged_out P tok t locl now s \<Longrightarrow> now \<le> x \<Longrightarrow> now < t + ap_SessionTTL P \<Longrightarrow>
   cache_view (as_revocationCache s) x (ap_sha256 P tok) = Some False \<Longrightarrow> x \<le> t + revocationCacheTTL"
  by (simp add: logged_out_def)

lemma logged_out_sessions:
  "logged_out P tok t locl now s \<Longrightarrow> now \<le> x \<Longrightarrow> cache_view (as_sessions s) x tok \<noteq> None \<Longrightarrow>
   x \<le> t + revocationCacheTTL + defaultSessionCacheTTL \<and> \<not> locl"
  by (auto simp: logged_out_def)

lemma logged_out_rev:
  "logged_out P tok t locl now s \<Longrightarrow> locl \<Longrightarrow> now \<le> x \<Longrightarrow> x \<le> t + ap_SessionTTL P \<Longrightarrow>
   rev_view (as_revocations s) x (ap_sha256 P tok) \<noteq> None"
  by (auto simp: logged_out_def)

subsection \<open>The list of revocations\<close>

lemma IsRevoked_result:
  assumes "wf_gomap (sr_entries r)" and "IsRevoked hash r token now = (b, r')"
  shows "b \<longleftrightarrow> token \<noteq> [] \<and> rev_view r now (hash token) \<noteq> None"
    and "wf_gomap (sr_entries r')" and "now \<le> x \<Longrightarrow> rev_view r' x = rev_view r x"
  using assms revs.get_value [OF assms(1), of "hash token" "(now, now)"]
    revs.inv_get [OF assms(1), of "hash token" "(now, now)"]
    revs.get_view [OF assms(1), of "(now, now)" x "hash token"]
  by (auto simp: IsRevoked_def split: if_splits prod.splits)

lemma Revoke_result:
  assumes "wf_gomap (sr_entries r)"
  shows "wf_gomap (sr_entries (Revoke hash r token until now))"
    and "now \<le> x \<Longrightarrow> rev_view (Revoke hash r token until now) x k =
      (if token \<noteq> [] \<and> until \<noteq> 0 \<and> k = hash token then (if x \<le> until then Some until else None)
       else rev_view r x k)"
  using assms revs.inv_set [OF assms] revs.set_view [OF assms, of "(now, now)" x]
  by (auto simp: Revoke_def)

text \<open>Revoking never makes a logged-out token visible again.\<close>

lemma logged_out_Revoke:
  assumes "logged_out P tok t locl now s" and "t \<le> now" and "0 < t" and "0 \<le> ap_SessionTTL P"
  shows "logged_out P tok t locl now (s\<lparr>as_revocations :=
    Revoke (ap_sha256 P) (as_revocations s) token (now + ap_SessionTTL P) now\<rparr>)"
proof -
  note r = logged_outD(3) [OF assms(1)]
  show ?thesis
  proof (rule logged_outI)
    fix x assume "locl" "now \<le> x" "x \<le> t + ap_SessionTTL P"
    then show "rev_view (as_revocations (s\<lparr>as_revocations :=
        Revoke (ap_sha256 P) (as_revocations s) token (now + ap_SessionTTL P) now\<rparr>)) x
      (ap_sha256 P tok) \<noteq> None"
      using logged_out_rev [OF assms(1)] assms(2-4) by (auto simp: Revoke_result [OF r])
  qed (use assms(1) in \<open>auto simp: Revoke_result [OF r] logged_out_def\<close>)
qed

subsection \<open>The persistent list\<close>

lemma isPersistentlyRevoked_result:
  assumes "wf_cache revocationCacheTTL (as_revocationCache s)"
    and "isPersistentlyRevoked P (Some d) up s token now = (b, s')"
  shows "as_sessions s' = as_sessions s"
    and "wf_cache revocationCacheTTL (as_revocationCache s')"
    and "as_revocations s' = as_revocations s \<or>
      as_revocations s' = Revoke (ap_sha256 P) (as_revocations s) token (now + ap_SessionTTL P) now"
    and "now \<le> x \<Longrightarrow>
      cache_view (as_revocationCache s') x k = cache_view (as_revocationCache s) x k \<or>
      token \<noteq> [] \<and> k = ap_sha256 P token \<and> cache_view (as_revocationCache s') x k =
        (if x \<le> now + revocationCacheTTL then Some (IsSessionRevoked d k now) else None)"
    and "\<not> b \<Longrightarrow> token = [] \<or> cache_view (as_revocationCache s) now (ap_sha256 P token) = Some False \<or>
      \<not> IsSessionRevoked d (ap_sha256 P token) now"
proof -
  let ?j = "ap_sha256 P token"
  obtain v rc where g: "Get (as_revocationCache s) ?j (now, now) = (v, rc)" by fastforce
  have rc: "wf_cache revocationCacheTTL rc" "v = cache_view (as_revocationCache s) now ?j"
    "\<And>x. now \<le> x \<Longrightarrow> cache_view rc x = cache_view (as_revocationCache s) x"
    using ttlc.inv_get [OF assms(1), of ?j "(now, now)"] ttlc.get_value [OF assms(1), of ?j "(now, now)"]
      ttlc.get_view [OF assms(1), of "(now, now)" _ ?j] by (simp_all add: g)
  note st = ttlc.inv_set [OF rc(1)] ttlc.set_view [OF rc(1), of "(now, now)" x]
  note eq = assms(2) [unfolded isPersistentlyRevoked_def option.case Let_def g prod.case]
  from eq show "as_sessions s' = as_sessions s"
    by (auto split: if_splits option.splits)
  from eq assms(1) st rc(1) show "wf_cache revocationCacheTTL (as_revocationCache s')"
    by (auto split: if_splits option.splits)
  from eq show "as_revocations s' = as_revocations s \<or>
      as_revocations s' = Revoke (ap_sha256 P) (as_revocations s) token (now + ap_SessionTTL P) now"
    by (auto split: if_splits option.splits)
  from eq rc st show "cache_view (as_revocationCache s') x k = cache_view (as_revocationCache s) x k \<or>
      token \<noteq> [] \<and> k = ap_sha256 P token \<and> cache_view (as_revocationCache s') x k =
        (if x \<le> now + revocationCacheTTL then Some (IsSessionRevoked d k now) else None)"
    if "now \<le> x" using that by (auto split: if_splits option.splits)
  from eq rc show "token = [] \<or> cache_view (as_revocationCache s) now ?j = Some False \<or>
      \<not> IsSessionRevoked d ?j now" if "\<not> b"
    using that by (auto split: if_splits option.splits)
qed

lemma logged_out_persistent:
  assumes lo: "logged_out P tok t locl now s" and db: "db_logged_out P tok t now d"
    and t: "t \<le> now" "0 < t" "0 \<le> ap_SessionTTL P"
    and r: "isPersistentlyRevoked P (Some d) up s token now = (b, s')"
  shows "logged_out P tok t locl now s'"
    and "token = tok \<Longrightarrow> tok \<noteq> [] \<Longrightarrow> now < t + ap_SessionTTL P \<Longrightarrow> \<not> b \<Longrightarrow> now \<le> t + revocationCacheTTL"
proof -
  note res = isPersistentlyRevoked_result [OF logged_outD(1) [OF lo] r]
  have revoked: "IsSessionRevoked d (ap_sha256 P tok) now" if "now < t + ap_SessionTTL P"
    using db that by (auto simp: db_logged_out_def IsSessionRevoked_def)
  show "logged_out P tok t locl now s'"
  proof (rule logged_outI)
    fix x assume "now \<le> x" "now < t + ap_SessionTTL P"
      "cache_view (as_revocationCache s') x (ap_sha256 P tok) = Some False"
    then show "x \<le> t + revocationCacheTTL"
      using res(4) [of x "ap_sha256 P tok"] revoked logged_out_rc [OF lo] by (auto split: if_splits)
  next
    fix x assume "now \<le> x" "cache_view (as_sessions s') x tok \<noteq> None"
    then show "x \<le> t + revocationCacheTTL + defaultSessionCacheTTL \<and> \<not> locl"
      using logged_out_sessions [OF lo] res(1) by auto
  next
    fix x assume x: "locl" "now \<le> x" "x \<le> t + ap_SessionTTL P"
    from logged_out_Revoke [OF lo t] lo
    have "logged_out P tok t locl now (s\<lparr>as_revocations := as_revocations s'\<rparr>)"
      using res(3) by auto
    from logged_out_rev [OF this x] show "rev_view (as_revocations s') x (ap_sha256 P tok) \<noteq> None"
      by simp
  qed (use res(1-3) logged_outD [OF lo] in \<open>auto simp: Revoke_result\<close>)
  show "now \<le> t + revocationCacheTTL"
    if "token = tok" "tok \<noteq> []" "now < t + ap_SessionTTL P" "\<not> b"
    using res(5) that revoked logged_out_rc [OF lo, of now] by auto
qed

subsection \<open>Parsing\<close>

lemma sessionCache_Get_result:
  assumes "wf_cache ttl c" and "sessionCache_Get c token fp (now, now) = (u, c')"
  shows "wf_cache ttl c'" and "now \<le> x \<Longrightarrow> cache_view c' x = cache_view c x"
    and "u = Some user \<Longrightarrow> \<exists>e. cache_view c now token = Some e \<and> cs_fingerprint e = fp \<and> cs_user e = user"
  using assms ttlc.inv_get [OF assms(1), of token "(now, now)"]
    ttlc.get_view [OF assms(1), of "(now, now)" x token]
    ttlc.get_value [OF assms(1), of token "(now, now)"]
  by (auto simp: sessionCache_Get_def split: option.splits prod.splits if_splits)

lemma sessionCache_Set_result:
  assumes "wf_cache ttl c"
  shows "wf_cache ttl (sessionCache_Set c token fp user (now, now))"
    and "now \<le> x \<Longrightarrow> cache_view (sessionCache_Set c token fp user (now, now)) x k =
      (if token \<noteq> [] \<and> k = token
       then (if x \<le> now + ttl then Some \<lparr>cs_fingerprint = fp, cs_user = user\<rparr> else None)
       else cache_view c x k)"
  using assms ttlc.inv_set [OF assms] ttlc.set_view [OF assms, of "(now, now)" x]
  by (auto simp: sessionCache_Set_def)

lemma ParseSession_cases:
  assumes "ParseSession P db up s token fp now = (r, s')"
  obtains (empty) "fp = []" "r = Inl ErrUnauthorized" "s' = s"
  | (revoked) rv where "fp \<noteq> []" "IsRevoked (ap_sha256 P) (as_revocations s) token now = (True, rv)"
      "r = Inl ErrUnauthorized" "s' = s\<lparr>as_revocations := rv\<rparr>"
  | (persistent) rv where "fp \<noteq> []" "IsRevoked (ap_sha256 P) (as_revocations s) token now = (False, rv)"
      "isPersistentlyRevoked P db up (s\<lparr>as_revocations := rv\<rparr>) token now = (True, s')"
      "r = Inl ErrUnauthorized"
  | (hit) rv s2 user sc where "fp \<noteq> []"
      "IsRevoked (ap_sha256 P) (as_revocations s) token now = (False, rv)"
      "isPersistentlyRevoked P db up (s\<lparr>as_revocations := rv\<rparr>) token now = (False, s2)"
      "sessionCache_Get (as_sessions s2) token fp (now, now) = (Some user, sc)"
      "r = Inr user" "s' = s2\<lparr>as_sessions := sc\<rparr>"
  | (bad) rv s2 sc where "fp \<noteq> []"
      "IsRevoked (ap_sha256 P) (as_revocations s) token now = (False, rv)"
      "isPersistentlyRevoked P db up (s\<lparr>as_revocations := rv\<rparr>) token now = (False, s2)"
      "sessionCache_Get (as_sessions s2) token fp (now, now) = (None, sc)"
      "r = Inl ErrUnauthorized" "s' = s2\<lparr>as_sessions := sc\<rparr>"
  | (parsed) rv s2 sc claims where "fp \<noteq> []"
      "IsRevoked (ap_sha256 P) (as_revocations s) token now = (False, rv)"
      "isPersistentlyRevoked P db up (s\<lparr>as_revocations := rv\<rparr>) token now = (False, s2)"
      "sessionCache_Get (as_sessions s2) token fp (now, now) = (None, sc)"
      "ap_parse P token now = Some claims" "cl_Fingerprint claims = fp"
      "r = Inr (user_of_claims claims)"
      "s' = s2\<lparr>as_sessions := sessionCache_Set sc token fp (user_of_claims claims) (now, now)\<rparr>"
proof (cases "fp = []")
  case True
  with assms empty show ?thesis by (simp add: ParseSession_def)
next
  case fp: False
  obtain b rv where rv: "IsRevoked (ap_sha256 P) (as_revocations s) token now = (b, rv)" by fastforce
  obtain b2 s2 where p: "isPersistentlyRevoked P db up (s\<lparr>as_revocations := rv\<rparr>) token now = (b2, s2)"
    by fastforce
  obtain u sc where sc: "sessionCache_Get (as_sessions s2) token fp (now, now) = (u, sc)" by fastforce
  note eq = assms [unfolded ParseSession_def rv prod.case Let_def p sc IsEmpty_iff]
  show ?thesis
  proof (cases "b \<or> b2")
    case True
    with fp rv p eq revoked [of rv] persistent [of rv] show ?thesis by (cases b) auto
  next
    case False
    show ?thesis
    proof (cases u)
      case (Some user)
      with False fp eq rv p sc hit [of rv s2 user sc] show ?thesis by auto
    next
      case None
      with False fp eq rv p sc bad [of rv s2 sc] parsed [of rv s2 sc] show ?thesis
        by (auto split: option.splits if_splits)
    qed
  qed
qed

lemma logged_out_IsRevoked:
  assumes "logged_out P tok t locl now s"
    and "IsRevoked (ap_sha256 P) (as_revocations s) token now = (b, rv)"
  shows "logged_out P tok t locl now (s\<lparr>as_revocations := rv\<rparr>)"
    and "locl \<Longrightarrow> token = tok \<Longrightarrow> tok \<noteq> [] \<Longrightarrow> now \<le> t + ap_SessionTTL P \<Longrightarrow> b"
  using assms(1) IsRevoked_result [OF logged_outD(3) [OF assms(1)] assms(2)]
  by (auto simp: logged_out_def)

lemma logged_out_set_sessions:
  assumes "logged_out P tok t locl now s" and "wf_cache defaultSessionCacheTTL sc"
    and "\<And>x. now \<le> x \<Longrightarrow> cache_view sc x tok \<noteq> None \<Longrightarrow>
      x \<le> t + revocationCacheTTL + defaultSessionCacheTTL \<and> \<not> locl"
  shows "logged_out P tok t locl now (s\<lparr>as_sessions := sc\<rparr>)"
  using assms by (auto simp: logged_out_def)

text \<open>A call keeps what is known about the token, and refuses it: always on the replica of the
  logout, and elsewhere once a cached answer has run out.\<close>

lemma ParseSession_logged_out:
  assumes lo: "logged_out P tok t locl now s" and db: "db_logged_out P tok t now d"
    and t: "t \<le> now" "0 < t" and ttl: "revocationCacheTTL + defaultSessionCacheTTL < ap_SessionTTL P"
    and tok: "tok \<noteq> []" "expires_by P tok (t + ap_SessionTTL P)"
    and r: "ParseSession P (Some d) up s token fp now = (r, s')"
  shows "logged_out P tok t locl now s'"
    and "token = tok \<Longrightarrow> locl \<or> t + revocationCacheTTL < now \<Longrightarrow> r = Inl ErrUnauthorized"
proof -
  have ttl0: "0 \<le> ap_SessionTTL P"
    using ttl by (simp add: revocationCacheTTL_def defaultSessionCacheTTL_def)
  have "logged_out P tok t locl now s' \<and>
    (token = tok \<longrightarrow> locl \<or> t + revocationCacheTTL < now \<longrightarrow> r = Inl ErrUnauthorized)"
    using r
  proof (cases rule: ParseSession_cases)
    case empty
    with lo show ?thesis by simp
  next
    case (revoked rv)
    with logged_out_IsRevoked(1) [OF lo revoked(2)] show ?thesis by simp
  next
    case (persistent rv)
    with logged_out_persistent(1) [OF logged_out_IsRevoked(1) [OF lo persistent(2)] db t ttl0 persistent(3)]
    show ?thesis by simp
  next
    case (hit rv s2 user sc)
    note lo2 = logged_out_persistent(1) [OF logged_out_IsRevoked(1) [OF lo hit(2)] db t ttl0 hit(3)]
    note g = sessionCache_Get_result [OF logged_outD(2) [OF lo2] hit(4)]
    have "logged_out P tok t locl now s'"
      unfolding hit(6) by (rule logged_out_set_sessions [OF lo2 g(1)])
        (use g(2) logged_out_sessions [OF lo2] in auto)
    moreover have "\<not> (locl \<or> t + revocationCacheTTL < now)" if "token = tok"
    proof -
      have view: "now \<le> t + revocationCacheTTL + defaultSessionCacheTTL \<and> \<not> locl"
        using logged_out_sessions [OF lo2, of now] g(3) that by auto
      then have "now < t + ap_SessionTTL P" using ttl by simp
      then have "now \<le> t + revocationCacheTTL"
        using logged_out_persistent(2) [OF logged_out_IsRevoked(1) [OF lo hit(2)] db t ttl0 hit(3) that]
          tok by simp
      with view show ?thesis by simp
    qed
    ultimately show ?thesis by blast
  next
    case (bad rv s2 sc)
    note lo2 = logged_out_persistent(1) [OF logged_out_IsRevoked(1) [OF lo bad(2)] db t ttl0 bad(3)]
    note g = sessionCache_Get_result [OF logged_outD(2) [OF lo2] bad(4)]
    have "logged_out P tok t locl now s'"
      unfolding bad(6) by (rule logged_out_set_sessions [OF lo2 g(1)])
        (use g(2) logged_out_sessions [OF lo2] in auto)
    with bad(5) show ?thesis by simp
  next
    case (parsed rv s2 sc claims)
    note lo1 = logged_out_IsRevoked [OF lo parsed(2)]
    note lo2 = logged_out_persistent [OF lo1(1) db t ttl0 parsed(3)]
    note g = sessionCache_Get_result [OF logged_outD(2) [OF lo2(1)] parsed(4)]
    have early: "now \<le> t + revocationCacheTTL \<and> \<not> locl" if "token = tok"
    proof -
      have "now < t + ap_SessionTTL P" using tok(2) parsed(5) that by (auto simp: expires_by_def)
      then show ?thesis using lo1(2) lo2(2) that tok(1) by auto
    qed
    have "logged_out P tok t locl now s'"
      unfolding parsed(8)
    proof (rule logged_out_set_sessions [OF lo2(1) sessionCache_Set_result(1) [OF g(1)]])
      fix x assume "now \<le> x"
        "cache_view (sessionCache_Set sc token fp (user_of_claims claims) (now, now)) x tok \<noteq> None"
      then show "x \<le> t + revocationCacheTTL + defaultSessionCacheTTL \<and> \<not> locl"
        using sessionCache_Set_result(2) [OF g(1)] g(2) logged_out_sessions [OF lo2(1)] early
        by (auto split: if_splits)
    qed
    with early show ?thesis by auto
  qed
  then show "logged_out P tok t locl now s'"
    "token = tok \<Longrightarrow> locl \<or> t + revocationCacheTTL < now \<Longrightarrow> r = Inl ErrUnauthorized" by blast+
qed

subsection \<open>Logging out\<close>

lemma InvalidateSession_db:
  assumes "InvalidateSession P (Some d) up s token now = (s', Some d')"
  shows "t \<le> now \<Longrightarrow> db_logged_out P tok t now d \<Longrightarrow> db_logged_out P tok t now d'"
    and "up \<Longrightarrow> db_logged_out P token now now d'"
  using assms
  by (auto simp: InvalidateSession_def RevokeSession_def db_logged_out_def Let_def
      split: option.splits if_splits)

lemma sessionCache_Invalidate_result:
  assumes "wf_cache ttl c"
  shows "wf_cache ttl (sessionCache_Invalidate c token)"
    and "cache_view (sessionCache_Invalidate c token) x k =
      (if token \<noteq> [] \<and> k = token then None else cache_view c x k)"
  using assms ttlc.inv_invalidate [OF assms] ttlc.invalidate_view [OF assms, of token x]
  by (auto simp: sessionCache_Invalidate_def)

lemma InvalidateSession_service:
  assumes "InvalidateSession P (Some d) up s token now = (s', Some d')"
  shows "s' = s\<lparr>as_sessions := sessionCache_Invalidate (as_sessions s) token,
     as_revocations := Revoke (ap_sha256 P) (as_revocations s) token (now + ap_SessionTTL P) now\<rparr>"
  using assms by (simp add: InvalidateSession_def Let_def)

lemma InvalidateSession_logged_out:
  assumes lo: "logged_out P tok t locl now s" and t: "t \<le> now" "0 < t" "0 \<le> ap_SessionTTL P"
    and r: "InvalidateSession P (Some d) up s token now = (s', Some d')"
  shows "logged_out P tok t locl now s'"
proof -
  note lo1 = logged_out_Revoke [OF lo t, of token]
  note i = sessionCache_Invalidate_result [OF logged_outD(2) [OF lo]]
  have "logged_out P tok t locl now (s\<lparr>as_revocations := Revoke (ap_sha256 P) (as_revocations s)
      token (now + ap_SessionTTL P) now\<rparr>\<lparr>as_sessions := sessionCache_Invalidate (as_sessions s) token\<rparr>)"
    by (rule logged_out_set_sessions [OF lo1 i(1)])
      (use i(2) logged_out_sessions [OF lo] in \<open>auto split: if_splits\<close>)
  then show ?thesis
    unfolding InvalidateSession_service [OF r]
    by (subst logged_out_part [symmetric]) (simp_all add: session_part_def)
qed

text \<open>A logout starts the invariant, here and on the other replicas.\<close>

lemma caches_ok_logged_out: "caches_ok t s \<Longrightarrow> logged_out P tok t False t s"
  by (auto simp: caches_ok_def logged_out_def revocationCacheTTL_def)

lemma InvalidateSession_starts:
  assumes c: "caches_ok t s" and t: "0 < t" "0 \<le> ap_SessionTTL P" "tok \<noteq> []"
    and r: "InvalidateSession P (Some d) up s tok t = (s', Some d')"
  shows "logged_out P tok t True t s'"
proof -
  have wf: "wf_cache defaultSessionCacheTTL (as_sessions s)"
    "wf_cache revocationCacheTTL (as_revocationCache s)" "wf_gomap (sr_entries (as_revocations s))"
    using c by (auto simp: caches_ok_def)
  show ?thesis
    unfolding InvalidateSession_service [OF r] using c t
    by (intro logged_outI)
      (auto simp: wf sessionCache_Invalidate_result [OF wf(1)] Revoke_result caches_ok_def)
qed

subsection \<open>The caches stay bounded\<close>

lemma caches_ok_later:
  assumes "caches_ok now s" and "now \<le> now'"
  shows "caches_ok now' s"
proof -
  have "x \<le> now' + ttl" if "x \<le> now + ttl" for x ttl using that assms(2) by simp
  then show ?thesis using assms unfolding caches_ok_def by (meson order_trans)
qed

lemma caches_ok_part: "session_part s' = session_part s \<Longrightarrow> caches_ok now s' \<longleftrightarrow> caches_ok now s"
  by (simp add: caches_ok_def session_part_def)

lemma caches_ok_new: "caches_ok now NewService"
  by (simp add: caches_ok_def NewService_def newSessionCache_def wf_cache_def newTTLCache_def
      newSessionRevocations_def cache_view_def defaultSessionCacheTTL_def revocationCacheTTL_def)

lemma ParseSession_caches_ok:
  assumes c: "caches_ok now s" and r: "ParseSession P (Some d) up s token fp now = (r, s')"
  shows "caches_ok now s'"
proof -
  have wf: "wf_cache revocationCacheTTL (as_revocationCache s)"
    "wf_cache defaultSessionCacheTTL (as_sessions s)" "wf_gomap (sr_entries (as_revocations s))"
    using c by (auto simp: caches_ok_def)
  have rev: "caches_ok now (s\<lparr>as_revocations := rv\<rparr>)"
    if "IsRevoked (ap_sha256 P) (as_revocations s) token now = (b, rv)" for b rv
    using c IsRevoked_result(2) [OF wf(3) that] by (simp add: caches_ok_def)
  have per: "caches_ok now s2"
    if i: "IsRevoked (ap_sha256 P) (as_revocations s) token now = (b', rv)"
      "isPersistentlyRevoked P (Some d) up (s\<lparr>as_revocations := rv\<rparr>) token now = (b, s2)" for b b' rv s2
  proof -
    note c1 = rev [OF i(1)]
    then have w: "wf_cache revocationCacheTTL (as_revocationCache (s\<lparr>as_revocations := rv\<rparr>))"
      by (simp add: caches_ok_def)
    note p = isPersistentlyRevoked_result [OF w i(2)]
    have "wf_gomap (sr_entries (as_revocations s2))"
      using p(3) c1 Revoke_result(1) by (fastforce simp: caches_ok_def)
    moreover have "x \<le> now + revocationCacheTTL"
      if "now \<le> x" "cache_view (as_revocationCache s2) x k \<noteq> None" for x k
      using p(4) [of x k] that c1 by (auto simp: caches_ok_def split: if_splits)
    ultimately show ?thesis using c1 p(1,2) by (auto simp: caches_ok_def)
  qed
  have ses: "caches_ok now (s2\<lparr>as_sessions := sc\<rparr>)"
    if "caches_ok now s2" "wf_cache defaultSessionCacheTTL sc"
      "\<And>x k. now \<le> x \<Longrightarrow> cache_view sc x k \<noteq> None \<Longrightarrow> x \<le> now + defaultSessionCacheTTL" for s2 sc
    using that by (auto simp: caches_ok_def)
  have get: "wf_cache defaultSessionCacheTTL sc \<and> (\<forall>x k. now \<le> x \<longrightarrow> cache_view sc x k \<noteq> None \<longrightarrow>
      x \<le> now + defaultSessionCacheTTL)"
    if "caches_ok now s2" "sessionCache_Get (as_sessions s2) token fp (now, now) = (u, sc)" for s2 u sc
  proof -
    have w: "wf_cache defaultSessionCacheTTL (as_sessions s2)" using that(1) by (simp add: caches_ok_def)
    show ?thesis using sessionCache_Get_result(1,2) [OF w that(2)] that(1) by (auto simp: caches_ok_def)
  qed
  from r show ?thesis
  proof (cases rule: ParseSession_cases)
    case (parsed rv s2 sc claims)
    note c2 = per [OF parsed(2,3)]
    note g = get [OF c2 parsed(4)]
    show ?thesis
      unfolding parsed(8)
      by (rule ses [OF c2]) (use g in \<open>auto simp: sessionCache_Set_result split: if_splits\<close>)
  next
    case (hit rv s2 user sc)
    note c2 = per [OF hit(2,3)]
    show ?thesis unfolding hit(6) by (rule ses [OF c2]) (use get [OF c2 hit(4)] in auto)
  next
    case (bad rv s2 sc)
    note c2 = per [OF bad(2,3)]
    show ?thesis unfolding bad(6) by (rule ses [OF c2]) (use get [OF c2 bad(4)] in auto)
  qed (use c rev per in auto)
qed

lemma InvalidateSession_caches_ok:
  assumes c: "caches_ok now s" and r: "InvalidateSession P (Some d) up s token now = (s', Some d')"
  shows "caches_ok now s'"
  using c unfolding InvalidateSession_service [OF r] caches_ok_def
  by (auto simp: sessionCache_Invalidate_result Revoke_result split: if_splits)

lemma InvalidateSession_Some: "\<exists>s' d'. InvalidateSession P (Some d) up s token now = (s', Some d')"
  by (simp add: InvalidateSession_def Let_def)

text \<open>A logout is the two calls, with the refresh tokens deleted in between.\<close>

lemma Logout_cases:
  assumes "Logout P d up s sess rfr fp now = (s', d')"
  obtains "s' = s" "ad_revocations d' = ad_revocations d"
  | r s1 d1 where "ParseSession P (Some d) up s sess fp now = (r, s1)"
      "ad_revocations d1 = ad_revocations d"
      "InvalidateSession P (Some d1) up s1 sess now = (s', Some d')" "sess \<noteq> []"
proof (cases "sess = []")
  case True
  with assms that(1) show ?thesis
    by (auto simp: Logout_def RevokeRefreshToken_def DeleteRefreshTokenByHash_def or_log_frame
        split: if_splits)
next
  case False
  obtain r s1 where p: "ParseSession P (Some d) up s sess fp now = (r, s1)" by fastforce
  define d1 where "d1 = (case r of
      Inr user \<Rightarrow> RevokeRefreshTokensForUser d (u_ID user)
    | Inl _ \<Rightarrow> if \<not> IsEmpty rfr then RevokeRefreshToken P d rfr else d)"
  have d1: "ad_revocations d1 = ad_revocations d"
    by (auto simp: d1_def RevokeRefreshToken_def RevokeRefreshTokensForUser_def or_log_frame
        DeleteRefreshTokenByHash_def DeleteRefreshTokensByUser_def split: sum.splits)
  obtain s2 d2 where i: "InvalidateSession P (Some d1) up s1 sess now = (s2, Some d2)"
    using InvalidateSession_Some by blast
  have "(s2, d2) = (s', d')"
    using assms False p i by (simp add: Logout_def d1_def [symmetric])
  with that(2) [OF p d1] i False show ?thesis by simp
qed

subsection \<open>All replicas\<close>

definition system_logged_out ::
  "AuthParams \<Rightarrow> string \<Rightarrow> gotime \<Rightarrow> nat \<Rightarrow> gotime \<Rightarrow> system \<Rightarrow> bool" where
  "system_logged_out P tok t i now \<sigma> \<longleftrightarrow>
     db_logged_out P tok t now (snd \<sigma>) \<and> (\<forall>k. logged_out P tok t (k = i) now (fst \<sigma> k))"

lemma db_logged_out_cong:
  "ad_revocations d' = ad_revocations d \<Longrightarrow> db_logged_out P tok t now d' = db_logged_out P tok t now d"
  by (simp add: db_logged_out_def)

lemma db_logged_out_later:
  "db_logged_out P tok t now d \<Longrightarrow> now \<le> now' \<Longrightarrow> db_logged_out P tok t now' d"
  by (simp add: db_logged_out_def)

lemma db_logged_out_purge:
  "db_logged_out P tok t now d \<Longrightarrow> db_logged_out P tok t now (PurgeExpiredSessionRevocations d now)"
  by (auto simp: db_logged_out_def PurgeExpiredSessionRevocations_def)

text \<open>For the sessions there are five kinds of steps.\<close>

lemma auth_step_cases:
  assumes "auth_step P now \<sigma> \<sigma>'"
  obtains (parse) reps d up k token fp r s' where "\<sigma> = (reps, d)" "\<sigma>' = (reps(k := s'), d)"
      "ParseSession P (Some d) up (reps k) token fp now = (r, s')"
  | (invalidate) reps d up k token s' d' where "\<sigma> = (reps, d)" "\<sigma>' = (reps(k := s'), d')"
      "InvalidateSession P (Some d) up (reps k) token now = (s', Some d')"
  | (logout) reps d up k sess rfr fp s' d' where "\<sigma> = (reps, d)" "\<sigma>' = (reps(k := s'), d')"
      "Logout P d up (reps k) sess rfr fp now = (s', d')"
  | (other) reps d k s' d' where "\<sigma> = (reps, d)" "\<sigma>' = (reps(k := s'), d')"
      "session_part s' = session_part (reps k)" "ad_revocations d' = ad_revocations d"
  | (purge) reps d where "\<sigma> = (reps, d)" "\<sigma>' = (reps, PurgeExpiredSessionRevocations d now)"
  using assms
proof cases
  case (as_parse d up reps k token fp r s')
  then show ?thesis using parse by blast
next
  case (as_invalidate d up reps k token s' d')
  then show ?thesis using invalidate by blast
next
  case (as_logout d up reps k sess rfr fp s' d')
  then show ?thesis using logout by blast
next
  case (as_load d up reps k userID r s')
  then show ?thesis using other LoadUser_frame by blast
next
  case (as_load_session d up reps k partial r s')
  then show ?thesis using other LoadUserForSession_frame by blast
next
  case (as_load_fresh d up reps k userID r s')
  then show ?thesis using other LoadUserFresh_frame by blast
next
  case (as_invalidate_user d up reps k userID s' d')
  then show ?thesis using other InvalidateUser_frame by blast
next
  case (as_create d up reps k user fp r' s')
  then show ?thesis using other CreateSession_frame by blast
next
  case (as_issue fresh d userID fp r'' d' reps)
  then show ?thesis using other [of reps d 0 "reps 0" d'] IssueRefresh_frame by simp
next
  case (as_rotate fresh d up reps k raw fp r3 s' d')
  then show ?thesis using other RotateRefresh_frame by blast
next
  case (as_purge reps d)
  then show ?thesis using purge by blast
next
  case (as_purge_refresh d d' reps)
  then have "ad_revocations d' = ad_revocations d"
    using delete_refresh_frame by (simp add: PurgeExpiredRefreshTokens_def)
  with as_purge_refresh show ?thesis using other [of reps d 0 "reps 0" d'] by simp
next
  case (as_users reps d users')
  then show ?thesis using other [of reps d 0 "reps 0" "d\<lparr>ad_users := users'\<rparr>"] by simp
qed

lemma auth_step_caches:
  assumes "auth_step P now \<sigma> \<sigma>'" and ok: "\<forall>k. caches_ok now (fst \<sigma> k)"
  shows "\<forall>k. caches_ok now (fst \<sigma>' k)"
  using assms(1)
proof (cases rule: auth_step_cases)
  case (parse reps d up k token fp r s')
  then show ?thesis using ok ParseSession_caches_ok [OF _ parse(3)] by simp
next
  case (invalidate reps d up k token s' d')
  then show ?thesis using ok InvalidateSession_caches_ok [OF _ invalidate(3)] by simp
next
  case (logout reps d up k sess rfr fp s' d')
  from logout(3) have "caches_ok now s'"
  proof (cases rule: Logout_cases)
    case (2 r s1 d1)
    then show ?thesis
      using ok ParseSession_caches_ok [OF _ 2(1)] InvalidateSession_caches_ok [OF _ 2(3)] logout(1) by simp
  qed (use ok logout(1) in simp)
  with ok logout show ?thesis by simp
next
  case (other reps d k s' d')
  then show ?thesis using ok caches_ok_part [OF other(3)] by simp
qed (use ok in simp)

lemma auth_step_logged_out:
  assumes "auth_step P now \<sigma> \<sigma>'" and lo: "system_logged_out P tok t i now \<sigma>"
    and t: "t \<le> now" "0 < t" and ttl: "revocationCacheTTL + defaultSessionCacheTTL < ap_SessionTTL P"
    and tok: "tok \<noteq> []" "expires_by P tok (t + ap_SessionTTL P)"
  shows "system_logged_out P tok t i now \<sigma>'"
proof -
  have ttl0: "0 \<le> ap_SessionTTL P"
    using ttl by (simp add: revocationCacheTTL_def defaultSessionCacheTTL_def)
  note par = ParseSession_logged_out(1) [OF _ _ t ttl tok]
  note inv = InvalidateSession_logged_out [OF _ t ttl0]
  have upd: "system_logged_out P tok t i now (reps(k := s'), d')"
    if "\<sigma> = (reps, d)" "logged_out P tok t (k = i) now s'" "db_logged_out P tok t now d'" for reps d k s' d'
    using lo that by (simp add: system_logged_out_def)
  have pre: "logged_out P tok t (k = i) now (reps k) \<and> db_logged_out P tok t now d"
    if "\<sigma> = (reps, d)" for reps d k
    using lo that by (simp add: system_logged_out_def)
  from assms(1) show ?thesis
  proof (cases rule: auth_step_cases)
    case (parse reps d up k token fp r s')
    note p = pre [OF parse(1), of k]
    have "logged_out P tok t (k = i) now s'" using p par [OF _ _ parse(3)] by blast
    with p show ?thesis unfolding parse(2) using upd [OF parse(1)] by blast
  next
    case (invalidate reps d up k token s' d')
    note p = pre [OF invalidate(1), of k]
    show ?thesis
      unfolding invalidate(2) using upd [OF invalidate(1)] p inv [OF _ invalidate(3)]
        InvalidateSession_db(1) [OF invalidate(3) t(1)] by blast
  next
    case (logout reps d up k sess rfr fp s' d')
    note p = pre [OF logout(1), of k]
    from logout(3) have "logged_out P tok t (k = i) now s' \<and> db_logged_out P tok t now d'"
    proof (cases rule: Logout_cases)
      case 1
      with p show ?thesis using db_logged_out_cong [OF 1(2)] by simp
    next
      case (2 r s1 d1)
      have "db_logged_out P tok t now d1" using p db_logged_out_cong [OF 2(2)] by blast
      then show ?thesis
        using p par [OF _ _ 2(1)] inv [OF _ 2(3)] InvalidateSession_db(1) [OF 2(3) t(1)] by blast
    qed
    then show ?thesis unfolding logout(2) using upd [OF logout(1)] by blast
  next
    case (other reps d k s' d')
    note p = pre [OF other(1), of k]
    show ?thesis
      unfolding other(2) using upd [OF other(1)] p logged_out_part [OF other(3)]
        db_logged_out_cong [OF other(4)] by blast
  next
    case (purge reps d)
    show ?thesis
      using pre [OF purge(1)] db_logged_out_purge unfolding purge(2) system_logged_out_def by auto
  qed
qed

lemma auth_steps_caches:
  "auth_steps P t \<sigma> t' \<sigma>' \<Longrightarrow> \<forall>k. caches_ok t (fst \<sigma> k) \<Longrightarrow> \<forall>k. caches_ok t' (fst \<sigma>' k)"
proof (induction rule: auth_steps.induct)
  case (steps_wait t \<sigma> t1 \<sigma>' t2)
  then show ?case using caches_ok_later by blast
next
  case (steps_step t \<sigma> t1 \<sigma>1 \<sigma>2)
  then show ?case using auth_step_caches by blast
qed simp

lemma auth_steps_le: "auth_steps P t \<sigma> t' \<sigma>' \<Longrightarrow> t \<le> t'"
  by (induction rule: auth_steps.induct) auto

lemma auth_steps_logged_out:
  assumes "auth_steps P t \<sigma> t' \<sigma>'" and "system_logged_out P tok t i t \<sigma>" and "0 < t"
    and "revocationCacheTTL + defaultSessionCacheTTL < ap_SessionTTL P"
    and "tok \<noteq> []" "expires_by P tok (t + ap_SessionTTL P)"
  shows "system_logged_out P tok t i t' \<sigma>'"
  using assms
proof (induction rule: auth_steps.induct)
  case (steps_wait t \<sigma> t1 \<sigma>' t2)
  then show ?case
    unfolding system_logged_out_def using logged_out_later db_logged_out_later by blast
next
  case (steps_step t \<sigma> t1 \<sigma>1 \<sigma>2)
  then show ?case using auth_step_logged_out auth_steps_le by blast
qed

section \<open>Properties of sessions\<close>

definition sample_params :: AuthParams where
  "sample_params = \<lparr>ap_SessionTTL = 900 * Second, ap_RefreshTokenTTL = 604800 * Second,
     ap_AdminUsername = ''admin'', ap_AdminPassword = ''pw'',
     ap_sign = (\<lambda>c. cl_Username c), ap_parse = (\<lambda>token now.
        if token = ''jwt'' \<and> now < 900 * Second
        then Some \<lparr>cl_UserID = ''m'', cl_Username = ''mia'', cl_Fingerprint = ''f'',
               cl_Roles = [RoleViewer], cl_UserVersion = 1, cl_IsRoot = False,
               cl_ExpiresAt = 900 * Second, cl_IssuedAt = 0\<rparr>
        else None),
     ap_sha256 = (\<lambda>x. x), ap_bcrypt = (\<lambda>pw. Some pw), ap_CheckPassword = (=)\<rparr>"

definition empty_db :: AuthDB where
  "empty_db = \<lparr>ad_users = \<lparr>db_users = [], db_user_roles = [], db_grants = []\<rparr>,
     ad_versions = Map.empty, ad_revocations = Map.empty, ad_refresh = []\<rparr>"

text \<open>C8: a logout is enforced for good and on every replica.  Take any run of any number of
  replicas over one database, started fresh, that invalidates a session token on replica
  \<open>i\<close> at time \<open>t\<close> with the database reachable, and goes on in any way (with the
  database reachable or not).  From then on replica \<open>i\<close> refuses the token at once and
  for ever, and every other replica refuses it once the five seconds for which it may hold a
  cached answer are over.\<close>

theorem logout_enforced:
  assumes "auth_steps P t0 (\<lambda>_. NewService, d0) t (reps, d)" and "0 < t" and "tok \<noteq> []"
    and "revocationCacheTTL + defaultSessionCacheTTL < ap_SessionTTL P"
    and "expires_by P tok (t + ap_SessionTTL P)"
    and "InvalidateSession P (Some d) True (reps i) tok t = (s, Some d1)"
    and "auth_steps P t (reps(i := s), d1) now (reps', d')"
    and "k = i \<or> t + revocationCacheTTL < now"
    and "ParseSession P (Some d') up (reps' k) tok fp now = (r, s')"
  shows "r = Inl ErrUnauthorized"
proof -
  have ttl0: "0 \<le> ap_SessionTTL P"
    using assms(4) by (simp add: revocationCacheTTL_def defaultSessionCacheTTL_def)
  have caches: "\<forall>k. caches_ok t (reps k)"
    using auth_steps_caches [OF assms(1)] caches_ok_new by simp
  have "system_logged_out P tok t i t (reps(i := s), d1)"
    unfolding system_logged_out_def
    using InvalidateSession_starts [OF _ assms(2) ttl0 assms(3,6)] caches
      caches_ok_logged_out InvalidateSession_db(2) [OF assms(6)] by auto
  from auth_steps_logged_out [OF assms(7) this assms(2,4,3,5)]
  have lo: "logged_out P tok t (k = i) now (reps' k)" "db_logged_out P tok t now d'"
    by (auto simp: system_logged_out_def)
  from ParseSession_logged_out(2) [OF lo auth_steps_le [OF assms(7)] assms(2,4,3,5,9)]
  show ?thesis using assms(8) by blast
qed

theorem logout_enforced_witness:
  "case InvalidateSession sample_params (Some empty_db) True NewService ''jwt'' 10 of
     (s, Some d1) \<Rightarrow>
       fst (ParseSession sample_params (Some d1) True s ''jwt'' ''f'' 11) = Inl ErrUnauthorized \<and>
       fst (ParseSession sample_params (Some empty_db) True NewService ''jwt'' ''f'' 10) \<noteq>
         Inl ErrUnauthorized
   | _ \<Rightarrow> False"
proof -
  obtain s d1 where i: "InvalidateSession sample_params (Some empty_db) True NewService ''jwt'' 10 =
      (s, Some d1)" using InvalidateSession_Some by blast
  have run: "auth_steps sample_params 10 (\<lambda>_. NewService, empty_db) 10 (\<lambda>_. NewService, empty_db)"
    by (rule steps_refl)
  have run2: "auth_steps sample_params 10 ((\<lambda>_. NewService)(0 := s), d1) 11 ((\<lambda>_. NewService)(0 := s), d1)"
    by (rule steps_wait [OF steps_refl]) simp
  have ttl: "revocationCacheTTL + defaultSessionCacheTTL < ap_SessionTTL sample_params" by code_simp
  have ex: "expires_by sample_params ''jwt'' (10 + ap_SessionTTL sample_params)"
    by (auto simp: expires_by_def sample_params_def split: if_splits)
  obtain r s' where p: "ParseSession sample_params (Some d1) True
      (((\<lambda>_. NewService)(0 := s)) (0 :: nat)) ''jwt'' ''f'' 11 = (r, s')" by fastforce
  have "r = Inl ErrUnauthorized"
  proof (rule logout_enforced [where k = 0 and i = 0, OF run _ _ ttl ex _ run2 _ p])
    show "InvalidateSession sample_params (Some empty_db) True NewService ''jwt'' 10 = (s, Some d1)"
      by (rule i)
  qed auto
  moreover have "fst (ParseSession sample_params (Some empty_db) True NewService ''jwt'' ''f'' 10) \<noteq>
      Inl ErrUnauthorized" by code_simp
  ultimately show ?thesis using i p by simp
qed

subsection \<open>Every accepted session was validated\<close>

text \<open>A cached session was parsed and verified, with this fingerprint, at most one time to
  live of the cache ago.\<close>

definition validated :: "AuthParams \<Rightarrow> string \<Rightarrow> string \<Rightarrow> User \<Rightarrow> gotime \<Rightarrow> gotime \<Rightarrow> bool" where
  "validated P token fp user now x \<longleftrightarrow> fp \<noteq> [] \<and>
     (\<exists>t c. t \<le> now \<and> x \<le> t + defaultSessionCacheTTL \<and> ap_parse P token t = Some c \<and>
        cl_Fingerprint c = fp \<and> user = user_of_claims c)"

definition sessions_ok :: "AuthParams \<Rightarrow> gotime \<Rightarrow> AuthService \<Rightarrow> bool" where
  "sessions_ok P now s \<longleftrightarrow> (\<forall>x token e. now \<le> x \<longrightarrow> cache_view (as_sessions s) x token = Some e \<longrightarrow>
     validated P token (cs_fingerprint e) (cs_user e) now x)"

lemma sessions_okD:
  "sessions_ok P now s \<Longrightarrow> now \<le> x \<Longrightarrow> cache_view (as_sessions s) x token = Some e \<Longrightarrow>
   validated P token (cs_fingerprint e) (cs_user e) now x"
  by (simp add: sessions_ok_def)

lemma sessions_ok_later: "sessions_ok P now s \<Longrightarrow> now \<le> now' \<Longrightarrow> sessions_ok P now' s"
  unfolding sessions_ok_def validated_def by (meson order_trans)

lemma sessions_ok_new: "sessions_ok P now NewService"
  by (simp add: sessions_ok_def NewService_def newSessionCache_def newTTLCache_empty)

lemma sessions_ok_same:
  assumes "sessions_ok P now s"
    and "\<And>x k. now \<le> x \<Longrightarrow> cache_view (as_sessions s') x k \<noteq> None \<Longrightarrow>
      cache_view (as_sessions s') x k = cache_view (as_sessions s) x k"
  shows "sessions_ok P now s'"
  unfolding sessions_ok_def using assms sessions_okD by (metis option.distinct(1))

lemma ParseSession_validated:
  assumes c: "caches_ok now s" and so: "sessions_ok P now s"
    and r: "ParseSession P (Some d) up s token fp now = (r, s')"
  shows "sessions_ok P now s'" and "r = Inr user \<Longrightarrow> validated P token fp user now now"
proof -
  have keep: "as_sessions s2 = as_sessions s"
    if "isPersistentlyRevoked P (Some d) up (s\<lparr>as_revocations := rv\<rparr>) token now = (b, s2)" for rv b s2
    using isPersistentlyRevoked_result(1) [OF _ that] c by (simp add: caches_ok_def)
  have wf: "wf_cache defaultSessionCacheTTL (as_sessions s)" using c by (simp add: caches_ok_def)
  have "sessions_ok P now s' \<and> (r = Inr user \<longrightarrow> validated P token fp user now now)"
    using r
  proof (cases rule: ParseSession_cases)
    case (hit rv s2 u sc)
    note g = sessionCache_Get_result [OF wf hit(4) [unfolded keep [OF hit(3)]]]
    have "sessions_ok P now s'" by (rule sessions_ok_same [OF so]) (simp add: hit(6) g(2))
    moreover have "validated P token fp u now now"
      using g(3) sessions_okD [OF so, of now token] by auto
    ultimately show ?thesis using hit(5) by auto
  next
    case (bad rv s2 sc)
    note g = sessionCache_Get_result [OF wf bad(4) [unfolded keep [OF bad(3)]]]
    have "sessions_ok P now s'" by (rule sessions_ok_same [OF so]) (simp add: bad(6) g(2))
    with bad(5) show ?thesis by simp
  next
    case (parsed rv s2 sc claims)
    note g = sessionCache_Get_result [OF wf parsed(4) [unfolded keep [OF parsed(3)]]]
    have v: "validated P token fp (user_of_claims claims) now x" if "x \<le> now + defaultSessionCacheTTL" for x
      using parsed(1,5,6) that unfolding validated_def by blast
    have "sessions_ok P now s'"
      unfolding sessions_ok_def parsed(8)
      using sessionCache_Set_result(2) [OF g(1)] g(2) sessions_okD [OF so] v
      by (auto split: if_splits)
    with parsed(7) v [of now] show ?thesis by (auto simp: defaultSessionCacheTTL_def)
  next
    case (persistent rv)
    have "sessions_ok P now s'"
      by (rule sessions_ok_same [OF so]) (simp add: keep [OF persistent(3)])
    with persistent(4) show ?thesis by simp
  next
    case (revoked rv)
    have "sessions_ok P now s'" by (rule sessions_ok_same [OF so]) (simp add: revoked(4))
    with revoked(3) show ?thesis by simp
  qed (use so in simp)
  then show "sessions_ok P now s'" "r = Inr user \<Longrightarrow> validated P token fp user now now" by blast+
qed

lemma InvalidateSession_sessions_ok:
  assumes "caches_ok now s" and "sessions_ok P now s"
    and "InvalidateSession P (Some d) up s token now = (s', Some d')"
  shows "sessions_ok P now s'"
proof (rule sessions_ok_same [OF assms(2)])
  have "wf_cache defaultSessionCacheTTL (as_sessions s)" using assms(1) by (simp add: caches_ok_def)
  from sessionCache_Invalidate_result(2) [OF this]
  show "cache_view (as_sessions s') x k = cache_view (as_sessions s) x k"
    if "cache_view (as_sessions s') x k \<noteq> None" for x k
    using that unfolding InvalidateSession_service [OF assms(3)] by (auto split: if_splits)
qed

lemma auth_step_sessions_ok:
  assumes "auth_step P now \<sigma> \<sigma>'" and c: "\<forall>k. caches_ok now (fst \<sigma> k)"
    and so: "\<forall>k. sessions_ok P now (fst \<sigma> k)"
  shows "\<forall>k. sessions_ok P now (fst \<sigma>' k)"
  using assms(1)
proof (cases rule: auth_step_cases)
  case (parse reps d up k token fp r s')
  then show ?thesis using c so ParseSession_validated(1) [OF _ _ parse(3)] by simp
next
  case (invalidate reps d up k token s' d')
  then show ?thesis using c so InvalidateSession_sessions_ok [OF _ _ invalidate(3)] by simp
next
  case (logout reps d up k sess rfr fp s' d')
  from logout(3) have "sessions_ok P now s'"
  proof (cases rule: Logout_cases)
    case (2 r s1 d1)
    then show ?thesis
      using c so ParseSession_validated(1) [OF _ _ 2(1)] ParseSession_caches_ok [OF _ 2(1)]
        InvalidateSession_sessions_ok [OF _ _ 2(3)] logout(1) by simp
  qed (use so logout(1) in simp)
  with so logout show ?thesis by simp
next
  case (other reps d k s' d')
  then show ?thesis using so by (simp add: sessions_ok_def session_part_def)
qed (use so in simp)

lemma auth_steps_sessions_ok:
  "auth_steps P t \<sigma> t' \<sigma>' \<Longrightarrow> \<forall>k. caches_ok t (fst \<sigma> k) \<and> sessions_ok P t (fst \<sigma> k) \<Longrightarrow>
     \<forall>k. caches_ok t' (fst \<sigma>' k) \<and> sessions_ok P t' (fst \<sigma>' k)"
proof (induction rule: auth_steps.induct)
  case (steps_wait t \<sigma> t1 \<sigma>' t2)
  then show ?case using caches_ok_later sessions_ok_later by blast
next
  case (steps_step t \<sigma> t1 \<sigma>1 \<sigma>2)
  then show ?case using auth_step_caches auth_step_sessions_ok by meson
qed simp

text \<open>C30: in every run, a session token is accepted only with the fingerprint it was signed
  for, and only if the parser accepted the very token (signature and expiry) at most 45
  seconds before; the user is the one of its claims.\<close>

theorem session_validated:
  assumes "auth_steps P t0 (\<lambda>_. NewService, d0) now (reps, d)"
    and "ParseSession P (Some d) up (reps k) token fp now = (Inr user, s')"
  shows "\<exists>t c. t \<le> now \<and> now \<le> t + 45 * Second \<and> ap_parse P token t = Some c \<and>
     fp \<noteq> [] \<and> cl_Fingerprint c = fp \<and> user = user_of_claims c"
proof -
  have "caches_ok now (reps k)" "sessions_ok P now (reps k)"
    using auth_steps_sessions_ok [OF assms(1)] caches_ok_new sessions_ok_new by simp_all
  from ParseSession_validated(2) [OF this assms(2)]
  show ?thesis unfolding validated_def defaultSessionCacheTTL_def by blast
qed

theorem session_validated_witness:
  "\<exists>t c. t \<le> 5 \<and> 5 \<le> t + 45 * Second \<and> ap_parse sample_params ''jwt'' t = Some c \<and>
     cl_Fingerprint c = ''f'' \<and>
     fst (ParseSession sample_params (Some empty_db) True NewService ''jwt'' ''f'' 5) =
       Inr (user_of_claims c)"
proof -
  have "is_ok (fst (ParseSession sample_params (Some empty_db) True NewService ''jwt'' ''f'' 5))"
    by code_simp
  then obtain user s' where p:
    "ParseSession sample_params (Some empty_db) True NewService ''jwt'' ''f'' 5 = (Inr user, s')"
    by (metis is_ok_iff prod.collapse)
  from session_validated [OF steps_refl p] show ?thesis using p by auto
qed

text \<open>The 45 seconds are real.  A session whose token has expired (the parser refuses it)
  is still accepted from the cache.\<close>

theorem expired_session_served:
  "case ParseSession sample_params (Some empty_db) True NewService ''jwt'' ''f'' (899 * Second) of
     (Inr _, s) \<Rightarrow>
       ap_parse sample_params ''jwt'' (944 * Second) = None \<and>
       is_ok (fst (ParseSession sample_params (Some empty_db) True s ''jwt'' ''f'' (944 * Second)))
   | _ \<Rightarrow> False"
  by code_simp

end
