(* ===== verification/Refresh_Tokens.thy ===== *)
theory Refresh_Tokens
  imports Auth_Service
begin

text \<open>
  Rotation of refresh tokens (\<^verbatim>\<open>internal/auth/refresh.go\<close> over
  \<^verbatim>\<open>internal/repo/refresh_tokens.go\<close>) when several requests run at the same time, and
  what a detected reuse and a change of a user's rights lead to.

  Each statement of the database is atomic, a rotation is not: the step relation
  \<open>rot_step\<close> lets any number of rotations, logins, logouts and purges interleave between
  their statements.
\<close>

section \<open>Interleaved rotations\<close>

text \<open>Where a rotation stands, between two statements.\<close>

datatype rot_pc =
    RStart string string            \<comment> \<open>the raw token and the fingerprint\<close>
  | RLoaded RefreshToken string     \<comment> \<open>the row passed the checks\<close>
  | RIssued RefreshToken string     \<comment> \<open>the id of the new row\<close>
  | RReuse string                   \<comment> \<open>the user whose tokens are to be deleted\<close>
  | RExpired string                 \<comment> \<open>the hash of the row to delete\<close>
  | RFailed
  | RRotated

record rot_state =
  ro_db :: AuthDB
  ro_used :: "string set"          \<comment> \<open>ids generated so far\<close>
  ro_pc :: "nat \<Rightarrow> rot_pc"
  ro_rotated :: "string list"      \<comment> \<open>ids of the rows rotated so far\<close>

text \<open>The first statement and the checks that follow it.\<close>

definition rot_load :: "AuthParams \<Rightarrow> AuthDB \<Rightarrow> string \<Rightarrow> string \<Rightarrow> gotime \<Rightarrow> rot_pc" where
  "rot_load P d raw fingerprint now =
     (if IsEmpty raw \<or> IsEmpty fingerprint then RFailed
      else (case GetRefreshTokenByHash d (hashRefreshToken P raw) of
          None \<Rightarrow> RFailed
        | Some existing \<Rightarrow>
            if \<not> IsEmpty (rt_ReplacedBy existing) then RReuse (rt_UserID existing)
            else if now > rt_ExpiresAt existing then RExpired (rt_TokenHash existing)
            else if rt_FingerprintHash existing \<noteq> fingerprint then RFailed
            else RLoaded existing fingerprint))"

definition rot_mark :: "AuthDB \<Rightarrow> RefreshToken \<Rightarrow> string \<Rightarrow> rot_pc \<times> AuthDB" where
  "rot_mark d existing newID =
     (case MarkRefreshTokenReplaced d (rt_ID existing) newID of
        Inl _ \<Rightarrow> (RFailed, d)
      | Inr (False, d') \<Rightarrow> (RReuse (rt_UserID existing), d')
      | Inr (True, d') \<Rightarrow> (RRotated, d'))"

inductive rot_step :: "AuthParams \<Rightarrow> rot_state \<Rightarrow> rot_state \<Rightarrow> bool" for P where
  rs_begin: "rot_step P \<sigma> (\<sigma>\<lparr>ro_pc := (ro_pc \<sigma>)(k := RStart raw fp)\<rparr>)"
| rs_load: "ro_pc \<sigma> k = RStart raw fp \<Longrightarrow>
     rot_step P \<sigma> (\<sigma>\<lparr>ro_pc := (ro_pc \<sigma>)(k := rot_load P (ro_db \<sigma>) raw fp now)\<rparr>)"
| rs_user_missing: "ro_pc \<sigma> k = RLoaded existing fp \<Longrightarrow>
     rot_step P \<sigma> (\<sigma>\<lparr>ro_pc := (ro_pc \<sigma>)(k := RFailed)\<rparr>)"
| rs_issue: "ro_pc \<sigma> k = RLoaded existing fp \<Longrightarrow> newID \<noteq> [] \<Longrightarrow> newID \<notin> ro_used \<sigma> \<Longrightarrow>
     IssueRefresh P (raw', newID) (ro_db \<sigma>) userID fp now = (Inr (raw', newID), d') \<Longrightarrow>
     rot_step P \<sigma> (\<sigma>\<lparr>ro_db := d', ro_used := insert newID (ro_used \<sigma>),
       ro_pc := (ro_pc \<sigma>)(k := RIssued existing newID)\<rparr>)"
| rs_mark: "ro_pc \<sigma> k = RIssued existing newID \<Longrightarrow> rot_mark (ro_db \<sigma>) existing newID = (pc, d') \<Longrightarrow>
     rot_step P \<sigma> (\<sigma>\<lparr>ro_db := d', ro_pc := (ro_pc \<sigma>)(k := pc),
       ro_rotated := (if pc = RRotated then [rt_ID existing] else []) @ ro_rotated \<sigma>\<rparr>)"
| rs_reuse: "ro_pc \<sigma> k = RReuse userID \<Longrightarrow>
     rot_step P \<sigma> (\<sigma>\<lparr>ro_db := or_log (DeleteRefreshTokensByUser (ro_db \<sigma>) userID) (ro_db \<sigma>),
       ro_pc := (ro_pc \<sigma>)(k := RFailed)\<rparr>)"
| rs_expired: "ro_pc \<sigma> k = RExpired hash \<Longrightarrow>
     rot_step P \<sigma> (\<sigma>\<lparr>ro_db := or_log (DeleteRefreshTokenByHash (ro_db \<sigma>) hash) (ro_db \<sigma>),
       ro_pc := (ro_pc \<sigma>)(k := RFailed)\<rparr>)"
| rs_login: "newID \<noteq> [] \<Longrightarrow> newID \<notin> ro_used \<sigma> \<Longrightarrow>
     IssueRefresh P (raw', newID) (ro_db \<sigma>) userID fp now = (Inr (raw', newID), d') \<Longrightarrow>
     rot_step P \<sigma> (\<sigma>\<lparr>ro_db := d', ro_used := insert newID (ro_used \<sigma>)\<rparr>)"
| rs_revoke_user: "rot_step P \<sigma> (\<sigma>\<lparr>ro_db := RevokeRefreshTokensForUser (ro_db \<sigma>) userID\<rparr>)"
| rs_revoke: "rot_step P \<sigma> (\<sigma>\<lparr>ro_db := RevokeRefreshToken P (ro_db \<sigma>) raw\<rparr>)"
| rs_purge: "PurgeExpiredRefreshTokens (ro_db \<sigma>) now = Inr d' \<Longrightarrow> rot_step P \<sigma> (\<sigma>\<lparr>ro_db := d'\<rparr>)"

definition rot_init :: rot_state where
  "rot_init = \<lparr>ro_db = empty_db, ro_used = {}, ro_pc = (\<lambda>_. RFailed), ro_rotated = []\<rparr>"

text \<open>A row that was rotated is gone or carries its successor; ids are not reused.\<close>

definition rot_inv :: "rot_state \<Rightarrow> bool" where
  "rot_inv \<sigma> \<longleftrightarrow>
     distinct (map rt_ID (ad_refresh (ro_db \<sigma>))) \<and>
     rt_ID ` set (ad_refresh (ro_db \<sigma>)) \<subseteq> ro_used \<sigma> \<and>
     set (ro_rotated \<sigma>) \<subseteq> ro_used \<sigma> \<and> distinct (ro_rotated \<sigma>) \<and>
     (\<forall>rt\<in>set (ad_refresh (ro_db \<sigma>)). rt_ID rt \<in> set (ro_rotated \<sigma>) \<longrightarrow> rt_ReplacedBy rt \<noteq> []) \<and>
     (\<forall>k existing newID. ro_pc \<sigma> k = RIssued existing newID \<longrightarrow> newID \<noteq> [])"

subsection \<open>The invariant\<close>

text \<open>A change of the table that only removes rows keeps it.\<close>

lemma rot_inv_delete:
  assumes "rot_inv \<sigma>" and "\<exists>Q. ad_refresh d' = filter Q (ad_refresh (ro_db \<sigma>))"
    and "\<And>j existing newID. pc j = RIssued existing newID \<Longrightarrow> ro_pc \<sigma> j = RIssued existing newID"
  shows "rot_inv (\<sigma>\<lparr>ro_db := d', ro_pc := pc\<rparr>)"
  using assms(1,2) unfolding rot_inv_def
  by (auto simp: distinct_map_filter dest!: assms(3)) blast

lemma or_log_delete:
  "\<exists>Q. ad_refresh (or_log (delete_refresh R d) d) = filter Q (ad_refresh d)"
proof (cases "delete_refresh R d")
  case (Inl e)
  then show ?thesis by (auto simp: or_log_def intro: exI [of _ "\<lambda>_. True"])
next
  case (Inr d')
  then show ?thesis by (auto simp: or_log_def delete_refresh_def Let_def split: if_splits)
qed

lemma no_delete: "\<exists>Q. ad_refresh d = filter Q (ad_refresh d)"
  by (rule exI [of _ "\<lambda>_. True"]) simp

lemma rot_inv_issue:
  assumes "rot_inv \<sigma>" and "newID \<noteq> []" and "newID \<notin> ro_used \<sigma>"
    and "IssueRefresh P (raw', newID) (ro_db \<sigma>) userID fp now = (Inr (raw', newID), d')"
    and "\<And>j existing n. pc j = RIssued existing n \<Longrightarrow> n \<noteq> []"
  shows "rot_inv (\<sigma>\<lparr>ro_db := d', ro_used := insert newID (ro_used \<sigma>), ro_pc := pc\<rparr>)"
proof -
  have "\<exists>rt. rt_ID rt = newID \<and> ad_refresh d' = ad_refresh (ro_db \<sigma>) @ [rt]"
    using assms(4)
    by (auto simp: IssueRefresh_def InsertRefreshToken_def Let_def split: if_splits)
  then obtain rt where rt: "rt_ID rt = newID" "ad_refresh d' = ad_refresh (ro_db \<sigma>) @ [rt]" by blast
  moreover have "newID \<notin> rt_ID ` set (ad_refresh (ro_db \<sigma>))" "newID \<notin> set (ro_rotated \<sigma>)"
    using assms(1,3) unfolding rot_inv_def by blast+
  ultimately show ?thesis using assms(1,5) unfolding rot_inv_def by auto
qed

lemma rot_inv_mark:
  assumes "rot_inv \<sigma>" and "ro_pc \<sigma> k = RIssued existing newID"
    and "rot_mark (ro_db \<sigma>) existing newID = (pc, d')"
  shows "rot_inv (\<sigma>\<lparr>ro_db := d', ro_pc := (ro_pc \<sigma>)(k := pc),
    ro_rotated := (if pc = RRotated then [rt_ID existing] else []) @ ro_rotated \<sigma>\<rparr>)"
proof (cases "pc = RRotated")
  case False
  with assms(3) have "d' = ro_db \<sigma>" and "\<And>e n. pc \<noteq> RIssued e n"
    by (auto simp: rot_mark_def MarkRefreshTokenReplaced_def split: sum.splits prod.splits if_splits)
  then show ?thesis using assms(1) False unfolding rot_inv_def by auto
next
  case True
  define f where "f = (\<lambda>rt :: RefreshToken. if rt_ID rt = rt_ID existing \<and> rt_ReplacedBy rt = []
    then rt\<lparr>rt_ReplacedBy := newID\<rparr> else rt)"
  have ex: "\<exists>rt\<in>set (ad_refresh (ro_db \<sigma>)). rt_ID rt = rt_ID existing \<and> rt_ReplacedBy rt = []"
    and d': "ad_refresh d' = map f (ad_refresh (ro_db \<sigma>))"
    using assms(3) True
    by (auto simp: rot_mark_def MarkRefreshTokenReplaced_def list_ex_iff f_def
        split: sum.splits prod.splits if_splits)
  have id: "rt_ID (f rt) = rt_ID rt" for rt by (simp add: f_def)
  have "map rt_ID (map f rts) = map rt_ID rts" "rt_ID ` f ` set rts = rt_ID ` set rts" for rts
    by (simp_all add: comp_def image_image id)
  moreover have "rt_ReplacedBy (f rt) \<noteq> []" if "rt_ID rt = rt_ID existing \<or> rt_ReplacedBy rt \<noteq> []" for rt
    using that assms(1,2) unfolding rot_inv_def f_def by auto
  moreover have "rt_ID existing \<notin> set (ro_rotated \<sigma>)" "rt_ID existing \<in> ro_used \<sigma>"
    using ex assms(1) unfolding rot_inv_def by (metis, metis image_eqI subset_iff)
  moreover have "newID \<noteq> []" using assms(1,2) unfolding rot_inv_def by blast
  ultimately show ?thesis
    using assms(1) True id unfolding rot_inv_def by (auto simp: d' simp del: map_map)
qed

lemma rot_step_inv: "rot_step P \<sigma> \<sigma>' \<Longrightarrow> rot_inv \<sigma> \<Longrightarrow> rot_inv \<sigma>'"
proof (induction rule: rot_step.induct)
  case (rs_load \<sigma> k raw fp now)
  have "rot_load P (ro_db \<sigma>) raw fp now \<noteq> RIssued e n" for e n
    by (auto simp: rot_load_def split: option.splits)
  then show ?case using rs_load unfolding rot_inv_def by auto
next
  case (rs_issue \<sigma> k existing fp newID raw' userID now d')
  show ?case
    by (rule rot_inv_issue [OF rs_issue(5,2-4)])
      (use rs_issue(2,5) in \<open>auto simp: rot_inv_def split: if_splits\<close>)
next
  case (rs_mark \<sigma> k existing newID pc d')
  then show ?case using rot_inv_mark by blast
next
  case (rs_reuse \<sigma> k userID)
  show ?case
    unfolding DeleteRefreshTokensByUser_def
    by (rule rot_inv_delete [OF rs_reuse(2) or_log_delete]) (auto split: if_splits)
next
  case (rs_expired \<sigma> k hash)
  show ?case
    unfolding DeleteRefreshTokenByHash_def
    by (rule rot_inv_delete [OF rs_expired(2) or_log_delete]) (auto split: if_splits)
next
  case (rs_login newID \<sigma> raw' userID fp now d')
  from rot_inv_issue [OF rs_login(4,1-3), of "ro_pc \<sigma>"] rs_login(4) show ?case
    by (auto simp: rot_inv_def)
next
  case (rs_revoke_user \<sigma> userID)
  have "\<exists>Q. ad_refresh (RevokeRefreshTokensForUser (ro_db \<sigma>) userID) = filter Q (ad_refresh (ro_db \<sigma>))"
    using or_log_delete no_delete
    by (cases "userID = []") (simp_all add: RevokeRefreshTokensForUser_def DeleteRefreshTokensByUser_def)
  from rot_inv_delete [OF rs_revoke_user this, of "ro_pc \<sigma>"] show ?case by simp
next
  case (rs_revoke \<sigma> raw)
  have "\<exists>Q. ad_refresh (RevokeRefreshToken P (ro_db \<sigma>) raw) = filter Q (ad_refresh (ro_db \<sigma>))"
    using or_log_delete no_delete
    by (cases "raw = []") (simp_all add: RevokeRefreshToken_def DeleteRefreshTokenByHash_def)
  from rot_inv_delete [OF rs_revoke this, of "ro_pc \<sigma>"] show ?case by simp
next
  case (rs_purge \<sigma> now d')
  have "\<exists>Q. ad_refresh d' = filter Q (ad_refresh (ro_db \<sigma>))"
    using rs_purge(1)
    by (auto simp: PurgeExpiredRefreshTokens_def delete_refresh_def Let_def split: if_splits)
  from rot_inv_delete [OF rs_purge(2) this, of "ro_pc \<sigma>"] show ?case by simp
qed (auto simp: rot_inv_def)

lemma rot_init_inv: "rot_inv rot_init"
  by (simp add: rot_inv_def rot_init_def empty_db_def)

lemma rot_steps_inv: "(rot_step P)\<^sup>*\<^sup>* \<sigma> \<sigma>' \<Longrightarrow> rot_inv \<sigma> \<Longrightarrow> rot_inv \<sigma>'"
  by (induction rule: rtranclp_induct) (auto intro: rot_step_inv)

section \<open>A token used twice\<close>

text \<open>Ids are unique, and a row and its successor belong to the same user.\<close>

definition refs_ok :: "AuthDB \<Rightarrow> bool" where
  "refs_ok d \<longleftrightarrow> distinct (map rt_ID (ad_refresh d)) \<and>
     (\<forall>rt\<in>set (ad_refresh d). rt_ReplacedBy rt \<noteq> [] \<longrightarrow>
        (\<exists>rt'\<in>set (ad_refresh d). rt_ID rt' = rt_ReplacedBy rt \<and> rt_UserID rt' = rt_UserID rt))"

definition users_ok :: "gotime \<Rightarrow> AuthService \<Rightarrow> bool" where
  "users_ok now s \<longleftrightarrow> wf_cache defaultUserCacheTTL (as_users s) \<and>
     (\<forall>k u. cache_view (as_users s) now k = Some u \<longrightarrow> u_ID u = k)"

lemma same_id: "distinct (map rt_ID rts) \<Longrightarrow> a \<in> set rts \<Longrightarrow> b \<in> set rts \<Longrightarrow> rt_ID a = rt_ID b \<Longrightarrow> a = b"
  by (auto simp: distinct_map inj_on_def)

lemma delete_user_ok:
  assumes "refs_ok d"
  shows "DeleteRefreshTokensByUser d userID =
    Inr (d\<lparr>ad_refresh := filter (\<lambda>rt. rt_UserID rt \<noteq> userID) (ad_refresh d)\<rparr>)"
proof -
  have "\<not> list_ex (\<lambda>rt. rt_ReplacedBy rt \<noteq> [] \<and>
      rt_ReplacedBy rt \<in> rt_ID ` set (filter (\<lambda>rt. rt_UserID rt = userID) (ad_refresh d)))
    (filter (\<lambda>rt. rt_UserID rt \<noteq> userID) (ad_refresh d))"
  proof (rule notI)
    assume "list_ex (\<lambda>rt. rt_ReplacedBy rt \<noteq> [] \<and>
        rt_ReplacedBy rt \<in> rt_ID ` set (filter (\<lambda>rt. rt_UserID rt = userID) (ad_refresh d)))
      (filter (\<lambda>rt. rt_UserID rt \<noteq> userID) (ad_refresh d))"
    then obtain a b where ab: "a \<in> set (ad_refresh d)" "rt_UserID a \<noteq> userID" "rt_ReplacedBy a \<noteq> []"
      "b \<in> set (ad_refresh d)" "rt_UserID b = userID" "rt_ID b = rt_ReplacedBy a"
      by (auto simp: list_ex_iff)
    then obtain c where "c \<in> set (ad_refresh d)" "rt_ID c = rt_ReplacedBy a" "rt_UserID c = rt_UserID a"
      using assms unfolding refs_ok_def by blast
    with ab show False using assms same_id unfolding refs_ok_def by metis
  qed
  then show ?thesis by (simp add: DeleteRefreshTokensByUser_def delete_refresh_def Let_def)
qed

lemma userCache_Get_result:
  "users_ok now s \<Longrightarrow> userCache_Get (as_users s) k (now, now) = (Some u, uc) \<Longrightarrow> u_ID u = k"
  using ttlc.get_value [of defaultUserCacheTTL "as_users s" k "(now, now)"]
  by (auto simp: users_ok_def userCache_Get_def)

lemma LoadUser_ID:
  assumes "users_ok now s" and "LoadUser d up s userID now = (Inr user, s')"
  shows "u_ID user = userID"
  using assms
  by (auto simp: LoadUser_def StoreUserToDomain_def Let_def GetUserByID_ID
      split: if_splits prod.splits option.splits sum.splits dest: userCache_Get_result GetUserByID_ID)

lemma RotateRefresh_success:
  assumes "RotateRefresh P fresh d up s raw fp now = (Inr (user, access, new), s', d')"
  obtains existing s1 d1 where "raw \<noteq> []" "fp \<noteq> []"
    "GetRefreshTokenByHash d (hashRefreshToken P raw) = Some existing"
    "rt_ReplacedBy existing = []" "now \<le> rt_ExpiresAt existing" "rt_FingerprintHash existing = fp"
    "LoadUser d up s (rt_UserID existing) now = (Inr user, s1)"
    "IssueRefresh P fresh d (u_ID user) fp now = (Inr (new, snd fresh), d1)"
    "MarkRefreshTokenReplaced d1 (rt_ID existing) (snd fresh) = Inr (True, d')"
proof -
  obtain existing where e: "raw \<noteq> []" "fp \<noteq> []"
    "GetRefreshTokenByHash d (hashRefreshToken P raw) = Some existing"
    "rt_ReplacedBy existing = []" "now \<le> rt_ExpiresAt existing" "rt_FingerprintHash existing = fp"
    using assms
    by (auto simp: RotateRefresh_def not_less split: if_splits option.splits)
  note eq = assms [unfolded RotateRefresh_def e(3) option.case]
  obtain u s1 where l: "LoadUser d up s (rt_UserID existing) now = (Inr u, s1)"
    using eq e by (cases "LoadUser d up s (rt_UserID existing) now"; cases "fst (LoadUser d up s (rt_UserID existing) now)") auto
  obtain n nid d1 where i: "IssueRefresh P fresh d (u_ID u) fp now = (Inr (n, nid), d1)"
    using eq e l by (cases "IssueRefresh P fresh d (u_ID u) fp now"; cases "fst (IssueRefresh P fresh d (u_ID u) fp now)") auto
  have nid: "nid = snd fresh"
    using i by (auto simp: IssueRefresh_def InsertRefreshToken_def Let_def split: if_splits)
  obtain d2 where m: "MarkRefreshTokenReplaced d1 (rt_ID existing) (snd fresh) = Inr (True, d2)"
    using eq e l i nid by (auto split: sum.splits bool.splits)
  have "u = user \<and> n = new \<and> d2 = d'"
    using eq e l i nid m by (auto split: sum.splits prod.splits)
  with e l i nid m that show ?thesis by blast
qed

text \<open>The table after a rotation: the row has a successor, of the same user.\<close>

lemma RotateRefresh_rows:
  assumes ok: "refs_ok d" "users_ok now s" and fresh: "snd fresh \<noteq> []"
    and r: "RotateRefresh P fresh d up s raw fp now = (Inr (user, access, new), s', d')"
  obtains existing where "raw \<noteq> []" "fp \<noteq> []"
    "GetRefreshTokenByHash d' (hashRefreshToken P raw) = Some existing"
    "rt_ReplacedBy existing \<noteq> []" "rt_UserID existing = u_ID user" "refs_ok d'"
  using r
proof (cases rule: RotateRefresh_success)
  case (1 e s1 d1)
  define f where "f = (\<lambda>rt :: RefreshToken. if rt_ID rt = rt_ID e \<and> rt_ReplacedBy rt = []
    then rt\<lparr>rt_ReplacedBy := snd fresh\<rparr> else rt)"
  have fid: "rt_ID (f rt) = rt_ID rt" "rt_UserID (f rt) = rt_UserID rt" "rt_TokenHash (f rt) = rt_TokenHash rt"
    for rt by (auto simp: f_def)
  have uid: "u_ID user = rt_UserID e" using LoadUser_ID [OF ok(2) 1(7)] .
  have "snd fresh \<notin> rt_ID ` set (ad_refresh d) \<and> (\<exists>n. rt_ID n = snd fresh \<and>
      rt_UserID n = u_ID user \<and> rt_ReplacedBy n = [] \<and> ad_refresh d1 = ad_refresh d @ [n])"
    using 1(8) by (auto simp: IssueRefresh_def InsertRefreshToken_def Let_def list_ex_iff split: if_splits)
  then obtain n where n: "rt_ID n = snd fresh" "rt_UserID n = u_ID user" "rt_ReplacedBy n = []"
    "ad_refresh d1 = ad_refresh d @ [n]" "snd fresh \<notin> rt_ID ` set (ad_refresh d)" by blast
  have d': "ad_refresh d' = map f (ad_refresh d @ [n])"
    using 1(9) by (auto simp: MarkRefreshTokenReplaced_def f_def n(4) split: if_splits)
  have e: "e \<in> set (ad_refresh d)" "rt_TokenHash e = hashRefreshToken P raw"
    using find_mem [OF 1(3) [unfolded GetRefreshTokenByHash_def]] by auto
  then have "rt_ID e \<noteq> snd fresh" using n(5) by force
  then have fn: "f n = n" by (simp add: f_def n(1))
  have find_f: "find (\<lambda>rt. rt_TokenHash rt = h) (map f rts) =
      map_option f (find (\<lambda>rt. rt_TokenHash rt = h) rts)" for h rts
    by (induction rts) (auto simp: fid)
  have "GetRefreshTokenByHash d' (hashRefreshToken P raw) = Some (f e)"
    using 1(3) unfolding GetRefreshTokenByHash_def d' find_f find_append by simp
  moreover have "rt_ReplacedBy (f e) = snd fresh" using 1(4) by (simp add: f_def)
  moreover have "refs_ok d'"
  proof -
    have "distinct (map rt_ID (ad_refresh d'))"
      using ok(1) n(1,5) unfolding refs_ok_def d' by (auto simp: comp_def fid)
    moreover have "\<exists>rt'\<in>set (ad_refresh d'). rt_ID rt' = rt_ReplacedBy rt \<and> rt_UserID rt' = rt_UserID rt"
      if rt: "rt \<in> set (ad_refresh d')" "rt_ReplacedBy rt \<noteq> []" for rt
    proof -
      from rt(1) obtain x where x: "rt = f x" "x \<in> set (ad_refresh d) \<or> x = n" unfolding d' by auto
      have xd: "x \<in> set (ad_refresh d)" using x rt(2) fn n(3) by auto
      show ?thesis
      proof (cases "rt_ReplacedBy x = []")
        case True
        with rt(2) x(1) have "rt_ID x = rt_ID e" "rt_ReplacedBy rt = snd fresh"
          by (auto simp: f_def split: if_splits)
        with xd e(1) ok(1) have "x = e" using same_id unfolding refs_ok_def by blast
        then have "rt_UserID n = rt_UserID rt" using n(2) uid x(1) fid(2) by simp
        then show ?thesis
          using n(1) \<open>rt_ReplacedBy rt = snd fresh\<close> fn unfolding d' by (intro bexI [of _ n]) auto
      next
        case False
        then have "rt = x" by (simp add: x(1) f_def)
        with ok(1) xd False obtain y where "y \<in> set (ad_refresh d)" "rt_ID y = rt_ReplacedBy rt"
          "rt_UserID y = rt_UserID rt" unfolding refs_ok_def by blast
        then show ?thesis unfolding d' by (intro bexI [of _ "f y"]) (auto simp: fid)
      qed
    qed
    ultimately show ?thesis unfolding refs_ok_def by blast
  qed
  ultimately show ?thesis using that 1(1,2) uid fid(2) fresh by metis
qed

section \<open>Properties\<close>

text \<open>C7: a refresh token is rotated at most once, however the requests interleave.  In every
  interleaving of the statements of any number of rotations, logins, logouts and purges, no
  row is rotated twice: of the requests that present the same token, at most one obtains a
  new one.\<close>

theorem refresh_rotated_once:
  assumes "(rot_step P)\<^sup>*\<^sup>* rot_init \<sigma>"
  shows "distinct (ro_rotated \<sigma>)"
  using rot_steps_inv [OF assms rot_init_inv] by (simp add: rot_inv_def)

theorem refresh_rotated_once_witness:
  "distinct (ro_rotated (rot_init\<lparr>ro_pc := (ro_pc rot_init)(0 := RStart ''t'' ''f'')\<rparr>))"
  by (rule refresh_rotated_once [of sample_params]) (rule r_into_rtranclp, rule rs_begin)

text \<open>Theft is detected.  After a successful rotation, whoever presents the old token
  again gets the reuse error, at whatever time and on whatever replica, and all the refresh
  tokens of the user are gone, the one from the rotation included.\<close>

theorem refresh_reuse_kills:
  assumes "refs_ok d" and "users_ok now s" and "snd fresh \<noteq> []"
    and "RotateRefresh P fresh d up s raw fp now = (Inr (user, access, new), s', d')"
    and "fp2 \<noteq> []"
  shows "\<exists>d''. RotateRefresh P fresh2 d' up2 s2 raw fp2 now2 = (Inl ErrRefreshReuse, s2, d'') \<and>
     (\<forall>rt\<in>set (ad_refresh d''). rt_UserID rt \<noteq> u_ID user)"
proof -
  obtain existing where e: "raw \<noteq> []"
    "GetRefreshTokenByHash d' (hashRefreshToken P raw) = Some existing"
    "rt_ReplacedBy existing \<noteq> []" "rt_UserID existing = u_ID user" "refs_ok d'"
    using RotateRefresh_rows [OF assms(1-4)] by blast
  then show ?thesis
    using assms(5) delete_user_ok [OF e(5)] by (simp add: RotateRefresh_def or_log_def)
qed

definition refresh_db :: AuthDB where
  "refresh_db = snd (IssueRefresh sample_params (''t0'', ''id0'') (empty_db\<lparr>ad_users := sample_db\<rparr>) ''m'' ''f'' 1)"

definition rotated_db :: AuthDB where
  "rotated_db = snd (snd (RotateRefresh sample_params (''t1'', ''id1'') refresh_db True NewService ''t0'' ''f'' 2))"

theorem refresh_reuse_kills_witness:
  "\<exists>d''. RotateRefresh sample_params (''x'', ''id2'') rotated_db True NewService ''t0'' ''f'' 3 =
     (Inl ErrRefreshReuse, NewService, d'') \<and> (\<forall>rt\<in>set (ad_refresh d''). rt_UserID rt \<noteq> ''m'')"
proof -
  have refs: "refs_ok refresh_db"
    by code_simp
  have users: "users_ok 2 NewService"
    by (simp add: users_ok_def NewService_def newUserCache_def newTTLCache_empty wf_cache_def
        newTTLCache_def defaultUserCacheTTL_def cache_view_def)
  have ok: "case RotateRefresh sample_params (''t1'', ''id1'') refresh_db True NewService ''t0'' ''f'' 2 of
      (Inr (u, _, _), _) \<Rightarrow> u_ID u = ''m'' | _ \<Rightarrow> False" by code_simp
  then obtain u a n s' where
    r: "RotateRefresh sample_params (''t1'', ''id1'') refresh_db True NewService ''t0'' ''f'' 2 =
      (Inr (u, a, n), s', rotated_db)" and u: "u_ID u = ''m''"
    unfolding rotated_db_def by (auto split: prod.splits sum.splits)
  have "snd (''t1'', ''id1'') \<noteq> []" "''f'' \<noteq> []" by simp_all
  from refresh_reuse_kills [OF refs users this(1) r this(2)] show ?thesis using u by simp
qed

text \<open>A logout without a valid session leaves the refresh token usable once it was
  rotated.  The row of the rotated predecessor references the row that the logout wants to
  delete, so the deletion fails on the foreign key, the error is only logged, and the token
  can still be exchanged for a session.\<close>

theorem logout_leaves_rotated_token:
  "case Logout sample_params rotated_db True NewService [] ''t1'' ''f'' 3 of
     (s, d) \<Rightarrow> is_ok (fst (RotateRefresh sample_params (''t2'', ''id2'') d True s ''t1'' ''f'' 4))"
  by code_simp

section \<open>Changes of a user's rights\<close>

lemma userCache_Invalidate_view:
  "wf_cache ttl c \<Longrightarrow> k \<noteq> [] \<Longrightarrow> cache_view (userCache_Invalidate c k) x k = None"
  using ttlc.invalidate_view [of ttl c k x] by (simp add: userCache_Invalidate_def)

lemma userCache_Invalidate_wf: "wf_cache ttl c \<Longrightarrow> wf_cache ttl (userCache_Invalidate c k)"
  using ttlc.inv_invalidate [of ttl c k] by (simp add: userCache_Invalidate_def)

lemma userCache_Get_miss:
  "wf_cache ttl c \<Longrightarrow> cache_view c now k = None \<Longrightarrow> fst (userCache_Get c k (now, now)) = None"
  using ttlc.get_value [of ttl c k "(now, now)"] by (simp add: userCache_Get_def)

lemma InvalidateUser_users:
  "InvalidateUser db up s userID now = Some (s', db') \<Longrightarrow>
   as_users s' = userCache_Invalidate (as_users s) userID"
  by (auto simp: InvalidateUser_def BumpUserVersion_def Let_def
      split: option.splits prod.splits if_splits)

text \<open>A change of a user's rights takes effect at once on the replica that made it.
  After \<open>InvalidateUser\<close>, the next request of any session of the user is authorized with
  the record that the database holds at that time, whatever the caches held and whatever
  version the session carries; and it is refused when the user is gone.\<close>

theorem rights_change_visible:
  assumes "wf_cache ttl (as_users s)" and "userID \<noteq> []" and "u_ID partial = userID"
    and "InvalidateUser (Some d) up s userID now = Some (s', Some d')"
  shows "\<exists>v. fst (LoadUserForSession (Some d2) up2 s' partial now2) =
     (case GetUserByID (ad_users d2) userID of
        Inl e \<Rightarrow> Inl (ErrStore e) | Inr user \<Rightarrow> Inr (StoreUserToDomain user v))"
proof -
  obtain v s1 where c: "CurrentUserVersion (Some d2) up2 s' userID now2 = (v, s1)" by fastforce
  then have "as_users s1 = userCache_Invalidate (as_users s) userID"
    using CurrentUserVersion_frame InvalidateUser_users [OF assms(4)] by metis
  then have "fst (userCache_Get (as_users s1) userID (now2, now2)) = None"
    using assms(1,2) userCache_Invalidate_view userCache_Invalidate_wf userCache_Get_miss by metis
  then obtain uc where "userCache_Get (as_users s1) userID (now2, now2) = (None, uc)"
    by (metis prod.collapse)
  then show ?thesis
    using assms(2,3) c
    by (auto simp: LoadUserForSession_def Let_def split: sum.splits)
qed

theorem rights_change_visible_witness:
  "\<exists>v s' d'. InvalidateUser (Some refresh_db) True NewService ''m'' 5 = Some (s', Some d') \<and>
   fst (LoadUserForSession (Some refresh_db) True s' (toDomainUser sample_db manager_row) 6) =
     (case GetUserByID (ad_users refresh_db) ''m'' of
        Inl e \<Rightarrow> Inl (ErrStore e) | Inr user \<Rightarrow> Inr (StoreUserToDomain user v))"
proof -
  have wf: "wf_cache defaultUserCacheTTL (as_users NewService)"
    by (simp add: NewService_def newUserCache_def wf_cache_def newTTLCache_def defaultUserCacheTTL_def)
  have "u_ID (toDomainUser sample_db manager_row) = ''m''" by code_simp
  moreover obtain s' d' where i:
    "InvalidateUser (Some refresh_db) True NewService ''m'' 5 = Some (s', Some d')"
    by (simp add: InvalidateUser_def BumpUserVersion_def db_BumpUserVersion_def Let_def)
  ultimately show ?thesis using rights_change_visible [OF wf _ _ i] by blast
qed

end
