(* ===== verification/Subjects.thy ===== *)
theory Subjects
  imports Prelude
begin

text \<open>
  Subjects, patterns and subject permissions (\<^verbatim>\<open>internal/subjectauth\<close>,
  \<^verbatim>\<open>internal/nats/subject.go\<close>).

  A subject is a list of tokens separated by dots; in a pattern the token \<^verbatim>\<open>*\<close> stands
  for one token and \<^verbatim>\<open>>\<close>, as the last one, for one or more.  The relation
  \<open>pattern_of\<close> says this without the loop of the code.
\<close>

section \<open>The code\<close>

text \<open>The loop of \<^verbatim>\<open>matchTokens\<close>, on the two token lists.\<close>

fun matchTokens :: "string list \<Rightarrow> string list \<Rightarrow> bool" where
  "matchTokens sub [] \<longleftrightarrow> length sub = 0"
| "matchTokens sub (p # pat) =
     (if pat = [] \<and> p = ''>'' then length sub > 0
      else (case sub of
          [] \<Rightarrow> False
        | s # sub' \<Rightarrow>
            if p = ''*'' then matchTokens sub' pat
            else if p = ''>'' then True
            else if s \<noteq> p then False
            else matchTokens sub' pat))"

definition MatchesPattern :: "string \<Rightarrow> string \<Rightarrow> bool" where
  "MatchesPattern subject pattern =
     (let subject = TrimSpace subject; pattern = TrimSpace pattern
      in if IsEmpty subject \<or> IsEmpty pattern then False
         else matchTokens (Split CHR ''.'' subject) (Split CHR ''.'' pattern))"

record EffectiveSubjectPerms =
  ep_Source :: string
  ep_PubAllow :: "string list"
  ep_PubDeny :: "string list"
  ep_SubAllow :: "string list"
  ep_SubDeny :: "string list"

record PermUser =
  pu_PubAllow :: "string list"
  pu_PubDeny :: "string list"
  pu_SubAllow :: "string list"
  pu_SubDeny :: "string list"

record PermGroup =
  pg_PubAllow :: "string list"
  pg_PubDeny :: "string list"
  pg_SubAllow :: "string list"
  pg_SubDeny :: "string list"
  pg_Scoped :: bool

definition PermSourceUser :: string where "PermSourceUser = ''user''"
definition PermSourceSigningGroup :: string where "PermSourceSigningGroup = ''signing-group''"
definition PermSourceUnrestricted :: string where "PermSourceUnrestricted = ''unrestricted''"

definition userHasExplicitPerms :: "PermUser \<Rightarrow> bool" where
  "userHasExplicitPerms u \<longleftrightarrow>
     pu_PubAllow u \<noteq> [] \<or> pu_PubDeny u \<noteq> [] \<or> pu_SubAllow u \<noteq> [] \<or> pu_SubDeny u \<noteq> []"

definition ResolveEffectivePerms :: "PermUser \<Rightarrow> PermGroup option \<Rightarrow> EffectiveSubjectPerms" where
  "ResolveEffectivePerms user grp =
     (if userHasExplicitPerms user then
        \<lparr>ep_Source = PermSourceUser, ep_PubAllow = pu_PubAllow user, ep_PubDeny = pu_PubDeny user,
         ep_SubAllow = pu_SubAllow user, ep_SubDeny = pu_SubDeny user\<rparr>
      else (case grp of
          Some g \<Rightarrow>
            if pg_Scoped g then
              \<lparr>ep_Source = PermSourceSigningGroup, ep_PubAllow = pg_PubAllow g,
               ep_PubDeny = pg_PubDeny g, ep_SubAllow = pg_SubAllow g, ep_SubDeny = pg_SubDeny g\<rparr>
            else \<lparr>ep_Source = PermSourceUnrestricted, ep_PubAllow = [], ep_PubDeny = [],
                  ep_SubAllow = [], ep_SubDeny = []\<rparr>
        | None \<Rightarrow> \<lparr>ep_Source = PermSourceUnrestricted, ep_PubAllow = [], ep_PubDeny = [],
                   ep_SubAllow = [], ep_SubDeny = []\<rparr>))"

definition Permitted :: "string \<Rightarrow> string list \<Rightarrow> string list \<Rightarrow> bool \<times> string" where
  "Permitted subject allow deny =
     (let subject = TrimSpace subject
      in if IsEmpty subject then (False, [])
         else (case find (MatchesPattern subject) deny of
             Some pattern \<Rightarrow> (False, pattern)
           | None \<Rightarrow>
               if allow = [] then (True, [])
               else (case find (MatchesPattern subject) allow of
                   Some pattern \<Rightarrow> (True, pattern)
                 | None \<Rightarrow> (False, []))))"

datatype subject_error = ErrSubjectNotInStream | ErrSubjectRequired

definition SubjectMatchesPattern :: "string \<Rightarrow> string \<Rightarrow> bool" where
  "SubjectMatchesPattern subject pattern = MatchesPattern subject pattern"

definition ResolvePublishSubject ::
  "string \<Rightarrow> string list \<Rightarrow> (subject_error, string) result" where
  "ResolvePublishSubject requested streamSubjects =
     (let requested = TrimSpace requested
      in if \<not> IsEmpty requested then
           (if list_ex (SubjectMatchesPattern requested) streamSubjects then Inr requested
            else Inl ErrSubjectNotInStream)
         else if length streamSubjects = 1 \<and> \<not> ContainsAny (hd streamSubjects) ''*>''
         then Inr (hd streamSubjects)
         else Inl ErrSubjectRequired)"

section \<open>What patterns mean\<close>

definition tok_match :: "string \<Rightarrow> string \<Rightarrow> bool" where
  "tok_match p s \<longleftrightarrow> p = ''*'' \<or> p = s"

definition wf_pattern :: "string list \<Rightarrow> bool" where
  "wf_pattern pat \<longleftrightarrow> pat \<noteq> [] \<and> ''>'' \<notin> set (butlast pat)"

text \<open>Token by token, and for a trailing \<^verbatim>\<open>>\<close> at least one more token.\<close>

definition pattern_of :: "string list \<Rightarrow> string list \<Rightarrow> bool" where
  "pattern_of pat sub \<longleftrightarrow>
     (if last pat = ''>''
      then length sub \<ge> length pat \<and>
           list_all2 tok_match (butlast pat) (take (length pat - 1) sub)
      else list_all2 tok_match pat sub)"

definition literal :: "string list \<Rightarrow> bool" where
  "literal sub \<longleftrightarrow> sub \<noteq> [] \<and> ''*'' \<notin> set sub \<and> ''>'' \<notin> set sub"

section \<open>Lemmas\<close>

text \<open>One literal subject that a pattern matches.\<close>

definition instance_of :: "string list \<Rightarrow> string list" where
  "instance_of pat = map (\<lambda>t. if t = ''*'' \<or> t = ''>'' then ''x'' else t) pat"

lemma literal_instance: "pat \<noteq> [] \<Longrightarrow> literal (instance_of pat)"
  by (auto simp: literal_def instance_of_def)

lemma pattern_of_Cons:
  assumes "pat \<noteq> []"
  shows "pattern_of (p # pat) sub \<longleftrightarrow> (\<exists>s sub'. sub = s # sub' \<and> tok_match p s \<and> pattern_of pat sub')"
  using assms by (cases sub; cases pat) (auto simp: pattern_of_def)

text \<open>The code has the matching loop twice.  What both copies promise is the contract of this
  locale; it says what a pattern means (\<open>matches_pattern_of\<close>), so the copies agree.\<close>

locale subject_matcher =
  fixes matches :: "string list \<Rightarrow> string list \<Rightarrow> bool"
  assumes match_end: "matches sub [] \<longleftrightarrow> sub = []"
    and match_rest: "matches sub (''>'' # pat) \<longleftrightarrow> sub \<noteq> []"
    and match_token: "p \<noteq> ''>'' \<Longrightarrow> matches sub (p # pat) \<longleftrightarrow>
      (\<exists>s sub'. sub = s # sub' \<and> tok_match p s \<and> matches sub' pat)"
begin

lemma matches_pattern_of: "wf_pattern pat \<Longrightarrow> matches sub pat \<longleftrightarrow> pattern_of pat sub"
proof (induction pat arbitrary: sub)
  case (Cons p pat)
  show ?case
  proof (cases "pat = []")
    case True
    then show ?thesis
      by (cases "p = ''>''"; cases sub) (auto simp: pattern_of_def match_rest match_token match_end)
  next
    case False
    with Cons.prems have "wf_pattern pat" "p \<noteq> ''>''" by (auto simp: wf_pattern_def)
    with Cons.IH False show ?thesis by (simp add: match_token pattern_of_Cons)
  qed
qed (simp add: wf_pattern_def)

text \<open>A subject taken as a pattern matches itself only, if it is literal.\<close>

lemma literal_pattern: "literal pat \<Longrightarrow> matches sub pat \<longleftrightarrow> sub = pat"
proof (induction pat arbitrary: sub)
  case (Cons p pat)
  then have p: "p \<noteq> ''>''" "p \<noteq> ''*''" by (auto simp: literal_def)
  show ?case
  proof (cases "pat = []")
    case True
    then show ?thesis using p by (auto simp: match_token match_end tok_match_def)
  next
    case False
    with Cons.prems have "literal pat" by (auto simp: literal_def)
    with Cons.IH p show ?thesis by (auto simp: match_token tok_match_def)
  qed
qed (simp add: literal_def)

lemma instance_matches: "wf_pattern pat \<Longrightarrow> matches (instance_of pat) pat"
proof (induction pat)
  case (Cons p pat)
  then show ?case
    by (cases "p = ''>''"; cases "pat = []")
      (auto simp: instance_of_def wf_pattern_def match_rest match_token match_end tok_match_def)
qed (simp add: wf_pattern_def)

text \<open>What matches the tokens of a pattern, taken literally, matches its instance.\<close>

lemma matches_instance: "matches sub pat \<Longrightarrow> matches (instance_of sub) pat"
proof (induction pat arbitrary: sub)
  case (Cons p pat)
  show ?case
  proof (cases "p = ''>''")
    case True
    with Cons.prems show ?thesis by (simp add: match_rest instance_of_def)
  next
    case False
    with Cons.prems obtain s sub' where s: "sub = s # sub'" "tok_match p s" "matches sub' pat"
      by (auto simp: match_token)
    with Cons.IH False show ?thesis by (auto simp: match_token instance_of_def tok_match_def)
  qed
qed (simp add: match_end instance_of_def)

lemma shared_subject:
  assumes "wf_pattern a" and "wf_pattern b" and "a = b \<or> matches a b \<or> matches b a"
  shows "\<exists>sub. literal sub \<and> pattern_of a sub \<and> pattern_of b sub"
proof -
  have ne: "a \<noteq> []" "b \<noteq> []" using assms(1,2) by (auto simp: wf_pattern_def)
  from assms(3) have "\<exists>sub. literal sub \<and> matches sub a \<and> matches sub b"
    using instance_matches [OF assms(1)] instance_matches [OF assms(2)] matches_instance
      literal_instance [OF ne(1)] literal_instance [OF ne(2)] by blast
  then show ?thesis by (simp add: matches_pattern_of assms(1,2))
qed

end

interpretation sa: subject_matcher matchTokens
proof
  show "matchTokens sub [] \<longleftrightarrow> sub = []" for sub by simp
  show "matchTokens sub (''>'' # pat) \<longleftrightarrow> sub \<noteq> []" for sub pat by (cases sub) auto
  show "matchTokens sub (p # pat) \<longleftrightarrow> (\<exists>s sub'. sub = s # sub' \<and> tok_match p s \<and> matchTokens sub' pat)"
    if "p \<noteq> ''>''" for p sub pat
    using that by (cases sub) (auto simp: tok_match_def)
qed

lemma MatchesPattern_iff:
  "MatchesPattern subject pattern \<longleftrightarrow> TrimSpace subject \<noteq> [] \<and> TrimSpace pattern \<noteq> [] \<and>
     matchTokens (Split CHR ''.'' (TrimSpace subject)) (Split CHR ''.'' (TrimSpace pattern))"
  by (simp add: MatchesPattern_def Let_def)

lemma MatchesPattern_trim [simp]: "MatchesPattern (TrimSpace subject) pattern = MatchesPattern subject pattern"
  by (simp add: MatchesPattern_iff)

lemma MatchesPattern_nonempty: "MatchesPattern subject pattern \<Longrightarrow> TrimSpace subject \<noteq> []"
  by (simp add: MatchesPattern_iff)

lemma Permitted_iff:
  "fst (Permitted subject allow deny) \<longleftrightarrow> TrimSpace subject \<noteq> [] \<and>
     (\<forall>p\<in>set deny. \<not> MatchesPattern subject p) \<and>
     (allow = [] \<or> (\<exists>p\<in>set allow. MatchesPattern subject p))"
  by (auto simp: Permitted_def Let_def find_None_iff find_Some_iff split: option.splits)

lemma Permitted_pattern:
  "Permitted subject allow deny = (ok, p) \<Longrightarrow>
   p = [] \<or> MatchesPattern subject p \<and> p \<in> set (if ok then allow else deny)"
  by (auto simp: Permitted_def Let_def find_Some_iff split: option.splits if_splits)

section \<open>Properties\<close>

text \<open>The matching loop decides the meaning of patterns.  For a pattern whose \<^verbatim>\<open>>\<close>, if
  any, is its last token, a subject matches exactly when its tokens agree one by one, with
  \<^verbatim>\<open>*\<close> for any single token and a trailing \<^verbatim>\<open>>\<close> for one or more.\<close>

theorem matching_exact:
  assumes "wf_pattern (Split CHR ''.'' (TrimSpace pattern))" and "TrimSpace pattern \<noteq> []"
    and "TrimSpace subject \<noteq> []"
  shows "MatchesPattern subject pattern \<longleftrightarrow>
    pattern_of (Split CHR ''.'' (TrimSpace pattern)) (Split CHR ''.'' (TrimSpace subject))"
  using assms by (simp add: MatchesPattern_iff sa.matches_pattern_of)

theorem matching_exact_witness:
  "MatchesPattern ''orders.eu.new'' ''orders.*.>'' \<longleftrightarrow>
   pattern_of (Split CHR ''.'' (TrimSpace ''orders.*.>'')) (Split CHR ''.'' (TrimSpace ''orders.eu.new''))"
proof -
  have "wf_pattern (Split CHR ''.'' (TrimSpace ''orders.*.>''))" "TrimSpace ''orders.*.>'' \<noteq> []"
    "TrimSpace ''orders.eu.new'' \<noteq> []" by code_simp+
  then show ?thesis by (rule matching_exact)
qed

lemma Split_nonempty [simp]: "Split c s \<noteq> []"
  by (induction c s rule: Split.induct) (auto split: list.splits)

text \<open>A message is published only into its stream.  A requested subject is accepted exactly
  when one of the subjects of the stream matches it and is then used unchanged but for the
  spaces around it; without a request the subject is taken from the stream, and only if the
  stream has exactly one and that one is literal.\<close>

theorem publish_subject_exact:
  "ResolvePublishSubject requested subjects =
     (if TrimSpace requested \<noteq> [] then
        (if \<exists>p\<in>set subjects. MatchesPattern requested p then Inr (TrimSpace requested)
         else Inl ErrSubjectNotInStream)
      else (case subjects of
          [s] \<Rightarrow> if CHR ''*'' \<notin> set s \<and> CHR ''>'' \<notin> set s then Inr s else Inl ErrSubjectRequired
        | _ \<Rightarrow> Inl ErrSubjectRequired))"
proof -
  have "list_ex (SubjectMatchesPattern (TrimSpace requested)) subjects \<longleftrightarrow>
      (\<exists>p\<in>set subjects. MatchesPattern requested p)"
    by (simp add: SubjectMatchesPattern_def list_ex_iff)
  moreover have "\<not> ContainsAny s ''*>'' \<longleftrightarrow> CHR ''*'' \<notin> set s \<and> CHR ''>'' \<notin> set s" for s
    by (auto simp: ContainsAny_iff)
  ultimately show ?thesis
    by (cases subjects) (auto simp: ResolvePublishSubject_def Let_def split: list.splits)
qed

end
