(* ===== verification/Zombies.thy ===== *)
theory Zombies
  imports Subjects "HOL-Library.Word"
begin

text \<open>
  Unused JetStream entities (\<^verbatim>\<open>internal/domain/zombie.go\<close>): streams that never received a
  message, consumers that never delivered one, stream subjects no consumer reads and consumer
  filters no stream subject feeds.

  The package has its own copy of the matching loop of \<^verbatim>\<open>subjectauth\<close>, and decides whether two
  patterns can share traffic by matching each one, taken as a subject, against the other.  The
  lemmas show that what this reports as shared is shared, that it is exact when one of the
  two has no wildcard, and that it misses pairs where both have.
\<close>

section \<open>The code\<close>

definition ZombieKindEmptyStream :: string where "ZombieKindEmptyStream = ''empty_stream''"
definition ZombieKindIdleConsumer :: string where "ZombieKindIdleConsumer = ''idle_consumer''"
definition ZombieKindUnconsumedSubject :: string where
  "ZombieKindUnconsumedSubject = ''unconsumed_subject''"
definition ZombieKindUnpublishedSubject :: string where
  "ZombieKindUnpublishedSubject = ''unpublished_subject''"
definition ZombieKindUnboundConsumer :: string where
  "ZombieKindUnboundConsumer = ''unbound_consumer''"

definition ZombieReasonNeverReceived :: string where
  "ZombieReasonNeverReceived = ''never_received''"
definition ZombieReasonZeroDelivered :: string where
  "ZombieReasonZeroDelivered = ''zero_delivered''"
definition ZombieReasonNoConsumer :: string where
  "ZombieReasonNoConsumer = ''no_matching_consumer''"
definition ZombieReasonEmptyStream :: string where
  "ZombieReasonEmptyStream = ''empty_stream''"
definition ZombieReasonOrphanFilter :: string where
  "ZombieReasonOrphanFilter = ''orphan_filter''"

record ZombieConsumerInput =
  zc_Name :: string
  zc_FilterSubject :: string
  zc_FilterSubjects :: "string list"
  zc_DeliveredConsSeq :: "64 word"
  zc_DeliveredStrSeq :: "64 word"

record ZombieStreamInput =
  zs_Name :: string
  zs_Subjects :: "string list"
  zs_Consumers :: "ZombieConsumerInput list"
  zs_Messages :: "64 word"
  zs_LastSeq :: "64 word"

record ZombieFinding =
  zf_Kind :: string
  zf_Stream :: string
  zf_Consumer :: string
  zf_Subject :: string
  zf_Reasons :: "string list"

record ZombieTotals =
  zt_EmptyStreams :: int
  zt_IdleConsumers :: int
  zt_UnconsumedSubjects :: int
  zt_UnpublishedSubjects :: int
  zt_UnboundConsumers :: int
  zt_Total :: int

record ZombieSnapshot =
  zn_Findings :: "ZombieFinding list"
  zn_Totals :: ZombieTotals

text \<open>The loop of \<^verbatim>\<open>matchSubjectPattern\<close> on the token lists.\<close>

fun match_loop :: "string list \<Rightarrow> string list \<Rightarrow> bool" where
  "match_loop subTokens [] \<longleftrightarrow> length subTokens = 0"
| "match_loop subTokens (p # patTokens) =
     (if length (p # patTokens) = 1 \<and> p = ''>'' then length subTokens > 0
      else if length subTokens = 0 then False
      else if p = ''*'' then match_loop (tl subTokens) patTokens
      else if p = ''>'' then True
      else if hd subTokens \<noteq> p then False
      else match_loop (tl subTokens) patTokens)"

definition matchSubjectPattern :: "string \<Rightarrow> string \<Rightarrow> bool" where
  "matchSubjectPattern subject pattern =
     match_loop (Split CHR ''.'' subject) (Split CHR ''.'' pattern)"

definition subjectsOverlap :: "string \<Rightarrow> string \<Rightarrow> bool" where
  "subjectsOverlap a b =
     (let a = TrimSpace a; b = TrimSpace b
      in if IsEmpty a \<or> IsEmpty b then False
         else if a = b then True
         else matchSubjectPattern a b \<or> matchSubjectPattern b a)"

primrec filterMatchesAnySubject :: "string \<Rightarrow> string list \<Rightarrow> bool" where
  "filterMatchesAnySubject flt [] = False"
| "filterMatchesAnySubject flt (s # subjects) =
     (let s = TrimSpace s
      in if IsEmpty s then filterMatchesAnySubject flt subjects
         else if subjectsOverlap s flt then True
         else filterMatchesAnySubject flt subjects)"

primrec subjectCoveredByFilters :: "string \<Rightarrow> string list \<Rightarrow> bool" where
  "subjectCoveredByFilters streamSubject [] = False"
| "subjectCoveredByFilters streamSubject (f # filters) =
     (if IsEmpty f then True
      else if subjectsOverlap streamSubject f then True
      else subjectCoveredByFilters streamSubject filters)"

definition consumerFilterList :: "ZombieConsumerInput \<Rightarrow> string list" where
  "consumerFilterList c =
     (let s = TrimSpace (zc_FilterSubject c) in if \<not> IsEmpty s then [s] else []) @
     filter (\<lambda>s. \<not> IsEmpty s) (map TrimSpace (zc_FilterSubjects c))"

definition consumerFilters :: "ZombieConsumerInput list \<Rightarrow> string list" where
  "consumerFilters consumers =
     concat (map (\<lambda>c. let l = consumerFilterList c in if length l = 0 then [''''] else l)
       consumers)"

fun tally_loop :: "ZombieTotals \<Rightarrow> ZombieFinding list \<Rightarrow> ZombieTotals" where
  "tally_loop t [] = t"
| "tally_loop t (f # findings) = tally_loop
     (if zf_Kind f = ZombieKindEmptyStream then t\<lparr>zt_EmptyStreams := zt_EmptyStreams t + 1\<rparr>
      else if zf_Kind f = ZombieKindIdleConsumer then t\<lparr>zt_IdleConsumers := zt_IdleConsumers t + 1\<rparr>
      else if zf_Kind f = ZombieKindUnconsumedSubject
      then t\<lparr>zt_UnconsumedSubjects := zt_UnconsumedSubjects t + 1\<rparr>
      else if zf_Kind f = ZombieKindUnpublishedSubject
      then t\<lparr>zt_UnpublishedSubjects := zt_UnpublishedSubjects t + 1\<rparr>
      else if zf_Kind f = ZombieKindUnboundConsumer
      then t\<lparr>zt_UnboundConsumers := zt_UnboundConsumers t + 1\<rparr>
      else t) findings"

definition tallyZombieFindings :: "ZombieFinding list \<Rightarrow> ZombieTotals" where
  "tallyZombieFindings findings =
     tally_loop \<lparr>zt_EmptyStreams = 0, zt_IdleConsumers = 0, zt_UnconsumedSubjects = 0,
       zt_UnpublishedSubjects = 0, zt_UnboundConsumers = 0, zt_Total = int (length findings)\<rparr> findings"

text \<open>One round of the loop of \<^verbatim>\<open>AnalyzeZombies\<close>, in its parts: the findings on the stream
  itself, on its subjects, and on one consumer.\<close>

definition trimmed_subjects :: "ZombieStreamInput \<Rightarrow> string list" where
  "trimmed_subjects stream = filter (\<lambda>s. \<not> IsEmpty s) (map TrimSpace (zs_Subjects stream))"

definition stream_empty :: "ZombieStreamInput \<Rightarrow> bool" where
  "stream_empty stream \<longleftrightarrow> zs_Messages stream = 0 \<and> zs_LastSeq stream = 0"

definition empty_findings :: "string \<Rightarrow> ZombieStreamInput \<Rightarrow> ZombieFinding list" where
  "empty_findings name stream =
     (if stream_empty stream then
        \<lparr>zf_Kind = ZombieKindEmptyStream, zf_Stream = name, zf_Consumer = [], zf_Subject = [],
         zf_Reasons = [ZombieReasonNeverReceived]\<rparr> #
        map (\<lambda>subj. \<lparr>zf_Kind = ZombieKindUnpublishedSubject, zf_Stream = name, zf_Consumer = [],
            zf_Subject = subj, zf_Reasons = [ZombieReasonEmptyStream, ZombieReasonNeverReceived]\<rparr>)
          (trimmed_subjects stream)
      else [])"

definition unconsumed_findings :: "string \<Rightarrow> ZombieStreamInput \<Rightarrow> ZombieFinding list" where
  "unconsumed_findings name stream =
     (let filters = consumerFilters (zs_Consumers stream)
      in if list_ex IsEmpty filters then []
         else map (\<lambda>subj. \<lparr>zf_Kind = ZombieKindUnconsumedSubject, zf_Stream = name,
                zf_Consumer = [], zf_Subject = subj, zf_Reasons = [ZombieReasonNoConsumer]\<rparr>)
              (filter (\<lambda>subj. \<not> subjectCoveredByFilters subj filters) (trimmed_subjects stream)))"

definition consumer_findings ::
  "string \<Rightarrow> ZombieStreamInput \<Rightarrow> ZombieConsumerInput \<Rightarrow> ZombieFinding list" where
  "consumer_findings name stream c =
     (let cname = TrimSpace (zc_Name c)
      in if IsEmpty cname then []
         else (let cf = consumerFilterList c
           in (if \<not> stream_empty stream \<and> zc_DeliveredConsSeq c = 0 then
                 [\<lparr>zf_Kind = ZombieKindIdleConsumer, zf_Stream = name, zf_Consumer = cname,
                   zf_Subject = [], zf_Reasons = [ZombieReasonZeroDelivered]\<rparr>]
               else []) @
              (if length cf = 0 then []
               else map (\<lambda>f. \<lparr>zf_Kind = ZombieKindUnboundConsumer, zf_Stream = name,
                      zf_Consumer = cname, zf_Subject = f, zf_Reasons = [ZombieReasonOrphanFilter]\<rparr>)
                    (filter (\<lambda>f. \<not> filterMatchesAnySubject f (zs_Subjects stream))
                      (filter (\<lambda>f. \<not> IsEmpty f) (map TrimSpace cf))))))"

definition stream_findings :: "ZombieStreamInput \<Rightarrow> ZombieFinding list" where
  "stream_findings stream =
     (let name = TrimSpace (zs_Name stream)
      in if IsEmpty name then []
         else empty_findings name stream @ unconsumed_findings name stream @
              concat (map (consumer_findings name stream) (zs_Consumers stream)))"

definition AnalyzeZombies :: "ZombieStreamInput list \<Rightarrow> ZombieSnapshot" where
  "AnalyzeZombies streams =
     (let findings = concat (map stream_findings streams)
      in \<lparr>zn_Findings = findings, zn_Totals = tallyZombieFindings findings\<rparr>)"

lemmas kind_defs = ZombieKindEmptyStream_def ZombieKindIdleConsumer_def
  ZombieKindUnconsumedSubject_def ZombieKindUnpublishedSubject_def ZombieKindUnboundConsumer_def

section \<open>Lemmas\<close>

interpretation zm: subject_matcher match_loop
proof
  show "match_loop sub [] \<longleftrightarrow> sub = []" for sub by simp
  show "match_loop sub (''>'' # pat) \<longleftrightarrow> sub \<noteq> []" for sub pat by (cases sub) auto
  show "match_loop sub (p # pat) \<longleftrightarrow> (\<exists>s sub'. sub = s # sub' \<and> tok_match p s \<and> match_loop sub' pat)"
    if "p \<noteq> ''>''" for p sub pat
    using that by (cases sub) (auto simp: tok_match_def)
qed

text \<open>The two copies of the loop agree on all inputs.\<close>

lemma match_loop_eq: "match_loop sub pat = matchTokens sub pat"
proof (induction pat arbitrary: sub)
  case (Cons p pat)
  then show ?case
    by (cases "p = ''>''")
      (simp_all add: zm.match_rest sa.match_rest zm.match_token sa.match_token
        del: match_loop.simps matchTokens.simps)
qed simp

lemma subjectsOverlap_iff:
  "subjectsOverlap a b \<longleftrightarrow> TrimSpace a \<noteq> [] \<and> TrimSpace b \<noteq> [] \<and>
     (let A = Split CHR ''.'' (TrimSpace a); B = Split CHR ''.'' (TrimSpace b)
      in TrimSpace a = TrimSpace b \<or> matchTokens A B \<or> matchTokens B A)"
  by (auto simp: subjectsOverlap_def Let_def matchSubjectPattern_def match_loop_eq)

lemma subjectsOverlap_trim [simp]:
  "subjectsOverlap (TrimSpace a) b = subjectsOverlap a b"
  "subjectsOverlap a (TrimSpace b) = subjectsOverlap a b"
  by (simp_all add: subjectsOverlap_iff)

lemma subjectsOverlap_sym: "subjectsOverlap a b = subjectsOverlap b a"
  by (auto simp: subjectsOverlap_iff Let_def)

lemma subjectsOverlap_literal:
  assumes "literal (Split CHR ''.'' (TrimSpace a))"
  shows "subjectsOverlap a b \<longleftrightarrow> MatchesPattern a b"
proof -
  let ?A = "Split CHR ''.'' (TrimSpace a)" and ?B = "Split CHR ''.'' (TrimSpace b)"
  have "matchTokens ?B ?A \<longrightarrow> matchTokens ?A ?B"
    using sa.literal_pattern [OF assms] assms by auto
  moreover have "TrimSpace a = TrimSpace b \<longrightarrow> matchTokens ?A ?B"
    using sa.literal_pattern [OF assms, of ?A] by auto
  ultimately show ?thesis by (auto simp: subjectsOverlap_iff MatchesPattern_iff Let_def)
qed

lemma subjectCoveredByFilters_iff:
  "subjectCoveredByFilters s filters \<longleftrightarrow> (\<exists>f\<in>set filters. f = [] \<or> subjectsOverlap s f)"
  by (induction filters) auto

lemma filterMatchesAnySubject_iff:
  "filterMatchesAnySubject f subjects \<longleftrightarrow> (\<exists>s\<in>set subjects. subjectsOverlap s f)"
  by (induction subjects) (auto simp: Let_def subjectsOverlap_iff)

lemma consumerFilterList_trimmed:
  assumes "f \<in> set (consumerFilterList c)"
  shows "f \<noteq> []" and "TrimSpace f = f"
  using assms by (auto simp: consumerFilterList_def Let_def split: if_splits)

lemma set_consumerFilters:
  "set (consumerFilters cs) = (\<Union>c\<in>set cs.
     if consumerFilterList c = [] then {[]} else set (consumerFilterList c))"
  by (auto simp: consumerFilters_def Let_def split: if_splits)

lemma all_consumerFilters:
  "(\<forall>f\<in>set (consumerFilters cs). f \<noteq> [] \<and> P f) \<longleftrightarrow>
   (\<forall>c\<in>set cs. consumerFilterList c \<noteq> [] \<and> (\<forall>f\<in>set (consumerFilterList c). P f))"
proof -
  have "(\<forall>f\<in>(if consumerFilterList c = [] then {[]} else set (consumerFilterList c)). f \<noteq> [] \<and> P f) \<longleftrightarrow>
      consumerFilterList c \<noteq> [] \<and> (\<forall>f\<in>set (consumerFilterList c). P f)" for c
    using consumerFilterList_trimmed(1) [of _ c] by auto
  then show ?thesis unfolding set_consumerFilters ball_UN by (simp only:)
qed

lemma stream_findings_stream:
  "f \<in> set (stream_findings st) \<Longrightarrow> zf_Stream f = TrimSpace (zs_Name st) \<and> zf_Stream f \<noteq> []"
  by (auto simp: stream_findings_def Let_def empty_findings_def unconsumed_findings_def
      consumer_findings_def split: if_splits)

lemma other_findings_kind:
  "f \<in> set (empty_findings n st) \<Longrightarrow> zf_Kind f \<noteq> ZombieKindUnconsumedSubject"
  "f \<in> set (consumer_findings n st c) \<Longrightarrow> zf_Kind f \<noteq> ZombieKindUnconsumedSubject"
  by (auto simp: empty_findings_def consumer_findings_def Let_def kind_defs split: if_splits)

lemma unconsumed_findings_kind:
  "f \<in> set (unconsumed_findings n st) \<Longrightarrow> zf_Kind f = ZombieKindUnconsumedSubject"
  by (auto simp: unconsumed_findings_def Let_def split: if_splits)

lemma unconsumed_in_stream:
  "f \<in> set (stream_findings st) \<and> zf_Kind f = ZombieKindUnconsumedSubject \<longleftrightarrow>
   TrimSpace (zs_Name st) \<noteq> [] \<and> f \<in> set (unconsumed_findings (TrimSpace (zs_Name st)) st)"
proof -
  let ?n = "TrimSpace (zs_Name st)"
  have "f \<in> set (stream_findings st) \<longleftrightarrow> ?n \<noteq> [] \<and> (f \<in> set (empty_findings ?n st) \<or>
      f \<in> set (unconsumed_findings ?n st) \<or> (\<exists>c\<in>set (zs_Consumers st). f \<in> set (consumer_findings ?n st c)))"
    by (simp add: stream_findings_def Let_def)
  then show ?thesis
    using other_findings_kind [of f ?n st] unconsumed_findings_kind [of f ?n st] by blast
qed

lemma unconsumed_subjects:
  "(\<exists>f\<in>set (unconsumed_findings n st). zf_Subject f = t) \<longleftrightarrow>
   t \<in> set (trimmed_subjects st) \<and> \<not> subjectCoveredByFilters t (consumerFilters (zs_Consumers st))"
proof (cases "list_ex IsEmpty (consumerFilters (zs_Consumers st))")
  case True
  then have "subjectCoveredByFilters t (consumerFilters (zs_Consumers st))"
    by (auto simp: subjectCoveredByFilters_iff list_ex_iff)
  then show ?thesis using True by (simp add: unconsumed_findings_def)
next
  case False
  then show ?thesis by (auto simp: unconsumed_findings_def Let_def)
qed

lemma findings_known_kind:
  assumes "f \<in> set (stream_findings st)"
  shows "zf_Kind f \<in> {ZombieKindEmptyStream, ZombieKindIdleConsumer, ZombieKindUnconsumedSubject,
    ZombieKindUnpublishedSubject, ZombieKindUnboundConsumer}"
  using assms by (auto simp: stream_findings_def Let_def empty_findings_def unconsumed_findings_def
      consumer_findings_def split: if_splits)

definition kind_count :: "string \<Rightarrow> ZombieFinding list \<Rightarrow> int" where
  "kind_count k fs = int (length (filter (\<lambda>f. zf_Kind f = k) fs))"

lemma tally_loop_counts:
  "zt_EmptyStreams (tally_loop t fs) = zt_EmptyStreams t + kind_count ZombieKindEmptyStream fs"
  "zt_IdleConsumers (tally_loop t fs) = zt_IdleConsumers t + kind_count ZombieKindIdleConsumer fs"
  "zt_UnconsumedSubjects (tally_loop t fs) =
     zt_UnconsumedSubjects t + kind_count ZombieKindUnconsumedSubject fs"
  "zt_UnpublishedSubjects (tally_loop t fs) =
     zt_UnpublishedSubjects t + kind_count ZombieKindUnpublishedSubject fs"
  "zt_UnboundConsumers (tally_loop t fs) =
     zt_UnboundConsumers t + kind_count ZombieKindUnboundConsumer fs"
  "zt_Total (tally_loop t fs) = zt_Total t"
  by (induction t fs rule: tally_loop.induct) (simp_all add: kind_count_def kind_defs)

lemma kinds_partition:
  assumes "\<forall>f\<in>set fs. zf_Kind f \<in> {ZombieKindEmptyStream, ZombieKindIdleConsumer,
    ZombieKindUnconsumedSubject, ZombieKindUnpublishedSubject, ZombieKindUnboundConsumer}"
  shows "kind_count ZombieKindEmptyStream fs + kind_count ZombieKindIdleConsumer fs +
    kind_count ZombieKindUnconsumedSubject fs + kind_count ZombieKindUnpublishedSubject fs +
    kind_count ZombieKindUnboundConsumer fs = int (length fs)"
  using assms by (induction fs) (auto simp: kind_count_def kind_defs)

section \<open>Properties\<close>

text \<open>A reported overlap is real.  If two well-formed patterns are taken to share traffic,
  there is a subject without wildcards that both match; and if one of the two has no wildcard,
  they are taken to share traffic exactly when the other one matches it.\<close>

theorem overlap_sound:
  assumes "wf_pattern (Split CHR ''.'' (TrimSpace a))" and "wf_pattern (Split CHR ''.'' (TrimSpace b))"
  shows "(subjectsOverlap a b \<longrightarrow> (\<exists>sub. literal sub \<and>
        pattern_of (Split CHR ''.'' (TrimSpace a)) sub \<and> pattern_of (Split CHR ''.'' (TrimSpace b)) sub)) \<and>
    (literal (Split CHR ''.'' (TrimSpace a)) \<longrightarrow> (subjectsOverlap a b \<longleftrightarrow> MatchesPattern a b)) \<and>
    (literal (Split CHR ''.'' (TrimSpace b)) \<longrightarrow> (subjectsOverlap a b \<longleftrightarrow> MatchesPattern b a))"
proof (intro conjI impI)
  let ?A = "Split CHR ''.'' (TrimSpace a)" and ?B = "Split CHR ''.'' (TrimSpace b)"
  assume "subjectsOverlap a b"
  then have "?A = ?B \<or> match_loop ?A ?B \<or> match_loop ?B ?A"
    by (auto simp: subjectsOverlap_iff Let_def match_loop_eq)
  then show "\<exists>sub. literal sub \<and> pattern_of ?A sub \<and> pattern_of ?B sub"
    by (rule zm.shared_subject [OF assms])
qed (use subjectsOverlap_literal subjectsOverlap_sym in blast)+

theorem overlap_sound_witness:
  "subjectsOverlap ''orders.eu.new'' ''orders.>'' \<and> (\<exists>sub. literal sub \<and>
     pattern_of (Split CHR ''.'' (TrimSpace ''orders.eu.new'')) sub \<and>
     pattern_of (Split CHR ''.'' (TrimSpace ''orders.>'')) sub)"
proof -
  have wf: "wf_pattern (Split CHR ''.'' (TrimSpace ''orders.eu.new''))"
    "wf_pattern (Split CHR ''.'' (TrimSpace ''orders.>''))" by code_simp+
  have o: "subjectsOverlap ''orders.eu.new'' ''orders.>''" by code_simp
  from overlap_sound [OF wf] o show ?thesis by blast
qed

text \<open>Not every overlap is found.  The patterns \<^verbatim>\<open>a.*\<close> and \<^verbatim>\<open>*.b\<close> share the subject
  \<^verbatim>\<open>a.b\<close>, but are not taken to share traffic, and a stream on \<^verbatim>\<open>a.*\<close> whose only consumer reads
  \<^verbatim>\<open>*.b\<close> is reported with an unconsumed subject and with an unbound consumer.\<close>

theorem overlap_missed:
  "MatchesPattern ''a.b'' ''a.*'' \<and> MatchesPattern ''a.b'' ''*.b'' \<and>
   \<not> subjectsOverlap ''a.*'' ''*.b'' \<and>
   map zf_Kind (zn_Findings (AnalyzeZombies
     [\<lparr>zs_Name = ''S'', zs_Subjects = [''a.*''],
       zs_Consumers = [\<lparr>zc_Name = ''C'', zc_FilterSubject = ''*.b'', zc_FilterSubjects = [],
         zc_DeliveredConsSeq = 7, zc_DeliveredStrSeq = 7\<rparr>], zs_Messages = 7, zs_LastSeq = 7\<rparr>]))
   = [ZombieKindUnconsumedSubject, ZombieKindUnboundConsumer]"
  by code_simp

text \<open>The totals of a snapshot are the numbers of its findings by kind, and the total is
  their sum.\<close>

theorem zombie_totals:
  "let s = AnalyzeZombies streams; t = zn_Totals s; n = (\<lambda>k. kind_count k (zn_Findings s))
   in zt_EmptyStreams t = n ZombieKindEmptyStream \<and> zt_IdleConsumers t = n ZombieKindIdleConsumer \<and>
      zt_UnconsumedSubjects t = n ZombieKindUnconsumedSubject \<and>
      zt_UnpublishedSubjects t = n ZombieKindUnpublishedSubject \<and>
      zt_UnboundConsumers t = n ZombieKindUnboundConsumer \<and>
      zt_Total t = zt_EmptyStreams t + zt_IdleConsumers t + zt_UnconsumedSubjects t +
        zt_UnpublishedSubjects t + zt_UnboundConsumers t"
proof -
  define fs where "fs = concat (map stream_findings streams)"
  have known: "\<forall>f\<in>set fs. zf_Kind f \<in> {ZombieKindEmptyStream, ZombieKindIdleConsumer,
    ZombieKindUnconsumedSubject, ZombieKindUnpublishedSubject, ZombieKindUnboundConsumer}"
    using findings_known_kind unfolding fs_def by fastforce
  show ?thesis
    unfolding AnalyzeZombies_def Let_def fs_def [symmetric]
    by (simp add: tallyZombieFindings_def tally_loop_counts kinds_partition [OF known])
qed

text \<open>Unconsumed subjects are reported exactly.  For streams of different names, a subject
  without wildcards of a stream whose consumers have well-formed filters is reported as
  unconsumed if and only if each consumer has filters and none of them matches the subject.\<close>

theorem unconsumed_exact:
  assumes "distinct (map (\<lambda>st. TrimSpace (zs_Name st)) streams)" and "st \<in> set streams"
    and "TrimSpace (zs_Name st) \<noteq> []"
    and "s \<in> set (zs_Subjects st)" and "TrimSpace s \<noteq> []" and "literal (Split CHR ''.'' (TrimSpace s))"
    and "\<forall>c\<in>set (zs_Consumers st). \<forall>f\<in>set (consumerFilterList c). wf_pattern (Split CHR ''.'' f)"
  shows "(\<exists>f\<in>set (zn_Findings (AnalyzeZombies streams)). zf_Kind f = ZombieKindUnconsumedSubject \<and>
      zf_Stream f = TrimSpace (zs_Name st) \<and> zf_Subject f = TrimSpace s) \<longleftrightarrow>
    (\<forall>c\<in>set (zs_Consumers st). consumerFilterList c \<noteq> [] \<and>
      (\<forall>f\<in>set (consumerFilterList c).
        \<not> pattern_of (Split CHR ''.'' f) (Split CHR ''.'' (TrimSpace s))))"
    (is "?found \<longleftrightarrow> ?unread")
proof -
  let ?n = "TrimSpace (zs_Name st)" and ?F = "consumerFilters (zs_Consumers st)"
  have uniq: "st' = st" if "st' \<in> set streams" "TrimSpace (zs_Name st') = ?n" for st'
    using assms(1,2) that unfolding distinct_map inj_on_def by blast
  have "?found \<longleftrightarrow> (\<exists>f\<in>set (unconsumed_findings ?n st). zf_Subject f = TrimSpace s)"
  proof
    assume ?found
    then obtain f st' where f: "f \<in> set (stream_findings st')" "st' \<in> set streams"
      "zf_Kind f = ZombieKindUnconsumedSubject" "zf_Stream f = ?n" "zf_Subject f = TrimSpace s"
      unfolding AnalyzeZombies_def Let_def by auto
    have "st' = st" using stream_findings_stream [OF f(1)] f(4) uniq [OF f(2)] by metis
    then have "f \<in> set (unconsumed_findings ?n st)"
      using f(1,3) unconsumed_in_stream [of f st] by blast
    then show "\<exists>f\<in>set (unconsumed_findings ?n st). zf_Subject f = TrimSpace s"
      using f(5) by blast
  next
    assume "\<exists>f\<in>set (unconsumed_findings ?n st). zf_Subject f = TrimSpace s"
    then obtain f where f: "f \<in> set (unconsumed_findings ?n st)" "zf_Subject f = TrimSpace s" ..
    with unconsumed_in_stream [of f st] assms(3)
    have g: "f \<in> set (stream_findings st)" "zf_Kind f = ZombieKindUnconsumedSubject" by blast+
    moreover have "f \<in> set (zn_Findings (AnalyzeZombies streams))"
      using g(1) assms(2) by (auto simp: AnalyzeZombies_def Let_def)
    ultimately show ?found using f(2) stream_findings_stream [OF g(1)] by blast
  qed
  also have "\<dots> \<longleftrightarrow> \<not> subjectCoveredByFilters (TrimSpace s) ?F"
    using assms(4,5) by (simp add: unconsumed_subjects trimmed_subjects_def)
  also have "\<dots> \<longleftrightarrow> (\<forall>f\<in>set ?F. f \<noteq> [] \<and> \<not> MatchesPattern s f)"
    using subjectsOverlap_literal [OF assms(6)] by (simp add: subjectCoveredByFilters_iff)
  also have "\<dots> \<longleftrightarrow> (\<forall>c\<in>set (zs_Consumers st). consumerFilterList c \<noteq> [] \<and>
      (\<forall>f\<in>set (consumerFilterList c). \<not> MatchesPattern s f))"
    by (rule all_consumerFilters)
  also have "\<dots> \<longleftrightarrow> ?unread"
  proof -
    have "MatchesPattern s f \<longleftrightarrow> pattern_of (Split CHR ''.'' f) (Split CHR ''.'' (TrimSpace s))"
      if "c \<in> set (zs_Consumers st)" "f \<in> set (consumerFilterList c)" for c f
      using assms(5) consumerFilterList_trimmed [OF that(2)]
        sa.matches_pattern_of [OF assms(7) [rule_format, OF that]]
      by (simp add: MatchesPattern_iff)
    then show ?thesis by blast
  qed
  finally show ?thesis .
qed

definition example_stream :: ZombieStreamInput where
  "example_stream = \<lparr>zs_Name = ''S'', zs_Subjects = [''a.b'', ''a.c''],
     zs_Consumers = [\<lparr>zc_Name = ''C'', zc_FilterSubject = ''*.b'', zc_FilterSubjects = [],
       zc_DeliveredConsSeq = 7, zc_DeliveredStrSeq = 7\<rparr>], zs_Messages = 7, zs_LastSeq = 7\<rparr>"

theorem unconsumed_exact_witness:
  "\<exists>f\<in>set (zn_Findings (AnalyzeZombies [example_stream])). zf_Kind f = ZombieKindUnconsumedSubject \<and>
     zf_Stream f = TrimSpace (zs_Name example_stream) \<and> zf_Subject f = TrimSpace ''a.c''"
proof -
  have h: "distinct (map (\<lambda>st. TrimSpace (zs_Name st)) [example_stream])"
    "example_stream \<in> set [example_stream]" "TrimSpace (zs_Name example_stream) \<noteq> []"
    "''a.c'' \<in> set (zs_Subjects example_stream)" "TrimSpace ''a.c'' \<noteq> []"
    "literal (Split CHR ''.'' (TrimSpace ''a.c''))"
    "\<forall>c\<in>set (zs_Consumers example_stream). \<forall>f\<in>set (consumerFilterList c). wf_pattern (Split CHR ''.'' f)"
    by code_simp+
  have "\<forall>c\<in>set (zs_Consumers example_stream). consumerFilterList c \<noteq> [] \<and>
      (\<forall>f\<in>set (consumerFilterList c).
        \<not> pattern_of (Split CHR ''.'' f) (Split CHR ''.'' (TrimSpace ''a.c'')))"
    by code_simp
  with unconsumed_exact [OF h] show ?thesis by blast
qed

end
