(* ===== verification/Rate_Limiter.thy ===== *)
theory Rate_Limiter
  imports Prelude
begin

text \<open>
  The limiter of authentication requests (\<^verbatim>\<open>internal/api/middleware/limiter.go\<close>):
  per client address, the times of the requests let through in the current window, with a
  purge of stale addresses every 256 requests or when more than 512 addresses are held.

  The reference is a limiter that keeps the whole history of the requests it let
  through and counts those of the window.  The lemmas show that the two give the same
  answers, whatever has been purged, when the clock does not go back (\<^verbatim>\<open>time.Now\<close>
  reads a monotonic clock, inside the lock).
\<close>

section \<open>The code\<close>

definition pathPrefixAuthLogin :: string where
  "pathPrefixAuthLogin = ''/api/v1/auth/login''"
definition pathPrefixAuthInvite :: string where
  "pathPrefixAuthInvite = ''/api/v1/auth/invite/''"
definition pathPrefixAuthAcceptInvite :: string where
  "pathPrefixAuthAcceptInvite = ''/api/v1/auth/invite/accept''"

definition isAuthRateLimitedPath :: "string \<Rightarrow> bool" where
  "isAuthRateLimitedPath path =
     (if path = pathPrefixAuthLogin \<or> path = pathPrefixAuthAcceptInvite then True
      else HasPrefix path pathPrefixAuthInvite)"

definition ipRateLimiterPurgeEvery :: int where "ipRateLimiterPurgeEvery = 256"
definition ipRateLimiterMaxStaleKeys :: nat where "ipRateLimiterMaxStaleKeys = 512"

record ipRateLimiter =
  rl_events :: "(string, gotime list) gomap"
  rl_limit :: int
  rl_window :: duration
  rl_allowCount :: int

definition newIPRateLimiter :: "int \<Rightarrow> duration \<Rightarrow> ipRateLimiter" where
  "newIPRateLimiter limit window =
     \<lparr>rl_events = [], rl_limit = limit, rl_window = window, rl_allowCount = 0\<rparr>"

text \<open>The loop that moves the times after the cutoff to the front of the slice.\<close>

definition recent :: "gotime \<Rightarrow> gotime list \<Rightarrow> gotime list" where
  "recent cutoff ts = filter (\<lambda>t. t > cutoff) ts"

definition purgeStaleLocked :: "gotime \<Rightarrow> ipRateLimiter \<Rightarrow> ipRateLimiter" where
  "purgeStaleLocked cutoff rl =
     rl\<lparr>rl_events := filter (\<lambda>kv. snd kv \<noteq> [])
          (map (\<lambda>kv. (fst kv, recent cutoff (snd kv))) (rl_events rl))\<rparr>"

definition events_of :: "ipRateLimiter \<Rightarrow> string \<Rightarrow> gotime list" where
  "events_of rl key = (case map_of (rl_events rl) key of None \<Rightarrow> [] | Some ts \<Rightarrow> ts)"

definition allow :: "ipRateLimiter \<Rightarrow> string \<Rightarrow> gotime \<Rightarrow> ipRateLimiter \<times> bool" where
  "allow rl key now =
     (if rl_limit rl \<le> 0 then (rl, True)
      else
        (let cutoff = now - rl_window rl;
             ts = recent cutoff (events_of rl key)
         in if int (length ts) \<ge> rl_limit rl then
              (rl\<lparr>rl_events := AList.update key ts (rl_events rl)\<rparr>, False)
            else
              (let rl1 = rl\<lparr>rl_events := AList.update key (ts @ [now]) (rl_events rl),
                            rl_allowCount := rl_allowCount rl + 1\<rparr>
               in if rl_allowCount rl1 mod ipRateLimiterPurgeEvery = 0 \<or>
                     length (rl_events rl1) > ipRateLimiterMaxStaleKeys
                  then (purgeStaleLocked cutoff rl1, True)
                  else (rl1, True))))"

text \<open>The answer of the middleware: the next handler, or status 429 with the number of
  seconds after which to retry.\<close>

datatype limit_answer = Next | TooManyRequests int

definition VerifyAuthRateLimit ::
  "ipRateLimiter \<Rightarrow> string \<Rightarrow> string \<Rightarrow> gotime \<Rightarrow> ipRateLimiter \<times> limit_answer" where
  "VerifyAuthRateLimit rl path clientIP now =
     (if \<not> isAuthRateLimitedPath path then (rl, Next)
      else (case allow rl clientIP now of
          (rl', True) \<Rightarrow> (rl', Next)
        | (rl', False) \<Rightarrow> (rl', TooManyRequests (max (rl_window rl div Second) 1))))"

fun allow_all :: "ipRateLimiter \<Rightarrow> (string \<times> gotime) list \<Rightarrow> bool list" where
  "allow_all rl [] = []"
| "allow_all rl ((key, now) # reqs) =
     (case allow rl key now of (rl', ok) \<Rightarrow> ok # allow_all rl' reqs)"

section \<open>The reference: a window over the whole history\<close>

type_synonym history = "(string \<times> gotime) list"

definition in_window :: "duration \<Rightarrow> history \<Rightarrow> string \<Rightarrow> gotime \<Rightarrow> gotime list" where
  "in_window w hist key now = recent (now - w) (map snd (filter (\<lambda>kt. fst kt = key) hist))"

definition spec_allow :: "int \<Rightarrow> duration \<Rightarrow> history \<Rightarrow> string \<Rightarrow> gotime \<Rightarrow> bool" where
  "spec_allow limit w hist key now \<longleftrightarrow> limit \<le> 0 \<or> int (length (in_window w hist key now)) < limit"

fun spec_all :: "int \<Rightarrow> duration \<Rightarrow> history \<Rightarrow> (string \<times> gotime) list \<Rightarrow> bool list" where
  "spec_all limit w hist [] = []"
| "spec_all limit w hist ((key, now) # reqs) =
     (let ok = spec_allow limit w hist key now
      in ok # spec_all limit w (if ok then hist @ [(key, now)] else hist) reqs)"

section \<open>Lemmas\<close>

text \<open>The state agrees with the history on everything after \<open>since\<close>.\<close>

definition agrees :: "ipRateLimiter \<Rightarrow> history \<Rightarrow> gotime \<Rightarrow> bool" where
  "agrees rl hist since \<longleftrightarrow> wf_gomap (rl_events rl) \<and>
     (\<forall>key. recent since (events_of rl key) =
            recent since (map snd (filter (\<lambda>kt. fst kt = key) hist)))"

lemma recent_recent [simp]: "c \<le> d \<Longrightarrow> recent d (recent c ts) = recent d ts"
  unfolding recent_def filter_filter by (rule filter_cong) auto

lemma recent_Nil [simp]: "recent c [] = []"
  by (simp add: recent_def)

lemma recent_append [simp]: "recent c (xs @ ys) = recent c xs @ recent c ys"
  by (simp add: recent_def)

lemma recent_later: "recent c xs = recent c ys \<Longrightarrow> c \<le> d \<Longrightarrow> recent d xs = recent d ys"
  using recent_recent [of c d xs] recent_recent [of c d ys] by simp

lemma agrees_later: "agrees rl hist c \<Longrightarrow> c \<le> d \<Longrightarrow> agrees rl hist d"
  unfolding agrees_def by (blast intro: recent_later)

lemma map_of_map_snd:
  "map_of (map (\<lambda>kv. (fst kv, f (snd kv))) m) k = map_option f (map_of m k)"
  by (induction m) auto

lemma purge_wf:
  "wf_gomap m \<Longrightarrow> wf_gomap (filter P (map (\<lambda>kv. (fst kv, f (snd kv))) m))"
  by (rule wf_gomap_filter) (simp add: wf_gomap_def comp_def)

lemma events_of_purge:
  assumes "wf_gomap (rl_events rl)"
  shows "events_of (purgeStaleLocked c rl) key = recent c (events_of rl key)"
proof -
  have "wf_gomap (map (\<lambda>kv. (fst kv, recent c (snd kv))) (rl_events rl))"
    using assms by (simp add: wf_gomap_def comp_def)
  then show ?thesis
    by (auto simp: events_of_def purgeStaleLocked_def map_of_filter_wf map_of_map_snd recent_def
        split: option.splits)
qed

lemma agrees_purge: "agrees rl hist c \<Longrightarrow> agrees (purgeStaleLocked c rl) hist c"
  by (auto simp: agrees_def events_of_purge) (simp add: purgeStaleLocked_def purge_wf)

lemma events_of_update:
  "events_of (rl\<lparr>rl_events := AList.update key ts (rl_events rl), rl_allowCount := n\<rparr>) k =
     (if k = key then ts else events_of rl k)"
  "events_of (rl\<lparr>rl_events := AList.update key ts (rl_events rl)\<rparr>) k =
     (if k = key then ts else events_of rl k)"
  by (simp_all add: events_of_def map_of_update)

lemma purgeStaleLocked_config [simp]:
  "rl_limit (purgeStaleLocked c rl) = rl_limit rl" "rl_window (purgeStaleLocked c rl) = rl_window rl"
  by (simp_all add: purgeStaleLocked_def)

text \<open>One request: the same answer, and the agreement is kept.\<close>

lemma allow_refines:
  assumes "agrees rl hist (now - rl_window rl)"
  shows "snd (allow rl key now) = spec_allow (rl_limit rl) (rl_window rl) hist key now"
    and "rl_limit (fst (allow rl key now)) = rl_limit rl"
    and "rl_window (fst (allow rl key now)) = rl_window rl"
    and "rl_limit rl > 0 \<Longrightarrow> agrees (fst (allow rl key now))
      (if snd (allow rl key now) then hist @ [(key, now)] else hist) (now - rl_window rl)"
proof -
  let ?c = "now - rl_window rl"
  let ?times = "recent ?c (events_of rl key)"
  have times: "?times = in_window (rl_window rl) hist key now"
    using assms by (simp add: agrees_def in_window_def)
  show "snd (allow rl key now) = spec_allow (rl_limit rl) (rl_window rl) hist key now"
    using times by (auto simp: allow_def spec_allow_def Let_def)
  show "rl_limit (fst (allow rl key now)) = rl_limit rl"
    "rl_window (fst (allow rl key now)) = rl_window rl"
    by (auto simp: allow_def Let_def)
  have keep: "agrees (rl\<lparr>rl_events := AList.update key ?times (rl_events rl)\<rparr>) hist ?c"
    using assms by (simp add: agrees_def events_of_update)
  let ?rl1 = "rl\<lparr>rl_events := AList.update key (?times @ [now]) (rl_events rl),
    rl_allowCount := rl_allowCount rl + 1\<rparr>"
  have add: "agrees ?rl1 (hist @ [(key, now)]) ?c"
    using assms by (simp add: agrees_def events_of_update)
  show "rl_limit rl > 0 \<Longrightarrow> agrees (fst (allow rl key now))
      (if snd (allow rl key now) then hist @ [(key, now)] else hist) ?c"
    using keep add agrees_purge [OF add] by (simp add: allow_def Let_def)
qed

fun times_from :: "gotime \<Rightarrow> (string \<times> gotime) list \<Rightarrow> bool" where
  "times_from t [] \<longleftrightarrow> True"
| "times_from t ((key, now) # reqs) \<longleftrightarrow> t \<le> now \<and> times_from now reqs"

lemma spec_all_unlimited: "limit \<le> 0 \<Longrightarrow> spec_all limit w hist reqs = map (\<lambda>_. True) reqs"
  by (induction reqs arbitrary: hist) (auto simp: spec_allow_def Let_def)

lemma allow_all_unlimited: "rl_limit rl \<le> 0 \<Longrightarrow> allow_all rl reqs = map (\<lambda>_. True) reqs"
  by (induction reqs) (auto simp: allow_def)

lemma allow_all_refines:
  assumes "agrees rl hist (t - rl_window rl)" and "times_from t reqs" and "rl_limit rl > 0"
  shows "allow_all rl reqs = spec_all (rl_limit rl) (rl_window rl) hist reqs"
  using assms
proof (induction reqs arbitrary: rl hist t)
  case (Cons req reqs)
  obtain key now where req: "req = (key, now)" by (cases req)
  with Cons.prems have now: "t \<le> now" "times_from now reqs" by auto
  then have ag: "agrees rl hist (now - rl_window rl)"
    using Cons.prems(1) agrees_later by fastforce
  obtain rl' ok where a: "allow rl key now = (rl', ok)" by (cases "allow rl key now")
  note r = allow_refines [OF ag, of key, unfolded a fst_conv snd_conv]
  have "allow_all rl' reqs = spec_all (rl_limit rl') (rl_window rl')
      (if ok then hist @ [(key, now)] else hist) reqs"
    by (rule Cons.IH) (use r Cons.prems(3) now in auto)
  then show ?case using r a req by (simp add: Let_def)
qed simp

subsection \<open>The reference keeps the limit\<close>

definition within :: "gotime \<Rightarrow> gotime \<Rightarrow> string \<Rightarrow> history \<Rightarrow> nat" where
  "within a b key hist = length (filter (\<lambda>kt. fst kt = key \<and> a < snd kt \<and> snd kt \<le> b) hist)"

fun allowed :: "bool list \<Rightarrow> (string \<times> gotime) list \<Rightarrow> history" where
  "allowed (ok # oks) (req # reqs) = (if ok then [req] else []) @ allowed oks reqs"
| "allowed _ _ = []"

text \<open>Every window that ends at or before \<open>t\<close> holds at most \<open>limit\<close> entries.\<close>

definition windows_ok :: "int \<Rightarrow> duration \<Rightarrow> history \<Rightarrow> bool" where
  "windows_ok limit w hist \<longleftrightarrow> (\<forall>a key. int (within a (a + w) key hist) \<le> limit)"

lemma length_in_window:
  assumes "\<forall>kt\<in>set hist. snd kt \<le> now"
  shows "length (in_window w hist key now) = within (now - w) now key hist"
proof -
  have "in_window w hist key now =
      map snd (filter (\<lambda>kt. fst kt = key \<and> now - w < snd kt \<and> snd kt \<le> now) hist)"
    using assms by (induction hist) (auto simp: in_window_def recent_def)
  then show ?thesis by (simp add: within_def)
qed

lemma within_mono:
  assumes "\<forall>kt\<in>set hist. snd kt \<le> now" and "c \<le> a"
  shows "within a b key hist \<le> within c now key hist"
  using assms by (induction hist) (auto simp: within_def)

lemma windows_ok_step:
  assumes "windows_ok limit w hist" and "\<forall>kt\<in>set hist. snd kt \<le> now"
    and "spec_allow limit w hist key now" and "limit > 0"
  shows "windows_ok limit w (hist @ [(key, now)])"
proof -
  have "int (within a (a + w) k (hist @ [(key, now)])) \<le> limit" for a k
  proof (cases "k = key \<and> a < now \<and> now \<le> a + w")
    case True
    have "int (within (now - w) now key hist) < limit"
      using assms by (simp add: spec_allow_def length_in_window)
    moreover have "within a (a + w) key hist \<le> within (now - w) now key hist"
      using assms(2) True by (intro within_mono) auto
    ultimately show ?thesis using True by (simp add: within_def)
  next
    case False
    then have "within a (a + w) k (hist @ [(key, now)]) = within a (a + w) k hist"
      by (auto simp: within_def)
    then show ?thesis using assms(1) by (simp add: windows_ok_def)
  qed
  then show ?thesis by (simp add: windows_ok_def)
qed

lemma spec_all_windows:
  assumes "windows_ok limit w hist" and "\<forall>kt\<in>set hist. snd kt \<le> t" and "times_from t reqs"
    and "limit > 0"
  shows "windows_ok limit w (hist @ allowed (spec_all limit w hist reqs) reqs)"
  using assms
proof (induction reqs arbitrary: hist t)
  case (Cons req reqs)
  obtain key now where req: "req = (key, now)" by (cases req)
  with Cons.prems have now: "t \<le> now" "times_from now reqs" "\<forall>kt\<in>set hist. snd kt \<le> now"
    by (auto dest: order_trans)
  show ?case
  proof (cases "spec_allow limit w hist key now")
    case True
    from windows_ok_step [OF Cons.prems(1) now(3) True Cons.prems(4)]
    have "windows_ok limit w ((hist @ [(key, now)]) @
        allowed (spec_all limit w (hist @ [(key, now)]) reqs) reqs)"
      by (rule Cons.IH [where t = now]) (use now Cons.prems(4) in auto)
    then show ?thesis using True req by (simp add: Let_def)
  next
    case False
    then show ?thesis
      using Cons.IH [OF Cons.prems(1) now(3,2) Cons.prems(4)] req by (simp add: Let_def)
  qed
qed simp

lemma new_agrees: "agrees (newIPRateLimiter limit w) [] c"
  by (simp add: agrees_def newIPRateLimiter_def events_of_def)

lemma new_config [simp]:
  "rl_limit (newIPRateLimiter limit w) = limit" "rl_window (newIPRateLimiter limit w) = w"
  by (simp_all add: newIPRateLimiter_def)

lemma new_refines:
  assumes "times_from t reqs"
  shows "allow_all (newIPRateLimiter limit w) reqs = spec_all limit w [] reqs"
proof (cases "limit > 0")
  case True
  then show ?thesis using allow_all_refines [OF new_agrees assms] by simp
next
  case False
  then show ?thesis by (simp add: spec_all_unlimited allow_all_unlimited)
qed

section \<open>Properties\<close>

text \<open>The limiter that forgets answers like the one that remembers everything.  For
  every sequence of requests at times that do not decrease, each answer of a new limiter,
  with its trimming and its purges, is the answer of counting the requests of the same
  address let through in the last window in the whole history.\<close>

theorem limiter_refines_window:
  assumes "times_from t reqs"
  shows "allow_all (newIPRateLimiter limit w) reqs = spec_all limit w [] reqs"
  using assms by (rule new_refines)

theorem limiter_refines_window_witness:
  "allow_all (newIPRateLimiter 2 10) [(''a'', 1), (''a'', 2), (''b'', 3), (''a'', 9), (''a'', 11)] =
   spec_all 2 10 [] [(''a'', 1), (''a'', 2), (''b'', 3), (''a'', 9), (''a'', 11)] \<and>
   allow_all (newIPRateLimiter 2 10) [(''a'', 1), (''a'', 2), (''b'', 3), (''a'', 9), (''a'', 11)] =
   [True, True, True, False, True]"
proof -
  have "times_from 0 [(''a'', 1), (''a'', 2), (''b'', 3), (''a'', 9), (''a'', 11)]" by simp
  moreover have "allow_all (newIPRateLimiter 2 10)
      [(''a'', 1), (''a'', 2), (''b'', 3), (''a'', 9), (''a'', 11)] =
    [True, True, True, False, True]" by code_simp
  ultimately show ?thesis using limiter_refines_window by blast
qed

text \<open>C29: the limit holds in every window.  For every address and every point in time, at
  most \<open>limit\<close> of its requests are let through within one window from that point.\<close>

theorem limit_in_every_window:
  assumes "times_from t reqs" and "limit > 0"
  shows "int (within a (a + w) key
     (allowed (allow_all (newIPRateLimiter limit w) reqs) reqs)) \<le> limit"
  using spec_all_windows [of limit w "[]" t reqs] assms
  by (simp add: new_refines windows_ok_def within_def)

theorem limit_in_every_window_witness:
  "int (within 0 10 ''a'' (allowed (allow_all (newIPRateLimiter 2 10)
     [(''a'', 1), (''a'', 2), (''a'', 9)]) [(''a'', 1), (''a'', 2), (''a'', 9)])) \<le> 2"
  using limit_in_every_window [of 0 "[(''a'', 1), (''a'', 2), (''a'', 9)]" 2 0 10 "''a''"] by simp

end
