(* ===== verification/Rbac_Middleware.thy ===== *)
theory Rbac_Middleware
  imports Auth_Service Rate_Limiter
begin

text \<open>
  The middleware that stands before every handler (\<^verbatim>\<open>internal/api/middleware\<close>:
  \<^verbatim>\<open>path_prefixes.go\<close>, \<^verbatim>\<open>mw.go\<close>, \<^verbatim>\<open>auth.go\<close>, \<^verbatim>\<open>csrf.go\<close>,
  \<^verbatim>\<open>cors.go\<close>), its counterparts in \<^verbatim>\<open>internal/api/apikit/rbac.go\<close> and
  \<^verbatim>\<open>internal/audit\<close>, and the deletion of clusters (\<^verbatim>\<open>internal/api/ops/clusters.go\<close>).

  A middleware is the answer it gives for a request: the next handler, or the status it
  writes.  The client address of a request is an attribute of it (the parsing of addresses
  and proxy headers is not modelled).
\<close>

section \<open>Paths\<close>

definition pathPrefixAuthLogout :: string where "pathPrefixAuthLogout = ''/api/v1/auth/logout''"
definition pathPrefixAuthRefresh :: string where "pathPrefixAuthRefresh = ''/api/v1/auth/refresh''"
definition pathPrefixAuthConfig :: string where "pathPrefixAuthConfig = ''/api/v1/auth/config''"
definition pathPrefixHealth :: string where "pathPrefixHealth = ''/api/health''"
definition pathPrefixOpenAPI :: string where "pathPrefixOpenAPI = ''/api/openapi.yaml''"
definition pathPrefixSchemas :: string where "pathPrefixSchemas = ''/api/v1/schemas''"
definition PathPrefixPprof :: string where "PathPrefixPprof = ''/debug/pprof''"
definition pathPrefixPprofProfile :: string where
  "pathPrefixPprofProfile = ''/api/v1/pprof/profile/profile''"
definition pathPrefixPprofProfileCPU :: string where
  "pathPrefixPprofProfileCPU = ''/api/v1/pprof/profile/cpu''"

definition isPprofPath :: "string \<Rightarrow> bool" where
  "isPprofPath path \<longleftrightarrow> path = PathPrefixPprof \<or> HasPrefix path (PathPrefixPprof @ ''/'')"

definition isLongRunningProfilePath :: "string \<Rightarrow> bool" where
  "isLongRunningProfilePath path =
     (if isPprofPath path then HasPrefix path (PathPrefixPprof @ ''/profile'')
      else HasPrefix path pathPrefixPprofProfileCPU \<or> HasPrefix path pathPrefixPprofProfile)"

definition isPublicPath :: "string \<Rightarrow> bool" where
  "isPublicPath path =
     (if path \<in> {pathPrefixHealth, pathPrefixOpenAPI, pathPrefixSchemas, pathPrefixAuthConfig,
                 pathPrefixAuthLogin, pathPrefixAuthLogout, pathPrefixAuthRefresh,
                 pathPrefixAuthAcceptInvite} then True
      else HasPrefix path pathPrefixAuthInvite)"

definition isAPIPath :: "string \<Rightarrow> bool" where
  "isAPIPath path = HasPrefix path ''/api/''"

definition requiresAuth :: "string \<Rightarrow> bool" where
  "requiresAuth path \<longleftrightarrow> isAPIPath path \<and> \<not> isPublicPath path"

definition clusters_prefix :: string where "clusters_prefix = ''/api/v1/clusters/''"

definition is_hex :: "char \<Rightarrow> bool" where
  "is_hex c \<longleftrightarrow> c \<in> set ''0123456789abcdefABCDEF''"

text \<open>The pattern \<^verbatim>\<open>(?i)^[0-9a-f]{8}-[0-9a-f]{4}-[0-9a-f]{4}-[0-9a-f]{4}-[0-9a-f]{12}$\<close>.\<close>

definition uuidPattern :: "string \<Rightarrow> bool" where
  "uuidPattern s \<longleftrightarrow>
     (case Split CHR ''-'' s of
        [a, b, c, d, e] \<Rightarrow>
          map length [a, b, c, d, e] = [8, 4, 4, 4, 12] \<and> list_all is_hex (a @ b @ c @ d @ e)
      | _ \<Rightarrow> False)"

definition staticClusterPathSegments :: "string list" where
  "staticClusterPathSegments = [''connections'']"

definition clusterIDFromPath :: "string \<Rightarrow> string" where
  "clusterIDFromPath path =
     (if \<not> HasPrefix path clusters_prefix then []
      else
        (let rest = TrimPrefix path clusters_prefix
         in if IsEmpty rest then []
            else
              (let clusterID = fst (Cut CHR ''/'' rest)
               in if IsEmpty clusterID then []
                  else if clusterID \<in> set staticClusterPathSegments then []
                  else if \<not> uuidPattern clusterID then []
                  else ToLower clusterID)))"

definition clusterSubResource :: "string \<Rightarrow> string" where
  "clusterSubResource path =
     (if \<not> HasPrefix path clusters_prefix then []
      else
        (let rest = TrimPrefix path clusters_prefix;
             after = fst (snd (Cut CHR ''/'' rest))
         in fst (Cut CHR ''/'' after)))"

definition isJetStreamResourcePath :: "string \<Rightarrow> bool" where
  "isJetStreamResourcePath path \<longleftrightarrow>
     clusterSubResource path \<in> set [''streams'', ''kv'', ''objects'', ''request-reply'', ''zombies'',
       ''subject-naming'', ''event-genome'', ''event-catalog'', ''event-wikipedia'',
       ''incident-capsules'']"

definition accountScopedClusterSegments :: "string list" where
  "accountScopedClusterSegments =
     ['''', ''connection'', ''access'', ''accounts'', ''nats-users'', ''subject-permissions'',
      ''signing-groups'', ''sharing'']"

definition isAccountScopedClusterPath :: "string \<Rightarrow> bool" where
  "isAccountScopedClusterPath path \<longleftrightarrow> clusterSubResource path \<in> set accountScopedClusterSegments"

definition canReadClusterPath :: "User \<Rightarrow> string \<Rightarrow> string \<Rightarrow> bool" where
  "canReadClusterPath user clusterID path =
     (if isAccountScopedClusterPath path then CanAccessClusterOrAccount user clusterID
      else CanAccessCluster user clusterID)"

definition canMutateClusterPath :: "User \<Rightarrow> string \<Rightarrow> string \<Rightarrow> bool" where
  "canMutateClusterPath user clusterID path =
     (if isAccountScopedClusterPath path then CanAccessClusterOrAccount user clusterID
      else if \<not> CanAccessCluster user clusterID then False
      else if isJetStreamResourcePath path then CanManageJetStream user clusterID
      else CanWriteCluster user clusterID)"

definition requiresFreshAuthz :: "string \<Rightarrow> string \<Rightarrow> bool" where
  "requiresFreshAuthz path http_method =
     (if Contains path ''/creds'' \<or> Contains path ''/assign'' \<or>
         (Contains path ''/nats-users/'' \<and> HasSuffix path ''/rotate'') \<or>
         Contains path ''/mint-jwt'' \<or> Contains path ''/access/'' \<or> HasSuffix path ''/access'' \<or>
         Contains path ''/grants''
      then True
      else if http_method \<noteq> ''GET'' \<and> http_method \<noteq> ''HEAD'' \<and> http_method \<noteq> ''OPTIONS'' then
        if HasPrefix path ''/api/v1/users'' \<or> HasPrefix path ''/api/v1/people'' then True
        else Contains path ''/nats-users'' \<or> Contains path ''/signing-groups'' \<or>
             Contains path ''/sharing''
      else False)"

section \<open>Requests and answers\<close>

record Request =
  rq_Path :: string
  rq_Method :: string
  rq_SessionCookie :: string
  rq_RefreshCookie :: string
  rq_CSRFCookie :: string
  rq_Authorization :: string
  rq_CSRFHeader :: string
  rq_Origin :: string
  rq_UserAgent :: string
  rq_ClientIP :: string
  rq_ContentLength :: int
  rq_Body :: string

datatype answer = Pass | Unauthorized | Forbidden | CSRFInvalid | NoContent | TooLarge

definition safe_method :: "string \<Rightarrow> bool" where
  "safe_method m \<longleftrightarrow> m = ''GET'' \<or> m = ''HEAD'' \<or> m = ''OPTIONS''"

definition VerifyRBAC :: "User option \<Rightarrow> string \<Rightarrow> string \<Rightarrow> answer" where
  "VerifyRBAC actor path http_method =
     (if \<not> requiresAuth path then Pass
      else (case actor of
          None \<Rightarrow> Unauthorized
        | Some user \<Rightarrow>
            if HasPrefix path ''/api/v1/admin'' \<and> \<not> u_IsRoot user then Forbidden
            else if safe_method http_method then
              if HasPrefix path ''/api/v1/audit'' \<and> \<not> CanViewAudit user then Forbidden
              else if (HasPrefix path ''/api/v1/users'' \<or> HasPrefix path ''/api/v1/people'') \<and>
                      \<not> CanManageUsers user then Forbidden
              else if HasPrefix path ''/api/v1/alert-rules'' \<and> \<not> CanManageAlertRules user then Forbidden
              else if HasPrefix path ''/api/v1/pprof'' \<and> \<not> CanViewProfiling user then Forbidden
              else
                (let clusterID = clusterIDFromPath path
                 in if \<not> IsEmpty clusterID \<and> \<not> canReadClusterPath user clusterID path
                    then Forbidden else Pass)
            else if http_method = ''POST'' \<and> HasPrefix path ''/api/v1/alerts/'' \<and>
                    HasSuffix path ''/acknowledge'' then Pass
            else if http_method = ''DELETE'' \<and> HasPrefix path clusters_prefix \<and>
                    \<not> Contains (TrimPrefix path clusters_prefix) ''/'' \<and> \<not> CanDeleteCluster user
            then Forbidden
            else
              (let clusterID = clusterIDFromPath path
               in if (if \<not> IsEmpty clusterID then \<not> canMutateClusterPath user clusterID path
                      else if HasPrefix path ''/api/v1/alert-rules'' then \<not> CanManageAlertRules user
                      else \<not> CanWrite user) then Forbidden
                  else if (HasPrefix path ''/api/v1/users'' \<or> HasPrefix path ''/api/v1/people'') \<and>
                          \<not> CanManageUsers user then Forbidden
                  else if HasPrefix path ''/api/v1/audit'' \<and> \<not> CanViewAudit user then Forbidden
                  else Pass)))"

definition requiresCSRF :: "Request \<Rightarrow> bool" where
  "requiresCSRF rq =
     (if safe_method (rq_Method rq) then False
      else if \<not> isAPIPath (rq_Path rq) then False
      else if rq_Path rq = pathPrefixAuthRefresh then rq_RefreshCookie rq \<noteq> []
      else if isPublicPath (rq_Path rq) then False
      else if rq_SessionCookie rq = [] then False
      else True)"

definition VerifyCSRF :: "Request \<Rightarrow> answer" where
  "VerifyCSRF rq =
     (if \<not> requiresCSRF rq then Pass
      else if IsEmpty (rq_CSRFHeader rq) \<or> IsEmpty (rq_CSRFCookie rq) \<or>
              rq_CSRFHeader rq \<noteq> rq_CSRFCookie rq then CSRFInvalid
      else Pass)"

text \<open>The answer and the origin echoed in \<^verbatim>\<open>Access-Control-Allow-Origin\<close>, if any.\<close>

definition VerifyCors :: "string list \<Rightarrow> Request \<Rightarrow> answer \<times> string option" where
  "VerifyCors origins rq =
     (let ok = (rq_Origin rq \<noteq> [] \<and> rq_Origin rq \<in> set origins);
          echoed = (if ok then Some (rq_Origin rq) else None)
      in if rq_Method rq = ''OPTIONS'' then (if ok then NoContent else Forbidden, echoed)
         else (Pass, echoed))"

definition CheckBodySizeLimit :: "int \<Rightarrow> Request \<Rightarrow> answer" where
  "CheckBodySizeLimit maxRequestBodySize rq =
     (let maxBytes = (if maxRequestBodySize \<le> 0 then 2 ^ 20 else maxRequestBodySize)
      in if rq_ContentLength rq > 0 \<and> rq_ContentLength rq > maxBytes then TooLarge
         else if int (length (rq_Body rq)) > maxBytes then TooLarge
         else Pass)"

section \<open>Authentication of a request\<close>

text \<open>\<^verbatim>\<open>base64.StdEncoding.DecodeString\<close>: line breaks are skipped, the padding is required.\<close>

definition b64_alphabet :: string where
  "b64_alphabet = ''ABCDEFGHIJKLMNOPQRSTUVWXYZabcdefghijklmnopqrstuvwxyz0123456789+/''"

definition b64_value :: "char \<Rightarrow> nat option" where
  "b64_value c = map_of (zip b64_alphabet [0..<64]) c"

fun b64_groups :: "string \<Rightarrow> string option" where
  "b64_groups [] = Some []"
| "b64_groups (a # b # c # d # rest) =
     (case (b64_value a, b64_value b) of
        (Some va, Some vb) \<Rightarrow>
          (let first = char_of (va * 4 + vb div 16)
           in if c = CHR ''='' then
                (if d = CHR ''='' \<and> rest = [] then Some [first] else None)
              else (case b64_value c of
                  None \<Rightarrow> None
                | Some vc \<Rightarrow>
                    (let second = char_of (vb mod 16 * 16 + vc div 4)
                     in if d = CHR ''='' then
                          (if rest = [] then Some [first, second] else None)
                        else (case b64_value d of
                            None \<Rightarrow> None
                          | Some vd \<Rightarrow>
                              (case b64_groups rest of
                                 None \<Rightarrow> None
                               | Some others \<Rightarrow>
                                   Some (first # second # char_of (vc mod 4 * 64 + vd) # others))))))
      | _ \<Rightarrow> None)"
| "b64_groups _ = None"

definition DecodeString :: "string \<Rightarrow> string option" where
  "DecodeString s = b64_groups (filter (\<lambda>c. c \<noteq> CHR 0x0A \<and> c \<noteq> CHR 0x0D) s)"

definition ParseBasicAuth :: "string \<Rightarrow> (string \<times> string) option" where
  "ParseBasicAuth header =
     (if \<not> HasPrefix header ''Basic '' then None
      else (case DecodeString (drop 6 header) of
          None \<Rightarrow> None
        | Some decoded \<Rightarrow>
            (case Cut CHR '':'' decoded of
               (user, pass, found) \<Rightarrow> if found then Some (user, pass) else None)))"

definition requestFingerprint :: "AuthParams \<Rightarrow> Request \<Rightarrow> string" where
  "requestFingerprint P rq = DeviceFingerprint P (rq_UserAgent rq) (rq_ClientIP rq)"

type_synonym auth_outcome = "User option \<times> AuthService \<times> AuthDB"

text \<open>The session cookie first, then a bearer token, then basic credentials.\<close>

definition authorization_header ::
  "AuthParams \<Rightarrow> string \<times> string \<Rightarrow> AuthDB \<Rightarrow> bool \<Rightarrow> AuthService \<Rightarrow> Request \<Rightarrow> gotime \<Rightarrow> auth_outcome"
where
  "authorization_header P newIDs d up s rq now =
     (if HasPrefix (rq_Authorization rq) ''Bearer '' then
        (let token = TrimSpace (drop 7 (rq_Authorization rq))
         in if IsEmpty token then (None, s, d)
            else (case ParseSession P (Some d) up s token (requestFingerprint P rq) now of
                (Inr user, s') \<Rightarrow> (Some user, s', d)
              | (Inl _, s') \<Rightarrow> (None, s', d)))
      else if HasPrefix (rq_Authorization rq) ''Basic '' then
        (case ParseBasicAuth (rq_Authorization rq) of
           None \<Rightarrow> (None, s, d)
         | Some (username, password) \<Rightarrow>
             (case AuthenticateBasic P newIDs now (ad_users d) username password of
                (Inr user, users') \<Rightarrow> (Some user, s, d\<lparr>ad_users := users'\<rparr>)
              | (Inl _, users') \<Rightarrow> (None, s, d\<lparr>ad_users := users'\<rparr>)))
      else (None, s, d))"

definition Authenticate ::
  "AuthParams \<Rightarrow> string \<times> string \<Rightarrow> AuthDB \<Rightarrow> bool \<Rightarrow> AuthService \<Rightarrow> Request \<Rightarrow> gotime \<Rightarrow> auth_outcome"
where
  "Authenticate P newIDs d up s rq now =
     (if rq_SessionCookie rq \<noteq> [] then
        (case ParseSession P (Some d) up s (rq_SessionCookie rq) (requestFingerprint P rq) now of
           (Inr user, s') \<Rightarrow> (Some user, s', d)
         | (Inl _, s') \<Rightarrow> authorization_header P newIDs d up s' rq now)
      else authorization_header P newIDs d up s rq now)"

text \<open>The answer, and the user put into the context of the request.\<close>

definition VerifyAuth ::
  "AuthParams \<Rightarrow> string \<times> string \<Rightarrow> AuthDB \<Rightarrow> bool \<Rightarrow> AuthService \<Rightarrow> Request \<Rightarrow> gotime \<Rightarrow>
   answer \<times> User option \<times> AuthService \<times> AuthDB"
where
  "VerifyAuth P newIDs d up s rq now =
     (if \<not> requiresAuth (rq_Path rq) then (Pass, None, s, d)
      else (case Authenticate P newIDs d up s rq now of
          (None, s', d') \<Rightarrow> (Unauthorized, None, s', d')
        | (Some user, s', d') \<Rightarrow>
            if IsEmpty (u_ID user) then (Unauthorized, None, s', d')
            else
              (case (if requiresFreshAuthz (rq_Path rq) (rq_Method rq)
                     then LoadUserFresh (Some d') up s' (u_ID user) now
                     else LoadUserForSession (Some d') up s' user now) of
                 (Inl _, s'') \<Rightarrow> (Unauthorized, None, s'', d')
               | (Inr loaded, s'') \<Rightarrow> (Pass, Some loaded, s'', d'))))"

section \<open>Counterparts elsewhere\<close>

text \<open>\<^verbatim>\<open>apikit\<close> has its own copy of the parser of cluster paths.\<close>

definition ClusterIDFromPath :: "string \<Rightarrow> string" where
  "ClusterIDFromPath path =
     (if \<not> HasPrefix path clusters_prefix then []
      else
        (let rest = TrimPrefix path clusters_prefix
         in if IsEmpty rest then []
            else
              (let clusterID = fst (Cut CHR ''/'' rest)
               in if IsEmpty clusterID then []
                  else if clusterID \<in> set [''connections''] then []
                  else if \<not> uuidPattern clusterID then []
                  else ToLower clusterID)))"

text \<open>\<^verbatim>\<open>apikit.ClusterID\<close>: the route parameter, which the router cuts out of the path.\<close>

definition ClusterID :: "string \<Rightarrow> string" where
  "ClusterID routeParam = ToLower routeParam"

fun trim_left :: "char \<Rightarrow> string \<Rightarrow> string" where
  "trim_left c [] = []"
| "trim_left c (x # xs) = (if x = c then trim_left c xs else x # xs)"

definition Trim :: "char \<Rightarrow> string \<Rightarrow> string" where
  "Trim c s = rev (trim_left c (rev (trim_left c s)))"

definition audit_ClusterIDFromPath :: "string \<Rightarrow> string" where
  "audit_ClusterIDFromPath path =
     (let parts = Split CHR ''/'' (Trim CHR ''/'' path)
      in if length parts \<ge> 4 \<and> parts ! 2 = ''clusters'' then parts ! 3 else [])"

definition ParseResource :: "string \<Rightarrow> string \<times> string" where
  "ParseResource path =
     (let parts = Split CHR ''/'' (Trim CHR ''/'' path)
      in if length parts < 4 then ([], [])
         else if parts ! 2 \<noteq> ''clusters'' then ([], [])
         else if length parts = 4 then (''cluster'', parts ! 3)
         else (parts ! 4, if length parts > 5 then parts ! 5 else []))"

definition ActionForMethod :: "string \<Rightarrow> string" where
  "ActionForMethod m =
     (if m = ''POST'' then ''create'' else if m = ''PUT'' then ''update''
      else if m = ''DELETE'' then ''delete'' else ToLower m)"

section \<open>Deletion of clusters\<close>

record Cluster =
  cl_ID :: string
  cl_IsDefault :: bool

definition ClusterService_Delete :: "Cluster list \<Rightarrow> string \<Rightarrow> domain_error option \<times> Cluster list" where
  "ClusterService_Delete clusters clusterID =
     (case find (\<lambda>c. cl_ID c = clusterID) clusters of
        None \<Rightarrow> (Some ErrNotFound, clusters)
      | Some cluster \<Rightarrow>
          if cl_IsDefault cluster then
            (Some (ErrOther ''cannot delete the default cluster; set another as default first''), clusters)
          else if length clusters \<le> 1 then (Some (ErrOther ''cannot delete the last cluster''), clusters)
          else (None, filter (\<lambda>c. cl_ID c \<noteq> clusterID) clusters))"

text \<open>The handler of \<^verbatim>\<open>DELETE /api/v1/clusters/{clusterId}\<close>: the error, if any, and the
  clusters left.\<close>

definition DeleteCluster ::
  "Cluster list \<Rightarrow> User option \<Rightarrow> string \<Rightarrow> domain_error option \<times> Cluster list" where
  "DeleteCluster clusters actor routeParam =
     (case actor of
        None \<Rightarrow> (Some (ErrOther ''unauthorized''), clusters)
      | Some user \<Rightarrow>
          if \<not> p_DeleteClusters (PermissionsFor user) then (Some ErrForbidden, clusters)
          else
            (let clusterID = ClusterID routeParam
             in if \<not> uuidPattern clusterID then (Some (ErrOther ''invalid uuid''), clusters)
                else ClusterService_Delete clusters clusterID))"

section \<open>Lemmas\<close>

lemma set_Join: "set (Join sep ts) \<subseteq> set sep \<union> (\<Union>t\<in>set ts. set t)"
  by (induction sep ts rule: Join.induct) auto

lemma uuidPattern_chars:
  assumes "uuidPattern u"
  shows "\<forall>c\<in>set u. is_hex c \<or> c = CHR ''-''" and "u \<noteq> []"
proof -
  obtain a b c d e where sp: "Split CHR ''-'' u = [a, b, c, d, e]"
    and len: "length a = 8" and hex: "list_all is_hex (a @ b @ c @ d @ e)"
    using assms by (auto simp: uuidPattern_def split: list.splits)
  have u: "u = Join ''-'' [a, b, c, d, e]" using Join_Split [of "CHR ''-''" u] sp by simp
  have "set u \<subseteq> {CHR ''-''} \<union> set (a @ b @ c @ d @ e)"
    using set_Join [of "''-''" "[a, b, c, d, e]"] unfolding u by auto
  then show "\<forall>c\<in>set u. is_hex c \<or> c = CHR ''-''" using hex by (auto simp: list_all_iff)
  show "u \<noteq> []" using sp by auto
qed

lemma uuidPattern_no_slash: "uuidPattern u \<Longrightarrow> CHR ''/'' \<notin> set u"
  using uuidPattern_chars(1) [of u] by (auto simp: is_hex_def)

lemma uuidPattern_not_static: "uuidPattern u \<Longrightarrow> u \<noteq> ''connections''"
  by (auto simp: uuidPattern_def)

lemma Cut_segment:
  assumes "CHR ''/'' \<notin> set u" and "rest = [] \<or> (\<exists>r. rest = CHR ''/'' # r)"
  shows "fst (Cut CHR ''/'' (u @ rest)) = u"
  using assms by auto

lemma clusterIDFromPath_path:
  assumes "uuidPattern u" and "rest = [] \<or> (\<exists>r. rest = CHR ''/'' # r)"
  shows "clusterIDFromPath (clusters_prefix @ u @ rest) = ToLower u"
  using assms uuidPattern_chars(2) [OF assms(1)] uuidPattern_not_static [OF assms(1)]
    Cut_segment [OF uuidPattern_no_slash [OF assms(1)] assms(2)]
  by (simp add: clusterIDFromPath_def Let_def staticClusterPathSegments_def)

lemma clusterIDFromPath_nonempty:
  assumes "clusterIDFromPath path \<noteq> []"
  obtains u rest where "path = clusters_prefix @ u @ rest" "uuidPattern u"
    "rest = [] \<or> (\<exists>r. rest = CHR ''/'' # r)" "clusterIDFromPath path = ToLower u"
proof -
  from assms have "HasPrefix path clusters_prefix"
    by (auto simp: clusterIDFromPath_def split: if_splits)
  then obtain r where path: "path = clusters_prefix @ r" by (auto simp: HasPrefix_iff)
  obtain u a f where cut: "Cut CHR ''/'' r = (u, a, f)" by (cases "Cut CHR ''/'' r")
  from assms path cut have u: "uuidPattern u" "clusterIDFromPath path = ToLower u"
    by (auto simp: clusterIDFromPath_def Let_def split: if_splits)
  from Cut_sound [OF cut] have "r = u @ (if f then CHR ''/'' # a else [])" by auto
  with path u that show ?thesis by auto
qed

lemma clusterIDFromPath_eq: "ClusterIDFromPath path = clusterIDFromPath path"
  unfolding ClusterIDFromPath_def clusterIDFromPath_def staticClusterPathSegments_def by (rule refl)

lemma cluster_path_not_alerts:
  assumes "clusterIDFromPath path \<noteq> []"
  shows "\<not> HasPrefix path ''/api/v1/alerts/''" and "requiresAuth path"
proof -
  obtain u rest where path: "path = clusters_prefix @ u @ rest"
    using clusterIDFromPath_nonempty [OF assms] by blast
  show "\<not> HasPrefix path ''/api/v1/alerts/''" unfolding path clusters_prefix_def by simp
  show "requiresAuth path"
    unfolding path by (simp add: requiresAuth_def isAPIPath_def isPublicPath_def clusters_prefix_def
        pathPrefixHealth_def pathPrefixOpenAPI_def pathPrefixSchemas_def pathPrefixAuthConfig_def
        pathPrefixAuthLogin_def pathPrefixAuthLogout_def pathPrefixAuthRefresh_def
        pathPrefixAuthAcceptInvite_def pathPrefixAuthInvite_def)
qed

lemma VerifyRBAC_cluster:
  assumes "VerifyRBAC (Some user) path m = Pass" and "clusterIDFromPath path \<noteq> []"
  shows "if safe_method m then canReadClusterPath user (clusterIDFromPath path) path
    else canMutateClusterPath user (clusterIDFromPath path) path"
  using assms cluster_path_not_alerts [OF assms(2)]
  by (auto simp: VerifyRBAC_def Let_def split: if_splits)

section \<open>Properties\<close>

definition east_id :: string where "east_id = ''0190aaaa-0000-7000-8000-00000000ea57''"
definition west_id :: string where "west_id = ''0190aaaa-0000-7000-8000-0000000e57ee''"

text \<open>An operator of one cluster who may delete clusters, with one observer grant on an
  account of another cluster.\<close>

definition east_operator :: User where
  "east_operator = zero_user\<lparr>u_ID := ''e'', u_Roles := [RoleOperator],
     u_AccessRules := Some \<lparr>ar_ClusterIDs = [east_id], ar_AssignableRoles = [],
       ar_ManageUsers = False, ar_ViewAudit = False, ar_DeleteClusters = True\<rparr>,
     u_Grants := [zero_grant\<lparr>g_ResourceType := ResourceAccount,
       g_ResourceKey := AccountResourceKey west_id ''orders'', g_Role := GrantObserver\<rparr>]\<rparr>"

text \<open>C2: no request crosses the border of a cluster.  A request that passes the access check
  on a path of cluster \<open>c\<close> comes from a user who can see that cluster; outside the
  account resources, from one with access to the whole cluster; and if it is no read, from
  one who may manage JetStream there (for the JetStream resources) or write there.\<close>

theorem rbac_cluster_isolation:
  assumes "VerifyRBAC (Some user) path m = Pass" and "clusterIDFromPath path = c" and "c \<noteq> []"
  shows "CanAccessClusterOrAccount user c \<and>
    (\<not> isAccountScopedClusterPath path \<longrightarrow> CanAccessCluster user c \<and>
      (\<not> safe_method m \<longrightarrow>
        (if isJetStreamResourcePath path then CanManageJetStream user c else CanWriteCluster user c)))"
proof -
  have "CanAccessCluster user c \<Longrightarrow> CanAccessClusterOrAccount user c"
    using CanAccessAccount_cluster CanAccessCluster_account by blast
  with VerifyRBAC_cluster [OF assms(1)] assms(2,3) show ?thesis
    by (auto simp: canReadClusterPath_def canMutateClusterPath_def split: if_splits)
qed

theorem rbac_cluster_isolation_witness:
  "VerifyRBAC (Some east_operator) (clusters_prefix @ east_id @ ''/topology'') ''PUT'' = Pass \<and>
   CanWriteCluster east_operator east_id"
proof -
  have p: "VerifyRBAC (Some east_operator) (clusters_prefix @ east_id @ ''/topology'') ''PUT'' = Pass"
    "clusterIDFromPath (clusters_prefix @ east_id @ ''/topology'') = east_id" "east_id \<noteq> []"
    "\<not> isAccountScopedClusterPath (clusters_prefix @ east_id @ ''/topology'')"
    "\<not> isJetStreamResourcePath (clusters_prefix @ east_id @ ''/topology'')" "\<not> safe_method ''PUT''"
    by code_simp+
  from rbac_cluster_isolation [OF p(1-3)] p show ?thesis by simp
qed

text \<open>The middleware checks the cluster that the handler acts on.  Both parsers of cluster
  paths give the same answer; it is a cluster exactly for the paths with a UUID (in any
  letter case) as the segment after the prefix, and then the identifier is the one that
  \<^verbatim>\<open>apikit.ClusterID\<close> gives the handler for that segment.\<close>

theorem cluster_id_agrees:
  "ClusterIDFromPath path = clusterIDFromPath path \<and>
   (clusterIDFromPath path = c \<and> c \<noteq> [] \<longleftrightarrow>
     (\<exists>u rest. path = clusters_prefix @ u @ rest \<and> (rest = [] \<or> (\<exists>r. rest = CHR ''/'' # r)) \<and>
        uuidPattern u \<and> c = ClusterID u))"
proof -
  have "c \<noteq> []" if "uuidPattern u" "c = ClusterID u" for u
    using uuidPattern_chars(2) that by (auto simp: ClusterID_def ToLower_def)
  then show ?thesis
    using clusterIDFromPath_eq clusterIDFromPath_path clusterIDFromPath_nonempty
    by (metis ClusterID_def)
qed

text \<open>A cross-site request cannot ride on the cookies.  A request that is no read, goes to
  an API path, carries a session cookie (or goes to the refresh endpoint with a refresh
  cookie) and is not for one of the other public endpoints passes only with a header that
  repeats the secret of the CSRF cookie.\<close>

theorem csrf_enforced:
  assumes "VerifyCSRF rq = Pass" and "\<not> safe_method (rq_Method rq)" and "isAPIPath (rq_Path rq)"
    and "rq_Path rq = pathPrefixAuthRefresh \<and> rq_RefreshCookie rq \<noteq> [] \<or>
         \<not> isPublicPath (rq_Path rq) \<and> rq_SessionCookie rq \<noteq> []"
  shows "rq_CSRFHeader rq \<noteq> [] \<and> rq_CSRFHeader rq = rq_CSRFCookie rq"
  using assms
  by (auto simp: VerifyCSRF_def requiresCSRF_def isPublicPath_def split: if_splits)

definition post_request :: Request where
  "post_request = \<lparr>rq_Path = ''/api/v1/alerts/7'', rq_Method = ''POST'', rq_SessionCookie = ''jwt'',
     rq_RefreshCookie = [], rq_CSRFCookie = ''x1'', rq_Authorization = [], rq_CSRFHeader = ''x1'',
     rq_Origin = [], rq_UserAgent = [], rq_ClientIP = [], rq_ContentLength = 0, rq_Body = []\<rparr>"

theorem csrf_enforced_witness:
  "VerifyCSRF post_request = Pass \<and> VerifyCSRF (post_request\<lparr>rq_CSRFHeader := ''x2''\<rparr>) = CSRFInvalid \<and>
   rq_CSRFHeader post_request = rq_CSRFCookie post_request"
proof -
  have p: "VerifyCSRF post_request = Pass" "\<not> safe_method (rq_Method post_request)"
    "isAPIPath (rq_Path post_request)"
    "\<not> isPublicPath (rq_Path post_request) \<and> rq_SessionCookie post_request \<noteq> []"
    "VerifyCSRF (post_request\<lparr>rq_CSRFHeader := ''x2''\<rparr>) = CSRFInvalid" by code_simp+
  with csrf_enforced [OF p(1-3)] show ?thesis by blast
qed

text \<open>The right to delete clusters is not tied to a cluster.  With \<^verbatim>\<open>deleteClusters\<close> in
  the rules for one cluster and an observer grant on one account of another cluster, a user
  who may not even read that other cluster deletes it: the bare cluster path counts as an
  account resource in the middleware, and the handler looks at the flag only.\<close>

theorem delete_cluster_by_account_grant:
  "\<not> CanAccessCluster east_operator west_id \<and> \<not> CanWriteCluster east_operator west_id \<and>
   VerifyRBAC (Some east_operator) (clusters_prefix @ west_id) ''DELETE'' = Pass \<and>
   DeleteCluster [\<lparr>cl_ID = east_id, cl_IsDefault = True\<rparr>, \<lparr>cl_ID = west_id, cl_IsDefault = False\<rparr>]
     (Some east_operator) west_id = (None, [\<lparr>cl_ID = east_id, cl_IsDefault = True\<rparr>])"
  by code_simp

text \<open>The audit log does not use the canonical identifier.  For a request that spells the
  cluster in upper case, the access check and the handler use the lower-case identifier, but
  the audit entry is filed under the spelling of the path, where the filter by cluster does
  not find it.\<close>

theorem audit_entry_not_canonical:
  "clusterIDFromPath (clusters_prefix @ ToUpper east_id @ ''/streams'') = east_id \<and>
   ClusterID (ToUpper east_id) = east_id \<and>
   audit_ClusterIDFromPath (clusters_prefix @ ToUpper east_id @ ''/streams'') \<noteq> east_id \<and>
   \<not> filter_selects \<lparr>af_ClusterID = east_id, af_ClusterIDs = None\<rparr>
       (audit_ClusterIDFromPath (clusters_prefix @ ToUpper east_id @ ''/streams''))"
  by code_simp

end
