(* ===== verification/Nats_Accounts.thy ===== *)
theory Nats_Accounts
  imports Users Subjects
begin

text \<open>
  NATS accounts (\<^verbatim>\<open>internal/repo/nats_account.go\<close>, \<^verbatim>\<open>nats_jwt.go\<close>, \<^verbatim>\<open>signing_groups.go\<close>,
  \<^verbatim>\<open>subject_permissions.go\<close>): the NATS users of an account with their keys and tokens, the
  signing groups whose permissions they inherit, exports, and the view that lists who may
  publish or subscribe to a subject.

  The state holds the tables \<^verbatim>\<open>nats_account_users\<close>, \<^verbatim>\<open>nats_signing_groups\<close> and
  \<^verbatim>\<open>nats_account_exports\<close>, the ids of the clusters, and the database of users with the access
  grants.  The 18 settings that the code repeats in \<^verbatim>\<open>NATSAccountUser\<close>,
  \<^verbatim>\<open>NATSAccountUserCreate\<close> and \<^verbatim>\<open>NATSAccountUserUpdate\<close> are one record here; a nil list and an
  empty one are not distinguished, so \<^verbatim>\<open>nonNilStrings\<close> is the identity.  A column of type
  UUID compares with a parameter without regard to letter case (\<open>same_uuid\<close>).

  Keys and tokens come from the libraries \<^verbatim>\<open>nkeys\<close> and \<^verbatim>\<open>jwt\<close>: the record \<open>NatsLib\<close> has
  the functions the code calls, with the encryption of the store.  Generated ids and key
  pairs and the clock are arguments.  Failures of the connection are modelled where the code
  treats them as an answer: in the lookup of the signing group while a token is minted.
\<close>

section \<open>Data\<close>

record NATSUserTimeRange =
  tr_Start :: string
  tr_End :: string

record NATSUserConfig =
  nc_SigningGroup :: string
  nc_Tags :: "string list"
  nc_PubAllow :: "string list"
  nc_PubDeny :: "string list"
  nc_SubAllow :: "string list"
  nc_SubDeny :: "string list"
  nc_AllowedConnectionTypes :: "string list"
  nc_SrcCIDRs :: "string list"
  nc_TimesLocale :: string
  nc_TimeRanges :: "NATSUserTimeRange list"
  nc_MaxSubs :: int
  nc_MaxPayload :: int
  nc_MaxData :: int
  nc_JWTLifetimeNs :: int
  nc_RespMaxMsgs :: int
  nc_RespTTLNs :: int
  nc_BearerToken :: bool
  nc_ProxyRequired :: bool

record NATSAccountUser =
  nu_CreatedAt :: gotime
  nu_UpdatedAt :: gotime
  nu_ID :: string
  nu_ClusterID :: string
  nu_AccountName :: string
  nu_Name :: string
  nu_PublicKey :: string
  nu_AssignedUserID :: string
  nu_Config :: NATSUserConfig
  nu_HasJWT :: bool
  nu_JWTIssued :: bool

record NATSAccountUserCreate =
  nk_ClusterID :: string
  nk_AccountName :: string
  nk_Name :: string
  nk_Config :: NATSUserConfig

type_synonym NATSAccountUserUpdate = NATSUserConfig

record NATSAccountUserCreds =
  cr_User :: NATSAccountUser
  cr_Seed :: string
  cr_JWT :: string
  cr_Cred :: string

record SigningGroup =
  sg_CreatedAt :: gotime
  sg_UpdatedAt :: gotime
  sg_ID :: string
  sg_ClusterID :: string
  sg_AccountName :: string
  sg_Name :: string
  sg_PubAllow :: "string list"
  sg_PubDeny :: "string list"
  sg_SubAllow :: "string list"
  sg_SubDeny :: "string list"
  sg_MaxData :: int
  sg_MaxPayload :: int
  sg_MaxSubs :: int
  sg_Scoped :: bool

record SigningGroupUpdate =
  su_PubAllow :: "string list"
  su_PubDeny :: "string list"
  su_SubAllow :: "string list"
  su_SubDeny :: "string list"
  su_MaxData :: int
  su_MaxPayload :: int
  su_MaxSubs :: int
  su_Scoped :: bool

record SigningGroupCreate = SigningGroupUpdate +
  sk_ClusterID :: string
  sk_AccountName :: string
  sk_Name :: string

record NATSAccountExport =
  ex_CreatedAt :: gotime
  ex_UpdatedAt :: gotime
  ex_ID :: string
  ex_ClusterID :: string
  ex_AccountName :: string
  ex_Kind :: string
  ex_Name :: string
  ex_Subject :: string
  ex_Description :: string

record SubjectPermissionEntry =
  sp_UserID :: string
  sp_Name :: string
  sp_SigningGroup :: string
  sp_AssignedUserID :: string
  sp_Source :: string
  sp_MatchedPattern :: string

record SubjectPermissionsResult =
  sr_Subject :: string
  sr_Publish :: "SubjectPermissionEntry list"
  sr_Subscribe :: "SubjectPermissionEntry list"
  sr_QueueSubscribe :: "SubjectPermissionEntry list"

text \<open>A row of \<^verbatim>\<open>nats_account_users\<close> has the encrypted seed and the token besides what is
  scanned into the user.\<close>

record NATSUserRow =
  nr_User :: NATSAccountUser
  nr_SeedEncrypted :: string
  nr_JWT :: string

record AccountDB =
  ad_people :: UserDB
  ad_clusters :: "string list"
  ad_users :: "NATSUserRow list"
  ad_groups :: "SigningGroup list"
  ad_exports :: "NATSAccountExport list"

text \<open>The claims of a user token, as far as the code sets them.\<close>

record UserClaims =
  cl_Subject :: string
  cl_Name :: string
  cl_Tags :: "string list"
  cl_PubAllow :: "string list"
  cl_PubDeny :: "string list"
  cl_SubAllow :: "string list"
  cl_SubDeny :: "string list"
  cl_Data :: int
  cl_Payload :: int
  cl_Subs :: int
  cl_Resp :: "(int \<times> int) option"
  cl_BearerToken :: bool
  cl_ProxyRequired :: bool
  cl_AllowedConnectionTypes :: "string list"
  cl_Src :: "string list"
  cl_Locale :: string
  cl_Times :: "NATSUserTimeRange list"
  cl_Expires :: int

record NatsLib =
  nl_FromSeed :: "string \<Rightarrow> domain_error option"
  nl_PublicKey :: "string \<Rightarrow> (domain_error, string) result"
  nl_NewUserClaims :: "string \<Rightarrow> UserClaims"
  nl_AddTag :: "string \<Rightarrow> string list \<Rightarrow> string list"
  nl_AddType :: "string \<Rightarrow> string list \<Rightarrow> string list"
  nl_AddSrc :: "string \<Rightarrow> string list \<Rightarrow> string list"
  nl_Encode :: "UserClaims \<Rightarrow> string \<Rightarrow> (domain_error, string) result"
    \<comment> \<open>signs with the key of the account seed\<close>
  nl_Encrypt :: "string \<Rightarrow> (domain_error, string) result"
  nl_Decrypt :: "string \<Rightarrow> (domain_error, string) result"

section \<open>Minting of tokens\<close>

definition user_has_perms :: "NATSUserConfig \<Rightarrow> bool" where
  "user_has_perms c \<longleftrightarrow> length (nc_PubAllow c) > 0 \<or> length (nc_PubDeny c) > 0 \<or>
     length (nc_SubAllow c) > 0 \<or> length (nc_SubDeny c) > 0"

text \<open>The permissions: those of the user, else those of a scoped group that is found.  An
  error of the lookup is dropped.\<close>

definition claim_permissions ::
  "NATSUserConfig \<Rightarrow> (domain_error, SigningGroup) result \<Rightarrow> UserClaims \<Rightarrow> UserClaims" where
  "claim_permissions c lookup claims =
     (if user_has_perms c then
        claims\<lparr>cl_PubAllow := nc_PubAllow c, cl_PubDeny := nc_PubDeny c,
               cl_SubAllow := nc_SubAllow c, cl_SubDeny := nc_SubDeny c\<rparr>
      else (case lookup of
          Inl gerr \<Rightarrow> claims
        | Inr g \<Rightarrow>
            if sg_Scoped g then
              claims\<lparr>cl_PubAllow := sg_PubAllow g, cl_PubDeny := sg_PubDeny g,
                     cl_SubAllow := sg_SubAllow g, cl_SubDeny := sg_SubDeny g,
                     cl_Data := (if sg_MaxData g \<ge> 0 then sg_MaxData g else cl_Data claims),
                     cl_Payload := (if sg_MaxPayload g \<ge> 0 then sg_MaxPayload g else cl_Payload claims),
                     cl_Subs := (if sg_MaxSubs g \<ge> 0 then sg_MaxSubs g else cl_Subs claims)\<rparr>
            else claims))"

definition add_all :: "(string \<Rightarrow> string list \<Rightarrow> string list) \<Rightarrow> string list \<Rightarrow> string list \<Rightarrow> string list" where
  "add_all add items l = fold (\<lambda>x l. if \<not> IsEmpty x then add x l else l) items l"

definition claim_times :: "NATSUserTimeRange list \<Rightarrow> UserClaims \<Rightarrow> UserClaims" where
  "claim_times ranges claims =
     (if length ranges > 0 then
        claims\<lparr>cl_Times := filter (\<lambda>tr. \<not> (IsEmpty (tr_Start tr) \<and> IsEmpty (tr_End tr))) ranges\<rparr>
      else claims)"

definition claim_limits :: "NATSUserConfig \<Rightarrow> gotime \<Rightarrow> UserClaims \<Rightarrow> UserClaims" where
  "claim_limits c now claims =
     claims\<lparr>cl_Payload := (if nc_MaxPayload c \<ge> 0 then nc_MaxPayload c else cl_Payload claims),
            cl_Subs := (if nc_MaxSubs c \<ge> 0 then nc_MaxSubs c else cl_Subs claims),
            cl_Data := (if nc_MaxData c \<ge> 0 then nc_MaxData c else cl_Data claims),
            cl_Expires := (if nc_JWTLifetimeNs c > 0 then (now + nc_JWTLifetimeNs c) div 1000000000
                           else cl_Expires claims)\<rparr>"

definition user_claims ::
  "NatsLib \<Rightarrow> gotime \<Rightarrow> (domain_error, SigningGroup) result \<Rightarrow> NATSAccountUser \<Rightarrow> string \<Rightarrow> UserClaims" where
  "user_claims lib now lookup user upub =
     (let c = nu_Config user;
          claims = nl_NewUserClaims lib upub;
          claims = claims\<lparr>cl_Name := nu_Name user,
                          cl_Tags := add_all (nl_AddTag lib) (nc_Tags c) (cl_Tags claims)\<rparr>;
          claims = claim_permissions c lookup claims;
          claims = (if nc_RespMaxMsgs c > 0 \<or> nc_RespTTLNs c > 0
                    then claims\<lparr>cl_Resp := Some (nc_RespMaxMsgs c, nc_RespTTLNs c)\<rparr> else claims);
          claims = claims\<lparr>cl_BearerToken := nc_BearerToken c, cl_ProxyRequired := nc_ProxyRequired c,
                          cl_AllowedConnectionTypes := add_all (nl_AddType lib)
                            (nc_AllowedConnectionTypes c) (cl_AllowedConnectionTypes claims),
                          cl_Src := add_all (nl_AddSrc lib) (nc_SrcCIDRs c) (cl_Src claims),
                          cl_Locale := nc_TimesLocale c\<rparr>;
          claims = claim_times (nc_TimeRanges c) claims
      in claim_limits c now claims)"

definition mintUserJWT ::
  "NatsLib \<Rightarrow> gotime \<Rightarrow> (domain_error, SigningGroup) result \<Rightarrow> NATSAccountUser \<Rightarrow> string \<Rightarrow> string \<Rightarrow>
   (domain_error, string) result" where
  "mintUserJWT lib now lookup user userSeed accountSeed =
     (case nl_FromSeed lib userSeed of
        Some e \<Rightarrow> Inl e
      | None \<Rightarrow>
          (case nl_PublicKey lib userSeed of
             Inl e \<Rightarrow> Inl e
           | Inr upub \<Rightarrow>
               (case nl_FromSeed lib accountSeed of
                  Some e \<Rightarrow> Inl e
                | None \<Rightarrow> nl_Encode lib (user_claims lib now lookup user upub) accountSeed)))"

section \<open>Signing groups\<close>

definition same_uuid :: "string \<Rightarrow> string \<Rightarrow> bool" where
  "same_uuid a b \<longleftrightarrow> ToLower a = ToLower b"

definition in_account :: "string \<Rightarrow> string \<Rightarrow> string \<Rightarrow> string \<Rightarrow> bool" where
  "in_account clusterID accountName c a \<longleftrightarrow> same_uuid c clusterID \<and> a = accountName"

definition group_in :: "string \<Rightarrow> string \<Rightarrow> SigningGroup \<Rightarrow> bool" where
  "group_in clusterID accountName g \<longleftrightarrow> in_account clusterID accountName (sg_ClusterID g) (sg_AccountName g)"

definition default_account :: "string \<Rightarrow> string" where
  "default_account accountName = (if IsEmpty accountName then ''Default'' else accountName)"

definition err_cluster :: domain_error where
  "err_cluster = ErrOther ''violates foreign key constraint on cluster_id''"

definition cluster_exists :: "AccountDB \<Rightarrow> string \<Rightarrow> bool" where
  "cluster_exists db clusterID \<longleftrightarrow> list_ex (\<lambda>c. same_uuid c clusterID) (ad_clusters db)"

definition EnsureDefaultSigningGroup ::
  "AccountDB \<Rightarrow> string \<Rightarrow> gotime \<Rightarrow> string \<Rightarrow> string \<Rightarrow> (domain_error, AccountDB) result" where
  "EnsureDefaultSigningGroup db newID now clusterID accountName =
     (let accountName = default_account accountName
      in if list_ex (\<lambda>g. group_in clusterID accountName g \<and> sg_Name g = ''Default'') (ad_groups db)
         then Inr db
         else if \<not> cluster_exists db clusterID then Inl err_cluster
         else Inr (db\<lparr>ad_groups := ad_groups db @
           [\<lparr>sg_CreatedAt = now, sg_UpdatedAt = now, sg_ID = newID, sg_ClusterID = ToLower clusterID,
             sg_AccountName = accountName, sg_Name = ''Default'', sg_PubAllow = [], sg_PubDeny = [],
             sg_SubAllow = [], sg_SubDeny = [], sg_MaxData = -1, sg_MaxPayload = -1, sg_MaxSubs = -1,
             sg_Scoped = False\<rparr>]\<rparr>))"

definition ListSigningGroups ::
  "AccountDB \<Rightarrow> string \<Rightarrow> gotime \<Rightarrow> string \<Rightarrow> string \<Rightarrow>
   (domain_error, SigningGroup list) result \<times> AccountDB" where
  "ListSigningGroups db newID now clusterID accountName =
     (case EnsureDefaultSigningGroup db newID now clusterID accountName of
        Inl e \<Rightarrow> (Inl e, db)
      | Inr db' \<Rightarrow> (Inr (filter (group_in clusterID accountName) (ad_groups db')), db'))"

definition unlimited :: "int \<Rightarrow> int" where
  "unlimited n = (if n = 0 then -1 else n)"

definition CreateSigningGroup ::
  "AccountDB \<Rightarrow> string \<Rightarrow> gotime \<Rightarrow> SigningGroupCreate \<Rightarrow>
   (domain_error, SigningGroup) result \<times> AccountDB" where
  "CreateSigningGroup db newID now i =
     (let accountName = default_account (sk_AccountName i)
      in if IsEmpty (sk_Name i) then (Inl (ErrOther ''name required''), db)
         else if list_ex (\<lambda>g. group_in (sk_ClusterID i) accountName g \<and> sg_Name g = sk_Name i) (ad_groups db)
         then (Inl (ErrOther ''violates unique constraint''), db)
         else if \<not> cluster_exists db (sk_ClusterID i) then (Inl err_cluster, db)
         else
           (let g = \<lparr>sg_CreatedAt = now, sg_UpdatedAt = now, sg_ID = newID,
                     sg_ClusterID = sk_ClusterID i, sg_AccountName = accountName, sg_Name = sk_Name i,
                     sg_PubAllow = su_PubAllow i, sg_PubDeny = su_PubDeny i,
                     sg_SubAllow = su_SubAllow i, sg_SubDeny = su_SubDeny i,
                     sg_MaxData = unlimited (su_MaxData i), sg_MaxPayload = unlimited (su_MaxPayload i),
                     sg_MaxSubs = unlimited (su_MaxSubs i), sg_Scoped = su_Scoped i\<rparr>
            in (Inr g, db\<lparr>ad_groups := ad_groups db @ [g\<lparr>sg_ClusterID := ToLower (sk_ClusterID i)\<rparr>]\<rparr>)))"

definition GetSigningGroup :: "AccountDB \<Rightarrow> string \<Rightarrow> string \<Rightarrow> string \<Rightarrow> (domain_error, SigningGroup) result" where
  "GetSigningGroup db clusterID accountName name =
     (case find (\<lambda>g. group_in clusterID accountName g \<and> sg_Name g = name) (ad_groups db) of
        None \<Rightarrow> Inl ErrNotFound
      | Some g \<Rightarrow> Inr g)"

definition is_group :: "string \<Rightarrow> string \<Rightarrow> string \<Rightarrow> SigningGroup \<Rightarrow> bool" where
  "is_group clusterID accountName groupID g \<longleftrightarrow>
     group_in clusterID accountName g \<and> same_uuid (sg_ID g) groupID"

definition set_group :: "SigningGroupUpdate \<Rightarrow> gotime \<Rightarrow> SigningGroup \<Rightarrow> SigningGroup" where
  "set_group i now g =
     g\<lparr>sg_Scoped := su_Scoped i, sg_PubAllow := su_PubAllow i, sg_PubDeny := su_PubDeny i,
       sg_SubAllow := su_SubAllow i, sg_SubDeny := su_SubDeny i,
       sg_MaxData := unlimited (su_MaxData i), sg_MaxPayload := unlimited (su_MaxPayload i),
       sg_MaxSubs := unlimited (su_MaxSubs i), sg_UpdatedAt := now\<rparr>"

definition UpdateSigningGroup ::
  "AccountDB \<Rightarrow> gotime \<Rightarrow> string \<Rightarrow> string \<Rightarrow> string \<Rightarrow> SigningGroupUpdate \<Rightarrow>
   (domain_error, SigningGroup) result \<times> AccountDB" where
  "UpdateSigningGroup db now clusterID accountName groupID i =
     (let P = is_group clusterID accountName groupID;
          db' = db\<lparr>ad_groups := map (\<lambda>g. if P g then set_group i now g else g) (ad_groups db)\<rparr>
      in if \<not> list_ex P (ad_groups db) then (Inl ErrNotFound, db)
         else (case find P (ad_groups db') of
             None \<Rightarrow> (Inl (ErrOther ''no rows in result set''), db')
           | Some g \<Rightarrow> (Inr g, db')))"

definition nats_user_in :: "string \<Rightarrow> string \<Rightarrow> NATSUserRow \<Rightarrow> bool" where
  "nats_user_in clusterID accountName r \<longleftrightarrow>
     in_account clusterID accountName (nu_ClusterID (nr_User r)) (nu_AccountName (nr_User r))"

definition group_of_row :: "NATSUserRow \<Rightarrow> string" where
  "group_of_row r = nc_SigningGroup (nu_Config (nr_User r))"

definition DeleteSigningGroup ::
  "AccountDB \<Rightarrow> string \<Rightarrow> string \<Rightarrow> string \<Rightarrow> (domain_error, unit) result \<times> AccountDB" where
  "DeleteSigningGroup db clusterID accountName groupID =
     (case find (is_group clusterID accountName groupID) (ad_groups db) of
        None \<Rightarrow> (Inl ErrNotFound, db)
      | Some g \<Rightarrow>
          if sg_Name g = ''Default'' then (Inl ErrSigningGroupProtected, db)
          else if list_ex (\<lambda>r. nats_user_in clusterID accountName r \<and> group_of_row r = sg_Name g) (ad_users db)
          then (Inl ErrSigningGroupInUse, db)
          else
            (let P = (\<lambda>g. is_group clusterID accountName groupID g \<and> sg_Name g \<noteq> ''Default'')
             in if \<not> list_ex P (ad_groups db) then (Inl ErrNotFound, db)
                else (Inr (), db\<lparr>ad_groups := filter (\<lambda>g. \<not> P g) (ad_groups db)\<rparr>)))"

section \<open>NATS users\<close>

definition scanNATSAccountUser :: "NATSUserRow \<Rightarrow> NATSAccountUser" where
  "scanNATSAccountUser r =
     (nr_User r)\<lparr>nu_HasJWT := \<not> IsEmpty (nr_JWT r), nu_JWTIssued := \<not> IsEmpty (nr_JWT r)\<rparr>"

definition normalize_limits :: "NATSUserConfig \<Rightarrow> NATSUserConfig" where
  "normalize_limits c =
     c\<lparr>nc_MaxSubs := unlimited (nc_MaxSubs c), nc_MaxPayload := unlimited (nc_MaxPayload c),
       nc_MaxData := unlimited (nc_MaxData c)\<rparr>"

definition normalizeUserCreateLimits :: "NATSAccountUserCreate \<Rightarrow> NATSAccountUserCreate" where
  "normalizeUserCreateLimits i = i\<lparr>nk_Config := normalize_limits (nk_Config i)\<rparr>"

definition normalizeUserUpdateLimits :: "NATSAccountUserUpdate \<Rightarrow> NATSAccountUserUpdate" where
  "normalizeUserUpdateLimits i = normalize_limits i"

definition ListNATSAccountUsers :: "AccountDB \<Rightarrow> string \<Rightarrow> string \<Rightarrow> NATSAccountUser list" where
  "ListNATSAccountUsers db clusterID accountName =
     map scanNATSAccountUser (filter (nats_user_in clusterID accountName) (ad_users db))"

definition formatCreds :: "string \<Rightarrow> string \<Rightarrow> string" where
  "formatCreds userJWT seed =
     (if IsEmpty userJWT then
        ''-----BEGIN NATS USER SEED-----'' @ [CHR 0x0A] @ seed @ [CHR 0x0A] @
        ''-----END NATS USER SEED-----'' @ [CHR 0x0A]
      else
        ''-----BEGIN NATS USER JWT-----'' @ [CHR 0x0A] @ userJWT @ [CHR 0x0A] @
        ''------END NATS USER JWT------'' @ [CHR 0x0A, CHR 0x0A] @
        ''-----BEGIN USER NKEY SEED-----'' @ [CHR 0x0A] @ seed @ [CHR 0x0A] @
        ''------END USER NKEY SEED------'' @ [CHR 0x0A])"

definition is_nats_user :: "string \<Rightarrow> string \<Rightarrow> string \<Rightarrow> NATSUserRow \<Rightarrow> bool" where
  "is_nats_user clusterID accountName userID r \<longleftrightarrow>
     nats_user_in clusterID accountName r \<and> same_uuid (nu_ID (nr_User r)) userID"

text \<open>What is generated: the id of the row, the public key and the seed of \<^verbatim>\<open>nkeys.CreateUser\<close>,
  the id of a default signing group.\<close>

record fresh =
  fr_ID :: string
  fr_Pub :: string
  fr_Seed :: string
  fr_GroupID :: string

definition mint_or_empty ::
  "NatsLib \<Rightarrow> AccountDB \<Rightarrow> gotime \<Rightarrow> string \<Rightarrow> string \<Rightarrow> NATSAccountUser \<Rightarrow> string \<Rightarrow> string \<Rightarrow>
   (domain_error, string) result" where
  "mint_or_empty lib db now clusterID accountName user seed accountSeed =
     (if \<not> IsEmpty accountSeed
      then mintUserJWT lib now
             (GetSigningGroup db clusterID accountName (nc_SigningGroup (nu_Config user)))
             user seed accountSeed
      else Inr [])"

definition with_default_group :: "NATSUserConfig \<Rightarrow> NATSUserConfig" where
  "with_default_group c =
     (if IsEmpty (nc_SigningGroup c) then c\<lparr>nc_SigningGroup := ''Default''\<rparr> else c)"

definition CreateNATSAccountUserWithSeed ::
  "NatsLib \<Rightarrow> AccountDB \<Rightarrow> fresh \<Rightarrow> gotime \<Rightarrow> NATSAccountUserCreate \<Rightarrow> string \<Rightarrow>
   (domain_error, NATSAccountUserCreds) result \<times> AccountDB" where
  "CreateNATSAccountUserWithSeed lib db fr now i accountSeed =
     (let i = i\<lparr>nk_Config := with_default_group (nk_Config i),
                nk_AccountName := default_account (nk_AccountName i)\<rparr>;
          i = normalizeUserCreateLimits i
      in case EnsureDefaultSigningGroup db (fr_GroupID fr) now (nk_ClusterID i) (nk_AccountName i) of
           Inl e \<Rightarrow> (Inl e, db)
         | Inr db \<Rightarrow>
             (case nl_Encrypt lib (fr_Seed fr) of
                Inl e \<Rightarrow> (Inl e, db)
              | Inr encSeed \<Rightarrow>
                  (let user = \<lparr>nu_CreatedAt = 0, nu_UpdatedAt = 0, nu_ID = [], nu_ClusterID = nk_ClusterID i,
                               nu_AccountName = nk_AccountName i, nu_Name = nk_Name i, nu_PublicKey = [],
                               nu_AssignedUserID = [], nu_Config = nk_Config i, nu_HasJWT = False,
                               nu_JWTIssued = False\<rparr>
                   in case mint_or_empty lib db now (nk_ClusterID i) (nk_AccountName i) user (fr_Seed fr) accountSeed of
                        Inl e \<Rightarrow> (Inl e, db)
                      | Inr userJWT \<Rightarrow>
                          if list_ex (\<lambda>r. nats_user_in (nk_ClusterID i) (nk_AccountName i) r \<and>
                               nu_Name (nr_User r) = nk_Name i) (ad_users db)
                          then (Inl (ErrOther ''violates unique constraint''), db)
                          else if \<not> cluster_exists db (nk_ClusterID i) then (Inl err_cluster, db)
                          else
                            (let row = \<lparr>nr_User = user\<lparr>nu_ID := fr_ID fr, nu_ClusterID := ToLower (nk_ClusterID i),
                                          nu_PublicKey := fr_Pub fr, nu_CreatedAt := now, nu_UpdatedAt := now\<rparr>,
                                        nr_SeedEncrypted = encSeed, nr_JWT = userJWT\<rparr>;
                                 user = user\<lparr>nu_ID := fr_ID fr, nu_PublicKey := fr_Pub fr,
                                             nu_HasJWT := \<not> IsEmpty userJWT, nu_JWTIssued := \<not> IsEmpty userJWT,
                                             nu_CreatedAt := now, nu_UpdatedAt := now\<rparr>
                             in (Inr \<lparr>cr_User = user, cr_Seed = fr_Seed fr, cr_JWT = userJWT,
                                      cr_Cred = formatCreds userJWT (fr_Seed fr)\<rparr>,
                                 db\<lparr>ad_users := ad_users db @ [row]\<rparr>)))))"

definition domainAccountNATSUserKey :: "string \<Rightarrow> string \<Rightarrow> string \<Rightarrow> string" where
  "domainAccountNATSUserKey clusterID accountName natsUserID =
     clusterID @ '':'' @ accountName @ '':'' @ natsUserID"

definition set_grants :: "(AccessGrant list \<Rightarrow> AccessGrant list) \<Rightarrow> AccountDB \<Rightarrow> AccountDB" where
  "set_grants f db = db\<lparr>ad_people := (ad_people db)\<lparr>db_grants := f (db_grants (ad_people db))\<rparr>\<rparr>"

text \<open>The statements run in a transaction: on an error nothing of it remains.\<close>

definition DeleteNATSAccountUser ::
  "AccountDB \<Rightarrow> string \<Rightarrow> string \<Rightarrow> string \<Rightarrow> (domain_error, string list) result \<times> AccountDB" where
  "DeleteNATSAccountUser db clusterID accountName userID =
     (let resourceKey = domainAccountNATSUserKey clusterID accountName userID;
          P = (\<lambda>g. g_ResourceType g = ResourceNATSUser \<and> g_ResourceKey g = resourceKey);
          affected = rev (remdups (rev (map g_UserID (filter P (db_grants (ad_people db))))));
          db' = set_grants (filter (\<lambda>g. \<not> P g)) db
      in if \<not> list_ex (is_nats_user clusterID accountName userID) (ad_users db) then (Inl ErrNotFound, db)
         else (Inr affected,
           db'\<lparr>ad_users := filter (\<lambda>r. \<not> is_nats_user clusterID accountName userID r) (ad_users db)\<rparr>))"

definition GetNATSAccountUser ::
  "AccountDB \<Rightarrow> string \<Rightarrow> string \<Rightarrow> string \<Rightarrow> (domain_error, NATSAccountUser) result" where
  "GetNATSAccountUser db clusterID accountName userID =
     (case find (is_nats_user clusterID accountName userID) (ad_users db) of
        None \<Rightarrow> Inl ErrNotFound
      | Some r \<Rightarrow> Inr (scanNATSAccountUser r))"

definition GetNATSAccountUserCreds ::
  "NatsLib \<Rightarrow> AccountDB \<Rightarrow> string \<Rightarrow> string \<Rightarrow> string \<Rightarrow> (domain_error, NATSAccountUserCreds) result" where
  "GetNATSAccountUserCreds lib db clusterID accountName userID =
     (case find (is_nats_user clusterID accountName userID) (ad_users db) of
        None \<Rightarrow> Inl ErrNotFound
      | Some r \<Rightarrow>
          (case nl_Decrypt lib (nr_SeedEncrypted r) of
             Inl e \<Rightarrow> Inl e
           | Inr seed \<Rightarrow> Inr \<lparr>cr_User = scanNATSAccountUser r, cr_Seed = seed, cr_JWT = nr_JWT r,
                             cr_Cred = formatCreds (nr_JWT r) seed\<rparr>))"

definition update_nats_user ::
  "string \<Rightarrow> string \<Rightarrow> string \<Rightarrow> (NATSUserRow \<Rightarrow> NATSUserRow) \<Rightarrow> AccountDB \<Rightarrow> AccountDB" where
  "update_nats_user clusterID accountName userID f db =
     db\<lparr>ad_users := map (\<lambda>r. if is_nats_user clusterID accountName userID r then f r else r) (ad_users db)\<rparr>"

definition set_config :: "NATSUserConfig \<Rightarrow> gotime \<Rightarrow> NATSUserRow \<Rightarrow> NATSUserRow" where
  "set_config c now r = r\<lparr>nr_User := (nr_User r)\<lparr>nu_Config := c, nu_UpdatedAt := now\<rparr>\<rparr>"

definition set_jwt :: "string \<Rightarrow> gotime \<Rightarrow> NATSUserRow \<Rightarrow> NATSUserRow" where
  "set_jwt userJWT now r = r\<lparr>nr_JWT := userJWT, nr_User := (nr_User r)\<lparr>nu_UpdatedAt := now\<rparr>\<rparr>"

definition UpdateNATSAccountUser ::
  "NatsLib \<Rightarrow> AccountDB \<Rightarrow> gotime \<Rightarrow> string \<Rightarrow> string \<Rightarrow> string \<Rightarrow> NATSAccountUserUpdate \<Rightarrow> string \<Rightarrow>
   (domain_error, NATSAccountUser) result \<times> AccountDB" where
  "UpdateNATSAccountUser lib db now clusterID accountName userID i accountSeed =
     (let i = normalizeUserUpdateLimits (with_default_group i)
      in case GetNATSAccountUserCreds lib db clusterID accountName userID of
           Inl e \<Rightarrow> (Inl e, db)
         | Inr existing \<Rightarrow>
             (let db = update_nats_user clusterID accountName userID (set_config i now) db
              in case GetNATSAccountUser db clusterID accountName userID of
                   Inl e \<Rightarrow> (Inl e, db)
                 | Inr updated \<Rightarrow>
                     if \<not> IsEmpty accountSeed then
                       (case mint_or_empty lib db now clusterID accountName updated (cr_Seed existing) accountSeed of
                          Inl mintErr \<Rightarrow> (Inl mintErr, db)
                        | Inr userJWT \<Rightarrow>
                            (Inr (updated\<lparr>nu_HasJWT := True, nu_JWTIssued := True, nu_UpdatedAt := now\<rparr>),
                             update_nats_user clusterID accountName userID (set_jwt userJWT now) db))
                     else (Inr updated, db)))"

definition set_keys :: "string \<Rightarrow> string \<Rightarrow> string \<Rightarrow> gotime \<Rightarrow> NATSUserRow \<Rightarrow> NATSUserRow" where
  "set_keys pub encSeed userJWT now r =
     r\<lparr>nr_User := (nr_User r)\<lparr>nu_PublicKey := pub, nu_UpdatedAt := now\<rparr>,
       nr_SeedEncrypted := encSeed, nr_JWT := userJWT\<rparr>"

definition RotateNATSAccountUser ::
  "NatsLib \<Rightarrow> AccountDB \<Rightarrow> fresh \<Rightarrow> gotime \<Rightarrow> string \<Rightarrow> string \<Rightarrow> string \<Rightarrow> string \<Rightarrow>
   (domain_error, NATSAccountUserCreds) result \<times> AccountDB" where
  "RotateNATSAccountUser lib db fr now clusterID accountName userID accountSeed =
     (case GetNATSAccountUser db clusterID accountName userID of
        Inl e \<Rightarrow> (Inl e, db)
      | Inr existing \<Rightarrow>
          (case nl_Encrypt lib (fr_Seed fr) of
             Inl e \<Rightarrow> (Inl e, db)
           | Inr encSeed \<Rightarrow>
               (case mint_or_empty lib db now clusterID accountName existing (fr_Seed fr) accountSeed of
                  Inl e \<Rightarrow> (Inl e, db)
                | Inr userJWT \<Rightarrow>
                    (Inr \<lparr>cr_User = existing\<lparr>nu_PublicKey := fr_Pub fr, nu_HasJWT := \<not> IsEmpty userJWT,
                            nu_JWTIssued := \<not> IsEmpty userJWT, nu_UpdatedAt := now\<rparr>,
                          cr_Seed = fr_Seed fr, cr_JWT = userJWT, cr_Cred = formatCreds userJWT (fr_Seed fr)\<rparr>,
                     update_nats_user clusterID accountName userID
                       (set_keys (fr_Pub fr) encSeed userJWT now) db))))"

definition MintNATSAccountUserJWT ::
  "NatsLib \<Rightarrow> AccountDB \<Rightarrow> gotime \<Rightarrow> string \<Rightarrow> string \<Rightarrow> string \<Rightarrow> string \<Rightarrow>
   (domain_error, NATSAccountUserCreds) result \<times> AccountDB" where
  "MintNATSAccountUserJWT lib db now clusterID accountName userID accountSeed =
     (if IsEmpty accountSeed then (Inl (ErrOther ''NATS_ACCOUNT_SEED is not configured''), db)
      else (case GetNATSAccountUserCreds lib db clusterID accountName userID of
          Inl e \<Rightarrow> (Inl e, db)
        | Inr creds \<Rightarrow>
            (case mint_or_empty lib db now clusterID accountName (cr_User creds) (cr_Seed creds) accountSeed of
               Inl e \<Rightarrow> (Inl e, db)
             | Inr userJWT \<Rightarrow>
                 (Inr (creds\<lparr>cr_JWT := userJWT,
                        cr_User := (cr_User creds)\<lparr>nu_HasJWT := True, nu_JWTIssued := True, nu_UpdatedAt := now\<rparr>,
                        cr_Cred := formatCreds userJWT (cr_Seed creds)\<rparr>),
                  update_nats_user clusterID accountName userID (set_jwt userJWT now) db))))"

text \<open>\<^verbatim>\<open>INSERT ... ON CONFLICT (user_id, resource_type, resource_key) DO UPDATE\<close>.\<close>

definition upsert_grant ::
  "string \<Rightarrow> string \<Rightarrow> string \<Rightarrow> string \<Rightarrow> string \<Rightarrow> gotime \<Rightarrow> AccessGrant list \<Rightarrow> AccessGrant list" where
  "upsert_grant grantID userID resourceType resourceKey role now grants =
     (let P = (\<lambda>g. g_UserID g = userID \<and> g_ResourceType g = resourceType \<and> g_ResourceKey g = resourceKey)
      in if list_ex P grants
         then map (\<lambda>g. if P g then g\<lparr>g_Role := role, g_UpdatedAt := now\<rparr> else g) grants
         else grants @ [\<lparr>g_CreatedAt = now, g_UpdatedAt = now, g_ID = grantID, g_UserID = userID,
                g_ResourceType = resourceType, g_ResourceKey = resourceKey, g_Role = role,
                g_Username = [], g_Email = []\<rparr>])"

definition delete_grant ::
  "string \<Rightarrow> string \<Rightarrow> string \<Rightarrow> AccessGrant list \<Rightarrow> AccessGrant list" where
  "delete_grant userID resourceType resourceKey grants =
     filter (\<lambda>g. \<not> (g_UserID g = userID \<and> g_ResourceType g = resourceType \<and> g_ResourceKey g = resourceKey)) grants"

definition set_assigned :: "string \<Rightarrow> gotime \<Rightarrow> NATSUserRow \<Rightarrow> NATSUserRow" where
  "set_assigned assigned now r =
     r\<lparr>nr_User := (nr_User r)\<lparr>nu_AssignedUserID := assigned, nu_UpdatedAt := now\<rparr>\<rparr>"

definition person_exists :: "AccountDB \<Rightarrow> string \<Rightarrow> bool" where
  "person_exists db userID \<longleftrightarrow> list_ex (\<lambda>r. same_uuid (r_ID r) userID) (db_users (ad_people db))"

definition AssignNATSAccountUserPerson ::
  "AccountDB \<Rightarrow> string \<Rightarrow> gotime \<Rightarrow> string \<Rightarrow> string \<Rightarrow> string \<Rightarrow> string \<Rightarrow>
   (domain_error, NATSAccountUser) result \<times> AccountDB" where
  "AssignNATSAccountUserPerson db grantID now clusterID accountName natsUserID consoleUserID =
     (case GetNATSAccountUser db clusterID accountName natsUserID of
        Inl e \<Rightarrow> (Inl e, db)
      | Inr current \<Rightarrow>
          if \<not> IsEmpty consoleUserID \<and> \<not> person_exists db consoleUserID
          then (Inl (ErrOther ''violates foreign key constraint on assigned_user_id''), db)
          else
            (let resourceKey = domainAccountNATSUserKey clusterID accountName natsUserID;
                 prevAssignee = nu_AssignedUserID current;
                 db = update_nats_user clusterID accountName natsUserID
                        (set_assigned (ToLower consoleUserID) now) db;
                 db = (if \<not> IsEmpty prevAssignee \<and> prevAssignee \<noteq> consoleUserID
                       then set_grants (delete_grant prevAssignee ResourceNATSUser resourceKey) db else db);
                 db = (if \<not> IsEmpty consoleUserID
                       then set_grants (upsert_grant grantID (ToLower consoleUserID) ResourceNATSUser resourceKey
                              GrantCredentialDownloader now) db else db)
             in (GetNATSAccountUser db clusterID accountName natsUserID, db)))"

section \<open>The view of subject permissions\<close>

definition perm_user :: "NATSUserConfig \<Rightarrow> PermUser" where
  "perm_user c = \<lparr>pu_PubAllow = nc_PubAllow c, pu_PubDeny = nc_PubDeny c,
                  pu_SubAllow = nc_SubAllow c, pu_SubDeny = nc_SubDeny c\<rparr>"

definition perm_group :: "SigningGroup \<Rightarrow> PermGroup" where
  "perm_group g = \<lparr>pg_PubAllow = sg_PubAllow g, pg_PubDeny = sg_PubDeny g,
                   pg_SubAllow = sg_SubAllow g, pg_SubDeny = sg_SubDeny g, pg_Scoped = sg_Scoped g\<rparr>"

text \<open>Groups are put into a map by name, where a later one replaces an earlier one.\<close>

definition view_perms :: "SigningGroup list \<Rightarrow> NATSAccountUser \<Rightarrow> EffectiveSubjectPerms" where
  "view_perms groups user =
     (let groupByName = map_of (rev (map (\<lambda>g. (sg_Name g, g)) groups))
      in ResolveEffectivePerms (perm_user (nu_Config user))
           (map_option perm_group (groupByName (nc_SigningGroup (nu_Config user)))))"

definition permission_entries ::
  "string \<Rightarrow> SigningGroup list \<Rightarrow> (EffectiveSubjectPerms \<Rightarrow> string list) \<Rightarrow>
   (EffectiveSubjectPerms \<Rightarrow> string list) \<Rightarrow> NATSAccountUser list \<Rightarrow> SubjectPermissionEntry list" where
  "permission_entries subject groups allow deny users =
     concat (map (\<lambda>user.
       let effective = view_perms groups user;
           (allowed, pattern) = Permitted subject (allow effective) (deny effective)
       in if allowed then
            [\<lparr>sp_UserID = nu_ID user, sp_Name = nu_Name user,
              sp_SigningGroup = nc_SigningGroup (nu_Config user), sp_AssignedUserID = nu_AssignedUserID user,
              sp_Source = ep_Source effective, sp_MatchedPattern = pattern\<rparr>]
          else [])
       users)"

definition ListSubjectPermissions ::
  "AccountDB \<Rightarrow> string \<Rightarrow> gotime \<Rightarrow> string \<Rightarrow> string \<Rightarrow> string \<Rightarrow>
   (domain_error, SubjectPermissionsResult) result \<times> AccountDB" where
  "ListSubjectPermissions db newID now clusterID accountName subject =
     (let subject = TrimSpace subject;
          users = ListNATSAccountUsers db clusterID accountName
      in case ListSigningGroups db newID now clusterID accountName of
           (Inl e, db') \<Rightarrow> (Inl e, db')
         | (Inr groups, db') \<Rightarrow>
             (let subs = permission_entries subject groups ep_SubAllow ep_SubDeny users
              in (Inr \<lparr>sr_Subject = subject,
                       sr_Publish = permission_entries subject groups ep_PubAllow ep_PubDeny users,
                       sr_Subscribe = subs, sr_QueueSubscribe = subs\<rparr>, db')))"

section \<open>Exports\<close>

definition export_in :: "string \<Rightarrow> string \<Rightarrow> NATSAccountExport \<Rightarrow> bool" where
  "export_in clusterID accountName e \<longleftrightarrow> in_account clusterID accountName (ex_ClusterID e) (ex_AccountName e)"

definition is_export :: "string \<Rightarrow> string \<Rightarrow> string \<Rightarrow> NATSAccountExport \<Rightarrow> bool" where
  "is_export clusterID accountName exportID e \<longleftrightarrow>
     export_in clusterID accountName e \<and> same_uuid (ex_ID e) exportID"

definition ListNATSAccountExports :: "AccountDB \<Rightarrow> string \<Rightarrow> string \<Rightarrow> string \<Rightarrow> NATSAccountExport list" where
  "ListNATSAccountExports db clusterID accountName kind =
     filter (\<lambda>e. export_in clusterID accountName e \<and> (kind = [] \<or> ex_Kind e = kind)) (ad_exports db)"

text \<open>The kinds the schema allows, and its key of account, kind and name.\<close>

definition export_kinds :: "string list" where
  "export_kinds = [''service'', ''stream'', ''feed'']"

definition export_clash :: "NATSAccountExport \<Rightarrow> NATSAccountExport \<Rightarrow> bool" where
  "export_clash e e' \<longleftrightarrow> export_in (ex_ClusterID e) (ex_AccountName e) e' \<and>
     ex_Kind e' = ex_Kind e \<and> ex_Name e' = ex_Name e"

definition CreateNATSAccountExport ::
  "AccountDB \<Rightarrow> string \<Rightarrow> gotime \<Rightarrow> string \<Rightarrow> string \<Rightarrow> string \<Rightarrow> string \<Rightarrow> string \<Rightarrow> string \<Rightarrow>
   (domain_error, NATSAccountExport) result \<times> AccountDB" where
  "CreateNATSAccountExport db newID now clusterID accountName kind name subject description =
     (let e = \<lparr>ex_CreatedAt = now, ex_UpdatedAt = now, ex_ID = newID, ex_ClusterID = ToLower clusterID,
               ex_AccountName = default_account accountName, ex_Kind = kind, ex_Name = name,
               ex_Subject = subject, ex_Description = description\<rparr>
      in if kind \<notin> set export_kinds then (Inl (ErrOther ''violates check constraint on kind''), db)
         else if list_ex (export_clash e) (ad_exports db)
         then (Inl (ErrOther ''violates unique constraint''), db)
         else if \<not> cluster_exists db clusterID then (Inl err_cluster, db)
         else (Inr e, db\<lparr>ad_exports := ad_exports db @ [e]\<rparr>))"

definition UpdateNATSAccountExport ::
  "AccountDB \<Rightarrow> gotime \<Rightarrow> string \<Rightarrow> string \<Rightarrow> string \<Rightarrow> string \<Rightarrow> string \<Rightarrow> string \<Rightarrow>
   (domain_error, NATSAccountExport) result \<times> AccountDB" where
  "UpdateNATSAccountExport db now clusterID accountName exportID name subject description =
     (let P = is_export clusterID accountName exportID;
          upd = (\<lambda>e. e\<lparr>ex_Name := name, ex_Subject := subject, ex_Description := description, ex_UpdatedAt := now\<rparr>)
      in case find P (ad_exports db) of
           None \<Rightarrow> (Inl ErrNotFound, db)
         | Some e \<Rightarrow>
             if list_ex (\<lambda>e'. \<not> P e' \<and> export_clash (upd e) e') (ad_exports db)
             then (Inl (ErrOther ''violates unique constraint''), db)
             else (Inr (upd e), db\<lparr>ad_exports := map (\<lambda>e. if P e then upd e else e) (ad_exports db)\<rparr>))"

definition DeleteNATSAccountExport ::
  "AccountDB \<Rightarrow> string \<Rightarrow> string \<Rightarrow> string \<Rightarrow> (domain_error, unit) result \<times> AccountDB" where
  "DeleteNATSAccountExport db clusterID accountName exportID =
     (let P = is_export clusterID accountName exportID
      in if \<not> list_ex P (ad_exports db) then (Inl ErrNotFound, db)
         else (Inr (), db\<lparr>ad_exports := filter (\<lambda>e. \<not> P e) (ad_exports db)\<rparr>))"

section \<open>Specifications\<close>

text \<open>The rule of NATS: a denial wins, and a list of allowed patterns, if there is one, has to
  have a match.\<close>

definition may :: "string list \<Rightarrow> string list \<Rightarrow> string \<Rightarrow> bool" where
  "may allow deny subject \<longleftrightarrow> TrimSpace subject \<noteq> [] \<and> (\<forall>p\<in>set deny. \<not> MatchesPattern subject p) \<and>
     (allow = [] \<or> (\<exists>p\<in>set allow. MatchesPattern subject p))"

text \<open>The keys of the schema.\<close>

definition unique_groups :: "AccountDB \<Rightarrow> bool" where
  "unique_groups db \<longleftrightarrow>
     distinct (map (\<lambda>g. (ToLower (sg_ClusterID g), sg_AccountName g, sg_Name g)) (ad_groups db))"

definition unique_nats_users :: "AccountDB \<Rightarrow> bool" where
  "unique_nats_users db \<longleftrightarrow> distinct (map (\<lambda>r. ToLower (nu_ID (nr_User r))) (ad_users db))"

text \<open>A new token has no permissions set.\<close>

definition new_claims_open :: "NatsLib \<Rightarrow> bool" where
  "new_claims_open lib \<longleftrightarrow> (\<forall>k. let c = nl_NewUserClaims lib k in
     cl_PubAllow c = [] \<and> cl_PubDeny c = [] \<and> cl_SubAllow c = [] \<and> cl_SubDeny c = [])"

section \<open>Lemmas\<close>

lemma Permitted_may: "fst (Permitted subject allow deny) \<longleftrightarrow> may allow deny subject"
  by (simp add: Permitted_iff may_def)

lemma claims_perms:
  "cl_PubAllow (user_claims lib now lookup user k) =
     cl_PubAllow (claim_permissions (nu_Config user) lookup (nl_NewUserClaims lib k))"
  "cl_PubDeny (user_claims lib now lookup user k) =
     cl_PubDeny (claim_permissions (nu_Config user) lookup (nl_NewUserClaims lib k))"
  "cl_SubAllow (user_claims lib now lookup user k) =
     cl_SubAllow (claim_permissions (nu_Config user) lookup (nl_NewUserClaims lib k))"
  "cl_SubDeny (user_claims lib now lookup user k) =
     cl_SubDeny (claim_permissions (nu_Config user) lookup (nl_NewUserClaims lib k))"
  by (cases "user_has_perms (nu_Config user)"; cases lookup;
      simp add: user_claims_def Let_def claim_limits_def claim_times_def claim_permissions_def)+

lemma find_unique_map_of:
  assumes "distinct (map fst kvs)"
  shows "map_of (rev kvs) k = map_option snd (find (\<lambda>kv. fst kv = k) kvs)"
proof -
  have "map_of (rev kvs) j = Some v \<longleftrightarrow> map_of kvs j = Some v" for j v
    using assms by (simp add: map_of_eq_Some_iff rev_map [symmetric])
  then have "map_of (rev kvs) k = map_of kvs k" by (metis not_None_eq)
  moreover have "map_of kvs k = map_option snd (find (\<lambda>kv. fst kv = k) kvs)"
    by (induction kvs) auto
  ultimately show ?thesis by simp
qed

lemma find_filter: "find P (filter Q xs) = find (\<lambda>x. Q x \<and> P x) xs"
  by (induction xs) auto

lemma find_map_comp: "find P (map f xs) = map_option f (find (\<lambda>x. P (f x)) xs)"
  by (induction xs) auto

lemma ensure_cases:
  assumes "EnsureDefaultSigningGroup db newID now c a = Inr db'"
  obtains "db' = db"
  | d where "db' = db\<lparr>ad_groups := ad_groups db @ [d]\<rparr>" "\<not> sg_Scoped d"
      "\<not> (\<exists>g\<in>set (ad_groups db). ToLower (sg_ClusterID g) = ToLower (sg_ClusterID d) \<and>
           sg_AccountName g = sg_AccountName d \<and> sg_Name g = sg_Name d)"
  using assms
  by (fastforce simp: EnsureDefaultSigningGroup_def Let_def list_ex_iff group_in_def in_account_def
      same_uuid_def split: if_splits)

lemma ensure_frame:
  assumes "EnsureDefaultSigningGroup db newID now c a = Inr db'"
  shows "ad_users db' = ad_users db" and "ad_people db' = ad_people db"
  using assms by (auto elim!: ensure_cases)

lemma ensure_unique:
  assumes "EnsureDefaultSigningGroup db newID now c a = Inr db'" and "unique_groups db"
  shows "unique_groups db'"
  using assms(1)
proof (cases rule: ensure_cases)
  case (2 d)
  then show ?thesis using assms(2) by (auto simp: unique_groups_def)
qed (use assms(2) in simp)

text \<open>The permissions the signing group contributes: those of a scoped group, or none.\<close>

definition scoped_lookup :: "(domain_error, SigningGroup) result \<Rightarrow> SigningGroup option" where
  "scoped_lookup l = (case l of Inl _ \<Rightarrow> None | Inr g \<Rightarrow> if sg_Scoped g then Some g else None)"

lemma ensure_lookup:
  assumes "EnsureDefaultSigningGroup db newID now c a = Inr db'"
  shows "scoped_lookup (GetSigningGroup db' c' a' n) = scoped_lookup (GetSigningGroup db c' a' n)"
  using assms
proof (cases rule: ensure_cases)
  case (2 d)
  have "find P (xs @ [d]) = (case find P xs of None \<Rightarrow> if P d then Some d else None | Some x \<Rightarrow> Some x)"
    for P xs by (induction xs) auto
  then show ?thesis using 2(1,2)
    by (auto simp: GetSigningGroup_def scoped_lookup_def split: option.splits)
qed simp

lemma group_by_name:
  assumes "unique_groups db"
  shows "map_of (rev (map (\<lambda>g. (sg_Name g, g)) (filter (group_in c a) (ad_groups db)))) n =
    (case GetSigningGroup db c a n of Inl _ \<Rightarrow> None | Inr g \<Rightarrow> Some g)"
proof -
  let ?gs = "filter (group_in c a) (ad_groups db)"
  have "inj_on sg_Name (set ?gs)" "distinct ?gs"
    using assms unfolding unique_groups_def distinct_map inj_on_def
    by (auto simp: group_in_def in_account_def same_uuid_def)
  then have "distinct (map fst (map (\<lambda>g. (sg_Name g, g)) ?gs))" by (simp add: distinct_map comp_def)
  from find_unique_map_of [OF this, of n] show ?thesis
    by (simp add: find_map_comp find_filter GetSigningGroup_def option.map_comp comp_def option.map_ident
        split: option.splits)
qed

lemma resolve_scoped:
  "ResolveEffectivePerms u (map_option perm_group (case l of Inl _ \<Rightarrow> None | Inr g \<Rightarrow> Some g)) =
   ResolveEffectivePerms u (map_option perm_group (scoped_lookup l))"
  by (cases l) (auto simp: ResolveEffectivePerms_def scoped_lookup_def perm_group_def)

text \<open>The permissions of the view are those of a token minted now.\<close>

lemma view_mint:
  fixes user :: NATSAccountUser and k :: string and now :: gotime
  assumes "new_claims_open lib" and "scoped_lookup l' = scoped_lookup l"
  defines "e \<equiv> ResolveEffectivePerms (perm_user (nu_Config user)) (map_option perm_group (scoped_lookup l'))"
    and "cl \<equiv> user_claims lib now l user k"
  shows "ep_PubAllow e = cl_PubAllow cl" "ep_PubDeny e = cl_PubDeny cl"
    "ep_SubAllow e = cl_SubAllow cl" "ep_SubDeny e = cl_SubDeny cl"
proof -
  have "userHasExplicitPerms (perm_user (nu_Config user)) \<longleftrightarrow> user_has_perms (nu_Config user)"
    by (auto simp: userHasExplicitPerms_def perm_user_def user_has_perms_def)
  moreover note new = assms(1) [unfolded new_claims_open_def Let_def, rule_format, of k]
  ultimately show "ep_PubAllow e = cl_PubAllow cl" "ep_PubDeny e = cl_PubDeny cl"
    "ep_SubAllow e = cl_SubAllow cl" "ep_SubDeny e = cl_SubDeny cl"
    unfolding e_def cl_def claims_perms assms(2)
    by (auto simp: ResolveEffectivePerms_def claim_permissions_def scoped_lookup_def perm_user_def
        perm_group_def split: sum.splits if_splits)
qed

lemma entries_ids:
  assumes "inj_on nu_ID (set users)" and "u \<in> set users"
  shows "nu_ID u \<in> sp_UserID ` set (permission_entries subject groups allow deny users) \<longleftrightarrow>
    may (allow (view_perms groups u)) (deny (view_perms groups u)) subject"
proof -
  let ?ok = "\<lambda>v. may (allow (view_perms groups v)) (deny (view_perms groups v)) subject"
  have "map sp_UserID (permission_entries subject groups allow deny users) = map nu_ID (filter ?ok users)"
    by (induction users) (simp_all add: permission_entries_def Let_def case_prod_beta Permitted_may)
  then have ids: "sp_UserID ` set (permission_entries subject groups allow deny users) =
      nu_ID ` {v \<in> set users. ?ok v}"
    by (metis set_filter set_map)
  show ?thesis unfolding ids using assms by (auto dest: inj_onD)
qed

lemma may_trim [simp]: "may allow deny (TrimSpace subject) = may allow deny subject"
  by (simp add: may_def)

lemma scan_simps [simp]:
  "nu_ID (scanNATSAccountUser r) = nu_ID (nr_User r)"
  "nu_Config (scanNATSAccountUser r) = nu_Config (nr_User r)"
  "nu_AssignedUserID (scanNATSAccountUser r) = nu_AssignedUserID (nr_User r)"
  by (simp_all add: scanNATSAccountUser_def)

lemma listed_users_inj:
  assumes "unique_nats_users db"
  shows "inj_on nu_ID (set (ListNATSAccountUsers db c a))"
proof (rule inj_onI)
  fix x y assume "x \<in> set (ListNATSAccountUsers db c a)" "y \<in> set (ListNATSAccountUsers db c a)"
    and eq: "nu_ID x = nu_ID y"
  then obtain r s where rs: "x = scanNATSAccountUser r" "y = scanNATSAccountUser s"
    "r \<in> set (ad_users db)" "s \<in> set (ad_users db)"
    by (auto simp: ListNATSAccountUsers_def)
  have "ToLower (nu_ID (nr_User r)) = ToLower (nu_ID (nr_User s))" using eq rs(1,2) by simp
  with rs(3,4) assms have "r = s"
    unfolding unique_nats_users_def distinct_map inj_on_def by blast
  then show "x = y" using rs(1,2) by simp
qed

lemma view_perms_lookup:
  assumes "unique_groups db"
  shows "view_perms (filter (group_in c a) (ad_groups db)) user =
    ResolveEffectivePerms (perm_user (nu_Config user))
      (map_option perm_group (scoped_lookup (GetSigningGroup db c a (nc_SigningGroup (nu_Config user)))))"
  by (simp add: view_perms_def group_by_name [OF assms] resolve_scoped)

lemma find_same:
  assumes "\<And>r. P r \<Longrightarrow> P (f r)"
  shows "find P (map (\<lambda>r. if P r then f r else r) xs) = map_option f (find P xs)"
  using assms by (induction xs) auto

lemma is_nats_user_update [simp]:
  "is_nats_user c a uid (set_config cf now r) = is_nats_user c a uid r"
  "is_nats_user c a uid (set_jwt j now r) = is_nats_user c a uid r"
  "is_nats_user c a uid (set_keys pub s j now r) = is_nats_user c a uid r"
  "is_nats_user c a uid (set_assigned p now r) = is_nats_user c a uid r"
  by (simp_all add: is_nats_user_def nats_user_in_def set_config_def set_jwt_def set_keys_def set_assigned_def)

lemma find_update_nats_user:
  assumes "\<And>r. is_nats_user c a uid r \<Longrightarrow> is_nats_user c a uid (f r)"
  shows "find (is_nats_user c a uid) (ad_users (update_nats_user c a uid f db)) =
    map_option f (find (is_nats_user c a uid) (ad_users db))"
  using find_same [of "is_nats_user c a uid" f, OF assms] by (simp add: update_nats_user_def)

lemma set_grants_simps [simp]:
  "ad_users (set_grants f db) = ad_users db"
  "db_grants (ad_people (set_grants f db)) = f (db_grants (ad_people db))"
  "ad_people (update_nats_user c a uid h db) = ad_people db"
  by (simp_all add: set_grants_def update_nats_user_def)

lemma GetNATSAccountUser_cases:
  assumes "GetNATSAccountUser db c a uid = Inr u"
  obtains r where "find (is_nats_user c a uid) (ad_users db) = Some r" "u = scanNATSAccountUser r"
  using assms by (auto simp: GetNATSAccountUser_def split: option.splits)

section \<open>Properties\<close>

text \<open>C27: the view shows what tokens grant.  For every NATS user of the account, the listing
  of a subject has the user among the publishers (subscribers, queue subscribers) exactly when
  the permissions that would be written into a token of this user, minted from the same
  database, let the user publish (subscribe to) the subject.\<close>

theorem minted_matches_view:
  assumes "unique_groups db" and "unique_nats_users db" and "new_claims_open lib"
    and "r \<in> set (ad_users db)" and "nats_user_in c a r"
    and "ListSubjectPermissions db newID t c a subject = (Inr res, db')"
  shows "let cl = user_claims lib now (GetSigningGroup db c a (group_of_row r)) (scanNATSAccountUser r) k;
             uid = nu_ID (nr_User r)
    in (uid \<in> sp_UserID ` set (sr_Publish res) \<longleftrightarrow> may (cl_PubAllow cl) (cl_PubDeny cl) subject) \<and>
       (uid \<in> sp_UserID ` set (sr_Subscribe res) \<longleftrightarrow> may (cl_SubAllow cl) (cl_SubDeny cl) subject) \<and>
       (uid \<in> sp_UserID ` set (sr_QueueSubscribe res) \<longleftrightarrow> may (cl_SubAllow cl) (cl_SubDeny cl) subject)"
proof -
  define users where "users = ListNATSAccountUsers db c a"
  define gs where "gs = filter (group_in c a) (ad_groups db')"
  define u where "u = scanNATSAccountUser r"
  have ens: "EnsureDefaultSigningGroup db newID t c a = Inr db'"
    and res: "sr_Publish res = permission_entries (TrimSpace subject) gs ep_PubAllow ep_PubDeny users"
      "sr_Subscribe res = permission_entries (TrimSpace subject) gs ep_SubAllow ep_SubDeny users"
      "sr_QueueSubscribe res = permission_entries (TrimSpace subject) gs ep_SubAllow ep_SubDeny users"
    using assms(6) unfolding users_def gs_def
    by (auto simp: ListSubjectPermissions_def ListSigningGroups_def Let_def split: sum.splits)
  have u: "u \<in> set users" "nu_ID (nr_User r) = nu_ID u" "group_of_row r = nc_SigningGroup (nu_Config u)"
    using assms(4,5) by (simp_all add: users_def ListNATSAccountUsers_def u_def group_of_row_def)
  note ids = entries_ids [OF listed_users_inj [OF assms(2), of c a, folded users_def] u(1)]
  have perms: "view_perms gs u = ResolveEffectivePerms (perm_user (nu_Config u))
      (map_option perm_group (scoped_lookup (GetSigningGroup db' c a (nc_SigningGroup (nu_Config u)))))"
    unfolding gs_def by (rule view_perms_lookup [OF ensure_unique [OF ens assms(1)]])
  note same = view_mint [OF assms(3) ensure_lookup [OF ens, of c a "nc_SigningGroup (nu_Config u)"],
      of u now k, folded perms]
  show ?thesis unfolding Let_def u(2,3) u_def [symmetric] res ids same by simp
qed

text \<open>A failed lookup of the signing group mints an unrestricted token.  If the user has no
  permissions of its own and the group cannot be read, for whatever reason, the token lets the
  user publish and subscribe to every subject, also when the group is scoped and forbids it.\<close>

theorem mint_fails_open:
  assumes "new_claims_open lib" and "\<not> user_has_perms (nu_Config user)" and "TrimSpace subject \<noteq> []"
  shows "let cl = user_claims lib now (Inl gerr) user k
    in may (cl_PubAllow cl) (cl_PubDeny cl) subject \<and> may (cl_SubAllow cl) (cl_SubDeny cl) subject"
  using assms unfolding Let_def claims_perms
  by (simp add: claim_permissions_def new_claims_open_def Let_def may_def)

text \<open>Rotated credentials are the ones stored.  After a rotation that succeeds, the
  credentials that can be downloaded are exactly those the rotation returned.\<close>

theorem rotate_roundtrip:
  assumes "\<forall>s e. nl_Encrypt lib s = Inr e \<longrightarrow> nl_Decrypt lib e = Inr s"
    and "RotateNATSAccountUser lib db fr now c a uid accountSeed = (Inr creds, db')"
  shows "GetNATSAccountUserCreds lib db' c a uid = Inr creds"
proof -
  from assms(2) obtain ex enc jwt where ex: "GetNATSAccountUser db c a uid = Inr ex"
    and enc: "nl_Encrypt lib (fr_Seed fr) = Inr enc"
    and creds: "creds = \<lparr>cr_User = ex\<lparr>nu_PublicKey := fr_Pub fr, nu_HasJWT := \<not> IsEmpty jwt,
          nu_JWTIssued := \<not> IsEmpty jwt, nu_UpdatedAt := now\<rparr>,
        cr_Seed = fr_Seed fr, cr_JWT = jwt, cr_Cred = formatCreds jwt (fr_Seed fr)\<rparr>"
    and db': "db' = update_nats_user c a uid (set_keys (fr_Pub fr) enc jwt now) db"
    by (auto simp: RotateNATSAccountUser_def split: sum.splits)
  from ex obtain r where r: "find (is_nats_user c a uid) (ad_users db) = Some r" "ex = scanNATSAccountUser r"
    by (rule GetNATSAccountUser_cases)
  have "find (is_nats_user c a uid) (ad_users db') = Some (set_keys (fr_Pub fr) enc jwt now r)"
    unfolding db' by (simp add: find_update_nats_user r(1))
  with assms(1) enc show ?thesis
    by (simp add: GetNATSAccountUserCreds_def creds r(2) set_keys_def scanNATSAccountUser_def)
qed

text \<open>A deleted NATS user leaves no rights behind.  If there is no such user, nothing is
  changed; else the row and every grant on the user's resource key are gone, all other rows
  and grants are as before, and the persons named for invalidation are exactly those who lost
  a grant, each once.\<close>

theorem delete_nats_user_exact:
  assumes "DeleteNATSAccountUser db c a uid = (res, db')"
  shows "let K = (\<lambda>g. g_ResourceType g = ResourceNATSUser \<and>
               g_ResourceKey g = domainAccountNATSUserKey c a uid);
             found = (\<exists>r\<in>set (ad_users db). is_nats_user c a uid r)
    in case res of
         Inl e \<Rightarrow> e = ErrNotFound \<and> db' = db \<and> \<not> found
       | Inr ids \<Rightarrow> found \<and> distinct ids \<and>
           set ids = g_UserID ` {g \<in> set (db_grants (ad_people db)). K g} \<and>
           db_grants (ad_people db') = filter (\<lambda>g. \<not> K g) (db_grants (ad_people db)) \<and>
           ad_users db' = filter (\<lambda>r. \<not> is_nats_user c a uid r) (ad_users db)"
proof (cases "list_ex (is_nats_user c a uid) (ad_users db)")
  case True
  then have "\<exists>r\<in>set (ad_users db). is_nats_user c a uid r" by (simp add: list_ex_iff)
  with True assms show ?thesis
    by (auto simp: DeleteNATSAccountUser_def Let_def)
next
  case False
  with assms show ?thesis by (auto simp: DeleteNATSAccountUser_def Let_def list_ex_iff)
qed

lemma upsert_grant_other:
  assumes "\<not> (g_UserID g = u \<and> g_ResourceType g = t \<and> g_ResourceKey g = k)"
  shows "g \<in> set (upsert_grant gid u t k role now gs) \<longleftrightarrow> g \<in> set gs"
  using assms by (auto simp: upsert_grant_def Let_def image_iff)

lemma upsert_grant_self:
  "\<exists>g\<in>set (upsert_grant gid u t k role now gs).
     g_UserID g = u \<and> g_ResourceType g = t \<and> g_ResourceKey g = k \<and> g_Role g = role"
proof (cases "\<exists>g\<in>set gs. g_UserID g = u \<and> g_ResourceType g = t \<and> g_ResourceKey g = k")
  case True
  then obtain g where g: "g \<in> set gs" "g_UserID g = u" "g_ResourceType g = t" "g_ResourceKey g = k" by blast
  then have "g\<lparr>g_Role := role, g_UpdatedAt := now\<rparr> \<in> set (upsert_grant gid u t k role now gs)"
    by (auto simp: upsert_grant_def Let_def list_ex_iff image_iff intro!: bexI [of _ g])
  then show ?thesis by (rule bexI [rotated]) (simp add: g)
next
  case False
  then show ?thesis by (auto simp: upsert_grant_def Let_def list_ex_iff)
qed

lemma upsert_grant_role:
  assumes "g \<in> set (upsert_grant gid u t k role now gs)"
    and "g_UserID g = u" "g_ResourceType g = t" "g_ResourceKey g = k"
  shows "g_Role g = role"
proof (cases "\<exists>g\<in>set gs. g_UserID g = u \<and> g_ResourceType g = t \<and> g_ResourceKey g = k")
  case True
  define P where "P = (\<lambda>g :: AccessGrant. g_UserID g = u \<and> g_ResourceType g = t \<and> g_ResourceKey g = k)"
  define f where "f = (\<lambda>g :: AccessGrant. g\<lparr>g_Role := role, g_UpdatedAt := now\<rparr>)"
  have "upsert_grant gid u t k role now gs = map (\<lambda>g. if P g then f g else g) gs"
    using True unfolding P_def f_def by (simp add: upsert_grant_def Let_def list_ex_iff)
  then have "g \<in> (\<lambda>g. if P g then f g else g) ` set gs" using assms(1) by (simp only: set_map)
  then obtain h where h: "g = (if P h then f h else h)" by (rule imageE)
  have "P g" using assms(2-4) by (simp add: P_def)
  with h have "g = f h" by (cases "P h") simp_all
  then show ?thesis by (simp add: f_def)
next
  case False
  then have "set (upsert_grant gid u t k role now gs) = insert
      \<lparr>g_CreatedAt = now, g_UpdatedAt = now, g_ID = gid, g_UserID = u, g_ResourceType = t,
       g_ResourceKey = k, g_Role = role, g_Username = [], g_Email = []\<rparr> (set gs)"
    unfolding upsert_grant_def Let_def list_ex_iff by (subst if_not_P) auto
  with assms(1) consider "g_Role g = role" | "g \<in> set gs" by force
  then show ?thesis using False assms(2-4) by cases blast+
qed

text \<open>The grants after an assignment.\<close>

definition assigned_grants ::
  "string \<Rightarrow> gotime \<Rightarrow> string \<Rightarrow> string \<Rightarrow> string \<Rightarrow> AccessGrant list \<Rightarrow> AccessGrant list" where
  "assigned_grants gid now K prev p gs =
     (let gs = (if prev \<noteq> [] \<and> prev \<noteq> p then delete_grant prev ResourceNATSUser K gs else gs)
      in if p \<noteq> [] then upsert_grant gid (ToLower p) ResourceNATSUser K GrantCredentialDownloader now gs else gs)"

lemma assign_cases:
  assumes "AssignNATSAccountUserPerson db gid now c a uid p = (Inr u, db')"
  obtains r where "find (is_nats_user c a uid) (ad_users db) = Some r"
    "u = scanNATSAccountUser (set_assigned (ToLower p) now r)"
    "db_grants (ad_people db') = assigned_grants gid now (domainAccountNATSUserKey c a uid)
       (nu_AssignedUserID (nr_User r)) p (db_grants (ad_people db))"
proof -
  obtain cur where cur: "GetNATSAccountUser db c a uid = Inr cur"
    and ok: "\<not> (p \<noteq> [] \<and> \<not> person_exists db p)"
    using assms by (auto simp: AssignNATSAccountUserPerson_def split: sum.splits if_splits)
  from cur obtain r where r: "find (is_nats_user c a uid) (ad_users db) = Some r" "cur = scanNATSAccountUser r"
    by (rule GetNATSAccountUser_cases)
  have users: "ad_users db' = ad_users (update_nats_user c a uid (set_assigned (ToLower p) now) db)"
    and grants: "db_grants (ad_people db') = assigned_grants gid now (domainAccountNATSUserKey c a uid)
       (nu_AssignedUserID (nr_User r)) p (db_grants (ad_people db))"
    and u: "GetNATSAccountUser db' c a uid = Inr u"
    using assms cur ok by (auto simp: AssignNATSAccountUserPerson_def Let_def r(2) assigned_grants_def)
  have "find (is_nats_user c a uid) (ad_users db') = Some (set_assigned (ToLower p) now r)"
    unfolding users by (simp add: find_update_nats_user r(1))
  with u have "u = scanNATSAccountUser (set_assigned (ToLower p) now r)" by (simp add: GetNATSAccountUser_def)
  with r grants show thesis by (intro that)
qed

text \<open>An assignment moves the right to download.  After a NATS user is assigned to a
  person, that person holds the grant on it, as a downloader and nothing more; a person it was
  assigned to before, if another, holds none; and no other grant is touched.\<close>

theorem assign_moves_grant:
  assumes "AssignNATSAccountUserPerson db gid now c a uid p = (Inr u, db')" and "p \<noteq> []"
    and "GetNATSAccountUser db c a uid = Inr cur"
  shows "let on = (\<lambda>w g. g_UserID g = w \<and> g_ResourceType g = ResourceNATSUser \<and>
                 g_ResourceKey g = domainAccountNATSUserKey c a uid);
             new = ToLower p; prev = nu_AssignedUserID cur; G' = set (db_grants (ad_people db'))
    in nu_AssignedUserID u = new \<and>
       (\<exists>g\<in>G'. on new g) \<and> (\<forall>g\<in>G'. on new g \<longrightarrow> g_Role g = GrantCredentialDownloader) \<and>
       (prev \<noteq> [] \<and> prev \<noteq> new \<and> prev \<noteq> p \<longrightarrow> (\<forall>g\<in>G'. \<not> on prev g)) \<and>
       (\<forall>g. \<not> on new g \<and> \<not> on prev g \<longrightarrow> (g \<in> G' \<longleftrightarrow> g \<in> set (db_grants (ad_people db))))"
proof -
  let ?K = "domainAccountNATSUserKey c a uid"
  obtain r where r: "find (is_nats_user c a uid) (ad_users db) = Some r"
    and u: "u = scanNATSAccountUser (set_assigned (ToLower p) now r)"
    and G: "db_grants (ad_people db') = assigned_grants gid now ?K
       (nu_AssignedUserID (nr_User r)) p (db_grants (ad_people db))"
    using assms(1) by (rule assign_cases)
  define prev where "prev = nu_AssignedUserID (nr_User r)"
  define gs where "gs = (if prev \<noteq> [] \<and> prev \<noteq> p
    then delete_grant prev ResourceNATSUser ?K (db_grants (ad_people db)) else db_grants (ad_people db))"
  have cur: "nu_AssignedUserID cur = prev" using assms(3) r by (auto simp: GetNATSAccountUser_def prev_def)
  have G': "db_grants (ad_people db') =
      upsert_grant gid (ToLower p) ResourceNATSUser ?K GrantCredentialDownloader now gs"
    using assms(2) unfolding G prev_def [symmetric] by (simp add: assigned_grants_def gs_def)
  have new: "nu_AssignedUserID u = ToLower p" by (simp add: u set_assigned_def)
  show ?thesis
    unfolding Let_def cur G'
  proof (intro conjI allI impI)
    fix g :: AccessGrant assume "\<not> (g_UserID g = ToLower p \<and> g_ResourceType g = ResourceNATSUser \<and> g_ResourceKey g = ?K) \<and>
      \<not> (g_UserID g = prev \<and> g_ResourceType g = ResourceNATSUser \<and> g_ResourceKey g = ?K)"
    then show "g \<in> set (upsert_grant gid (ToLower p) ResourceNATSUser ?K GrantCredentialDownloader now gs) \<longleftrightarrow>
        g \<in> set (db_grants (ad_people db))"
      by (simp add: upsert_grant_other gs_def delete_grant_def)
  next
    assume prev: "prev \<noteq> [] \<and> prev \<noteq> ToLower p \<and> prev \<noteq> p"
    show "\<forall>g\<in>set (upsert_grant gid (ToLower p) ResourceNATSUser ?K GrantCredentialDownloader now gs).
      \<not> (g_UserID g = prev \<and> g_ResourceType g = ResourceNATSUser \<and> g_ResourceKey g = ?K)"
    proof (intro ballI notI)
      fix g assume g: "g \<in> set (upsert_grant gid (ToLower p) ResourceNATSUser ?K GrantCredentialDownloader now gs)"
        and on: "g_UserID g = prev \<and> g_ResourceType g = ResourceNATSUser \<and> g_ResourceKey g = ?K"
      then have "g \<in> set gs" using prev upsert_grant_other [of g "ToLower p"] by metis
      then show False using on prev by (auto simp: gs_def delete_grant_def)
    qed
  next
    show "nu_AssignedUserID u = ToLower p" by (fact new)
  next
    show "\<exists>g\<in>set (upsert_grant gid (ToLower p) ResourceNATSUser ?K GrantCredentialDownloader now gs).
        g_UserID g = ToLower p \<and> g_ResourceType g = ResourceNATSUser \<and> g_ResourceKey g = ?K"
      using upsert_grant_self [of gid "ToLower p" ResourceNATSUser ?K GrantCredentialDownloader now gs] by blast
  next
    show "\<forall>g\<in>set (upsert_grant gid (ToLower p) ResourceNATSUser ?K GrantCredentialDownloader now gs).
        g_UserID g = ToLower p \<and> g_ResourceType g = ResourceNATSUser \<and> g_ResourceKey g = ?K \<longrightarrow>
        g_Role g = GrantCredentialDownloader"
      using upsert_grant_role by blast
  qed
qed

section \<open>Witnesses\<close>

definition example_lib :: NatsLib where
  "example_lib = \<lparr>nl_FromSeed = (\<lambda>_. None), nl_PublicKey = Inr,
     nl_NewUserClaims = (\<lambda>k. \<lparr>cl_Subject = k, cl_Name = [], cl_Tags = [], cl_PubAllow = [], cl_PubDeny = [],
       cl_SubAllow = [], cl_SubDeny = [], cl_Data = -1, cl_Payload = -1, cl_Subs = -1, cl_Resp = None,
       cl_BearerToken = False, cl_ProxyRequired = False, cl_AllowedConnectionTypes = [], cl_Src = [],
       cl_Locale = [], cl_Times = [], cl_Expires = 0\<rparr>),
     nl_AddTag = (\<lambda>x l. l @ [x]), nl_AddType = (\<lambda>x l. l @ [x]), nl_AddSrc = (\<lambda>x l. l @ [x]),
     nl_Encode = (\<lambda>c s. Inr (cl_Name c)), nl_Encrypt = Inr, nl_Decrypt = Inr\<rparr>"

definition example_config :: NATSUserConfig where
  "example_config = \<lparr>nc_SigningGroup = ''readers'', nc_Tags = [], nc_PubAllow = [], nc_PubDeny = [],
     nc_SubAllow = [], nc_SubDeny = [], nc_AllowedConnectionTypes = [], nc_SrcCIDRs = [], nc_TimesLocale = [],
     nc_TimeRanges = [], nc_MaxSubs = -1, nc_MaxPayload = -1, nc_MaxData = -1, nc_JWTLifetimeNs = 0,
     nc_RespMaxMsgs = 0, nc_RespTTLNs = 0, nc_BearerToken = False, nc_ProxyRequired = False\<rparr>"

definition example_row :: NATSUserRow where
  "example_row = \<lparr>nr_User = \<lparr>nu_CreatedAt = 0, nu_UpdatedAt = 0, nu_ID = ''n1'', nu_ClusterID = ''c1'',
       nu_AccountName = ''Default'', nu_Name = ''svc'', nu_PublicKey = ''U1'', nu_AssignedUserID = ''bob'',
       nu_Config = example_config, nu_HasJWT = False, nu_JWTIssued = False\<rparr>,
     nr_SeedEncrypted = ''SU1'', nr_JWT = []\<rparr>"

definition example_person :: "string \<Rightarrow> UserRow" where
  "example_person i = \<lparr>r_ID = i, r_Username = i, r_Email = [], r_PasswordHash = [], r_OIDCSub = [],
     r_IsRoot = False, r_AccessRules = None, r_CreatedAt = 0\<rparr>"

definition example_grant :: AccessGrant where
  "example_grant = \<lparr>g_CreatedAt = 0, g_UpdatedAt = 0, g_ID = ''g1'', g_UserID = ''bob'',
     g_ResourceType = ResourceNATSUser, g_ResourceKey = ''c1:Default:n1'', g_Role = GrantCredentialDownloader,
     g_Username = [], g_Email = []\<rparr>"

definition example_db :: AccountDB where
  "example_db = \<lparr>ad_people = \<lparr>db_users = [example_person ''bob'', example_person ''eve''], db_user_roles = [],
       db_grants = [example_grant]\<rparr>,
     ad_clusters = [''c1''], ad_users = [example_row],
     ad_groups = [\<lparr>sg_CreatedAt = 0, sg_UpdatedAt = 0, sg_ID = ''sg'', sg_ClusterID = ''c1'',
       sg_AccountName = ''Default'', sg_Name = ''readers'', sg_PubAllow = [], sg_PubDeny = [''>''],
       sg_SubAllow = [''orders.*''], sg_SubDeny = [], sg_MaxData = -1, sg_MaxPayload = -1, sg_MaxSubs = -1,
       sg_Scoped = True\<rparr>], ad_exports = []\<rparr>"

lemma example_lib_open: "new_claims_open example_lib"
  by (simp add: new_claims_open_def example_lib_def)

theorem minted_matches_view_witness:
  "\<exists>res db'. ListSubjectPermissions example_db ''x'' 0 ''c1'' ''Default'' ''orders.new'' = (Inr res, db') \<and>
     sp_UserID ` set (sr_Publish res) = {} \<and> ''n1'' \<in> sp_UserID ` set (sr_Subscribe res)"
proof -
  obtain res db' where e: "ListSubjectPermissions example_db ''x'' 0 ''c1'' ''Default'' ''orders.new'' = (Inr res, db')"
    and p: "sr_Publish res = []"
  proof -
    have "case ListSubjectPermissions example_db ''x'' 0 ''c1'' ''Default'' ''orders.new'' of
        (Inr res, _) \<Rightarrow> sr_Publish res = [] | _ \<Rightarrow> False" by code_simp
    then show thesis using that by (auto split: prod.splits sum.splits)
  qed
  have h: "unique_groups example_db" "unique_nats_users example_db" "example_row \<in> set (ad_users example_db)"
    "nats_user_in ''c1'' ''Default'' example_row" by code_simp+
  have "may (cl_SubAllow cl) (cl_SubDeny cl) ''orders.new''"
    if "cl = user_claims example_lib 0 (GetSigningGroup example_db ''c1'' ''Default'' (group_of_row example_row))
      (scanNATSAccountUser example_row) ''U1''" for cl
    unfolding that by code_simp
  moreover have "nu_ID (nr_User example_row) = ''n1''" by code_simp
  ultimately show ?thesis
    using minted_matches_view [OF h(1,2) example_lib_open h(3,4) e, of 0 "''U1''"] e p by (auto simp: Let_def)
qed

text \<open>The group of the example denies every subject to publishers; the token allows it.\<close>

theorem mint_fails_open_witness:
  "\<not> may [] [''>''] ''orders.new'' \<and>
   map_option sg_PubDeny (scoped_lookup (GetSigningGroup example_db ''c1'' ''Default'' ''readers'')) = Some [''>''] \<and>
   (let cl = user_claims example_lib 0 (Inl (ErrOther ''timeout'')) (nr_User example_row) ''U1''
    in may (cl_PubAllow cl) (cl_PubDeny cl) ''orders.new'')"
proof -
  have h: "\<not> user_has_perms (nu_Config (nr_User example_row))" "TrimSpace ''orders.new'' \<noteq> []" by code_simp+
  have "\<not> may [] [''>''] ''orders.new''" by code_simp
  moreover have "map_option sg_PubDeny (scoped_lookup (GetSigningGroup example_db ''c1'' ''Default'' ''readers'')) =
      Some [''>'']" by code_simp
  ultimately show ?thesis
    using mint_fails_open [OF example_lib_open h, of 0 "ErrOther ''timeout''" "''U1''"] by (simp add: Let_def)
qed

definition example_fresh :: fresh where
  "example_fresh = \<lparr>fr_ID = ''n2'', fr_Pub = ''U2'', fr_Seed = ''SU2'', fr_GroupID = ''x''\<rparr>"

theorem rotate_roundtrip_witness:
  "\<exists>creds db'. RotateNATSAccountUser example_lib example_db example_fresh 5 ''c1'' ''Default'' ''n1'' ''SA'' =
     (Inr creds, db') \<and> GetNATSAccountUserCreds example_lib db' ''c1'' ''Default'' ''n1'' = Inr creds \<and>
     cr_Seed creds = ''SU2''"
proof -
  have "case RotateNATSAccountUser example_lib example_db example_fresh 5 ''c1'' ''Default'' ''n1'' ''SA'' of
      (Inr creds, _) \<Rightarrow> cr_Seed creds = ''SU2'' | _ \<Rightarrow> False" by code_simp
  then obtain creds db' where e: "RotateNATSAccountUser example_lib example_db example_fresh 5 ''c1'' ''Default'' ''n1'' ''SA'' =
     (Inr creds, db')" "cr_Seed creds = ''SU2''"
    by (auto split: prod.splits sum.splits)
  have "\<forall>s e. nl_Encrypt example_lib s = Inr e \<longrightarrow> nl_Decrypt example_lib e = Inr s"
    by (simp add: example_lib_def)
  from rotate_roundtrip [OF this e(1)] e show ?thesis by blast
qed

theorem delete_nats_user_exact_witness:
  "\<exists>ids db'. DeleteNATSAccountUser example_db ''c1'' ''Default'' ''n1'' = (Inr ids, db') \<and> ids = [''bob''] \<and>
     db_grants (ad_people db') = filter (\<lambda>g. \<not> (g_ResourceType g = ResourceNATSUser \<and>
       g_ResourceKey g = domainAccountNATSUserKey ''c1'' ''Default'' ''n1'')) (db_grants (ad_people example_db))"
proof -
  have "case DeleteNATSAccountUser example_db ''c1'' ''Default'' ''n1'' of
      (Inr ids, _) \<Rightarrow> ids = [''bob''] | _ \<Rightarrow> False" by code_simp
  then obtain ids db' where e: "DeleteNATSAccountUser example_db ''c1'' ''Default'' ''n1'' = (Inr ids, db')" "ids = [''bob'']"
    by (auto split: prod.splits sum.splits)
  from delete_nats_user_exact [OF e(1)] e show ?thesis by (simp add: Let_def)
qed

theorem assign_moves_grant_witness:
  "\<exists>u db'. AssignNATSAccountUserPerson example_db ''g2'' 5 ''c1'' ''Default'' ''n1'' ''eve'' = (Inr u, db') \<and>
     nu_AssignedUserID u = ToLower ''eve'' \<and>
     (\<exists>g\<in>set (db_grants (ad_people db')). g_UserID g = ToLower ''eve'' \<and> g_ResourceType g = ResourceNATSUser \<and>
       g_ResourceKey g = domainAccountNATSUserKey ''c1'' ''Default'' ''n1'')"
proof -
  have "case AssignNATSAccountUserPerson example_db ''g2'' 5 ''c1'' ''Default'' ''n1'' ''eve'' of
      (Inr u, _) \<Rightarrow> True | _ \<Rightarrow> False" by code_simp
  then obtain u db' where e: "AssignNATSAccountUserPerson example_db ''g2'' 5 ''c1'' ''Default'' ''n1'' ''eve'' = (Inr u, db')"
    by (auto split: prod.splits sum.splits)
  have "GetNATSAccountUser example_db ''c1'' ''Default'' ''n1'' = Inr (scanNATSAccountUser example_row)"
    by code_simp
  from assign_moves_grant [OF e _ this] e show ?thesis unfolding Let_def by blast
qed

end
