(* ===== verification/Account_Handlers.thy ===== *)
theory Account_Handlers
  imports Rbac_Middleware Nats_Accounts
begin

text \<open>
  The handlers of NATS accounts (\<^verbatim>\<open>internal/api/accounts/handlers.go\<close>, over the service
  \<^verbatim>\<open>internal/app/nats_account.go\<close>, which only passes calls on): who may see, change and download
  what.

  A handler takes the request and the database to a reply, the next database, and the ids of
  the users whose sessions it invalidates, in order.  A body that cannot be decoded is None.
  Errors that \<^verbatim>\<open>WriteAPIError\<close> turns into a status are passed on as \<open>RFailed\<close>.
\<close>

section \<open>Requests and guards\<close>

record AccountRequest =
  aq_Actor :: "User option"
  aq_ClusterParam :: string
  aq_QueryAccount :: string
  aq_RouteAccount :: string
  aq_UserParam :: string

datatype 'a reply =
    RUnauthorized | RForbidden | RBadRequest domain_error | RNotFound | RFailed domain_error
  | ROk 'a | RCreated 'a | RNoContent

definition cid :: "AccountRequest \<Rightarrow> string" where
  "cid rq = ClusterID (aq_ClusterParam rq)"

definition accountFromCtx :: "AccountRequest \<Rightarrow> string" where
  "accountFromCtx rq =
     (let account = aq_QueryAccount rq;
          account = (if IsEmpty account then aq_RouteAccount rq else account)
      in if IsEmpty account then ''Default'' else account)"

text \<open>A guard gives the reply it has written, or None if the handler goes on.\<close>

definition requireAccountAccess :: "AccountRequest \<Rightarrow> string \<Rightarrow> 'a reply option" where
  "requireAccountAccess rq account =
     (case aq_Actor rq of
        None \<Rightarrow> Some RUnauthorized
      | Some user \<Rightarrow> if \<not> CanAccessAccount user (cid rq) account then Some RForbidden else None)"

definition requireManageAccountAccess :: "AccountRequest \<Rightarrow> string \<Rightarrow> 'a reply option" where
  "requireManageAccountAccess rq account =
     (case aq_Actor rq of
        None \<Rightarrow> Some RUnauthorized
      | Some user \<Rightarrow> if \<not> CanManageAccountAccess user (cid rq) account then Some RForbidden else None)"

definition requireMutateAccountAccess :: "AccountRequest \<Rightarrow> string \<Rightarrow> 'a reply option" where
  "requireMutateAccountAccess rq account =
     (case aq_Actor rq of
        None \<Rightarrow> Some RUnauthorized
      | Some user \<Rightarrow>
          if \<not> CanAccessAccount user (cid rq) account then Some RForbidden
          else if CanManageAccountAccess user (cid rq) account \<or> CanWriteCluster user (cid rq) then None
          else Some RForbidden)"

definition requireDownloadCreds :: "AccountRequest \<Rightarrow> string \<Rightarrow> string \<Rightarrow> 'a reply option" where
  "requireDownloadCreds rq account natsUserID =
     (case aq_Actor rq of
        None \<Rightarrow> Some RUnauthorized
      | Some user \<Rightarrow> if \<not> CanDownloadCreds user (cid rq) account natsUserID then Some RForbidden else None)"

definition natsUserIDFromCtx :: "AccountRequest \<Rightarrow> ('a reply, string) result" where
  "natsUserIDFromCtx rq =
     (if \<not> uuidPattern (aq_UserParam rq) then Inl (RBadRequest (ErrOther ''invalid uuid''))
      else Inr (aq_UserParam rq))"

definition canListAllAccountNATSUsers :: "User \<Rightarrow> string \<Rightarrow> string \<Rightarrow> bool" where
  "canListAllAccountNATSUsers user clusterID account =
     (if CanAccessCluster user clusterID then True
      else list_ex (\<lambda>g. g_ResourceType g = ResourceAccount \<and>
             g_ResourceKey g = AccountResourceKey clusterID account) (u_Grants user))"

definition grantedNATSUserIDs :: "User \<Rightarrow> string \<Rightarrow> string \<Rightarrow> string list" where
  "grantedNATSUserIDs user clusterID account =
     (let prefix = AccountResourceKey clusterID account @ '':''
      in map (\<lambda>g. TrimPrefix (g_ResourceKey g) prefix)
           (filter (\<lambda>g. g_ResourceType g = ResourceNATSUser \<and> HasPrefix (g_ResourceKey g) prefix \<and>
               (let i = TrimPrefix (g_ResourceKey g) prefix in \<not> (IsEmpty i \<or> Contains i '':'')))
             (u_Grants user)))"

definition canViewNATSUser :: "User \<Rightarrow> string \<Rightarrow> string \<Rightarrow> string \<Rightarrow> bool" where
  "canViewNATSUser user clusterID account natsUserID =
     (if canListAllAccountNATSUsers user clusterID account then True
      else natsUserID \<in> set (grantedNATSUserIDs user clusterID account))"

definition filterNATSUsersForGrants ::
  "User \<Rightarrow> string \<Rightarrow> string \<Rightarrow> NATSAccountUser list \<Rightarrow> NATSAccountUser list" where
  "filterNATSUsersForGrants user clusterID account users =
     (if canListAllAccountNATSUsers user clusterID account then users
      else
        (let allowedIDs = grantedNATSUserIDs user clusterID account
         in if length allowedIDs = 0 then [] else filter (\<lambda>u. nu_ID u \<in> set allowedIDs) users))"

definition filterSubjectPermissionEntries ::
  "SubjectPermissionEntry list \<Rightarrow> string list \<Rightarrow> SubjectPermissionEntry list" where
  "filterSubjectPermissionEntries entries allowedIDs =
     (if length entries = 0 then entries else filter (\<lambda>e. sp_UserID e \<in> set allowedIDs) entries)"

definition filterSubjectPermissionsForGrants ::
  "User \<Rightarrow> string \<Rightarrow> string \<Rightarrow> SubjectPermissionsResult \<Rightarrow> SubjectPermissionsResult" where
  "filterSubjectPermissionsForGrants user clusterID account res =
     (let allowedIDs = grantedNATSUserIDs user clusterID account
      in if length allowedIDs = 0 then res\<lparr>sr_Publish := [], sr_Subscribe := [], sr_QueueSubscribe := []\<rparr>
         else res\<lparr>sr_Publish := filterSubjectPermissionEntries (sr_Publish res) allowedIDs,
                  sr_Subscribe := filterSubjectPermissionEntries (sr_Subscribe res) allowedIDs,
                  sr_QueueSubscribe := filterSubjectPermissionEntries (sr_QueueSubscribe res) allowedIDs\<rparr>)"

definition redactNATSCredsUnlessAllowed ::
  "AccountRequest \<Rightarrow> string \<Rightarrow> NATSAccountUserCreds \<Rightarrow> NATSAccountUserCreds" where
  "redactNATSCredsUnlessAllowed rq account creds =
     (if (case aq_Actor rq of None \<Rightarrow> True
          | Some user \<Rightarrow> \<not> CanDownloadCreds user (cid rq) account (nu_ID (cr_User creds)))
      then creds\<lparr>cr_Seed := [], cr_Cred := [], cr_JWT := []\<rparr> else creds)"

section \<open>Handlers\<close>

text \<open>The reply to an error: 404 for a missing row, else 400 or what \<^verbatim>\<open>WriteAPIError\<close> finds.\<close>

definition not_found_or_bad :: "domain_error \<Rightarrow> 'a reply" where
  "not_found_or_bad e = (if e = ErrNotFound then RNotFound else RBadRequest e)"

definition not_found_or_failed :: "domain_error \<Rightarrow> 'a reply" where
  "not_found_or_failed e = (if e = ErrNotFound then RNotFound else RFailed e)"

definition Handler_ListUsers :: "AccountRequest \<Rightarrow> AccountDB \<Rightarrow> NATSAccountUser list reply" where
  "Handler_ListUsers rq db =
     (let account = accountFromCtx rq
      in case requireAccountAccess rq account of
           Some r \<Rightarrow> r
         | None \<Rightarrow>
             (let users = ListNATSAccountUsers db (cid rq) account
              in ROk (case aq_Actor rq of
                        Some user \<Rightarrow> filterNATSUsersForGrants user (cid rq) account users
                      | None \<Rightarrow> users)))"

definition Handler_SubjectPermissions ::
  "AccountRequest \<Rightarrow> string \<Rightarrow> gotime \<Rightarrow> string \<Rightarrow> AccountDB \<Rightarrow> SubjectPermissionsResult reply \<times> AccountDB" where
  "Handler_SubjectPermissions rq newID now subjectParam db =
     (let subject = TrimSpace subjectParam
      in if IsEmpty subject then (RBadRequest (ErrOther ''missing subject''), db)
         else
           (let account = accountFromCtx rq
            in case requireAccountAccess rq account of
                 Some r \<Rightarrow> (r, db)
               | None \<Rightarrow>
                   (case ListSubjectPermissions db newID now (cid rq) account subject of
                      (Inl e, db') \<Rightarrow> (RFailed e, db')
                    | (Inr res, db') \<Rightarrow>
                        (ROk (case aq_Actor rq of
                             Some user \<Rightarrow>
                               if \<not> canListAllAccountNATSUsers user (cid rq) account
                               then filterSubjectPermissionsForGrants user (cid rq) account res else res
                           | None \<Rightarrow> res), db'))))"

definition Handler_GetUser :: "AccountRequest \<Rightarrow> AccountDB \<Rightarrow> NATSAccountUser reply" where
  "Handler_GetUser rq db =
     (case natsUserIDFromCtx rq of
        Inl r \<Rightarrow> r
      | Inr userID \<Rightarrow>
          (let account = accountFromCtx rq
           in case requireAccountAccess rq account of
                Some r \<Rightarrow> r
              | None \<Rightarrow>
                  if (case aq_Actor rq of
                        Some user \<Rightarrow> \<not> canViewNATSUser user (cid rq) account userID | None \<Rightarrow> False)
                  then RForbidden
                  else (case GetNATSAccountUser db (cid rq) account userID of
                      Inl e \<Rightarrow> not_found_or_failed e
                    | Inr user \<Rightarrow> ROk user)))"

definition Handler_CreateUser ::
  "NatsLib \<Rightarrow> string \<Rightarrow> AccountRequest \<Rightarrow> fresh \<Rightarrow> gotime \<Rightarrow> (string \<times> string \<times> NATSUserConfig) option \<Rightarrow>
   AccountDB \<Rightarrow> NATSAccountUserCreds reply \<times> AccountDB" where
  "Handler_CreateUser lib accountSeed rq fr now body db =
     (case body of
        None \<Rightarrow> (RBadRequest (ErrOther ''invalid body''), db)
      | Some (name, accountName, config) \<Rightarrow>
          if IsEmpty name then (RBadRequest (ErrOther ''missing name''), db)
          else
            (let accountName = (if IsEmpty accountName then ''Default'' else accountName)
             in case ValidateAccountName accountName of
                  Some e \<Rightarrow> (RBadRequest e, db)
                | None \<Rightarrow>
                    (case requireMutateAccountAccess rq accountName of
                       Some r \<Rightarrow> (r, db)
                     | None \<Rightarrow>
                         (case CreateNATSAccountUserWithSeed lib db fr now
                              \<lparr>nk_ClusterID = cid rq, nk_AccountName = accountName, nk_Name = name,
                               nk_Config = config\<rparr> accountSeed of
                            (Inl e, db') \<Rightarrow> (RBadRequest e, db')
                          | (Inr user, db') \<Rightarrow>
                              (RCreated (redactNATSCredsUnlessAllowed rq accountName user), db')))))"

definition Handler_UpdateUser ::
  "NatsLib \<Rightarrow> string \<Rightarrow> AccountRequest \<Rightarrow> gotime \<Rightarrow> NATSUserConfig option \<Rightarrow> AccountDB \<Rightarrow>
   NATSAccountUser reply \<times> AccountDB" where
  "Handler_UpdateUser lib accountSeed rq now body db =
     (case natsUserIDFromCtx rq of
        Inl r \<Rightarrow> (r, db)
      | Inr userID \<Rightarrow>
          (case body of
             None \<Rightarrow> (RBadRequest (ErrOther ''invalid body''), db)
           | Some config \<Rightarrow>
               (let account = accountFromCtx rq
                in case requireMutateAccountAccess rq account of
                     Some r \<Rightarrow> (r, db)
                   | None \<Rightarrow>
                       (case UpdateNATSAccountUser lib db now (cid rq) account userID config accountSeed of
                          (Inl e, db') \<Rightarrow> (not_found_or_bad e, db')
                        | (Inr user, db') \<Rightarrow> (ROk user, db')))))"

definition Handler_DeleteUser :: "AccountRequest \<Rightarrow> AccountDB \<Rightarrow> unit reply \<times> AccountDB \<times> string list" where
  "Handler_DeleteUser rq db =
     (case natsUserIDFromCtx rq of
        Inl r \<Rightarrow> (r, db, [])
      | Inr userID \<Rightarrow>
          (let account = accountFromCtx rq
           in case requireMutateAccountAccess rq account of
                Some r \<Rightarrow> (r, db, [])
              | None \<Rightarrow>
                  (case DeleteNATSAccountUser db (cid rq) account userID of
                     (Inl e, db') \<Rightarrow> (not_found_or_failed e, db', [])
                   | (Inr affected, db') \<Rightarrow> (RNoContent, db', affected))))"

definition Handler_DownloadCreds :: "NatsLib \<Rightarrow> AccountRequest \<Rightarrow> AccountDB \<Rightarrow> NATSAccountUserCreds reply" where
  "Handler_DownloadCreds lib rq db =
     (case natsUserIDFromCtx rq of
        Inl r \<Rightarrow> r
      | Inr userID \<Rightarrow>
          (let account = accountFromCtx rq
           in case requireAccountAccess rq account of
                Some r \<Rightarrow> r
              | None \<Rightarrow>
                  (case requireDownloadCreds rq account userID of
                     Some r \<Rightarrow> r
                   | None \<Rightarrow>
                       (case GetNATSAccountUserCreds lib db (cid rq) account userID of
                          Inl e \<Rightarrow> not_found_or_failed e
                        | Inr creds \<Rightarrow> ROk creds))))"

definition Handler_RotateUser ::
  "NatsLib \<Rightarrow> string \<Rightarrow> AccountRequest \<Rightarrow> fresh \<Rightarrow> gotime \<Rightarrow> AccountDB \<Rightarrow>
   NATSAccountUserCreds reply \<times> AccountDB" where
  "Handler_RotateUser lib accountSeed rq fr now db =
     (case natsUserIDFromCtx rq of
        Inl r \<Rightarrow> (r, db)
      | Inr userID \<Rightarrow>
          (let account = accountFromCtx rq
           in case requireMutateAccountAccess rq account of
                Some r \<Rightarrow> (r, db)
              | None \<Rightarrow>
                  (case RotateNATSAccountUser lib db fr now (cid rq) account userID accountSeed of
                     (Inl e, db') \<Rightarrow> (not_found_or_bad e, db')
                   | (Inr creds, db') \<Rightarrow> (ROk creds, db'))))"

definition Handler_MintJWT ::
  "NatsLib \<Rightarrow> string \<Rightarrow> AccountRequest \<Rightarrow> gotime \<Rightarrow> AccountDB \<Rightarrow> NATSAccountUserCreds reply \<times> AccountDB" where
  "Handler_MintJWT lib accountSeed rq now db =
     (case natsUserIDFromCtx rq of
        Inl r \<Rightarrow> (r, db)
      | Inr userID \<Rightarrow>
          (let account = accountFromCtx rq
           in case requireAccountAccess rq account of
                Some r \<Rightarrow> (r, db)
              | None \<Rightarrow>
                  (case requireDownloadCreds rq account userID of
                     Some r \<Rightarrow> (r, db)
                   | None \<Rightarrow>
                       (case MintNATSAccountUserJWT lib db now (cid rq) account userID accountSeed of
                          (Inl e, db') \<Rightarrow> (not_found_or_bad e, db')
                        | (Inr creds, db') \<Rightarrow> (ROk creds, db')))))"

definition Handler_AssignPerson ::
  "AccountRequest \<Rightarrow> string \<Rightarrow> gotime \<Rightarrow> string option \<Rightarrow> AccountDB \<Rightarrow>
   NATSAccountUser reply \<times> AccountDB \<times> string list" where
  "Handler_AssignPerson rq grantID now body db =
     (case natsUserIDFromCtx rq of
        Inl r \<Rightarrow> (r, db, [])
      | Inr natsUserID \<Rightarrow>
          (let account = accountFromCtx rq
           in case requireManageAccountAccess rq account of
                Some r \<Rightarrow> (r, db, [])
              | None \<Rightarrow>
                  (case body of
                     None \<Rightarrow> (RBadRequest (ErrOther ''invalid body''), db, [])
                   | Some userID \<Rightarrow>
                       (case GetNATSAccountUser db (cid rq) account natsUserID of
                          Inl e \<Rightarrow> (not_found_or_failed e, db, [])
                        | Inr prev \<Rightarrow>
                            (case AssignNATSAccountUserPerson db grantID now (cid rq) account natsUserID userID of
                               (Inl e, db') \<Rightarrow> (not_found_or_bad e, db', [])
                             | (Inr user, db') \<Rightarrow>
                                 (ROk user, db',
                                  (if \<not> IsEmpty (nu_AssignedUserID prev) \<and> nu_AssignedUserID prev \<noteq> userID
                                   then [nu_AssignedUserID prev] else []) @
                                  (if \<not> IsEmpty userID then [userID] else [])))))))"

definition Handler_ListSigningGroups ::
  "AccountRequest \<Rightarrow> string \<Rightarrow> gotime \<Rightarrow> AccountDB \<Rightarrow> SigningGroup list reply \<times> AccountDB" where
  "Handler_ListSigningGroups rq newID now db =
     (let account = accountFromCtx rq
      in case requireAccountAccess rq account of
           Some r \<Rightarrow> (r, db)
         | None \<Rightarrow>
             if (case aq_Actor rq of
                   Some user \<Rightarrow> \<not> canListAllAccountNATSUsers user (cid rq) account | None \<Rightarrow> False)
             then (RForbidden, db)
             else (case ListSigningGroups db newID now (cid rq) account of
                 (Inl e, db') \<Rightarrow> (RFailed e, db')
               | (Inr groups, db') \<Rightarrow> (ROk groups, db')))"

definition Handler_CreateSigningGroup ::
  "AccountRequest \<Rightarrow> string \<Rightarrow> gotime \<Rightarrow> (string \<times> string \<times> SigningGroupUpdate) option \<Rightarrow> AccountDB \<Rightarrow>
   SigningGroup reply \<times> AccountDB" where
  "Handler_CreateSigningGroup rq newID now body db =
     (case body of
        None \<Rightarrow> (RBadRequest (ErrOther ''invalid body''), db)
      | Some (name, accountName, i) \<Rightarrow>
          (let accountName = (if IsEmpty accountName then accountFromCtx rq else accountName)
           in case ValidateAccountName accountName of
                Some e \<Rightarrow> (RBadRequest e, db)
              | None \<Rightarrow>
                  (case requireMutateAccountAccess rq accountName of
                     Some r \<Rightarrow> (r, db)
                   | None \<Rightarrow>
                       (case CreateSigningGroup db newID now
                            (SigningGroupUpdate.extend i
                              (SigningGroupCreate.fields (cid rq) accountName name)) of
                          (Inl e, db') \<Rightarrow> (RBadRequest e, db')
                        | (Inr g, db') \<Rightarrow> (RCreated g, db')))))"

definition Handler_UpdateSigningGroup ::
  "AccountRequest \<Rightarrow> string \<Rightarrow> gotime \<Rightarrow> SigningGroupUpdate option \<Rightarrow> AccountDB \<Rightarrow>
   SigningGroup reply \<times> AccountDB" where
  "Handler_UpdateSigningGroup rq groupParam now body db =
     (case body of
        None \<Rightarrow> (RBadRequest (ErrOther ''invalid body''), db)
      | Some i \<Rightarrow>
          (let account = accountFromCtx rq
           in case requireMutateAccountAccess rq account of
                Some r \<Rightarrow> (r, db)
              | None \<Rightarrow>
                  (case UpdateSigningGroup db now (cid rq) account groupParam i of
                     (Inl e, db') \<Rightarrow> (not_found_or_failed e, db')
                   | (Inr g, db') \<Rightarrow> (ROk g, db'))))"

definition Handler_DeleteSigningGroup ::
  "AccountRequest \<Rightarrow> string \<Rightarrow> AccountDB \<Rightarrow> unit reply \<times> AccountDB" where
  "Handler_DeleteSigningGroup rq groupParam db =
     (let account = accountFromCtx rq
      in case requireMutateAccountAccess rq account of
           Some r \<Rightarrow> (r, db)
         | None \<Rightarrow>
             (case DeleteSigningGroup db (cid rq) account groupParam of
                (Inl e, db') \<Rightarrow> (RFailed e, db')
              | (Inr _, db') \<Rightarrow> (RNoContent, db')))"

definition Handler_ListExports :: "AccountRequest \<Rightarrow> string \<Rightarrow> AccountDB \<Rightarrow> NATSAccountExport list reply" where
  "Handler_ListExports rq kind db =
     (let account = accountFromCtx rq
      in case requireAccountAccess rq account of
           Some r \<Rightarrow> r
         | None \<Rightarrow>
             if (case aq_Actor rq of
                   Some user \<Rightarrow> \<not> canListAllAccountNATSUsers user (cid rq) account | None \<Rightarrow> False)
             then RForbidden
             else ROk (ListNATSAccountExports db (cid rq) account kind))"

text \<open>The body of an export: account, kind, name, subject and description.\<close>

record createExportRequest =
  ce_AccountName :: string
  ce_Kind :: string
  ce_Name :: string
  ce_Subject :: string
  ce_Description :: string

definition Handler_CreateExport ::
  "AccountRequest \<Rightarrow> string \<Rightarrow> gotime \<Rightarrow> createExportRequest option \<Rightarrow> AccountDB \<Rightarrow>
   NATSAccountExport reply \<times> AccountDB" where
  "Handler_CreateExport rq newID now body db =
     (case body of
        None \<Rightarrow> (RBadRequest (ErrOther ''invalid body''), db)
      | Some req \<Rightarrow>
          if IsEmpty (ce_Name req) \<or> IsEmpty (ce_Kind req)
          then (RBadRequest (ErrOther ''missing name/kind''), db)
          else
            (let accountName = (if IsEmpty (ce_AccountName req) then ''Default'' else ce_AccountName req)
             in case ValidateAccountName accountName of
                  Some e \<Rightarrow> (RBadRequest e, db)
                | None \<Rightarrow>
                    (case requireMutateAccountAccess rq accountName of
                       Some r \<Rightarrow> (r, db)
                     | None \<Rightarrow>
                         (case CreateNATSAccountExport db newID now (cid rq) accountName (ce_Kind req)
                              (ce_Name req) (ce_Subject req) (ce_Description req) of
                            (Inl e, db') \<Rightarrow> (RBadRequest e, db')
                          | (Inr item, db') \<Rightarrow> (RCreated item, db')))))"

definition Handler_UpdateExport ::
  "AccountRequest \<Rightarrow> string \<Rightarrow> gotime \<Rightarrow> createExportRequest option \<Rightarrow> AccountDB \<Rightarrow>
   NATSAccountExport reply \<times> AccountDB" where
  "Handler_UpdateExport rq exportParam now body db =
     (case body of
        None \<Rightarrow> (RBadRequest (ErrOther ''invalid body''), db)
      | Some req \<Rightarrow>
          if IsEmpty (ce_Name req) then (RBadRequest (ErrOther ''missing name''), db)
          else
            (let account = accountFromCtx rq
             in case requireMutateAccountAccess rq account of
                  Some r \<Rightarrow> (r, db)
                | None \<Rightarrow>
                    (case UpdateNATSAccountExport db now (cid rq) account exportParam (ce_Name req)
                         (ce_Subject req) (ce_Description req) of
                       (Inl e, db') \<Rightarrow> (not_found_or_failed e, db')
                     | (Inr item, db') \<Rightarrow> (ROk item, db'))))"

definition Handler_DeleteExport :: "AccountRequest \<Rightarrow> string \<Rightarrow> AccountDB \<Rightarrow> unit reply \<times> AccountDB" where
  "Handler_DeleteExport rq exportParam db =
     (let account = accountFromCtx rq
      in case requireMutateAccountAccess rq account of
           Some r \<Rightarrow> (r, db)
         | None \<Rightarrow>
             (case DeleteNATSAccountExport db (cid rq) account exportParam of
                (Inl e, db') \<Rightarrow> (not_found_or_failed e, db')
              | (Inr _, db') \<Rightarrow> (RNoContent, db')))"

section \<open>All calls\<close>

text \<open>The calls of the account routes; \<open>serve\<close> is the next database of each.\<close>

datatype account_call =
    CListUsers | CSubjectPermissions string gotime string | CGetUser
  | CCreateUser fresh gotime "(string \<times> string \<times> NATSUserConfig) option"
  | CUpdateUser gotime "NATSUserConfig option" | CDeleteUser | CDownloadCreds
  | CRotateUser fresh gotime | CMintJWT gotime | CAssignPerson string gotime "string option"
  | CListSigningGroups string gotime
  | CCreateSigningGroup string gotime "(string \<times> string \<times> SigningGroupUpdate) option"
  | CUpdateSigningGroup string gotime "SigningGroupUpdate option" | CDeleteSigningGroup string
  | CListExports string | CCreateExport string gotime "createExportRequest option"
  | CUpdateExport string gotime "createExportRequest option" | CDeleteExport string

fun serve :: "NatsLib \<Rightarrow> string \<Rightarrow> AccountRequest \<Rightarrow> account_call \<Rightarrow> AccountDB \<Rightarrow> AccountDB" where
  "serve lib seed rq CListUsers db = db"
| "serve lib seed rq (CSubjectPermissions i now s) db = snd (Handler_SubjectPermissions rq i now s db)"
| "serve lib seed rq CGetUser db = db"
| "serve lib seed rq (CCreateUser fr now body) db = snd (Handler_CreateUser lib seed rq fr now body db)"
| "serve lib seed rq (CUpdateUser now body) db = snd (Handler_UpdateUser lib seed rq now body db)"
| "serve lib seed rq CDeleteUser db = fst (snd (Handler_DeleteUser rq db))"
| "serve lib seed rq CDownloadCreds db = db"
| "serve lib seed rq (CRotateUser fr now) db = snd (Handler_RotateUser lib seed rq fr now db)"
| "serve lib seed rq (CMintJWT now) db = snd (Handler_MintJWT lib seed rq now db)"
| "serve lib seed rq (CAssignPerson i now body) db = fst (snd (Handler_AssignPerson rq i now body db))"
| "serve lib seed rq (CListSigningGroups i now) db = snd (Handler_ListSigningGroups rq i now db)"
| "serve lib seed rq (CCreateSigningGroup i now body) db = snd (Handler_CreateSigningGroup rq i now body db)"
| "serve lib seed rq (CUpdateSigningGroup g now body) db = snd (Handler_UpdateSigningGroup rq g now body db)"
| "serve lib seed rq (CDeleteSigningGroup g) db = snd (Handler_DeleteSigningGroup rq g db)"
| "serve lib seed rq (CListExports k) db = db"
| "serve lib seed rq (CCreateExport i now body) db = snd (Handler_CreateExport rq i now body db)"
| "serve lib seed rq (CUpdateExport e now body) db = snd (Handler_UpdateExport rq e now body db)"
| "serve lib seed rq (CDeleteExport e) db = snd (Handler_DeleteExport rq e db)"

text \<open>The account a call works on: that of the body where the body names one.\<close>

fun account_of_call :: "AccountRequest \<Rightarrow> account_call \<Rightarrow> string" where
  "account_of_call rq (CCreateUser _ _ (Some (_, a, _))) = default_account a"
| "account_of_call rq (CCreateSigningGroup _ _ (Some (_, a, _))) = (if a = [] then accountFromCtx rq else a)"
| "account_of_call rq (CCreateExport _ _ (Some req)) = default_account (ce_AccountName req)"
| "account_of_call rq _ = accountFromCtx rq"

section \<open>Lemmas\<close>

lemmas guard_defs = requireAccountAccess_def requireManageAccountAccess_def requireMutateAccountAccess_def
  requireDownloadCreds_def

lemma guards_pass:
  "requireAccountAccess rq a = None \<longleftrightarrow> (\<exists>u. aq_Actor rq = Some u \<and> CanAccessAccount u (cid rq) a)"
  "requireManageAccountAccess rq a = None \<longleftrightarrow> (\<exists>u. aq_Actor rq = Some u \<and> CanManageAccountAccess u (cid rq) a)"
  "requireMutateAccountAccess rq a = None \<longleftrightarrow> (\<exists>u. aq_Actor rq = Some u \<and> CanAccessAccount u (cid rq) a \<and>
     (CanManageAccountAccess u (cid rq) a \<or> CanWriteCluster u (cid rq)))"
  "requireDownloadCreds rq a i = None \<longleftrightarrow> (\<exists>u. aq_Actor rq = Some u \<and> CanDownloadCreds u (cid rq) a i)"
  by (auto simp: guard_defs split: option.splits)

text \<open>The reply of a guard that refuses never carries data.\<close>

lemma guards_reply:
  "requireAccountAccess rq a = Some r \<Longrightarrow> r = RUnauthorized \<or> r = RForbidden"
  "requireDownloadCreds rq a i = Some r \<Longrightarrow> r = RUnauthorized \<or> r = RForbidden"
  "requireMutateAccountAccess rq a = Some r \<Longrightarrow> r = RUnauthorized \<or> r = RForbidden"
  by (auto simp: guard_defs split: option.splits if_splits)

lemma natsUserIDFromCtx_Inr [simp]:
  "natsUserIDFromCtx rq = Inr i \<longleftrightarrow> uuidPattern (aq_UserParam rq) \<and> i = aq_UserParam rq"
  by (auto simp: natsUserIDFromCtx_def)

lemma natsUserIDFromCtx_Inl: "natsUserIDFromCtx rq = Inl r \<Longrightarrow> r = RBadRequest (ErrOther ''invalid uuid'')"
  by (auto simp: natsUserIDFromCtx_def split: if_splits)

lemma error_replies [simp]:
  "not_found_or_bad e \<noteq> ROk x" "not_found_or_failed e \<noteq> ROk x"
  "not_found_or_bad e \<noteq> RCreated x" "not_found_or_failed e \<noteq> RCreated x"
  by (simp_all add: not_found_or_bad_def not_found_or_failed_def)

text \<open>A handler whose guard refuses changes nothing.\<close>

lemma refused_unchanged:
  "requireMutateAccountAccess rq (account_of_call rq (CCreateUser fr now body)) \<noteq> (None :: unit reply option) \<Longrightarrow>
     snd (Handler_CreateUser lib seed rq fr now body db) = db"
  "requireMutateAccountAccess rq (accountFromCtx rq) \<noteq> (None :: unit reply option) \<Longrightarrow>
     snd (Handler_UpdateUser lib seed rq now cfg db) = db"
  "requireMutateAccountAccess rq (accountFromCtx rq) \<noteq> (None :: unit reply option) \<Longrightarrow>
     fst (snd (Handler_DeleteUser rq db)) = db"
  "requireMutateAccountAccess rq (accountFromCtx rq) \<noteq> (None :: unit reply option) \<Longrightarrow>
     snd (Handler_RotateUser lib seed rq fr now db) = db"
  "requireManageAccountAccess rq (accountFromCtx rq) \<noteq> (None :: unit reply option) \<Longrightarrow>
     fst (snd (Handler_AssignPerson rq i now person db)) = db"
  "requireMutateAccountAccess rq (account_of_call rq (CCreateSigningGroup i now gbody)) \<noteq> (None :: unit reply option) \<Longrightarrow>
     snd (Handler_CreateSigningGroup rq i now gbody db) = db"
  "requireMutateAccountAccess rq (accountFromCtx rq) \<noteq> (None :: unit reply option) \<Longrightarrow>
     snd (Handler_UpdateSigningGroup rq i now gupd db) = db"
  "requireMutateAccountAccess rq (accountFromCtx rq) \<noteq> (None :: unit reply option) \<Longrightarrow>
     snd (Handler_DeleteSigningGroup rq i db) = db"
  "requireMutateAccountAccess rq (account_of_call rq (CCreateExport i now ebody)) \<noteq> (None :: unit reply option) \<Longrightarrow>
     snd (Handler_CreateExport rq i now ebody db) = db"
  "requireMutateAccountAccess rq (accountFromCtx rq) \<noteq> (None :: unit reply option) \<Longrightarrow>
     snd (Handler_UpdateExport rq i now ebody db) = db"
  "requireMutateAccountAccess rq (accountFromCtx rq) \<noteq> (None :: unit reply option) \<Longrightarrow>
     snd (Handler_DeleteExport rq i db) = db"
  unfolding guards_pass
  by (auto simp: Handler_CreateUser_def Handler_UpdateUser_def Handler_DeleteUser_def Handler_RotateUser_def
      Handler_AssignPerson_def Handler_CreateSigningGroup_def Handler_UpdateSigningGroup_def
      Handler_DeleteSigningGroup_def Handler_CreateExport_def Handler_UpdateExport_def Handler_DeleteExport_def
      Let_def default_account_def guards_pass split: option.splits sum.splits prod.splits)

text \<open>What lies outside an account: the rows of all others.\<close>

definition outside ::
  "string \<Rightarrow> string \<Rightarrow> AccountDB \<Rightarrow> NATSUserRow list \<times> SigningGroup list \<times> NATSAccountExport list" where
  "outside c a db = (filter (\<lambda>r. \<not> nats_user_in c a r) (ad_users db),
     filter (\<lambda>g. \<not> group_in c a g) (ad_groups db), filter (\<lambda>e. \<not> export_in c a e) (ad_exports db))"

lemma filter_map_inside:
  assumes "\<And>x. Q x \<Longrightarrow> P x \<and> P (f x)"
  shows "filter (\<lambda>x. \<not> P x) (map (\<lambda>x. if Q x then f x else x) xs) = filter (\<lambda>x. \<not> P x) xs"
  using assms by (induction xs) auto

lemma filter_filter_inside:
  assumes "\<And>x. Q x \<Longrightarrow> P x"
  shows "filter (\<lambda>x. \<not> P x) (filter (\<lambda>x. \<not> Q x) xs) = filter (\<lambda>x. \<not> P x) xs"
  using assms by (induction xs) auto

lemma same_uuid_lower [simp]: "same_uuid (ToLower c) c" "same_uuid c c"
  by (simp_all add: same_uuid_def)

lemma outside_update:
  assumes "\<And>r. nats_user_in c a (f r) = nats_user_in c a r"
  shows "outside c a (update_nats_user c a uid f db) = outside c a db"
proof -
  have "filter (\<lambda>r. \<not> nats_user_in c a r) (map (\<lambda>r. if is_nats_user c a uid r then f r else r) (ad_users db)) =
      filter (\<lambda>r. \<not> nats_user_in c a r) (ad_users db)"
    by (rule filter_map_inside) (simp add: is_nats_user_def assms)
  then show ?thesis by (simp add: outside_def update_nats_user_def)
qed

lemma nats_user_in_set [simp]:
  "nats_user_in c a (set_config cf now r) = nats_user_in c a r"
  "nats_user_in c a (set_jwt j now r) = nats_user_in c a r"
  "nats_user_in c a (set_keys pub s j now r) = nats_user_in c a r"
  "nats_user_in c a (set_assigned p now r) = nats_user_in c a r"
  by (simp_all add: nats_user_in_def set_config_def set_jwt_def set_keys_def set_assigned_def)

lemma outside_set_grants [simp]: "outside c a (set_grants f db) = outside c a db"
  by (simp add: outside_def set_grants_def)

lemma outside_ensure:
  assumes "EnsureDefaultSigningGroup db i now c a = Inr db'" and "a \<noteq> []"
  shows "outside c a db' = outside c a db"
  using assms by (auto simp: EnsureDefaultSigningGroup_def Let_def outside_def group_in_def in_account_def
      default_account_def split: if_splits)

lemma outside_create_user:
  assumes "nk_AccountName i \<noteq> []"
  shows "outside (nk_ClusterID i) (nk_AccountName i) (snd (CreateNATSAccountUserWithSeed lib db fr now i seed)) =
    outside (nk_ClusterID i) (nk_AccountName i) db"
proof -
  let ?out = "outside (nk_ClusterID i) (nk_AccountName i)"
  show ?thesis
  proof (cases "EnsureDefaultSigningGroup db (fr_GroupID fr) now (nk_ClusterID i) (nk_AccountName i)")
    case (Inl e)
    then show ?thesis using assms
      by (simp add: CreateNATSAccountUserWithSeed_def Let_def normalizeUserCreateLimits_def default_account_def)
  next
    case (Inr db1)
    have "?out (snd (CreateNATSAccountUserWithSeed lib db fr now i seed)) = ?out db1"
      using assms Inr
      by (simp add: CreateNATSAccountUserWithSeed_def Let_def normalizeUserCreateLimits_def default_account_def
          outside_def nats_user_in_def in_account_def split: sum.splits)
    also have "\<dots> = ?out db" by (rule outside_ensure [OF Inr assms])
    finally show ?thesis .
  qed
qed

lemma outside_delete_user: "outside c a (snd (DeleteNATSAccountUser db c a uid)) = outside c a db"
proof -
  have "filter (\<lambda>r. \<not> nats_user_in c a r) (filter (\<lambda>r. \<not> is_nats_user c a uid r) (ad_users db)) =
      filter (\<lambda>r. \<not> nats_user_in c a r) (ad_users db)"
    by (rule filter_filter_inside) (simp add: is_nats_user_def)
  then show ?thesis by (simp add: DeleteNATSAccountUser_def Let_def outside_def set_grants_def)
qed

lemma outside_user_ops:
  "outside c a (snd (UpdateNATSAccountUser lib db now c a uid cfg seed)) = outside c a db"
  "outside c a (snd (RotateNATSAccountUser lib db fr now c a uid seed)) = outside c a db"
  "outside c a (snd (MintNATSAccountUserJWT lib db now c a uid seed)) = outside c a db"
  "outside c a (snd (AssignNATSAccountUserPerson db gid now c a uid p)) = outside c a db"
  by (auto simp: UpdateNATSAccountUser_def RotateNATSAccountUser_def MintNATSAccountUserJWT_def
      AssignNATSAccountUserPerson_def Let_def outside_update split: sum.splits)

lemma outside_list_groups:
  assumes "a \<noteq> []"
  shows "outside c a (snd (ListSigningGroups db i now c a)) = outside c a db"
  using outside_ensure [OF _ assms] by (auto simp: ListSigningGroups_def split: sum.splits)

lemma outside_create_group:
  assumes "sk_AccountName i \<noteq> []"
  shows "outside (sk_ClusterID i) (sk_AccountName i) (snd (CreateSigningGroup db gid now i)) =
    outside (sk_ClusterID i) (sk_AccountName i) db"
  using assms by (simp add: CreateSigningGroup_def Let_def outside_def default_account_def group_in_def in_account_def)

lemma outside_group_ops:
  "outside c a (snd (UpdateSigningGroup db now c a gid u)) = outside c a db"
  "outside c a (snd (DeleteSigningGroup db c a gid)) = outside c a db"
proof -
  have "filter (\<lambda>g. \<not> group_in c a g) (map (\<lambda>g. if is_group c a gid g then set_group u now g else g) (ad_groups db)) =
      filter (\<lambda>g. \<not> group_in c a g) (ad_groups db)"
    by (rule filter_map_inside) (simp add: is_group_def group_in_def set_group_def)
  then show "outside c a (snd (UpdateSigningGroup db now c a gid u)) = outside c a db"
    by (simp add: UpdateSigningGroup_def Let_def outside_def split: option.splits)
  have "filter (\<lambda>g. \<not> group_in c a g)
      (filter (\<lambda>g. \<not> (is_group c a gid g \<and> sg_Name g \<noteq> ''Default'')) (ad_groups db)) =
      filter (\<lambda>g. \<not> group_in c a g) (ad_groups db)"
    by (rule filter_filter_inside) (simp add: is_group_def)
  then show "outside c a (snd (DeleteSigningGroup db c a gid)) = outside c a db"
    unfolding DeleteSigningGroup_def Let_def outside_def by (simp split: option.splits)
qed

lemma outside_export_ops:
  "a \<noteq> [] \<Longrightarrow> outside c a (snd (CreateNATSAccountExport db i now c a k n s d)) = outside c a db"
  "outside c a (snd (UpdateNATSAccountExport db now c a i n s d)) = outside c a db"
  "outside c a (snd (DeleteNATSAccountExport db c a i)) = outside c a db"
proof -
  show "a \<noteq> [] \<Longrightarrow> outside c a (snd (CreateNATSAccountExport db i now c a k n s d)) = outside c a db"
    by (simp add: CreateNATSAccountExport_def Let_def outside_def default_account_def export_in_def in_account_def)
  let ?u = "\<lambda>e. e\<lparr>ex_Name := n, ex_Subject := s, ex_Description := d, ex_UpdatedAt := now\<rparr>"
  have "filter (\<lambda>e. \<not> export_in c a e) (map (\<lambda>e. if is_export c a i e then ?u e else e) (ad_exports db)) =
      filter (\<lambda>e. \<not> export_in c a e) (ad_exports db)"
    by (rule filter_map_inside) (simp add: is_export_def export_in_def)
  then show "outside c a (snd (UpdateNATSAccountExport db now c a i n s d)) = outside c a db"
    by (simp add: UpdateNATSAccountExport_def Let_def outside_def split: option.splits)
  have "filter (\<lambda>e. \<not> export_in c a e) (filter (\<lambda>e. \<not> is_export c a i e) (ad_exports db)) =
      filter (\<lambda>e. \<not> export_in c a e) (ad_exports db)"
    by (rule filter_filter_inside) (simp add: is_export_def)
  then show "outside c a (snd (DeleteNATSAccountExport db c a i)) = outside c a db"
    by (simp add: DeleteNATSAccountExport_def Let_def outside_def)
qed

lemma accountFromCtx_nonempty [simp]: "accountFromCtx rq \<noteq> []"
  by (simp add: accountFromCtx_def Let_def)

lemma outside_reads:
  "outside (cid rq) (accountFromCtx rq) (snd (Handler_SubjectPermissions rq i now s db)) =
     outside (cid rq) (accountFromCtx rq) db"
  "outside (cid rq) (accountFromCtx rq) (snd (Handler_ListSigningGroups rq i now db)) =
     outside (cid rq) (accountFromCtx rq) db"
proof -
  have ls: "outside c a (snd (ListSubjectPermissions db i now c a s)) = outside c a db" if "a \<noteq> []" for c a s
    using outside_list_groups [OF that, of c db i now]
    by (cases "ListSigningGroups db i now c a") (auto simp: ListSubjectPermissions_def Let_def split: sum.splits)
  show "outside (cid rq) (accountFromCtx rq) (snd (Handler_SubjectPermissions rq i now s db)) =
      outside (cid rq) (accountFromCtx rq) db"
    using ls [of "accountFromCtx rq" "cid rq" "TrimSpace s"]
    by (auto simp: Handler_SubjectPermissions_def Let_def split: option.splits prod.splits sum.splits)
  show "outside (cid rq) (accountFromCtx rq) (snd (Handler_ListSigningGroups rq i now db)) =
      outside (cid rq) (accountFromCtx rq) db"
    using outside_list_groups [of "accountFromCtx rq" "cid rq" db i now]
    by (auto simp: Handler_ListSigningGroups_def Let_def split: option.splits prod.splits sum.splits)
qed

lemma outside_creates:
  "outside (cid rq) (account_of_call rq (CCreateUser fr now body)) (snd (Handler_CreateUser lib seed rq fr now body db)) =
     outside (cid rq) (account_of_call rq (CCreateUser fr now body)) db"
  "outside (cid rq) (account_of_call rq (CCreateSigningGroup i now gbody)) (snd (Handler_CreateSigningGroup rq i now gbody db)) =
     outside (cid rq) (account_of_call rq (CCreateSigningGroup i now gbody)) db"
  "outside (cid rq) (account_of_call rq (CCreateExport i now ebody)) (snd (Handler_CreateExport rq i now ebody db)) =
     outside (cid rq) (account_of_call rq (CCreateExport i now ebody)) db"
proof -
  show "outside (cid rq) (account_of_call rq (CCreateUser fr now body)) (snd (Handler_CreateUser lib seed rq fr now body db)) =
      outside (cid rq) (account_of_call rq (CCreateUser fr now body)) db"
  proof (cases body)
    case (Some b)
    obtain n a cf where b: "b = (n, a, cf)" by (cases b)
    define ca where "ca = \<lparr>nk_ClusterID = cid rq, nk_AccountName = default_account a, nk_Name = n, nk_Config = cf\<rparr>"
    have "default_account a \<noteq> []" by (simp add: default_account_def)
    with outside_create_user [of ca lib db fr now seed] show ?thesis
      unfolding Some b ca_def
      by (auto simp: Handler_CreateUser_def Let_def default_account_def split: option.splits prod.splits sum.splits)
  qed (simp add: Handler_CreateUser_def)
  show "outside (cid rq) (account_of_call rq (CCreateSigningGroup i now gbody)) (snd (Handler_CreateSigningGroup rq i now gbody db)) =
     outside (cid rq) (account_of_call rq (CCreateSigningGroup i now gbody)) db"
  proof (cases gbody)
    case (Some b)
    obtain n a u where b: "b = (n, a, u)" by (cases b)
    define a' where "a' = (if a = [] then accountFromCtx rq else a)"
    define ca where "ca = SigningGroupUpdate.extend u (SigningGroupCreate.fields (cid rq) a' n)"
    have "a' \<noteq> []" "sk_AccountName ca = a'" "sk_ClusterID ca = cid rq"
      by (simp_all add: a'_def ca_def SigningGroupUpdate.extend_def SigningGroupCreate.fields_def)
    with outside_create_group [of ca db i now] show ?thesis
      unfolding Some b ca_def a'_def
      by (auto simp: Handler_CreateSigningGroup_def Let_def split: option.splits prod.splits sum.splits)
  qed (simp add: Handler_CreateSigningGroup_def)
  show "outside (cid rq) (account_of_call rq (CCreateExport i now ebody)) (snd (Handler_CreateExport rq i now ebody db)) =
     outside (cid rq) (account_of_call rq (CCreateExport i now ebody)) db"
  proof (cases ebody)
    case (Some e)
    have "default_account (ce_AccountName e) \<noteq> []" by (simp add: default_account_def)
    from outside_export_ops(1) [OF this, of "cid rq" db i now "ce_Kind e" "ce_Name e" "ce_Subject e" "ce_Description e"]
    show ?thesis unfolding Some
      by (auto simp: Handler_CreateExport_def Let_def default_account_def split: option.splits prod.splits sum.splits)
  qed (simp add: Handler_CreateExport_def)
qed

lemma outside_result:
  "f = (r, d) \<Longrightarrow> outside c a (snd f) = outside c a db \<Longrightarrow> outside c a d = outside c a db"
  by simp

lemma outside_changes:
  "outside (cid rq) (accountFromCtx rq) (snd (Handler_UpdateUser lib seed rq now cfg db)) = outside (cid rq) (accountFromCtx rq) db"
  "outside (cid rq) (accountFromCtx rq) (fst (snd (Handler_DeleteUser rq db))) = outside (cid rq) (accountFromCtx rq) db"
  "outside (cid rq) (accountFromCtx rq) (snd (Handler_RotateUser lib seed rq fr now db)) = outside (cid rq) (accountFromCtx rq) db"
  "outside (cid rq) (accountFromCtx rq) (snd (Handler_MintJWT lib seed rq now db)) = outside (cid rq) (accountFromCtx rq) db"
  "outside (cid rq) (accountFromCtx rq) (fst (snd (Handler_AssignPerson rq i now p db))) = outside (cid rq) (accountFromCtx rq) db"
  "outside (cid rq) (accountFromCtx rq) (snd (Handler_UpdateSigningGroup rq g now u db)) = outside (cid rq) (accountFromCtx rq) db"
  "outside (cid rq) (accountFromCtx rq) (snd (Handler_DeleteSigningGroup rq g db)) = outside (cid rq) (accountFromCtx rq) db"
  "outside (cid rq) (accountFromCtx rq) (snd (Handler_UpdateExport rq e now b db)) = outside (cid rq) (accountFromCtx rq) db"
  "outside (cid rq) (accountFromCtx rq) (snd (Handler_DeleteExport rq e db)) = outside (cid rq) (accountFromCtx rq) db"
  by (auto simp: Handler_UpdateUser_def Handler_DeleteUser_def Handler_RotateUser_def Handler_MintJWT_def
      Handler_AssignPerson_def Handler_UpdateSigningGroup_def Handler_DeleteSigningGroup_def
      Handler_UpdateExport_def Handler_DeleteExport_def Let_def split: option.splits sum.splits prod.splits
      elim!: outside_result intro: outside_user_ops outside_delete_user outside_group_ops outside_export_ops(2,3))

section \<open>Properties\<close>

text \<open>C28: a call stays in its account.  Whatever an account route does, the NATS users, signing
  groups and exports of every other account and of every other cluster are left as they are.\<close>

theorem account_isolation:
  "outside (cid rq) (account_of_call rq call) (serve lib seed rq call db) =
   outside (cid rq) (account_of_call rq call) db"
proof (cases call)
  case (CCreateUser fr now body)
  then show ?thesis by (simp only: serve.simps outside_creates)
next
  case (CCreateSigningGroup i now body)
  then show ?thesis by (simp only: serve.simps outside_creates)
next
  case (CCreateExport i now body)
  then show ?thesis by (simp only: serve.simps outside_creates)
qed (simp_all add: outside_reads outside_changes)

text \<open>What a change needs: to mint a token the right to download it, to assign a person the
  management of the account, for the rest management or the right to write to the cluster.\<close>

fun change_right :: "User \<Rightarrow> AccountRequest \<Rightarrow> account_call \<Rightarrow> bool" where
  "change_right u rq (CMintJWT _) \<longleftrightarrow> CanAccessAccount u (cid rq) (accountFromCtx rq) \<and>
     CanDownloadCreds u (cid rq) (accountFromCtx rq) (aq_UserParam rq)"
| "change_right u rq (CAssignPerson _ _ _) \<longleftrightarrow> CanManageAccountAccess u (cid rq) (accountFromCtx rq)"
| "change_right u rq call \<longleftrightarrow> CanAccessAccount u (cid rq) (account_of_call rq call) \<and>
     (CanManageAccountAccess u (cid rq) (account_of_call rq call) \<or> CanWriteCluster u (cid rq))"

lemma mint_refused_unchanged:
  "\<not> (\<exists>u. aq_Actor rq = Some u \<and> change_right u rq (CMintJWT now)) \<Longrightarrow>
   snd (Handler_MintJWT lib seed rq now db) = db"
  by (auto simp: Handler_MintJWT_def Let_def guards_pass split: option.splits sum.splits prod.splits)

lemma reads_frame:
  "ad_users (snd (ListSigningGroups db i now c a)) = ad_users db"
  "ad_people (snd (ListSigningGroups db i now c a)) = ad_people db"
  "ad_exports (snd (ListSigningGroups db i now c a)) = ad_exports db"
  "set (ad_groups db) \<subseteq> set (ad_groups (snd (ListSigningGroups db i now c a)))"
  "g \<in> set (ad_groups (snd (ListSigningGroups db i now c a))) - set (ad_groups db) \<Longrightarrow>
     sg_Name g = ''Default'' \<and> \<not> sg_Scoped g"
  by (auto simp: ListSigningGroups_def EnsureDefaultSigningGroup_def Let_def split: sum.splits if_splits)

text \<open>A change that is more than the default group, which reading an account creates.\<close>

definition changed :: "AccountDB \<Rightarrow> AccountDB \<Rightarrow> bool" where
  "changed db db' \<longleftrightarrow> ad_users db' \<noteq> ad_users db \<or> ad_people db' \<noteq> ad_people db \<or>
     ad_exports db' \<noteq> ad_exports db \<or> \<not> set (ad_groups db) \<subseteq> set (ad_groups db') \<or>
     (\<exists>g\<in>set (ad_groups db') - set (ad_groups db). sg_Name g \<noteq> ''Default'' \<or> sg_Scoped g)"

lemma changed_refl [simp]: "\<not> changed db db"
  by (simp add: changed_def)

lemma reads_unchanged:
  "\<not> changed db (snd (Handler_SubjectPermissions rq i now s db))"
  "\<not> changed db (snd (Handler_ListSigningGroups rq i now db))"
proof -
  have ls: "\<not> changed db (snd (ListSigningGroups db i now c a))" for c a
    using reads_frame(5) [of _ db i now c a] by (auto simp: changed_def reads_frame(1-3) dest: subsetD [OF reads_frame(4)])
  have "snd (ListSubjectPermissions db i now c a s) = snd (ListSigningGroups db i now c a)" for c a s
    by (cases "ListSigningGroups db i now c a") (auto simp: ListSubjectPermissions_def Let_def split: sum.splits)
  with ls have lp: "\<not> changed db (snd (ListSubjectPermissions db i now c a s))" for c a s by simp
  show "\<not> changed db (snd (Handler_SubjectPermissions rq i now s db))"
    using lp [of "cid rq" "accountFromCtx rq" "TrimSpace s"]
    by (auto simp: Handler_SubjectPermissions_def Let_def split: option.splits prod.splits sum.splits)
  show "\<not> changed db (snd (Handler_ListSigningGroups rq i now db))"
    using ls [of "cid rq" "accountFromCtx rq"]
    by (auto simp: Handler_ListSigningGroups_def Let_def split: option.splits prod.splits sum.splits)
qed

text \<open>C10: every change of an account is authorized.  If an account route changes the database,
  apart from creating the default signing group, the caller is authenticated and has the right
  that the kind of change needs, on the account that is changed.\<close>

theorem account_changes_authorized:
  assumes "changed db (serve lib seed rq call db)"
  shows "\<exists>u. aq_Actor rq = Some u \<and> change_right u rq call"
proof (rule ccontr)
  assume no: "\<not> ?thesis"
  have "serve lib seed rq call db = db \<or> \<not> changed db (serve lib seed rq call db)"
  proof (cases call)
    case (CMintJWT now)
    then show ?thesis using no mint_refused_unchanged [of rq now lib seed db] by (simp only: serve.simps) blast
  next
    case (CAssignPerson i now p)
    then have "requireManageAccountAccess rq (accountFromCtx rq) \<noteq> (None :: unit reply option)"
      using no by (simp add: guards_pass)
    then show ?thesis using CAssignPerson by (simp add: refused_unchanged)
  qed (use no in \<open>(simp_all only: serve.simps reads_unchanged refused_unchanged guards_pass change_right.simps
      account_of_call.simps not_False_eq_True simp_thms)\<close>)
  with assms changed_refl show False by metis
qed

lemma rows_identified:
  assumes "find (is_nats_user c a i) (ad_users db) = Some r"
  shows "nu_AccountName (scanNATSAccountUser r) = a" and "same_uuid i (nu_ID (scanNATSAccountUser r))"
proof -
  have "is_nats_user c a i r" using assms by (auto simp: find_Some_iff)
  then show "nu_AccountName (scanNATSAccountUser r) = a" "same_uuid i (nu_ID (scanNATSAccountUser r))"
    by (auto simp: is_nats_user_def nats_user_in_def in_account_def same_uuid_def scanNATSAccountUser_def)
qed

lemma creds_identified:
  assumes "GetNATSAccountUserCreds lib db c a i = Inr creds"
  shows "nu_AccountName (cr_User creds) = a \<and> same_uuid i (nu_ID (cr_User creds))"
  using assms rows_identified by (auto simp: GetNATSAccountUserCreds_def split: option.splits sum.splits)

lemma minted_identified:
  assumes "MintNATSAccountUserJWT lib db now c a i seed = (Inr creds, db')"
  shows "nu_AccountName (cr_User creds) = a \<and> same_uuid i (nu_ID (cr_User creds))"
  using assms creds_identified [of lib db c a i]
  by (auto simp: MintNATSAccountUserJWT_def split: sum.splits if_splits)

lemma created_identified:
  assumes "CreateNATSAccountUserWithSeed lib db fr now i seed = (Inr creds, db')" and "nk_AccountName i \<noteq> []"
  shows "nu_AccountName (cr_User creds) = nk_AccountName i"
  using assms by (auto simp: CreateNATSAccountUserWithSeed_def Let_def normalizeUserCreateLimits_def
      default_account_def split: sum.splits if_splits)

lemma redacted:
  assumes "creds = redactNATSCredsUnlessAllowed rq a full"
    and "cr_Seed creds \<noteq> [] \<or> cr_JWT creds \<noteq> [] \<or> cr_Cred creds \<noteq> []"
  shows "creds = full" and "\<exists>u. aq_Actor rq = Some u \<and> CanDownloadCreds u (cid rq) a (nu_ID (cr_User full))"
  using assms by (auto simp: redactNATSCredsUnlessAllowed_def split: option.splits if_splits)

text \<open>Who gets credentials: an authenticated caller who may download those of this NATS user.\<close>

definition may_see_creds :: "AccountRequest \<Rightarrow> NATSAccountUserCreds \<Rightarrow> bool" where
  "may_see_creds rq creds \<longleftrightarrow> (\<exists>u i. aq_Actor rq = Some u \<and> same_uuid i (nu_ID (cr_User creds)) \<and>
     CanDownloadCreds u (cid rq) (nu_AccountName (cr_User creds)) i)"

lemma download_protected:
  assumes "Handler_DownloadCreds lib rq db = ROk creds"
  shows "may_see_creds rq creds"
proof -
  let ?a = "accountFromCtx rq" and ?i = "aq_UserParam rq"
  have "requireDownloadCreds rq ?a ?i = (None :: unit reply option)"
    and c: "GetNATSAccountUserCreds lib db (cid rq) ?a ?i = Inr creds"
    using assms by (auto simp: Handler_DownloadCreds_def Let_def guards_pass
        split: sum.splits option.splits dest: guards_reply natsUserIDFromCtx_Inl)
  then show ?thesis using creds_identified [OF c] by (auto simp: may_see_creds_def guards_pass)
qed

lemma mint_protected:
  assumes "fst (Handler_MintJWT lib seed rq now db) = ROk creds"
  shows "may_see_creds rq creds"
proof -
  let ?a = "accountFromCtx rq" and ?i = "aq_UserParam rq"
  obtain db' where "requireDownloadCreds rq ?a ?i = (None :: unit reply option)"
    and c: "MintNATSAccountUserJWT lib db now (cid rq) ?a ?i seed = (Inr creds, db')"
    using assms by (auto simp: Handler_MintJWT_def Let_def guards_pass
        split: sum.splits option.splits prod.splits dest: guards_reply natsUserIDFromCtx_Inl)
  then show ?thesis using minted_identified [OF c] by (auto simp: may_see_creds_def guards_pass)
qed

lemma create_protected:
  assumes "fst (Handler_CreateUser lib seed rq fr now body db) = RCreated creds"
    and "cr_Seed creds \<noteq> [] \<or> cr_JWT creds \<noteq> [] \<or> cr_Cred creds \<noteq> []"
  shows "may_see_creds rq creds"
proof -
  obtain n a cf full db' where a: "a \<noteq> []" and red: "creds = redactNATSCredsUnlessAllowed rq a full"
    and new: "CreateNATSAccountUserWithSeed lib db fr now \<lparr>nk_ClusterID = cid rq,
      nk_AccountName = a, nk_Name = n, nk_Config = cf\<rparr> seed = (Inr full, db')"
    using assms(1) by (fastforce simp: Handler_CreateUser_def Let_def
        split: sum.splits option.splits prod.splits if_splits dest: guards_reply)
  have "nu_AccountName (cr_User full) = a" using created_identified [OF new] a by simp
  with redacted [OF red assms(2)] same_uuid_lower(2) show ?thesis unfolding may_see_creds_def by metis
qed

text \<open>C11: seeds and tokens go only to those who may download them.  If the creation of a NATS
  user, the download of its credentials or the minting of its token answers with a seed, a
  token or a credentials file, the caller is authenticated and has the right to download the
  credentials of that NATS user in that account.\<close>

theorem creds_protected:
  assumes "Handler_DownloadCreds lib rq db = ROk creds \<or> fst (Handler_MintJWT lib seed rq now db) = ROk creds \<or>
      fst (Handler_CreateUser lib seed rq fr now body db) = RCreated creds"
    and "cr_Seed creds \<noteq> [] \<or> cr_JWT creds \<noteq> [] \<or> cr_Cred creds \<noteq> []"
  shows "\<exists>u i. aq_Actor rq = Some u \<and> same_uuid i (nu_ID (cr_User creds)) \<and>
    CanDownloadCreds u (cid rq) (nu_AccountName (cr_User creds)) i"
  using assms download_protected mint_protected create_protected unfolding may_see_creds_def by blast

lemma granted_iff:
  assumes "i \<noteq> []" and "CHR '':'' \<notin> set i"
  shows "i \<in> set (grantedNATSUserIDs u c a) \<longleftrightarrow>
    (\<exists>g\<in>set (u_Grants u). g_ResourceType g = ResourceNATSUser \<and> g_ResourceKey g = NATSUserResourceKey c a i)"
proof -
  have nc: "\<not> Contains i '':''" using assms(2) by (auto simp: Contains_iff)
  have key: "NATSUserResourceKey c a i = (AccountResourceKey c a @ '':'') @ i"
    by (simp add: NATSUserResourceKey_def AccountResourceKey_def)
  have "g \<in> set (u_Grants u) \<and> g_ResourceType g = ResourceNATSUser \<and>
      HasPrefix (g_ResourceKey g) (AccountResourceKey c a @ '':'') \<and>
      TrimPrefix (g_ResourceKey g) (AccountResourceKey c a @ '':'') = i \<longleftrightarrow>
      g \<in> set (u_Grants u) \<and> g_ResourceType g = ResourceNATSUser \<and> g_ResourceKey g = NATSUserResourceKey c a i" for g
    unfolding key by (auto simp only: HasPrefix_iff TrimPrefix_append)
  moreover have "i \<in> set (grantedNATSUserIDs u c a) \<longleftrightarrow> (\<exists>g. g \<in> set (u_Grants u) \<and>
      g_ResourceType g = ResourceNATSUser \<and> HasPrefix (g_ResourceKey g) (AccountResourceKey c a @ '':'') \<and>
      TrimPrefix (g_ResourceKey g) (AccountResourceKey c a @ '':'') = i)"
  proof -
    define t where "t = (\<lambda>g :: AccessGrant. TrimPrefix (g_ResourceKey g) (AccountResourceKey c a @ '':''))"
    define Q where "Q = (\<lambda>g :: AccessGrant. g_ResourceType g = ResourceNATSUser \<and>
      HasPrefix (g_ResourceKey g) (AccountResourceKey c a @ '':''))"
    have "grantedNATSUserIDs u c a = map t (filter (\<lambda>g. Q g \<and> \<not> (IsEmpty (t g) \<or> Contains (t g) '':'')) (u_Grants u))"
      unfolding grantedNATSUserIDs_def Let_def t_def Q_def conj_assoc by (rule refl)
    then have "i \<in> set (grantedNATSUserIDs u c a) \<longleftrightarrow> (\<exists>g. g \<in> set (u_Grants u) \<and> Q g \<and> t g = i)"
      using nc assms(1) by auto
    then show ?thesis by (simp only: Q_def t_def conj_assoc)
  qed
  ultimately show ?thesis by blast
qed

lemma uuid_no_colon:
  assumes "uuidPattern i"
  shows "CHR '':'' \<notin> set i" and "i \<noteq> []"
proof -
  have "\<not> is_hex CHR '':''" by (simp add: is_hex_def)
  then show "CHR '':'' \<notin> set i" using uuidPattern_chars(1) [OF assms] by auto
  show "i \<noteq> []" by (rule uuidPattern_chars(2) [OF assms])
qed

lemma find_only:
  assumes "r \<in> set xs" and "P r" and "\<And>s. s \<in> set xs \<Longrightarrow> P s \<Longrightarrow> s = r"
  shows "find P xs = Some r"
  using assms
proof (induction xs)
  case (Cons x xs)
  show ?case
  proof (cases "P x")
    case True
    with Cons.prems(3) [of x] show ?thesis by simp
  next
    case False
    with Cons.prems(1,2) have "r \<in> set xs" by auto
    from Cons.IH [OF this Cons.prems(2)] Cons.prems(3) False show ?thesis by simp
  qed
qed simp

text \<open>A caller sees the NATS users granted, in the list and one by one.  A NATS user is
  shown to an authenticated caller who asks for it exactly when it is in the list the caller
  gets, and this is when the caller may enter the account and has access to the cluster, a grant
  on the account, or a grant on this very user.\<close>

theorem nats_user_view_exact:
  assumes "unique_nats_users db" and "r \<in> set (ad_users db)" and "nats_user_in (cid rq) (accountFromCtx rq) r"
    and "aq_UserParam rq = nu_ID (nr_User r)" and "uuidPattern (aq_UserParam rq)" and "aq_Actor rq = Some u"
  shows "let c = cid rq; a = accountFromCtx rq; shown = (Handler_GetUser rq db = ROk (scanNATSAccountUser r))
    in (shown \<longleftrightarrow> (\<exists>us. Handler_ListUsers rq db = ROk us \<and> scanNATSAccountUser r \<in> set us)) \<and>
       (shown \<longleftrightarrow> CanAccessAccount u c a \<and> (CanAccessCluster u c \<or>
          (\<exists>g\<in>set (u_Grants u). g_ResourceType g = ResourceAccount \<and> g_ResourceKey g = AccountResourceKey c a \<or>
             g_ResourceType g = ResourceNATSUser \<and> g_ResourceKey g = NATSUserResourceKey c a (nu_ID (nr_User r)))))"
proof -
  let ?c = "cid rq" and ?a = "accountFromCtx rq" and ?i = "aq_UserParam rq"
  have self: "is_nats_user ?c ?a ?i r" using assms(3,4) by (simp add: is_nats_user_def)
  have only: "s = r" if "s \<in> set (ad_users db)" "is_nats_user ?c ?a ?i s" for s
  proof -
    have "ToLower (nu_ID (nr_User s)) = ToLower (nu_ID (nr_User r))"
      using that(2) assms(4) by (simp add: is_nats_user_def same_uuid_def)
    then show ?thesis using assms(1,2) that(1) unfolding unique_nats_users_def distinct_map inj_on_def by blast
  qed
  have "find (is_nats_user ?c ?a ?i) (ad_users db) = Some r" using assms(2) self only by (rule find_only)
  then have get: "GetNATSAccountUser db ?c ?a ?i = Inr (scanNATSAccountUser r)" by (simp add: GetNATSAccountUser_def)

  have shown: "Handler_GetUser rq db = ROk (scanNATSAccountUser r) \<longleftrightarrow>
      CanAccessAccount u ?c ?a \<and> canViewNATSUser u ?c ?a ?i"
    using assms(5,6) get
    by (simp add: Handler_GetUser_def Let_def guard_defs natsUserIDFromCtx_def)
  have listed: "scanNATSAccountUser r \<in> set (ListNATSAccountUsers db ?c ?a)"
    using assms(2,3) by (simp add: ListNATSAccountUsers_def)
  have lst: "(\<exists>us. Handler_ListUsers rq db = ROk us \<and> scanNATSAccountUser r \<in> set us) \<longleftrightarrow>
      CanAccessAccount u ?c ?a \<and> canViewNATSUser u ?c ?a ?i"
    using assms(4,6) listed
    by (simp add: Handler_ListUsers_def Let_def guard_defs filterNATSUsersForGrants_def canViewNATSUser_def)
  have "canViewNATSUser u ?c ?a ?i \<longleftrightarrow> CanAccessCluster u ?c \<or>
      (\<exists>g\<in>set (u_Grants u). g_ResourceType g = ResourceAccount \<and> g_ResourceKey g = AccountResourceKey ?c ?a \<or>
         g_ResourceType g = ResourceNATSUser \<and> g_ResourceKey g = NATSUserResourceKey ?c ?a ?i)"
    using uuid_no_colon [OF assms(5)]
    by (auto simp: canViewNATSUser_def granted_iff canListAllAccountNATSUsers_def list_ex_iff)
  with shown lst show ?thesis unfolding Let_def assms(4) by blast
qed

section \<open>Witnesses, and a leak\<close>

definition nats_uuid :: string where
  "nats_uuid = ''0198a000-0000-7000-8000-0000000000a1''"

definition account_db :: AccountDB where
  "account_db = example_db\<lparr>ad_users := [example_row\<lparr>nr_User := (nr_User example_row)\<lparr>nu_ID := nats_uuid\<rparr>\<rparr>]\<rparr>"

definition operator_user :: User where
  "operator_user = \<lparr>u_CreatedAt = 0,
     u_AccessRules = Some \<lparr>ar_ClusterIDs = [''c1''], ar_AssignableRoles = [], ar_ManageUsers = False,
       ar_ViewAudit = False, ar_DeleteClusters = False\<rparr>,
     u_Grants = [], u_ID = ''op'', u_Username = ''op'', u_Email = [], u_OIDCSub = [],
     u_Roles = [RoleOperator], u_IsRoot = False, u_SessionVersion = 0\<rparr>"

definition request_of :: "User \<Rightarrow> AccountRequest" where
  "request_of u = \<lparr>aq_Actor = Some u, aq_ClusterParam = ''c1'', aq_QueryAccount = [], aq_RouteAccount = [],
     aq_UserParam = nats_uuid\<rparr>"

text \<open>A rotation hands out what a download refuses.  An operator of a cluster, who may not
  download the credentials of a NATS user there and is refused by the download and by the
  minting of a token, gets the new seed and token from the rotation of that user.\<close>

theorem rotate_discloses_creds:
  "\<not> CanDownloadCreds operator_user ''c1'' ''Default'' nats_uuid \<and>
   Handler_DownloadCreds example_lib (request_of operator_user) account_db = RForbidden \<and>
   fst (Handler_MintJWT example_lib ''SA'' (request_of operator_user) 5 account_db) = RForbidden \<and>
   (case fst (Handler_RotateUser example_lib ''SA'' (request_of operator_user) example_fresh 5 account_db) of
      ROk creds \<Rightarrow> cr_Seed creds = ''SU2'' \<and> cr_JWT creds = ''svc'' \<and>
        same_uuid (nu_ID (cr_User creds)) nats_uuid
    | _ \<Rightarrow> False)"
proof (intro conjI)
  show "\<not> CanDownloadCreds operator_user ''c1'' ''Default'' nats_uuid" by code_simp
  show "Handler_DownloadCreds example_lib (request_of operator_user) account_db = RForbidden" by code_simp
  show "fst (Handler_MintJWT example_lib ''SA'' (request_of operator_user) 5 account_db) = RForbidden" by code_simp
  show "case fst (Handler_RotateUser example_lib ''SA'' (request_of operator_user) example_fresh 5 account_db) of
      ROk creds \<Rightarrow> cr_Seed creds = ''SU2'' \<and> cr_JWT creds = ''svc'' \<and>
        same_uuid (nu_ID (cr_User creds)) nats_uuid
    | _ \<Rightarrow> False" by code_simp
qed

definition root_user :: User where
  "root_user = operator_user\<lparr>u_IsRoot := True, u_Roles := [RoleAdmin]\<rparr>"

theorem account_changes_authorized_witness:
  "changed account_db (serve example_lib ''SA'' (request_of operator_user) CDeleteUser account_db) \<and>
   (\<exists>u. aq_Actor (request_of operator_user) = Some u \<and> change_right u (request_of operator_user) CDeleteUser)"
proof -
  have "ad_users (serve example_lib ''SA'' (request_of operator_user) CDeleteUser account_db) \<noteq> ad_users account_db"
    by code_simp
  then have c: "changed account_db (serve example_lib ''SA'' (request_of operator_user) CDeleteUser account_db)"
    by (simp add: changed_def)
  from account_changes_authorized [OF c] c show ?thesis by blast
qed

theorem creds_protected_witness:
  "\<exists>creds. Handler_DownloadCreds example_lib (request_of root_user) account_db = ROk creds \<and>
     (\<exists>u i. aq_Actor (request_of root_user) = Some u \<and> same_uuid i (nu_ID (cr_User creds)) \<and>
        CanDownloadCreds u (cid (request_of root_user)) (nu_AccountName (cr_User creds)) i)"
proof -
  have "case Handler_DownloadCreds example_lib (request_of root_user) account_db of
      ROk creds \<Rightarrow> cr_Seed creds \<noteq> [] | _ \<Rightarrow> False" by code_simp
  then obtain creds where e: "Handler_DownloadCreds example_lib (request_of root_user) account_db = ROk creds"
    and s: "cr_Seed creds \<noteq> []" by (auto split: reply.splits)
  from creds_protected [OF disjI1 [OF e] disjI1 [OF s]] e show ?thesis by blast
qed

theorem nats_user_view_exact_witness:
  "\<exists>r\<in>set (ad_users account_db). Handler_GetUser (request_of operator_user) account_db = ROk (scanNATSAccountUser r) \<and>
     (\<exists>us. Handler_ListUsers (request_of operator_user) account_db = ROk us \<and> scanNATSAccountUser r \<in> set us)"
proof -
  define r where "r = example_row\<lparr>nr_User := (nr_User example_row)\<lparr>nu_ID := nats_uuid\<rparr>\<rparr>"
  have h: "unique_nats_users account_db" "r \<in> set (ad_users account_db)"
    "nats_user_in (cid (request_of operator_user)) (accountFromCtx (request_of operator_user)) r"
    "aq_UserParam (request_of operator_user) = nu_ID (nr_User r)"
    "uuidPattern (aq_UserParam (request_of operator_user))"
    "aq_Actor (request_of operator_user) = Some operator_user"
    unfolding r_def by code_simp+
  have "Handler_GetUser (request_of operator_user) account_db = ROk (scanNATSAccountUser r)"
    unfolding r_def by code_simp
  with nats_user_view_exact [OF h] h(2) show ?thesis unfolding Let_def by blast
qed

end
