(* ===== verification/Access_Grants.thy ===== *)
theory Access_Grants
  imports Users Rbac_Middleware
begin

text \<open>
  Access grants and invitations: \<^verbatim>\<open>internal/repo/access_grants.go\<close> behind the service of
  \<^verbatim>\<open>internal/app/access.go\<close> (which only forwards), and the handlers of
  \<^verbatim>\<open>internal/api/access_handlers.go\<close>.

  The state adds the table \<^verbatim>\<open>user_invites\<close> to the tables of users; the constraints are
  those of \<^verbatim>\<open>migrations/010\<close>.  What a handler does outside the database is a list of effects:
  the invalidation of what is cached of a user, and the start of a session (modelled in
  \<open>Auth_Service\<close>).  \<open>ev_uuid\<close> is how PostgreSQL reads a text as a UUID.
\<close>

section \<open>Tables and environment\<close>

record AccessGrantUpsert =
  gu_UserID :: string
  gu_ResourceType :: string
  gu_ResourceKey :: string
  gu_Role :: string

record UserInvite =
  iv_CreatedAt :: gotime
  iv_ExpiresAt :: gotime
  iv_AcceptedAt :: "gotime option"
  iv_Token :: string
  iv_UserID :: string

record AccessDB =
  xd_users :: UserDB
  xd_invites :: "UserInvite list"

text \<open>\<open>ev_now\<close> and \<open>ev_later\<close>: the two readings of the clock of an acceptance.\<close>

record AccessEnv =
  ev_uuid :: "string \<Rightarrow> string option"
  ev_bcrypt :: bcrypt
  ev_newID :: string
  ev_randomToken :: string
  ev_now :: gotime
  ev_later :: gotime
  ev_InviteTTL :: duration
  ev_PublicBaseURL :: string

section \<open>The repository\<close>

definition validateGrant :: "AccessGrantUpsert \<Rightarrow> domain_error option" where
  "validateGrant i =
     (if gu_ResourceType i \<notin> {ResourceSystem, ResourceAccount, ResourceNATSUser} then
        Some (ErrOther ''invalid resource type'')
      else if gu_Role i \<notin> {GrantAdmin, GrantObserver, GrantCredentialDownloader} then
        Some (ErrOther ''invalid grant role'')
      else if gu_Role i = GrantCredentialDownloader \<and>
              gu_ResourceType i \<noteq> ResourceAccount \<and> gu_ResourceType i \<noteq> ResourceNATSUser then
        Some (ErrOther ''credential_downloader requires account or nats_user resource'')
      else if IsEmpty (TrimSpace (gu_UserID i)) \<or> IsEmpty (TrimSpace (gu_ResourceKey i)) then
        Some (ErrOther ''userId and resourceKey required'')
      else None)"

definition invalid_uuid :: domain_error where
  "invalid_uuid = ErrOther ''invalid input syntax for type uuid''"

definition foreign_key_violation :: domain_error where
  "foreign_key_violation = ErrOther ''violates foreign key constraint''"

definition user_exists :: "UserDB \<Rightarrow> string \<Rightarrow> bool" where
  "user_exists db i \<longleftrightarrow> list_ex (\<lambda>r. r_ID r = i) (db_users db)"

definition grant_at :: "string \<Rightarrow> string \<Rightarrow> string \<Rightarrow> AccessGrant \<Rightarrow> bool" where
  "grant_at userID resourceType resourceKey g \<longleftrightarrow>
     g_UserID g = userID \<and> g_ResourceType g = resourceType \<and> g_ResourceKey g = resourceKey"

definition ListAccessGrantsByUser :: "UserDB \<Rightarrow> string \<Rightarrow> AccessGrant list" where
  "ListAccessGrantsByUser db userID = grants_of db userID"

text \<open>The join adds the name and the address of the user.\<close>

definition ListAccessGrantsByResource :: "UserDB \<Rightarrow> string \<Rightarrow> string \<Rightarrow> AccessGrant list" where
  "ListAccessGrantsByResource db resourceType resourceKey =
     concat (map (\<lambda>g. case find (\<lambda>r. r_ID r = g_UserID g) (db_users db) of
                        None \<Rightarrow> []
                      | Some r \<Rightarrow> [g\<lparr>g_Username := r_Username r, g_Email := r_Email r\<rparr>])
       (filter (\<lambda>g. g_ResourceType g = resourceType \<and> g_ResourceKey g = resourceKey) (db_grants db)))"

definition UpsertAccessGrant ::
  "AccessEnv \<Rightarrow> UserDB \<Rightarrow> AccessGrantUpsert \<Rightarrow> (domain_error, AccessGrant) result \<times> UserDB" where
  "UpsertAccessGrant ev db i =
     (case validateGrant i of
        Some e \<Rightarrow> (Inl e, db)
      | None \<Rightarrow>
          (case ev_uuid ev (gu_UserID i) of
             None \<Rightarrow> (Inl invalid_uuid, db)
           | Some userID \<Rightarrow>
               let here = grant_at userID (gu_ResourceType i) (gu_ResourceKey i) in
               (case find here (db_grants db) of
                  Some g \<Rightarrow>
                    let g' = g\<lparr>g_Role := gu_Role i, g_UpdatedAt := ev_now ev\<rparr> in
                    (Inr g', db\<lparr>db_grants := map (\<lambda>g. if here g then g' else g) (db_grants db)\<rparr>)
                | None \<Rightarrow>
                    if list_ex (\<lambda>g. g_ID g = ev_newID ev) (db_grants db) then (Inl unique_violation, db)
                    else if \<not> user_exists db userID then (Inl foreign_key_violation, db)
                    else
                      let g = \<lparr>g_CreatedAt = ev_now ev, g_UpdatedAt = ev_now ev, g_ID = ev_newID ev,
                               g_UserID = userID, g_ResourceType = gu_ResourceType i,
                               g_ResourceKey = gu_ResourceKey i, g_Role = gu_Role i,
                               g_Username = [], g_Email = []\<rparr> in
                      (Inr g, db\<lparr>db_grants := db_grants db @ [g]\<rparr>))))"

definition DeleteAccessGrantScoped ::
  "AccessEnv \<Rightarrow> UserDB \<Rightarrow> string \<Rightarrow> string \<Rightarrow> string \<Rightarrow> (domain_error, string) result \<times> UserDB" where
  "DeleteAccessGrantScoped ev db grantID resourceType resourceKey =
     (case ev_uuid ev grantID of
        None \<Rightarrow> (Inl invalid_uuid, db)
      | Some i \<Rightarrow>
          let hit = (\<lambda>g. g_ID g = i \<and> g_ResourceType g = resourceType \<and> g_ResourceKey g = resourceKey) in
          (case find hit (db_grants db) of
             None \<Rightarrow> (Inl ErrNotFound, db)
           | Some g \<Rightarrow> (Inr (g_UserID g), db\<lparr>db_grants := filter (\<lambda>g. \<not> hit g) (db_grants db)\<rparr>)))"

definition DeleteAccessGrantByResource ::
  "AccessEnv \<Rightarrow> UserDB \<Rightarrow> string \<Rightarrow> string \<Rightarrow> string \<Rightarrow> domain_error option \<times> UserDB" where
  "DeleteAccessGrantByResource ev db userID resourceType resourceKey =
     (case ev_uuid ev userID of
        None \<Rightarrow> (Some invalid_uuid, db)
      | Some i \<Rightarrow>
          let hit = grant_at i resourceType resourceKey in
          if \<not> list_ex hit (db_grants db) then (Some ErrNotFound, db)
          else (None, db\<lparr>db_grants := filter (\<lambda>g. \<not> hit g) (db_grants db)\<rparr>))"

definition CreateUserInvite ::
  "AccessEnv \<Rightarrow> AccessDB \<Rightarrow> string \<Rightarrow> duration \<Rightarrow> (domain_error, UserInvite) result \<times> AccessDB" where
  "CreateUserInvite ev db userID ttl =
     (let ttl = (if ttl \<le> 0 then 7 * 24 * 3600 * Second else ttl);
          vt = \<lparr>iv_CreatedAt = ev_now ev, iv_ExpiresAt = ev_now ev + ttl, iv_AcceptedAt = None,
                 iv_Token = ev_randomToken ev, iv_UserID = userID\<rparr>
      in if list_ex (\<lambda>v. iv_Token v = iv_Token vt) (xd_invites db) then (Inl unique_violation, db)
         else if \<not> user_exists (xd_users db) userID then (Inl foreign_key_violation, db)
         else (Inr vt, db\<lparr>xd_invites := xd_invites db @ [vt]\<rparr>))"

definition GetUserInvite ::
  "AccessDB \<Rightarrow> string \<Rightarrow> (domain_error, UserInvite \<times> string \<times> string) result" where
  "GetUserInvite db token =
     (case find (\<lambda>v. iv_Token v = token) (xd_invites db) of
        None \<Rightarrow> Inl ErrNotFound
      | Some v \<Rightarrow>
          (case find (\<lambda>r. r_ID r = iv_UserID v) (db_users (xd_users db)) of
             None \<Rightarrow> Inl ErrNotFound
           | Some r \<Rightarrow> Inr (v, r_Username r, r_Email r)))"

text \<open>\<^verbatim>\<open>AcceptUserInvite\<close> in the two parts that other requests may come between.\<close>

definition accept_check ::
  "AccessEnv \<Rightarrow> AccessDB \<Rightarrow> string \<Rightarrow> string \<Rightarrow> (domain_error, string \<times> string) result" where
  "accept_check ev db token password =
     (case GetUserInvite db token of
        Inl e \<Rightarrow> Inl e
      | Inr (vt, _, _) \<Rightarrow>
          if iv_AcceptedAt vt \<noteq> None then Inl ErrConflict
          else if ev_now ev > iv_ExpiresAt vt then Inl ErrNotFound
          else
            let password = TrimSpace password in
            if IsEmpty password then Inl (ErrOther ''password required'')
            else if length password < 8 then Inl (ErrOther ''password must be at least 8 characters'')
            else
              (case ev_bcrypt ev password of
                 None \<Rightarrow> Inl (ErrOther ''bcrypt'')
               | Some hash \<Rightarrow> Inr (iv_UserID vt, hash)))"

definition accept_open :: "string \<Rightarrow> gotime \<Rightarrow> UserInvite \<Rightarrow> bool" where
  "accept_open token now v \<longleftrightarrow> iv_Token v = token \<and> iv_AcceptedAt v = None \<and> iv_ExpiresAt v > now"

definition accept_tx ::
  "gotime \<Rightarrow> AccessDB \<Rightarrow> string \<Rightarrow> string \<Rightarrow> string \<Rightarrow> domain_error option \<times> AccessDB" where
  "accept_tx now db token userID hash =
     (if \<not> list_ex (accept_open token now) (xd_invites db) then (Some ErrConflict, db)
      else (None,
        db\<lparr>xd_invites := map (\<lambda>v. if accept_open token now v then v\<lparr>iv_AcceptedAt := Some now\<rparr> else v)
                          (xd_invites db),
           xd_users := update_row userID (\<lambda>r. r\<lparr>r_PasswordHash := hash\<rparr>) (xd_users db)\<rparr>))"

definition AcceptUserInvite ::
  "AccessEnv \<Rightarrow> AccessDB \<Rightarrow> string \<Rightarrow> string \<Rightarrow> (domain_error, User) result \<times> AccessDB" where
  "AcceptUserInvite ev db token password =
     (case accept_check ev db token password of
        Inl e \<Rightarrow> (Inl e, db)
      | Inr (userID, hash) \<Rightarrow>
          (case accept_tx (ev_later ev) db token userID hash of
             (Some e, db) \<Rightarrow> (Inl e, db)
           | (None, db) \<Rightarrow> (GetUserByID (xd_users db) userID, db)))"

section \<open>Handlers\<close>

datatype access_effect = InvalidateCached string | StartSession User

datatype access_reply =
    XUnauthorized | XForbidden | XBadRequest domain_error | XNotFound | XConflict | XGone
  | XFailed domain_error | XNoContent
  | XGrants "AccessGrant list" | XGrant AccessGrant | XUser User
  | XInvited User string gotime | XInvite string string gotime

record AccessRequest =
  xq_Actor :: "User option"
  xq_ClusterParam :: string
  xq_Account :: string
  xq_GrantID :: string
  xq_UserID :: string
  xq_Body :: "(string \<times> string) option"

definition canManage :: "User \<Rightarrow> string \<Rightarrow> string \<Rightarrow> bool" where
  "canManage actor resourceType resourceKey =
     (if resourceType = ResourceSystem then CanManageSystemAccess actor resourceKey
      else if resourceType = ResourceAccount then
        (case Cut CHR '':'' resourceKey of (clusterID, account, _) \<Rightarrow>
           CanManageAccountAccess actor clusterID account)
      else CanManageUsers actor \<or> u_IsRoot actor)"

definition listResourceAccess :: "AccessRequest \<Rightarrow> AccessDB \<Rightarrow> string \<Rightarrow> string \<Rightarrow> access_reply" where
  "listResourceAccess rq db resourceType resourceKey =
     (case xq_Actor rq of
        None \<Rightarrow> XUnauthorized
      | Some actor \<Rightarrow>
          if \<not> canManage actor resourceType resourceKey then XForbidden
          else XGrants (ListAccessGrantsByResource (xd_users db) resourceType resourceKey))"

definition upsertResourceAccess ::
  "AccessEnv \<Rightarrow> AccessRequest \<Rightarrow> AccessDB \<Rightarrow> string \<Rightarrow> string \<Rightarrow> bool \<Rightarrow>
     access_reply \<times> access_effect list \<times> AccessDB" where
  "upsertResourceAccess ev rq db resourceType resourceKey systemOnly =
     (case xq_Actor rq of
        None \<Rightarrow> (XUnauthorized, [], db)
      | Some actor \<Rightarrow>
          if \<not> canManage actor resourceType resourceKey then (XForbidden, [], db)
          else
            (case xq_Body rq of
               None \<Rightarrow> (XBadRequest (ErrOther ''invalid JSON''), [], db)
             | Some (userID, role) \<Rightarrow>
                 if systemOnly \<and> role = GrantCredentialDownloader then
                   (XBadRequest (ErrOther ''credential_downloader is account-scoped''), [], db)
                 else if role = GrantAdmin \<and> \<not> CanMintAdminGrant actor resourceType resourceKey then
                   (XForbidden, [], db)
                 else
                   (case UpsertAccessGrant ev (xd_users db)
                           \<lparr>gu_UserID = userID, gu_ResourceType = resourceType,
                            gu_ResourceKey = resourceKey, gu_Role = role\<rparr> of
                      (Inl e, _) \<Rightarrow> (XBadRequest e, [], db)
                    | (Inr grant, us) \<Rightarrow>
                        (XGrant grant, [InvalidateCached userID], db\<lparr>xd_users := us\<rparr>))))"

definition deleteResourceAccess ::
  "AccessEnv \<Rightarrow> AccessRequest \<Rightarrow> AccessDB \<Rightarrow> string \<Rightarrow> string \<Rightarrow>
     access_reply \<times> access_effect list \<times> AccessDB" where
  "deleteResourceAccess ev rq db resourceType resourceKey =
     (case xq_Actor rq of
        None \<Rightarrow> (XUnauthorized, [], db)
      | Some actor \<Rightarrow>
          if \<not> canManage actor resourceType resourceKey then (XForbidden, [], db)
          else if \<not> IsEmpty (xq_GrantID rq) then
            (case DeleteAccessGrantScoped ev (xd_users db) (xq_GrantID rq) resourceType resourceKey of
               (Inl e, _) \<Rightarrow> (if e = ErrNotFound then XNotFound else XFailed e, [], db)
             | (Inr deletedUserID, us) \<Rightarrow>
                 (XNoContent, [InvalidateCached deletedUserID], db\<lparr>xd_users := us\<rparr>))
          else if IsEmpty (xq_UserID rq) then (XBadRequest (ErrOther ''userId is required''), [], db)
          else
            (case DeleteAccessGrantByResource ev (xd_users db) (xq_UserID rq) resourceType resourceKey of
               (Some e, _) \<Rightarrow> (if e = ErrNotFound then XNotFound else XFailed e, [], db)
             | (None, us) \<Rightarrow> (XNoContent, [InvalidateCached (xq_UserID rq)], db\<lparr>xd_users := us\<rparr>)))"

definition ListSystemAccess :: "AccessRequest \<Rightarrow> AccessDB \<Rightarrow> access_reply" where
  "ListSystemAccess rq db = listResourceAccess rq db ResourceSystem (ClusterID (xq_ClusterParam rq))"

definition UpsertSystemAccess ::
  "AccessEnv \<Rightarrow> AccessRequest \<Rightarrow> AccessDB \<Rightarrow> access_reply \<times> access_effect list \<times> AccessDB" where
  "UpsertSystemAccess ev rq db =
     upsertResourceAccess ev rq db ResourceSystem (ClusterID (xq_ClusterParam rq)) True"

definition DeleteSystemAccess ::
  "AccessEnv \<Rightarrow> AccessRequest \<Rightarrow> AccessDB \<Rightarrow> access_reply \<times> access_effect list \<times> AccessDB" where
  "DeleteSystemAccess ev rq db =
     deleteResourceAccess ev rq db ResourceSystem (ClusterID (xq_ClusterParam rq))"

text \<open>The account of the route, and the key of its grants; an error is the reply 400.\<close>

definition account_key :: "AccessRequest \<Rightarrow> (domain_error, string) result" where
  "account_key rq =
     (let account = (if IsEmpty (xq_Account rq) then ''Default'' else xq_Account rq)
      in case ValidateAccountName account of
           Some e \<Rightarrow> Inl e
         | None \<Rightarrow> Inr (AccountResourceKey (ClusterID (xq_ClusterParam rq)) account))"

definition ListAccountAccess :: "AccessRequest \<Rightarrow> AccessDB \<Rightarrow> access_reply" where
  "ListAccountAccess rq db =
     (case account_key rq of
        Inl e \<Rightarrow> XBadRequest e | Inr k \<Rightarrow> listResourceAccess rq db ResourceAccount k)"

definition UpsertAccountAccess ::
  "AccessEnv \<Rightarrow> AccessRequest \<Rightarrow> AccessDB \<Rightarrow> access_reply \<times> access_effect list \<times> AccessDB" where
  "UpsertAccountAccess ev rq db =
     (case account_key rq of
        Inl e \<Rightarrow> (XBadRequest e, [], db)
      | Inr k \<Rightarrow> upsertResourceAccess ev rq db ResourceAccount k False)"

definition DeleteAccountAccess ::
  "AccessEnv \<Rightarrow> AccessRequest \<Rightarrow> AccessDB \<Rightarrow> access_reply \<times> access_effect list \<times> AccessDB" where
  "DeleteAccountAccess ev rq db =
     (case account_key rq of
        Inl e \<Rightarrow> (XBadRequest e, [], db)
      | Inr k \<Rightarrow> deleteResourceAccess ev rq db ResourceAccount k)"

record InviteBody =
  ib_Username :: string
  ib_Email :: string
  ib_Roles :: "string list"
  ib_ClusterIDs :: "string list"

definition TrimSuffix :: "string \<Rightarrow> string \<Rightarrow> string" where
  "TrimSuffix s p = (if HasSuffix s p then take (length s - length p) s else s)"

definition InvitePerson ::
  "AccessEnv \<Rightarrow> User option \<Rightarrow> InviteBody option \<Rightarrow> AccessDB \<Rightarrow> access_reply \<times> AccessDB" where
  "InvitePerson ev actor body db =
     (case actor of
        None \<Rightarrow> (XUnauthorized, db)
      | Some a \<Rightarrow>
          if \<not> CanManageUsers a then (XForbidden, db)
          else
            case body of
              None \<Rightarrow> (XBadRequest (ErrOther ''invalid JSON''), db)
            | Some b \<Rightarrow>
                let username = TrimSpace (ib_Username b);
                    roles = (if ib_Roles b = [] then [RoleViewer] else ib_Roles b);
                    email = (if IsEmpty (ib_Email b) then username @ ''@local'' else ib_Email b);
                    clusterIDs = (if ib_ClusterIDs b = [] then
                        (case u_AccessRules a of None \<Rightarrow> [] | Some r \<Rightarrow> ar_ClusterIDs r)
                      else ib_ClusterIDs b)
                in if IsEmpty username then (XBadRequest (ErrOther ''username is required''), db)
                   else if clusterIDs = [] then
                     (XBadRequest (ErrOther ''clusterIds required: assign at least one cluster''), db)
                   else
                     case UserService_Create (DB_users (ev_bcrypt ev) (ev_newID ev, ev_now ev))
                            (xd_users db) a
                            \<lparr>uc_AccessRules = Some \<lparr>ar_ClusterIDs = clusterIDs,
                               ar_AssignableRoles = [RoleViewer], ar_ManageUsers = False,
                               ar_ViewAudit = False, ar_DeleteClusters = False\<rparr>,
                             uc_Username = username, uc_Email = email, uc_Password = [],
                             uc_OIDCSub = [], uc_PasswordHash = [], uc_Roles = roles,
                             uc_IsRoot = False\<rparr> of
                       (Inl e, us) \<Rightarrow> (XFailed e, db\<lparr>xd_users := us\<rparr>)
                     | (Inr user, us) \<Rightarrow>
                         case CreateUserInvite ev (db\<lparr>xd_users := us\<rparr>) (u_ID user) (ev_InviteTTL ev) of
                           (Inl e, db') \<Rightarrow> (XFailed e, db')
                         | (Inr vt, db') \<Rightarrow>
                             (XInvited user
                                (TrimSuffix (ev_PublicBaseURL ev) ''/'' @ ''/invite/'' @ iv_Token vt)
                                (iv_ExpiresAt vt), db'))"

definition GetInvite :: "gotime \<Rightarrow> string \<Rightarrow> AccessDB \<Rightarrow> access_reply" where
  "GetInvite now token db =
     (case GetUserInvite db token of
        Inl e \<Rightarrow> XNotFound
      | Inr (vt, username, email) \<Rightarrow>
          if iv_AcceptedAt vt \<noteq> None \<or> now > iv_ExpiresAt vt then XGone
          else XInvite username email (iv_ExpiresAt vt))"

definition AcceptInvite ::
  "AccessEnv \<Rightarrow> (string \<times> string) option \<Rightarrow> AccessDB \<Rightarrow> access_reply \<times> access_effect list \<times> AccessDB" where
  "AcceptInvite ev body db =
     (case body of
        None \<Rightarrow> (XBadRequest (ErrOther ''invalid JSON''), [], db)
      | Some (token, password) \<Rightarrow>
          if IsEmpty token \<or> IsEmpty password then
            (XBadRequest (ErrOther ''token and password required''), [], db)
          else
            case AcceptUserInvite ev db token password of
              (Inl e, db') \<Rightarrow>
                (if e = ErrNotFound then XNotFound
                 else if e = ErrConflict then XConflict else XBadRequest e, [], db')
            | (Inr user, db') \<Rightarrow> (XUser user, [InvalidateCached (u_ID user), StartSession user], db'))"

section \<open>Calls\<close>

datatype access_call =
    CallUpsertSystem AccessRequest
  | CallDeleteSystem AccessRequest
  | CallUpsertAccount AccessRequest
  | CallDeleteAccount AccessRequest
  | CallInvite "User option" "InviteBody option"
  | CallAccept "(string \<times> string) option"

fun call_actor :: "access_call \<Rightarrow> User option" where
  "call_actor (CallUpsertSystem rq) = xq_Actor rq"
| "call_actor (CallDeleteSystem rq) = xq_Actor rq"
| "call_actor (CallUpsertAccount rq) = xq_Actor rq"
| "call_actor (CallDeleteAccount rq) = xq_Actor rq"
| "call_actor (CallInvite a b) = a"
| "call_actor (CallAccept b) = None"

fun access_step ::
  "AccessEnv \<Rightarrow> access_call \<Rightarrow> AccessDB \<Rightarrow> access_reply \<times> access_effect list \<times> AccessDB" where
  "access_step ev (CallUpsertSystem rq) db = UpsertSystemAccess ev rq db"
| "access_step ev (CallDeleteSystem rq) db = DeleteSystemAccess ev rq db"
| "access_step ev (CallUpsertAccount rq) db = UpsertAccountAccess ev rq db"
| "access_step ev (CallDeleteAccount rq) db = DeleteAccountAccess ev rq db"
| "access_step ev (CallInvite a b) db = (case InvitePerson ev a b db of (r, db') \<Rightarrow> (r, [], db'))"
| "access_step ev (CallAccept b) db = AcceptInvite ev b db"

text \<open>
  A call by a user as the database holds it, or by nobody; between them, the second parts of
  acceptances that were checked at any earlier time.
\<close>

definition current_actor :: "AccessDB \<Rightarrow> access_call \<Rightarrow> bool" where
  "current_actor db call \<longleftrightarrow>
     (case call_actor call of None \<Rightarrow> True | Some u \<Rightarrow> GetUserByID (xd_users db) (u_ID u) = Inr u)"

inductive access_run :: "(access_call \<Rightarrow> bool) \<Rightarrow> AccessDB \<Rightarrow> AccessDB \<Rightarrow> bool"
  for P :: "access_call \<Rightarrow> bool"
where
  run_start: "access_run P db db"
| run_call: "access_run P db db1 \<Longrightarrow> current_actor db1 call \<Longrightarrow> P call \<Longrightarrow>
    access_step ev call db1 = (r, eff, db2) \<Longrightarrow> access_run P db db2"
| run_commit: "access_run P db db1 \<Longrightarrow> accept_tx now db1 token userID hash = (res, db2) \<Longrightarrow>
    access_run P db db2"

section \<open>What the operations change\<close>

lemma UpsertAccessGrant_cases:
  obtains (rejected) e where "UpsertAccessGrant ev db i = (Inl e, db)"
  | (changed) userID g where "validateGrant i = None" "ev_uuid ev (gu_UserID i) = Some userID"
      "find (grant_at userID (gu_ResourceType i) (gu_ResourceKey i)) (db_grants db) = Some g"
      "UpsertAccessGrant ev db i =
        (Inr (g\<lparr>g_Role := gu_Role i, g_UpdatedAt := ev_now ev\<rparr>),
         db\<lparr>db_grants := map (\<lambda>h. if grant_at userID (gu_ResourceType i) (gu_ResourceKey i) h
                          then g\<lparr>g_Role := gu_Role i, g_UpdatedAt := ev_now ev\<rparr> else h) (db_grants db)\<rparr>)"
  | (inserted) userID g where "validateGrant i = None" "ev_uuid ev (gu_UserID i) = Some userID"
      "find (grant_at userID (gu_ResourceType i) (gu_ResourceKey i)) (db_grants db) = None"
      "g_ID g \<notin> g_ID ` set (db_grants db)" "user_exists db userID"
      "grant_at userID (gu_ResourceType i) (gu_ResourceKey i) g" "g_Role g = gu_Role i"
      "UpsertAccessGrant ev db i = (Inr g, db\<lparr>db_grants := db_grants db @ [g]\<rparr>)"
proof (cases "validateGrant i")
  case (Some e)
  then show ?thesis by (intro rejected) (simp add: UpsertAccessGrant_def)
next
  case v: None
  show ?thesis
  proof (cases "ev_uuid ev (gu_UserID i)")
    case None
    with v show ?thesis by (intro rejected) (simp add: UpsertAccessGrant_def)
  next
    case u: (Some userID)
    show ?thesis
    proof (cases "find (grant_at userID (gu_ResourceType i) (gu_ResourceKey i)) (db_grants db)")
      case (Some g)
      with v u show ?thesis by (intro changed) (simp_all add: UpsertAccessGrant_def Let_def)
    next
      case n: None
      show ?thesis
      proof (cases "list_ex (\<lambda>g. g_ID g = ev_newID ev) (db_grants db) \<or> \<not> user_exists db userID")
        case True
        with v u n show ?thesis
          by (intro rejected [of "if list_ex (\<lambda>g. g_ID g = ev_newID ev) (db_grants db) then unique_violation
                else foreign_key_violation"]) (auto simp: UpsertAccessGrant_def)
      next
        case False
        then show ?thesis using v u n
          by (intro inserted [OF v u n, of "\<lparr>g_CreatedAt = ev_now ev, g_UpdatedAt = ev_now ev,
                g_ID = ev_newID ev, g_UserID = userID, g_ResourceType = gu_ResourceType i,
                g_ResourceKey = gu_ResourceKey i, g_Role = gu_Role i, g_Username = [], g_Email = []\<rparr>"])
            (auto simp: UpsertAccessGrant_def Let_def grant_at_def list_ex_iff)
      qed
    qed
  qed
qed

lemma upsertResourceAccess_cases:
  obtains (same) r where "upsertResourceAccess ev rq db t k sys = (r, [], db)"
  | (granted) actor userID role g us where "xq_Actor rq = Some actor" "canManage actor t k"
      "xq_Body rq = Some (userID, role)" "role = GrantAdmin \<Longrightarrow> CanMintAdminGrant actor t k"
      "UpsertAccessGrant ev (xd_users db) \<lparr>gu_UserID = userID, gu_ResourceType = t,
         gu_ResourceKey = k, gu_Role = role\<rparr> = (Inr g, us)"
      "upsertResourceAccess ev rq db t k sys = (XGrant g, [InvalidateCached userID], db\<lparr>xd_users := us\<rparr>)"
proof (cases "xq_Actor rq")
  case None
  then show ?thesis by (intro same) (simp_all add: upsertResourceAccess_def)
next
  case a: (Some actor)
  show ?thesis
  proof (cases "canManage actor t k \<and> xq_Body rq \<noteq> None")
    case False
    with a show ?thesis
      by (intro same [of "fst (upsertResourceAccess ev rq db t k sys)"])
        (auto simp: upsertResourceAccess_def split: option.splits)
  next
    case True
    then obtain userID role where b: "xq_Body rq = Some (userID, role)" "canManage actor t k" by auto
    show ?thesis
    proof (cases "sys \<and> role = GrantCredentialDownloader \<or> role = GrantAdmin \<and> \<not> CanMintAdminGrant actor t k")
      case True
      with a b show ?thesis
        by (intro same [of "fst (upsertResourceAccess ev rq db t k sys)"]) (auto simp: upsertResourceAccess_def)
    next
      case False
      obtain r us where u: "UpsertAccessGrant ev (xd_users db) \<lparr>gu_UserID = userID, gu_ResourceType = t,
         gu_ResourceKey = k, gu_Role = role\<rparr> = (r, us)" by (rule prod.exhaust)
      show ?thesis
      proof (cases r)
        case (Inl e)
        with False a b u show ?thesis by (intro same) (auto simp: upsertResourceAccess_def)
      next
        case (Inr g)
        with False a b u show ?thesis by (intro granted) (auto simp: upsertResourceAccess_def)
      qed
    qed
  qed
qed

lemma deleteResourceAccess_cases:
  obtains (same) r where "deleteResourceAccess ev rq db t k = (r, [], db)"
  | (deleted) userID P where "snd (deleteResourceAccess ev rq db t k) =
        ([InvalidateCached userID],
         db\<lparr>xd_users := (xd_users db)\<lparr>db_grants := filter (\<lambda>g. \<not> P g) (db_grants (xd_users db))\<rparr>\<rparr>)"
      "(\<exists>i g. P = (\<lambda>g. g_ID g = i \<and> g_ResourceType g = t \<and> g_ResourceKey g = k) \<and>
          find P (db_grants (xd_users db)) = Some g \<and> userID = g_UserID g) \<or>
       (\<exists>i. P = grant_at i t k \<and> ev_uuid ev userID = Some i \<and> userID = xq_UserID rq)"
proof (cases "xq_Actor rq")
  case None
  then show ?thesis by (intro same) (simp_all add: deleteResourceAccess_def)
next
  case a: (Some actor)
  show ?thesis
  proof (cases "canManage actor t k")
    case False
    with a show ?thesis by (intro same) (auto simp: deleteResourceAccess_def)
  next
    case m: True
    show ?thesis
    proof (cases "IsEmpty (xq_GrantID rq)")
      case False
      let ?hit = "\<lambda>i g. g_ID g = i \<and> g_ResourceType g = t \<and> g_ResourceKey g = k"
      show ?thesis
      proof (cases "\<exists>i g. ev_uuid ev (xq_GrantID rq) = Some i \<and> find (?hit i) (db_grants (xd_users db)) = Some g")
        case True
        then obtain i g where "ev_uuid ev (xq_GrantID rq) = Some i"
          "find (?hit i) (db_grants (xd_users db)) = Some g" by blast
        with a m False show ?thesis
          by (intro deleted [of "g_UserID g" "?hit i"])
            (auto simp: deleteResourceAccess_def DeleteAccessGrantScoped_def Let_def)
      next
        case no: False
        with a m False show ?thesis
          by (intro same [of "fst (deleteResourceAccess ev rq db t k)"])
            (auto simp: deleteResourceAccess_def DeleteAccessGrantScoped_def Let_def split: option.splits)
      qed
    next
      case e: True
      show ?thesis
      proof (cases "IsEmpty (xq_UserID rq) \<or> ev_uuid ev (xq_UserID rq) = None \<or>
          \<not> list_ex (grant_at (the (ev_uuid ev (xq_UserID rq))) t k) (db_grants (xd_users db))")
        case True
        with a m e show ?thesis
          by (intro same [of "fst (deleteResourceAccess ev rq db t k)"])
            (auto simp: deleteResourceAccess_def DeleteAccessGrantByResource_def Let_def split: option.splits)
      next
        case False
        then obtain i where "ev_uuid ev (xq_UserID rq) = Some i" by auto
        with a m e False show ?thesis
          by (intro deleted [of "xq_UserID rq" "grant_at i t k"])
            (auto simp: deleteResourceAccess_def DeleteAccessGrantByResource_def Let_def)
      qed
    qed
  qed
qed

lemma accept_tx_cases:
  obtains (refused) "accept_tx now db token userID hash = (Some ErrConflict, db)"
      "\<not> list_ex (accept_open token now) (xd_invites db)"
  | (accepted) "list_ex (accept_open token now) (xd_invites db)"
      "accept_tx now db token userID hash = (None,
        db\<lparr>xd_invites := map (\<lambda>v. if accept_open token now v then v\<lparr>iv_AcceptedAt := Some now\<rparr> else v)
                          (xd_invites db),
           xd_users := update_row userID (\<lambda>r. r\<lparr>r_PasswordHash := hash\<rparr>) (xd_users db)\<rparr>)"
  by (cases "list_ex (accept_open token now) (xd_invites db)") (auto simp: accept_tx_def)

lemma AcceptInvite_cases:
  obtains (same) r where "AcceptInvite ev body db = (r, [], db)"
  | (accepted) token userID hash where
      "accept_tx (ev_later ev) db token userID hash = (None, snd (snd (AcceptInvite ev body db)))"
proof (cases "body = None \<or> (\<exists>t p. body = Some (t, p) \<and> (IsEmpty t \<or> IsEmpty p))")
  case True
  then show ?thesis
    by (intro same [of "fst (AcceptInvite ev body db)"]) (auto simp: AcceptInvite_def)
next
  case False
  then obtain token password where b: "body = Some (token, password)" "\<not> (IsEmpty token \<or> IsEmpty password)"
    by (cases body) auto
  show ?thesis
  proof (cases "accept_check ev db token password")
    case (Inl e)
    with b show ?thesis
      by (intro same [of "fst (AcceptInvite ev body db)"]) (auto simp: AcceptInvite_def AcceptUserInvite_def)
  next
    case (Inr q)
    obtain userID hash where q: "q = (userID, hash)" by (cases q)
    show ?thesis
    proof (cases rule: accept_tx_cases [of "ev_later ev" db token userID hash])
      case refused
      with b Inr q show ?thesis
        by (intro same [of "fst (AcceptInvite ev body db)"]) (auto simp: AcceptInvite_def AcceptUserInvite_def)
    next
      case acc: accepted
      with b Inr q show ?thesis
        by (intro accepted [of token userID hash])
          (auto simp: AcceptInvite_def AcceptUserInvite_def split: sum.splits)
    qed
  qed
qed

definition users_grow :: "UserDB \<Rightarrow> UserDB \<Rightarrow> bool" where
  "users_grow us us' \<longleftrightarrow> db_grants us' = db_grants us \<and> (\<forall>i. user_exists us i \<longrightarrow> user_exists us' i)"

lemma users_grow_refl [simp]: "users_grow us us"
  by (simp add: users_grow_def)

lemma CreateUser_grow:
  assumes "CreateUser bc i now db c = (r, db')"
  shows "users_grow db db'"
proof -
  have *: "users_grow db db2" if "insert_user row db = Inr db1" "setUserRolesTx j rl db1 = Inr db2" for row db1 j rl db2
    using insert_user_Inr(1) [OF that(1)] setUserRolesTx_Inr(1,2) [OF that(2)]
    by (auto simp: users_grow_def user_exists_def)
  show ?thesis using assms
    by (auto simp: CreateUser_def Let_def split: if_splits option.splits sum.splits dest: *)
qed

lemma UserService_Create_grow:
  assumes "UserService_Create (DB_users bc env) s actor c = (r, s')"
  shows "users_grow s s'"
  using assms
proof (cases rule: UserService_Create_cases)
  case 2
  then show ?thesis using CreateUser_grow by (simp add: DB_users_def)
qed simp

lemma CreateUserInvite_cases:
  obtains (rejected) e where "CreateUserInvite ev db userID ttl = (Inl e, db)"
  | (made) v where "CreateUserInvite ev db userID ttl = (Inr v, db\<lparr>xd_invites := xd_invites db @ [v]\<rparr>)"
      "iv_Token v \<notin> iv_Token ` set (xd_invites db)" "user_exists (xd_users db) (iv_UserID v)"
      "iv_AcceptedAt v = None"
proof (cases "fst (CreateUserInvite ev db userID ttl)")
  case (Inl e)
  then show ?thesis
    by (intro rejected [of e]) (auto simp: CreateUserInvite_def Let_def split: if_splits)
next
  case (Inr v)
  then show ?thesis
    by (intro made [of v]) (auto simp: CreateUserInvite_def Let_def list_ex_iff split: if_splits)
qed

lemma InvitePerson_cases:
  obtains (same) "snd (InvitePerson ev actor body db) = db"
  | (users) us where "snd (InvitePerson ev actor body db) = db\<lparr>xd_users := us\<rparr>" "users_grow (xd_users db) us"
  | (invited) us v where "users_grow (xd_users db) us"
      "snd (InvitePerson ev actor body db) = db\<lparr>xd_users := us, xd_invites := xd_invites db @ [v]\<rparr>"
      "iv_Token v \<notin> iv_Token ` set (xd_invites db)" "user_exists us (iv_UserID v)"
proof -
  have fin: thesis if c: "UserService_Create (DB_users bc env) (xd_users db) a c = (res, us)"
    and r: "InvitePerson ev actor body db =
      (case (res, us) of (Inl e, us) \<Rightarrow> (XFailed e, db\<lparr>xd_users := us\<rparr>)
       | (Inr user, us) \<Rightarrow>
           case CreateUserInvite ev (db\<lparr>xd_users := us\<rparr>) (u_ID user) (ev_InviteTTL ev) of
             (Inl e, db') \<Rightarrow> (XFailed e, db')
           | (Inr v, db') \<Rightarrow> (XInvited user (TrimSuffix (ev_PublicBaseURL ev) ''/'' @ ''/invite/'' @ iv_Token v)
                 (iv_ExpiresAt v), db'))" for bc env a c res us
  proof (cases res)
    case (Inl e)
    then show thesis using r UserService_Create_grow [OF c] by (intro users) simp_all
  next
    case (Inr user)
    show thesis
    proof (cases rule: CreateUserInvite_cases [of ev "db\<lparr>xd_users := us\<rparr>" "u_ID user" "ev_InviteTTL ev"])
      case (rejected e)
      then show ?thesis using r Inr UserService_Create_grow [OF c] by (intro users) simp_all
    next
      case (made v)
      then show ?thesis using r Inr UserService_Create_grow [OF c] by (intro invited [of us v]) simp_all
    qed
  qed
  show thesis
  proof (cases "\<exists>a b. actor = Some a \<and> CanManageUsers a \<and> body = Some b")
    case False
    then show ?thesis by (intro same) (auto simp: InvitePerson_def split: option.splits)
  next
    case True
    then obtain a b where ab: "actor = Some a" "CanManageUsers a" "body = Some b" by blast
    let ?ids = "if ib_ClusterIDs b = [] then (case u_AccessRules a of None \<Rightarrow> [] | Some r \<Rightarrow> ar_ClusterIDs r)
                else ib_ClusterIDs b"
    let ?name = "TrimSpace (ib_Username b)"
    show ?thesis
    proof (cases "IsEmpty ?name \<or> ?ids = []")
      case True
      with ab show ?thesis by (intro same) (auto simp: InvitePerson_def Let_def)
    next
      case False
      let ?c = "\<lparr>uc_AccessRules = Some \<lparr>ar_ClusterIDs = ?ids,
             ar_AssignableRoles = [RoleViewer], ar_ManageUsers = False,
             ar_ViewAudit = False, ar_DeleteClusters = False\<rparr>,
           uc_Username = ?name,
           uc_Email = (if IsEmpty (ib_Email b) then ?name @ ''@local'' else ib_Email b), uc_Password = [],
           uc_OIDCSub = [], uc_PasswordHash = [],
           uc_Roles = (if ib_Roles b = [] then [RoleViewer] else ib_Roles b), uc_IsRoot = False\<rparr>"
      obtain res us where c: "UserService_Create (DB_users (ev_bcrypt ev) (ev_newID ev, ev_now ev))
          (xd_users db) a ?c = (res, us)" by (rule prod.exhaust)
      have f: "IsEmpty ?name = False" "(?ids = []) = False" using False by blast+
      have "InvitePerson ev actor body db =
        (case UserService_Create (DB_users (ev_bcrypt ev) (ev_newID ev, ev_now ev)) (xd_users db) a ?c of
           (Inl e, us) \<Rightarrow> (XFailed e, db\<lparr>xd_users := us\<rparr>)
         | (Inr user, us) \<Rightarrow>
             case CreateUserInvite ev (db\<lparr>xd_users := us\<rparr>) (u_ID user) (ev_InviteTTL ev) of
               (Inl e, db') \<Rightarrow> (XFailed e, db')
             | (Inr v, db') \<Rightarrow> (XInvited user (TrimSuffix (ev_PublicBaseURL ev) ''/'' @ ''/invite/'' @ iv_Token v)
                   (iv_ExpiresAt v), db'))"
        unfolding InvitePerson_def Let_def ab(1,3) option.case f if_False
        by (simp only: ab(2) not_True_eq_False if_False)
      then show ?thesis by (intro fin [OF c]) (simp only: c)
    qed
  qed
qed

section \<open>The tables stay consistent\<close>

definition grant_place :: "AccessGrant \<Rightarrow> string \<times> string \<times> string" where
  "grant_place g = (g_UserID g, g_ResourceType g, g_ResourceKey g)"

definition valid_grant :: "AccessGrant \<Rightarrow> bool" where
  "valid_grant g \<longleftrightarrow>
     g_ResourceType g \<in> {ResourceSystem, ResourceAccount, ResourceNATSUser} \<and>
     g_Role g \<in> {GrantAdmin, GrantObserver, GrantCredentialDownloader} \<and>
     (g_Role g = GrantCredentialDownloader \<longrightarrow> g_ResourceType g \<noteq> ResourceSystem)"

definition grants_ok :: "UserDB \<Rightarrow> bool" where
  "grants_ok db \<longleftrightarrow>
     distinct (map g_ID (db_grants db)) \<and> distinct (map grant_place (db_grants db)) \<and>
     (\<forall>g\<in>set (db_grants db). valid_grant g \<and> user_exists db (g_UserID g))"

definition access_ok :: "AccessDB \<Rightarrow> bool" where
  "access_ok db \<longleftrightarrow>
     grants_ok (xd_users db) \<and> distinct (map iv_Token (xd_invites db)) \<and>
     (\<forall>v\<in>set (xd_invites db). user_exists (xd_users db) (iv_UserID v))"

lemma grant_at_place: "grant_at u t k g \<longleftrightarrow> grant_place g = (u, t, k)"
  by (auto simp: grant_at_def grant_place_def)

lemma validateGrant_valid:
  assumes "validateGrant i = None" and "g_ResourceType g = gu_ResourceType i" and "g_Role g = gu_Role i"
  shows "valid_grant g"
  using assms by (auto simp: validateGrant_def valid_grant_def split: if_splits)

lemma user_exists_grants [simp]: "user_exists (db\<lparr>db_grants := gs\<rparr>) i = user_exists db i"
  by (simp add: user_exists_def)

lemma user_exists_update_row:
  "(\<And>r. r_ID (f r) = r_ID r) \<Longrightarrow> user_exists (update_row j f db) i = user_exists db i"
  by (auto simp: user_exists_def update_row_def list_ex_iff)

lemma UpsertAccessGrant_ok:
  assumes ok: "grants_ok db" and u: "UpsertAccessGrant ev db i = (r, db')"
  shows "grants_ok db' \<and> (\<forall>j. user_exists db' j = user_exists db j)"
proof (cases rule: UpsertAccessGrant_cases [of ev db i])
  case (rejected e)
  then show ?thesis using u ok by simp
next
  case (changed userID g)
  let ?here = "grant_at userID (gu_ResourceType i) (gu_ResourceKey i)"
  let ?g = "g\<lparr>g_Role := gu_Role i, g_UpdatedAt := ev_now ev\<rparr>"
  have g: "g \<in> set (db_grants db)" "?here g" using find_mem [OF changed(3)] by simp_all
  have same: "h = g" if "h \<in> set (db_grants db)" "?here h" for h
  proof -
    have "inj_on grant_place (set (db_grants db))" using ok by (simp add: grants_ok_def distinct_map)
    moreover have "grant_place h = grant_place g" using that(2) g(2) by (simp add: grant_at_place)
    ultimately show ?thesis using that(1) g(1) by (rule inj_onD)
  qed
  define gs where "gs = map (\<lambda>h. if ?here h then ?g else h) (db_grants db)"
  have m: "map g_ID gs = map g_ID (db_grants db)" "map grant_place gs = map grant_place (db_grants db)"
    unfolding gs_def using same by (auto simp: grant_place_def)
  have "valid_grant ?g"
    by (rule validateGrant_valid [OF changed(1)]) (use g(2) in \<open>simp_all add: grant_at_def\<close>)
  moreover have "user_exists db (g_UserID ?g)" using ok g(1) by (simp add: grants_ok_def)
  ultimately have "\<forall>h\<in>set gs. valid_grant h \<and> user_exists db (g_UserID h)"
    using ok by (auto simp: gs_def grants_ok_def)
  moreover have "db' = db\<lparr>db_grants := gs\<rparr>" using u changed(4) by (simp add: gs_def)
  ultimately show ?thesis using ok m by (simp add: grants_ok_def)
next
  case (inserted userID g)
  have "grant_place g \<notin> grant_place ` set (db_grants db)"
    using inserted(3,6) by (auto simp: find_None_iff grant_at_place)
  moreover have "valid_grant g"
    by (rule validateGrant_valid [OF inserted(1)]) (use inserted(6,7) in \<open>simp_all add: grant_at_def\<close>)
  moreover have "user_exists db (g_UserID g)" using inserted(5,6) by (simp add: grant_at_def)
  ultimately show ?thesis using u inserted(4,8) ok by (auto simp: grants_ok_def)
qed

lemma grants_ok_filter:
  assumes "grants_ok db"
  shows "grants_ok (db\<lparr>db_grants := filter P (db_grants db)\<rparr>)"
  using assms by (auto simp: grants_ok_def distinct_map_filter)

lemma access_ok_users:
  assumes "access_ok db" and "grants_ok us" and "\<And>i. user_exists (xd_users db) i \<Longrightarrow> user_exists us i"
  shows "access_ok (db\<lparr>xd_users := us\<rparr>)"
  using assms by (auto simp: access_ok_def)

lemma users_grow_ok: "grants_ok us \<Longrightarrow> users_grow us us' \<Longrightarrow> grants_ok us'"
  by (auto simp: grants_ok_def users_grow_def)

lemma upsertResourceAccess_ok:
  assumes "access_ok db"
  shows "access_ok (snd (snd (upsertResourceAccess ev rq db t k sys)))"
proof (cases rule: upsertResourceAccess_cases [of ev rq db t k sys])
  case (same r)
  then show ?thesis using assms by simp
next
  case (granted actor userID role g us)
  have "grants_ok (xd_users db)" using assms by (simp add: access_ok_def)
  from UpsertAccessGrant_ok [OF this granted(5)] show ?thesis
    using access_ok_users [OF assms, of us] granted(6) by simp
qed

lemma deleteResourceAccess_ok:
  assumes "access_ok db"
  shows "access_ok (snd (snd (deleteResourceAccess ev rq db t k)))"
proof (cases rule: deleteResourceAccess_cases [of ev rq db t k])
  case (same r)
  then show ?thesis using assms by simp
next
  case (deleted userID P)
  have "grants_ok (xd_users db)" using assms by (simp add: access_ok_def)
  from grants_ok_filter [OF this] show ?thesis
    using access_ok_users [OF assms] deleted(1) by simp
qed

lemma accept_tx_ok:
  assumes "access_ok db"
  shows "access_ok (snd (accept_tx now db token userID hash))"
proof (cases rule: accept_tx_cases [of now db token userID hash])
  case refused
  then show ?thesis using assms by simp
next
  case accepted
  let ?us = "update_row userID (\<lambda>r. r\<lparr>r_PasswordHash := hash\<rparr>) (xd_users db)"
  have e: "user_exists ?us i = user_exists (xd_users db) i" for i
    by (rule user_exists_update_row) simp
  have g: "db_grants ?us = db_grants (xd_users db)" by (simp add: update_row_def)
  have m: "map iv_Token (map (\<lambda>v. if accept_open token now v then v\<lparr>iv_AcceptedAt := Some now\<rparr> else v)
      (xd_invites db)) = map iv_Token (xd_invites db)" by simp
  have "\<forall>v\<in>set (map (\<lambda>v. if accept_open token now v then v\<lparr>iv_AcceptedAt := Some now\<rparr> else v) (xd_invites db)).
      user_exists (xd_users db) (iv_UserID v)"
    using assms by (auto simp: access_ok_def)
  then show ?thesis using assms m unfolding accepted(2) by (simp add: access_ok_def grants_ok_def e g del: map_map)
qed

lemma InvitePerson_ok:
  assumes "access_ok db"
  shows "access_ok (snd (InvitePerson ev actor body db))"
proof (cases rule: InvitePerson_cases [of ev actor body db])
  case same
  then show ?thesis using assms by simp
next
  case (users us)
  then show ?thesis using access_ok_users [OF assms, of us] users_grow_ok [of "xd_users db" us] assms
    by (simp add: access_ok_def users_grow_def)
next
  case (invited us v)
  then show ?thesis using users_grow_ok [of "xd_users db" us] assms
    by (auto simp: access_ok_def users_grow_def)
qed

lemma access_step_ok:
  assumes "access_ok db"
  shows "access_ok (snd (snd (access_step ev call db)))"
proof (cases call)
  case (CallUpsertAccount rq)
  then show ?thesis using assms upsertResourceAccess_ok
    by (simp add: UpsertAccountAccess_def split: sum.splits)
next
  case (CallDeleteAccount rq)
  then show ?thesis using assms deleteResourceAccess_ok
    by (simp add: DeleteAccountAccess_def split: sum.splits)
next
  case (CallInvite a b)
  then show ?thesis using InvitePerson_ok [OF assms] by (simp add: split_beta)
next
  case (CallAccept b)
  show ?thesis
  proof (cases rule: AcceptInvite_cases [of ev b db])
    case (same r)
    then show ?thesis using assms CallAccept by simp
  next
    case (accepted token userID hash)
    then show ?thesis using accept_tx_ok [OF assms, of "ev_later ev" token userID hash] CallAccept by simp
  qed
qed (use assms upsertResourceAccess_ok deleteResourceAccess_ok in
      \<open>simp_all add: UpsertSystemAccess_def DeleteSystemAccess_def\<close>)

lemma access_run_ok: "access_run P db db' \<Longrightarrow> access_ok db \<Longrightarrow> access_ok db'"
proof (induction rule: access_run.induct)
  case (run_call db db1 call ev r eff db2)
  then show ?case using access_step_ok [of db1 ev call] by simp
next
  case (run_commit db db1 now token userID hash res db2)
  then show ?case using accept_tx_ok [of db1 now token userID hash] by simp
qed simp

section \<open>Admin grants\<close>

definition admin_at :: "UserDB \<Rightarrow> string \<Rightarrow> string \<Rightarrow> bool" where
  "admin_at db t k \<longleftrightarrow>
     (\<exists>g\<in>set (db_grants db). g_Role g = GrantAdmin \<and> g_ResourceType g = t \<and> g_ResourceKey g = k)"

definition plain_call :: "access_call \<Rightarrow> bool" where
  "plain_call call \<longleftrightarrow>
     (case call_actor call of None \<Rightarrow> True | Some u \<Rightarrow> \<not> u_IsRoot u \<and> \<not> isLegacyFullAdmin u)"

lemma loaded_grants:
  assumes "GetUserByID db i = Inr u" and "g \<in> set (u_Grants u)"
  shows "g \<in> set (db_grants db)"
  using GetUserByID_row [OF assms(1)] assms(2) by (auto simp: toDomainUser_def grants_of_def)

lemma minted_from:
  assumes "GetUserByID db i = Inr u" and "CanMintAdminGrant u t k"
    and "\<not> u_IsRoot u" and "\<not> isLegacyFullAdmin u"
  shows "admin_at db t k"
proof -
  have "hasAdminGrant u t k" using assms(2-4) by (simp add: CanMintAdminGrant_def split: if_splits)
  then obtain g where "g \<in> set (u_Grants u)" "g_Role g = GrantAdmin" "g_ResourceType g = t"
    "g_ResourceKey g = k" by (auto simp: hasAdminGrant_def list_ex_iff)
  then show ?thesis using loaded_grants [OF assms(1)] by (auto simp: admin_at_def)
qed

lemma UpsertAccessGrant_admin:
  assumes u: "UpsertAccessGrant ev db i = (r, db')" and a: "admin_at db' t k" and n: "\<not> admin_at db t k"
  shows "gu_Role i = GrantAdmin \<and> t = gu_ResourceType i \<and> k = gu_ResourceKey i"
proof (cases rule: UpsertAccessGrant_cases [of ev db i])
  case (rejected e)
  then show ?thesis using assms by simp
next
  case (changed userID g)
  have g: "grant_at userID (gu_ResourceType i) (gu_ResourceKey i) g" using find_mem [OF changed(3)] by simp
  from a obtain h where h: "h \<in> set (db_grants db')" "g_Role h = GrantAdmin" "g_ResourceType h = t"
    "g_ResourceKey h = k" by (auto simp: admin_at_def)
  have "h \<notin> set (db_grants db)" using n h by (auto simp: admin_at_def)
  then have "h = g\<lparr>g_Role := gu_Role i, g_UpdatedAt := ev_now ev\<rparr>"
    using h(1) u changed(4) by (auto split: if_splits)
  then show ?thesis using h g by (auto simp: grant_at_def)
next
  case (inserted userID g)
  then show ?thesis using u a n by (auto simp: admin_at_def grant_at_def)
qed

lemma upsertResourceAccess_admin:
  assumes "xq_Actor rq = Some u" and "GetUserByID (xd_users db) i = Inr u"
    and "\<not> u_IsRoot u" and "\<not> isLegacyFullAdmin u"
    and "admin_at (xd_users (snd (snd (upsertResourceAccess ev rq db rt rk sys)))) t k"
  shows "admin_at (xd_users db) t k"
proof (cases rule: upsertResourceAccess_cases [of ev rq db rt rk sys])
  case (same r)
  then show ?thesis using assms(5) by simp
next
  case (granted actor userID role g us)
  have actor: "actor = u" using granted(1) assms(1) by simp
  show ?thesis
  proof (rule ccontr)
    assume n: "\<not> admin_at (xd_users db) t k"
    have "admin_at us t k" using assms(5) granted(6) by simp
    from UpsertAccessGrant_admin [OF granted(5) this n] have "role = GrantAdmin" "t = rt" "k = rk" by simp_all
    with granted(4) actor minted_from [OF assms(2) _ assms(3,4), of rt rk] n show False by simp
  qed
qed

lemma deleteResourceAccess_admin:
  assumes "admin_at (xd_users (snd (snd (deleteResourceAccess ev rq db rt rk)))) t k"
  shows "admin_at (xd_users db) t k"
proof (cases rule: deleteResourceAccess_cases [of ev rq db rt rk])
  case (same r)
  then show ?thesis using assms by simp
next
  case (deleted userID P)
  then show ?thesis using assms by (auto simp: admin_at_def)
qed

lemma admin_at_same_grants: "db_grants us' = db_grants us \<Longrightarrow> admin_at us' t k = admin_at us t k"
  by (simp add: admin_at_def)

lemma accept_tx_grants:
  "db_grants (xd_users (snd (accept_tx now db token userID hash))) = db_grants (xd_users db)"
  by (simp add: accept_tx_def update_row_def)

lemma AcceptInvite_grants:
  "db_grants (xd_users (snd (snd (AcceptInvite ev body db)))) = db_grants (xd_users db)"
proof (cases rule: AcceptInvite_cases [of ev body db])
  case (accepted token userID hash)
  then show ?thesis using accept_tx_grants [of "ev_later ev" db token userID hash] by simp
qed simp

lemma InvitePerson_grants:
  "db_grants (xd_users (snd (InvitePerson ev actor body db))) = db_grants (xd_users db)"
  by (cases rule: InvitePerson_cases [of ev actor body db]) (simp_all add: users_grow_def)

lemma access_step_admin:
  assumes "current_actor db call" and "plain_call call"
    and "admin_at (xd_users (snd (snd (access_step ev call db)))) t k"
  shows "admin_at (xd_users db) t k"
proof (cases call)
  case (CallUpsertSystem rq)
  show ?thesis
  proof (cases "xq_Actor rq")
    case None
    then show ?thesis using assms(3) CallUpsertSystem by (simp add: UpsertSystemAccess_def upsertResourceAccess_def)
  next
    case (Some u)
    then show ?thesis using assms CallUpsertSystem upsertResourceAccess_admin [OF Some]
      by (simp add: current_actor_def plain_call_def UpsertSystemAccess_def)
  qed
next
  case (CallUpsertAccount rq)
  show ?thesis
  proof (cases "xq_Actor rq")
    case None
    then show ?thesis using assms(3) CallUpsertAccount
      by (simp add: UpsertAccountAccess_def upsertResourceAccess_def split: sum.splits)
  next
    case (Some u)
    then show ?thesis using assms CallUpsertAccount upsertResourceAccess_admin [OF Some]
      by (simp add: current_actor_def plain_call_def UpsertAccountAccess_def split: sum.splits)
  qed
next
  case (CallDeleteSystem rq)
  then show ?thesis using assms(3) deleteResourceAccess_admin by (simp add: DeleteSystemAccess_def)
next
  case (CallDeleteAccount rq)
  then show ?thesis using assms(3) deleteResourceAccess_admin
    by (simp add: DeleteAccountAccess_def split: sum.splits)
next
  case (CallInvite a b)
  then show ?thesis using assms(3) admin_at_same_grants [OF InvitePerson_grants] by (simp add: split_beta)
next
  case (CallAccept b)
  then show ?thesis using assms(3) admin_at_same_grants [OF AcceptInvite_grants] by simp
qed

text \<open>C13: administrators of a resource come from administrators of that resource.  Over any run of
  calls made by users as the database holds them, of which none is the root or an admin without access
  rules, a resource without an admin grant never gets one.\<close>

theorem admin_grants_confined:
  assumes "access_run plain_call db db'" and "admin_at (xd_users db') t k"
  shows "admin_at (xd_users db) t k"
  using assms
proof (induction rule: access_run.induct)
  case (run_call db db1 call ev r eff db2)
  then show ?case using access_step_admin [of db1 call ev t k] by simp
next
  case (run_commit db db1 now token userID hash res db2)
  then show ?case
    using admin_at_same_grants [OF accept_tx_grants [of now db1 token userID hash]] by simp
qed

definition east :: string where "east = ''11111111-1111-1111-1111-111111111111''"
definition admin_id :: string where "admin_id = ''aaaaaaaa-1111-1111-1111-111111111111''"
definition mgr_id :: string where "mgr_id = ''bbbbbbbb-1111-1111-1111-111111111111''"

definition demo_row :: "string \<Rightarrow> string \<Rightarrow> bool \<Rightarrow> UserRow" where
  "demo_row i name mgr =
     \<lparr>r_ID = i, r_Username = name, r_Email = name @ ''@local'', r_PasswordHash = [], r_OIDCSub = [],
      r_IsRoot = False,
      r_AccessRules = Some \<lparr>ar_ClusterIDs = [east], ar_AssignableRoles = [RoleViewer],
        ar_ManageUsers = mgr, ar_ViewAudit = False, ar_DeleteClusters = False\<rparr>,
      r_CreatedAt = 0\<rparr>"

definition demo_access :: AccessDB where
  "demo_access =
     \<lparr>xd_users = \<lparr>db_users = [demo_row admin_id ''ann'' False, demo_row mgr_id ''max'' True],
        db_user_roles = [(admin_id, RoleOperator), (mgr_id, RoleOperator)],
        db_grants = [zero_grant\<lparr>g_ID := ''g1'', g_UserID := admin_id, g_ResourceType := ResourceSystem,
          g_ResourceKey := east, g_Role := GrantAdmin\<rparr>]\<rparr>,
      xd_invites = [\<lparr>iv_CreatedAt = 0, iv_ExpiresAt = 100, iv_AcceptedAt = None, iv_Token = ''tok'',
        iv_UserID = mgr_id\<rparr>]\<rparr>"

definition demo_env :: AccessEnv where
  "demo_env =
     \<lparr>ev_uuid = (\<lambda>s. Some (ToLower s)), ev_bcrypt = Some, ev_newID = ''g2'', ev_randomToken = ''tok2'',
      ev_now = 10, ev_later = 11, ev_InviteTTL = 50, ev_PublicBaseURL = ''https://console/''\<rparr>"

definition demo_actor :: "string \<Rightarrow> User" where
  "demo_actor i = (case GetUserByID (xd_users demo_access) i of Inr u \<Rightarrow> u | Inl _ \<Rightarrow> zero_user)"

definition demo_request :: "string \<Rightarrow> string \<times> string \<Rightarrow> AccessRequest" where
  "demo_request actor body =
     \<lparr>xq_Actor = Some (demo_actor actor), xq_ClusterParam = east, xq_Account = [], xq_GrantID = [],
      xq_UserID = [], xq_Body = Some body\<rparr>"

definition after_step :: "access_call \<Rightarrow> AccessDB" where
  "after_step call = snd (snd (access_step demo_env call demo_access))"

lemma demo_run:
  assumes "current_actor demo_access call" and "P call"
  shows "access_run P demo_access (after_step call)"
  unfolding after_step_def
  by (rule run_call [OF run_start [of P demo_access] assms, of demo_env
        "fst (access_step demo_env call demo_access)" "fst (snd (access_step demo_env call demo_access))"]) simp

theorem admin_grants_confined_witness:
  "admin_at (xd_users (after_step (CallUpsertSystem (demo_request admin_id (mgr_id, GrantAdmin)))))
     ResourceSystem east \<and>
   length (db_grants (xd_users
     (after_step (CallUpsertSystem (demo_request admin_id (mgr_id, GrantAdmin)))))) = 2 \<and>
   admin_at (xd_users demo_access) ResourceSystem east"
proof -
  let ?c = "CallUpsertSystem (demo_request admin_id (mgr_id, GrantAdmin))"
  have "current_actor demo_access ?c" "plain_call ?c" by code_simp+
  then have run: "access_run plain_call demo_access (after_step ?c)" by (rule demo_run)
  have l: "length (db_grants (xd_users (after_step ?c))) = 2" by code_simp
  have a: "admin_at (xd_users (after_step ?c)) ResourceSystem east"
    unfolding admin_at_def by code_simp
  show ?thesis using a l admin_grants_confined [OF run a] by simp
qed

text \<open>
  The other direction of caution is missing: who manages the access to an account may give himself
  the right to download its credentials, which the code refuses to a manager who is not an administrator.
\<close>

theorem downloader_self_granted:
  "\<not> CanDownloadCreds (demo_actor mgr_id) east ''Default'' [] \<and>
   current_actor demo_access (CallUpsertAccount (demo_request mgr_id (mgr_id, GrantCredentialDownloader))) \<and>
   (case GetUserByID (xd_users (after_step
          (CallUpsertAccount (demo_request mgr_id (mgr_id, GrantCredentialDownloader))))) mgr_id of
      Inl _ \<Rightarrow> False
    | Inr u \<Rightarrow> CanDownloadCreds u east ''Default'' [])"
  by code_simp

text \<open>The tables of grants and invitations stay consistent: at most one grant for a user and a
  resource, of a type and a role that fit each other, unique tokens, and no row without its user, after
  every run of calls and of commits of acceptances.\<close>

theorem access_tables_ok:
  assumes "access_ok db" and "access_run P db db'"
  shows "distinct (map grant_place (db_grants (xd_users db'))) \<and>
    list_all valid_grant (db_grants (xd_users db')) \<and>
    list_all (\<lambda>g. user_exists (xd_users db') (g_UserID g)) (db_grants (xd_users db')) \<and>
    distinct (map iv_Token (xd_invites db')) \<and>
    list_all (\<lambda>v. user_exists (xd_users db') (iv_UserID v)) (xd_invites db')"
  using access_run_ok [OF assms(2,1)] by (simp add: access_ok_def grants_ok_def list_all_iff)

theorem access_tables_ok_witness:
  "list_all valid_grant (db_grants (xd_users
     (after_step (CallUpsertAccount (demo_request mgr_id (mgr_id, GrantCredentialDownloader))))))"
proof -
  let ?c = "CallUpsertAccount (demo_request mgr_id (mgr_id, GrantCredentialDownloader))"
  have "access_ok demo_access" by code_simp
  moreover have "access_run (\<lambda>_. True) demo_access (after_step ?c)" by (rule demo_run) code_simp+
  ultimately show ?thesis using access_tables_ok [of demo_access "\<lambda>_. True"] by blast
qed

section \<open>Invitations\<close>

definition spent :: "string \<Rightarrow> AccessDB \<Rightarrow> bool" where
  "spent token db \<longleftrightarrow>
     token \<in> set (map iv_Token (xd_invites db)) \<and>
     (\<forall>v\<in>set (xd_invites db). iv_Token v = token \<longrightarrow> iv_AcceptedAt v \<noteq> None)"

lemma spent_refused: "spent token db \<Longrightarrow> accept_tx now db token userID hash = (Some ErrConflict, db)"
  by (auto simp: spent_def accept_tx_def accept_open_def list_ex_iff)

lemma map_accept_tokens:
  "set (map iv_Token (map (\<lambda>v. if accept_open token now v then v\<lparr>iv_AcceptedAt := Some now\<rparr> else v) vs)) =
     set (map iv_Token vs)"
  by (rule arg_cong [of _ _ set]) simp

lemma accept_tx_spent:
  assumes "spent token db"
  shows "spent token (snd (accept_tx now db token' userID hash))"
proof (cases rule: accept_tx_cases [of now db token' userID hash])
  case accepted
  have "token \<in> set (map iv_Token (xd_invites db))" using assms by (simp only: spent_def)
  moreover have i: "xd_invites (snd (accept_tx now db token' userID hash)) =
      map (\<lambda>v. if accept_open token' now v then v\<lparr>iv_AcceptedAt := Some now\<rparr> else v) (xd_invites db)"
    unfolding accepted(2) by simp
  ultimately have "token \<in> set (map iv_Token (xd_invites (snd (accept_tx now db token' userID hash))))"
    unfolding i map_accept_tokens by simp
  then show ?thesis using assms unfolding spent_def accepted(2) by auto
qed (use assms in simp)

lemma upsertResourceAccess_invites:
  "xd_invites (snd (snd (upsertResourceAccess ev rq db t k sys))) = xd_invites db"
  by (cases rule: upsertResourceAccess_cases [of ev rq db t k sys]) simp_all

lemma deleteResourceAccess_invites:
  "xd_invites (snd (snd (deleteResourceAccess ev rq db t k))) = xd_invites db"
  by (cases rule: deleteResourceAccess_cases [of ev rq db t k]) simp_all

lemma access_step_spent:
  assumes "spent token db"
  shows "spent token (snd (snd (access_step ev call db)))"
proof (cases call)
  case (CallUpsertSystem rq)
  then show ?thesis using assms by (simp add: UpsertSystemAccess_def spent_def upsertResourceAccess_invites)
next
  case (CallDeleteSystem rq)
  then show ?thesis using assms by (simp add: DeleteSystemAccess_def spent_def deleteResourceAccess_invites)
next
  case (CallUpsertAccount rq)
  then show ?thesis using assms
    by (simp add: UpsertAccountAccess_def spent_def upsertResourceAccess_invites split: sum.splits)
next
  case (CallDeleteAccount rq)
  then show ?thesis using assms
    by (simp add: DeleteAccountAccess_def spent_def deleteResourceAccess_invites split: sum.splits)
next
  case (CallInvite a b)
  have "spent token (snd (InvitePerson ev a b db))"
    by (cases rule: InvitePerson_cases [of ev a b db]) (use assms in \<open>auto simp: spent_def\<close>)
  then show ?thesis using CallInvite by (simp add: split_beta)
next
  case (CallAccept b)
  have "spent token (snd (snd (AcceptInvite ev b db)))"
  proof (cases rule: AcceptInvite_cases [of ev b db])
    case (accepted token' userID hash)
    then show ?thesis using accept_tx_spent [OF assms, of "ev_later ev" token' userID hash] by simp
  qed (use assms in simp)
  then show ?thesis using CallAccept by simp
qed

lemma access_run_spent: "access_run P db db' \<Longrightarrow> spent token db \<Longrightarrow> spent token db'"
proof (induction rule: access_run.induct)
  case (run_call db db1 call ev r eff db2)
  then show ?case using access_step_spent [of token db1 ev call] by simp
next
  case (run_commit db db1 now token' userID hash res db2)
  then show ?case using accept_tx_spent [of token db1 now token' userID hash] by simp
qed simp

lemma accept_tx_spends:
  assumes "access_ok db" and "accept_tx now db token userID hash = (None, db')"
  shows "spent token db'" and "\<exists>v\<in>set (xd_invites db). accept_open token now v"
proof -
  from assms(2) have ex: "list_ex (accept_open token now) (xd_invites db)"
    by (auto simp: accept_tx_def split: if_splits)
  then obtain v where v: "v \<in> set (xd_invites db)" "accept_open token now v" by (auto simp: list_ex_iff)
  then show "\<exists>v\<in>set (xd_invites db). accept_open token now v" by blast
  have inj: "inj_on iv_Token (set (xd_invites db))" using assms(1) by (simp add: access_ok_def distinct_map)
  have same: "w = v" if "w \<in> set (xd_invites db)" "iv_Token w = token" for w
    using inj_onD [OF inj _ that(1) v(1)] that(2) v(2) by (simp add: accept_open_def)
  have db': "xd_invites db' =
      map (\<lambda>v. if accept_open token now v then v\<lparr>iv_AcceptedAt := Some now\<rparr> else v) (xd_invites db)"
    using assms(2) ex by (auto simp: accept_tx_def)
  show "spent token db'" unfolding spent_def db'
  proof
    show "token \<in> set (map iv_Token (map (\<lambda>v. if accept_open token now v
        then v\<lparr>iv_AcceptedAt := Some now\<rparr> else v) (xd_invites db)))"
      unfolding map_accept_tokens using v by (auto simp: accept_open_def)
    show "\<forall>w\<in>set (map (\<lambda>v. if accept_open token now v
        then v\<lparr>iv_AcceptedAt := Some now\<rparr> else v) (xd_invites db)).
        iv_Token w = token \<longrightarrow> iv_AcceptedAt w \<noteq> None"
      using same v(2) by auto
  qed
qed

text \<open>C33: an invitation is accepted at most once and never after it has expired.  However acceptances
  and other calls interleave (each acceptance checks, hashes and commits at its own times), after a commit
  for a token every other commit for it fails and changes nothing; and a commit that succeeds found the
  invitation open and only sets the password of one user.\<close>

theorem invite_accepted_once:
  assumes "access_ok db" and "accept_tx now db token userID hash = (None, db1)" and "access_run P db1 db2"
  shows "accept_tx now' db2 token userID' hash' = (Some ErrConflict, db2) \<and>
    list_ex (\<lambda>v. iv_Token v = token \<and> iv_AcceptedAt v = None \<and> iv_ExpiresAt v > now) (xd_invites db) \<and>
    xd_users db1 = update_row userID (\<lambda>r. r\<lparr>r_PasswordHash := hash\<rparr>) (xd_users db)"
  using spent_refused [OF access_run_spent [OF assms(3) accept_tx_spends(1) [OF assms(1,2)]]]
    accept_tx_spends(2) [OF assms(1,2)] assms(2)
  by (auto simp: accept_open_def list_ex_iff accept_tx_def split: if_splits)

theorem invite_accepted_once_witness:
  "accept_tx 11 demo_access ''tok'' mgr_id ''h1'' = (None, snd (accept_tx 11 demo_access ''tok'' mgr_id ''h1'')) \<and>
   accept_tx 12 (snd (accept_tx 11 demo_access ''tok'' mgr_id ''h1'')) ''tok'' mgr_id ''h2'' =
     (Some ErrConflict, snd (accept_tx 11 demo_access ''tok'' mgr_id ''h1''))"
proof -
  let ?d = "snd (accept_tx 11 demo_access ''tok'' mgr_id ''h1'')"
  have ok: "access_ok demo_access" by code_simp
  have f: "fst (accept_tx 11 demo_access ''tok'' mgr_id ''h1'') = None" by code_simp
  then have a: "accept_tx 11 demo_access ''tok'' mgr_id ''h1'' = (None, ?d)" by (metis prod.collapse)
  from invite_accepted_once [OF ok a run_start [of "\<lambda>_. True"], of 12 mgr_id "''h2''"] a
  show ?thesis by simp
qed

text \<open>The password is stored without the white space around it, but the login compares what is typed.\<close>

theorem accepted_password_trimmed:
  "case AcceptUserInvite demo_env demo_access ''tok'' '' secret 12 '' of
     (Inl _, _) \<Rightarrow> False
   | (Inr u, db) \<Rightarrow> map r_PasswordHash (filter (\<lambda>r. r_ID r = u_ID u) (db_users (xd_users db))) = [''secret 12'']"
  by code_simp

section \<open>Cached users\<close>

definition canonical_call :: "AccessEnv \<Rightarrow> access_call \<Rightarrow> bool" where
  "canonical_call ev call \<longleftrightarrow>
     (case call of
        CallUpsertSystem rq \<Rightarrow>
          (case xq_Body rq of None \<Rightarrow> True | Some (u, _) \<Rightarrow> ev_uuid ev u \<in> {None, Some u})
      | CallUpsertAccount rq \<Rightarrow>
          (case xq_Body rq of None \<Rightarrow> True | Some (u, _) \<Rightarrow> ev_uuid ev u \<in> {None, Some u})
      | CallDeleteSystem rq \<Rightarrow> ev_uuid ev (xq_UserID rq) \<in> {None, Some (xq_UserID rq)}
      | CallDeleteAccount rq \<Rightarrow> ev_uuid ev (xq_UserID rq) \<in> {None, Some (xq_UserID rq)}
      | _ \<Rightarrow> True)"

lemma grants_of_map_other:
  "(\<And>g. f g = g \<or> g_UserID g \<noteq> u \<and> g_UserID (f g) \<noteq> u) \<Longrightarrow>
     filter (\<lambda>g. g_UserID g = u) (map f gs) = filter (\<lambda>g. g_UserID g = u) gs"
  by (induction gs) (auto, metis+)

lemma UpsertAccessGrant_others:
  assumes r: "UpsertAccessGrant ev db i = (Inr g, db')" and u: "ev_uuid ev (gu_UserID i) \<noteq> Some u"
  shows "grants_of db' u = grants_of db u"
proof (cases rule: UpsertAccessGrant_cases [of ev db i])
  case (rejected e)
  then show ?thesis using r by simp
next
  case (changed userID h)
  have "userID \<noteq> u" using changed(2) u by auto
  moreover have "g_UserID h = userID" using find_mem [OF changed(3)] by (simp add: grant_at_def)
  ultimately show ?thesis
    using r changed(4) unfolding grants_of_def
    by (auto intro!: grants_of_map_other simp: grant_at_def split: if_splits)
next
  case (inserted userID h)
  then show ?thesis using r u by (auto simp: grants_of_def grant_at_def)
qed

lemma upsertResourceAccess_invalidates:
  assumes "\<And>u role. xq_Body rq = Some (u, role) \<Longrightarrow> ev_uuid ev u \<in> {None, Some u}"
    and "InvalidateCached u \<notin> set (fst (snd (upsertResourceAccess ev rq db t k sys)))"
  shows "grants_of (xd_users (snd (snd (upsertResourceAccess ev rq db t k sys)))) u = grants_of (xd_users db) u"
proof (cases rule: upsertResourceAccess_cases [of ev rq db t k sys])
  case (granted actor userID role g us)
  then have "userID \<noteq> u" using assms(2) by auto
  then have "ev_uuid ev userID \<noteq> Some u" using assms(1) [OF granted(3)] by auto
  with UpsertAccessGrant_others [OF granted(5), of u] granted(6) show ?thesis by simp
qed simp

lemma deleteResourceAccess_invalidates:
  assumes "grants_ok (xd_users db)" and "ev_uuid ev (xq_UserID rq) \<in> {None, Some (xq_UserID rq)}"
    and "InvalidateCached u \<notin> set (fst (snd (deleteResourceAccess ev rq db t k)))"
  shows "grants_of (xd_users (snd (snd (deleteResourceAccess ev rq db t k)))) u = grants_of (xd_users db) u"
proof (cases rule: deleteResourceAccess_cases [of ev rq db t k])
  case (deleted userID P)
  have n: "userID \<noteq> u" using assms(3) deleted(1) by auto
  have inj: "inj_on g_ID (set (db_grants (xd_users db)))"
    using assms(1) by (simp add: grants_ok_def distinct_map)
  have "g_UserID g = userID" if g: "g \<in> set (db_grants (xd_users db))" "P g" for g
    using deleted(2)
  proof (elim disjE exE conjE)
    fix i g' assume P: "P = (\<lambda>g. g_ID g = i \<and> g_ResourceType g = t \<and> g_ResourceKey g = k)"
      and f: "find P (db_grants (xd_users db)) = Some g'" and e: "userID = g_UserID g'"
    have "g' \<in> set (db_grants (xd_users db))" "P g'" using find_mem [OF f] by simp_all
    then have "g' = g" using inj_onD [OF inj _ _ g(1), of g'] g(2) P by simp
    then show ?thesis using e by simp
  next
    fix i assume "P = grant_at i t k" "ev_uuid ev userID = Some i" "userID = xq_UserID rq"
    then show ?thesis using assms(2) g(2) by (auto simp: grant_at_def)
  qed
  then have "filter (\<lambda>g. g_UserID g = u) (filter (\<lambda>g. \<not> P g) (db_grants (xd_users db))) =
      filter (\<lambda>g. g_UserID g = u) (db_grants (xd_users db))"
    using n by (auto simp: filter_filter intro!: filter_cong)
  then show ?thesis by (simp add: deleted(1) grants_of_def)
qed simp

text \<open>No grant changes behind the caches: a call after which the grants of a user differ also
  invalidates what is cached of that user, as long as the caller spells identifiers canonically.\<close>

theorem grant_changes_invalidate:
  assumes "access_ok db" and "canonical_call ev call" and "access_step ev call db = (r, eff, db')"
  shows "grants_of (xd_users db') u \<noteq> grants_of (xd_users db) u \<longrightarrow> InvalidateCached u \<in> set eff"
proof (rule impI, rule ccontr)
  assume c: "grants_of (xd_users db') u \<noteq> grants_of (xd_users db) u" and n: "InvalidateCached u \<notin> set eff"
  have db': "db' = snd (snd (access_step ev call db))" and eff: "eff = fst (snd (access_step ev call db))"
    using assms(3) by simp_all
  have g: "grants_ok (xd_users db)" using assms(1) by (simp add: access_ok_def)
  have "grants_of (xd_users db') u = grants_of (xd_users db) u"
  proof (cases call)
    case (CallUpsertSystem rq)
    have b: "ev_uuid ev w \<in> {None, Some w}" if "xq_Body rq = Some (w, role)" for w role
      using assms(2) that CallUpsertSystem by (simp add: canonical_call_def)
    show ?thesis unfolding db' using n eff CallUpsertSystem
      by (simp add: UpsertSystemAccess_def upsertResourceAccess_invalidates [OF b])
  next
    case (CallUpsertAccount rq)
    have b: "ev_uuid ev w \<in> {None, Some w}" if "xq_Body rq = Some (w, role)" for w role
      using assms(2) that CallUpsertAccount by (simp add: canonical_call_def)
    show ?thesis unfolding db' using n eff CallUpsertAccount
      by (simp add: UpsertAccountAccess_def upsertResourceAccess_invalidates [OF b] split: sum.splits)
  next
    case (CallDeleteSystem rq)
    then show ?thesis unfolding db' using n eff assms(2)
      by (simp add: DeleteSystemAccess_def canonical_call_def deleteResourceAccess_invalidates [OF g])
  next
    case (CallDeleteAccount rq)
    then show ?thesis unfolding db' using n eff assms(2)
      by (simp add: DeleteAccountAccess_def canonical_call_def deleteResourceAccess_invalidates [OF g]
          split: sum.splits)
  next
    case (CallInvite a b)
    then show ?thesis unfolding db' by (simp add: split_beta grants_of_def InvitePerson_grants)
  next
    case (CallAccept b)
    then show ?thesis unfolding db' by (simp add: grants_of_def AcceptInvite_grants)
  qed
  with c show False by simp
qed

theorem grant_changes_invalidate_witness:
  "InvalidateCached mgr_id \<in> set (fst (snd (access_step demo_env
     (CallUpsertSystem (demo_request admin_id (mgr_id, GrantObserver))) demo_access)))"
proof -
  let ?c = "CallUpsertSystem (demo_request admin_id (mgr_id, GrantObserver))"
  let ?s = "access_step demo_env ?c demo_access"
  have ok: "access_ok demo_access" by code_simp
  have c: "canonical_call demo_env ?c" by code_simp
  have l: "length (grants_of (xd_users (snd (snd ?s))) mgr_id) = 1" "grants_of (xd_users demo_access) mgr_id = []"
    by code_simp+
  have s: "?s = (fst ?s, fst (snd ?s), snd (snd ?s))" by simp
  from grant_changes_invalidate [OF ok c s, of mgr_id] l show ?thesis by fastforce
qed

end
