(* ===== verification/Clusters.thy ===== *)
theory Clusters
  imports Authz
begin

text \<open>
  The registry of clusters and the credentials it stores: \<^verbatim>\<open>internal/crypto/crypto.go\<close>,
  \<^verbatim>\<open>internal/repo/clusters.go\<close>, \<^verbatim>\<open>store.go\<close> (the credentials), \<^verbatim>\<open>encryption_rotate.go\<close>,
  \<^verbatim>\<open>internal/app/cluster.go\<close>, \<^verbatim>\<open>internal/api/ops/clusters.go\<close>, \<^verbatim>\<open>internal/api/admin_handlers.go\<close>, and
  the bootstrap of the default cluster (\<^verbatim>\<open>internal/nats/manager.go\<close>).

  The cipher is the parameter \<open>Cipher\<close>: the derivation of keys, sealing and opening, and Base64.  Random
  nonces and ids are arguments.  The table of clusters has a unique name; a statement that violates it
  rolls its transaction back.
\<close>

section \<open>The encryptor (crypto.go)\<close>

record Cipher =
  cp_sum :: "string \<Rightarrow> string"
  cp_seal :: "string \<Rightarrow> string \<Rightarrow> string \<Rightarrow> string"
  cp_open :: "string \<Rightarrow> string \<Rightarrow> string \<Rightarrow> string option"
  cp_base64 :: "string \<Rightarrow> string"
  cp_unbase64 :: "string \<Rightarrow> string option"

datatype crypto_error = ErrMissingKey | ErrInvalidKey | ErrDecrypt

definition NonceSize :: nat where
  "NonceSize = 12"

text \<open>An \<^verbatim>\<open>Encryptor\<close> is its derived key.\<close>

definition crypto_New :: "Cipher \<Rightarrow> string \<Rightarrow> crypto_error + string" where
  "crypto_New cp key =
     (if IsEmpty key then Inl ErrMissingKey
      else if length key < 16 then Inl ErrInvalidKey
      else Inr (cp_sum cp key))"

definition encryptedPrefix :: string where
  "encryptedPrefix = ''enc:''"

definition IsEncrypted :: "string \<Rightarrow> bool" where
  "IsEncrypted v \<longleftrightarrow> HasPrefix v encryptedPrefix"

definition Encrypt :: "Cipher \<Rightarrow> string \<Rightarrow> string \<Rightarrow> string \<Rightarrow> string" where
  "Encrypt cp e nonce plaintext =
     (if IsEmpty plaintext then []
      else if IsEncrypted plaintext then plaintext
      else encryptedPrefix @ cp_base64 cp (nonce @ cp_seal cp e nonce plaintext))"

definition Decrypt :: "Cipher \<Rightarrow> string \<Rightarrow> string \<Rightarrow> crypto_error + string" where
  "Decrypt cp e v =
     (if IsEmpty v then Inr []
      else if \<not> IsEncrypted v then Inr v
      else
        case cp_unbase64 cp (TrimPrefix v encryptedPrefix) of
          None \<Rightarrow> Inl ErrDecrypt
        | Some raw \<Rightarrow>
            if length raw < NonceSize then Inl ErrDecrypt
            else
              (case cp_open cp e (take NonceSize raw) (drop NonceSize raw) of
                 None \<Rightarrow> Inl ErrDecrypt | Some p \<Rightarrow> Inr p))"

definition EncryptIfNeeded :: "Cipher \<Rightarrow> string \<Rightarrow> string \<Rightarrow> string \<Rightarrow> string" where
  "EncryptIfNeeded cp e nonce v = (if IsEmpty v \<or> IsEncrypted v then v else Encrypt cp e nonce v)"

section \<open>The tables\<close>

record ClusterRow =
  cr_ID :: string
  cr_Name :: string
  cr_NATSURL :: string
  cr_MonitoringURL :: string
  cr_CredsFilePath :: string
  cr_Token :: string
  cr_IsDefault :: bool
  cr_CreatedAt :: gotime
  cr_UpdatedAt :: gotime

text \<open>\<open>cs_seeds\<close> are the encrypted seeds of NATS users, which share the key (\<^verbatim>\<open>nats_account.go\<close>).\<close>

record CredStore =
  cs_clusters :: "ClusterRow list"
  cs_seeds :: "string list"
  cs_encryptor :: "string option"

record ClusterCreate =
  cc_Name :: string
  cc_NATSURL :: string
  cc_MonitoringURL :: string
  cc_CredsFilePath :: string
  cc_Token :: string
  cc_IsDefault :: bool

record ClusterUpdate =
  cu_Name :: "string option"
  cu_NATSURL :: "string option"
  cu_MonitoringURL :: "string option"
  cu_CredsFilePath :: "string option"
  cu_Token :: "string option"
  cu_IsDefault :: "bool option"

datatype cluster_error =
    ClusterNotFound
  | UniqueViolation
  | CredentialError crypto_error
  | CannotDeleteDefault
  | CannotDeleteLast
  | ConnBusy

definition encryptToken :: "Cipher \<Rightarrow> CredStore \<Rightarrow> string \<Rightarrow> string \<Rightarrow> string" where
  "encryptToken cp db nonce token =
     (if IsEmpty token then token
      else case cs_encryptor db of None \<Rightarrow> token | Some e \<Rightarrow> Encrypt cp e nonce token)"

definition decryptToken :: "Cipher \<Rightarrow> CredStore \<Rightarrow> string \<Rightarrow> crypto_error + string" where
  "decryptToken cp db token =
     (if IsEmpty token then Inr token
      else case cs_encryptor db of None \<Rightarrow> Inr token | Some e \<Rightarrow> Decrypt cp e token)"

section \<open>Operations on clusters (clusters.go)\<close>

definition row_by_id :: "CredStore \<Rightarrow> string \<Rightarrow> ClusterRow option" where
  "row_by_id db i = find (\<lambda>r. cr_ID r = i) (cs_clusters db)"

definition CountClusters :: "CredStore \<Rightarrow> nat" where
  "CountClusters db = length (cs_clusters db)"

definition GetCluster :: "CredStore \<Rightarrow> string \<Rightarrow> cluster_error + ClusterRow" where
  "GetCluster db i = (case row_by_id db i of None \<Rightarrow> Inl ClusterNotFound | Some r \<Rightarrow> Inr r)"

definition GetDefaultCluster :: "CredStore \<Rightarrow> cluster_error + ClusterRow" where
  "GetDefaultCluster db =
     (case find cr_IsDefault (cs_clusters db) of None \<Rightarrow> Inl ClusterNotFound | Some r \<Rightarrow> Inr r)"

text \<open>\<^verbatim>\<open>UPDATE clusters SET is_default = FALSE, updated_at = now WHERE \<dots>\<close>\<close>

definition clear_defaults :: "(ClusterRow \<Rightarrow> bool) \<Rightarrow> gotime \<Rightarrow> ClusterRow list \<Rightarrow> ClusterRow list" where
  "clear_defaults P now rows =
     map (\<lambda>r. if P r then r\<lparr>cr_IsDefault := False, cr_UpdatedAt := now\<rparr> else r) rows"

definition CreateCluster ::
  "Cipher \<Rightarrow> string \<Rightarrow> string \<Rightarrow> gotime \<Rightarrow> ClusterCreate \<Rightarrow> CredStore \<Rightarrow>
     (cluster_error + ClusterRow) \<times> CredStore" where
  "CreateCluster cp i nonce now inp db =
     (let rows = (if cc_IsDefault inp then clear_defaults (\<lambda>_. True) now (cs_clusters db)
                  else cs_clusters db);
          token = encryptToken cp db nonce (cc_Token inp);
          row = \<lparr>cr_ID = i, cr_Name = cc_Name inp, cr_NATSURL = cc_NATSURL inp,
                 cr_MonitoringURL = cc_MonitoringURL inp, cr_CredsFilePath = cc_CredsFilePath inp,
                 cr_Token = token, cr_IsDefault = cc_IsDefault inp, cr_CreatedAt = now,
                 cr_UpdatedAt = now\<rparr>
      in if list_ex (\<lambda>r. cr_ID r = i \<or> cr_Name r = cc_Name inp) rows then (Inl UniqueViolation, db)
         else (Inr row, db\<lparr>cs_clusters := rows @ [row]\<rparr>))"

definition set_opt :: "'a option \<Rightarrow> 'a \<Rightarrow> 'a" where
  "set_opt o' x = (case o' of None \<Rightarrow> x | Some y \<Rightarrow> y)"

definition updated_row ::
  "Cipher \<Rightarrow> CredStore \<Rightarrow> string \<Rightarrow> gotime \<Rightarrow> ClusterUpdate \<Rightarrow> ClusterRow \<Rightarrow> ClusterRow" where
  "updated_row cp db nonce now inp current =
     current\<lparr>cr_Name := set_opt (cu_Name inp) (cr_Name current),
       cr_NATSURL := set_opt (cu_NATSURL inp) (cr_NATSURL current),
       cr_MonitoringURL := set_opt (cu_MonitoringURL inp) (cr_MonitoringURL current),
       cr_CredsFilePath := set_opt (cu_CredsFilePath inp) (cr_CredsFilePath current),
       cr_Token := (case cu_Token inp of None \<Rightarrow> cr_Token current
                    | Some t \<Rightarrow> encryptToken cp db nonce t),
       cr_IsDefault := set_opt (cu_IsDefault inp) (cr_IsDefault current),
       cr_UpdatedAt := now\<rparr>"

definition UpdateCluster ::
  "Cipher \<Rightarrow> string \<Rightarrow> string \<Rightarrow> gotime \<Rightarrow> ClusterUpdate \<Rightarrow> CredStore \<Rightarrow>
     (cluster_error + ClusterRow) \<times> CredStore" where
  "UpdateCluster cp i nonce now inp db =
     (case GetCluster db i of
        Inl e \<Rightarrow> (Inl e, db)
      | Inr current \<Rightarrow>
          let row = updated_row cp db nonce now inp current;
              rows = (if cr_IsDefault row then clear_defaults (\<lambda>r. cr_ID r \<noteq> i) now (cs_clusters db)
                      else cs_clusters db)
          in if list_ex (\<lambda>r. cr_ID r \<noteq> i \<and> cr_Name r = cr_Name row) rows then (Inl UniqueViolation, db)
             else (Inr row, db\<lparr>cs_clusters := map (\<lambda>r. if cr_ID r = i then row else r) rows\<rparr>))"

definition GetClusterCredentials :: "Cipher \<Rightarrow> CredStore \<Rightarrow> string \<Rightarrow> cluster_error + ClusterRow" where
  "GetClusterCredentials cp db i =
     (case GetCluster db i of
        Inl e \<Rightarrow> Inl e
      | Inr r \<Rightarrow>
          (case decryptToken cp db (cr_Token r) of
             Inl e \<Rightarrow> Inl (CredentialError e) | Inr t \<Rightarrow> Inr (r\<lparr>cr_Token := t\<rparr>)))"

definition repo_DeleteCluster :: "string \<Rightarrow> CredStore \<Rightarrow> cluster_error option \<times> CredStore" where
  "repo_DeleteCluster i db =
     (if row_by_id db i = None then (Some ClusterNotFound, db)
      else (None, db\<lparr>cs_clusters := filter (\<lambda>r. cr_ID r \<noteq> i) (cs_clusters db)\<rparr>))"

section \<open>The service (app/cluster.go)\<close>

text \<open>The flag says that the connection of the cluster was evicted.\<close>

definition service_Delete :: "string \<Rightarrow> CredStore \<Rightarrow> cluster_error option \<times> bool \<times> CredStore" where
  "service_Delete i db =
     (case GetCluster db i of
        Inl e \<Rightarrow> (Some e, False, db)
      | Inr r \<Rightarrow>
          if cr_IsDefault r then (Some CannotDeleteDefault, False, db)
          else if CountClusters db \<le> 1 then (Some CannotDeleteLast, False, db)
          else
            (case repo_DeleteCluster i db of
               (Some e, db) \<Rightarrow> (Some e, False, db)
             | (None, db) \<Rightarrow> (None, True, db)))"

text \<open>\<^verbatim>\<open>BootstrapDefaultCluster\<close> in its two parts: the count, and the creation when it was zero.\<close>

definition BootstrapDefaultCluster ::
  "Cipher \<Rightarrow> string \<Rightarrow> string \<Rightarrow> gotime \<Rightarrow> ClusterCreate \<Rightarrow> nat \<Rightarrow> CredStore \<Rightarrow>
     cluster_error option \<times> CredStore" where
  "BootstrapDefaultCluster cp i nonce now cfg count db =
     (if count > 0 then (None, db)
      else
        case CreateCluster cp i nonce now (cfg\<lparr>cc_IsDefault := True\<rparr>) db of
          (Inl e, db) \<Rightarrow> (Some e, db) | (Inr _, db) \<Rightarrow> (None, db))"

section \<open>Stored credentials (store.go, encryption_rotate.go)\<close>

text \<open>Tokens are encrypted on start-up; \<open>nonces\<close> gives a nonce for each row.\<close>

definition set_token :: "gotime \<Rightarrow> string \<Rightarrow> ClusterRow \<Rightarrow> ClusterRow" where
  "set_token now token r = r\<lparr>cr_Token := token, cr_UpdatedAt := now\<rparr>"

fun reencrypt_rows ::
  "Cipher \<Rightarrow> string \<Rightarrow> (string \<Rightarrow> string) \<Rightarrow> gotime \<Rightarrow> ClusterRow list \<Rightarrow> ClusterRow list" where
  "reencrypt_rows cp e nonces now [] = []"
| "reencrypt_rows cp e nonces now (r # rs) =
     (if cr_Token r = [] \<or> IsEncrypted (cr_Token r) then r
      else set_token now (Encrypt cp e (nonces (cr_ID r)) (cr_Token r)) r)
       # reencrypt_rows cp e nonces now rs"

definition ReencryptCredentials ::
  "Cipher \<Rightarrow> (string \<Rightarrow> string) \<Rightarrow> gotime \<Rightarrow> CredStore \<Rightarrow> CredStore" where
  "ReencryptCredentials cp nonces now db =
     (case cs_encryptor db of
        None \<Rightarrow> db
      | Some e \<Rightarrow> db\<lparr>cs_clusters := reencrypt_rows cp e nonces now (cs_clusters db)\<rparr>)"

definition decryptWithFallback ::
  "Cipher \<Rightarrow> string \<Rightarrow> string \<Rightarrow> string option \<Rightarrow> crypto_error + string" where
  "decryptWithFallback cp v oldEnc active =
     (if IsEmpty v then Inr []
      else if \<not> IsEncrypted v then Inr v
      else
        case Decrypt cp oldEnc v of
          Inr p \<Rightarrow> Inr p
        | Inl _ \<Rightarrow> (case active of None \<Rightarrow> Inl ErrDecrypt | Some a \<Rightarrow> Decrypt cp a v))"

text \<open>
  The loop over the rows with a token.  \<open>busy\<close>: whether the driver refuses a statement on a connection
  whose rows are still being read, as pgx documents; the loop updates on the transaction it reads from.
\<close>

fun rotate_rows ::
  "Cipher \<Rightarrow> bool \<Rightarrow> string \<Rightarrow> string option \<Rightarrow> string \<Rightarrow> (string \<Rightarrow> string) \<Rightarrow> gotime \<Rightarrow> bool \<Rightarrow> ClusterRow list \<Rightarrow>
     cluster_error + nat \<times> ClusterRow list" where
  "rotate_rows cp busy oldEnc active newEnc nonces now dryRun [] = Inr (0, [])"
| "rotate_rows cp busy oldEnc active newEnc nonces now dryRun (r # rs) =
     (if cr_Token r = [] then
        (case rotate_rows cp busy oldEnc active newEnc nonces now dryRun rs of
           Inl e \<Rightarrow> Inl e | Inr (n, rs') \<Rightarrow> Inr (n, r # rs'))
      else
        case decryptWithFallback cp (cr_Token r) oldEnc active of
          Inl e \<Rightarrow> Inl (CredentialError e)
        | Inr plain \<Rightarrow>
            let encrypted = Encrypt cp newEnc (nonces (cr_ID r)) plain in
            if \<not> dryRun \<and> busy then Inl ConnBusy
            else
              case rotate_rows cp busy oldEnc active newEnc nonces now dryRun rs of
                Inl e \<Rightarrow> Inl e
              | Inr (n, rs') \<Rightarrow>
                  Inr (Suc n, (if dryRun then r else set_token now encrypted r) # rs'))"

definition RotateEncryptionKeys ::
  "Cipher \<Rightarrow> bool \<Rightarrow> (string \<Rightarrow> string) \<Rightarrow> gotime \<Rightarrow> string \<Rightarrow> string \<Rightarrow> bool \<Rightarrow> CredStore \<Rightarrow>
     (cluster_error + nat) \<times> CredStore" where
  "RotateEncryptionKeys cp busy nonces now currentKey newKey dryRun db =
     (case crypto_New cp currentKey of
        Inl e \<Rightarrow> (Inl (CredentialError e), db)
      | Inr oldEnc \<Rightarrow>
          (case crypto_New cp newKey of
             Inl e \<Rightarrow> (Inl (CredentialError e), db)
           | Inr newEnc \<Rightarrow>
               (case rotate_rows cp busy oldEnc (cs_encryptor db) newEnc nonces now dryRun (cs_clusters db) of
                  Inl e \<Rightarrow> (Inl e, db)
                | Inr (n, rows) \<Rightarrow> (Inr n, if dryRun then db else db\<lparr>cs_clusters := rows\<rparr>))))"

text \<open>The handler, with the decoded body; the restart with the new key that its answer asks for.\<close>

datatype rotate_answer = RotateForbidden | RotateBadInput | RotateFailed cluster_error | Rotated nat bool

definition RotateEncryptionKey ::
  "Cipher \<Rightarrow> bool \<Rightarrow> (string \<Rightarrow> string) \<Rightarrow> gotime \<Rightarrow> User option \<Rightarrow> (string \<times> string) option \<Rightarrow>
     string \<Rightarrow> CredStore \<Rightarrow>
     rotate_answer \<times> CredStore" where
  "RotateEncryptionKey cp busy nonces now user body dryRunArg db =
     (case user of
        None \<Rightarrow> (RotateForbidden, db)
      | Some u \<Rightarrow>
          if \<not> u_IsRoot u then (RotateForbidden, db)
          else
            case body of
              None \<Rightarrow> (RotateBadInput, db)
            | Some (currentKey, newKey) \<Rightarrow>
                if IsEmpty currentKey \<or> IsEmpty newKey then (RotateBadInput, db)
                else if length newKey < 16 then (RotateBadInput, db)
                else
                  let dryRun = EqualFold dryRunArg ''true'' in
                  case RotateEncryptionKeys cp busy nonces now currentKey newKey dryRun db of
                    (Inl e, db) \<Rightarrow> (RotateFailed e, db) | (Inr n, db) \<Rightarrow> (Rotated n dryRun, db))"

definition restart_with :: "Cipher \<Rightarrow> string \<Rightarrow> CredStore \<Rightarrow> CredStore" where
  "restart_with cp key db =
     db\<lparr>cs_encryptor := (case crypto_New cp key of Inl _ \<Rightarrow> None | Inr e \<Rightarrow> Some e)\<rparr>"

section \<open>Listing (api/ops/clusters.go)\<close>

text \<open>\<open>parse\<close> is \<^verbatim>\<open>url.Parse\<close>: nothing on an error, else whether the URL has userinfo and how it is written
  once the userinfo is cleared.\<close>

definition redact_part :: "(string \<Rightarrow> (bool \<times> string) option) \<Rightarrow> string \<Rightarrow> string" where
  "redact_part parse part =
     (case parse part of None \<Rightarrow> part | Some (has_user, bare) \<Rightarrow> if \<not> has_user then part else bare)"

definition redactURLUserinfo :: "(string \<Rightarrow> (bool \<times> string) option) \<Rightarrow> string \<Rightarrow> string" where
  "redactURLUserinfo parse raw =
     (if IsEmpty raw then raw
      else Join '','' (map (redact_part parse)
             (filter (\<lambda>part. \<not> IsEmpty part) (map TrimSpace (Split CHR '','' raw)))))"

definition redactClusterURLs ::
  "(string \<Rightarrow> (bool \<times> string) option) \<Rightarrow> ClusterRow \<Rightarrow> User \<Rightarrow> ClusterRow" where
  "redactClusterURLs parse cluster user =
     (let c = cluster\<lparr>cr_NATSURL := redactURLUserinfo parse (cr_NATSURL cluster),
                      cr_MonitoringURL := redactURLUserinfo parse (cr_MonitoringURL cluster)\<rparr>
      in if \<not> CanAccessCluster user (cr_ID c) then c\<lparr>cr_NATSURL := [], cr_MonitoringURL := []\<rparr> else c)"

definition ListClusters ::
  "(string \<Rightarrow> (bool \<times> string) option) \<Rightarrow> CredStore \<Rightarrow> User option \<Rightarrow> ClusterRow list" where
  "ListClusters parse db actor =
     (case actor of
        None \<Rightarrow> cs_clusters db
      | Some u \<Rightarrow>
          map (\<lambda>c. redactClusterURLs parse c u) (FilterClustersForActor cr_ID (cs_clusters db) u))"

definition GetCluster_handler ::
  "(string \<Rightarrow> (bool \<times> string) option) \<Rightarrow> (string \<Rightarrow> bool) \<Rightarrow> CredStore \<Rightarrow> User option \<Rightarrow> string \<Rightarrow>
     cluster_error option + ClusterRow" where
  "GetCluster_handler parse valid_uuid db user i =
     (if \<not> valid_uuid i then Inl None
      else
        case GetCluster db i of
          Inl e \<Rightarrow> Inl (Some e)
        | Inr c \<Rightarrow> Inr (case user of None \<Rightarrow> c | Some u \<Rightarrow> redactClusterURLs parse c u))"

section \<open>The registry as a whole\<close>

datatype registry_op =
    OpCreate string string gotime ClusterCreate
  | OpUpdate string string gotime ClusterUpdate
  | OpDelete string
  | OpBootstrap string string gotime ClusterCreate
  | OpReencrypt "string \<Rightarrow> string" gotime
  | OpRotate bool "string \<Rightarrow> string" gotime "User option" "(string \<times> string) option" string

definition registry_step :: "Cipher \<Rightarrow> registry_op \<Rightarrow> CredStore \<Rightarrow> CredStore" where
  "registry_step cp oper db =
     (case oper of
        OpCreate i n t inp \<Rightarrow> snd (CreateCluster cp i n t inp db)
      | OpUpdate i n t inp \<Rightarrow> snd (UpdateCluster cp i n t inp db)
      | OpDelete i \<Rightarrow> snd (snd (service_Delete i db))
      | OpBootstrap i n t cfg \<Rightarrow> snd (BootstrapDefaultCluster cp i n t cfg (CountClusters db) db)
      | OpReencrypt ns t \<Rightarrow> ReencryptCredentials cp ns t db
      | OpRotate busy ns t user body dry \<Rightarrow> snd (RotateEncryptionKey cp busy ns t user body dry db))"

definition rows_ok :: "ClusterRow list \<Rightarrow> bool" where
  "rows_ok rows \<longleftrightarrow> distinct (map cr_ID rows) \<and> distinct (map cr_Name rows) \<and>
     length (filter cr_IsDefault rows) \<le> 1"

definition undefaults :: "registry_op \<Rightarrow> bool" where
  "undefaults oper \<longleftrightarrow>
     (case oper of OpUpdate _ _ _ inp \<Rightarrow> cu_IsDefault inp = Some False | _ \<Rightarrow> False)"

lemma filter_default_clear_all: "filter cr_IsDefault (clear_defaults (\<lambda>_. True) now rows) = []"
  by (induction rows) (auto simp: clear_defaults_def)

lemma map_clear_defaults [simp]:
  "map cr_ID (clear_defaults P now rows) = map cr_ID rows"
  "map cr_Name (clear_defaults P now rows) = map cr_Name rows"
  "length (clear_defaults P now rows) = length rows"
  by (auto simp: clear_defaults_def)

lemma image_clear_defaults [simp]:
  "cr_ID ` set (clear_defaults P now rows) = cr_ID ` set rows"
  "cr_Name ` set (clear_defaults P now rows) = cr_Name ` set rows"
  by (metis map_clear_defaults(1) set_map, metis map_clear_defaults(2) set_map)

lemma CreateCluster_cases:
  obtains (rejected) e where "CreateCluster cp i nonce now inp db = (Inl e, db)" "e = UniqueViolation"
      "i \<in> set (map cr_ID (cs_clusters db)) \<or> cc_Name inp \<in> set (map cr_Name (cs_clusters db))"
  | (created) rows row where
      "CreateCluster cp i nonce now inp db = (Inr row, db\<lparr>cs_clusters := rows @ [row]\<rparr>)"
      "rows = (if cc_IsDefault inp then clear_defaults (\<lambda>_. True) now (cs_clusters db)
               else cs_clusters db)"
      "row = \<lparr>cr_ID = i, cr_Name = cc_Name inp, cr_NATSURL = cc_NATSURL inp,
              cr_MonitoringURL = cc_MonitoringURL inp, cr_CredsFilePath = cc_CredsFilePath inp,
              cr_Token = encryptToken cp db nonce (cc_Token inp), cr_IsDefault = cc_IsDefault inp,
              cr_CreatedAt = now, cr_UpdatedAt = now\<rparr>"
      "i \<notin> set (map cr_ID (cs_clusters db))" "cc_Name inp \<notin> set (map cr_Name (cs_clusters db))"
proof -
  let ?rows = "if cc_IsDefault inp then clear_defaults (\<lambda>_. True) now (cs_clusters db)
               else cs_clusters db"
  have m: "map cr_ID ?rows = map cr_ID (cs_clusters db)" "map cr_Name ?rows = map cr_Name (cs_clusters db)"
    by auto
  have ex: "list_ex (\<lambda>r. cr_ID r = i \<or> cr_Name r = cc_Name inp) ?rows \<longleftrightarrow>
      i \<in> set (map cr_ID (cs_clusters db)) \<or> cc_Name inp \<in> set (map cr_Name (cs_clusters db))"
    unfolding m [symmetric] list_ex_iff by (auto simp only: set_map image_iff) metis+
  show thesis
  proof (cases "list_ex (\<lambda>r. cr_ID r = i \<or> cr_Name r = cc_Name inp) ?rows")
    case True
    then show ?thesis by (intro rejected) (auto simp: CreateCluster_def Let_def ex)
  next
    case False
    show ?thesis
      by (rule created [OF _ refl refl]) (use False in \<open>simp_all add: CreateCluster_def Let_def ex [symmetric] del: set_map\<close>,
          use False ex in blast, use False ex in blast)
  qed
qed

lemma rows_ok_created:
  assumes ok: "rows_ok old" and i: "cr_ID row \<notin> set (map cr_ID old)"
    and n: "cr_Name row \<notin> set (map cr_Name old)"
  shows "rows_ok ((if cr_IsDefault row then clear_defaults (\<lambda>_. True) now old else old) @ [row])"
proof -
  let ?rows = "if cr_IsDefault row then clear_defaults (\<lambda>_. True) now old else old"
  have m: "map cr_ID ?rows = map cr_ID old" "map cr_Name ?rows = map cr_Name old"
    by auto
  have d: "length (filter cr_IsDefault (?rows @ [row])) \<le> 1"
    using ok by (simp add: rows_ok_def filter_default_clear_all)
  show ?thesis
    unfolding rows_ok_def map_append m distinct_append using d ok i n by (simp add: rows_ok_def)
qed

lemma distinct_map_replace:
  assumes "distinct (map k rows)" and "distinct (map f rows)"
    and "\<forall>r\<in>set rows. k r \<noteq> i \<longrightarrow> f r \<noteq> f row"
  shows "distinct (map f (map (\<lambda>r. if k r = i then row else r) rows))"
  using assms
proof (induction rows)
  case (Cons r rs)
  have "k x \<noteq> i" if "k r = i" "x \<in> set rs" for x
    using Cons.prems(1) that by (auto simp: image_iff)
  moreover have "f r \<noteq> f x" if "x \<in> set rs" for x
    using Cons.prems(2) that by auto
  ultimately show ?case using Cons by (auto split: if_splits)
qed simp

lemma one_default_replace:
  assumes "distinct (map cr_ID rows)" and "\<forall>r\<in>set rows. cr_ID r \<noteq> i \<longrightarrow> \<not> cr_IsDefault r"
  shows "length (filter cr_IsDefault (map (\<lambda>r. if cr_ID r = i then row else r) rows)) \<le> 1"
  using assms
proof (induction rows)
  case (Cons r rs)
  show ?case
  proof (cases "cr_ID r = i")
    case True
    then have "filter cr_IsDefault (map (\<lambda>r. if cr_ID r = i then row else r) rs) = []"
      using Cons.prems by (auto simp: filter_empty_conv image_iff)
    then show ?thesis using True by simp
  next
    case False
    then show ?thesis using Cons by simp
  qed
qed simp

lemma fewer_defaults_replace:
  assumes "\<not> cr_IsDefault row"
  shows "length (filter cr_IsDefault (map (\<lambda>r. if cr_ID r = i then row else r) rows))
           \<le> length (filter cr_IsDefault rows)"
  using assms by (induction rows) auto

lemma row_by_id_Some: "row_by_id db i = Some r \<Longrightarrow> r \<in> set (cs_clusters db) \<and> cr_ID r = i"
  by (auto simp: row_by_id_def find_Some_iff)

lemma row_by_id_None: "row_by_id db i = None \<longleftrightarrow> i \<notin> set (map cr_ID (cs_clusters db))"
  by (auto simp: row_by_id_def find_None_iff)

lemma UpdateCluster_cases:
  obtains (rejected) e where "UpdateCluster cp i nonce now inp db = (Inl e, db)"
  | (updated) current row rows where
      "row_by_id db i = Some current" "row = updated_row cp db nonce now inp current"
      "rows = (if cr_IsDefault row then clear_defaults (\<lambda>r. cr_ID r \<noteq> i) now (cs_clusters db)
               else cs_clusters db)"
      "\<forall>r\<in>set rows. cr_ID r \<noteq> i \<longrightarrow> cr_Name r \<noteq> cr_Name row"
      "UpdateCluster cp i nonce now inp db =
         (Inr row, db\<lparr>cs_clusters := map (\<lambda>r. if cr_ID r = i then row else r) rows\<rparr>)"
proof (cases "row_by_id db i")
  case None
  then show ?thesis by (intro rejected) (simp add: UpdateCluster_def GetCluster_def)
next
  case (Some current)
  let ?row = "updated_row cp db nonce now inp current"
  let ?rows = "if cr_IsDefault ?row then clear_defaults (\<lambda>r. cr_ID r \<noteq> i) now (cs_clusters db)
               else cs_clusters db"
  show ?thesis
  proof (cases "list_ex (\<lambda>r. cr_ID r \<noteq> i \<and> cr_Name r = cr_Name ?row) ?rows")
    case True
    with Some show ?thesis by (intro rejected) (simp add: UpdateCluster_def GetCluster_def Let_def)
  next
    case False
    show ?thesis
      by (rule updated [OF Some refl refl])
        (use False Some in \<open>auto simp: UpdateCluster_def GetCluster_def Let_def list_ex_iff\<close>)
  qed
qed

lemma rows_ok_updated:
  assumes ok: "rows_ok old" and i: "cr_ID row = i"
    and rows: "rows = (if cr_IsDefault row then clear_defaults (\<lambda>r. cr_ID r \<noteq> i) now old else old)"
    and n: "\<forall>r\<in>set rows. cr_ID r \<noteq> i \<longrightarrow> cr_Name r \<noteq> cr_Name row"
  shows "rows_ok (map (\<lambda>r. if cr_ID r = i then row else r) rows)"
proof -
  have m: "map cr_ID rows = map cr_ID old" "map cr_Name rows = map cr_Name old"
    using rows by auto
  have d: "distinct (map cr_ID rows)" "distinct (map cr_Name rows)"
    using ok by (simp_all add: m rows_ok_def)
  have "map cr_ID (map (\<lambda>r. if cr_ID r = i then row else r) rows) = map cr_ID rows"
    using i by auto
  moreover have "length (filter cr_IsDefault (map (\<lambda>r. if cr_ID r = i then row else r) rows)) \<le> 1"
  proof (cases "cr_IsDefault row")
    case True
    then have "\<forall>r\<in>set rows. cr_ID r \<noteq> i \<longrightarrow> \<not> cr_IsDefault r"
      using rows by (auto simp: clear_defaults_def)
    then show ?thesis using d(1) by (rule one_default_replace [rotated])
  next
    case False
    then show ?thesis
      using fewer_defaults_replace [OF False, of i rows] ok rows by (simp add: rows_ok_def)
  qed
  ultimately show ?thesis
    using d distinct_map_replace [OF d n] by (simp only: rows_ok_def)
qed

definition row_key :: "ClusterRow \<Rightarrow> string \<times> string \<times> bool" where
  "row_key r = (cr_ID r, cr_Name r, cr_IsDefault r)"

lemma rows_ok_key:
  "rows_ok rows \<longleftrightarrow>
     (let ks = map row_key rows in distinct (map fst ks) \<and> distinct (map (fst \<circ> snd) ks) \<and>
        length (filter (snd \<circ> snd) ks) \<le> 1)"
proof -
  have "map fst (map row_key rows) = map cr_ID rows"
    "map (fst \<circ> snd) (map row_key rows) = map cr_Name rows"
    "length (filter (snd \<circ> snd) (map row_key rows)) = length (filter cr_IsDefault rows)"
    by (induction rows) (auto simp: row_key_def)
  then show ?thesis by (simp only: rows_ok_def Let_def)
qed

lemma has_default_key: "list_ex cr_IsDefault rows \<longleftrightarrow> list_ex (snd \<circ> snd) (map row_key rows)"
  by (induction rows) (auto simp: row_key_def)

lemma row_key_set_token [simp]: "row_key (set_token now t r) = row_key r"
  by (simp add: row_key_def set_token_def)

lemma set_token_sel [simp]:
  "cr_ID (set_token now t r) = cr_ID r" "cr_Token (set_token now t r) = t"
  by (simp_all add: set_token_def)

lemma reencrypt_rows_key: "map row_key (reencrypt_rows cp e nonces now rows) = map row_key rows"
  by (induction rows) auto

text \<open>What rotation makes of a row.\<close>

definition rotated_row ::
  "Cipher \<Rightarrow> string \<Rightarrow> string option \<Rightarrow> string \<Rightarrow> (string \<Rightarrow> string) \<Rightarrow> gotime \<Rightarrow> bool \<Rightarrow> ClusterRow \<Rightarrow>
     ClusterRow \<Rightarrow> bool" where
  "rotated_row cp oldEnc active newEnc nonces now dryRun r r' \<longleftrightarrow>
     (if cr_Token r = [] then r' = r
      else case decryptWithFallback cp (cr_Token r) oldEnc active of
             Inl _ \<Rightarrow> False
           | Inr p \<Rightarrow>
               r' = (if dryRun then r
                     else set_token now (Encrypt cp newEnc (nonces (cr_ID r)) p) r))"

lemma rotate_rows_rotated:
  "rotate_rows cp busy oldEnc active newEnc nonces now dryRun rows = Inr (n, rows') \<Longrightarrow>
     list_all2 (rotated_row cp oldEnc active newEnc nonces now dryRun) rows rows' \<and>
     n = length (filter (\<lambda>r. cr_Token r \<noteq> []) rows)"
proof (induction rows arbitrary: n rows')
  case (Cons r rs)
  let ?rot = "rotated_row cp oldEnc active newEnc nonces now dryRun"
  show ?case
  proof (cases "cr_Token r = []")
    case True
    with Cons.prems obtain rs' where rs': "rotate_rows cp busy oldEnc active newEnc nonces now dryRun rs =
        Inr (n, rs')" "rows' = r # rs'"
      by (auto split: sum.splits prod.splits)
    have "?rot r r" using True by (simp add: rotated_row_def)
    then show ?thesis using Cons.IH [OF rs'(1)] rs'(2) True by simp
  next
    case False
    with Cons.prems obtain p m rs' r' where
      "decryptWithFallback cp (cr_Token r) oldEnc active = Inr p"
      and rs': "rotate_rows cp busy oldEnc active newEnc nonces now dryRun rs = Inr (m, rs')"
        "n = Suc m" "rows' = r' # rs'"
      and r': "r' = (if dryRun then r else set_token now (Encrypt cp newEnc (nonces (cr_ID r)) p) r)"
      by (auto simp: Let_def split: sum.splits prod.splits if_splits)
    then have "?rot r r'" using False by (simp add: rotated_row_def)
    then show ?thesis using Cons.IH [OF rs'(1)] rs' False by simp
  qed
qed simp

lemma rotated_row_key: "rotated_row cp oldEnc active newEnc nonces now dryRun r r' \<Longrightarrow> row_key r' = row_key r"
  by (auto simp: rotated_row_def split: if_splits sum.splits)

lemma rotated_rows_key:
  "list_all2 (rotated_row cp oldEnc active newEnc nonces now dryRun) rows rows' \<Longrightarrow>
     map row_key rows' = map row_key rows"
  by (induction rule: list_all2_induct) (auto dest: rotated_row_key)

lemma RotateEncryptionKeys_cases:
  obtains (failed) e where "RotateEncryptionKeys cp busy nonces now ck nk dry db = (Inl e, db)"
  | (dry) n where "RotateEncryptionKeys cp busy nonces now ck nk dry db = (Inr n, db)" "dry"
      "n = length (filter (\<lambda>r. cr_Token r \<noteq> []) (cs_clusters db))"
  | (rotated) oldEnc newEnc n rows where
      "RotateEncryptionKeys cp busy nonces now ck nk dry db = (Inr n, db\<lparr>cs_clusters := rows\<rparr>)" "\<not> dry"
      "crypto_New cp ck = Inr oldEnc" "crypto_New cp nk = Inr newEnc"
      "list_all2 (rotated_row cp oldEnc (cs_encryptor db) newEnc nonces now False) (cs_clusters db) rows"
      "n = length (filter (\<lambda>r. cr_Token r \<noteq> []) (cs_clusters db))"
proof (cases "crypto_New cp ck")
  case (Inl e)
  then show ?thesis by (intro failed) (simp add: RotateEncryptionKeys_def)
next
  case old: (Inr oldEnc)
  show ?thesis
  proof (cases "crypto_New cp nk")
    case (Inl e)
    with old show ?thesis by (intro failed) (simp add: RotateEncryptionKeys_def)
  next
    case new: (Inr newEnc)
    show ?thesis
    proof (cases "rotate_rows cp busy oldEnc (cs_encryptor db) newEnc nonces now dry (cs_clusters db)")
      case (Inl e)
      with old new show ?thesis by (intro failed) (simp add: RotateEncryptionKeys_def)
    next
      case (Inr q)
      obtain n rows where r: "rotate_rows cp busy oldEnc (cs_encryptor db) newEnc nonces now dry
          (cs_clusters db) = Inr (n, rows)" using Inr by (cases q) auto
      show ?thesis
      proof (cases dry)
        case True
        with old new r show ?thesis
          by (intro dry [of n]) (simp_all add: RotateEncryptionKeys_def rotate_rows_rotated [OF r])
      next
        case False
        have "RotateEncryptionKeys cp busy nonces now ck nk dry db = (Inr n, db\<lparr>cs_clusters := rows\<rparr>)"
          using False old new r by (simp add: RotateEncryptionKeys_def)
        from rotated [OF this False old new] show ?thesis
          using rotate_rows_rotated [OF r] False by simp
      qed
    qed
  qed
qed

lemma RotateEncryptionKeys_key:
  assumes "RotateEncryptionKeys cp busy nonces now ck nk dry db = (res, db')"
  shows "map row_key (cs_clusters db') = map row_key (cs_clusters db)"
  using RotateEncryptionKeys_cases [of cp busy nonces now ck nk dry db]
proof cases
  case (rotated oldEnc newEnc n rows)
  then show ?thesis using assms rotated_rows_key by fastforce
qed (use assms in auto)

lemma RotateEncryptionKey_cases:
  obtains (same) "snd (RotateEncryptionKey cp busy nonces now user body dry db) = db"
  | (called) u ck nk where "user = Some u" "u_IsRoot u" "body = Some (ck, nk)"
      "RotateEncryptionKey cp busy nonces now user body dry db =
         (case RotateEncryptionKeys cp busy nonces now ck nk (EqualFold dry ''true'') db of
            (Inl e, db) \<Rightarrow> (RotateFailed e, db)
          | (Inr n, db) \<Rightarrow> (Rotated n (EqualFold dry ''true''), db))"
proof (cases user)
  case None
  then show ?thesis by (intro same) (simp add: RotateEncryptionKey_def)
next
  case (Some u)
  show ?thesis
  proof (cases "u_IsRoot u \<and> body \<noteq> None")
    case False
    with Some show ?thesis by (intro same) (auto simp: RotateEncryptionKey_def split: option.splits)
  next
    case True
    then obtain ck nk where b: "body = Some (ck, nk)" by auto
    show ?thesis
    proof (cases "IsEmpty ck \<or> IsEmpty nk \<or> length nk < 16")
      case True
      with Some b show ?thesis by (intro same) (auto simp: RotateEncryptionKey_def)
    next
      case False
      with Some b True show ?thesis
        by (intro called [of u ck nk]) (simp_all add: RotateEncryptionKey_def Let_def)
    qed
  qed
qed

lemma RotateEncryptionKey_key:
  "map row_key (cs_clusters (snd (RotateEncryptionKey cp busy nonces now user body dry db))) =
     map row_key (cs_clusters db)"
proof (cases rule: RotateEncryptionKey_cases [of cp busy nonces now user body dry db])
  case (called u ck nk)
  obtain res db' where r: "RotateEncryptionKeys cp busy nonces now ck nk (EqualFold dry ''true'') db = (res, db')"
    by (cases "RotateEncryptionKeys cp busy nonces now ck nk (EqualFold dry ''true'') db")
  show ?thesis using RotateEncryptionKeys_key [OF r] called(4) r by (cases res) simp_all
qed simp

lemma same_id_same_row:
  assumes "rows_ok rows" and "r \<in> set rows" and "s \<in> set rows" and "cr_ID r = cr_ID s"
  shows "r = s"
  using assms by (auto simp: rows_ok_def distinct_map dest: inj_onD)

lemma service_Delete_cases:
  obtains (refused) "snd (service_Delete i db) = (False, db)"
  | (deleted) r where "row_by_id db i = Some r" "\<not> cr_IsDefault r" "CountClusters db > 1"
      "service_Delete i db =
         (None, True, db\<lparr>cs_clusters := filter (\<lambda>r. cr_ID r \<noteq> i) (cs_clusters db)\<rparr>)"
proof (cases "row_by_id db i")
  case None
  then show ?thesis by (intro refused) (simp add: service_Delete_def GetCluster_def)
next
  case (Some r)
  show ?thesis
  proof (cases "cr_IsDefault r \<or> CountClusters db \<le> 1")
    case True
    with Some show ?thesis by (intro refused) (auto simp: service_Delete_def GetCluster_def)
  next
    case False
    with Some show ?thesis
      by (intro deleted [of r]) (simp_all add: service_Delete_def GetCluster_def repo_DeleteCluster_def)
  qed
qed

lemma length_filter_filter: "length (filter P (filter Q xs)) \<le> length (filter P xs)"
  by (induction xs) auto

lemma rows_ok_filter: "rows_ok rows \<Longrightarrow> rows_ok (filter P rows)"
  using length_filter_filter [of cr_IsDefault P rows]
  by (simp add: rows_ok_def distinct_map_filter)

lemma CreateCluster_registry:
  fixes cp i nonce now inp db
  assumes ok: "rows_ok (cs_clusters db)"
  defines "db' \<equiv> snd (CreateCluster cp i nonce now inp db)"
  shows "rows_ok (cs_clusters db')"
    and "list_ex cr_IsDefault (cs_clusters db) \<Longrightarrow> list_ex cr_IsDefault (cs_clusters db')"
proof -
  have "rows_ok (cs_clusters db') \<and>
      (list_ex cr_IsDefault (cs_clusters db) \<longrightarrow> list_ex cr_IsDefault (cs_clusters db'))"
  proof (cases rule: CreateCluster_cases [of cp i nonce now inp db])
    case (rejected e)
    then show ?thesis using ok by (simp add: db'_def)
  next
    case (created rows row)
    have r: "cr_IsDefault row = cc_IsDefault inp" "cr_ID row = i" "cr_Name row = cc_Name inp"
      using created(3) by simp_all
    have "cs_clusters db' =
        (if cr_IsDefault row then clear_defaults (\<lambda>_. True) now (cs_clusters db) else cs_clusters db) @ [row]"
      using created by (simp add: db'_def)
    moreover have "rows_ok \<dots>" by (rule rows_ok_created [OF ok]) (use created(4,5) r in simp_all)
    ultimately show ?thesis by auto
  qed
  then show "rows_ok (cs_clusters db')"
    and "list_ex cr_IsDefault (cs_clusters db) \<Longrightarrow> list_ex cr_IsDefault (cs_clusters db')"
    by simp_all
qed

lemma updated_row_id: "cr_ID (updated_row cp db nonce now inp current) = cr_ID current"
  by (simp add: updated_row_def)

lemma UpdateCluster_rows_ok:
  assumes ok: "rows_ok (cs_clusters db)"
  shows "rows_ok (cs_clusters (snd (UpdateCluster cp i nonce now inp db)))"
proof (cases rule: UpdateCluster_cases [of cp i nonce now inp db])
  case (rejected e)
  then show ?thesis using ok by simp
next
  case (updated current row rows)
  have "cr_ID row = i" using updated(1,2) by (auto simp: updated_row_id dest: row_by_id_Some)
  from rows_ok_updated [OF ok this updated(3,4)] show ?thesis by (simp add: updated(5))
qed

lemma UpdateCluster_default:
  assumes ok: "rows_ok (cs_clusters db)" and d: "list_ex cr_IsDefault (cs_clusters db)"
    and u: "cu_IsDefault inp \<noteq> Some False"
  shows "list_ex cr_IsDefault (cs_clusters (snd (UpdateCluster cp i nonce now inp db)))"
proof (cases rule: UpdateCluster_cases [of cp i nonce now inp db])
  case (rejected e)
  then show ?thesis using d by simp
next
  case (updated current row rows)
  from updated(1) have cur: "current \<in> set (cs_clusters db)" "cr_ID current = i"
    by (auto dest: row_by_id_Some)
  from d obtain r where r: "r \<in> set (cs_clusters db)" "cr_IsDefault r" by (auto simp: list_ex_iff)
  let ?new = "map (\<lambda>r. if cr_ID r = i then row else r) rows"
  have "\<exists>s\<in>set ?new. cr_IsDefault s"
  proof (cases "cr_IsDefault row")
    case True
    have "i \<in> cr_ID ` set rows" using updated(3) cur by auto
    then have "row \<in> set ?new" by auto
    with True show ?thesis by blast
  next
    case False
    have "row = updated_row cp db nonce now inp current" by (rule updated(2))
    with False u have "\<not> cr_IsDefault current"
      by (auto simp: updated_row_def set_opt_def split: option.splits)
    then have "cr_ID r \<noteq> i" using same_id_same_row [OF ok r(1) cur(1)] r(2) cur(2) by auto
    then have "r \<in> set ?new" using r(1) False updated(3) by auto
    with r(2) show ?thesis by blast
  qed
  then show ?thesis by (simp add: updated(5) list_ex_iff)
qed

lemma service_Delete_registry:
  fixes i db
  assumes ok: "rows_ok (cs_clusters db)"
  defines "db' \<equiv> snd (snd (service_Delete i db))"
  shows "rows_ok (cs_clusters db')"
    and "list_ex cr_IsDefault (cs_clusters db) \<Longrightarrow> list_ex cr_IsDefault (cs_clusters db')"
proof -
  have "rows_ok (cs_clusters db') \<and>
      (list_ex cr_IsDefault (cs_clusters db) \<longrightarrow> list_ex cr_IsDefault (cs_clusters db'))"
  proof (cases rule: service_Delete_cases [of i db])
    case refused
    then show ?thesis using ok by (simp add: db'_def)
  next
    case (deleted r)
    from deleted(1) have r: "r \<in> set (cs_clusters db)" "cr_ID r = i" by (auto dest: row_by_id_Some)
    have "cr_ID s \<noteq> i" if "s \<in> set (cs_clusters db)" "cr_IsDefault s" for s
      using same_id_same_row [OF ok that(1) r(1)] that(2) deleted(2) r(2) by auto
    then show ?thesis using deleted(4) ok by (auto simp: db'_def rows_ok_filter list_ex_iff)
  qed
  then show "rows_ok (cs_clusters db')"
    and "list_ex cr_IsDefault (cs_clusters db) \<Longrightarrow> list_ex cr_IsDefault (cs_clusters db')"
    by simp_all
qed

definition registry_good :: "bool \<Rightarrow> CredStore \<Rightarrow> bool" where
  "registry_good d db \<longleftrightarrow> rows_ok (cs_clusters db) \<and> (d \<longrightarrow> list_ex cr_IsDefault (cs_clusters db))"

lemma registry_good_key:
  "map row_key (cs_clusters db') = map row_key (cs_clusters db) \<Longrightarrow> registry_good d db \<Longrightarrow> registry_good d db'"
  by (simp add: registry_good_def rows_ok_key has_default_key)

lemma BootstrapDefaultCluster_snd:
  "snd (BootstrapDefaultCluster cp i nonce now cfg count db) =
     (if count > 0 then db else snd (CreateCluster cp i nonce now (cfg\<lparr>cc_IsDefault := True\<rparr>) db))"
  by (auto simp: BootstrapDefaultCluster_def split: prod.splits sum.splits)

lemma registry_step_good:
  assumes g: "registry_good d db" and u: "d \<Longrightarrow> \<not> undefaults oper"
  shows "registry_good d (registry_step cp oper db)"
proof (cases oper)
  case (OpCreate i n t inp)
  then show ?thesis using g CreateCluster_registry by (simp add: registry_step_def registry_good_def)
next
  case (OpUpdate i n t inp)
  then show ?thesis using g u UpdateCluster_rows_ok UpdateCluster_default
    by (simp add: registry_step_def registry_good_def undefaults_def)
next
  case (OpDelete i)
  then show ?thesis using g service_Delete_registry by (simp add: registry_step_def registry_good_def)
next
  case (OpBootstrap i n t cfg)
  then show ?thesis using g CreateCluster_registry
    by (simp add: registry_step_def registry_good_def BootstrapDefaultCluster_snd)
next
  case (OpReencrypt ns t)
  then show ?thesis using g registry_good_key [of "registry_step cp oper db" db]
    by (simp add: registry_step_def ReencryptCredentials_def reencrypt_rows_key split: option.splits)
next
  case (OpRotate busy ns t user body dry)
  then show ?thesis using g registry_good_key [of "registry_step cp oper db" db]
    by (simp add: registry_step_def RotateEncryptionKey_key)
qed

lemma registry_run_good:
  assumes "registry_good d db" and "\<forall>oper\<in>set ops. d \<longrightarrow> \<not> undefaults oper"
  shows "registry_good d (fold (registry_step cp) ops db)"
  using assms by (induction ops arbitrary: db) (simp_all add: registry_step_good)

text \<open>C19: creating, updating, deleting and bootstrapping clusters, re-encrypting and rotating their
  tokens, in any order, keep the ids and the names of clusters unique and at most one cluster the default
  one; and the default is only ever lost to an update that asks for it, never to a deletion.\<close>

theorem one_default_cluster:
  assumes "rows_ok (cs_clusters db)"
  shows "rows_ok (cs_clusters (fold (registry_step cp) ops db)) \<and>
    (list_ex cr_IsDefault (cs_clusters db) \<and> \<not> list_ex undefaults ops \<longrightarrow>
       list_ex cr_IsDefault (cs_clusters (fold (registry_step cp) ops db)))"
  using assms registry_run_good [of False db ops cp] registry_run_good [of True db ops cp]
  by (auto simp: registry_good_def list_ex_iff)

definition toy_cipher :: Cipher where
  "toy_cipher =
     \<lparr>cp_sum = (\<lambda>k. k), cp_seal = (\<lambda>k n p. k @ p),
      cp_open = (\<lambda>k n c. if HasPrefix c k then Some (drop (length k) c) else None),
      cp_base64 = (\<lambda>x. x), cp_unbase64 = Some\<rparr>"

definition key_a :: string where "key_a = ''aaaaaaaaaaaaaaaa''"
definition key_b :: string where "key_b = ''bbbbbbbbbbbbbbbb''"
definition key_c :: string where "key_c = ''cccccccccccccccc''"
definition nonce0 :: string where "nonce0 = ''000000000000''"

definition demo_create :: "string \<Rightarrow> string \<Rightarrow> bool \<Rightarrow> ClusterCreate" where
  "demo_create n token d =
     \<lparr>cc_Name = n, cc_NATSURL = ''nats://h:4222'', cc_MonitoringURL = [], cc_CredsFilePath = [],
      cc_Token = token, cc_IsDefault = d\<rparr>"

definition empty_store :: CredStore where
  "empty_store = \<lparr>cs_clusters = [], cs_seeds = [], cs_encryptor = Some key_a\<rparr>"

definition demo_store :: CredStore where
  "demo_store = snd (CreateCluster toy_cipher ''2'' nonce0 7 (demo_create ''west'' [] False)
     (snd (CreateCluster toy_cipher ''1'' nonce0 5 (demo_create ''main'' ''secret'' True) empty_store)))"

theorem one_default_cluster_witness:
  "rows_ok (cs_clusters demo_store) \<and>
   rows_ok (cs_clusters (fold (registry_step toy_cipher)
     [OpCreate ''3'' nonce0 9 (demo_create ''east'' ''t'' True), OpDelete ''1''] demo_store))"
proof -
  have ok: "rows_ok (cs_clusters demo_store)"
    by code_simp
  show ?thesis
    using ok one_default_cluster [OF ok, of toy_cipher
        "[OpCreate ''3'' nonce0 9 (demo_create ''east'' ''t'' True), OpDelete ''1'']"] by blast
qed

section \<open>Credentials\<close>

text \<open>What the code relies on in AES-GCM and in Base64.\<close>

definition cipher_ok :: "Cipher \<Rightarrow> bool" where
  "cipher_ok cp \<longleftrightarrow> (\<forall>k n p. cp_open cp k n (cp_seal cp k n p) = Some p) \<and>
     (\<forall>x. cp_unbase64 cp (cp_base64 cp x) = Some x)"

lemma toy_cipher_ok: "cipher_ok toy_cipher"
  by (simp add: cipher_ok_def toy_cipher_def)

lemma Decrypt_Encrypt:
  assumes "cipher_ok cp" and "length nonce = NonceSize" and "\<not> IsEncrypted p"
  shows "Decrypt cp e (Encrypt cp e nonce p) = Inr p"
proof (cases "p = []")
  case True
  then show ?thesis by (simp add: Encrypt_def Decrypt_def)
next
  case False
  let ?c = "cp_base64 cp (nonce @ cp_seal cp e nonce p)"
  have "encryptedPrefix @ ?c \<noteq> []" by (simp add: encryptedPrefix_def)
  then show ?thesis
    using assms False by (simp add: Encrypt_def Decrypt_def cipher_ok_def) (simp add: IsEncrypted_def)
qed

lemma Encrypt_encrypted: "p \<noteq> [] \<Longrightarrow> IsEncrypted (Encrypt cp e nonce p)"
  by (simp add: Encrypt_def IsEncrypted_def)

lemma CreateCluster_found:
  assumes "CreateCluster cp i nonce now inp db = (Inr r, db')"
  shows "row_by_id db' i = Some r" and "cs_encryptor db' = cs_encryptor db"
    and "cr_Token r = encryptToken cp db nonce (cc_Token inp)"
proof -
  have "row_by_id db' i = Some r \<and> cs_encryptor db' = cs_encryptor db \<and>
      cr_Token r = encryptToken cp db nonce (cc_Token inp)"
  proof (cases rule: CreateCluster_cases [of cp i nonce now inp db])
    case (rejected e)
    then show ?thesis using assms by simp
  next
    case (created rows row)
    have r: "r = row" and db': "db' = db\<lparr>cs_clusters := rows @ [row]\<rparr>"
      using created(1) assms by simp_all
    have "i \<notin> cr_ID ` set rows"
      using created(2,4) by (simp split: if_splits)
    then have n: "find (\<lambda>r. cr_ID r = i) rows = None" by (auto simp: find_None_iff)
    have "find (\<lambda>r. cr_ID r = i) (rows @ [row]) = Some row"
      using n created(3) by (induction rows) (auto split: if_splits)
    then show ?thesis using created(3) by (simp add: row_by_id_def r db')
  qed
  then show "row_by_id db' i = Some r" and "cs_encryptor db' = cs_encryptor db"
    and "cr_Token r = encryptToken cp db nonce (cc_Token inp)"
    by simp_all
qed

text \<open>The credentials read back for a cluster are the ones it was created with, and what the
  table holds of a token is never its plain text, provided the token does not look encrypted.\<close>

theorem credentials_roundtrip:
  assumes "cipher_ok cp" and "length nonce = NonceSize" and "cs_encryptor db = Some e"
    and "CreateCluster cp i nonce now inp db = (Inr r, db')" and "\<not> IsEncrypted (cc_Token inp)"
  shows "GetClusterCredentials cp db' i = Inr (r\<lparr>cr_Token := cc_Token inp\<rparr>) \<and>
    (cc_Token inp \<noteq> [] \<longrightarrow> IsEncrypted (cr_Token r))"
proof -
  note f = CreateCluster_found [OF assms(4)]
  have "decryptToken cp db' (cr_Token r) = Inr (cc_Token inp) \<and>
      (cc_Token inp \<noteq> [] \<longrightarrow> IsEncrypted (cr_Token r))"
  proof (cases "cc_Token inp = []")
    case True
    then show ?thesis using f(3) by (simp add: decryptToken_def encryptToken_def)
  next
    case False
    then have t: "cr_Token r = Encrypt cp e nonce (cc_Token inp)"
      using f(3) assms(3) by (simp add: encryptToken_def)
    moreover from this have "cr_Token r \<noteq> []"
      using Encrypt_encrypted [OF False, of cp e nonce] by (auto simp: IsEncrypted_def encryptedPrefix_def)
    ultimately show ?thesis
      using Decrypt_Encrypt [OF assms(1,2,5)] assms(3) f(2) Encrypt_encrypted [OF False]
      by (simp add: decryptToken_def)
  qed
  then show ?thesis using f(1) by (simp add: GetClusterCredentials_def GetCluster_def)
qed

theorem credentials_roundtrip_witness:
  "GetClusterCredentials toy_cipher demo_store ''1'' =
     Inr (\<lparr>cr_ID = ''1'', cr_Name = ''main'', cr_NATSURL = ''nats://h:4222'', cr_MonitoringURL = [],
           cr_CredsFilePath = [], cr_Token = ''secret'', cr_IsDefault = True, cr_CreatedAt = 5,
           cr_UpdatedAt = 5\<rparr>) \<and>
   (\<exists>db' r. CreateCluster toy_cipher ''3'' nonce0 9 (demo_create ''east'' ''t'' True) demo_store = (Inr r, db') \<and>
      GetClusterCredentials toy_cipher db' ''3'' = Inr (r\<lparr>cr_Token := ''t''\<rparr>))"
proof
  show "GetClusterCredentials toy_cipher demo_store ''1'' =
     Inr (\<lparr>cr_ID = ''1'', cr_Name = ''main'', cr_NATSURL = ''nats://h:4222'', cr_MonitoringURL = [],
           cr_CredsFilePath = [], cr_Token = ''secret'', cr_IsDefault = True, cr_CreatedAt = 5,
           cr_UpdatedAt = 5\<rparr>)"
    by code_simp
  obtain res db' where c:
    "CreateCluster toy_cipher ''3'' nonce0 9 (demo_create ''east'' ''t'' True) demo_store = (res, db')"
    by (cases "CreateCluster toy_cipher ''3'' nonce0 9 (demo_create ''east'' ''t'' True) demo_store")
  have "isl (fst (CreateCluster toy_cipher ''3'' nonce0 9 (demo_create ''east'' ''t'' True) demo_store)) = False"
    by code_simp
  with c obtain r where r: "res = Inr r" by (cases res) auto
  have n: "length nonce0 = NonceSize" "cs_encryptor demo_store = Some key_a"
    "\<not> IsEncrypted (cc_Token (demo_create ''east'' ''t'' True))"
    by code_simp+
  show "\<exists>db' r. CreateCluster toy_cipher ''3'' nonce0 9 (demo_create ''east'' ''t'' True) demo_store = (Inr r, db') \<and>
      GetClusterCredentials toy_cipher db' ''3'' = Inr (r\<lparr>cr_Token := ''t''\<rparr>)"
    using credentials_roundtrip [OF toy_cipher_ok n(1,2) c [unfolded r] n(3)] c r
    by (simp add: demo_create_def)
qed

text \<open>A token that starts with the marker is stored as it is and cannot be read back.\<close>

theorem marked_token_lost:
  assumes "CreateCluster cp i nonce now inp db = (Inr r, db')" and "cs_encryptor db = Some e"
    and "cc_Token inp = encryptedPrefix @ t" and "cp_unbase64 cp t = None"
  shows "cr_Token r = cc_Token inp \<and> GetClusterCredentials cp db' i = Inl (CredentialError ErrDecrypt)"
proof -
  note f = CreateCluster_found [OF assms(1)]
  have e: "IsEncrypted (encryptedPrefix @ t)" "encryptedPrefix @ t \<noteq> []"
    by (simp_all add: IsEncrypted_def encryptedPrefix_def)
  have tok: "cr_Token r = encryptedPrefix @ t"
    using f(3) assms(2,3) e by (simp add: encryptToken_def Encrypt_def)
  show ?thesis
    using f tok assms(2-4) e
    by (simp add: GetClusterCredentials_def GetCluster_def decryptToken_def Decrypt_def)
qed

section \<open>Rotation\<close>

lemma find_list_all2:
  assumes "list_all2 R xs ys" and "\<And>x y. R x y \<Longrightarrow> P y = P x" and "find P xs = Some x"
  shows "\<exists>y. find P ys = Some y \<and> R x y"
  using assms by (induction rule: list_all2_induct) (auto split: if_splits)

lemma decryptWithFallback_active:
  "Decrypt cp e v = Inr p \<Longrightarrow> decryptWithFallback cp v e active = Inr p"
  by (auto simp: decryptWithFallback_def Decrypt_def)

lemma crypto_New_length: "crypto_New cp k = Inr e \<Longrightarrow> e = cp_sum cp k"
  by (auto simp: crypto_New_def split: if_splits)

lemma Decrypt_reencrypted:
  assumes "cipher_ok cp" and "length nonce = NonceSize" and "\<not> IsEncrypted p"
  shows "decryptToken cp (db\<lparr>cs_encryptor := Some e\<rparr>) (Encrypt cp e nonce p) = Inr p"
  using Decrypt_Encrypt [OF assms] Encrypt_encrypted [of p cp e nonce]
  by (cases "p = []") (auto simp: decryptToken_def IsEncrypted_def encryptedPrefix_def Encrypt_def)

lemma rotated_token:
  assumes "cipher_ok cp" and "\<And>i. length (nonces i) = NonceSize"
    and "rotated_row cp e active e' nonces now False r r'"
    and "Decrypt cp e (cr_Token r) = Inr p" and "\<not> IsEncrypted p"
  shows "\<exists>t. r' = r\<lparr>cr_Token := cr_Token r', cr_UpdatedAt := t\<rparr> \<and>
    decryptToken cp (db\<lparr>cs_encryptor := Some e'\<rparr>) (cr_Token r') = Inr p"
proof (cases "cr_Token r = []")
  case True
  then have "r' = r" "p = []" using assms(3,4) by (simp_all add: rotated_row_def Decrypt_def)
  moreover have "r = r\<lparr>cr_Token := cr_Token r, cr_UpdatedAt := cr_UpdatedAt r\<rparr>" by simp
  ultimately show ?thesis using True by (intro exI [of _ "cr_UpdatedAt r"]) (simp add: decryptToken_def)
next
  case False
  have r': "r' = set_token now (Encrypt cp e' (nonces (cr_ID r)) p) r"
    using assms(3) False decryptWithFallback_active [OF assms(4), of active]
    by (simp add: rotated_row_def)
  show ?thesis
    using Decrypt_reencrypted [OF assms(1,2,5), where db = db and e = e']
    by (intro exI [of _ now]) (simp add: r' set_token_def)
qed

lemma RotateEncryptionKey_rotated:
  assumes "RotateEncryptionKey cp busy nonces now user (Some (ck, nk)) dry db = (Rotated n d, db')"
  shows "\<exists>u. user = Some u \<and> u_IsRoot u"
    and "n = length (filter (\<lambda>r. cr_Token r \<noteq> []) (cs_clusters db))"
    and "d \<Longrightarrow> db' = db"
    and "\<not> d \<Longrightarrow> \<exists>oldEnc newEnc rows. db' = db\<lparr>cs_clusters := rows\<rparr> \<and>
      crypto_New cp ck = Inr oldEnc \<and> crypto_New cp nk = Inr newEnc \<and>
      list_all2 (rotated_row cp oldEnc (cs_encryptor db) newEnc nonces now False) (cs_clusters db) rows"
proof -
  have "(\<exists>u. user = Some u \<and> u_IsRoot u) \<and> RotateEncryptionKeys cp busy nonces now ck nk d db = (Inr n, db')"
    using assms by (auto simp: RotateEncryptionKey_def Let_def split: option.splits if_splits sum.splits prod.splits)
  then have u: "\<exists>u. user = Some u \<and> u_IsRoot u" and
    r: "RotateEncryptionKeys cp busy nonces now ck nk d db = (Inr n, db')" by simp_all
  show "\<exists>u. user = Some u \<and> u_IsRoot u" by (rule u)
  show "n = length (filter (\<lambda>r. cr_Token r \<noteq> []) (cs_clusters db))"
    using RotateEncryptionKeys_cases [of cp busy nonces now ck nk d db] r by cases simp_all
  show "d \<Longrightarrow> db' = db"
    using RotateEncryptionKeys_cases [of cp busy nonces now ck nk d db] r by cases simp_all
  show "\<not> d \<Longrightarrow> \<exists>oldEnc newEnc rows. db' = db\<lparr>cs_clusters := rows\<rparr> \<and>
      crypto_New cp ck = Inr oldEnc \<and> crypto_New cp nk = Inr newEnc \<and>
      list_all2 (rotated_row cp oldEnc (cs_encryptor db) newEnc nonces now False) (cs_clusters db) rows"
    using RotateEncryptionKeys_cases [of cp busy nonces now ck nk d db] r
  proof cases
    case (rotated oldEnc newEnc n rows)
    then show ?thesis using r by auto
  qed (use r in auto)
qed

lemma RotateEncryptionKey_unchanged:
  assumes "RotateEncryptionKey cp busy nonces now user (Some (ck, nk)) dry db = (ans, db')"
    and "\<And>n. ans \<noteq> Rotated n False"
  shows "db' = db"
proof (cases rule: RotateEncryptionKey_cases [of cp busy nonces now user "Some (ck, nk)" dry db])
  case same
  then show ?thesis using assms(1) by simp
next
  case (called u ck' nk')
  show ?thesis
    using RotateEncryptionKeys_cases [of cp busy nonces now ck' nk' "EqualFold dry ''true''" db]
  proof cases
    case (failed e)
    then show ?thesis using called(4) assms(1) by simp
  next
    case (dry n)
    then show ?thesis using called(4) assms(1) by simp
  next
    case (rotated oldEnc newEnc n rows)
    then show ?thesis using called(4) assms by auto
  qed
qed


definition root_actor :: User where
  "root_actor = \<lparr>u_CreatedAt = 0, u_AccessRules = None, u_Grants = [], u_ID = ''0'', u_Username = ''root'',
     u_Email = [], u_OIDCSub = [], u_Roles = [], u_IsRoot = True, u_SessionVersion = 0\<rparr>"


text \<open>
  The loop updates on the transaction whose rows it is reading.  A driver that refuses such a statement
  makes every rotation of a store with a token fail (nothing is lost: the store keeps its key).
\<close>

theorem rotation_busy_fails:
  assumes "RotateEncryptionKey cp True nonces now user (Some (ck, nk)) dry db = (ans, db')"
    and "\<exists>r\<in>set (cs_clusters db). cr_Token r \<noteq> []"
  shows "ans \<noteq> Rotated n False"
proof
  assume a: "ans = Rotated n False"
  have no: "rotate_rows cp True old act new nonces now False rows \<noteq> Inr q"
    if "\<exists>r\<in>set rows. cr_Token r \<noteq> []" for old act new rows q
    using that by (induction rows arbitrary: q) (auto split: sum.splits prod.splits)
  obtain oldEnc newEnc where "RotateEncryptionKeys cp True nonces now ck nk False db = (Inr n, db')"
    using assms(1) a by (auto simp: RotateEncryptionKey_def Let_def
        split: option.splits if_splits sum.splits prod.splits)
  then show False using no [OF assms(2)]
    by (auto simp: RotateEncryptionKeys_def split: sum.splits)
qed

text \<open>The seeds of NATS users, sealed under the same key, are not rotated: after the restart they do not open.\<close>

theorem rotation_loses_seeds:
  assumes "RotateEncryptionKey cp busy nonces now user (Some (ck, nk)) dry db = (Rotated n False, db')"
    and "seed = Encrypt cp (cp_sum cp ck) nonce p" and "seed \<in> set (cs_seeds db)"
    and "p \<noteq> []" and "\<not> IsEncrypted p" and "cipher_ok cp" and "length nonce = NonceSize"
    and "cp_open cp (cp_sum cp nk) nonce (cp_seal cp (cp_sum cp ck) nonce p) = None"
  shows "seed \<in> set (cs_seeds db') \<and>
    cs_encryptor (restart_with cp nk db') = Some (cp_sum cp nk) \<and> Decrypt cp (cp_sum cp nk) seed = Inl ErrDecrypt"
proof -
  obtain oldEnc newEnc rows where r: "db' = db\<lparr>cs_clusters := rows\<rparr>"
    "crypto_New cp nk = Inr newEnc"
    using RotateEncryptionKey_rotated(4) [OF assms(1)] by auto
  have "Encrypt cp (cp_sum cp ck) nonce p \<noteq> []" using assms(4,5) by (simp add: Encrypt_def encryptedPrefix_def)
  then have "Decrypt cp (cp_sum cp nk) seed = Inl ErrDecrypt"
    using assms(2,4-8) Encrypt_encrypted [OF assms(4), of cp "cp_sum cp ck" nonce]
    by (simp add: Decrypt_def Encrypt_def cipher_ok_def)
  then show ?thesis using r assms(3) crypto_New_length [OF r(2)] by (simp add: restart_with_def)
qed

text \<open>
  A current key that opens nothing is accepted as long as the server runs with the right one: every
  token is opened with the key in use instead.
\<close>

theorem wrong_current_key_accepted:
  "fst (RotateEncryptionKey toy_cipher False (\<lambda>_. nonce0) 9 (Some root_actor) (Some (key_c, key_b)) []
      demo_store) = Rotated 1 False \<and>
   cs_encryptor demo_store = Some key_a \<and> key_c \<noteq> key_a \<and>
   (\<forall>r\<in>set (cs_clusters demo_store).
      cr_Token r \<noteq> [] \<longrightarrow> Decrypt toy_cipher (cp_sum toy_cipher key_c) (cr_Token r) = Inl ErrDecrypt)"
  by code_simp

section \<open>What a listing shows\<close>

text \<open>A listing holds exactly the clusters that the reader can access, directly or through an
  account; their URLs are shown to a reader of the whole cluster only.\<close>

theorem listing_redacted:
  "map cr_ID (ListClusters parse db (Some u)) =
     filter (\<lambda>i. CanAccessClusterOrAccount u i) (map cr_ID (cs_clusters db)) \<and>
   list_all (\<lambda>c. \<not> CanAccessCluster u (cr_ID c) \<longrightarrow> cr_NATSURL c = [] \<and> cr_MonitoringURL c = [])
     (ListClusters parse db (Some u))"
proof -
  have l: "ListClusters parse db (Some u) =
      map (\<lambda>c. redactClusterURLs parse c u)
        (filter (\<lambda>c. CanAccessClusterOrAccount u (cr_ID c)) (cs_clusters db))"
    by (simp add: ListClusters_def filter_clusters_exact)
  have "cr_ID (redactClusterURLs parse c u) = cr_ID c" for c
    by (simp add: redactClusterURLs_def Let_def)
  then have "map cr_ID (ListClusters parse db (Some u)) =
      map cr_ID (filter (\<lambda>c. CanAccessClusterOrAccount u (cr_ID c)) (cs_clusters db))"
    by (simp add: l)
  also have "\<dots> = filter (\<lambda>i. CanAccessClusterOrAccount u i) (map cr_ID (cs_clusters db))"
    by (simp add: filter_map o_def)
  finally show ?thesis by (auto simp: l list_all_iff redactClusterURLs_def Let_def)
qed

text \<open>The text that does not parse is shown as it is, with the password it may hold.\<close>

theorem unparsed_url_shown:
  assumes "parse ''user:secret@host:4222'' = None"
  shows "redactURLUserinfo parse ''user:secret@host:4222'' = ''user:secret@host:4222''"
proof -
  have "filter (\<lambda>part. \<not> IsEmpty part) (map TrimSpace (Split CHR '','' ''user:secret@host:4222'')) =
      [''user:secret@host:4222'']"
    by code_simp
  then show ?thesis using assms by (simp add: redactURLUserinfo_def redact_part_def)
qed

end
