(* ===== verification/Live_Mux.thy ===== *)
theory Live_Mux
  imports Prelude "HOL-Library.Word"
begin

text \<open>
  The multiplexer of live subscriptions (\<^verbatim>\<open>internal/live/mux.go\<close>): sessions that watch the same
  stream share one JetStream subscription.  The code runs on many goroutines: one per session
  (\<^verbatim>\<open>attach\<close> and \<^verbatim>\<open>detach\<close>), one per subscription (\<^verbatim>\<open>fanout\<close>, called by the NATS library) and one
  per viewer (\<^verbatim>\<open>writeLoop\<close>).  The state is what they share; a step is what one of them does between
  two points where another may run: a critical section, a channel operation, an atomic load, or a
  call of the NATS library.

  Pointers are numbers into \<open>m_heap\<close> (shared subscriptions) and \<open>m_viewers\<close>; subscriptions of the
  library are numbers, \<open>m_src\<close> says for which shared subscription one was made and \<open>m_live\<close> which of
  them have not been unsubscribed.  The outcome of \<^verbatim>\<open>Subscribe\<close>, the messages that arrive, the order in
  which a Go map is iterated and the scheduling are arguments of the steps.
\<close>

section \<open>State\<close>

record muxKey =
  mk_cluster :: string
  mk_stream :: string
  mk_filter :: string
  mk_fromSeq :: "64 word"

text \<open>A message of NATS as far as \<^verbatim>\<open>fanout\<close> reads it.\<close>

record NatsMsg =
  nm_seq :: "64 word"
  nm_subject :: string
  nm_data :: string

text \<open>
  A frame in the channel of a viewer.  \<open>om_sid\<close> and \<open>om_msg\<close> record where it came from: the code only
  keeps the encoded bytes.
\<close>

record outboundMsg =
  om_frame :: string
  om_sid :: nat
  om_msg :: NatsMsg

definition viewerOutboundBuffer :: nat where
  "viewerOutboundBuffer = 64"

text \<open>
  \<open>mv_stopped\<close> says that \<^verbatim>\<open>close(v.out)\<close> has run, \<open>mv_written\<close> is what was handed to \<^verbatim>\<open>deliver\<close>, and
  \<open>mv_key\<close> is the key the session attaches with.
\<close>

record muxViewer =
  mv_key :: muxKey
  mv_out :: "outboundMsg list"
  mv_paused :: bool
  mv_closed :: bool
  mv_stopped :: bool
  mv_truncate :: int
  mv_written :: "outboundMsg list"

record sharedSub =
  ss_key :: muxKey
  ss_subErr :: "string option"
  ss_viewers :: "nat set"
  ss_sub :: "nat option"
  ss_ready :: bool
  ss_subStarted :: bool

text \<open>
  Where the goroutine of a session is: before \<^verbatim>\<open>attach\<close>; inside \<^verbatim>\<open>Subscribe\<close>; with its result in hand;
  before \<^verbatim>\<open>close(ready)\<close>; at \<^verbatim>\<open><-ready\<close>; in the session proper; before \<^verbatim>\<open>detach\<close>; before \<^verbatim>\<open>viewer.stop\<close>;
  before \<^verbatim>\<open>Unsubscribe\<close>; and at the end.
\<close>

datatype session_pc =
    Entering
  | Subscribing nat
  | Storing nat "nat option" "string option"
  | Publishing nat "string option"
  | Waiting nat
  | Attached nat
  | Detaching nat
  | Stopping "nat option"
  | Unsubscribing "nat option"
  | Finished

text \<open>The callback of a subscription: idle, or sending a frame to the viewers that are left.\<close>

datatype fan_pc =
    FanIdle
  | FanSending outboundMsg "nat list"
  | FanChecked outboundMsg nat "nat list"

record subMux =
  m_subs :: "muxKey \<Rightarrow> nat option"
  m_heap :: "nat \<Rightarrow> sharedSub"
  m_next :: nat
  m_viewers :: "nat \<Rightarrow> muxViewer"
  m_pc :: "nat \<Rightarrow> session_pc"
  m_nviewers :: nat
  m_src :: "nat \<Rightarrow> nat option"
  m_live :: "nat set"
  m_nsubs :: nat
  m_fan :: "nat \<Rightarrow> fan_pc"
  m_panic :: bool

definition new_sharedSub :: "muxKey \<Rightarrow> sharedSub" where
  "new_sharedSub k =
     \<lparr>ss_key = k, ss_subErr = None, ss_viewers = {}, ss_sub = None, ss_ready = False,
      ss_subStarted = False\<rparr>"

definition newMuxViewer :: "muxKey \<Rightarrow> int \<Rightarrow> muxViewer" where
  "newMuxViewer k tr =
     \<lparr>mv_key = k, mv_out = [], mv_paused = False, mv_closed = False, mv_stopped = False,
      mv_truncate = tr, mv_written = []\<rparr>"

definition no_key :: muxKey where
  "no_key = \<lparr>mk_cluster = [], mk_stream = [], mk_filter = [], mk_fromSeq = 0\<rparr>"

definition newSubMux :: subMux where
  "newSubMux =
     \<lparr>m_subs = (\<lambda>_. None), m_heap = (\<lambda>_. new_sharedSub no_key), m_next = 0,
      m_viewers = (\<lambda>_. newMuxViewer no_key 0), m_pc = (\<lambda>_. Finished), m_nviewers = 0,
      m_src = (\<lambda>_. None), m_live = {}, m_nsubs = 0, m_fan = (\<lambda>_. FanIdle), m_panic = False\<rparr>"

definition set_pc :: "nat \<Rightarrow> session_pc \<Rightarrow> subMux \<Rightarrow> subMux" where
  "set_pc v p s = s\<lparr>m_pc := (m_pc s)(v := p)\<rparr>"

definition upd_ss :: "nat \<Rightarrow> (sharedSub \<Rightarrow> sharedSub) \<Rightarrow> subMux \<Rightarrow> subMux" where
  "upd_ss r f s = s\<lparr>m_heap := (m_heap s)(r := f (m_heap s r))\<rparr>"

definition upd_viewer :: "nat \<Rightarrow> (muxViewer \<Rightarrow> muxViewer) \<Rightarrow> subMux \<Rightarrow> subMux" where
  "upd_viewer v f s = s\<lparr>m_viewers := (m_viewers s)(v := f (m_viewers s v))\<rparr>"

section \<open>attach\<close>

text \<open>The first critical section of \<^verbatim>\<open>attachWithSubscriber\<close>: join or create, and claim the attempt.\<close>

definition shared_for :: "muxKey \<Rightarrow> subMux \<Rightarrow> nat \<times> subMux" where
  "shared_for k s =
     (case m_subs s k of
        Some r \<Rightarrow> (r, s)
      | None \<Rightarrow>
          (m_next s,
           s\<lparr>m_subs := (m_subs s)(k := Some (m_next s)),
             m_heap := (m_heap s)(m_next s := new_sharedSub k),
             m_next := Suc (m_next s)\<rparr>))"

definition attach_register :: "nat \<Rightarrow> subMux \<Rightarrow> subMux" where
  "attach_register v s =
     (let (r, s1) = shared_for (mv_key (m_viewers s v)) s;
          needSubscribe = \<not> ss_subStarted (m_heap s1 r);
          s2 = upd_ss r (\<lambda>ss. ss\<lparr>ss_viewers := insert v (ss_viewers ss), ss_subStarted := True\<rparr>) s1
      in set_pc v (if needSubscribe then Subscribing r else Waiting r) s2)"

text \<open>\<^verbatim>\<open>subscribe(ss)\<close>: an error and no subscription, or a new subscription.\<close>

definition attach_subscribe :: "nat \<Rightarrow> nat \<Rightarrow> string option \<Rightarrow> subMux \<Rightarrow> subMux" where
  "attach_subscribe v r outcome s =
     (case outcome of
        Some err \<Rightarrow> set_pc v (Storing r None (Some err)) s
      | None \<Rightarrow>
          set_pc v (Storing r (Some (m_nsubs s)) None)
            (s\<lparr>m_src := (m_src s)(m_nsubs s := Some r), m_live := insert (m_nsubs s) (m_live s),
               m_nsubs := Suc (m_nsubs s)\<rparr>))"

definition attach_store :: "nat \<Rightarrow> nat \<Rightarrow> nat option \<Rightarrow> string option \<Rightarrow> subMux \<Rightarrow> subMux" where
  "attach_store v r sub err s =
     set_pc v (Publishing r err) (upd_ss r (\<lambda>ss. ss\<lparr>ss_sub := sub, ss_subErr := err\<rparr>) s)"

definition attach_result :: "nat \<Rightarrow> string option \<Rightarrow> session_pc" where
  "attach_result r err = (if err \<noteq> None then Detaching r else Attached r)"

definition attach_publish :: "nat \<Rightarrow> nat \<Rightarrow> string option \<Rightarrow> subMux \<Rightarrow> subMux" where
  "attach_publish v r err s =
     set_pc v (attach_result r err) (upd_ss r (\<lambda>ss. ss\<lparr>ss_ready := True\<rparr>) s)"

text \<open>\<^verbatim>\<open><-ready\<close> blocks until the channel is closed; then the stored error is read.\<close>

definition attach_wait :: "nat \<Rightarrow> nat \<Rightarrow> subMux \<Rightarrow> subMux option" where
  "attach_wait v r s =
     (if ss_ready (m_heap s r) then Some (set_pc v (attach_result r (ss_subErr (m_heap s r))) s)
      else None)"

section \<open>detach\<close>

definition detach_section :: "nat \<Rightarrow> subMux \<Rightarrow> subMux" where
  "detach_section v s =
     (let key = mv_key (m_viewers s v) in
      case m_subs s key of
        None \<Rightarrow> set_pc v (Stopping None) s
      | Some r \<Rightarrow>
          (let rest = ss_viewers (m_heap s r) - {v};
               s1 = upd_ss r (\<lambda>ss. ss\<lparr>ss_viewers := rest\<rparr>) s
           in if rest = {}
              then set_pc v (Stopping (ss_sub (m_heap s r)))
                     ((upd_ss r (\<lambda>ss. ss\<lparr>ss_sub := None\<rparr>) s1)\<lparr>m_subs := (m_subs s)(key := None)\<rparr>)
              else set_pc v (Stopping None) s1))"

definition viewer_stop :: "nat \<Rightarrow> nat option \<Rightarrow> subMux \<Rightarrow> subMux" where
  "viewer_stop v sub s = set_pc v (Unsubscribing sub) (upd_viewer v (\<lambda>x. x\<lparr>mv_stopped := True\<rparr>) s)"

definition detach_unsubscribe :: "nat \<Rightarrow> nat option \<Rightarrow> subMux \<Rightarrow> subMux" where
  "detach_unsubscribe v sub s =
     set_pc v Finished
       (case sub of None \<Rightarrow> s | Some sid \<Rightarrow> s\<lparr>m_live := m_live s - {sid}\<rparr>)"

text \<open>
  One step of the goroutine of session \<open>v\<close> inside \<^verbatim>\<open>attach\<close> or \<^verbatim>\<open>detach\<close>; \<open>outcome\<close> is the error of
  \<^verbatim>\<open>Subscribe\<close>, read only there.  \<open>None\<close>: it is blocked, or not inside these functions.
\<close>

definition go_step :: "nat \<Rightarrow> string option \<Rightarrow> subMux \<Rightarrow> subMux option" where
  "go_step v outcome s =
     (case m_pc s v of
        Entering \<Rightarrow> Some (attach_register v s)
      | Subscribing r \<Rightarrow> Some (attach_subscribe v r outcome s)
      | Storing r sub err \<Rightarrow> Some (attach_store v r sub err s)
      | Publishing r err \<Rightarrow> Some (attach_publish v r err s)
      | Waiting r \<Rightarrow> attach_wait v r s
      | Attached r \<Rightarrow> None
      | Detaching r \<Rightarrow> Some (detach_section v s)
      | Stopping sub \<Rightarrow> Some (viewer_stop v sub s)
      | Unsubscribing sub \<Rightarrow> Some (detach_unsubscribe v sub s)
      | Finished \<Rightarrow> None)"

section \<open>fanout, trySendFrame and writeLoop\<close>

text \<open>The viewers a message goes to, and the smallest truncation any of them asks for.\<close>

definition fan_selected :: "subMux \<Rightarrow> nat \<Rightarrow> nat set" where
  "fan_selected s r =
     {v \<in> ss_viewers (m_heap s r). \<not> mv_closed (m_viewers s v) \<and> \<not> mv_paused (m_viewers s v)}"

fun fan_truncate :: "int \<Rightarrow> int list \<Rightarrow> int" where
  "fan_truncate t [] = t"
| "fan_truncate t (x # xs) = fan_truncate (if x > 0 \<and> (t = 0 \<or> x < t) then x else t) xs"

definition truncate_payload :: "int \<Rightarrow> NatsMsg \<Rightarrow> NatsMsg" where
  "truncate_payload t msg =
     (if t > 0 \<and> int (length (nm_data msg)) > t
      then msg\<lparr>nm_data := take (nat t) (nm_data msg)\<rparr> else msg)"

text \<open>
  The critical section of \<^verbatim>\<open>fanout\<close> for a message of subscription \<open>sid\<close>; \<open>vs\<close> lists the selected
  viewers in the order of the iteration, \<open>enc\<close> is the encoder of frames.
\<close>

definition fanout_begin ::
  "(NatsMsg \<Rightarrow> string) \<Rightarrow> nat \<Rightarrow> NatsMsg \<Rightarrow> nat list \<Rightarrow> subMux \<Rightarrow> subMux option" where
  "fanout_begin enc sid msg vs s =
     (case m_src s sid of
        None \<Rightarrow> None
      | Some r \<Rightarrow>
          if m_fan s sid = FanIdle \<and> distinct vs \<and> set vs = fan_selected s r then
            let tr = fan_truncate 0 (map (\<lambda>v. mv_truncate (m_viewers s v)) vs);
                msg' = truncate_payload tr msg;
                frame = \<lparr>om_frame = enc msg', om_sid = sid, om_msg = msg'\<rparr>
            in Some (s\<lparr>m_fan := (m_fan s)(sid := FanSending frame vs)\<rparr>)
          else None)"

text \<open>The test at the head of \<^verbatim>\<open>trySendFrame\<close>, for the next viewer of the snapshot.\<close>

definition fanout_check :: "nat \<Rightarrow> subMux \<Rightarrow> subMux option" where
  "fanout_check sid s =
     (case m_fan s sid of
        FanSending frame [] \<Rightarrow> Some (s\<lparr>m_fan := (m_fan s)(sid := FanIdle)\<rparr>)
      | FanSending frame (v # vs) \<Rightarrow>
          (if mv_closed (m_viewers s v) \<or> mv_paused (m_viewers s v) \<or> om_frame frame = []
           then Some (s\<lparr>m_fan := (m_fan s)(sid := FanSending frame vs)\<rparr>)
           else Some (s\<lparr>m_fan := (m_fan s)(sid := FanChecked frame v vs)\<rparr>))
      | _ \<Rightarrow> None)"

text \<open>
  The \<^verbatim>\<open>select\<close> of \<^verbatim>\<open>trySendFrame\<close>: a send on a closed channel panics, also in a \<^verbatim>\<open>select\<close> with a
  default; a full channel drops the frame.  The callback does not recover, so a panic ends the process.
\<close>

definition fanout_send :: "nat \<Rightarrow> subMux \<Rightarrow> subMux option" where
  "fanout_send sid s =
     (case m_fan s sid of
        FanChecked frame v vs \<Rightarrow>
          (if mv_stopped (m_viewers s v) then Some (s\<lparr>m_panic := True\<rparr>)
           else
             let s1 = s\<lparr>m_fan := (m_fan s)(sid := FanSending frame vs)\<rparr>
             in if length (mv_out (m_viewers s v)) < viewerOutboundBuffer
                then Some (upd_viewer v (\<lambda>x. x\<lparr>mv_out := mv_out x @ [frame]\<rparr>) s1)
                else Some s1)
      | _ \<Rightarrow> None)"

text \<open>\<^verbatim>\<open>writeLoop\<close> takes the first frame, also from a closed channel, and delivers it unless closed.\<close>

definition writeLoop_step :: "nat \<Rightarrow> subMux \<Rightarrow> subMux option" where
  "writeLoop_step v s =
     (case mv_out (m_viewers s v) of
        [] \<Rightarrow> None
      | frame # rest \<Rightarrow>
          Some (upd_viewer v
            (\<lambda>x. x\<lparr>mv_out := rest,
                   mv_written := mv_written x @ (if mv_closed x then [] else [frame])\<rparr>) s))"

section \<open>Steps\<close>

text \<open>
  What can happen: a session connects (\<^verbatim>\<open>serveConn\<close> up to \<^verbatim>\<open>attach\<close>), its flags change
  (\<^verbatim>\<open>closeSession\<close>, the pause and resume commands), it returns (the deferred \<^verbatim>\<open>unsub\<close>), a goroutine
  of a session advances, a message arrives or its fan-out advances, and a viewer writes.
\<close>

datatype mux_event =
    Connect muxKey int
  | CloseSession nat
  | SetPaused nat bool
  | Leave nat
  | Go nat "string option"
  | Message nat NatsMsg "nat list"
  | FanCheck nat
  | FanSend nat
  | Write nat

definition session_connect :: "muxKey \<Rightarrow> int \<Rightarrow> subMux \<Rightarrow> subMux" where
  "session_connect k tr s =
     s\<lparr>m_viewers := (m_viewers s)(m_nviewers s := newMuxViewer k tr),
       m_pc := (m_pc s)(m_nviewers s := Entering), m_nviewers := Suc (m_nviewers s)\<rparr>"

definition mux_step :: "(NatsMsg \<Rightarrow> string) \<Rightarrow> mux_event \<Rightarrow> subMux \<Rightarrow> subMux option" where
  "mux_step enc e s =
     (if m_panic s then None else
      case e of
        Connect k t \<Rightarrow> Some (session_connect k t s)
      | CloseSession v \<Rightarrow> Some (upd_viewer v (\<lambda>x. x\<lparr>mv_closed := True\<rparr>) s)
      | SetPaused v b \<Rightarrow> Some (upd_viewer v (\<lambda>x. x\<lparr>mv_paused := b\<rparr>) s)
      | Leave v \<Rightarrow>
          (case m_pc s v of Attached r \<Rightarrow> Some (set_pc v (Detaching r) s) | _ \<Rightarrow> None)
      | Go v outcome \<Rightarrow> go_step v outcome s
      | Message sid msg vs \<Rightarrow> fanout_begin enc sid msg vs s
      | FanCheck sid \<Rightarrow> fanout_check sid s
      | FanSend sid \<Rightarrow> fanout_send sid s
      | Write v \<Rightarrow> writeLoop_step v s)"

inductive mux_reach :: "(NatsMsg \<Rightarrow> string) \<Rightarrow> subMux \<Rightarrow> bool" for enc where
  mux_init: "mux_reach enc newSubMux"
| mux_next: "mux_reach enc s \<Longrightarrow> mux_step enc e s = Some s' \<Longrightarrow> mux_reach enc s'"

text \<open>Runs of the goroutines of the sessions alone, with their number of steps.\<close>

inductive go_run :: "nat \<Rightarrow> subMux \<Rightarrow> subMux \<Rightarrow> bool" where
  go_refl: "go_run 0 s s"
| go_more: "go_step v outcome s = Some s' \<Longrightarrow> go_run n s' s'' \<Longrightarrow> go_run (Suc n) s s''"

section \<open>Who belongs to which shared subscription\<close>

fun pc_ref :: "session_pc \<Rightarrow> nat option" where
  "pc_ref (Subscribing r) = Some r"
| "pc_ref (Storing r sub err) = Some r"
| "pc_ref (Publishing r err) = Some r"
| "pc_ref (Waiting r) = Some r"
| "pc_ref (Attached r) = Some r"
| "pc_ref (Detaching r) = Some r"
| "pc_ref _ = None"

text \<open>The sessions that have claimed the subscribe attempt and not yet closed \<^verbatim>\<open>ready\<close>.\<close>

fun pc_owns :: "session_pc \<Rightarrow> nat option" where
  "pc_owns (Subscribing r) = Some r"
| "pc_owns (Storing r sub err) = Some r"
| "pc_owns (Publishing r err) = Some r"
| "pc_owns _ = None"

text \<open>The subscription a goroutine holds in a local variable.\<close>

fun pc_holds :: "session_pc \<Rightarrow> nat option" where
  "pc_holds (Storing r sub err) = sub"
| "pc_holds (Stopping sub) = sub"
| "pc_holds (Unsubscribing sub) = sub"
| "pc_holds _ = None"

lemma pc_owns_ref: "pc_owns p = Some r \<Longrightarrow> pc_ref p = Some r"
  by (cases p) auto

definition inv_join :: "subMux \<Rightarrow> bool" where
  "inv_join s \<longleftrightarrow>
     (\<forall>v r. v \<in> ss_viewers (m_heap s r) \<longleftrightarrow> pc_ref (m_pc s v) = Some r) \<and>
     (\<forall>k r. m_subs s k = Some r \<longleftrightarrow>
        ss_key (m_heap s r) = k \<and> ss_viewers (m_heap s r) \<noteq> {}) \<and>
     (\<forall>r. m_next s \<le> r \<longrightarrow> ss_viewers (m_heap s r) = {}) \<and>
     (\<forall>v r. pc_ref (m_pc s v) = Some r \<longrightarrow> mv_key (m_viewers s v) = ss_key (m_heap s r)) \<and>
     (\<forall>r. ss_viewers (m_heap s r) \<noteq> {} \<longrightarrow> ss_subStarted (m_heap s r)) \<and>
     (\<forall>v. m_nviewers s \<le> v \<longrightarrow> m_pc s v = Finished)"

lemma inv_joinD:
  assumes "inv_join s"
  shows joined: "\<And>v r. v \<in> ss_viewers (m_heap s r) \<longleftrightarrow> pc_ref (m_pc s v) = Some r"
    and mapped: "\<And>k r. m_subs s k = Some r \<longleftrightarrow>
        ss_key (m_heap s r) = k \<and> ss_viewers (m_heap s r) \<noteq> {}"
    and fresh_ref: "\<And>r. m_next s \<le> r \<Longrightarrow> ss_viewers (m_heap s r) = {}"
    and joined_key: "\<And>v r. pc_ref (m_pc s v) = Some r \<Longrightarrow>
        mv_key (m_viewers s v) = ss_key (m_heap s r)"
    and started: "\<And>r. ss_viewers (m_heap s r) \<noteq> {} \<Longrightarrow> ss_subStarted (m_heap s r)"
    and fresh_viewer: "\<And>v. m_nviewers s \<le> v \<Longrightarrow> m_pc s v = Finished"
  using assms unfolding inv_join_def by blast+

lemma live_viewer: "inv_join s \<Longrightarrow> m_pc s v \<noteq> Finished \<Longrightarrow> v < m_nviewers s"
  using fresh_viewer by (meson not_less)

text \<open>The two outcomes of \<^verbatim>\<open>attach\<close>'s first critical section, and of \<^verbatim>\<open>detach\<close>'s.\<close>

definition join_state :: "nat \<Rightarrow> nat \<Rightarrow> subMux \<Rightarrow> subMux" where
  "join_state v r s =
     set_pc v (Waiting r)
       (upd_ss r (\<lambda>ss. ss\<lparr>ss_viewers := insert v (ss_viewers ss), ss_subStarted := True\<rparr>) s)"

definition first_state :: "nat \<Rightarrow> muxKey \<Rightarrow> subMux \<Rightarrow> subMux" where
  "first_state v k s =
     set_pc v (Subscribing (m_next s))
       (s\<lparr>m_subs := (m_subs s)(k := Some (m_next s)),
          m_heap := (m_heap s)(m_next s := (new_sharedSub k)\<lparr>ss_viewers := {v}, ss_subStarted := True\<rparr>),
          m_next := Suc (m_next s)\<rparr>)"

definition part_state :: "nat \<Rightarrow> nat \<Rightarrow> subMux \<Rightarrow> subMux" where
  "part_state v r s =
     set_pc v (Stopping None) (upd_ss r (\<lambda>ss. ss\<lparr>ss_viewers := ss_viewers ss - {v}\<rparr>) s)"

definition last_state :: "nat \<Rightarrow> nat \<Rightarrow> subMux \<Rightarrow> subMux" where
  "last_state v r s =
     set_pc v (Stopping (ss_sub (m_heap s r)))
       (s\<lparr>m_heap := (m_heap s)(r := (m_heap s r)\<lparr>ss_viewers := {}, ss_sub := None\<rparr>),
          m_subs := (m_subs s)(mv_key (m_viewers s v) := None)\<rparr>)"

lemma attach_register_cases:
  assumes inv: "inv_join s"
  obtains (join) r where "m_subs s (mv_key (m_viewers s v)) = Some r"
      "attach_register v s = join_state v r s"
    | (first) "m_subs s (mv_key (m_viewers s v)) = None"
      "attach_register v s = first_state v (mv_key (m_viewers s v)) s"
proof (cases "m_subs s (mv_key (m_viewers s v))")
  case None
  then show ?thesis
    by (intro first) (simp_all add: attach_register_def shared_for_def first_state_def upd_ss_def
        new_sharedSub_def set_pc_def)
next
  case (Some r)
  then have "ss_subStarted (m_heap s r)"
    using inv mapped started by blast
  with Some show ?thesis
    by (intro join [of r]) (simp_all add: attach_register_def shared_for_def join_state_def)
qed

lemma detach_section_cases:
  assumes inv: "inv_join s" and pc: "m_pc s v = Detaching r"
  obtains (part) "ss_viewers (m_heap s r) - {v} \<noteq> {}" "detach_section v s = part_state v r s"
    | (last) "ss_viewers (m_heap s r) = {v}" "detach_section v s = last_state v r s"
proof -
  have v: "v \<in> ss_viewers (m_heap s r)"
    using inv pc by (simp add: joined)
  have key: "m_subs s (mv_key (m_viewers s v)) = Some r"
    using inv pc v by (auto simp: mapped joined_key)
  show ?thesis
  proof (cases "ss_viewers (m_heap s r) - {v} = {}")
    case True
    then have "ss_viewers (m_heap s r) = {v}"
      using v by blast
    then show ?thesis
      using key by (intro last) (simp_all add: detach_section_def last_state_def upd_ss_def)
  next
    case False
    then show ?thesis
      using key by (intro part) (simp_all add: detach_section_def part_state_def upd_ss_def)
  qed
qed

text \<open>Steps that leave membership alone.\<close>

lemma inv_join_frame:
  assumes inv: "inv_join s"
    and "m_subs s' = m_subs s" "m_next s' = m_next s" "m_nviewers s' = m_nviewers s"
    and "\<And>r. ss_viewers (m_heap s' r) = ss_viewers (m_heap s r)"
    and "\<And>r. ss_key (m_heap s' r) = ss_key (m_heap s r)"
    and "\<And>r. ss_subStarted (m_heap s' r) = ss_subStarted (m_heap s r)"
    and "\<And>v. mv_key (m_viewers s' v) = mv_key (m_viewers s v)"
    and "\<And>v. pc_ref (m_pc s' v) = pc_ref (m_pc s v)"
    and "\<And>v. m_pc s v = Finished \<Longrightarrow> m_pc s' v = Finished"
  shows "inv_join s'"
  using inv unfolding inv_join_def assms(2-9) using assms(10) by blast

lemmas mux_ops =
  set_pc_def upd_ss_def upd_viewer_def attach_subscribe_def attach_store_def attach_publish_def
  attach_wait_def attach_result_def viewer_stop_def detach_unsubscribe_def

lemma inv_join_init: "inv_join newSubMux"
  by (simp add: inv_join_def newSubMux_def new_sharedSub_def newMuxViewer_def)

lemma inv_join_connect:
  assumes inv: "inv_join s"
  shows "inv_join (session_connect k t s)"
proof -
  have "m_pc s (m_nviewers s) = Finished"
    using inv by (simp add: fresh_viewer)
  then show ?thesis
    using inv unfolding inv_join_def session_connect_def by auto
qed

lemma inv_join_join_state:
  assumes inv: "inv_join s" and pc: "m_pc s v = Entering"
    and r: "m_subs s (mv_key (m_viewers s v)) = Some r"
  shows "inv_join (join_state v r s)"
proof -
  have key: "ss_key (m_heap s r) = mv_key (m_viewers s v)" and ne: "ss_viewers (m_heap s r) \<noteq> {}"
    using inv r by (auto simp: mapped)
  have lt: "r < m_next s"
    using inv ne fresh_ref by (meson not_less)
  have vn: "v < m_nviewers s"
    using inv pc by (simp add: live_viewer)
  show ?thesis
    using inv pc key ne lt vn unfolding inv_join_def join_state_def set_pc_def upd_ss_def
    by (intro conjI; simp; metis)
qed

lemma inv_join_first_state:
  assumes inv: "inv_join s" and pc: "m_pc s v = Entering" and k: "k = mv_key (m_viewers s v)"
    and none: "m_subs s k = None"
  shows "inv_join (first_state v k s)" (is "inv_join ?s")
proof -
  have e: "ss_viewers (m_heap s (m_next s)) = {}"
    using inv by (simp add: fresh_ref)
  have pcn: "pc_ref (m_pc s u) \<noteq> Some (m_next s)" for u
    using inv e by (metis empty_iff joined)
  have vn: "v < m_nviewers s"
    using inv pc by (simp add: live_viewer)
  have other: "ss_viewers (m_heap s r) = {}" if "ss_key (m_heap s r) = k" for r
    using inv none that mapped by (metis option.distinct(1))
  show ?thesis
    unfolding inv_join_def
  proof (intro conjI allI impI)
    fix u r
    show "u \<in> ss_viewers (m_heap ?s r) \<longleftrightarrow> pc_ref (m_pc ?s u) = Some r"
      using pcn pc joined [OF inv, of u r] by (auto simp: first_state_def set_pc_def)
  next
    fix l r
    show "m_subs ?s l = Some r \<longleftrightarrow> ss_key (m_heap ?s r) = l \<and> ss_viewers (m_heap ?s r) \<noteq> {}"
      using other e mapped [OF inv, of l r] by (auto simp: first_state_def set_pc_def new_sharedSub_def)
  next
    fix u r assume "pc_ref (m_pc ?s u) = Some r"
    then show "mv_key (m_viewers ?s u) = ss_key (m_heap ?s r)"
      using pcn k joined_key [OF inv, of u r]
      by (auto simp: first_state_def set_pc_def new_sharedSub_def split: if_splits)
  qed (use fresh_ref [OF inv] started [OF inv] fresh_viewer [OF inv] vn in
       \<open>auto simp: first_state_def set_pc_def split: if_splits\<close>)
qed

lemma inv_join_part_state:
  assumes inv: "inv_join s" and pc: "m_pc s v = Detaching r"
    and ne: "ss_viewers (m_heap s r) - {v} \<noteq> {}"
  shows "inv_join (part_state v r s)"
proof -
  have v: "v < m_nviewers s"
    using inv pc by (simp add: live_viewer)
  show ?thesis
    using inv pc ne v unfolding inv_join_def part_state_def set_pc_def upd_ss_def
    by (intro conjI; simp; blast)
qed

lemma inv_join_last_state:
  assumes inv: "inv_join s" and pc: "m_pc s v = Detaching r" and e: "ss_viewers (m_heap s r) = {v}"
  shows "inv_join (last_state v r s)" (is "inv_join ?s")
proof -
  have v: "v < m_nviewers s"
    using inv pc by (simp add: live_viewer)
  have key: "mv_key (m_viewers s v) = ss_key (m_heap s r)"
    using inv pc by (simp add: joined_key)
  have other: "ss_viewers (m_heap s q) = {}"
    if "q \<noteq> r" "ss_key (m_heap s q) = ss_key (m_heap s r)" for q
    using inv e that mapped by (metis insert_not_empty option.inject)
  have only: "pc_ref (m_pc s u) = Some r \<longleftrightarrow> u = v" for u
    using joined [OF inv, of u r] e by simp
  show ?thesis
    unfolding inv_join_def
  proof (intro conjI allI impI)
    fix u q
    show "u \<in> ss_viewers (m_heap ?s q) \<longleftrightarrow> pc_ref (m_pc ?s u) = Some q"
      using only [of u] pc joined [OF inv, of u q] by (auto simp: last_state_def set_pc_def)
  next
    fix l q
    show "m_subs ?s l = Some q \<longleftrightarrow> ss_key (m_heap ?s q) = l \<and> ss_viewers (m_heap ?s q) \<noteq> {}"
      using other [of q] e key mapped [OF inv, of l q] mapped [OF inv, of l r]
      by (auto simp: last_state_def set_pc_def)
  next
    fix u q assume "pc_ref (m_pc ?s u) = Some q"
    then show "mv_key (m_viewers ?s u) = ss_key (m_heap ?s q)"
      using joined_key [OF inv, of u q] by (auto simp: last_state_def set_pc_def split: if_splits)
  qed (use fresh_ref [OF inv] started [OF inv] fresh_viewer [OF inv] v in
       \<open>auto simp: last_state_def set_pc_def split: if_splits\<close>)
qed

text \<open>The steps of a session that leave its membership alone.\<close>

lemma inv_join_go_frame:
  assumes inv: "inv_join s" and go: "go_step v outcome s = Some s'"
    and pc: "m_pc s v \<noteq> Entering" "\<nexists>r. m_pc s v = Detaching r"
  shows "inv_join s'"
  using go pc
  by (intro inv_join_frame [OF inv])
    (auto simp: go_step_def mux_ops split: session_pc.splits option.splits if_splits)

lemma inv_join_go:
  assumes inv: "inv_join s" and go: "go_step v outcome s = Some s'"
  shows "inv_join s'"
proof -
  consider (enter) "m_pc s v = Entering" | (leave) r where "m_pc s v = Detaching r"
    | (frame) "m_pc s v \<noteq> Entering" "\<nexists>r. m_pc s v = Detaching r"
    by blast
  then show ?thesis
  proof cases
    case enter
    then have s': "s' = attach_register v s"
      using go by (simp add: go_step_def)
    show ?thesis
      using inv
      by (cases rule: attach_register_cases [where v = v])
        (auto simp: s' intro: inv_join_join_state inv_join_first_state inv enter)
  next
    case leave
    then have s': "s' = detach_section v s"
      using go by (simp add: go_step_def)
    show ?thesis
      using inv leave
      by (cases rule: detach_section_cases)
        (auto simp: s' intro: inv_join_part_state inv_join_last_state inv leave)
  qed (rule inv_join_go_frame [OF inv go])
qed

text \<open>Everything else that happens changes neither membership nor the position of a session.\<close>

lemma mux_step_cases:
  assumes "mux_step enc e s = Some s'"
  obtains (connect) k t where "s' = session_connect k t s"
    | (go) v outcome where "go_step v outcome s = Some s'"
    | (leave) v r where "m_pc s v = Attached r" "s' = set_pc v (Detaching r) s"
    | (other) "m_subs s' = m_subs s" "m_heap s' = m_heap s" "m_next s' = m_next s"
        "m_pc s' = m_pc s" "m_nviewers s' = m_nviewers s" "m_src s' = m_src s"
        "m_live s' = m_live s" "m_nsubs s' = m_nsubs s"
        "\<And>v. mv_key (m_viewers s' v) = mv_key (m_viewers s v)"
        "\<And>v. mv_stopped (m_viewers s' v) = mv_stopped (m_viewers s v)"
  using assms
  by (cases e)
    (auto simp: mux_step_def fanout_begin_def fanout_check_def fanout_send_def writeLoop_step_def
       upd_viewer_def Let_def split: if_splits option.splits session_pc.splits fan_pc.splits list.splits)

lemma inv_join_step:
  assumes inv: "inv_join s" and step: "mux_step enc e s = Some s'"
  shows "inv_join s'"
  using step
proof (cases rule: mux_step_cases)
  case (connect k t)
  then show ?thesis using inv inv_join_connect by simp
next
  case (go v outcome)
  then show ?thesis using inv inv_join_go by blast
next
  case (leave v r)
  then show ?thesis
    by (intro inv_join_frame [OF inv]) (auto simp: set_pc_def)
next
  case other
  then show ?thesis
    by (intro inv_join_frame [OF inv]) auto
qed

lemma inv_join_reach: "mux_reach enc s \<Longrightarrow> inv_join s"
  by (induction rule: mux_reach.induct) (auto intro: inv_join_init inv_join_step)

section \<open>The subscribe attempt\<close>

lemma go_step_cases:
  assumes inv: "inv_join s" and go: "go_step v outcome s = Some s'"
  obtains (join) r where "m_pc s v = Entering" "m_subs s (mv_key (m_viewers s v)) = Some r"
      "s' = join_state v r s"
    | (first) "m_pc s v = Entering" "m_subs s (mv_key (m_viewers s v)) = None"
      "s' = first_state v (mv_key (m_viewers s v)) s"
    | (refused) r err where "m_pc s v = Subscribing r" "s' = set_pc v (Storing r None (Some err)) s"
    | (subscribed) r where "m_pc s v = Subscribing r" "s' = attach_subscribe v r None s"
    | (stored) r sub err where "m_pc s v = Storing r sub err" "s' = attach_store v r sub err s"
    | (published) r err where "m_pc s v = Publishing r err" "s' = attach_publish v r err s"
    | (woken) r where "m_pc s v = Waiting r" "ss_ready (m_heap s r)"
      "s' = set_pc v (attach_result r (ss_subErr (m_heap s r))) s"
    | (part) r where "m_pc s v = Detaching r" "ss_viewers (m_heap s r) - {v} \<noteq> {}"
      "s' = part_state v r s"
    | (last) r where "m_pc s v = Detaching r" "ss_viewers (m_heap s r) = {v}"
      "s' = last_state v r s"
    | (stopped) sub where "m_pc s v = Stopping sub" "s' = viewer_stop v sub s"
    | (unsubscribed) sub where "m_pc s v = Unsubscribing sub" "s' = detach_unsubscribe v sub s"
proof (cases "m_pc s v")
  case Entering
  then have s': "s' = attach_register v s"
    using go by (simp add: go_step_def)
  show ?thesis
    by (rule attach_register_cases [OF inv, of v]) (use s' Entering join first in auto)
next
  case (Subscribing r)
  then show ?thesis
    using go refused subscribed by (cases outcome) (auto simp: go_step_def attach_subscribe_def)
next
  case (Detaching r)
  then have s': "s' = detach_section v s"
    using go by (simp add: go_step_def)
  show ?thesis
    by (rule detach_section_cases [OF inv Detaching]) (use s' Detaching part last in auto)
qed (use go stored published woken stopped unsubscribed in
     \<open>auto simp: go_step_def attach_wait_def split: if_splits\<close>)

text \<open>
  Exactly one session makes the attempt, and until it has closed \<^verbatim>\<open>ready\<close> it is there: waiting for
  \<^verbatim>\<open>ready\<close> is waiting for a session that is on its way.
\<close>

definition inv_own :: "subMux \<Rightarrow> bool" where
  "inv_own s \<longleftrightarrow>
     (\<forall>v w r. pc_owns (m_pc s v) = Some r \<longrightarrow> pc_owns (m_pc s w) = Some r \<longrightarrow> v = w) \<and>
     (\<forall>v r. pc_owns (m_pc s v) = Some r \<longrightarrow> \<not> ss_ready (m_heap s r)) \<and>
     (\<forall>r. ss_viewers (m_heap s r) \<noteq> {} \<longrightarrow> \<not> ss_ready (m_heap s r) \<longrightarrow>
        (\<exists>v. pc_owns (m_pc s v) = Some r))"

lemma inv_ownD:
  assumes "inv_own s"
  shows one_owner: "\<And>v w r. pc_owns (m_pc s v) = Some r \<Longrightarrow> pc_owns (m_pc s w) = Some r \<Longrightarrow> v = w"
    and owner_unready: "\<And>v r. pc_owns (m_pc s v) = Some r \<Longrightarrow> \<not> ss_ready (m_heap s r)"
    and unready_owner: "\<And>r. ss_viewers (m_heap s r) \<noteq> {} \<Longrightarrow> \<not> ss_ready (m_heap s r) \<Longrightarrow>
        \<exists>v. pc_owns (m_pc s v) = Some r"
  using assms unfolding inv_own_def by blast+

lemma inv_own_frame:
  assumes inv: "inv_own s"
    and "\<And>v. pc_owns (m_pc s' v) = pc_owns (m_pc s v)"
    and "\<And>r. ss_ready (m_heap s' r) = ss_ready (m_heap s r)"
    and sub: "\<And>r. ss_viewers (m_heap s' r) \<noteq> {} \<Longrightarrow> ss_viewers (m_heap s r) \<noteq> {}"
  shows "inv_own s'"
  using inv sub unfolding inv_own_def assms(2,3) by blast

lemma inv_own_go:
  assumes join: "inv_join s" and inv: "inv_own s" and go: "go_step v outcome s = Some s'"
  shows "inv_own s'"
  using join go
proof (cases rule: go_step_cases)
  case (join r)
  then have "ss_viewers (m_heap s r) \<noteq> {}"
    using \<open>inv_join s\<close> by (simp add: mapped)
  with join show ?thesis
    by (intro inv_own_frame [OF inv]) (auto simp: join_state_def set_pc_def upd_ss_def split: if_splits)
next
  case first
  have none: "pc_owns (m_pc s u) \<noteq> Some (m_next s)" for u
    using \<open>inv_join s\<close> fresh_ref joined pc_owns_ref by (metis empty_iff order_refl)
  have "pc_owns (m_pc s v) = None"
    using first by simp
  then show ?thesis
    using inv none unfolding inv_own_def first(3) first_state_def set_pc_def new_sharedSub_def
    by (auto split: if_splits) (metis emptyE option.distinct(1))
next
  case (published r err)
  then have "\<And>w. pc_owns (m_pc s w) = Some r \<longleftrightarrow> w = v"
    using inv by (metis one_owner pc_owns.simps(3))
  with inv published show ?thesis
    unfolding inv_own_def
    by (auto simp: mux_ops split: if_splits) (metis emptyE option.inject pc_owns.simps(3))+
qed (auto intro!: inv_own_frame [OF inv]
       simp: mux_ops part_state_def last_state_def split: if_splits option.splits)

lemma inv_own_step:
  assumes join: "inv_join s" and inv: "inv_own s" and step: "mux_step enc e s = Some s'"
  shows "inv_own s'"
  using step
proof (cases rule: mux_step_cases)
  case (connect k t)
  then have "m_pc s (m_nviewers s) = Finished"
    using join by (simp add: fresh_viewer)
  with connect show ?thesis
    by (intro inv_own_frame [OF inv]) (auto simp: session_connect_def)
next
  case (go v outcome)
  then show ?thesis using join inv inv_own_go by blast
qed (auto intro!: inv_own_frame [OF inv] simp: set_pc_def)

lemma inv_own_reach: "mux_reach enc s \<Longrightarrow> inv_own s"
proof (induction rule: mux_reach.induct)
  case mux_init
  then show ?case by (simp add: inv_own_def newSubMux_def new_sharedSub_def)
next
  case (mux_next s e s')
  then show ?case using inv_join_reach inv_own_step by blast
qed

section \<open>No subscription is shared, lost or leaked\<close>

text \<open>A shared subscription is subscribed at most once in its life.\<close>

definition inv_src :: "subMux \<Rightarrow> bool" where
  "inv_src s \<longleftrightarrow>
     (\<forall>v r sid. m_pc s v = Subscribing r \<longrightarrow> m_src s sid \<noteq> Some r) \<and>
     (\<forall>sid sid' r. m_src s sid = Some r \<longrightarrow> m_src s sid' = Some r \<longrightarrow> sid = sid') \<and>
     (\<forall>sid r. m_src s sid = Some r \<longrightarrow> r < m_next s \<and> sid < m_nsubs s)"

lemma inv_srcD:
  assumes "inv_src s"
  shows no_src: "\<And>v r sid. m_pc s v = Subscribing r \<Longrightarrow> m_src s sid \<noteq> Some r"
    and src_inj: "\<And>sid sid' r. m_src s sid = Some r \<Longrightarrow> m_src s sid' = Some r \<Longrightarrow> sid = sid'"
    and src_lt: "\<And>sid r. m_src s sid = Some r \<Longrightarrow> r < m_next s \<and> sid < m_nsubs s"
  using assms unfolding inv_src_def by blast+

lemma inv_src_frame:
  assumes inv: "inv_src s" and "m_src s' = m_src s" "m_nsubs s' = m_nsubs s" "m_next s' = m_next s"
    and pc: "\<And>v r. m_pc s' v = Subscribing r \<Longrightarrow> m_pc s v = Subscribing r"
  shows "inv_src s'"
  using inv pc unfolding inv_src_def assms(2-4) by blast

lemma inv_src_go:
  assumes join: "inv_join s" and own: "inv_own s" and inv: "inv_src s"
    and go: "go_step v outcome s = Some s'"
  shows "inv_src s'"
  using join go
proof (cases rule: go_step_cases)
  case first
  have "m_src s sid \<noteq> Some (m_next s)" for sid
    using inv src_lt by blast
  then show ?thesis
    using inv unfolding inv_src_def first(3) first_state_def set_pc_def
    by (auto split: if_splits intro: less_SucI)
next
  case (subscribed r)
  have lt: "r < m_next s"
    using join subscribed fresh_ref joined by (metis empty_iff not_less pc_ref.simps(1))
  have only: "m_pc s w \<noteq> Subscribing r" if "w \<noteq> v" for w
    using own subscribed that one_owner by (metis pc_owns.simps(1))
  have none: "m_src s sid \<noteq> Some r" for sid
    using inv subscribed no_src by blast
  show ?thesis
    using inv none only lt unfolding inv_src_def subscribed(2) attach_subscribe_def set_pc_def
    by (auto simp: less_Suc_eq split: if_splits)
qed (auto intro!: inv_src_frame [OF inv]
       simp: mux_ops join_state_def part_state_def last_state_def split: if_splits option.splits)

lemma inv_src_step:
  assumes join: "inv_join s" and own: "inv_own s" and inv: "inv_src s"
    and step: "mux_step enc e s = Some s'"
  shows "inv_src s'"
  using step
proof (cases rule: mux_step_cases)
  case (go v outcome)
  then show ?thesis using join own inv inv_src_go by blast
qed (auto intro!: inv_src_frame [OF inv] simp: set_pc_def session_connect_def split: if_splits)

lemma inv_src_reach: "mux_reach enc s \<Longrightarrow> inv_src s"
proof (induction rule: mux_reach.induct)
  case mux_init
  then show ?case by (simp add: inv_src_def newSubMux_def)
next
  case (mux_next s e s')
  then show ?case using inv_join_reach inv_own_reach inv_src_step by blast
qed

text \<open>What the fields of a shared subscription say at each stage of the attempt.\<close>

fun stage_ok :: "session_pc \<Rightarrow> (nat \<Rightarrow> sharedSub) \<Rightarrow> bool" where
  "stage_ok (Subscribing r) h \<longleftrightarrow> ss_sub (h r) = None"
| "stage_ok (Storing r sub err) h \<longleftrightarrow> ss_sub (h r) = None \<and> (err = None \<longleftrightarrow> sub \<noteq> None)"
| "stage_ok (Publishing r err) h \<longleftrightarrow>
     ss_subErr (h r) = err \<and> (err = None \<longleftrightarrow> ss_sub (h r) \<noteq> None)"
| "stage_ok (Attached r) h \<longleftrightarrow> ss_ready (h r) \<and> ss_subErr (h r) = None"
| "stage_ok _ h \<longleftrightarrow> True"

lemma stage_ok_cong: "(\<And>r. pc_ref p = Some r \<Longrightarrow> h' r = h r) \<Longrightarrow> stage_ok p h' = stage_ok p h"
  by (cases p) auto

lemma stage_ok_keep:
  assumes "\<And>q. ss_sub (h' q) = ss_sub (h q)" "\<And>q. ss_subErr (h' q) = ss_subErr (h q)"
    "\<And>q. ss_ready (h' q) = ss_ready (h q)"
  shows "stage_ok p h' = stage_ok p h"
  by (cases p) (simp_all add: assms)

text \<open>Who neither made the attempt nor is attached only waits or leaves.\<close>

lemma stage_ok_idle: "pc_owns p = None \<Longrightarrow> (\<nexists>r. p = Attached r) \<Longrightarrow> stage_ok p h"
  by (cases p) auto

definition inv_stage :: "subMux \<Rightarrow> bool" where
  "inv_stage s \<longleftrightarrow>
     (\<forall>v. stage_ok (m_pc s v) (m_heap s)) \<and>
     (\<forall>r. ss_ready (m_heap s r) \<longrightarrow> ss_viewers (m_heap s r) \<noteq> {} \<longrightarrow>
        (ss_subErr (m_heap s r) = None \<longleftrightarrow> ss_sub (m_heap s r) \<noteq> None))"

lemma inv_stageD:
  assumes "inv_stage s"
  shows stage: "\<And>v. stage_ok (m_pc s v) (m_heap s)"
    and stage_ready: "\<And>r. ss_ready (m_heap s r) \<Longrightarrow> ss_viewers (m_heap s r) \<noteq> {} \<Longrightarrow>
        ss_subErr (m_heap s r) = None \<longleftrightarrow> ss_sub (m_heap s r) \<noteq> None"
  using assms unfolding inv_stage_def by blast+

lemma inv_stage_move:
  assumes inv: "inv_stage s" and heap: "m_heap s' = m_heap s"
    and others: "\<And>w. w \<noteq> v \<Longrightarrow> m_pc s' w = m_pc s w"
    and mine: "stage_ok (m_pc s' v) (m_heap s)"
  shows "inv_stage s'"
  using inv others mine unfolding inv_stage_def heap by metis

text \<open>Moving one session while it changes the shared subscription it belongs to.\<close>

lemma inv_stage_change:
  assumes inv: "inv_stage s" and heap: "m_heap s' = (m_heap s)(r := ss)"
    and others: "\<And>w. w \<noteq> v \<Longrightarrow> m_pc s' w = m_pc s w"
    and mine: "stage_ok (m_pc s' v) (m_heap s')"
    and same: "\<And>w. w \<noteq> v \<Longrightarrow> pc_ref (m_pc s w) = Some r \<Longrightarrow> stage_ok (m_pc s w) (m_heap s')"
    and ready: "ss_ready ss \<Longrightarrow> ss_viewers ss \<noteq> {} \<Longrightarrow> ss_subErr ss = None \<longleftrightarrow> ss_sub ss \<noteq> None"
  shows "inv_stage s'"
  unfolding inv_stage_def
proof (intro conjI allI)
  fix w
  show "stage_ok (m_pc s' w) (m_heap s')"
  proof (cases "w = v \<or> pc_ref (m_pc s w) = Some r")
    case True
    then show ?thesis using mine same others by metis
  next
    case False
    then have "stage_ok (m_pc s w) (m_heap s') = stage_ok (m_pc s w) (m_heap s)"
      by (intro stage_ok_cong) (auto simp: heap)
    with False show ?thesis using stage [OF inv] others by simp
  qed
next
  fix q
  show "ss_ready (m_heap s' q) \<longrightarrow> ss_viewers (m_heap s' q) \<noteq> {} \<longrightarrow>
        (ss_subErr (m_heap s' q) = None \<longleftrightarrow> ss_sub (m_heap s' q) \<noteq> None)"
    using ready stage_ready [OF inv, of q] by (simp add: heap)
qed

text \<open>While the attempt is under way, the others of its shared subscription wait or leave.\<close>

lemma stage_ok_others:
  assumes own: "inv_own s" and inv: "inv_stage s" and v: "pc_owns (m_pc s v) = Some r"
    and w: "w \<noteq> v" "pc_ref (m_pc s w) = Some r"
  shows "stage_ok (m_pc s w) h"
proof (rule stage_ok_idle)
  show "pc_owns (m_pc s w) = None"
    using own v w one_owner by (metis not_Some_eq option.inject pc_owns_ref)
  show "\<nexists>q. m_pc s w = Attached q"
    using owner_unready [OF own v] stage [OF inv, of w] w(2) by auto
qed

lemma inv_stage_go:
  assumes join: "inv_join s" and own: "inv_own s" and inv: "inv_stage s"
    and go: "go_step v outcome s = Some s'"
  shows "inv_stage s'"
  using join go
proof (cases rule: go_step_cases)
  case (join r)
  then have "ss_viewers (m_heap s r) \<noteq> {}"
    using \<open>inv_join s\<close> by (simp add: mapped)
  moreover have "stage_ok (m_pc s w) (m_heap s')" for w
    using stage [OF inv, of w] by (subst stage_ok_keep) (auto simp: join join_state_def mux_ops)
  ultimately show ?thesis
    using stage_ready [OF inv, of r] join
    by (intro inv_stage_change [OF inv, of s' r _ v]) (auto simp: join_state_def mux_ops)
next
  case first
  have "pc_ref (m_pc s w) \<noteq> Some (m_next s)" for w
    using \<open>inv_join s\<close> fresh_ref joined by (metis empty_iff order_refl)
  with first show ?thesis
    by (intro inv_stage_change [OF inv, of s' "m_next s" _ v])
      (auto simp: first_state_def mux_ops new_sharedSub_def)
next
  case (stored r sub err)
  then have "stage_ok (m_pc s w) h" if "w \<noteq> v" "pc_ref (m_pc s w) = Some r" for w h
    using stage_ok_others [OF own inv _ that] by simp
  with stage [OF inv, of v] stored owner_unready [OF own, of v r] show ?thesis
    by (intro inv_stage_change [OF inv, of s' r _ v]) (auto simp: mux_ops)
next
  case (published r err)
  then have "stage_ok (m_pc s w) h" if "w \<noteq> v" "pc_ref (m_pc s w) = Some r" for w h
    using stage_ok_others [OF own inv _ that] by simp
  with stage [OF inv, of v] published show ?thesis
    by (intro inv_stage_change [OF inv, of s' r _ v]) (auto simp: mux_ops)
next
  case (part r)
  have "stage_ok (m_pc s w) (m_heap s')" for w
    using stage [OF inv, of w] by (subst stage_ok_keep) (auto simp: part part_state_def mux_ops)
  moreover have "ss_viewers (m_heap s r) \<noteq> {}"
    using part by blast
  ultimately show ?thesis
    using stage_ready [OF inv, of r] part
    by (intro inv_stage_change [OF inv, of s' r _ v]) (auto simp: part_state_def mux_ops)
next
  case (last r)
  then have "pc_ref (m_pc s w) \<noteq> Some r" if "w \<noteq> v" for w
    using joined [OF \<open>inv_join s\<close>, of w r] that by simp
  with last show ?thesis
    by (intro inv_stage_change [OF inv, of s' r _ v]) (auto simp: last_state_def mux_ops)
qed ((rule inv_stage_move [OF inv, of s' v];
      use stage [OF inv, of v] in \<open>auto simp: mux_ops split: option.splits\<close>)+)

lemma inv_stage_step:
  assumes join: "inv_join s" and own: "inv_own s" and inv: "inv_stage s"
    and step: "mux_step enc e s = Some s'"
  shows "inv_stage s'"
  using step
proof (cases rule: mux_step_cases)
  case (connect k t)
  then show ?thesis
    by (intro inv_stage_move [OF inv, of s' "m_nviewers s"]) (auto simp: session_connect_def)
next
  case (go v outcome)
  then show ?thesis using join own inv inv_stage_go by blast
next
  case (leave v r)
  then show ?thesis by (intro inv_stage_move [OF inv, of s' v]) (auto simp: set_pc_def)
next
  case other
  then show ?thesis using inv by (simp add: inv_stage_def)
qed

lemma inv_stage_reach: "mux_reach enc s \<Longrightarrow> inv_stage s"
proof (induction rule: mux_reach.induct)
  case mux_init
  then show ?case by (simp add: inv_stage_def newSubMux_def new_sharedSub_def)
next
  case (mux_next s e s')
  then show ?case using inv_join_reach inv_own_reach inv_stage_step by blast
qed

text \<open>
  Where a subscription can be: in a shared subscription, or in a variable of a goroutine that is about
  to store it or to unsubscribe it.
\<close>

datatype sub_place = InShared nat | InHand nat

definition sub_at :: "subMux \<Rightarrow> sub_place \<Rightarrow> nat option" where
  "sub_at s p = (case p of InShared r \<Rightarrow> ss_sub (m_heap s r) | InHand v \<Rightarrow> pc_holds (m_pc s v))"

text \<open>Every element of \<open>L\<close> is in exactly one place, and nothing else is in any.\<close>

definition placed :: "('p \<Rightarrow> 'a option) \<Rightarrow> 'a set \<Rightarrow> bool" where
  "placed at L \<longleftrightarrow> ran at = L \<and> (\<forall>p q x. at p = Some x \<longrightarrow> at q = Some x \<longrightarrow> p = q)"

lemma placed_move:
  assumes placed: "placed at L" and q: "at q = None" and p: "at p = x" "p \<noteq> q"
  shows "placed (at(p := None, q := x)) L" (is "placed ?at L")
proof -
  have "(\<exists>a. ?at a = Some b) \<longleftrightarrow> (\<exists>a. at a = Some b)" for b
  proof
    assume "\<exists>a. ?at a = Some b"
    then show "\<exists>a. at a = Some b"
      using p(1) by (metis fun_upd_apply option.distinct(1))
  next
    assume "\<exists>a. at a = Some b"
    then obtain a where "at a = Some b" ..
    then have "?at (if a = p then q else a) = Some b"
      using p q by auto
    then show "\<exists>a. ?at a = Some b" ..
  qed
  then have "ran ?at = ran at"
    by (simp add: ran_def)
  then show ?thesis
    using placed p unfolding placed_def by (auto split: if_splits)
qed

lemma placed_new:
  assumes "placed at L" "at p = None" "x \<notin> L"
  shows "placed (at(p := Some x)) (insert x L)"
proof -
  have "ran (at(p := Some x)) = insert x (ran at)"
    using assms(2) by (rule ran_map_upd)
  moreover have "at q \<noteq> Some x" for q
    using assms by (auto simp: placed_def ran_def)
  ultimately show ?thesis
    using assms unfolding placed_def by (auto split: if_splits)
qed

lemma placed_drop:
  assumes placed: "placed at L" and p: "at p = Some x"
  shows "placed (at(p := None)) (L - {x})"
proof -
  have "(\<exists>a. (at(p := None)) a = Some b) \<longleftrightarrow> (\<exists>a. at a = Some b) \<and> b \<noteq> x" for b
    using placed p unfolding placed_def by (metis fun_upd_apply option.distinct(1) option.inject)
  then have "ran (at(p := None)) = ran at - {x}"
    by (auto simp: ran_def)
  then show ?thesis
    using placed unfolding placed_def by (auto split: if_splits)
qed

lemma placed_ex1: "placed at L \<Longrightarrow> x \<in> L \<longleftrightarrow> (\<exists>!p. at p = Some x)"
  unfolding placed_def ran_def by blast

definition inv_live :: "subMux \<Rightarrow> bool" where
  "inv_live s \<longleftrightarrow> placed (sub_at s) (m_live s) \<and> (\<forall>sid \<in> m_live s. sid < m_nsubs s)"

lemma inv_live_frame:
  "inv_live s \<Longrightarrow> sub_at s' = sub_at s \<Longrightarrow> m_live s' = m_live s \<Longrightarrow> m_nsubs s' = m_nsubs s \<Longrightarrow> inv_live s'"
  by (simp add: inv_live_def)

lemma sub_at_eq:
  assumes "\<And>r. ss_sub (m_heap s' r) = at (InShared r)" "\<And>v. pc_holds (m_pc s' v) = at (InHand v)"
  shows "sub_at s' = at"
  using assms by (auto simp: sub_at_def split: sub_place.splits)

lemma sub_at_simps [simp]:
  "sub_at s (InShared r) = ss_sub (m_heap s r)"
  "sub_at s (InHand v) = pc_holds (m_pc s v)"
  by (simp_all add: sub_at_def)

text \<open>What a shared subscription stores was made for it, and goes when its last viewer goes.\<close>

definition inv_home :: "subMux \<Rightarrow> bool" where
  "inv_home s \<longleftrightarrow>
     (\<forall>r sid. ss_sub (m_heap s r) = Some sid \<longrightarrow>
        m_src s sid = Some r \<and> ss_viewers (m_heap s r) \<noteq> {}) \<and>
     (\<forall>v r sid err. m_pc s v = Storing r (Some sid) err \<longrightarrow> m_src s sid = Some r)"

lemma inv_homeD:
  assumes "inv_home s"
  shows home: "\<And>r sid. ss_sub (m_heap s r) = Some sid \<Longrightarrow>
        m_src s sid = Some r \<and> ss_viewers (m_heap s r) \<noteq> {}"
    and home_storing: "\<And>v r sid err. m_pc s v = Storing r (Some sid) err \<Longrightarrow> m_src s sid = Some r"
  using assms unfolding inv_home_def by blast+

lemma inv_home_frame:
  assumes inv: "inv_home s" and "m_src s' = m_src s"
    and "\<And>r. ss_sub (m_heap s' r) = ss_sub (m_heap s r)"
    and pc: "\<And>v r sid err. m_pc s' v = Storing r (Some sid) err \<Longrightarrow> m_pc s v = Storing r (Some sid) err"
    and ne: "\<And>r. ss_viewers (m_heap s r) \<noteq> {} \<Longrightarrow> ss_viewers (m_heap s' r) \<noteq> {}"
  shows "inv_home s'"
  using inv pc ne unfolding inv_home_def assms(2,3) by blast

lemma inv_home_go:
  assumes join: "inv_join s" and src: "inv_src s" and inv: "inv_home s"
    and go: "go_step v outcome s = Some s'"
  shows "inv_home s'"
  using join go
proof (cases rule: go_step_cases)
  case first
  have "ss_sub (m_heap s (m_next s)) = None"
    using home [OF inv] fresh_ref [OF join] by (metis not_None_eq order_refl)
  with first show ?thesis
    by (intro inv_home_frame [OF inv])
      (auto simp: first_state_def set_pc_def new_sharedSub_def fresh_ref [OF join] split: if_splits)
next
  case (subscribed r)
  have "m_src s (m_nsubs s) = None"
    using src src_lt by (metis less_irrefl option.exhaust)
  then have "m_pc s w \<noteq> Storing q (Some (m_nsubs s)) err" for w q err
    using home_storing [OF inv] by (metis option.distinct(1))
  moreover have "ss_sub (m_heap s q) \<noteq> Some (m_nsubs s)" for q
    using \<open>m_src s (m_nsubs s) = None\<close> home [OF inv] by (metis option.distinct(1))
  ultimately show ?thesis
    using inv unfolding inv_home_def subscribed(2) attach_subscribe_def set_pc_def
    by (auto split: if_splits)
next
  case (stored r sub err)
  then have "v \<in> ss_viewers (m_heap s r)"
    using join joined by simp
  moreover have "\<And>sid. sub = Some sid \<Longrightarrow> m_src s sid = Some r"
    using stored home_storing [OF inv] by blast
  ultimately show ?thesis
    using inv unfolding inv_home_def stored(2) attach_store_def set_pc_def upd_ss_def
    by (auto split: if_splits)
next
  case (last r)
  then show ?thesis
    using inv unfolding inv_home_def last(3) last_state_def set_pc_def by (auto split: if_splits)
qed (auto intro!: inv_home_frame [OF inv]
       simp: mux_ops join_state_def part_state_def split: if_splits option.splits)

lemma inv_live_go:
  assumes join: "inv_join s" and stage: "inv_stage s" and home: "inv_home s"
    and inv: "inv_live s" and go: "go_step v outcome s = Some s'"
  shows "inv_live s'"
  using join go
proof (cases rule: go_step_cases)
  case first
  have "ss_sub (m_heap s (m_next s)) = None"
    using inv_homeD(1) [OF home] fresh_ref [OF join] by (metis not_None_eq order_refl)
  with first show ?thesis
    by (intro inv_live_frame [OF inv] sub_at_eq)
      (auto simp: first_state_def set_pc_def new_sharedSub_def)
next
  case (subscribed r)
  have "sub_at s' = (sub_at s)(InHand v := Some (m_nsubs s))"
    by (rule sub_at_eq) (auto simp: subscribed mux_ops)
  with inv subscribed show ?thesis
    unfolding inv_live_def
    by (auto simp: attach_subscribe_def set_pc_def less_Suc_eq intro!: placed_new)
next
  case (stored r sub err)
  have none: "ss_sub (m_heap s r) = None"
    using inv_stageD(1) [OF stage, of v] stored by simp
  have "sub_at s' = (sub_at s)(InHand v := None, InShared r := sub)"
    by (rule sub_at_eq) (auto simp: stored mux_ops)
  with inv none stored show ?thesis
    unfolding inv_live_def by (auto simp: mux_ops intro!: placed_move)
next
  case (last r)
  have "sub_at s' = (sub_at s)(InShared r := None, InHand v := ss_sub (m_heap s r))"
    by (rule sub_at_eq) (auto simp: last last_state_def mux_ops)
  with inv last show ?thesis
    unfolding inv_live_def by (auto simp: last_state_def mux_ops intro!: placed_move)
next
  case (unsubscribed sub)
  have "sub_at s' = (sub_at s)(InHand v := None)"
    by (rule sub_at_eq) (auto simp: unsubscribed mux_ops split: option.splits)
  with inv unsubscribed show ?thesis
    unfolding inv_live_def
    by (cases sub) (auto simp: mux_ops fun_upd_idem intro!: placed_drop)
qed (auto intro!: inv_live_frame [OF inv] sub_at_eq
       simp: mux_ops join_state_def part_state_def split: if_splits option.splits)

lemma inv_home_live_reach: "mux_reach enc s \<Longrightarrow> inv_home s \<and> inv_live s"
proof (induction rule: mux_reach.induct)
  case mux_init
  have "sub_at newSubMux = (\<lambda>_. None)"
    by (rule sub_at_eq) (simp_all add: newSubMux_def new_sharedSub_def)
  then show ?case
    by (simp add: inv_home_def inv_live_def placed_def newSubMux_def new_sharedSub_def ran_def)
next
  case (mux_next s e s')
  then have home: "inv_home s" and live: "inv_live s" and join: "inv_join s" and src: "inv_src s"
      and stage: "inv_stage s"
    using inv_join_reach inv_src_reach inv_stage_reach by blast+
  from mux_next(2) show ?case
  proof (cases rule: mux_step_cases)
    case (connect k t)
    then have "m_pc s (m_nviewers s) = Finished"
      using join by (simp add: fresh_viewer)
    with connect show ?thesis
      by (auto intro!: inv_home_frame [OF home] inv_live_frame [OF live] sub_at_eq
          simp: session_connect_def split: if_splits)
  next
    case (go v outcome)
    then show ?thesis
      using inv_home_go [OF join src home] inv_live_go [OF join stage home live] by blast
  qed (auto intro!: inv_home_frame [OF home] inv_live_frame [OF live] sub_at_eq
         simp: set_pc_def split: if_splits)
qed

section \<open>Progress\<close>

text \<open>A bound on the steps a session still makes inside \<^verbatim>\<open>attach\<close> and \<^verbatim>\<open>detach\<close>.\<close>

fun pc_rank :: "session_pc \<Rightarrow> nat" where
  "pc_rank Entering = 7"
| "pc_rank (Subscribing r) = 6"
| "pc_rank (Storing r sub err) = 5"
| "pc_rank (Publishing r err) = 4"
| "pc_rank (Waiting r) = 4"
| "pc_rank (Detaching r) = 3"
| "pc_rank (Stopping sub) = 2"
| "pc_rank (Unsubscribing sub) = 1"
| "pc_rank (Attached r) = 0"
| "pc_rank Finished = 0"

lemma pc_rank_le: "pc_rank p \<le> 7"
  by (cases p) auto

definition mux_rank :: "subMux \<Rightarrow> nat" where
  "mux_rank s = (\<Sum>v < m_nviewers s. pc_rank (m_pc s v))"

lemma go_step_pc:
  assumes inv: "inv_join s" and go: "go_step v outcome s = Some s'"
  shows "m_nviewers s' = m_nviewers s \<and> v < m_nviewers s \<and> pc_rank (m_pc s' v) < pc_rank (m_pc s v) \<and>
    (\<forall>w. w \<noteq> v \<longrightarrow> m_pc s' w = m_pc s w)"
proof -
  have "m_pc s v \<noteq> Finished"
    using go by (auto simp: go_step_def)
  then have "v < m_nviewers s"
    by (rule live_viewer [OF inv])
  with inv go show ?thesis
    by (cases rule: go_step_cases)
      (auto simp: join_state_def first_state_def part_state_def last_state_def mux_ops
         split: option.splits)
qed

lemma go_step_rank:
  assumes inv: "inv_join s" and go: "go_step v outcome s = Some s'"
  shows "mux_rank s' < mux_rank s"
  using go_step_pc [OF inv go] unfolding mux_rank_def
  by (auto intro!: sum_strict_mono_ex1) (metis less_imp_le order_refl)

lemma go_run_rank: "go_run n s s' \<Longrightarrow> inv_join s \<Longrightarrow> n + mux_rank s' \<le> mux_rank s"
proof (induction rule: go_run.induct)
  case (go_more v outcome s s' n s'')
  then have "mux_rank s' < mux_rank s" "inv_join s'"
    using go_step_rank inv_join_go by blast+
  with go_more.IH show ?case by simp
qed simp

lemma go_run_reach: "go_run n s s' \<Longrightarrow> \<not> m_panic s \<Longrightarrow> mux_reach enc s \<Longrightarrow> mux_reach enc s' \<and> \<not> m_panic s'"
proof (induction rule: go_run.induct)
  case (go_more v outcome s s' n s'')
  have "mux_reach enc s'"
    by (rule mux_next [OF go_more.prems(2), of "Go v outcome"])
      (use go_more in \<open>simp add: mux_step_def\<close>)
  moreover have "m_panic s' = m_panic s"
    using inv_join_reach [OF go_more.prems(2)] go_more(1)
    by (cases rule: go_step_cases)
      (auto simp: join_state_def first_state_def part_state_def last_state_def mux_ops
         split: option.splits)
  ultimately show ?case using go_more by simp
qed simp

text \<open>Whoever is inside \<^verbatim>\<open>attach\<close> or \<^verbatim>\<open>detach\<close>, some session can move.\<close>

lemma go_enabled:
  assumes join: "inv_join s" and own: "inv_own s" and pc: "pc_rank (m_pc s v) \<noteq> 0"
  shows "\<exists>w. \<forall>outcome. go_step w outcome s \<noteq> None"
proof (cases "\<exists>r. m_pc s v = Waiting r \<and> \<not> ss_ready (m_heap s r)")
  case True
  then obtain r where r: "m_pc s v = Waiting r" "\<not> ss_ready (m_heap s r)" by blast
  then have "v \<in> ss_viewers (m_heap s r)"
    using joined [OF join] by simp
  then obtain w where "pc_owns (m_pc s w) = Some r"
    using unready_owner [OF own _ r(2)] by blast
  then have "\<forall>outcome. go_step w outcome s \<noteq> None"
    by (cases "m_pc s w") (auto simp: go_step_def)
  then show ?thesis by blast
next
  case False
  then have "\<forall>outcome. go_step v outcome s \<noteq> None"
    using pc by (cases "m_pc s v") (auto simp: go_step_def attach_wait_def)
  then show ?thesis by blast
qed

section \<open>What a viewer is sent\<close>

lemma fan_truncate_bound:
  assumes "0 \<le> t" "x \<in> insert t (set xs)" "0 < x"
  shows "0 < fan_truncate t xs \<and> fan_truncate t xs \<le> x"
  using assms
proof (induction xs arbitrary: t x)
  case (Cons y ys)
  let ?t = "if y > 0 \<and> (t = 0 \<or> y < t) then y else t"
  consider "x \<in> set ys" | "x = t" "0 < ?t" "?t \<le> x" | "x = y" "0 < ?t" "?t \<le> x"
    using Cons.prems by (cases "x \<in> set ys") (auto split: if_splits)
  then show ?case
  proof cases
    case 1
    then show ?thesis
      using Cons.IH [of ?t x] Cons.prems by simp
  qed (use Cons.IH [of ?t ?t] Cons.prems in auto)
qed auto

lemma truncate_payload_bound: "0 < t \<Longrightarrow> int (length (nm_data (truncate_payload t msg))) \<le> t"
  by (simp add: truncate_payload_def)

text \<open>
  A frame that is right for a viewer: it came from a subscription of the key the viewer asked for, and
  its payload is no longer than the viewer's limit.
\<close>

definition frame_for :: "subMux \<Rightarrow> nat \<Rightarrow> outboundMsg \<Rightarrow> bool" where
  "frame_for s v f \<longleftrightarrow>
     (\<exists>r. m_src s (om_sid f) = Some r \<and> r < m_next s \<and>
          ss_key (m_heap s r) = mv_key (m_viewers s v)) \<and>
     (0 < mv_truncate (m_viewers s v) \<longrightarrow>
        int (length (nm_data (om_msg f))) \<le> mv_truncate (m_viewers s v))"

fun fan_targets :: "fan_pc \<Rightarrow> (outboundMsg \<times> nat) set" where
  "fan_targets FanIdle = {}"
| "fan_targets (FanSending f vs) = {f} \<times> set vs"
| "fan_targets (FanChecked f v vs) = {f} \<times> set (v # vs)"

definition inv_frames :: "subMux \<Rightarrow> bool" where
  "inv_frames s \<longleftrightarrow>
     (\<forall>v < m_nviewers s. length (mv_out (m_viewers s v)) \<le> viewerOutboundBuffer \<and>
        (\<forall>f \<in> set (mv_out (m_viewers s v)) \<union> set (mv_written (m_viewers s v)). frame_for s v f)) \<and>
     (\<forall>sid f v. (f, v) \<in> fan_targets (m_fan s sid) \<longrightarrow> v < m_nviewers s \<and> frame_for s v f)"

lemma inv_framesD:
  assumes "inv_frames s"
  shows out_bound: "\<And>v. v < m_nviewers s \<Longrightarrow> length (mv_out (m_viewers s v)) \<le> viewerOutboundBuffer"
    and out_frames: "\<And>v f. v < m_nviewers s \<Longrightarrow>
        f \<in> set (mv_out (m_viewers s v)) \<union> set (mv_written (m_viewers s v)) \<Longrightarrow> frame_for s v f"
    and fan_frames: "\<And>sid f v. (f, v) \<in> fan_targets (m_fan s sid) \<Longrightarrow>
        v < m_nviewers s \<and> frame_for s v f"
  using assms unfolding inv_frames_def by blast+

text \<open>Being right for a viewer is stable.\<close>

definition frames_kept :: "subMux \<Rightarrow> subMux \<Rightarrow> bool" where
  "frames_kept s s' \<longleftrightarrow>
     m_next s \<le> m_next s' \<and> m_nviewers s \<le> m_nviewers s' \<and>
     (\<forall>r < m_next s. ss_key (m_heap s' r) = ss_key (m_heap s r)) \<and>
     (\<forall>sid. m_src s sid \<noteq> None \<longrightarrow> m_src s' sid = m_src s sid) \<and>
     (\<forall>v < m_nviewers s. mv_key (m_viewers s' v) = mv_key (m_viewers s v) \<and>
        mv_truncate (m_viewers s' v) = mv_truncate (m_viewers s v))"

lemma frame_for_kept:
  assumes kept: "frames_kept s s'" and v: "v < m_nviewers s" and ok: "frame_for s v f"
  shows "frame_for s' v f"
proof -
  obtain r where r: "m_src s (om_sid f) = Some r" "r < m_next s"
      "ss_key (m_heap s r) = mv_key (m_viewers s v)"
    using ok unfolding frame_for_def by blast
  then have "m_src s' (om_sid f) = Some r" "r < m_next s'"
      "ss_key (m_heap s' r) = mv_key (m_viewers s' v)"
    using kept v unfolding frames_kept_def by auto
  then show ?thesis
    using ok kept v unfolding frame_for_def frames_kept_def by metis
qed

text \<open>Steps that neither send nor take a frame.\<close>

lemma inv_frames_kept:
  assumes inv: "inv_frames s" and kept: "frames_kept s s'" and fan: "m_fan s' = m_fan s"
    and old: "\<And>v. v < m_nviewers s \<Longrightarrow> mv_out (m_viewers s' v) = mv_out (m_viewers s v) \<and>
        mv_written (m_viewers s' v) = mv_written (m_viewers s v)"
    and new: "\<And>v. v < m_nviewers s' \<Longrightarrow> \<not> v < m_nviewers s \<Longrightarrow>
        mv_out (m_viewers s' v) = [] \<and> mv_written (m_viewers s' v) = []"
  shows "inv_frames s'"
  unfolding inv_frames_def
proof (intro conjI allI impI)
  fix v assume v: "v < m_nviewers s'"
  show "length (mv_out (m_viewers s' v)) \<le> viewerOutboundBuffer"
    using out_bound [OF inv, of v] old [of v] new [OF v] by (cases "v < m_nviewers s") auto
  show "\<forall>f \<in> set (mv_out (m_viewers s' v)) \<union> set (mv_written (m_viewers s' v)). frame_for s' v f"
    using out_frames [OF inv, of v] old [of v] new [OF v] frame_for_kept [OF kept, of v]
    by (cases "v < m_nviewers s") auto
next
  fix sid f v assume "(f, v) \<in> fan_targets (m_fan s' sid)"
  then have "v < m_nviewers s" "frame_for s v f"
    using fan_frames [OF inv, of f v sid] by (auto simp: fan)
  then show "v < m_nviewers s'" "frame_for s' v f"
    using frame_for_kept [OF kept] kept by (auto simp: frames_kept_def)
qed

lemma go_step_kept:
  assumes join: "inv_join s" and src: "inv_src s" and go: "go_step v outcome s = Some s'"
  shows "frames_kept s s' \<and> m_fan s' = m_fan s \<and> m_nviewers s' = m_nviewers s \<and>
    (\<forall>v. mv_out (m_viewers s' v) = mv_out (m_viewers s v) \<and>
         mv_written (m_viewers s' v) = mv_written (m_viewers s v))"
proof -
  have "m_src s (m_nsubs s) = None"
    using src src_lt by (metis less_irrefl option.exhaust)
  with join go show ?thesis
    unfolding frames_kept_def
    by (cases rule: go_step_cases)
      (auto simp: join_state_def first_state_def part_state_def last_state_def mux_ops
         split: option.splits)
qed

text \<open>The fan-out itself.\<close>

lemma fanout_begin_frame:
  assumes join: "inv_join s" and src: "m_src s sid = Some r" "r < m_next s"
    and v: "v \<in> set vs" "set vs = fan_selected s r"
  defines "t \<equiv> fan_truncate 0 (map (\<lambda>v. mv_truncate (m_viewers s v)) vs)"
  shows "frame_for s v \<lparr>om_frame = b, om_sid = sid, om_msg = truncate_payload t msg\<rparr>"
proof -
  have "v \<in> ss_viewers (m_heap s r)"
    using v by (simp add: fan_selected_def)
  then have "mv_key (m_viewers s v) = ss_key (m_heap s r)"
    using joined [OF join] joined_key [OF join] by blast
  moreover have "0 < t \<and> t \<le> mv_truncate (m_viewers s v)" if "0 < mv_truncate (m_viewers s v)"
    unfolding t_def using that v(1) by (intro fan_truncate_bound) auto
  ultimately show ?thesis
    using src truncate_payload_bound [of t msg] by (fastforce simp: frame_for_def)
qed

lemma inv_frames_fan:
  assumes inv: "inv_frames s" and s': "s' = s\<lparr>m_fan := (m_fan s)(sid := p)\<rparr>"
    and p: "\<And>f v. (f, v) \<in> fan_targets p \<Longrightarrow> v < m_nviewers s \<and> frame_for s v f"
  shows "inv_frames s'"
proof -
  have "frame_for s' v f = frame_for s v f" for v f
    by (simp add: frame_for_def s')
  then show ?thesis
    using inv p unfolding inv_frames_def by (auto simp: s')
qed

lemma inv_frames_viewer:
  assumes inv: "inv_frames s"
    and keep: "mv_key (g x) = mv_key x" "mv_truncate (g x) = mv_truncate x"
    and x: "x = m_viewers s v"
    and out: "v < m_nviewers s \<Longrightarrow> length (mv_out (g x)) \<le> viewerOutboundBuffer"
    and sub: "\<And>f. v < m_nviewers s \<Longrightarrow> f \<in> set (mv_out (g x)) \<union> set (mv_written (g x)) \<Longrightarrow> frame_for s v f"
  shows "inv_frames (upd_viewer v g s)"
proof -
  have "frame_for (upd_viewer v g s) u f = frame_for s u f" for u f
    using keep by (simp add: frame_for_def upd_viewer_def x)
  then show ?thesis
    using inv out sub unfolding inv_frames_def by (auto simp: upd_viewer_def x)
qed

lemma inv_frames_send:
  assumes inv: "inv_frames s" and send: "fanout_send sid s = Some s'"
  shows "inv_frames s'"
proof -
  obtain f v vs where fan: "m_fan s sid = FanChecked f v vs"
    using send by (auto simp: fanout_send_def split: fan_pc.splits)
  define s1 where "s1 = s\<lparr>m_fan := (m_fan s)(sid := FanSending f vs)\<rparr>"
  have v: "v < m_nviewers s" "frame_for s v f"
    using fan_frames [OF inv, of f v sid] by (auto simp: fan)
  have inv1: "inv_frames s1"
    by (rule inv_frames_fan [OF inv s1_def]) (use fan_frames [OF inv, of _ _ sid] fan in auto)
  have f1: "frame_for s1 v f"
    using v by (simp add: s1_def frame_for_def)
  consider (panic) "s' = s\<lparr>m_panic := True\<rparr>" | (full) "s' = s1"
    | (sent) "length (mv_out (m_viewers s v)) < viewerOutboundBuffer"
        "s' = upd_viewer v (\<lambda>x. x\<lparr>mv_out := mv_out x @ [f]\<rparr>) s1"
    using send by (auto simp: fanout_send_def fan s1_def Let_def split: if_splits)
  then show ?thesis
  proof cases
    case panic
    then show ?thesis using inv by (simp add: inv_frames_def frame_for_def)
  next
    case full
    then show ?thesis using inv1 by simp
  next
    case sent
    then show ?thesis
      unfolding sent(2)
      by (intro inv_frames_viewer [OF inv1 _ _ refl])
        (use out_frames [OF inv1, of v] f1 in \<open>auto simp: s1_def\<close>)
  qed
qed

lemma inv_frames_write:
  assumes inv: "inv_frames s" and wr: "writeLoop_step v s = Some s'"
  shows "inv_frames s'"
proof -
  obtain f rest where out: "mv_out (m_viewers s v) = f # rest"
    using wr by (auto simp: writeLoop_step_def split: list.splits)
  have s': "s' = upd_viewer v (\<lambda>x. x\<lparr>mv_out := rest,
      mv_written := mv_written x @ (if mv_closed x then [] else [f])\<rparr>) s"
    using wr by (simp add: writeLoop_step_def out)
  show ?thesis
    unfolding s'
    by (intro inv_frames_viewer [OF inv _ _ refl])
      (use out out_bound [OF inv, of v] out_frames [OF inv, of v] in \<open>auto split: if_splits\<close>)
qed

lemma inv_frames_message:
  assumes inv: "inv_frames s" and join: "inv_join s" and src: "inv_src s"
    and msg: "fanout_begin enc sid msg vs s = Some s'"
  shows "inv_frames s'"
proof -
  obtain r where r: "m_src s sid = Some r" and vs: "set vs = fan_selected s r"
    using msg by (auto simp: fanout_begin_def split: option.splits if_splits)
  have "v < m_nviewers s" if "v \<in> set vs" for v
    using that live_viewer [OF join, of v] joined [OF join, of v r] by (force simp: vs fan_selected_def)
  then show ?thesis
    using msg r src_lt [OF src r] fanout_begin_frame [OF join r _ _ vs]
    by (intro inv_frames_fan [OF inv])
      (auto simp: fanout_begin_def Let_def split: if_splits)
qed

lemma inv_frames_step:
  assumes inv: "inv_frames s" and join: "inv_join s" and src: "inv_src s"
    and step: "mux_step enc e s = Some s'"
  shows "inv_frames s'"
proof (cases e)
  case (Connect k t)
  then have s': "s' = session_connect k t s"
    using step by (simp add: mux_step_def split: if_splits)
  show ?thesis
    unfolding s'
    by (intro inv_frames_kept [OF inv])
      (auto simp: session_connect_def frames_kept_def newMuxViewer_def less_Suc_eq)
next
  case (CloseSession v)
  then have s': "s' = upd_viewer v (\<lambda>x. x\<lparr>mv_closed := True\<rparr>) s"
    using step by (simp add: mux_step_def split: if_splits)
  show ?thesis
    unfolding s' by (intro inv_frames_viewer [OF inv _ _ refl])
      (use out_bound [OF inv] out_frames [OF inv] in auto)
next
  case (SetPaused v b)
  then have s': "s' = upd_viewer v (\<lambda>x. x\<lparr>mv_paused := b\<rparr>) s"
    using step by (simp add: mux_step_def split: if_splits)
  show ?thesis
    unfolding s' by (intro inv_frames_viewer [OF inv _ _ refl])
      (use out_bound [OF inv] out_frames [OF inv] in auto)
next
  case (Leave v)
  then obtain r where s': "s' = set_pc v (Detaching r) s"
    using step by (auto simp: mux_step_def split: if_splits session_pc.splits)
  show ?thesis
    unfolding s' by (intro inv_frames_kept [OF inv]) (auto simp: set_pc_def frames_kept_def)
next
  case (Go v outcome)
  then have "go_step v outcome s = Some s'"
    using step by (simp add: mux_step_def split: if_splits)
  from go_step_kept [OF join src this] show ?thesis
    by (intro inv_frames_kept [OF inv]) auto
next
  case (FanCheck sid)
  then obtain f vs p where "m_fan s sid = FanSending f vs"
      "s' = s\<lparr>m_fan := (m_fan s)(sid := p)\<rparr>" "fan_targets p \<subseteq> fan_targets (FanSending f vs)"
    using step by (fastforce simp: mux_step_def fanout_check_def
        split: if_splits fan_pc.splits list.splits)
  then show ?thesis
    using fan_frames [OF inv, of _ _ sid] by (intro inv_frames_fan [OF inv]) auto
qed (use step in \<open>auto simp: mux_step_def split: if_splits
       intro: inv_frames_send [OF inv] inv_frames_write [OF inv] inv_frames_message [OF inv join src]\<close>)

lemma inv_frames_reach: "mux_reach enc s \<Longrightarrow> inv_frames s"
proof (induction rule: mux_reach.induct)
  case mux_init
  then show ?case by (simp add: inv_frames_def newSubMux_def)
next
  case (mux_next s e s')
  then show ?case using inv_frames_step inv_join_reach inv_src_reach by blast
qed

section \<open>Properties\<close>

fun mux_run :: "(NatsMsg \<Rightarrow> string) \<Rightarrow> mux_event list \<Rightarrow> subMux \<Rightarrow> subMux option" where
  "mux_run enc [] s = Some s"
| "mux_run enc (e # es) s = (case mux_step enc e s of None \<Rightarrow> None | Some s' \<Rightarrow> mux_run enc es s')"

lemma mux_run_reach: "mux_reach enc s \<Longrightarrow> mux_run enc es s = Some s' \<Longrightarrow> mux_reach enc s'"
  by (induction es arbitrary: s) (auto split: option.splits intro: mux_next)

lemma mux_run_append:
  "mux_run enc (es @ fs) s = (case mux_run enc es s of None \<Rightarrow> None | Some s' \<Rightarrow> mux_run enc fs s')"
  by (induction es arbitrary: s) (auto split: option.splits)

lemma attached_mapped:
  assumes join: "inv_join s" and att: "m_pc s v = Attached r"
  shows "v \<in> ss_viewers (m_heap s r) \<and> m_subs s (mv_key (m_viewers s v)) = Some r"
proof -
  have "v \<in> ss_viewers (m_heap s r)"
    using joined [OF join] att by simp
  then show ?thesis
    using mapped [OF join] joined_key [OF join, of v r] att by auto
qed

text \<open>Example runs: two sessions on one stream, and a message for them.\<close>

definition ex_key :: muxKey where
  "ex_key = \<lparr>mk_cluster = ''c'', mk_stream = ''ORDERS'', mk_filter = [], mk_fromSeq = 0\<rparr>"

definition ex_msg :: NatsMsg where
  "ex_msg = \<lparr>nm_seq = 7, nm_subject = ''orders.new'', nm_data = ''hello''\<rparr>"

definition ex_events :: "mux_event list" where
  "ex_events =
     [Connect ex_key 0, Connect ex_key 3, Go 0 None, Go 1 None, Go 0 None, Go 0 None, Go 0 None,
      Go 1 None]"

definition mux_after :: "mux_event list \<Rightarrow> subMux \<Rightarrow> subMux" where
  "mux_after es s = (case mux_run nm_data es s of Some s' \<Rightarrow> s' | None \<Rightarrow> s)"

lemma mux_after_reach: "mux_reach nm_data s \<Longrightarrow> mux_reach nm_data (mux_after es s)"
  unfolding mux_after_def by (auto split: option.split intro: mux_run_reach)

definition ex_mux :: subMux where
  "ex_mux = mux_after ex_events newSubMux"

lemma ex_mux_reach: "mux_reach nm_data ex_mux"
  unfolding ex_mux_def by (intro mux_after_reach mux_init)

lemma ex_mux_state:
  "m_pc ex_mux 0 = Attached 0 \<and> m_pc ex_mux 1 = Attached 0 \<and> m_nviewers ex_mux = 2 \<and>
   \<not> m_panic ex_mux \<and> m_live ex_mux = {0}"
  by code_simp

text \<open>C6: No subscription is lost or leaked.  At every moment every live subscription of the library is in
  exactly one place: stored in the shared subscription it was made for, which has viewers, or in the
  hand of the one goroutine that will store or unsubscribe it.  When no session is inside attach or
  detach, the live subscriptions are those of the map, at most one for a key, and each has a
  viewer that is attached.\<close>

theorem no_subscription_leak:
  assumes reach: "mux_reach enc s"
  shows "(\<forall>sid. sid \<in> m_live s \<longleftrightarrow> (\<exists>!p. sub_at s p = Some sid)) \<and>
    (\<forall>r sid. ss_sub (m_heap s r) = Some sid \<longrightarrow>
       m_src s sid = Some r \<and> ss_viewers (m_heap s r) \<noteq> {}) \<and>
    ((\<forall>v. pc_rank (m_pc s v) = 0) \<longrightarrow>
       (\<forall>sid \<in> m_live s. \<exists>k r v. m_subs s k = Some r \<and> ss_sub (m_heap s r) = Some sid \<and>
          m_pc s v = Attached r \<and> mv_key (m_viewers s v) = k))"
proof (intro conjI impI ballI)
  have home: "inv_home s" and live: "inv_live s"
    using inv_home_live_reach [OF reach] by blast+
  show placed: "\<forall>sid. sid \<in> m_live s \<longleftrightarrow> (\<exists>!p. sub_at s p = Some sid)"
    using live unfolding inv_live_def by (simp add: placed_ex1 [of "sub_at s" "m_live s"])
  show "\<forall>r sid. ss_sub (m_heap s r) = Some sid \<longrightarrow>
       m_src s sid = Some r \<and> ss_viewers (m_heap s r) \<noteq> {}"
    using inv_homeD(1) [OF home] by blast
  fix sid assume quiet: "\<forall>v. pc_rank (m_pc s v) = 0" and sid: "sid \<in> m_live s"
  have "pc_holds (m_pc s v) = None" for v
    using quiet [rule_format, of v] by (cases "m_pc s v") auto
  then obtain r where r: "ss_sub (m_heap s r) = Some sid"
    using placed sid by (metis option.distinct(1) sub_at_simps sub_place.exhaust)
  then obtain v where v: "v \<in> ss_viewers (m_heap s r)"
    using inv_homeD(1) [OF home] by blast
  then have "pc_ref (m_pc s v) = Some r"
    using joined [OF inv_join_reach [OF reach]] by blast
  then have "m_pc s v = Attached r"
    using quiet [rule_format, of v] by (cases "m_pc s v") auto
  with r v show "\<exists>k r v. m_subs s k = Some r \<and> ss_sub (m_heap s r) = Some sid \<and>
      m_pc s v = Attached r \<and> mv_key (m_viewers s v) = k"
    using attached_mapped [OF inv_join_reach [OF reach]] by blast
qed

lemma no_subscription_leak_witness:
  "\<exists>k r v. m_subs ex_mux k = Some r \<and> ss_sub (m_heap ex_mux r) = Some 0 \<and>
     m_pc ex_mux v = Attached r \<and> mv_key (m_viewers ex_mux v) = k"
proof -
  have "pc_rank (m_pc ex_mux v) = 0" for v
    using ex_mux_state live_viewer [OF inv_join_reach [OF ex_mux_reach], of v]
    by (cases "v = 0"; cases "v = 1"; cases "m_pc ex_mux v") auto
  then show ?thesis
    using no_subscription_leak [OF ex_mux_reach] ex_mux_state by simp
qed

text \<open>C26: An attached session receives.  Whenever \<^verbatim>\<open>attach\<close> has returned without an error, and until the
  session detaches, its key is mapped to a shared subscription that has it among its viewers and
  holds a live subscription made for it.\<close>

theorem attached_receives:
  assumes reach: "mux_reach enc s" and att: "m_pc s v = Attached r"
  shows "\<exists>sid. m_subs s (mv_key (m_viewers s v)) = Some r \<and> v \<in> ss_viewers (m_heap s r) \<and>
    ss_sub (m_heap s r) = Some sid \<and> sid \<in> m_live s \<and> m_src s sid = Some r"
proof -
  note join = inv_join_reach [OF reach] and stage = inv_stage_reach [OF reach]
  have home: "inv_home s" and live: "inv_live s"
    using inv_home_live_reach [OF reach] by blast+
  have v: "v \<in> ss_viewers (m_heap s r)" "m_subs s (mv_key (m_viewers s v)) = Some r"
    using attached_mapped [OF join att] by blast+
  obtain sid where sid: "ss_sub (m_heap s r) = Some sid"
    using stage_ready [OF stage, of r] inv_stageD(1) [OF stage, of v] att v by auto
  moreover have "sid \<in> m_live s"
    using live sid unfolding inv_live_def placed_def by (metis ranI sub_at_simps(1))
  ultimately show ?thesis
    using v inv_homeD(1) [OF home, of r sid] by blast
qed

lemma attached_receives_witness:
  "\<exists>sid. m_subs ex_mux (mv_key (m_viewers ex_mux 1)) = Some 0 \<and> 1 \<in> ss_viewers (m_heap ex_mux 0) \<and>
    ss_sub (m_heap ex_mux 0) = Some sid \<and> sid \<in> m_live ex_mux \<and> m_src ex_mux sid = Some 0"
  by (rule attached_receives [OF ex_mux_reach]) (use ex_mux_state in simp)

text \<open>C25: \<^verbatim>\<open>attach\<close> and \<^verbatim>\<open>detach\<close> return.  From any reachable state the goroutines of the sessions make at
  most seven steps for each session, whatever the scheduling and the outcome of \<^verbatim>\<open>Subscribe\<close>, and when
  none of them can move, each session is attached or has finished: nobody waits for \<^verbatim>\<open>ready\<close> for ever.\<close>

theorem attach_returns:
  assumes reach: "mux_reach enc s" and alive: "\<not> m_panic s" and run: "go_run n s s'"
  shows "n \<le> 7 * m_nviewers s \<and>
    ((\<forall>v outcome. go_step v outcome s' = None) \<longrightarrow>
       (\<forall>v. m_pc s' v = Finished \<or> (\<exists>r. m_pc s' v = Attached r)))"
proof (intro conjI impI allI)
  have "mux_rank s \<le> (\<Sum>v < m_nviewers s. 7)"
    unfolding mux_rank_def by (intro sum_mono pc_rank_le)
  then show "n \<le> 7 * m_nviewers s"
    using go_run_rank [OF run inv_join_reach [OF reach]] by simp
next
  fix v assume stuck: "\<forall>v outcome. go_step v outcome s' = None"
  have "mux_reach enc s'"
    using go_run_reach [OF run alive reach] by blast
  then have "pc_rank (m_pc s' v) = 0"
    using go_enabled [OF inv_join_reach inv_own_reach] stuck by blast
  then show "m_pc s' v = Finished \<or> (\<exists>r. m_pc s' v = Attached r)"
    by (cases "m_pc s' v") auto
qed

definition ex_half :: subMux where
  "ex_half = mux_after (take 4 ex_events) newSubMux"

lemma attach_returns_witness:
  "m_pc ex_half 1 = Waiting 0 \<and> (\<exists>n s'. go_run n ex_half s' \<and> n \<le> 14 \<and> m_pc s' 1 = Attached 0)"
proof -
  have reach: "mux_reach nm_data ex_half"
    unfolding ex_half_def by (intro mux_after_reach mux_init)
  have half: "\<not> m_panic ex_half \<and> m_nviewers ex_half = 2 \<and> m_pc ex_half 1 = Waiting 0"
    by code_simp
  define go where "go v s = (case go_step v None s of Some s' \<Rightarrow> s' | None \<Rightarrow> s)" for v s
  have "(go_step 0 None ex_half \<noteq> None \<and> go_step 0 None (go 0 ex_half) \<noteq> None) \<and>
      go_step 0 None (go 0 (go 0 ex_half)) \<noteq> None \<and>
      go_step 1 None (go 0 (go 0 (go 0 ex_half))) \<noteq> None \<and>
      m_pc (go 1 (go 0 (go 0 (go 0 ex_half)))) 1 = Attached 0"
    unfolding go_def by code_simp
  then have run: "go_run (Suc (Suc (Suc (Suc 0)))) ex_half (go 1 (go 0 (go 0 (go 0 ex_half))))"
      and att: "m_pc (go 1 (go 0 (go 0 (go 0 ex_half)))) 1 = Attached 0"
    by (auto intro!: go_more go_refl simp: go_def)
  have "Suc (Suc (Suc (Suc 0))) \<le> 14"
    using attach_returns [OF reach _ run] half by simp
  with run att half show ?thesis by blast
qed

text \<open>Viewers are isolated.  Whatever a session is sent, or has waiting in its channel, came from a
  subscription of exactly the cluster, stream, filter and start sequence it asked for, is no longer
  than its limit on payloads, and the channel holds at most 64 frames.\<close>

theorem frames_isolated:
  assumes reach: "mux_reach enc s" and v: "v < m_nviewers s"
    and f: "f \<in> set (mv_out (m_viewers s v)) \<union> set (mv_written (m_viewers s v))"
  shows "(\<exists>r. m_src s (om_sid f) = Some r \<and> ss_key (m_heap s r) = mv_key (m_viewers s v)) \<and>
    (0 < mv_truncate (m_viewers s v) \<longrightarrow>
       int (length (nm_data (om_msg f))) \<le> mv_truncate (m_viewers s v)) \<and>
    length (mv_out (m_viewers s v)) \<le> 64"
  using out_frames [OF inv_frames_reach [OF reach] v f] out_bound [OF inv_frames_reach [OF reach] v]
  by (auto simp: frame_for_def viewerOutboundBuffer_def)

definition ex_sent :: subMux where
  "ex_sent = mux_after
     [Message 0 ex_msg [1, 0], FanCheck 0, FanSend 0, FanCheck 0, FanSend 0, Write 1] ex_mux"

lemma frames_isolated_witness:
  "mv_written (m_viewers ex_sent 1) =
     [\<lparr>om_frame = ''hel'', om_sid = 0, om_msg = ex_msg\<lparr>nm_data := ''hel''\<rparr>\<rparr>] \<and>
   (\<exists>r. m_src ex_sent 0 = Some r \<and> ss_key (m_heap ex_sent r) = mv_key (m_viewers ex_sent 1)) \<and>
   length (mv_out (m_viewers ex_sent 1)) \<le> 64"
proof -
  have reach: "mux_reach nm_data ex_sent"
    unfolding ex_sent_def by (intro mux_after_reach ex_mux_reach)
  have w: "mv_written (m_viewers ex_sent 1) =
      [\<lparr>om_frame = ''hel'', om_sid = 0, om_msg = ex_msg\<lparr>nm_data := ''hel''\<rparr>\<rparr>]"
    by code_simp
  have "1 < m_nviewers ex_sent"
    by code_simp
  from frames_isolated [OF reach this UnI2, unfolded w, OF list.set_intros(1)] show ?thesis
    using w by simp
qed

text \<open>
  The process can crash.  The callback tests the flags of a viewer and then sends on its channel, without
  a lock; the session can close and detach in between, which closes the channel, and a send on a
  closed channel panics outside any recover.  The run below closes the session first, as
  \<^verbatim>\<open>serveConn\<close> does.
\<close>

theorem fanout_panics:
  "\<exists>s s'. mux_reach nm_data s \<and> \<not> m_panic s \<and> m_pc s 0 = Attached 0 \<and> mv_closed (m_viewers s 0) \<and>
     mux_run nm_data [Leave 0, Go 0 None, Go 0 None, FanSend 0] s = Some s' \<and> m_panic s'"
proof -
  define s where "s = mux_after [Message 0 ex_msg [0, 1], FanCheck 0, CloseSession 0] ex_mux"
  have reach: "mux_reach nm_data s"
    unfolding s_def by (intro mux_after_reach ex_mux_reach)
  have now: "\<not> m_panic s \<and> m_pc s 0 = Attached 0 \<and> mv_closed (m_viewers s 0)"
    unfolding s_def by code_simp
  have "case mux_run nm_data [Leave 0, Go 0 None, Go 0 None, FanSend 0] s of
      Some s' \<Rightarrow> m_panic s' | None \<Rightarrow> False"
    unfolding s_def by code_simp
  then show ?thesis
    using reach now by (auto split: option.splits)
qed

end
