(* ===== verification/Live_Session.thy ===== *)
theory Live_Session
  imports Numbers
begin

text \<open>
  One live session (\<^verbatim>\<open>internal/live/hub.go\<close>), its control messages (\<^verbatim>\<open>control.go\<close>) and the encoding of
  its frames (\<^verbatim>\<open>encode.go\<close>).  Base64 and the formatting of time stamps are parameters; a Go map of
  headers is a list in the order of its iteration.

  The state of a session is what its goroutines share.  Each operation is a critical section or
  an atomic access of the code; whether a write to the socket succeeds is an argument.
\<close>

section \<open>JSON strings (encode.go)\<close>

definition byte :: "char \<Rightarrow> nat" where
  "byte c = of_char c"

text \<open>
  \<^verbatim>\<open>utf8.DecodeRuneInString\<close> as far as it is used: whether it answers \<^verbatim>\<open>RuneError\<close> with size 1, that is,
  whether the string begins with an invalid encoding.
\<close>

definition continuation :: "nat \<Rightarrow> nat \<Rightarrow> string \<Rightarrow> bool" where
  "continuation lo hi s = (case s of [] \<Rightarrow> False | c # _ \<Rightarrow> lo \<le> byte c \<and> byte c \<le> hi)"

definition rune_error :: "string \<Rightarrow> bool" where
  "rune_error s =
     (case s of
        [] \<Rightarrow> False
      | c # t \<Rightarrow>
          let b = byte c; cont = continuation 128 191 in
          if b < 128 then False
          else if 194 \<le> b \<and> b \<le> 223 then \<not> cont t
          else if b = 224 then \<not> (continuation 160 191 t \<and> cont (tl t))
          else if b = 237 then \<not> (continuation 128 159 t \<and> cont (tl t))
          else if 225 \<le> b \<and> b \<le> 239 then \<not> (cont t \<and> cont (tl t))
          else if b = 240 then \<not> (continuation 144 191 t \<and> cont (tl t) \<and> cont (tl (tl t)))
          else if 241 \<le> b \<and> b \<le> 243 then \<not> (cont t \<and> cont (tl t) \<and> cont (tl (tl t)))
          else if b = 244 then \<not> (continuation 128 143 t \<and> cont (tl t) \<and> cont (tl (tl t)))
          else True)"

definition hexDigit :: "nat \<Rightarrow> char" where
  "hexDigit b = (if b < 10 then char_of (48 + b) else char_of (97 + (b - 10)))"

definition quote :: char where "quote = CHR 0x22"
definition backslash :: char where "backslash = CHR 0x5C"

definition plain_byte :: "char \<Rightarrow> bool" where
  "plain_byte c \<longleftrightarrow> byte c \<ge> 32 \<and> c \<noteq> quote \<and> c \<noteq> backslash"

text \<open>The loop of \<^verbatim>\<open>appendJSONString\<close>: \<open>start\<close> is where the bytes not yet copied begin.\<close>

definition subslice :: "string \<Rightarrow> nat \<Rightarrow> nat \<Rightarrow> string" where
  "subslice s a b = take (b - a) (drop a s)"

function json_loop :: "string \<Rightarrow> string \<Rightarrow> nat \<Rightarrow> nat \<Rightarrow> string" where
  "json_loop dst s start i =
     (if i < length s then
        let c = s ! i in
        if plain_byte c then json_loop dst s start (Suc i)
        else
          let dst1 = (if start < i then dst @ subslice s start i else dst) in
          if c = quote \<or> c = backslash then json_loop (dst1 @ [backslash, c]) s (Suc i) (Suc i)
          else if c = CHR 0x0A then json_loop (dst1 @ [backslash, CHR ''n'']) s (Suc i) (Suc i)
          else if c = CHR 0x0D then json_loop (dst1 @ [backslash, CHR ''r'']) s (Suc i) (Suc i)
          else if c = CHR 0x09 then json_loop (dst1 @ [backslash, CHR ''t'']) s (Suc i) (Suc i)
          else if rune_error (drop i s) then json_loop (dst1 @ backslash # ''uFFFD'') s (Suc i) (Suc i)
          else
            json_loop (dst1 @ backslash # ''u00'' @ [hexDigit (byte c div 16), hexDigit (byte c mod 16)])
              s (Suc i) (Suc i)
      else if start < length s then dst @ drop start s
      else dst)"
  by pat_completeness auto
termination
  by (relation "measure (\<lambda>(dst, s, start, i). length s - i)") auto

declare json_loop.simps [simp del]

definition appendJSONString :: "string \<Rightarrow> string \<Rightarrow> string" where
  "appendJSONString dst s = json_loop (dst @ [quote]) s 0 0 @ [quote]"

text \<open>The reference: each byte on its own.\<close>

definition json_escape :: "char \<Rightarrow> string" where
  "json_escape c =
     (if plain_byte c then [c]
      else if c = quote \<or> c = backslash then [backslash, c]
      else if c = CHR 0x0A then [backslash, CHR ''n'']
      else if c = CHR 0x0D then [backslash, CHR ''r'']
      else if c = CHR 0x09 then [backslash, CHR ''t'']
      else backslash # ''u00'' @ [hexDigit (byte c div 16), hexDigit (byte c mod 16)])"

lemma rune_error_control: "i < length s \<Longrightarrow> \<not> plain_byte (s ! i) \<Longrightarrow> \<not> rune_error (drop i s)"
  by (auto simp: rune_error_def plain_byte_def quote_def backslash_def byte_def Cons_nth_drop_Suc [symmetric])

lemma subslice_Suc: "start \<le> i \<Longrightarrow> i < length s \<Longrightarrow> subslice s start (Suc i) = subslice s start i @ [s ! i]"
  by (simp add: subslice_def Suc_diff_le take_Suc_conv_app_nth)

lemma subslice_none [simp]: "subslice s i i = []"
  by (simp add: subslice_def)

lemma subslice_if: "(if start < i then dst @ subslice s start i else dst) = dst @ subslice s start i"
  by (simp add: subslice_def)

lemma subslice_all: "start \<le> i \<Longrightarrow> length s \<le> i \<Longrightarrow> subslice s start i = drop start s"
  by (simp add: subslice_def)

lemma json_loop_spec:
  assumes "start \<le> i"
  shows "json_loop dst s start i = dst @ subslice s start i @ concat (map json_escape (drop i s))"
  using assms
proof (induction dst s start i rule: json_loop.induct)
  case (1 dst s start i)
  show ?case
  proof (cases "i < length s")
    case False
    then show ?thesis
      using 1(8) by (subst json_loop.simps) (simp add: subslice_all)
  next
    case lt: True
    note d = Cons_nth_drop_Suc [OF lt, symmetric]
    show ?thesis
    proof (cases "plain_byte (s ! i)")
      case True
      then show ?thesis
        using 1(1) [OF lt refl] 1(8) lt
        by (subst json_loop.simps) (simp add: d json_escape_def [of "s ! i"] subslice_Suc)
    next
      case False
      note e = rune_error_control [OF lt False]
      show ?thesis
        using 1(2-7) [OF lt refl False refl] 1(8) lt False e
        by (subst json_loop.simps) (simp add: d json_escape_def [of "s ! i"] subslice_if Let_def)
    qed
  qed
qed

lemma appendJSONString_spec:
  "appendJSONString dst s = dst @ quote # concat (map json_escape s) @ [quote]"
  by (simp add: appendJSONString_def json_loop_spec)

text \<open>A reader of JSON strings, after the opening quote: the text and what follows the closing quote.\<close>

definition hex_value :: "char \<Rightarrow> nat option" where
  "hex_value c =
     (let n = byte c in
      if 48 \<le> n \<and> n \<le> 57 then Some (n - 48)
      else if 97 \<le> n \<and> n \<le> 102 then Some (n - 87)
      else if 65 \<le> n \<and> n \<le> 70 then Some (n - 55)
      else None)"

definition unescape_one :: "string \<Rightarrow> (char \<times> string) option" where
  "unescape_one s =
     (case s of
        [] \<Rightarrow> None
      | e # t \<Rightarrow>
          if e = quote \<or> e = backslash then Some (e, t)
          else if e = CHR ''n'' then Some (CHR 0x0A, t)
          else if e = CHR ''r'' then Some (CHR 0x0D, t)
          else if e = CHR ''t'' then Some (CHR 0x09, t)
          else if HasPrefix s ''u00'' \<and> 5 \<le> length s then
            (case (hex_value (s ! 3), hex_value (s ! 4)) of
               (Some a, Some b) \<Rightarrow> Some (char_of (16 * a + b), drop 5 s)
             | _ \<Rightarrow> None)
          else None)"

lemma unescape_one_shorter: "unescape_one s = Some (c, t) \<Longrightarrow> length t < length s"
  by (auto simp: unescape_one_def split: list.splits if_splits option.splits)

function json_unescape :: "string \<Rightarrow> (string \<times> string) option" where
  "json_unescape s =
     (case s of
        [] \<Rightarrow> None
      | c # t \<Rightarrow>
          if c = quote then Some ([], t)
          else if c = backslash then
            (case unescape_one t of
               None \<Rightarrow> None
             | Some (d, u) \<Rightarrow>
                 (case json_unescape u of None \<Rightarrow> None | Some (x, r) \<Rightarrow> Some (d # x, r)))
          else if byte c < 32 then None
          else (case json_unescape t of None \<Rightarrow> None | Some (x, r) \<Rightarrow> Some (c # x, r)))"
  by pat_completeness auto
termination
  by (relation "measure length") (auto dest: unescape_one_shorter)

declare json_unescape.simps [simp del]

lemma byte_less [simp]: "byte c < 256"
  by (simp add: byte_def)

lemma hex_value_hexDigit [simp]: "b < 16 \<Longrightarrow> hex_value (hexDigit b) = Some b"
  by (auto simp: hex_value_def hexDigit_def byte_def)

lemma char_of_byte [simp]: "char_of (16 * (byte c div 16) + byte c mod 16) = c"
  by (simp add: byte_def)

lemma char_of_byte' [simp]: "char_of (byte c) = c"
  by (simp add: byte_def)

lemma unescape_escape:
  "\<not> plain_byte c \<Longrightarrow> \<exists>e. json_escape c = backslash # e \<and> unescape_one (e @ t) = Some (c, t)"
  by (simp add: json_escape_def unescape_one_def HasPrefix_def div_less_iff_less_mult
      quote_def backslash_def)

lemma json_unescape_escape:
  "json_unescape (json_escape c @ t) =
     (case json_unescape t of None \<Rightarrow> None | Some (x, r) \<Rightarrow> Some (c # x, r))"
proof (cases "plain_byte c")
  case True
  then show ?thesis
    by (subst json_unescape.simps) (simp add: json_escape_def plain_byte_def)
next
  case False
  then obtain e where "json_escape c = backslash # e" "unescape_one (e @ t) = Some (c, t)"
    using unescape_escape by blast
  then show ?thesis
    by (subst json_unescape.simps) (simp add: quote_def backslash_def)
qed

lemma json_unescape_quote [simp]: "json_unescape (quote # rest) = Some ([], rest)"
  by (simp add: json_unescape.simps)

text \<open>What \<^verbatim>\<open>appendJSONString\<close> writes is a JSON string that reads back as the text it was given, whatever
  bytes that has: no subject, header or error message can break out of its field.\<close>

theorem json_string_roundtrip:
  "\<exists>body. appendJSONString dst s @ rest = dst @ quote # body \<and> json_unescape body = Some (s, rest)"
proof -
  have "json_unescape (concat (map json_escape s) @ quote # rest) = Some (s, rest)"
    by (induction s) (simp_all add: json_unescape_escape)
  then show ?thesis
    by (simp add: appendJSONString_spec)
qed

text \<open>
  The replacement of invalid UTF-8 is dead code: the loop only reaches it for bytes below 32, which are
  valid.  A byte such as \<^verbatim>\<open>0xFF\<close> goes into the text frame as it is.
\<close>

theorem invalid_utf8_copied:
  "rune_error [CHR 0xFF] \<and> appendJSONString [] [CHR 0xFF] = [quote, CHR 0xFF, quote] \<and>
   (\<forall>s i. i < length s \<longrightarrow> \<not> plain_byte (s ! i) \<longrightarrow> \<not> rune_error (drop i s))"
  by (simp add: appendJSONString_spec rune_error_control)
    (simp add: rune_error_def json_escape_def plain_byte_def byte_def continuation_def quote_def backslash_def)

section \<open>Frames (encode.go)\<close>

text \<open>A header block: \<open>vals\<close> are the values of a key, in the order of the iteration of the map.\<close>

fun json_pairs :: "string \<Rightarrow> bool \<Rightarrow> (string \<times> string) list \<Rightarrow> string" where
  "json_pairs dst first [] = dst"
| "json_pairs dst first ((k, v) # kvs) =
     json_pairs (appendJSONString (appendJSONString (if first then dst else dst @ '','') k @ '':'') v)
       False kvs"

definition appendJSONHeaders :: "string \<Rightarrow> (string \<times> string) list \<Rightarrow> string" where
  "appendJSONHeaders dst headers = json_pairs (dst @ ''{'') True headers @ ''}''"

definition first_values :: "(string \<times> string list) list \<Rightarrow> (string \<times> string) list" where
  "first_values hs = map (\<lambda>(k, vals). (k, hd vals)) (filter (\<lambda>(k, vals). vals \<noteq> []) hs)"

definition appendJSONNATSHeaders :: "string \<Rightarrow> (string \<times> string list) list \<Rightarrow> string" where
  "appendJSONNATSHeaders dst headers = json_pairs (dst @ ''{'') True (first_values headers) @ ''}''"

record liveFrame =
  lf_Type :: string
  lf_Subject :: string
  lf_Time :: string
  lf_Data :: string
  lf_Headers :: "(string \<times> string) list"
  lf_Error :: string
  lf_Seq :: u64

definition json_field :: "string \<Rightarrow> string \<Rightarrow> string \<Rightarrow> string" where
  "json_field buf name v = (if IsEmpty v then buf else appendJSONString (buf @ '','' @ [quote] @ name @ [quote] @ '':'') v)"

definition encodeLiveFrame :: "liveFrame \<Rightarrow> string" where
  "encodeLiveFrame frame =
     (let buf = appendJSONString (''{'' @ [quote] @ ''type'' @ [quote] @ '':'') (lf_Type frame);
          buf = json_field buf ''subject'' (lf_Subject frame);
          buf = json_field buf ''time'' (lf_Time frame);
          buf = json_field buf ''data'' (lf_Data frame);
          buf = (if lf_Headers frame = [] then buf
                 else appendJSONHeaders (buf @ '','' @ [quote] @ ''headers'' @ [quote] @ '':'') (lf_Headers frame));
          buf = json_field buf ''error'' (lf_Error frame);
          buf = (if lf_Seq frame = 0 then buf
                 else buf @ '','' @ [quote] @ ''seq'' @ [quote] @ '':'' @ FormatUint (unat (lf_Seq frame)))
      in buf @ ''}'')"

definition encodeMessageFrameFromNATS ::
  "(string \<Rightarrow> string) \<Rightarrow> (gotime \<Rightarrow> string) \<Rightarrow> u64 \<Rightarrow> string \<Rightarrow> string \<Rightarrow> (string \<times> string list) list \<Rightarrow>
     gotime \<Rightarrow> string" where
  "encodeMessageFrameFromNATS base64 rfc3339 seq subject payload headers now =
     (let q = [quote];
          buf = ''{'' @ q @ ''type'' @ q @ '':'' @ q @ ''message'' @ q @ '','' @ q @ ''seq'' @ q @ '':'';
          buf = buf @ FormatUint (unat seq);
          buf = appendJSONString (buf @ '','' @ q @ ''subject'' @ q @ '':'') subject;
          buf = buf @ '','' @ q @ ''time'' @ q @ '':'' @ q @ rfc3339 now;
          buf = buf @ q @ '','' @ q @ ''data'' @ q @ '':'' @ q @ base64 payload @ q;
          buf = (if headers = [] then buf
                 else appendJSONNATSHeaders (buf @ '','' @ q @ ''headers'' @ q @ '':'') headers)
      in buf @ ''}'')"

section \<open>Control messages (control.go)\<close>

datatype FrameAction = Pause | Resume | Clear | NoAction

definition action_text :: "string \<Rightarrow> string \<Rightarrow> string" where
  "action_text space a =
     ''{'' @ [quote] @ ''action'' @ [quote] @ '':'' @ space @ [quote] @ a @ [quote] @ ''}''"

text \<open>\<^verbatim>\<open>bytes.Index\<close>: what follows the first occurrence of \<open>p\<close>.\<close>

fun after_first :: "string \<Rightarrow> string \<Rightarrow> string option" where
  "after_first p [] = (if p = [] then Some [] else None)"
| "after_first p (c # s) =
     (if HasPrefix (c # s) p then Some (drop (length p) (c # s)) else after_first p s)"

definition parseControlAction :: "string \<Rightarrow> FrameAction" where
  "parseControlAction data =
     (let data = TrimSpace data; q = [quote];
          exact = (\<lambda>a. data = action_text [] a \<or> data = action_text '' '' a) in
      if exact ''pause'' then Pause
      else if exact ''resume'' then Resume
      else if exact ''clear'' then Clear
      else
        case after_first (q @ ''action'' @ q) data of
          None \<Rightarrow> NoAction
        | Some rest \<Rightarrow>
            (case after_first '':'' rest of
               None \<Rightarrow> NoAction
             | Some rest \<Rightarrow>
                 let rest = TrimSpace rest in
                 if HasPrefix rest (q @ ''pause'' @ q) then Pause
                 else if HasPrefix rest (q @ ''resume'' @ q) then Resume
                 else if HasPrefix rest (q @ ''clear'' @ q) then Clear
                 else NoAction))"

section \<open>Configuration and admission (hub.go)\<close>

record LiveCfg =
  lc_MaxMessages :: int
  lc_IdleTimeout :: duration
  lc_RateLimit :: duration
  lc_PayloadTruncateBytes :: int
  lc_ClientCacheTTL :: duration
  lc_CORSAllowedOrigins :: string

definition liveWSMaxMessages :: "LiveCfg \<Rightarrow> int" where
  "liveWSMaxMessages cfg = (if lc_MaxMessages cfg > 0 then lc_MaxMessages cfg else 1000)"

definition liveWSIdleTimeout :: "LiveCfg \<Rightarrow> duration" where
  "liveWSIdleTimeout cfg = (if lc_IdleTimeout cfg > 0 then lc_IdleTimeout cfg else 300 * Second)"

definition liveWSRateLimit :: "LiveCfg \<Rightarrow> duration" where
  "liveWSRateLimit cfg = (if lc_RateLimit cfg > 0 then lc_RateLimit cfg else 100000000)"

definition gatewayTouchInterval :: "LiveCfg \<Rightarrow> duration" where
  "gatewayTouchInterval cfg =
     (let ttl = (if lc_ClientCacheTTL cfg \<le> 0 then 300 * Second else lc_ClientCacheTTL cfg)
      in max (min (ttl div 3) (30 * Second)) Second)"

definition CORSOrigins :: "string \<Rightarrow> string list" where
  "CORSOrigins s =
     (if IsEmpty s then []
      else filter (\<lambda>p. \<not> IsEmpty p) (map TrimSpace (Split (CHR '','') s)))"

definition checkOrigin :: "LiveCfg \<Rightarrow> string \<Rightarrow> bool" where
  "checkOrigin cfg origin =
     (let origins = CORSOrigins (lc_CORSAllowedOrigins cfg) in
      if origins = [] then True
      else if IsEmpty origin then True
      else list_ex (\<lambda>a. a = ''*'' \<or> a = origin) origins)"

text \<open>The answer of \<^verbatim>\<open>Handle\<close> before the upgrade: a status and a message, or the parameters of the session.\<close>

datatype gateway_result = GatewayOk | GatewayNotFound | GatewayFailed

record liveRequest =
  lq_clusterId :: "string option"
  lq_Origin :: string
  lq_stream :: string
  lq_subject :: string
  lq_fromSeq :: string

definition Handle ::
  "LiveCfg \<Rightarrow> (string \<Rightarrow> gateway_result) \<Rightarrow> liveRequest \<Rightarrow>
     nat \<times> string + string \<times> string \<times> string \<times> u64" where
  "Handle cfg gateway rq =
     (case lq_clusterId rq of
        None \<Rightarrow> Inl (400, ''missing clusterId'')
      | Some clusterID \<Rightarrow>
          if IsEmpty clusterID then Inl (400, ''missing clusterId'')
          else if \<not> checkOrigin cfg (lq_Origin rq) then Inl (403, ''origin not allowed'')
          else if IsEmpty (lq_stream rq) then Inl (400, ''missing stream'')
          else
            case (if IsEmpty (lq_fromSeq rq) then Some 0 else ParseUint (lq_fromSeq rq)) of
              None \<Rightarrow> Inl (400, ''invalid fromSeq'')
            | Some fromSeq \<Rightarrow>
                (case gateway clusterID of
                   GatewayNotFound \<Rightarrow> Inl (404, ''cluster not found'')
                 | GatewayFailed \<Rightarrow> Inl (502, ''NATS is unavailable'')
                 | GatewayOk \<Rightarrow> Inr (clusterID, lq_stream rq, lq_subject rq, fromSeq)))"

section \<open>The session (hub.go, serveConn)\<close>

text \<open>
  \<open>ls_sent\<close> are the frames written to the socket, \<open>ls_touched\<close> the times of the calls of \<^verbatim>\<open>gateway.Touch\<close>.
  \<open>ls_admitted\<close> (the times at which a message was admitted, newest first) and \<open>ls_cleared\<close> (the number
  of clear commands) only serve the statements.
\<close>

record LiveSession =
  ls_msgCount :: int
  ls_lastSent :: gotime
  ls_paused :: bool
  ls_closed :: bool
  ls_lastActivity :: gotime
  ls_lastGatewayTouch :: gotime
  ls_sent :: "string list"
  ls_touched :: "gotime list"
  ls_admitted :: "gotime list"
  ls_cleared :: nat

definition mkFrame :: "string \<Rightarrow> string \<Rightarrow> string \<Rightarrow> liveFrame" where
  "mkFrame ty subject err =
     \<lparr>lf_Type = ty, lf_Subject = subject, lf_Time = [], lf_Data = [], lf_Headers = [],
      lf_Error = err, lf_Seq = 0\<rparr>"

definition touchGateway :: "LiveCfg \<Rightarrow> gotime \<Rightarrow> LiveSession \<Rightarrow> LiveSession" where
  "touchGateway cfg now st =
     (if now - ls_lastGatewayTouch st < gatewayTouchInterval cfg then st
      else st\<lparr>ls_lastGatewayTouch := now, ls_touched := now # ls_touched st\<rparr>)"

definition resetIdle :: "gotime \<Rightarrow> LiveSession \<Rightarrow> LiveSession" where
  "resetIdle now st = st\<lparr>ls_lastActivity := now\<rparr>"

text \<open>\<open>ok\<close>: whether the write to the socket succeeds.\<close>

definition write_socket :: "bool \<Rightarrow> string \<Rightarrow> LiveSession \<Rightarrow> LiveSession" where
  "write_socket ok b st = (if ok then st\<lparr>ls_sent := ls_sent st @ [b]\<rparr> else st)"

definition closeSession :: "bool \<Rightarrow> string \<Rightarrow> LiveSession \<Rightarrow> LiveSession" where
  "closeSession ok message st =
     (if ls_closed st then st
      else
        let st = st\<lparr>ls_closed := True\<rparr> in
        if IsEmpty message then st
        else write_socket ok (encodeLiveFrame (mkFrame ''error'' [] message)) st)"

definition send :: "LiveCfg \<Rightarrow> gotime \<Rightarrow> bool \<Rightarrow> liveFrame \<Rightarrow> LiveSession \<Rightarrow> bool \<times> LiveSession" where
  "send cfg now ok frame st =
     (if ls_closed st then (False, st)
      else if \<not> ok then (False, closeSession ok [] st)
      else (True, touchGateway cfg now (resetIdle now (write_socket ok (encodeLiveFrame frame) st))))"

text \<open>The critical section of \<^verbatim>\<open>sendMessageFrame\<close>.\<close>

datatype admission = AlreadyClosed | LimitReached | TooFast | Admitted

definition admit :: "LiveCfg \<Rightarrow> gotime \<Rightarrow> LiveSession \<Rightarrow> admission \<times> LiveSession" where
  "admit cfg now st =
     (if ls_closed st then (AlreadyClosed, st)
      else if ls_msgCount st \<ge> liveWSMaxMessages cfg then (LimitReached, st)
      else if ls_lastSent st \<noteq> 0 \<and> now - ls_lastSent st < liveWSRateLimit cfg then (TooFast, st)
      else (Admitted, st\<lparr>ls_msgCount := ls_msgCount st + 1, ls_lastSent := now,
                        ls_admitted := now # ls_admitted st\<rparr>))"

definition sendMessageFrame ::
  "LiveCfg \<Rightarrow> gotime \<Rightarrow> bool \<Rightarrow> string \<Rightarrow> LiveSession \<Rightarrow> bool \<times> LiveSession" where
  "sendMessageFrame cfg now ok frame st =
     (case admit cfg now st of
        (AlreadyClosed, st) \<Rightarrow> (False, st)
      | (TooFast, st) \<Rightarrow> (False, st)
      | (LimitReached, st) \<Rightarrow>
          (False, closeSession ok []
             (snd (send cfg now ok (mkFrame ''error'' [] ''max messages reached'') st)))
      | (Admitted, st) \<Rightarrow>
          if ok then (True, touchGateway cfg now (resetIdle now (write_socket ok frame st)))
          else (False, closeSession ok [] st))"

definition live_control :: "LiveCfg \<Rightarrow> gotime \<Rightarrow> bool \<Rightarrow> string \<Rightarrow> LiveSession \<Rightarrow> LiveSession" where
  "live_control cfg now ok data st =
     (let st = touchGateway cfg now (resetIdle now st) in
      case parseControlAction data of
        Pause \<Rightarrow> snd (send cfg now ok (mkFrame ''paused'' [] []) (st\<lparr>ls_paused := True\<rparr>))
      | Resume \<Rightarrow> snd (send cfg now ok (mkFrame ''resumed'' [] []) (st\<lparr>ls_paused := False\<rparr>))
      | Clear \<Rightarrow> snd (send cfg now ok (mkFrame ''cleared'' [] [])
                   (st\<lparr>ls_msgCount := 0, ls_cleared := Suc (ls_cleared st)\<rparr>))
      | NoAction \<Rightarrow> st)"

text \<open>The timer fires; a session that was active in the meantime goes on.\<close>

definition idle_tick :: "LiveCfg \<Rightarrow> gotime \<Rightarrow> bool \<Rightarrow> LiveSession \<Rightarrow> LiveSession" where
  "idle_tick cfg now ok st =
     (if now - ls_lastActivity st < liveWSIdleTimeout cfg then st
      else closeSession ok ''idle timeout'' st)"

definition conn_poll :: "LiveCfg \<Rightarrow> gotime \<Rightarrow> bool \<Rightarrow> bool \<Rightarrow> LiveSession \<Rightarrow> LiveSession" where
  "conn_poll cfg now ok connected st =
     (let st = touchGateway cfg now st
      in if connected then st else closeSession ok ''nats disconnected'' st)"

definition live_start :: "LiveCfg \<Rightarrow> gotime \<Rightarrow> bool \<Rightarrow> string \<Rightarrow> LiveSession" where
  "live_start cfg now ok stream =
     snd (send cfg now ok (mkFrame ''connected'' stream [])
       \<lparr>ls_msgCount = 0, ls_lastSent = 0, ls_paused = False, ls_closed = False, ls_lastActivity = now,
        ls_lastGatewayTouch = 0, ls_sent = [], ls_touched = [], ls_admitted = [], ls_cleared = 0\<rparr>)"

datatype live_event =
    MessageFrame bool string
  | ControlData bool string
  | ReadError
  | IdleTimer bool
  | ConnPoll bool bool

definition live_step :: "LiveCfg \<Rightarrow> gotime \<times> live_event \<Rightarrow> LiveSession \<Rightarrow> LiveSession" where
  "live_step cfg te st =
     (let now = fst te in
      case snd te of
        MessageFrame ok frame \<Rightarrow> snd (sendMessageFrame cfg now ok frame st)
      | ControlData ok data \<Rightarrow> live_control cfg now ok data st
      | ReadError \<Rightarrow> closeSession False [] st
      | IdleTimer ok \<Rightarrow> idle_tick cfg now ok st
      | ConnPoll ok connected \<Rightarrow> conn_poll cfg now ok connected st)"

definition live_run :: "LiveCfg \<Rightarrow> (gotime \<times> live_event) list \<Rightarrow> LiveSession \<Rightarrow> LiveSession" where
  "live_run cfg es st = fold (live_step cfg) es st"

section \<open>Limits\<close>

definition same_counts :: "LiveSession \<Rightarrow> LiveSession \<Rightarrow> bool" where
  "same_counts st st' \<longleftrightarrow>
     ls_msgCount st' = ls_msgCount st \<and> ls_lastSent st' = ls_lastSent st \<and>
     ls_admitted st' = ls_admitted st \<and> ls_cleared st' = ls_cleared st"

lemma same_counts_ops [simp]:
  "same_counts st (touchGateway cfg now st') \<longleftrightarrow> same_counts st st'"
  "same_counts st (resetIdle now st') \<longleftrightarrow> same_counts st st'"
  "same_counts st (write_socket ok b st') \<longleftrightarrow> same_counts st st'"
  "same_counts st (closeSession ok m st') \<longleftrightarrow> same_counts st st'"
  "same_counts st (snd (send cfg now ok frame st')) \<longleftrightarrow> same_counts st st'"
  "same_counts st (st'\<lparr>ls_paused := p\<rparr>) \<longleftrightarrow> same_counts st st'"
  "same_counts st st"
  by (simp_all add: same_counts_def touchGateway_def resetIdle_def write_socket_def closeSession_def
      send_def Let_def)

text \<open>The only steps that change the counts admit a message, or clear.\<close>

lemma live_step_cases:
  obtains (same) "same_counts st (live_step cfg (now, e) st)"
    | (admitted) "same_counts (snd (admit cfg now st)) (live_step cfg (now, e) st)"
        "fst (admit cfg now st) = Admitted"
    | (cleared) "same_counts (st\<lparr>ls_msgCount := 0, ls_cleared := Suc (ls_cleared st)\<rparr>)
        (live_step cfg (now, e) st)"
proof (cases e)
  case (MessageFrame ok frame)
  obtain a st1 where a: "admit cfg now st = (a, st1)" by (cases "admit cfg now st")
  have st1: "st1 = st" if "a \<noteq> Admitted"
    using a that by (auto simp: admit_def split: if_splits)
  show ?thesis
    by (cases a)
      (use st1 a MessageFrame same admitted in
        \<open>auto simp: live_step_def sendMessageFrame_def split: if_splits\<close>)
next
  case (ControlData ok data)
  have t: "same_counts x y = same_counts (touchGateway cfg now (resetIdle now x)) y" for x y
    by (simp add: same_counts_def touchGateway_def resetIdle_def)
  have c: "same_counts (st\<lparr>ls_msgCount := 0, ls_cleared := Suc (ls_cleared st)\<rparr>)
      (touchGateway cfg now (resetIdle now st)\<lparr>ls_msgCount := 0,
         ls_cleared := Suc (ls_cleared (touchGateway cfg now (resetIdle now st)))\<rparr>)"
    by (simp add: same_counts_def touchGateway_def resetIdle_def)
  show ?thesis
    by (cases "parseControlAction data")
      (use ControlData same cleared c in \<open>auto simp: live_step_def live_control_def Let_def\<close>)
qed (use same in \<open>auto simp: live_step_def idle_tick_def conn_poll_def Let_def\<close>)

definition live_inv :: "LiveCfg \<Rightarrow> gotime \<Rightarrow> LiveSession \<Rightarrow> bool" where
  "live_inv cfg now st \<longleftrightarrow>
     0 \<le> ls_msgCount st \<and> ls_msgCount st \<le> liveWSMaxMessages cfg \<and>
     int (length (ls_admitted st)) \<le> ls_msgCount st + liveWSMaxMessages cfg * int (ls_cleared st) \<and>
     ls_lastSent st = (case ls_admitted st of [] \<Rightarrow> 0 | a # _ \<Rightarrow> a) \<and>
     (\<forall>a \<in> set (ls_admitted st). 0 < a \<and> a \<le> now) \<and>
     sorted_wrt (\<lambda>a b. liveWSRateLimit cfg \<le> a - b) (ls_admitted st)"

lemma liveWSMaxMessages_pos: "0 < liveWSMaxMessages cfg"
  by (simp add: liveWSMaxMessages_def)

lemma liveWSRateLimit_pos: "0 < liveWSRateLimit cfg"
  by (simp add: liveWSRateLimit_def)

lemma live_inv_same: "same_counts st st' \<Longrightarrow> live_inv cfg now st' = live_inv cfg now st"
  by (simp add: live_inv_def same_counts_def)

lemma live_inv_later: "live_inv cfg now st \<Longrightarrow> now \<le> now' \<Longrightarrow> live_inv cfg now' st"
  by (fastforce simp: live_inv_def)

lemma live_inv_admit:
  assumes inv: "live_inv cfg now st" and now: "0 < now" and ok: "fst (admit cfg now st) = Admitted"
  shows "live_inv cfg now (snd (admit cfg now st))"
proof -
  have lt: "ls_msgCount st < liveWSMaxMessages cfg"
    and gap: "ls_lastSent st = 0 \<or> liveWSRateLimit cfg \<le> now - ls_lastSent st"
    and st': "snd (admit cfg now st) = st\<lparr>ls_msgCount := ls_msgCount st + 1, ls_lastSent := now,
                ls_admitted := now # ls_admitted st\<rparr>"
    using ok by (auto simp: admit_def split: if_splits)
  have "liveWSRateLimit cfg \<le> now - b" if "b \<in> set (ls_admitted st)" for b
    using inv gap that liveWSRateLimit_pos [of cfg]
    by (cases "ls_admitted st") (force simp: live_inv_def)+
  then show ?thesis
    using inv now lt unfolding st' live_inv_def by simp
qed

lemma live_inv_clear:
  "live_inv cfg now st \<Longrightarrow> live_inv cfg now (st\<lparr>ls_msgCount := 0, ls_cleared := Suc (ls_cleared st)\<rparr>)"
  using liveWSMaxMessages_pos [of cfg] by (auto simp: live_inv_def algebra_simps)

lemma live_inv_step:
  assumes inv: "live_inv cfg now st" and now: "0 < now"
  shows "live_inv cfg now (live_step cfg (now, e) st)"
  by (cases rule: live_step_cases [of st cfg now e])
    (use live_inv_same live_inv_admit [OF inv now] live_inv_clear [OF inv] inv in blast)+

lemma live_inv_run:
  assumes "live_inv cfg t0 st" "0 < t0" "sorted (map fst es)" "\<forall>te \<in> set es. t0 \<le> fst te"
  shows "\<exists>t. live_inv cfg t (live_run cfg es st)"
  using assms
proof (induction es arbitrary: st t0)
  case Nil
  then show ?case by (auto simp: live_run_def)
next
  case (Cons te es)
  obtain t e where te: "te = (t, e)" by (cases te)
  have "live_inv cfg t (live_step cfg (t, e) st)"
    using Cons.prems te by (intro live_inv_step live_inv_later [of cfg t0 st t]) auto
  from Cons.IH [OF this] Cons.prems show ?case
    by (auto simp: live_run_def te)
qed

lemma live_start_inv: "live_inv cfg now (live_start cfg now0 ok stream)"
  using liveWSMaxMessages_pos [of cfg]
  by (simp add: live_start_def live_inv_def send_def closeSession_def touchGateway_def resetIdle_def
      write_socket_def)

text \<open>Times that are a rate apart are few in a window.\<close>

lemma spaced_count:
  assumes "sorted_wrt (\<lambda>a b. r \<le> a - b) (ts :: int list)" "0 < r" "ts \<noteq> []"
  shows "r * (int (length ts) - 1) \<le> hd ts - last ts"
  using assms
proof (induction ts)
  case (Cons a ts)
  then show ?case
    by (cases ts) (auto simp: algebra_simps)
qed simp

lemma spaced_window:
  assumes gap: "sorted_wrt (\<lambda>a b. r \<le> a - b) (ts :: int list)" and r: "0 < r" and w: "0 \<le> w"
  shows "int (length (filter (\<lambda>a. t \<le> a \<and> a < t + w) ts)) \<le> w div r + 1"
proof (cases "filter (\<lambda>a. t \<le> a \<and> a < t + w) ts = []")
  case True
  then show ?thesis using r w by (simp add: pos_imp_zdiv_nonneg_iff)
next
  case False
  let ?l = "filter (\<lambda>a. t \<le> a \<and> a < t + w) ts"
  have "set ?l \<subseteq> {t..<t + w}" by auto
  then have "hd ?l - last ?l \<le> w"
    using hd_in_set [OF False] last_in_set [OF False] by (auto dest!: subsetD)
  then have "(int (length ?l) - 1) * r \<le> w"
    using spaced_count [OF sorted_wrt_filter [OF gap] r False] by (simp add: mult.commute)
  then show ?thesis
    using r zdiv_mono1 [of "(int (length ?l) - 1) * r" w r] by simp
qed

text \<open>The limits of a live session hold in every run: between two clear commands it is sent at most the
  configured number of messages, and in any window of time at most one message for each interval of
  the rate limit, and one more.\<close>

theorem live_limits:
  assumes "sorted (map fst es)" "\<forall>te \<in> set es. 0 < fst te" "0 \<le> w"
    and "st = live_run cfg es (live_start cfg now ok stream)"
  shows "int (length (ls_admitted st)) \<le> liveWSMaxMessages cfg * (int (ls_cleared st) + 1) \<and>
    int (length (filter (\<lambda>a. t \<le> a \<and> a < t + w) (ls_admitted st))) \<le> w div liveWSRateLimit cfg + 1"
proof -
  have "\<forall>te \<in> set es. 1 \<le> fst te"
    using assms(2) by fastforce
  then obtain t0 where "live_inv cfg t0 st"
    using live_inv_run [OF live_start_inv [of cfg 1 now ok stream], of es] assms by auto
  then show ?thesis
    using spaced_window [OF _ liveWSRateLimit_pos assms(3)]
    by (auto simp: live_inv_def algebra_simps)
qed

definition ex_cfg :: LiveCfg where
  "ex_cfg = \<lparr>lc_MaxMessages = 2, lc_IdleTimeout = 0, lc_RateLimit = 10, lc_PayloadTruncateBytes = 0,
     lc_ClientCacheTTL = 0, lc_CORSAllowedOrigins = []\<rparr>"

lemma live_limits_witness:
  "ls_admitted (live_run ex_cfg [(5, MessageFrame True ''a''), (9, MessageFrame True ''b''),
      (15, MessageFrame True ''c''), (40, MessageFrame True ''d'')] (live_start ex_cfg 1 True ''S'')) = [15, 5] \<and>
   int (length (filter (\<lambda>a. 0 \<le> a \<and> a < 0 + 20)
     (ls_admitted (live_run ex_cfg [(5, MessageFrame True ''a''), (9, MessageFrame True ''b''),
      (15, MessageFrame True ''c''), (40, MessageFrame True ''d'')] (live_start ex_cfg 1 True ''S''))))) \<le> 3"
proof
  let ?es = "[(5, MessageFrame True ''a''), (9, MessageFrame True ''b''),
      (15, MessageFrame True ''c''), (40, MessageFrame True ''d'')]"
  show "ls_admitted (live_run ex_cfg ?es (live_start ex_cfg 1 True ''S'')) = [15, 5]"
    by code_simp
  have "20 div liveWSRateLimit ex_cfg + 1 = 3"
    by code_simp
  then show "int (length (filter (\<lambda>a. 0 \<le> a \<and> a < 0 + 20)
      (ls_admitted (live_run ex_cfg ?es (live_start ex_cfg 1 True ''S''))))) \<le> 3"
    using live_limits [of ?es 20 _ ex_cfg 1 True "''S''" 0] by simp
qed

end
