(* ===== verification/Jet_Stream.thy ===== *)
theory Jet_Stream
  imports Numbers "HOL-Library.List_Lexorder" "HOL-Library.Char_ord"
begin

text \<open>
  Streams and consumers as the console describes them (\<^verbatim>\<open>internal/domain/jetstream.go\<close>, the fields that
  are read), the impact of deleting a stream (\<^verbatim>\<open>blast_radius.go\<close>), and slow consumers
  (\<^verbatim>\<open>slow_consumer.go\<close>).  The product of an integer and the ratio, computed in floating point and cut to
  an integer, is the parameter \<open>scaled\<close>.
\<close>

section \<open>Streams and consumers\<close>

record StreamConfigDTO =
  sc_Name :: string
  sc_Mirror :: "string option"
  sc_Sources :: "string list"
  sc_Metadata :: "(string \<times> string) list"

record StreamInfo =
  si_Config :: StreamConfigDTO
  si_Msgs :: u64
  si_FirstSeq :: u64
  si_LastSeq :: u64

record ConsumerInfo =
  ci_Name :: string
  ci_DurableName :: string
  ci_ConfigName :: string
  ci_Metadata :: "(string \<times> string) list"
  ci_Delivered :: "u64 option"
  ci_NumPending :: u64
  ci_NumAckPending :: int
  ci_MaxAckPending :: int
  ci_SlowConsumer :: bool
  ci_SlowReasons :: "string list"

text \<open>Reading a key of a Go map: the empty string when it is not there.\<close>

definition metadata :: "(string \<times> string) list \<Rightarrow> string \<Rightarrow> string" where
  "metadata m k = (case map_of m k of None \<Rightarrow> [] | Some v \<Rightarrow> v)"

definition DLQNameSuffix :: string where
  "DLQNameSuffix = ''_DLQ''"

definition IsDLQStream :: "string \<Rightarrow> (string \<times> string) list \<Rightarrow> bool" where
  "IsDLQStream name m \<longleftrightarrow>
     (if HasSuffix name DLQNameSuffix then True
      else if metadata m ''nats-consol/role'' = ''dlq'' then True
      else False)"

section \<open>Blast radius (blast_radius.go)\<close>

definition ServiceID :: "ConsumerInfo \<Rightarrow> string" where
  "ServiceID c =
     (let s = TrimSpace (metadata (ci_Metadata c) ''nats-consol/service'');
          d = TrimSpace (ci_DurableName c);
          n = TrimSpace (ci_ConfigName c) in
      if \<not> IsEmpty s then s
      else if \<not> IsEmpty d then d
      else if \<not> IsEmpty n then n
      else TrimSpace (ci_Name c))"

definition IsCriticalConsumer :: "ConsumerInfo \<Rightarrow> bool" where
  "IsCriticalConsumer c \<longleftrightarrow>
     EqualFold (TrimSpace (metadata (ci_Metadata c) ''nats-consol/critical'')) ''true''"

definition consumerDisplayName :: "ConsumerInfo \<Rightarrow> string" where
  "consumerDisplayName c =
     (let n = TrimSpace (ci_Name c); d = TrimSpace (ci_DurableName c) in
      if \<not> IsEmpty n then n
      else if \<not> IsEmpty d then d
      else TrimSpace (ci_ConfigName c))"

definition streamDependsOn :: "StreamInfo \<Rightarrow> string \<Rightarrow> bool" where
  "streamDependsOn s targetName \<longleftrightarrow>
     (case sc_Mirror (si_Config s) of None \<Rightarrow> False | Some m \<Rightarrow> TrimSpace m = targetName) \<or>
     list_ex (\<lambda>src. TrimSpace src = targetName) (sc_Sources (si_Config s))"

definition isCompanionDLQ :: "string \<Rightarrow> StreamInfo \<Rightarrow> bool" where
  "isCompanionDLQ targetName candidate \<longleftrightarrow>
     (let cfg = si_Config candidate in
      if \<not> IsDLQStream (sc_Name cfg) (sc_Metadata cfg) then False
      else EqualFold (sc_Name cfg) (targetName @ DLQNameSuffix))"

record BlastRadius =
  br_Stream :: string
  br_Critical :: "string list"
  br_ServiceNames :: "string list"
  br_RelatedStreams :: "string list"
  br_ConsumerNames :: "string list"
  br_Services :: nat
  br_Streams :: nat
  br_Consumers :: nat

text \<open>A set is a list without repetitions; \<^verbatim>\<open>sort.Strings\<close> orders bytes lexicographically.\<close>

definition sortedKeys :: "string list \<Rightarrow> string list" where
  "sortedKeys s = sort s"

fun blast_consumers ::
  "ConsumerInfo list \<Rightarrow> string list \<times> string list \<times> string list \<Rightarrow>
     string list \<times> string list \<times> string list" where
  "blast_consumers [] acc = acc"
| "blast_consumers (c # cs) (consumerSet, serviceSet, criticalSet) =
     (let cn = consumerDisplayName c;
          consumerSet = (if IsEmpty cn then consumerSet else List.insert cn consumerSet);
          sid = ServiceID c in
      if IsEmpty sid then blast_consumers cs (consumerSet, serviceSet, criticalSet)
      else blast_consumers cs (consumerSet, List.insert sid serviceSet,
             if IsCriticalConsumer c then List.insert sid criticalSet else criticalSet))"

fun blast_streams :: "string \<Rightarrow> StreamInfo list \<Rightarrow> string list \<Rightarrow> string list" where
  "blast_streams targetName [] acc = acc"
| "blast_streams targetName (s # ss) acc =
     (let nm = TrimSpace (sc_Name (si_Config s)) in
      if IsEmpty nm \<or> nm = targetName then blast_streams targetName ss acc
      else if streamDependsOn s targetName then blast_streams targetName ss (List.insert nm acc)
      else if isCompanionDLQ targetName s then blast_streams targetName ss (List.insert nm acc)
      else blast_streams targetName ss acc)"

definition ComputeBlastRadius ::
  "StreamInfo \<Rightarrow> ConsumerInfo list \<Rightarrow> StreamInfo list \<Rightarrow> BlastRadius" where
  "ComputeBlastRadius target consumers allStreams =
     (let targetName = TrimSpace (sc_Name (si_Config target));
          (consumerSet, serviceSet, criticalSet) = blast_consumers consumers ([], [], []);
          relatedSet = blast_streams targetName allStreams [];
          consumerNames = sortedKeys consumerSet
      in \<lparr>br_Stream = targetName, br_Critical = sortedKeys criticalSet,
          br_ServiceNames = sortedKeys serviceSet, br_RelatedStreams = sortedKeys relatedSet,
          br_ConsumerNames = consumerNames, br_Services = length serviceSet,
          br_Streams = length relatedSet, br_Consumers = length consumerNames\<rparr>)"

section \<open>Slow consumers (slow_consumer.go)\<close>

record SlowConsumerThresholds =
  th_PendingThreshold :: u64
  th_LagThreshold :: u64

definition WithDefaults :: "SlowConsumerThresholds \<Rightarrow> SlowConsumerThresholds" where
  "WithDefaults t =
     \<lparr>th_PendingThreshold = (if th_PendingThreshold t = 0 then 1000 else th_PendingThreshold t),
      th_LagThreshold = (if th_LagThreshold t = 0 then 1000 else th_LagThreshold t)\<rparr>"

definition ConsumerLagMessages :: "u64 \<Rightarrow> u64 \<Rightarrow> u64" where
  "ConsumerLagMessages streamLastSeq deliveredStreamSeq =
     (if streamLastSeq \<le> deliveredStreamSeq then 0 else streamLastSeq - deliveredStreamSeq)"

text \<open>\<open>scaled n\<close> is \<^verbatim>\<open>int(float64(n) * AckPendingRatio)\<close>, with the default ratio applied.\<close>

definition EvaluateSlowConsumer ::
  "(int \<Rightarrow> int) \<Rightarrow> u64 \<Rightarrow> u64 \<Rightarrow> int \<Rightarrow> int \<Rightarrow> SlowConsumerThresholds \<Rightarrow> bool \<times> string list" where
  "EvaluateSlowConsumer scaled pending lag ackPending maxAckPending thr =
     (let thr = WithDefaults thr;
          reasons = (if pending \<ge> th_PendingThreshold thr then [''pending''] else []);
          reasons = (if lag \<ge> th_LagThreshold thr then reasons @ [''lag''] else reasons);
          reasons = (if maxAckPending > 0
                     then let limit = max (scaled maxAckPending) 1
                          in if ackPending \<ge> limit then reasons @ [''ack_pending''] else reasons
                     else reasons)
      in (length reasons > 0, reasons))"

definition ApplySlowConsumerFlags ::
  "(int \<Rightarrow> int) \<Rightarrow> u64 \<Rightarrow> SlowConsumerThresholds \<Rightarrow> ConsumerInfo \<Rightarrow> ConsumerInfo" where
  "ApplySlowConsumerFlags scaled streamLastSeq thr info =
     (let delivered = (case ci_Delivered info of None \<Rightarrow> 0 | Some q \<Rightarrow> q);
          lag = ConsumerLagMessages streamLastSeq delivered;
          (slow, reasons) = EvaluateSlowConsumer scaled (ci_NumPending info) lag
                              (ci_NumAckPending info) (ci_MaxAckPending info) thr
      in info\<lparr>ci_SlowConsumer := slow, ci_SlowReasons := reasons\<rparr>)"

section \<open>What they compute\<close>

lemma blast_consumers_spec:
  assumes "blast_consumers cs (a, b, d) = (a', b', d')"
  shows "set a' = set a \<union> {n. \<exists>c \<in> set cs. n = consumerDisplayName c \<and> n \<noteq> []} \<and>
    set b' = set b \<union> {n. \<exists>c \<in> set cs. n = ServiceID c \<and> n \<noteq> []} \<and>
    set d' = set d \<union> {n. \<exists>c \<in> set cs. n = ServiceID c \<and> n \<noteq> [] \<and> IsCriticalConsumer c} \<and>
    (distinct a \<longrightarrow> distinct a') \<and> (distinct b \<longrightarrow> distinct b') \<and> (distinct d \<longrightarrow> distinct d')"
  using assms
proof (induction cs arbitrary: a b d)
  case (Cons c cs)
  let ?a = "if consumerDisplayName c = [] then a else List.insert (consumerDisplayName c) a"
  let ?b = "if ServiceID c = [] then b else List.insert (ServiceID c) b"
  let ?d = "if ServiceID c = [] \<or> \<not> IsCriticalConsumer c then d else List.insert (ServiceID c) d"
  have "blast_consumers cs (?a, ?b, ?d) = (a', b', d')"
    using Cons.prems by (simp add: Let_def split: if_splits)
  from Cons.IH [OF this] show ?case
    by (auto split: if_splits)
qed auto

lemma blast_streams_spec:
  "set (blast_streams t ss acc) = set acc \<union>
     {n. \<exists>s \<in> set ss. n = TrimSpace (sc_Name (si_Config s)) \<and> n \<noteq> [] \<and> n \<noteq> t \<and>
         (streamDependsOn s t \<or> isCompanionDLQ t s)} \<and>
   (distinct acc \<longrightarrow> distinct (blast_streams t ss acc))"
  by (induction t ss acc rule: blast_streams.induct) (auto simp: Let_def)

text \<open>The impact of deleting a stream lists exactly what it touches: the streams, other than itself,
  that mirror it, source from it, or are its dead-letter companion; the consumers and services on it;
  and the services that a critical consumer marks.  The lists are sorted and without repetition, and
  the counts are their lengths.\<close>

theorem blast_radius_exact:
  fixes t cs ss
  defines "br \<equiv> ComputeBlastRadius t cs ss" and "nm \<equiv> TrimSpace (sc_Name (si_Config t))"
  shows "set (br_RelatedStreams br) =
      {n. \<exists>s \<in> set ss. n = TrimSpace (sc_Name (si_Config s)) \<and> n \<noteq> [] \<and> n \<noteq> nm \<and>
          (streamDependsOn s nm \<or> isCompanionDLQ nm s)} \<and>
    set (br_ConsumerNames br) = consumerDisplayName ` set cs - {[]} \<and>
    set (br_ServiceNames br) = ServiceID ` set cs - {[]} \<and>
    set (br_Critical br) = ServiceID ` {c \<in> set cs. IsCriticalConsumer c} - {[]} \<and>
    list_all (\<lambda>l. sorted l \<and> distinct l)
      [br_RelatedStreams br, br_ConsumerNames br, br_ServiceNames br, br_Critical br] \<and>
    br_Streams br = length (br_RelatedStreams br) \<and> br_Services br = length (br_ServiceNames br) \<and>
    br_Consumers br = length (br_ConsumerNames br)"
proof -
  obtain a b d where abd: "blast_consumers cs ([], [], []) = (a, b, d)"
    by (cases "blast_consumers cs ([], [], [])")
  show ?thesis
    using blast_consumers_spec [OF abd] blast_streams_spec [of nm ss "[]"]
    unfolding br_def nm_def ComputeBlastRadius_def sortedKeys_def by (auto simp: abd Let_def)
qed

text \<open>The lag is the distance to the end of the stream, and never wraps.\<close>

lemma ConsumerLagMessages_exact:
  "unat (ConsumerLagMessages l d) = unat l - unat d"
  by (auto simp: ConsumerLagMessages_def unat_diff_u64 word_le_nat_alt)

lemma slow_consumer_exact:
  assumes "EvaluateSlowConsumer scaled pending lag ack m thr = (slow, reasons)"
  shows "(slow \<longleftrightarrow> reasons \<noteq> []) \<and>
    (''pending'' \<in> set reasons \<longleftrightarrow> th_PendingThreshold (WithDefaults thr) \<le> pending) \<and>
    (''lag'' \<in> set reasons \<longleftrightarrow> th_LagThreshold (WithDefaults thr) \<le> lag) \<and>
    (''ack_pending'' \<in> set reasons \<longleftrightarrow> 0 < m \<and> max (scaled m) 1 \<le> ack)"
  using assms by (auto simp: EvaluateSlowConsumer_def Let_def split: if_splits)

end
