(* ===== verification/Replay.thy ===== *)
theory Replay
  imports Jet_Stream
begin

text \<open>
  Replay of a stream to a consumer (\<^verbatim>\<open>internal/domain/replay.go\<close>), its preview
  (\<^verbatim>\<open>replay_dry_run.go\<close>) and the options handed to the library (\<^verbatim>\<open>internal/nats/client.go\<close>,
  \<^verbatim>\<open>ReplayConsumer\<close>).  The parser of time stamps is the parameter \<open>parse\<close>.
\<close>

section \<open>Requests\<close>

record ReplayConsumerRequest =
  rq_Mode :: string
  rq_From :: string
  rq_Time :: string
  rq_UntilTime :: string
  rq_ReplayPolicy :: string
  rq_FilterSubject :: string
  rq_Durable :: string
  rq_Seq :: u64
  rq_UntilSeq :: u64
  rq_Limit :: int

datatype replay_error =
    BadMode
  | FromRequired
  | SeqRequired
  | TimeRequired
  | TimeNotRFC3339
  | BadFrom
  | UntilTimeNotRFC3339
  | NegativeLimit
  | NotValidWithNew
  | UntilSeqBeforeSeq
  | UntilTimeBeforeTime
  | BadPolicy

definition lower_trim :: "string \<Rightarrow> string" where
  "lower_trim s = ToLower (TrimSpace s)"

definition blank :: "string \<Rightarrow> bool" where
  "blank s \<longleftrightarrow> IsEmpty (TrimSpace s)"

definition NormalizedMode :: "ReplayConsumerRequest \<Rightarrow> string" where
  "NormalizedMode r = (if IsEmpty (lower_trim (rq_Mode r)) then ''reset'' else lower_trim (rq_Mode r))"

definition NormalizedFrom :: "ReplayConsumerRequest \<Rightarrow> string" where
  "NormalizedFrom r = lower_trim (rq_From r)"

definition check_start ::
  "(string \<Rightarrow> gotime option) \<Rightarrow> ReplayConsumerRequest \<Rightarrow> string \<Rightarrow> replay_error option" where
  "check_start parse r from =
     (if from = ''seq'' then (if rq_Seq r = 0 then Some SeqRequired else None)
      else if from = ''time'' then
        (if blank (rq_Time r) then Some TimeRequired
         else if parse (rq_Time r) = None then Some TimeNotRFC3339
         else None)
      else if from = ''beginning'' \<or> from = ''new'' then None
      else Some BadFrom)"

text \<open>\<open>None\<close> is the absence of an error.\<close>

definition ValidateReplay ::
  "(string \<Rightarrow> gotime option) \<Rightarrow> ReplayConsumerRequest \<Rightarrow> replay_error option" where
  "ValidateReplay parse r =
     (let mode = (if IsEmpty (lower_trim (rq_Mode r)) then ''reset'' else lower_trim (rq_Mode r));
          from = lower_trim (rq_From r);
          policy = lower_trim (rq_ReplayPolicy r) in
      if mode \<noteq> ''reset'' \<and> mode \<noteq> ''sidecar'' then Some BadMode
      else if IsEmpty from then Some FromRequired
      else if check_start parse r from \<noteq> None then check_start parse r from
      else if \<not> blank (rq_UntilTime r) \<and> parse (rq_UntilTime r) = None then Some UntilTimeNotRFC3339
      else if rq_Limit r < 0 then Some NegativeLimit
      else if from = ''new'' \<and> (rq_UntilSeq r > 0 \<or> \<not> blank (rq_UntilTime r) \<or> rq_Limit r > 0)
        then Some NotValidWithNew
      else if from = ''seq'' \<and> rq_UntilSeq r > 0 \<and> rq_UntilSeq r < rq_Seq r then Some UntilSeqBeforeSeq
      else if from = ''time'' \<and> \<not> blank (rq_UntilTime r) \<and>
              (case (parse (rq_Time r), parse (rq_UntilTime r)) of
                 (Some start, Some end') \<Rightarrow> end' < start | _ \<Rightarrow> True)
        then Some UntilTimeBeforeTime
      else if \<not> IsEmpty policy \<and> policy \<noteq> ''instant'' \<and> policy \<noteq> ''original'' then Some BadPolicy
      else None)"

section \<open>The preview (replay_dry_run.go)\<close>

record ReplayDryRun =
  dr_PotentialDuplicates :: "string list"
  dr_Messages :: u64
  dr_EstimatedDurationMs :: int
  dr_ConsumersAffected :: int
  dr_Unbounded :: bool
  dr_Approximate :: bool

definition maxInt64 :: int where
  "maxInt64 = 2 ^ 63 - 1"

definition EstimateReplayDurationMs :: "u64 \<Rightarrow> int \<Rightarrow> int" where
  "EstimateReplayDurationMs messages ratePerSec =
     (if messages = 0 then 0
      else
        let rate = (if ratePerSec \<le> 0 then 1000 else ratePerSec);
            secs = (messages + of_int rate - 1) div of_int rate in
        if secs > of_int (maxInt64 div 1000) then maxInt64
        else uint secs * 1000)"

definition resolveReplayStartSeq :: "string \<Rightarrow> u64 \<Rightarrow> u64 \<Rightarrow> u64" where
  "resolveReplayStartSeq from seq firstSeq =
     (if from = ''beginning'' then (if firstSeq = 0 then 1 else firstSeq)
      else if from = ''seq'' then seq
      else 0)"

text \<open>Durations are nanoseconds; \<^verbatim>\<open>Sub\<close> saturates, which a duration beyond 292 years would need.\<close>

definition originalReplayDurationMs ::
  "(string \<Rightarrow> gotime option) \<Rightarrow> ReplayConsumerRequest \<Rightarrow> int" where
  "originalReplayDurationMs parse req =
     (if blank (rq_Time req) \<or> blank (rq_UntilTime req) then 0
      else
        case (parse (rq_Time req), parse (rq_UntilTime req)) of
          (Some start, Some end') \<Rightarrow>
            (let d = max (- (2 ^ 63)) (min maxInt64 (end' - start));
                 ms = (if d < 0 then - ((- d) div 1000000) else d div 1000000)
             in if ms < 0 then 0 else ms)
        | _ \<Rightarrow> 0)"

text \<open>The count of messages, and whether it is unbounded or approximate: the \<^verbatim>\<open>switch\<close>.\<close>

definition dry_run_count ::
  "ReplayConsumerRequest \<Rightarrow> string \<Rightarrow> u64 \<Rightarrow> u64 \<Rightarrow> u64 \<times> bool \<times> bool" where
  "dry_run_count req from firstSeq lastSeq =
     (if rq_Limit req > 0 then (of_int (rq_Limit req), False, False)
      else if from = ''new'' then (0, True, False)
      else if from = ''time'' then (0, blank (rq_UntilTime req) \<and> rq_UntilSeq req = 0, True)
      else
        let startSeq = resolveReplayStartSeq from (rq_Seq req) firstSeq in
        if rq_UntilSeq req > 0 then
          let end' = (if lastSeq > 0 \<and> rq_UntilSeq req > lastSeq then lastSeq else rq_UntilSeq req)
          in (if startSeq > 0 \<and> end' \<ge> startSeq then end' - startSeq + 1 else 0, False, False)
        else
          (if startSeq > 0 \<and> lastSeq \<ge> startSeq then lastSeq - startSeq + 1 else 0, True, False))"

definition ComputeReplayDryRun ::
  "(string \<Rightarrow> gotime option) \<Rightarrow> ReplayConsumerRequest \<Rightarrow> StreamInfo \<Rightarrow> ConsumerInfo \<Rightarrow>
     replay_error + ReplayDryRun" where
  "ComputeReplayDryRun parse req stream target =
     (case ValidateReplay parse req of
        Some e \<Rightarrow> Inl e
      | None \<Rightarrow>
          let sid = ServiceID target;
              from = NormalizedFrom req;
              policy = lower_trim (rq_ReplayPolicy req);
              policy = (if IsEmpty policy then ''instant'' else policy);
              lastSeq = si_LastSeq stream;
              firstSeq = (if si_FirstSeq stream = 0 \<and> lastSeq > 0 then 1 else si_FirstSeq stream);
              (messages, unbounded, approximate) = dry_run_count req from firstSeq lastSeq;
              d = originalReplayDurationMs parse req
          in Inr \<lparr>dr_PotentialDuplicates = (if IsEmpty sid then [] else [sid]),
                  dr_Messages = messages,
                  dr_EstimatedDurationMs =
                    (if policy = ''original'' \<and> d > 0 then d else EstimateReplayDurationMs messages 1000),
                  dr_ConsumersAffected = 1, dr_Unbounded = unbounded, dr_Approximate = approximate\<rparr>)"

section \<open>The options of a replay (client.go)\<close>

datatype replay_opt =
    OneMessage u64
  | FromSeq u64
  | FromTime gotime
  | FromBeginning
  | FromNew
  | UntilSeq u64
  | UntilTime gotime
  | Limit int
  | WithReplayOriginal
  | WithFilterSubject string
  | WithReplayDurable string

definition one_message :: "ReplayConsumerRequest \<Rightarrow> bool" where
  "one_message req \<longleftrightarrow>
     NormalizedFrom req = ''seq'' \<and> rq_Seq req > 0 \<and> rq_UntilSeq req = rq_Seq req \<and> rq_Limit req = 1"

definition start_opts ::
  "(string \<Rightarrow> gotime option) \<Rightarrow> ReplayConsumerRequest \<Rightarrow> replay_error + replay_opt list" where
  "start_opts parse req =
     (let from = NormalizedFrom req in
      if from = ''seq'' then Inr [FromSeq (rq_Seq req)]
      else if from = ''time'' then
        (case parse (rq_Time req) of None \<Rightarrow> Inl TimeNotRFC3339 | Some t \<Rightarrow> Inr [FromTime t])
      else if from = ''beginning'' then Inr [FromBeginning]
      else if from = ''new'' then Inr [FromNew]
      else Inr [])"

definition range_opts ::
  "(string \<Rightarrow> gotime option) \<Rightarrow> ReplayConsumerRequest \<Rightarrow> replay_error + replay_opt list" where
  "range_opts parse req =
     (case start_opts parse req of
        Inl e \<Rightarrow> Inl e
      | Inr opts \<Rightarrow>
          let opts = (if rq_UntilSeq req > 0 then opts @ [UntilSeq (rq_UntilSeq req)] else opts) in
          case (if blank (rq_UntilTime req) then Inr opts
                else case parse (rq_UntilTime req) of
                       None \<Rightarrow> Inl UntilTimeNotRFC3339 | Some t \<Rightarrow> Inr (opts @ [UntilTime t])) of
            Inl e \<Rightarrow> Inl e
          | Inr opts \<Rightarrow> Inr (if rq_Limit req > 0 then opts @ [Limit (rq_Limit req)] else opts))"

definition replay_opts ::
  "(string \<Rightarrow> gotime option) \<Rightarrow> ReplayConsumerRequest \<Rightarrow> replay_error + replay_opt list" where
  "replay_opts parse req =
     (case (if one_message req then Inr [OneMessage (rq_Seq req)] else range_opts parse req) of
        Inl e \<Rightarrow> Inl e
      | Inr opts \<Rightarrow>
          let opts = (if EqualFold (TrimSpace (rq_ReplayPolicy req)) ''original''
                      then opts @ [WithReplayOriginal] else opts);
              filter = TrimSpace (rq_FilterSubject req);
              opts = (if IsEmpty filter then opts else opts @ [WithFilterSubject filter]);
              durable = TrimSpace (rq_Durable req)
          in Inr (if \<not> IsEmpty durable \<and> NormalizedMode req = ''sidecar''
                  then opts @ [WithReplayDurable durable] else opts))"

text \<open>Which call of the library is made, and with which options.\<close>

datatype replay_call = ResetConsumer "replay_opt list" | CreateReplayConsumer "replay_opt list"

definition ReplayConsumer ::
  "(string \<Rightarrow> gotime option) \<Rightarrow> ReplayConsumerRequest \<Rightarrow> replay_error + replay_call" where
  "ReplayConsumer parse req =
     (case ValidateReplay parse req of
        Some e \<Rightarrow> Inl e
      | None \<Rightarrow>
          (case replay_opts parse req of
             Inl e \<Rightarrow> Inl e
           | Inr opts \<Rightarrow>
               Inr (if NormalizedMode req = ''sidecar'' then CreateReplayConsumer opts
                    else ResetConsumer opts)))"

section \<open>Validated requests\<close>

lemma NormalizedMode_alt:
  "(if lower_trim (rq_Mode r) = [] then ''reset'' else lower_trim (rq_Mode r)) = NormalizedMode r"
  by (simp add: NormalizedMode_def)

lemma guard_None: "(if c then Some e else t) = None \<longleftrightarrow> \<not> c \<and> t = None"
  and pass_None: "(if x \<noteq> None then x else t) = None \<longleftrightarrow> x = None \<and> t = None"
  by auto

lemma validate_iff:
  "ValidateReplay parse r = None \<longleftrightarrow>
     \<not> (NormalizedMode r \<noteq> ''reset'' \<and> NormalizedMode r \<noteq> ''sidecar'') \<and> NormalizedFrom r \<noteq> [] \<and>
     check_start parse r (NormalizedFrom r) = None \<and>
     \<not> (\<not> blank (rq_UntilTime r) \<and> parse (rq_UntilTime r) = None) \<and> \<not> rq_Limit r < 0 \<and>
     \<not> (NormalizedFrom r = ''new'' \<and> (rq_UntilSeq r > 0 \<or> \<not> blank (rq_UntilTime r) \<or> rq_Limit r > 0)) \<and>
     \<not> (NormalizedFrom r = ''seq'' \<and> rq_UntilSeq r > 0 \<and> rq_UntilSeq r < rq_Seq r) \<and>
     \<not> (NormalizedFrom r = ''time'' \<and> \<not> blank (rq_UntilTime r) \<and>
        (case (parse (rq_Time r), parse (rq_UntilTime r)) of
           (Some start, Some end') \<Rightarrow> end' < start | _ \<Rightarrow> True)) \<and>
     \<not> (lower_trim (rq_ReplayPolicy r) \<noteq> [] \<and> lower_trim (rq_ReplayPolicy r) \<noteq> ''instant'' \<and>
        lower_trim (rq_ReplayPolicy r) \<noteq> ''original'')"
  unfolding ValidateReplay_def Let_def IsEmpty_iff NormalizedMode_alt NormalizedFrom_def [symmetric]
    guard_None pass_None by (simp only: simp_thms)

lemma validate_accepts:
  assumes "ValidateReplay parse r = None"
  shows "NormalizedMode r = ''reset'' \<or> NormalizedMode r = ''sidecar''"
    and "check_start parse r (NormalizedFrom r) = None" and "NormalizedFrom r \<noteq> []"
    and "\<not> blank (rq_UntilTime r) \<Longrightarrow> parse (rq_UntilTime r) \<noteq> None" and "0 \<le> rq_Limit r"
    and "NormalizedFrom r = ''new'' \<Longrightarrow> rq_UntilSeq r = 0 \<and> blank (rq_UntilTime r) \<and> rq_Limit r = 0"
    and "NormalizedFrom r = ''seq'' \<Longrightarrow> rq_UntilSeq r \<noteq> 0 \<Longrightarrow> rq_Seq r \<le> rq_UntilSeq r"
    and "NormalizedFrom r = ''time'' \<Longrightarrow> \<not> blank (rq_UntilTime r) \<Longrightarrow>
      \<exists>a b. parse (rq_Time r) = Some a \<and> parse (rq_UntilTime r) = Some b \<and> a \<le> b"
proof -
  note v = assms [unfolded validate_iff]
  show "NormalizedFrom r = ''time'' \<Longrightarrow> \<not> blank (rq_UntilTime r) \<Longrightarrow>
      \<exists>a b. parse (rq_Time r) = Some a \<and> parse (rq_UntilTime r) = Some b \<and> a \<le> b"
    using v by (auto split: option.splits)
qed (use assms [unfolded validate_iff] in \<open>auto simp: word_gt_0 not_less\<close>)

lemma start_opts_valid:
  assumes "check_start parse r (NormalizedFrom r) = None"
  shows "\<exists>st. start_opts parse r = Inr [st] \<and>
    ((st = FromSeq (rq_Seq r) \<and> NormalizedFrom r = ''seq'') \<or>
     (\<exists>t. st = FromTime t \<and> NormalizedFrom r = ''time'' \<and> parse (rq_Time r) = Some t) \<or>
     (st = FromBeginning \<and> NormalizedFrom r = ''beginning'') \<or>
     (st = FromNew \<and> NormalizedFrom r = ''new''))"
  using assms by (auto simp: check_start_def start_opts_def Let_def split: if_splits option.splits)

text \<open>What the options say of the range to replay.\<close>

definition range_consistent :: "replay_opt list \<Rightarrow> bool" where
  "range_consistent opts \<longleftrightarrow>
     (\<forall>a b. FromSeq a \<in> set opts \<longrightarrow> UntilSeq b \<in> set opts \<longrightarrow> a \<le> b) \<and>
     (\<forall>a b. FromTime a \<in> set opts \<longrightarrow> UntilTime b \<in> set opts \<longrightarrow> a \<le> b) \<and>
     (FromNew \<in> set opts \<longrightarrow>
        (\<forall>a. UntilSeq a \<notin> set opts) \<and> (\<forall>a. UntilTime a \<notin> set opts) \<and> (\<forall>n. Limit n \<notin> set opts)) \<and>
     (\<forall>n. Limit n \<in> set opts \<longrightarrow> 0 < n)"

lemma range_opts_valid:
  assumes v: "ValidateReplay parse r = None"
  shows "\<exists>opts. range_opts parse r = Inr opts \<and> range_consistent opts \<and>
    (\<forall>f. WithFilterSubject f \<notin> set opts) \<and> (\<forall>d. WithReplayDurable d \<notin> set opts)"
proof -
  note a = validate_accepts [OF v]
  obtain st where st: "start_opts parse r = Inr [st]"
    "(st = FromSeq (rq_Seq r) \<and> NormalizedFrom r = ''seq'') \<or>
     (\<exists>t. st = FromTime t \<and> NormalizedFrom r = ''time'' \<and> parse (rq_Time r) = Some t) \<or>
     (st = FromBeginning \<and> NormalizedFrom r = ''beginning'') \<or>
     (st = FromNew \<and> NormalizedFrom r = ''new'')"
    using start_opts_valid [OF a(2)] by blast
  define us where "us = (if rq_UntilSeq r > 0 then [UntilSeq (rq_UntilSeq r)] else [])"
  define ut where "ut = (if blank (rq_UntilTime r) then [] else [UntilTime (the (parse (rq_UntilTime r)))])"
  define ul where "ul = (if rq_Limit r > 0 then [Limit (rq_Limit r)] else [])"
  have "range_opts parse r = Inr (st # us @ ut @ ul)"
    using a(4) st(1)
    by (cases "blank (rq_UntilTime r)") (auto simp: range_opts_def Let_def us_def ut_def ul_def)
  moreover have "range_consistent (st # us @ ut @ ul)"
    using st(2) a(6-8)
    by (auto simp: range_consistent_def us_def ut_def ul_def word_gt_0 split: if_splits)
  ultimately show ?thesis
    using st(2) by (auto simp: us_def ut_def ul_def split: if_splits)
qed

text \<open>A replay request that validates is carried out: the library is called, for a sidecar consumer only
  in that mode, and the options describe a possible range: it does not end before it starts, neither in
  sequences nor in time, has no end when only new messages are wanted, and limits are positive.\<close>

theorem valid_replay_called:
  assumes v: "ValidateReplay parse r = None"
  shows "\<exists>opts. ReplayConsumer parse r =
      Inr (if NormalizedMode r = ''sidecar'' then CreateReplayConsumer opts else ResetConsumer opts) \<and>
    range_consistent opts \<and>
    (\<forall>d. WithReplayDurable d \<in> set opts \<longrightarrow> NormalizedMode r = ''sidecar'' \<and> d \<noteq> [])"
proof -
  obtain opts where opts: "(if one_message r then Inr [OneMessage (rq_Seq r)] else range_opts parse r) = Inr opts"
      "range_consistent opts" "\<forall>d. WithReplayDurable d \<notin> set opts"
    using range_opts_valid [OF v] by (cases "one_message r") (auto simp: range_consistent_def)
  define rest where "rest =
      (if EqualFold (TrimSpace (rq_ReplayPolicy r)) ''original'' then [WithReplayOriginal] else []) @
      (if IsEmpty (TrimSpace (rq_FilterSubject r)) then [] else [WithFilterSubject (TrimSpace (rq_FilterSubject r))]) @
      (if \<not> IsEmpty (TrimSpace (rq_Durable r)) \<and> NormalizedMode r = ''sidecar''
       then [WithReplayDurable (TrimSpace (rq_Durable r))] else [])"
  have "replay_opts parse r = Inr (opts @ rest)"
    by (simp add: replay_opts_def opts(1) Let_def rest_def)
  moreover have "range_consistent (opts @ rest)"
    using opts(2) by (auto simp: range_consistent_def rest_def split: if_splits)
  moreover have "WithReplayDurable d \<in> set (opts @ rest) \<longrightarrow> NormalizedMode r = ''sidecar'' \<and> d \<noteq> []" for d
    using opts(3) by (auto simp: rest_def split: if_splits)
  ultimately show ?thesis
    by (auto simp: ReplayConsumer_def v)
qed

definition ex_replay :: ReplayConsumerRequest where
  "ex_replay = \<lparr>rq_Mode = '' Sidecar '', rq_From = ''seq'', rq_Time = [], rq_UntilTime = [], rq_ReplayPolicy = [],
     rq_FilterSubject = [], rq_Durable = ''audit'', rq_Seq = 5, rq_UntilSeq = 9, rq_Limit = 0\<rparr>"

lemma ex_replay_valid: "ValidateReplay (\<lambda>_. None) ex_replay = None"
  by code_simp

lemma valid_replay_called_witness:
  "ReplayConsumer (\<lambda>_. None) ex_replay =
     Inr (CreateReplayConsumer [FromSeq 5, UntilSeq 9, WithReplayDurable ''audit'']) \<and>
   (\<exists>opts. ReplayConsumer (\<lambda>_. None) ex_replay =
      Inr (if NormalizedMode ex_replay = ''sidecar'' then CreateReplayConsumer opts else ResetConsumer opts) \<and>
      range_consistent opts)"
proof -
  have "ReplayConsumer (\<lambda>_. None) ex_replay =
      Inr (CreateReplayConsumer [FromSeq 5, UntilSeq 9, WithReplayDurable ''audit''])"
    by code_simp
  then show ?thesis
    using valid_replay_called [OF ex_replay_valid] by blast
qed

section \<open>The estimates\<close>

definition ceil_div :: "nat \<Rightarrow> nat \<Rightarrow> nat" where
  "ceil_div a b = (a + b - 1) div b"

lemma ceil_div_le_iff: "0 < b \<Longrightarrow> ceil_div a b \<le> k \<longleftrightarrow> a \<le> k * b"
  by (auto simp: ceil_div_def div_le_dividend less_Suc_eq_le [symmetric] div_less_iff_less_mult algebra_simps)

text \<open>The estimated duration of a replay is the number of messages divided by the rate, rounded up, in
  seconds given as milliseconds, clamped to the largest 64-bit integer, whenever the sum of messages and
  rate fits 64 bits; it is never negative and never exceeds 64 bits in any case.\<close>

theorem estimate_exact:
  "0 \<le> EstimateReplayDurationMs messages rate \<and> EstimateReplayDurationMs messages rate \<le> maxInt64 \<and>
   (0 < rate \<and> int (unat messages) + rate \<le> 2 ^ 64 \<longrightarrow>
      (let secs = int (ceil_div (unat messages) (nat rate)) in
       EstimateReplayDurationMs messages rate =
         (if secs > maxInt64 div 1000 then maxInt64 else secs * 1000)))"
proof (intro conjI impI)
  have clamp: "unat (of_int (maxInt64 div 1000) :: u64) = nat (maxInt64 div 1000)"
    by (simp add: maxInt64_def)
  have le: "uint w * 1000 \<le> maxInt64" if "\<not> of_int (maxInt64 div 1000) < w" for w :: u64
  proof -
    have "unat w \<le> nat (maxInt64 div 1000)"
      using that clamp by (simp only: word_less_nat_alt not_less)
    moreover have "0 \<le> maxInt64 div 1000"
      by (simp add: maxInt64_def)
    ultimately have "int (unat w) \<le> maxInt64 div 1000"
      by linarith
    then show ?thesis
      by (simp add: maxInt64_def)
  qed
  show "0 \<le> EstimateReplayDurationMs messages rate" "EstimateReplayDurationMs messages rate \<le> maxInt64"
    using le by (auto simp: EstimateReplayDurationMs_def Let_def maxInt64_def)
  assume r: "0 < rate \<and> int (unat messages) + rate \<le> 2 ^ 64"
  show "let secs = int (ceil_div (unat messages) (nat rate)) in
       EstimateReplayDurationMs messages rate =
         (if secs > maxInt64 div 1000 then maxInt64 else secs * 1000)"
  proof (cases "messages = 0")
    case True
    then show ?thesis using r by (simp add: EstimateReplayDurationMs_def ceil_div_def maxInt64_def)
  next
    case False
    have pos: "unat (messages - 1) = unat messages - 1" "0 < unat messages"
      using False by (simp_all add: unat_pred_u64 unat_gt_0)
    obtain k where k: "rate = int k"
      using r by (metis less_imp_le zero_le_imp_eq_int)
    have sum: "unat messages + k \<le> 2 ^ 64"
      using conjunct2 [OF r, unfolded k, folded of_nat_add]
      by (metis of_nat_le_iff of_nat_numeral of_nat_power)
    then have "k < 2 ^ 64"
      using pos(2) by linarith
    then have ur: "unat (of_int rate :: u64) = nat rate"
      by (simp add: k unat_of_nat)
    have "unat (messages - 1) + unat (of_int rate :: u64) < 2 ^ 64"
      unfolding pos(1) ur unfolding k nat_int using sum pos(2) by linarith
    from unat_add_u64 [OF this] have "unat (messages + of_int rate - 1) = unat messages + nat rate - 1"
      using pos ur by (simp add: algebra_simps)
    then have secs: "unat ((messages + of_int rate - 1) div of_int rate) = ceil_div (unat messages) (nat rate)"
      by (simp add: unat_div_u64 ceil_div_def ur)
    then have u: "uint ((messages + of_int rate - 1) div of_int rate) = int (ceil_div (unat messages) (nat rate))"
      by (metis uint_nat)
    have "nat (maxInt64 div 1000) < n \<longleftrightarrow> maxInt64 div 1000 < int n" for n
      by (simp add: maxInt64_def nat_less_iff)
    then show ?thesis
      using False r unfolding EstimateReplayDurationMs_def Let_def
      by (simp add: word_less_nat_alt clamp secs u)
  qed
qed

lemma estimate_exact_witness:
  "EstimateReplayDurationMs 2500 1000 = 3000 \<and>
   (let secs = int (ceil_div 2500 1000) in
    EstimateReplayDurationMs 2500 1000 = (if secs > maxInt64 div 1000 then maxInt64 else secs * 1000))"
proof
  show "EstimateReplayDurationMs 2500 1000 = 3000"
    by code_simp
  show "let secs = int (ceil_div 2500 1000) in
    EstimateReplayDurationMs 2500 1000 = (if secs > maxInt64 div 1000 then maxInt64 else secs * 1000)"
    using estimate_exact [of 2500 1000] by simp
qed

text \<open>Intervals of words, counted.\<close>

lemma card_interval_u64: "card {a..b :: u64} = unat b + 1 - unat a"
proof -
  have "inj_on unat {a..b}"
    by (rule inj_onI) (simp add: word_unat_eq_iff)
  moreover have "unat ` {a..b} = {unat a..unat b}"
  proof
    show "unat ` {a..b} \<subseteq> {unat a..unat b}"
      by (auto simp: word_le_nat_alt)
    show "{unat a..unat b} \<subseteq> unat ` {a..b}"
    proof
      fix n assume n: "n \<in> {unat a..unat b}"
      then have "n < 2 ^ 64"
        using u64_lt [of b] by simp
      then have "unat (of_nat n :: u64) = n"
        by (simp add: unat_of_nat)
      with n show "n \<in> unat ` {a..b}"
        by (intro image_eqI [of _ _ "of_nat n"]) (auto simp: word_le_nat_alt)
    qed
  qed
  ultimately show ?thesis
    using card_image [of unat "{a..b}"] by simp
qed

lemma unat_interval_u64:
  fixes a b :: u64
  assumes "0 < a"
  shows "unat (if b \<ge> a then b - a + 1 else 0) = card {a..b}"
proof (cases "a \<le> b")
  case True
  have "0 < unat a"
    using assms by (simp add: word_less_nat_alt)
  then have "unat (b - a) + unat (1 :: u64) < 2 ^ 64"
    using u64_lt [of b] by (simp add: unat_diff_u64 True)
  from unat_add_u64 [OF this] show ?thesis
    using True by (simp add: unat_diff_u64 card_interval_u64 word_le_nat_alt)
next
  case False
  then show ?thesis by (simp add: card_interval_u64 word_le_nat_alt)
qed

text \<open>The sequences a replay from a sequence or from the beginning covers.\<close>

definition replay_start :: "ReplayConsumerRequest \<Rightarrow> StreamInfo \<Rightarrow> u64" where
  "replay_start req stream =
     (if NormalizedFrom req = ''seq'' then rq_Seq req
      else if si_FirstSeq stream = 0 then 1 else si_FirstSeq stream)"

definition replayed :: "ReplayConsumerRequest \<Rightarrow> StreamInfo \<Rightarrow> u64 \<Rightarrow> bool" where
  "replayed req stream x \<longleftrightarrow>
     replay_start req stream \<le> x \<and> x \<le> si_LastSeq stream \<and> (rq_UntilSeq req \<noteq> 0 \<longrightarrow> x \<le> rq_UntilSeq req)"

lemma dry_run_messages:
  assumes run: "ComputeReplayDryRun parse req stream target = Inr dr"
    and src: "NormalizedFrom req = ''seq'' \<or> NormalizedFrom req = ''beginning''"
  shows "0 < replay_start req stream"
    and "rq_Limit req > 0 \<Longrightarrow> dr_Messages dr = of_int (rq_Limit req)"
    and "rq_Limit req = 0 \<Longrightarrow> si_LastSeq stream \<noteq> 0 \<Longrightarrow>
      unat (dr_Messages dr) = card {x. replayed req stream x}"
proof -
  have v: "ValidateReplay parse req = None"
    using run by (simp add: ComputeReplayDryRun_def split: option.splits)
  have "NormalizedFrom req = ''seq'' \<Longrightarrow> rq_Seq req \<noteq> 0"
    using validate_accepts(2) [OF v] by (simp add: check_start_def split: if_splits)
  then show pos: "0 < replay_start req stream"
    by (auto simp: replay_start_def word_gt_0)
  define first where "first =
      (if si_FirstSeq stream = 0 \<and> si_LastSeq stream > 0 then 1 else si_FirstSeq stream)"
  have msgs: "dr_Messages dr = fst (dry_run_count req (NormalizedFrom req) first (si_LastSeq stream))"
  proof -
    obtain m u a where c: "dry_run_count req (NormalizedFrom req) first (si_LastSeq stream) = (m, u, a)"
      by (cases "dry_run_count req (NormalizedFrom req) first (si_LastSeq stream)")
    then have "dr_Messages dr = m"
      using run unfolding ComputeReplayDryRun_def Let_def v first_def [symmetric] option.case c prod.case
        sum.inject by (metis ReplayDryRun.select_convs(2))
    then show ?thesis
      by (simp add: c)
  qed
  show "rq_Limit req > 0 \<Longrightarrow> dr_Messages dr = of_int (rq_Limit req)"
    by (simp add: msgs dry_run_count_def)
  assume lim: "rq_Limit req = 0" and last: "si_LastSeq stream \<noteq> 0"
  have start: "resolveReplayStartSeq (NormalizedFrom req) (rq_Seq req) first = replay_start req stream"
    using src last by (auto simp: resolveReplayStartSeq_def replay_start_def first_def word_gt_0)
  define e where "e = (if rq_UntilSeq req > 0
      then (if si_LastSeq stream > 0 \<and> rq_UntilSeq req > si_LastSeq stream then si_LastSeq stream
            else rq_UntilSeq req)
      else si_LastSeq stream)"
  have "{x. replayed req stream x} = {replay_start req stream..e}"
    using last by (auto simp: replayed_def e_def word_gt_0 split: if_splits)
  moreover have "dr_Messages dr = (if e \<ge> replay_start req stream then e - replay_start req stream + 1 else 0)"
    using src pos lim by (auto simp: msgs dry_run_count_def start Let_def e_def)
  ultimately show "unat (dr_Messages dr) = card {x. replayed req stream x}"
    using unat_interval_u64 [OF pos] by simp
qed

text \<open>The preview of a replay from a sequence or from the beginning never promises too little: whatever
  messages \<open>S\<close> the stream holds, no more of them are replayed than it counts.  Without a limit it counts
  exactly the sequences of the range, so it is exact when none of them is missing.\<close>

theorem dry_run_counts:
  assumes run: "ComputeReplayDryRun parse req stream target = Inr dr"
    and src: "NormalizedFrom req = ''seq'' \<or> NormalizedFrom req = ''beginning''"
    and last: "si_LastSeq stream \<noteq> 0" and lim: "rq_Limit req < 2 ^ 63"
  shows "(let n = card {x \<in> S. replayed req stream x} in
      (if rq_Limit req > 0 then min n (nat (rq_Limit req)) else n) \<le> unat (dr_Messages dr)) \<and>
    (rq_Limit req = 0 \<longrightarrow> {x. replayed req stream x} \<subseteq> S \<longrightarrow>
      card {x \<in> S. replayed req stream x} = unat (dr_Messages dr))"
proof -
  note m = dry_run_messages [OF run src]
  have v: "ValidateReplay parse req = None"
    using run by (simp add: ComputeReplayDryRun_def split: option.splits)
  have sub: "card {x \<in> S. replayed req stream x} \<le> card {x. replayed req stream x}"
    by (rule card_mono) auto
  show ?thesis
  proof (cases "rq_Limit req = 0")
    case True
    moreover have "{x \<in> S. replayed req stream x} = {x. replayed req stream x}"
      if "{x. replayed req stream x} \<subseteq> S"
      using that by blast
    ultimately show ?thesis
      using m(3) last sub by auto
  next
    case False
    then have pos: "0 < rq_Limit req"
      using validate_accepts(5) [OF v] by simp
    have "nat (rq_Limit req) < 2 ^ 64"
      using lim by (simp add: nat_less_iff)
    moreover have "(of_int (rq_Limit req) :: u64) = of_nat (nat (rq_Limit req))"
      using pos by simp
    ultimately have "unat (of_int (rq_Limit req) :: u64) = nat (rq_Limit req)"
      by (simp only: unat_of_nat) simp
    then show ?thesis
      using m(2) pos by simp
  qed
qed

definition ex_stream :: StreamInfo where
  "ex_stream = \<lparr>si_Config = \<lparr>sc_Name = ''S'', sc_Mirror = None, sc_Sources = [], sc_Metadata = []\<rparr>,
     si_Msgs = 3, si_FirstSeq = 6, si_LastSeq = 12\<rparr>"

definition ex_consumer :: ConsumerInfo where
  "ex_consumer = \<lparr>ci_Name = ''c'', ci_DurableName = ''c'', ci_ConfigName = [], ci_Metadata = [],
     ci_Delivered = None, ci_NumPending = 0, ci_NumAckPending = 0, ci_MaxAckPending = 0,
     ci_SlowConsumer = False, ci_SlowReasons = []\<rparr>"

lemma dry_run_counts_witness:
  "\<exists>dr. ComputeReplayDryRun (\<lambda>_. None) ex_replay ex_stream ex_consumer = Inr dr \<and> dr_Messages dr = 5 \<and>
     card {x \<in> {6, 8, 12}. replayed ex_replay ex_stream x} \<le> unat (dr_Messages dr)"
proof -
  have run: "ComputeReplayDryRun (\<lambda>_. None) ex_replay ex_stream ex_consumer =
      Inr \<lparr>dr_PotentialDuplicates = [''c''], dr_Messages = 5, dr_EstimatedDurationMs = 1000,
        dr_ConsumersAffected = 1, dr_Unbounded = False, dr_Approximate = False\<rparr>"
    by code_simp
  have ok: "NormalizedFrom ex_replay = ''seq'' \<or> NormalizedFrom ex_replay = ''beginning''"
      "si_LastSeq ex_stream \<noteq> 0" "rq_Limit ex_replay < 2 ^ 63" "rq_Limit ex_replay = 0"
    by code_simp+
  show ?thesis
    using dry_run_counts [OF run ok(1-3), of "{6, 8, 12}"] ok(4) by (simp add: run)
qed

end
