(* ===== verification/Messages.thy ===== *)
theory Messages
  imports Numbers
begin

text \<open>
  Messages of a stream and the navigation between them (\<^verbatim>\<open>internal/nats/client.go\<close>,
  \<^verbatim>\<open>seq_exists.go\<close>, \<^verbatim>\<open>internal/domain/message.go\<close>).  The JetStream library is the parameter \<open>JsApi\<close>; what
  theorems use of it is \<open>js_ok\<close>: a message that is asked for by sequence has that sequence, and the next
  message after a sequence comes after it.

  The binary search runs on 64-bit words.  Its fuel counts iterations; 64 are enough for every
  interval, which is shown below.
\<close>

section \<open>Messages\<close>

record RawStreamMsg =
  rm_Sequence :: u64
  rm_Subject :: string
  rm_Time :: gotime
  rm_Data :: string
  rm_Header :: "(string \<times> string list) list"

record StreamMessage =
  sm_Headers :: "(string \<times> string) list"
  sm_Subject :: string
  sm_Time :: string
  sm_Data :: string
  sm_Seq :: u64

text \<open>Base64 and the formatting of times are parameters.\<close>

definition StreamMessageFromRaw ::
  "(string \<Rightarrow> string) \<Rightarrow> (gotime \<Rightarrow> string) \<Rightarrow> RawStreamMsg \<Rightarrow> StreamMessage" where
  "StreamMessageFromRaw base64 rfc3339 msg =
     \<lparr>sm_Headers = map (\<lambda>(k, vals). (k, hd vals)) (filter (\<lambda>(k, vals). vals \<noteq> []) (rm_Header msg)),
      sm_Subject = rm_Subject msg, sm_Time = rfc3339 (rm_Time msg), sm_Data = base64 (rm_Data msg),
      sm_Seq = rm_Sequence msg\<rparr>"

datatype js_error = MsgNotFound | JsFailed string

record StreamState =
  st_Msgs :: u64
  st_FirstSeq :: u64
  st_LastSeq :: u64

record JsApi =
  js_StreamInfo :: "string \<Rightarrow> js_error + StreamState"
  js_GetMsg :: "string \<Rightarrow> u64 \<Rightarrow> js_error + RawStreamMsg"
  js_GetNextMsgAfter :: "string \<Rightarrow> u64 \<Rightarrow> js_error + RawStreamMsg"

definition js_ok :: "JsApi \<Rightarrow> bool" where
  "js_ok js \<longleftrightarrow>
     (\<forall>stream seq msg. js_GetMsg js stream seq = Inr msg \<longrightarrow> rm_Sequence msg = seq) \<and>
     (\<forall>stream seq msg. js_GetNextMsgAfter js stream seq = Inr msg \<longrightarrow>
        seq < rm_Sequence msg \<and> js_GetMsg js stream (rm_Sequence msg) = Inr msg)"

definition stored :: "JsApi \<Rightarrow> string \<Rightarrow> u64 \<Rightarrow> bool" where
  "stored js stream seq \<longleftrightarrow> (\<exists>msg. js_GetMsg js stream seq = Inr msg)"

section \<open>The cache of probes (seq_exists.go)\<close>

record streamSeqBits =
  sb_present :: "u64 set"
  sb_absent :: "u64 set"

type_synonym seqExistsCache = "string \<Rightarrow> streamSeqBits option"

definition newSeqExistsCache :: seqExistsCache where
  "newSeqExistsCache = (\<lambda>_. None)"

text \<open>\<open>None\<close>: not known.\<close>

definition known :: "seqExistsCache \<Rightarrow> string \<Rightarrow> u64 \<Rightarrow> bool option" where
  "known c stream seq =
     (case c stream of
        None \<Rightarrow> None
      | Some bits \<Rightarrow>
          if seq \<in> sb_present bits then Some True
          else if seq \<in> sb_absent bits then Some False
          else None)"

definition no_bits :: streamSeqBits where
  "no_bits = \<lparr>sb_present = {}, sb_absent = {}\<rparr>"

definition mark_bits :: "streamSeqBits \<Rightarrow> u64 \<Rightarrow> bool \<Rightarrow> streamSeqBits" where
  "mark_bits bits seq exists =
     (if exists then bits\<lparr>sb_present := insert seq (sb_present bits), sb_absent := sb_absent bits - {seq}\<rparr>
      else bits\<lparr>sb_absent := insert seq (sb_absent bits), sb_present := sb_present bits - {seq}\<rparr>)"

definition mark :: "string \<Rightarrow> u64 \<Rightarrow> bool \<Rightarrow> seqExistsCache \<Rightarrow> seqExistsCache" where
  "mark stream seq exists c =
     (let bits = (case c stream of None \<Rightarrow> no_bits | Some b \<Rightarrow> b);
          bits = mark_bits bits seq exists;
          bits = (if card (sb_present bits) + card (sb_absent bits) > 4096
                  then mark_bits no_bits seq exists else bits)
      in c(stream := Some bits))"

section \<open>Binary search (client.go)\<close>

text \<open>A cached answer or a probe, which is cached; \<open>None\<close>: the probe failed.\<close>

definition seq_exists :: "JsApi \<Rightarrow> string \<Rightarrow> u64 \<Rightarrow> seqExistsCache \<Rightarrow> bool option \<times> seqExistsCache" where
  "seq_exists js stream mid c =
     (case known c stream mid of
        Some b \<Rightarrow> (Some b, c)
      | None \<Rightarrow>
          (case js_GetMsg js stream mid of
             Inr _ \<Rightarrow> (Some True, mark stream mid True c)
           | Inl MsgNotFound \<Rightarrow> (Some False, mark stream mid False c)
           | Inl (JsFailed _) \<Rightarrow> (None, c)))"

fun prev_loop ::
  "nat \<Rightarrow> JsApi \<Rightarrow> string \<Rightarrow> u64 \<Rightarrow> u64 \<Rightarrow> u64 \<Rightarrow> u64 option \<Rightarrow> seqExistsCache \<Rightarrow>
     (u64 option \<times> seqExistsCache) option" where
  "prev_loop n js stream firstSeq lo hi found c =
     (if lo \<le> hi then
        (case n of
           0 \<Rightarrow> None
         | Suc m \<Rightarrow>
             (let mid = lo + (hi - lo) div 2 in
              case seq_exists js stream mid c of
                (None, c) \<Rightarrow> Some (None, c)
              | (Some True, c) \<Rightarrow> prev_loop m js stream firstSeq (mid + 1) hi (Some mid) c
              | (Some False, c) \<Rightarrow>
                  if mid = firstSeq then Some (found, c)
                  else prev_loop m js stream firstSeq lo (mid - 1) found c))
      else Some (found, c))"

declare prev_loop.simps [simp del]

definition findPrevSeq ::
  "JsApi \<Rightarrow> string \<Rightarrow> u64 \<Rightarrow> u64 \<Rightarrow> seqExistsCache \<Rightarrow> (u64 option \<times> seqExistsCache) option" where
  "findPrevSeq js stream seq firstSeq c =
     (if seq \<le> firstSeq then Some (None, c)
      else prev_loop 64 js stream firstSeq firstSeq (seq - 1) None c)"

definition findNextSeq :: "JsApi \<Rightarrow> string \<Rightarrow> u64 \<Rightarrow> u64 \<Rightarrow> u64 option" where
  "findNextSeq js stream seq lastSeq =
     (if seq \<ge> lastSeq then None
      else case js_GetNextMsgAfter js stream seq of Inl _ \<Rightarrow> None | Inr msg \<Rightarrow> Some (rm_Sequence msg))"

record MessageResult =
  mr_Message :: RawStreamMsg
  mr_PrevSeq :: "u64 option"
  mr_NextSeq :: "u64 option"

definition nav_result ::
  "JsApi \<Rightarrow> string \<Rightarrow> StreamState \<Rightarrow> RawStreamMsg \<Rightarrow> seqExistsCache \<Rightarrow> (MessageResult \<times> seqExistsCache) option" where
  "nav_result js stream info msg c =
     (let c = mark stream (rm_Sequence msg) True c in
      case findPrevSeq js stream (rm_Sequence msg) (st_FirstSeq info) c of
        None \<Rightarrow> None
      | Some (prev, c) \<Rightarrow>
          Some (\<lparr>mr_Message = msg, mr_PrevSeq = prev,
                 mr_NextSeq = findNextSeq js stream (rm_Sequence msg) (st_LastSeq info)\<rparr>, c))"

datatype nav_error = NavJs js_error | InvalidDirection string

text \<open>The outer option is the search running out of fuel, which does not happen.\<close>

definition GetMessageNav ::
  "JsApi \<Rightarrow> string \<Rightarrow> u64 \<Rightarrow> string \<Rightarrow> seqExistsCache \<Rightarrow>
     ((nav_error + MessageResult) \<times> seqExistsCache) option" where
  "GetMessageNav js stream seq direction c =
     (let fail = (\<lambda>e c. Some (Inl e, c));
          answer = (\<lambda>info msg c. case nav_result js stream info msg c of
                      None \<Rightarrow> None | Some (r, c) \<Rightarrow> Some (Inr r, c)) in
      case js_StreamInfo js stream of
        Inl e \<Rightarrow> fail (NavJs e) c
      | Inr info \<Rightarrow>
          if direction = ''next'' then
            (case js_GetNextMsgAfter js stream seq of
               Inl e \<Rightarrow> fail (NavJs e) c | Inr msg \<Rightarrow> answer info msg c)
          else if direction = ''prev'' then
            (if seq \<le> st_FirstSeq info then fail (NavJs MsgNotFound) c
             else
               case findPrevSeq js stream seq (st_FirstSeq info) c of
                 None \<Rightarrow> None
               | Some (None, c) \<Rightarrow> fail (NavJs MsgNotFound) c
               | Some (Some prevSeq, c) \<Rightarrow>
                   (case js_GetMsg js stream prevSeq of
                      Inl e \<Rightarrow> fail (NavJs e) c | Inr msg \<Rightarrow> answer info msg c))
          else if direction \<noteq> [] then fail (InvalidDirection direction) c
          else
            (case js_GetMsg js stream seq of
               Inl e \<Rightarrow> fail (NavJs e) c | Inr msg \<Rightarrow> answer info msg c))"

section \<open>The cache is bounded and remembers the last answers\<close>

fun mark_all :: "(string \<times> u64 \<times> bool) list \<Rightarrow> seqExistsCache \<Rightarrow> seqExistsCache" where
  "mark_all [] c = c"
| "mark_all ((stream, seq, b) # ms) c = mark_all ms (mark stream seq b c)"

definition bits_ok :: "streamSeqBits \<Rightarrow> bool" where
  "bits_ok b \<longleftrightarrow> sb_present b \<inter> sb_absent b = {} \<and>
     card (sb_present b) + card (sb_absent b) \<le> 4096"

definition cache_ok :: "seqExistsCache \<Rightarrow> bool" where
  "cache_ok c \<longleftrightarrow> (\<forall>stream b. c stream = Some b \<longrightarrow> bits_ok b)"

lemma mark_bits_disjoint:
  "sb_present b \<inter> sb_absent b = {} \<Longrightarrow>
     sb_present (mark_bits b seq x) \<inter> sb_absent (mark_bits b seq x) = {}"
  by (auto simp: mark_bits_def)

lemma mark_bits_fresh: "bits_ok (mark_bits no_bits seq x)"
  by (simp add: bits_ok_def mark_bits_def no_bits_def)

lemma cache_ok_mark: "cache_ok c \<Longrightarrow> cache_ok (mark stream seq x c)"
  using mark_bits_fresh [of seq x] mark_bits_disjoint [of no_bits seq x]
  by (auto simp: cache_ok_def mark_def Let_def bits_ok_def mark_bits_disjoint no_bits_def
      split: option.splits)

lemma cache_ok_mark_all: "cache_ok c \<Longrightarrow> cache_ok (mark_all ms c)"
  by (induction ms arbitrary: c) (auto simp: cache_ok_mark)

lemma known_mark_same: "known (mark stream seq x c) stream seq = Some x"
  by (auto simp: known_def mark_def Let_def mark_bits_def no_bits_def)

lemma known_mark_other:
  "known (mark stream seq x c) stream' seq' = Some y \<Longrightarrow> (stream', seq') \<noteq> (stream, seq) \<Longrightarrow>
     known c stream' seq' = Some y"
  by (auto simp: known_def mark_def Let_def mark_bits_def no_bits_def split: if_splits option.splits)

text \<open>The last answer marked for a sequence.\<close>

fun last_mark :: "(string \<times> u64 \<times> bool) list \<Rightarrow> string \<Rightarrow> u64 \<Rightarrow> bool option" where
  "last_mark [] stream seq = None"
| "last_mark ((s, q, b) # ms) stream seq =
     (case last_mark ms stream seq of
        Some x \<Rightarrow> Some x
      | None \<Rightarrow> if s = stream \<and> q = seq then Some b else None)"

lemma known_mark_all:
  "known (mark_all ms c) stream seq = Some x \<Longrightarrow>
     last_mark ms stream seq = Some x \<or> (last_mark ms stream seq = None \<and> known c stream seq = Some x)"
proof (induction ms arbitrary: c)
  case (Cons m ms)
  obtain s q b where m: "m = (s, q, b)" by (cases m)
  from Cons.prems have "last_mark ms stream seq = Some x \<or>
      (last_mark ms stream seq = None \<and> known (mark s q b c) stream seq = Some x)"
    using Cons.IH m by simp
  then show ?case
    using known_mark_same [of s q b c] known_mark_other [of s q b c stream seq x] m
    by (cases "s = stream \<and> q = seq") auto
qed simp

text \<open>The cache of probes is sound and bounded: after any sequence of marks it holds at most 4096
  sequences of a stream, none both as present and as absent, and what it answers for a sequence is what
  was marked for it last.\<close>

theorem seq_cache_spec:
  "cache_ok (mark_all ms newSeqExistsCache) \<and>
   (\<forall>stream seq x. known (mark_all ms newSeqExistsCache) stream seq = Some x \<longrightarrow>
      last_mark ms stream seq = Some x)"
  using cache_ok_mark_all [of newSeqExistsCache ms] known_mark_all [of ms newSeqExistsCache]
  by (fastforce simp: cache_ok_def known_def newSeqExistsCache_def)

lemma seq_cache_spec_witness:
  "known (mark_all [(''S'', 3, True), (''S'', 4, False), (''S'', 3, False)] newSeqExistsCache) ''S'' 3 = Some False \<and>
   last_mark [(''S'', 3, True), (''S'', 4, False), (''S'', 3, False)] ''S'' 3 = Some False"
proof -
  have "known (mark_all [(''S'', 3, True), (''S'', 4, False), (''S'', 3, False)] newSeqExistsCache) ''S'' 3
      = Some False"
    by code_simp
  then show ?thesis
    using seq_cache_spec [of "[(''S'', 3, True), (''S'', 4, False), (''S'', 3, False)]"] by blast
qed

section \<open>The search ends, and what it finds\<close>

text \<open>The middle of an interval of words does not overflow.\<close>

lemma mid_bounds:
  fixes lo hi :: u64
  assumes "lo \<le> hi"
  defines "mid \<equiv> lo + (hi - lo) div 2"
  shows "unat mid = unat lo + (unat hi - unat lo) div 2" and "lo \<le> mid" and "mid \<le> hi"
proof -
  have le: "unat lo \<le> unat hi"
    using assms by (simp add: word_le_nat_alt)
  have half: "unat ((hi - lo) div 2) = (unat hi - unat lo) div 2"
    by (simp add: u64_arith assms(1))
  have "unat lo + (unat hi - unat lo) div 2 \<le> unat hi"
    using le by linarith
  then have "unat lo + unat ((hi - lo) div 2) < 2 ^ 64"
    unfolding half using u64_lt [of hi] by linarith
  then show mid: "unat mid = unat lo + (unat hi - unat lo) div 2"
    unfolding mid_def by (simp add: unat_add_u64 half)
  then show "lo \<le> mid" "mid \<le> hi"
    using le by (auto simp: word_le_nat_alt)
qed

lemma unat_Suc_u64: "unat (w :: u64) + 1 < 2 ^ 64 \<Longrightarrow> unat (w + 1) = unat w + 1"
  by (simp add: unat_add_u64)

text \<open>The state of the loop: an interval inside that of the call, short enough for the fuel.\<close>

definition loop_ok :: "nat \<Rightarrow> u64 \<Rightarrow> u64 \<Rightarrow> u64 \<Rightarrow> bool" where
  "loop_ok n firstSeq lo hi \<longleftrightarrow>
     firstSeq \<le> lo \<and> unat hi + 1 < 2 ^ 64 \<and> unat hi + 1 - unat lo < 2 ^ n"

lemma loop_ok_upper:
  assumes ok: "loop_ok (Suc n) firstSeq lo hi" and le: "lo \<le> hi"
  shows "loop_ok n firstSeq (lo + (hi - lo) div 2 + 1) hi"
    and "unat (lo + (hi - lo) div 2 + 1) = unat lo + (unat hi - unat lo) div 2 + 1"
proof -
  note m = mid_bounds [OF le]
  have lt: "unat lo + (unat hi - unat lo) div 2 + 1 < 2 ^ 64"
    using ok m(3) unfolding loop_ok_def word_le_nat_alt m(1) by linarith
  show u: "unat (lo + (hi - lo) div 2 + 1) = unat lo + (unat hi - unat lo) div 2 + 1"
    using lt unat_Suc_u64 [of "lo + (hi - lo) div 2"] by (simp add: m(1))
  show "loop_ok n firstSeq (lo + (hi - lo) div 2 + 1) hi"
    using ok le unfolding loop_ok_def word_le_nat_alt u by auto
qed

lemma loop_ok_lower:
  assumes ok: "loop_ok (Suc n) firstSeq lo hi" and le: "lo \<le> hi"
    and ne: "lo + (hi - lo) div 2 \<noteq> firstSeq"
  shows "loop_ok n firstSeq lo (lo + (hi - lo) div 2 - 1)"
    and "unat (lo + (hi - lo) div 2 - 1) + 1 = unat lo + (unat hi - unat lo) div 2"
proof -
  note m = mid_bounds [OF le]
  have "firstSeq < lo + (hi - lo) div 2"
    using ok ne m(2) by (auto simp: loop_ok_def)
  then have "lo + (hi - lo) div 2 \<noteq> 0"
    by auto
  from unat_pred_u64 [OF this] this
  show u: "unat (lo + (hi - lo) div 2 - 1) + 1 = unat lo + (unat hi - unat lo) div 2"
    using m(1) by (metis Suc_eq_plus1 Suc_pred' unat_gt_0 diff_Suc_1 gr0_conv_Suc)
  show "loop_ok n firstSeq lo (lo + (hi - lo) div 2 - 1)"
    using ok le u unfolding loop_ok_def word_le_nat_alt by auto
qed

lemma prev_loop_returns:
  assumes "loop_ok n firstSeq lo hi"
  shows "\<exists>r. prev_loop n js stream firstSeq lo hi found c = Some r"
  using assms
proof (induction n arbitrary: lo hi found c)
  case 0
  then have "\<not> lo \<le> hi"
    by (auto simp: loop_ok_def word_le_nat_alt)
  then show ?case
    by (subst prev_loop.simps) simp
next
  case (Suc n)
  show ?case
  proof (cases "lo \<le> hi")
    case True
    then show ?thesis
      using Suc.IH [OF loop_ok_upper(1) [OF Suc.prems]] Suc.IH [OF loop_ok_lower(1) [OF Suc.prems]]
      by (subst prev_loop.simps) (auto simp: Let_def split: prod.splits option.splits bool.splits)
  qed (subst prev_loop.simps, simp)
qed

lemma findPrevSeq_loop_ok: "\<not> seq \<le> firstSeq \<Longrightarrow> loop_ok 64 firstSeq firstSeq (seq - 1)"
proof -
  assume lt: "\<not> seq \<le> firstSeq"
  then have "seq \<noteq> 0" by auto
  then have "unat (seq - 1) + 1 = unat seq"
    using unat_pred_u64 [of seq] by (simp add: unat_gt_0 [symmetric])
  then show ?thesis
    using u64_lt [of seq] unfolding loop_ok_def by simp
qed

text \<open>C24: The search for the previous message returns, whatever the bounds, the cache and the answers of the
  server: it makes at most 64 probes, and no arithmetic on sequences wraps on the way.\<close>

theorem findPrevSeq_returns: "\<exists>r. findPrevSeq js stream seq firstSeq c = Some r"
  unfolding findPrevSeq_def using prev_loop_returns [OF findPrevSeq_loop_ok] by auto

definition bits_agree :: "JsApi \<Rightarrow> seqExistsCache \<Rightarrow> bool" where
  "bits_agree js c \<longleftrightarrow> (\<forall>stream seq x. known c stream seq = Some x \<longrightarrow> x = stored js stream seq)"

lemma bits_agree_mark: "bits_agree js c \<Longrightarrow> x = stored js stream seq \<Longrightarrow> bits_agree js (mark stream seq x c)"
  unfolding bits_agree_def by (metis known_mark_other known_mark_same option.inject prod.inject)

lemma agrees_new: "bits_agree js newSeqExistsCache"
  by (simp add: bits_agree_def known_def newSeqExistsCache_def)

lemma seq_exists_agrees:
  assumes "bits_agree js c" "seq_exists js stream mid c = (b, c')"
  shows "bits_agree js c' \<and> (\<forall>x. b = Some x \<longrightarrow> x = stored js stream mid)"
proof (cases "known c stream mid")
  case None
  then show ?thesis
    using assms bits_agree_mark [OF assms(1), of _ stream mid]
    by (auto simp: seq_exists_def stored_def split: sum.splits js_error.splits)
next
  case (Some x)
  then show ?thesis
    using assms by (auto simp: seq_exists_def bits_agree_def)
qed

text \<open>One iteration.\<close>

lemma prev_loop_cases:
  assumes ok: "loop_ok n firstSeq lo hi" and agr: "bits_agree js c"
    and run: "prev_loop n js stream firstSeq lo hi found c = Some (r, c')"
  obtains (over) "\<not> lo \<le> hi" "r = found" "c' = c"
    | (failed) "r = None" "bits_agree js c'" "\<exists>e. js_GetMsg js stream (lo + (hi - lo) div 2) = Inl (JsFailed e)"
    | (upper) m c1 where "n = Suc m" "lo \<le> hi" "stored js stream (lo + (hi - lo) div 2)" "bits_agree js c1"
        "loop_ok m firstSeq (lo + (hi - lo) div 2 + 1) hi"
        "prev_loop m js stream firstSeq (lo + (hi - lo) div 2 + 1) hi (Some (lo + (hi - lo) div 2)) c1 = Some (r, c')"
    | (bottom) "lo \<le> hi" "\<not> stored js stream firstSeq" "lo + (hi - lo) div 2 = firstSeq" "r = found" "bits_agree js c'"
    | (lower) m c1 where "n = Suc m" "lo \<le> hi" "\<not> stored js stream (lo + (hi - lo) div 2)" "bits_agree js c1"
        "lo + (hi - lo) div 2 \<noteq> firstSeq" "loop_ok m firstSeq lo (lo + (hi - lo) div 2 - 1)"
        "prev_loop m js stream firstSeq lo (lo + (hi - lo) div 2 - 1) found c1 = Some (r, c')"
proof (cases "lo \<le> hi")
  case False
  then show ?thesis
    using run over by (subst (asm) prev_loop.simps) auto
next
  case True
  then obtain m where n: "n = Suc m"
    using ok by (cases n) (auto simp: loop_ok_def word_le_nat_alt)
  obtain b c1 where b: "seq_exists js stream (lo + (hi - lo) div 2) c = (b, c1)"
    by (cases "seq_exists js stream (lo + (hi - lo) div 2) c")
  note a = seq_exists_agrees [OF agr b]
  have e: "\<exists>e. js_GetMsg js stream (lo + (hi - lo) div 2) = Inl (JsFailed e)" if "b = None"
    using b that by (auto simp: seq_exists_def split: option.splits sum.splits js_error.splits)
  show ?thesis
    using run True n b a e ok loop_ok_upper(1) [OF ok [unfolded n] True]
      loop_ok_lower(1) [OF ok [unfolded n] True] failed upper bottom lower
    by (subst (asm) prev_loop.simps) (auto simp: Let_def split: option.splits bool.splits if_splits)
qed

lemma prev_loop_sound:
  assumes "loop_ok n firstSeq lo hi" "bits_agree js c"
    and "prev_loop n js stream firstSeq lo hi found c = Some (r, c')"
  shows "bits_agree js c' \<and>
    (\<forall>q. r = Some q \<longrightarrow> found = Some q \<or> (lo \<le> q \<and> q \<le> hi \<and> stored js stream q))"
  using assms
proof (induction n arbitrary: lo hi found c)
  case 0
  then show ?case
    by (cases rule: prev_loop_cases) (use 0(2) in auto)
next
  case (Suc n)
  from Suc.prems show ?case
  proof (cases rule: prev_loop_cases)
    case (upper m c1)
    have "lo \<le> lo + (hi - lo) div 2 + 1"
      using loop_ok_upper(2) [OF Suc.prems(1) upper(2)] by (simp add: word_le_nat_alt)
    moreover have "m = n"
      using upper(1) by simp
    ultimately show ?thesis
      using Suc.IH [OF upper(5,4,6) [unfolded \<open>m = n\<close>]] upper(3) mid_bounds(2,3) [OF upper(2)] by auto
  next
    case (lower m c1)
    have "lo + (hi - lo) div 2 - 1 \<le> hi"
      using loop_ok_lower(2) [OF Suc.prems(1) lower(2,5)] mid_bounds [OF lower(2)]
      by (simp add: word_le_nat_alt)
    moreover have "m = n"
      using lower(1) by simp
    ultimately show ?thesis
      using Suc.IH [OF lower(6,4,7) [unfolded \<open>m = n\<close>]] by auto
  qed (use Suc.prems(2) in auto)
qed


text \<open>
  When the messages of the stream below \<open>seq\<close> are an initial segment (nothing deleted in the middle) and
  the server answers, the search finds the nearest one.
\<close>

definition initial_segment :: "JsApi \<Rightarrow> string \<Rightarrow> u64 \<Rightarrow> u64 \<Rightarrow> bool" where
  "initial_segment js stream firstSeq seq \<longleftrightarrow>
     (\<forall>x y. firstSeq \<le> x \<longrightarrow> x \<le> y \<longrightarrow> y < seq \<longrightarrow> stored js stream y \<longrightarrow> stored js stream x)"

definition answers :: "JsApi \<Rightarrow> string \<Rightarrow> bool" where
  "answers js stream \<longleftrightarrow> (\<forall>seq e. js_GetMsg js stream seq \<noteq> Inl (JsFailed e))"

definition greatest_stored :: "JsApi \<Rightarrow> string \<Rightarrow> u64 \<Rightarrow> u64 \<Rightarrow> u64 option \<Rightarrow> bool" where
  "greatest_stored js stream firstSeq seq r \<longleftrightarrow>
     (\<forall>x. firstSeq \<le> x \<longrightarrow> x < seq \<longrightarrow> stored js stream x \<longrightarrow>
        (case r of None \<Rightarrow> False | Some q \<Rightarrow> x \<le> q))"

text \<open>What the loop knows: nothing is stored above \<open>hi\<close>, and \<open>lo\<close> follows what was found.\<close>

definition search_inv :: "JsApi \<Rightarrow> string \<Rightarrow> u64 \<Rightarrow> u64 \<Rightarrow> u64 \<Rightarrow> u64 \<Rightarrow> u64 option \<Rightarrow> bool" where
  "search_inv js stream firstSeq seq lo hi found \<longleftrightarrow>
     (\<forall>x. hi < x \<longrightarrow> x < seq \<longrightarrow> \<not> stored js stream x) \<and> hi < seq \<and>
     (case found of None \<Rightarrow> lo = firstSeq | Some q \<Rightarrow> firstSeq \<le> q \<and> unat lo = unat q + 1)"

lemma search_inv_done:
  assumes "search_inv js stream firstSeq seq lo hi found" "\<not> lo \<le> hi"
  shows "greatest_stored js stream firstSeq seq found"
  using assms unfolding search_inv_def greatest_stored_def
  by (auto simp: word_le_nat_alt word_less_nat_alt not_le not_less split: option.splits)
    (meson le_less_trans less_Suc_eq_le not_le)+

lemma search_inv_bottom:
  assumes inv: "search_inv js stream firstSeq seq lo hi found" and le: "lo \<le> hi"
    and seg: "initial_segment js stream firstSeq seq" and no: "\<not> stored js stream firstSeq"
    and mid: "lo + (hi - lo) div 2 = firstSeq"
  shows "greatest_stored js stream firstSeq seq found"
  using inv seg no unfolding greatest_stored_def initial_segment_def by blast

lemma search_inv_upper:
  assumes inv: "search_inv js stream firstSeq seq lo hi found" and le: "lo \<le> hi"
    and ok: "loop_ok (Suc m) firstSeq lo hi"
  shows "search_inv js stream firstSeq seq (lo + (hi - lo) div 2 + 1) hi (Some (lo + (hi - lo) div 2))"
  using inv loop_ok_upper(2) [OF ok le] mid_bounds [OF le] ok
  unfolding search_inv_def loop_ok_def by (auto intro: order_trans)

lemma search_inv_lower:
  assumes inv: "search_inv js stream firstSeq seq lo hi found" and le: "lo \<le> hi"
    and ok: "loop_ok (Suc m) firstSeq lo hi" and ne: "lo + (hi - lo) div 2 \<noteq> firstSeq"
    and seg: "initial_segment js stream firstSeq seq"
    and no: "\<not> stored js stream (lo + (hi - lo) div 2)"
  shows "search_inv js stream firstSeq seq lo (lo + (hi - lo) div 2 - 1) found"
proof -
  define mid where "mid = lo + (hi - lo) div 2"
  have m: "firstSeq \<le> mid" "mid \<le> hi"
    using mid_bounds [OF le] ok unfolding mid_def loop_ok_def by auto
  have pred: "unat (mid - 1) + 1 = unat mid"
    using loop_ok_lower(2) [OF ok le ne] mid_bounds(1) [OF le] by (simp add: mid_def)
  have "\<not> stored js stream x" if "mid - 1 < x" "x < seq" for x
  proof -
    have "mid \<le> x"
      using that(1) pred by (simp add: word_less_nat_alt word_le_nat_alt)
    then show ?thesis
      using seg no m(1) that(2) unfolding initial_segment_def mid_def [symmetric] by blast
  qed
  moreover have "mid - 1 < seq"
    using inv m(2) pred by (auto simp: search_inv_def word_less_nat_alt word_le_nat_alt)
  ultimately show ?thesis
    using inv unfolding search_inv_def mid_def by blast
qed

lemma prev_loop_nearest:
  assumes "loop_ok n firstSeq lo hi" "bits_agree js c"
    and "prev_loop n js stream firstSeq lo hi found c = Some (r, c')"
    and "search_inv js stream firstSeq seq lo hi found"
    and seg: "initial_segment js stream firstSeq seq" and ans: "answers js stream"
  shows "greatest_stored js stream firstSeq seq r"
  using assms(1-4)
proof (induction n arbitrary: lo hi found c)
  case 0
  from 0(1-3) show ?case
    by (cases rule: prev_loop_cases)
      (use search_inv_done [OF 0(4)] search_inv_bottom [OF 0(4) _ seg] ans in \<open>auto simp: answers_def\<close>)
next
  case (Suc n)
  from Suc.prems(1-3) show ?case
  proof (cases rule: prev_loop_cases)
    case over
    then show ?thesis using Suc.prems search_inv_done by blast
  next
    case failed
    then show ?thesis using ans by (auto simp: answers_def)
  next
    case (upper m c1)
    then show ?thesis
      using Suc.IH search_inv_upper [OF Suc.prems(4) upper(2)] Suc.prems(1) by blast
  next
    case bottom
    then show ?thesis using Suc.prems search_inv_bottom seg by blast
  next
    case (lower m c1)
    then show ?thesis
      using Suc.IH search_inv_lower [OF Suc.prems(4) lower(2) Suc.prems(1) lower(5) seg lower(3)] by blast
  qed
qed

lemma u64_pred_less: "\<not> (seq :: u64) \<le> firstSeq \<Longrightarrow> seq - 1 < seq"
proof -
  assume "\<not> seq \<le> firstSeq"
  then have "seq \<noteq> 0" by auto
  then show ?thesis
    using unat_pred_u64 [of seq] by (simp add: word_less_nat_alt unat_gt_0)
qed

lemma findPrevSeq_sound:
  assumes "bits_agree js c" "findPrevSeq js stream seq firstSeq c = Some (r, c')"
  shows "bits_agree js c' \<and> (\<forall>q. r = Some q \<longrightarrow> firstSeq \<le> q \<and> q < seq \<and> stored js stream q)"
proof (cases "seq \<le> firstSeq")
  case False
  then have "prev_loop 64 js stream firstSeq firstSeq (seq - 1) None c = Some (r, c')"
    using assms by (simp add: findPrevSeq_def)
  from prev_loop_sound [OF findPrevSeq_loop_ok [OF False] assms(1) this] show ?thesis
    using u64_pred_less [OF False] by auto
qed (use assms in \<open>simp add: findPrevSeq_def\<close>)

lemma findPrevSeq_nearest:
  assumes "bits_agree js c" "findPrevSeq js stream seq firstSeq c = Some (r, c')"
    and "initial_segment js stream firstSeq seq" "answers js stream"
  shows "greatest_stored js stream firstSeq seq r"
proof (cases "seq \<le> firstSeq")
  case True
  then show ?thesis by (auto simp: greatest_stored_def)
next
  case False
  then have run: "prev_loop 64 js stream firstSeq firstSeq (seq - 1) None c = Some (r, c')"
    using assms by (simp add: findPrevSeq_def)
  have "seq \<noteq> 0"
    using False by auto
  then have "\<not> (seq - 1 < x \<and> x < seq)" for x
    using unat_pred_u64 [of seq] by (auto simp: word_less_nat_alt word_le_nat_alt)
  then have "search_inv js stream firstSeq seq firstSeq (seq - 1) None"
    using u64_pred_less [OF False] by (auto simp: search_inv_def)
  from prev_loop_nearest [OF findPrevSeq_loop_ok [OF False] assms(1) run this assms(3,4)]
  show ?thesis .
qed

definition nav_ok :: "JsApi \<Rightarrow> string \<Rightarrow> StreamState \<Rightarrow> MessageResult \<Rightarrow> bool" where
  "nav_ok js stream info r \<longleftrightarrow>
     (let m = rm_Sequence (mr_Message r) in
      stored js stream m \<and>
      (\<forall>p. mr_PrevSeq r = Some p \<longrightarrow> p < m \<and> stored js stream p) \<and>
      (\<forall>q. mr_NextSeq r = Some q \<longrightarrow> m < q \<and> stored js stream q) \<and>
      (answers js stream \<longrightarrow> initial_segment js stream (st_FirstSeq info) m \<longrightarrow>
         greatest_stored js stream (st_FirstSeq info) m (mr_PrevSeq r)))"

lemma nav_result_ok:
  assumes js: "js_ok js" and agr: "bits_agree js c" and msg: "js_GetMsg js stream (rm_Sequence msg) = Inr msg"
  obtains r c' where "nav_result js stream info msg c = Some (r, c')" "bits_agree js c'"
    "mr_Message r = msg" "nav_ok js stream info r"
proof -
  let ?m = "rm_Sequence msg"
  have st: "stored js stream ?m"
    using msg by (auto simp: stored_def)
  then have agr1: "bits_agree js (mark stream ?m True c)"
    by (intro bits_agree_mark agr) simp
  obtain prev c' where p: "findPrevSeq js stream ?m (st_FirstSeq info) (mark stream ?m True c) = Some (prev, c')"
    using findPrevSeq_returns by (metis surj_pair)
  have "?m < q \<and> stored js stream q" if "findNextSeq js stream ?m (st_LastSeq info) = Some q" for q
    using that js by (auto simp: findNextSeq_def js_ok_def stored_def split: if_splits sum.splits)
  then show ?thesis
    using that [of "\<lparr>mr_Message = msg, mr_PrevSeq = prev,
        mr_NextSeq = findNextSeq js stream ?m (st_LastSeq info)\<rparr>" c']
      findPrevSeq_sound [OF agr1 p] findPrevSeq_nearest [OF agr1 p] p st
    by (simp add: nav_result_def nav_ok_def)
qed


text \<open>A stream for examples: it has the messages of \<open>xs\<close>.\<close>

definition ex_raw :: "u64 \<Rightarrow> RawStreamMsg" where
  "ex_raw seq = \<lparr>rm_Sequence = seq, rm_Subject = ''a'', rm_Time = 1, rm_Data = [], rm_Header = []\<rparr>"

definition ex_js :: "u64 list \<Rightarrow> JsApi" where
  "ex_js xs =
     \<lparr>js_StreamInfo = (\<lambda>_. Inr \<lparr>st_Msgs = of_nat (length xs), st_FirstSeq = hd xs, st_LastSeq = last xs\<rparr>),
      js_GetMsg = (\<lambda>_ seq. if seq \<in> set xs then Inr (ex_raw seq) else Inl MsgNotFound),
      js_GetNextMsgAfter = (\<lambda>_ seq. case filter (\<lambda>x. seq < x) xs of
         [] \<Rightarrow> Inl MsgNotFound | x # _ \<Rightarrow> Inr (ex_raw x))\<rparr>"

lemma ex_js_GetMsg: "js_GetMsg (ex_js xs) stream seq = Inr msg \<longleftrightarrow> seq \<in> set xs \<and> msg = ex_raw seq"
  by (auto simp: ex_js_def)

lemma ex_js_ok: "js_ok (ex_js xs)"
  unfolding js_ok_def
proof (intro conjI allI impI)
  fix stream seq msg
  show "rm_Sequence msg = seq" if "js_GetMsg (ex_js xs) stream seq = Inr msg"
    using that by (simp add: ex_js_GetMsg ex_raw_def)
  assume "js_GetNextMsgAfter (ex_js xs) stream seq = Inr msg"
  then obtain x ys where x: "filter (\<lambda>x. seq < x) xs = x # ys" and msg: "msg = ex_raw x"
    by (auto simp: ex_js_def split: list.splits)
  have "x \<in> set (filter (\<lambda>x. seq < x) xs)"
    by (simp add: x)
  then show "seq < rm_Sequence msg" "js_GetMsg (ex_js xs) stream (rm_Sequence msg) = Inr msg"
    by (simp_all add: ex_js_GetMsg msg ex_raw_def)
qed

lemma ex_js_stored: "stored (ex_js xs) stream seq \<longleftrightarrow> seq \<in> set xs"
  by (simp add: stored_def ex_js_def)


text \<open>
  With a gap the search can miss the nearest message: below 6, in a stream that holds 1 and 4, it
  probes 3, which is not there, and never looks above it again.
\<close>

theorem prev_not_nearest:
  "\<exists>c'. findPrevSeq (ex_js [1, 4, 6]) ''S'' 6 1 newSeqExistsCache = Some (Some 1, c') \<and>
     stored (ex_js [1, 4, 6]) ''S'' 4 \<and> (1 :: u64) < 4 \<and> (4 :: u64) < 6"
proof -
  have "map_option fst (findPrevSeq (ex_js [1, 4, 6]) ''S'' 6 1 newSeqExistsCache) = Some (Some 1)"
    by code_simp
  then show ?thesis by (auto simp: ex_js_stored)
qed

text \<open>
  The cache is never invalidated.  A message that was seen and then deleted is still taken to be there,
  and going back from a later one fails although earlier messages exist.
\<close>

theorem prev_stale_cache:
  "stored (ex_js [1, 2, 3, 4, 6]) ''S'' 4 \<and> stored (ex_js [1, 2, 3, 6]) ''S'' 3 \<and>
   (let c = mark ''S'' 4 True newSeqExistsCache in
    bits_agree (ex_js [1, 2, 3, 4, 6]) c \<and>
    map_option fst (GetMessageNav (ex_js [1, 2, 3, 6]) ''S'' 6 ''prev'' c) = Some (Inl (NavJs MsgNotFound)))"
proof -
  have "map_option fst (GetMessageNav (ex_js [1, 2, 3, 6]) ''S'' 6 ''prev'' (mark ''S'' 4 True newSeqExistsCache))
      = Some (Inl (NavJs MsgNotFound))"
    by code_simp
  then show ?thesis
    by (simp add: ex_js_stored bits_agree_mark agrees_new)
qed

end
