(* ===== verification/Dead_Letters.thy ===== *)
theory Dead_Letters
  imports Jet_Stream Messages
begin

text \<open>
  Dead-letter queues (\<^verbatim>\<open>internal/domain/dlq.go\<close>, \<^verbatim>\<open>internal/nats/dlq.go\<close>): listing them page by page,
  and republishing their messages.  The library is a parameter: reading a range of messages
  (\<open>rangeOf\<close>), publishing and deleting, of which each may fail.  The names of the headers of the library
  (\<^verbatim>\<open>github.com/gopherust-io/nats/dlq\<close>) are the record \<open>DlqHeaders\<close>.
\<close>

section \<open>Requests and messages (dlq.go)\<close>

definition MaxDLQListLimit :: int where "MaxDLQListLimit = 500"
definition DefaultDLQRetryAllLimit :: int where "DefaultDLQRetryAllLimit = 10000"
definition MaxDLQRetryAllLimit :: int where "MaxDLQRetryAllLimit = 10000"

definition NormalizeDLQListLimit :: "int \<Rightarrow> int" where
  "NormalizeDLQListLimit limit =
     (if limit \<le> 0 then 100 else if limit > MaxDLQListLimit then MaxDLQListLimit else limit)"

record DLQRetryRequest =
  rr_Seqs :: "u64 list"
  rr_Limit :: int
  rr_All :: bool

datatype dlq_error =
    NotDLQStream
  | DLQRetryEmpty
  | SeqsNotPositive
  | DLQMissingOriginalSub
  | DecodeData
  | Republish string
  | RepublishedNotDeleted string
  | DlqJs js_error
  | NoJetStream

definition ValidateRetry :: "DLQRetryRequest \<Rightarrow> dlq_error option" where
  "ValidateRetry r =
     (if rr_All r then None
      else if length (rr_Seqs r) = 0 then Some DLQRetryEmpty
      else if 0 \<in> set (rr_Seqs r) then Some SeqsNotPositive
      else None)"

definition NormalizedLimit :: "DLQRetryRequest \<Rightarrow> int" where
  "NormalizedLimit r =
     (if rr_Limit r \<le> 0 then DefaultDLQRetryAllLimit
      else if rr_Limit r > MaxDLQRetryAllLimit then MaxDLQRetryAllLimit
      else rr_Limit r)"

record DlqHeaders =
  dh_Reason :: string
  dh_OriginalSubject :: string
  dh_Stream :: string
  dh_Consumer :: string
  dh_AutopsyError :: string
  dh_AutopsyHash :: string
  dh_AutopsyStack :: string
  dh_Sequence :: string
  dh_NumDelivered :: string

record DLQMessage =
  dm_Headers :: "(string \<times> string) list"
  dm_Subject :: string
  dm_Time :: string
  dm_Data :: string
  dm_Reason :: string
  dm_OriginalSubject :: string
  dm_SourceStream :: string
  dm_Consumer :: string
  dm_AutopsyError :: string
  dm_AutopsyHash :: string
  dm_AutopsyStack :: string
  dm_Seq :: u64
  dm_SourceSeq :: u64
  dm_NumDelivered :: u64

definition uint_header :: "string \<Rightarrow> u64" where
  "uint_header v = (if IsEmpty v then 0 else case ParseUint v of None \<Rightarrow> 0 | Some n \<Rightarrow> n)"

definition DLQMessageFromStream :: "DlqHeaders \<Rightarrow> StreamMessage \<Rightarrow> DLQMessage" where
  "DLQMessageFromStream h msg =
     (let header = (\<lambda>k. metadata (sm_Headers msg) k) in
      \<lparr>dm_Headers = sm_Headers msg, dm_Subject = sm_Subject msg, dm_Time = sm_Time msg,
       dm_Data = sm_Data msg, dm_Reason = header (dh_Reason h),
       dm_OriginalSubject = header (dh_OriginalSubject h), dm_SourceStream = header (dh_Stream h),
       dm_Consumer = header (dh_Consumer h), dm_AutopsyError = header (dh_AutopsyError h),
       dm_AutopsyHash = header (dh_AutopsyHash h), dm_AutopsyStack = header (dh_AutopsyStack h),
       dm_Seq = sm_Seq msg, dm_SourceSeq = uint_header (header (dh_Sequence h)),
       dm_NumDelivered = uint_header (header (dh_NumDelivered h))\<rparr>)"

definition DisplayError :: "DLQMessage \<Rightarrow> string" where
  "DisplayError m = (if \<not> IsEmpty (dm_AutopsyError m) then dm_AutopsyError m else dm_Reason m)"

definition retry_msg_id :: "string \<Rightarrow> u64 \<Rightarrow> string" where
  "retry_msg_id dlqStream dlqSeq = ''nats-consol-dlq-retry:'' @ dlqStream @ '':'' @ FormatUint (unat dlqSeq)"

definition RetryPublishHeaders ::
  "(string \<times> string) list \<Rightarrow> string \<Rightarrow> u64 \<Rightarrow> (string \<times> string) list" where
  "RetryPublishHeaders headers dlqStream dlqSeq =
     (let tid = metadata headers ''Trace-Id''; ct = metadata headers ''Nats-Content-Type'';
          out = (if IsEmpty tid then [] else [(''Trace-Id'', tid)]);
          out = (if IsEmpty ct then out else AList.update ''Nats-Content-Type'' ct out)
      in AList.update ''Nats-Msg-Id'' (retry_msg_id dlqStream dlqSeq) out)"

section \<open>Listing (nats/dlq.go)\<close>

text \<open>\<open>rangeOf stream start end limit\<close>: the messages, and whether there are more.\<close>

type_synonym range_api = "string \<Rightarrow> u64 \<Rightarrow> u64 \<Rightarrow> int \<Rightarrow> js_error + StreamMessage list \<times> bool"

record DLQListResult =
  dl_NextSeq :: "u64 option"
  dl_Messages :: "DLQMessage list"
  dl_Truncated :: bool

definition ensureDLQStream ::
  "(string \<Rightarrow> js_error + StreamInfo) \<Rightarrow> string \<Rightarrow> dlq_error + StreamInfo" where
  "ensureDLQStream streamInfo stream =
     (case streamInfo stream of
        Inl e \<Rightarrow> Inl (DlqJs e)
      | Inr info \<Rightarrow>
          if \<not> IsDLQStream (sc_Name (si_Config info)) (sc_Metadata (si_Config info))
          then Inl NotDLQStream else Inr info)"

definition list_page ::
  "DlqHeaders \<Rightarrow> StreamInfo \<Rightarrow> int \<Rightarrow> StreamMessage list \<times> bool \<Rightarrow> DLQListResult" where
  "list_page h info limit res =
     (let (msgs, truncated) = res;
          lastSeq = (if msgs = [] then 0 else sm_Seq (last msgs));
          moreRemain = (lastSeq > 0 \<and> lastSeq < si_LastSeq info);
          fullPage = int (length msgs) \<ge> limit;
          page = map (DLQMessageFromStream h) msgs
      in if moreRemain \<and> (truncated \<or> fullPage)
         then \<lparr>dl_NextSeq = Some (lastSeq + 1), dl_Messages = page, dl_Truncated = True\<rparr>
         else \<lparr>dl_NextSeq = None, dl_Messages = page, dl_Truncated = truncated\<rparr>)"

definition ListDLQMessages ::
  "DlqHeaders \<Rightarrow> (string \<Rightarrow> js_error + StreamInfo) \<Rightarrow> range_api \<Rightarrow> string \<Rightarrow> u64 \<Rightarrow> int \<Rightarrow>
     dlq_error + DLQListResult" where
  "ListDLQMessages h streamInfo rangeOf stream startSeq limit =
     (let none = \<lparr>dl_NextSeq = None, dl_Messages = [], dl_Truncated = False\<rparr> in
      case ensureDLQStream streamInfo stream of
        Inl e \<Rightarrow> Inl e
      | Inr info \<Rightarrow>
          let limit = NormalizeDLQListLimit limit in
          if si_Msgs info = 0 \<or> si_LastSeq info = 0 then Inr none
          else
            let startSeq = (if startSeq = 0 \<or> startSeq < si_FirstSeq info then si_FirstSeq info else startSeq) in
            if startSeq > si_LastSeq info then Inr none
            else
              (case rangeOf stream startSeq (si_LastSeq info) limit of
                 Inl e \<Rightarrow> Inl (DlqJs e)
               | Inr res \<Rightarrow> Inr (list_page h info limit res)))"

section \<open>Collecting everything (nats/dlq.go)\<close>

text \<open>
  The loop of \<^verbatim>\<open>collectDLQRetryAllSequences\<close> over a lister of pages.  A page without messages ends it, so
  each further turn has collected more.
\<close>

function collect_loop ::
  "(u64 \<Rightarrow> int \<Rightarrow> dlq_error + DLQListResult) \<Rightarrow> u64 \<Rightarrow> nat \<Rightarrow> u64 \<Rightarrow> u64 list \<Rightarrow>
     dlq_error + u64 list \<times> bool \<times> int option" where
  "collect_loop list_at msgs safetyMax startSeq sequences =
     (if length sequences < safetyMax then
        let left = int (safetyMax - length sequences);
            pageLimit = (if left < MaxDLQListLimit then left else MaxDLQListLimit) in
        case list_at startSeq pageLimit of
          Inl e \<Rightarrow> Inl e
        | Inr listed \<Rightarrow>
            if dl_Messages listed = [] then Inr (sequences, False, None)
            else
              let sequences' = sequences @ map dm_Seq (dl_Messages listed) in
              case dl_NextSeq listed of
                None \<Rightarrow> Inr (sequences', False, None)
              | Some nxt \<Rightarrow>
                  if length sequences' \<ge> safetyMax
                  then Inr (sequences', True,
                         Some (if uint msgs \<le> 2 ^ 63 - 1 then max (uint msgs - int (length sequences')) 0 else 0))
                  else collect_loop list_at msgs safetyMax nxt sequences'
      else Inr (sequences, False, None))"
  by pat_completeness auto
termination
  by (relation "measure (\<lambda>(l, m, safetyMax, st, sequences). safetyMax - length sequences)")
    (auto simp: neq_Nil_conv)

declare collect_loop.simps [simp del]

definition collectDLQRetryAllSequences ::
  "DlqHeaders \<Rightarrow> (string \<Rightarrow> js_error + StreamInfo) \<Rightarrow> range_api \<Rightarrow> string \<Rightarrow> StreamInfo \<Rightarrow> int \<Rightarrow>
     dlq_error + u64 list \<times> bool \<times> int option" where
  "collectDLQRetryAllSequences h streamInfo rangeOf stream info safetyMax =
     (let safetyMax = (if safetyMax \<le> 0 then DefaultDLQRetryAllLimit else safetyMax) in
      collect_loop (ListDLQMessages h streamInfo rangeOf stream) (si_Msgs info) (nat safetyMax) 0 [])"

section \<open>Retrying (nats/dlq.go)\<close>

text \<open>
  The queue and what has been published, oldest first.  \<open>getErr\<close>, \<open>pubErr\<close> and \<open>delErr\<close> are the failures
  of the library at this attempt.
\<close>

record published =
  pb_subject :: string
  pb_data :: string
  pb_headers :: "(string \<times> string) list"

record DlqState =
  dq_msgs :: "u64 \<Rightarrow> RawStreamMsg option"
  dq_published :: "published list"

record attempt =
  at_getErr :: "string option"
  at_pubErr :: "string option"
  at_delErr :: "string option"

record codec =
  cd_encode :: "string \<Rightarrow> string"
  cd_decode :: "string \<Rightarrow> string option"
  cd_time :: "gotime \<Rightarrow> string"

definition retryOneDLQMessage ::
  "codec \<Rightarrow> DlqHeaders \<Rightarrow> string \<Rightarrow> attempt \<Rightarrow> u64 \<Rightarrow> DlqState \<Rightarrow> dlq_error option \<times> DlqState" where
  "retryOneDLQMessage cd h stream att seq s =
     (case (at_getErr att, dq_msgs s seq) of
        (Some e, _) \<Rightarrow> (Some (DlqJs (JsFailed e)), s)
      | (None, None) \<Rightarrow> (Some (DlqJs MsgNotFound), s)
      | (None, Some raw) \<Rightarrow>
          let msg = StreamMessageFromRaw (cd_encode cd) (cd_time cd) raw;
              original = TrimSpace (dm_OriginalSubject (DLQMessageFromStream h msg)) in
          if IsEmpty original then (Some DLQMissingOriginalSub, s)
          else
            case cd_decode cd (sm_Data msg) of
              None \<Rightarrow> (Some DecodeData, s)
            | Some data \<Rightarrow>
                let headers = RetryPublishHeaders (sm_Headers msg) stream seq in
                case at_pubErr att of
                  Some e \<Rightarrow> (Some (Republish e), s)
                | None \<Rightarrow>
                    let s1 = s\<lparr>dq_published := dq_published s @
                                [\<lparr>pb_subject = original, pb_data = data, pb_headers = headers\<rparr>]\<rparr> in
                    case at_delErr att of
                      Some e \<Rightarrow> (Some (RepublishedNotDeleted e), s1)
                    | None \<Rightarrow> (None, s1\<lparr>dq_msgs := (dq_msgs s1)(seq := None)\<rparr>))"

record DLQRetryResult =
  rs_Failed :: "(u64 \<times> dlq_error) list"
  rs_Retried :: nat
  rs_Truncated :: bool
  rs_Remaining :: "int option"

fun retry_loop ::
  "codec \<Rightarrow> DlqHeaders \<Rightarrow> string \<Rightarrow> (u64 \<times> attempt) list \<Rightarrow> DLQRetryResult \<Rightarrow> DlqState \<Rightarrow>
     DLQRetryResult \<times> DlqState" where
  "retry_loop cd h stream [] res s = (res, s)"
| "retry_loop cd h stream ((seq, att) # rest) res s =
     (case retryOneDLQMessage cd h stream att seq s of
        (Some e, s) \<Rightarrow> retry_loop cd h stream rest (res\<lparr>rs_Failed := rs_Failed res @ [(seq, e)]\<rparr>) s
      | (None, s) \<Rightarrow> retry_loop cd h stream rest (res\<lparr>rs_Retried := Suc (rs_Retried res)\<rparr>) s)"

text \<open>\<open>attempts\<close> gives the outcomes of the library for the sequences, in their order.\<close>

definition RetryDLQMessages ::
  "codec \<Rightarrow> DlqHeaders \<Rightarrow> (string \<Rightarrow> js_error + StreamInfo) \<Rightarrow> range_api \<Rightarrow> (nat \<Rightarrow> attempt) \<Rightarrow> string \<Rightarrow>
     DLQRetryRequest \<Rightarrow> DlqState \<Rightarrow> (dlq_error + DLQRetryResult) \<times> DlqState" where
  "RetryDLQMessages cd h streamInfo rangeOf attempts stream req s =
     (case ValidateRetry req of
        Some e \<Rightarrow> (Inl e, s)
      | None \<Rightarrow>
          (case ensureDLQStream streamInfo stream of
             Inl e \<Rightarrow> (Inl e, s)
           | Inr info \<Rightarrow>
               (case (if rr_All req
                      then collectDLQRetryAllSequences h streamInfo rangeOf stream info (NormalizedLimit req)
                      else Inr (rr_Seqs req, False, None)) of
                  Inl e \<Rightarrow> (Inl e, s)
                | Inr (sequences, truncated, remaining) \<Rightarrow>
                    let (res, s) = retry_loop cd h stream
                          (zip sequences (map attempts [0..<length sequences]))
                          \<lparr>rs_Failed = [], rs_Retried = 0, rs_Truncated = truncated, rs_Remaining = remaining\<rparr> s
                    in (Inr res, s))))"

section \<open>Collecting is complete\<close>

text \<open>
  What reading a range promises: the first messages of the range, at least one when there is one and no
  more than the limit; a page that is neither full nor marked as truncated is the rest.
\<close>

definition range_ok :: "range_api \<Rightarrow> string \<Rightarrow> u64 list \<Rightarrow> bool" where
  "range_ok rangeOf stream content \<longleftrightarrow>
     (\<forall>a b limit. 0 < limit \<longrightarrow>
        (\<exists>msgs t. rangeOf stream a b limit = Inr (msgs, t) \<and>
           (let F = filter (\<lambda>x. a \<le> x \<and> x \<le> b) content; k = length msgs in
            map sm_Seq msgs = take k F \<and> k \<le> length F \<and> int k \<le> limit \<and> (F \<noteq> [] \<longrightarrow> 0 < k) \<and>
            (\<not> t \<longrightarrow> int k < limit \<longrightarrow> k = length F))))"

text \<open>What the description of the stream says of its content.\<close>

definition content_ok :: "StreamInfo \<Rightarrow> u64 list \<Rightarrow> bool" where
  "content_ok info content \<longleftrightarrow>
     sorted_wrt (<) content \<and>
     (\<forall>x \<in> set content. 0 < x \<and> si_FirstSeq info \<le> x \<and> x \<le> si_LastSeq info) \<and>
     uint (si_Msgs info) = int (length content) \<and>
     IsDLQStream (sc_Name (si_Config info)) (sc_Metadata (si_Config info))"

lemma sorted_filter_drop:
  fixes G :: "u64 list"
  assumes "sorted_wrt (<) G" "0 < k" "k \<le> length G"
  shows "filter (\<lambda>x. G ! (k - 1) < x) G = drop k G"
proof -
  have split: "G = take k G @ drop k G" by simp
  have "x \<le> G ! (k - 1)" if "x \<in> set (take k G)" for x
  proof -
    obtain i where "i < k" "x = G ! i"
      using \<open>x \<in> set (take k G)\<close> assms(3) by (auto simp: in_set_conv_nth)
    then show ?thesis
      using assms sorted_wrt_nth_less [OF assms(1), of i "k - 1"]
      by (cases "i = k - 1") (auto intro: less_imp_le)
  qed
  then have 1: "filter (\<lambda>x. G ! (k - 1) < x) (take k G) = []"
    by (auto simp: filter_empty_conv not_less)
  have "G ! (k - 1) < x" if x: "x \<in> set (drop k G)" for x
  proof -
    obtain i where i: "i < length (drop k G)" and xi: "drop k G ! i = x"
      using x by (metis in_set_conv_nth)
    have "G ! (k - 1) < G ! (k + i)"
      using i assms(2) by (intro sorted_wrt_nth_less [OF assms(1)]) auto
    then show ?thesis
      using xi assms(3) by simp
  qed
  then have 2: "filter (\<lambda>x. G ! (k - 1) < x) (drop k G) = drop k G"
    by simp
  show ?thesis
    by (subst split, subst filter_append) (use 1 2 in simp)
qed

text \<open>A page from \<open>start\<close>: the next \<open>k\<close> sequences, and where to go on.\<close>

definition page_of :: "u64 list \<Rightarrow> u64 \<Rightarrow> int \<Rightarrow> DLQListResult \<Rightarrow> nat \<Rightarrow> bool" where
  "page_of content start limit listed k \<longleftrightarrow>
     (let G = filter (\<lambda>x. start \<le> x) content in
      map dm_Seq (dl_Messages listed) = take k G \<and> k \<le> length G \<and> int k \<le> limit \<and> (G \<noteq> [] \<longrightarrow> 0 < k) \<and>
      (case dl_NextSeq listed of
         None \<Rightarrow> k = length G
       | Some n \<Rightarrow> 0 < k \<and> filter (\<lambda>x. n \<le> x) content = drop k G))"

lemma list_page_ok:
  fixes start :: u64
  assumes cont: "content_ok info content" and rng: "range_ok rangeOf stream content"
    and info: "streamInfo stream = Inr info" and lim: "0 < limit" "limit \<le> MaxDLQListLimit"
  shows "\<exists>listed k. ListDLQMessages h streamInfo rangeOf stream start limit = Inr listed \<and>
    page_of content start limit listed k"
proof -
  define G where "G = filter (\<lambda>x. start \<le> x) content"
  have ens: "ensureDLQStream streamInfo stream = Inr info"
    using cont info by (simp add: ensureDLQStream_def content_ok_def)
  define s where "s = (if start = 0 \<or> start < si_FirstSeq info then si_FirstSeq info else start)"
  have sorted: "sorted_wrt (<) content" and bnd: "\<And>x. x \<in> set content \<Longrightarrow>
      0 < x \<and> si_FirstSeq info \<le> x \<and> x \<le> si_LastSeq info"
    and msgs: "uint (si_Msgs info) = int (length content)"
    using cont by (auto simp: content_ok_def)
  have G: "G = filter (\<lambda>x. s \<le> x \<and> x \<le> si_LastSeq info) content"
    unfolding G_def using bnd by (intro filter_cong) (auto simp: s_def intro: less_imp_le order_trans)
  consider (empty) "si_Msgs info = 0 \<or> si_LastSeq info = 0 \<or> si_LastSeq info < s"
    | (page) "\<not> (si_Msgs info = 0 \<or> si_LastSeq info = 0)" "\<not> si_LastSeq info < s"
    by blast
  then show ?thesis
  proof cases
    case empty
    then have "x \<notin> set content \<or> \<not> s \<le> x" for x
      using bnd [of x] msgs by (auto simp: word_le_nat_alt word_less_nat_alt)
    then have "G = []"
      unfolding G by (auto simp: filter_empty_conv)
    with empty lim(1) show ?thesis
      by (intro exI [of _ "\<lparr>dl_NextSeq = None, dl_Messages = [], dl_Truncated = False\<rparr>"] exI [of _ 0])
        (auto simp: ListDLQMessages_def ens Let_def s_def [symmetric] page_of_def G_def [symmetric])
  next
    case page
    have nl: "NormalizeDLQListLimit limit = limit"
      using lim by (simp add: NormalizeDLQListLimit_def)
    obtain ms t where r: "rangeOf stream s (si_LastSeq info) limit = Inr (ms, t)"
      and ms: "map sm_Seq ms = take (length ms) G" "length ms \<le> length G" "int (length ms) \<le> limit"
        "G \<noteq> [] \<Longrightarrow> 0 < length ms" "\<not> t \<Longrightarrow> int (length ms) < limit \<Longrightarrow> length ms = length G"
      using rng lim(1) unfolding range_ok_def G Let_def by blast
    let ?k = "length ms"
    have run: "ListDLQMessages h streamInfo rangeOf stream start limit = Inr (list_page h info limit (ms, t))"
      using page r by (simp add: ListDLQMessages_def ens Let_def nl s_def [symmetric])
    have seqs: "map dm_Seq (dl_Messages (list_page h info limit (ms, t))) = take ?k G"
      using ms(1) by (simp add: list_page_def Let_def DLQMessageFromStream_def o_def)
    have sG: "sorted_wrt (<) G"
      unfolding G_def by (rule sorted_wrt_filter [OF sorted])
    have "case dl_NextSeq (list_page h info limit (ms, t)) of
        None \<Rightarrow> ?k = length G | Some n \<Rightarrow> 0 < ?k \<and> filter (\<lambda>x. n \<le> x) content = drop ?k G"
    proof (cases "ms = []")
      case True
      then show ?thesis using ms(4) by (auto simp: list_page_def)
    next
      case False
      define l where "l = sm_Seq (last ms)"
      have "l = last (take ?k G)"
        using False ms(1) by (simp add: l_def last_map [symmetric])
      moreover have "take ?k G \<noteq> []"
        using False ms(1) by (metis map_is_Nil_conv)
      ultimately have l: "l = G ! (?k - 1)"
        using ms(2) by (simp add: last_conv_nth min_absorb2)
      have lG: "l \<in> set G"
        unfolding l using False ms(2) by (intro nth_mem) (cases ms; auto)
      then have lb: "0 < l" "start \<le> l" "l \<le> si_LastSeq info"
        using bnd unfolding G_def by auto
      note fd = sorted_filter_drop [OF sG, of ?k, folded l]
      show ?thesis
      proof (cases "l < si_LastSeq info \<and> (t \<or> limit \<le> int ?k)")
        case True
        then have "unat l + 1 < 2 ^ 64"
          using u64_lt [of "si_LastSeq info"] by (simp add: word_less_nat_alt)
        then have suc: "l + 1 \<le> x \<longleftrightarrow> l < x" for x
          using unat_add_u64 [of l 1] by (auto simp: word_less_nat_alt word_le_nat_alt)
        have "filter (\<lambda>x. l + 1 \<le> x) content = filter (\<lambda>x. l < x) G"
          unfolding G_def using lb(2) by (auto simp: suc intro!: filter_cong)
        with True False ms(2) fd lb(1) show ?thesis
          by (simp add: list_page_def Let_def l_def [symmetric])
      next
        case no: False
        have "?k = length G"
        proof (cases "l < si_LastSeq info")
          case True
          then show ?thesis using no ms(3,5) by auto
        next
          case False
          then have "\<not> l < x" if "x \<in> set G" for x
            using that lb(3) bnd [of x] unfolding G_def by auto
          then have "filter (\<lambda>x. l < x) G = []"
            by (simp add: filter_empty_conv)
          then show ?thesis using fd \<open>ms \<noteq> []\<close> ms(2) by simp
        qed
        with no False lb(1) show ?thesis
          by (auto simp: list_page_def Let_def l_def [symmetric])
      qed
    qed
    then have "page_of content start limit (list_page h info limit (ms, t)) ?k"
      using seqs ms unfolding page_of_def G_def [symmetric] Let_def by simp
    then show ?thesis
      using run by blast
  qed
qed

lemma collect_loop_complete:
  assumes page: "\<And>start limit. 0 < limit \<Longrightarrow> limit \<le> MaxDLQListLimit \<Longrightarrow>
      \<exists>listed k. list_at start limit = Inr listed \<and> page_of content start limit listed k"
    and "sequences = take (length sequences) content" "length sequences \<le> length content"
    and "filter (\<lambda>x. start \<le> x) content = drop (length sequences) content"
    and "length sequences < safetyMax"
  shows "\<exists>seqs trunc left. collect_loop list_at msgs safetyMax start sequences = Inr (seqs, trunc, left) \<and>
    seqs = take (length seqs) content \<and> length seqs \<le> safetyMax \<and>
    (\<not> trunc \<longrightarrow> seqs = content) \<and> (trunc \<longrightarrow> length seqs = safetyMax)"
  using assms(2-)
proof (induction "safetyMax - length sequences" arbitrary: sequences start rule: less_induct)
  case less
  have lt: "length sequences < safetyMax" and seq: "sequences = take (length sequences) content"
    and le: "length sequences \<le> length content"
    and G: "filter (\<lambda>x. start \<le> x) content = drop (length sequences) content"
    using less.prems by blast+
  define limit where "limit = (if int (safetyMax - length sequences) < MaxDLQListLimit
      then int (safetyMax - length sequences) else MaxDLQListLimit)"
  have lim: "0 < limit" "limit \<le> MaxDLQListLimit" "limit \<le> int (safetyMax - length sequences)"
    using lt by (auto simp: limit_def MaxDLQListLimit_def)
  obtain listed k where l: "list_at start limit = Inr listed" and p: "page_of content start limit listed k"
    using page [OF lim(1,2)] by blast
  have m: "map dm_Seq (dl_Messages listed) = take k (drop (length sequences) content)"
    and k: "k \<le> length content - length sequences" "int k \<le> limit"
      "drop (length sequences) content \<noteq> [] \<Longrightarrow> 0 < k"
    and nx: "case dl_NextSeq listed of
            None \<Rightarrow> k = length content - length sequences
          | Some n \<Rightarrow> 0 < k \<and> filter (\<lambda>x. n \<le> x) content = drop (length sequences + k) content"
    using p unfolding page_of_def G Let_def by (simp_all add: add.commute split: option.splits)
  have lk: "length (dl_Messages listed) = k"
    using arg_cong [OF m, of length] k(1) by simp
  define all where "all = sequences @ map dm_Seq (dl_Messages listed)"
  have all: "all = take (length all) content" "length all = length sequences + k"
    using seq m lk unfolding all_def by (metis take_add length_append length_map)+
  have small: "length all \<le> safetyMax" "length all \<le> length content"
    using k lim(3) le lt all(2) by linarith+
  note step = collect_loop.simps [of list_at msgs safetyMax start sequences, unfolded Let_def,
      folded limit_def]
  show ?case
  proof (cases "k = 0")
    case True
    then have "collect_loop list_at msgs safetyMax start sequences = Inr (sequences, False, None)"
      using lt l lk by (simp add: step)
    moreover have "sequences = content"
      using k(3) True seq le by (metis less_irrefl drop_eq_Nil take_all)
    ultimately show ?thesis
      using lt by auto
  next
    case False
    then have ne: "dl_Messages listed \<noteq> []"
      using lk by auto
    show ?thesis
    proof (cases "dl_NextSeq listed")
      case None
      then have "collect_loop list_at msgs safetyMax start sequences = Inr (all, False, None)"
        using lt l ne by (simp add: step all_def)
      moreover have "all = content"
        using nx None all le by simp
      ultimately show ?thesis
        using small by auto
    next
      case (Some n)
      show ?thesis
      proof (cases "length all \<ge> safetyMax")
        case True
        then have "\<exists>left. collect_loop list_at msgs safetyMax start sequences = Inr (all, True, left)"
          using lt l ne Some by (simp add: step all_def)
        then show ?thesis
          using all(1) small(1) True by auto
      next
        case more: False
        then have "collect_loop list_at msgs safetyMax start sequences =
            collect_loop list_at msgs safetyMax n all"
          using lt l ne Some by (simp add: step all_def)
        moreover have "filter (\<lambda>x. n \<le> x) content = drop (length all) content"
          using nx Some all(2) by simp
        ultimately show ?thesis
          using less.hyps [of all n] more False all small lt by auto
      qed
    qed
  qed
qed

text \<open>Retrying everything misses nothing.  When the server serves ranges as documented, collecting the
  sequences of a dead-letter queue ends with the oldest of them, in order; it has all of them, unless it
  says that it stopped early, and then it has as many as the limit allows.\<close>

theorem collect_complete:
  assumes cont: "content_ok info content" and rng: "range_ok rangeOf stream content"
    and info: "streamInfo stream = Inr info"
  shows "\<exists>seqs trunc left.
    collectDLQRetryAllSequences h streamInfo rangeOf stream info safetyMax = Inr (seqs, trunc, left) \<and>
    (\<exists>k. seqs = take k content) \<and> (\<not> trunc \<longrightarrow> seqs = content) \<and>
    (trunc \<longrightarrow> int (length seqs) = (if safetyMax \<le> 0 then DefaultDLQRetryAllLimit else safetyMax))"
proof -
  let ?max = "nat (if safetyMax \<le> 0 then DefaultDLQRetryAllLimit else safetyMax)"
  have pos: "0 < ?max" "int ?max = (if safetyMax \<le> 0 then DefaultDLQRetryAllLimit else safetyMax)"
    by (auto simp: DefaultDLQRetryAllLimit_def)
  obtain seqs trunc left where "collect_loop (ListDLQMessages h streamInfo rangeOf stream) (si_Msgs info) ?max 0 []
      = Inr (seqs, trunc, left)" "seqs = take (length seqs) content" "length seqs \<le> ?max"
      "\<not> trunc \<Longrightarrow> seqs = content" "trunc \<Longrightarrow> length seqs = ?max"
    using collect_loop_complete [where content = content and sequences = "[]" and start = 0
        and safetyMax = ?max and msgs = "si_Msgs info"
        and list_at = "ListDLQMessages h streamInfo rangeOf stream"]
      list_page_ok [where streamInfo = streamInfo, OF cont rng info] pos(1) by auto
  then show ?thesis
    unfolding collectDLQRetryAllSequences_def Let_def using pos(2) by (metis (no_types, lifting))
qed

definition ex_info :: StreamInfo where
  "ex_info = \<lparr>si_Config = \<lparr>sc_Name = ''ORDERS_DLQ'', sc_Mirror = None, sc_Sources = [], sc_Metadata = []\<rparr>,
     si_Msgs = 3, si_FirstSeq = 2, si_LastSeq = 9\<rparr>"

definition ex_range :: "u64 list \<Rightarrow> range_api" where
  "ex_range content = (\<lambda>_ a b limit.
     let F = filter (\<lambda>x. a \<le> x \<and> x \<le> b) content in
     Inr (map (\<lambda>x. \<lparr>sm_Headers = [], sm_Subject = ''d'', sm_Time = [], sm_Data = [], sm_Seq = x\<rparr>)
            (take (nat limit) F), int (length F) > limit))"

lemma ex_range_ok: "range_ok (ex_range content) stream content"
  unfolding range_ok_def ex_range_def Let_def by (auto simp: o_def min_def)

definition no_headers :: DlqHeaders where
  "no_headers = \<lparr>dh_Reason = ''reason'', dh_OriginalSubject = ''subject'', dh_Stream = ''stream'',
     dh_Consumer = ''consumer'', dh_AutopsyError = ''error'', dh_AutopsyHash = ''hash'',
     dh_AutopsyStack = ''stack'', dh_Sequence = ''seq'', dh_NumDelivered = ''n''\<rparr>"

lemma collect_complete_witness:
  "\<exists>seqs trunc left.
     collectDLQRetryAllSequences no_headers (\<lambda>_. Inr ex_info) (ex_range [2, 5, 9]) ''ORDERS_DLQ'' ex_info 2
       = Inr (seqs, trunc, left) \<and> (\<exists>k. seqs = take k [2, 5, 9])"
proof -
  have "content_ok ex_info [2, 5, 9]"
    by (simp add: content_ok_def ex_info_def IsDLQStream_def HasSuffix_def DLQNameSuffix_def)
  then show ?thesis
    using collect_complete [OF _ ex_range_ok, of ex_info "[2, 5, 9]" "\<lambda>_. Inr ex_info" "''ORDERS_DLQ''"
        no_headers 2] by metis
qed

section \<open>No message is lost, and retries are recognised\<close>

text \<open>The message id of a retry identifies the message: retries of the same message carry the same id, so
  that the server drops the second, and those of different messages, or of different queues, do not.\<close>

theorem retry_id_exact:
  "retry_msg_id s q = retry_msg_id s' q' \<longleftrightarrow> s = s' \<and> q = q'"
proof
  assume eq: "retry_msg_id s q = retry_msg_id s' q'"
  define d where "d = FormatUint (unat q)"
  define d' where "d' = FormatUint (unat q')"
  have colon: "CHR '':'' \<notin> set (FormatUint n)" for n
    using char_digit_FormatUint [of "CHR '':''" n] by (auto simp: char_digit_def)
  have e: "s @ [CHR '':''] @ d = s' @ [CHR '':''] @ d'"
    using eq by (simp add: retry_msg_id_def d_def d'_def)
  have "rev d @ CHR '':'' # rev s = rev d' @ CHR '':'' # rev s'"
    using arg_cong [OF e, of rev] by simp
  moreover have "CHR '':'' \<notin> set (rev d)" "CHR '':'' \<notin> set (rev d')"
    using colon by (simp_all add: d_def d'_def)
  ultimately have "rev d = rev d' \<and> rev s = rev s'"
    using Cut_append_sep by (metis fst_conv snd_conv)
  then have "s = s'" "unat q = unat q'"
    using FormatUint_inj unfolding d_def d'_def by simp_all
  then show "s = s' \<and> q = q'"
    by (simp add: word_unat_eq_iff)
qed simp

text \<open>\<open>p\<close> is the message \<open>raw\<close> of sequence \<open>q\<close>, on its way back to its subject.\<close>

definition republication ::
  "codec \<Rightarrow> DlqHeaders \<Rightarrow> string \<Rightarrow> u64 \<Rightarrow> RawStreamMsg \<Rightarrow> published \<Rightarrow> bool" where
  "republication cd h stream q raw p \<longleftrightarrow>
     (let msg = StreamMessageFromRaw (cd_encode cd) (cd_time cd) raw in
      pb_subject p = TrimSpace (dm_OriginalSubject (DLQMessageFromStream h msg)) \<and> pb_subject p \<noteq> [] \<and>
      cd_decode cd (cd_encode cd (rm_Data raw)) = Some (pb_data p) \<and>
      pb_headers p = RetryPublishHeaders (sm_Headers msg) stream q)"

lemma retry_one_cases:
  assumes "retryOneDLQMessage cd h stream att seq s = (e, s')"
  obtains (unchanged) e' where "e = Some e'" "s' = s"
    | (kept) raw p e' where "dq_msgs s seq = Some raw" "republication cd h stream seq raw p"
        "e = Some (RepublishedNotDeleted e')" "s' = s\<lparr>dq_published := dq_published s @ [p]\<rparr>"
    | (moved) raw p where "dq_msgs s seq = Some raw" "republication cd h stream seq raw p" "e = None"
        "s' = s\<lparr>dq_published := dq_published s @ [p], dq_msgs := (dq_msgs s)(seq := None)\<rparr>"
proof (cases "at_getErr att = None \<and> dq_msgs s seq \<noteq> None")
  case False
  then have "(\<exists>e'. e = Some e') \<and> s' = s"
    using assms by (cases "at_getErr att"; cases "dq_msgs s seq") (auto simp: retryOneDLQMessage_def)
  then show ?thesis
    using unchanged by blast
next
  case True
  then obtain raw where raw: "dq_msgs s seq = Some raw" by auto
  define msg where "msg = StreamMessageFromRaw (cd_encode cd) (cd_time cd) raw"
  define subj where "subj = TrimSpace (dm_OriginalSubject (DLQMessageFromStream h msg))"
  have data: "sm_Data msg = cd_encode cd (rm_Data raw)"
    by (simp add: msg_def StreamMessageFromRaw_def)
  note run = assms [unfolded retryOneDLQMessage_def, simplified True raw, simplified,
      folded msg_def]
  show ?thesis
  proof (cases "subj = [] \<or> cd_decode cd (sm_Data msg) = None \<or> at_pubErr att \<noteq> None")
    case fail: True
    then have "(\<exists>e'. e = Some e') \<and> s' = s"
      using run by (cases "subj = []"; cases "cd_decode cd (sm_Data msg)") (auto simp: Let_def subj_def)
    then show ?thesis
      using unchanged by blast
  next
    case False
    then obtain d where d: "cd_decode cd (sm_Data msg) = Some d" by auto
    define p where "p = \<lparr>pb_subject = subj, pb_data = d,
        pb_headers = RetryPublishHeaders (sm_Headers msg) stream seq\<rparr>"
    have rep: "republication cd h stream seq raw p"
      using False d data by (simp add: republication_def Let_def msg_def [symmetric] subj_def [symmetric] p_def)
    show ?thesis
    proof (cases "at_delErr att")
      case None
      then show ?thesis
        using run False d by (intro moved [OF raw rep]) (auto simp: Let_def p_def subj_def)
    next
      case (Some e')
      then show ?thesis
        using run False d by (intro kept [OF raw rep, of e']) (auto simp: Let_def p_def subj_def)
    qed
  qed
qed

text \<open>From \<open>s\<close> to \<open>s'\<close> messages only leave the queue when they have been published.\<close>

definition accounted :: "codec \<Rightarrow> DlqHeaders \<Rightarrow> string \<Rightarrow> DlqState \<Rightarrow> DlqState \<Rightarrow> bool" where
  "accounted cd h stream s s' \<longleftrightarrow>
     (\<exists>ps. dq_published s' = dq_published s @ ps \<and>
        (\<forall>p \<in> set ps. \<exists>q raw. dq_msgs s q = Some raw \<and> republication cd h stream q raw p) \<and>
        (\<forall>q. dq_msgs s' q = dq_msgs s q \<or>
           (\<exists>raw p. dq_msgs s q = Some raw \<and> dq_msgs s' q = None \<and> p \<in> set ps \<and>
              republication cd h stream q raw p)))"

lemma accounted_refl: "accounted cd h stream s s"
  by (auto simp: accounted_def)

lemma accounted_trans:
  assumes "accounted cd h stream s s1" "accounted cd h stream s1 s2"
  shows "accounted cd h stream s s2"
proof -
  obtain ps where ps: "dq_published s1 = dq_published s @ ps"
      "\<And>p. p \<in> set ps \<Longrightarrow> \<exists>q raw. dq_msgs s q = Some raw \<and> republication cd h stream q raw p"
      "\<And>q. dq_msgs s1 q = dq_msgs s q \<or> (\<exists>raw p. dq_msgs s q = Some raw \<and> dq_msgs s1 q = None \<and>
          p \<in> set ps \<and> republication cd h stream q raw p)"
    using assms(1) unfolding accounted_def by blast
  obtain rs where rs: "dq_published s2 = dq_published s1 @ rs"
      "\<And>p. p \<in> set rs \<Longrightarrow> \<exists>q raw. dq_msgs s1 q = Some raw \<and> republication cd h stream q raw p"
      "\<And>q. dq_msgs s2 q = dq_msgs s1 q \<or> (\<exists>raw p. dq_msgs s1 q = Some raw \<and> dq_msgs s2 q = None \<and>
          p \<in> set rs \<and> republication cd h stream q raw p)"
    using assms(2) unfolding accounted_def by blast
  have stay: "dq_msgs s q = Some raw" if "dq_msgs s1 q = Some raw" for q raw
    using ps(3) [of q] that by auto
  have "\<exists>q raw. dq_msgs s q = Some raw \<and> republication cd h stream q raw p" if "p \<in> set (ps @ rs)" for p
    using that ps(2) rs(2) stay by auto blast
  moreover have "dq_msgs s2 q = dq_msgs s q \<or> (\<exists>raw p. dq_msgs s q = Some raw \<and> dq_msgs s2 q = None \<and>
      p \<in> set (ps @ rs) \<and> republication cd h stream q raw p)" for q
    using ps(3) [of q] rs(3) [of q] stay [of q] by auto
  moreover have "dq_published s2 = dq_published s @ (ps @ rs)"
    using ps(1) rs(1) by simp
  ultimately show ?thesis
    unfolding accounted_def by blast
qed

lemma accounted_one:
  assumes "retryOneDLQMessage cd h stream att seq s = (e, s')"
  shows "accounted cd h stream s s'"
  using assms
proof (cases rule: retry_one_cases)
  case (unchanged e')
  then show ?thesis by (simp add: accounted_refl)
next
  case (kept raw p e')
  then show ?thesis
    unfolding accounted_def by (intro exI [of _ "[p]"]) auto
next
  case (moved raw p)
  then show ?thesis
    unfolding accounted_def by (intro exI [of _ "[p]"]) auto
qed

lemma accounted_loop:
  assumes "retry_loop cd h stream atts res s = (res', s')"
  shows "accounted cd h stream s s' \<and>
    rs_Retried res' + length (rs_Failed res') = rs_Retried res + length (rs_Failed res) + length atts"
  using assms
proof (induction cd h stream atts res s rule: retry_loop.induct)
  case (2 cd h stream seq att rest res s)
  obtain e s1 where one: "retryOneDLQMessage cd h stream att seq s = (e, s1)"
    by (cases "retryOneDLQMessage cd h stream att seq s")
  then show ?case
    using "2.IH" "2.prems" accounted_one [OF one] accounted_trans by (cases e) fastforce+
qed (simp add: accounted_refl)


definition ex_codec :: codec where
  "ex_codec = \<lparr>cd_encode = (\<lambda>d. d), cd_decode = Some, cd_time = (\<lambda>_. [])\<rparr>"

definition ex_dlq :: DlqState where
  "ex_dlq = \<lparr>dq_msgs = (\<lambda>q. if q = 5 then Some \<lparr>rm_Sequence = 5, rm_Subject = ''dlq.orders'', rm_Time = 1,
       rm_Data = ''payload'', rm_Header = [(''subject'', ['' orders.new ''])]\<rparr> else None), dq_published = []\<rparr>"

definition ex_retry :: "(dlq_error + DLQRetryResult) \<times> DlqState" where
  "ex_retry = RetryDLQMessages ex_codec no_headers (\<lambda>_. Inr ex_info) (ex_range [5])
     (\<lambda>_. \<lparr>at_getErr = None, at_pubErr = None, at_delErr = None\<rparr>) ''ORDERS_DLQ''
     \<lparr>rr_Seqs = [5, 7], rr_Limit = 0, rr_All = False\<rparr> ex_dlq"


end
