(* ===== verification/Nats_Sessions.thy ===== *)
theory Nats_Sessions
  imports Numbers Clusters "HOL-Library.Multiset"
begin

text \<open>
  The pool of NATS connections (\<^verbatim>\<open>internal/nats\<close>: \<^verbatim>\<open>manager.go\<close>, \<^verbatim>\<open>session.go\<close>,
  \<^verbatim>\<open>connection.go\<close>): the cached client of each cluster, the generations that invalidate sessions, the
  status of connections with its subscribers, and the backoff of health checks.

  The code guards its maps by one mutex.  Each critical section is a function on the \<open>Manager\<close>; a
  goroutine that leaves the lock keeps what it still has to do, a client to install or to close, in the
  \<open>World\<close>, and every event of the world is one critical section or one call of the library.  The client
  library is outside: a client is a number, and whether its link is up changes at any time.
\<close>

section \<open>The manager\<close>

type_synonym client = nat
type_synonym chan = nat

definition defaultClientCacheTTL :: duration where
  "defaultClientCacheTTL = 300 * Second"

definition statusSubscriberBuffer :: nat where
  "statusSubscriberBuffer = 4"

record cachedClient =
  cc_client :: client
  cc_lastUsed :: gotime

record cachedCredentials =
  cd_cluster :: ClusterRow
  cd_fetchedAt :: gotime

text \<open>The zero time is \<open>None\<close>.\<close>

record connectionState =
  st_lastConnectedAt :: "gotime option"
  st_lastCheckedAt :: "gotime option"
  st_serverName :: string
  st_lastError :: string
  st_reconnects :: u64
  st_connected :: bool
  st_jetStreamOK :: bool
  st_cached :: bool

definition new_state :: connectionState where
  "new_state = \<lparr>st_lastConnectedAt = None, st_lastCheckedAt = None, st_serverName = [], st_lastError = [],
     st_reconnects = 0, st_connected = False, st_jetStreamOK = False, st_cached = False\<rparr>"

record NATSConnectionStatus =
  ns_ClusterID :: string
  ns_Connected :: bool
  ns_Cached :: bool
  ns_JetStreamOK :: bool
  ns_ServerName :: string
  ns_LastCheckedAt :: "gotime option"
  ns_LastConnectedAt :: "gotime option"
  ns_LastError :: string
  ns_Reconnects :: u64

record healthBackoff =
  hb_lastFailAt :: "gotime option"
  hb_lastProbeAt :: "gotime option"
  hb_failCount :: int

definition no_backoff :: healthBackoff where
  "no_backoff = \<lparr>hb_lastFailAt = None, hb_lastProbeAt = None, hb_failCount = 0\<rparr>"

text \<open>A channel of a subscriber: what its buffer holds, and whether it was closed.\<close>

record statusChan =
  ch_buf :: "NATSConnectionStatus list"
  ch_closed :: bool

record Manager =
  m_cache :: "(string, cachedClient) gomap"
  m_creds :: "(string, cachedCredentials) gomap"
  m_status :: "(string, connectionState) gomap"
  m_listeners :: "(string, chan list) gomap"
  m_gens :: "string \<Rightarrow> u64"
  m_health :: "(string, healthBackoff) gomap"
  m_chans :: "statusChan list"
  m_panic :: bool
  m_ttl :: duration

definition NewManager :: "duration \<Rightarrow> Manager" where
  "NewManager cfg_ttl =
     \<lparr>m_cache = [], m_creds = [], m_status = [], m_listeners = [], m_gens = (\<lambda>_. 0), m_health = [],
      m_chans = [], m_panic = False, m_ttl = cfg_ttl\<rparr>"

definition clientCacheTTL :: "Manager \<Rightarrow> duration" where
  "clientCacheTTL m = (if m_ttl m > 0 then m_ttl m else defaultClientCacheTTL)"

definition bumpSessionGenerationLocked :: "string \<Rightarrow> Manager \<Rightarrow> Manager" where
  "bumpSessionGenerationLocked i m = m\<lparr>m_gens := (m_gens m)(i := m_gens m i + 1)\<rparr>"

definition Touch :: "string \<Rightarrow> gotime \<Rightarrow> Manager \<Rightarrow> Manager" where
  "Touch i now m =
     (case map_of (m_cache m) i of
        None \<Rightarrow> m
      | Some e \<Rightarrow> m\<lparr>m_cache := AList.update i (e\<lparr>cc_lastUsed := now\<rparr>) (m_cache m)\<rparr>)"

section \<open>The status of a connection and its subscribers\<close>

definition ensureState :: "string \<Rightarrow> Manager \<Rightarrow> connectionState \<times> Manager" where
  "ensureState i m =
     (case map_of (m_status m) i of
        Some st \<Rightarrow> (st, m)
      | None \<Rightarrow> (new_state, m\<lparr>m_status := AList.update i new_state (m_status m)\<rparr>))"

definition set_state :: "string \<Rightarrow> (connectionState \<Rightarrow> connectionState) \<Rightarrow> Manager \<Rightarrow> Manager" where
  "set_state i f m = (case ensureState i m of (st, m') \<Rightarrow> m'\<lparr>m_status := AList.update i (f st) (m_status m')\<rparr>)"

definition snapshotLocked :: "string \<Rightarrow> Manager \<Rightarrow> NATSConnectionStatus \<times> Manager" where
  "snapshotLocked i m =
     (case ensureState i m of
        (st, m') \<Rightarrow>
          (\<lparr>ns_ClusterID = i, ns_Connected = st_connected st, ns_Cached = map_of (m_cache m') i \<noteq> None,
            ns_JetStreamOK = st_jetStreamOK st, ns_ServerName = st_serverName st,
            ns_LastCheckedAt = st_lastCheckedAt st, ns_LastConnectedAt = st_lastConnectedAt st,
            ns_LastError = st_lastError st, ns_Reconnects = st_reconnects st\<rparr>, m'))"

text \<open>A send that does not wait: to a full channel it does nothing, to a closed one it panics.\<close>

definition try_send :: "NATSConnectionStatus \<Rightarrow> chan \<Rightarrow> Manager \<Rightarrow> Manager" where
  "try_send status c m =
     (let ch = m_chans m ! c in
      if ch_closed ch then m\<lparr>m_panic := True\<rparr>
      else if length (ch_buf ch) < statusSubscriberBuffer then
        m\<lparr>m_chans := (m_chans m)[c := ch\<lparr>ch_buf := ch_buf ch @ [status]\<rparr>]\<rparr>
      else m)"

definition close_chan :: "chan \<Rightarrow> Manager \<Rightarrow> Manager" where
  "close_chan c m =
     (let ch = m_chans m ! c in
      if ch_closed ch then m\<lparr>m_panic := True\<rparr>
      else m\<lparr>m_chans := (m_chans m)[c := ch\<lparr>ch_closed := True\<rparr>]\<rparr>)"

definition listeners_of :: "string \<Rightarrow> Manager \<Rightarrow> chan list" where
  "listeners_of i m = (case map_of (m_listeners m) i of None \<Rightarrow> [] | Some cs \<Rightarrow> cs)"

definition publishStatusLocked :: "string \<Rightarrow> NATSConnectionStatus \<Rightarrow> Manager \<Rightarrow> Manager" where
  "publishStatusLocked i status m = fold (try_send status) (listeners_of i m) m"

definition publish_snapshot :: "string \<Rightarrow> Manager \<Rightarrow> Manager" where
  "publish_snapshot i m = (case snapshotLocked i m of (snap, m') \<Rightarrow> publishStatusLocked i snap m')"

definition markDisconnected :: "string \<Rightarrow> string option \<Rightarrow> gotime \<Rightarrow> Manager \<Rightarrow> Manager" where
  "markDisconnected i err now m =
     publish_snapshot i (set_state i (\<lambda>st. st\<lparr>st_connected := False, st_jetStreamOK := False,
       st_lastCheckedAt := Some now,
       st_lastError := (case err of None \<Rightarrow> st_lastError st | Some e \<Rightarrow> e)\<rparr>) m)"

definition markReconnected :: "string \<Rightarrow> bool \<Rightarrow> string \<Rightarrow> gotime \<Rightarrow> Manager \<Rightarrow> Manager" where
  "markReconnected i up server now m =
     publish_snapshot i (set_state i (\<lambda>st. st\<lparr>st_connected := up, st_serverName := server,
       st_lastConnectedAt := Some now, st_lastCheckedAt := Some now, st_lastError := [],
       st_reconnects := st_reconnects st + 1\<rparr>) m)"

text \<open>\<open>js\<close> is the error of the account request, if any.\<close>

definition markConnected :: "string \<Rightarrow> bool \<Rightarrow> string \<Rightarrow> string option \<Rightarrow> gotime \<Rightarrow> Manager \<Rightarrow> Manager" where
  "markConnected i up server js now m =
     publish_snapshot i (set_state i (\<lambda>st. st\<lparr>st_cached := True, st_connected := up,
       st_serverName := server, st_lastConnectedAt := Some now, st_lastCheckedAt := Some now,
       st_jetStreamOK := js = None,
       st_lastError := (case js of None \<Rightarrow> [] | Some e \<Rightarrow> e)\<rparr>) m)"

text \<open>What \<^verbatim>\<open>Status\<close> records when the connection cannot be had.\<close>

definition status_failed :: "string \<Rightarrow> string \<Rightarrow> gotime \<Rightarrow> Manager \<Rightarrow> Manager" where
  "status_failed i err now m =
     publish_snapshot i (set_state i (\<lambda>st. st\<lparr>st_connected := False, st_jetStreamOK := False,
       st_lastCheckedAt := Some now, st_lastError := err\<rparr>) m)"

definition SubscribeStatus :: "string \<Rightarrow> Manager \<Rightarrow> (chan \<times> NATSConnectionStatus) option \<times> Manager" where
  "SubscribeStatus i m =
     (if IsEmpty i then (None, m)
      else
        (let c = length (m_chans m);
             m1 = m\<lparr>m_chans := m_chans m @ [\<lparr>ch_buf = [], ch_closed = False\<rparr>],
                    m_listeners := AList.update i (c # listeners_of i m) (m_listeners m)\<rparr>
         in case snapshotLocked i m1 of (latest, m2) \<Rightarrow> (Some (c, latest), m2)))"

definition unsubscribe :: "string \<Rightarrow> chan \<Rightarrow> Manager \<Rightarrow> Manager" where
  "unsubscribe i c m =
     (case map_of (m_listeners m) i of
        None \<Rightarrow> m
      | Some cs \<Rightarrow>
          if c \<notin> set cs then m
          else
            (let cs' = filter (\<lambda>x. x \<noteq> c) cs;
                 m' = close_chan c m
             in m'\<lparr>m_listeners := (if cs' = [] then AList.delete i (m_listeners m')
                                   else AList.update i cs' (m_listeners m'))\<rparr>))"

definition receive :: "chan \<Rightarrow> Manager \<Rightarrow> Manager" where
  "receive c m =
     (if c < length (m_chans m) then
        m\<lparr>m_chans := (m_chans m)[c := (m_chans m ! c)\<lparr>ch_buf := tl (ch_buf (m_chans m ! c))\<rparr>]\<rparr>
      else m)"

section \<open>Clients: credentials, connecting, evicting\<close>

text \<open>\<^verbatim>\<open>clusterCredentials\<close> looks under the read lock, asks the database, and stores under the lock.\<close>

definition cached_creds :: "string \<Rightarrow> gotime \<Rightarrow> Manager \<Rightarrow> ClusterRow option" where
  "cached_creds i now m =
     (case map_of (m_creds m) i of
        Some e \<Rightarrow> if now - cd_fetchedAt e < clientCacheTTL m then Some (cd_cluster e) else None
      | None \<Rightarrow> None)"

definition store_creds :: "string \<Rightarrow> ClusterRow \<Rightarrow> gotime \<Rightarrow> Manager \<Rightarrow> Manager" where
  "store_creds i row now m =
     m\<lparr>m_creds := AList.update i \<lparr>cd_cluster = row, cd_fetchedAt = now\<rparr> (m_creds m)\<rparr>"

definition clusterCredentials ::
  "(string \<Rightarrow> cluster_error + ClusterRow) \<Rightarrow> string \<Rightarrow> gotime \<times> gotime \<Rightarrow> Manager \<Rightarrow>
     (cluster_error + ClusterRow) \<times> Manager" where
  "clusterCredentials db i clock m =
     (case cached_creds i (fst clock) m of
        Some row \<Rightarrow> (Inr row, m)
      | None \<Rightarrow>
          (case db i of Inl e \<Rightarrow> (Inl e, m) | Inr row \<Rightarrow> (Inr row, store_creds i row (snd clock) m)))"

text \<open>The look at the cache with which \<^verbatim>\<open>connect\<close> begins, and again inside the single flight.\<close>

datatype found = Hit client | Dead | Miss

definition connect_lookup :: "(client \<Rightarrow> bool) \<Rightarrow> string \<Rightarrow> gotime \<Rightarrow> Manager \<Rightarrow> found" where
  "connect_lookup up i now m =
     (case map_of (m_cache m) i of
        Some e \<Rightarrow>
          if now - cc_lastUsed e < clientCacheTTL m then (if up (cc_client e) then Hit (cc_client e) else Dead)
          else Miss
      | None \<Rightarrow> Miss)"

text \<open>The new client takes its place; the old one is to be closed outside the lock.\<close>

definition install_client :: "string \<Rightarrow> client \<Rightarrow> gotime \<Rightarrow> Manager \<Rightarrow> client option \<times> Manager" where
  "install_client i c now m =
     (let old = map_option cc_client (map_of (m_cache m) i);
          m1 = (if old = None then m else bumpSessionGenerationLocked i m)
      in (old, m1\<lparr>m_cache := AList.update i \<lparr>cc_client = c, cc_lastUsed = now\<rparr> (m_cache m1)\<rparr>))"

definition mgr_evict :: "string \<Rightarrow> gotime \<Rightarrow> Manager \<Rightarrow> client option \<times> Manager" where
  "mgr_evict i now m =
     (let toClose = map_option cc_client (map_of (m_cache m) i);
          m1 = bumpSessionGenerationLocked i
                 (m\<lparr>m_cache := AList.delete i (m_cache m), m_creds := AList.delete i (m_creds m)\<rparr>)
      in (toClose,
          (if map_of (m_status m1) i = None then m1
           else
             (let m2 = publish_snapshot i (set_state i (\<lambda>st. st\<lparr>st_connected := False,
                         st_jetStreamOK := False, st_lastCheckedAt := Some now\<rparr>) m1)
              in m2\<lparr>m_status := AList.delete i (m_status m2)\<rparr>))))"

definition swept :: "(client \<Rightarrow> bool) \<Rightarrow> gotime \<Rightarrow> Manager \<Rightarrow> string \<times> cachedClient \<Rightarrow> bool" where
  "swept up now m kv \<longleftrightarrow> now - cc_lastUsed (snd kv) \<ge> clientCacheTTL m \<or> \<not> up (cc_client (snd kv))"

text \<open>One turn of the loop of \<^verbatim>\<open>sweepExpired\<close>.\<close>

definition sweep_one :: "gotime \<Rightarrow> string \<Rightarrow> Manager \<Rightarrow> Manager" where
  "sweep_one now i m =
     (let m1 = bumpSessionGenerationLocked i (m\<lparr>m_cache := AList.delete i (m_cache m)\<rparr>);
          m2 = (if map_of (m_status m1) i = None then m1
                else publish_snapshot i (set_state i (\<lambda>st. st\<lparr>st_connected := False,
                       st_jetStreamOK := False, st_lastCheckedAt := Some now\<rparr>) m1))
      in m2\<lparr>m_status := AList.delete i (m_status m2)\<rparr>)"

definition sweepExpired ::
  "(client \<Rightarrow> bool) \<Rightarrow> gotime \<Rightarrow> Manager \<Rightarrow> (string \<times> client) list \<times> Manager" where
  "sweepExpired up now m =
     (let gone = filter (swept up now m) (m_cache m);
          m1 = fold (sweep_one now) (map fst gone) m
      in (map (\<lambda>kv. (fst kv, cc_client (snd kv))) gone,
          m1\<lparr>m_creds := filter (\<lambda>kv. \<not> now - cd_fetchedAt (snd kv) \<ge> clientCacheTTL m) (m_creds m1)\<rparr>))"

definition Stop :: "Manager \<Rightarrow> (string \<times> client) list \<times> Manager" where
  "Stop m =
     (let m1 = fold bumpSessionGenerationLocked (map fst (m_cache m)) (m\<lparr>m_cache := []\<rparr>);
          m2 = fold close_chan (concat (map snd (m_listeners m1))) (m1\<lparr>m_creds := [], m_health := []\<rparr>)
      in (map (\<lambda>kv. (fst kv, cc_client (snd kv))) (m_cache m), m2\<lparr>m_listeners := []\<rparr>))"

definition activeConnectionCount :: "(client \<Rightarrow> bool) \<Rightarrow> Manager \<Rightarrow> nat" where
  "activeConnectionCount up m = length (filter (\<lambda>kv. up (cc_client (snd kv))) (m_cache m))"

section \<open>Health\<close>

definition healthBackoffBase :: duration where "healthBackoffBase = 500 * 1000000"
definition healthBackoffMax :: duration where "healthBackoffMax = 30 * Second"
definition healthProbeMinGap :: duration where "healthProbeMinGap = 2 * Second"

text \<open>The loop of \<^verbatim>\<open>healthBackoffDuration\<close>, with what is left of \<open>failCount - i\<close>.\<close>

fun backoff_loop :: "nat \<Rightarrow> duration \<Rightarrow> duration" where
  "backoff_loop 0 d = d"
| "backoff_loop (Suc k) d = (if d < healthBackoffMax then backoff_loop k (d * 2) else d)"

definition healthBackoffDuration :: "int \<Rightarrow> duration" where
  "healthBackoffDuration failCount =
     (if failCount \<le> 0 then 0
      else (let d = backoff_loop (nat (failCount - 1)) healthBackoffBase
            in if d > healthBackoffMax then healthBackoffMax else d))"

definition healthCheckTimeout :: "duration \<Rightarrow> duration" where
  "healthCheckTimeout cfg = (if cfg > 0 then cfg else 2 * Second)"

definition backoff_of :: "string \<Rightarrow> Manager \<Rightarrow> healthBackoff" where
  "backoff_of i m = (case map_of (m_health m) i of None \<Rightarrow> no_backoff | Some hb \<Rightarrow> hb)"

definition recordHealthFailure :: "string \<Rightarrow> gotime \<Rightarrow> Manager \<Rightarrow> Manager" where
  "recordHealthFailure i now m =
     (let hb = backoff_of i m
      in m\<lparr>m_health := AList.update i
             (hb\<lparr>hb_failCount := hb_failCount hb + 1, hb_lastFailAt := Some now, hb_lastProbeAt := Some now\<rparr>)
             (m_health m)\<rparr>)"

definition recordHealthSuccess :: "string \<Rightarrow> gotime \<Rightarrow> Manager \<Rightarrow> Manager" where
  "recordHealthSuccess i now m =
     (case map_of (m_health m) i of
        None \<Rightarrow> m
      | Some hb \<Rightarrow> m\<lparr>m_health := AList.update i
          (hb\<lparr>hb_failCount := 0, hb_lastFailAt := None, hb_lastProbeAt := Some now\<rparr>) (m_health m)\<rparr>)"

text \<open>The time since a moment, the zero time lying far back.\<close>

definition since_less :: "gotime \<Rightarrow> gotime option \<Rightarrow> duration \<Rightarrow> bool" where
  "since_less now t d = (case t of None \<Rightarrow> False | Some t' \<Rightarrow> now - t' < d)"

datatype session_error =
  SessionClosed | SessionInvalidated | SessionUnhealthy | SessionDB cluster_error | DialFailed | CtxDone

text \<open>
  What \<^verbatim>\<open>probeHealth\<close> sees: the link before and after the account request, the answer of the request, and
  whether it was cut off by the timeout of the probe while the caller was still waiting.
\<close>

record probe_view =
  pv_up :: bool
  pv_upAfter :: bool
  pv_js :: "string option"
  pv_timedOut :: bool
  pv_server :: string

definition note_probe :: "string \<Rightarrow> probe_view \<Rightarrow> gotime \<Rightarrow> Manager \<Rightarrow> Manager" where
  "note_probe i v now m =
     (let m1 = m\<lparr>m_health := AList.update i ((backoff_of i m)\<lparr>hb_lastProbeAt := Some now\<rparr>) (m_health m)\<rparr>
      in publish_snapshot i (set_state i (\<lambda>st. st\<lparr>st_cached := True, st_connected := pv_upAfter v,
           st_serverName := pv_server v, st_lastCheckedAt := Some now, st_jetStreamOK := pv_js v = None,
           st_lastError := (case pv_js v of None \<Rightarrow> [] | Some e \<Rightarrow> e)\<rparr>) m1))"

text \<open>A failure is recorded, then the client is evicted; the client to close is handed out.\<close>

definition unhealthy ::
  "string \<Rightarrow> gotime \<Rightarrow> Manager \<Rightarrow> session_error option \<times> client option \<times> Manager" where
  "unhealthy i now m =
     (case mgr_evict i now (recordHealthFailure i now m) of (c, m') \<Rightarrow> (Some SessionUnhealthy, c, m'))"

definition probeHealth ::
  "string \<Rightarrow> probe_view \<Rightarrow> gotime \<Rightarrow> Manager \<Rightarrow> session_error option \<times> client option \<times> Manager" where
  "probeHealth i v now m =
     (if \<not> pv_up v then unhealthy i now m
      else
        (let m1 = note_probe i v now m;
             hung = (pv_js v \<noteq> None \<and> pv_timedOut v)
         in if \<not> pv_upAfter v \<or> hung then unhealthy i now m1
            else (None, None, recordHealthSuccess i now m1)))"

definition probeOnAcquire ::
  "string \<Rightarrow> probe_view \<Rightarrow> gotime \<Rightarrow> Manager \<Rightarrow> session_error option \<times> client option \<times> Manager" where
  "probeOnAcquire i v now m =
     (let hb = backoff_of i m in
      if hb_failCount hb > 0 \<and> since_less now (hb_lastFailAt hb) (healthBackoffDuration (hb_failCount hb)) then
        (if \<not> pv_up v then unhealthy i now m else (None, None, m))
      else if since_less now (hb_lastProbeAt hb) healthProbeMinGap then
        (if \<not> pv_up v then unhealthy i now m else (None, None, m))
      else probeHealth i v now m)"

section \<open>Sessions\<close>

record Session =
  ss_client :: client
  ss_clusterID :: string
  ss_gen :: u64
  ss_closed :: bool

definition newSession :: "string \<Rightarrow> client \<Rightarrow> Manager \<Rightarrow> Session" where
  "newSession i c m = \<lparr>ss_client = c, ss_clusterID = i, ss_gen = m_gens m i, ss_closed = False\<rparr>"

definition ensureValid :: "Session \<Rightarrow> Manager \<Rightarrow> session_error option" where
  "ensureValid s m =
     (if ss_closed s then Some SessionClosed
      else if m_gens m (ss_clusterID s) \<noteq> ss_gen s then Some SessionInvalidated
      else None)"

definition session_Close :: "Session \<Rightarrow> Session" where
  "session_Close s = s\<lparr>ss_closed := True\<rparr>"

definition session_Client :: "Session \<Rightarrow> gotime \<Rightarrow> Manager \<Rightarrow> (session_error + client) \<times> Manager" where
  "session_Client s now m =
     (case ensureValid s m of
        Some e \<Rightarrow> (Inl e, m)
      | None \<Rightarrow> (Inr (ss_client s), Touch (ss_clusterID s) now m))"

definition session_Healthy ::
  "Session \<Rightarrow> probe_view \<Rightarrow> gotime \<Rightarrow> Manager \<Rightarrow> session_error option \<times> client option \<times> Manager" where
  "session_Healthy s v now m =
     (case ensureValid s m of
        Some e \<Rightarrow> (Some e, None, m)
      | None \<Rightarrow>
          (case probeHealth (ss_clusterID s) v now m of
             (Some e, c, m') \<Rightarrow> (Some e, c, m')
           | (None, c, m') \<Rightarrow> (None, c, Touch (ss_clusterID s) now m')))"

section \<open>The goroutines\<close>

text \<open>
  What is under way outside the lock: clients dialled and not yet installed (inside the function given to
  \<^verbatim>\<open>singleflight\<close>, which runs one such function for each cluster at a time), clients taken out of the
  cache and not yet closed, and callbacks \<^verbatim>\<open>OnClosed\<close> that the library owes to closed clients.
\<close>

record World =
  w_mgr :: Manager
  w_up :: "client list"
  w_open :: "client list"
  w_dialled :: "(string \<times> client) list"
  w_closing :: "(string \<times> client) list"
  w_hooks :: "string list"
  w_next :: client

definition start :: "duration \<Rightarrow> World" where
  "start cfg_ttl = \<lparr>w_mgr = NewManager cfg_ttl, w_up = [], w_open = [], w_dialled = [], w_closing = [],
     w_hooks = [], w_next = 0\<rparr>"

definition alive :: "World \<Rightarrow> client \<Rightarrow> bool" where
  "alive w c \<longleftrightarrow> c \<in> set (w_up w) \<and> c \<in> set (w_open w)"

datatype event =
    LinkUp client
  | LinkDown client
  | Dial string
  | Install string gotime
  | Evict string gotime
  | Sweep gotime
  | StopManager
  | CloseClient string client
  | OnClosed string gotime
  | TouchCluster string gotime
  | StoreCreds string ClusterRow gotime
  | Disconnected string "string option" gotime
  | Reconnected string bool string gotime
  | Connected string bool string "string option" gotime
  | StatusFailed string string gotime
  | HealthFailure string gotime
  | HealthSuccess string gotime
  | NoteProbe string probe_view gotime
  | Subscribe string
  | Unsubscribe string chan
  | Receive chan

definition evict_world :: "string \<Rightarrow> gotime \<Rightarrow> World \<Rightarrow> World" where
  "evict_world i now w =
     (case mgr_evict i now (w_mgr w) of
        (c, m') \<Rightarrow> w\<lparr>w_mgr := m', w_closing := (case c of None \<Rightarrow> [] | Some x \<Rightarrow> [(i, x)]) @ w_closing w\<rparr>)"

definition with_mgr :: "(Manager \<Rightarrow> Manager) \<Rightarrow> World \<Rightarrow> World" where
  "with_mgr f w = w\<lparr>w_mgr := f (w_mgr w)\<rparr>"

text \<open>An event that cannot happen has no next world.\<close>

fun world_step :: "event \<Rightarrow> World \<Rightarrow> World option" where
  "world_step (LinkUp c) w = Some (w\<lparr>w_up := c # w_up w\<rparr>)"
| "world_step (LinkDown c) w = Some (w\<lparr>w_up := filter (\<lambda>x. x \<noteq> c) (w_up w)\<rparr>)"
| "world_step (Dial i) w =
     (if i \<in> fst ` set (w_dialled w) then None
      else Some (w\<lparr>w_dialled := (i, w_next w) # w_dialled w, w_open := w_next w # w_open w,
                   w_up := w_next w # w_up w, w_next := Suc (w_next w)\<rparr>))"
| "world_step (Install i now) w =
     (case map_of (w_dialled w) i of
        None \<Rightarrow> None
      | Some c \<Rightarrow>
          (case install_client i c now (w_mgr w) of
             (old, m') \<Rightarrow> Some (w\<lparr>w_mgr := m', w_dialled := AList.delete i (w_dialled w),
               w_closing := (case old of None \<Rightarrow> [] | Some x \<Rightarrow> [(i, x)]) @ w_closing w\<rparr>)))"
| "world_step (Evict i now) w = Some (evict_world i now w)"
| "world_step (Sweep now) w =
     (case sweepExpired (alive w) now (w_mgr w) of
        (gone, m') \<Rightarrow> Some (w\<lparr>w_mgr := m', w_closing := gone @ w_closing w\<rparr>))"
| "world_step StopManager w =
     (case Stop (w_mgr w) of (gone, m') \<Rightarrow> Some (w\<lparr>w_mgr := m', w_closing := gone @ w_closing w\<rparr>))"
| "world_step (CloseClient i c) w =
     (if (i, c) \<in> set (w_closing w) then
        Some (w\<lparr>w_closing := remove1 (i, c) (w_closing w), w_open := remove1 c (w_open w),
                w_hooks := i # w_hooks w\<rparr>)
      else None)"
| "world_step (OnClosed i now) w =
     (if i \<in> set (w_hooks w) then Some (evict_world i now (w\<lparr>w_hooks := remove1 i (w_hooks w)\<rparr>)) else None)"
| "world_step (TouchCluster i now) w = Some (with_mgr (Touch i now) w)"
| "world_step (StoreCreds i row now) w = Some (with_mgr (store_creds i row now) w)"
| "world_step (Disconnected i err now) w = Some (with_mgr (markDisconnected i err now) w)"
| "world_step (Reconnected i up server now) w = Some (with_mgr (markReconnected i up server now) w)"
| "world_step (Connected i up server js now) w = Some (with_mgr (markConnected i up server js now) w)"
| "world_step (StatusFailed i err now) w = Some (with_mgr (status_failed i err now) w)"
| "world_step (HealthFailure i now) w = Some (with_mgr (recordHealthFailure i now) w)"
| "world_step (HealthSuccess i now) w = Some (with_mgr (recordHealthSuccess i now) w)"
| "world_step (NoteProbe i v now) w = Some (with_mgr (note_probe i v now) w)"
| "world_step (Subscribe i) w = Some (with_mgr (\<lambda>m. snd (SubscribeStatus i m)) w)"
| "world_step (Unsubscribe i c) w = Some (with_mgr (unsubscribe i c) w)"
| "world_step (Receive c) w = Some (with_mgr (receive c) w)"

fun world_run :: "event list \<Rightarrow> World \<Rightarrow> World option" where
  "world_run [] w = Some w"
| "world_run (e # es) w = (case world_step e w of None \<Rightarrow> None | Some w' \<Rightarrow> world_run es w')"

text \<open>
  \<^verbatim>\<open>Session\<close>: the credentials, the client of the cache or a new one (\<open>dialled\<close> is what a dial would
  yield, with the view of the probe for each client), the probe, and the handle.  The calls of one
  goroutine alone; what others do in between is in \<open>world_run\<close>.
\<close>

definition mgr_connect ::
  "(client \<Rightarrow> bool) \<Rightarrow> client option \<Rightarrow> string \<Rightarrow> gotime \<Rightarrow> Manager \<Rightarrow>
     (session_error + client) \<times> client list \<times> Manager" where
  "mgr_connect up dialled i now m =
     (case connect_lookup up i now m of
        Hit c \<Rightarrow> (Inr c, [], Touch i now m)
      | l \<Rightarrow>
          (let (dead, m1) = (if l = Dead then mgr_evict i now m else (None, m))
           in case dialled of
                None \<Rightarrow> (Inl DialFailed, (case dead of None \<Rightarrow> [] | Some c \<Rightarrow> [c]), m1)
              | Some c \<Rightarrow>
                  (case install_client i c now m1 of
                     (old, m2) \<Rightarrow> (Inr c, (case dead of None \<Rightarrow> [] | Some d \<Rightarrow> [d]) @
                                         (case old of None \<Rightarrow> [] | Some d \<Rightarrow> [d]), m2))))"

definition mgr_Get ::
  "(string \<Rightarrow> cluster_error + ClusterRow) \<Rightarrow> (client \<Rightarrow> bool) \<Rightarrow> (ClusterRow \<Rightarrow> client option) \<Rightarrow> string \<Rightarrow>
     gotime \<Rightarrow> Manager \<Rightarrow> (session_error + client) \<times> client list \<times> Manager" where
  "mgr_Get db up dial i now m =
     (case clusterCredentials db i (now, now) m of
        (Inl e, m1) \<Rightarrow> (Inl (SessionDB e), [], m1)
      | (Inr row, m1) \<Rightarrow> mgr_connect up (dial row) (cr_ID row) now m1)"

definition mgr_Session ::
  "(string \<Rightarrow> cluster_error + ClusterRow) \<Rightarrow> (client \<Rightarrow> probe_view) \<Rightarrow> (ClusterRow \<Rightarrow> client option) \<Rightarrow>
     bool \<Rightarrow> string \<Rightarrow> gotime \<Rightarrow> Manager \<Rightarrow> (session_error + Session) \<times> client list \<times> Manager" where
  "mgr_Session db view dial ctxDone i now m =
     (if ctxDone then (Inl CtxDone, [], m)
      else
        (case mgr_Get db (\<lambda>c. pv_up (view c)) dial i now m of
           (Inl e, closing, m1) \<Rightarrow> (Inl e, closing, m1)
         | (Inr c, closing, m1) \<Rightarrow>
             (case probeOnAcquire i (view c) now m1 of
                (Some e, dead, m2) \<Rightarrow> (Inl e, closing @ (case dead of None \<Rightarrow> [] | Some d \<Rightarrow> [d]), m2)
              | (None, _, m2) \<Rightarrow> (Inr (newSession i c (Touch i now m2)), closing, Touch i now m2))))"

section \<open>Frame lemmas\<close>

lemma bump_simps [simp]:
  "m_cache (bumpSessionGenerationLocked i m) = m_cache m"
  "m_status (bumpSessionGenerationLocked i m) = m_status m"
  "m_listeners (bumpSessionGenerationLocked i m) = m_listeners m"
  "m_chans (bumpSessionGenerationLocked i m) = m_chans m"
  "m_panic (bumpSessionGenerationLocked i m) = m_panic m"
  "m_ttl (bumpSessionGenerationLocked i m) = m_ttl m"
  by (simp_all add: bumpSessionGenerationLocked_def)

text \<open>The parts of the manager that decide about connections and sessions.\<close>

definition core :: "Manager \<Rightarrow> (string, cachedClient) gomap \<times> (string \<Rightarrow> u64) \<times> duration" where
  "core m = (m_cache m, m_gens m, m_ttl m)"

lemma core_try_send [simp]: "core (try_send s c m) = core m"
  by (simp add: try_send_def core_def Let_def)

lemma core_close_chan [simp]: "core (close_chan c m) = core m"
  by (simp add: close_chan_def core_def Let_def)

lemma core_fold: "(\<And>x m. core (f x m) = core m) \<Longrightarrow> core (fold f xs m) = core m"
  by (induction xs arbitrary: m) auto

lemma core_publish [simp]: "core (publishStatusLocked i s m) = core m"
  by (simp add: publishStatusLocked_def core_fold)

lemma core_ensureState [simp]: "core (snd (ensureState i m)) = core m"
  by (simp add: ensureState_def core_def split: option.split)

lemma core_set_state [simp]: "core (set_state i f m) = core m"
  using core_ensureState [of i m] by (simp add: set_state_def core_def case_prod_beta')

lemma core_publish_snapshot [simp]: "core (publish_snapshot i m) = core m"
  using core_ensureState [of i m]
  by (simp add: publish_snapshot_def snapshotLocked_def case_prod_beta')

lemma core_marks [simp]:
  "core (markDisconnected i err now m) = core m" "core (markReconnected i up server now m) = core m"
  "core (markConnected i up server js now m) = core m" "core (status_failed i e now m) = core m"
  by (simp_all add: markDisconnected_def markReconnected_def markConnected_def status_failed_def)

lemma core_rest [simp]:
  "core (store_creds i row now m) = core m" "core (recordHealthFailure i now m) = core m"
  "core (recordHealthSuccess i now m) = core m" "core (receive c m) = core m"
  by (simp_all add: store_creds_def recordHealthFailure_def recordHealthSuccess_def receive_def core_def
        Let_def split: option.split)

lemma core_note_probe [simp]: "core (note_probe i v now m) = core m"
  by (simp add: note_probe_def Let_def) (simp add: core_def)

lemma core_subscribe [simp]: "core (snd (SubscribeStatus i m)) = core m"
  by (simp add: SubscribeStatus_def snapshotLocked_def Let_def case_prod_beta') (simp add: core_def)

lemma core_unsubscribe [simp]: "core (unsubscribe i c m) = core m"
  using core_close_chan [of c m]
  by (simp add: unsubscribe_def Let_def core_def split: option.split)

section \<open>Connections\<close>

text \<open>Updates and deletions of a map, on the multiset of its entries.\<close>

lemma mset_alist_update:
  "mset (AList.update k v xs) =
     (case map_of xs k of None \<Rightarrow> mset xs | Some e \<Rightarrow> mset xs - {#(k, e)#}) + {#(k, v)#}"
  by (induction xs) (auto split: option.split dest: map_of_SomeD)

lemma alist_delete_absent: "k \<notin> fst ` set xs \<Longrightarrow> AList.delete k xs = xs"
  by (induction xs) auto

lemma mset_alist_delete:
  assumes "wf_gomap xs"
  shows "mset (AList.delete k xs) = (case map_of xs k of None \<Rightarrow> mset xs | Some e \<Rightarrow> mset xs - {#(k, e)#})"
  using assms unfolding wf_gomap_def
proof (induction xs)
  case (Cons x xs)
  then show ?case
    by (cases x) (auto simp: alist_delete_absent split: option.split dest: map_of_SomeD)
qed simp

lemma map_of_mset: "map_of xs k = Some e \<Longrightarrow> (k, e) \<in># mset xs"
  by (auto dest: map_of_SomeD)

definition cached_pairs :: "Manager \<Rightarrow> (string \<times> client) multiset" where
  "cached_pairs m = {# (fst kv, cc_client (snd kv)). kv \<in># mset (m_cache m) #}"

definition client_at :: "Manager \<Rightarrow> string \<Rightarrow> client option" where
  "client_at m i = map_option cc_client (map_of (m_cache m) i)"

lemma core_cached:
  assumes "core m' = core m"
  shows "cached_pairs m' = cached_pairs m" "client_at m' = client_at m" "m_cache m' = m_cache m"
    "m_gens m' = m_gens m" "m_ttl m' = m_ttl m"
  using assms by (auto simp: core_def cached_pairs_def client_at_def fun_eq_iff)

lemma touch_frame:
  shows "cached_pairs (Touch i now m) = cached_pairs m" and "client_at (Touch i now m) = client_at m"
    and "m_gens (Touch i now m) = m_gens m" and "wf_gomap (m_cache m) \<Longrightarrow> wf_gomap (m_cache (Touch i now m))"
  by (auto simp: Touch_def cached_pairs_def client_at_def fun_eq_iff mset_alist_update
        image_mset_Diff map_of_mset gomap_simps split: option.split dest!: map_of_mset multi_member_split)

lemma core_evict:
  "core (snd (mgr_evict i now m)) = (AList.delete i (m_cache m), (m_gens m)(i := m_gens m i + 1), m_ttl m)"
  "fst (mgr_evict i now m) = client_at m i"
proof -
  have "core (m'\<lparr>m_status := s\<rparr>) = core m'" for m' s by (simp add: core_def)
  then show "core (snd (mgr_evict i now m)) = (AList.delete i (m_cache m), (m_gens m)(i := m_gens m i + 1), m_ttl m)"
    by (simp add: mgr_evict_def Let_def) (simp add: core_def bumpSessionGenerationLocked_def)
qed (simp add: mgr_evict_def Let_def client_at_def)

lemma core_sweep_one:
  "core (sweep_one now i m) = (AList.delete i (m_cache m), (m_gens m)(i := m_gens m i + 1), m_ttl m)"
proof -
  have "core (m'\<lparr>m_status := s\<rparr>) = core m'" for m' s by (simp add: core_def)
  then show ?thesis
    by (simp add: sweep_one_def Let_def) (simp add: core_def bumpSessionGenerationLocked_def)
qed

text \<open>Removing the clusters \<open>is\<close>, each once.\<close>

definition removed :: "string list \<Rightarrow> Manager \<Rightarrow> Manager \<Rightarrow> bool" where
  "removed is m m' \<longleftrightarrow> m_cache m' = filter (\<lambda>kv. fst kv \<notin> set is) (m_cache m) \<and>
     m_gens m' = (\<lambda>i. if i \<in> set is then m_gens m i + 1 else m_gens m i) \<and> m_ttl m' = m_ttl m"

lemma removed_fold_sweep:
  "distinct is \<Longrightarrow> removed is m (fold (sweep_one now) is m)"
proof (induction "is" arbitrary: m)
  case (Cons i "is")
  have "removed is (sweep_one now i m) (fold (sweep_one now) is (sweep_one now i m))"
    using Cons by simp
  then show ?case
    using core_sweep_one [of now i m] Cons.prems
    by (auto simp: removed_def core_def AList.delete_eq fun_eq_iff intro!: filter_cong)
qed (simp add: removed_def)

lemma removed_evict: "removed [i] m (snd (mgr_evict i now m))"
  using core_evict(1) [of i now m] by (auto simp: removed_def core_def AList.delete_eq fun_eq_iff intro!: filter_cong)

lemma removed_client_at:
  assumes "removed is m m'"
  shows "client_at m' i = (if i \<in> set is then None else client_at m i)"
proof -
  have "map_of (filter (\<lambda>kv. fst kv \<notin> set is) xs) i = (if i \<in> set is then None else map_of xs i)"
    for xs :: "(string, cachedClient) gomap"
    by (induction xs) auto
  then show ?thesis using assms by (simp add: removed_def client_at_def)
qed

lemma removed_pairs:
  assumes "removed is m m'"
  shows "cached_pairs m = {#p \<in># cached_pairs m. fst p \<in> set is#} + cached_pairs m'"
proof -
  have "cached_pairs m' = {#p \<in># cached_pairs m. fst p \<notin> set is#}"
    using assms by (simp add: removed_def cached_pairs_def filter_mset_image_mset comp_def)
  then show ?thesis by (simp add: multiset_partition [symmetric])
qed

lemma removed_wf: "removed is m m' \<Longrightarrow> wf_gomap (m_cache m) \<Longrightarrow> wf_gomap (m_cache m')"
  by (simp add: removed_def)

lemma removed_creds: "removed is m m' \<Longrightarrow> removed is m (m'\<lparr>m_creds := cr\<rparr>)"
  by (simp add: removed_def)

lemma swept_keys:
  fixes up :: "client \<Rightarrow> bool" and now :: gotime
  assumes "wf_gomap (m_cache m)"
  defines "gone \<equiv> filter (swept up now m) (m_cache m)"
  shows "distinct (map fst gone)"
    and "mset (map (\<lambda>kv. (fst kv, cc_client (snd kv))) gone) = {#p \<in># cached_pairs m. fst p \<in> set (map fst gone)#}"
proof -
  show "distinct (map fst gone)"
    using assms(1) unfolding gone_def wf_gomap_def by (simp add: distinct_map_filter)
  have "swept up now m kv \<longleftrightarrow> fst kv \<in> set (map fst gone)" if "kv \<in> set (m_cache m)" for kv
    using that assms(1) unfolding gone_def wf_gomap_def
    by (force simp: distinct_map inj_on_def)
  then have "gone = filter (\<lambda>kv. fst kv \<in> set (map fst gone)) (m_cache m)"
    unfolding gone_def by (intro filter_cong) auto
  then have "mset gone = {#kv \<in># mset (m_cache m). fst kv \<in> set (map fst gone)#}"
    by (metis mset_filter)
  then show "mset (map (\<lambda>kv. (fst kv, cc_client (snd kv))) gone) =
      {#p \<in># cached_pairs m. fst p \<in> set (map fst gone)#}"
    by (simp add: cached_pairs_def filter_mset_image_mset comp_def)
qed

lemma removed_sweep:
  assumes "wf_gomap (m_cache m)"
  shows "removed (map fst (filter (swept up now m) (m_cache m))) m (snd (sweepExpired up now m))"
  using removed_fold_sweep [OF swept_keys(1) [OF assms, of up now], of m now]
  by (simp add: sweepExpired_def Let_def removed_creds)

lemma removed_stop:
  assumes "wf_gomap (m_cache m)"
  shows "removed (map fst (m_cache m)) m (snd (Stop m))"
proof -
  have bump: "distinct is \<Longrightarrow> m_cache (fold bumpSessionGenerationLocked is m) = m_cache m \<and>
      m_ttl (fold bumpSessionGenerationLocked is m) = m_ttl m \<and>
      m_gens (fold bumpSessionGenerationLocked is m) = (\<lambda>i. if i \<in> set is then m_gens m i + 1 else m_gens m i)"
    for "is" m
    by (induction "is" arbitrary: m) (auto simp: bumpSessionGenerationLocked_def fun_eq_iff)
  have "core (m'\<lparr>m_listeners := l\<rparr>) = core m'" "core (m'\<lparr>m_creds := a, m_health := b\<rparr>) = core m'"
    for m' l a b by (simp_all add: core_def)
  then have "core (snd (Stop m)) = core (fold bumpSessionGenerationLocked (map fst (m_cache m)) (m\<lparr>m_cache := []\<rparr>))"
    by (simp add: Stop_def Let_def core_fold)
  moreover have "filter (\<lambda>kv. fst kv \<notin> set (map fst (m_cache m))) (m_cache m) = []"
    by (auto simp: filter_empty_conv)
  ultimately show ?thesis
    using bump [of "map fst (m_cache m)" "m\<lparr>m_cache := []\<rparr>"] assms
    unfolding removed_def by (simp add: core_def wf_gomap_def fun_eq_iff)
qed

lemma image_mset_minus_entry:
  "map_of xs k = Some e \<Longrightarrow> image_mset f (mset xs - {#(k, e)#}) = image_mset f (mset xs) - {#f (k, e)#}"
  using map_of_mset [of xs k e] by (subst image_mset_Diff) (simp_all add: map_of_SomeD)

lemma install_frame:
  assumes "install_client i c now m = (old, m')"
  shows "old = client_at m i" and "client_at m' = (client_at m)(i := Some c)"
    and "m_gens m' = (if client_at m i = None then m_gens m else (m_gens m)(i := m_gens m i + 1))"
    and "wf_gomap (m_cache m) \<Longrightarrow> wf_gomap (m_cache m')"
    and "cached_pairs m' = (case old of None \<Rightarrow> cached_pairs m | Some d \<Rightarrow> cached_pairs m - {#(i, d)#}) + {#(i, c)#}"
  using assms
  by (auto simp: install_client_def Let_def client_at_def fun_eq_iff gomap_simps cached_pairs_def
        bumpSessionGenerationLocked_def mset_alist_update image_mset_minus_entry
        split: if_splits option.split)

text \<open>Every open connection is in the cache, dialled and about to be installed, or about to be closed.\<close>

definition conn_ok :: "World \<Rightarrow> bool" where
  "conn_ok w \<longleftrightarrow> wf_gomap (m_cache (w_mgr w)) \<and> wf_gomap (w_dialled w) \<and> distinct (w_open w) \<and>
     (\<forall>c \<in> set (w_open w). c < w_next w) \<and>
     mset (w_open w) = image_mset snd (cached_pairs (w_mgr w) + mset (w_dialled w) + mset (w_closing w))"

lemma conn_ok_start: "conn_ok (start ttl)"
  by (simp add: conn_ok_def start_def NewManager_def cached_pairs_def)

lemma conn_ok_frame:
  assumes "conn_ok w" "core (f (w_mgr w)) = core (w_mgr w)"
  shows "conn_ok (with_mgr f w)"
  using assms core_cached [OF assms(2)] by (simp add: conn_ok_def with_mgr_def)

text \<open>A step that moves the clients of some clusters from the cache to those about to be closed.\<close>

lemma conn_ok_removed:
  assumes "conn_ok w" "removed is (w_mgr w) m'"
    and gone: "mset gone = {#p \<in># cached_pairs (w_mgr w). fst p \<in> set is#}"
  shows "conn_ok (w\<lparr>w_mgr := m', w_closing := gone @ w_closing w\<rparr>)"
  using assms(1) removed_wf [OF assms(2)]
  unfolding conn_ok_def
  by (subst (asm) removed_pairs [OF assms(2)]) (simp add: gone)

lemma evicted_pairs:
  assumes "wf_gomap (m_cache m)"
  shows "mset (case client_at m i of None \<Rightarrow> [] | Some x \<Rightarrow> [(i, x)]) = {#p \<in># cached_pairs m. fst p \<in> set [i]#}"
proof -
  have "filter (\<lambda>kv. fst kv = i) xs = (case map_of xs i of None \<Rightarrow> [] | Some e \<Rightarrow> [(i, e)])"
    if "wf_gomap xs" for xs :: "(string, cachedClient) gomap"
    using that unfolding wf_gomap_def
    by (induction xs) (auto simp: filter_empty_conv rev_image_eqI split: option.split dest: map_of_SomeD)
  then have "{#kv \<in># mset xs. fst kv = i#} = (case map_of xs i of None \<Rightarrow> {#} | Some e \<Rightarrow> {#(i, e)#})"
    if "wf_gomap xs" for xs :: "(string, cachedClient) gomap"
    using that by (simp flip: mset_filter split: option.split)
  then show ?thesis
    using assms by (auto simp: cached_pairs_def client_at_def filter_mset_image_mset comp_def split: option.split)
qed

lemma conn_ok_evict:
  assumes "conn_ok w"
  shows "conn_ok (evict_world i now w)"
proof -
  have "wf_gomap (m_cache (w_mgr w))" using assms by (simp add: conn_ok_def)
  from conn_ok_removed [OF assms removed_evict evicted_pairs [OF this]] show ?thesis
    by (simp add: evict_world_def case_prod_beta' core_evict(2))
qed

lemma conn_ok_install:
  assumes w: "conn_ok w" and c: "map_of (w_dialled w) i = Some c"
    and new: "install_client i c now (w_mgr w) = (old, m')"
  shows "conn_ok (w\<lparr>w_mgr := m', w_dialled := AList.delete i (w_dialled w),
    w_closing := (case old of None \<Rightarrow> [] | Some x \<Rightarrow> [(i, x)]) @ w_closing w\<rparr>)"
proof -
  have wf: "wf_gomap (w_dialled w)" "wf_gomap (m_cache (w_mgr w))" using w by (simp_all add: conn_ok_def)
  have d: "mset (w_dialled w) = mset (AList.delete i (w_dialled w)) + {#(i, c)#}"
    using mset_alist_delete [OF wf(1), of i] c map_of_mset [OF c] by simp
  have "(i, x) \<in># cached_pairs (w_mgr w)" if "old = Some x" for x
    using that install_frame(1) [OF new]
    by (auto simp: client_at_def cached_pairs_def image_iff dest!: sym [of "Some _"] map_of_SomeD) force
  then have p: "cached_pairs (w_mgr w) + {#(i, c)#} =
      cached_pairs m' + mset (case old of None \<Rightarrow> [] | Some x \<Rightarrow> [(i, x)])"
    using install_frame(5) [OF new] by (auto split: option.split)
  have "image_mset snd (cached_pairs (w_mgr w)) + {#c#} =
      image_mset snd (cached_pairs m') + image_mset snd (mset (case old of None \<Rightarrow> [] | Some x \<Rightarrow> [(i, x)]))"
    using arg_cong [OF p, of "image_mset snd"] by simp
  then show ?thesis
    using w wf install_frame(4) [OF new wf(2)] unfolding conn_ok_def d by (simp add: ac_simps)
qed

lemma conn_ok_close:
  assumes w: "conn_ok w" and c: "(i, c) \<in> set (w_closing w)"
  shows "conn_ok (w\<lparr>w_closing := remove1 (i, c) (w_closing w), w_open := remove1 c (w_open w)\<rparr>)"
proof -
  have "mset (w_closing w) = {#(i, c)#} + mset (remove1 (i, c) (w_closing w))"
    using c by simp
  then have "image_mset snd (mset (w_closing w)) = {#c#} + image_mset snd (mset (remove1 (i, c) (w_closing w)))"
    by (metis image_mset_single image_mset_union snd_conv)
  then show ?thesis
    using w unfolding conn_ok_def by (auto dest!: set_remove1_subset [THEN subsetD])
qed

lemma conn_ok_dial:
  assumes "conn_ok w" "i \<notin> fst ` set (w_dialled w)"
  shows "conn_ok (w\<lparr>w_dialled := (i, w_next w) # w_dialled w, w_open := w_next w # w_open w,
    w_up := u, w_next := Suc (w_next w)\<rparr>)"
  using assms by (auto simp: conn_ok_def wf_gomap_def less_Suc_eq)

lemma core_Touch_ok: "conn_ok w \<Longrightarrow> conn_ok (with_mgr (Touch i now) w)"
  by (simp add: conn_ok_def with_mgr_def touch_frame)

lemma conn_ok_simps [simp]:
  "conn_ok (w\<lparr>w_up := u\<rparr>) \<longleftrightarrow> conn_ok w" "conn_ok (w\<lparr>w_hooks := h\<rparr>) \<longleftrightarrow> conn_ok w"
  by (simp_all add: conn_ok_def)

lemma conn_ok_step:
  assumes "conn_ok w" "world_step e w = Some w'"
  shows "conn_ok w'"
proof (cases e)
  case (Sweep now)
  have wf: "wf_gomap (m_cache (w_mgr w))" using assms(1) by (simp add: conn_ok_def)
  show ?thesis
    using assms(2) conn_ok_removed [OF assms(1) removed_sweep [OF wf] swept_keys(2) [OF wf]]
    by (auto simp: Sweep sweepExpired_def Let_def)
next
  case StopManager
  have wf: "wf_gomap (m_cache (w_mgr w))" using assms(1) by (simp add: conn_ok_def)
  have "mset (fst (Stop (w_mgr w))) = {#p \<in># cached_pairs (w_mgr w). fst p \<in> set (map fst (m_cache (w_mgr w)))#}"
  proof -
    have "{#p \<in># cached_pairs (w_mgr w). fst p \<in> set (map fst (m_cache (w_mgr w)))#} = cached_pairs (w_mgr w)"
      by (intro filter_mset_eq_conv [THEN iffD2]) (auto simp: cached_pairs_def)
    then show ?thesis by (simp add: Stop_def Let_def cached_pairs_def)
  qed
  from conn_ok_removed [OF assms(1) removed_stop [OF wf] this] show ?thesis
    using assms(2) by (simp add: StopManager case_prod_beta')
next
  case (Install i now)
  with assms(2) obtain c where "map_of (w_dialled w) i = Some c" by (auto split: option.splits)
  then show ?thesis
    using assms conn_ok_install [OF assms(1), of i c now] by (auto simp: Install split: prod.splits)
qed (use assms in \<open>auto simp: conn_ok_evict conn_ok_close conn_ok_dial core_Touch_ok conn_ok_frame
      case_prod_beta' split: if_splits option.splits\<close>)

section \<open>Generations\<close>

text \<open>
  A step either leaves the generation of a cluster alone, and then a cached client stays in its place, or
  counts it up by one.
\<close>

definition gen_step :: "string \<Rightarrow> Manager \<Rightarrow> Manager \<Rightarrow> bool" where
  "gen_step i m m' \<longleftrightarrow> m_gens m' i = m_gens m i + 1 \<or>
     (m_gens m' i = m_gens m i \<and> (client_at m i \<noteq> None \<longrightarrow> client_at m' i = client_at m i))"

lemma gen_step_core: "core m' = core m \<Longrightarrow> gen_step i m m'"
  by (auto simp: gen_step_def dest: core_cached)

lemma gen_step_removed: "removed is m m' \<Longrightarrow> gen_step i m m'"
  using removed_client_at [of "is" m m' i] by (auto simp: gen_step_def removed_def)

lemma gen_step_install: "install_client j c now m = (old, m') \<Longrightarrow> gen_step i m m'"
  using install_frame [of j c now m old m'] by (auto simp: gen_step_def)

lemma gen_step_world:
  assumes "conn_ok w" "world_step e w = Some w'"
  shows "gen_step i (w_mgr w) (w_mgr w')"
proof -
  have wf: "wf_gomap (m_cache (w_mgr w))" using assms(1) by (simp add: conn_ok_def)
  have ev: "gen_step i (w_mgr u) (w_mgr (evict_world j now u))" for j now u
    using removed_evict [THEN gen_step_removed] by (simp add: evict_world_def case_prod_beta')
  show ?thesis
  proof (cases e)
    case (TouchCluster j now)
    then show ?thesis
      using assms(2) by (auto simp: with_mgr_def gen_step_def touch_frame)
  next
    case (OnClosed j now)
    then show ?thesis
      using assms(2) ev [of "w\<lparr>w_hooks := remove1 j (w_hooks w)\<rparr>" j now] by (auto split: if_splits)
  qed (use assms(2) ev gen_step_removed [OF removed_sweep [OF wf]] gen_step_removed [OF removed_stop [OF wf]] in
        \<open>auto simp: with_mgr_def gen_step_core gen_step_removed gen_step_install case_prod_beta'
           intro: gen_step_install [OF prod.collapse [symmetric]] split: if_splits option.splits\<close>)
qed

lemma conn_ok_run: "conn_ok w \<Longrightarrow> world_run es w = Some w' \<Longrightarrow> conn_ok w'"
  by (induction es arbitrary: w) (auto split: option.splits dest: conn_ok_step)

lemma gen_run:
  assumes "conn_ok w" "world_run es w = Some w'"
  shows "\<exists>k \<le> length es. m_gens (w_mgr w') i = m_gens (w_mgr w) i + of_nat k \<and>
    (k = 0 \<longrightarrow> client_at (w_mgr w) i \<noteq> None \<longrightarrow> client_at (w_mgr w') i = client_at (w_mgr w) i)"
  using assms
proof (induction es arbitrary: w)
  case Nil
  then show ?case by (intro exI [of _ 0]) simp
next
  case (Cons e es)
  from Cons.prems(2) obtain u where u: "world_step e w = Some u" "world_run es u = Some w'"
    by (auto split: option.splits)
  obtain k where k: "k \<le> length es" "m_gens (w_mgr w') i = m_gens (w_mgr u) i + of_nat k"
      "k = 0 \<Longrightarrow> client_at (w_mgr u) i \<noteq> None \<Longrightarrow> client_at (w_mgr w') i = client_at (w_mgr u) i"
    using Cons.IH [OF conn_ok_step [OF Cons.prems(1) u(1)] u(2)] by blast
  from gen_step_world [OF Cons.prems(1) u(1), of i] consider
    (bump) "m_gens (w_mgr u) i = m_gens (w_mgr w) i + 1"
    | (same) "m_gens (w_mgr u) i = m_gens (w_mgr w) i"
        "client_at (w_mgr w) i \<noteq> None \<longrightarrow> client_at (w_mgr u) i = client_at (w_mgr w) i"
    unfolding gen_step_def by blast
  then show ?case
  proof cases
    case bump
    with k show ?thesis by (intro exI [of _ "Suc k"]) simp
  next
    case same
    with k show ?thesis by (intro exI [of _ k]) auto
  qed
qed

section \<open>Subscribers of the status\<close>

definition comm :: "Manager \<Rightarrow> bool \<times> (string, chan list) gomap \<times> statusChan list" where
  "comm m = (m_panic m, m_listeners m, m_chans m)"

lemma comm_bump [simp]: "comm (bumpSessionGenerationLocked i m) = comm m"
  by (simp add: comm_def)

lemma comm_updates [simp]:
  "comm (m\<lparr>m_cache := a\<rparr>) = comm m" "comm (m\<lparr>m_creds := b\<rparr>) = comm m" "comm (m\<lparr>m_status := c\<rparr>) = comm m"
  "comm (m\<lparr>m_health := d\<rparr>) = comm m" "comm (m\<lparr>m_gens := e\<rparr>) = comm m"
  by (simp_all add: comm_def)

lemma comm_state [simp]: "comm (snd (ensureState i m)) = comm m" "comm (set_state i f m) = comm m"
  by (simp_all add: ensureState_def set_state_def split: option.split)

lemma comm_rest [simp]:
  "comm (store_creds i row now m) = comm m" "comm (recordHealthFailure i now m) = comm m"
  "comm (recordHealthSuccess i now m) = comm m" "comm (Touch i now m) = comm m"
  "comm (snd (install_client i c now m)) = comm m"
  by (simp_all add: store_creds_def recordHealthFailure_def recordHealthSuccess_def Touch_def
        install_client_def Let_def split: option.split)

lemma comm_fold: "(\<And>x m. comm (f x m) = comm m) \<Longrightarrow> comm (fold f xs m) = comm m"
  by (induction xs arbitrary: m) auto

definition chan_ok :: "Manager \<Rightarrow> bool" where
  "chan_ok m \<longleftrightarrow> \<not> m_panic m \<and> wf_gomap (m_listeners m) \<and> (\<forall>i. distinct (listeners_of i m)) \<and>
     (\<forall>i j c. c \<in> set (listeners_of i m) \<longrightarrow> c \<in> set (listeners_of j m) \<longrightarrow> i = j) \<and>
     (\<forall>i. \<forall>c \<in> set (listeners_of i m). c < length (m_chans m) \<and> \<not> ch_closed (m_chans m ! c) \<and>
        (\<forall>s \<in> set (ch_buf (m_chans m ! c)). ns_ClusterID s = i)) \<and>
     (\<forall>ch \<in> set (m_chans m). length (ch_buf ch) \<le> statusSubscriberBuffer)"

lemma chan_ok_comm: "comm m' = comm m \<Longrightarrow> chan_ok m' = chan_ok m"
  by (simp add: chan_ok_def comm_def listeners_of_def)

lemma chan_okD:
  assumes "chan_ok m" "c \<in> set (listeners_of i m)"
  shows "c < length (m_chans m)" "\<not> ch_closed (m_chans m ! c)"
    "\<And>j. c \<in> set (listeners_of j m) \<Longrightarrow> j = i"
    "\<And>s. s \<in> set (ch_buf (m_chans m ! c)) \<Longrightarrow> ns_ClusterID s = i"
  using assms unfolding chan_ok_def by blast+

lemma listeners_try_send [simp]: "m_listeners (try_send s c m) = m_listeners m"
  "listeners_of i (try_send s c m) = listeners_of i m"
  by (simp_all add: try_send_def Let_def listeners_of_def)

lemma chan_ok_set_chan:
  assumes "chan_ok m" "c < length (m_chans m)" "length (ch_buf ch) \<le> statusSubscriberBuffer"
    and "\<And>i. c \<in> set (listeners_of i m) \<Longrightarrow> \<not> ch_closed ch \<and> (\<forall>s \<in> set (ch_buf ch). ns_ClusterID s = i)"
  shows "chan_ok (m\<lparr>m_chans := (m_chans m)[c := ch]\<rparr>)"
  using assms set_update_subset_insert [of "m_chans m" c ch]
  unfolding chan_ok_def by (auto simp: listeners_of_def nth_list_update)

lemma chan_ok_try_send:
  assumes "chan_ok m" "c \<in> set (listeners_of i m)" "ns_ClusterID s = i"
  shows "chan_ok (try_send s c m)"
  using assms(1,3) chan_okD [OF assms(1,2)]
  by (auto simp: try_send_def Let_def intro!: chan_ok_set_chan)

lemma chan_ok_publish:
  assumes "chan_ok m" "ns_ClusterID s = i"
  shows "chan_ok (publishStatusLocked i s m)"
proof -
  have "set cs \<subseteq> set (listeners_of i m) \<Longrightarrow> chan_ok m \<Longrightarrow> chan_ok (fold (try_send s) cs m)" for cs
    by (induction cs arbitrary: m) (auto simp: assms(2) chan_ok_try_send)
  with assms(1) show ?thesis by (simp add: publishStatusLocked_def)
qed

lemma chan_ok_snapshot: "chan_ok m \<Longrightarrow> chan_ok (publish_snapshot i m)"
  using chan_ok_comm [OF comm_state(1), of i m]
  by (simp add: publish_snapshot_def snapshotLocked_def case_prod_beta' chan_ok_publish)

lemma chan_ok_same [simp]:
  "chan_ok (set_state i f m) = chan_ok m" "chan_ok (bumpSessionGenerationLocked i m) = chan_ok m"
  "chan_ok (m\<lparr>m_status := c\<rparr>) = chan_ok m" "chan_ok (m\<lparr>m_cache := a\<rparr>) = chan_ok m"
  "chan_ok (m\<lparr>m_creds := b\<rparr>) = chan_ok m" "chan_ok (m\<lparr>m_health := d\<rparr>) = chan_ok m"
  "chan_ok (store_creds i row now m) = chan_ok m" "chan_ok (recordHealthFailure i now m) = chan_ok m"
  "chan_ok (recordHealthSuccess i now m) = chan_ok m" "chan_ok (Touch i now m) = chan_ok m"
  "chan_ok (snd (install_client i x now m)) = chan_ok m" "chan_ok (snd (ensureState i m)) = chan_ok m"
  by (intro chan_ok_comm; simp)+

lemma chan_ok_marks:
  assumes "chan_ok m"
  shows "chan_ok (markDisconnected i err now m)" "chan_ok (markReconnected i up server now m)"
    "chan_ok (markConnected i up server js now m)" "chan_ok (status_failed i e now m)"
    "chan_ok (note_probe i v now m)"
  using assms
  by (simp_all add: markDisconnected_def markReconnected_def markConnected_def status_failed_def
        note_probe_def Let_def chan_ok_snapshot)

lemma chan_ok_evict: "chan_ok m \<Longrightarrow> chan_ok (snd (mgr_evict i now m))"
  by (simp add: mgr_evict_def Let_def chan_ok_snapshot)

lemma chan_ok_sweep: "chan_ok m \<Longrightarrow> chan_ok (snd (sweepExpired up now m))"
proof -
  have "chan_ok m \<Longrightarrow> chan_ok (sweep_one now i m)" for i m
    by (simp add: sweep_one_def Let_def chan_ok_snapshot)
  then have "chan_ok m \<Longrightarrow> chan_ok (fold (sweep_one now) is m)" for "is"
    by (induction "is" arbitrary: m) auto
  then show "chan_ok m \<Longrightarrow> chan_ok (snd (sweepExpired up now m))"
    by (simp add: sweepExpired_def Let_def)
qed

lemma chan_ok_subscribe:
  assumes "chan_ok m"
  shows "chan_ok (snd (SubscribeStatus i m))"
proof (cases "IsEmpty i")
  case False
  let ?m = "m\<lparr>m_chans := m_chans m @ [\<lparr>ch_buf = [], ch_closed = False\<rparr>],
      m_listeners := AList.update i (length (m_chans m) # listeners_of i m) (m_listeners m)\<rparr>"
  have l: "listeners_of j ?m = (if j = i then length (m_chans m) # listeners_of i m else listeners_of j m)" for j
    by (simp add: listeners_of_def gomap_simps)
  have lt: "c < length (m_chans m)" if "c \<in> set (listeners_of j m)" for c j
    using chan_okD(1) [OF assms that] .
  then have nl: "length (m_chans m) \<notin> set (listeners_of j m)" for j
    by blast
  have chan: "m_chans ?m ! c = (if c < length (m_chans m) then m_chans m ! c
      else \<lparr>ch_buf = [], ch_closed = False\<rparr>)" if "c \<le> length (m_chans m)" for c
    using that by (auto simp: nth_append)
  have "chan_ok ?m"
    unfolding chan_ok_def
  proof (intro conjI allI ballI impI)
    show "distinct (listeners_of j ?m)" for j
      using assms lt by (auto simp: l chan_ok_def)
    show "j = k" if "c \<in> set (listeners_of j ?m)" "c \<in> set (listeners_of k ?m)" for j k c
      using that chan_okD(3) [OF assms] by (auto simp: l nl split: if_splits)
    fix j c
    assume "c \<in> set (listeners_of j ?m)"
    then have c: "c = length (m_chans m) \<or> c \<in> set (listeners_of j m)"
      by (auto simp: l split: if_splits)
    then show "c < length (m_chans ?m)" using lt by fastforce
    show "\<not> ch_closed (m_chans ?m ! c)"
      using c chan_okD(1,2) [OF assms, of c j] by (subst chan) auto
    show "ns_ClusterID s = j" if "s \<in> set (ch_buf (m_chans ?m ! c))" for s
      using that c chan_okD(1,4) [OF assms, of c j] by (subst (asm) chan) (auto split: if_splits)
  qed (use assms in \<open>auto simp: chan_ok_def\<close>)
  then show ?thesis
    using False by (simp add: SubscribeStatus_def snapshotLocked_def Let_def case_prod_beta')
qed (simp add: SubscribeStatus_def assms)

lemma close_chan_open:
  assumes "chan_ok m" "c \<in> set (listeners_of i m)"
  shows "close_chan c m = m\<lparr>m_chans := (m_chans m)[c := (m_chans m ! c)\<lparr>ch_closed := True\<rparr>]\<rparr>"
  using chan_okD(2) [OF assms] by (simp add: close_chan_def Let_def)

lemma chan_ok_unsubscribe:
  assumes "chan_ok m"
  shows "chan_ok (unsubscribe i c m)"
proof (cases "c \<in> set (listeners_of i m)")
  case True
  then obtain cs where cs: "map_of (m_listeners m) i = Some cs" "c \<in> set cs"
    by (cases "map_of (m_listeners m) i") (auto simp: listeners_of_def)
  let ?cs = "filter (\<lambda>x. x \<noteq> c) cs"
  let ?m = "(close_chan c m)\<lparr>m_listeners := (if ?cs = [] then AList.delete i (m_listeners m)
      else AList.update i ?cs (m_listeners m))\<rparr>"
  have run: "unsubscribe i c m = ?m"
    using cs by (simp add: unsubscribe_def Let_def close_chan_open [OF assms True])
  have l: "listeners_of j ?m = (if j = i then ?cs else listeners_of j m)" for j
    using cs by (auto simp: listeners_of_def gomap_simps)
  have i: "listeners_of i m = cs" using cs by (simp add: listeners_of_def)
  have other: "c \<notin> set (listeners_of j m)" if "j \<noteq> i" for j
    using chan_okD(3) [OF assms True, of j] that by blast
  have bufs: "length (ch_buf ch) \<le> statusSubscriberBuffer"
    if "ch \<in> set ((m_chans m)[c := (m_chans m ! c)\<lparr>ch_closed := True\<rparr>])" for ch
    using that assms chan_okD(1) [OF assms True] unfolding chan_ok_def
    by (auto dest!: set_update_subset_insert [THEN subsetD])
  have sub: "d \<in> set (listeners_of j m) \<and> d \<noteq> c" if "d \<in> set (listeners_of j ?m)" for d j
    using that other [of j] i by (auto simp: l split: if_splits)
  have same: "m_chans ?m ! d = m_chans m ! d" if "d \<noteq> c" for d
    using that by (simp add: close_chan_open [OF assms True])
  have len: "length (m_chans ?m) = length (m_chans m)"
    by (simp add: close_chan_open [OF assms True])
  have "chan_ok ?m"
    unfolding chan_ok_def
  proof (intro conjI allI ballI impI)
    show "distinct (listeners_of j ?m)" for j
      using assms i unfolding chan_ok_def l by (metis distinct_filter)
    show "j = k" if "d \<in> set (listeners_of j ?m)" "d \<in> set (listeners_of k ?m)" for j k d
      using sub [OF that(1)] sub [OF that(2)] chan_okD(3) [OF assms] by blast
    fix j d
    assume "d \<in> set (listeners_of j ?m)"
    note d = sub [OF this]
    show "d < length (m_chans ?m)" "\<not> ch_closed (m_chans ?m ! d)"
      using d chan_okD(1,2) [OF assms, of d j] len same [of d] by simp_all
    show "ns_ClusterID s = j" if "s \<in> set (ch_buf (m_chans ?m ! d))" for s
      using d that chan_okD(4) [OF assms, of d j] same [of d] by simp
  qed (use assms bufs in \<open>auto simp: chan_ok_def close_chan_open [OF assms True]\<close>)
  then show ?thesis unfolding run .
next
  case False
  then show ?thesis
    using assms by (auto simp: unsubscribe_def listeners_of_def split: option.splits)
qed

lemma chan_ok_receive:
  assumes "chan_ok m"
  shows "chan_ok (receive c m)"
proof (cases "c < length (m_chans m)")
  case True
  let ?ch = "m_chans m ! c"
  have "length (ch_buf ?ch) \<le> statusSubscriberBuffer"
    using assms True by (simp add: chan_ok_def)
  moreover have "set (tl (ch_buf ?ch)) \<subseteq> set (ch_buf ?ch)"
    by (cases "ch_buf ?ch") auto
  ultimately show ?thesis
    using True chan_okD [OF assms, of c] by (auto simp: receive_def intro!: chan_ok_set_chan [OF assms])
qed (simp add: receive_def assms)

lemma close_all:
  assumes "\<not> m_panic m" "distinct cs" "\<forall>c \<in> set cs. c < length (m_chans m) \<and> \<not> ch_closed (m_chans m ! c)"
    and "\<forall>ch \<in> set (m_chans m). length (ch_buf ch) \<le> statusSubscriberBuffer"
  shows "\<not> m_panic (fold close_chan cs m) \<and>
    (\<forall>ch \<in> set (m_chans (fold close_chan cs m)). length (ch_buf ch) \<le> statusSubscriberBuffer)"
  using assms
proof (induction cs arbitrary: m)
  case (Cons c cs)
  let ?m = "m\<lparr>m_chans := (m_chans m)[c := (m_chans m ! c)\<lparr>ch_closed := True\<rparr>]\<rparr>"
  have "close_chan c m = ?m" using Cons.prems by (simp add: close_chan_def Let_def)
  moreover have "\<forall>ch \<in> set (m_chans ?m). length (ch_buf ch) \<le> statusSubscriberBuffer"
    using Cons.prems by (auto dest!: set_update_subset_insert [THEN subsetD])
  moreover have "\<forall>d \<in> set cs. d < length (m_chans ?m) \<and> \<not> ch_closed (m_chans ?m ! d)"
    using Cons.prems(2,3) by (auto simp: nth_list_update)
  ultimately show ?case
    using Cons.IH [of ?m] Cons.prems(1,2) by simp
qed simp

lemma distinct_concat_listeners:
  assumes "wf_gomap L" "\<And>i cs. (i, cs) \<in> set L \<Longrightarrow> distinct cs"
    and "\<And>i j cs ds c. (i, cs) \<in> set L \<Longrightarrow> (j, ds) \<in> set L \<Longrightarrow> c \<in> set cs \<Longrightarrow> c \<in> set ds \<Longrightarrow> i = j"
  shows "distinct (concat (map snd L))"
  using assms unfolding wf_gomap_def
proof (induction L)
  case (Cons p L)
  obtain i cs where p: "p = (i, cs)" by (cases p)
  have "set cs \<inter> set ds = {}" if "(j, ds) \<in> set L" for j ds
    using Cons.prems(1) Cons.prems(3) [of i cs j ds] that by (force simp: p)
  moreover have "distinct (concat (map snd L))"
    using Cons by (intro Cons.IH) (auto intro: Cons.prems)
  ultimately show ?case
    using Cons.prems(2) [of i cs] by (fastforce simp: p)
qed simp

lemma chan_ok_stop:
  assumes "chan_ok m"
  shows "chan_ok (snd (Stop m))"
proof -
  define m1 where "m1 = (fold bumpSessionGenerationLocked (map fst (m_cache m)) (m\<lparr>m_cache := []\<rparr>))
    \<lparr>m_creds := [], m_health := []\<rparr>"
  have "comm m1 = comm m" unfolding m1_def by (simp add: comm_fold)
  then have same: "m_panic m1 = m_panic m" "m_listeners m1 = m_listeners m" "m_chans m1 = m_chans m"
    by (simp_all add: comm_def)
  have in_l: "c \<in> set (listeners_of i m)" if "(i, cs) \<in> set (m_listeners m)" "c \<in> set cs" for i cs c
    using that assms by (simp add: listeners_of_def chan_ok_def wf_gomap_def)
  have "distinct cs" if "(i, cs) \<in> set (m_listeners m)" for i cs
    using that assms unfolding chan_ok_def wf_gomap_def listeners_of_def
    by (metis map_of_is_SomeI option.simps(5))
  then have "distinct (concat (map snd (m_listeners m)))"
    using assms chan_okD(3) [OF assms] in_l
    by (intro distinct_concat_listeners) (simp_all add: chan_ok_def, blast)
  moreover have "\<forall>c \<in> set (concat (map snd (m_listeners m))). c < length (m_chans m1) \<and> \<not> ch_closed (m_chans m1 ! c)"
    using in_l chan_okD(1,2) [OF assms] unfolding same by fastforce
  ultimately have "\<not> m_panic (fold close_chan (concat (map snd (m_listeners m))) m1) \<and>
      (\<forall>ch \<in> set (m_chans (fold close_chan (concat (map snd (m_listeners m))) m1)).
         length (ch_buf ch) \<le> statusSubscriberBuffer)"
    using assms by (intro close_all) (auto simp: same chan_ok_def)
  moreover have "snd (Stop m) = (fold close_chan (concat (map snd (m_listeners m))) m1)\<lparr>m_listeners := []\<rparr>"
  proof -
    have "m_listeners (fold bumpSessionGenerationLocked (map fst (m_cache m)) (m\<lparr>m_cache := []\<rparr>)) = m_listeners m"
      using same(2) by (simp add: m1_def)
    then show ?thesis by (simp add: Stop_def Let_def m1_def)
  qed
  ultimately show ?thesis by (simp add: chan_ok_def listeners_of_def)
qed

lemma chan_ok_step:
  assumes "chan_ok (w_mgr w)" "world_step e w = Some w'"
  shows "chan_ok (w_mgr w')"
proof (cases e)
  case (Install i now)
  then show ?thesis
    using assms chan_ok_same(11) [of i _ now "w_mgr w"]
    by (auto simp: case_prod_beta' split: option.splits)
qed (use assms in \<open>auto simp: with_mgr_def evict_world_def case_prod_beta' chan_ok_marks chan_ok_evict chan_ok_sweep
      chan_ok_subscribe chan_ok_unsubscribe chan_ok_receive chan_ok_stop split: if_splits option.splits\<close>)

section \<open>Properties\<close>

text \<open>No connection leaks.  In every interleaving of requests, callbacks, sweeps and stops, starting from
  an empty manager, the open connections are, each exactly once, those in the cache (at most one for a
  cluster), those dialled and about to be installed, and those some goroutine is about to close.\<close>

theorem no_connection_leak:
  assumes "world_run es (start ttl) = Some w"
  shows "distinct (w_open w) \<and> distinct (map fst (m_cache (w_mgr w))) \<and>
    mset (w_open w) = mset (map (cc_client \<circ> snd) (m_cache (w_mgr w))) + mset (map snd (w_dialled w)) +
      mset (map snd (w_closing w))"
  using conn_ok_run [OF conn_ok_start assms]
  by (simp add: conn_ok_def cached_pairs_def wf_gomap_def comp_def multiset.map_comp)

text \<open>A session is only as good as the connection it was made for: if it was made while its client was
  the cached one, and it is still taken for valid after any events (fewer than \<open>2 ^ 64\<close>, so that the
  generation cannot come round), then its client is still the cached one, and open.\<close>

theorem sessions_invalidated:
  assumes run: "world_run es1 (start ttl) = Some w" "world_run es2 w = Some w'"
    and made: "client_at (w_mgr w) i = Some c"
    and valid: "ensureValid (newSession i c (w_mgr w)) (w_mgr w') = None"
    and len: "length es2 < 2 ^ 64"
  shows "client_at (w_mgr w') i = Some c \<and> c \<in> set (w_open w')"
proof -
  have ok: "conn_ok w" "conn_ok w'"
    using conn_ok_run [OF conn_ok_start run(1)] conn_ok_run [OF _ run(2)] by blast+
  obtain k where k: "k \<le> length es2" "m_gens (w_mgr w') i = m_gens (w_mgr w) i + of_nat k"
      "k = 0 \<Longrightarrow> client_at (w_mgr w') i = client_at (w_mgr w) i"
    using gen_run [OF ok(1) run(2), of i] made by auto
  have "(of_nat k :: u64) = 0"
    using valid k(2) by (simp add: ensureValid_def newSession_def split: if_splits)
  then have "k = 0"
    using k(1) len by (auto simp: word_of_nat_eq_0_iff dest: dvd_imp_le)
  with k(3) made have at: "client_at (w_mgr w') i = Some c" by simp
  then have "(i, c) \<in># cached_pairs (w_mgr w')"
    by (force simp: client_at_def cached_pairs_def dest!: map_of_SomeD)
  then have "c \<in># image_mset snd (cached_pairs (w_mgr w') + mset (w_dialled w') + mset (w_closing w'))"
    by force
  then have "c \<in># mset (w_open w')"
    using ok(2) by (simp add: conn_ok_def)
  with at show ?thesis by simp
qed

text \<open>The channels of subscribers are safe: in every interleaving nothing is sent on a closed channel and
  none is closed twice, no channel holds more than its buffer, and a subscriber that is registered only gets
  the status of its own cluster.\<close>

theorem status_channels_safe:
  assumes "world_run es (start ttl) = Some w"
  shows "\<not> m_panic (w_mgr w) \<and>
    (\<forall>i. \<forall>c \<in> set (listeners_of i (w_mgr w)).
       \<not> ch_closed (m_chans (w_mgr w) ! c) \<and> length (ch_buf (m_chans (w_mgr w) ! c)) \<le> statusSubscriberBuffer \<and>
       (\<forall>s \<in> set (ch_buf (m_chans (w_mgr w) ! c)). ns_ClusterID s = i))"
proof -
  have "chan_ok (w_mgr u) \<Longrightarrow> world_run es u = Some w \<Longrightarrow> chan_ok (w_mgr w)" for u
    by (induction es arbitrary: u) (auto split: option.splits dest: chan_ok_step)
  moreover have "chan_ok (w_mgr (start ttl))"
    by (simp add: chan_ok_def start_def NewManager_def listeners_of_def)
  ultimately have ok: "chan_ok (w_mgr w)" using assms by blast
  then have "length (ch_buf (m_chans (w_mgr w) ! c)) \<le> statusSubscriberBuffer"
    if "c \<in> set (listeners_of i (w_mgr w))" for c i
    using chan_okD(1) [OF ok that] by (simp add: chan_ok_def)
  with ok chan_okD(2,4) [OF ok] show ?thesis by (simp add: chan_ok_def)
qed

lemma backoff_loop_eq:
  assumes "0 < d"
  shows "min (backoff_loop k d) healthBackoffMax = min (d * 2 ^ k) healthBackoffMax"
  using assms
proof (induction k arbitrary: d)
  case (Suc k)
  have "(1 :: int) \<le> 2 ^ Suc k" by (rule one_le_power) simp
  then have "d \<le> d * (2 * 2 ^ k)" using Suc.prems by simp
  then have "healthBackoffMax \<le> d * 2 ^ Suc k" if "\<not> d < healthBackoffMax" using that by simp
  then show ?case
    using Suc.IH [of "d * 2"] Suc.prems by (cases "d < healthBackoffMax") (auto simp: mult.assoc)
qed simp

text \<open>The backoff of health checks doubles from half a second with each failure and stays at thirty
  seconds; without a failure there is none.\<close>

theorem backoff_doubles:
  "healthBackoffDuration n = (if n \<le> 0 then 0 else min (healthBackoffBase * 2 ^ nat (n - 1)) healthBackoffMax)"
  using backoff_loop_eq [of healthBackoffBase "nat (n - 1)"]
  by (auto simp: healthBackoffDuration_def Let_def min_def healthBackoffBase_def)

text \<open>What an acquisition of a session tells: the link was up when it was checked.\<close>

lemma unhealthy_fails: "fst (unhealthy i now m) = Some SessionUnhealthy"
  by (simp add: unhealthy_def split: prod.split)

lemma probe_passes: "fst (probeOnAcquire i v now m) = None \<Longrightarrow> pv_up v"
  using unhealthy_fails by (auto simp: probeOnAcquire_def probeHealth_def Let_def split: if_splits)

lemma health_try_send [simp]: "m_health (try_send s c m) = m_health m"
  by (simp add: try_send_def Let_def)

lemma health_publish [simp]: "m_health (publishStatusLocked i s m) = m_health m"
proof -
  have "m_health (fold (try_send s) cs m) = m_health m" for cs
    by (induction cs arbitrary: m) auto
  then show ?thesis by (simp add: publishStatusLocked_def)
qed

lemma health_state [simp]:
  "m_health (snd (ensureState i m)) = m_health m" "m_health (set_state i f m) = m_health m"
  by (simp_all add: ensureState_def set_state_def split: option.split)

lemma health_snapshot [simp]: "m_health (publish_snapshot i m) = m_health m"
  by (simp add: publish_snapshot_def snapshotLocked_def case_prod_beta')

lemma health_evict [simp]: "m_health (snd (mgr_evict i now m)) = m_health m"
  by (simp add: mgr_evict_def Let_def bumpSessionGenerationLocked_def)

lemma backoff_of_health: "m_health m' = m_health m \<Longrightarrow> backoff_of i m' = backoff_of i m"
  by (simp add: backoff_of_def)

lemma failCount_rest [simp]:
  "hb_failCount (backoff_of i (recordHealthFailure i now m)) = hb_failCount (backoff_of i m) + 1"
  "hb_failCount (backoff_of i (note_probe i v now m)) = hb_failCount (backoff_of i m)"
  by (simp_all add: recordHealthFailure_def note_probe_def backoff_of_def Let_def gomap_simps)

lemma unhealthy_effect:
  assumes "unhealthy i now m = (e, c, m')"
  shows "e = Some SessionUnhealthy" "client_at m' i = None"
    "hb_failCount (backoff_of i m') = hb_failCount (backoff_of i m) + 1"
proof -
  let ?m = "recordHealthFailure i now m"
  have m': "m' = snd (mgr_evict i now ?m)" and e: "e = Some SessionUnhealthy"
    using assms by (auto simp: unhealthy_def split: prod.splits)
  show "e = Some SessionUnhealthy" by (rule e)
  show "client_at m' i = None"
    using removed_client_at [OF removed_evict [of i ?m now], of i] by (simp add: m')
  show "hb_failCount (backoff_of i m') = hb_failCount (backoff_of i m) + 1"
    using backoff_of_health [of "snd (mgr_evict i now ?m)" ?m i] by (simp add: m')
qed

lemma probe_effect:
  assumes "probeOnAcquire i v now m = (e, c, m')"
  obtains (up) "e = None" "pv_up v"
    | (down) "e = Some SessionUnhealthy" "client_at m' i = None"
        "hb_failCount (backoff_of i m') = hb_failCount (backoff_of i m) + 1"
proof -
  have "(e = None \<and> pv_up v) \<or> (e = Some SessionUnhealthy \<and> client_at m' i = None \<and>
      hb_failCount (backoff_of i m') = hb_failCount (backoff_of i m) + 1)"
    using assms unhealthy_effect
    by (auto simp: probeOnAcquire_def probeHealth_def Let_def split: if_splits)
  then show thesis
    by (elim disjE conjE) (rule up, assumption+, rule down)
qed

lemma connect_health: "m_health (snd (snd (mgr_connect up d i now m))) = m_health m"
proof -
  have "m_health (Touch i now m) = m_health m" "m_health (snd (install_client i c now m)) = m_health m" for c m
    by (simp_all add: Touch_def install_client_def bumpSessionGenerationLocked_def Let_def split: option.split)
  then show ?thesis
    by (simp add: mgr_connect_def Let_def case_prod_beta' split: found.split option.split)
qed

lemma get_health: "m_health (snd (snd (mgr_Get db up dial i now m))) = m_health m"
  by (auto simp: mgr_Get_def clusterCredentials_def store_creds_def connect_health
        split: prod.split sum.split option.split)

text \<open>A session is handed out only for a client whose link was up when it was looked at, and it is valid
  at that moment; when the probe fails, the client is evicted at once and one more failure is counted.\<close>

theorem session_checked:
  assumes run: "mgr_Session db view dial ctxDone i now m = (res, closing, m')"
  shows "case res of
      Inr s \<Rightarrow> pv_up (view (ss_client s)) \<and> ensureValid s m' = None
    | Inl e \<Rightarrow> e = SessionUnhealthy \<longrightarrow> client_at m' i = None \<and>
        hb_failCount (backoff_of i m') = hb_failCount (backoff_of i m) + 1"
proof -
  let ?get = "mgr_Get db (\<lambda>c. pv_up (view c)) dial i now m"
  have other: "fst ?get \<noteq> Inl SessionUnhealthy"
    by (auto simp: mgr_Get_def mgr_connect_def Let_def split: prod.split sum.split option.split found.split)
  show ?thesis
  proof (cases "ctxDone \<or> (\<exists>e. fst ?get = Inl e)")
    case True
    then show ?thesis
      using run other by (auto simp: mgr_Session_def split: if_splits prod.splits sum.splits)
  next
    case False
    then obtain c cl m1 where get: "?get = (Inr c, cl, m1)" "\<not> ctxDone"
      by (cases ?get) (auto, metis sum.exhaust)
    have h: "backoff_of i m1 = backoff_of i m"
      using get_health [of db "\<lambda>c. pv_up (view c)" dial i now m] by (intro backoff_of_health) (simp add: get)
    obtain e d m2 where probe: "probeOnAcquire i (view c) now m1 = (e, d, m2)" by (metis prod_cases3)
    then show ?thesis
    proof (cases rule: probe_effect)
      case up
      then show ?thesis
        using run get probe
        by (auto simp: mgr_Session_def newSession_def ensureValid_def)
    next
      case down
      then show ?thesis
        using run get probe h by (auto simp: mgr_Session_def)
    qed
  qed
qed

section \<open>Concrete runs\<close>

definition example_up :: "event list" where
  "example_up = [Dial ''c'', Install ''c'' 0]"

lemma no_connection_leak_witness:
  "\<exists>w. world_run (example_up @ [Dial ''d'', Install ''d'' 1, Evict ''c'' 2]) (start 0) = Some w \<and>
     w_open w = [1, 0] \<and> w_closing w = [(''c'', 0)] \<and> distinct (w_open w)"
proof -
  define es where "es = example_up @ [Dial ''d'', Install ''d'' 1, Evict ''c'' 2]"
  have "map_option (\<lambda>w. (w_open w, w_closing w)) (world_run es (start 0)) = Some ([1, 0], [(''c'', 0)])"
    unfolding es_def by code_simp
  then obtain w where w: "world_run es (start 0) = Some w" "w_open w = [1, 0]" "w_closing w = [(''c'', 0)]"
    by auto
  with no_connection_leak [OF w(1)] show ?thesis unfolding es_def by blast
qed

definition used_world :: World where
  "used_world = the (world_run example_up (start 0))"

lemma used_world: "world_run example_up (start 0) = Some used_world"
proof -
  have "world_run example_up (start 0) \<noteq> None" by code_simp
  then show ?thesis by (auto simp: used_world_def)
qed

lemma sessions_invalidated_witness:
  "\<exists>w. world_run [Subscribe ''c'', TouchCluster ''c'' 5, Evict ''d'' 6] used_world = Some w \<and>
     ensureValid (newSession ''c'' 0 (w_mgr used_world)) (w_mgr w) = None \<and>
     client_at (w_mgr w) ''c'' = Some 0 \<and> 0 \<in> set (w_open w)"
proof -
  define es where "es = [Subscribe ''c'', TouchCluster ''c'' 5, Evict ''d'' 6]"
  have "map_option (\<lambda>w. ensureValid (newSession ''c'' 0 (w_mgr used_world)) (w_mgr w)) (world_run es used_world) = Some None"
    unfolding es_def used_world_def by code_simp
  then obtain w where w: "world_run es used_world = Some w"
      "ensureValid (newSession ''c'' 0 (w_mgr used_world)) (w_mgr w) = None"
    by auto
  have at: "client_at (w_mgr used_world) ''c'' = Some 0"
    unfolding used_world_def by code_simp
  have "length es < 2 ^ 64" by (simp add: es_def)
  from sessions_invalidated [OF used_world w(1) at w(2) this] w show ?thesis
    unfolding es_def by blast
qed

lemma status_channels_safe_witness:
  "\<exists>w. world_run [Subscribe ''c'', Disconnected ''c'' None 1] (start 0) = Some w \<and>
     listeners_of ''c'' (w_mgr w) = [0] \<and> length (ch_buf (m_chans (w_mgr w) ! 0)) \<le> statusSubscriberBuffer \<and>
     \<not> m_panic (w_mgr w)"
proof -
  have "map_option (\<lambda>w. listeners_of ''c'' (w_mgr w)) (world_run [Subscribe ''c'', Disconnected ''c'' None 1] (start 0)) =
      Some [0]"
    by code_simp
  then obtain w where w: "world_run [Subscribe ''c'', Disconnected ''c'' None 1] (start 0) = Some w"
      "listeners_of ''c'' (w_mgr w) = [0]"
    by auto
  have "\<forall>c \<in> set (listeners_of ''c'' (w_mgr w)). length (ch_buf (m_chans (w_mgr w) ! c)) \<le> statusSubscriberBuffer"
    and "\<not> m_panic (w_mgr w)"
    using status_channels_safe [OF w(1)] by blast+
  with w show ?thesis by simp
qed

definition example_row :: ClusterRow where
  "example_row = \<lparr>cr_ID = ''c'', cr_Name = ''n'', cr_NATSURL = ''nats://h'', cr_MonitoringURL = [],
     cr_CredsFilePath = [], cr_Token = [], cr_IsDefault = True, cr_CreatedAt = 0, cr_UpdatedAt = 0\<rparr>"

definition link_lost :: probe_view where
  "link_lost = \<lparr>pv_up = True, pv_upAfter = False, pv_js = Some ''timeout'', pv_timedOut = False, pv_server = ''srv''\<rparr>"

lemma session_checked_witness:
  "\<exists>closing m'. mgr_Session (\<lambda>_. Inr example_row) (\<lambda>_. link_lost) (\<lambda>_. Some 7) False ''c'' 0 (NewManager 0) =
       (Inl SessionUnhealthy, closing, m') \<and> closing = [7] \<and> client_at m' ''c'' = None \<and>
     hb_failCount (backoff_of ''c'' m') = 1"
proof -
  let ?r = "mgr_Session (\<lambda>_. Inr example_row) (\<lambda>_. link_lost) (\<lambda>_. Some 7) False ''c'' 0 (NewManager 0)"
  have "fst ?r = Inl SessionUnhealthy" "fst (snd ?r) = [7]" by code_simp+
  then obtain m' where r: "?r = (Inl SessionUnhealthy, [7], m')" by (metis prod.collapse)
  from session_checked [OF r] have "client_at m' ''c'' = None \<and>
      hb_failCount (backoff_of ''c'' m') = hb_failCount (backoff_of ''c'' (NewManager 0)) + 1"
    by simp
  with r show ?thesis by (simp add: NewManager_def backoff_of_def no_backoff_def)
qed

text \<open>
  The callback \<^verbatim>\<open>OnClosed\<close> evicts by cluster, whichever client was closed.  When a request replaces an
  expired client, the library reports the close of the old one, and that evicts and closes the new one,
  which the request already holds with a session on it.
\<close>

theorem closing_old_evicts_new:
  "map_option (\<lambda>w. (client_at (w_mgr w) ''c'', w_open w, w_closing w))
     (world_run [Dial ''c'', Install ''c'' 0, Dial ''c'', Install ''c'' 300000000001,
                 CloseClient ''c'' 0, OnClosed ''c'' 300000000002, CloseClient ''c'' 1] (start 0)) =
   Some (None, [], [])"
  by code_simp

text \<open>
  The same after an eviction: the client dialled next is closed by the callback of the one that was evicted.
\<close>

theorem evict_hits_successor:
  "map_option (\<lambda>w. (client_at (w_mgr w) ''c'', w_closing w))
     (world_run (example_up @ [Evict ''c'' 1, Dial ''c'', Install ''c'' 2, CloseClient ''c'' 0, OnClosed ''c'' 3])
       (start 0)) = Some (None, [(''c'', 1)])"
  by code_simp

text \<open>
  \<^verbatim>\<open>newSession\<close> reads the generation when the client has long been chosen: an eviction in between is not
  seen, and the session passes for valid although its client is closed.
\<close>

theorem raced_session_valid:
  "map_option (\<lambda>w. (ensureValid (newSession ''c'' 0 (w_mgr w)) (w_mgr w), 0 \<in> set (w_open w)))
     (world_run (example_up @ [Evict ''c'' 1, CloseClient ''c'' 0]) (start 0)) = Some (None, False)"
  by code_simp

end
