(* ===== verification/Floats.thy ===== *)
theory Floats
  imports Complex_Main
begin

text \<open>
  Go's \<^verbatim>\<open>float64\<close> as far as values are only compared: a finite value is the rational number it stands for
  (both zeros are zero), and every comparison with a NaN is false.
\<close>

datatype float64 = NaN | NegInf | Fin rat | PosInf

fun f64_less :: "float64 \<Rightarrow> float64 \<Rightarrow> bool" where
  "f64_less NaN _ \<longleftrightarrow> False"
| "f64_less _ NaN \<longleftrightarrow> False"
| "f64_less NegInf y \<longleftrightarrow> y \<noteq> NegInf"
| "f64_less _ NegInf \<longleftrightarrow> False"
| "f64_less (Fin a) (Fin b) \<longleftrightarrow> a < b"
| "f64_less (Fin a) PosInf \<longleftrightarrow> True"
| "f64_less PosInf _ \<longleftrightarrow> False"

fun f64_leq :: "float64 \<Rightarrow> float64 \<Rightarrow> bool" where
  "f64_leq NaN _ \<longleftrightarrow> False"
| "f64_leq _ NaN \<longleftrightarrow> False"
| "f64_leq (Fin a) (Fin b) \<longleftrightarrow> a \<le> b"
| "f64_leq NegInf _ \<longleftrightarrow> True"
| "f64_leq _ PosInf \<longleftrightarrow> True"
| "f64_leq _ _ \<longleftrightarrow> False"

lemma f64_leq_iff: "f64_leq x y \<longleftrightarrow> f64_less x y \<or> x = y \<and> x \<noteq> NaN"
  by (cases x; cases y) auto

lemma f64_total: "x \<noteq> NaN \<Longrightarrow> y \<noteq> NaN \<Longrightarrow> f64_leq y x \<longleftrightarrow> \<not> f64_less x y"
  by (cases x; cases y) auto

end
