(* ===== verification/Alerts.thy ===== *)
theory Alerts
  imports Floats Nats_Accounts Rbac_Middleware
begin

text \<open>
  Alerts: the rules and alerts (\<^verbatim>\<open>domain/alerts.go\<close>), their tables (\<^verbatim>\<open>repo/alerts.go\<close>,
  \<^verbatim>\<open>migrations/014\<close> and \<^verbatim>\<open>015\<close>) behind the service of \<^verbatim>\<open>app/alerts.go\<close>, which only forwards, the
  evaluation of rules and the notification by mail (\<^verbatim>\<open>internal/alerter\<close>), and the handlers of
  \<^verbatim>\<open>api/alerts_handlers.go\<close>.

  \<open>uuid\<close> is how PostgreSQL reads a text as a UUID; identifiers in tables are canonical.  Every
  operation on the tables is one statement, so a sequence of operations by any number of replicas is a
  list of them.  Rules are listed in the order of the table: their order by name is a matter of the
  database's collation, and no property depends on it.
\<close>

section \<open>Rules and alerts\<close>

definition AlertSeverityInfo :: string where "AlertSeverityInfo = ''info''"
definition AlertSeverityWarning :: string where "AlertSeverityWarning = ''warning''"
definition AlertSeverityCritical :: string where "AlertSeverityCritical = ''critical''"
definition AlertStatusOpen :: string where "AlertStatusOpen = ''open''"
definition AlertStatusClosed :: string where "AlertStatusClosed = ''closed''"
definition AlertComparatorGT :: string where "AlertComparatorGT = ''gt''"
definition AlertComparatorGTE :: string where "AlertComparatorGTE = ''gte''"
definition AlertComparatorLT :: string where "AlertComparatorLT = ''lt''"
definition AlertComparatorLTE :: string where "AlertComparatorLTE = ''lte''"

lemmas alert_consts = AlertSeverityInfo_def AlertSeverityWarning_def AlertSeverityCritical_def
  AlertStatusOpen_def AlertStatusClosed_def AlertComparatorGT_def AlertComparatorGTE_def
  AlertComparatorLT_def AlertComparatorLTE_def

definition AlertSeverities :: "string list" where
  "AlertSeverities = [AlertSeverityInfo, AlertSeverityWarning, AlertSeverityCritical]"

definition AlertComparators :: "string list" where
  "AlertComparators = [AlertComparatorGT, AlertComparatorGTE, AlertComparatorLT, AlertComparatorLTE]"

record AlertRule =
  ar_CreatedAt :: gotime
  ar_UpdatedAt :: gotime
  ar_Metric :: string
  ar_Name :: string
  ar_Message :: string
  ar_Severity :: string
  ar_ID :: string
  ar_Comparator :: string
  ar_CreatedBy :: string
  ar_AccountName :: string
  ar_ClusterID :: string
  ar_Threshold :: float64
  ar_Enabled :: bool

record AlertRuleCreate =
  rc_Enabled :: "bool option"
  rc_ClusterID :: string
  rc_AccountName :: string
  rc_Name :: string
  rc_Message :: string
  rc_Severity :: string
  rc_Metric :: string
  rc_Comparator :: string
  rc_Threshold :: float64

record AlertRuleUpdate =
  ru_ClusterID :: "string option"
  ru_AccountName :: "string option"
  ru_Name :: "string option"
  ru_Message :: "string option"
  ru_Severity :: "string option"
  ru_Metric :: "string option"
  ru_Comparator :: "string option"
  ru_Threshold :: "float64 option"
  ru_Enabled :: "bool option"
  ru_ClearCluster :: bool

text \<open>A row of \<^verbatim>\<open>alerts\<close>; the name of the rule is joined when it is read.\<close>

record Alert =
  al_FirstSeenAt :: gotime
  al_LastSeenAt :: gotime
  al_AcknowledgedAt :: "gotime option"
  al_ClosedAt :: "gotime option"
  al_Status :: string
  al_Severity :: string
  al_Metric :: string
  al_Message :: string
  al_ID :: string
  al_AccountName :: string
  al_ClusterID :: string
  al_RuleID :: string
  al_AcknowledgedBy :: string
  al_FiringValue :: float64
  al_Threshold :: float64
  al_EmailNotifiedAt :: "gotime option"

record AlertFilter =
  af_Status :: string
  af_ClusterID :: string
  af_Severity :: string
  af_ClusterIDs :: "string list"
  af_Limit :: int
  af_Offset :: int

definition ValidAlertSeverity :: "string \<Rightarrow> bool" where
  "ValidAlertSeverity v \<longleftrightarrow> v \<in> set AlertSeverities"

definition ValidAlertComparator :: "string \<Rightarrow> bool" where
  "ValidAlertComparator v \<longleftrightarrow> v \<in> set AlertComparators"

definition ThresholdMet :: "string \<Rightarrow> float64 \<Rightarrow> float64 \<Rightarrow> bool" where
  "ThresholdMet comparator v threshold =
     (if comparator = AlertComparatorGT then f64_less threshold v
      else if comparator = AlertComparatorGTE then f64_leq threshold v
      else if comparator = AlertComparatorLT then f64_less v threshold
      else if comparator = AlertComparatorLTE then f64_leq v threshold
      else False)"

section \<open>The tables\<close>

record AlertDB =
  ab_rules :: "AlertRule list"
  ab_alerts :: "Alert list"
  ab_clusters :: "string list"

datatype alert_error = AlertRuleNotFound | AlertNotFound | InvalidUUID | ConstraintViolation | NegativeOffset

type_synonym read_uuid = "string \<Rightarrow> string option"

definition ListAlertRules :: "read_uuid \<Rightarrow> string \<Rightarrow> bool \<Rightarrow> AlertDB \<Rightarrow> alert_error + AlertRule list" where
  "ListAlertRules uuid clusterID enabledOnly db =
     (let ok = (\<lambda>r. enabledOnly \<longrightarrow> ar_Enabled r) in
      if IsEmpty clusterID then Inr (filter ok (ab_rules db))
      else case uuid clusterID of
          None \<Rightarrow> Inl InvalidUUID
        | Some c \<Rightarrow> Inr (filter (\<lambda>r. (ar_ClusterID r = [] \<or> ar_ClusterID r = c) \<and> ok r) (ab_rules db)))"

definition GetAlertRule :: "read_uuid \<Rightarrow> string \<Rightarrow> AlertDB \<Rightarrow> alert_error + AlertRule" where
  "GetAlertRule uuid i db =
     (case uuid i of
        None \<Rightarrow> Inl InvalidUUID
      | Some j \<Rightarrow>
          (case find (\<lambda>r. ar_ID r = j) (ab_rules db) of None \<Rightarrow> Inl AlertRuleNotFound | Some r \<Rightarrow> Inr r))"

text \<open>What the constraints of \<^verbatim>\<open>alert_rules\<close> ask of a row; an empty cluster is NULL.\<close>

definition rule_allowed :: "AlertDB \<Rightarrow> AlertRule \<Rightarrow> bool" where
  "rule_allowed db r \<longleftrightarrow> ValidAlertSeverity (ar_Severity r) \<and> ValidAlertComparator (ar_Comparator r) \<and>
     (ar_ClusterID r = [] \<or> ar_ClusterID r \<in> set (ab_clusters db))"

definition read_cluster :: "read_uuid \<Rightarrow> string \<Rightarrow> string option" where
  "read_cluster uuid c = (if IsEmpty c then Some [] else uuid c)"

definition CreateAlertRule ::
  "read_uuid \<Rightarrow> string \<Rightarrow> gotime \<Rightarrow> AlertRuleCreate \<Rightarrow> string \<Rightarrow> AlertDB \<Rightarrow> (alert_error + AlertRule) \<times> AlertDB"
where
  "CreateAlertRule uuid newID now inp createdBy db =
     (let enabled = (case rc_Enabled inp of None \<Rightarrow> True | Some b \<Rightarrow> b);
          msg = (if IsEmpty (rc_Message inp) then rc_Name inp else rc_Message inp)
      in case read_cluster uuid (rc_ClusterID inp) of
           None \<Rightarrow> (Inl InvalidUUID, db)
         | Some c \<Rightarrow>
             (let r = \<lparr>ar_CreatedAt = now, ar_UpdatedAt = now, ar_Metric = rc_Metric inp, ar_Name = rc_Name inp,
                       ar_Message = msg, ar_Severity = rc_Severity inp, ar_ID = newID,
                       ar_Comparator = rc_Comparator inp, ar_CreatedBy = createdBy,
                       ar_AccountName = rc_AccountName inp, ar_ClusterID = c, ar_Threshold = rc_Threshold inp,
                       ar_Enabled = enabled\<rparr>
              in if \<not> rule_allowed db r \<or> newID \<in> ar_ID ` set (ab_rules db) then (Inl ConstraintViolation, db)
                 else (Inr r, db\<lparr>ab_rules := ab_rules db @ [r]\<rparr>)))"

definition updated :: "'a option \<Rightarrow> 'a \<Rightarrow> 'a" where
  "updated new cur = (case new of None \<Rightarrow> cur | Some x \<Rightarrow> x)"

definition updated_rule :: "AlertRuleUpdate \<Rightarrow> AlertRule \<Rightarrow> AlertRule" where
  "updated_rule u r = r\<lparr>ar_Name := updated (ru_Name u) (ar_Name r), ar_Message := updated (ru_Message u) (ar_Message r),
     ar_Severity := updated (ru_Severity u) (ar_Severity r), ar_Metric := updated (ru_Metric u) (ar_Metric r),
     ar_Comparator := updated (ru_Comparator u) (ar_Comparator r),
     ar_Threshold := updated (ru_Threshold u) (ar_Threshold r), ar_Enabled := updated (ru_Enabled u) (ar_Enabled r),
     ar_ClusterID := (if ru_ClearCluster u then [] else updated (ru_ClusterID u) (ar_ClusterID r)),
     ar_AccountName := updated (ru_AccountName u) (ar_AccountName r)\<rparr>"

definition UpdateAlertRule ::
  "read_uuid \<Rightarrow> gotime \<Rightarrow> string \<Rightarrow> AlertRuleUpdate \<Rightarrow> AlertDB \<Rightarrow> (alert_error + AlertRule) \<times> AlertDB" where
  "UpdateAlertRule uuid now i u db =
     (case GetAlertRule uuid i db of
        Inl e \<Rightarrow> (Inl e, db)
      | Inr cur \<Rightarrow>
          (case read_cluster uuid (ar_ClusterID (updated_rule u cur)) of
             None \<Rightarrow> (Inl InvalidUUID, db)
           | Some c \<Rightarrow>
               (let r = (updated_rule u cur)\<lparr>ar_ClusterID := c, ar_UpdatedAt := now\<rparr>
                in if \<not> rule_allowed db r then (Inl ConstraintViolation, db)
                   else (let db' = db\<lparr>ab_rules := map (\<lambda>x. if ar_ID x = ar_ID cur then r else x) (ab_rules db)\<rparr>
                         in (GetAlertRule uuid i db', db')))))"

definition DeleteAlertRule :: "read_uuid \<Rightarrow> string \<Rightarrow> AlertDB \<Rightarrow> alert_error option \<times> AlertDB" where
  "DeleteAlertRule uuid i db =
     (case uuid i of
        None \<Rightarrow> (Some InvalidUUID, db)
      | Some j \<Rightarrow>
          if j \<notin> ar_ID ` set (ab_rules db) then (Some AlertRuleNotFound, db)
          else (None, db\<lparr>ab_rules := filter (\<lambda>r. ar_ID r \<noteq> j) (ab_rules db),
                         ab_alerts := filter (\<lambda>a. al_RuleID a \<noteq> j) (ab_alerts db)\<rparr>))"

text \<open>The identifiers of a list, if all can be read.\<close>

fun read_all :: "read_uuid \<Rightarrow> string list \<Rightarrow> string list option" where
  "read_all uuid [] = Some []"
| "read_all uuid (s # ss) =
     (case (uuid s, read_all uuid ss) of (Some c, Some cs) \<Rightarrow> Some (c # cs) | _ \<Rightarrow> None)"

definition alert_where :: "read_uuid \<Rightarrow> AlertFilter \<Rightarrow> (Alert \<Rightarrow> bool) option" where
  "alert_where uuid f =
     (let other = (\<lambda>a. (IsEmpty (af_Status f) \<or> al_Status a = af_Status f) \<and>
                       (IsEmpty (af_Severity f) \<or> al_Severity a = af_Severity f))
      in if \<not> IsEmpty (af_ClusterID f) then
           map_option (\<lambda>c a. other a \<and> al_ClusterID a = c) (uuid (af_ClusterID f))
         else if af_ClusterIDs f \<noteq> [] then
           map_option (\<lambda>cs a. other a \<and> al_ClusterID a \<in> set cs) (read_all uuid (af_ClusterIDs f))
         else Some other)"

definition recent_first :: "Alert list \<Rightarrow> Alert list" where
  "recent_first = sort_key (\<lambda>a. - al_LastSeenAt a)"

definition ListAlerts :: "read_uuid \<Rightarrow> AlertFilter \<Rightarrow> AlertDB \<Rightarrow> alert_error + Alert list \<times> nat" where
  "ListAlerts uuid f db =
     (let limit = (if af_Limit f \<le> 0 then 50 else if af_Limit f > 500 then 500 else af_Limit f)
      in case alert_where uuid f of
           None \<Rightarrow> Inl InvalidUUID
         | Some P \<Rightarrow>
             (let hits = filter P (ab_alerts db)
              in if af_Offset f < 0 then Inl NegativeOffset
                 else Inr (take (nat limit) (drop (nat (af_Offset f)) (recent_first hits)), length hits)))"

definition GetAlert :: "read_uuid \<Rightarrow> string \<Rightarrow> AlertDB \<Rightarrow> alert_error + Alert" where
  "GetAlert uuid i db =
     (case uuid i of
        None \<Rightarrow> Inl InvalidUUID
      | Some j \<Rightarrow>
          (case find (\<lambda>a. al_ID a = j) (ab_alerts db) of None \<Rightarrow> Inl AlertNotFound | Some a \<Rightarrow> Inr a))"

definition ListOpenUnacknowledged ::
  "read_uuid \<Rightarrow> string list \<Rightarrow> int \<Rightarrow> AlertDB \<Rightarrow> alert_error + Alert list \<times> nat" where
  "ListOpenUnacknowledged uuid clusterIDs lmt db =
     (let limit = (if lmt \<le> 0 then 10 else lmt);
          unseen = (\<lambda>a. al_Status a = AlertStatusOpen \<and> al_AcknowledgedAt a = None)
      in case (if clusterIDs = [] then Some (\<lambda>a. True)
               else map_option (\<lambda>cs a. al_ClusterID a \<in> set cs) (read_all uuid clusterIDs)) of
           None \<Rightarrow> Inl InvalidUUID
         | Some P \<Rightarrow>
             (let hits = filter (\<lambda>a. unseen a \<and> P a) (ab_alerts db)
              in Inr (take (nat limit) (recent_first hits), length hits)))"

definition AcknowledgeAlert ::
  "read_uuid \<Rightarrow> gotime \<Rightarrow> string \<Rightarrow> string \<Rightarrow> AlertDB \<Rightarrow> (alert_error + Alert) \<times> AlertDB" where
  "AcknowledgeAlert uuid now i actor db =
     (case uuid i of
        None \<Rightarrow> (Inl InvalidUUID, db)
      | Some j \<Rightarrow>
          (let db' = db\<lparr>ab_alerts := map (\<lambda>a.
                 if al_ID a = j \<and> al_Status a = AlertStatusOpen \<and> al_AcknowledgedAt a = None
                 then a\<lparr>al_AcknowledgedAt := Some now, al_AcknowledgedBy := actor\<rparr> else a) (ab_alerts db)\<rparr>
           in (GetAlert uuid i db', db')))"

text \<open>The partial unique index: one open alert for a rule and a cluster.\<close>

definition open_for :: "string \<Rightarrow> string \<Rightarrow> Alert \<Rightarrow> bool" where
  "open_for ruleID clusterID a \<longleftrightarrow>
     al_RuleID a = ruleID \<and> al_ClusterID a = clusterID \<and> al_Status a = AlertStatusOpen"

definition rule_message :: "AlertRule \<Rightarrow> string" where
  "rule_message r = (if IsEmpty (ar_Message r) then ar_Name r else ar_Message r)"

definition new_alert :: "string \<Rightarrow> AlertRule \<Rightarrow> string \<Rightarrow> float64 \<Rightarrow> gotime \<Rightarrow> Alert" where
  "new_alert newID rule clusterID v t =
     \<lparr>al_FirstSeenAt = t, al_LastSeenAt = t, al_AcknowledgedAt = None, al_ClosedAt = None,
      al_Status = AlertStatusOpen, al_Severity = ar_Severity rule, al_Metric = ar_Metric rule,
      al_Message = rule_message rule, al_ID = newID, al_AccountName = ar_AccountName rule,
      al_ClusterID = clusterID, al_RuleID = ar_ID rule, al_AcknowledgedBy = [], al_FiringValue = v,
      al_Threshold = ar_Threshold rule, al_EmailNotifiedAt = None\<rparr>"

definition refreshed :: "AlertRule \<Rightarrow> float64 \<Rightarrow> gotime \<Rightarrow> Alert \<Rightarrow> Alert" where
  "refreshed rule v t a = a\<lparr>al_FiringValue := v, al_Threshold := ar_Threshold rule,
     al_Severity := ar_Severity rule, al_Message := rule_message rule, al_Metric := ar_Metric rule,
     al_LastSeenAt := t\<rparr>"

text \<open>The identifier of the alert and whether it is new.\<close>

definition UpsertOpenAlert ::
  "string \<Rightarrow> AlertRule \<Rightarrow> string \<Rightarrow> float64 \<Rightarrow> gotime \<Rightarrow> AlertDB \<Rightarrow> (alert_error + string \<times> bool) \<times> AlertDB" where
  "UpsertOpenAlert newID rule clusterID v t db =
     (if ar_ID rule \<notin> ar_ID ` set (ab_rules db) \<or> clusterID \<notin> set (ab_clusters db) \<or>
         \<not> ValidAlertSeverity (ar_Severity rule) then (Inl ConstraintViolation, db)
      else (case find (open_for (ar_ID rule) clusterID) (ab_alerts db) of
          Some a \<Rightarrow>
            (Inr (al_ID a, False),
             db\<lparr>ab_alerts := map (\<lambda>x. if open_for (ar_ID rule) clusterID x then refreshed rule v t x else x)
                                (ab_alerts db)\<rparr>)
        | None \<Rightarrow>
            if newID \<in> al_ID ` set (ab_alerts db) then (Inl ConstraintViolation, db)
            else (Inr (newID, True), db\<lparr>ab_alerts := ab_alerts db @ [new_alert newID rule clusterID v t]\<rparr>)))"

definition ClaimAlertEmailNotify :: "gotime \<Rightarrow> string \<Rightarrow> AlertDB \<Rightarrow> bool \<times> AlertDB" where
  "ClaimAlertEmailNotify now i db =
     (let hit = (\<lambda>a. al_ID a = i \<and> al_Status a = AlertStatusOpen \<and> al_EmailNotifiedAt a = None)
      in (list_ex hit (ab_alerts db),
          db\<lparr>ab_alerts := map (\<lambda>a. if hit a then a\<lparr>al_EmailNotifiedAt := Some now\<rparr> else a) (ab_alerts db)\<rparr>))"

definition ReleaseAlertEmailNotify :: "string \<Rightarrow> AlertDB \<Rightarrow> AlertDB" where
  "ReleaseAlertEmailNotify i db =
     db\<lparr>ab_alerts := map (\<lambda>a. if al_ID a = i \<and> al_Status a = AlertStatusOpen
                               then a\<lparr>al_EmailNotifiedAt := None\<rparr> else a) (ab_alerts db)\<rparr>"

definition CloseOpenAlert :: "string \<Rightarrow> string \<Rightarrow> gotime \<Rightarrow> AlertDB \<Rightarrow> AlertDB" where
  "CloseOpenAlert ruleID clusterID t db =
     db\<lparr>ab_alerts := map (\<lambda>a. if open_for ruleID clusterID a
        then a\<lparr>al_Status := AlertStatusClosed, al_ClosedAt := Some t, al_LastSeenAt := t\<rparr> else a) (ab_alerts db)\<rparr>"

definition ListOpenAlertRuleIDs :: "string \<Rightarrow> AlertDB \<Rightarrow> string list" where
  "ListOpenAlertRuleIDs clusterID db =
     map al_RuleID (filter (\<lambda>a. al_ClusterID a = clusterID \<and> al_Status a = AlertStatusOpen) (ab_alerts db))"

definition DeleteClosedAlertsOlderThan :: "gotime \<Rightarrow> AlertDB \<Rightarrow> nat \<times> AlertDB" where
  "DeleteClosedAlertsOlderThan cutoff db =
     (let old = (\<lambda>a. al_Status a = AlertStatusClosed \<and> al_LastSeenAt a < cutoff)
      in (length (filter old (ab_alerts db)), db\<lparr>ab_alerts := filter (\<lambda>a. \<not> old a) (ab_alerts db)\<rparr>))"

section \<open>Evaluation and notification\<close>

definition IsPlaceholderEmail :: "string \<Rightarrow> bool" where
  "IsPlaceholderEmail email =
     (let email = TrimSpace (ToLower email)
      in if IsEmpty email then True else HasSuffix email ''@local'')"

definition recipientCacheTTL :: duration where
  "recipientCacheTTL = 45 * Second"

record recipientCacheEntry =
  re_expiresAt :: gotime
  re_emails :: "string list"

fun collect_emails :: "string \<Rightarrow> string list \<Rightarrow> string list \<Rightarrow> User list \<Rightarrow> string list" where
  "collect_emails clusterID seen out [] = out"
| "collect_emails clusterID seen out (user # users) =
     (let email = TrimSpace (u_Email user) in
      if IsPlaceholderEmail email then collect_emails clusterID seen out users
      else if \<not> CanAccessCluster user clusterID then collect_emails clusterID seen out users
      else (let key = ToLower email
            in if key \<in> set seen then collect_emails clusterID seen out users
               else collect_emails clusterID (key # seen) (out @ [email]) users))"

definition recipientEmails ::
  "gotime \<Rightarrow> alert_error + User list \<Rightarrow> string \<Rightarrow> (string, recipientCacheEntry) gomap \<Rightarrow>
     (alert_error + string list) \<times> (string, recipientCacheEntry) gomap" where
  "recipientEmails now users clusterID cache =
     (case map_of cache clusterID of
        Some e \<Rightarrow> if now < re_expiresAt e then (Inr (re_emails e), cache) else
          (case users of
             Inl err \<Rightarrow> (Inl err, cache)
           | Inr us \<Rightarrow>
               (let out = collect_emails clusterID [] [] us
                in (Inr out, filter (\<lambda>kv. \<not> now > re_expiresAt (snd kv))
                      (AList.update clusterID \<lparr>re_expiresAt = now + recipientCacheTTL, re_emails = out\<rparr> cache))))
      | None \<Rightarrow>
          (case users of
             Inl err \<Rightarrow> (Inl err, cache)
           | Inr us \<Rightarrow>
               (let out = collect_emails clusterID [] [] us
                in (Inr out, filter (\<lambda>kv. \<not> now > re_expiresAt (snd kv))
                      (AList.update clusterID \<lparr>re_expiresAt = now + recipientCacheTTL, re_emails = out\<rparr> cache)))))"

text \<open>
  What an evaluation finds outside the tables: the clock, whether there is a mailer, the users, the outcome
  of sending to some recipients for an alert, and the identifiers drawn for new alerts.
\<close>

record AlertEnv =
  ae_now :: gotime
  ae_mailer :: bool
  ae_users :: "alert_error + User list"
  ae_send :: "string \<Rightarrow> string list \<Rightarrow> bool"
  ae_newID :: "string \<Rightarrow> string"

record AlertRun =
  ax_db :: AlertDB
  ax_cache :: "(string, recipientCacheEntry) gomap"
  ax_mails :: "(string \<times> string list) list"

text \<open>
  \<^verbatim>\<open>notifyNewAlert\<close>: claim, recipients, then one job on a fresh channel (which is never full) for a
  goroutine that sends it; a failed send releases the claim.
\<close>

definition sendAlertEmail :: "AlertEnv \<Rightarrow> string \<Rightarrow> string list \<Rightarrow> AlertRun \<Rightarrow> AlertRun" where
  "sendAlertEmail env alertID recipients s =
     (if ae_send env alertID recipients then s\<lparr>ax_mails := ax_mails s @ [(alertID, recipients)]\<rparr>
      else s\<lparr>ax_db := ReleaseAlertEmailNotify alertID (ax_db s)\<rparr>)"

definition notifyNewAlert :: "AlertEnv \<Rightarrow> string \<Rightarrow> string \<Rightarrow> AlertRun \<Rightarrow> AlertRun" where
  "notifyNewAlert env clusterID alertID s =
     (if \<not> ae_mailer env then s
      else
        (case ClaimAlertEmailNotify (ae_now env) alertID (ax_db s) of
           (claimed, db') \<Rightarrow>
             (if \<not> claimed then s\<lparr>ax_db := db'\<rparr>
              else (case recipientEmails (ae_now env) (ae_users env) clusterID (ax_cache s) of
                  (Inl _, cache') \<Rightarrow> s\<lparr>ax_db := ReleaseAlertEmailNotify alertID db', ax_cache := cache'\<rparr>
                | (Inr recipients, cache') \<Rightarrow>
                    (if recipients = [] then s\<lparr>ax_db := ReleaseAlertEmailNotify alertID db', ax_cache := cache'\<rparr>
                     else sendAlertEmail env alertID recipients (s\<lparr>ax_db := db', ax_cache := cache'\<rparr>))))))"

text \<open>\<^verbatim>\<open>byMetric\<close>: the last sample of a metric.\<close>

definition byMetric :: "(string \<times> float64) list \<Rightarrow> string \<Rightarrow> float64 option" where
  "byMetric samples m = map_of (rev samples) m"

definition evaluate_rule ::
  "AlertEnv \<Rightarrow> string \<Rightarrow> (string \<times> float64) list \<Rightarrow> string list \<Rightarrow> AlertRule \<Rightarrow> AlertRun \<Rightarrow> AlertRun" where
  "evaluate_rule env clusterID samples openRules rule s =
     (case byMetric samples (ar_Metric rule) of
        None \<Rightarrow> s
      | Some v \<Rightarrow>
          if ThresholdMet (ar_Comparator rule) v (ar_Threshold rule) then
            (case UpsertOpenAlert (ae_newID env (ar_ID rule)) rule clusterID v (ae_now env) (ax_db s) of
               (Inl _, db') \<Rightarrow> s\<lparr>ax_db := db'\<rparr>
             | (Inr (alertID, newlyOpened), db') \<Rightarrow>
                 if newlyOpened then notifyNewAlert env clusterID alertID (s\<lparr>ax_db := db'\<rparr>)
                 else s\<lparr>ax_db := db'\<rparr>)
          else if ar_ID rule \<notin> set openRules then s
          else s\<lparr>ax_db := CloseOpenAlert (ar_ID rule) clusterID (ae_now env) (ax_db s)\<rparr>)"

definition Evaluate ::
  "read_uuid \<Rightarrow> AlertEnv \<Rightarrow> string \<Rightarrow> (string \<times> float64) list \<Rightarrow> AlertDB \<Rightarrow> AlertRun" where
  "Evaluate uuid env clusterID samples db =
     (let s = \<lparr>ax_db = db, ax_cache = [], ax_mails = []\<rparr> in
      if IsEmpty clusterID \<or> samples = [] then s
      else (case ListAlertRules uuid clusterID True db of
          Inl _ \<Rightarrow> s
        | Inr rules \<Rightarrow>
            fold (evaluate_rule env clusterID samples (ListOpenAlertRuleIDs clusterID db)) rules s))"

section \<open>Handlers\<close>

datatype alert_answer =
    AUnauthorized
  | AForbidden
  | ABadRequest
  | ANotFound
  | AInternal
  | AData "Alert list" nat
  | ARules "AlertRule list" nat
  | ADone

definition alert_api_error :: "alert_error \<Rightarrow> alert_answer" where
  "alert_api_error e = (case e of AlertRuleNotFound \<Rightarrow> ANotFound | AlertNotFound \<Rightarrow> ANotFound | _ \<Rightarrow> AInternal)"

text \<open>The clusters of a scoped actor; \<open>None\<close> is Go's \<^verbatim>\<open>nil\<close>, which stands for all clusters, and which an
  empty list that was appended to \<^verbatim>\<open>nil\<close> is as well.\<close>

fun add_grant_ids :: "AccessGrant list \<Rightarrow> string list \<Rightarrow> string list" where
  "add_grant_ids [] ids = ids"
| "add_grant_ids (g # gs) ids =
     (let i = fst (Cut CHR '':'' (g_ResourceKey g))
      in if IsEmpty i then add_grant_ids gs ids
         else if i \<in> set ids then add_grant_ids gs ids
         else add_grant_ids gs (ids @ [i]))"

definition accessibleClusterIDs :: "User \<Rightarrow> string list option" where
  "accessibleClusterIDs actor =
     (let perms = PermissionsFor actor in
      if p_IsRoot perms \<or> p_AllClusters perms then None
      else (let ids = add_grant_ids (u_Grants actor) (p_ClusterIDs perms)
            in if ids = [] then None else Some ids))"

definition canManageGlobalAlertRules :: "User \<Rightarrow> bool" where
  "canManageGlobalAlertRules actor \<longleftrightarrow> accessibleClusterIDs actor = None"

definition canAccessAlertRuleCluster :: "User \<Rightarrow> string \<Rightarrow> bool" where
  "canAccessAlertRuleCluster actor clusterID =
     (if IsEmpty clusterID then canManageGlobalAlertRules actor else CanAccessCluster actor clusterID)"

definition filterAlertRulesForActor :: "AlertRule list \<Rightarrow> User \<Rightarrow> AlertRule list" where
  "filterAlertRulesForActor rules actor =
     (if canManageGlobalAlertRules actor then rules
      else filter (\<lambda>r. canAccessAlertRuleCluster actor (ar_ClusterID r)) rules)"

definition requireManageAlertRules :: "User option \<Rightarrow> alert_answer + User" where
  "requireManageAlertRules actor =
     (case actor of
        None \<Rightarrow> Inl AUnauthorized
      | Some u \<Rightarrow> if \<not> CanManageAlertRules u then Inl AForbidden else Inr u)"

definition alerts_List :: "read_uuid \<Rightarrow> User option \<Rightarrow> AlertFilter \<Rightarrow> AlertDB \<Rightarrow> alert_answer" where
  "alerts_List uuid actor f db =
     (case actor of
        None \<Rightarrow> AUnauthorized
      | Some u \<Rightarrow>
          if \<not> IsEmpty (af_Status f) \<and> af_Status f \<noteq> AlertStatusOpen \<and> af_Status f \<noteq> AlertStatusClosed then ABadRequest
          else if \<not> IsEmpty (af_Severity f) \<and> \<not> ValidAlertSeverity (af_Severity f) then ABadRequest
          else
            (let finish = (\<lambda>f. case ListAlerts uuid f db of
                             Inl e \<Rightarrow> alert_api_error e | Inr (page, cnt) \<Rightarrow> AData page cnt)
             in if \<not> IsEmpty (af_ClusterID f) then
                  (if \<not> uuidPattern (af_ClusterID f) then ABadRequest
                   else if \<not> CanAccessClusterOrAccount u (af_ClusterID f) then AForbidden
                   else finish (f\<lparr>af_ClusterIDs := []\<rparr>))
                else (case accessibleClusterIDs u of
                    None \<Rightarrow> finish (f\<lparr>af_ClusterIDs := []\<rparr>)
                  | Some ids \<Rightarrow> if ids = [] then AData [] 0 else finish (f\<lparr>af_ClusterIDs := ids\<rparr>))))"

definition alerts_OpenSummary :: "read_uuid \<Rightarrow> User option \<Rightarrow> AlertDB \<Rightarrow> alert_answer" where
  "alerts_OpenSummary uuid actor db =
     (case actor of
        None \<Rightarrow> AUnauthorized
      | Some u \<Rightarrow>
          (let finish = (\<lambda>ids. case ListOpenUnacknowledged uuid ids 8 db of
                           Inl e \<Rightarrow> alert_api_error e | Inr (page, cnt) \<Rightarrow> AData page cnt)
           in case accessibleClusterIDs u of
                None \<Rightarrow> finish []
              | Some ids \<Rightarrow> if ids = [] then AData [] 0 else finish ids))"

definition alerts_Get :: "read_uuid \<Rightarrow> User option \<Rightarrow> string \<Rightarrow> AlertDB \<Rightarrow> alert_answer" where
  "alerts_Get uuid actor i db =
     (case actor of
        None \<Rightarrow> AUnauthorized
      | Some u \<Rightarrow>
          if \<not> uuidPattern i then ABadRequest
          else (case GetAlert uuid i db of
              Inl e \<Rightarrow> alert_api_error e
            | Inr a \<Rightarrow> if \<not> CanAccessClusterOrAccount u (al_ClusterID a) then AForbidden else AData [a] 1))"

definition alerts_Acknowledge ::
  "read_uuid \<Rightarrow> gotime \<Rightarrow> User option \<Rightarrow> string \<Rightarrow> AlertDB \<Rightarrow> alert_answer \<times> AlertDB" where
  "alerts_Acknowledge uuid now actor i db =
     (case actor of
        None \<Rightarrow> (AUnauthorized, db)
      | Some u \<Rightarrow>
          if \<not> uuidPattern i then (ABadRequest, db)
          else (case GetAlert uuid i db of
              Inl e \<Rightarrow> (alert_api_error e, db)
            | Inr existing \<Rightarrow>
                if \<not> CanAccessClusterOrAccount u (al_ClusterID existing) then (AForbidden, db)
                else (case AcknowledgeAlert uuid now i (u_Username u) db of
                    (Inl e, db') \<Rightarrow> (alert_api_error e, db')
                  | (Inr a, db') \<Rightarrow> (AData [a] 1, db'))))"

definition alerts_ListRules :: "read_uuid \<Rightarrow> User option \<Rightarrow> string \<Rightarrow> AlertDB \<Rightarrow> alert_answer" where
  "alerts_ListRules uuid actor clusterID db =
     (case requireManageAlertRules actor of
        Inl a \<Rightarrow> a
      | Inr u \<Rightarrow>
          if \<not> IsEmpty clusterID \<and> \<not> uuidPattern clusterID then ABadRequest
          else if \<not> IsEmpty clusterID \<and> \<not> CanAccessCluster u clusterID then AForbidden
          else (case ListAlertRules uuid clusterID False db of
              Inl e \<Rightarrow> alert_api_error e
            | Inr rules \<Rightarrow>
                (let rules = filterAlertRulesForActor rules u in ARules rules (length rules))))"

definition alerts_GetRule :: "read_uuid \<Rightarrow> User option \<Rightarrow> string \<Rightarrow> AlertDB \<Rightarrow> alert_answer" where
  "alerts_GetRule uuid actor i db =
     (case requireManageAlertRules actor of
        Inl a \<Rightarrow> a
      | Inr u \<Rightarrow>
          if \<not> uuidPattern i then ABadRequest
          else (case GetAlertRule uuid i db of
              Inl e \<Rightarrow> alert_api_error e
            | Inr r \<Rightarrow> if \<not> canAccessAlertRuleCluster u (ar_ClusterID r) then AForbidden else ARules [r] 1))"

definition DefaultDashboardMetrics :: "string list" where
  "DefaultDashboardMetrics =
     [''jetstream.storage_bytes'', ''jetstream.memory_bytes'', ''jetstream.streams'',
      ''jetstream.consumers'', ''jetstream.slow_consumers'', ''jetstream.consumer_max_lag'',
      ''jetstream.consumer_max_pending'', ''jetstream.consumer_max_ack_pending'', ''jsz.messages'',
      ''jsz.streams'', ''jsz.consumers'', ''server.connections'',
      ''server.in_msgs_total'', ''server.out_msgs_total'', ''server.in_bytes_total'',
      ''server.out_bytes_total'', ''server.cpu_percent'', ''server.mem_bytes'']"

definition ValidMetricName :: "string \<Rightarrow> bool" where
  "ValidMetricName name \<longleftrightarrow> name \<in> set DefaultDashboardMetrics"

definition validateAlertRuleCreate :: "AlertRuleCreate \<Rightarrow> bool" where
  "validateAlertRuleCreate req \<longleftrightarrow>
     \<not> IsEmpty (TrimSpace (rc_Name req)) \<and> ValidMetricName (rc_Metric req) \<and>
     ValidAlertComparator (rc_Comparator req) \<and> ValidAlertSeverity (rc_Severity req) \<and>
     (\<not> IsEmpty (rc_ClusterID req) \<longrightarrow> uuidPattern (rc_ClusterID req))"

definition valid_opt :: "('a \<Rightarrow> bool) \<Rightarrow> 'a option \<Rightarrow> bool" where
  "valid_opt P x = (case x of None \<Rightarrow> True | Some y \<Rightarrow> P y)"

definition validateAlertRuleUpdate :: "AlertRuleUpdate \<Rightarrow> bool" where
  "validateAlertRuleUpdate req \<longleftrightarrow>
     valid_opt ValidMetricName (ru_Metric req) \<and> valid_opt ValidAlertComparator (ru_Comparator req) \<and>
     valid_opt ValidAlertSeverity (ru_Severity req) \<and>
     valid_opt (\<lambda>c. IsEmpty c \<or> uuidPattern c) (ru_ClusterID req) \<and>
     valid_opt (\<lambda>n. \<not> IsEmpty (TrimSpace n)) (ru_Name req)"

definition alerts_CreateRule ::
  "read_uuid \<Rightarrow> string \<Rightarrow> gotime \<Rightarrow> User option \<Rightarrow> AlertRuleCreate option \<Rightarrow> AlertDB \<Rightarrow>
     alert_answer \<times> AlertDB" where
  "alerts_CreateRule uuid newID now actor body db =
     (case requireManageAlertRules actor of
        Inl a \<Rightarrow> (a, db)
      | Inr u \<Rightarrow>
          (case body of
             None \<Rightarrow> (ABadRequest, db)
           | Some req0 \<Rightarrow>
               (let req1 = (if IsEmpty (rc_Severity req0) then req0\<lparr>rc_Severity := AlertSeverityWarning\<rparr> else req0);
                    req = (if IsEmpty (rc_Comparator req1) then req1\<lparr>rc_Comparator := AlertComparatorGTE\<rparr> else req1)
                in if \<not> validateAlertRuleCreate req then (ABadRequest, db)
                   else if \<not> canAccessAlertRuleCluster u (rc_ClusterID req) then (AForbidden, db)
                   else (case CreateAlertRule uuid newID now req (u_Username u) db of
                       (Inl e, db') \<Rightarrow> (alert_api_error e, db')
                     | (Inr r, db') \<Rightarrow> (ARules [r] 1, db')))))"

definition alerts_UpdateRule ::
  "read_uuid \<Rightarrow> gotime \<Rightarrow> User option \<Rightarrow> string \<Rightarrow> AlertRuleUpdate option \<Rightarrow> AlertDB \<Rightarrow>
     alert_answer \<times> AlertDB" where
  "alerts_UpdateRule uuid now actor i body db =
     (case requireManageAlertRules actor of
        Inl a \<Rightarrow> (a, db)
      | Inr u \<Rightarrow>
          if \<not> uuidPattern i then (ABadRequest, db)
          else (case GetAlertRule uuid i db of
              Inl e \<Rightarrow> (alert_api_error e, db)
            | Inr existing \<Rightarrow>
                if \<not> canAccessAlertRuleCluster u (ar_ClusterID existing) then (AForbidden, db)
                else (case body of
                    None \<Rightarrow> (ABadRequest, db)
                  | Some req \<Rightarrow>
                      if \<not> validateAlertRuleUpdate req then (ABadRequest, db)
                      else
                        (let promote = (ru_ClearCluster req \<or> ru_ClusterID req = Some []);
                             moved = (case ru_ClusterID req of None \<Rightarrow> False | Some c \<Rightarrow> \<not> CanAccessCluster u c)
                         in if promote \<and> \<not> canManageGlobalAlertRules u then (AForbidden, db)
                            else if \<not> promote \<and> moved then (AForbidden, db)
                            else (case UpdateAlertRule uuid now i req db of
                                (Inl e, db') \<Rightarrow> (alert_api_error e, db')
                              | (Inr r, db') \<Rightarrow> (ARules [r] 1, db'))))))"

definition alerts_DeleteRule ::
  "read_uuid \<Rightarrow> User option \<Rightarrow> string \<Rightarrow> AlertDB \<Rightarrow> alert_answer \<times> AlertDB" where
  "alerts_DeleteRule uuid actor i db =
     (case requireManageAlertRules actor of
        Inl a \<Rightarrow> (a, db)
      | Inr u \<Rightarrow>
          if \<not> uuidPattern i then (ABadRequest, db)
          else (case GetAlertRule uuid i db of
              Inl e \<Rightarrow> (alert_api_error e, db)
            | Inr existing \<Rightarrow>
                if \<not> canAccessAlertRuleCluster u (ar_ClusterID existing) then (AForbidden, db)
                else (case DeleteAlertRule uuid i db of
                    (Some e, db') \<Rightarrow> (alert_api_error e, db')
                  | (None, db') \<Rightarrow> (ADone, db'))))"

section \<open>Sequences of operations\<close>

datatype alert_op =
    OpCreateRule string gotime AlertRuleCreate string
  | OpUpdateRule gotime string AlertRuleUpdate
  | OpDeleteRule string
  | OpAcknowledge gotime string string
  | OpUpsert string AlertRule string float64 gotime
  | OpClaim gotime string
  | OpRelease string
  | OpClose string string gotime
  | OpPurge gotime
  | OpAddCluster string
  | OpDeleteCluster string

text \<open>The deletion of a cluster takes its rules, their alerts, and its alerts along.\<close>

definition delete_cluster_rows :: "string \<Rightarrow> AlertDB \<Rightarrow> AlertDB" where
  "delete_cluster_rows c db =
     (let gone = ar_ID ` set (filter (\<lambda>r. ar_ClusterID r = c) (ab_rules db))
      in db\<lparr>ab_clusters := filter (\<lambda>x. x \<noteq> c) (ab_clusters db),
            ab_rules := filter (\<lambda>r. ar_ClusterID r \<noteq> c) (ab_rules db),
            ab_alerts := filter (\<lambda>a. al_ClusterID a \<noteq> c \<and> al_RuleID a \<notin> gone) (ab_alerts db)\<rparr>)"

fun alert_step :: "read_uuid \<Rightarrow> alert_op \<Rightarrow> AlertDB \<Rightarrow> AlertDB" where
  "alert_step uuid (OpCreateRule i now inp by') db = snd (CreateAlertRule uuid i now inp by' db)"
| "alert_step uuid (OpUpdateRule now i u) db = snd (UpdateAlertRule uuid now i u db)"
| "alert_step uuid (OpDeleteRule i) db = snd (DeleteAlertRule uuid i db)"
| "alert_step uuid (OpAcknowledge now i actor) db = snd (AcknowledgeAlert uuid now i actor db)"
| "alert_step uuid (OpUpsert i rule c v t) db = snd (UpsertOpenAlert i rule c v t db)"
| "alert_step uuid (OpClaim now i) db = snd (ClaimAlertEmailNotify now i db)"
| "alert_step uuid (OpRelease i) db = ReleaseAlertEmailNotify i db"
| "alert_step uuid (OpClose r c t) db = CloseOpenAlert r c t db"
| "alert_step uuid (OpPurge cutoff) db = snd (DeleteClosedAlertsOlderThan cutoff db)"
| "alert_step uuid (OpAddCluster c) db = db\<lparr>ab_clusters := c # ab_clusters db\<rparr>"
| "alert_step uuid (OpDeleteCluster c) db = delete_cluster_rows c db"

text \<open>Rules and alerts are unique and refer to rows that exist; a rule has one open alert in a cluster at most.\<close>

definition alert_row_ok :: "AlertDB \<Rightarrow> Alert \<Rightarrow> bool" where
  "alert_row_ok db a \<longleftrightarrow> al_RuleID a \<in> ar_ID ` set (ab_rules db) \<and> al_ClusterID a \<in> set (ab_clusters db) \<and>
     al_Status a \<in> {AlertStatusOpen, AlertStatusClosed} \<and>
     (al_Status a = AlertStatusClosed \<longleftrightarrow> al_ClosedAt a \<noteq> None) \<and> ValidAlertSeverity (al_Severity a)"

definition alerts_ok :: "AlertDB \<Rightarrow> bool" where
  "alerts_ok db \<longleftrightarrow> distinct (map ar_ID (ab_rules db)) \<and> distinct (map al_ID (ab_alerts db)) \<and>
     (\<forall>r \<in> set (ab_rules db). rule_allowed db r) \<and> (\<forall>a \<in> set (ab_alerts db). alert_row_ok db a) \<and>
     inj_on (\<lambda>a. (al_RuleID a, al_ClusterID a)) {a \<in> set (ab_alerts db). al_Status a = AlertStatusOpen}"

lemma open_not_closed [simp]: "AlertStatusOpen \<noteq> AlertStatusClosed" "AlertStatusClosed \<noteq> AlertStatusOpen"
  by (simp_all add: alert_consts)

text \<open>Changes that keep the identity of alerts and reopen none.\<close>

definition keeps_identity :: "(Alert \<Rightarrow> Alert) \<Rightarrow> bool" where
  "keeps_identity f \<longleftrightarrow> (\<forall>a. al_ID (f a) = al_ID a \<and> al_RuleID (f a) = al_RuleID a \<and>
     al_ClusterID (f a) = al_ClusterID a \<and> (al_Status (f a) = AlertStatusOpen \<longrightarrow> al_Status a = AlertStatusOpen))"

lemma alert_row_ok_alerts [simp]: "alert_row_ok (db\<lparr>ab_alerts := as\<rparr>) a \<longleftrightarrow> alert_row_ok db a"
  "rule_allowed (db\<lparr>ab_alerts := as\<rparr>) r \<longleftrightarrow> rule_allowed db r"
  "rule_allowed (db\<lparr>ab_rules := rs\<rparr>) r \<longleftrightarrow> rule_allowed db r"
  by (simp_all add: alert_row_ok_def rule_allowed_def)

lemma one_open_alert:
  "alerts_ok db \<Longrightarrow> x \<in> set (ab_alerts db) \<Longrightarrow> y \<in> set (ab_alerts db) \<Longrightarrow>
   al_Status x = AlertStatusOpen \<Longrightarrow> al_Status y = AlertStatusOpen \<Longrightarrow>
   al_RuleID x = al_RuleID y \<Longrightarrow> al_ClusterID x = al_ClusterID y \<Longrightarrow> x = y"
  unfolding alerts_ok_def inj_on_def by blast

lemma alerts_ok_map:
  assumes "alerts_ok db" "keeps_identity f"
    and "\<And>a. a \<in> set (ab_alerts db) \<Longrightarrow> alert_row_ok db (f a)"
  shows "alerts_ok (db\<lparr>ab_alerts := map f (ab_alerts db)\<rparr>)"
proof -
  have "map al_ID (map f (ab_alerts db)) = map al_ID (ab_alerts db)"
    using assms(2) by (simp add: keeps_identity_def)
  moreover have "inj_on (\<lambda>a. (al_RuleID a, al_ClusterID a)) {a \<in> f ` set (ab_alerts db). al_Status a = AlertStatusOpen}"
  proof (rule inj_onI)
    fix a b assume "a \<in> {a \<in> f ` set (ab_alerts db). al_Status a = AlertStatusOpen}"
      and "b \<in> {a \<in> f ` set (ab_alerts db). al_Status a = AlertStatusOpen}"
      and eq: "(al_RuleID a, al_ClusterID a) = (al_RuleID b, al_ClusterID b)"
    then obtain x y where "x \<in> set (ab_alerts db)" "y \<in> set (ab_alerts db)" and f: "a = f x" "b = f y"
      and "al_Status (f x) = AlertStatusOpen" "al_Status (f y) = AlertStatusOpen" by auto
    then have "x = y"
      using eq assms(2) one_open_alert [OF assms(1), of x y] by (simp add: keeps_identity_def)
    then show "a = b" using f by simp
  qed
  ultimately show ?thesis
    using assms(1,3) unfolding alerts_ok_def by (simp del: map_map)
qed

lemma alerts_ok_filter:
  assumes "alerts_ok db"
  shows "alerts_ok (db\<lparr>ab_alerts := filter P (ab_alerts db)\<rparr>)"
  using assms unfolding alerts_ok_def by (auto simp: distinct_map_filter elim!: inj_on_subset)

text \<open>Fewer rules and clusters, together with the alerts that refer to them.\<close>

lemma alerts_ok_restrict:
  assumes "alerts_ok db" "set cs \<subseteq> set (ab_clusters db)"
    and "\<And>r. r \<in> set (ab_rules db) \<Longrightarrow> P r \<Longrightarrow> ar_ClusterID r = [] \<or> ar_ClusterID r \<in> set cs"
    and "\<And>a. a \<in> set (ab_alerts db) \<Longrightarrow> Q a \<Longrightarrow>
      al_ClusterID a \<in> set cs \<and> (\<forall>r \<in> set (ab_rules db). ar_ID r = al_RuleID a \<longrightarrow> P r)"
  shows "alerts_ok (db\<lparr>ab_clusters := cs, ab_rules := filter P (ab_rules db), ab_alerts := filter Q (ab_alerts db)\<rparr>)"
proof -
  have "alert_row_ok (db\<lparr>ab_clusters := cs, ab_rules := filter P (ab_rules db), ab_alerts := as\<rparr>) a"
    if "a \<in> set (ab_alerts db)" "Q a" for a as
  proof -
    have "alert_row_ok db a" using that(1) assms(1) by (simp add: alerts_ok_def)
    with assms(4) [OF that] show ?thesis by (auto simp: alert_row_ok_def image_iff)
  qed
  moreover have "rule_allowed (db\<lparr>ab_clusters := cs, ab_rules := rs, ab_alerts := as\<rparr>) r"
    if "r \<in> set (ab_rules db)" "P r" for r rs as
    using assms(1) assms(3) [OF that] that(1) by (auto simp: alerts_ok_def rule_allowed_def)
  ultimately show ?thesis
    using assms(1) unfolding alerts_ok_def by (auto simp: distinct_map_filter elim!: inj_on_subset)
qed

lemma alerts_ok_rules:
  assumes "alerts_ok db" "distinct (map ar_ID rs)" "ar_ID ` set (ab_rules db) \<subseteq> ar_ID ` set rs"
    and "\<And>r. r \<in> set rs \<Longrightarrow> rule_allowed db r"
  shows "alerts_ok (db\<lparr>ab_rules := rs\<rparr>)"
  using assms unfolding alerts_ok_def by (auto simp: alert_row_ok_def rule_allowed_def)

lemma alerts_ok_add_rule:
  "alerts_ok db \<Longrightarrow> rule_allowed db r \<Longrightarrow> ar_ID r \<notin> ar_ID ` set (ab_rules db) \<Longrightarrow>
   alerts_ok (db\<lparr>ab_rules := ab_rules db @ [r]\<rparr>)"
  by (rule alerts_ok_rules) (auto simp: alerts_ok_def)

lemma CreateAlertRule_ok: "alerts_ok db \<Longrightarrow> alerts_ok (snd (CreateAlertRule uuid i now inp by' db))"
  unfolding CreateAlertRule_def Let_def
  by (auto split: option.splits intro!: alerts_ok_add_rule)

lemma updated_rule_ID [simp]: "ar_ID (updated_rule u r) = ar_ID r"
  by (simp add: updated_rule_def)

lemma GetAlertRule_found:
  "GetAlertRule uuid i db = Inr r \<Longrightarrow> r \<in> set (ab_rules db) \<and> uuid i = Some (ar_ID r)"
  unfolding GetAlertRule_def by (auto split: option.splits simp: find_Some_iff)

lemma alerts_ok_map_rules:
  assumes "alerts_ok db" "\<And>r. ar_ID (f r) = ar_ID r" "\<And>r. r \<in> set (ab_rules db) \<Longrightarrow> rule_allowed db (f r)"
  shows "alerts_ok (db\<lparr>ab_rules := map f (ab_rules db)\<rparr>)"
proof (rule alerts_ok_rules [OF assms(1)])
  have "map ar_ID (map f (ab_rules db)) = map ar_ID (ab_rules db)" by (simp add: assms(2))
  then show "distinct (map ar_ID (map f (ab_rules db)))" using assms(1) by (simp add: alerts_ok_def del: map_map)
  show "ar_ID ` set (ab_rules db) \<subseteq> ar_ID ` set (map f (ab_rules db))"
    by (simp add: image_image assms(2))
qed (use assms(3) in auto)

lemma alerts_ok_rule: "alerts_ok db \<Longrightarrow> r \<in> set (ab_rules db) \<Longrightarrow> rule_allowed db r"
  by (simp add: alerts_ok_def)

lemma alerts_ok_row: "alerts_ok db \<Longrightarrow> a \<in> set (ab_alerts db) \<Longrightarrow> alert_row_ok db a"
  by (simp add: alerts_ok_def)

lemma UpdateAlertRule_ok:
  "alerts_ok db \<Longrightarrow> alerts_ok (snd (UpdateAlertRule uuid now i u db))"
  unfolding UpdateAlertRule_def Let_def
  by (auto split: option.splits sum.splits intro!: alerts_ok_map_rules dest: alerts_ok_rule)

lemma DeleteAlertRule_ok: "alerts_ok db \<Longrightarrow> alerts_ok (snd (DeleteAlertRule uuid i db))"
  using alerts_ok_restrict [of db "ab_clusters db" "\<lambda>r. ar_ID r \<noteq> j" "\<lambda>a. al_RuleID a \<noteq> j" for j]
  unfolding DeleteAlertRule_def
  by (auto split: option.splits simp: alerts_ok_def alert_row_ok_def rule_allowed_def)

lemma delete_cluster_rows_ok:
  assumes "alerts_ok db"
  shows "alerts_ok (delete_cluster_rows c db)"
  unfolding delete_cluster_rows_def Let_def
  by (rule alerts_ok_restrict [OF assms])
    (use assms in \<open>auto simp: alerts_ok_def alert_row_ok_def rule_allowed_def image_iff\<close>)

lemma UpsertOpenAlert_ok:
  assumes "alerts_ok db"
  shows "alerts_ok (snd (UpsertOpenAlert i rule c v t db))"
proof (cases "ar_ID rule \<notin> ar_ID ` set (ab_rules db) \<or> c \<notin> set (ab_clusters db) \<or> \<not> ValidAlertSeverity (ar_Severity rule)")
  case True
  then show ?thesis using assms by (auto simp: UpsertOpenAlert_def)
next
  case False
  show ?thesis
  proof (cases "find (open_for (ar_ID rule) c) (ab_alerts db)")
    case None
    then have "\<forall>a \<in> set (ab_alerts db). \<not> open_for (ar_ID rule) c a" by (simp add: find_None_iff)
    then have inj: "inj_on (\<lambda>a. (al_RuleID a, al_ClusterID a))
        {a \<in> set (ab_alerts db @ [new_alert i rule c v t]). al_Status a = AlertStatusOpen}"
      using one_open_alert [OF assms] by (auto simp: inj_on_def new_alert_def open_for_def)
    show ?thesis
      using None False assms inj unfolding UpsertOpenAlert_def alerts_ok_def
      by (auto simp: new_alert_def alert_row_ok_def)
  next
    case (Some a)
    then show ?thesis
      using False assms unfolding UpsertOpenAlert_def
      by (auto intro!: alerts_ok_map simp: keeps_identity_def refreshed_def alert_row_ok_def dest: alerts_ok_row)
  qed
qed

lemma alert_row_ok_marks [simp]:
  "alert_row_ok db (a\<lparr>al_AcknowledgedAt := x, al_AcknowledgedBy := y\<rparr>) \<longleftrightarrow> alert_row_ok db a"
  "alert_row_ok db (a\<lparr>al_EmailNotifiedAt := x\<rparr>) \<longleftrightarrow> alert_row_ok db a"
  by (simp_all add: alert_row_ok_def)

lemma alert_row_ok_close [simp]:
  "alert_row_ok db a \<Longrightarrow>
   alert_row_ok db (a\<lparr>al_LastSeenAt := t, al_ClosedAt := Some t, al_Status := AlertStatusClosed\<rparr>)"
  "alert_row_ok db a \<Longrightarrow>
   alert_row_ok db (a\<lparr>al_Status := AlertStatusClosed, al_ClosedAt := Some t, al_LastSeenAt := t\<rparr>)"
  by (auto simp: alert_row_ok_def)

lemma alert_step_ok: "alerts_ok db \<Longrightarrow> alerts_ok (alert_step uuid op db)"
proof (cases op)
  case (OpAddCluster c)
  assume "alerts_ok db"
  then show ?thesis using OpAddCluster by (auto simp: alerts_ok_def alert_row_ok_def rule_allowed_def)
next
  case (OpPurge cutoff)
  assume "alerts_ok db"
  then show ?thesis using OpPurge by (simp add: DeleteClosedAlertsOlderThan_def Let_def alerts_ok_filter)
qed (auto simp: CreateAlertRule_ok UpdateAlertRule_ok DeleteAlertRule_ok delete_cluster_rows_ok UpsertOpenAlert_ok
      AcknowledgeAlert_def ClaimAlertEmailNotify_def ReleaseAlertEmailNotify_def CloseOpenAlert_def Let_def
      keeps_identity_def intro!: alerts_ok_map split: option.splits dest: alerts_ok_row)

text \<open>Whatever operations run on the tables, rules and alerts keep their identity, every alert refers to a rule and a cluster that exist, is closed exactly when it has a closing time, and a rule never has two open alerts in one cluster.\<close>

theorem alerts_table_ok:
  "alerts_ok (fold (alert_step uuid) ops \<lparr>ab_rules = [], ab_alerts = [], ab_clusters = []\<rparr>)"
  by (rule fold_invariant [where Q = "\<lambda>_. True"]) (simp_all add: alert_step_ok, simp add: alerts_ok_def)

subsection \<open>An evaluation decides which alerts are open\<close>

definition is_open :: "AlertDB \<Rightarrow> string \<Rightarrow> string \<Rightarrow> bool" where
  "is_open db r c = list_ex (open_for r c) (ab_alerts db)"

definition elsewhere :: "string \<Rightarrow> AlertDB \<Rightarrow> Alert list" where
  "elsewhere c db = filter (\<lambda>a. al_ClusterID a \<noteq> c) (ab_alerts db)"

definition applies_to :: "string \<Rightarrow> AlertRule \<Rightarrow> bool" where
  "applies_to c r \<longleftrightarrow> ar_Enabled r \<and> (ar_ClusterID r = [] \<or> ar_ClusterID r = c)"

text \<open>Marking the mail of one alert.\<close>

definition marks_only :: "string \<Rightarrow> AlertDB \<Rightarrow> AlertDB \<Rightarrow> bool" where
  "marks_only i db db' \<longleftrightarrow> (\<exists>f. db' = db\<lparr>ab_alerts := map f (ab_alerts db)\<rparr> \<and>
     (\<forall>a. f a = a \<or> al_ID a = i \<and> (\<exists>e. f a = a\<lparr>al_EmailNotifiedAt := e\<rparr>)))"

lemma marks_only_refl [simp]: "marks_only i db db"
  unfolding marks_only_def by (rule exI [of _ "\<lambda>a. a"]) simp

lemma marks_only_claim: "marks_only i db (snd (ClaimAlertEmailNotify now i db))"
  unfolding marks_only_def ClaimAlertEmailNotify_def Let_def snd_conv
  by (rule exI [of _ "\<lambda>a. if al_ID a = i \<and> al_Status a = AlertStatusOpen \<and> al_EmailNotifiedAt a = None
      then a\<lparr>al_EmailNotifiedAt := Some now\<rparr> else a"]) (auto intro!: exI)

lemma marks_only_release:
  assumes "marks_only i db db1"
  shows "marks_only i db (ReleaseAlertEmailNotify i db1)"
proof -
  obtain f where f: "db1 = db\<lparr>ab_alerts := map f (ab_alerts db)\<rparr>"
    "\<And>a. f a = a \<or> al_ID a = i \<and> (\<exists>e. f a = a\<lparr>al_EmailNotifiedAt := e\<rparr>)"
    using assms by (auto simp: marks_only_def)
  let ?g = "\<lambda>a. if al_ID a = i \<and> al_Status a = AlertStatusOpen then a\<lparr>al_EmailNotifiedAt := None\<rparr> else a"
  have "?g (f a) = a \<or> al_ID a = i \<and> (\<exists>e. ?g (f a) = a\<lparr>al_EmailNotifiedAt := e\<rparr>)" for a
  proof (cases "al_ID a = i \<and> al_Status a = AlertStatusOpen")
    case True
    then have "?g (f a) = a\<lparr>al_EmailNotifiedAt := None\<rparr>"
      using f(2) [of a] by (elim disjE conjE exE) simp_all
    with True show ?thesis by blast
  next
    case False
    then have "?g (f a) = f a" using f(2) [of a] by (elim disjE conjE exE) (simp_all only: if_False, simp)
    then show ?thesis using f(2) [of a] by simp
  qed
  then show ?thesis
    unfolding marks_only_def f(1) ReleaseAlertEmailNotify_def
    by (intro exI [of _ "\<lambda>a. ?g (f a)"]) (simp add: o_def)
qed

lemma notifyNewAlert_marks: "marks_only i (ax_db s) (ax_db (notifyNewAlert env c i s))"
proof -
  obtain b db' where claim: "ClaimAlertEmailNotify (ae_now env) i (ax_db s) = (b, db')" by fastforce
  then have "marks_only i (ax_db s) db'" using marks_only_claim [of i "ax_db s" "ae_now env"] by simp
  with claim show ?thesis
    by (auto simp: notifyNewAlert_def sendAlertEmail_def marks_only_release split: sum.splits prod.splits)
qed

lemma marks_only_facts:
  assumes "marks_only i db db'"
  shows "ab_rules db' = ab_rules db" "ab_clusters db' = ab_clusters db"
    "al_ID ` set (ab_alerts db') = al_ID ` set (ab_alerts db)" "is_open db' r c = is_open db r c"
    "alerts_ok db \<Longrightarrow> alerts_ok db'"
    "(\<And>a. a \<in> set (ab_alerts db) \<Longrightarrow> al_ID a = i \<Longrightarrow> al_ClusterID a = c') \<Longrightarrow> elsewhere c' db' = elsewhere c' db"
proof -
  obtain f where f: "db' = db\<lparr>ab_alerts := map f (ab_alerts db)\<rparr>"
    "\<And>a. f a = a \<or> al_ID a = i \<and> (\<exists>e. f a = a\<lparr>al_EmailNotifiedAt := e\<rparr>)"
    using assms by (auto simp: marks_only_def)
  have same: "al_ID (f a) = al_ID a" "al_RuleID (f a) = al_RuleID a" "al_ClusterID (f a) = al_ClusterID a"
    "al_Status (f a) = al_Status a" "alert_row_ok db (f a) \<longleftrightarrow> alert_row_ok db a" for a
    using f(2) [of a] by (elim disjE conjE exE, simp, simp)+
  have open_f: "open_for r c (f a) = open_for r c a" for a by (simp add: open_for_def same)
  show "ab_rules db' = ab_rules db" "ab_clusters db' = ab_clusters db" by (simp_all add: f(1))
  show "al_ID ` set (ab_alerts db') = al_ID ` set (ab_alerts db)" by (simp add: f(1) image_image same)
  show "is_open db' r c = is_open db r c" by (simp add: f(1) is_open_def list_ex_iff open_f)
  show "alerts_ok db \<Longrightarrow> alerts_ok db'"
    unfolding f(1) by (rule alerts_ok_map) (auto simp: same alerts_ok_row keeps_identity_def)
  show "elsewhere c' db' = elsewhere c' db"
    if "\<And>a. a \<in> set (ab_alerts db) \<Longrightarrow> al_ID a = i \<Longrightarrow> al_ClusterID a = c'"
  proof -
    have "f a = a" if "a \<in> set (ab_alerts db)" "al_ClusterID a \<noteq> c'" for a
      using f(2) [of a] that \<open>\<And>a. a \<in> set (ab_alerts db) \<Longrightarrow> al_ID a = i \<Longrightarrow> al_ClusterID a = c'\<close> by blast
    then show ?thesis
      by (auto simp: f(1) elsewhere_def filter_map o_def same intro!: map_idI)
  qed
qed

lemma is_open_map:
  assumes "ab_alerts db' = map f (ab_alerts db)" "\<And>a. open_for r c (f a) \<longleftrightarrow> open_for r c a \<and> Q"
  shows "is_open db' r c \<longleftrightarrow> is_open db r c \<and> Q"
  unfolding is_open_def list_ex_iff assms(1) set_map using assms(2) by blast

lemma ids_map:
  "ab_alerts db' = map f (ab_alerts db) \<Longrightarrow> (\<And>a. al_ID (f a) = al_ID a) \<Longrightarrow>
   al_ID ` set (ab_alerts db') = al_ID ` set (ab_alerts db)"
  by (simp add: image_image)

lemma open_upsert_old:
  fixes v :: float64 and t :: gotime
  assumes "find (open_for (ar_ID rule) c) (ab_alerts db) = Some a"
  defines "db' \<equiv> db\<lparr>ab_alerts := map (\<lambda>x. if open_for (ar_ID rule) c x then refreshed rule v t x else x) (ab_alerts db)\<rparr>"
  shows "is_open db' r c' = is_open db r c'" "is_open db (ar_ID rule) c" "elsewhere c db' = elsewhere c db"
    "al_ID ` set (ab_alerts db') = al_ID ` set (ab_alerts db)"
proof -
  let ?f = "\<lambda>x. if open_for (ar_ID rule) c x then refreshed rule v t x else x"
  have same: "al_ID (?f x) = al_ID x" "open_for r c' (?f x) = open_for r c' x" for x
    by (simp_all add: refreshed_def open_for_def)
  show "is_open db' r c' = is_open db r c'"
    using is_open_map [of db' ?f db r c' True] same(2) by (simp add: db'_def)
  show "is_open db (ar_ID rule) c" using assms(1) by (auto simp: is_open_def list_ex_iff find_Some_iff)
  show "al_ID ` set (ab_alerts db') = al_ID ` set (ab_alerts db)" 
    by (rule ids_map [of _ ?f]) (simp_all add: db'_def same)
  have "filter (\<lambda>a. al_ClusterID a \<noteq> c) (map ?f xs) = filter (\<lambda>a. al_ClusterID a \<noteq> c) xs" for xs
    by (induction xs) (auto simp: refreshed_def open_for_def)
  then show "elsewhere c db' = elsewhere c db" by (simp add: elsewhere_def db'_def)
qed

lemma open_upsert_new:
  fixes i :: string and v :: float64 and t :: gotime
  assumes "find (open_for (ar_ID rule) c) (ab_alerts db) = None"
  defines "db' \<equiv> db\<lparr>ab_alerts := ab_alerts db @ [new_alert i rule c v t]\<rparr>"
  shows "is_open db' r c \<longleftrightarrow> is_open db r c \<or> r = ar_ID rule" "elsewhere c db' = elsewhere c db"
  by (auto simp: db'_def is_open_def elsewhere_def open_for_def new_alert_def)

lemma open_close:
  "is_open (CloseOpenAlert r c t db) r' c \<longleftrightarrow> is_open db r' c \<and> r' \<noteq> r"
  "elsewhere c (CloseOpenAlert r c t db) = elsewhere c db"
  "al_ID ` set (ab_alerts (CloseOpenAlert r c t db)) = al_ID ` set (ab_alerts db)"
  "ab_rules (CloseOpenAlert r c t db) = ab_rules db" "ab_clusters (CloseOpenAlert r c t db) = ab_clusters db"
proof -
  let ?f = "\<lambda>a. if open_for r c a then a\<lparr>al_Status := AlertStatusClosed, al_ClosedAt := Some t, al_LastSeenAt := t\<rparr> else a"
  have "open_for r' c (?f a) \<longleftrightarrow> open_for r' c a \<and> r' \<noteq> r" for a by (auto simp: open_for_def)
  then show "is_open (CloseOpenAlert r c t db) r' c \<longleftrightarrow> is_open db r' c \<and> r' \<noteq> r"
    using is_open_map [of "CloseOpenAlert r c t db" ?f db r' c "r' \<noteq> r"] by (simp add: CloseOpenAlert_def)
  have "filter (\<lambda>a. al_ClusterID a \<noteq> c) (map ?f xs) = filter (\<lambda>a. al_ClusterID a \<noteq> c) xs" for xs
    by (induction xs) (auto simp: open_for_def)
  then show "elsewhere c (CloseOpenAlert r c t db) = elsewhere c db"
    by (simp add: elsewhere_def CloseOpenAlert_def)
  have "al_ID (?f a) = al_ID a" for a by simp
  then show "al_ID ` set (ab_alerts (CloseOpenAlert r c t db)) = al_ID ` set (ab_alerts db)"
    by (intro ids_map [of _ ?f]) (simp_all add: CloseOpenAlert_def)
qed (simp_all add: CloseOpenAlert_def)

text \<open>One rule of an evaluation.\<close>

definition decided :: "(string \<times> float64) list \<Rightarrow> AlertRule \<Rightarrow> bool \<Rightarrow> bool" where
  "decided samples r was =
     (case byMetric samples (ar_Metric r) of
        None \<Rightarrow> was | Some v \<Rightarrow> ThresholdMet (ar_Comparator r) v (ar_Threshold r))"

lemma evaluate_rule_new:
  fixes env :: AlertEnv and openRules :: "string list"
  assumes ok: "alerts_ok (ax_db s)" and v: "byMetric samples (ar_Metric r) = Some v"
    and met: "ThresholdMet (ar_Comparator r) v (ar_Threshold r)"
    and up: "UpsertOpenAlert i r c v t (ax_db s) = (Inr (i, True), db1)"
    and i: "i = ae_newID env (ar_ID r)" and t: "t = ae_now env"
  defines "db' \<equiv> ax_db (evaluate_rule env c samples openRules r s)"
  shows "alerts_ok db'" "ab_rules db' = ab_rules (ax_db s)" "ab_clusters db' = ab_clusters (ax_db s)"
    "al_ID ` set (ab_alerts db') \<subseteq> insert i (al_ID ` set (ab_alerts (ax_db s)))"
    "elsewhere c db' = elsewhere c (ax_db s)"
    "is_open db' r' c \<longleftrightarrow> is_open (ax_db s) r' c \<or> r' = ar_ID r"
proof -
  have run: "db' = ax_db (notifyNewAlert env c i (s\<lparr>ax_db := db1\<rparr>))"
    using v met up by (simp add: db'_def evaluate_rule_def i t)
  have none: "find (open_for (ar_ID r) c) (ab_alerts (ax_db s)) = None" and fresh: "i \<notin> al_ID ` set (ab_alerts (ax_db s))"
    and db1: "db1 = ax_db s\<lparr>ab_alerts := ab_alerts (ax_db s) @ [new_alert i r c v t]\<rparr>"
    using up by (auto simp: UpsertOpenAlert_def split: if_splits option.splits)
  have "alerts_ok db1" using UpsertOpenAlert_ok [OF ok, of i r c v t] up by simp
  moreover have "marks_only i db1 db'" using notifyNewAlert_marks [of i "s\<lparr>ax_db := db1\<rparr>" env c] by (simp add: run)
  moreover have "al_ClusterID a = c" if "a \<in> set (ab_alerts db1)" "al_ID a = i" for a
  proof -
    have "a = new_alert i r c v t" using that fresh by (auto simp: db1)
    then show ?thesis by (simp add: new_alert_def)
  qed
  ultimately show "alerts_ok db'" "ab_rules db' = ab_rules (ax_db s)" "ab_clusters db' = ab_clusters (ax_db s)"
    "al_ID ` set (ab_alerts db') \<subseteq> insert i (al_ID ` set (ab_alerts (ax_db s)))"
    "elsewhere c db' = elsewhere c (ax_db s)"
    "is_open db' r' c \<longleftrightarrow> is_open (ax_db s) r' c \<or> r' = ar_ID r"
    using marks_only_facts [of i db1 db'] open_upsert_new [OF none, of i v t]
    by (simp_all add: db1 new_alert_def)
qed

definition rules_fresh :: "AlertEnv \<Rightarrow> AlertRule list \<Rightarrow> AlertDB \<Rightarrow> bool" where
  "rules_fresh env rs db \<longleftrightarrow> distinct (map (\<lambda>r. ae_newID env (ar_ID r)) rs) \<and>
     (\<forall>r \<in> set rs. ae_newID env (ar_ID r) \<notin> al_ID ` set (ab_alerts db))"

lemma evaluate_rule_decides:
  fixes env :: AlertEnv and openRules :: "string list" and samples :: "(string \<times> float64) list"
  assumes ok: "alerts_ok (ax_db s)" and r: "r \<in> set (ab_rules (ax_db s))" and c: "c \<in> set (ab_clusters (ax_db s))"
    and fresh: "ae_newID env (ar_ID r) \<notin> al_ID ` set (ab_alerts (ax_db s))"
    and known: "ar_ID r \<notin> set openRules \<Longrightarrow> \<not> is_open (ax_db s) (ar_ID r) c"
  defines "db' \<equiv> ax_db (evaluate_rule env c samples openRules r s)"
  shows "alerts_ok db' \<and> ab_rules db' = ab_rules (ax_db s) \<and> ab_clusters db' = ab_clusters (ax_db s) \<and>
    al_ID ` set (ab_alerts db') \<subseteq> insert (ae_newID env (ar_ID r)) (al_ID ` set (ab_alerts (ax_db s))) \<and>
    elsewhere c db' = elsewhere c (ax_db s) \<and>
    (\<forall>r'. is_open db' r' c \<longleftrightarrow> (if r' = ar_ID r then decided samples r (is_open (ax_db s) r' c) else is_open (ax_db s) r' c))"
proof (cases "byMetric samples (ar_Metric r)")
  case None
  then show ?thesis using ok by (auto simp: db'_def evaluate_rule_def decided_def)
next
  case (Some v)
  let ?i = "ae_newID env (ar_ID r)" and ?t = "ae_now env"
  have valid: "ValidAlertSeverity (ar_Severity r)" using alerts_ok_rule [OF ok r] by (simp add: rule_allowed_def)
  show ?thesis
  proof (cases "ThresholdMet (ar_Comparator r) v (ar_Threshold r)")
    case met: True
    show ?thesis
    proof (cases "find (open_for (ar_ID r) c) (ab_alerts (ax_db s))")
      case None
      have up: "UpsertOpenAlert ?i r c v ?t (ax_db s) =
          (Inr (?i, True), ax_db s\<lparr>ab_alerts := ab_alerts (ax_db s) @ [new_alert ?i r c v ?t]\<rparr>)"
        using None fresh c r valid by (simp add: UpsertOpenAlert_def)
      show ?thesis
        using evaluate_rule_new [OF ok Some met up refl refl, of openRules] Some met
        by (auto simp: db'_def decided_def)
    next
      case old: (Some a)
      define db1 where "db1 = snd (UpsertOpenAlert ?i r c v ?t (ax_db s))"
      have up: "UpsertOpenAlert ?i r c v ?t (ax_db s) = (Inr (al_ID a, False), db1)"
        "db1 = ax_db s\<lparr>ab_alerts := map (\<lambda>x. if open_for (ar_ID r) c x then refreshed r v ?t x else x) (ab_alerts (ax_db s))\<rparr>"
        using old c r valid by (simp_all add: UpsertOpenAlert_def db1_def)
      have run: "db' = db1" using Some met up(1) by (simp add: db'_def evaluate_rule_def)
      have "alerts_ok db1" using UpsertOpenAlert_ok [OF ok] by (simp add: db1_def)
      moreover have "is_open db1 r' c = is_open (ax_db s) r' c" for r'
        unfolding up(2) by (rule open_upsert_old(1) [OF old])
      moreover have "elsewhere c db1 = elsewhere c (ax_db s)" "al_ID ` set (ab_alerts db1) = al_ID ` set (ab_alerts (ax_db s))"
        unfolding up(2) by (rule open_upsert_old(3) [OF old], rule open_upsert_old(4) [OF old])
      moreover have "ab_rules db1 = ab_rules (ax_db s)" "ab_clusters db1 = ab_clusters (ax_db s)"
        by (simp_all add: up(2))
      ultimately show ?thesis
        using open_upsert_old(2) [OF old] Some met unfolding run decided_def by auto
    qed
  next
    case False
    have "alerts_ok (CloseOpenAlert (ar_ID r) c ?t (ax_db s))"
      using alert_step_ok [OF ok, of _ "OpClose (ar_ID r) c ?t"] by simp
    then show ?thesis
      using Some False known ok open_close(1,3-5) [of "ar_ID r" c ?t "ax_db s"]
        open_close(2) [of c "ar_ID r" ?t "ax_db s"]
      by (auto simp: db'_def evaluate_rule_def decided_def)
  qed
qed

lemma evaluate_rules_decide:
  fixes env :: AlertEnv and openRules :: "string list" and samples :: "(string \<times> float64) list"
  assumes "alerts_ok (ax_db s)" "set rs \<subseteq> set (ab_rules (ax_db s))" "distinct (map ar_ID rs)"
    and "c \<in> set (ab_clusters (ax_db s))" "rules_fresh env rs (ax_db s)"
    and "\<And>r. r \<in> set rs \<Longrightarrow> ar_ID r \<notin> set openRules \<Longrightarrow> \<not> is_open (ax_db s) (ar_ID r) c"
  defines "db' \<equiv> ax_db (fold (evaluate_rule env c samples openRules) rs s)"
  shows "ab_rules db' = ab_rules (ax_db s) \<and> elsewhere c db' = elsewhere c (ax_db s) \<and>
    (\<forall>r \<in> set rs. is_open db' (ar_ID r) c \<longleftrightarrow> decided samples r (is_open (ax_db s) (ar_ID r) c)) \<and>
    (\<forall>i. i \<notin> ar_ID ` set rs \<longrightarrow> is_open db' i c \<longleftrightarrow> is_open (ax_db s) i c)"
  using assms(1-6) unfolding db'_def
proof (induction rs arbitrary: s)
  case (Cons r rs)
  let ?s1 = "evaluate_rule env c samples openRules r s"
  let ?d = "ax_db (fold (evaluate_rule env c samples openRules) rs ?s1)"
  have step: "alerts_ok (ax_db ?s1)" "ab_rules (ax_db ?s1) = ab_rules (ax_db s)"
    "ab_clusters (ax_db ?s1) = ab_clusters (ax_db s)"
    "al_ID ` set (ab_alerts (ax_db ?s1)) \<subseteq> insert (ae_newID env (ar_ID r)) (al_ID ` set (ab_alerts (ax_db s)))"
    "elsewhere c (ax_db ?s1) = elsewhere c (ax_db s)"
    "\<And>r'. is_open (ax_db ?s1) r' c \<longleftrightarrow>
       (if r' = ar_ID r then decided samples r (is_open (ax_db s) r' c) else is_open (ax_db s) r' c)"
    using evaluate_rule_decides [of s r c env openRules samples] Cons.prems by (simp_all add: rules_fresh_def)
  have notin: "ar_ID r \<notin> ar_ID ` set rs" using Cons.prems(3) by simp
  have fresh: "rules_fresh env rs (ax_db ?s1)"
    unfolding rules_fresh_def
  proof (intro conjI ballI)
    fix q assume q: "q \<in> set rs"
    then have "ae_newID env (ar_ID q) \<noteq> ae_newID env (ar_ID r)" "ae_newID env (ar_ID q) \<notin> al_ID ` set (ab_alerts (ax_db s))"
      using Cons.prems(5) unfolding rules_fresh_def by (auto simp: image_iff)
    then show "ae_newID env (ar_ID q) \<notin> al_ID ` set (ab_alerts (ax_db ?s1))" using step(4) by blast
  qed (use Cons.prems(5) in \<open>simp add: rules_fresh_def\<close>)
  have known: "\<not> is_open (ax_db ?s1) (ar_ID q) c" if "q \<in> set rs" "ar_ID q \<notin> set openRules" for q
  proof -
    have "ar_ID q \<noteq> ar_ID r" using notin that(1) by (metis imageI)
    then show ?thesis using Cons.prems(6) [of q] that by (simp add: step(6))
  qed
  have rows: "set rs \<subseteq> set (ab_rules (ax_db ?s1))" "distinct (map ar_ID rs)" "c \<in> set (ab_clusters (ax_db ?s1))"
    using Cons.prems(2-4) unfolding step(2,3) by simp_all
  note IH = Cons.IH [OF step(1) rows fresh known]
  have IH3: "is_open ?d (ar_ID q) c \<longleftrightarrow> decided samples q (is_open (ax_db ?s1) (ar_ID q) c)" if "q \<in> set rs" for q
    using IH that by blast
  have IH4: "is_open ?d i c \<longleftrightarrow> is_open (ax_db ?s1) i c" if "i \<notin> ar_ID ` set rs" for i
    using IH that by blast
  have "is_open ?d (ar_ID r) c \<longleftrightarrow> decided samples r (is_open (ax_db s) (ar_ID r) c)"
    using IH4 [of "ar_ID r"] Cons.prems(3) by (simp add: step(6))
  moreover have "is_open ?d (ar_ID q) c \<longleftrightarrow> decided samples q (is_open (ax_db s) (ar_ID q) c)" if "q \<in> set rs" for q
  proof -
    have "ar_ID q \<noteq> ar_ID r" using notin that by (metis imageI)
    then show ?thesis using IH3 [OF that] by (simp add: step(6))
  qed
  moreover have "is_open ?d i c \<longleftrightarrow> is_open (ax_db s) i c" if "i \<notin> ar_ID ` set (r # rs)" for i
    using IH4 [of i] that by (simp add: step(6))
  ultimately show ?case
    using IH by (simp add: step(2,5))
qed simp

lemma Evaluate_spec:
  assumes "alerts_ok db" "c \<in> set (ab_clusters db)" "c \<noteq> []" "uuid c = Some c" "samples \<noteq> []"
    and "rules_fresh env (ab_rules db) db"
  defines "db' \<equiv> ax_db (Evaluate uuid env c samples db)"
  shows "ab_rules db' = ab_rules db" "elsewhere c db' = elsewhere c db"
    "r \<in> set (ab_rules db) \<Longrightarrow> is_open db' (ar_ID r) c \<longleftrightarrow>
       (if applies_to c r then decided samples r (is_open db (ar_ID r) c) else is_open db (ar_ID r) c)"
proof -
  let ?rs = "filter (applies_to c) (ab_rules db)"
  let ?s = "\<lparr>ax_db = db, ax_cache = [], ax_mails = []\<rparr>"
  have "applies_to c = (\<lambda>r. (ar_ClusterID r = [] \<or> ar_ClusterID r = c) \<and> ar_Enabled r)"
    by (auto simp: applies_to_def)
  then have run: "db' = ax_db (fold (evaluate_rule env c samples (ListOpenAlertRuleIDs c db)) ?rs ?s)"
    using assms(3-5) by (simp add: db'_def Evaluate_def ListAlertRules_def Let_def)
  have dist: "distinct (map ar_ID (ab_rules db))" using assms(1) by (simp add: alerts_ok_def)
  have known: "\<not> is_open db i c" if "i \<notin> set (ListOpenAlertRuleIDs c db)" for i
    using that by (auto simp: ListOpenAlertRuleIDs_def is_open_def list_ex_iff open_for_def)
  have fresh: "rules_fresh env ?rs db"
    using assms(6) by (auto simp: rules_fresh_def distinct_map_filter)
  have all: "ab_rules db' = ab_rules db \<and> elsewhere c db' = elsewhere c db \<and>
    (\<forall>r \<in> set ?rs. is_open db' (ar_ID r) c \<longleftrightarrow> decided samples r (is_open db (ar_ID r) c)) \<and>
    (\<forall>i. i \<notin> ar_ID ` set ?rs \<longrightarrow> is_open db' i c \<longleftrightarrow> is_open db i c)"
    using evaluate_rules_decide [of ?s ?rs c env "ListOpenAlertRuleIDs c db" samples] assms(1,2) fresh known
      distinct_map_filter [OF dist] unfolding run by simp
  then show "ab_rules db' = ab_rules db" "elsewhere c db' = elsewhere c db" by simp_all
  show "is_open db' (ar_ID r) c \<longleftrightarrow>
      (if applies_to c r then decided samples r (is_open db (ar_ID r) c) else is_open db (ar_ID r) c)"
    if "r \<in> set (ab_rules db)"
  proof (cases "applies_to c r")
    case True
    then show ?thesis using that all by simp
  next
    case False
    have "ar_ID r \<notin> ar_ID ` set ?rs"
    proof
      assume "ar_ID r \<in> ar_ID ` set ?rs"
      then obtain q where "q \<in> set (ab_rules db)" "applies_to c q" "ar_ID r = ar_ID q" by auto
      with dist that False show False by (auto simp: distinct_map dest: inj_onD)
    qed
    then show ?thesis using False all by simp
  qed
qed

text \<open>An evaluation of a cluster leaves exactly those alerts open that it has to: an enabled rule that applies to the cluster and whose metric was sampled has an open alert afterwards exactly if the last sample meets the threshold, whatever became of the mail; every other rule keeps what it had, as do the other clusters.\<close>

theorem evaluate_decides:
  assumes "alerts_ok db" "c \<in> set (ab_clusters db)" "c \<noteq> []" "uuid c = Some c" "samples \<noteq> []"
    and "rules_fresh env (ab_rules db) db"
  shows "let db' = ax_db (Evaluate uuid env c samples db) in
    ab_rules db' = ab_rules db \<and> elsewhere c db' = elsewhere c db \<and>
    (\<forall>r \<in> set (ab_rules db). is_open db' (ar_ID r) c \<longleftrightarrow>
       (if applies_to c r then decided samples r (is_open db (ar_ID r) c) else is_open db (ar_ID r) c))"
  using Evaluate_spec [where uuid = uuid, OF assms] by (simp add: Let_def)

definition cpu_rule :: "string \<Rightarrow> string \<Rightarrow> bool \<Rightarrow> AlertRule" where
  "cpu_rule i c on = \<lparr>ar_CreatedAt = 0, ar_UpdatedAt = 0, ar_Metric = ''server.cpu_percent'', ar_Name = ''cpu'',
     ar_Message = [], ar_Severity = AlertSeverityWarning, ar_ID = i, ar_Comparator = AlertComparatorGT,
     ar_CreatedBy = ''root'', ar_AccountName = [], ar_ClusterID = c, ar_Threshold = Fin 90, ar_Enabled = on\<rparr>"

lemmas cpu_rule_simps = cpu_rule_def alert_consts alerts_ok_def alert_row_ok_def rule_allowed_def
  ValidAlertSeverity_def ValidAlertComparator_def AlertSeverities_def AlertComparators_def

lemma evaluate_decides_witness:
  "let env = \<lparr>ae_now = 5, ae_mailer = False, ae_users = Inr [], ae_send = (\<lambda>_ _. True), ae_newID = (\<lambda>r. r)\<rparr>;
       db = \<lparr>ab_rules = [cpu_rule ''r1'' [] True, cpu_rule ''r2'' ''c'' False], ab_alerts = [], ab_clusters = [''c'']\<rparr>;
       db' = ax_db (Evaluate Some env ''c'' [(''server.cpu_percent'', Fin 95)] db)
   in is_open db' ''r1'' ''c'' \<and> \<not> is_open db' ''r2'' ''c''"
proof -
  let ?env = "\<lparr>ae_now = 5, ae_mailer = False, ae_users = Inr [], ae_send = (\<lambda>_ _. True), ae_newID = (\<lambda>r. r)\<rparr>"
  let ?db = "\<lparr>ab_rules = [cpu_rule ''r1'' [] True, cpu_rule ''r2'' ''c'' False], ab_alerts = [], ab_clusters = [''c'']\<rparr>"
  have "alerts_ok ?db" by (simp add: cpu_rule_simps)
  moreover have "rules_fresh ?env (ab_rules ?db) ?db" by (simp add: rules_fresh_def cpu_rule_def)
  ultimately show ?thesis
    using evaluate_decides [of ?db "''c''" Some "[(''server.cpu_percent'', Fin 95)]" ?env]
    by (simp add: Let_def applies_to_def decided_def byMetric_def ThresholdMet_def cpu_rule_def alert_consts is_open_def
        f64_less.simps)
qed

text \<open>An alert whose rule was disabled stays open whatever is sampled.\<close>

lemma disabled_rule_stays_open:
  assumes "alerts_ok db" "c \<in> set (ab_clusters db)" "c \<noteq> []" "uuid c = Some c" "samples \<noteq> []"
    and "rules_fresh env (ab_rules db) db" "r \<in> set (ab_rules db)" "\<not> ar_Enabled r" "is_open db (ar_ID r) c"
  shows "is_open (ax_db (Evaluate uuid env c samples db)) (ar_ID r) c"
  using Evaluate_spec(3) [where uuid = uuid, OF assms(1-7)] assms(8,9) by (simp add: applies_to_def)

section \<open>Mails are sent once\<close>

text \<open>
  Evaluations of several replicas at a time: between them, the operations on the tables; one that has
  claimed the notification of an alert then sends the mail or gives the claim back.  Identifiers of new
  alerts are not used again.
\<close>

record MailWorld =
  mw_db :: AlertDB
  mw_claimed :: "string list"
  mw_sent :: "string list"
  mw_used :: "string list"

datatype mail_op =
    MTable alert_op
  | MClaim gotime string
  | MSend string bool

definition mails_none :: MailWorld where
  "mails_none = \<lparr>mw_db = \<lparr>ab_rules = [], ab_alerts = [], ab_clusters = []\<rparr>, mw_claimed = [], mw_sent = [],
     mw_used = []\<rparr>"

fun mail_step :: "read_uuid \<Rightarrow> mail_op \<Rightarrow> MailWorld \<Rightarrow> MailWorld" where
  "mail_step uuid (MTable op) w =
     (case op of
        OpClaim now i \<Rightarrow> w
      | OpRelease i \<Rightarrow> w
      | OpUpsert i rule c v t \<Rightarrow>
          if i \<in> set (mw_used w) then w
          else w\<lparr>mw_db := alert_step uuid op (mw_db w), mw_used := i # mw_used w\<rparr>
      | _ \<Rightarrow> w\<lparr>mw_db := alert_step uuid op (mw_db w)\<rparr>)"
| "mail_step uuid (MClaim now i) w =
     (case ClaimAlertEmailNotify now i (mw_db w) of
        (claimed, db') \<Rightarrow> w\<lparr>mw_db := db', mw_claimed := (if claimed then i # mw_claimed w else mw_claimed w)\<rparr>)"
| "mail_step uuid (MSend i ok) w =
     (if i \<notin> set (mw_claimed w) then w
      else if ok then w\<lparr>mw_claimed := remove1 i (mw_claimed w), mw_sent := mw_sent w @ [i]\<rparr>
      else w\<lparr>mw_claimed := remove1 i (mw_claimed w), mw_db := ReleaseAlertEmailNotify i (mw_db w)\<rparr>)"

text \<open>Whoever holds a claim or has sent the mail keeps the others from claiming it.\<close>

definition unclaimable :: "AlertDB \<Rightarrow> string \<Rightarrow> bool" where
  "unclaimable db i \<longleftrightarrow> (\<forall>a \<in> set (ab_alerts db). al_ID a = i \<longrightarrow> al_Status a = AlertStatusOpen \<longrightarrow>
     al_EmailNotifiedAt a \<noteq> None)"

definition alert_ids :: "AlertDB \<Rightarrow> string set" where
  "alert_ids db = al_ID ` set (ab_alerts db)"

definition mails_ok :: "MailWorld \<Rightarrow> bool" where
  "mails_ok w \<longleftrightarrow> distinct (mw_claimed w @ mw_sent w) \<and>
     (\<forall>i \<in> set (mw_claimed w @ mw_sent w). unclaimable (mw_db w) i) \<and>
     (\<forall>i \<in> set (mw_claimed w @ mw_sent w). i \<in> set (mw_used w)) \<and>
     alert_ids (mw_db w) \<subseteq> set (mw_used w)"

text \<open>Operations other than a release make nothing claimable.\<close>

definition keeps_claims :: "AlertDB \<Rightarrow> AlertDB \<Rightarrow> bool" where
  "keeps_claims db db' \<longleftrightarrow> (\<forall>a' \<in> set (ab_alerts db'). \<exists>a \<in> set (ab_alerts db). al_ID a' = al_ID a \<and>
     (al_Status a' = AlertStatusOpen \<longrightarrow> al_Status a = AlertStatusOpen) \<and>
     (al_EmailNotifiedAt a' = None \<longrightarrow> al_EmailNotifiedAt a = None))"

lemma keeps_claims_unclaimable: "keeps_claims db db' \<Longrightarrow> unclaimable db i \<Longrightarrow> unclaimable db' i"
  unfolding keeps_claims_def unclaimable_def by metis

lemma keeps_claims_ids: "keeps_claims db db' \<Longrightarrow> alert_ids db' \<subseteq> alert_ids db"
  unfolding keeps_claims_def alert_ids_def by force

lemma keeps_claims_subset: "set (ab_alerts db') \<subseteq> set (ab_alerts db) \<Longrightarrow> keeps_claims db db'"
  unfolding keeps_claims_def by blast

lemma keeps_claims_refl [simp]: "keeps_claims db db"
  by (rule keeps_claims_subset) simp

lemma keeps_claims_map:
  assumes "\<And>a. al_ID (f a) = al_ID a" "\<And>a. al_Status (f a) = AlertStatusOpen \<Longrightarrow> al_Status a = AlertStatusOpen"
    and "\<And>a. al_EmailNotifiedAt (f a) = None \<Longrightarrow> al_EmailNotifiedAt a = None"
  shows "keeps_claims db (db\<lparr>ab_alerts := map f (ab_alerts db)\<rparr>)"
  unfolding keeps_claims_def using assms by auto

lemma keeps_claims_op:
  assumes "\<And>i. op \<noteq> OpRelease i" "\<And>i rule c v t. op \<noteq> OpUpsert i rule c v t"
  shows "keeps_claims db (alert_step uuid op db)"
proof (cases op)
  case (OpCreateRule i now inp by')
  then show ?thesis
    by (auto simp: CreateAlertRule_def Let_def split: option.splits intro!: keeps_claims_subset)
next
  case (OpUpdateRule now i u)
  then show ?thesis
    by (auto simp: UpdateAlertRule_def Let_def split: option.splits sum.splits intro!: keeps_claims_subset)
next
  case (OpDeleteRule i)
  then show ?thesis
    by (auto simp: DeleteAlertRule_def split: option.splits intro!: keeps_claims_subset)
next
  case (OpAcknowledge now i actor)
  then show ?thesis
    by (auto simp: AcknowledgeAlert_def Let_def split: option.splits if_splits intro!: keeps_claims_map)
next
  case (OpClaim now i)
  then show ?thesis
    by (auto simp: ClaimAlertEmailNotify_def Let_def split: if_splits intro!: keeps_claims_map)
next
  case (OpClose r c t)
  then show ?thesis
    by (auto simp: CloseOpenAlert_def split: if_splits intro!: keeps_claims_map)
qed (use assms in \<open>auto simp: DeleteClosedAlertsOlderThan_def delete_cluster_rows_def Let_def intro!: keeps_claims_subset\<close>)

lemma upsert_unclaimable:
  "unclaimable db j \<Longrightarrow> j \<noteq> i \<Longrightarrow> unclaimable (alert_step uuid (OpUpsert i rule c v t) db) j"
  by (auto simp: UpsertOpenAlert_def unclaimable_def refreshed_def new_alert_def split: option.splits if_splits)

lemma upsert_ids: "alert_ids (alert_step uuid (OpUpsert i rule c v t) db) \<subseteq> insert i (alert_ids db)"
  by (auto simp: UpsertOpenAlert_def refreshed_def new_alert_def alert_ids_def split: option.splits if_splits)

lemma release_ids [simp]: "alert_ids (ReleaseAlertEmailNotify i db) = alert_ids db"
  unfolding alert_ids_def
  by (intro ids_map [of _ "\<lambda>a. if al_ID a = i \<and> al_Status a = AlertStatusOpen then a\<lparr>al_EmailNotifiedAt := None\<rparr> else a"])
    (simp_all add: ReleaseAlertEmailNotify_def)

lemma release_unclaimable:
  "unclaimable db j \<Longrightarrow> j \<noteq> i \<Longrightarrow> unclaimable (ReleaseAlertEmailNotify i db) j"
  by (auto simp: ReleaseAlertEmailNotify_def unclaimable_def)

text \<open>The parts of the invariant.\<close>

lemma mails_okI:
  "distinct (mw_claimed w @ mw_sent w) \<Longrightarrow>
   (\<And>i. i \<in> set (mw_claimed w @ mw_sent w) \<Longrightarrow> unclaimable (mw_db w) i \<and> i \<in> set (mw_used w)) \<Longrightarrow>
   alert_ids (mw_db w) \<subseteq> set (mw_used w) \<Longrightarrow> mails_ok w"
  by (simp add: mails_ok_def)

lemma mails_okD:
  assumes "mails_ok w"
  shows "distinct (mw_claimed w @ mw_sent w)" "alert_ids (mw_db w) \<subseteq> set (mw_used w)"
    "i \<in> set (mw_claimed w @ mw_sent w) \<Longrightarrow> unclaimable (mw_db w) i"
    "i \<in> set (mw_claimed w @ mw_sent w) \<Longrightarrow> i \<in> set (mw_used w)"
  using assms by (simp_all add: mails_ok_def)

lemma mails_ok_table:
  assumes "mails_ok w" "keeps_claims (mw_db w) db'"
  shows "mails_ok (w\<lparr>mw_db := db'\<rparr>)"
  using mails_okD [OF assms(1)] keeps_claims_ids [OF assms(2)] keeps_claims_unclaimable [OF assms(2)]
  by (intro mails_okI) auto

lemma mails_ok_upsert:
  assumes "mails_ok w" "i \<notin> set (mw_used w)"
  shows "mails_ok (w\<lparr>mw_db := alert_step uuid (OpUpsert i rule c v t) (mw_db w), mw_used := i # mw_used w\<rparr>)"
proof (rule mails_okI)
  let ?w = "w\<lparr>mw_db := alert_step uuid (OpUpsert i rule c v t) (mw_db w), mw_used := i # mw_used w\<rparr>"
  show "distinct (mw_claimed ?w @ mw_sent ?w)" using mails_okD(1) [OF assms(1)] by simp
  show "alert_ids (mw_db ?w) \<subseteq> set (mw_used ?w)"
    using mails_okD(2) [OF assms(1)] upsert_ids [of uuid i rule c v t "mw_db w"] by auto
  show "unclaimable (mw_db ?w) j \<and> j \<in> set (mw_used ?w)" if "j \<in> set (mw_claimed ?w @ mw_sent ?w)" for j
  proof -
    have "j \<in> set (mw_claimed w @ mw_sent w)" using that by simp
    then have "unclaimable (mw_db w) j" "j \<in> set (mw_used w)" by (rule mails_okD [OF assms(1)])+
    moreover from this(2) assms(2) have "j \<noteq> i" by blast
    ultimately show ?thesis using upsert_unclaimable [of "mw_db w" j i uuid rule c v t] by simp
  qed
qed

lemma claim_facts:
  "fst (ClaimAlertEmailNotify now i db) \<Longrightarrow> \<not> unclaimable db i \<and> i \<in> alert_ids db"
  "unclaimable (snd (ClaimAlertEmailNotify now i db)) i"
proof -
  let ?f = "\<lambda>a. if al_ID a = i \<and> al_Status a = AlertStatusOpen \<and> al_EmailNotifiedAt a = None
    then a\<lparr>al_EmailNotifiedAt := Some now\<rparr> else a"
  have "al_ID (?f a) = i \<longrightarrow> al_Status (?f a) = AlertStatusOpen \<longrightarrow> al_EmailNotifiedAt (?f a) \<noteq> None" for a
    by (cases "al_ID a = i") simp_all
  moreover have "ab_alerts (snd (ClaimAlertEmailNotify now i db)) = map ?f (ab_alerts db)"
    by (simp add: ClaimAlertEmailNotify_def)
  ultimately show "unclaimable (snd (ClaimAlertEmailNotify now i db)) i"
    unfolding unclaimable_def by (metis (no_types, lifting) imageE set_map)
  assume "fst (ClaimAlertEmailNotify now i db)"
  then obtain a where "a \<in> set (ab_alerts db)" "al_ID a = i" "al_Status a = AlertStatusOpen" "al_EmailNotifiedAt a = None"
    unfolding ClaimAlertEmailNotify_def Let_def list_ex_iff fst_conv by blast
  then show "\<not> unclaimable db i \<and> i \<in> alert_ids db"
    unfolding unclaimable_def alert_ids_def by blast
qed

lemma mails_ok_claim:
  assumes "mails_ok w"
  shows "mails_ok (mail_step uuid (MClaim now i) w)"
proof -
  obtain b db' where claim: "ClaimAlertEmailNotify now i (mw_db w) = (b, db')" by fastforce
  have "keeps_claims (mw_db w) db'"
    using keeps_claims_op [of "OpClaim now i" "mw_db w" uuid] claim by simp
  then have ok: "mails_ok (w\<lparr>mw_db := db'\<rparr>)" by (rule mails_ok_table [OF assms])
  show ?thesis
  proof (cases b)
    case True
    then have "\<not> unclaimable (mw_db w) i" "i \<in> alert_ids (mw_db w)"
      using claim_facts(1) [of now i "mw_db w"] claim by simp_all
    then have "i \<notin> set (mw_claimed w @ mw_sent w)" "i \<in> set (mw_used w)"
      using mails_okD(2,3) [OF assms] by blast+
    moreover have "unclaimable db' i" using claim_facts(2) [of now i "mw_db w"] claim by simp
    ultimately have "mails_ok (w\<lparr>mw_db := db', mw_claimed := i # mw_claimed w\<rparr>)"
      using mails_okD [OF ok] by (intro mails_okI) auto
    then show ?thesis using True claim by simp
  qed (use ok claim in simp)
qed

lemma mails_ok_send:
  assumes "mails_ok w"
  shows "mails_ok (mail_step uuid (MSend i sent) w)"
proof (cases "i \<in> set (mw_claimed w)")
  case True
  let ?rest = "remove1 i (mw_claimed w)"
  have "distinct (mw_claimed w)" "i \<notin> set (mw_sent w)"
    using mails_okD(1) [OF assms] True by auto
  then have rest: "set ?rest = set (mw_claimed w) - {i}" "distinct ?rest" by simp_all
  have "mails_ok (w\<lparr>mw_claimed := ?rest, mw_sent := mw_sent w @ [i]\<rparr>)"
    using mails_okD [OF assms] rest True \<open>i \<notin> set (mw_sent w)\<close> by (intro mails_okI) auto
  moreover have "mails_ok (w\<lparr>mw_claimed := ?rest, mw_db := ReleaseAlertEmailNotify i (mw_db w)\<rparr>)"
    using mails_okD [OF assms] rest \<open>i \<notin> set (mw_sent w)\<close>
    by (intro mails_okI) (auto intro!: release_unclaimable)
  ultimately show ?thesis using True by simp
qed (use assms in simp)

lemma mail_step_ok:
  assumes "mails_ok w"
  shows "mails_ok (mail_step uuid x w)"
proof (cases x)
  case (MTable op)
  show ?thesis
  proof (cases "\<exists>i rule c v t. op = OpUpsert i rule c v t")
    case True
    then show ?thesis using MTable mails_ok_upsert [OF assms] assms by auto
  next
    case False
    then show ?thesis
      using MTable assms mails_ok_table [OF assms keeps_claims_op [of op _ uuid]] by (auto split: alert_op.split)
  qed
next
  case (MClaim now i)
  then show ?thesis using mails_ok_claim [OF assms] by simp
next
  case (MSend i sent)
  then show ?thesis using mails_ok_send [OF assms] by simp
qed

text \<open>However the evaluations of any number of replicas interleave with each other and with all other operations on the tables, the mail about an alert is sent at most once, and at most one of them is sending it at a time.\<close>

theorem mailed_once:
  "distinct (mw_claimed (fold (mail_step uuid) xs mails_none) @ mw_sent (fold (mail_step uuid) xs mails_none))"
proof -
  have "mails_ok (fold (mail_step uuid) xs mails_none)"
    by (rule fold_invariant [where Q = "\<lambda>_. True"]) (simp_all add: mail_step_ok, simp add: mails_ok_def mails_none_def alert_ids_def)
  then show ?thesis by (simp add: mails_ok_def)
qed

section \<open>Who sees what\<close>

lemma add_grant_ids_set:
  "set (add_grant_ids gs ids) = set ids \<union> ((\<lambda>g. fst (Cut CHR '':'' (g_ResourceKey g))) ` set gs - {[]})"
  by (induction gs ids rule: add_grant_ids.induct) (auto simp: Let_def)

lemma grant_cluster:
  assumes "grant_of sc g"
  shows "fst (Cut CHR '':'' (g_ResourceKey g)) = scope_cluster sc"
  using assms by (cases sc) (auto simp: grant_of_def colon_free_def AccountResourceKey_def NATSUserResourceKey_def)

lemma grant_access:
  assumes "grant_of sc g" "colon_free c"
  shows "scope_cluster sc = c \<longleftrightarrow>
    g_ResourceType g = ResourceSystem \<and> g_ResourceKey g = c \<or>
    g_ResourceType g \<in> {ResourceAccount, ResourceNATSUser} \<and>
      (g_ResourceKey g = c \<or> HasPrefix (g_ResourceKey g) (c @ '':''))"
  using assms by (cases sc) (auto simp: grant_of_def colon_free_def AccountResourceKey_def NATSUserResourceKey_def
      HasPrefix_iff grant_defs dest: colon_parts_eq)

lemma accessible_exact:
  assumes "wf_grants u" "accessibleClusterIDs u = Some ids" "colon_free c"
  shows "c \<in> set ids \<longleftrightarrow> CanAccessClusterOrAccount u c"
proof -
  have scoped: "\<not> p_IsRoot (PermissionsFor u)" "\<not> p_AllClusters (PermissionsFor u)"
    and ids: "ids = add_grant_ids (u_Grants u) (p_ClusterIDs (PermissionsFor u))"
    using assms(2) by (auto simp: accessibleClusterIDs_def Let_def split: if_splits)
  have "(\<exists>g \<in> set (u_Grants u). fst (Cut CHR '':'' (g_ResourceKey g)) = c) \<longleftrightarrow>
      (\<exists>g \<in> set (u_Grants u). g_ResourceType g = ResourceSystem \<and> g_ResourceKey g = c \<or>
         g_ResourceType g \<in> {ResourceAccount, ResourceNATSUser} \<and>
         (g_ResourceKey g = c \<or> HasPrefix (g_ResourceKey g) (c @ '':'')))"
  proof (rule bex_cong [OF refl])
    fix g assume "g \<in> set (u_Grants u)"
    then obtain sc where "grant_of sc g" using assms(1) by (auto simp: wf_grants_def)
    then show "fst (Cut CHR '':'' (g_ResourceKey g)) = c \<longleftrightarrow> g_ResourceType g = ResourceSystem \<and> g_ResourceKey g = c \<or>
         g_ResourceType g \<in> {ResourceAccount, ResourceNATSUser} \<and>
         (g_ResourceKey g = c \<or> HasPrefix (g_ResourceKey g) (c @ '':''))"
      using grant_cluster grant_access [OF _ assms(3)] by simp
  qed
  moreover have "c \<noteq> []" using assms(3) by (simp add: colon_free_def)
  ultimately show ?thesis
    using scoped unfolding ids add_grant_ids_set CanAccessClusterOrAccount_def CanAccessCluster_iff
    by (auto simp: allowsClusterRules_perms AllowsCluster_iff hasAdminOrObserverGrant_def list_ex_iff image_iff)
qed

text \<open>An actor without any cluster or grant has an empty list of clusters, which the code takes for \<^verbatim>\<open>nil\<close>.\<close>

definition empty_scope :: "User \<Rightarrow> bool" where
  "empty_scope u \<longleftrightarrow> \<not> p_IsRoot (PermissionsFor u) \<and> \<not> p_AllClusters (PermissionsFor u) \<and>
     p_ClusterIDs (PermissionsFor u) = [] \<and> u_Grants u = []"

lemma all_clusters_access:
  "p_IsRoot (PermissionsFor u) \<or> p_AllClusters (PermissionsFor u) \<Longrightarrow> CanAccessClusterOrAccount u c"
  by (auto simp: CanAccessClusterOrAccount_def CanAccessCluster_iff allowsClusterRules_perms AllowsCluster_iff)

lemma accessible_None:
  assumes "wf_grants u" "accessibleClusterIDs u = None" "[] \<notin> set (p_ClusterIDs (PermissionsFor u))" "\<not> empty_scope u"
  shows "p_IsRoot (PermissionsFor u) \<or> p_AllClusters (PermissionsFor u)"
proof (rule ccontr)
  assume all: "\<not> ?thesis"
  then have "add_grant_ids (u_Grants u) (p_ClusterIDs (PermissionsFor u)) = []"
    using assms(2) by (auto simp: accessibleClusterIDs_def Let_def split: if_splits)
  then have none: "p_ClusterIDs (PermissionsFor u) = []" "(\<lambda>g. fst (Cut CHR '':'' (g_ResourceKey g))) ` set (u_Grants u) \<subseteq> {[]}"
    using add_grant_ids_set [of "u_Grants u" "p_ClusterIDs (PermissionsFor u)"] by auto
  have "u_Grants u = []"
  proof (cases "u_Grants u")
    case (Cons g gs)
    then obtain sc where sc: "grant_of sc g" using assms(1) by (auto simp: wf_grants_def)
    then have "scope_cluster sc = []" using none(2) Cons grant_cluster by auto
    then show ?thesis using sc by (cases sc) (auto simp: grant_of_def colon_free_def)
  qed
  then show False using none(1) all assms(4) by (simp add: empty_scope_def)
qed

text \<open>The texts PostgreSQL reads as a UUID have no colon, and the identifiers an actor holds are canonical.\<close>

definition canonical_for :: "read_uuid \<Rightarrow> User \<Rightarrow> AlertDB \<Rightarrow> bool" where
  "canonical_for uuid u db \<longleftrightarrow> (\<forall>c d. uuid c = Some d \<longrightarrow> colon_free c \<and> (CanAccessClusterOrAccount u c \<longrightarrow> d = c)) \<and>
     (\<forall>a \<in> set (ab_alerts db). uuid (al_ClusterID a) = Some (al_ClusterID a))"

definition alert_shown :: "User \<Rightarrow> AlertFilter \<Rightarrow> Alert \<Rightarrow> bool" where
  "alert_shown u f a \<longleftrightarrow> CanAccessClusterOrAccount u (al_ClusterID a) \<and>
     (af_Status f = [] \<or> al_Status a = af_Status f) \<and> (af_Severity f = [] \<or> al_Severity a = af_Severity f) \<and>
     (af_ClusterID f = [] \<or> al_ClusterID a = af_ClusterID f)"

lemma read_all_canonical:
  assumes "\<And>i d. i \<in> set is \<Longrightarrow> uuid i = Some d \<Longrightarrow> d = i" "read_all uuid is = Some cs"
  shows "cs = is"
  using assms by (induction "is" arbitrary: cs) (auto split: option.splits)

lemma read_all_readable: "read_all uuid is = Some cs \<Longrightarrow> i \<in> set is \<Longrightarrow> uuid i \<noteq> None"
  by (induction "is" arbitrary: cs) (auto split: option.splits)

lemma accessible_read:
  assumes "wf_grants u" "canonical_for uuid u db" "accessibleClusterIDs u = Some ids" "read_all uuid ids = Some cs"
    and "a \<in> set (ab_alerts db)"
  shows "al_ClusterID a \<in> set cs \<longleftrightarrow> CanAccessClusterOrAccount u (al_ClusterID a)"
proof -
  have "d = i" if "i \<in> set ids" "uuid i = Some d" for i d
    using that assms(2) accessible_exact [OF assms(1,3), of i] by (auto simp: canonical_for_def)
  then have "cs = ids" by (rule read_all_canonical [OF _ assms(4)])
  moreover have "colon_free (al_ClusterID a)" using assms(2,5) by (auto simp: canonical_for_def)
  ultimately show ?thesis using accessible_exact [OF assms(1,3)] by simp
qed

lemma ListAlerts_cases:
  assumes "ListAlerts uuid f db = Inr (page, n)"
  obtains P where "alert_where uuid f = Some P" "n = length (filter P (ab_alerts db))"
    "set page \<subseteq> set (filter P (ab_alerts db))"
    "page = take (nat (if af_Limit f \<le> 0 then 50 else if af_Limit f > 500 then 500 else af_Limit f))
       (drop (nat (af_Offset f)) (recent_first (filter P (ab_alerts db))))"
proof -
  obtain P where P: "alert_where uuid f = Some P"
    using assms by (auto simp: ListAlerts_def Let_def split: option.splits)
  with assms have n: "n = length (filter P (ab_alerts db))"
    and page: "page = take (nat (if af_Limit f \<le> 0 then 50 else if af_Limit f > 500 then 500 else af_Limit f))
       (drop (nat (af_Offset f)) (recent_first (filter P (ab_alerts db))))"
    by (auto simp: ListAlerts_def Let_def split: if_splits)
  have "set page \<subseteq> set (filter P (ab_alerts db))"
    unfolding page recent_first_def by (metis set_drop_subset set_sort set_take_subset subset_trans)
  with P n page that show ?thesis by blast
qed

lemma alerts_List_where:
  assumes u: "wf_grants u" "[] \<notin> set (p_ClusterIDs (PermissionsFor u))" "\<not> empty_scope u" "canonical_for uuid u db"
    and "alerts_List uuid (Some u) f db = AData page n"
  obtains ids where "ListAlerts uuid (f\<lparr>af_ClusterIDs := ids\<rparr>) db = Inr (page, n)"
    "\<And>P a. alert_where uuid (f\<lparr>af_ClusterIDs := ids\<rparr>) = Some P \<Longrightarrow> a \<in> set (ab_alerts db) \<Longrightarrow> P a \<longleftrightarrow> alert_shown u f a"
proof (cases "af_ClusterID f = []")
  case False
  then have "CanAccessClusterOrAccount u (af_ClusterID f)" and "ListAlerts uuid (f\<lparr>af_ClusterIDs := []\<rparr>) db = Inr (page, n)"
    using assms(5) by (auto simp: alerts_List_def alert_api_error_def Let_def split: if_splits sum.splits alert_error.splits)
  moreover have "d = af_ClusterID f" if "uuid (af_ClusterID f) = Some d" for d
    using that calculation(1) u(4) by (auto simp: canonical_for_def)
  ultimately show ?thesis
    using False by (intro that [of "[]"]) (auto simp: alert_where_def alert_shown_def Let_def)
next
  case True
  show ?thesis
  proof (cases "accessibleClusterIDs u")
    case None
    then have "CanAccessClusterOrAccount u c" for c
      using accessible_None [OF u(1) None u(2,3)] all_clusters_access by blast
    moreover have "ListAlerts uuid (f\<lparr>af_ClusterIDs := []\<rparr>) db = Inr (page, n)"
      using None True assms(5)
      by (auto simp: alerts_List_def alert_api_error_def Let_def split: if_splits sum.splits alert_error.splits)
    ultimately show ?thesis
      using True by (intro that [of "[]"]) (auto simp: alert_where_def alert_shown_def Let_def)
  next
    case (Some ids)
    then have "ids \<noteq> []" by (auto simp: accessibleClusterIDs_def Let_def split: if_splits)
    moreover from this have "ListAlerts uuid (f\<lparr>af_ClusterIDs := ids\<rparr>) db = Inr (page, n)"
      using Some True assms(5)
      by (auto simp: alerts_List_def alert_api_error_def Let_def split: if_splits sum.splits alert_error.splits)
    ultimately show ?thesis
      using True accessible_read [OF u(1,4) Some]
      by (intro that [of ids]) (auto simp: alert_where_def alert_shown_def Let_def)
  qed
qed


definition sample_alert :: "string \<Rightarrow> string \<Rightarrow> Alert" where
  "sample_alert i c = new_alert i (cpu_rule ''r1'' [] True) c (Fin 95) 5"


text \<open>An actor without any cluster sees the alerts of all of them.\<close>

lemma empty_scope_sees_all:
  assumes "empty_scope u"
  shows "\<not> CanAccessClusterOrAccount u c"
    and "alerts_OpenSummary uuid (Some u) db =
      (let hits = filter (\<lambda>a. al_Status a = AlertStatusOpen \<and> al_AcknowledgedAt a = None) (ab_alerts db)
       in AData (take 8 (recent_first hits)) (length hits))"
    and "canManageGlobalAlertRules u"
proof -
  have none: "accessibleClusterIDs u = None"
    using assms by (simp add: empty_scope_def accessibleClusterIDs_def)
  show "\<not> CanAccessClusterOrAccount u c"
    using assms by (auto simp: empty_scope_def CanAccessClusterOrAccount_def CanAccessCluster_iff allowsClusterRules_perms
        AllowsCluster_iff hasAdminOrObserverGrant_def)
  show "canManageGlobalAlertRules u" by (simp add: canManageGlobalAlertRules_def none)
  show "alerts_OpenSummary uuid (Some u) db =
      (let hits = filter (\<lambda>a. al_Status a = AlertStatusOpen \<and> al_AcknowledgedAt a = None) (ab_alerts db)
       in AData (take 8 (recent_first hits)) (length hits))"
    by (simp add: alerts_OpenSummary_def none ListOpenUnacknowledged_def Let_def)
qed

subsection \<open>Changes of rules\<close>

definition rules_beyond :: "User \<Rightarrow> AlertDB \<Rightarrow> AlertRule list" where
  "rules_beyond u db = filter (\<lambda>r. \<not> canAccessAlertRuleCluster u (ar_ClusterID r)) (ab_rules db)"

definition canonical_rules :: "read_uuid \<Rightarrow> User \<Rightarrow> AlertDB \<Rightarrow> bool" where
  "canonical_rules uuid u db \<longleftrightarrow> (\<forall>c d. uuid c = Some d \<longrightarrow> CanAccessCluster u c \<longrightarrow> d = c) \<and>
     (\<forall>r \<in> set (ab_rules db). ar_ClusterID r = [] \<or> uuid (ar_ClusterID r) = Some (ar_ClusterID r))"

lemma read_cluster_accessible:
  assumes "canonical_rules uuid u db" "read_cluster uuid c = Some d" "canAccessAlertRuleCluster u c"
  shows "canAccessAlertRuleCluster u d"
  using assms by (auto simp: read_cluster_def canonical_rules_def canAccessAlertRuleCluster_def split: if_splits)

lemma snd_answer [simp]:
  "snd (case p of (Inl e, d) \<Rightarrow> (f e, d) | (Inr r, d) \<Rightarrow> (g r, d)) = snd p"
  "snd (case q of (Some e, d) \<Rightarrow> (f e, d) | (None, d) \<Rightarrow> (h, d)) = snd q"
  by (auto split: prod.split sum.split option.split)

lemma requireManage_iff [simp]:
  "requireManageAlertRules (Some u) = Inr x \<longleftrightarrow> CanManageAlertRules u \<and> x = u"
  by (auto simp: requireManageAlertRules_def)

lemma create_rule_beyond:
  assumes "canonical_rules uuid u db"
  shows "rules_beyond u (snd (alerts_CreateRule uuid i now (Some u) body db)) = rules_beyond u db"
proof -
  have "rules_beyond u (snd (CreateAlertRule uuid i now req by' db)) = rules_beyond u db"
    if "canAccessAlertRuleCluster u (rc_ClusterID req)" for req by'
    using read_cluster_accessible [OF assms _ that]
    by (auto simp: CreateAlertRule_def Let_def rules_beyond_def split: option.splits)
  then show ?thesis
    by (simp add: alerts_CreateRule_def Let_def split: sum.split option.split)
qed

lemma filter_other_rule:
  assumes "\<not> P x" "distinct (map ar_ID rs)" "x \<in> set rs" "\<not> P y" "ar_ID y = ar_ID x"
  shows "filter P (map (\<lambda>r. if ar_ID r = ar_ID x then y else r) rs) = filter P rs"
    and "filter P (filter (\<lambda>r. ar_ID r \<noteq> ar_ID x) rs) = filter P rs"
proof -
  have x: "r = x" if "r \<in> set rs" "ar_ID r = ar_ID x" for r
    using that assms(2,3) by (auto simp: distinct_map dest: inj_onD)
  have "filter P (map (\<lambda>r. if ar_ID r = ar_ID x then y else r) xs) = filter P xs" if "set xs \<subseteq> set rs" for xs
    using that x assms(1,4) by (induction xs) auto
  then show "filter P (map (\<lambda>r. if ar_ID r = ar_ID x then y else r) rs) = filter P rs" by blast
  show "filter P (filter (\<lambda>r. ar_ID r \<noteq> ar_ID x) rs) = filter P rs"
    using x assms(1) by (auto intro!: filter_cong)
qed

lemma update_rule_beyond:
  assumes "canonical_rules uuid u db" "alerts_ok db"
  shows "rules_beyond u (snd (alerts_UpdateRule uuid now (Some u) i body db)) = rules_beyond u db"
proof -
  have same: "rules_beyond u (snd (UpdateAlertRule uuid now i req db)) = rules_beyond u db"
    if cur: "GetAlertRule uuid i db = Inr cur" "canAccessAlertRuleCluster u (ar_ClusterID cur)"
      and new: "canAccessAlertRuleCluster u (ar_ClusterID (updated_rule req cur))" for cur req
  proof (cases "read_cluster uuid (ar_ClusterID (updated_rule req cur))")
    case (Some c)
    have "canAccessAlertRuleCluster u c" by (rule read_cluster_accessible [OF assms(1) Some new])
    moreover have "cur \<in> set (ab_rules db)" using GetAlertRule_found [OF cur(1)] by simp
    ultimately show ?thesis
      using cur Some filter_other_rule(1) [of "\<lambda>r. \<not> canAccessAlertRuleCluster u (ar_ClusterID r)" cur "ab_rules db"] assms(2)
      by (auto simp: UpdateAlertRule_def Let_def rules_beyond_def alerts_ok_def)
  qed (use cur in \<open>simp add: UpdateAlertRule_def\<close>)
  have moved: "canAccessAlertRuleCluster u (ar_ClusterID (updated_rule req cur))"
    if "canAccessAlertRuleCluster u (ar_ClusterID cur)"
      "\<not> ((ru_ClearCluster req \<or> ru_ClusterID req = Some []) \<and> \<not> canManageGlobalAlertRules u)"
      "\<not> (\<not> (ru_ClearCluster req \<or> ru_ClusterID req = Some []) \<and>
         (case ru_ClusterID req of None \<Rightarrow> False | Some c \<Rightarrow> \<not> CanAccessCluster u c))" for cur req
    using that by (auto simp: updated_rule_def updated_def canAccessAlertRuleCluster_def split: option.splits if_splits)
  show ?thesis
    by (auto simp: alerts_UpdateRule_def Let_def split: sum.split option.split intro!: same moved)
qed

lemma delete_rule_beyond:
  assumes "canonical_rules uuid u db" "alerts_ok db"
  shows "rules_beyond u (snd (alerts_DeleteRule uuid (Some u) i db)) = rules_beyond u db"
proof -
  have "rules_beyond u (snd (DeleteAlertRule uuid i db)) = rules_beyond u db"
    if cur: "GetAlertRule uuid i db = Inr cur" "canAccessAlertRuleCluster u (ar_ClusterID cur)" for cur
    using GetAlertRule_found [OF cur(1)] cur(2) assms(2)
      filter_other_rule(2) [of "\<lambda>r. \<not> canAccessAlertRuleCluster u (ar_ClusterID r)" cur "ab_rules db" cur]
    by (auto simp: DeleteAlertRule_def rules_beyond_def alerts_ok_def)
  then show ?thesis
    by (auto simp: alerts_DeleteRule_def split: sum.split)
qed

text \<open>Whoever manages rules changes none in a cluster beyond its own: creating, changing, moving or deleting a rule leaves all rules of other clusters as they were, and the rules for all clusters too, unless the actor has them all.\<close>

theorem rules_confined:
  assumes "canonical_rules uuid u db" "alerts_ok db"
    and "db' \<in> {snd (alerts_CreateRule uuid newID now (Some u) c_body db),
                snd (alerts_UpdateRule uuid now (Some u) i u_body db), snd (alerts_DeleteRule uuid (Some u) i db)}"
  shows "rules_beyond u db' = rules_beyond u db"
  using assms create_rule_beyond update_rule_beyond delete_rule_beyond by blast

lemma rules_confined_witness:
  "let uuid = (\<lambda>s. if s \<in> {''c1'', ''c2''} then Some s else None);
       u = scoped_manager;
       db = \<lparr>ab_rules = [cpu_rule ''r1'' ''c2'' True], ab_alerts = [], ab_clusters = [''c1'', ''c2'']\<rparr>
   in rules_beyond u (snd (alerts_DeleteRule uuid (Some u) ''r1'' db)) = [cpu_rule ''r1'' ''c2'' True]"
proof -
  let ?uuid = "\<lambda>s. if s \<in> {''c1'', ''c2''} then Some s else None"
  let ?db = "\<lparr>ab_rules = [cpu_rule ''r1'' ''c2'' True], ab_alerts = [], ab_clusters = [''c1'', ''c2'']\<rparr>"
  have "canonical_rules ?uuid scoped_manager ?db" by (auto simp: canonical_rules_def cpu_rule_def)
  moreover have "alerts_ok ?db" by (simp add: cpu_rule_simps)
  moreover have "\<not> canAccessAlertRuleCluster scoped_manager ''c2''" by code_simp
  then have "rules_beyond scoped_manager ?db = [cpu_rule ''r1'' ''c2'' True]" by (simp add: rules_beyond_def cpu_rule_def)
  ultimately show ?thesis
    using rules_confined [of ?uuid scoped_manager ?db, where db' = "snd (alerts_DeleteRule ?uuid (Some scoped_manager) ''r1'' ?db)"
        and i = "''r1''"]
    by (simp add: Let_def)
qed

subsection \<open>Recipients of a mail\<close>

definition eligible :: "string \<Rightarrow> User \<Rightarrow> bool" where
  "eligible c v \<longleftrightarrow> \<not> IsPlaceholderEmail (TrimSpace (u_Email v)) \<and> CanAccessCluster v c"

definition mail_address :: "User \<Rightarrow> string" where
  "mail_address v = TrimSpace (u_Email v)"

lemma collect_emails_spec:
  assumes "set seen = ToLower ` set out" "distinct (map ToLower out)"
  shows "distinct (map ToLower (collect_emails c seen out us)) \<and>
    ToLower ` set (collect_emails c seen out us) = ToLower ` set out \<union> (\<lambda>v. ToLower (mail_address v)) ` {v \<in> set us. eligible c v} \<and>
    set (collect_emails c seen out us) \<subseteq> set out \<union> mail_address ` {v \<in> set us. eligible c v}"
  using assms
proof (induction c seen out us rule: collect_emails.induct)
  case (2 c seen out user users)
  let ?e = "mail_address user"
  show ?case
  proof (cases "eligible c user \<and> ToLower ?e \<notin> set seen")
    case True
    then have run: "collect_emails c seen out (user # users) = collect_emails c (ToLower ?e # seen) (out @ [?e]) users"
      by (simp add: eligible_def mail_address_def Let_def)
    have "distinct (map ToLower (collect_emails c (ToLower ?e # seen) (out @ [?e]) users)) \<and>
      ToLower ` set (collect_emails c (ToLower ?e # seen) (out @ [?e]) users) =
        ToLower ` set (out @ [?e]) \<union> (\<lambda>v. ToLower (mail_address v)) ` {v \<in> set users. eligible c v} \<and>
      set (collect_emails c (ToLower ?e # seen) (out @ [?e]) users) \<subseteq>
        set (out @ [?e]) \<union> mail_address ` {v \<in> set users. eligible c v}"
      using 2 True by (simp add: eligible_def mail_address_def Let_def image_iff)
    then show ?thesis using True unfolding run by auto
  next
    case False
    then have "collect_emails c seen out (user # users) = collect_emails c seen out users"
      by (auto simp: eligible_def mail_address_def Let_def)
    moreover have "{v \<in> set (user # users). eligible c v} = (if eligible c user then {user} else {}) \<union> {v \<in> set users. eligible c v}"
      by auto
    ultimately show ?thesis
      using 2 False by (auto simp: eligible_def mail_address_def Let_def image_iff split: if_splits)
  qed
qed simp

text \<open>The mail about an alert goes to exactly the addresses of the users that have access to its cluster, each once whatever its case, and to no placeholder address.\<close>

theorem recipients_exact:
  "\<exists>out. fst (recipientEmails now (Inr users) c []) = Inr out \<and> distinct (map ToLower out) \<and>
     ToLower ` set out = (\<lambda>v. ToLower (mail_address v)) ` {v \<in> set users. eligible c v} \<and>
     set out \<subseteq> mail_address ` {v \<in> set users. eligible c v}"
  using collect_emails_spec [of "[]" "[]" c users] by (simp add: recipientEmails_def Let_def)

end
