(* ===== verification/Js_Config.thy ===== *)
theory Js_Config
  imports Numbers
begin

text \<open>
  Configurations of streams, consumers and buckets: what a request may say
  (\<^verbatim>\<open>api/apikit/natsconfig.go\<close>, \<^verbatim>\<open>api/jetstream/requests.go\<close>, \<^verbatim>\<open>api/kvobj/requests.go\<close>), how it becomes
  a configuration of the NATS library, and how such a configuration is shown again
  (\<^verbatim>\<open>domain/jetstream_nats.go\<close>, \<^verbatim>\<open>jetstream_enums.go\<close>, \<^verbatim>\<open>jetstream.go\<close>).

  The types of the library are records with the fields the code sets and reads.  Its enumerations have
  the constants the code names and one value for all others.  How the library reads the text of an
  enumeration, its zero values, and the parsing and printing of times are the record \<open>JsLib\<close>.  A
  pointer is an option, a nil slice an empty list, \<^verbatim>\<open>int64\<close> and \<^verbatim>\<open>int\<close> are \<^typ>\<open>int\<close>.
\<close>

section \<open>Enumerations\<close>

datatype RetentionPolicy = LimitsPolicy | InterestPolicy | WorkQueuePolicy | OtherRetention
datatype StorageType = FileStorage | MemoryStorage | OtherStorage
datatype DiscardPolicy = DiscardOld | DiscardNew | OtherDiscard
datatype StoreCompression = NoCompression | S2Compression | OtherCompression
datatype DeliverPolicy = DeliverAllPolicy | DeliverLastPolicy | DeliverNewPolicy | DeliverByStartSequencePolicy
  | DeliverByStartTimePolicy | DeliverLastPerSubjectPolicy | OtherDeliver
datatype AckPolicy = AckNonePolicy | AckAllPolicy | AckExplicitPolicy | OtherAck
datatype ReplayPolicy = ReplayInstantPolicy | ReplayOriginalPolicy | OtherReplay

definition retentionPolicyNames :: "(RetentionPolicy, string) gomap" where
  "retentionPolicyNames = [(LimitsPolicy, ''limits''), (InterestPolicy, ''interest''), (WorkQueuePolicy, ''workqueue'')]"

definition storageTypeNames :: "(StorageType, string) gomap" where
  "storageTypeNames = [(FileStorage, ''file''), (MemoryStorage, ''memory'')]"

definition discardPolicyNames :: "(DiscardPolicy, string) gomap" where
  "discardPolicyNames = [(DiscardOld, ''old''), (DiscardNew, ''new'')]"

definition storeCompressionNames :: "(StoreCompression, string) gomap" where
  "storeCompressionNames = [(NoCompression, ''none''), (S2Compression, ''s2'')]"

definition deliverPolicyNames :: "(DeliverPolicy, string) gomap" where
  "deliverPolicyNames = [(DeliverAllPolicy, ''all''), (DeliverLastPolicy, ''last''), (DeliverNewPolicy, ''new''),
     (DeliverByStartSequencePolicy, ''by_start_sequence''), (DeliverByStartTimePolicy, ''by_start_time''),
     (DeliverLastPerSubjectPolicy, ''last_per_subject'')]"

definition ackPolicyNames :: "(AckPolicy, string) gomap" where
  "ackPolicyNames = [(AckNonePolicy, ''none''), (AckAllPolicy, ''all''), (AckExplicitPolicy, ''explicit'')]"

definition replayPolicyNames :: "(ReplayPolicy, string) gomap" where
  "replayPolicyNames = [(ReplayInstantPolicy, ''instant''), (ReplayOriginalPolicy, ''original'')]"

text \<open>\<^verbatim>\<open>enumString\<close>, for each of the seven types: the name, or nothing.\<close>

definition enumString :: "('e, string) gomap \<Rightarrow> 'e \<Rightarrow> string" where
  "enumString names v = (case map_of names v of None \<Rightarrow> [] | Some n \<Rightarrow> n)"

definition StorageTypeString :: "StorageType \<Rightarrow> string" where
  "StorageTypeString v = (case map_of storageTypeNames v of None \<Rightarrow> ''file'' | Some n \<Rightarrow> n)"

text \<open>The library: \<^verbatim>\<open>UnmarshalEnum\<close> at each type, the zero values, and times.\<close>

record JsLib =
  nl_Retention :: "string \<Rightarrow> RetentionPolicy option"
  nl_Storage :: "string \<Rightarrow> StorageType option"
  nl_Discard :: "string \<Rightarrow> DiscardPolicy option"
  nl_Compression :: "string \<Rightarrow> StoreCompression option"
  nl_Deliver :: "string \<Rightarrow> DeliverPolicy option"
  nl_Ack :: "string \<Rightarrow> AckPolicy option"
  nl_Replay :: "string \<Rightarrow> ReplayPolicy option"
  nl_zeroRetention :: RetentionPolicy
  nl_zeroDiscard :: DiscardPolicy
  nl_zeroCompression :: StoreCompression
  nl_zeroDeliver :: DeliverPolicy
  nl_zeroAck :: AckPolicy
  nl_zeroReplay :: ReplayPolicy
  nl_parseNano :: "string \<Rightarrow> gotime option"
  nl_parseRFC3339 :: "string \<Rightarrow> gotime option"
  nl_format :: "gotime \<Rightarrow> string"

datatype config_error =
    MaxMsgSizeOutOfRange
  | BadStartTime
  | InMirror config_error
  | InSource nat config_error
  | BadEnum string
  | BackoffNotPositive nat
  | StartSeqRequired
  | StartTimeRequired
  | BadReplicas
  | BadHistory

definition bind_ok :: "('e, 'a) result \<Rightarrow> ('a \<Rightarrow> ('e, 'b) result) \<Rightarrow> ('e, 'b) result" where
  "bind_ok r f = (case r of Inl e \<Rightarrow> Inl e | Inr a \<Rightarrow> f a)"

definition UnmarshalEnum :: "string \<Rightarrow> (string \<Rightarrow> 'e option) \<Rightarrow> string \<Rightarrow> (config_error, 'e) result" where
  "UnmarshalEnum what unmarshal v = (case unmarshal v of None \<Rightarrow> Inl (BadEnum what) | Some e \<Rightarrow> Inr e)"

text \<open>An enumeration of a request: the value that stays when the text is empty, or what the text says.\<close>

definition enum_field ::
  "string \<Rightarrow> (string \<Rightarrow> 'e option) \<Rightarrow> 'e \<Rightarrow> string \<Rightarrow> (config_error, 'e) result" where
  "enum_field what unmarshal zero v = (if \<not> IsEmpty v then UnmarshalEnum what unmarshal v else Inr zero)"

section \<open>Fragments of configurations\<close>

record StreamPlacementRequest =
  pl_Cluster :: string
  pl_Tags :: "string list"

record StreamExternalRequest =
  ex_APIPrefix :: string
  ex_DeliverPrefix :: string

record StreamSourceRequest =
  so_External :: "StreamExternalRequest option"
  so_Name :: string
  so_FilterSubject :: string
  so_OptStartTime :: string
  so_OptStartSeq :: u64

record SubjectTransformRequest =
  tr_Source :: string
  tr_Destination :: string

record RePublishRequest =
  rp_Source :: string
  rp_Destination :: string
  rp_HeadersOnly :: bool

record ConsumerLimitsRequest =
  li_InactiveThreshold :: int
  li_MaxAckPending :: int

text \<open>
  The library's source of a stream; its placement, external prefixes, transformation, republication and
  limits have the fields of the fragments of requests, and so have the ones that are shown.
\<close>

record StreamSource =
  ns_Name :: string
  ns_OptStartSeq :: u64
  ns_OptStartTime :: "gotime option"
  ns_FilterSubject :: string
  ns_External :: "StreamExternalRequest option"

definition parse_start :: "JsLib \<Rightarrow> string \<Rightarrow> (config_error, gotime option) result" where
  "parse_start L s =
     (if \<not> IsEmpty (TrimSpace s) then
        (case nl_parseNano L s of
           Some t \<Rightarrow> Inr (Some t)
         | None \<Rightarrow> (case nl_parseRFC3339 L s of Some t \<Rightarrow> Inr (Some t) | None \<Rightarrow> Inl BadStartTime))
      else Inr None)"

definition source_ToNATS :: "JsLib \<Rightarrow> StreamSourceRequest \<Rightarrow> (config_error, StreamSource) result" where
  "source_ToNATS L r =
     bind_ok (parse_start L (so_OptStartTime r)) (\<lambda>start.
       Inr \<lparr>ns_Name = so_Name r, ns_OptStartSeq = so_OptStartSeq r, ns_OptStartTime = start,
            ns_FilterSubject = so_FilterSubject r,
            ns_External = (case so_External r of
                None \<Rightarrow> None
              | Some e \<Rightarrow> if \<not> IsEmpty (ex_APIPrefix e) \<or> \<not> IsEmpty (ex_DeliverPrefix e) then Some e else None)\<rparr>)"

definition ToNATSPlacement :: "StreamPlacementRequest option \<Rightarrow> StreamPlacementRequest option" where
  "ToNATSPlacement r =
     (case r of None \<Rightarrow> None | Some p \<Rightarrow> if IsEmpty (pl_Cluster p) \<and> pl_Tags p = [] then None else Some p)"

definition ToNATSRePublish :: "RePublishRequest option \<Rightarrow> RePublishRequest option" where
  "ToNATSRePublish r =
     (case r of None \<Rightarrow> None | Some p \<Rightarrow> if IsEmpty (rp_Destination p) then None else Some p)"

fun sources_from :: "JsLib \<Rightarrow> nat \<Rightarrow> StreamSourceRequest list \<Rightarrow> (config_error, StreamSource list) result" where
  "sources_from L i [] = Inr []"
| "sources_from L i (r # rs) =
     (if IsEmpty (TrimSpace (so_Name r)) then sources_from L (Suc i) rs
      else (case source_ToNATS L r of
              Inl e \<Rightarrow> Inl (InSource i e)
            | Inr src \<Rightarrow> bind_ok (sources_from L (Suc i) rs) (\<lambda>out. Inr (src # out))))"

definition SourcesToNATS :: "JsLib \<Rightarrow> StreamSourceRequest list \<Rightarrow> (config_error, StreamSource list) result" where
  "SourcesToNATS L sources = sources_from L 0 sources"

text \<open>\<^verbatim>\<open>CloneStringMap\<close> copies; an empty map and nil are the same here.\<close>

definition CloneStringMap :: "(string, string) gomap \<Rightarrow> (string, string) gomap" where
  "CloneStringMap m = (if length m = 0 then [] else m)"

section \<open>Streams\<close>

record streamConfigRequest =
  rs_Name :: string
  rs_Description :: string
  rs_Subjects :: "string list"
  rs_Retention :: string
  rs_Storage :: string
  rs_Discard :: string
  rs_Compression :: string
  rs_MaxMsgs :: int
  rs_MaxBytes :: int
  rs_MaxAge :: int
  rs_MaxConsumers :: int
  rs_MaxMsgSize :: int
  rs_MaxMsgsPerSubject :: int
  rs_Replicas :: int
  rs_Duplicates :: int
  rs_FirstSeq :: u64
  rs_SubjectDeleteMarkerTTL :: int
  rs_AllowRollup :: "bool option"
  rs_DenyDelete :: "bool option"
  rs_DenyPurge :: "bool option"
  rs_DiscardNewPerSubject :: "bool option"
  rs_NoAck :: "bool option"
  rs_Sealed :: "bool option"
  rs_AllowDirect :: "bool option"
  rs_MirrorDirect :: "bool option"
  rs_AllowMsgTTL :: "bool option"
  rs_Metadata :: "(string, string) gomap"
  rs_Placement :: "StreamPlacementRequest option"
  rs_Mirror :: "StreamSourceRequest option"
  rs_Sources :: "StreamSourceRequest list"
  rs_SubjectTransform :: "SubjectTransformRequest option"
  rs_RePublish :: "RePublishRequest option"
  rs_ConsumerLimits :: "ConsumerLimitsRequest option"

record StreamConfig =
  nc_Name :: string
  nc_Description :: string
  nc_Subjects :: "string list"
  nc_Retention :: RetentionPolicy
  nc_Storage :: StorageType
  nc_Discard :: DiscardPolicy
  nc_Compression :: StoreCompression
  nc_MaxMsgs :: int
  nc_MaxBytes :: int
  nc_MaxAge :: duration
  nc_MaxConsumers :: int
  nc_MaxMsgSize :: int
  nc_MaxMsgsPerSubject :: int
  nc_Replicas :: int
  nc_Duplicates :: duration
  nc_FirstSeq :: u64
  nc_SubjectDeleteMarkerTTL :: duration
  nc_AllowRollup :: bool
  nc_DenyDelete :: bool
  nc_DenyPurge :: bool
  nc_DiscardNewPerSubject :: bool
  nc_NoAck :: bool
  nc_Sealed :: bool
  nc_AllowDirect :: bool
  nc_MirrorDirect :: bool
  nc_AllowMsgTTL :: bool
  nc_Metadata :: "(string, string) gomap"
  nc_Placement :: "StreamPlacementRequest option"
  nc_Mirror :: "StreamSource option"
  nc_Sources :: "StreamSource list"
  nc_SubjectTransform :: "SubjectTransformRequest option"
  nc_RePublish :: "RePublishRequest option"
  nc_ConsumerLimits :: ConsumerLimitsRequest

definition no_limits :: ConsumerLimitsRequest where
  "no_limits = \<lparr>li_InactiveThreshold = 0, li_MaxAckPending = 0\<rparr>"

text \<open>The conversion \<^verbatim>\<open>int32\<close>, which keeps the low 32 bits.\<close>

definition int32 :: "int \<Rightarrow> int" where
  "int32 n = sint (word_of_int n :: 32 word)"

definition msg_size :: "int \<Rightarrow> (config_error, int) result" where
  "msg_size n =
     (if n \<noteq> 0 then
        (if n < - (2 ^ 31) \<or> n > 2 ^ 31 - 1 then Inl MaxMsgSizeOutOfRange else Inr (int32 n))
      else Inr 0)"

definition flag :: "bool \<Rightarrow> bool option \<Rightarrow> bool" where
  "flag unset p = (case p of None \<Rightarrow> unset | Some b \<Rightarrow> b)"

text \<open>A mirror takes the subjects away.\<close>

definition mirror_field ::
  "JsLib \<Rightarrow> streamConfigRequest \<Rightarrow> (config_error, StreamSource option \<times> string list) result" where
  "mirror_field L r =
     (case rs_Mirror r of
        None \<Rightarrow> Inr (None, rs_Subjects r)
      | Some m \<Rightarrow>
          if \<not> IsEmpty (so_Name m) then
            (case source_ToNATS L m of Inl e \<Rightarrow> Inl (InMirror e) | Inr src \<Rightarrow> Inr (Some src, []))
          else Inr (None, rs_Subjects r))"

definition transform_field :: "SubjectTransformRequest option \<Rightarrow> SubjectTransformRequest option" where
  "transform_field r = (case r of None \<Rightarrow> None | Some t \<Rightarrow> if \<not> IsEmpty (tr_Destination t) then Some t else None)"

definition limits_field :: "ConsumerLimitsRequest option \<Rightarrow> ConsumerLimitsRequest" where
  "limits_field r =
     (case r of
        None \<Rightarrow> no_limits
      | Some l \<Rightarrow> if li_InactiveThreshold l > 0 \<or> li_MaxAckPending l \<noteq> 0 then l else no_limits)"

text \<open>The literal of the configuration, from the request and what has been read of it.\<close>

definition stream_config ::
  "streamConfigRequest \<Rightarrow> int \<Rightarrow> StreamSource option \<Rightarrow> string list \<Rightarrow> StreamSource list \<Rightarrow> RetentionPolicy \<Rightarrow>
     StorageType \<Rightarrow> DiscardPolicy \<Rightarrow> StoreCompression \<Rightarrow> StreamConfig" where
  "stream_config r maxMsgSize mirror subjects sources retention storage discard compression =
     (let replicas = (if rs_Replicas r \<le> 0 then 1 else rs_Replicas r) in
     \<lparr>nc_Name = rs_Name r, nc_Description = rs_Description r, nc_Subjects = subjects,
      nc_Retention = retention, nc_Storage = storage, nc_Discard = discard, nc_Compression = compression,
      nc_MaxMsgs = rs_MaxMsgs r, nc_MaxBytes = rs_MaxBytes r, nc_MaxAge = rs_MaxAge r,
      nc_MaxConsumers = rs_MaxConsumers r, nc_MaxMsgSize = maxMsgSize,
      nc_MaxMsgsPerSubject = rs_MaxMsgsPerSubject r, nc_Replicas = replicas,
      nc_Duplicates = rs_Duplicates r, nc_FirstSeq = rs_FirstSeq r,
      nc_SubjectDeleteMarkerTTL = rs_SubjectDeleteMarkerTTL r,
      nc_AllowRollup = flag True (rs_AllowRollup r), nc_DenyDelete = flag False (rs_DenyDelete r),
      nc_DenyPurge = flag False (rs_DenyPurge r),
      nc_DiscardNewPerSubject = flag False (rs_DiscardNewPerSubject r), nc_NoAck = flag False (rs_NoAck r),
      nc_Sealed = flag False (rs_Sealed r), nc_AllowDirect = flag False (rs_AllowDirect r),
      nc_MirrorDirect = flag False (rs_MirrorDirect r), nc_AllowMsgTTL = flag False (rs_AllowMsgTTL r),
      nc_Metadata = CloneStringMap (rs_Metadata r), nc_Placement = ToNATSPlacement (rs_Placement r),
      nc_Mirror = mirror, nc_Sources = sources, nc_SubjectTransform = transform_field (rs_SubjectTransform r),
      nc_RePublish = ToNATSRePublish (rs_RePublish r),
      nc_ConsumerLimits = limits_field (rs_ConsumerLimits r)\<rparr>)"

definition stream_toNATS :: "JsLib \<Rightarrow> streamConfigRequest \<Rightarrow> (config_error, StreamConfig) result" where
  "stream_toNATS L r =
     (bind_ok (msg_size (rs_MaxMsgSize r)) (\<lambda>maxMsgSize.
      bind_ok (mirror_field L r) (\<lambda>mirror.
      bind_ok (SourcesToNATS L (rs_Sources r)) (\<lambda>sources.
      bind_ok (enum_field ''retention'' (nl_Retention L) (nl_zeroRetention L) (rs_Retention r)) (\<lambda>retention.
      bind_ok (enum_field ''storage'' (nl_Storage L) FileStorage (rs_Storage r)) (\<lambda>storage.
      bind_ok (enum_field ''discard'' (nl_Discard L) (nl_zeroDiscard L) (rs_Discard r)) (\<lambda>discard.
      bind_ok (enum_field ''compression'' (nl_Compression L) (nl_zeroCompression L) (rs_Compression r)) (\<lambda>compression.
      Inr (stream_config r maxMsgSize (fst mirror) (snd mirror) sources retention storage discard compression)))))))))"

section \<open>Consumers\<close>

record consumerConfigRequest =
  rc_DurableName :: string
  rc_Name :: string
  rc_Description :: string
  rc_DeliverPolicy :: string
  rc_AckPolicy :: string
  rc_FilterSubject :: string
  rc_FilterSubjects :: "string list"
  rc_OptStartTime :: string
  rc_ReplayPolicy :: string
  rc_SampleFreq :: string
  rc_DeliverSubject :: string
  rc_DeliverGroup :: string
  rc_Metadata :: "(string, string) gomap"
  rc_BackoffNs :: "int list"
  rc_OptStartSeq :: u64
  rc_AckWaitNs :: int
  rc_InactiveThresholdNs :: int
  rc_MaxRequestExpiresNs :: int
  rc_HeartbeatNs :: int
  rc_RateLimitBps :: u64
  rc_MaxDeliver :: int
  rc_MaxAckPending :: int
  rc_MaxWaiting :: int
  rc_MaxRequestBatch :: int
  rc_MaxRequestMaxBytes :: int
  rc_Replicas :: int
  rc_FlowControl :: bool
  rc_HeadersOnly :: bool
  rc_MemoryStorage :: bool

record ConsumerConfig =
  cf_Durable :: string
  cf_Name :: string
  cf_Description :: string
  cf_DeliverPolicy :: DeliverPolicy
  cf_AckPolicy :: AckPolicy
  cf_FilterSubject :: string
  cf_FilterSubjects :: "string list"
  cf_OptStartTime :: "gotime option"
  cf_ReplayPolicy :: ReplayPolicy
  cf_SampleFrequency :: string
  cf_DeliverSubject :: string
  cf_DeliverGroup :: string
  cf_Metadata :: "(string, string) gomap"
  cf_BackOff :: "duration list"
  cf_OptStartSeq :: u64
  cf_AckWait :: duration
  cf_InactiveThreshold :: duration
  cf_MaxRequestExpires :: duration
  cf_Heartbeat :: duration
  cf_RateLimit :: u64
  cf_MaxDeliver :: int
  cf_MaxAckPending :: int
  cf_MaxWaiting :: int
  cf_MaxRequestBatch :: int
  cf_MaxRequestMaxBytes :: int
  cf_Replicas :: int
  cf_FlowControl :: bool
  cf_HeadersOnly :: bool
  cf_MemoryStorage :: bool

fun backoff_from :: "nat \<Rightarrow> int list \<Rightarrow> (config_error, duration list) result" where
  "backoff_from i [] = Inr []"
| "backoff_from i (ns # rest) =
     (if ns \<le> 0 then Inl (BackoffNotPositive i)
      else bind_ok (backoff_from (Suc i) rest) (\<lambda>out. Inr (ns # out)))"

text \<open>A policy that starts somewhere needs to be told where.\<close>

definition check_policy :: "DeliverPolicy \<Rightarrow> u64 \<Rightarrow> gotime option \<Rightarrow> config_error option" where
  "check_policy policy startSeq startTime =
     (case policy of
        DeliverByStartSequencePolicy \<Rightarrow> if startSeq = 0 then Some StartSeqRequired else None
      | DeliverByStartTimePolicy \<Rightarrow> if startTime = None then Some StartTimeRequired else None
      | _ \<Rightarrow> None)"

definition consumer_config ::
  "consumerConfigRequest \<Rightarrow> DeliverPolicy \<Rightarrow> AckPolicy \<Rightarrow> ReplayPolicy \<Rightarrow> gotime option \<Rightarrow> duration list \<Rightarrow> ConsumerConfig" where
  "consumer_config r deliver ack replay start backoff =
     \<lparr>cf_Durable = rc_DurableName r, cf_Name = rc_Name r, cf_Description = rc_Description r,
      cf_DeliverPolicy = deliver, cf_AckPolicy = ack, cf_FilterSubject = rc_FilterSubject r,
      cf_FilterSubjects = rc_FilterSubjects r, cf_OptStartTime = start, cf_ReplayPolicy = replay,
      cf_SampleFrequency = rc_SampleFreq r, cf_DeliverSubject = rc_DeliverSubject r,
      cf_DeliverGroup = rc_DeliverGroup r, cf_Metadata = CloneStringMap (rc_Metadata r),
      cf_BackOff = backoff, cf_OptStartSeq = rc_OptStartSeq r, cf_AckWait = rc_AckWaitNs r,
      cf_InactiveThreshold = rc_InactiveThresholdNs r, cf_MaxRequestExpires = rc_MaxRequestExpiresNs r,
      cf_Heartbeat = rc_HeartbeatNs r, cf_RateLimit = rc_RateLimitBps r, cf_MaxDeliver = rc_MaxDeliver r,
      cf_MaxAckPending = rc_MaxAckPending r, cf_MaxWaiting = rc_MaxWaiting r,
      cf_MaxRequestBatch = rc_MaxRequestBatch r, cf_MaxRequestMaxBytes = rc_MaxRequestMaxBytes r,
      cf_Replicas = rc_Replicas r, cf_FlowControl = rc_FlowControl r, cf_HeadersOnly = rc_HeadersOnly r,
      cf_MemoryStorage = rc_MemoryStorage r\<rparr>"

definition consumer_toNATS :: "JsLib \<Rightarrow> consumerConfigRequest \<Rightarrow> (config_error, ConsumerConfig) result" where
  "consumer_toNATS L r =
     (bind_ok (enum_field ''deliverPolicy'' (nl_Deliver L) (nl_zeroDeliver L) (rc_DeliverPolicy r)) (\<lambda>deliver.
      bind_ok (enum_field ''ackPolicy'' (nl_Ack L) (nl_zeroAck L) (rc_AckPolicy r)) (\<lambda>ack.
      bind_ok (enum_field ''replayPolicy'' (nl_Replay L) (nl_zeroReplay L) (rc_ReplayPolicy r)) (\<lambda>replay.
      bind_ok (parse_start L (rc_OptStartTime r)) (\<lambda>start.
      bind_ok (backoff_from 0 (rc_BackoffNs r)) (\<lambda>backoff.
      case check_policy deliver (rc_OptStartSeq r) start of
        Some e \<Rightarrow> Inl e
      | None \<Rightarrow> Inr (consumer_config r deliver ack replay start backoff)))))))"

section \<open>Buckets\<close>

record kvBucketConfigRequest =
  rk_Bucket :: string
  rk_Description :: string
  rk_Storage :: string
  rk_Placement :: "StreamPlacementRequest option"
  rk_Metadata :: "(string, string) gomap"
  rk_Mirror :: "StreamSourceRequest option"
  rk_RePublish :: "RePublishRequest option"
  rk_Sources :: "StreamSourceRequest list"
  rk_TTLNs :: int
  rk_Replicas :: int
  rk_MaxBytes :: int
  rk_LimitMarkerTTLNs :: int
  rk_MaxValueSize :: int
  rk_History :: "8 word"
  rk_Compression :: bool

record KeyValueConfig =
  kv_Bucket :: string
  kv_Description :: string
  kv_History :: "8 word"
  kv_TTL :: duration
  kv_MaxValueSize :: int
  kv_MaxBytes :: int
  kv_Replicas :: int
  kv_Compression :: bool
  kv_Storage :: StorageType
  kv_Placement :: "StreamPlacementRequest option"
  kv_RePublish :: "RePublishRequest option"
  kv_Mirror :: "StreamSource option"
  kv_Sources :: "StreamSource list"

definition kv_mirror :: "JsLib \<Rightarrow> StreamSourceRequest option \<Rightarrow> (config_error, StreamSource option) result" where
  "kv_mirror L r =
     (case r of
        None \<Rightarrow> Inr None
      | Some m \<Rightarrow> if \<not> IsEmpty (TrimSpace (so_Name m)) then
                    (case source_ToNATS L m of Inl e \<Rightarrow> Inl (InMirror e) | Inr src \<Rightarrow> Inr (Some src))
                  else Inr None)"

definition toKVConfig :: "JsLib \<Rightarrow> kvBucketConfigRequest \<Rightarrow> (config_error, KeyValueConfig) result" where
  "toKVConfig L r =
     (let replicas = (if rk_Replicas r \<le> 0 then 1 else rk_Replicas r);
          history = (if rk_History r = 0 then 1 else rk_History r) in
      if replicas \<noteq> 1 \<and> replicas \<noteq> 3 \<and> replicas \<noteq> 5 then Inl BadReplicas
      else if history > 64 then Inl BadHistory
      else
        bind_ok (enum_field ''storage'' (nl_Storage L) FileStorage (rk_Storage r)) (\<lambda>storage.
        bind_ok (kv_mirror L (rk_Mirror r)) (\<lambda>mirror.
        bind_ok (SourcesToNATS L (rk_Sources r)) (\<lambda>sources.
        Inr \<lparr>kv_Bucket = rk_Bucket r, kv_Description = rk_Description r, kv_History = history,
             kv_TTL = rk_TTLNs r, kv_MaxValueSize = rk_MaxValueSize r, kv_MaxBytes = rk_MaxBytes r,
             kv_Replicas = replicas, kv_Compression = rk_Compression r, kv_Storage = storage,
             kv_Placement = ToNATSPlacement (rk_Placement r), kv_RePublish = ToNATSRePublish (rk_RePublish r),
             kv_Mirror = mirror, kv_Sources = sources\<rparr>))))"

record objectBucketConfigRequest =
  ro_Bucket :: string
  ro_Description :: string
  ro_Storage :: string
  ro_Placement :: "StreamPlacementRequest option"
  ro_Metadata :: "(string, string) gomap"
  ro_TTLNs :: int
  ro_MaxBytes :: int
  ro_Replicas :: int
  ro_Compression :: bool

record ObjectStoreConfig =
  ob_Bucket :: string
  ob_Description :: string
  ob_TTL :: duration
  ob_MaxBytes :: int
  ob_Storage :: StorageType
  ob_Replicas :: int
  ob_Placement :: "StreamPlacementRequest option"
  ob_Metadata :: "(string, string) gomap"
  ob_Compression :: bool

definition toObjectConfig :: "JsLib \<Rightarrow> objectBucketConfigRequest \<Rightarrow> (config_error, ObjectStoreConfig) result" where
  "toObjectConfig L r =
     (let replicas = (if ro_Replicas r \<le> 0 then 1 else ro_Replicas r) in
      if replicas \<noteq> 1 \<and> replicas \<noteq> 3 \<and> replicas \<noteq> 5 then Inl BadReplicas
      else
        bind_ok (enum_field ''storage'' (nl_Storage L) FileStorage (ro_Storage r)) (\<lambda>storage.
        Inr \<lparr>ob_Bucket = ro_Bucket r, ob_Description = ro_Description r, ob_TTL = ro_TTLNs r,
             ob_MaxBytes = ro_MaxBytes r, ob_Storage = storage, ob_Replicas = replicas,
             ob_Placement = ToNATSPlacement (ro_Placement r), ob_Metadata = ro_Metadata r,
             ob_Compression = ro_Compression r\<rparr>))"

section \<open>What is shown\<close>

definition streamSourceFromNATS :: "JsLib \<Rightarrow> StreamSource \<Rightarrow> StreamSourceRequest" where
  "streamSourceFromNATS L src =
     \<lparr>so_External = ns_External src, so_Name = ns_Name src, so_FilterSubject = ns_FilterSubject src,
      so_OptStartTime = (case ns_OptStartTime src of None \<Rightarrow> [] | Some t \<Rightarrow> nl_format L t),
      so_OptStartSeq = ns_OptStartSeq src\<rparr>"

text \<open>
  \<^verbatim>\<open>StreamConfigDTO\<close> has the fields of a request, with plain flags, and in JSON under the same keys: the
  flags are always written, the other fields when they are not zero, which is how they are read when they
  are absent.  So a client that sends back what it was shown sends this request.
\<close>

definition streamConfigFromNATS :: "JsLib \<Rightarrow> StreamConfig \<Rightarrow> streamConfigRequest" where
  "streamConfigFromNATS L cfg =
     \<lparr>rs_Name = nc_Name cfg, rs_Description = nc_Description cfg, rs_Subjects = nc_Subjects cfg,
      rs_Retention = enumString retentionPolicyNames (nc_Retention cfg),
      rs_Storage = enumString storageTypeNames (nc_Storage cfg),
      rs_Discard = enumString discardPolicyNames (nc_Discard cfg),
      rs_Compression = enumString storeCompressionNames (nc_Compression cfg),
      rs_MaxMsgs = nc_MaxMsgs cfg, rs_MaxBytes = nc_MaxBytes cfg, rs_MaxAge = nc_MaxAge cfg,
      rs_MaxConsumers = nc_MaxConsumers cfg, rs_MaxMsgSize = nc_MaxMsgSize cfg,
      rs_MaxMsgsPerSubject = nc_MaxMsgsPerSubject cfg, rs_Replicas = nc_Replicas cfg,
      rs_Duplicates = nc_Duplicates cfg, rs_FirstSeq = nc_FirstSeq cfg,
      rs_SubjectDeleteMarkerTTL = nc_SubjectDeleteMarkerTTL cfg,
      rs_AllowRollup = Some (nc_AllowRollup cfg), rs_DenyDelete = Some (nc_DenyDelete cfg),
      rs_DenyPurge = Some (nc_DenyPurge cfg), rs_DiscardNewPerSubject = Some (nc_DiscardNewPerSubject cfg),
      rs_NoAck = Some (nc_NoAck cfg), rs_Sealed = Some (nc_Sealed cfg), rs_AllowDirect = Some (nc_AllowDirect cfg),
      rs_MirrorDirect = Some (nc_MirrorDirect cfg), rs_AllowMsgTTL = Some (nc_AllowMsgTTL cfg),
      rs_Metadata = CloneStringMap (nc_Metadata cfg),
      rs_Placement = (case nc_Placement cfg of
          None \<Rightarrow> None
        | Some p \<Rightarrow> if \<not> IsEmpty (pl_Cluster p) \<or> length (pl_Tags p) > 0 then Some p else None),
      rs_Mirror = map_option (streamSourceFromNATS L) (nc_Mirror cfg),
      rs_Sources = map (streamSourceFromNATS L) (nc_Sources cfg),
      rs_SubjectTransform = (case nc_SubjectTransform cfg of
          None \<Rightarrow> None | Some t \<Rightarrow> if \<not> IsEmpty (tr_Destination t) then Some t else None),
      rs_RePublish = (case nc_RePublish cfg of
          None \<Rightarrow> None | Some p \<Rightarrow> if \<not> IsEmpty (rp_Destination p) then Some p else None),
      rs_ConsumerLimits =
        (if li_InactiveThreshold (nc_ConsumerLimits cfg) > 0 \<or> li_MaxAckPending (nc_ConsumerLimits cfg) \<noteq> 0
         then Some (nc_ConsumerLimits cfg) else None)\<rparr>"

definition consumerConfigFromNATS :: "JsLib \<Rightarrow> ConsumerConfig \<Rightarrow> consumerConfigRequest" where
  "consumerConfigFromNATS L cfg =
     \<lparr>rc_DurableName = cf_Durable cfg, rc_Name = cf_Name cfg, rc_Description = cf_Description cfg,
      rc_DeliverPolicy = enumString deliverPolicyNames (cf_DeliverPolicy cfg),
      rc_AckPolicy = enumString ackPolicyNames (cf_AckPolicy cfg), rc_FilterSubject = cf_FilterSubject cfg,
      rc_FilterSubjects = cf_FilterSubjects cfg,
      rc_OptStartTime = (case cf_OptStartTime cfg of None \<Rightarrow> [] | Some t \<Rightarrow> nl_format L t),
      rc_ReplayPolicy = enumString replayPolicyNames (cf_ReplayPolicy cfg),
      rc_SampleFreq = cf_SampleFrequency cfg, rc_DeliverSubject = cf_DeliverSubject cfg,
      rc_DeliverGroup = cf_DeliverGroup cfg, rc_Metadata = cf_Metadata cfg, rc_BackoffNs = cf_BackOff cfg,
      rc_OptStartSeq = cf_OptStartSeq cfg, rc_AckWaitNs = cf_AckWait cfg,
      rc_InactiveThresholdNs = cf_InactiveThreshold cfg, rc_MaxRequestExpiresNs = cf_MaxRequestExpires cfg,
      rc_HeartbeatNs = cf_Heartbeat cfg, rc_RateLimitBps = cf_RateLimit cfg, rc_MaxDeliver = cf_MaxDeliver cfg,
      rc_MaxAckPending = cf_MaxAckPending cfg, rc_MaxWaiting = cf_MaxWaiting cfg,
      rc_MaxRequestBatch = cf_MaxRequestBatch cfg, rc_MaxRequestMaxBytes = cf_MaxRequestMaxBytes cfg,
      rc_Replicas = cf_Replicas cfg, rc_FlowControl = cf_FlowControl cfg, rc_HeadersOnly = cf_HeadersOnly cfg,
      rc_MemoryStorage = cf_MemoryStorage cfg\<rparr>"

section \<open>Well-formed configurations\<close>

text \<open>What the library documents: its enumerations read the names of the console, have no other zero values
  and read nothing as a value outside their constants; a printed time is read back.\<close>

definition reads_names :: "('e, string) gomap \<Rightarrow> 'e \<Rightarrow> (string \<Rightarrow> 'e option) \<Rightarrow> bool" where
  "reads_names names other unmarshal \<longleftrightarrow>
     (\<forall>(e, n) \<in> set names. unmarshal n = Some e) \<and> (\<forall>s. unmarshal s \<noteq> Some other)"

definition library_ok :: "JsLib \<Rightarrow> bool" where
  "library_ok L \<longleftrightarrow>
     reads_names retentionPolicyNames OtherRetention (nl_Retention L) \<and>
     reads_names storageTypeNames OtherStorage (nl_Storage L) \<and>
     reads_names discardPolicyNames OtherDiscard (nl_Discard L) \<and>
     reads_names storeCompressionNames OtherCompression (nl_Compression L) \<and>
     reads_names deliverPolicyNames OtherDeliver (nl_Deliver L) \<and>
     reads_names ackPolicyNames OtherAck (nl_Ack L) \<and>
     reads_names replayPolicyNames OtherReplay (nl_Replay L) \<and>
     nl_zeroRetention L \<noteq> OtherRetention \<and> nl_zeroDiscard L \<noteq> OtherDiscard \<and>
     nl_zeroCompression L \<noteq> OtherCompression \<and> nl_zeroDeliver L \<noteq> OtherDeliver \<and>
     nl_zeroAck L \<noteq> OtherAck \<and> nl_zeroReplay L \<noteq> OtherReplay \<and>
     (\<forall>t. \<not> IsEmpty (TrimSpace (nl_format L t)) \<and> nl_parseNano L (nl_format L t) = Some t)"

definition source_wf :: "StreamSource \<Rightarrow> bool" where
  "source_wf s \<longleftrightarrow>
     (case ns_External s of None \<Rightarrow> True | Some e \<Rightarrow> \<not> IsEmpty (ex_APIPrefix e) \<or> \<not> IsEmpty (ex_DeliverPrefix e))"

definition placement_wf :: "StreamPlacementRequest option \<Rightarrow> bool" where
  "placement_wf p \<longleftrightarrow> (case p of None \<Rightarrow> True | Some p \<Rightarrow> \<not> IsEmpty (pl_Cluster p) \<or> pl_Tags p \<noteq> [])"

definition republish_wf :: "RePublishRequest option \<Rightarrow> bool" where
  "republish_wf p \<longleftrightarrow> (case p of None \<Rightarrow> True | Some p \<Rightarrow> \<not> IsEmpty (rp_Destination p))"

definition sources_wf :: "StreamSource list \<Rightarrow> bool" where
  "sources_wf ss \<longleftrightarrow> (\<forall>s \<in> set ss. source_wf s \<and> \<not> IsEmpty (TrimSpace (ns_Name s)))"

definition stream_wf :: "StreamConfig \<Rightarrow> bool" where
  "stream_wf c \<longleftrightarrow>
     nc_Replicas c \<ge> 1 \<and> - (2 ^ 31) \<le> nc_MaxMsgSize c \<and> nc_MaxMsgSize c \<le> 2 ^ 31 - 1 \<and>
     nc_Retention c \<noteq> OtherRetention \<and> nc_Storage c \<noteq> OtherStorage \<and> nc_Discard c \<noteq> OtherDiscard \<and>
     nc_Compression c \<noteq> OtherCompression \<and>
     (case nc_Mirror c of None \<Rightarrow> True
      | Some m \<Rightarrow> source_wf m \<and> \<not> IsEmpty (ns_Name m) \<and> nc_Subjects c = []) \<and>
     sources_wf (nc_Sources c) \<and> placement_wf (nc_Placement c) \<and> republish_wf (nc_RePublish c) \<and>
     (case nc_SubjectTransform c of None \<Rightarrow> True | Some t \<Rightarrow> \<not> IsEmpty (tr_Destination t)) \<and>
     (li_InactiveThreshold (nc_ConsumerLimits c) > 0 \<or> li_MaxAckPending (nc_ConsumerLimits c) \<noteq> 0 \<or>
      nc_ConsumerLimits c = no_limits)"

definition consumer_wf :: "ConsumerConfig \<Rightarrow> bool" where
  "consumer_wf c \<longleftrightarrow>
     cf_DeliverPolicy c \<noteq> OtherDeliver \<and> cf_AckPolicy c \<noteq> OtherAck \<and> cf_ReplayPolicy c \<noteq> OtherReplay \<and>
     list_all (\<lambda>d. d > 0) (cf_BackOff c) \<and>
     (cf_DeliverPolicy c = DeliverByStartSequencePolicy \<longrightarrow> cf_OptStartSeq c \<noteq> 0) \<and>
     (cf_DeliverPolicy c = DeliverByStartTimePolicy \<longrightarrow> cf_OptStartTime c \<noteq> None)"

definition replicas_wf :: "int \<Rightarrow> bool" where
  "replicas_wf n \<longleftrightarrow> n \<in> {1, 3, 5}"

definition kv_wf :: "KeyValueConfig \<Rightarrow> bool" where
  "kv_wf c \<longleftrightarrow> replicas_wf (kv_Replicas c) \<and> 1 \<le> kv_History c \<and> kv_History c \<le> 64 \<and>
     kv_Storage c \<noteq> OtherStorage \<and> sources_wf (kv_Sources c) \<and> placement_wf (kv_Placement c) \<and>
     republish_wf (kv_RePublish c) \<and>
     (case kv_Mirror c of None \<Rightarrow> True | Some m \<Rightarrow> source_wf m \<and> \<not> IsEmpty (TrimSpace (ns_Name m)))"

definition object_wf :: "ObjectStoreConfig \<Rightarrow> bool" where
  "object_wf c \<longleftrightarrow> replicas_wf (ob_Replicas c) \<and> ob_Storage c \<noteq> OtherStorage \<and> placement_wf (ob_Placement c)"

lemmas enum_names = retentionPolicyNames_def storageTypeNames_def discardPolicyNames_def storeCompressionNames_def
  deliverPolicyNames_def ackPolicyNames_def replayPolicyNames_def

lemma bind_ok_Inr [simp]: "bind_ok (Inr a) f = f a"
  by (simp add: bind_ok_def)

lemma bind_ok_Inl [simp]: "bind_ok (Inl e) f = Inl e"
  by (simp add: bind_ok_def)

lemma bind_okE:
  assumes "bind_ok r f = Inr b"
  obtains a where "r = Inr a" "f a = Inr b"
  using assms by (cases r) auto

text \<open>The 32 bits of the size are the size.\<close>

lemma int32_same: "- (2 ^ 31) \<le> n \<Longrightarrow> n \<le> 2 ^ 31 - 1 \<Longrightarrow> int32 n = n"
  unfolding int32_def by transfer (simp add: signed_take_bit_int_eq_self)

lemma msg_size_same: "msg_size n = Inr k \<Longrightarrow> k = n \<and> - (2 ^ 31) \<le> k \<and> k \<le> 2 ^ 31 - 1"
  using int32_same [of n] by (auto simp: msg_size_def split: if_splits)

lemma enum_field_names:
  assumes "reads_names names other unmarshal" "e \<noteq> other" "map_of names e = Some n" "n \<noteq> []"
  shows "enum_field what unmarshal zero (enumString names e) = Inr e"
  using assms map_of_SomeD [OF assms(3)] by (auto simp: enum_field_def enumString_def reads_names_def UnmarshalEnum_def IsEmpty_def)

lemma enum_field_known:
  assumes "reads_names names other unmarshal" "zero \<noteq> other" "enum_field what unmarshal zero v = Inr e"
  shows "e \<noteq> other"
  using assms by (auto simp: enum_field_def reads_names_def UnmarshalEnum_def split: if_splits option.splits)

lemma parse_start_format:
  "library_ok L \<Longrightarrow> parse_start L (case t of None \<Rightarrow> [] | Some t \<Rightarrow> nl_format L t) = Inr t"
  by (cases t) (auto simp: parse_start_def library_ok_def)

lemma source_roundtrip:
  "library_ok L \<Longrightarrow> source_wf s \<Longrightarrow> source_ToNATS L (streamSourceFromNATS L s) = Inr s"
  by (cases s) (auto simp: source_ToNATS_def streamSourceFromNATS_def parse_start_format source_wf_def split: option.splits)

lemma source_ToNATS_wf:
  assumes "source_ToNATS L r = Inr s"
  shows "source_wf s \<and> ns_Name s = so_Name r"
  using assms by (auto simp: source_ToNATS_def source_wf_def elim!: bind_okE split: option.splits if_splits)

lemma sources_roundtrip:
  "library_ok L \<Longrightarrow> sources_wf ss \<Longrightarrow> SourcesToNATS L (map (streamSourceFromNATS L) ss) = Inr ss"
proof -
  assume L: "library_ok L" and ss: "sources_wf ss"
  have "sources_from L i (map (streamSourceFromNATS L) ss) = Inr ss" for i
    using ss
  proof (induction ss arbitrary: i)
    case (Cons s ss)
    then have "sources_from L (Suc i) (map (streamSourceFromNATS L) ss) = Inr ss" "source_wf s"
      "\<not> IsEmpty (TrimSpace (ns_Name s))"
      by (auto simp: sources_wf_def)
    moreover have "so_Name (streamSourceFromNATS L s) = ns_Name s" by (simp add: streamSourceFromNATS_def)
    ultimately show ?case by (simp add: source_roundtrip [OF L])
  qed simp
  then show ?thesis by (simp add: SourcesToNATS_def)
qed

lemma sources_ToNATS_wf:
  assumes "SourcesToNATS L rs = Inr ss"
  shows "sources_wf ss"
proof -
  have "sources_from L i rs = Inr ss \<Longrightarrow> sources_wf ss" for i
  proof (induction L i rs arbitrary: ss rule: sources_from.induct)
    case (2 L i r rs)
    then show ?case
      by (auto simp: sources_wf_def elim!: bind_okE split: if_splits sum.splits dest!: source_ToNATS_wf)
  qed (simp add: sources_wf_def)
  then show ?thesis using assms by (simp add: SourcesToNATS_def)
qed

lemma placement_roundtrip:
  "placement_wf p \<Longrightarrow> ToNATSPlacement (case p of None \<Rightarrow> None
     | Some p \<Rightarrow> if \<not> IsEmpty (pl_Cluster p) \<or> length (pl_Tags p) > 0 then Some p else None) = p"
  by (auto simp: ToNATSPlacement_def placement_wf_def split: option.splits)

lemma placement_wf_ToNATS: "placement_wf (ToNATSPlacement p)"
  by (auto simp: ToNATSPlacement_def placement_wf_def split: option.splits)

lemma republish_wf_ToNATS: "republish_wf (ToNATSRePublish p)"
  by (auto simp: ToNATSRePublish_def republish_wf_def split: option.splits)

lemma backoff_from_iff: "backoff_from i ns = Inr out \<longleftrightarrow> out = ns \<and> list_all (\<lambda>d. d > 0) ns"
proof (induction ns arbitrary: i out)
  case (Cons n ns)
  show ?case
  proof (cases "backoff_from (Suc i) ns")
    case (Inl e)
    then have "\<not> list_all (\<lambda>d. d > 0) ns" using Cons.IH [of "Suc i" ns] by simp
    then show ?thesis using Inl by simp
  next
    case (Inr ms)
    then have "ms = ns \<and> list_all (\<lambda>d. d > 0) ns" using Cons.IH [of "Suc i" ms] by simp
    then show ?thesis using Inr by auto
  qed
qed auto

lemma CloneStringMap_same [simp]: "CloneStringMap m = m"
  by (simp add: CloneStringMap_def)

lemma all_named:
  shows "r \<noteq> OtherRetention \<Longrightarrow> \<exists>n. map_of retentionPolicyNames r = Some n \<and> n \<noteq> []"
    and "st \<noteq> OtherStorage \<Longrightarrow> \<exists>n. map_of storageTypeNames st = Some n \<and> n \<noteq> []"
    and "d \<noteq> OtherDiscard \<Longrightarrow> \<exists>n. map_of discardPolicyNames d = Some n \<and> n \<noteq> []"
    and "k \<noteq> OtherCompression \<Longrightarrow> \<exists>n. map_of storeCompressionNames k = Some n \<and> n \<noteq> []"
    and "dp \<noteq> OtherDeliver \<Longrightarrow> \<exists>n. map_of deliverPolicyNames dp = Some n \<and> n \<noteq> []"
    and "a \<noteq> OtherAck \<Longrightarrow> \<exists>n. map_of ackPolicyNames a = Some n \<and> n \<noteq> []"
    and "rp \<noteq> OtherReplay \<Longrightarrow> \<exists>n. map_of replayPolicyNames rp = Some n \<and> n \<noteq> []"
  subgoal by (cases r) (auto simp: enum_names)
  subgoal by (cases st) (auto simp: enum_names)
  subgoal by (cases d) (auto simp: enum_names)
  subgoal by (cases k) (auto simp: enum_names)
  subgoal by (cases dp) (auto simp: enum_names)
  subgoal by (cases a) (auto simp: enum_names)
  subgoal by (cases rp) (auto simp: enum_names)
  done

lemma library_names:
  assumes "library_ok L"
  shows "reads_names retentionPolicyNames OtherRetention (nl_Retention L)"
    and "reads_names storageTypeNames OtherStorage (nl_Storage L)"
    and "reads_names discardPolicyNames OtherDiscard (nl_Discard L)"
    and "reads_names storeCompressionNames OtherCompression (nl_Compression L)"
    and "reads_names deliverPolicyNames OtherDeliver (nl_Deliver L)"
    and "reads_names ackPolicyNames OtherAck (nl_Ack L)"
    and "reads_names replayPolicyNames OtherReplay (nl_Replay L)"
    and "nl_zeroRetention L \<noteq> OtherRetention" "nl_zeroDiscard L \<noteq> OtherDiscard"
    and "nl_zeroCompression L \<noteq> OtherCompression" "nl_zeroDeliver L \<noteq> OtherDeliver"
    and "nl_zeroAck L \<noteq> OtherAck" "nl_zeroReplay L \<noteq> OtherReplay"
  using assms by (simp_all add: library_ok_def)

lemma enum_again:
  assumes "reads_names names other unmarshal" "\<exists>n. map_of names e = Some n \<and> n \<noteq> []" "e \<noteq> other"
  shows "enum_field what unmarshal zero (enumString names e) = Inr e"
  using assms enum_field_names by metis

lemmas enum_roundtrips = enum_again [OF library_names(1) all_named(1)] enum_again [OF library_names(2) all_named(2)]
  enum_again [OF library_names(3) all_named(3)] enum_again [OF library_names(4) all_named(4)]
  enum_again [OF library_names(5) all_named(5)] enum_again [OF library_names(6) all_named(6)]
  enum_again [OF library_names(7) all_named(7)]

lemma enum_known:
  assumes "library_ok L"
  shows "enum_field what (nl_Retention L) (nl_zeroRetention L) v = Inr e1 \<Longrightarrow> e1 \<noteq> OtherRetention"
    and "enum_field what (nl_Storage L) FileStorage v = Inr e2 \<Longrightarrow> e2 \<noteq> OtherStorage"
    and "enum_field what (nl_Discard L) (nl_zeroDiscard L) v = Inr e3 \<Longrightarrow> e3 \<noteq> OtherDiscard"
    and "enum_field what (nl_Compression L) (nl_zeroCompression L) v = Inr e4 \<Longrightarrow> e4 \<noteq> OtherCompression"
    and "enum_field what (nl_Deliver L) (nl_zeroDeliver L) v = Inr e5 \<Longrightarrow> e5 \<noteq> OtherDeliver"
    and "enum_field what (nl_Ack L) (nl_zeroAck L) v = Inr e6 \<Longrightarrow> e6 \<noteq> OtherAck"
    and "enum_field what (nl_Replay L) (nl_zeroReplay L) v = Inr e7 \<Longrightarrow> e7 \<noteq> OtherReplay"
  subgoal by (rule enum_field_known [OF library_names(1) [OF assms] library_names(8) [OF assms]])
  subgoal by (rule enum_field_known [OF library_names(2) [OF assms], of FileStorage]) simp_all
  subgoal by (rule enum_field_known [OF library_names(3) [OF assms] library_names(9) [OF assms]])
  subgoal by (rule enum_field_known [OF library_names(4) [OF assms] library_names(10) [OF assms]])
  subgoal by (rule enum_field_known [OF library_names(5) [OF assms] library_names(11) [OF assms]])
  subgoal by (rule enum_field_known [OF library_names(6) [OF assms] library_names(12) [OF assms]])
  subgoal by (rule enum_field_known [OF library_names(7) [OF assms] library_names(13) [OF assms]])
  done

lemma mirror_field_wf:
  "mirror_field L r = Inr (m, subjects) \<Longrightarrow>
   (case m of None \<Rightarrow> True | Some m \<Rightarrow> source_wf m \<and> \<not> IsEmpty (ns_Name m) \<and> subjects = [])"
  by (auto simp: mirror_field_def split: option.splits if_splits sum.splits dest!: source_ToNATS_wf)

lemma mirror_roundtrip:
  assumes "library_ok L"
    and "case nc_Mirror c of None \<Rightarrow> True | Some m \<Rightarrow> source_wf m \<and> \<not> IsEmpty (ns_Name m) \<and> nc_Subjects c = []"
  shows "mirror_field L (streamConfigFromNATS L c) = Inr (nc_Mirror c, nc_Subjects c)"
proof (cases "nc_Mirror c")
  case (Some m)
  have "so_Name (streamSourceFromNATS L m) = ns_Name m" by (simp add: streamSourceFromNATS_def)
  then show ?thesis
    using assms Some by (simp add: mirror_field_def streamConfigFromNATS_def source_roundtrip)
qed (simp add: mirror_field_def streamConfigFromNATS_def)

lemma msg_size_roundtrip: "- (2 ^ 31) \<le> n \<Longrightarrow> n \<le> 2 ^ 31 - 1 \<Longrightarrow> msg_size n = Inr n"
  using int32_same [of n] by (auto simp: msg_size_def)

lemma stream_toNATSE:
  assumes "stream_toNATS L r = Inr c"
  obtains size m sources ret st dis com where
    "msg_size (rs_MaxMsgSize r) = Inr size" "mirror_field L r = Inr m" "SourcesToNATS L (rs_Sources r) = Inr sources"
    "enum_field ''retention'' (nl_Retention L) (nl_zeroRetention L) (rs_Retention r) = Inr ret"
    "enum_field ''storage'' (nl_Storage L) FileStorage (rs_Storage r) = Inr st"
    "enum_field ''discard'' (nl_Discard L) (nl_zeroDiscard L) (rs_Discard r) = Inr dis"
    "enum_field ''compression'' (nl_Compression L) (nl_zeroCompression L) (rs_Compression r) = Inr com"
    "c = stream_config r size (fst m) (snd m) sources ret st dis com"
proof -
  note d = assms [unfolded stream_toNATS_def]
  obtain size where s1: "msg_size (rs_MaxMsgSize r) = Inr size"
    using d by (cases "msg_size (rs_MaxMsgSize r)") (simp_all)
  obtain m where s2: "mirror_field L r = Inr m"
    using d by (cases "mirror_field L r") (simp_all add: s1)
  obtain sources where s3: "SourcesToNATS L (rs_Sources r) = Inr sources"
    using d by (cases "SourcesToNATS L (rs_Sources r)") (simp_all add: s1 s2)
  obtain ret where s4: "enum_field ''retention'' (nl_Retention L) (nl_zeroRetention L) (rs_Retention r) = Inr ret"
    using d by (cases "enum_field ''retention'' (nl_Retention L) (nl_zeroRetention L) (rs_Retention r)") (simp_all add: s1 s2 s3)
  obtain st where s5: "enum_field ''storage'' (nl_Storage L) FileStorage (rs_Storage r) = Inr st"
    using d by (cases "enum_field ''storage'' (nl_Storage L) FileStorage (rs_Storage r)") (simp_all add: s1 s2 s3 s4)
  obtain dis where s6: "enum_field ''discard'' (nl_Discard L) (nl_zeroDiscard L) (rs_Discard r) = Inr dis"
    using d by (cases "enum_field ''discard'' (nl_Discard L) (nl_zeroDiscard L) (rs_Discard r)") (simp_all add: s1 s2 s3 s4 s5)
  obtain com where s7: "enum_field ''compression'' (nl_Compression L) (nl_zeroCompression L) (rs_Compression r) = Inr com"
    using d by (cases "enum_field ''compression'' (nl_Compression L) (nl_zeroCompression L) (rs_Compression r)") (simp_all add: s1 s2 s3 s4 s5 s6)
  show ?thesis by (rule that [OF s1 s2 s3 s4 s5 s6 s7]) (use d in \<open>simp add: s1 s2 s3 s4 s5 s6 s7\<close>)
qed

lemma stream_accepted:
  assumes "library_ok L" "stream_toNATS L r = Inr c"
  shows "stream_wf c \<and> nc_Name c = rs_Name r \<and> nc_MaxMsgSize c = rs_MaxMsgSize r"
  using assms(2)
proof (rule stream_toNATSE)
  fix size m sources ret st dis com
  assume parts: "msg_size (rs_MaxMsgSize r) = Inr size" "mirror_field L r = Inr m" "SourcesToNATS L (rs_Sources r) = Inr sources"
    "enum_field ''retention'' (nl_Retention L) (nl_zeroRetention L) (rs_Retention r) = Inr ret"
    "enum_field ''storage'' (nl_Storage L) FileStorage (rs_Storage r) = Inr st"
    "enum_field ''discard'' (nl_Discard L) (nl_zeroDiscard L) (rs_Discard r) = Inr dis"
    "enum_field ''compression'' (nl_Compression L) (nl_zeroCompression L) (rs_Compression r) = Inr com"
    and c: "c = stream_config r size (fst m) (snd m) sources ret st dis com"
  note known = enum_known(1) [OF assms(1) parts(4)] enum_known(2) [OF assms(1) parts(5)]
    enum_known(3) [OF assms(1) parts(6)] enum_known(4) [OF assms(1) parts(7)]
  note fields = c stream_config_def Let_def StreamConfig.simps
  have "case nc_SubjectTransform c of None \<Rightarrow> True | Some t \<Rightarrow> \<not> IsEmpty (tr_Destination t)"
    unfolding fields by (auto simp: transform_field_def split: option.splits)
  moreover have "li_InactiveThreshold (nc_ConsumerLimits c) > 0 \<or> li_MaxAckPending (nc_ConsumerLimits c) \<noteq> 0 \<or>
      nc_ConsumerLimits c = no_limits"
    unfolding fields by (auto simp: limits_field_def split: option.splits)
  moreover have "case nc_Mirror c of None \<Rightarrow> True | Some q \<Rightarrow> source_wf q \<and> \<not> IsEmpty (ns_Name q) \<and> nc_Subjects c = []"
    unfolding fields using mirror_field_wf [of L r "fst m" "snd m"] parts(2) by simp
  moreover have "nc_Replicas c \<ge> 1" unfolding fields by simp
  moreover have "nc_MaxMsgSize c = size" "nc_Name c = rs_Name r" "nc_Sources c = sources" "nc_Retention c = ret"
    "nc_Storage c = st" "nc_Discard c = dis" "nc_Compression c = com" "placement_wf (nc_Placement c)"
    "republish_wf (nc_RePublish c)"
    unfolding fields by (simp_all add: placement_wf_ToNATS republish_wf_ToNATS)
  ultimately show ?thesis
    unfolding stream_wf_def using known msg_size_same [OF parts(1)] sources_ToNATS_wf [OF parts(3)] by simp
qed

lemma consumer_accepted:
  assumes "library_ok L" "consumer_toNATS L r = Inr c"
  shows "consumer_wf c"
  using assms(2) unfolding consumer_toNATS_def
proof (elim bind_okE)
  fix deliver ack replay start backoff
  assume parts: "enum_field ''deliverPolicy'' (nl_Deliver L) (nl_zeroDeliver L) (rc_DeliverPolicy r) = Inr deliver"
      "enum_field ''ackPolicy'' (nl_Ack L) (nl_zeroAck L) (rc_AckPolicy r) = Inr ack"
      "enum_field ''replayPolicy'' (nl_Replay L) (nl_zeroReplay L) (rc_ReplayPolicy r) = Inr replay"
      "backoff_from 0 (rc_BackoffNs r) = Inr backoff"
    and c: "(case check_policy deliver (rc_OptStartSeq r) start of
        Some e \<Rightarrow> Inl e | None \<Rightarrow> Inr (consumer_config r deliver ack replay start backoff)) = Inr c"
  have "deliver \<noteq> OtherDeliver" "ack \<noteq> OtherAck" "replay \<noteq> OtherReplay"
    using enum_known(5) [OF assms(1) parts(1)] enum_known(6) [OF assms(1) parts(2)] enum_known(7) [OF assms(1) parts(3)]
    by auto
  moreover have "check_policy deliver (rc_OptStartSeq r) start = None" "c = consumer_config r deliver ack replay start backoff"
    using c by (auto split: option.splits)
  ultimately show "consumer_wf c"
    using parts(4) by (auto simp: consumer_wf_def consumer_config_def backoff_from_iff check_policy_def split: if_splits)
qed

lemma kv_mirror_wf:
  "kv_mirror L r = Inr m \<Longrightarrow> (case m of None \<Rightarrow> True | Some s \<Rightarrow> source_wf s \<and> \<not> IsEmpty (TrimSpace (ns_Name s)))"
  by (auto simp: kv_mirror_def split: option.splits if_splits sum.splits dest!: source_ToNATS_wf)

lemma kv_accepted:
  assumes "library_ok L" "toKVConfig L r = Inr c"
  shows "kv_wf c"
proof -
  have "1 \<le> (if h = 0 then 1 else h)" for h :: "8 word"
    by (simp add: word_le_nat_alt unat_gt_0 Suc_leI)
  then show ?thesis
    using assms(2) unfolding toKVConfig_def Let_def
    by (auto simp: kv_wf_def replicas_wf_def placement_wf_ToNATS republish_wf_ToNATS not_less [symmetric]
        elim!: bind_okE split: if_splits dest: kv_mirror_wf sources_ToNATS_wf enum_known(2) [OF assms(1)])
qed

lemma object_accepted:
  assumes "library_ok L" "toObjectConfig L r = Inr c"
  shows "object_wf c"
  using assms enum_known(2) [OF assms(1)]
  by (auto simp: toObjectConfig_def object_wf_def replicas_wf_def Let_def placement_wf_ToNATS elim!: bind_okE split: if_splits)

text \<open>C37: Only well-formed configurations reach NATS. Whatever a request says, a stream configuration made from it has at least one replica, a maximum message size that fits 32 bits and is the one asked for, enumerations with known values, no subjects beside a mirror, sources with names and, where fragments are present, ones that say something; a consumer has positive back-off times and a start for each policy that starts somewhere; buckets have one, three or five replicas and a history from 1 to 64.\<close>

theorem config_accepted:
  assumes "library_ok L"
  shows "(stream_toNATS L r = Inr c \<longrightarrow> stream_wf c \<and> nc_Name c = rs_Name r \<and> nc_MaxMsgSize c = rs_MaxMsgSize r) \<and>
    (consumer_toNATS L rc = Inr cc \<longrightarrow> consumer_wf cc) \<and>
    (toKVConfig L rk = Inr kc \<longrightarrow> kv_wf kc) \<and>
    (toObjectConfig L ro = Inr oc \<longrightarrow> object_wf oc)"
  using stream_accepted consumer_accepted kv_accepted object_accepted assms by blast

lemma stream_config_again:
  assumes "stream_wf c"
  shows "stream_config (streamConfigFromNATS L c) (nc_MaxMsgSize c) (nc_Mirror c) (nc_Subjects c) (nc_Sources c)
    (nc_Retention c) (nc_Storage c) (nc_Discard c) (nc_Compression c) = c"
proof -
  have t: "transform_field (rs_SubjectTransform (streamConfigFromNATS L c)) = nc_SubjectTransform c"
    "ToNATSRePublish (rs_RePublish (streamConfigFromNATS L c)) = nc_RePublish c"
    using assms by (auto simp: stream_wf_def streamConfigFromNATS_def transform_field_def ToNATSRePublish_def republish_wf_def
        split: option.splits)
  have l: "limits_field (rs_ConsumerLimits (streamConfigFromNATS L c)) = nc_ConsumerLimits c"
    using assms by (auto simp: stream_wf_def streamConfigFromNATS_def limits_field_def no_limits_def)
  have "ToNATSPlacement (rs_Placement (streamConfigFromNATS L c)) = nc_Placement c" "nc_Replicas c \<ge> 1"
    using assms placement_roundtrip [of "nc_Placement c"] by (simp_all add: stream_wf_def streamConfigFromNATS_def)
  then show ?thesis
    unfolding stream_config_def t l Let_def by (simp add: streamConfigFromNATS_def flag_def)
qed

lemma stream_again:
  assumes "library_ok L" "stream_wf c"
  shows "stream_toNATS L (streamConfigFromNATS L c) = Inr c"
proof -
  let ?r = "streamConfigFromNATS L c"
  have parts: "msg_size (rs_MaxMsgSize ?r) = Inr (nc_MaxMsgSize c)" "SourcesToNATS L (rs_Sources ?r) = Inr (nc_Sources c)"
    "enum_field ''retention'' (nl_Retention L) (nl_zeroRetention L) (rs_Retention ?r) = Inr (nc_Retention c)"
    "enum_field ''storage'' (nl_Storage L) FileStorage (rs_Storage ?r) = Inr (nc_Storage c)"
    "enum_field ''discard'' (nl_Discard L) (nl_zeroDiscard L) (rs_Discard ?r) = Inr (nc_Discard c)"
    "enum_field ''compression'' (nl_Compression L) (nl_zeroCompression L) (rs_Compression ?r) = Inr (nc_Compression c)"
    using assms(2) msg_size_roundtrip sources_roundtrip [OF assms(1)] enum_roundtrips [OF assms(1)]
    by (simp_all add: stream_wf_def streamConfigFromNATS_def)
  have "mirror_field L ?r = Inr (nc_Mirror c, nc_Subjects c)"
    using mirror_roundtrip [OF assms(1)] assms(2) by (simp add: stream_wf_def)
  then show ?thesis
    unfolding stream_toNATS_def parts by (simp add: stream_config_again [OF assms(2)])
qed

lemma consumer_again:
  assumes "library_ok L" "consumer_wf c"
  shows "consumer_toNATS L (consumerConfigFromNATS L c) = Inr c"
proof -
  let ?r = "consumerConfigFromNATS L c"
  have "backoff_from 0 (rc_BackoffNs ?r) = Inr (cf_BackOff c)"
    using assms(2) by (simp add: consumer_wf_def consumerConfigFromNATS_def backoff_from_iff)
  moreover have "check_policy (cf_DeliverPolicy c) (rc_OptStartSeq ?r) (cf_OptStartTime c) = None"
    using assms(2) by (auto simp: consumer_wf_def consumerConfigFromNATS_def check_policy_def split: DeliverPolicy.splits)
  moreover have "enum_field ''deliverPolicy'' (nl_Deliver L) (nl_zeroDeliver L) (rc_DeliverPolicy ?r) = Inr (cf_DeliverPolicy c)"
    "enum_field ''ackPolicy'' (nl_Ack L) (nl_zeroAck L) (rc_AckPolicy ?r) = Inr (cf_AckPolicy c)"
    "enum_field ''replayPolicy'' (nl_Replay L) (nl_zeroReplay L) (rc_ReplayPolicy ?r) = Inr (cf_ReplayPolicy c)"
    using assms(2) enum_roundtrips [OF assms(1)] by (simp_all add: consumer_wf_def consumerConfigFromNATS_def)
  moreover have "parse_start L (rc_OptStartTime ?r) = Inr (cf_OptStartTime c)"
    using parse_start_format [OF assms(1)] by (simp add: consumerConfigFromNATS_def)
  moreover have "consumer_config ?r (cf_DeliverPolicy c) (cf_AckPolicy c) (cf_ReplayPolicy c) (cf_OptStartTime c) (cf_BackOff c) = c"
    by (simp add: consumer_config_def consumerConfigFromNATS_def)
  ultimately show ?thesis by (simp add: consumer_toNATS_def)
qed

text \<open>C38: What the console shows of a configuration can be sent back unchanged. For every well-formed configuration of a stream or a consumer, and so for every one the console made, the request that repeats what is shown is accepted and gives exactly that configuration.\<close>

theorem config_roundtrip:
  assumes "library_ok L"
  shows "(stream_wf c \<longrightarrow> stream_toNATS L (streamConfigFromNATS L c) = Inr c) \<and>
    (consumer_wf cc \<longrightarrow> consumer_toNATS L (consumerConfigFromNATS L cc) = Inr cc)"
  using stream_again consumer_again assms by blast

text \<open>A library with unary times.\<close>

definition sample_enum :: "('e, string) gomap \<Rightarrow> string \<Rightarrow> 'e option" where
  "sample_enum names s = map_of (map prod.swap names) s"

definition sample_lib :: JsLib where
  "sample_lib = \<lparr>nl_Retention = sample_enum retentionPolicyNames, nl_Storage = sample_enum storageTypeNames,
     nl_Discard = sample_enum discardPolicyNames, nl_Compression = sample_enum storeCompressionNames,
     nl_Deliver = sample_enum deliverPolicyNames, nl_Ack = sample_enum ackPolicyNames,
     nl_Replay = sample_enum replayPolicyNames, nl_zeroRetention = LimitsPolicy, nl_zeroDiscard = DiscardOld,
     nl_zeroCompression = NoCompression, nl_zeroDeliver = DeliverAllPolicy, nl_zeroAck = AckNonePolicy,
     nl_zeroReplay = ReplayInstantPolicy,
     nl_parseNano = (\<lambda>s. if s = [] then None
        else Some (if hd s = CHR ''-'' then - int (length (tl s)) else int (length (tl s)))),
     nl_parseRFC3339 = (\<lambda>_. None),
     nl_format = (\<lambda>t. if t < 0 then CHR ''-'' # replicate (nat (- t)) CHR ''x'' else CHR ''+'' # replicate (nat t) CHR ''x'')\<rparr>"

lemma sample_reads:
  "reads_names retentionPolicyNames OtherRetention (sample_enum retentionPolicyNames)"
  "reads_names storageTypeNames OtherStorage (sample_enum storageTypeNames)"
  "reads_names discardPolicyNames OtherDiscard (sample_enum discardPolicyNames)"
  "reads_names storeCompressionNames OtherCompression (sample_enum storeCompressionNames)"
  "reads_names deliverPolicyNames OtherDeliver (sample_enum deliverPolicyNames)"
  "reads_names ackPolicyNames OtherAck (sample_enum ackPolicyNames)"
  "reads_names replayPolicyNames OtherReplay (sample_enum replayPolicyNames)"
  by (simp_all add: reads_names_def sample_enum_def enum_names)

lemma sample_lib_ok: "library_ok sample_lib"
proof -
  have "CHR ''+'' \<notin> set space_bytes" "CHR ''-'' \<notin> set space_bytes" "CHR ''x'' \<notin> set space_bytes"
    by (simp_all add: space_bytes_def space_runes_def)
  then have "TrimSpace (CHR ''+'' # replicate n CHR ''x'') = CHR ''+'' # replicate n CHR ''x''"
    "TrimSpace (CHR ''-'' # replicate n CHR ''x'') = CHR ''-'' # replicate n CHR ''x''" for n
    by (auto intro!: TrimSpace_id)
  then show ?thesis
    using sample_reads by (simp add: library_ok_def sample_lib_def)
qed

definition sample_stream :: streamConfigRequest where
  "sample_stream = \<lparr>rs_Name = ''ORDERS'', rs_Description = [], rs_Subjects = [''orders.>''], rs_Retention = ''interest'',
     rs_Storage = [], rs_Discard = ''new'', rs_Compression = [], rs_MaxMsgs = 0, rs_MaxBytes = 0, rs_MaxAge = 0,
     rs_MaxConsumers = 0, rs_MaxMsgSize = 1024, rs_MaxMsgsPerSubject = 0, rs_Replicas = 0, rs_Duplicates = 0,
     rs_FirstSeq = 0, rs_SubjectDeleteMarkerTTL = 0, rs_AllowRollup = Some False, rs_DenyDelete = None,
     rs_DenyPurge = None, rs_DiscardNewPerSubject = None, rs_NoAck = None, rs_Sealed = None, rs_AllowDirect = None,
     rs_MirrorDirect = None, rs_AllowMsgTTL = None, rs_Metadata = [], rs_Placement = None, rs_Mirror = None,
     rs_Sources = [\<lparr>so_External = None, so_Name = '' '', so_FilterSubject = [], so_OptStartTime = [], so_OptStartSeq = 0\<rparr>,
       \<lparr>so_External = None, so_Name = ''EU'', so_FilterSubject = [], so_OptStartTime = ''+xxx'', so_OptStartSeq = 0\<rparr>],
     rs_SubjectTransform = None, rs_RePublish = None, rs_ConsumerLimits = None\<rparr>"

definition sample_stream_config :: StreamConfig where
  "sample_stream_config = stream_config sample_stream 1024 None [''orders.>'']
     [\<lparr>ns_Name = ''EU'', ns_OptStartSeq = 0, ns_OptStartTime = Some 3, ns_FilterSubject = [], ns_External = None\<rparr>]
     InterestPolicy FileStorage DiscardNew NoCompression"

lemma sample_stream_made: "stream_toNATS sample_lib sample_stream = Inr sample_stream_config"
  by code_simp

lemma config_accepted_witness:
  "stream_toNATS sample_lib sample_stream = Inr sample_stream_config \<and> stream_wf sample_stream_config \<and>
   nc_MaxMsgSize sample_stream_config = 1024"
  using config_accepted [OF sample_lib_ok, of sample_stream sample_stream_config] sample_stream_made
  by (simp add: sample_stream_def)

lemma config_roundtrip_witness:
  "stream_toNATS sample_lib (streamConfigFromNATS sample_lib sample_stream_config) = Inr sample_stream_config"
proof -
  have "stream_wf sample_stream_config" by code_simp
  then show ?thesis using config_roundtrip [OF sample_lib_ok, of sample_stream_config] by blast
qed

end
