(* ===== verification/Snapshots.thy ===== *)
theory Snapshots
  imports Numbers
begin

text \<open>
  Snapshots of the monitoring pages of clusters (\<^verbatim>\<open>internal/snapshot/hub.go\<close>) and the broker that scrapes
  a page while somebody looks at it (\<^verbatim>\<open>connz_broker.go\<close>).

  The hub keeps the last snapshot of each cluster and tells subscribers about new ones.  Its methods run
  under its lock, so a run is a list of calls.  The broker has goroutines: a loop for each cluster with
  subscribers and the scrapes it starts; its steps are the sections under the lock, the sends, and the
  ends of the goroutines, in any order.  Byte slices are values; the methods' answers for a nil receiver
  are the ones of callers without a hub.  The probe results of a snapshot are of any type.
\<close>

section \<open>The hub\<close>

definition RequestReplyConnzPath :: string where
  "RequestReplyConnzPath = ''/connz?limit=1024&subs=detail''"

definition TopologyJSZPath :: string where
  "TopologyJSZPath = ''/jsz?streams=1&consumers=1&config=1''"

record SnapshotEvent =
  ev_CapturedAt :: gotime
  ev_ClusterID :: string

text \<open>A time of capture that is zero is None.\<close>

record 'p ClusterSnapshot =
  sn_CapturedAt :: "gotime option"
  sn_Varz :: string
  sn_Jsz :: string
  sn_JszTopology :: string
  sn_Connz :: string
  sn_ProbeResults :: "'p list"

text \<open>A channel with a buffer.\<close>

record hubChan =
  hc_cap :: nat
  hc_queue :: "SnapshotEvent list"

record 'p Hub =
  hub_seq :: u64
  hub_entries :: "(string, 'p ClusterSnapshot) gomap"
  hub_listeners :: "(string, nat list) gomap"
  hub_chans :: "(nat, hubChan) gomap"
  hub_next :: nat

definition NewHub :: "'p Hub" where
  "NewHub = \<lparr>hub_seq = 0, hub_entries = [], hub_listeners = [], hub_chans = [], hub_next = 0\<rparr>"

definition hub_set :: "(string, nat list) gomap \<Rightarrow> string \<Rightarrow> nat list" where
  "hub_set m c = (case map_of m c of None \<Rightarrow> [] | Some l \<Rightarrow> l)"

text \<open>\<^verbatim>\<open>select\<close> with a default: a full buffer drops the event.\<close>

definition offer :: "SnapshotEvent \<Rightarrow> nat \<Rightarrow> (nat, hubChan) gomap \<Rightarrow> (nat, hubChan) gomap" where
  "offer ev ch chans =
     (case map_of chans ch of
        None \<Rightarrow> chans
      | Some k \<Rightarrow> if length (hc_queue k) < hc_cap k then AList.update ch (k\<lparr>hc_queue := hc_queue k @ [ev]\<rparr>) chans
                  else chans)"

definition hub_publish :: "string \<Rightarrow> 'p ClusterSnapshot \<Rightarrow> gotime \<Rightarrow> 'p Hub \<Rightarrow> 'p Hub" where
  "hub_publish clusterID snap now h =
     (if IsEmpty clusterID then h
      else
        (let captured = (case sn_CapturedAt snap of None \<Rightarrow> now | Some t \<Rightarrow> t);
             entry = snap\<lparr>sn_CapturedAt := Some captured\<rparr>;
             ev = \<lparr>ev_CapturedAt = captured, ev_ClusterID = clusterID\<rparr>
         in h\<lparr>hub_entries := AList.update clusterID entry (hub_entries h), hub_seq := hub_seq h + 1,
              hub_chans := fold (offer ev) (hub_set (hub_listeners h) clusterID) (hub_chans h)\<rparr>))"

definition hub_Invalidate :: "string \<Rightarrow> 'p Hub \<Rightarrow> 'p Hub" where
  "hub_Invalidate clusterID h =
     (if IsEmpty clusterID then h else h\<lparr>hub_entries := AList.delete clusterID (hub_entries h)\<rparr>)"

definition Latest :: "'p Hub \<Rightarrow> string \<Rightarrow> 'p ClusterSnapshot option" where
  "Latest h clusterID = map_of (hub_entries h) clusterID"

text \<open>\<^verbatim>\<open>containsQueryFlag\<close> looks for the flag at each position, between the bounds of a parameter.\<close>

definition flag_at :: "string \<Rightarrow> string \<Rightarrow> nat \<Rightarrow> bool" where
  "flag_at query flag i \<longleftrightarrow>
     take (length flag) (drop i query) = flag \<and>
     (i = 0 \<or> query ! (i - 1) = CHR ''&'') \<and>
     (i + length flag = length query \<or> query ! (i + length flag) = CHR ''&'')"

definition containsQueryFlag :: "string \<Rightarrow> string \<Rightarrow> bool" where
  "containsQueryFlag query flag \<longleftrightarrow>
     (if query = flag then True
      else if length query < length flag then False
      else list_ex (flag_at query flag) [0..<Suc (length query - length flag)])"

definition isTopologyJSZ :: "string \<Rightarrow> bool" where
  "isTopologyJSZ path \<longleftrightarrow>
     (if length path < 5 \<or> take 5 path \<noteq> ''/jsz?'' then False
      else containsQueryFlag (drop 5 path) ''streams=1'' \<and> containsQueryFlag (drop 5 path) ''consumers=1'' \<and>
           containsQueryFlag (drop 5 path) ''config=1'')"

definition normalizeMonitoringPath :: "string \<Rightarrow> string" where
  "normalizeMonitoringPath path =
     (if IsEmpty path then []
      else
        (let path = (if hd path \<noteq> CHR ''/'' then CHR ''/'' # path else path) in
         if path = ''/varz'' \<or> path = ''/jsz'' \<or> path = TopologyJSZPath \<or> path = RequestReplyConnzPath then path
         else if isTopologyJSZ path then TopologyJSZPath
         else path))"

definition payload_at :: "string \<Rightarrow> 'p ClusterSnapshot \<Rightarrow> string" where
  "payload_at path entry =
     (if path = ''/varz'' then sn_Varz entry
      else if path = ''/jsz'' then sn_Jsz entry
      else if path = TopologyJSZPath then sn_JszTopology entry
      else if path = RequestReplyConnzPath then sn_Connz entry
      else [])"

definition MonitoringPayload :: "'p Hub \<Rightarrow> string \<Rightarrow> string \<Rightarrow> (string \<times> gotime) option" where
  "MonitoringPayload h clusterID path =
     (case map_of (hub_entries h) clusterID of
        None \<Rightarrow> None
      | Some entry \<Rightarrow>
          (let raw = payload_at (normalizeMonitoringPath path) entry in
           if length raw = 0 then None
           else map_option (\<lambda>t. (raw, t)) (sn_CapturedAt entry)))"

definition ProbeResultsOverlay :: "'p Hub \<Rightarrow> string \<Rightarrow> ('p list \<times> gotime option \<times> bool)" where
  "ProbeResultsOverlay h clusterID =
     (case map_of (hub_entries h) clusterID of
        None \<Rightarrow> ([], None, False)
      | Some entry \<Rightarrow>
          if length (sn_ProbeResults entry) = 0 then ([], sn_CapturedAt entry, False)
          else (sn_ProbeResults entry, sn_CapturedAt entry, True))"

text \<open>A channel that is closed at once, for no cluster, is no channel here.\<close>

definition SubscribeCluster :: "string \<Rightarrow> int \<Rightarrow> 'p Hub \<Rightarrow> nat option \<times> 'p Hub" where
  "SubscribeCluster clusterID buffer h =
     (let buffer = (if buffer < 1 then 8 else buffer) in
      if IsEmpty clusterID then (None, h)
      else
        (let ch = hub_next h in
         (Some ch,
          h\<lparr>hub_next := Suc ch, hub_chans := AList.update ch \<lparr>hc_cap = nat buffer, hc_queue = []\<rparr> (hub_chans h),
            hub_listeners := AList.update clusterID (hub_set (hub_listeners h) clusterID @ [ch]) (hub_listeners h)\<rparr>)))"

definition hub_unsubscribe :: "string \<Rightarrow> nat \<Rightarrow> 'p Hub \<Rightarrow> 'p Hub" where
  "hub_unsubscribe clusterID ch h =
     (case map_of (hub_listeners h) clusterID of
        None \<Rightarrow> h
      | Some l \<Rightarrow>
          (let l' = removeAll ch l in
           h\<lparr>hub_listeners := (if length l' = 0 then AList.delete clusterID (hub_listeners h)
                              else AList.update clusterID l' (hub_listeners h))\<rparr>))"

text \<open>A subscriber receives.\<close>

definition hub_receive :: "nat \<Rightarrow> 'p Hub \<Rightarrow> 'p Hub" where
  "hub_receive ch h =
     (case map_of (hub_chans h) ch of
        None \<Rightarrow> h | Some k \<Rightarrow> h\<lparr>hub_chans := AList.update ch (k\<lparr>hc_queue := tl (hc_queue k)\<rparr>) (hub_chans h)\<rparr>)"

section \<open>The hub holds the last snapshot\<close>

datatype 'p hub_op =
    HPublish string "'p ClusterSnapshot" gotime
  | HInvalidate string
  | HSubscribe string int
  | HUnsubscribe string nat
  | HReceive nat

fun hub_step :: "'p hub_op \<Rightarrow> 'p Hub \<Rightarrow> 'p Hub" where
  "hub_step (HPublish c snap now) h = hub_publish c snap now h"
| "hub_step (HInvalidate c) h = hub_Invalidate c h"
| "hub_step (HSubscribe c b) h = snd (SubscribeCluster c b h)"
| "hub_step (HUnsubscribe c ch) h = hub_unsubscribe c ch h"
| "hub_step (HReceive ch) h = hub_receive ch h"

text \<open>What a history leaves to be shown of a cluster, the latest call last.\<close>

fun shown_after :: "'p hub_op \<Rightarrow> string \<Rightarrow> 'p ClusterSnapshot option \<Rightarrow> 'p ClusterSnapshot option" where
  "shown_after (HPublish c snap now) d old =
     (if c = d \<and> c \<noteq> [] then Some (snap\<lparr>sn_CapturedAt := Some (case sn_CapturedAt snap of None \<Rightarrow> now | Some t \<Rightarrow> t)\<rparr>)
      else old)"
| "shown_after (HInvalidate c) d old = (if c = d \<and> c \<noteq> [] then None else old)"
| "shown_after _ d old = old"

definition shown :: "'p hub_op list \<Rightarrow> string \<Rightarrow> 'p ClusterSnapshot option" where
  "shown ops d = fold (\<lambda>p. shown_after p d) ops None"

lemma hub_step_shown: "map_of (hub_entries (hub_step p h)) d = shown_after p d (map_of (hub_entries h) d)"
  by (cases p) (auto simp: hub_publish_def hub_Invalidate_def SubscribeCluster_def hub_unsubscribe_def hub_receive_def Let_def
      gomap_simps split: option.split)

lemma hub_run_shown: "map_of (hub_entries (fold hub_step ops NewHub)) d = shown ops d"
proof -
  have "map_of (hub_entries (fold hub_step ops h)) d = fold (\<lambda>p. shown_after p d) ops (map_of (hub_entries h) d)" for h
    by (induction ops arbitrary: h) (simp_all add: hub_step_shown)
  then show ?thesis by (simp add: NewHub_def shown_def)
qed

subsection \<open>Flags of a query are its parameters\<close>

lemma Split_append: "Split c (a @ c # s) = Split c a @ Split c s"
  by (induction a) (auto split: list.splits)

lemma Join_middle:
  "Join [c] (xs @ f # ys) = (if xs = [] then [] else Join [c] xs @ [c]) @ f @ (if ys = [] then [] else c # Join [c] ys)"
proof (induction xs rule: induct_list012)
  case 1
  show ?case by (cases ys) simp_all
next
  case (2 x)
  show ?case by (cases ys) simp_all
qed simp_all

lemma Split_member:
  assumes "c \<notin> set f"
  shows "f \<in> set (Split c q) \<longleftrightarrow> (\<exists>a b. q = a @ f @ b \<and> (a = [] \<or> last a = c) \<and> (b = [] \<or> hd b = c))"
proof
  assume "f \<in> set (Split c q)"
  then obtain xs ys where "Split c q = xs @ f # ys" by (meson split_list)
  then have "q = Join [c] (xs @ f # ys)" using Join_Split [of c q] by simp
  then show "\<exists>a b. q = a @ f @ b \<and> (a = [] \<or> last a = c) \<and> (b = [] \<or> hd b = c)"
    unfolding Join_middle
    by (intro exI [of _ "if xs = [] then [] else Join [c] xs @ [c]"] exI [of _ "if ys = [] then [] else c # Join [c] ys"]) simp
next
  assume "\<exists>a b. q = a @ f @ b \<and> (a = [] \<or> last a = c) \<and> (b = [] \<or> hd b = c)"
  then obtain a b where q: "q = a @ f @ b" and a: "a = [] \<or> last a = c" and b: "b = [] \<or> hd b = c" by blast
  have "f \<in> set (Split c (f @ b))"
  proof (cases b)
    case (Cons y b')
    then have "Split c (f @ b) = f # Split c b'" using b Split_append_sep [OF assms] by simp
    then show ?thesis by simp
  qed (simp add: Split_sep_free [OF assms])
  then show "f \<in> set (Split c q)"
  proof (cases "a = []")
    case False
    then obtain a' where "a = a' @ [c]" using a by (metis append_butlast_last_id)
    then have "Split c q = Split c a' @ Split c (f @ b)" unfolding q using Split_append [of c a' "f @ b"] by simp
    then show ?thesis using \<open>f \<in> set (Split c (f @ b))\<close> by simp
  qed (simp add: q)
qed

lemma flag_at_iff:
  assumes "i + length f \<le> length q"
  shows "flag_at q f i \<longleftrightarrow> (\<exists>a b. q = a @ f @ b \<and> length a = i \<and> (a = [] \<or> last a = CHR ''&'') \<and> (b = [] \<or> hd b = CHR ''&''))"
proof
  assume at: "flag_at q f i"
  let ?a = "take i q" and ?b = "drop (i + length f) q"
  have "q = ?a @ f @ ?b"
    using at by (metis append_take_drop_id drop_drop flag_at_def add.commute)
  moreover have "?a = [] \<or> last ?a = CHR ''&''"
  proof (cases i)
    case (Suc n)
    then have "n < length q \<or> q = []" using assms by auto
    then show ?thesis using at Suc by (auto simp: flag_at_def take_Suc_conv_app_nth)
  qed simp
  moreover have "?b = [] \<or> hd ?b = CHR ''&''"
    using at assms by (cases "i + length f = length q") (auto simp: flag_at_def hd_drop_conv_nth)
  moreover have "length ?a = i" using assms by simp
  ultimately show "\<exists>a b. q = a @ f @ b \<and> length a = i \<and> (a = [] \<or> last a = CHR ''&'') \<and> (b = [] \<or> hd b = CHR ''&'')"
    by blast
next
  assume "\<exists>a b. q = a @ f @ b \<and> length a = i \<and> (a = [] \<or> last a = CHR ''&'') \<and> (b = [] \<or> hd b = CHR ''&'')"
  then obtain a b where q: "q = a @ f @ b" "length a = i" "a = [] \<or> last a = CHR ''&''" "b = [] \<or> hd b = CHR ''&''" by blast
  have "i = 0 \<or> q ! (i - 1) = CHR ''&''"
    using q by (cases "a = []") (auto simp: nth_append last_conv_nth)
  moreover have "i + length f = length q \<or> q ! (i + length f) = CHR ''&''"
    using q by (cases b) (auto simp: nth_append)
  ultimately show "flag_at q f i" using q by (simp add: flag_at_def)
qed

lemma containsQueryFlag_exact:
  assumes "CHR ''&'' \<notin> set f"
  shows "containsQueryFlag q f \<longleftrightarrow> f \<in> set (Split CHR ''&'' q)"
proof (cases "length q < length f")
  case True
  then show ?thesis using Split_member [OF assms, of q] by (auto simp: containsQueryFlag_def)
next
  case False
  let ?parts = "\<lambda>a b. q = a @ f @ b \<and> (a = [] \<or> last a = CHR ''&'') \<and> (b = [] \<or> hd b = CHR ''&'')"
  have "list_ex (flag_at q f) [0..<Suc (length q - length f)] \<longleftrightarrow> (\<exists>i. i + length f \<le> length q \<and> flag_at q f i)"
  proof -
    have "i < Suc (length q - length f) \<longleftrightarrow> i + length f \<le> length q" for i using False by linarith
    moreover have "list_ex (flag_at q f) [0..<n] \<longleftrightarrow> (\<exists>i<n. flag_at q f i)" for n
      by (auto simp: list_ex_iff)
    ultimately show ?thesis by (simp only:)
  qed
  also have "\<dots> \<longleftrightarrow> (\<exists>a b. length a + length f \<le> length q \<and> ?parts a b)"
  proof (rule iffI)
    assume "\<exists>i. i + length f \<le> length q \<and> flag_at q f i"
    then obtain i where i: "i + length f \<le> length q" "flag_at q f i" by blast
    obtain a b where ab: "q = a @ f @ b" "length a = i" "a = [] \<or> last a = CHR ''&''" "b = [] \<or> hd b = CHR ''&''"
      using i(2) unfolding flag_at_iff [OF i(1)] by (elim exE conjE) (rule that)
    show "\<exists>a b. length a + length f \<le> length q \<and> ?parts a b"
      by (rule exI [of _ a], rule exI [of _ b]) (use ab i(1) in simp)
  next
    assume "\<exists>a b. length a + length f \<le> length q \<and> ?parts a b"
    then obtain a b where ab: "length a + length f \<le> length q" "?parts a b" by (elim exE conjE) (rule that; simp)
    then have "flag_at q f (length a)" unfolding flag_at_iff [OF ab(1)] by (intro exI [of _ a] exI [of _ b]) simp
    then show "\<exists>i. i + length f \<le> length q \<and> flag_at q f i" using ab(1) by (intro exI [of _ "length a"]) simp
  qed
  also have "\<dots> \<longleftrightarrow> f \<in> set (Split CHR ''&'' q)"
  proof -
    have "?parts a b \<Longrightarrow> length a + length f \<le> length q" for a b by simp
    then show ?thesis unfolding Split_member [OF assms] by blast
  qed
  finally have "list_ex (flag_at q f) [0..<Suc (length q - length f)] \<longleftrightarrow> f \<in> set (Split CHR ''&'' q)" .
  moreover have "f \<in> set (Split CHR ''&'' f)" by (simp add: Split_sep_free [OF assms])
  ultimately show ?thesis using False by (auto simp: containsQueryFlag_def simp del: upt_Suc)
qed

text \<open>Which texts are read as the topology page: all whose query has the three parameters, whatever else it asks for.\<close>

lemma prefix_rest: "(\<exists>q. s = p @ q \<and> P q) \<longleftrightarrow> length p \<le> length s \<and> take (length p) s = p \<and> P (drop (length p) s)"
  by (metis append_eq_conv_conj append_take_drop_id length_append le_add1)

lemma isTopologyJSZ_exact:
  "isTopologyJSZ path \<longleftrightarrow> (\<exists>q. path = ''/jsz?'' @ q \<and> {''streams=1'', ''consumers=1'', ''config=1''} \<subseteq> set (Split CHR ''&'' q))"
proof -
  have "length ''/jsz?'' = 5" by simp
  then have "(\<exists>q. path = ''/jsz?'' @ q \<and> P q) \<longleftrightarrow> \<not> length path < 5 \<and> take 5 path = ''/jsz?'' \<and> P (drop 5 path)" for P
    using prefix_rest [of path "''/jsz?''" P] by (metis not_less)
  then show ?thesis
    unfolding isTopologyJSZ_def by (simp add: containsQueryFlag_exact)
qed


text \<open>A request for one account is answered with the page of all accounts, and a scrape that began before a
  change is shown after the change has dropped the snapshot.\<close>

lemma account_filter_lost:
  "normalizeMonitoringPath ''/jsz?account=A&config=1&consumers=1&streams=1'' = TopologyJSZPath"
  by code_simp

lemma late_scrape_shown:
  "c \<noteq> [] \<Longrightarrow> sn_CapturedAt old = Some t \<Longrightarrow> shown (ops @ [HInvalidate c, HPublish c old now]) c = Some old"
  by (simp add: shown_def)

section \<open>The broker\<close>

definition DefaultConnzInterval :: duration where "DefaultConnzInterval = Second"
definition DefaultReplicasScrapeTimeout :: duration where "DefaultReplicasScrapeTimeout = 6 * Second"
definition maxReplicasScrapeTimeout :: duration where "maxReplicasScrapeTimeout = 8 * Second"
definition replicasMonitorHopTimeout :: duration where "replicasMonitorHopTimeout = Second"
definition connzSubscriberBuffer :: nat where "connzSubscriberBuffer = 4"

definition ReplicasScrapeTimeout :: "int \<Rightarrow> duration" where
  "ReplicasScrapeTimeout candidateCount =
     (let n = (if candidateCount < 1 then 1 else candidateCount);
          d = max (n * 2 * replicasMonitorHopTimeout + 3 * Second) DefaultReplicasScrapeTimeout
      in if d > maxReplicasScrapeTimeout then maxReplicasScrapeTimeout else d)"

text \<open>
  A cluster that is watched.  No payload is the empty text; the fingerprint is None until there is one.
\<close>

record 'f connzCluster =
  cz_listeners :: "nat list"
  cz_stopped :: bool
  cz_latest :: string
  cz_fp :: "'f option"
  cz_fail :: int
  cz_scraping :: bool

definition new_cluster :: "'f connzCluster" where
  "new_cluster = \<lparr>cz_listeners = [], cz_stopped = False, cz_latest = [], cz_fp = None, cz_fail = 0, cz_scraping = False\<rparr>"

text \<open>Where a scrape is: fetching, about to publish a replacement, or sending to the listeners left.\<close>

datatype scrape_phase = Fetching | Publishing string | Sending string "nat list"

record 'f BrokerConfig =
  bc_fingerprint :: "string \<Rightarrow> 'f"
  bc_onFetchError :: "(string \<Rightarrow> string \<Rightarrow> string) option"
  bc_fetchErrorThreshold :: int

text \<open>
  The broker with what its goroutines hold: the watched clusters, which point to entries that loops and
  scrapes may outlive; the loops and the scrapes by entry; the buffers of the channels; the subscriptions
  that have not been given up; and for the statements below, the cluster of each channel and what was
  published for a cluster.  Closing a closed channel panics.
\<close>

record 'f ConnzBroker =
  cb_clusters :: "(string, nat) gomap"
  cb_entries :: "(nat, 'f connzCluster) gomap"
  cb_nextEntry :: nat
  cb_loops :: "(nat, string) gomap"
  cb_scrapes :: "(nat, string \<times> scrape_phase) gomap"
  cb_chans :: "(nat, string list) gomap"
  cb_nextChan :: nat
  cb_open :: "(nat, string) gomap"
  cb_owner :: "(nat, string) gomap"
  cb_published :: "(string \<times> string) list"
  cb_panicked :: bool

definition NewConnzBroker :: "'f ConnzBroker" where
  "NewConnzBroker = \<lparr>cb_clusters = [], cb_entries = [], cb_nextEntry = 0, cb_loops = [], cb_scrapes = [], cb_chans = [],
     cb_nextChan = 0, cb_open = [], cb_owner = [], cb_published = [], cb_panicked = False\<rparr>"

definition set_entry :: "nat \<Rightarrow> 'f connzCluster \<Rightarrow> 'f ConnzBroker \<Rightarrow> 'f ConnzBroker" where
  "set_entry e z b = b\<lparr>cb_entries := AList.update e z (cb_entries b)\<rparr>"

text \<open>The entry of a cluster, made with its loop when nobody watched it.\<close>

definition ensure_entry :: "string \<Rightarrow> 'f ConnzBroker \<Rightarrow> nat \<times> 'f connzCluster \<times> 'f ConnzBroker" where
  "ensure_entry clusterID b =
     (let fresh = (cb_nextEntry b, new_cluster,
            b\<lparr>cb_clusters := AList.update clusterID (cb_nextEntry b) (cb_clusters b),
              cb_nextEntry := Suc (cb_nextEntry b),
              cb_loops := AList.update (cb_nextEntry b) clusterID (cb_loops b)\<rparr>)
      in (case map_of (cb_clusters b) clusterID of
            None \<Rightarrow> fresh
          | Some e \<Rightarrow> (case map_of (cb_entries b) e of None \<Rightarrow> fresh | Some z \<Rightarrow> (e, z, b))))"

definition connz_subscribe :: "string \<Rightarrow> 'f ConnzBroker \<Rightarrow> (nat \<times> string) option \<times> 'f ConnzBroker" where
  "connz_subscribe clusterID b =
     (if IsEmpty clusterID then (None, b)
      else
        (let ch = cb_nextChan b; (e, z, b1) = ensure_entry clusterID b;
             b2 = set_entry e (z\<lparr>cz_listeners := cz_listeners z @ [ch]\<rparr>) b1
         in (Some (ch, cz_latest z),
             b2\<lparr>cb_nextChan := Suc ch, cb_chans := AList.update ch [] (cb_chans b2),
                cb_open := AList.update ch clusterID (cb_open b2), cb_owner := AList.update ch clusterID (cb_owner b2)\<rparr>)))"

definition connz_unsubscribe :: "string \<Rightarrow> nat \<Rightarrow> 'f ConnzBroker \<Rightarrow> 'f ConnzBroker" where
  "connz_unsubscribe clusterID ch b =
     (case map_of (cb_clusters b) clusterID of
        None \<Rightarrow> b
      | Some e \<Rightarrow>
          (case map_of (cb_entries b) e of
             None \<Rightarrow> b
           | Some z \<Rightarrow>
               (let l = removeAll ch (cz_listeners z) in
                if length l > 0 then set_entry e (z\<lparr>cz_listeners := l\<rparr>) b
                else set_entry e (z\<lparr>cz_listeners := l, cz_stopped := True\<rparr>)
                       (b\<lparr>cb_clusters := AList.delete clusterID (cb_clusters b),
                          cb_panicked := (cb_panicked b \<or> cz_stopped z)\<rparr>))))"

text \<open>The function returned to the subscriber, which runs once.\<close>

definition unsubscribe_once :: "nat \<Rightarrow> 'f ConnzBroker \<Rightarrow> 'f ConnzBroker" where
  "unsubscribe_once ch b =
     (case map_of (cb_open b) ch of
        None \<Rightarrow> b
      | Some clusterID \<Rightarrow> connz_unsubscribe clusterID ch (b\<lparr>cb_open := AList.delete ch (cb_open b)\<rparr>))"

definition kickScrape :: "string \<Rightarrow> nat \<Rightarrow> 'f ConnzBroker \<Rightarrow> 'f ConnzBroker" where
  "kickScrape clusterID e b =
     (case map_of (cb_entries b) e of
        None \<Rightarrow> b
      | Some z \<Rightarrow>
          if cz_scraping z then b
          else set_entry e (z\<lparr>cz_scraping := True\<rparr>)
                 (b\<lparr>cb_scrapes := AList.update e (clusterID, Fetching) (cb_scrapes b)\<rparr>))"

text \<open>The loop: it kicks a scrape at its start and at each tick, until it sees that it is stopped.\<close>

definition loop_tick :: "nat \<Rightarrow> 'f ConnzBroker \<Rightarrow> 'f ConnzBroker" where
  "loop_tick e b = (case map_of (cb_loops b) e of None \<Rightarrow> b | Some clusterID \<Rightarrow> kickScrape clusterID e b)"

definition loop_stop :: "nat \<Rightarrow> 'f ConnzBroker \<Rightarrow> 'f ConnzBroker" where
  "loop_stop e b =
     (case map_of (cb_entries b) e of
        None \<Rightarrow> b
      | Some z \<Rightarrow> if cz_stopped z then b\<lparr>cb_loops := AList.delete e (cb_loops b)\<rparr> else b)"

text \<open>The section of \<^verbatim>\<open>publishFetchError\<close> and the replacement it asks for.\<close>

definition publishFetchError ::
  "'f BrokerConfig \<Rightarrow> string \<Rightarrow> nat \<Rightarrow> 'f connzCluster \<Rightarrow> 'f ConnzBroker \<Rightarrow> string option \<times> 'f ConnzBroker" where
  "publishFetchError cfg clusterID e z b =
     (if map_of (cb_clusters b) clusterID \<noteq> Some e then (None, b)
      else
        (let fails = cz_fail z + 1; b1 = set_entry e (z\<lparr>cz_fail := fails\<rparr>) b;
             threshold = (if bc_fetchErrorThreshold cfg \<le> 0 then 2 else bc_fetchErrorThreshold cfg)
         in (case bc_onFetchError cfg of
               None \<Rightarrow> (None, b1)
             | Some fallback \<Rightarrow>
                 if fails < threshold then (None, b1)
                 else (let data = fallback clusterID (cz_latest z) in (if length data = 0 then None else Some data, b1)))))"

text \<open>The section of \<^verbatim>\<open>publishPayload\<close>: the listeners to send to, if there is news.\<close>

definition publishPayload ::
  "'f BrokerConfig \<Rightarrow> string \<Rightarrow> nat \<Rightarrow> 'f connzCluster \<Rightarrow> string \<Rightarrow> bool \<Rightarrow> 'f ConnzBroker \<Rightarrow> nat list option \<times> 'f ConnzBroker" where
  "publishPayload cfg clusterID e z data resetFails b =
     (let fp = bc_fingerprint cfg data in
      if map_of (cb_clusters b) clusterID \<noteq> Some e then (None, b)
      else
        (let z1 = (if resetFails then z\<lparr>cz_fail := 0\<rparr> else z) in
         if cz_fp z1 = Some fp then (None, set_entry e z1 b)
         else (Some (cz_listeners z1),
               set_entry e (z1\<lparr>cz_latest := data, cz_fp := Some fp\<rparr>)
                 (b\<lparr>cb_published := (clusterID, data) # cb_published b\<rparr>))))"

definition scrape_phase_to :: "nat \<Rightarrow> string \<Rightarrow> scrape_phase \<Rightarrow> 'f ConnzBroker \<Rightarrow> 'f ConnzBroker" where
  "scrape_phase_to e clusterID ph b = b\<lparr>cb_scrapes := AList.update e (clusterID, ph) (cb_scrapes b)\<rparr>"

text \<open>The end of a scrape clears the flag.\<close>

definition scrape_done :: "nat \<Rightarrow> 'f ConnzBroker \<Rightarrow> 'f ConnzBroker" where
  "scrape_done e b =
     (case map_of (cb_entries b) e of
        None \<Rightarrow> b
      | Some z \<Rightarrow> set_entry e (z\<lparr>cz_scraping := False\<rparr>) (b\<lparr>cb_scrapes := AList.delete e (cb_scrapes b)\<rparr>))"

definition after_payload :: "nat \<Rightarrow> string \<Rightarrow> string \<Rightarrow> nat list option \<times> 'f ConnzBroker \<Rightarrow> 'f ConnzBroker" where
  "after_payload e clusterID data r =
     (case r of
        (None, b) \<Rightarrow> scrape_done e b
      | (Some listeners, b) \<Rightarrow> scrape_phase_to e clusterID (Sending data listeners) b)"

definition after_fetch_error :: "nat \<Rightarrow> string \<Rightarrow> string option \<times> 'f ConnzBroker \<Rightarrow> 'f ConnzBroker" where
  "after_fetch_error e clusterID r =
     (case r of (None, b) \<Rightarrow> scrape_done e b | (Some d, b) \<Rightarrow> scrape_phase_to e clusterID (Publishing d) b)"

text \<open>The fetch of a scrape has come back, with a payload or none.\<close>

definition scrape_fetched :: "'f BrokerConfig \<Rightarrow> nat \<Rightarrow> string \<Rightarrow> 'f ConnzBroker \<Rightarrow> 'f ConnzBroker" where
  "scrape_fetched cfg e data b =
     (case (map_of (cb_scrapes b) e, map_of (cb_entries b) e) of
        (Some (clusterID, Fetching), Some z) \<Rightarrow>
          if length data = 0 then
            after_fetch_error e clusterID (publishFetchError cfg clusterID e z b)
          else after_payload e clusterID data (publishPayload cfg clusterID e z data True b)
      | _ \<Rightarrow> b)"

definition scrape_publish :: "'f BrokerConfig \<Rightarrow> nat \<Rightarrow> 'f ConnzBroker \<Rightarrow> 'f ConnzBroker" where
  "scrape_publish cfg e b =
     (case (map_of (cb_scrapes b) e, map_of (cb_entries b) e) of
        (Some (clusterID, Publishing d), Some z) \<Rightarrow>
          after_payload e clusterID d (publishPayload cfg clusterID e z d False b)
      | _ \<Rightarrow> b)"

text \<open>A send to one of the listeners left, in any order; a full buffer drops the payload.\<close>

definition scrape_send :: "nat \<Rightarrow> nat \<Rightarrow> 'f ConnzBroker \<Rightarrow> 'f ConnzBroker" where
  "scrape_send e ch b =
     (case map_of (cb_scrapes b) e of
        Some (clusterID, Sending d listeners) \<Rightarrow>
          if ch \<in> set listeners then
            (let b1 = scrape_phase_to e clusterID (Sending d (remove1 ch listeners)) b in
             case map_of (cb_chans b) ch of
               None \<Rightarrow> b1
             | Some q \<Rightarrow> if length q < connzSubscriberBuffer then b1\<lparr>cb_chans := AList.update ch (q @ [d]) (cb_chans b)\<rparr>
                         else b1)
          else b
      | _ \<Rightarrow> b)"

definition scrape_end :: "nat \<Rightarrow> 'f ConnzBroker \<Rightarrow> 'f ConnzBroker" where
  "scrape_end e b =
     (case map_of (cb_scrapes b) e of
        Some (clusterID, Sending d []) \<Rightarrow> scrape_done e b
      | _ \<Rightarrow> b)"

definition connz_receive :: "nat \<Rightarrow> 'f ConnzBroker \<Rightarrow> 'f ConnzBroker" where
  "connz_receive ch b =
     (case map_of (cb_chans b) ch of None \<Rightarrow> b | Some q \<Rightarrow> b\<lparr>cb_chans := AList.update ch (tl q) (cb_chans b)\<rparr>)"

datatype broker_event =
    BSubscribe string | BUnsubscribe nat | BTick nat | BStop nat | BFetched nat string | BPublish nat
  | BSend nat nat | BEnd nat | BReceive nat

fun broker_step :: "'f BrokerConfig \<Rightarrow> broker_event \<Rightarrow> 'f ConnzBroker \<Rightarrow> 'f ConnzBroker" where
  "broker_step cfg (BSubscribe c) b = snd (connz_subscribe c b)"
| "broker_step cfg (BUnsubscribe ch) b = unsubscribe_once ch b"
| "broker_step cfg (BTick e) b = loop_tick e b"
| "broker_step cfg (BStop e) b = loop_stop e b"
| "broker_step cfg (BFetched e d) b = scrape_fetched cfg e d b"
| "broker_step cfg (BPublish e) b = scrape_publish cfg e b"
| "broker_step cfg (BSend e ch) b = scrape_send e ch b"
| "broker_step cfg (BEnd e) b = scrape_end e b"
| "broker_step cfg (BReceive ch) b = connz_receive ch b"

definition broker_run :: "'f BrokerConfig \<Rightarrow> broker_event list \<Rightarrow> 'f ConnzBroker" where
  "broker_run cfg evs = fold (broker_step cfg) evs NewConnzBroker"

definition ActiveClusters :: "'f ConnzBroker \<Rightarrow> nat" where
  "ActiveClusters b = length (cb_clusters b)"

definition SubscriberCount :: "'f ConnzBroker \<Rightarrow> string \<Rightarrow> nat" where
  "SubscriberCount b clusterID =
     (case map_of (cb_clusters b) clusterID of
        None \<Rightarrow> 0
      | Some e \<Rightarrow> (case map_of (cb_entries b) e of None \<Rightarrow> 0 | Some z \<Rightarrow> length (cz_listeners z)))"

subsection \<open>Watched clusters and their loops\<close>

definition subs_ok :: "'f ConnzBroker \<Rightarrow> bool" where
  "subs_ok b \<longleftrightarrow>
     (\<forall>c e. map_of (cb_clusters b) c = Some e \<longrightarrow>
        (\<exists>z. map_of (cb_entries b) e = Some z \<and> \<not> cz_stopped z \<and> cz_listeners z \<noteq> [] \<and>
             set (cz_listeners z) = {ch. map_of (cb_open b) ch = Some c}) \<and> map_of (cb_loops b) e = Some c) \<and>
     (\<forall>ch c. map_of (cb_open b) ch = Some c \<longrightarrow> map_of (cb_clusters b) c \<noteq> None \<and> ch < cb_nextChan b) \<and>
     (\<forall>e c. map_of (cb_loops b) e = Some c \<longrightarrow>
        (\<exists>z. map_of (cb_entries b) e = Some z \<and> (cz_stopped z \<or> map_of (cb_clusters b) c = Some e))) \<and>
     (\<forall>e z. map_of (cb_entries b) e = Some z \<longrightarrow> e < cb_nextEntry b) \<and> \<not> cb_panicked b"

definition same_subs :: "'f ConnzBroker \<Rightarrow> 'f ConnzBroker \<Rightarrow> bool" where
  "same_subs b b' \<longleftrightarrow>
     cb_clusters b' = cb_clusters b \<and> cb_loops b' = cb_loops b \<and> cb_open b' = cb_open b \<and>
     cb_nextEntry b' = cb_nextEntry b \<and> cb_nextChan b' = cb_nextChan b \<and> cb_panicked b' = cb_panicked b \<and>
     cb_owner b' = cb_owner b \<and>
     (\<forall>e. map_option (\<lambda>z. (cz_listeners z, cz_stopped z)) (map_of (cb_entries b') e) =
          map_option (\<lambda>z. (cz_listeners z, cz_stopped z)) (map_of (cb_entries b) e))"

lemma same_subs_refl [simp]: "same_subs b b"
  by (simp add: same_subs_def)

lemma same_subs_trans: "same_subs a b \<Longrightarrow> same_subs b c \<Longrightarrow> same_subs a c"
  by (simp add: same_subs_def)

lemma same_subs_entry:
  assumes "same_subs b b'" "map_of (cb_entries b) e = Some z"
  obtains z' where "map_of (cb_entries b') e = Some z'" "cz_listeners z' = cz_listeners z" "cz_stopped z' = cz_stopped z"
proof -
  have "map_option (\<lambda>z. (cz_listeners z, cz_stopped z)) (map_of (cb_entries b') e) = Some (cz_listeners z, cz_stopped z)"
    using assms by (simp add: same_subs_def)
  then show ?thesis using that by auto
qed

lemma same_subs_entry_back:
  assumes "same_subs b b'" "map_of (cb_entries b') e = Some z'"
  obtains z where "map_of (cb_entries b) e = Some z"
  using assms by (cases "map_of (cb_entries b) e") (auto simp: same_subs_def dest: spec [of _ e])

lemma subs_ok_same:
  assumes "subs_ok b" "same_subs b b'"
  shows "subs_ok b'"
proof -
  have e: "cb_clusters b' = cb_clusters b" "cb_loops b' = cb_loops b" "cb_open b' = cb_open b"
    "cb_nextEntry b' = cb_nextEntry b" "cb_nextChan b' = cb_nextChan b" "cb_panicked b' = cb_panicked b"
    using assms(2) by (simp_all add: same_subs_def)
  show ?thesis
    unfolding subs_ok_def e
    using assms(1) unfolding subs_ok_def
    by (intro conjI allI impI) (metis same_subs_entry [OF assms(2)] same_subs_entry_back [OF assms(2)])+
qed

lemma same_subs_set_entry:
  "map_of (cb_entries b) e = Some z \<Longrightarrow> cz_listeners z' = cz_listeners z \<Longrightarrow> cz_stopped z' = cz_stopped z \<Longrightarrow>
   same_subs b (set_entry e z' b)"
  by (simp add: same_subs_def set_entry_def gomap_simps)

lemma same_subs_simps [simp]:
  "same_subs b (b'\<lparr>cb_scrapes := s\<rparr>) = same_subs b b'"
  "same_subs b (b'\<lparr>cb_chans := q\<rparr>) = same_subs b b'"
  "same_subs b (b'\<lparr>cb_published := p\<rparr>) = same_subs b b'"
  by (simp_all add: same_subs_def)

lemma set_entry_simps [simp]:
  "cb_entries (set_entry e z b) = AList.update e z (cb_entries b)"
  "cb_clusters (set_entry e z b) = cb_clusters b" "cb_loops (set_entry e z b) = cb_loops b"
  "cb_scrapes (set_entry e z b) = cb_scrapes b" "cb_chans (set_entry e z b) = cb_chans b"
  "cb_open (set_entry e z b) = cb_open b" "cb_owner (set_entry e z b) = cb_owner b"
  "cb_published (set_entry e z b) = cb_published b" "cb_nextEntry (set_entry e z b) = cb_nextEntry b"
  "cb_nextChan (set_entry e z b) = cb_nextChan b" "cb_panicked (set_entry e z b) = cb_panicked b"
  by (simp_all add: set_entry_def)

lemma same_subs_done: "same_subs b (scrape_done e b)"
  by (auto simp: scrape_done_def same_subs_def gomap_simps split: option.split)

lemma same_subs_to: "same_subs b (scrape_phase_to e c ph b)"
  by (simp add: scrape_phase_to_def)

lemma same_subs_payload:
  "map_of (cb_entries b) e = Some z \<Longrightarrow> same_subs b (snd (publishPayload cfg c e z data resetFails b))"
  by (auto simp: publishPayload_def Let_def same_subs_def gomap_simps)

lemma same_subs_fetch_error:
  "map_of (cb_entries b) e = Some z \<Longrightarrow> same_subs b (snd (publishFetchError cfg c e z b))"
  by (auto simp: publishFetchError_def Let_def same_subs_def gomap_simps split: option.split)

lemma same_subs_after: "same_subs b (after_payload e c d (r, b))"
  using same_subs_done same_subs_to by (auto simp: after_payload_def split: option.split)

lemma same_subs_publish:
  assumes "map_of (cb_entries b) e = Some z"
  shows "same_subs b (after_payload e c d (publishPayload cfg c e z d f b))"
  using same_subs_trans [OF same_subs_payload [OF assms] same_subs_after] by (metis prod.collapse)

lemma same_subs_error:
  assumes "map_of (cb_entries b) e = Some z"
  shows "same_subs b (after_fetch_error e c (publishFetchError cfg c e z b))"
  using same_subs_fetch_error [OF assms, of cfg c] same_subs_done same_subs_to same_subs_trans
  by (fastforce simp: after_fetch_error_def split: option.split prod.split)

lemma same_subs_step:
  "same_subs b (loop_tick e b)" "same_subs b (scrape_fetched cfg e d b)" "same_subs b (scrape_publish cfg e b)"
  "same_subs b (scrape_send e ch b)" "same_subs b (scrape_end e b)" "same_subs b (connz_receive ch b)"
proof -
  show "same_subs b (loop_tick e b)"
    by (auto simp: loop_tick_def kickScrape_def same_subs_def gomap_simps split: option.split)
  show "same_subs b (scrape_publish cfg e b)"
    using same_subs_publish by (auto simp: scrape_publish_def split: option.split prod.split scrape_phase.split)
  show "same_subs b (scrape_send e ch b)"
    using same_subs_to by (auto simp: scrape_send_def Let_def split: option.split prod.split scrape_phase.split)
  show "same_subs b (scrape_end e b)"
    using same_subs_done by (auto simp: scrape_end_def split: option.split prod.split scrape_phase.split list.split)
  show "same_subs b (connz_receive ch b)"
    by (auto simp: connz_receive_def split: option.split)
  show "same_subs b (scrape_fetched cfg e d b)"
    using same_subs_publish same_subs_error
    by (auto simp: scrape_fetched_def split: option.split prod.split scrape_phase.split)
qed

lemma subs_okD:
  assumes "subs_ok b" "map_of (cb_clusters b) c = Some e"
  obtains z where "map_of (cb_entries b) e = Some z" "\<not> cz_stopped z" "cz_listeners z \<noteq> []"
    "set (cz_listeners z) = {ch. map_of (cb_open b) ch = Some c}" "map_of (cb_loops b) e = Some c"
  using assms unfolding subs_ok_def by blast

lemma subs_ok_loop:
  assumes "subs_ok b" "map_of (cb_loops b) e = Some c"
  obtains z where "map_of (cb_entries b) e = Some z" "cz_stopped z \<or> map_of (cb_clusters b) c = Some e"
  using assms unfolding subs_ok_def by blast

text \<open>What a subscription does to the maps.\<close>

definition subscribed :: "string \<Rightarrow> 'f ConnzBroker \<Rightarrow> nat \<Rightarrow> 'f connzCluster \<Rightarrow> 'f ConnzBroker \<Rightarrow> bool" where
  "subscribed c b e z b' \<longleftrightarrow>
     map_of (cb_clusters b') = (map_of (cb_clusters b))(c \<mapsto> e) \<and>
     map_of (cb_entries b') = (map_of (cb_entries b))(e \<mapsto> z\<lparr>cz_listeners := cz_listeners z @ [cb_nextChan b]\<rparr>) \<and>
     map_of (cb_loops b') = (map_of (cb_loops b))(e \<mapsto> c) \<and>
     map_of (cb_open b') = (map_of (cb_open b))(cb_nextChan b \<mapsto> c) \<and>
     map_of (cb_owner b') = (map_of (cb_owner b))(cb_nextChan b \<mapsto> c) \<and>
     map_of (cb_chans b') = (map_of (cb_chans b))(cb_nextChan b \<mapsto> []) \<and>
     cb_nextChan b' = Suc (cb_nextChan b) \<and> cb_nextEntry b \<le> cb_nextEntry b' \<and> e < cb_nextEntry b' \<and>
     cb_panicked b' = cb_panicked b \<and> cb_scrapes b' = cb_scrapes b \<and> cb_published b' = cb_published b \<and>
     ((map_of (cb_clusters b) c = Some e \<and> map_of (cb_entries b) e = Some z \<and> map_of (cb_loops b) e = Some c) \<or>
      (map_of (cb_clusters b) c = None \<and> e = cb_nextEntry b \<and> z = new_cluster))"

lemma subscribe_cases:
  assumes "subs_ok b" "c \<noteq> []"
  obtains e z where "subscribed c b e z (snd (connz_subscribe c b))"
proof (cases "map_of (cb_clusters b) c")
  case None
  then have "subscribed c b (cb_nextEntry b) new_cluster (snd (connz_subscribe c b))"
    using assms(2) by (simp add: subscribed_def connz_subscribe_def ensure_entry_def Let_def gomap_simps)
  then show ?thesis by (rule that)
next
  case (Some e)
  then obtain z where z: "map_of (cb_entries b) e = Some z" "map_of (cb_loops b) e = Some c" by (rule subs_okD [OF assms(1)])
  moreover have "e < cb_nextEntry b" using assms(1) z(1) unfolding subs_ok_def by blast
  ultimately have "subscribed c b e z (snd (connz_subscribe c b))"
    using assms(2) Some
    by (auto simp: subscribed_def connz_subscribe_def ensure_entry_def Let_def gomap_simps fun_eq_iff)
  then show ?thesis by (rule that)
qed

lemma subs_ok_subscribe:
  assumes "subs_ok b"
  shows "subs_ok (snd (connz_subscribe c b))"
proof (cases "c = []")
  case False
  from subscribe_cases [OF assms False] obtain e z where s: "subscribed c b e z (snd (connz_subscribe c b))" .
  let ?b = "snd (connz_subscribe c b)"
  have new: "map_of (cb_open b) (cb_nextChan b) = None"
    using assms unfolding subs_ok_def by (metis less_irrefl not_None_eq)
  have fresh: "e' < cb_nextEntry b" if "map_of (cb_entries b) e' = Some z'" for e' z'
    using assms that unfolding subs_ok_def by blast
  have none: "{ch. map_of (cb_open b) ch = Some c} = {}" if "map_of (cb_clusters b) c = None"
    using assms that unfolding subs_ok_def by blast
  have z: "\<not> cz_stopped z \<and> set (cz_listeners z) = {ch. map_of (cb_open b) ch = Some c}"
  proof (cases "map_of (cb_clusters b) c")
    case None
    then show ?thesis using s none by (simp add: subscribed_def new_cluster_def)
  next
    case (Some e')
    then show ?thesis using s subs_okD [OF assms Some] by (auto simp: subscribed_def)
  qed
  have other: "e' \<noteq> e" if old: "map_of (cb_clusters b) c' = Some e'" "c' \<noteq> c" for c' e'
  proof -
    obtain z' where "map_of (cb_entries b) e' = Some z'" "map_of (cb_loops b) e' = Some c'"
      by (rule subs_okD [OF assms old(1)])
    then show ?thesis using s fresh [of e' z'] old(2) by (auto simp: subscribed_def)
  qed
  show ?thesis
    unfolding subs_ok_def
  proof (intro conjI allI impI)
    fix c' e' assume c': "map_of (cb_clusters ?b) c' = Some e'"
    show "\<exists>z'. map_of (cb_entries ?b) e' = Some z' \<and> \<not> cz_stopped z' \<and> cz_listeners z' \<noteq> [] \<and>
        set (cz_listeners z') = {ch. map_of (cb_open ?b) ch = Some c'}"
    proof (cases "c' = c")
      case True
      then show ?thesis using s c' z new by (auto simp: subscribed_def)
    next
      case False
      then have "map_of (cb_clusters b) c' = Some e'" using s c' by (simp add: subscribed_def)
      moreover from this obtain z' where "map_of (cb_entries b) e' = Some z'" "\<not> cz_stopped z'" "cz_listeners z' \<noteq> []"
        "set (cz_listeners z') = {ch. map_of (cb_open b) ch = Some c'}" by (rule subs_okD [OF assms])
      ultimately show ?thesis using s other False new by (auto simp: subscribed_def)
    qed
    show "map_of (cb_loops ?b) e' = Some c'"
      using s c' other assms unfolding subs_ok_def by (auto simp: subscribed_def split: if_splits)
  next
    fix e' c' assume l: "map_of (cb_loops ?b) e' = Some c'"
    show "\<exists>z'. map_of (cb_entries ?b) e' = Some z' \<and> (cz_stopped z' \<or> map_of (cb_clusters ?b) c' = Some e')"
    proof (cases "e' = e")
      case True
      then show ?thesis using s l by (auto simp: subscribed_def)
    next
      case False
      then have "map_of (cb_loops b) e' = Some c'" using s l by (simp add: subscribed_def)
      then obtain z' where z': "map_of (cb_entries b) e' = Some z'" "cz_stopped z' \<or> map_of (cb_clusters b) c' = Some e'"
        using assms unfolding subs_ok_def by blast
      have "c' \<noteq> c" if "map_of (cb_clusters b) c' = Some e'"
        using s False that by (auto simp: subscribed_def)
      then show ?thesis using s z' False by (auto simp: subscribed_def)
    qed
  next
    fix e' z' assume "map_of (cb_entries ?b) e' = Some z'"
    then show "e' < cb_nextEntry ?b"
      using s fresh [of e'] by (auto simp: subscribed_def split: if_splits)
  qed (use s assms in \<open>auto simp: subscribed_def subs_ok_def less_Suc_eq split: if_splits\<close>)
qed (simp add: connz_subscribe_def assms)

lemma subs_ok_unsubscribe:
  assumes "subs_ok b"
  shows "subs_ok (unsubscribe_once ch b)"
proof (cases "map_of (cb_open b) ch")
  case (Some c)
  then have "map_of (cb_clusters b) c \<noteq> None" using assms by (simp add: subs_ok_def)
  then obtain e where c: "map_of (cb_clusters b) c = Some e" by blast
  obtain z where z: "map_of (cb_entries b) e = Some z" "\<not> cz_stopped z"
    "set (cz_listeners z) = {ch. map_of (cb_open b) ch = Some c}" "map_of (cb_loops b) e = Some c"
    by (rule subs_okD [OF assms c])
  let ?l = "removeAll ch (cz_listeners z)" and ?b = "unsubscribe_once ch b"
  have l: "set ?l = {ch'. map_of (AList.delete ch (cb_open b)) ch' = Some c}"
    using z(3) by (auto simp: gomap_simps)
  have other: "e' \<noteq> e" if old: "map_of (cb_clusters b) c' = Some e'" "c' \<noteq> c" for c' e'
  proof -
    have "map_of (cb_loops b) e' = Some c'" by (rule subs_okD [OF assms old(1)])
    then show ?thesis using z(4) old(2) by auto
  qed
  have kept: "\<exists>z'. map_of (cb_entries b) e' = Some z' \<and> \<not> cz_stopped z' \<and> cz_listeners z' \<noteq> [] \<and>
      set (cz_listeners z') = {ch'. map_of (AList.delete ch (cb_open b)) ch' = Some c'} \<and> map_of (cb_loops b) e' = Some c'"
    if old: "map_of (cb_clusters b) c' = Some e'" "c' \<noteq> c" for c' e'
  proof -
    obtain z' where "map_of (cb_entries b) e' = Some z'" "\<not> cz_stopped z'" "cz_listeners z' \<noteq> []"
      "set (cz_listeners z') = {ch. map_of (cb_open b) ch = Some c'}" "map_of (cb_loops b) e' = Some c'"
      by (rule subs_okD [OF assms old(1)])
    moreover have "{ch'. map_of (AList.delete ch (cb_open b)) ch' = Some c'} = {ch. map_of (cb_open b) ch = Some c'}"
      using Some old(2) by (auto simp: gomap_simps)
    ultimately show ?thesis by auto
  qed
  show ?thesis
  proof (cases "?l = []")
    case False
    then have b: "?b = set_entry e (z\<lparr>cz_listeners := ?l\<rparr>) (b\<lparr>cb_open := AList.delete ch (cb_open b)\<rparr>)"
      using Some c z(1) by (simp add: unsubscribe_once_def connz_unsubscribe_def Let_def)
    show ?thesis
      unfolding subs_ok_def
    proof (intro conjI allI impI)
      fix c' e' assume c': "map_of (cb_clusters ?b) c' = Some e'"
      show "\<exists>z'. map_of (cb_entries ?b) e' = Some z' \<and> \<not> cz_stopped z' \<and> cz_listeners z' \<noteq> [] \<and>
          set (cz_listeners z') = {ch. map_of (cb_open ?b) ch = Some c'}"
        using c' kept [of c' e'] other [of c' e'] c z(2) l False by (cases "c' = c") (auto simp: b gomap_simps)
      show "map_of (cb_loops ?b) e' = Some c'"
        using c' assms unfolding subs_ok_def by (simp add: b)
    next
      fix e' c' assume "map_of (cb_loops ?b) e' = Some c'"
      then have lp: "map_of (cb_loops b) e' = Some c'" by (simp add: b)
      obtain z' where "map_of (cb_entries b) e' = Some z'" "cz_stopped z' \<or> map_of (cb_clusters b) c' = Some e'"
        by (rule subs_ok_loop [OF assms lp])
      then show "\<exists>z'. map_of (cb_entries ?b) e' = Some z' \<and> (cz_stopped z' \<or> map_of (cb_clusters ?b) c' = Some e')"
        using z(1) by (cases "e' = e") (auto simp: b gomap_simps)
    qed (use assms z(1) in \<open>auto simp: b gomap_simps subs_ok_def split: if_splits\<close>)
  next
    case True
    then have b: "?b = set_entry e (z\<lparr>cz_listeners := [], cz_stopped := True\<rparr>) (b\<lparr>cb_open := AList.delete ch (cb_open b),
        cb_clusters := AList.delete c (cb_clusters b)\<rparr>)"
      using Some c z(1,2) assms by (simp add: unsubscribe_once_def connz_unsubscribe_def Let_def subs_ok_def)
    have gone: "map_of (cb_open b) ch' \<noteq> Some c" if "ch' \<noteq> ch" for ch'
      using l True that by (auto simp: gomap_simps dest: spec [of _ ch'])
    show ?thesis
      unfolding subs_ok_def
    proof (intro conjI allI impI)
      fix c' e' assume "map_of (cb_clusters ?b) c' = Some e'"
      then have c': "map_of (cb_clusters b) c' = Some e'" "c' \<noteq> c" by (auto simp: b gomap_simps split: if_splits)
      show "\<exists>z'. map_of (cb_entries ?b) e' = Some z' \<and> \<not> cz_stopped z' \<and> cz_listeners z' \<noteq> [] \<and>
          set (cz_listeners z') = {ch. map_of (cb_open ?b) ch = Some c'}"
        using kept [OF c'] other [OF c'] by (auto simp: b gomap_simps)
      show "map_of (cb_loops ?b) e' = Some c'"
        using kept [OF c'] by (auto simp: b)
    next
      fix e' c' assume "map_of (cb_loops ?b) e' = Some c'"
      then have lp: "map_of (cb_loops b) e' = Some c'" by (simp add: b)
      obtain z' where "map_of (cb_entries b) e' = Some z'" "cz_stopped z' \<or> map_of (cb_clusters b) c' = Some e'"
        by (rule subs_ok_loop [OF assms lp])
      moreover have "c' \<noteq> c" if "map_of (cb_clusters b) c' = Some e'" "e' \<noteq> e" using that c by auto
      ultimately show "\<exists>z'. map_of (cb_entries ?b) e' = Some z' \<and> (cz_stopped z' \<or> map_of (cb_clusters ?b) c' = Some e')"
        by (cases "e' = e") (auto simp: b gomap_simps)
    qed (use assms z(1) gone in \<open>auto simp: b gomap_simps subs_ok_def split: if_splits\<close>)
  qed
qed (simp add: unsubscribe_once_def assms)

lemma subs_ok_stop:
  assumes "subs_ok b"
  shows "subs_ok (loop_stop e b)"
proof (cases "\<exists>z. map_of (cb_entries b) e = Some z \<and> cz_stopped z")
  case True
  then obtain z where z: "map_of (cb_entries b) e = Some z" "cz_stopped z" by blast
  then have "map_of (cb_clusters b) c \<noteq> Some e" for c using assms unfolding subs_ok_def by fastforce
  then show ?thesis
    using assms z unfolding subs_ok_def by (auto simp: loop_stop_def gomap_simps)
next
  case False
  then have "loop_stop e b = b" by (auto simp: loop_stop_def split: option.split)
  then show ?thesis using assms by simp
qed

lemma subs_ok_step: "subs_ok b \<Longrightarrow> subs_ok (broker_step cfg ev b)"
  by (cases ev) (auto intro: subs_ok_subscribe subs_ok_unsubscribe subs_ok_stop subs_ok_same same_subs_step)

lemma subs_ok_run: "subs_ok (broker_run cfg evs)"
proof -
  have "subs_ok b \<Longrightarrow> subs_ok (fold (broker_step cfg) evs b)" for b
    by (induction evs arbitrary: b) (auto intro: subs_ok_step)
  moreover have "subs_ok NewConnzBroker" by (simp add: subs_ok_def NewConnzBroker_def)
  ultimately show ?thesis by (simp add: broker_run_def)
qed

subsection \<open>One scrape at a time, and whose payloads a channel holds\<close>

text \<open>A scrape runs exactly while the flag of its entry is set.\<close>

definition scrapes_ok :: "'f ConnzBroker \<Rightarrow> bool" where
  "scrapes_ok b \<longleftrightarrow> (\<forall>e. map_of (cb_scrapes b) e \<noteq> None \<longleftrightarrow>
     map_option cz_scraping (map_of (cb_entries b) e) = Some True)"

definition chans_ok :: "'f ConnzBroker \<Rightarrow> bool" where
  "chans_ok b \<longleftrightarrow>
     (\<forall>ch q. map_of (cb_chans b) ch = Some q \<longrightarrow> length q \<le> connzSubscriberBuffer \<and>
        (\<exists>c. map_of (cb_owner b) ch = Some c \<and> (\<forall>d \<in> set q. (c, d) \<in> set (cb_published b)))) \<and>
     (\<forall>e c d l. map_of (cb_scrapes b) e = Some (c, Sending d l) \<longrightarrow>
        (c, d) \<in> set (cb_published b) \<and> (\<forall>ch \<in> set l. map_of (cb_owner b) ch = Some c)) \<and>
     (\<forall>ch c. map_of (cb_open b) ch = Some c \<longrightarrow> map_of (cb_owner b) ch = Some c) \<and>
     (\<forall>ch. map_of (cb_owner b) ch \<noteq> None \<longrightarrow> ch < cb_nextChan b)"

lemma scrapes_ok_entry:
  assumes "scrapes_ok b" "map_of (cb_entries b) e = Some z" "cz_scraping z' = cz_scraping z"
  shows "scrapes_ok (set_entry e z' b)"
  using assms unfolding scrapes_ok_def by (auto simp: gomap_simps split: if_splits)

lemma scrapes_ok_done:
  assumes "scrapes_ok b"
  shows "scrapes_ok (scrape_done e b)"
proof (cases "map_of (cb_entries b) e")
  case None
  then show ?thesis using assms by (simp add: scrape_done_def)
next
  case (Some z)
  then show ?thesis using assms unfolding scrapes_ok_def by (auto simp: scrape_done_def gomap_simps split: if_splits)
qed

lemma scrapes_ok_to:
  assumes "scrapes_ok b" "map_of (cb_scrapes b) e \<noteq> None"
  shows "scrapes_ok (scrape_phase_to e c ph b)"
proof -
  have "map_of (cb_scrapes (scrape_phase_to e c ph b)) e' \<noteq> None \<longleftrightarrow> map_of (cb_scrapes b) e' \<noteq> None" for e'
    using assms(2) by (simp add: scrape_phase_to_def gomap_simps)
  then show ?thesis using assms(1) by (simp add: scrapes_ok_def) (simp add: scrape_phase_to_def)
qed

lemma payload_cases:
  assumes "map_of (cb_entries b) e = Some z"
  obtains "publishPayload cfg c e z d f b = (None, b)"
  | z' where "publishPayload cfg c e z d f b = (None, set_entry e z' b)" "cz_scraping z' = cz_scraping z"
  | z' where "publishPayload cfg c e z d f b = (Some (cz_listeners z), set_entry e z' (b\<lparr>cb_published := (c, d) # cb_published b\<rparr>))"
      "cz_scraping z' = cz_scraping z" "map_of (cb_clusters b) c = Some e"
  unfolding publishPayload_def Let_def
  by (cases "map_of (cb_clusters b) c = Some e"; cases "cz_fp z = Some (bc_fingerprint cfg d)"; cases f) auto

lemma fetch_error_cases:
  obtains r where "publishFetchError cfg c e z b = (r, b)"
  | r z' where "publishFetchError cfg c e z b = (r, set_entry e z' b)" "cz_scraping z' = cz_scraping z"
proof (cases "map_of (cb_clusters b) c = Some e")
  case True
  then have "\<exists>r. publishFetchError cfg c e z b = (r, set_entry e (z\<lparr>cz_fail := cz_fail z + 1\<rparr>) b)"
    by (auto simp: publishFetchError_def Let_def split: option.split)
  then show ?thesis using that(2) by auto
qed (simp add: publishFetchError_def that(1))

lemma scrapes_ok_published [simp]: "scrapes_ok (b\<lparr>cb_published := p\<rparr>) = scrapes_ok b"
  by (simp add: scrapes_ok_def)

lemma scrapes_ok_after:
  assumes "scrapes_ok b" "map_of (cb_entries b) e = Some z" "map_of (cb_scrapes b) e \<noteq> None"
  shows "scrapes_ok (after_payload e c d (publishPayload cfg c e z d f b))"
    and "scrapes_ok (after_fetch_error e c (publishFetchError cfg c e z b))"
proof -
  note ok = scrapes_ok_done scrapes_ok_to scrapes_ok_entry [OF _ assms(2)]
  show "scrapes_ok (after_payload e c d (publishPayload cfg c e z d f b))"
    by (rule payload_cases [OF assms(2), of cfg c d f])
      (use assms in \<open>auto simp: after_payload_def intro!: scrapes_ok_done scrapes_ok_to scrapes_ok_entry\<close>)
  show "scrapes_ok (after_fetch_error e c (publishFetchError cfg c e z b))"
    by (rule fetch_error_cases [of cfg c e z b])
      (use assms in \<open>auto simp: after_fetch_error_def intro!: scrapes_ok_done scrapes_ok_to scrapes_ok_entry split: option.split\<close>)
qed

lemma scrapes_ok_frame:
  assumes "scrapes_ok b" "cb_scrapes b' = cb_scrapes b"
    and "\<And>e. map_option cz_scraping (map_of (cb_entries b') e) = Some True \<longleftrightarrow>
               map_option cz_scraping (map_of (cb_entries b) e) = Some True"
  shows "scrapes_ok b'"
  using assms by (simp add: scrapes_ok_def)

lemma scrapes_ok_subscribe:
  assumes "scrapes_ok b" "subs_ok b"
  shows "scrapes_ok (snd (connz_subscribe c b))"
proof (cases "c = []")
  case False
  from subscribe_cases [OF assms(2) False] obtain e z where s: "subscribed c b e z (snd (connz_subscribe c b))" .
  have "map_of (cb_entries b) (cb_nextEntry b) = None"
    using assms(2) unfolding subs_ok_def by (metis less_irrefl not_None_eq)
  then show ?thesis
    by (intro scrapes_ok_frame [OF assms(1)]) (use s in \<open>auto simp: subscribed_def new_cluster_def\<close>)
qed (simp add: connz_subscribe_def assms)

lemma scrapes_ok_unsubscribe: "scrapes_ok b \<Longrightarrow> scrapes_ok (unsubscribe_once ch b)"
  by (auto simp: scrapes_ok_def unsubscribe_once_def connz_unsubscribe_def Let_def gomap_simps split: option.split)

lemma scrapes_ok_tick:
  assumes "scrapes_ok b"
  shows "scrapes_ok (loop_tick e b)"
  using assms unfolding scrapes_ok_def
  by (auto simp: loop_tick_def kickScrape_def gomap_simps split: option.split)

lemma scrapes_ok_fetched: "scrapes_ok b \<Longrightarrow> scrapes_ok (scrape_fetched cfg e d b)"
  by (auto simp: scrape_fetched_def scrapes_ok_after split: option.split prod.split scrape_phase.split)

lemma scrapes_ok_publish: "scrapes_ok b \<Longrightarrow> scrapes_ok (scrape_publish cfg e b)"
  by (auto simp: scrape_publish_def scrapes_ok_after split: option.split prod.split scrape_phase.split)

lemma scrapes_ok_chans [simp]: "scrapes_ok (b\<lparr>cb_chans := q\<rparr>) = scrapes_ok b"
  by (simp add: scrapes_ok_def)

lemma scrapes_ok_send: "scrapes_ok b \<Longrightarrow> scrapes_ok (scrape_send e ch b)"
  by (auto simp: scrape_send_def Let_def scrapes_ok_to split: option.split prod.split scrape_phase.split)

lemma scrapes_ok_rest:
  "scrapes_ok b \<Longrightarrow> scrapes_ok (scrape_end e b)" "scrapes_ok b \<Longrightarrow> scrapes_ok (connz_receive ch b)"
  "scrapes_ok b \<Longrightarrow> scrapes_ok (loop_stop e b)"
  subgoal by (auto simp: scrape_end_def scrapes_ok_done split: option.split prod.split scrape_phase.split list.split)
  subgoal by (auto simp: connz_receive_def split: option.split)
  subgoal by (auto simp: scrapes_ok_def loop_stop_def split: option.split)
  done

lemma scrapes_ok_step: "scrapes_ok b \<Longrightarrow> subs_ok b \<Longrightarrow> scrapes_ok (broker_step cfg ev b)"
  by (cases ev) (simp_all add: scrapes_ok_subscribe scrapes_ok_unsubscribe scrapes_ok_tick scrapes_ok_fetched
      scrapes_ok_publish scrapes_ok_send scrapes_ok_rest)

lemma chans_ok_entry [simp]: "chans_ok (set_entry e z b) = chans_ok b"
  by (simp add: chans_ok_def)

lemma chans_ok_published: "chans_ok b \<Longrightarrow> chans_ok (b\<lparr>cb_published := x # cb_published b\<rparr>)"
  unfolding chans_ok_def by fastforce

lemma chans_ok_to:
  assumes "chans_ok b"
    and "\<And>d l. ph = Sending d l \<Longrightarrow> (c, d) \<in> set (cb_published b) \<and> (\<forall>ch \<in> set l. map_of (cb_owner b) ch = Some c)"
  shows "chans_ok (scrape_phase_to e c ph b)"
  using assms unfolding chans_ok_def scrape_phase_to_def by (auto simp: gomap_simps split: if_splits)

lemma chans_ok_done: "chans_ok b \<Longrightarrow> chans_ok (scrape_done e b)"
  unfolding chans_ok_def by (auto simp: scrape_done_def gomap_simps split: option.split if_splits)

lemma chans_ok_subscribe:
  assumes "chans_ok b" "subs_ok b"
  shows "chans_ok (snd (connz_subscribe c b))"
proof (cases "c = []")
  case False
  from subscribe_cases [OF assms(2) False] obtain e z where s: "subscribed c b e z (snd (connz_subscribe c b))" .
  have "map_of (cb_owner b) (cb_nextChan b) = None"
    using assms(1) unfolding chans_ok_def by (metis less_irrefl)
  then show ?thesis
    using s assms(1) unfolding chans_ok_def subscribed_def by (auto simp: less_Suc_eq)
qed (simp add: connz_subscribe_def assms)

lemma chans_ok_unsubscribe: "chans_ok b \<Longrightarrow> chans_ok (unsubscribe_once ch b)"
  unfolding chans_ok_def
  by (auto simp: unsubscribe_once_def connz_unsubscribe_def Let_def gomap_simps split: option.split if_splits)

lemma chans_ok_tick: "chans_ok b \<Longrightarrow> chans_ok (loop_tick e b)"
  unfolding chans_ok_def by (auto simp: loop_tick_def kickScrape_def gomap_simps split: option.split if_splits)

lemma chans_ok_payload:
  assumes "chans_ok b" "subs_ok b" "map_of (cb_entries b) e = Some z"
  shows "chans_ok (after_payload e c d (publishPayload cfg c e z d f b))"
proof (rule payload_cases [OF assms(3), of cfg c d f])
  fix z' assume r: "publishPayload cfg c e z d f b = (Some (cz_listeners z), set_entry e z' (b\<lparr>cb_published := (c, d) # cb_published b\<rparr>))"
    and c: "map_of (cb_clusters b) c = Some e"
  have "set (cz_listeners z) = {ch. map_of (cb_open b) ch = Some c}"
    using subs_okD [OF assms(2) c] assms(3) by (metis option.inject)
  then have "\<forall>ch \<in> set (cz_listeners z). map_of (cb_owner b) ch = Some c"
    using assms(1) unfolding chans_ok_def by blast
  then show ?thesis
    unfolding r using chans_ok_published [OF assms(1)] by (auto simp: after_payload_def intro!: chans_ok_to)
qed (use assms in \<open>auto simp: after_payload_def intro!: chans_ok_done\<close>)

lemma chans_ok_error: "chans_ok b \<Longrightarrow> chans_ok (after_fetch_error e c (publishFetchError cfg c e z b))"
  by (rule fetch_error_cases [of cfg c e z b])
    (auto simp: after_fetch_error_def intro!: chans_ok_done chans_ok_to split: option.split)

lemma chans_ok_fetched: "chans_ok b \<Longrightarrow> subs_ok b \<Longrightarrow> chans_ok (scrape_fetched cfg e d b)"
  by (auto simp: scrape_fetched_def chans_ok_payload chans_ok_error split: option.split prod.split scrape_phase.split)

lemma chans_ok_publish: "chans_ok b \<Longrightarrow> subs_ok b \<Longrightarrow> chans_ok (scrape_publish cfg e b)"
  by (auto simp: scrape_publish_def chans_ok_payload split: option.split prod.split scrape_phase.split)

lemma chans_ok_queue:
  assumes "chans_ok b" "length q \<le> connzSubscriberBuffer" "map_of (cb_owner b) ch = Some c"
    and "\<forall>d \<in> set q. (c, d) \<in> set (cb_published b)"
  shows "chans_ok (b\<lparr>cb_chans := AList.update ch q (cb_chans b)\<rparr>)"
  using assms unfolding chans_ok_def by (auto simp: gomap_simps)

lemma chans_ok_send:
  assumes "chans_ok b"
  shows "chans_ok (scrape_send e ch b)"
proof (cases "\<exists>c d l. map_of (cb_scrapes b) e = Some (c, Sending d l) \<and> ch \<in> set l")
  case True
  then obtain c d l where s: "map_of (cb_scrapes b) e = Some (c, Sending d l)" "ch \<in> set l" by blast
  then have d: "(c, d) \<in> set (cb_published b)" "\<forall>ch \<in> set l. map_of (cb_owner b) ch = Some c"
    using assms unfolding chans_ok_def by blast+
  then have ok: "chans_ok (scrape_phase_to e c (Sending d (remove1 ch l)) b)"
    using assms by (auto intro!: chans_ok_to dest: subsetD [OF set_remove1_subset])
  let ?b = "scrape_phase_to e c (Sending d (remove1 ch l)) b"
  have "chans_ok (?b\<lparr>cb_chans := AList.update ch (q @ [d]) (cb_chans b)\<rparr>)"
    if q: "map_of (cb_chans b) ch = Some q" "length q < connzSubscriberBuffer" for q
  proof -
    have "map_of (cb_owner b) ch = Some c" using d s(2) by blast
    moreover from this have "\<forall>d' \<in> set q. (c, d') \<in> set (cb_published b)"
      using assms q(1) unfolding chans_ok_def by (metis option.inject)
    ultimately show ?thesis
      using chans_ok_queue [OF ok, of "q @ [d]" ch c] q(2) d(1) by (simp add: scrape_phase_to_def)
  qed
  then show ?thesis
    using s ok by (auto simp: scrape_send_def Let_def split: option.split)
next
  case False
  then have "scrape_send e ch b = b" by (auto simp: scrape_send_def split: option.split prod.split scrape_phase.split)
  then show ?thesis using assms by simp
qed

lemma chans_ok_rest:
  "chans_ok b \<Longrightarrow> chans_ok (scrape_end e b)" "chans_ok b \<Longrightarrow> chans_ok (loop_stop e b)"
  "chans_ok b \<Longrightarrow> chans_ok (connz_receive ch b)"
  subgoal by (auto simp: scrape_end_def chans_ok_done split: option.split prod.split scrape_phase.split list.split)
  subgoal unfolding chans_ok_def by (auto simp: loop_stop_def split: option.split)
  subgoal
  proof (cases "map_of (cb_chans b) ch")
    case (Some q)
    assume ok: "chans_ok b"
    then obtain c where c: "map_of (cb_owner b) ch = Some c" "\<forall>d \<in> set q. (c, d) \<in> set (cb_published b)"
      "length q \<le> connzSubscriberBuffer"
      using Some unfolding chans_ok_def by blast
    moreover have "set (tl q) \<subseteq> set q" "length (tl q) \<le> length q" by (cases q; auto)+
    ultimately have "chans_ok (b\<lparr>cb_chans := AList.update ch (tl q) (cb_chans b)\<rparr>)"
      by (intro chans_ok_queue [OF ok _ c(1)]) auto
    then show ?thesis using Some by (simp add: connz_receive_def)
  qed (simp add: connz_receive_def)
  done

lemma chans_ok_step: "chans_ok b \<Longrightarrow> subs_ok b \<Longrightarrow> chans_ok (broker_step cfg ev b)"
  by (cases ev) (simp_all add: chans_ok_subscribe chans_ok_unsubscribe chans_ok_tick chans_ok_fetched
      chans_ok_publish chans_ok_send chans_ok_rest)

lemma broker_run_ok: "scrapes_ok (broker_run cfg evs) \<and> chans_ok (broker_run cfg evs)"
proof -
  have "scrapes_ok b \<Longrightarrow> chans_ok b \<Longrightarrow> subs_ok b \<Longrightarrow>
      scrapes_ok (fold (broker_step cfg) evs b) \<and> chans_ok (fold (broker_step cfg) evs b)" for b
    by (induction evs arbitrary: b) (simp_all add: scrapes_ok_step chans_ok_step subs_ok_step)
  moreover have "subs_ok NewConnzBroker" by (simp add: subs_ok_def NewConnzBroker_def)
  moreover have "scrapes_ok NewConnzBroker" "chans_ok NewConnzBroker"
    by (simp_all add: scrapes_ok_def chans_ok_def NewConnzBroker_def)
  ultimately show ?thesis by (simp add: broker_run_def)
qed


definition sample_broker :: "string BrokerConfig" where
  "sample_broker = \<lparr>bc_fingerprint = (\<lambda>d. d), bc_onFetchError = None, bc_fetchErrorThreshold = 0\<rparr>"

text \<open>The events of a scrape whose payload is sent to the first channel.\<close>

definition scraped :: "string \<Rightarrow> broker_event list" where
  "scraped d = [BTick 0, BFetched 0 d, BSend 0 0, BEnd 0]"


text \<open>A payload dropped at a full buffer is not sent again by the next scrape, as long as the page stays the same.\<close>

lemma dropped_not_retried:
  "let b = broker_run sample_broker (BSubscribe ''c1'' # scraped ''p1'' @ scraped ''p2'' @ scraped ''p3'' @ scraped ''p4'' @
       scraped ''p5'' @ [BReceive 0, BReceive 0, BReceive 0, BReceive 0] @ scraped ''p5'')
   in map_of (cb_chans b) 0 = Some [] \<and> map_option cz_latest (map_of (cb_entries b) 0) = Some ''p5''"
  by code_simp

end
