(* ===== verification/View_Cache.thy ===== *)
theory View_Cache
  imports Numbers
begin

text \<open>
  The cache of views (\<^verbatim>\<open>nats/view_cache.go\<close>) and the executor that answers the calls of a cluster through
  it (\<^verbatim>\<open>adapter/nats/gateway.go\<close>): six kinds of reads are answered from the cache for a short time, and
  every call that changes the server drops what is cached of its cluster.

  The NATS server is a parameter: a function from a call and a state of the server to an answer and the
  next state.  Payloads are the answers themselves; their fingerprint is a parameter.
\<close>

section \<open>The cache\<close>

definition defaultViewCacheTTL :: duration where
  "defaultViewCacheTTL = 3 * Second"

record 'p viewCacheEntry =
  ve_expiresAt :: gotime
  ve_payload :: 'p
  ve_etag :: string

record 'p ViewCache =
  vc_items :: "(string, 'p viewCacheEntry) gomap"
  vc_ttl :: duration

definition NewViewCache :: "duration \<Rightarrow> 'p ViewCache" where
  "NewViewCache ttl = \<lparr>vc_items = [], vc_ttl = (if ttl \<le> 0 then defaultViewCacheTTL else ttl)\<rparr>"

definition view_get :: "'p ViewCache \<Rightarrow> string \<Rightarrow> gotime \<Rightarrow> ('p \<times> string) option \<times> 'p ViewCache" where
  "view_get c key now =
     (case map_of (vc_items c) key of
        None \<Rightarrow> (None, c)
      | Some entry \<Rightarrow>
          if now > ve_expiresAt entry then (None, c\<lparr>vc_items := AList.delete key (vc_items c)\<rparr>)
          else (Some (ve_payload entry, ve_etag entry), c))"

definition view_set :: "'p ViewCache \<Rightarrow> string \<Rightarrow> 'p \<Rightarrow> string \<Rightarrow> gotime \<times> gotime \<Rightarrow> 'p ViewCache" where
  "view_set c key payload etag clock =
     (let items = AList.update key \<lparr>ve_expiresAt = fst clock + vc_ttl c, ve_payload = payload, ve_etag = etag\<rparr>
                    (vc_items c)
      in c\<lparr>vc_items := (if length items > 2048 then filter (\<lambda>kv. \<not> snd clock > ve_expiresAt (snd kv)) items
                       else items)\<rparr>)"

definition InvalidatePrefix :: "'p ViewCache \<Rightarrow> string \<Rightarrow> 'p ViewCache" where
  "InvalidatePrefix c prefix =
     (if IsEmpty prefix then c
      else c\<lparr>vc_items := filter (\<lambda>kv. \<not> (length (fst kv) \<ge> length prefix \<and> take (length prefix) (fst kv) = prefix))
                          (vc_items c)\<rparr>)"

definition InvalidateCluster :: "'p ViewCache \<Rightarrow> string \<Rightarrow> 'p ViewCache" where
  "InvalidateCluster c clusterID =
     (if IsEmpty clusterID then c
      else
        (let prefix = clusterID @ ''|''
         in c\<lparr>vc_items := filter (\<lambda>kv. \<not> (length (fst kv) \<ge> length prefix \<and> take (length prefix) (fst kv) = prefix))
                            (vc_items c)\<rparr>))"

text \<open>
  \<^verbatim>\<open>GetOrLoad\<close>: the cache, again inside the single flight, then the load, whose value is kept.  The clock
  is read at each look, after the load and at the purge.
\<close>

definition GetOrLoad ::
  "('p \<Rightarrow> string) \<Rightarrow> string \<Rightarrow> 'e + 'p \<Rightarrow> gotime \<times> gotime \<times> gotime \<times> gotime \<Rightarrow> 'p ViewCache \<Rightarrow>
     ('e + 'p \<times> string) \<times> 'p ViewCache" where
  "GetOrLoad etagOf key load clock c =
     (case clock of (t1, t2, t3, t4) \<Rightarrow>
       (case view_get c key t1 of
          (Some hit, c1) \<Rightarrow> (Inr hit, c1)
        | (None, c1) \<Rightarrow>
            (case view_get c1 key t2 of
               (Some hit, c2) \<Rightarrow> (Inr hit, c2)
             | (None, c2) \<Rightarrow>
                 (case load of
                    Inl e \<Rightarrow> (Inl e, c2)
                  | Inr raw \<Rightarrow> (Inr (raw, etagOf raw), view_set c2 key raw (etagOf raw) (t3, t4))))))"

section \<open>Keys\<close>

definition Itoa :: "int \<Rightarrow> string" where
  "Itoa n = (if n < 0 then CHR ''-'' # FormatUint (nat (- n)) else FormatUint (nat n))"

fun key_parts :: "string list \<Rightarrow> string" where
  "key_parts [] = []"
| "key_parts (p # ps) = CHR ''|'' # p @ key_parts ps"

definition ViewCacheKey :: "string \<Rightarrow> string \<Rightarrow> string list \<Rightarrow> string" where
  "ViewCacheKey clusterID oper parts = clusterID @ CHR ''|'' # oper @ key_parts parts"

section \<open>The executor\<close>

text \<open>
  The calls of \<^verbatim>\<open>port.JetStreamExecutor\<close>: the views that are cached, the calls whose success drops the
  views, and those that are passed on.  Configurations and options are opaque.
\<close>

datatype view =
    AccountInfo
  | ListStreams int int
  | ListConsumers string int int
  | Monitoring string
  | ListKVBuckets
  | ListObjectBuckets

datatype 'a change =
    AddStream 'a
  | UpdateStream 'a
  | DeleteStream string
  | PurgeStream string
  | AddConsumer string 'a
  | UpdateConsumer string 'a
  | DeleteConsumer string string
  | PublishStreamMessage string 'a
  | DeleteMessage string u64
  | RetryDLQMessages string 'a
  | CaptureIncidentCapsule string 'a
  | CaptureIncidentCapsuleFromDLQ string u64
  | CreateKVBucket 'a
  | UpdateKVBucket 'a
  | DeleteKVBucket string
  | PutKVEntry string string string
  | DeleteKVEntry string string
  | CreateObjectBucket 'a
  | UpdateObjectBucket 'a
  | DeleteObjectBucket string
  | PutObject string string string
  | DeleteObject string string

datatype 'a pass =
    StreamNames
  | GetStreamInfo string
  | ConsumerNames string
  | GetConsumerInfo string string
  | ReplayConsumer string string 'a
  | GetMessage string u64
  | GetMessageNav string u64 string
  | GetMessageRange string u64 u64 int
  | GetMessageRangeByTime string gotime gotime int
  | ListDLQMessages string u64 int
  | ListIncidentCapsules string string
  | LoadIncidentCapsule string string
  | PreviewIncidentCapsule string string
  | ProbeRequest string 'a
  | GetKVBucket string
  | ListKVKeys string int int
  | GetKVEntry string string
  | KVHistory string string
  | GetObjectBucket string
  | ListObjects string int int
  | GetObject string string

datatype 'a call = View view | Change "'a change" | Forward "'a pass"

fun view_parts :: "view \<Rightarrow> string \<times> string list" where
  "view_parts AccountInfo = (''account'', [])"
| "view_parts (ListStreams offset limit) = (''streams'', [Itoa offset, Itoa limit])"
| "view_parts (ListConsumers stream offset limit) = (''consumers'', [stream, Itoa offset, Itoa limit])"
| "view_parts (Monitoring path) = (''monitoring'', [path])"
| "view_parts ListKVBuckets = (''kv_buckets'', [])"
| "view_parts ListObjectBuckets = (''obj_buckets'', [])"

definition view_key :: "string \<Rightarrow> view \<Rightarrow> string" where
  "view_key clusterID v = ViewCacheKey clusterID (fst (view_parts v)) (snd (view_parts v))"

text \<open>A retry of dead letters drops the views only if it retried some.\<close>

definition drops_views :: "('r \<Rightarrow> int) \<Rightarrow> 'a change \<Rightarrow> 'e + 'r \<Rightarrow> bool" where
  "drops_views retried c answer =
     (case answer of
        Inl _ \<Rightarrow> False
      | Inr r \<Rightarrow> (case c of RetryDLQMessages _ _ \<Rightarrow> retried r > 0 | _ \<Rightarrow> True))"

text \<open>The server: a view only reads, the other calls may leave another state.\<close>

record ('a, 'e, 'r, 's) server =
  sv_view :: "view \<Rightarrow> 's \<Rightarrow> 'e + 'r"
  sv_change :: "'a change \<Rightarrow> 's \<Rightarrow> ('e + 'r) \<times> 's"
  sv_forward :: "'a pass \<Rightarrow> 's \<Rightarrow> ('e + 'r) \<times> 's"

type_synonym clocks = "gotime \<times> gotime \<times> gotime \<times> gotime"

text \<open>A call of the caching executor of a cluster.\<close>

definition cachingExecutor ::
  "('a, 'e, 'r, 's) server \<Rightarrow> ('r \<Rightarrow> string) \<Rightarrow> ('r \<Rightarrow> int) \<Rightarrow> string \<Rightarrow> 'a call \<Rightarrow> clocks \<Rightarrow>
     'r ViewCache \<Rightarrow> 's \<Rightarrow> ('e + 'r) \<times> 'r ViewCache \<times> 's" where
  "cachingExecutor srv etagOf retried clusterID c clock cache s =
     (case c of
        View v \<Rightarrow>
          (case GetOrLoad etagOf (view_key clusterID v) (sv_view srv v s) clock cache of
             (answer, cache') \<Rightarrow> (map_sum id fst answer, cache', s))
      | Change ch \<Rightarrow>
          (case sv_change srv ch s of
             (answer, s') \<Rightarrow>
               (answer, if drops_views retried ch answer then InvalidateCluster cache clusterID else cache, s'))
      | Forward p \<Rightarrow> (case sv_forward srv p s of (answer, s') \<Rightarrow> (answer, cache, s')))"

text \<open>The executor without the cache, which \<^verbatim>\<open>cachingExecutor\<close> embeds.\<close>

definition Executor ::
  "('a, 'e, 'r, 's) server \<Rightarrow> 'a call \<Rightarrow> 's \<Rightarrow> ('e + 'r) \<times> 's" where
  "Executor srv c s =
     (case c of View v \<Rightarrow> (sv_view srv v s, s) | Change ch \<Rightarrow> sv_change srv ch s | Forward p \<Rightarrow> sv_forward srv p s)"

section \<open>Runs\<close>

text \<open>
  The servers of all clusters share one cache.  A server may change by itself; \<open>vw_seen\<close> collects, for each
  cluster, the states in which its server was asked for a view since its views were last dropped.
\<close>

record ('r, 's) views_world =
  vw_cache :: "'r ViewCache"
  vw_servers :: "string \<Rightarrow> 's"
  vw_seen :: "string \<Rightarrow> (gotime \<times> 's) set"

datatype ('a, 's) views_event =
    Drift string 's
  | Call string "'a call" clocks
  | GatewayEvict string

definition call_world ::
  "('a, 'e, 'r, 's) server \<Rightarrow> ('r \<Rightarrow> string) \<Rightarrow> ('r \<Rightarrow> int) \<Rightarrow> string \<Rightarrow> 'a call \<Rightarrow> clocks \<Rightarrow>
     ('r, 's) views_world \<Rightarrow> ('e + 'r) \<times> ('r, 's) views_world" where
  "call_world srv etagOf retried cid c clock w =
     (case cachingExecutor srv etagOf retried cid c clock (vw_cache w) (vw_servers w cid) of
        (answer, cache', s') \<Rightarrow>
          (answer, w\<lparr>vw_cache := cache', vw_servers := (vw_servers w)(cid := s'),
             vw_seen := (vw_seen w)(cid :=
               (case c of
                  View v \<Rightarrow> insert (fst (snd (snd clock)), s') (vw_seen w cid)
                | Change ch \<Rightarrow> if drops_views retried ch answer then {} else vw_seen w cid
                | Forward p \<Rightarrow> vw_seen w cid))\<rparr>))"

fun views_step ::
  "('a, 'e, 'r, 's) server \<Rightarrow> ('r \<Rightarrow> string) \<Rightarrow> ('r \<Rightarrow> int) \<Rightarrow> ('a, 's) views_event \<Rightarrow>
     ('r, 's) views_world \<Rightarrow> ('r, 's) views_world" where
  "views_step srv etagOf retried (Drift cid s) w = w\<lparr>vw_servers := (vw_servers w)(cid := s)\<rparr>"
| "views_step srv etagOf retried (Call cid c clock) w = snd (call_world srv etagOf retried cid c clock w)"
| "views_step srv etagOf retried (GatewayEvict cid) w =
     w\<lparr>vw_cache := InvalidateCluster (vw_cache w) cid, vw_seen := (vw_seen w)(cid := {})\<rparr>"

definition views_run ::
  "('a, 'e, 'r, 's) server \<Rightarrow> ('r \<Rightarrow> string) \<Rightarrow> ('r \<Rightarrow> int) \<Rightarrow> ('a, 's) views_event list \<Rightarrow>
     ('r, 's) views_world \<Rightarrow> ('r, 's) views_world" where
  "views_run srv etagOf retried es w = fold (views_step srv etagOf retried) es w"

fun event_cluster :: "('a, 's) views_event \<Rightarrow> string" where
  "event_cluster (Drift cid _) = cid"
| "event_cluster (Call cid _ _) = cid"
| "event_cluster (GatewayEvict cid) = cid"

text \<open>Identifiers of clusters are not empty and hold no bar; they are UUIDs.\<close>

definition plain_id :: "string \<Rightarrow> bool" where
  "plain_id cid \<longleftrightarrow> cid \<noteq> [] \<and> CHR ''|'' \<notin> set cid"

section \<open>Keys of views\<close>

lemma bar_Itoa: "CHR ''|'' \<notin> set (Itoa n)"
  using char_digit_FormatUint [of "CHR ''|''"] by (auto simp: Itoa_def char_digit_def)

lemma dash_FormatUint: "CHR ''-'' \<notin> set (FormatUint n)"
  using char_digit_FormatUint [of "CHR ''-''" n] by (auto simp: char_digit_def)

lemma Itoa_inj:
  assumes "Itoa m = Itoa n"
  shows "m = n"
proof -
  have "hd (FormatUint k) \<noteq> CHR ''-''" for k
    using dash_FormatUint [of k] FormatUint_not_Nil [of k] by (metis hd_in_set)
  then have sign: "hd (Itoa k) = CHR ''-'' \<longleftrightarrow> k < 0" for k
    by (simp add: Itoa_def)
  show ?thesis
  proof (cases "m < 0")
    case True
    then have "n < 0" using sign assms by metis
    with True assms have "FormatUint (nat (- m)) = FormatUint (nat (- n))" by (simp add: Itoa_def)
    from FormatUint_inj [OF this] True \<open>n < 0\<close> show ?thesis by simp
  next
    case False
    then have "\<not> n < 0" using sign assms by metis
    with False assms have "FormatUint (nat m) = FormatUint (nat n)" by (simp add: Itoa_def)
    from FormatUint_inj [OF this] False \<open>\<not> n < 0\<close> show ?thesis by simp
  qed
qed

lemma append_sep_inj:
  assumes "c \<notin> set a" "c \<notin> set b" "a @ c # x = b @ c # y"
  shows "a = b \<and> x = y"
  using assms
proof (induction a arbitrary: b)
  case Nil
  then show ?case by (cases b) auto
next
  case (Cons z a)
  then show ?case by (cases b) auto
qed

lemma append_sep_inj_right:
  assumes "c \<notin> set x" "c \<notin> set y" "a @ c # x = b @ c # y"
  shows "a = b \<and> x = y"
proof -
  from arg_cong [OF assms(3), of rev] have "rev x @ c # rev a = rev y @ c # rev b" by simp
  with append_sep_inj [of c "rev x" "rev y" "rev a" "rev b"] assms(1,2) show ?thesis by simp
qed

lemma view_key_split: "view_key cid v = cid @ CHR ''|'' # fst (view_parts v) @ key_parts (snd (view_parts v))"
  by (simp add: view_key_def ViewCacheKey_def)

definition view_rest :: "view \<Rightarrow> string" where
  "view_rest v = fst (view_parts v) @ key_parts (snd (view_parts v))"

lemma view_rest_inj:
  assumes "view_rest u = view_rest v"
  shows "u = v"
proof -

  have pages: "a = a' \<and> i = i' \<and> j = j'"
    if "a @ CHR ''|'' # Itoa i @ CHR ''|'' # Itoa j = a' @ CHR ''|'' # Itoa i' @ CHR ''|'' # Itoa j'"
    for a a' i i' j j'
  proof -
    from append_sep_inj_right [OF bar_Itoa bar_Itoa, of "a @ CHR ''|'' # Itoa i" j "a' @ CHR ''|'' # Itoa i'" j'] that
    have "a @ CHR ''|'' # Itoa i = a' @ CHR ''|'' # Itoa i'" "Itoa j = Itoa j'" by simp_all
    with append_sep_inj_right [OF bar_Itoa bar_Itoa this(1)] show ?thesis by (blast dest: Itoa_inj)
  qed
  have "fst (Cut CHR ''|'' (oper @ key_parts ps)) = oper" if "CHR ''|'' \<notin> set oper" for oper ps
    using that by (cases ps) auto
  moreover have "CHR ''|'' \<notin> set (fst (view_parts x))" for x by (cases x) auto
  ultimately have "fst (view_parts x) = fst (Cut CHR ''|'' (view_rest x))" for x
    by (simp add: view_rest_def)
  then have same: "fst (view_parts u) = fst (view_parts v)" using assms by simp
  then have parts: "key_parts (snd (view_parts u)) = key_parts (snd (view_parts v))"
    using assms by (simp add: view_rest_def)
  show ?thesis
  proof (cases u)
    case (ListStreams i j)
    with same parts show ?thesis using pages [of "[]" i j "[]"] by (cases v) auto
  next
    case (ListConsumers a i j)
    with same parts show ?thesis using pages [of a i j] by (cases v) auto
  qed (use same parts in \<open>cases v; simp\<close>)+
qed

lemma view_key_inj:
  assumes "plain_id c" "plain_id d" "view_key c u = view_key d v"
  shows "c = d \<and> u = v"
  using append_sep_inj [of "CHR ''|''" c d "view_rest u" "view_rest v"] assms view_rest_inj
  unfolding plain_id_def view_key_split view_rest_def by blast

lemma take_prefix_key:
  assumes "plain_id c" "plain_id d"
  shows "length (view_key d v) \<ge> length (c @ ''|'') \<and> take (length (c @ ''|'')) (view_key d v) = c @ ''|'' \<longleftrightarrow> c = d"
proof
  assume l: "length (view_key d v) \<ge> length (c @ ''|'') \<and> take (length (c @ ''|'')) (view_key d v) = c @ ''|''"
  then have "view_key d v = (c @ ''|'') @ drop (length (c @ ''|'')) (view_key d v)"
    by (metis append_take_drop_id)
  then have "d @ CHR ''|'' # view_rest v = c @ CHR ''|'' # drop (length (c @ ''|'')) (view_key d v)"
    by (simp add: view_key_split view_rest_def)
  then show "c = d"
    using append_sep_inj [of "CHR ''|''" d c] assms unfolding plain_id_def by blast
qed (simp add: view_key_split)

text \<open>Dropping the views of a cluster removes all of its keys and none of another cluster.\<close>

lemma map_of_InvalidateCluster:
  assumes "plain_id c" "plain_id d"
  shows "map_of (vc_items (InvalidateCluster cache c)) (view_key d v) =
    (if c = d then None else map_of (vc_items cache) (view_key d v))"
proof -
  have "map_of (filter (\<lambda>kv. P (fst kv)) xs) k = (if P k then map_of xs k else None)" for P k and xs :: "(string, 'b) gomap"
    by (induction xs) auto
  note filt = this
  define P where "P k \<longleftrightarrow> \<not> (length k \<ge> length (c @ ''|'') \<and> take (length (c @ ''|'')) k = c @ ''|'')" for k
  have "vc_items (InvalidateCluster cache c) = filter (\<lambda>kv. P (fst kv)) (vc_items cache)"
    using assms(1) by (simp add: InvalidateCluster_def Let_def plain_id_def P_def)
  moreover have "P (view_key d v) \<longleftrightarrow> c \<noteq> d"
    unfolding P_def take_prefix_key [OF assms, of v] ..
  ultimately show ?thesis by (simp add: filt)
qed

section \<open>Fresh answers\<close>

text \<open>Every cached view of a cluster is what its server answered in a state it was seen in.\<close>

definition views_ok :: "('a, 'e, 'r, 's) server \<Rightarrow> ('r, 's) views_world \<Rightarrow> bool" where
  "views_ok srv w \<longleftrightarrow> 0 < vc_ttl (vw_cache w) \<and>
     (\<forall>cid v e. plain_id cid \<longrightarrow> map_of (vc_items (vw_cache w)) (view_key cid v) = Some e \<longrightarrow>
        (\<exists>t s. (t, s) \<in> vw_seen w cid \<and> sv_view srv v s = Inr (ve_payload e) \<and>
           ve_expiresAt e = t + vc_ttl (vw_cache w)))"

lemma view_get_frame:
  "vc_ttl (snd (view_get c key now)) = vc_ttl c"
  "map_of (vc_items (snd (view_get c key now))) k = Some e \<Longrightarrow> map_of (vc_items c) k = Some e"
  "fst (view_get c key now) = Some (r, tag) \<Longrightarrow>
     \<exists>e. map_of (vc_items c) key = Some e \<and> ve_payload e = r \<and> now \<le> ve_expiresAt e"
  by (auto simp: view_get_def gomap_simps split: option.splits if_splits)

lemma view_set_frame:
  "vc_ttl (view_set c key p tag clock) = vc_ttl c"
  "wf_gomap (vc_items c) \<Longrightarrow> map_of (vc_items (view_set c key p tag clock)) k = Some e \<Longrightarrow>
     (k = key \<and> e = \<lparr>ve_expiresAt = fst clock + vc_ttl c, ve_payload = p, ve_etag = tag\<rparr>) \<or>
     (k \<noteq> key \<and> map_of (vc_items c) k = Some e)"
  by (auto simp: view_set_def Let_def gomap_simps map_of_filter_wf split: if_splits option.splits)

text \<open>The answer comes from an entry that has not expired, or from the load, which is then kept.\<close>

lemma GetOrLoad_cases:
  assumes "GetOrLoad etagOf key load (t1, t2, t3, t4) c = (answer, c')"
  obtains
    (hit) r tag e t where "answer = Inr (r, tag)" "map_of (vc_items c) key = Some e" "ve_payload e = r"
      "t \<in> {t1, t2}" "t \<le> ve_expiresAt e" "vc_ttl c' = vc_ttl c"
      "\<And>k e. map_of (vc_items c') k = Some e \<Longrightarrow> map_of (vc_items c) k = Some e"
  | (failed) x where "load = Inl x" "answer = Inl x" "vc_ttl c' = vc_ttl c"
      "\<And>k e. map_of (vc_items c') k = Some e \<Longrightarrow> map_of (vc_items c) k = Some e"
  | (loaded) r c2 where "load = Inr r" "answer = Inr (r, etagOf r)" "c' = view_set c2 key r (etagOf r) (t3, t4)"
      "vc_ttl c2 = vc_ttl c" "\<And>k e. map_of (vc_items c2) k = Some e \<Longrightarrow> map_of (vc_items c) k = Some e"
      "wf_gomap (vc_items c) \<Longrightarrow> wf_gomap (vc_items c2)"
proof -
  obtain g1 c1 where g1: "view_get c key t1 = (g1, c1)" by (metis prod.collapse)
  obtain g2 c2 where g2: "view_get c1 key t2 = (g2, c2)" by (metis prod.collapse)
  note f1 = view_get_frame [of c key t1, unfolded g1, simplified]
  note f2 = view_get_frame [of c1 key t2, unfolded g2, simplified]
  have wf: "wf_gomap (vc_items c) \<Longrightarrow> wf_gomap (vc_items c2)"
    using g1 g2 by (auto simp: view_get_def split: option.splits if_splits)
  show thesis
  proof (cases g1)
    case (Some p)
    then obtain r tag where p: "g1 = Some (r, tag)" by (cases p) auto
    with f1(3) obtain e where "map_of (vc_items c) key = Some e" "ve_payload e = r" "t1 \<le> ve_expiresAt e" by blast
    with p show thesis using assms g1 f1(1,2) by (intro hit [of r tag e t1]) (auto simp: GetOrLoad_def)
  next
    case None
    show thesis
    proof (cases g2)
      case (Some p)
      then obtain r tag where p: "g2 = Some (r, tag)" by (cases p) auto
      with f2(3) obtain e where "map_of (vc_items c1) key = Some e" "ve_payload e = r" "t2 \<le> ve_expiresAt e" by blast
      with p None show thesis
        using assms g1 g2 f1(1,2) f2(1,2) by (intro hit [of r tag e t2]) (auto simp: GetOrLoad_def)
    next
      case none: None
      show thesis
      proof (cases load)
        case (Inl x)
        then show thesis
          using assms g1 g2 None none f1(1,2) f2(1,2) by (intro failed [of x]) (auto simp: GetOrLoad_def)
      next
        case (Inr r)
        then show thesis
          using assms g1 g2 None none f1(1,2) f2(1,2) wf by (intro loaded [of r c2]) (auto simp: GetOrLoad_def)
      qed
    qed
  qed
qed

lemma views_ok_mono:
  assumes "views_ok srv w" "vc_ttl (vw_cache w') = vc_ttl (vw_cache w)"
    and "\<And>k e. map_of (vc_items (vw_cache w')) k = Some e \<Longrightarrow> map_of (vc_items (vw_cache w)) k = Some e"
    and "\<And>cid. vw_seen w cid \<subseteq> vw_seen w' cid"
  shows "views_ok srv w'"
  unfolding views_ok_def
proof (intro conjI allI impI)
  show "0 < vc_ttl (vw_cache w')" using assms(1,2) by (simp add: views_ok_def)
  fix cid v e
  assume "plain_id cid" "map_of (vc_items (vw_cache w')) (view_key cid v) = Some e"
  with assms(1,3) obtain t s where "(t, s) \<in> vw_seen w cid" "sv_view srv v s = Inr (ve_payload e)"
      "ve_expiresAt e = t + vc_ttl (vw_cache w)"
    unfolding views_ok_def by blast
  with assms(2) assms(4) [of cid] show "\<exists>t s. (t, s) \<in> vw_seen w' cid \<and> sv_view srv v s = Inr (ve_payload e) \<and>
      ve_expiresAt e = t + vc_ttl (vw_cache w')"
    by auto
qed

lemma ttl_InvalidateCluster [simp]: "vc_ttl (InvalidateCluster c cid) = vc_ttl c"
  by (simp add: InvalidateCluster_def Let_def)

lemma views_ok_drop:
  assumes "views_ok srv w" "plain_id cid"
  shows "views_ok srv (w\<lparr>vw_cache := InvalidateCluster (vw_cache w) cid, vw_servers := f,
    vw_seen := (vw_seen w)(cid := {})\<rparr>)"
proof -
  have "map_of (vc_items (InvalidateCluster (vw_cache w) cid)) (view_key d v) = Some e \<longleftrightarrow>
      cid \<noteq> d \<and> map_of (vc_items (vw_cache w)) (view_key d v) = Some e" if "plain_id d" for d v e
    by (simp add: map_of_InvalidateCluster [OF assms(2) that])
  then show ?thesis using assms(1) by (auto simp: views_ok_def)
qed

lemma wf_InvalidateCluster: "wf_gomap (vc_items c) \<Longrightarrow> wf_gomap (vc_items (InvalidateCluster c cid))"
  by (simp add: InvalidateCluster_def Let_def)

text \<open>The cache after a view was answered.\<close>

lemma views_ok_view:
  assumes ok: "views_ok srv w" "wf_gomap (vc_items (vw_cache w))" and cid: "plain_id cid"
    and run: "GetOrLoad etagOf (view_key cid v) (sv_view srv v (vw_servers w cid)) (t1, t2, t3, t4) (vw_cache w) =
      (answer, c')"
  shows "views_ok srv (w\<lparr>vw_cache := c', vw_servers := f,
      vw_seen := (vw_seen w)(cid := insert (t3, vw_servers w cid) (vw_seen w cid))\<rparr>)" (is "views_ok srv ?w")
    and "wf_gomap (vc_items c')"
    and "t1 \<le> t2 \<Longrightarrow> t2 \<le> t3 \<Longrightarrow> answer = Inr (r, tag) \<Longrightarrow>
      \<exists>t s. (t, s) \<in> insert (t3, vw_servers w cid) (vw_seen w cid) \<and> sv_view srv v s = Inr r \<and>
        t1 \<le> t + vc_ttl (vw_cache w)"
proof -
  show "wf_gomap (vc_items c')"
    using run ok(2)
    by (auto simp: GetOrLoad_def view_get_def view_set_def Let_def split: option.splits if_splits sum.splits)
  from run show "views_ok srv ?w"
  proof (cases rule: GetOrLoad_cases)
    case (hit r tag e t)
    then show ?thesis by (intro views_ok_mono [OF ok(1)]) auto
  next
    case (failed x)
    then show ?thesis by (intro views_ok_mono [OF ok(1)]) auto
  next
    case (loaded r c2)
    have "\<exists>t s. (t, s) \<in> vw_seen ?w d \<and> sv_view srv u s = Inr (ve_payload e) \<and> ve_expiresAt e = t + vc_ttl c2"
      if d: "plain_id d" and e: "map_of (vc_items c') (view_key d u) = Some e" for d u e
    proof -
      from view_set_frame(2) [OF loaded(6) [OF ok(2)] e [unfolded loaded(3)]] consider
        (new) "view_key d u = view_key cid v" "e = \<lparr>ve_expiresAt = t3 + vc_ttl c2, ve_payload = r, ve_etag = etagOf r\<rparr>"
        | (old) "map_of (vc_items c2) (view_key d u) = Some e" by auto
      then show ?thesis
      proof cases
        case new
        with view_key_inj [OF d cid] loaded(1) show ?thesis by auto
      next
        case old
        with ok(1) d loaded(4,5) show ?thesis unfolding views_ok_def by fastforce
      qed
    qed
    moreover have "vc_ttl c' = vc_ttl c2" using loaded(3) view_set_frame(1) by simp
    ultimately show ?thesis
      using ok(1) loaded(4) by (simp add: views_ok_def)
  qed
  assume clock: "t1 \<le> t2" "t2 \<le> t3" and answer: "answer = Inr (r, tag)"
  from run show "\<exists>t s. (t, s) \<in> insert (t3, vw_servers w cid) (vw_seen w cid) \<and> sv_view srv v s = Inr r \<and>
        t1 \<le> t + vc_ttl (vw_cache w)"
  proof (cases rule: GetOrLoad_cases)
    case (hit r' tag' e t)
    then have "ve_payload e = r" "t1 \<le> ve_expiresAt e" using answer clock by auto
    with hit(2) ok(1) cid show ?thesis unfolding views_ok_def by (metis insertI2)
  next
    case (loaded r' c2)
    then show ?thesis using answer clock ok(1) by (intro exI [of _ t3]) (auto simp: views_ok_def)
  qed (use answer in simp)
qed

lemma views_ok_step:
  assumes "views_ok srv w" "wf_gomap (vc_items (vw_cache w))" "plain_id (event_cluster e)"
  shows "views_ok srv (views_step srv etagOf retried e w) \<and>
    wf_gomap (vc_items (vw_cache (views_step srv etagOf retried e w)))"
proof (cases e)
  case (Drift cid s)
  then show ?thesis using assms by (simp add: views_ok_def)
next
  case (GatewayEvict cid)
  have "views_step srv etagOf retried e w =
      w\<lparr>vw_cache := InvalidateCluster (vw_cache w) cid, vw_servers := vw_servers w, vw_seen := (vw_seen w)(cid := {})\<rparr>"
    by (cases w) (simp add: GatewayEvict)
  moreover have "plain_id cid" using GatewayEvict assms(3) by simp
  ultimately show ?thesis
    using views_ok_drop [OF assms(1), of cid "vw_servers w"] wf_InvalidateCluster [OF assms(2), of cid] by simp
next
  case (Call cid c clock)
  have cid: "plain_id cid" using assms(3) Call by simp
  show ?thesis
  proof (cases c)
    case (View v)
    obtain t1 t2 t3 t4 where t: "clock = (t1, t2, t3, t4)" by (metis prod_cases4)
    obtain answer c' where g: "GetOrLoad etagOf (view_key cid v) (sv_view srv v (vw_servers w cid)) (t1, t2, t3, t4)
        (vw_cache w) = (answer, c')" by (metis prod.collapse)
    show ?thesis
      using views_ok_view(1) [where f = "vw_servers w", OF assms(1,2) cid g] views_ok_view(2) [OF assms(1,2) cid g]
      by (simp add: Call View t g call_world_def cachingExecutor_def)
  next
    case (Change ch)
    obtain answer s' where s: "sv_change srv ch (vw_servers w cid) = (answer, s')" by (metis prod.collapse)
    show ?thesis
      using assms views_ok_drop [OF assms(1) cid] wf_InvalidateCluster [OF assms(2)]
        views_ok_mono [OF assms(1), of "w\<lparr>vw_servers := (vw_servers w)(cid := s')\<rparr>"]
      by (simp add: Call Change s call_world_def cachingExecutor_def)
  next
    case (Forward p)
    then show ?thesis
      using assms views_ok_mono [OF assms(1)]
      by (auto simp: Call call_world_def cachingExecutor_def split: prod.split intro!: views_ok_mono [OF assms(1)])
  qed
qed

definition views_start :: "duration \<Rightarrow> (string \<Rightarrow> 's) \<Rightarrow> ('r, 's) views_world" where
  "views_start ttl servers = \<lparr>vw_cache = NewViewCache ttl, vw_servers = servers, vw_seen = (\<lambda>_. {})\<rparr>"

lemma views_ok_run:
  assumes "\<forall>e \<in> set es. plain_id (event_cluster e)" "views_ok srv w" "wf_gomap (vc_items (vw_cache w))"
  shows "views_ok srv (views_run srv etagOf retried es w) \<and>
    wf_gomap (vc_items (vw_cache (views_run srv etagOf retried es w)))"
  using assms unfolding views_run_def
  by (induction es arbitrary: w) (auto simp: views_ok_step)


section \<open>The cache is invisible\<close>

text \<open>The answers of a sequence of calls with and without the cache.\<close>

fun cached_answers ::
  "('a, 'e, 'r, 's) server \<Rightarrow> ('r \<Rightarrow> string) \<Rightarrow> ('r \<Rightarrow> int) \<Rightarrow> (string \<times> 'a call \<times> clocks) list \<Rightarrow>
     'r ViewCache \<Rightarrow> (string \<Rightarrow> 's) \<Rightarrow> ('e + 'r) list" where
  "cached_answers srv etagOf retried [] cache servers = []"
| "cached_answers srv etagOf retried ((cid, c, clock) # cs) cache servers =
     (case cachingExecutor srv etagOf retried cid c clock cache (servers cid) of
        (answer, cache', s') \<Rightarrow> answer # cached_answers srv etagOf retried cs cache' (servers(cid := s')))"

fun direct_answers ::
  "('a, 'e, 'r, 's) server \<Rightarrow> (string \<times> 'a call \<times> clocks) list \<Rightarrow> (string \<Rightarrow> 's) \<Rightarrow> ('e + 'r) list" where
  "direct_answers srv [] servers = []"
| "direct_answers srv ((cid, c, _) # cs) servers =
     (case Executor srv c (servers cid) of (answer, s') \<Rightarrow> answer # direct_answers srv cs (servers(cid := s')))"

text \<open>What the code relies on: a call that does not drop the views does not change what they show.\<close>

definition views_stable :: "('a, 'e, 'r, 's) server \<Rightarrow> ('r \<Rightarrow> int) \<Rightarrow> bool" where
  "views_stable srv retried \<longleftrightarrow>
     (\<forall>p s v. sv_view srv v (snd (sv_forward srv p s)) = sv_view srv v s) \<and>
     (\<forall>ch s v. \<not> drops_views retried ch (fst (sv_change srv ch s)) \<longrightarrow>
        sv_view srv v (snd (sv_change srv ch s)) = sv_view srv v s)"

definition current :: "('a, 'e, 'r, 's) server \<Rightarrow> 'r ViewCache \<Rightarrow> (string \<Rightarrow> 's) \<Rightarrow> bool" where
  "current srv cache servers \<longleftrightarrow> wf_gomap (vc_items cache) \<and>
     (\<forall>cid v e. plain_id cid \<longrightarrow> map_of (vc_items cache) (view_key cid v) = Some e \<longrightarrow>
        sv_view srv v (servers cid) = Inr (ve_payload e))"

lemma current_view:
  assumes "current srv cache servers" "plain_id cid"
    and run: "GetOrLoad etagOf (view_key cid v) (sv_view srv v (servers cid)) (t1, t2, t3, t4) cache = (answer, c')"
  shows "map_sum id fst answer = sv_view srv v (servers cid) \<and> current srv c' servers"
proof -
  have wf: "wf_gomap (vc_items c')"
    using run assms(1) unfolding current_def
    by (auto simp: GetOrLoad_def view_get_def view_set_def Let_def split: option.splits if_splits sum.splits)
  from run show ?thesis
  proof (cases rule: GetOrLoad_cases)
    case (hit r tag e t)
    with assms wf show ?thesis by (auto simp: current_def)
  next
    case (failed x)
    with assms wf show ?thesis by (auto simp: current_def)
  next
    case (loaded r c2)
    have "sv_view srv u (servers d) = Inr (ve_payload e)"
      if "plain_id d" and e: "map_of (vc_items c') (view_key d u) = Some e" for d u e
    proof -
      have "wf_gomap (vc_items c2)" using loaded(6) assms(1) by (simp add: current_def)
      from view_set_frame(2) [OF this e [unfolded loaded(3)]]
      show ?thesis
        using view_key_inj [OF that(1) assms(2), of u v] loaded(1,5) assms(1) that(1)
        unfolding current_def by auto
    qed
    with loaded wf show ?thesis by (simp add: current_def)
  qed
qed

lemma current_step:
  assumes ok: "current srv cache servers" "plain_id cid" "views_stable srv retried"
    and run: "cachingExecutor srv etagOf retried cid c clock cache (servers cid) = (answer, cache', s')"
  shows "Executor srv c (servers cid) = (answer, s') \<and> current srv cache' (servers(cid := s'))"
proof (cases c)
  case (View v)
  obtain t1 t2 t3 t4 where t: "clock = (t1, t2, t3, t4)" by (metis prod_cases4)
  obtain a c' where g: "GetOrLoad etagOf (view_key cid v) (sv_view srv v (servers cid)) (t1, t2, t3, t4) cache = (a, c')"
    by (metis prod.collapse)
  from current_view [OF ok(1,2) g] run show ?thesis
    by (auto simp: View t g cachingExecutor_def Executor_def)
next
  case (Change ch)
  obtain a s1 where s: "sv_change srv ch (servers cid) = (a, s1)" by (metis prod.collapse)
  have "current srv (InvalidateCluster cache cid) (servers(cid := s1))"
    using ok(1) wf_InvalidateCluster
    by (auto simp: current_def map_of_InvalidateCluster [OF ok(2)] split: if_splits)
  moreover have "current srv cache (servers(cid := s1))" if "\<not> drops_views retried ch a"
  proof -
    have "sv_view srv v s1 = sv_view srv v (servers cid)" for v
      using ok(3) that s unfolding views_stable_def by (metis fst_conv snd_conv)
    with ok(1) show ?thesis by (auto simp: current_def)
  qed
  ultimately show ?thesis
    using run by (auto simp: Change s cachingExecutor_def Executor_def split: if_splits)
next
  case (Forward p)
  obtain a s1 where s: "sv_forward srv p (servers cid) = (a, s1)" by (metis prod.collapse)
  have "sv_view srv v s1 = sv_view srv v (servers cid)" for v
    using ok(3) s unfolding views_stable_def by (metis snd_conv)
  with ok(1) run show ?thesis
    by (auto simp: Forward s cachingExecutor_def Executor_def current_def)
qed

text \<open>As long as servers change through the console only, and calls that do not drop the views leave them
  as they are, the caching executor answers every sequence of calls to any clusters like the executor
  without a cache.\<close>

theorem cache_invisible:
  assumes "views_stable srv retried" "\<forall>x \<in> set calls. plain_id (fst x)"
  shows "cached_answers srv etagOf retried calls (NewViewCache ttl) servers = direct_answers srv calls servers"
proof -
  have "current srv cache servers \<Longrightarrow>
      cached_answers srv etagOf retried calls cache servers = direct_answers srv calls servers" for cache
    using assms(2)
  proof (induction calls arbitrary: cache servers)
    case (Cons x calls)
    obtain cid c clock where x: "x = (cid, c, clock)" by (metis prod_cases3)
    obtain answer cache' s' where e: "cachingExecutor srv etagOf retried cid c clock cache (servers cid) = (answer, cache', s')"
      by (metis prod_cases3)
    have "plain_id cid" using Cons.prems(2) x by simp
    from current_step [OF Cons.prems(1) this assms(1) e]
    have ex: "Executor srv c (servers cid) = (answer, s')" and "current srv cache' (servers(cid := s'))"
      by simp_all
    from Cons.IH [OF this(2)] Cons.prems(2) ex show ?case by (simp add: x e fun_upd_def)
  qed simp
  then show ?thesis by (simp add: current_def NewViewCache_def)
qed

section \<open>A server with a counter\<close>

definition counting :: "(unit, unit, int, int) server" where
  "counting = \<lparr>sv_view = (\<lambda>v s. Inr s), sv_change = (\<lambda>ch s. (Inr (s + 1), s + 1)), sv_forward = (\<lambda>p s. (Inr s, s))\<rparr>"


lemma cache_invisible_witness:
  "cached_answers counting (\<lambda>_. []) (\<lambda>_. 1)
     [(''c'', View ListKVBuckets, (0, 0, 0, 0)), (''c'', Change (PutKVEntry ''b'' ''k'' ''v''), (1, 1, 1, 1)),
      (''c'', View ListKVBuckets, (2, 2, 2, 2))] (NewViewCache 0) (\<lambda>_. 5) = [Inr 5, Inr 6, Inr 6]"
proof -
  have "views_stable counting (\<lambda>_. 1)"
    by (auto simp: views_stable_def counting_def drops_views_def split: change.split)
  then show ?thesis
    by (subst cache_invisible) (simp_all add: plain_id_def counting_def Executor_def)
qed

text \<open>
  A replay starts deliveries anew and so changes the consumer, but \<^verbatim>\<open>cachingExecutor\<close> has no \<^verbatim>\<open>ReplayConsumer\<close> of
  its own: the list of consumers keeps showing the state from before.
\<close>

definition replaying :: "(unit, unit, int, int) server" where
  "replaying = \<lparr>sv_view = (\<lambda>v s. Inr s), sv_change = (\<lambda>ch s. (Inr s, s)),
     sv_forward = (\<lambda>p s. case p of ReplayConsumer _ _ _ \<Rightarrow> (Inr s, s + 1) | _ \<Rightarrow> (Inr s, s))\<rparr>"

theorem replay_keeps_views:
  "cached_answers replaying (\<lambda>_. []) (\<lambda>_. 1)
     [(''c'', View (ListConsumers ''s'' 0 10), (0, 0, 0, 0)), (''c'', Forward (ReplayConsumer ''s'' ''d'' ()), (1, 1, 1, 1)),
      (''c'', View (ListConsumers ''s'' 0 10), (2, 2, 2, 2))] (NewViewCache 0) (\<lambda>_. 5) = [Inr 5, Inr 5, Inr 5] \<and>
   direct_answers replaying
     [(''c'', View (ListConsumers ''s'' 0 10), (0, 0, 0, 0)), (''c'', Forward (ReplayConsumer ''s'' ''d'' ()), (1, 1, 1, 1)),
      (''c'', View (ListConsumers ''s'' 0 10), (2, 2, 2, 2))] (\<lambda>_. 5) = [Inr 5, Inr 5, Inr 6]"
  by code_simp

end
