(* ===== verification/Http_Chain.thy ===== *)
theory Http_Chain
  imports Numbers Rbac_Middleware
begin

text \<open>
  A request on its way to a handler: the table of routes (\<^verbatim>\<open>internal/api/router.go\<close>) and the chain of
  middlewares around the router (\<^verbatim>\<open>internal/api/middleware\<close>), each a function from the next handler to a
  handler as in the code, over one context that carries the request, the answer, and the state of the
  services behind them.

  The router library, the compression library, Go's profiling handler and the handlers of the application
  are parameters; what is asked of the router is stated as \<open>router_ok\<close>.
\<close>

section \<open>Routes\<close>

type_synonym route = "string \<times> string \<times> string"

definition cluster_path :: string where "cluster_path = ''/api/v1/clusters/{clusterId}''"

text \<open>Method, pattern and handler.\<close>

definition system_routes :: "route list" where
  "system_routes = [
     (''GET'', ''/api/health'', ''opsHandler.Health''),
     (''GET'', ''/api/openapi.yaml'', ''opsHandler.OpenAPI''),
     (''GET'', ''/api/v1/schemas'', ''schemaHandler.OpenAPIModels''),
     (''GET'', ''/api/v1/pprof/config'', ''opsHandler.PprofConfig''),
     (''GET'', ''/api/v1/pprof/runtime'', ''opsHandler.PprofRuntime''),
     (''GET'', ''/api/v1/pprof/profile/{profile}/download'', ''opsHandler.PprofProfileDownload''),
     (''GET'', ''/api/v1/pprof/profile/{profile}'', ''opsHandler.PprofProfileSummary'')]"

definition auth_routes :: "route list" where
  "auth_routes = [
     (''GET'', ''/api/v1/auth/me'', ''authHandler.Me''),
     (''GET'', ''/api/v1/auth/config'', ''authHandler.Config''),
     (''GET'', ''/api/v1/assistant/config'', ''assistantHandler.Config''),
     (''GET'', ''/api/v1/architecture-export/demo'', ''insightsHandler.ArchitectureExportDemo''),
     (''GET'', ''/api/v1/architecture-refactor/demo'', ''insightsHandler.ArchitectureRefactorDemo''),
     (''GET'', ''/api/v1/architecture-score/demo'', ''insightsHandler.ArchitectureScoreDemo''),
     (''GET'', ''/api/v1/chaos-story/demo'', ''insightsHandler.ChaosStoryDemo''),
     (''POST'', ''/api/v1/auth/login'', ''authHandler.Login''),
     (''POST'', ''/api/v1/auth/refresh'', ''authHandler.Refresh''),
     (''POST'', ''/api/v1/auth/logout'', ''authHandler.Logout''),
     (''GET'', ''/api/v1/auth/invite/{token}'', ''accessHandler.GetInvite''),
     (''POST'', ''/api/v1/auth/invite/accept'', ''accessHandler.AcceptInvite'')]"

definition people_routes :: "route list" where
  "people_routes = [
     (''GET'', ''/api/v1/users'', ''userHandler.List''),
     (''POST'', ''/api/v1/users'', ''userHandler.Create''),
     (''PUT'', ''/api/v1/users/{userId}'', ''userHandler.Update''),
     (''DELETE'', ''/api/v1/users/{userId}'', ''userHandler.Delete''),
     (''PUT'', ''/api/v1/users/{userId}/roles'', ''userHandler.SetRoles''),
     (''GET'', ''/api/v1/people'', ''userHandler.List''),
     (''POST'', ''/api/v1/people'', ''userHandler.Create''),
     (''POST'', ''/api/v1/people/invite'', ''accessHandler.InvitePerson''),
     (''GET'', ''/api/v1/audit'', ''auditHandler.List''),
     (''POST'', ''/api/v1/admin/rotate-encryption-key'', ''adminHandler.RotateEncryptionKey'')]"

definition alert_routes :: "route list" where
  "alert_routes = [
     (''GET'', ''/api/v1/alerts'', ''alertsHandler.List''),
     (''GET'', ''/api/v1/alerts/open-summary'', ''alertsHandler.OpenSummary''),
     (''GET'', ''/api/v1/alerts/{alertId}'', ''alertsHandler.Get''),
     (''POST'', ''/api/v1/alerts/{alertId}/acknowledge'', ''alertsHandler.Acknowledge''),
     (''GET'', ''/api/v1/alert-rules'', ''alertsHandler.ListRules''),
     (''POST'', ''/api/v1/alert-rules'', ''alertsHandler.CreateRule''),
     (''GET'', ''/api/v1/alert-rules/metrics'', ''alertsHandler.Metrics''),
     (''GET'', ''/api/v1/alert-rules/{ruleId}'', ''alertsHandler.GetRule''),
     (''PATCH'', ''/api/v1/alert-rules/{ruleId}'', ''alertsHandler.UpdateRule''),
     (''DELETE'', ''/api/v1/alert-rules/{ruleId}'', ''alertsHandler.DeleteRule'')]"

definition cluster_routes :: "route list" where
  "cluster_routes = [
     (''GET'', ''/api/v1/clusters'', ''opsHandler.ListClusters''),
     (''POST'', ''/api/v1/clusters'', ''opsHandler.CreateClusterDisabled''),
     (''GET'', ''/api/v1/clusters/connections'', ''opsHandler.ListClusterConnections''),
     (''GET'', ''/api/v1/clusters/{clusterId}'', ''opsHandler.GetCluster''),
     (''PUT'', ''/api/v1/clusters/{clusterId}'', ''opsHandler.UpdateClusterDisabled''),
     (''DELETE'', ''/api/v1/clusters/{clusterId}'', ''opsHandler.DeleteCluster''),
     (''POST'', ''/api/v1/clusters/{clusterId}/test'', ''opsHandler.TestCluster''),
     (''GET'', ''/api/v1/clusters/{clusterId}/connection'', ''opsHandler.GetClusterConnection''),
     (''GET'', ''/api/v1/clusters/{clusterId}/connection/events'', ''opsHandler.ConnectionEventsSSE'')]"

definition access_routes :: "route list" where
  "access_routes = [
     (''GET'', cluster_path @ ''/access'', ''accessHandler.ListSystemAccess''),
     (''POST'', cluster_path @ ''/access'', ''accessHandler.UpsertSystemAccess''),
     (''PUT'', cluster_path @ ''/access'', ''accessHandler.UpsertSystemAccess''),
     (''DELETE'', cluster_path @ ''/access/{grantId}'', ''accessHandler.DeleteSystemAccess''),
     (''GET'', cluster_path @ ''/accounts/{account}/access'', ''accessHandler.ListAccountAccess''),
     (''POST'', cluster_path @ ''/accounts/{account}/access'', ''accessHandler.UpsertAccountAccess''),
     (''PUT'', cluster_path @ ''/accounts/{account}/access'', ''accessHandler.UpsertAccountAccess''),
     (''DELETE'', cluster_path @ ''/accounts/{account}/access/{grantId}'', ''accessHandler.DeleteAccountAccess'')]"

definition account_routes :: "route list" where
  "account_routes = [
     (''GET'', cluster_path @ ''/nats-users'', ''natsAccHandler.ListUsers''),
     (''GET'', cluster_path @ ''/subject-permissions'', ''natsAccHandler.SubjectPermissions''),
     (''GET'', cluster_path @ ''/nats-users/subject-permissions'', ''natsAccHandler.SubjectPermissions''),
     (''POST'', cluster_path @ ''/nats-users'', ''natsAccHandler.CreateUser''),
     (''GET'', cluster_path @ ''/nats-users/{userId}'', ''natsAccHandler.GetUser''),
     (''PUT'', cluster_path @ ''/nats-users/{userId}'', ''natsAccHandler.UpdateUser''),
     (''DELETE'', cluster_path @ ''/nats-users/{userId}'', ''natsAccHandler.DeleteUser''),
     (''GET'', cluster_path @ ''/nats-users/{userId}/creds'', ''natsAccHandler.DownloadCreds''),
     (''POST'', cluster_path @ ''/nats-users/{userId}/rotate'', ''natsAccHandler.RotateUser''),
     (''POST'', cluster_path @ ''/nats-users/{userId}/mint-jwt'', ''natsAccHandler.MintJWT''),
     (''POST'', cluster_path @ ''/nats-users/{userId}/assign'', ''natsAccHandler.AssignPerson''),
     (''GET'', cluster_path @ ''/signing-groups'', ''natsAccHandler.ListSigningGroups''),
     (''POST'', cluster_path @ ''/signing-groups'', ''natsAccHandler.CreateSigningGroup''),
     (''PUT'', cluster_path @ ''/signing-groups/{groupId}'', ''natsAccHandler.UpdateSigningGroup''),
     (''DELETE'', cluster_path @ ''/signing-groups/{groupId}'', ''natsAccHandler.DeleteSigningGroup''),
     (''GET'', cluster_path @ ''/sharing/exports'', ''natsAccHandler.ListExports''),
     (''POST'', cluster_path @ ''/sharing/exports'', ''natsAccHandler.CreateExport''),
     (''PUT'', cluster_path @ ''/sharing/exports/{exportId}'', ''natsAccHandler.UpdateExport''),
     (''DELETE'', cluster_path @ ''/sharing/exports/{exportId}'', ''natsAccHandler.DeleteExport'')]"

definition insight_routes :: "route list" where
  "insight_routes = [
     (''GET'', cluster_path @ ''/account'', ''jsHandler.AccountInfo''),
     (''GET'', cluster_path @ ''/account/events'', ''jsHandler.AccountOverviewEventsSSE''),
     (''GET'', cluster_path @ ''/metrics/history'', ''metricsHandler.History''),
     (''POST'', cluster_path @ ''/incident-annotations'', ''incidentHandler.CreateAnnotation''),
     (''GET'', cluster_path @ ''/topology'', ''insightsHandler.Topology''),
     (''GET'', cluster_path @ ''/replicas'', ''insightsHandler.Replicas''),
     (''GET'', cluster_path @ ''/replicas/events'', ''insightsHandler.ReplicasEventsSSE''),
     (''GET'', cluster_path @ ''/zombies'', ''insightsHandler.Zombies''),
     (''GET'', cluster_path @ ''/subject-naming'', ''insightsHandler.SubjectNaming''),
     (''GET'', cluster_path @ ''/event-genome'', ''insightsHandler.EventGenome''),
     (''GET'', cluster_path @ ''/architecture-review'', ''insightsHandler.ArchitectureReview''),
     (''POST'', cluster_path @ ''/architecture-review/ask'', ''insightsHandler.ArchitectureReviewAsk''),
     (''GET'', cluster_path @ ''/architecture-refactor'', ''insightsHandler.ArchitectureRefactor''),
     (''POST'', cluster_path @ ''/architecture-refactor/ask'', ''insightsHandler.ArchitectureRefactorAsk''),
     (''GET'', cluster_path @ ''/architecture-score'', ''insightsHandler.ArchitectureScore''),
     (''POST'', cluster_path @ ''/architecture-score/ask'', ''insightsHandler.ArchitectureScoreAsk''),
     (''GET'', cluster_path @ ''/hidden-bottlenecks'', ''insightsHandler.HiddenBottlenecks''),
     (''POST'', cluster_path @ ''/hidden-bottlenecks/ask'', ''insightsHandler.HiddenBottlenecksAsk''),
     (''GET'', cluster_path @ ''/chaos-story'', ''insightsHandler.ChaosStory''),
     (''POST'', cluster_path @ ''/chaos-story/generate'', ''insightsHandler.ChaosStoryGenerate''),
     (''GET'', cluster_path @ ''/architecture-export'', ''insightsHandler.ArchitectureExport''),
     (''POST'', cluster_path @ ''/architecture-export'', ''insightsHandler.ArchitectureExport''),
     (''GET'', cluster_path @ ''/event-catalog'', ''eventCatalogHandler.List''),
     (''PUT'', cluster_path @ ''/event-catalog/{subject}'', ''eventCatalogHandler.Upsert''),
     (''DELETE'', cluster_path @ ''/event-catalog/{subject}'', ''eventCatalogHandler.Delete''),
     (''GET'', cluster_path @ ''/event-wikipedia'', ''eventWikipediaHandler.List''),
     (''GET'', cluster_path @ ''/request-reply'', ''requestReplyHandler.Snapshot''),
     (''GET'', cluster_path @ ''/snapshots/events'', ''insightsHandler.SnapshotEventsSSE''),
     (''GET'', cluster_path @ ''/monitoring/connz/events'', ''insightsHandler.ConnzEventsSSE''),
     (''GET'', cluster_path @ ''/monitoring/varz'', ''insightsHandler.Varz''),
     (''GET'', cluster_path @ ''/monitoring/jsz'', ''insightsHandler.Jsz''),
     (''GET'', cluster_path @ ''/monitoring/{endpoint}'', ''insightsHandler.Monitoring'')]"

definition js_routes :: "route list" where
  "js_routes = [
     (''GET'', cluster_path @ ''/streams'', ''jsHandler.ListStreams''),
     (''POST'', cluster_path @ ''/streams'', ''jsHandler.CreateStream''),
     (''GET'', cluster_path @ ''/streams/{name}'', ''jsHandler.GetStream''),
     (''PUT'', cluster_path @ ''/streams/{name}'', ''jsHandler.UpdateStream''),
     (''DELETE'', cluster_path @ ''/streams/{name}'', ''jsHandler.DeleteStream''),
     (''GET'', cluster_path @ ''/streams/{name}/impact'', ''jsHandler.GetStreamImpact''),
     (''POST'', cluster_path @ ''/streams/{name}/purge'', ''jsHandler.PurgeStream''),
     (''GET'', cluster_path @ ''/streams/{name}/consumers'', ''jsHandler.ListConsumers''),
     (''POST'', cluster_path @ ''/streams/{name}/consumers'', ''jsHandler.CreateConsumer''),
     (''GET'', cluster_path @ ''/streams/{name}/consumers/{consumer}'', ''jsHandler.GetConsumer''),
     (''PUT'', cluster_path @ ''/streams/{name}/consumers/{consumer}'', ''jsHandler.UpdateConsumer''),
     (''DELETE'', cluster_path @ ''/streams/{name}/consumers/{consumer}'', ''jsHandler.DeleteConsumer''),
     (''GET'', cluster_path @ ''/streams/{name}/consumers/{consumer}/behavior-fingerprint'', ''jsHandler.GetBehaviorFingerprint''),
     (''GET'', cluster_path @ ''/streams/{name}/consumers/{consumer}/incident-reconstruction'', ''incidentHandler.GetReconstruction''),
     (''GET'', cluster_path @ ''/streams/{name}/consumers/{consumer}/incident-capsules'', ''jsHandler.ListIncidentCapsules''),
     (''POST'', cluster_path @ ''/streams/{name}/consumers/{consumer}/replay/dry-run'', ''jsHandler.ReplayConsumerDryRun''),
     (''POST'', cluster_path @ ''/streams/{name}/consumers/{consumer}/replay'', ''jsHandler.ReplayConsumer''),
     (''GET'', cluster_path @ ''/streams/{name}/messages/range'', ''jsHandler.GetMessageRange''),
     (''GET'', cluster_path @ ''/streams/{name}/messages'', ''jsHandler.GetMessage''),
     (''POST'', cluster_path @ ''/streams/{name}/messages'', ''jsHandler.PublishMessage''),
     (''GET'', cluster_path @ ''/streams/{name}/dlq/messages'', ''jsHandler.ListDLQMessages''),
     (''POST'', cluster_path @ ''/streams/{name}/dlq/retry'', ''jsHandler.RetryDLQMessages''),
     (''POST'', cluster_path @ ''/streams/{name}/dlq/messages/{seq}/capsule'', ''jsHandler.CaptureIncidentCapsuleFromDLQ''),
     (''POST'', cluster_path @ ''/streams/{name}/incident-capsules'', ''jsHandler.CaptureIncidentCapsule''),
     (''GET'', cluster_path @ ''/incident-capsules/{id}'', ''jsHandler.GetIncidentCapsule''),
     (''POST'', cluster_path @ ''/incident-capsules/{id}/replay/dry-run'', ''jsHandler.ReplayIncidentCapsuleDryRun'')]"

definition live_kv_routes :: "route list" where
  "live_kv_routes = [
     (''GET'', cluster_path @ ''/live/ws'', ''liveHub.Handle''),
     (''POST'', cluster_path @ ''/assistant/chat'', ''assistantHandler.Chat''),
     (''GET'', cluster_path @ ''/kv/buckets'', ''kvHandler.ListKVBuckets''),
     (''POST'', cluster_path @ ''/kv/buckets'', ''kvHandler.CreateKVBucket''),
     (''GET'', cluster_path @ ''/kv/buckets/{bucket}'', ''kvHandler.GetKVBucket''),
     (''PUT'', cluster_path @ ''/kv/buckets/{bucket}'', ''kvHandler.UpdateKVBucket''),
     (''DELETE'', cluster_path @ ''/kv/buckets/{bucket}'', ''kvHandler.DeleteKVBucket''),
     (''GET'', cluster_path @ ''/kv/buckets/{bucket}/keys'', ''kvHandler.ListKVKeys''),
     (''GET'', cluster_path @ ''/kv/buckets/{bucket}/keys/{key}'', ''kvHandler.GetKVEntry''),
     (''PUT'', cluster_path @ ''/kv/buckets/{bucket}/keys/{key}'', ''kvHandler.PutKVEntry''),
     (''DELETE'', cluster_path @ ''/kv/buckets/{bucket}/keys/{key}'', ''kvHandler.DeleteKVEntry''),
     (''GET'', cluster_path @ ''/kv/buckets/{bucket}/keys/{key}/history'', ''kvHandler.KVHistory'')]"

definition object_routes :: "route list" where
  "object_routes = [
     (''GET'', cluster_path @ ''/objects/buckets'', ''kvHandler.ListObjectBuckets''),
     (''POST'', cluster_path @ ''/objects/buckets'', ''kvHandler.CreateObjectBucket''),
     (''GET'', cluster_path @ ''/objects/buckets/{bucket}'', ''kvHandler.GetObjectBucket''),
     (''PUT'', cluster_path @ ''/objects/buckets/{bucket}'', ''kvHandler.UpdateObjectBucket''),
     (''DELETE'', cluster_path @ ''/objects/buckets/{bucket}'', ''kvHandler.DeleteObjectBucket''),
     (''GET'', cluster_path @ ''/objects/buckets/{bucket}/objects'', ''kvHandler.ListObjects''),
     (''GET'', cluster_path @ ''/objects/buckets/{bucket}/objects/{objectName}'', ''kvHandler.GetObject''),
     (''PUT'', cluster_path @ ''/objects/buckets/{bucket}/objects/{objectName}'', ''kvHandler.PutObject''),
     (''DELETE'', cluster_path @ ''/objects/buckets/{bucket}/objects/{objectName}'', ''kvHandler.DeleteObject'')]"

definition routes :: "route list" where
  "routes = system_routes @ auth_routes @ people_routes @ alert_routes @ cluster_routes @ access_routes @ account_routes @ insight_routes @ js_routes @ live_kv_routes @ object_routes"

text \<open>The segments of a pattern; a name in braces stands for any text that is not empty and has no slash.\<close>

datatype seg = Lit string | Par string

definition pattern_seg :: "string \<Rightarrow> seg" where
  "pattern_seg s = (if s \<noteq> [] \<and> hd s = CHR ''{'' \<and> last s = CHR ''}'' then Par (butlast (tl s)) else Lit s)"

definition pattern_segs :: "string \<Rightarrow> seg list" where
  "pattern_segs pat = map pattern_seg (Split CHR ''/'' (TrimPrefix pat ''/''))"

type_synonym params = "(string \<times> string) list"

fun seg_text :: "params \<Rightarrow> seg \<Rightarrow> string option" where
  "seg_text ps (Lit s) = Some s"
| "seg_text ps (Par x) =
     (case map_of ps x of None \<Rightarrow> None | Some v \<Rightarrow> if v = [] \<or> CHR ''/'' \<in> set v then None else Some v)"

fun path_of :: "params \<Rightarrow> seg list \<Rightarrow> string option" where
  "path_of ps [] = Some []"
| "path_of ps (s # ss) =
     (case (seg_text ps s, path_of ps ss) of (Some a, Some b) \<Rightarrow> Some (''/'' @ a @ b) | _ \<Rightarrow> None)"

section \<open>Contexts and handlers\<close>

record AuditCreate =
  ac_Actor :: string
  ac_Action :: string
  ac_ClusterID :: string
  ac_ResourceType :: string
  ac_ResourceName :: string
  ac_RequestID :: string
  ac_Method :: string
  ac_Path :: string
  ac_Status :: nat
  ac_IP :: string

record Ctx =
  cx_req :: Request
  cx_encoding :: string
  cx_upgrade :: bool
  cx_requestID :: string
  cx_user :: "User option"
  cx_deadline :: "duration option"
  cx_params :: params
  cx_handler :: "string option"
  cx_status :: nat
  cx_headers :: "(string \<times> string) list"
  cx_body :: string
  cx_stream :: bool
  cx_auth :: AuthService
  cx_db :: AuthDB
  cx_limiter :: ipRateLimiter
  cx_audit :: "AuditCreate list"

text \<open>A handler returns or panics.\<close>

datatype outcome = Returned Ctx | Panicked Ctx

type_synonym handler = "Ctx \<Rightarrow> outcome"

definition StatusOK :: nat where "StatusOK = 200"
definition StatusNoContent :: nat where "StatusNoContent = 204"
definition StatusNotModified :: nat where "StatusNotModified = 304"
definition StatusBadRequest :: nat where "StatusBadRequest = 400"
definition StatusUnauthorized :: nat where "StatusUnauthorized = 401"
definition StatusForbidden :: nat where "StatusForbidden = 403"
definition StatusNotFound :: nat where "StatusNotFound = 404"
definition StatusRequestEntityTooLarge :: nat where "StatusRequestEntityTooLarge = 413"
definition StatusTooManyRequests :: nat where "StatusTooManyRequests = 429"
definition StatusInternalServerError :: nat where "StatusInternalServerError = 500"

lemmas status_defs = StatusOK_def StatusNoContent_def StatusNotModified_def StatusBadRequest_def
  StatusUnauthorized_def StatusForbidden_def StatusNotFound_def StatusRequestEntityTooLarge_def
  StatusTooManyRequests_def StatusInternalServerError_def

definition set_header :: "string \<Rightarrow> string \<Rightarrow> Ctx \<Rightarrow> Ctx" where
  "set_header k v c = c\<lparr>cx_headers := AList.update k v (cx_headers c)\<rparr>"

definition header_of :: "string \<Rightarrow> Ctx \<Rightarrow> string" where
  "header_of k c = (case map_of (cx_headers c) k of None \<Rightarrow> [] | Some v \<Rightarrow> v)"

definition answer_with :: "nat \<Rightarrow> Ctx \<Rightarrow> outcome" where
  "answer_with status c = Returned (c\<lparr>cx_status := status\<rparr>)"

text \<open>What a middleware does after the next handler has returned.\<close>

definition after :: "outcome \<Rightarrow> (Ctx \<Rightarrow> Ctx) \<Rightarrow> outcome" where
  "after r f = (case r of Returned c \<Rightarrow> Returned (f c) | Panicked c \<Rightarrow> Panicked c)"

abbreviation (input) path_in :: "Ctx \<Rightarrow> string" where "path_in c \<equiv> rq_Path (cx_req c)"
abbreviation (input) method_in :: "Ctx \<Rightarrow> string" where "method_in c \<equiv> rq_Method (cx_req c)"

datatype inflated = Inflated string | BodyTooLarge | EncodingUnsupported | BadEncoding

record MwConfig =
  mc_ResponseCompression :: bool
  mc_MaxRequestBodySize :: int
  mc_CORSOrigins :: "string list"
  mc_TLS :: bool
  mc_RequestTimeout :: duration
  mc_AIRequestTimeout :: duration
  mc_PprofEnabled :: bool
  mc_PprofAuth :: bool
  mc_auditWriter :: bool
  mc_newRequestID :: string
  mc_inflate :: "string \<Rightarrow> string \<Rightarrow> int \<Rightarrow> inflated"
  mc_compress :: "Ctx \<Rightarrow> Ctx"
  mc_pprof :: handler
  mc_P :: AuthParams
  mc_newIDs :: "string \<times> string"
  mc_up :: bool
  mc_now :: gotime

section \<open>Middlewares\<close>

definition Chain :: "(handler \<Rightarrow> handler) list \<Rightarrow> handler \<Rightarrow> handler" where
  "Chain mws final = foldr (\<lambda>v next. v next) mws final"

definition HeaderRequestID :: string where "HeaderRequestID = ''X-Request-ID''"

definition ApplyRequestID :: "MwConfig \<Rightarrow> handler \<Rightarrow> handler" where
  "ApplyRequestID mw next c =
     (let i = (if IsEmpty (cx_requestID c) then mc_newRequestID mw else cx_requestID c)
      in next (set_header HeaderRequestID i (c\<lparr>cx_requestID := i\<rparr>)))"

definition quoted :: "string \<Rightarrow> string" where
  "quoted s = CHR 0x27 # s @ [CHR 0x27]"

definition buildCSP :: "MwConfig \<Rightarrow> string" where
  "buildCSP mw =
     (let connect = quoted ''self'' @ '' ws: wss:'' @ concat (map (\<lambda>origin. '' '' @ origin) (mc_CORSOrigins mw))
      in Join ''; ''
           [''default-src '' @ quoted ''self'',
            ''script-src '' @ quoted ''self'',
            ''style-src '' @ quoted ''self'' @ '' '' @ quoted ''unsafe-inline'' @ '' https://fonts.googleapis.com'',
            ''img-src '' @ quoted ''self'' @ '' data: blob:'',
            ''font-src '' @ quoted ''self'' @ '' https://fonts.gstatic.com'',
            ''connect-src '' @ connect,
            ''frame-ancestors '' @ quoted ''none'',
            ''base-uri '' @ quoted ''self'',
            ''form-action '' @ quoted ''self'',
            ''object-src '' @ quoted ''none''])"

definition ApplySecurityHeaders :: "MwConfig \<Rightarrow> handler \<Rightarrow> handler" where
  "ApplySecurityHeaders mw next c =
     (let c1 = set_header ''X-Content-Type-Options'' ''nosniff'' c;
          c2 = set_header ''X-Frame-Options'' ''DENY'' c1;
          c3 = set_header ''Referrer-Policy'' ''strict-origin-when-cross-origin'' c2;
          c4 = set_header ''Permissions-Policy'' ''geolocation=(), microphone=(), camera=()'' c3;
          c5 = set_header ''Content-Security-Policy'' (buildCSP mw) c4;
          c6 = (if mc_TLS mw then set_header ''Strict-Transport-Security'' ''max-age=31536000; includeSubDomains'' c5
                else c5)
      in next c6)"

definition minResponseCompressBytes :: nat where "minResponseCompressBytes = 32 * 1024"
definition defaultMaxBytes :: int where "defaultMaxBytes = 2 ^ 20"

definition skipResponseCompressionBefore :: "Ctx \<Rightarrow> bool" where
  "skipResponseCompressionBefore c = (if cx_upgrade c then True else HasSuffix (path_in c) ''/live/ws'')"

definition skipResponseCompressionAfter :: "Ctx \<Rightarrow> bool" where
  "skipResponseCompressionAfter c =
     (if cx_status c = StatusNoContent \<or> cx_status c = StatusNotModified then True
      else if \<not> IsEmpty (header_of ''Content-Encoding'' c) then True
      else if HasPrefix (header_of ''Content-Type'' c) ''text/event-stream'' then True
      else if cx_stream c then True
      else length (cx_body c) = 0 \<or> length (cx_body c) \<le> minResponseCompressBytes)"

definition ApplyResponseCompression :: "MwConfig \<Rightarrow> handler \<Rightarrow> handler" where
  "ApplyResponseCompression mw next =
     (if \<not> mc_ResponseCompression mw then next
      else (\<lambda>c. if skipResponseCompressionBefore c then next c
                else after (next c) (\<lambda>c'. if skipResponseCompressionAfter c' then c' else mc_compress mw c')))"

definition DecompressRequestBody :: "MwConfig \<Rightarrow> handler \<Rightarrow> handler" where
  "DecompressRequestBody mw next c =
     (if IsEmpty (cx_encoding c) then next c
      else
        (let maxBytes = (if mc_MaxRequestBodySize mw \<le> 0 then defaultMaxBytes else mc_MaxRequestBodySize mw);
             cl = rq_ContentLength (cx_req c)
         in if cl > 0 \<and> cl > maxBytes then answer_with StatusRequestEntityTooLarge c
            else if int (length (rq_Body (cx_req c))) > maxBytes then answer_with StatusRequestEntityTooLarge c
            else (case mc_inflate mw (cx_encoding c) (rq_Body (cx_req c)) maxBytes of
                BodyTooLarge \<Rightarrow> answer_with StatusRequestEntityTooLarge c
              | EncodingUnsupported \<Rightarrow> answer_with StatusBadRequest c
              | BadEncoding \<Rightarrow> answer_with StatusBadRequest c
              | Inflated body \<Rightarrow>
                  next (c\<lparr>cx_encoding := [],
                          cx_req := (cx_req c)\<lparr>rq_Body := body, rq_ContentLength := int (length body)\<rparr>\<rparr>))))"

definition mw_CheckBodySizeLimit :: "MwConfig \<Rightarrow> handler \<Rightarrow> handler" where
  "mw_CheckBodySizeLimit mw next c =
     (if CheckBodySizeLimit (mc_MaxRequestBodySize mw) (cx_req c) = Pass then next c
      else answer_with StatusRequestEntityTooLarge c)"

definition mw_VerifyAuthRateLimit :: "MwConfig \<Rightarrow> handler \<Rightarrow> handler" where
  "mw_VerifyAuthRateLimit mw next c =
     (case VerifyAuthRateLimit (cx_limiter c) (path_in c) (rq_ClientIP (cx_req c)) (mc_now mw) of
        (rl, Next) \<Rightarrow> next (c\<lparr>cx_limiter := rl\<rparr>)
      | (rl, TooManyRequests seconds) \<Rightarrow>
          answer_with StatusTooManyRequests (set_header ''Retry-After'' (FormatUint (nat seconds)) (c\<lparr>cx_limiter := rl\<rparr>)))"

text \<open>Metrics and the log of requests do not change the answer.\<close>

definition ApplyMetrics :: "MwConfig \<Rightarrow> handler \<Rightarrow> handler" where
  "ApplyMetrics mw next c = (if \<not> isAPIPath (path_in c) then next c else after (next c) (\<lambda>c'. c'))"

definition ApplyRequestLogger :: "MwConfig \<Rightarrow> handler \<Rightarrow> handler" where
  "ApplyRequestLogger mw next c = (if \<not> isAPIPath (path_in c) then next c else after (next c) (\<lambda>c'. c'))"

definition pathPrefixAssistant :: string where "pathPrefixAssistant = ''/api/v1/assistant''"

definition isAITimeoutPath :: "string \<Rightarrow> bool" where
  "isAITimeoutPath path \<longleftrightarrow> HasPrefix path pathPrefixAssistant \<or> Contains path ''/assistant/chat'' \<or>
     Contains path ''/architecture-review/ask'' \<or> Contains path ''/architecture-refactor/ask'' \<or>
     Contains path ''/architecture-score/ask'' \<or> Contains path ''/architecture-export'' \<or>
     Contains path ''/chaos-story/generate'' \<or> Contains path ''/hidden-bottlenecks/ask''"

definition ApplyAITimeout :: "MwConfig \<Rightarrow> handler \<Rightarrow> handler" where
  "ApplyAITimeout mw next c =
     (if isLongRunningProfilePath (path_in c) then next c
      else
        (let reqTimeout = (if mc_AIRequestTimeout mw > 0 \<and> isAITimeoutPath (path_in c) then mc_AIRequestTimeout mw
                           else mc_RequestTimeout mw)
         in next (c\<lparr>cx_deadline := Some reqTimeout\<rparr>)))"

definition mw_VerifyCors :: "MwConfig \<Rightarrow> handler \<Rightarrow> handler" where
  "mw_VerifyCors mw next c =
     (case VerifyCors (mc_CORSOrigins mw) (cx_req c) of
        (answer, echoed) \<Rightarrow>
          (let c1 = (case echoed of
                 None \<Rightarrow> c
               | Some origin \<Rightarrow> set_header ''Vary'' ''Origin''
                   (set_header ''Access-Control-Allow-Credentials'' ''true''
                     (set_header ''Access-Control-Allow-Origin'' origin c)));
               c2 = set_header ''Access-Control-Allow-Headers''
                 ''Accept, Authorization, Content-Type, Content-Encoding, X-Request-ID, X-CSRF-Token''
                 (set_header ''Access-Control-Allow-Methods'' ''GET, POST, PUT, DELETE, OPTIONS'' c1)
           in if answer = Pass then next c2
              else answer_with (if answer = NoContent then StatusNoContent else StatusForbidden) c2))"

definition auditQueueSize :: nat where "auditQueueSize = 512"

text \<open>The queue of entries not written yet; a full one drops the entry.\<close>

definition Writer_Log :: "AuditCreate \<Rightarrow> AuditCreate list \<Rightarrow> AuditCreate list" where
  "Writer_Log entry q = (if length q < auditQueueSize then q @ [entry] else q)"

definition audit_entry :: "Ctx \<Rightarrow> AuditCreate" where
  "audit_entry c =
     \<lparr>ac_Actor = (case cx_user c of None \<Rightarrow> [] | Some u \<Rightarrow> u_Username u),
      ac_Action = ActionForMethod (method_in c), ac_ClusterID = audit_ClusterIDFromPath (path_in c),
      ac_ResourceType = fst (ParseResource (path_in c)), ac_ResourceName = snd (ParseResource (path_in c)),
      ac_RequestID = cx_requestID c, ac_Method = method_in c, ac_Path = path_in c, ac_Status = cx_status c,
      ac_IP = rq_ClientIP (cx_req c)\<rparr>"

definition VerifyAudit :: "MwConfig \<Rightarrow> handler \<Rightarrow> handler" where
  "VerifyAudit mw next c =
     (if safe_method (method_in c) \<or> isPublicPath (path_in c) then next c
      else after (next c) (\<lambda>c'.
        if cx_status c' \<ge> StatusBadRequest \<or> \<not> mc_auditWriter mw then c'
        else c'\<lparr>cx_audit := Writer_Log (audit_entry c') (cx_audit c')\<rparr>))"

definition mw_VerifyCSRF :: "MwConfig \<Rightarrow> handler \<Rightarrow> handler" where
  "mw_VerifyCSRF mw next c =
     (if VerifyCSRF (cx_req c) = Pass then next c else answer_with StatusForbidden c)"

definition mw_VerifyAuth :: "MwConfig \<Rightarrow> handler \<Rightarrow> handler" where
  "mw_VerifyAuth mw next c =
     (if \<not> requiresAuth (path_in c) then next c
      else (case VerifyAuth (mc_P mw) (mc_newIDs mw) (cx_db c) (mc_up mw) (cx_auth c) (cx_req c) (mc_now mw) of
          (Pass, user, s, d) \<Rightarrow> next (c\<lparr>cx_user := user, cx_auth := s, cx_db := d\<rparr>)
        | (_, _, s, d) \<Rightarrow> answer_with StatusUnauthorized (c\<lparr>cx_auth := s, cx_db := d\<rparr>)))"

definition mw_VerifyRBAC :: "MwConfig \<Rightarrow> handler \<Rightarrow> handler" where
  "mw_VerifyRBAC mw next c =
     (case VerifyRBAC (cx_user c) (path_in c) (method_in c) of
        Pass \<Rightarrow> next c
      | Unauthorized \<Rightarrow> answer_with StatusUnauthorized c
      | _ \<Rightarrow> answer_with StatusForbidden c)"

text \<open>The answer of \<open>recover\<close> to a panic.\<close>

definition ApplyRecover :: "handler \<Rightarrow> handler" where
  "ApplyRecover next c =
     (case next c of Returned c' \<Rightarrow> Returned c' | Panicked c' \<Rightarrow> answer_with StatusInternalServerError c')"

definition authorizeDebugPprof :: "MwConfig \<Rightarrow> Ctx \<Rightarrow> bool \<times> Ctx" where
  "authorizeDebugPprof mw c =
     (case Authenticate (mc_P mw) (mc_newIDs mw) (cx_db c) (mc_up mw) (cx_auth c) (cx_req c) (mc_now mw) of
        (None, s, d) \<Rightarrow> (False, c\<lparr>cx_auth := s, cx_db := d, cx_status := StatusUnauthorized\<rparr>)
      | (Some user, s, d) \<Rightarrow>
          if IsEmpty (u_ID user) then (False, c\<lparr>cx_auth := s, cx_db := d, cx_status := StatusUnauthorized\<rparr>)
          else (case LoadUserForSession (Some d) (mc_up mw) s user (mc_now mw) of
              (Inl _, s') \<Rightarrow> (False, c\<lparr>cx_auth := s', cx_db := d, cx_status := StatusUnauthorized\<rparr>)
            | (Inr loaded, s') \<Rightarrow>
                if \<not> CanViewProfiling loaded then (False, c\<lparr>cx_auth := s', cx_db := d, cx_status := StatusForbidden\<rparr>)
                else (True, c\<lparr>cx_auth := s', cx_db := d\<rparr>)))"

definition ApplyDebugPprof :: "MwConfig \<Rightarrow> handler \<Rightarrow> handler" where
  "ApplyDebugPprof mw next c =
     (if \<not> isPprofPath (path_in c) then next c
      else if \<not> mc_PprofEnabled mw then answer_with StatusNotFound c
      else if mc_PprofAuth mw then
        (case authorizeDebugPprof mw c of (ok, c') \<Rightarrow> if \<not> ok then Returned c' else mc_pprof mw c')
      else mc_pprof mw c)"

section \<open>The server\<close>

record Router =
  rt_lookup :: "string \<Rightarrow> string \<Rightarrow> (string \<times> params) option"
  rt_miss :: handler

text \<open>The router hands a path to a handler of the table only when the path is an instance of its pattern,
  with the parameters of the pattern.\<close>

definition router_ok :: "Router \<Rightarrow> bool" where
  "router_ok R \<longleftrightarrow> (\<forall>m p h ps. rt_lookup R m p = Some (h, ps) \<longrightarrow>
     (\<exists>pat. (m, pat, h) \<in> set routes \<and> path_of ps (pattern_segs pat) = Some p \<and>
        (\<forall>x \<in> fst ` set ps. Par x \<in> set (pattern_segs pat))))"

definition router_Handler :: "Router \<Rightarrow> (string \<Rightarrow> handler) \<Rightarrow> handler" where
  "router_Handler R app c =
     (case rt_lookup R (method_in c) (path_in c) of
        None \<Rightarrow> rt_miss R c
      | Some (h, ps) \<Rightarrow> app h (c\<lparr>cx_params := ps, cx_handler := Some h\<rparr>))"

definition middlewares :: "MwConfig \<Rightarrow> (handler \<Rightarrow> handler) list" where
  "middlewares mw =
     [ApplyResponseCompression mw,
      ApplyRequestID mw,
      ApplySecurityHeaders mw,
      DecompressRequestBody mw,
      mw_CheckBodySizeLimit mw,
      mw_VerifyAuthRateLimit mw,
      ApplyMetrics mw,
      ApplyRequestLogger mw,
      ApplyAITimeout mw,
      mw_VerifyCors mw,
      VerifyAudit mw,
      mw_VerifyCSRF mw,
      mw_VerifyAuth mw,
      mw_VerifyRBAC mw]"

definition Init :: "MwConfig \<Rightarrow> Router \<Rightarrow> (string \<Rightarrow> handler) \<Rightarrow> handler" where
  "Init mw R app = ApplyRecover (ApplyDebugPprof mw (Chain (middlewares mw) (router_Handler R app)))"

section \<open>The chain lets a handler see admitted contexts only\<close>

text \<open>
  Each middleware depends on the next handler only through the contexts it hands on.
\<close>

lemma ApplyResponseCompression_cong:
  "next c = next' c \<Longrightarrow> ApplyResponseCompression mw next c = ApplyResponseCompression mw next' c"
  by (simp add: ApplyResponseCompression_def)

lemma ApplyRequestID_cong:
  "(\<And>c'. cx_req c' = cx_req c \<Longrightarrow> cx_user c' = cx_user c \<Longrightarrow> cx_auth c' = cx_auth c \<Longrightarrow> cx_db c' = cx_db c \<Longrightarrow>
     next c' = next' c') \<Longrightarrow> ApplyRequestID mw next c = ApplyRequestID mw next' c"
  by (simp add: ApplyRequestID_def set_header_def Let_def)

lemma ApplySecurityHeaders_cong:
  "(\<And>c'. cx_req c' = cx_req c \<Longrightarrow> cx_user c' = cx_user c \<Longrightarrow> cx_auth c' = cx_auth c \<Longrightarrow> cx_db c' = cx_db c \<Longrightarrow>
     next c' = next' c') \<Longrightarrow> ApplySecurityHeaders mw next c = ApplySecurityHeaders mw next' c"
  by (simp add: ApplySecurityHeaders_def set_header_def Let_def)

lemma DecompressRequestBody_cong:
  "(\<And>c'. rq_Path (cx_req c') = rq_Path (cx_req c) \<Longrightarrow> rq_Method (cx_req c') = rq_Method (cx_req c) \<Longrightarrow>
     cx_user c' = cx_user c \<Longrightarrow> cx_auth c' = cx_auth c \<Longrightarrow> cx_db c' = cx_db c \<Longrightarrow>
     next c' = next' c') \<Longrightarrow> DecompressRequestBody mw next c = DecompressRequestBody mw next' c"
  by (simp add: DecompressRequestBody_def Let_def split: inflated.split)

lemma CheckBodySizeLimit_cong:
  "(CheckBodySizeLimit (mc_MaxRequestBodySize mw) (cx_req c) = Pass \<Longrightarrow> next c = next' c) \<Longrightarrow>
   mw_CheckBodySizeLimit mw next c = mw_CheckBodySizeLimit mw next' c"
  by (simp add: mw_CheckBodySizeLimit_def)

lemma VerifyAuthRateLimit_cong:
  "(\<And>rl. next (c\<lparr>cx_limiter := rl\<rparr>) = next' (c\<lparr>cx_limiter := rl\<rparr>)) \<Longrightarrow>
   mw_VerifyAuthRateLimit mw next c = mw_VerifyAuthRateLimit mw next' c"
  by (simp add: mw_VerifyAuthRateLimit_def split: prod.split limit_answer.split)

lemma ApplyMetrics_cong: "next c = next' c \<Longrightarrow> ApplyMetrics mw next c = ApplyMetrics mw next' c"
  by (simp add: ApplyMetrics_def)

lemma ApplyRequestLogger_cong: "next c = next' c \<Longrightarrow> ApplyRequestLogger mw next c = ApplyRequestLogger mw next' c"
  by (simp add: ApplyRequestLogger_def)

lemma ApplyAITimeout_cong:
  "(\<And>d. next (c\<lparr>cx_deadline := d\<rparr>) = next' (c\<lparr>cx_deadline := d\<rparr>)) \<Longrightarrow> next c = next' c \<Longrightarrow>
   ApplyAITimeout mw next c = ApplyAITimeout mw next' c"
  by (simp add: ApplyAITimeout_def Let_def)

lemma VerifyCors_pass: "VerifyCors origins rq = (Pass, e) \<Longrightarrow> rq_Method rq \<noteq> ''OPTIONS''"
  by (auto simp: VerifyCors_def Let_def split: if_splits)

lemma VerifyCors_cong:
  "(\<And>c'. cx_req c' = cx_req c \<Longrightarrow> cx_user c' = cx_user c \<Longrightarrow> cx_auth c' = cx_auth c \<Longrightarrow> cx_db c' = cx_db c \<Longrightarrow>
     rq_Method (cx_req c) \<noteq> ''OPTIONS'' \<Longrightarrow> next c' = next' c') \<Longrightarrow>
   mw_VerifyCors mw next c = mw_VerifyCors mw next' c"
  by (auto simp: mw_VerifyCors_def set_header_def Let_def dest: VerifyCors_pass split: prod.split option.split)

lemma VerifyAudit_cong: "next c = next' c \<Longrightarrow> VerifyAudit mw next c = VerifyAudit mw next' c"
  by (simp add: VerifyAudit_def)

lemma VerifyCSRF_cong:
  "(VerifyCSRF (cx_req c) = Pass \<Longrightarrow> next c = next' c) \<Longrightarrow> mw_VerifyCSRF mw next c = mw_VerifyCSRF mw next' c"
  by (simp add: mw_VerifyCSRF_def)

lemma VerifyAuth_cong:
  assumes "\<not> requiresAuth (rq_Path (cx_req c)) \<Longrightarrow> next c = next' c"
    and "\<And>user s d. requiresAuth (rq_Path (cx_req c)) \<Longrightarrow>
      VerifyAuth (mc_P mw) (mc_newIDs mw) (cx_db c) (mc_up mw) (cx_auth c) (cx_req c) (mc_now mw) = (Pass, user, s, d) \<Longrightarrow>
      next (c\<lparr>cx_user := user, cx_auth := s, cx_db := d\<rparr>) = next' (c\<lparr>cx_user := user, cx_auth := s, cx_db := d\<rparr>)"
  shows "mw_VerifyAuth mw next c = mw_VerifyAuth mw next' c"
  using assms by (auto simp: mw_VerifyAuth_def split: prod.split answer.split)

lemma VerifyRBAC_cong:
  "(VerifyRBAC (cx_user c) (rq_Path (cx_req c)) (rq_Method (cx_req c)) = Pass \<Longrightarrow> next c = next' c) \<Longrightarrow>
   mw_VerifyRBAC mw next c = mw_VerifyRBAC mw next' c"
  by (simp add: mw_VerifyRBAC_def split: answer.split)

text \<open>What a handler can rely on, of a request that came in as \<open>c0\<close>.\<close>

definition admitted :: "MwConfig \<Rightarrow> Ctx \<Rightarrow> Ctx \<Rightarrow> bool" where
  "admitted mw c0 c \<longleftrightarrow>
     rq_Path (cx_req c) = rq_Path (cx_req c0) \<and> rq_Method (cx_req c) = rq_Method (cx_req c0) \<and>
     rq_Method (cx_req c) \<noteq> ''OPTIONS'' \<and>
     CheckBodySizeLimit (mc_MaxRequestBodySize mw) (cx_req c) = Pass \<and> VerifyCSRF (cx_req c) = Pass \<and>
     (if requiresAuth (rq_Path (cx_req c)) then
        (\<exists>user. VerifyAuth (mc_P mw) (mc_newIDs mw) (cx_db c0) (mc_up mw) (cx_auth c0) (cx_req c) (mc_now mw) =
             (Pass, Some user, cx_auth c, cx_db c) \<and> cx_user c = Some user \<and>
           VerifyRBAC (Some user) (rq_Path (cx_req c)) (rq_Method (cx_req c)) = Pass)
      else cx_user c = cx_user c0 \<and> cx_auth c = cx_auth c0 \<and> cx_db c = cx_db c0)"

lemma VerifyAuth_user:
  "VerifyAuth P ids d up s rq now = (Pass, user, s', d') \<Longrightarrow> requiresAuth (rq_Path rq) \<Longrightarrow> user \<noteq> None"
  by (auto simp: VerifyAuth_def split: prod.splits option.splits if_splits sum.splits)

lemma chain_cong:
  assumes "\<And>c'. admitted mw c c' \<Longrightarrow> next c' = next' c'"
  shows "Chain (middlewares mw) next c = Chain (middlewares mw) next' c"
  unfolding Chain_def middlewares_def foldr.simps comp_def id_apply
proof (rule ApplyResponseCompression_cong, rule ApplyRequestID_cong, rule ApplySecurityHeaders_cong,
    rule DecompressRequestBody_cong, rule CheckBodySizeLimit_cong, rule VerifyAuthRateLimit_cong,
    rule ApplyMetrics_cong, rule ApplyRequestLogger_cong)
  fix c1 c2 c3 :: Ctx and rl
  assume req: "rq_Path (cx_req c3) = rq_Path (cx_req c2)" "rq_Method (cx_req c3) = rq_Method (cx_req c2)"
    "cx_req c2 = cx_req c1" "cx_req c1 = cx_req c"
    and same: "cx_user c3 = cx_user c2" "cx_user c2 = cx_user c1" "cx_user c1 = cx_user c"
      "cx_auth c3 = cx_auth c2" "cx_auth c2 = cx_auth c1" "cx_auth c1 = cx_auth c"
      "cx_db c3 = cx_db c2" "cx_db c2 = cx_db c1" "cx_db c1 = cx_db c"
    and size: "CheckBodySizeLimit (mc_MaxRequestBodySize mw) (cx_req c3) = Pass"
  have inner: "mw_VerifyCors mw (VerifyAudit mw (mw_VerifyCSRF mw (mw_VerifyAuth mw (mw_VerifyRBAC mw next)))) d =
      mw_VerifyCors mw (VerifyAudit mw (mw_VerifyCSRF mw (mw_VerifyAuth mw (mw_VerifyRBAC mw next')))) d"
    if d: "cx_req d = cx_req c3" "cx_user d = cx_user c3" "cx_auth d = cx_auth c3" "cx_db d = cx_db c3" for d :: Ctx
  proof (rule VerifyCors_cong, rule VerifyAudit_cong, rule VerifyCSRF_cong, rule VerifyAuth_cong; rule VerifyRBAC_cong)
    fix e :: Ctx assume e: "cx_req e = cx_req d" "cx_user e = cx_user d" "cx_auth e = cx_auth d" "cx_db e = cx_db d"
      and "rq_Method (cx_req d) \<noteq> ''OPTIONS''" "VerifyCSRF (cx_req e) = Pass" "\<not> requiresAuth (rq_Path (cx_req e))"
    then show "next e = next' e" using req same size d by (intro assms) (simp add: admitted_def)
  next
    fix e :: Ctx and user s db assume e: "cx_req e = cx_req d" "cx_user e = cx_user d" "cx_auth e = cx_auth d" "cx_db e = cx_db d"
      and h: "rq_Method (cx_req d) \<noteq> ''OPTIONS''" "VerifyCSRF (cx_req e) = Pass" "requiresAuth (rq_Path (cx_req e))"
      and auth: "VerifyAuth (mc_P mw) (mc_newIDs mw) (cx_db e) (mc_up mw) (cx_auth e) (cx_req e) (mc_now mw) = (Pass, user, s, db)"
      and rbac: "VerifyRBAC (cx_user (e\<lparr>cx_user := user, cx_auth := s, cx_db := db\<rparr>))
        (rq_Path (cx_req (e\<lparr>cx_user := user, cx_auth := s, cx_db := db\<rparr>)))
        (rq_Method (cx_req (e\<lparr>cx_user := user, cx_auth := s, cx_db := db\<rparr>))) = Pass"
    obtain u where "user = Some u" using VerifyAuth_user [OF auth h(3)] by blast
    then show "next (e\<lparr>cx_user := user, cx_auth := s, cx_db := db\<rparr>) = next' (e\<lparr>cx_user := user, cx_auth := s, cx_db := db\<rparr>)"
      using req same size d e h auth rbac by (intro assms) (simp add: admitted_def)
  qed
  show "ApplyAITimeout mw (mw_VerifyCors mw (VerifyAudit mw (mw_VerifyCSRF mw (mw_VerifyAuth mw (mw_VerifyRBAC mw next)))))
      (c3\<lparr>cx_limiter := rl\<rparr>) =
    ApplyAITimeout mw (mw_VerifyCors mw (VerifyAudit mw (mw_VerifyCSRF mw (mw_VerifyAuth mw (mw_VerifyRBAC mw next')))))
      (c3\<lparr>cx_limiter := rl\<rparr>)"
    by (rule ApplyAITimeout_cong; rule inner; simp)
qed

section \<open>The table of routes\<close>

definition public_handlers :: "string list" where
  "public_handlers =
     [''opsHandler.Health'', ''opsHandler.OpenAPI'', ''schemaHandler.OpenAPIModels'', ''authHandler.Config'',
      ''authHandler.Login'', ''authHandler.Refresh'', ''authHandler.Logout'', ''accessHandler.GetInvite'',
      ''accessHandler.AcceptInvite'']"

text \<open>The handlers of a cluster that check accounts themselves.\<close>

definition account_handlers :: "string list" where
  "account_handlers =
     [''opsHandler.GetCluster'', ''opsHandler.UpdateClusterDisabled'', ''opsHandler.DeleteCluster'',
      ''opsHandler.GetClusterConnection'', ''opsHandler.ConnectionEventsSSE'',
      ''accessHandler.ListSystemAccess'', ''accessHandler.UpsertSystemAccess'', ''accessHandler.DeleteSystemAccess'',
      ''accessHandler.ListAccountAccess'', ''accessHandler.UpsertAccountAccess'', ''accessHandler.DeleteAccountAccess'',
      ''natsAccHandler.ListUsers'', ''natsAccHandler.SubjectPermissions'', ''natsAccHandler.CreateUser'',
      ''natsAccHandler.GetUser'', ''natsAccHandler.UpdateUser'', ''natsAccHandler.DeleteUser'',
      ''natsAccHandler.DownloadCreds'', ''natsAccHandler.RotateUser'', ''natsAccHandler.MintJWT'',
      ''natsAccHandler.AssignPerson'', ''natsAccHandler.ListSigningGroups'', ''natsAccHandler.CreateSigningGroup'',
      ''natsAccHandler.UpdateSigningGroup'', ''natsAccHandler.DeleteSigningGroup'', ''natsAccHandler.ListExports'',
      ''natsAccHandler.CreateExport'', ''natsAccHandler.UpdateExport'', ''natsAccHandler.DeleteExport'']"

text \<open>The resource below a cluster that a pattern names, empty for the cluster itself.\<close>

fun cluster_resource :: "seg list \<Rightarrow> string option" where
  "cluster_resource (Lit a # Lit b # Lit c # Par x # ss) =
     (if [a, b, c, x] = [''api'', ''v1'', ''clusters'', ''clusterId''] then
        (case ss of [] \<Rightarrow> Some [] | Lit s # _ \<Rightarrow> Some s | Par _ # _ \<Rightarrow> None)
      else None)"
| "cluster_resource _ = None"

text \<open>What a pattern begins with, up to the first parameter.\<close>

fun fixed_part :: "seg list \<Rightarrow> string" where
  "fixed_part [] = []"
| "fixed_part (Lit s # ss) = ''/'' @ s @ fixed_part ss"
| "fixed_part (Par _ # _) = ''/''"

definition public_exact :: "string list" where
  "public_exact = [pathPrefixHealth, pathPrefixOpenAPI, pathPrefixSchemas, pathPrefixAuthConfig,
     pathPrefixAuthLogin, pathPrefixAuthLogout, pathPrefixAuthRefresh, pathPrefixAuthAcceptInvite]"

definition is_par :: "seg \<Rightarrow> bool" where
  "is_par s = (case s of Par _ \<Rightarrow> True | Lit _ \<Rightarrow> False)"

text \<open>The facts about the table that can be read off it.\<close>

definition route_facts :: "route \<Rightarrow> bool" where
  "route_facts r =
     (case r of (m, pat, h) \<Rightarrow>
        (let segs = pattern_segs pat; f = fixed_part segs
         in HasPrefix f ''/api/'' \<and> m \<in> {''GET'', ''POST'', ''PUT'', ''PATCH'', ''DELETE''} \<and>
            (if h \<in> set public_handlers
             then f \<in> set public_exact \<and> \<not> list_ex is_par segs \<or> HasPrefix f pathPrefixAuthInvite
             else list_all (\<lambda>p. \<not> HasPrefix p f) public_exact \<and> \<not> HasPrefix f pathPrefixAuthInvite \<and>
                  \<not> HasPrefix pathPrefixAuthInvite f) \<and>
            (Par ''clusterId'' \<in> set segs \<longrightarrow> cluster_resource segs \<noteq> None) \<and>
            (case cluster_resource segs of
               None \<Rightarrow> True
             | Some s \<Rightarrow> CHR ''/'' \<notin> set s \<and> (h \<in> set account_handlers \<longleftrightarrow> s \<in> set accountScopedClusterSegments))))"

lemma system_route_facts: "list_all route_facts system_routes"
  by code_simp

lemma auth_route_facts: "list_all route_facts auth_routes"
  by code_simp

lemma people_route_facts: "list_all route_facts people_routes"
  by code_simp

lemma alert_route_facts: "list_all route_facts alert_routes"
  by code_simp

lemma cluster_route_facts: "list_all route_facts cluster_routes"
  by code_simp

lemma access_route_facts: "list_all route_facts access_routes"
  by code_simp

lemma account_route_facts: "list_all route_facts account_routes"
  by code_simp

lemma insight_route_facts: "list_all route_facts insight_routes"
  by code_simp

lemma js_route_facts: "list_all route_facts js_routes"
  by code_simp

lemma live_kv_route_facts: "list_all route_facts live_kv_routes"
  by code_simp

lemma object_route_facts: "list_all route_facts object_routes"
  by code_simp

lemma all_route_facts: "list_all route_facts routes"
  unfolding routes_def list_all_append
  by (intro conjI system_route_facts auth_route_facts people_route_facts alert_route_facts cluster_route_facts access_route_facts account_route_facts insight_route_facts js_route_facts live_kv_route_facts object_route_facts)

lemma path_of_fixed:
  "path_of ps segs = Some p \<Longrightarrow> HasPrefix p (fixed_part segs) \<and> (\<not> list_ex is_par segs \<longrightarrow> p = fixed_part segs)"
  by (induction segs arbitrary: p rule: fixed_part.induct)
    (auto simp: HasPrefix_iff is_par_def split: option.splits)

lemma isPublicPath_iff: "isPublicPath p \<longleftrightarrow> p \<in> set public_exact \<or> HasPrefix p pathPrefixAuthInvite"
  by (auto simp: isPublicPath_def public_exact_def)

lemma HasPrefix_common:
  "HasPrefix p a \<Longrightarrow> HasPrefix p b \<Longrightarrow> HasPrefix a b \<or> HasPrefix b a"
  by (auto simp: HasPrefix_iff append_eq_append_conv2)

lemma route_public:
  assumes "route_facts (m, pat, h)" "path_of ps (pattern_segs pat) = Some p"
  shows "isAPIPath p" "isPublicPath p \<longleftrightarrow> h \<in> set public_handlers"
proof -
  let ?f = "fixed_part (pattern_segs pat)"
  have f: "HasPrefix p ?f" "\<not> list_ex is_par (pattern_segs pat) \<Longrightarrow> p = ?f"
    using path_of_fixed [OF assms(2)] by blast+
  have api: "HasPrefix ?f ''/api/''" using assms(1) by (simp add: route_facts_def Let_def)
  then show "isAPIPath p" using f(1) by (auto simp: isAPIPath_def HasPrefix_iff)
  show "isPublicPath p \<longleftrightarrow> h \<in> set public_handlers"
  proof (cases "h \<in> set public_handlers")
    case True
    then have "?f \<in> set public_exact \<and> \<not> list_ex is_par (pattern_segs pat) \<or> HasPrefix ?f pathPrefixAuthInvite"
      using assms(1) by (simp add: route_facts_def Let_def)
    then have "p \<in> set public_exact \<or> HasPrefix p pathPrefixAuthInvite"
      using f by (auto simp: HasPrefix_iff)
    then show ?thesis using True by (simp add: isPublicPath_iff)
  next
    case False
    then have no: "list_all (\<lambda>q. \<not> HasPrefix q ?f) public_exact" "\<not> HasPrefix ?f pathPrefixAuthInvite"
      "\<not> HasPrefix pathPrefixAuthInvite ?f"
      using assms(1) by (simp_all add: route_facts_def Let_def)
    have "p \<notin> set public_exact" using no(1) f(1) by (auto simp: list_all_iff)
    moreover have "\<not> HasPrefix p pathPrefixAuthInvite" using HasPrefix_common [OF f(1)] no(2,3) by blast
    ultimately show ?thesis using False by (simp add: isPublicPath_iff)
  qed
qed

lemma path_of_slash: "path_of ps ss = Some r \<Longrightarrow> r = [] \<or> (\<exists>t. r = CHR ''/'' # t)"
  by (cases ss) (auto split: option.splits)

lemma route_cluster:
  assumes "cluster_resource segs = Some s" "path_of ps segs = Some p" "CHR ''/'' \<notin> set s"
  obtains i r where "map_of ps ''clusterId'' = Some i" "CHR ''/'' \<notin> set i" "p = clusters_prefix @ i @ r"
    "r = [] \<or> (\<exists>t. r = CHR ''/'' # t)" "clusterSubResource p = s"
proof -
  obtain ss where segs: "segs = Lit ''api'' # Lit ''v1'' # Lit ''clusters'' # Par ''clusterId'' # ss"
    and s: "case ss of [] \<Rightarrow> s = [] | Lit l # _ \<Rightarrow> s = l | Par _ # _ \<Rightarrow> False"
    using assms(1) by (cases segs rule: cluster_resource.cases) (auto split: if_splits list.splits seg.splits)
  from assms(2) obtain i r where i: "map_of ps ''clusterId'' = Some i" "CHR ''/'' \<notin> set i"
    and r: "path_of ps ss = Some r" and p: "p = clusters_prefix @ i @ r"
    by (auto simp: segs clusters_prefix_def split: option.splits if_splits)
  have start: "r = [] \<or> (\<exists>t. r = CHR ''/'' # t)" by (rule path_of_slash [OF r])
  have "clusterSubResource p = s"
  proof (cases ss)
    case Nil
    then show ?thesis using r s i(2) by (simp add: p clusterSubResource_def)
  next
    case (Cons a rest)
    then obtain t where a: "a = Lit s" using s by (cases a) auto
    obtain t where "path_of ps rest = Some t" "r = ''/'' @ s @ t" using r by (auto simp: Cons a split: option.splits)
    moreover have "t = [] \<or> (\<exists>t'. t = CHR ''/'' # t')" by (rule path_of_slash [OF calculation(1)])
    ultimately show ?thesis using i(2) assms(3) by (auto simp: p clusterSubResource_def)
  qed
  with that i p start show ?thesis by blast
qed

section \<open>Properties\<close>

text \<open>What the chain has made sure of before a handler of the table runs.\<close>

definition may_enter :: "User \<Rightarrow> string \<Rightarrow> string \<Rightarrow> string \<Rightarrow> bool" where
  "may_enter u m h clusterID \<longleftrightarrow> CanAccessClusterOrAccount u clusterID \<and>
     (h \<notin> set account_handlers \<longrightarrow> CanAccessCluster u clusterID \<and> (\<not> safe_method m \<longrightarrow> CanWriteCluster u clusterID))"

definition route_admitted :: "MwConfig \<Rightarrow> Ctx \<Rightarrow> string \<Rightarrow> Ctx \<Rightarrow> bool" where
  "route_admitted mw c0 h c \<longleftrightarrow> admitted mw c0 c \<and>
     (h \<notin> set public_handlers \<longrightarrow> (\<exists>u. cx_user c = Some u \<and>
        VerifyAuth (mc_P mw) (mc_newIDs mw) (cx_db c0) (mc_up mw) (cx_auth c0) (cx_req c) (mc_now mw) =
          (Pass, Some u, cx_auth c, cx_db c) \<and>
        VerifyRBAC (Some u) (rq_Path (cx_req c)) (rq_Method (cx_req c)) = Pass \<and>
        (\<forall>i. map_of (cx_params c) ''clusterId'' = Some i \<longrightarrow> uuidPattern i \<longrightarrow>
           may_enter u (rq_Method (cx_req c)) h (ClusterID i))))"

lemma accessible_any: "CanAccessCluster u c \<Longrightarrow> CanAccessClusterOrAccount u c"
  by (simp add: CanAccessClusterOrAccount_def)

lemma jetstream_writes: "CanManageJetStream u c \<Longrightarrow> CanWriteCluster u c"
  by (rule CanManageJetStream_write)

lemma par_clusterId:
  "path_of ps segs = Some p \<Longrightarrow> Par x \<in> set segs \<Longrightarrow> map_of ps x \<noteq> None"
  by (induction segs arbitrary: p) (auto split: option.splits seg.splits)

lemma rbac_enter:
  assumes "VerifyRBAC (Some u) p m = Pass" "p = clusters_prefix @ i @ r" "r = [] \<or> (\<exists>t. r = CHR ''/'' # t)"
    and "uuidPattern i" "h \<in> set account_handlers \<longleftrightarrow> clusterSubResource p \<in> set accountScopedClusterSegments"
  shows "may_enter u m h (ClusterID i)"
proof -
  have c: "clusterIDFromPath p = ClusterID i"
    unfolding assms(2) ClusterID_def by (rule clusterIDFromPath_path [OF assms(4,3)])
  have "ClusterID i \<noteq> []"
    using uuidPattern_chars(2) [OF assms(4)] by (auto simp: ClusterID_def ToLower_def)
  then have "if safe_method m then canReadClusterPath u (ClusterID i) p else canMutateClusterPath u (ClusterID i) p"
    by (rule VerifyRBAC_cluster [OF assms(1), unfolded c])
  then show ?thesis
    using assms(5) accessible_any jetstream_writes
    by (auto simp: may_enter_def canReadClusterPath_def canMutateClusterPath_def isAccountScopedClusterPath_def
        split: if_splits)
qed

lemma route_resource:
  assumes "route_facts (m, pat, h)" "Par ''clusterId'' \<in> set (pattern_segs pat)"
  shows "\<exists>s. cluster_resource (pattern_segs pat) = Some s \<and> CHR ''/'' \<notin> set s \<and>
    (h \<in> set account_handlers \<longleftrightarrow> s \<in> set accountScopedClusterSegments)"
proof (cases "cluster_resource (pattern_segs pat)")
  case None
  then show ?thesis using assms unfolding route_facts_def Let_def case_prod_conv by simp
next
  case (Some s)
  then show ?thesis using assms unfolding route_facts_def Let_def case_prod_conv by simp
qed

lemma router_okD:
  assumes "router_ok R" "rt_lookup R m p = Some (h, ps)"
  shows "\<exists>pat. route_facts (m, pat, h) \<and> path_of ps (pattern_segs pat) = Some p \<and>
    (\<forall>x \<in> fst ` set ps. Par x \<in> set (pattern_segs pat))"
proof -
  have "\<exists>pat. (m, pat, h) \<in> set routes \<and> path_of ps (pattern_segs pat) = Some p \<and>
      (\<forall>x \<in> fst ` set ps. Par x \<in> set (pattern_segs pat))"
    using assms unfolding router_ok_def by simp
  then show ?thesis using all_route_facts unfolding list_all_iff by blast
qed

lemma route_rights:
  assumes "router_ok R" "rt_lookup R m p = Some (h, ps)" "VerifyRBAC (Some u) p m = Pass"
    and "map_of ps ''clusterId'' = Some i" "uuidPattern i"
  shows "may_enter u m h (ClusterID i)"
proof -
  obtain pat where pat: "route_facts (m, pat, h)" "path_of ps (pattern_segs pat) = Some p"
    "\<forall>x \<in> fst ` set ps. Par x \<in> set (pattern_segs pat)"
    using router_okD [OF assms(1,2)] by blast
  have "''clusterId'' \<in> fst ` set ps" using assms(4) by (metis fst_conv image_eqI map_of_SomeD)
  then obtain s where s: "cluster_resource (pattern_segs pat) = Some s"
    and sub: "CHR ''/'' \<notin> set s" "h \<in> set account_handlers \<longleftrightarrow> s \<in> set accountScopedClusterSegments"
    using route_resource [OF pat(1)] pat(3) by blast
  obtain j r where "map_of ps ''clusterId'' = Some j" "p = clusters_prefix @ j @ r"
    "r = [] \<or> (\<exists>t. r = CHR ''/'' # t)" "clusterSubResource p = s"
    by (rule route_cluster [OF s pat(2) sub(1)])
  with assms(4,5) sub(2) show ?thesis by (intro rbac_enter [OF assms(3)]) simp_all
qed

lemma admitted_user:
  assumes "admitted mw c0 c" "requiresAuth (rq_Path (cx_req c))"
  obtains u where "cx_user c = Some u" "VerifyRBAC (Some u) (rq_Path (cx_req c)) (rq_Method (cx_req c)) = Pass"
    "VerifyAuth (mc_P mw) (mc_newIDs mw) (cx_db c0) (mc_up mw) (cx_auth c0) (cx_req c) (mc_now mw) =
       (Pass, Some u, cx_auth c, cx_db c)"
  using assms unfolding admitted_def by metis

lemma admitted_route [simp]:
  "admitted mw c0 (c\<lparr>cx_params := ps, cx_handler := h\<rparr>) \<longleftrightarrow> admitted mw c0 c"
  by (simp add: admitted_def)

lemma route_entered:
  assumes "router_ok R" "rt_lookup R (rq_Method (cx_req c)) (rq_Path (cx_req c)) = Some (h, ps)" "admitted mw c0 c"
  shows "route_admitted mw c0 h (c\<lparr>cx_params := ps, cx_handler := Some h\<rparr>)"
proof (cases "h \<in> set public_handlers")
  case True
  then show ?thesis using assms(3) by (simp add: route_admitted_def)
next
  case False
  obtain pat where pat: "route_facts (rq_Method (cx_req c), pat, h)" "path_of ps (pattern_segs pat) = Some (rq_Path (cx_req c))"
    using router_okD [OF assms(1,2)] by blast
  have "requiresAuth (rq_Path (cx_req c))"
    using route_public [OF pat] False unfolding requiresAuth_def by blast
  then obtain u where u: "cx_user c = Some u" "VerifyRBAC (Some u) (rq_Path (cx_req c)) (rq_Method (cx_req c)) = Pass"
    "VerifyAuth (mc_P mw) (mc_newIDs mw) (cx_db c0) (mc_up mw) (cx_auth c0) (cx_req c) (mc_now mw) =
       (Pass, Some u, cx_auth c, cx_db c)"
    by (rule admitted_user [OF assms(3)])
  then show ?thesis
    using assms(3) route_rights [OF assms(1,2) u(2)] False by (simp add: route_admitted_def)
qed


definition demo_mw :: MwConfig where
  "demo_mw = \<lparr>mc_ResponseCompression = False, mc_MaxRequestBodySize = 0, mc_CORSOrigins = [], mc_TLS = True,
     mc_RequestTimeout = 30 * Second, mc_AIRequestTimeout = 0, mc_PprofEnabled = False, mc_PprofAuth = True,
     mc_auditWriter = True, mc_newRequestID = ''id1'', mc_inflate = (\<lambda>_ _ _. BadEncoding), mc_compress = (\<lambda>c. c),
     mc_pprof = answer_with StatusOK, mc_P = sample_params, mc_newIDs = (''i1'', ''i2''), mc_up = True, mc_now = 0\<rparr>"

definition demo_router :: Router where
  "demo_router = \<lparr>rt_lookup = (\<lambda>m p. if m = ''GET'' \<and> p = ''/api/health'' then Some (''opsHandler.Health'', []) else None),
     rt_miss = answer_with StatusNotFound\<rparr>"

definition demo_ctx :: "string \<Rightarrow> string \<Rightarrow> Ctx" where
  "demo_ctx m p =
     \<lparr>cx_req = \<lparr>rq_Path = p, rq_Method = m, rq_SessionCookie = [], rq_RefreshCookie = [], rq_CSRFCookie = [],
        rq_Authorization = [], rq_CSRFHeader = [], rq_Origin = [], rq_UserAgent = [], rq_ClientIP = ''10.0.0.1'',
        rq_ContentLength = 0, rq_Body = []\<rparr>,
      cx_encoding = [], cx_upgrade = False, cx_requestID = [], cx_user = None, cx_deadline = None, cx_params = [],
      cx_handler = None, cx_status = StatusOK, cx_headers = [], cx_body = [], cx_stream = False,
      cx_auth = NewService, cx_db = empty_db, cx_limiter = newIPRateLimiter 5 (60 * Second), cx_audit = []\<rparr>"

definition ends_with :: "outcome \<Rightarrow> string option \<Rightarrow> nat \<Rightarrow> bool" where
  "ends_with r h status = (case r of Returned c \<Rightarrow> cx_handler c = h \<and> cx_status c = status | Panicked c \<Rightarrow> False)"

lemma demo_router_ok: "router_ok demo_router"
proof -
  have "(''GET'', ''/api/health'', ''opsHandler.Health'') \<in> set routes"
    by (simp add: routes_def system_routes_def)
  moreover have "path_of [] (pattern_segs ''/api/health'') = Some ''/api/health''" by code_simp
  ultimately show ?thesis
    unfolding router_ok_def demo_router_def by (auto split: if_splits)
qed


subsection \<open>The audit log\<close>

text \<open>What a handler must leave alone: the log, the request and its user.\<close>

definition same_request :: "Ctx \<Rightarrow> Ctx \<Rightarrow> bool" where
  "same_request c c' \<longleftrightarrow> cx_audit c' = cx_audit c \<and> cx_req c' = cx_req c \<and> cx_user c' = cx_user c \<and>
     cx_requestID c' = cx_requestID c"

definition leaves_log :: "handler \<Rightarrow> bool" where
  "leaves_log f \<longleftrightarrow> (\<forall>c. case f c of Returned c' \<Rightarrow> same_request c c' | Panicked c' \<Rightarrow> same_request c c')"

text \<open>The log after a request, by its outcome.\<close>

definition logged :: "MwConfig \<Rightarrow> AuditCreate list \<Rightarrow> Ctx \<Rightarrow> AuditCreate list" where
  "logged mw before c =
     (if safe_method (rq_Method (cx_req c)) \<or> isPublicPath (rq_Path (cx_req c)) \<or> cx_status c \<ge> StatusBadRequest \<or>
         \<not> mc_auditWriter mw then before
      else Writer_Log (audit_entry c) before)"

definition logs :: "MwConfig \<Rightarrow> handler \<Rightarrow> bool" where
  "logs mw f \<longleftrightarrow> (\<forall>c. case f c of Returned c' \<Rightarrow> cx_audit c' = logged mw (cx_audit c) c'
     | Panicked c' \<Rightarrow> cx_audit c' = cx_audit c)"

definition keeps_log :: "handler \<Rightarrow> bool" where
  "keeps_log f \<longleftrightarrow> (\<forall>c. case f c of Returned c' \<Rightarrow> cx_audit c' = cx_audit c \<and> cx_req c' = cx_req c
     | Panicked c' \<Rightarrow> cx_audit c' = cx_audit c)"

lemma logs_answer: "status \<ge> StatusBadRequest \<Longrightarrow> logged mw (cx_audit c) (c\<lparr>cx_status := status\<rparr>) = cx_audit c"
  by (simp add: logged_def)

lemma bad_statuses [simp]:
  "StatusBadRequest \<le> StatusUnauthorized" "StatusBadRequest \<le> StatusForbidden" "StatusBadRequest \<le> StatusNotFound"
  "StatusBadRequest \<le> StatusRequestEntityTooLarge" "StatusBadRequest \<le> StatusTooManyRequests"
  "StatusBadRequest \<le> StatusInternalServerError" "StatusBadRequest \<le> StatusBadRequest"
  by (simp_all add: status_defs)

lemma keeps_log_router:
  assumes "\<And>h. leaves_log (app h)" "leaves_log (rt_miss R)"
  shows "keeps_log (router_Handler R app)"
proof -
  have "case app h (c\<lparr>cx_params := ps, cx_handler := Some h\<rparr>) of
      Returned c' \<Rightarrow> cx_audit c' = cx_audit c \<and> cx_req c' = cx_req c | Panicked c' \<Rightarrow> cx_audit c' = cx_audit c" for h c ps
    using assms(1) [of h] unfolding leaves_log_def same_request_def
    by (auto split: outcome.splits dest: spec [of _ "c\<lparr>cx_params := ps, cx_handler := Some h\<rparr>"])
  moreover have "case rt_miss R c of Returned c' \<Rightarrow> cx_audit c' = cx_audit c \<and> cx_req c' = cx_req c
      | Panicked c' \<Rightarrow> cx_audit c' = cx_audit c" for c
    using assms(2) unfolding leaves_log_def same_request_def by (auto split: outcome.splits dest: spec [of _ c])
  ultimately show ?thesis
    unfolding keeps_log_def router_Handler_def by (auto split: option.split)
qed

lemma keeps_log_RBAC: "keeps_log f \<Longrightarrow> keeps_log (mw_VerifyRBAC mw f)"
  by (auto simp: keeps_log_def mw_VerifyRBAC_def answer_with_def split: answer.split)

lemma keeps_log_Auth: "keeps_log f \<Longrightarrow> keeps_log (mw_VerifyAuth mw f)"
  unfolding keeps_log_def mw_VerifyAuth_def answer_with_def
  by (auto split: answer.split prod.split outcome.splits)

lemma keeps_log_CSRF: "keeps_log f \<Longrightarrow> keeps_log (mw_VerifyCSRF mw f)"
  by (auto simp: keeps_log_def mw_VerifyCSRF_def answer_with_def)

lemma audit_entry_audit [simp]: "audit_entry (c\<lparr>cx_audit := q\<rparr>) = audit_entry c"
  by (simp add: audit_entry_def)

lemma logs_VerifyAudit: "keeps_log f \<Longrightarrow> logs mw (VerifyAudit mw f)"
  unfolding keeps_log_def logs_def VerifyAudit_def after_def logged_def
  by (auto split: outcome.splits dest: spec)


text \<open>A middleware that logs as the next handler does.\<close>

lemma logs_next:
  assumes "logs mw f" "cx_audit c1 = cx_audit c"
  shows "case f c1 of Returned c' \<Rightarrow> cx_audit c' = logged mw (cx_audit c) c' | Panicked c' \<Rightarrow> cx_audit c' = cx_audit c"
  using assms unfolding logs_def by (auto split: outcome.splits dest: spec [of _ c1])

lemma logs_bad:
  "status \<ge> StatusBadRequest \<Longrightarrow> cx_audit c1 = cx_audit c \<Longrightarrow>
   case answer_with status c1 of Returned c' \<Rightarrow> cx_audit c' = logged mw (cx_audit c) c' | Panicked c' \<Rightarrow> cx_audit c' = cx_audit c"
  by (simp add: answer_with_def logged_def)

lemma logs_outer:
  assumes "logs mw f"
  shows "logs mw (ApplyRequestID mw f)" "logs mw (ApplySecurityHeaders mw f)" "logs mw (DecompressRequestBody mw f)"
    "logs mw (mw_CheckBodySizeLimit mw f)" "logs mw (mw_VerifyAuthRateLimit mw f)" "logs mw (ApplyMetrics mw f)"
    "logs mw (ApplyRequestLogger mw f)" "logs mw (ApplyAITimeout mw f)"
proof -
  note nx = logs_next [OF assms] and bad = logs_bad [where mw = mw]
  show "logs mw (ApplyRequestID mw f)"
    unfolding logs_def ApplyRequestID_def Let_def by (intro allI nx) (simp add: set_header_def)
  show "logs mw (ApplySecurityHeaders mw f)"
    unfolding logs_def ApplySecurityHeaders_def Let_def by (intro allI nx) (simp add: set_header_def)
  show "logs mw (DecompressRequestBody mw f)"
    unfolding logs_def DecompressRequestBody_def Let_def
    by (intro allI) (auto split: inflated.split intro!: nx bad)
  show "logs mw (mw_CheckBodySizeLimit mw f)"
    unfolding logs_def mw_CheckBodySizeLimit_def by (auto intro!: nx bad)
  show "logs mw (mw_VerifyAuthRateLimit mw f)"
    unfolding logs_def mw_VerifyAuthRateLimit_def
    by (intro allI) (auto split: prod.split limit_answer.split simp: set_header_def intro!: nx bad)
  have "after r (\<lambda>c. c) = r" for r by (simp add: after_def split: outcome.split)
  then show "logs mw (ApplyMetrics mw f)" "logs mw (ApplyRequestLogger mw f)"
    unfolding logs_def ApplyMetrics_def ApplyRequestLogger_def by (auto intro!: nx)
  show "logs mw (ApplyAITimeout mw f)"
    unfolding logs_def ApplyAITimeout_def Let_def by (auto intro!: nx)
qed

lemma logs_VerifyCors: "logs mw f \<Longrightarrow> logs mw (mw_VerifyCors mw f)"
proof -
  assume f: "logs mw f"
  have "case mw_VerifyCors mw f c of Returned c' \<Rightarrow> cx_audit c' = logged mw (cx_audit c) c' | Panicked c' \<Rightarrow> cx_audit c' = cx_audit c" for c
  proof (cases "rq_Method (cx_req c) = ''OPTIONS''")
    case True
    then show ?thesis
      by (auto simp: mw_VerifyCors_def VerifyCors_def Let_def set_header_def answer_with_def logged_def safe_method_def
          split: option.split)
  next
    case False
    then show ?thesis
      unfolding mw_VerifyCors_def VerifyCors_def Let_def
      by (auto simp: set_header_def intro!: logs_next [OF f])
  qed
  then show ?thesis by (simp add: logs_def)
qed

lemma logs_Compression:
  assumes "logs mw f" "\<And>c. same_request c (mc_compress mw c) \<and> cx_status (mc_compress mw c) = cx_status c"
  shows "logs mw (ApplyResponseCompression mw f)"
proof -
  have same: "logged mw q (mc_compress mw c) = logged mw q c" "cx_audit (mc_compress mw c) = cx_audit c" for q c
    using assms(2) [of c] by (simp_all add: logged_def audit_entry_def same_request_def)
  show ?thesis
    using assms(1) unfolding logs_def ApplyResponseCompression_def after_def
    by (auto simp: same split: outcome.splits)
qed



subsection \<open>Identifiers the check does not recognise\<close>

text \<open>
  The check looks for a UUID with hyphens; the handlers take any text, and the database reads more texts
  as a UUID (without hyphens, in braces).  For such a text no right on the cluster is asked for.
\<close>

lemma not_uuid_unchecked:
  assumes "\<not> uuidPattern i" "CHR ''/'' \<notin> set i" "i \<noteq> []"
  shows "VerifyRBAC (Some u) (clusters_prefix @ i @ ''/'' @ rest) ''GET'' = Pass"
    and "CanWrite u \<Longrightarrow> VerifyRBAC (Some u) (clusters_prefix @ i @ ''/'' @ rest) ''PUT'' = Pass"
proof -
  let ?p = "clusters_prefix @ i @ ''/'' @ rest"
  have none: "clusterIDFromPath ?p = []" using assms by (simp add: clusterIDFromPath_def)
  have other: "\<not> HasPrefix ?p ''/api/v1/admin''" "\<not> HasPrefix ?p ''/api/v1/audit''" "\<not> HasPrefix ?p ''/api/v1/users''"
    "\<not> HasPrefix ?p ''/api/v1/people''" "\<not> HasPrefix ?p ''/api/v1/alert-rules''" "\<not> HasPrefix ?p ''/api/v1/pprof''"
    by (simp_all add: clusters_prefix_def)
  show "VerifyRBAC (Some u) ?p ''GET'' = Pass"
    unfolding VerifyRBAC_def Let_def using none other by (simp add: safe_method_def)
  show "VerifyRBAC (Some u) ?p ''PUT'' = Pass" if "CanWrite u"
    unfolding VerifyRBAC_def Let_def using none other that by (simp add: safe_method_def)
qed

definition west_compact :: string where "west_compact = ''0190aaaa0000700080000000000e57ee''"

text \<open>An operator of one cluster deletes a stream of another, and a viewer with nothing but two grants on one
  cluster reads the streams of another.\<close>

lemma compact_id_unchecked:
  "west_compact = filter (\<lambda>x. x \<noteq> CHR ''-'') west_id \<and> ClusterID west_compact = west_compact \<and>
   VerifyRBAC (Some observer_user) (clusters_prefix @ west_compact @ ''/streams'') ''GET'' = Pass \<and>
   \<not> CanAccessClusterOrAccount observer_user west_id \<and>
   VerifyRBAC (Some east_operator) (clusters_prefix @ west_compact @ ''/streams/ORDERS'') ''DELETE'' = Pass \<and>
   \<not> CanAccessCluster east_operator west_id"
  by code_simp

end
