(* ===== verification/Api_Core.thy ===== *)
theory Api_Core
  imports Js_Config Snapshots View_Cache Replay Dead_Letters Http_Chain
begin

text \<open>
  What the handlers of a cluster share (\<^verbatim>\<open>api/apikit\<close>): the calls of the executor of the cluster with the
  errors, status codes and bodies of the answers (\<^verbatim>\<open>core.go\<close>, \<^verbatim>\<open>errors.go\<close>, \<^verbatim>\<open>httpctx/httpstatus\<close>), pages
  (\<^verbatim>\<open>pagination.go\<close>), names (\<^verbatim>\<open>validate.go\<close>), and the shape in which streams and consumers are shown
  (\<^verbatim>\<open>domain/jetstream_nats.go\<close>).

  The executor is a parameter: any function from a cluster, a call and a state of the world to an answer
  and the next state; the entity tag is the one \<^verbatim>\<open>LastETag\<close> reports after a cached view.  So are the
  decoding of JSON, and the product of an integer and the ratio of the slow consumers.  \<open>run_log\<close> is a ghost:
  the calls made so far, with the cluster and whether they succeeded.
\<close>

section \<open>Numbers and names\<close>

datatype scanned = Value nat | SyntaxError | RangeError

fun scan_uint :: "nat \<Rightarrow> string \<Rightarrow> scanned" where
  "scan_uint acc [] = Value acc"
| "scan_uint acc (c # cs) =
     (case char_digit c of
        None \<Rightarrow> SyntaxError
      | Some d \<Rightarrow> if 10 * acc + d \<ge> 2 ^ 64 then RangeError else scan_uint (10 * acc + d) cs)"

text \<open>
  \<^verbatim>\<open>strconv.Atoi\<close>: the number and whether there is no error.  Out of range it is the nearest number, for
  other errors zero.
\<close>

definition Atoi :: "string \<Rightarrow> int \<times> bool" where
  "Atoi s =
     (let neg = (s \<noteq> [] \<and> hd s = CHR ''-'');
          body = (if s \<noteq> [] \<and> (hd s = CHR ''-'' \<or> hd s = CHR ''+'') then tl s else s) in
      if body = [] then (0, False)
      else (case scan_uint 0 body of
          SyntaxError \<Rightarrow> (0, False)
        | RangeError \<Rightarrow> (if neg then - (2 ^ 63) else 2 ^ 63 - 1, False)
        | Value n \<Rightarrow>
            if neg then (if n > 2 ^ 63 then (- (2 ^ 63), False) else (- int n, True))
            else (if n \<ge> 2 ^ 63 then (2 ^ 63 - 1, False) else (int n, True))))"

definition name_start :: "char \<Rightarrow> bool" where
  "name_start c \<longleftrightarrow> is_upper c \<or> is_lower c \<or> char_digit c \<noteq> None"

definition resourceNamePattern :: "string \<Rightarrow> bool" where
  "resourceNamePattern s \<longleftrightarrow>
     (case s of
        [] \<Rightarrow> False
      | c # cs \<Rightarrow> name_start c \<and> list_all (\<lambda>d. name_start d \<or> d \<in> set ''._-/'') cs \<and> length cs \<le> 255)"

definition ValidateResourceName :: "string \<Rightarrow> bool" where
  "ValidateResourceName name \<longleftrightarrow>
     (if IsEmpty name \<or> length name > 256 then False
      else if \<not> resourceNamePattern name then False
      else True)"

definition ValidateClusterName :: "string \<Rightarrow> bool" where
  "ValidateClusterName name \<longleftrightarrow>
     (if \<not> ValidateResourceName name then False
      else if CHR ''/'' \<in> set name then False
      else True)"

section \<open>Requests of the handlers\<close>

record JsRequest =
  jr_Params :: params
  jr_Query :: "(string \<times> string) list"
  jr_Body :: string
  jr_IfNoneMatch :: string

definition RouteParam :: "JsRequest \<Rightarrow> string \<Rightarrow> string" where
  "RouteParam rq k = (case map_of (jr_Params rq) k of None \<Rightarrow> [] | Some v \<Rightarrow> v)"

definition Peek :: "JsRequest \<Rightarrow> string \<Rightarrow> string" where
  "Peek rq k = (case map_of (jr_Query rq) k of None \<Rightarrow> [] | Some v \<Rightarrow> v)"

definition RequestCluster :: "JsRequest \<Rightarrow> string" where
  "RequestCluster rq = ToLower (RouteParam rq ''clusterId'')"

record PublishMessageRequest =
  pm_Headers :: "(string, string) gomap"
  pm_Subject :: string
  pm_Data :: string

record KVBucketWriteOpts =
  wo_Metadata :: "(string, string) gomap"
  wo_LimitMarkerTTLNs :: int

record IncidentCapsuleCaptureRequest =
  cq_Consumer :: string
  cq_Subject :: string
  cq_Reason :: string
  cq_Trigger :: string
  cq_FailingSeq :: u64
  cq_Window :: int

definition MaxCapsuleWindow :: int where
  "MaxCapsuleWindow = 500"

datatype capsule_error = CapsuleConsumerRequired | WindowOutOfRange

definition ValidateCapture :: "IncidentCapsuleCaptureRequest \<Rightarrow> capsule_error option" where
  "ValidateCapture r =
     (if IsEmpty (TrimSpace (cq_Consumer r)) then Some CapsuleConsumerRequired
      else if cq_Window r < 0 \<or> cq_Window r > MaxCapsuleWindow then Some WindowOutOfRange
      else None)"

text \<open>What the calls carry.\<close>

datatype payload =
    PStream StreamConfig
  | PConsumer ConsumerConfig
  | PReplay ReplayConsumerRequest
  | PPublish PublishMessageRequest
  | PRetry DLQRetryRequest
  | PCapsule IncidentCapsuleCaptureRequest
  | PKV KeyValueConfig KVBucketWriteOpts
  | PObject ObjectStoreConfig

section \<open>Streams and consumers as they are shown\<close>

record natsAccountInfo =
  na_Memory :: u64
  na_Store :: u64
  na_Streams :: int
  na_Consumers :: int
  na_Limits :: "int \<times> int \<times> int \<times> int"

record AccountInfoDTO =
  ao_Memory :: u64
  ao_Storage :: u64
  ao_Streams :: int
  ao_Consumers :: int
  ao_MaxMemory :: int
  ao_MaxStorage :: int
  ao_MaxStreams :: int
  ao_MaxConsumers :: int

definition AccountInfoFromNATS :: "natsAccountInfo \<Rightarrow> AccountInfoDTO" where
  "AccountInfoFromNATS i =
     (case na_Limits i of (maxMemory, maxStore, maxStreams, maxConsumers) \<Rightarrow>
       \<lparr>ao_Memory = na_Memory i, ao_Storage = na_Store i, ao_Streams = na_Streams i, ao_Consumers = na_Consumers i,
        ao_MaxMemory = maxMemory, ao_MaxStorage = maxStore, ao_MaxStreams = maxStreams,
        ao_MaxConsumers = maxConsumers\<rparr>)"

record natsStreamState =
  ss_Msgs :: u64
  ss_Bytes :: u64
  ss_FirstSeq :: u64
  ss_LastSeq :: u64
  ss_Consumers :: int

record natsStreamInfo =
  ni_Config :: StreamConfig
  ni_State :: natsStreamState
  ni_Created :: gotime

record StreamStateDTO =
  sd_Messages :: u64
  sd_Bytes :: u64
  sd_FirstSeq :: u64
  sd_LastSeq :: u64
  sd_ConsumerCount :: int

record StreamInfoDTO =
  io_Created :: gotime
  io_Config :: streamConfigRequest
  io_State :: StreamStateDTO
  io_IsDLQ :: bool

definition streamStateFromNATS :: "natsStreamState \<Rightarrow> StreamStateDTO" where
  "streamStateFromNATS s =
     \<lparr>sd_Messages = ss_Msgs s, sd_Bytes = ss_Bytes s, sd_FirstSeq = ss_FirstSeq s, sd_LastSeq = ss_LastSeq s,
      sd_ConsumerCount = ss_Consumers s\<rparr>"

definition StreamInfoFromNATS :: "JsLib \<Rightarrow> natsStreamInfo \<Rightarrow> StreamInfoDTO" where
  "StreamInfoFromNATS L info =
     (let cfg = streamConfigFromNATS L (ni_Config info) in
      \<lparr>io_Created = ni_Created info, io_Config = cfg, io_State = streamStateFromNATS (ni_State info),
       io_IsDLQ = IsDLQStream (rs_Name cfg) (rs_Metadata cfg)\<rparr>)"

definition StreamInfosFromNATS :: "JsLib \<Rightarrow> natsStreamInfo list \<Rightarrow> StreamInfoDTO list" where
  "StreamInfosFromNATS L items = map (StreamInfoFromNATS L) items"

record natsConsumerInfo =
  nk_Stream :: string
  nk_Name :: string
  nk_Config :: ConsumerConfig
  nk_Delivered :: "u64 \<times> u64"
  nk_AckFloor :: "u64 \<times> u64"
  nk_NumPending :: u64
  nk_NumAckPending :: int
  nk_NumRedelivered :: int
  nk_NumWaiting :: int
  nk_Created :: gotime

record SequenceInfoDTO =
  sq_ConsumerSeq :: u64
  sq_StreamSeq :: u64

record ConsumerInfoDTO =
  co_Created :: gotime
  co_Delivered :: "SequenceInfoDTO option"
  co_AckFloor :: "SequenceInfoDTO option"
  co_Name :: string
  co_StreamName :: string
  co_SlowReasons :: "string list"
  co_Config :: consumerConfigRequest
  co_NumPending :: u64
  co_NumAckPending :: int
  co_NumRedelivered :: int
  co_NumWaiting :: int
  co_SlowConsumer :: bool

definition sequenceInfoFromNATS :: "u64 \<times> u64 \<Rightarrow> SequenceInfoDTO" where
  "sequenceInfoFromNATS s = \<lparr>sq_ConsumerSeq = fst s, sq_StreamSeq = snd s\<rparr>"

definition ConsumerInfoFromNATS :: "JsLib \<Rightarrow> natsConsumerInfo \<Rightarrow> ConsumerInfoDTO" where
  "ConsumerInfoFromNATS L i =
     (let sequence = (\<lambda>s. if fst s \<noteq> 0 \<or> snd s \<noteq> 0 then Some (sequenceInfoFromNATS s) else None) in
      \<lparr>co_Created = nk_Created i, co_Delivered = sequence (nk_Delivered i), co_AckFloor = sequence (nk_AckFloor i),
       co_Name = nk_Name i, co_StreamName = nk_Stream i, co_SlowReasons = [],
       co_Config = consumerConfigFromNATS L (nk_Config i), co_NumPending = nk_NumPending i,
       co_NumAckPending = nk_NumAckPending i, co_NumRedelivered = nk_NumRedelivered i,
       co_NumWaiting = nk_NumWaiting i, co_SlowConsumer = False\<rparr>)"

definition ConsumerInfosFromNATS :: "JsLib \<Rightarrow> natsConsumerInfo list \<Rightarrow> ConsumerInfoDTO list" where
  "ConsumerInfosFromNATS L items = map (ConsumerInfoFromNATS L) items"

text \<open>The fields that \<open>Jet_Stream\<close> reads of them.\<close>

definition stream_read :: "StreamInfoDTO \<Rightarrow> StreamInfo" where
  "stream_read i =
     \<lparr>si_Config = \<lparr>sc_Name = rs_Name (io_Config i), sc_Mirror = map_option so_Name (rs_Mirror (io_Config i)),
        sc_Sources = map so_Name (rs_Sources (io_Config i)), sc_Metadata = rs_Metadata (io_Config i)\<rparr>,
      si_Msgs = sd_Messages (io_State i), si_FirstSeq = sd_FirstSeq (io_State i), si_LastSeq = sd_LastSeq (io_State i)\<rparr>"

definition consumer_read :: "ConsumerInfoDTO \<Rightarrow> ConsumerInfo" where
  "consumer_read i =
     \<lparr>ci_Name = co_Name i, ci_DurableName = rc_DurableName (co_Config i), ci_ConfigName = rc_Name (co_Config i),
      ci_Metadata = rc_Metadata (co_Config i), ci_Delivered = map_option sq_StreamSeq (co_Delivered i),
      ci_NumPending = co_NumPending i, ci_NumAckPending = co_NumAckPending i,
      ci_MaxAckPending = rc_MaxAckPending (co_Config i), ci_SlowConsumer = co_SlowConsumer i,
      ci_SlowReasons = co_SlowReasons i\<rparr>"

section \<open>Answers and errors (errors.go, http_status.go)\<close>

definition StatusCreated :: nat where "StatusCreated = 201"
definition StatusRequestTimeout :: nat where "StatusRequestTimeout = 408"
definition StatusConflict :: nat where "StatusConflict = 409"
definition StatusGone :: nat where "StatusGone = 410"
definition StatusUnprocessableEntity :: nat where "StatusUnprocessableEntity = 422"
definition StatusBadGateway :: nat where "StatusBadGateway = 502"
definition StatusServiceUnavailable :: nat where "StatusServiceUnavailable = 503"
definition StatusGatewayTimeout :: nat where "StatusGatewayTimeout = 504"

lemmas more_status_defs = StatusCreated_def StatusRequestTimeout_def StatusConflict_def StatusGone_def
  StatusUnprocessableEntity_def StatusBadGateway_def StatusServiceUnavailable_def StatusGatewayTimeout_def

definition CodeFromStatus :: "nat \<Rightarrow> string" where
  "CodeFromStatus status =
     (if status = StatusNotFound then ''not_found''
      else if status = StatusForbidden then ''forbidden''
      else if status = StatusUnauthorized then ''unauthorized''
      else if status = StatusBadRequest \<or> status = StatusUnprocessableEntity then ''validation''
      else if status = StatusConflict then ''conflict''
      else if status = StatusGone then ''gone''
      else if status = StatusRequestTimeout \<or> status = StatusGatewayTimeout then ''timeout''
      else if status = StatusServiceUnavailable \<or> status = StatusBadGateway then ''unavailable''
      else if status = StatusTooManyRequests then ''rate_limit''
      else if status \<ge> StatusBadRequest \<and> status < StatusInternalServerError then ''validation''
      else ''internal'')"

text \<open>
  An error of a call: whether it wraps \<^verbatim>\<open>domain.ErrNotFound\<close>, whether a deadline passed or the request was
  cancelled, and its text.  The preview of a replay fails with an error of \<open>Replay\<close>, whose texts are fixed
  and say nothing of what is not found.
\<close>

record NatsErr =
  ne_NotFound :: bool
  ne_Deadline :: bool
  ne_Text :: string

datatype failure = FromNats NatsErr | FromReplay replay_error

definition natsNotFoundText :: "string \<Rightarrow> bool" where
  "natsNotFoundText text \<longleftrightarrow>
     (let msg = ToLower text in
      Contains msg ''not found'' \<or> Contains msg ''no stream'' \<or> Contains msg ''no consumers'' \<or>
      Contains msg ''no keys found'' \<or> Contains msg ''bucket not found'')"

fun IsNATSNotFound :: "failure \<Rightarrow> bool" where
  "IsNATSNotFound (FromNats e) \<longleftrightarrow> natsNotFoundText (ne_Text e)"
| "IsNATSNotFound (FromReplay e) \<longleftrightarrow> False"

fun is_not_found :: "failure \<Rightarrow> bool" where
  "is_not_found (FromNats e) \<longleftrightarrow> ne_NotFound e"
| "is_not_found (FromReplay e) \<longleftrightarrow> False"

fun is_deadline :: "failure \<Rightarrow> bool" where
  "is_deadline (FromNats e) \<longleftrightarrow> ne_Deadline e"
| "is_deadline (FromReplay e) \<longleftrightarrow> False"

definition MapNATSErrorStatus :: "failure \<Rightarrow> nat \<Rightarrow> nat" where
  "MapNATSErrorStatus err requested =
     (if is_not_found err \<or> IsNATSNotFound err then StatusNotFound
      else if is_deadline err then StatusGatewayTimeout
      else if requested = StatusNotFound \<or> requested = 0 then StatusBadGateway
      else requested)"

datatype message = Text string | OfReplay replay_error

record ErrorBody =
  eb_Message :: message
  eb_Code :: string
  eb_RetryAfterSeconds :: int
  eb_Retryable :: bool

definition error_text :: "failure \<Rightarrow> message option" where
  "error_text err =
     (case err of
        FromNats e \<Rightarrow> if IsEmpty (ne_Text e) then None else Some (Text (ne_Text e))
      | FromReplay e \<Rightarrow> Some (OfReplay e))"

definition natsRetryAfterSeconds :: int where
  "natsRetryAfterSeconds = 5"

text \<open>\<^verbatim>\<open>WriteNATSError\<close>: the status and the body of the answer.\<close>

definition WriteNATSError :: "nat \<Rightarrow> failure \<Rightarrow> nat \<times> ErrorBody" where
  "WriteNATSError status err =
     (let code = CodeFromStatus status;
          from_error = (\<lambda>m. case error_text err of None \<Rightarrow> m | Some t \<Rightarrow> t);
          msg = Text ''NATS request failed'';
          msg = (if status = StatusGatewayTimeout \<or> status = StatusRequestTimeout
                 then Text ''NATS request timed out''
                 else if status = StatusBadGateway \<or> status = StatusServiceUnavailable
                 then Text ''NATS is unavailable''
                 else if status = StatusBadRequest \<or> status = StatusConflict then from_error msg
                 else if code = ''validation'' \<or> code = ''conflict'' then from_error msg
                 else msg);
          retry = (status = StatusBadGateway \<or> status = StatusServiceUnavailable \<or>
                   status = StatusGatewayTimeout \<or> status = StatusRequestTimeout) in
      if status = StatusNotFound then
        (StatusNotFound, \<lparr>eb_Message = Text ''not found'', eb_Code = ''not_found'', eb_RetryAfterSeconds = 0,
                          eb_Retryable = False\<rparr>)
      else
        (status, \<lparr>eb_Message = msg, eb_Code = code,
                  eb_RetryAfterSeconds = (if retry then natsRetryAfterSeconds else 0), eb_Retryable = retry\<rparr>))"

text \<open>Why a request is refused before anything is called.\<close>

datatype problem =
    BadJson
  | MissingField string
  | BadName
  | BadConfig config_error
  | BadNumber string
  | BadTime string
  | BadReplayRequest replay_error
  | BadRetryRequest dlq_error
  | BadCapsuleRequest capsule_error
  | CapsuleIDRequired
  | BadBase64
  | NameCannotChange
  | BadRange
  | MonitoringTooLarge

record PageMeta =
  pg_Total :: int
  pg_Offset :: int
  pg_Limit :: int

record BehaviorFingerprintReport =
  fp_Available :: bool
  fp_Stream :: string
  fp_Durable :: string
  fp_Anomaly :: bool
  fp_SustainedForMs :: int
  fp_Values :: "string option \<times> string option \<times> gotime option"

text \<open>What is shown; results of the client that pass through unread are of any type \<^typ>\<open>'o\<close>.\<close>

datatype 'o shown_data =
    ShAccount AccountInfoDTO
  | ShStreams "StreamInfoDTO list"
  | ShStream StreamInfoDTO
  | ShConsumers "ConsumerInfoDTO list"
  | ShConsumer ConsumerInfoDTO
  | ShNames "string list"
  | ShBlast BlastRadius
  | ShDryRun ReplayDryRun
  | ShFingerprint BehaviorFingerprintReport
  | ShPlain 'o
  | ShPlains "'o list"

text \<open>\<open>Unanswered\<close> is a handler that never returns.\<close>

datatype 'o response =
    Refused nat problem
  | NatsFailed nat ErrorBody
  | Done nat "'o shown_data" "PageMeta option" string
  | RawBody string string "gotime option"
  | NotModified
  | NoContent
  | Unanswered

fun status_of :: "'o response \<Rightarrow> nat option" where
  "status_of (Refused s p) = Some s"
| "status_of (NatsFailed s b) = Some s"
| "status_of (Done s d m e) = Some s"
| "status_of (RawBody d e t) = Some StatusOK"
| "status_of NotModified = Some StatusNotModified"
| "status_of NoContent = Some StatusNoContent"
| "status_of Unanswered = None"

section \<open>Calls of the executor (core.go)\<close>

text \<open>The results of the methods; the type of a method fixes which kind it answers.\<close>

datatype 'o js_reply =
    RAccount natsAccountInfo
  | RStreams "natsStreamInfo list" int
  | RStream natsStreamInfo
  | RConsumers "natsConsumerInfo list" int
  | RConsumer natsConsumerInfo
  | RNames "string list" int
  | REntry string 'o
  | RPlain 'o
  | RPlains "'o list"
  | RBytes string
  | RDone

record fingerprint_payload =
  fpp_Stream :: string
  fpp_Durable :: string
  fpp_Normal :: "string option"
  fpp_Current :: "string option"
  fpp_UpdatedAt :: "gotime option"
  fpp_SustainedForMs :: int
  fpp_Anomaly :: bool

record topology_stream =
  td_Name :: string
  td_Config :: "((string, string) gomap \<times> string option \<times> string list) option"

record ('w, 'o) Core =
  ac_session :: "string \<Rightarrow> 'w \<Rightarrow> NatsErr option \<times> 'w"
  ac_call :: "string \<Rightarrow> payload call \<Rightarrow> 'w \<Rightarrow> (NatsErr + 'o js_reply \<times> string) \<times> 'w"
  ac_lib :: JsLib
  ac_scaled :: "int \<Rightarrow> int"
  ac_thresholds :: SlowConsumerThresholds
  ac_DefaultLimit :: int
  ac_MaxLimit :: int
  ac_MaxMonitoringBodyBytes :: int
  ac_BehaviorFingerprintKVBucket :: string
  ac_formatETag :: "gotime \<Rightarrow> string"
  ac_stream :: "string \<Rightarrow> streamConfigRequest option"
  ac_consumer :: "string \<Rightarrow> consumerConfigRequest option"
  ac_replay :: "string \<Rightarrow> ReplayConsumerRequest option"
  ac_publish :: "string \<Rightarrow> PublishMessageRequest option"
  ac_retry :: "string \<Rightarrow> DLQRetryRequest option"
  ac_capsule :: "string \<Rightarrow> IncidentCapsuleCaptureRequest option"
  ac_kv :: "string \<Rightarrow> kvBucketConfigRequest option"
  ac_object :: "string \<Rightarrow> objectBucketConfigRequest option"
  ac_value :: "string \<Rightarrow> string option"
  ac_fingerprint :: "string \<Rightarrow> fingerprint_payload option"
  ac_topology :: "string \<Rightarrow> topology_stream list list option"

record ('w, 'q) Run =
  run_world :: 'w
  run_hub :: "'q Hub"
  run_etag :: string
  run_log :: "(string \<times> payload call \<times> bool) list"

definition call_client ::
  "('w, 'o) Core \<Rightarrow> string \<Rightarrow> payload call \<Rightarrow> ('w, 'q) Run \<Rightarrow> (NatsErr + 'o js_reply) \<times> ('w, 'q) Run" where
  "call_client co cid c r =
     (case ac_call co cid c (run_world r) of
        (Inl e, w) \<Rightarrow> (Inl e, r\<lparr>run_world := w, run_log := run_log r @ [(cid, c, False)]\<rparr>)
      | (Inr (v, tag), w) \<Rightarrow>
          (Inr v, r\<lparr>run_world := w, run_etag := (case c of View _ \<Rightarrow> tag | _ \<Rightarrow> run_etag r),
                    run_log := run_log r @ [(cid, c, True)]\<rparr>))"

text \<open>
  The function of a handler answers with the status and the error, or with the data, the page and the
  status; \<open>Loops\<close> is a function that never returns.
\<close>

datatype 'o answered = Fails nat failure | Answers "'o shown_data" "PageMeta option" nat | Loops

type_synonym ('w, 'q, 'o) action = "('w, 'q) Run \<Rightarrow> 'o answered \<times> ('w, 'q) Run"

text \<open>A call whose error ends the function with the status \<open>bad\<close>.\<close>

definition ask ::
  "('w, 'o) Core \<Rightarrow> JsRequest \<Rightarrow> payload call \<Rightarrow> nat \<Rightarrow> ('o js_reply \<Rightarrow> ('w, 'q, 'o) action) \<Rightarrow> ('w, 'q, 'o) action" where
  "ask co rq c bad k r =
     (case call_client co (RequestCluster rq) c r of
        (Inl e, r') \<Rightarrow> (Fails bad (FromNats e), r')
      | (Inr v, r') \<Rightarrow> k v r')"

definition finish :: "nat \<Rightarrow> 'o shown_data \<Rightarrow> PageMeta option \<Rightarrow> ('w, 'q, 'o) action" where
  "finish status d m r = (Answers d m status, r)"

definition WithExecutor ::
  "('w, 'o) Core \<Rightarrow> string \<Rightarrow> ('w, 'q, 'o) action \<Rightarrow> ('w, 'q, 'o) action" where
  "WithExecutor co cid fn r =
     (case ac_session co cid (run_world r) of
        (Some e, w) \<Rightarrow> (Fails 0 (FromNats e), r\<lparr>run_world := w\<rparr>)
      | (None, w) \<Rightarrow> fn (r\<lparr>run_world := w, run_etag := []\<rparr>))"

definition CheckIfNoneMatch :: "JsRequest \<Rightarrow> string \<Rightarrow> bool" where
  "CheckIfNoneMatch rq etag \<longleftrightarrow>
     (if IsEmpty etag then False else \<not> IsEmpty (jr_IfNoneMatch rq) \<and> jr_IfNoneMatch rq = etag)"

text \<open>The type of a handler.\<close>

type_synonym ('w, 'q, 'o) js_handler =
  "('w, 'o) Core \<Rightarrow> JsRequest \<Rightarrow> ('w, 'q) Run \<Rightarrow> 'o response \<times> ('w, 'q) Run"

definition Action :: "('w, 'o) Core \<Rightarrow> JsRequest \<Rightarrow> ('w, 'q, 'o) action \<Rightarrow> ('w, 'q) Run \<Rightarrow> 'o response \<times> ('w, 'q) Run" where
  "Action co rq fn r =
     (case WithExecutor co (RequestCluster rq) fn r of
        (Fails status err, r') \<Rightarrow>
          (case WriteNATSError (MapNATSErrorStatus err status) err of (s, body) \<Rightarrow> (NatsFailed s body, r'))
      | (Loops, r') \<Rightarrow> (Unanswered, r')
      | (Answers d m status, r') \<Rightarrow>
          (let status = (if status = 0 then StatusOK else status) in
           if \<not> IsEmpty (run_etag r') \<and> CheckIfNoneMatch rq (run_etag r') then (NotModified, r')
           else (Done status d m (run_etag r'), r')))"

definition Void ::
  "('w, 'o) Core \<Rightarrow> JsRequest \<Rightarrow> ('w, 'q, 'o) action \<Rightarrow> nat \<Rightarrow> ('w, 'q) Run \<Rightarrow> 'o response \<times> ('w, 'q) Run" where
  "Void co rq fn badStatus r =
     (case WithExecutor co (RequestCluster rq) fn r of
        (Fails _ err, r') \<Rightarrow>
          (case WriteNATSError (MapNATSErrorStatus err badStatus) err of (s, body) \<Rightarrow> (NatsFailed s body, r'))
      | (Loops, r') \<Rightarrow> (Unanswered, r')
      | (Answers _ _ _, r') \<Rightarrow> (NoContent, r'))"

definition InvalidateSnapshot :: "JsRequest \<Rightarrow> ('w, 'q) Run \<Rightarrow> ('w, 'q) Run" where
  "InvalidateSnapshot rq r = r\<lparr>run_hub := hub_Invalidate (RequestCluster rq) (run_hub r)\<rparr>"

text \<open>\<^verbatim>\<open>Raw\<close>: a page of the monitoring, from the hub unless \<^verbatim>\<open>fresh=1\<close>.\<close>

definition raw_live :: "('w, 'o) Core \<Rightarrow> JsRequest \<Rightarrow> string \<Rightarrow> ('w, 'q) Run \<Rightarrow> 'o response \<times> ('w, 'q) Run" where
  "raw_live co rq path r =
     (let failed = (\<lambda>s e r'. case WriteNATSError s e of (s', b) \<Rightarrow> (NatsFailed s' b, r')) in
      case ac_session co (RequestCluster rq) (run_world r) of
        (Some e, w) \<Rightarrow>
          if ne_NotFound e then
            (NatsFailed StatusNotFound
               \<lparr>eb_Message = Text (if IsEmpty (ne_Text e) then ''request failed'' else ne_Text e), eb_Code = ''not_found'',
                eb_RetryAfterSeconds = 0, eb_Retryable = False\<rparr>, r\<lparr>run_world := w\<rparr>)
          else failed StatusBadGateway (FromNats e) (r\<lparr>run_world := w\<rparr>)
      | (None, w) \<Rightarrow>
          (case call_client co (RequestCluster rq) (View (Monitoring path)) (r\<lparr>run_world := w, run_etag := []\<rparr>) of
             (Inl e, r') \<Rightarrow> failed StatusBadGateway (FromNats e) r'
           | (Inr v, r') \<Rightarrow>
               (let data = (case v of RBytes d \<Rightarrow> d | _ \<Rightarrow> []) in
                if int (length data) > ac_MaxMonitoringBodyBytes co then
                  failed StatusBadGateway (FromNats \<lparr>ne_NotFound = False, ne_Deadline = False,
                    ne_Text = ''monitoring payload too large''\<rparr>) r'
                else if \<not> IsEmpty (run_etag r') \<and> CheckIfNoneMatch rq (run_etag r') then (NotModified, r')
                else (RawBody data (run_etag r') None, r'))))"

definition Raw :: "string \<Rightarrow> ('w, 'q, 'o) js_handler" where
  "Raw path co rq r =
     (if Peek rq ''fresh'' \<noteq> ''1'' then
        (case MonitoringPayload (run_hub r) (RequestCluster rq) path of
           None \<Rightarrow> raw_live co rq path r
         | Some (data, capturedAt) \<Rightarrow>
             if int (length data) > ac_MaxMonitoringBodyBytes co then (Refused StatusBadGateway MonitoringTooLarge, r)
             else
               (let etag = quoted (ac_formatETag co capturedAt) in
                if CheckIfNoneMatch rq etag then (NotModified, r)
                else (RawBody data etag (Some capturedAt), r)))
      else raw_live co rq path r)"

section \<open>Pages (pagination.go)\<close>

definition clampLimit :: "('w, 'o) Core \<Rightarrow> int \<Rightarrow> int \<Rightarrow> int" where
  "clampLimit co limit defaultLimit =
     (let limit = (if limit \<le> 0 then defaultLimit else limit) in
      if ac_MaxLimit co > 0 \<and> limit > ac_MaxLimit co then ac_MaxLimit co else limit)"

definition NormalizePaginationLimit :: "('w, 'o) Core \<Rightarrow> int \<Rightarrow> int" where
  "NormalizePaginationLimit co limit = clampLimit co limit (ac_DefaultLimit co)"

definition ParsePaginationParams :: "('w, 'o) Core \<Rightarrow> JsRequest \<Rightarrow> int \<times> int" where
  "ParsePaginationParams co rq =
     (let offset = fst (Atoi (Peek rq ''offset''));
          limit = fst (Atoi (Peek rq ''limit''));
          limit = NormalizePaginationLimit co limit in
      (if offset < 0 then 0 else offset, limit))"

definition page_meta :: "int \<Rightarrow> int \<Rightarrow> int \<Rightarrow> PageMeta" where
  "page_meta n offset limit = \<lparr>pg_Total = n, pg_Offset = offset, pg_Limit = limit\<rparr>"

definition TotalMeta :: "int \<Rightarrow> PageMeta" where
  "TotalMeta n = \<lparr>pg_Total = n, pg_Offset = 0, pg_Limit = 0\<rparr>"

text \<open>\<^verbatim>\<open>ApplySlowConsumerFlags\<close> on a consumer as it is shown.\<close>

definition flag_slow :: "('w, 'o) Core \<Rightarrow> u64 \<Rightarrow> ConsumerInfoDTO \<Rightarrow> ConsumerInfoDTO" where
  "flag_slow co streamLastSeq i =
     (let f = ApplySlowConsumerFlags (ac_scaled co) streamLastSeq (ac_thresholds co) (consumer_read i)
      in i\<lparr>co_SlowConsumer := ci_SlowConsumer f, co_SlowReasons := ci_SlowReasons f\<rparr>)"

definition StreamsPage :: "('w, 'o) Core \<Rightarrow> natsStreamInfo list \<Rightarrow> 'o shown_data" where
  "StreamsPage co streams = ShStreams (StreamInfosFromNATS (ac_lib co) streams)"

definition ConsumersPage :: "('w, 'o) Core \<Rightarrow> natsConsumerInfo list \<Rightarrow> u64 \<Rightarrow> 'o shown_data" where
  "ConsumersPage co consumers streamLastSeq =
     ShConsumers (map (flag_slow co streamLastSeq) (ConsumerInfosFromNATS (ac_lib co) consumers))"

section \<open>Which errors are told\<close>

lemma WriteNATSError_at:
  "WriteNATSError 404 err =
     (404, \<lparr>eb_Message = Text ''not found'', eb_Code = ''not_found'', eb_RetryAfterSeconds = 0, eb_Retryable = False\<rparr>)"
  "WriteNATSError 504 err =
     (504, \<lparr>eb_Message = Text ''NATS request timed out'', eb_Code = ''timeout'', eb_RetryAfterSeconds = 5, eb_Retryable = True\<rparr>)"
  "WriteNATSError 502 err =
     (502, \<lparr>eb_Message = Text ''NATS is unavailable'', eb_Code = ''unavailable'', eb_RetryAfterSeconds = 5, eb_Retryable = True\<rparr>)"
  "WriteNATSError 400 err =
     (400, \<lparr>eb_Message = (case error_text err of None \<Rightarrow> Text ''NATS request failed'' | Some t \<Rightarrow> t), eb_Code = ''validation'',
            eb_RetryAfterSeconds = 0, eb_Retryable = False\<rparr>)"
  by (simp_all add: WriteNATSError_def Let_def CodeFromStatus_def status_defs more_status_defs natsRetryAfterSeconds_def)

lemma CodeFromStatus_at:
  "CodeFromStatus 404 = ''not_found''" "CodeFromStatus 504 = ''timeout''" "CodeFromStatus 502 = ''unavailable''"
  "CodeFromStatus 400 = ''validation''"
  by (simp_all add: CodeFromStatus_def status_defs more_status_defs)

lemma MapNATSErrorStatus_cases:
  assumes "requested \<in> {0, 400, 404, 502}"
  obtains
    "is_not_found err \<or> IsNATSNotFound err" "MapNATSErrorStatus err requested = 404"
  | "\<not> (is_not_found err \<or> IsNATSNotFound err)" "is_deadline err" "MapNATSErrorStatus err requested = 504"
  | "\<not> (is_not_found err \<or> IsNATSNotFound err)" "\<not> is_deadline err" "requested = 400" "MapNATSErrorStatus err requested = 400"
  | "\<not> (is_not_found err \<or> IsNATSNotFound err)" "\<not> is_deadline err" "requested \<noteq> 400" "MapNATSErrorStatus err requested = 502"
  using assms
  by (cases "is_not_found err \<or> IsNATSNotFound err"; cases "is_deadline err")
    (auto simp: MapNATSErrorStatus_def status_defs more_status_defs)

text \<open>C35: The client learns of a failed call what it may know. Whatever the error and whatever status the handler asked for, the answer is 404 exactly when something was not found, 504 exactly when time ran out, 400 only where the handler blames the request, and 502 otherwise; the code fits the status, exactly the timeouts and the unavailable server are marked as worth another try after five seconds, and the text of the error is shown in an answer of 400 only.\<close>

theorem nats_errors_classified:
  assumes "requested \<in> {0, 400, 404, 502}"
    and "WriteNATSError (MapNATSErrorStatus err requested) err = (s, b)"
  shows "(s = 404 \<longleftrightarrow> is_not_found err \<or> IsNATSNotFound err) \<and>
    (s = 504 \<longleftrightarrow> \<not> (is_not_found err \<or> IsNATSNotFound err) \<and> is_deadline err) \<and>
    (s = 400 \<longleftrightarrow> \<not> (is_not_found err \<or> IsNATSNotFound err) \<and> \<not> is_deadline err \<and> requested = 400) \<and>
    s \<in> {400, 404, 502, 504} \<and> eb_Code b = CodeFromStatus s \<and>
    (eb_Retryable b \<longleftrightarrow> s = 502 \<or> s = 504) \<and> (eb_RetryAfterSeconds b = (if eb_Retryable b then 5 else 0)) \<and>
    (s \<noteq> 400 \<longrightarrow> eb_Message b \<in> {Text ''not found'', Text ''NATS request timed out'', Text ''NATS is unavailable''}) \<and>
    (s = 400 \<longrightarrow> (case error_text err of None \<Rightarrow> eb_Message b = Text ''NATS request failed'' | Some t \<Rightarrow> eb_Message b = t))"
  using assms(2)
  by (cases rule: MapNATSErrorStatus_cases [OF assms(1), of err])
    (auto simp: WriteNATSError_at CodeFromStatus_at split: option.split)

lemma nats_errors_classified_witness:
  "eb_Message (snd (WriteNATSError (MapNATSErrorStatus (FromNats \<lparr>ne_NotFound = False, ne_Deadline = False, ne_Text = ''secret''\<rparr>) 0)
     (FromNats \<lparr>ne_NotFound = False, ne_Deadline = False, ne_Text = ''secret''\<rparr>))) \<noteq> Text ''secret''"
proof -
  let ?e = "FromNats \<lparr>ne_NotFound = False, ne_Deadline = False, ne_Text = ''secret''\<rparr>"
  let ?w = "WriteNATSError (MapNATSErrorStatus ?e 0) ?e"
  have "fst ?w = 502" by code_simp
  moreover have "?w = (fst ?w, snd ?w)" by simp
  ultimately have "eb_Message (snd ?w) \<in> {Text ''not found'', Text ''NATS request timed out'', Text ''NATS is unavailable''}"
    using nats_errors_classified [of 0 ?e "fst ?w" "snd ?w"] by auto
  then show ?thesis by auto
qed

text \<open>A page that is asked for is never longer than the configured maximum, and never starts before the first entry.\<close>

lemma pages_bounded:
  assumes "ParsePaginationParams co rq = (offset, limit)" "0 < ac_MaxLimit co" "0 < ac_DefaultLimit co"
  shows "0 \<le> offset \<and> 0 < limit \<and> limit \<le> ac_MaxLimit co"
  using assms by (auto simp: ParsePaginationParams_def NormalizePaginationLimit_def clampLimit_def Let_def split: if_splits)

end
