(* ===== verification/Js_Handlers.thy ===== *)
theory Js_Handlers
  imports Api_Core
begin

text \<open>
  The handlers of streams, consumers, messages, dead letters and capsules (\<^verbatim>\<open>api/jetstream\<close>), and of buckets,
  entries and objects (\<^verbatim>\<open>api/kvobj\<close>), each as a function of the request and the state of the run.  The name
  of a handler is the one of the table of routes with an \<open>h_\<close> before it.
\<close>

section \<open>Streams (handler.go, streams.go)\<close>

definition refuse :: "problem \<Rightarrow> ('w, 'q) Run \<Rightarrow> 'o response \<times> ('w, 'q) Run" where
  "refuse p r = (Refused StatusBadRequest p, r)"

definition show_stream :: "('w, 'o) Core \<Rightarrow> 'o js_reply \<Rightarrow> 'o shown_data" where
  "show_stream co v =
     (case v of RStream i \<Rightarrow> ShStream (StreamInfoFromNATS (ac_lib co) i) | _ \<Rightarrow> ShPlains [])"

definition show_plain :: "'o js_reply \<Rightarrow> 'o shown_data" where
  "show_plain v = (case v of RPlain x \<Rightarrow> ShPlain x | REntry _ x \<Rightarrow> ShPlain x | _ \<Rightarrow> ShPlains [])"

definition streams_of :: "'o js_reply \<Rightarrow> natsStreamInfo list \<times> int" where
  "streams_of v = (case v of RStreams l n \<Rightarrow> (l, n) | _ \<Rightarrow> ([], 0))"

definition consumers_of :: "'o js_reply \<Rightarrow> natsConsumerInfo list \<times> int" where
  "consumers_of v = (case v of RConsumers l n \<Rightarrow> (l, n) | _ \<Rightarrow> ([], 0))"

definition names_of :: "'o js_reply \<Rightarrow> string list \<times> int" where
  "names_of v = (case v of RNames l n \<Rightarrow> (l, n) | _ \<Rightarrow> ([], 0))"

definition plains_of :: "'o js_reply \<Rightarrow> 'o list" where
  "plains_of v = (case v of RPlains l \<Rightarrow> l | _ \<Rightarrow> [])"

definition h_AccountInfo :: "('w, 'q, 'o) js_handler" where
  "h_AccountInfo co rq =
     Action co rq (ask co rq (View AccountInfo) 0 (\<lambda>v.
       finish StatusOK (case v of RAccount i \<Rightarrow> ShAccount (AccountInfoFromNATS i) | _ \<Rightarrow> ShPlains []) None))"

definition h_ListStreams :: "('w, 'q, 'o) js_handler" where
  "h_ListStreams co rq =
     (case ParsePaginationParams co rq of (offset, limit) \<Rightarrow>
       Action co rq (ask co rq (View (ListStreams offset limit)) 0 (\<lambda>v.
         finish StatusOK (StreamsPage co (fst (streams_of v))) (Some (page_meta (snd (streams_of v)) offset limit)))))"

definition h_GetStream :: "('w, 'q, 'o) js_handler" where
  "h_GetStream co rq =
     (let name = RouteParam rq ''name'' in
      if \<not> ValidateResourceName name then refuse BadName
      else Action co rq (ask co rq (Forward (GetStreamInfo name)) StatusNotFound (\<lambda>v.
             finish StatusOK (show_stream co v) None)))"

text \<open>A stream is created or updated, the snapshot dropped, and the stream shown.\<close>

definition put_stream :: "('w, 'o) Core \<Rightarrow> JsRequest \<Rightarrow> payload change \<Rightarrow> nat \<Rightarrow> ('w, 'q) Run \<Rightarrow> 'o response \<times> ('w, 'q) Run" where
  "put_stream co rq c status =
     Action co rq (ask co rq (Change c) StatusBadRequest (\<lambda>v r.
       finish status (show_stream co v) None (InvalidateSnapshot rq r)))"

definition h_CreateStream :: "('w, 'q, 'o) js_handler" where
  "h_CreateStream co rq =
     (case ac_stream co (jr_Body rq) of
        None \<Rightarrow> refuse BadJson
      | Some req \<Rightarrow>
          if IsEmpty (rs_Name req) then refuse (MissingField ''name'')
          else if \<not> ValidateResourceName (rs_Name req) then refuse BadName
          else
            (case stream_toNATS (ac_lib co) req of
               Inl e \<Rightarrow> refuse (BadConfig e)
             | Inr cfg \<Rightarrow> put_stream co rq (AddStream (PStream cfg)) StatusCreated))"

definition h_UpdateStream :: "('w, 'q, 'o) js_handler" where
  "h_UpdateStream co rq =
     (case ac_stream co (jr_Body rq) of
        None \<Rightarrow> refuse BadJson
      | Some req \<Rightarrow>
          (let req = (if IsEmpty (rs_Name req) then req\<lparr>rs_Name := RouteParam rq ''name''\<rparr> else req) in
           case stream_toNATS (ac_lib co) req of
             Inl e \<Rightarrow> refuse (BadConfig e)
           | Inr cfg \<Rightarrow> put_stream co rq (UpdateStream (PStream cfg)) StatusOK))"

text \<open>A change without data whose success drops the snapshot, and one that keeps it.\<close>

definition void_drop :: "('w, 'o) Core \<Rightarrow> JsRequest \<Rightarrow> payload change \<Rightarrow> ('w, 'q) Run \<Rightarrow> 'o response \<times> ('w, 'q) Run" where
  "void_drop co rq c =
     Void co rq (ask co rq (Change c) 0 (\<lambda>v r. finish 0 (ShPlains []) None (InvalidateSnapshot rq r))) StatusBadRequest"

definition void_keep :: "('w, 'o) Core \<Rightarrow> JsRequest \<Rightarrow> payload change \<Rightarrow> ('w, 'q) Run \<Rightarrow> 'o response \<times> ('w, 'q) Run" where
  "void_keep co rq c =
     Void co rq (ask co rq (Change c) 0 (\<lambda>v. finish 0 (ShPlains []) None)) StatusBadRequest"

definition h_DeleteStream :: "('w, 'q, 'o) js_handler" where
  "h_DeleteStream co rq = void_drop co rq (DeleteStream (RouteParam rq ''name''))"

definition h_PurgeStream :: "('w, 'q, 'o) js_handler" where
  "h_PurgeStream co rq = void_drop co rq (PurgeStream (RouteParam rq ''name''))"

section \<open>Consumers (consumers.go)\<close>

text \<open>The last sequence of the stream, or 0 when it cannot be inspected, for what follows.\<close>

definition with_last_seq :: "('w, 'o) Core \<Rightarrow> JsRequest \<Rightarrow> string \<Rightarrow> (u64 \<Rightarrow> ('w, 'q, 'o) action) \<Rightarrow> ('w, 'q, 'o) action" where
  "with_last_seq co rq stream k r =
     (case call_client co (RequestCluster rq) (Forward (GetStreamInfo stream)) r of
        (Inl e, r') \<Rightarrow> k 0 r'
      | (Inr v, r') \<Rightarrow> k (case v of RStream i \<Rightarrow> ss_LastSeq (ni_State i) | _ \<Rightarrow> 0) r')"

definition show_consumer :: "('w, 'o) Core \<Rightarrow> 'o js_reply \<Rightarrow> u64 \<Rightarrow> 'o shown_data" where
  "show_consumer co v lastSeq =
     (case v of
        RConsumer i \<Rightarrow> ShConsumer (flag_slow co lastSeq (ConsumerInfoFromNATS (ac_lib co) i))
      | _ \<Rightarrow> ShPlains [])"

definition h_ListConsumers :: "('w, 'q, 'o) js_handler" where
  "h_ListConsumers co rq =
     (let stream = RouteParam rq ''name'' in
      case ParsePaginationParams co rq of (offset, limit) \<Rightarrow>
       Action co rq (ask co rq (View (ListConsumers stream offset limit)) 0 (\<lambda>v.
         with_last_seq co rq stream (\<lambda>lastSeq.
           finish StatusOK (ConsumersPage co (fst (consumers_of v)) lastSeq)
             (Some (page_meta (snd (consumers_of v)) offset limit))))))"

definition h_GetConsumer :: "('w, 'q, 'o) js_handler" where
  "h_GetConsumer co rq =
     (let stream = RouteParam rq ''name''; consumer = RouteParam rq ''consumer'' in
      Action co rq (ask co rq (Forward (GetConsumerInfo stream consumer)) StatusNotFound (\<lambda>v.
        with_last_seq co rq stream (\<lambda>lastSeq. finish StatusOK (show_consumer co v lastSeq) None))))"

definition put_consumer ::
  "('w, 'o) Core \<Rightarrow> JsRequest \<Rightarrow> string \<Rightarrow> payload change \<Rightarrow> nat \<Rightarrow> ('w, 'q) Run \<Rightarrow> 'o response \<times> ('w, 'q) Run" where
  "put_consumer co rq stream c status =
     Action co rq (ask co rq (Change c) StatusBadRequest (\<lambda>v r.
       with_last_seq co rq stream (\<lambda>lastSeq. finish status (show_consumer co v lastSeq) None) (InvalidateSnapshot rq r)))"

definition h_CreateConsumer :: "('w, 'q, 'o) js_handler" where
  "h_CreateConsumer co rq =
     (let stream = RouteParam rq ''name'' in
      case ac_consumer co (jr_Body rq) of
        None \<Rightarrow> refuse BadJson
      | Some req \<Rightarrow>
          (case consumer_toNATS (ac_lib co) req of
             Inl e \<Rightarrow> refuse (BadConfig e)
           | Inr cfg \<Rightarrow> put_consumer co rq stream (AddConsumer stream (PConsumer cfg)) StatusCreated))"

definition h_UpdateConsumer :: "('w, 'q, 'o) js_handler" where
  "h_UpdateConsumer co rq =
     (let stream = RouteParam rq ''name''; consumer = RouteParam rq ''consumer'' in
      case ac_consumer co (jr_Body rq) of
        None \<Rightarrow> refuse BadJson
      | Some req \<Rightarrow>
          (let req = (if IsEmpty (rc_DurableName req) then req\<lparr>rc_DurableName := consumer\<rparr> else req) in
           if rc_DurableName req \<noteq> consumer then refuse NameCannotChange
           else
             (case consumer_toNATS (ac_lib co) req of
                Inl e \<Rightarrow> refuse (BadConfig e)
              | Inr cfg \<Rightarrow> put_consumer co rq stream (UpdateConsumer stream (PConsumer cfg)) StatusOK)))"

definition h_DeleteConsumer :: "('w, 'q, 'o) js_handler" where
  "h_DeleteConsumer co rq = void_drop co rq (DeleteConsumer (RouteParam rq ''name'') (RouteParam rq ''consumer''))"

text \<open>Times are read in either of two forms of the standard.\<close>

definition parseRangeTime :: "('w, 'o) Core \<Rightarrow> string \<Rightarrow> gotime option" where
  "parseRangeTime co raw =
     (case nl_parseNano (ac_lib co) raw of Some t \<Rightarrow> Some t | None \<Rightarrow> nl_parseRFC3339 (ac_lib co) raw)"

text \<open>The checks that come before a replay and before its preview.\<close>

definition with_replay ::
  "('w, 'o) Core \<Rightarrow> JsRequest \<Rightarrow> (ReplayConsumerRequest \<Rightarrow> ('w, 'q) Run \<Rightarrow> 'o response \<times> ('w, 'q) Run) \<Rightarrow>
     ('w, 'q) Run \<Rightarrow> 'o response \<times> ('w, 'q) Run" where
  "with_replay co rq k =
     (if \<not> ValidateResourceName (RouteParam rq ''name'') then refuse BadName
      else if \<not> ValidateResourceName (RouteParam rq ''consumer'') then refuse BadName
      else
        (case ac_replay co (jr_Body rq) of
           None \<Rightarrow> refuse BadJson
         | Some req \<Rightarrow>
             (case ValidateReplay (parseRangeTime co) req of
                Some e \<Rightarrow> refuse (BadReplayRequest e)
              | None \<Rightarrow> k req)))"

definition h_ReplayConsumer :: "('w, 'q, 'o) js_handler" where
  "h_ReplayConsumer co rq =
     with_replay co rq (\<lambda>req.
       Action co rq (ask co rq
         (Forward (View_Cache.ReplayConsumer (RouteParam rq ''name'') (RouteParam rq ''consumer'') (PReplay req)))
         StatusBadRequest (\<lambda>v. finish StatusOK (show_plain v) None)))"

definition h_ReplayConsumerDryRun :: "('w, 'q, 'o) js_handler" where
  "h_ReplayConsumerDryRun co rq =
     with_replay co rq (\<lambda>req.
       Action co rq (ask co rq (Forward (GetStreamInfo (RouteParam rq ''name''))) StatusNotFound (\<lambda>vs.
         ask co rq (Forward (GetConsumerInfo (RouteParam rq ''name'') (RouteParam rq ''consumer''))) StatusNotFound (\<lambda>vc r.
           (case (vs, vc) of
              (RStream s, RConsumer c) \<Rightarrow>
                (case ComputeReplayDryRun (parseRangeTime co) req
                        (stream_read (StreamInfoFromNATS (ac_lib co) s)) (consumer_read (ConsumerInfoFromNATS (ac_lib co) c)) of
                   Inl e \<Rightarrow> (Fails StatusBadRequest (FromReplay e), r)
                 | Inr out \<Rightarrow> finish StatusOK (ShDryRun out) None r)
            | _ \<Rightarrow> finish StatusOK (ShPlains []) None r)))))"

section \<open>Messages (messages.go)\<close>

definition DefaultMsgRangeMax :: int where
  "DefaultMsgRangeMax = 1000"

text \<open>A call that only passes on what the client answers.\<close>

definition pass_on :: "('w, 'o) Core \<Rightarrow> JsRequest \<Rightarrow> payload call \<Rightarrow> nat \<Rightarrow> nat \<Rightarrow> ('w, 'q) Run \<Rightarrow> 'o response \<times> ('w, 'q) Run" where
  "pass_on co rq c bad status = Action co rq (ask co rq c bad (\<lambda>v. finish status (show_plain v) None))"

definition h_GetMessage :: "('w, 'q, 'o) js_handler" where
  "h_GetMessage co rq =
     (let stream = RouteParam rq ''name''; seqStr = Peek rq ''seq'' in
      if IsEmpty seqStr then refuse (MissingField ''seq'')
      else
        (case ParseUint seqStr of
           None \<Rightarrow> refuse (BadNumber ''seq'')
         | Some sequence \<Rightarrow>
             pass_on co rq (Forward (View_Cache.GetMessageNav stream sequence (Peek rq ''direction''))) StatusNotFound StatusOK))"

text \<open>The number of messages of a range: \<^verbatim>\<open>None\<close> is an error.\<close>

definition range_limit :: "string \<Rightarrow> int option" where
  "range_limit limitStr =
     (let parsed = (if IsEmpty limitStr then Some 0
                    else (case Atoi limitStr of (n, ok) \<Rightarrow> if \<not> ok \<or> n < 0 then None else Some n)) in
      map_option (\<lambda>limit. if limit = 0 \<or> limit > DefaultMsgRangeMax then DefaultMsgRangeMax else limit) parsed)"

definition h_GetMessageRange :: "('w, 'q, 'o) js_handler" where
  "h_GetMessageRange co rq =
     (let stream = RouteParam rq ''name'';
          startSeqStr = Peek rq ''startSeq''; endSeqStr = Peek rq ''endSeq'';
          startTimeStr = Peek rq ''startTime''; endTimeStr = Peek rq ''endTime'';
          bySeq = (\<not> IsEmpty startSeqStr \<or> \<not> IsEmpty endSeqStr);
          byTime = (\<not> IsEmpty startTimeStr \<or> \<not> IsEmpty endTimeStr) in
      if \<not> ValidateResourceName stream then refuse BadName
      else
        (case range_limit (Peek rq ''limit'') of
           None \<Rightarrow> refuse (BadNumber ''limit'')
         | Some limit \<Rightarrow>
             if bySeq = byTime then refuse BadRange
             else if bySeq then
               (if IsEmpty startSeqStr \<or> IsEmpty endSeqStr then refuse BadRange
                else
                  (case ParseUint startSeqStr of
                     None \<Rightarrow> refuse (BadNumber ''startSeq'')
                   | Some startSeq \<Rightarrow>
                       (case ParseUint endSeqStr of
                          None \<Rightarrow> refuse (BadNumber ''endSeq'')
                        | Some endSeq \<Rightarrow>
                            pass_on co rq (Forward (GetMessageRange stream startSeq endSeq limit)) StatusBadRequest StatusOK)))
             else
               (case parseRangeTime co startTimeStr of
                  None \<Rightarrow> refuse (BadTime ''startTime'')
                | Some startTime \<Rightarrow>
                    (case parseRangeTime co endTimeStr of
                       None \<Rightarrow> refuse (BadTime ''endTime'')
                     | Some endTime \<Rightarrow>
                         pass_on co rq (Forward (GetMessageRangeByTime stream startTime endTime limit))
                           StatusBadRequest StatusOK))))"

definition h_PublishMessage :: "('w, 'q, 'o) js_handler" where
  "h_PublishMessage co rq =
     (let stream = RouteParam rq ''name'' in
      if \<not> ValidateResourceName stream then refuse BadName
      else
        (case ac_publish co (jr_Body rq) of
           None \<Rightarrow> refuse BadJson
         | Some req \<Rightarrow>
             if IsEmpty (pm_Data req) then refuse (MissingField ''data'')
             else pass_on co rq (Change (PublishStreamMessage stream (PPublish req))) StatusBadRequest StatusCreated))"

section \<open>Dead letters and capsules (dlq.go, incident_capsule.go)\<close>

definition h_ListDLQMessages :: "('w, 'q, 'o) js_handler" where
  "h_ListDLQMessages co rq =
     (let stream = RouteParam rq ''name'';
          startSeqStr = Peek rq ''startSeq''; limitStr = Peek rq ''limit'';
          startSeq = (if IsEmpty startSeqStr then Some 0 else ParseUint startSeqStr);
          limit = (if IsEmpty limitStr then Some 0
                   else (case Atoi limitStr of (n, ok) \<Rightarrow> if \<not> ok \<or> n < 0 then None else Some n)) in
      if \<not> ValidateResourceName stream then refuse BadName
      else
        (case startSeq of
           None \<Rightarrow> refuse (BadNumber ''startSeq'')
         | Some s \<Rightarrow>
             (case limit of
                None \<Rightarrow> refuse (BadNumber ''limit'')
              | Some n \<Rightarrow> pass_on co rq (Forward (View_Cache.ListDLQMessages stream s n)) StatusBadRequest StatusOK)))"

definition h_RetryDLQMessages :: "('w, 'q, 'o) js_handler" where
  "h_RetryDLQMessages co rq =
     (let stream = RouteParam rq ''name'' in
      if \<not> ValidateResourceName stream then refuse BadName
      else
        (case ac_retry co (jr_Body rq) of
           None \<Rightarrow> refuse BadJson
         | Some req \<Rightarrow>
             (case ValidateRetry req of
                Some e \<Rightarrow> refuse (BadRetryRequest e)
              | None \<Rightarrow>
                  pass_on co rq (Change (View_Cache.RetryDLQMessages stream (PRetry req))) StatusBadRequest StatusOK)))"

definition h_CaptureIncidentCapsule :: "('w, 'q, 'o) js_handler" where
  "h_CaptureIncidentCapsule co rq =
     (let stream = RouteParam rq ''name'' in
      if \<not> ValidateResourceName stream then refuse BadName
      else
        (case ac_capsule co (jr_Body rq) of
           None \<Rightarrow> refuse BadJson
         | Some req \<Rightarrow>
             (case ValidateCapture req of
                Some e \<Rightarrow> refuse (BadCapsuleRequest e)
              | None \<Rightarrow>
                  pass_on co rq (Change (CaptureIncidentCapsule stream (PCapsule req))) StatusBadRequest StatusCreated)))"

definition h_CaptureIncidentCapsuleFromDLQ :: "('w, 'q, 'o) js_handler" where
  "h_CaptureIncidentCapsuleFromDLQ co rq =
     (let stream = RouteParam rq ''name'' in
      if \<not> ValidateResourceName stream then refuse BadName
      else
        (case ParseUint (RouteParam rq ''seq'') of
           None \<Rightarrow> refuse (BadNumber ''seq'')
         | Some sequence \<Rightarrow>
             if sequence = 0 then refuse (BadNumber ''seq'')
             else pass_on co rq (Change (CaptureIncidentCapsuleFromDLQ stream sequence)) StatusBadRequest StatusCreated))"

definition h_ListIncidentCapsules :: "('w, 'q, 'o) js_handler" where
  "h_ListIncidentCapsules co rq =
     (let stream = RouteParam rq ''name''; consumer = RouteParam rq ''consumer'' in
      if \<not> ValidateResourceName stream then refuse BadName
      else if \<not> ValidateResourceName consumer then refuse BadName
      else Action co rq (ask co rq (Forward (ListIncidentCapsules stream consumer)) StatusBadGateway (\<lambda>v.
             finish StatusOK (ShPlains (plains_of v)) None)))"

text \<open>A capsule by its identifier, not found or out of reach.\<close>

definition capsule_call :: "('w, 'o) Core \<Rightarrow> JsRequest \<Rightarrow> (string \<Rightarrow> string \<Rightarrow> payload pass) \<Rightarrow> ('w, 'q) Run \<Rightarrow> 'o response \<times> ('w, 'q) Run" where
  "capsule_call co rq f =
     (let i = TrimSpace (RouteParam rq ''id''); bucket = TrimSpace (Peek rq ''bucket'') in
      if IsEmpty i then refuse CapsuleIDRequired
      else Action co rq (\<lambda>r.
             (case call_client co (RequestCluster rq) (Forward (f i bucket)) r of
                (Inl e, r') \<Rightarrow>
                  (Fails (if IsNATSNotFound (FromNats e) \<or> ne_NotFound e then StatusNotFound else StatusBadGateway)
                     (FromNats e), r')
              | (Inr v, r') \<Rightarrow> finish StatusOK (show_plain v) None r')))"

definition h_GetIncidentCapsule :: "('w, 'q, 'o) js_handler" where
  "h_GetIncidentCapsule co rq = capsule_call co rq LoadIncidentCapsule"

definition h_ReplayIncidentCapsuleDryRun :: "('w, 'q, 'o) js_handler" where
  "h_ReplayIncidentCapsuleDryRun co rq = capsule_call co rq PreviewIncidentCapsule"

section \<open>Fingerprints of consumers (behavior_fingerprint.go)\<close>

definition DefaultBehaviorFingerprintKVBucket :: string where
  "DefaultBehaviorFingerprintKVBucket = ''nats_consol_fingerprints''"

definition BehaviorFingerprintKVKey :: "string \<Rightarrow> string \<Rightarrow> string" where
  "BehaviorFingerprintKVKey stream durable = TrimSpace stream @ ''/'' @ TrimSpace durable"

definition unavailable :: BehaviorFingerprintReport where
  "unavailable = \<lparr>fp_Available = False, fp_Stream = [], fp_Durable = [], fp_Anomaly = False, fp_SustainedForMs = 0,
     fp_Values = (None, None, None)\<rparr>"

definition ParseBehaviorFingerprintKV ::
  "('w, 'o) Core \<Rightarrow> string \<Rightarrow> string \<Rightarrow> string \<Rightarrow> BehaviorFingerprintReport" where
  "ParseBehaviorFingerprintKV co raw fallbackStream fallbackDurable =
     (if length raw = 0 then unavailable
      else
        (case ac_fingerprint co raw of
           None \<Rightarrow> unavailable
         | Some p \<Rightarrow>
             if fpp_Normal p = None \<or> fpp_Current p = None then unavailable
             else
               (let stream = TrimSpace (fpp_Stream p);
                    stream = (if IsEmpty stream then TrimSpace fallbackStream else stream);
                    durable = TrimSpace (fpp_Durable p);
                    durable = (if IsEmpty durable then TrimSpace fallbackDurable else durable) in
                \<lparr>fp_Available = True, fp_Stream = stream, fp_Durable = durable, fp_Anomaly = fpp_Anomaly p,
                 fp_SustainedForMs = fpp_SustainedForMs p,
                 fp_Values = (fpp_Normal p, fpp_Current p, fpp_UpdatedAt p)\<rparr>)))"

definition decodeKVEntryValue :: "'o js_reply \<Rightarrow> string option" where
  "decodeKVEntryValue v =
     (case v of
        REntry value _ \<Rightarrow> if IsEmpty value then Some [] else DecodeString value
      | _ \<Rightarrow> Some [])"

definition h_GetBehaviorFingerprint :: "('w, 'q, 'o) js_handler" where
  "h_GetBehaviorFingerprint co rq =
     (let stream = RouteParam rq ''name''; consumer = RouteParam rq ''consumer'';
          bucket = TrimSpace (ac_BehaviorFingerprintKVBucket co);
          bucket = (if IsEmpty bucket then DefaultBehaviorFingerprintKVBucket else bucket);
          key = BehaviorFingerprintKVKey stream consumer;
          show = (\<lambda>report. finish StatusOK (ShFingerprint report) None) in
      if \<not> ValidateResourceName stream then refuse BadName
      else if \<not> ValidateResourceName consumer then refuse BadName
      else Action co rq (\<lambda>r.
             (case call_client co (RequestCluster rq) (Forward (GetKVEntry bucket key)) r of
                (Inl e, r') \<Rightarrow>
                  if IsNATSNotFound (FromNats e) \<or> ne_NotFound e then show unavailable r'
                  else (Fails StatusBadGateway (FromNats e), r')
              | (Inr v, r') \<Rightarrow>
                  (case decodeKVEntryValue v of
                     None \<Rightarrow> show unavailable r'
                   | Some raw \<Rightarrow> show (ParseBehaviorFingerprintKV co raw stream consumer) r'))))"

section \<open>The impact of deleting a stream (blast_radius.go)\<close>

definition blastRadiusPageSize :: int where
  "blastRadiusPageSize = 500"

text \<open>
  \<^verbatim>\<open>listAllConsumers\<close> and \<^verbatim>\<open>listAllStreams\<close> ask for page after page until one is empty or the total is
  reached, which a server may put off for ever: \<open>None\<close> is a loop that does not end.
\<close>

partial_function (option) list_pages ::
  "('w, 'o) Core \<Rightarrow> string \<Rightarrow> (int \<Rightarrow> view) \<Rightarrow> ('o js_reply \<Rightarrow> 'a list \<times> int) \<Rightarrow> int \<Rightarrow> 'a list \<Rightarrow> ('w, 'q) Run \<Rightarrow>
     ((NatsErr + 'a list) \<times> ('w, 'q) Run) option" where
  "list_pages co cid v read offset out r =
     (case call_client co cid (View (v offset)) r of
        (Inl e, r') \<Rightarrow> Some (Inl e, r')
      | (Inr answer, r') \<Rightarrow>
          (case read answer of (page, count) \<Rightarrow>
             (let out = out @ page; offset = offset + int (length page) in
              if page = [] \<or> offset \<ge> count then Some (Inr out, r')
              else list_pages co cid v read offset out r')))"

declare list_pages.simps [code]

definition listAllConsumers ::
  "('w, 'o) Core \<Rightarrow> string \<Rightarrow> string \<Rightarrow> int \<Rightarrow> ('w, 'q) Run \<Rightarrow> ((NatsErr + natsConsumerInfo list) \<times> ('w, 'q) Run) option" where
  "listAllConsumers co cid stream pageSize =
     (let pageSize = (if pageSize \<le> 0 then blastRadiusPageSize else pageSize) in
      list_pages co cid (\<lambda>offset. ListConsumers stream offset pageSize) consumers_of 0 [])"

definition listAllStreams ::
  "('w, 'o) Core \<Rightarrow> string \<Rightarrow> int \<Rightarrow> ('w, 'q) Run \<Rightarrow> ((NatsErr + natsStreamInfo list) \<times> ('w, 'q) Run) option" where
  "listAllStreams co cid pageSize =
     (let pageSize = (if pageSize \<le> 0 then blastRadiusPageSize else pageSize) in
      list_pages co cid (\<lambda>offset. ListStreams offset pageSize) streams_of 0 [])"

definition topology_info :: "topology_stream \<Rightarrow> StreamInfo" where
  "topology_info s =
     \<lparr>si_Config =
        (case td_Config s of
           None \<Rightarrow> \<lparr>sc_Name = td_Name s, sc_Mirror = None, sc_Sources = [], sc_Metadata = []\<rparr>
         | Some (meta, mirror, sources) \<Rightarrow>
             \<lparr>sc_Name = td_Name s, sc_Mirror = mirror, sc_Sources = sources, sc_Metadata = meta\<rparr>),
      si_Msgs = 0, si_FirstSeq = 0, si_LastSeq = 0\<rparr>"

definition streamsFromTopologyJSZ :: "('w, 'o) Core \<Rightarrow> string \<Rightarrow> StreamInfo list option" where
  "streamsFromTopologyJSZ co raw =
     map_option (\<lambda>accounts. map topology_info (filter (\<lambda>s. \<not> IsEmpty (td_Name s)) (concat accounts)))
       (ac_topology co raw)"

definition blastRadiusStreams ::
  "('w, 'o) Core \<Rightarrow> string \<Rightarrow> ('w, 'q) Run \<Rightarrow> ((NatsErr + StreamInfo list) \<times> ('w, 'q) Run) option" where
  "blastRadiusStreams co cid r =
     (let cached = (if IsEmpty cid then None
                    else (case MonitoringPayload (run_hub r) cid TopologyJSZPath of
                        None \<Rightarrow> None | Some (raw, _) \<Rightarrow> streamsFromTopologyJSZ co raw)) in
      case cached of
        Some (s # ss) \<Rightarrow> Some (Inr (s # ss), r)
      | _ \<Rightarrow>
          map_option (map_prod (map_sum id (map (stream_read \<circ> StreamInfoFromNATS (ac_lib co)))) id)
            (listAllStreams co cid blastRadiusPageSize r))"

definition h_GetStreamImpact :: "('w, 'q, 'o) js_handler" where
  "h_GetStreamImpact co rq =
     (let name = RouteParam rq ''name''; cluster = RequestCluster rq in
      if \<not> ValidateResourceName name then refuse BadName
      else Action co rq (ask co rq (Forward (GetStreamInfo name)) StatusNotFound (\<lambda>v r.
             (case listAllConsumers co cluster name blastRadiusPageSize r of
                None \<Rightarrow> (Loops, r)
              | Some (Inl e, r') \<Rightarrow> (Fails 0 (FromNats e), r')
              | Some (Inr consumers, r') \<Rightarrow>
                  (case blastRadiusStreams co cluster r' of
                     None \<Rightarrow> (Loops, r')
                   | Some (Inl e, r'') \<Rightarrow> (Fails 0 (FromNats e), r'')
                   | Some (Inr streams, r'') \<Rightarrow>
                       (case v of
                          RStream i \<Rightarrow>
                            finish StatusOK (ShBlast (ComputeBlastRadius (stream_read (StreamInfoFromNATS (ac_lib co) i))
                              (map (consumer_read \<circ> ConsumerInfoFromNATS (ac_lib co)) consumers) streams)) None r''
                        | _ \<Rightarrow> finish StatusOK (ShPlains []) None r''))))))"

section \<open>Key-value buckets (kv.go)\<close>

definition h_ListKVBuckets :: "('w, 'q, 'o) js_handler" where
  "h_ListKVBuckets co rq =
     Action co rq (ask co rq (View ListKVBuckets) 0 (\<lambda>v.
       finish StatusOK (ShPlains (plains_of v)) (Some (TotalMeta (int (length (plains_of v)))))))"

definition kv_opts :: "kvBucketConfigRequest \<Rightarrow> KVBucketWriteOpts" where
  "kv_opts req = \<lparr>wo_Metadata = rk_Metadata req, wo_LimitMarkerTTLNs = rk_LimitMarkerTTLNs req\<rparr>"

definition h_CreateKVBucket :: "('w, 'q, 'o) js_handler" where
  "h_CreateKVBucket co rq =
     (case ac_kv co (jr_Body rq) of
        None \<Rightarrow> refuse BadJson
      | Some req \<Rightarrow>
          if IsEmpty (rk_Bucket req) then refuse (MissingField ''bucket'')
          else
            (case toKVConfig (ac_lib co) req of
               Inl e \<Rightarrow> refuse (BadConfig e)
             | Inr cfg \<Rightarrow> pass_on co rq (Change (CreateKVBucket (PKV cfg (kv_opts req)))) StatusBadRequest StatusCreated))"

definition h_UpdateKVBucket :: "('w, 'q, 'o) js_handler" where
  "h_UpdateKVBucket co rq =
     (let bucket = RouteParam rq ''bucket'' in
      case ac_kv co (jr_Body rq) of
        None \<Rightarrow> refuse BadJson
      | Some req \<Rightarrow>
          (let req = (if IsEmpty (rk_Bucket req) then req\<lparr>rk_Bucket := bucket\<rparr> else req) in
           if rk_Bucket req \<noteq> bucket then refuse NameCannotChange
           else
             (case toKVConfig (ac_lib co) req of
                Inl e \<Rightarrow> refuse (BadConfig e)
              | Inr cfg \<Rightarrow> pass_on co rq (Change (UpdateKVBucket (PKV cfg (kv_opts req)))) StatusBadRequest StatusOK)))"

definition h_GetKVBucket :: "('w, 'q, 'o) js_handler" where
  "h_GetKVBucket co rq = pass_on co rq (Forward (GetKVBucket (RouteParam rq ''bucket''))) StatusNotFound StatusOK"

definition h_DeleteKVBucket :: "('w, 'q, 'o) js_handler" where
  "h_DeleteKVBucket co rq = void_keep co rq (DeleteKVBucket (RouteParam rq ''bucket''))"

text \<open>A page of names.\<close>

definition list_names :: "('w, 'o) Core \<Rightarrow> JsRequest \<Rightarrow> (int \<Rightarrow> int \<Rightarrow> payload pass) \<Rightarrow> ('w, 'q) Run \<Rightarrow> 'o response \<times> ('w, 'q) Run" where
  "list_names co rq f =
     (case ParsePaginationParams co rq of (offset, limit) \<Rightarrow>
       Action co rq (ask co rq (Forward (f offset limit)) StatusNotFound (\<lambda>v.
         finish StatusOK (ShNames (fst (names_of v))) (Some (page_meta (snd (names_of v)) offset limit)))))"

definition h_ListKVKeys :: "('w, 'q, 'o) js_handler" where
  "h_ListKVKeys co rq = list_names co rq (ListKVKeys (RouteParam rq ''bucket''))"

definition h_GetKVEntry :: "('w, 'q, 'o) js_handler" where
  "h_GetKVEntry co rq =
     pass_on co rq (Forward (GetKVEntry (RouteParam rq ''bucket'') (RouteParam rq ''key''))) StatusNotFound StatusOK"

definition h_PutKVEntry :: "('w, 'q, 'o) js_handler" where
  "h_PutKVEntry co rq =
     (case ac_value co (jr_Body rq) of
        None \<Rightarrow> refuse BadJson
      | Some encoded \<Rightarrow>
          (case DecodeString encoded of
             None \<Rightarrow> refuse BadBase64
           | Some val \<Rightarrow>
               pass_on co rq (Change (PutKVEntry (RouteParam rq ''bucket'') (RouteParam rq ''key'') val))
                 StatusBadRequest StatusOK))"

definition h_DeleteKVEntry :: "('w, 'q, 'o) js_handler" where
  "h_DeleteKVEntry co rq = void_keep co rq (DeleteKVEntry (RouteParam rq ''bucket'') (RouteParam rq ''key''))"

definition h_KVHistory :: "('w, 'q, 'o) js_handler" where
  "h_KVHistory co rq =
     Action co rq (ask co rq (Forward (KVHistory (RouteParam rq ''bucket'') (RouteParam rq ''key''))) StatusNotFound (\<lambda>v.
       finish StatusOK (ShPlains (plains_of v)) (Some (TotalMeta (int (length (plains_of v)))))))"

section \<open>Object buckets (objects.go)\<close>

definition h_ListObjectBuckets :: "('w, 'q, 'o) js_handler" where
  "h_ListObjectBuckets co rq =
     Action co rq (ask co rq (View ListObjectBuckets) 0 (\<lambda>v.
       finish StatusOK (ShPlains (plains_of v)) (Some (TotalMeta (int (length (plains_of v)))))))"

definition h_CreateObjectBucket :: "('w, 'q, 'o) js_handler" where
  "h_CreateObjectBucket co rq =
     (case ac_object co (jr_Body rq) of
        None \<Rightarrow> refuse BadJson
      | Some req \<Rightarrow>
          if IsEmpty (ro_Bucket req) then refuse (MissingField ''bucket'')
          else
            (case toObjectConfig (ac_lib co) req of
               Inl e \<Rightarrow> refuse (BadConfig e)
             | Inr cfg \<Rightarrow> pass_on co rq (Change (CreateObjectBucket (PObject cfg))) StatusBadRequest StatusCreated))"

definition h_UpdateObjectBucket :: "('w, 'q, 'o) js_handler" where
  "h_UpdateObjectBucket co rq =
     (let bucket = RouteParam rq ''bucket'' in
      case ac_object co (jr_Body rq) of
        None \<Rightarrow> refuse BadJson
      | Some req \<Rightarrow>
          (let req = (if IsEmpty (ro_Bucket req) then req\<lparr>ro_Bucket := bucket\<rparr> else req) in
           if ro_Bucket req \<noteq> bucket then refuse NameCannotChange
           else
             (case toObjectConfig (ac_lib co) req of
                Inl e \<Rightarrow> refuse (BadConfig e)
              | Inr cfg \<Rightarrow> pass_on co rq (Change (UpdateObjectBucket (PObject cfg))) StatusBadRequest StatusOK)))"

definition h_GetObjectBucket :: "('w, 'q, 'o) js_handler" where
  "h_GetObjectBucket co rq = pass_on co rq (Forward (GetObjectBucket (RouteParam rq ''bucket''))) StatusNotFound StatusOK"

definition h_DeleteObjectBucket :: "('w, 'q, 'o) js_handler" where
  "h_DeleteObjectBucket co rq = void_keep co rq (DeleteObjectBucket (RouteParam rq ''bucket''))"

definition h_ListObjects :: "('w, 'q, 'o) js_handler" where
  "h_ListObjects co rq = list_names co rq (ListObjects (RouteParam rq ''bucket''))"

definition h_GetObject :: "('w, 'q, 'o) js_handler" where
  "h_GetObject co rq =
     pass_on co rq (Forward (GetObject (RouteParam rq ''bucket'') (RouteParam rq ''objectName''))) StatusNotFound StatusOK"

definition h_PutObject :: "('w, 'q, 'o) js_handler" where
  "h_PutObject co rq =
     (case ac_value co (jr_Body rq) of
        None \<Rightarrow> refuse BadJson
      | Some encoded \<Rightarrow>
          (case DecodeString encoded of
             None \<Rightarrow> refuse BadBase64
           | Some val \<Rightarrow>
               pass_on co rq (Change (PutObject (RouteParam rq ''bucket'') (RouteParam rq ''objectName'') val))
                 StatusBadRequest StatusOK))"

definition h_DeleteObject :: "('w, 'q, 'o) js_handler" where
  "h_DeleteObject co rq = void_keep co rq (DeleteObject (RouteParam rq ''bucket'') (RouteParam rq ''objectName''))"

section \<open>The handlers by name\<close>

definition js_handlers :: "(string \<times> ('w, 'q, 'o) js_handler) list" where
  "js_handlers = [
     (''jsHandler.AccountInfo'', h_AccountInfo),
     (''jsHandler.ListStreams'', h_ListStreams),
     (''jsHandler.CreateStream'', h_CreateStream),
     (''jsHandler.GetStream'', h_GetStream),
     (''jsHandler.UpdateStream'', h_UpdateStream),
     (''jsHandler.DeleteStream'', h_DeleteStream),
     (''jsHandler.GetStreamImpact'', h_GetStreamImpact),
     (''jsHandler.PurgeStream'', h_PurgeStream),
     (''jsHandler.ListConsumers'', h_ListConsumers),
     (''jsHandler.CreateConsumer'', h_CreateConsumer),
     (''jsHandler.GetConsumer'', h_GetConsumer),
     (''jsHandler.UpdateConsumer'', h_UpdateConsumer),
     (''jsHandler.DeleteConsumer'', h_DeleteConsumer),
     (''jsHandler.GetBehaviorFingerprint'', h_GetBehaviorFingerprint),
     (''jsHandler.ListIncidentCapsules'', h_ListIncidentCapsules),
     (''jsHandler.ReplayConsumerDryRun'', h_ReplayConsumerDryRun),
     (''jsHandler.ReplayConsumer'', h_ReplayConsumer),
     (''jsHandler.GetMessageRange'', h_GetMessageRange),
     (''jsHandler.GetMessage'', h_GetMessage),
     (''jsHandler.PublishMessage'', h_PublishMessage),
     (''jsHandler.ListDLQMessages'', h_ListDLQMessages),
     (''jsHandler.RetryDLQMessages'', h_RetryDLQMessages),
     (''jsHandler.CaptureIncidentCapsuleFromDLQ'', h_CaptureIncidentCapsuleFromDLQ),
     (''jsHandler.CaptureIncidentCapsule'', h_CaptureIncidentCapsule),
     (''jsHandler.GetIncidentCapsule'', h_GetIncidentCapsule),
     (''jsHandler.ReplayIncidentCapsuleDryRun'', h_ReplayIncidentCapsuleDryRun),
     (''kvHandler.ListKVBuckets'', h_ListKVBuckets),
     (''kvHandler.CreateKVBucket'', h_CreateKVBucket),
     (''kvHandler.GetKVBucket'', h_GetKVBucket),
     (''kvHandler.UpdateKVBucket'', h_UpdateKVBucket),
     (''kvHandler.DeleteKVBucket'', h_DeleteKVBucket),
     (''kvHandler.ListKVKeys'', h_ListKVKeys),
     (''kvHandler.GetKVEntry'', h_GetKVEntry),
     (''kvHandler.PutKVEntry'', h_PutKVEntry),
     (''kvHandler.DeleteKVEntry'', h_DeleteKVEntry),
     (''kvHandler.KVHistory'', h_KVHistory),
     (''kvHandler.ListObjectBuckets'', h_ListObjectBuckets),
     (''kvHandler.CreateObjectBucket'', h_CreateObjectBucket),
     (''kvHandler.GetObjectBucket'', h_GetObjectBucket),
     (''kvHandler.UpdateObjectBucket'', h_UpdateObjectBucket),
     (''kvHandler.DeleteObjectBucket'', h_DeleteObjectBucket),
     (''kvHandler.ListObjects'', h_ListObjects),
     (''kvHandler.GetObject'', h_GetObject),
     (''kvHandler.PutObject'', h_PutObject),
     (''kvHandler.DeleteObject'', h_DeleteObject)]"

text \<open>The handlers that change something on the server.\<close>

definition change_names :: "string list" where
  "change_names = [
     ''jsHandler.CreateStream'', ''jsHandler.UpdateStream'', ''jsHandler.DeleteStream'', ''jsHandler.PurgeStream'',
     ''jsHandler.CreateConsumer'', ''jsHandler.UpdateConsumer'', ''jsHandler.DeleteConsumer'',
     ''jsHandler.ReplayConsumer'', ''jsHandler.PublishMessage'', ''jsHandler.RetryDLQMessages'',
     ''jsHandler.CaptureIncidentCapsuleFromDLQ'', ''jsHandler.CaptureIncidentCapsule'',
     ''kvHandler.CreateKVBucket'', ''kvHandler.UpdateKVBucket'', ''kvHandler.DeleteKVBucket'',
     ''kvHandler.PutKVEntry'', ''kvHandler.DeleteKVEntry'',
     ''kvHandler.CreateObjectBucket'', ''kvHandler.UpdateObjectBucket'', ''kvHandler.DeleteObjectBucket'',
     ''kvHandler.PutObject'', ''kvHandler.DeleteObject'']"

fun changing :: "payload call \<Rightarrow> bool" where
  "changing (View _) \<longleftrightarrow> False"
| "changing (Change _) \<longleftrightarrow> True"
| "changing (Forward p) \<longleftrightarrow> (case p of View_Cache.ReplayConsumer _ _ _ \<Rightarrow> True | _ \<Rightarrow> False)"

text \<open>A call made for a request stays in its cluster, and a change to what the route names.\<close>

definition kv_bucket :: "payload \<Rightarrow> string" where
  "kv_bucket p = (case p of PKV c _ \<Rightarrow> kv_Bucket c | PObject c \<Rightarrow> ob_Bucket c | _ \<Rightarrow> [])"

definition durable :: "payload \<Rightarrow> string" where
  "durable p = (case p of PConsumer c \<Rightarrow> cf_Durable c | _ \<Rightarrow> [])"

definition stream_name :: "payload \<Rightarrow> string" where
  "stream_name p = (case p of PStream c \<Rightarrow> nc_Name c | _ \<Rightarrow> [])"

fun aimed :: "JsRequest \<Rightarrow> payload change \<Rightarrow> bool" where
  "aimed rq (AddStream p) \<longleftrightarrow> ValidateResourceName (stream_name p)"
| "aimed rq (UpdateStream p) \<longleftrightarrow> True"
| "aimed rq (DeleteStream s) \<longleftrightarrow> s = RouteParam rq ''name''"
| "aimed rq (PurgeStream s) \<longleftrightarrow> s = RouteParam rq ''name''"
| "aimed rq (AddConsumer s p) \<longleftrightarrow> s = RouteParam rq ''name''"
| "aimed rq (UpdateConsumer s p) \<longleftrightarrow> s = RouteParam rq ''name'' \<and> durable p = RouteParam rq ''consumer''"
| "aimed rq (DeleteConsumer s c) \<longleftrightarrow> s = RouteParam rq ''name'' \<and> c = RouteParam rq ''consumer''"
| "aimed rq (PublishStreamMessage s p) \<longleftrightarrow> s = RouteParam rq ''name'' \<and> ValidateResourceName s"
| "aimed rq (DeleteMessage s q) \<longleftrightarrow> False"
| "aimed rq (View_Cache.RetryDLQMessages s p) \<longleftrightarrow> s = RouteParam rq ''name'' \<and> ValidateResourceName s"
| "aimed rq (CaptureIncidentCapsule s p) \<longleftrightarrow> s = RouteParam rq ''name'' \<and> ValidateResourceName s"
| "aimed rq (CaptureIncidentCapsuleFromDLQ s q) \<longleftrightarrow> s = RouteParam rq ''name'' \<and> ValidateResourceName s \<and> q \<noteq> 0"
| "aimed rq (CreateKVBucket p) \<longleftrightarrow> kv_bucket p \<noteq> []"
| "aimed rq (UpdateKVBucket p) \<longleftrightarrow> kv_bucket p = RouteParam rq ''bucket''"
| "aimed rq (DeleteKVBucket b) \<longleftrightarrow> b = RouteParam rq ''bucket''"
| "aimed rq (PutKVEntry b k v) \<longleftrightarrow> b = RouteParam rq ''bucket'' \<and> k = RouteParam rq ''key''"
| "aimed rq (DeleteKVEntry b k) \<longleftrightarrow> b = RouteParam rq ''bucket'' \<and> k = RouteParam rq ''key''"
| "aimed rq (CreateObjectBucket p) \<longleftrightarrow> kv_bucket p \<noteq> []"
| "aimed rq (UpdateObjectBucket p) \<longleftrightarrow> kv_bucket p = RouteParam rq ''bucket''"
| "aimed rq (DeleteObjectBucket b) \<longleftrightarrow> b = RouteParam rq ''bucket''"
| "aimed rq (PutObject b k v) \<longleftrightarrow> b = RouteParam rq ''bucket'' \<and> k = RouteParam rq ''objectName''"
| "aimed rq (DeleteObject b k) \<longleftrightarrow> b = RouteParam rq ''bucket'' \<and> k = RouteParam rq ''objectName''"

definition on_route :: "JsRequest \<Rightarrow> payload call \<Rightarrow> bool" where
  "on_route rq c \<longleftrightarrow>
     (case c of
        Change ch \<Rightarrow> aimed rq ch
      | Forward (View_Cache.ReplayConsumer s k _) \<Rightarrow>
          s = RouteParam rq ''name'' \<and> k = RouteParam rq ''consumer'' \<and> ValidateResourceName s \<and> ValidateResourceName k
      | _ \<Rightarrow> True)"

text \<open>The changes after which the snapshot is dropped.\<close>

definition drops_snapshot :: "payload call \<Rightarrow> bool" where
  "drops_snapshot c \<longleftrightarrow>
     (case c of
        Change (AddStream _) \<Rightarrow> True
      | Change (UpdateStream _) \<Rightarrow> True
      | Change (DeleteStream _) \<Rightarrow> True
      | Change (PurgeStream _) \<Rightarrow> True
      | Change (AddConsumer _ _) \<Rightarrow> True
      | Change (UpdateConsumer _ _) \<Rightarrow> True
      | Change (DeleteConsumer _ _) \<Rightarrow> True
      | _ \<Rightarrow> False)"

section \<open>Reading\<close>

text \<open>What a handler that only reads does to the run: the hub stays, and calls in the cluster are added.\<close>

definition reading :: "JsRequest \<Rightarrow> ('w, 'q) Run \<Rightarrow> ('w, 'q) Run \<Rightarrow> bool" where
  "reading rq r r' \<longleftrightarrow> run_hub r' = run_hub r \<and>
     (\<exists>l. run_log r' = run_log r @ l \<and> list_all (\<lambda>(c, k, _). c = RequestCluster rq \<and> \<not> changing k) l)"

definition reads_only :: "JsRequest \<Rightarrow> (('w, 'q) Run \<Rightarrow> 'x \<times> ('w, 'q) Run) \<Rightarrow> bool" where
  "reads_only rq fn \<longleftrightarrow> (\<forall>r. reading rq r (snd (fn r)))"

named_theorems reads

lemma reading_refl: "reading rq r r"
  by (simp add: reading_def)

lemma reading_trans: "reading rq r s \<Longrightarrow> reading rq s t \<Longrightarrow> reading rq r t"
  by (auto simp: reading_def)

lemma reading_world: "reading rq r (r\<lparr>run_world := w, run_etag := e\<rparr>)" "reading rq r (r\<lparr>run_world := w\<rparr>)"
  by (simp_all add: reading_def)

lemma reading_call:
  assumes "\<not> changing c"
  shows "reading rq r (snd (call_client co (RequestCluster rq) c r))"
  using assms by (auto simp: call_client_def reading_def split: prod.split sum.split)

lemma reads_onlyD: "reads_only rq fn \<Longrightarrow> fn r = (a, r') \<Longrightarrow> reading rq r r'"
  by (metis reads_only_def snd_conv)

lemma reads_onlyI: "(\<And>r a r'. fn r = (a, r') \<Longrightarrow> reading rq r r') \<Longrightarrow> reads_only rq fn"
  by (metis reads_only_def prod.collapse)

lemma reads_finish [reads]: "reads_only rq (finish s d m)"
  by (simp add: reads_only_def finish_def reading_refl)

lemma reads_refuse [reads]: "reads_only rq (refuse p)"
  by (simp add: reads_only_def refuse_def reading_refl)

lemma reads_return [reads]: "reads_only rq (\<lambda>r. (a, r))"
  by (simp add: reads_only_def reading_refl)

lemma reads_client [reads]:
  assumes "\<not> changing c" "\<And>e. reads_only rq (f e)" "\<And>v. reads_only rq (g v)"
  shows "reads_only rq (\<lambda>r. case call_client co (RequestCluster rq) c r of (Inl e, r') \<Rightarrow> f e r' | (Inr v, r') \<Rightarrow> g v r')"
proof (rule reads_onlyI)
  fix r a r'
  assume r: "(case call_client co (RequestCluster rq) c r of (Inl e, r') \<Rightarrow> f e r' | (Inr v, r') \<Rightarrow> g v r') = (a, r')"
  obtain v r1 where v: "call_client co (RequestCluster rq) c r = (v, r1)" by fastforce
  then have "reading rq r r1" using reading_call [OF assms(1), of rq r co] by simp
  moreover have "reading rq r1 r'"
    using r v assms(2,3) by (auto split: sum.splits dest: reads_onlyD)
  ultimately show "reading rq r r'" by (rule reading_trans)
qed

lemma reads_ask [reads]:
  assumes "\<not> changing c" "\<And>v. reads_only rq (k v)"
  shows "reads_only rq (ask co rq c bad k)"
  unfolding ask_def by (intro reads assms)

lemma reads_last_seq [reads]:
  assumes "\<And>n. reads_only rq (k n)"
  shows "reads_only rq (with_last_seq co rq stream k)"
  unfolding with_last_seq_def by (intro reads assms) simp

lemma reads_executor:
  assumes "reads_only rq fn" "WithExecutor co cid fn r = (a, r')"
  shows "reading rq r r'"
proof (cases "ac_session co cid (run_world r)")
  case (Pair e w)
  show ?thesis
  proof (cases e)
    case None
    then have "fn (r\<lparr>run_world := w, run_etag := []\<rparr>) = (a, r')" using assms(2) Pair by (simp add: WithExecutor_def)
    then show ?thesis using reading_trans [OF reading_world(1) reads_onlyD [OF assms(1)]] by blast
  next
    case (Some x)
    then have "r' = r\<lparr>run_world := w\<rparr>" using assms(2) Pair by (auto simp: WithExecutor_def)
    then show ?thesis by (simp add: reading_world(2))
  qed
qed

lemma reads_Action [reads]:
  assumes "reads_only rq fn"
  shows "reads_only rq (Action co rq fn)"
proof (rule reads_onlyI)
  fix r a r' assume r: "Action co rq fn r = (a, r')"
  obtain x r1 where x: "WithExecutor co (RequestCluster rq) fn r = (x, r1)" by fastforce
  have "r' = r1" using r x by (auto simp: Action_def Let_def split: answered.splits prod.splits if_splits)
  then show "reading rq r r'" using reads_executor [OF assms x] by simp
qed

lemma reads_pass [reads]: "\<not> changing c \<Longrightarrow> reads_only rq (pass_on co rq c bad s)"
  by (simp add: pass_on_def reads)

lemma reads_if [reads]: "(b \<Longrightarrow> reads_only rq f) \<Longrightarrow> (\<not> b \<Longrightarrow> reads_only rq g) \<Longrightarrow> reads_only rq (if b then f else g)"
  by simp

lemma reads_option [reads]:
  "(x = None \<Longrightarrow> reads_only rq f) \<Longrightarrow> (\<And>y. x = Some y \<Longrightarrow> reads_only rq (g y)) \<Longrightarrow>
     reads_only rq (case x of None \<Rightarrow> f | Some y \<Rightarrow> g y)"
  by (cases x) auto

lemma reads_prod [reads]: "(\<And>a b. x = (a, b) \<Longrightarrow> reads_only rq (f a b)) \<Longrightarrow> reads_only rq (case x of (a, b) \<Rightarrow> f a b)"
  by (cases x) auto

text \<open>Listing page after page reads.\<close>

lemma pages_read:
  assumes "list_pages co cid v rd offset out r = Some y" "cid = RequestCluster rq"
  shows "reading rq r (snd y)"
  using assms
proof (induction rule: list_pages.raw_induct [rotated -1, consumes 1, case_names step])
  case (step loop co cid v rd offset out r y)
  obtain x r1 where x: "call_client co cid (View (v offset)) r = (x, r1)" by fastforce
  have r1: "reading rq r r1" using reading_call [of "View (v offset)" rq r co] x step(3) by simp
  show ?case
  proof (cases x)
    case (Inl e)
    then show ?thesis using step(2) x r1 by auto
  next
    case (Inr answer)
    obtain page n where page: "rd answer = (page, n)" by fastforce
    show ?thesis
    proof (cases "page = [] \<or> offset + int (length page) \<ge> n")
      case True
      then show ?thesis using step(2) x r1 Inr page by (auto simp: Let_def)
    next
      case False
      then have "loop co cid v rd (offset + int (length page)) (out @ page) r1 = Some y"
        using step(2) x Inr page by (auto simp: Let_def)
      from step(1) [OF this step(3)] show ?thesis by (rule reading_trans [OF r1])
    qed
  qed
qed

lemma reads_impact [reads]: "reads_only rq (h_GetStreamImpact co rq)"
proof -
  have streams: "reading rq r r'" if "blastRadiusStreams co (RequestCluster rq) r = Some (a, r')" for r r' a
  proof -
    have "r' = r \<or> (\<exists>y. listAllStreams co (RequestCluster rq) blastRadiusPageSize r = Some y \<and> snd y = r')"
      using that by (auto simp: blastRadiusStreams_def Let_def split: if_splits option.splits list.splits)
    then show ?thesis using pages_read [OF _ refl] reading_refl unfolding listAllStreams_def Let_def by metis
  qed
  have consumers: "reading rq r r'"
    if "listAllConsumers co (RequestCluster rq) s n r = Some (a, r')" for s n r r' a
    using pages_read [OF that [unfolded listAllConsumers_def Let_def] refl] by simp
  have tail: "reads_only rq (\<lambda>r.
      (case listAllConsumers co (RequestCluster rq) s n r of
         None \<Rightarrow> (Loops, r)
       | Some (Inl e, r') \<Rightarrow> (Fails 0 (FromNats e), r')
       | Some (Inr cs, r') \<Rightarrow>
           (case blastRadiusStreams co (RequestCluster rq) r' of
              None \<Rightarrow> (Loops, r')
            | Some (Inl e, r'') \<Rightarrow> (Fails 0 (FromNats e), r'')
            | Some (Inr ss, r'') \<Rightarrow> k cs ss r'')))"
    if k: "\<And>cs ss. reads_only rq (k cs ss)" for s n k
  proof (rule reads_onlyI, goal_cases)
    case (1 r a r')
    show ?case
    proof (cases "listAllConsumers co (RequestCluster rq) s n r")
      case (Some y)
      then obtain x r1 where x: "listAllConsumers co (RequestCluster rq) s n r = Some (x, r1)" by (cases y) auto
      note r1 = consumers [OF this]
      show ?thesis
      proof (cases "blastRadiusStreams co (RequestCluster rq) r1")
        case (Some z)
        then obtain w r2 where w: "blastRadiusStreams co (RequestCluster rq) r1 = Some (w, r2)" by (cases z) auto
        note r2 = reading_trans [OF r1 streams [OF this]]
        show ?thesis
          using 1 x w r1 r2 k by (auto split: sum.splits intro: reading_trans dest: reads_onlyD)
      qed (use 1 x r1 in \<open>auto split: sum.splits\<close>)
    qed (use 1 in \<open>auto simp: reading_refl\<close>)
  qed
  have shown: "reads_only rq (\<lambda>r. case v of
      RStream i \<Rightarrow> finish StatusOK (f i) None r | _ \<Rightarrow> finish StatusOK d None r)" for v d f
    by (cases v) (simp_all add: reads)
  show ?thesis
    unfolding h_GetStreamImpact_def Let_def
    by (intro reads tail shown) simp
qed

lemma reads_dry_run [reads]: "reads_only rq (h_ReplayConsumerDryRun co rq)"
  unfolding h_ReplayConsumerDryRun_def with_replay_def
  apply (intro reads)
      apply simp_all
  subgoal for req vs vc
    by (cases vs; cases vc) (auto simp: reads_only_def finish_def reading_refl split: sum.split)
  done

lemma reads_capsule [reads]: "(\<And>i b. \<not> changing (Forward (f i b))) \<Longrightarrow> reads_only rq (capsule_call co rq f)"
  unfolding capsule_call_def Let_def by (intro reads)

lemma reads_fingerprint [reads]: "reads_only rq (h_GetBehaviorFingerprint co rq)"
proof -
  have tail: "reads_only rq (\<lambda>r. case x of None \<Rightarrow> f r | Some raw \<Rightarrow> g raw r)"
    if "reads_only rq f" "\<And>raw. reads_only rq (g raw)" for x f g
    using that by (cases x) simp_all
  have branch: "reads_only rq (\<lambda>r. if b then f r else g r)" if "reads_only rq f" "reads_only rq g" for b f g
    using that by (cases b) simp_all
  show ?thesis unfolding h_GetBehaviorFingerprint_def Let_def by (intro reads tail branch) simp
qed

text \<open>Every handler reads only, or is one of those that change.\<close>

lemma handlers_read:
  "list_all (\<lambda>(name, h). name \<in> set change_names \<or> reads_only rq (h co rq)) js_handlers"
proof -
  have a: "reads_only rq (h_AccountInfo co rq)" "reads_only rq (h_ListStreams co rq)" "reads_only rq (h_GetStream co rq)"
    "reads_only rq (h_ListConsumers co rq)" "reads_only rq (h_GetConsumer co rq)"
    unfolding h_AccountInfo_def h_ListStreams_def h_GetStream_def h_ListConsumers_def h_GetConsumer_def Let_def
    by (intro reads; simp)+
  have b: "reads_only rq (h_GetMessage co rq)" "reads_only rq (h_GetMessageRange co rq)"
    "reads_only rq (h_ListDLQMessages co rq)" "reads_only rq (h_ListIncidentCapsules co rq)"
    "reads_only rq (h_GetIncidentCapsule co rq)" "reads_only rq (h_ReplayIncidentCapsuleDryRun co rq)"
    unfolding h_GetMessage_def h_GetMessageRange_def h_ListDLQMessages_def h_ListIncidentCapsules_def
      h_GetIncidentCapsule_def h_ReplayIncidentCapsuleDryRun_def Let_def
    by (intro reads; simp)+
  have c: "reads_only rq (h_ListKVBuckets co rq)" "reads_only rq (h_GetKVBucket co rq)"
    "reads_only rq (h_ListKVKeys co rq)" "reads_only rq (h_GetKVEntry co rq)" "reads_only rq (h_KVHistory co rq)"
    "reads_only rq (h_ListObjectBuckets co rq)" "reads_only rq (h_GetObjectBucket co rq)"
    "reads_only rq (h_ListObjects co rq)" "reads_only rq (h_GetObject co rq)"
    unfolding h_ListKVBuckets_def h_GetKVBucket_def h_ListKVKeys_def h_GetKVEntry_def h_KVHistory_def
      h_ListObjectBuckets_def h_GetObjectBucket_def h_ListObjects_def h_GetObject_def list_names_def
    by (intro reads; simp)+
  note rest = reads_impact [of rq co] reads_dry_run [of rq co] reads_fingerprint [of rq co]
  show ?thesis
    unfolding js_handlers_def list.pred_inject prod.case
    by (intro conjI)
      ((rule disjI2, rule a b c rest) |
       (rule disjI1, simp only: change_names_def list.set insert_iff refl simp_thms) |
       simp only: list.pred_inject)+
qed

section \<open>Changing\<close>

definition changes :: "(string \<times> payload call \<times> bool) list \<Rightarrow> (string \<times> payload call \<times> bool) list" where
  "changes l = filter (\<lambda>(_, k, _). changing k) l"

text \<open>
  What a handler that changes answers and does: the calls stay in the cluster, a change on what the route
  names; it answers with an error and has changed nothing, or well after one change, which drops the
  snapshot if it is one of those.
\<close>

definition answered :: "JsRequest \<Rightarrow> ('w, 'q) Run \<Rightarrow> 'o response \<times> ('w, 'q) Run \<Rightarrow> bool" where
  "answered rq r p \<longleftrightarrow>
     (case p of (a, r') \<Rightarrow>
       (\<exists>l. run_log r' = run_log r @ l \<and>
         list_all (\<lambda>(c, k, _). c = RequestCluster rq \<and> (changing k \<longrightarrow> on_route rq k)) l \<and>
         ((\<exists>s. status_of a = Some s \<and> 400 \<le> s) \<and> run_hub r' = run_hub r \<and>
            (changes l = [] \<or> (\<exists>c. changes l = [(RequestCluster rq, c, False)])) \<or>
          (\<exists>s c. status_of a = Some s \<and> 200 \<le> s \<and> s < 300 \<and> changes l = [(RequestCluster rq, c, True)] \<and>
            run_hub r' = (if drops_snapshot c then hub_Invalidate (RequestCluster rq) (run_hub r) else run_hub r)))))"

named_theorems answers

lemma answered_refuse [answers]: "answered rq r (refuse p r)"
  by (simp add: answered_def refuse_def changes_def StatusBadRequest_def)

lemma MapNATSErrorStatus_bad: "b = 0 \<or> 400 \<le> b \<Longrightarrow> 400 \<le> MapNATSErrorStatus err b"
  by (auto simp: MapNATSErrorStatus_def status_defs more_status_defs)

lemma WriteNATSError_status: "fst (WriteNATSError s err) = s"
  by (simp add: WriteNATSError_def Let_def)

text \<open>What follows the change in a handler: only reads without a view, and the snapshot dropped if it is to be.\<close>

definition tail_ok :: "JsRequest \<Rightarrow> payload call \<Rightarrow> ('w, 'q, 'o) action \<Rightarrow> bool" where
  "tail_ok rq c k \<longleftrightarrow>
     (\<forall>r. \<exists>d m s r' l. k r = (Answers d m s, r') \<and> (s = 0 \<or> 200 \<le> s \<and> s < 300) \<and> run_etag r' = run_etag r \<and>
        run_log r' = run_log r @ l \<and> list_all (\<lambda>(c, k, _). c = RequestCluster rq \<and> \<not> changing k) l \<and>
        run_hub r' = (if drops_snapshot c then hub_Invalidate (RequestCluster rq) (run_hub r) else run_hub r))"

lemma changes_call_reads:
  assumes "changing c" "list_all (\<lambda>(c, k, _). c = cid \<and> \<not> changing k) l"
  shows "changes ((cid, c, b) # l) = [(cid, c, b)]"
  using assms by (auto simp: changes_def list_all_iff filter_empty_conv)

lemma change_executed:
  assumes "changing c" "\<And>v. tail_ok rq c (k v)"
  obtains
    (session) e w where "WithExecutor co (RequestCluster rq) (ask co rq c bad k) r = (Fails 0 (FromNats e), r\<lparr>run_world := w\<rparr>)"
  | (failed) e r' where "WithExecutor co (RequestCluster rq) (ask co rq c bad k) r = (Fails bad (FromNats e), r')"
      "run_log r' = run_log r @ [(RequestCluster rq, c, False)]" "run_hub r' = run_hub r"
  | (success) d m s r' l where "WithExecutor co (RequestCluster rq) (ask co rq c bad k) r = (Answers d m s, r')"
      "s = 0 \<or> 200 \<le> s \<and> s < 300" "run_etag r' = []" "run_log r' = run_log r @ (RequestCluster rq, c, True) # l"
      "list_all (\<lambda>(c, k, _). c = RequestCluster rq \<and> \<not> changing k) l"
      "run_hub r' = (if drops_snapshot c then hub_Invalidate (RequestCluster rq) (run_hub r) else run_hub r)"
proof -
  let ?cid = "RequestCluster rq"
  obtain e w where s: "ac_session co ?cid (run_world r) = (e, w)" by fastforce
  show ?thesis
  proof (cases e)
    case (Some x)
    then show ?thesis using session s by (simp add: WithExecutor_def)
  next
    case None
    let ?r = "r\<lparr>run_world := w, run_etag := []\<rparr>"
    obtain a w' where a: "ac_call co ?cid c w = (a, w')" by fastforce
    show ?thesis
    proof (cases a)
      case (Inl x)
      then show ?thesis
        using failed [of x "?r\<lparr>run_world := w', run_log := run_log r @ [(?cid, c, False)]\<rparr>"] s None a
        by (simp add: WithExecutor_def ask_def call_client_def)
    next
      case (Inr y)
      obtain v tag where y: "y = (v, tag)" by fastforce
      let ?r' = "r\<lparr>run_world := w', run_etag := [], run_log := run_log r @ [(?cid, c, True)]\<rparr>"
      have "\<not> (\<exists>u. c = View u)" using assms(1) by auto
      then have "WithExecutor co ?cid (ask co rq c bad k) r = k v ?r'"
        using s None a Inr y by (cases c) (simp_all add: WithExecutor_def ask_def call_client_def)
      moreover obtain d m st r2 l where "k v ?r' = (Answers d m st, r2)" "st = 0 \<or> 200 \<le> st \<and> st < 300"
          "run_etag r2 = run_etag ?r'" "run_log r2 = run_log ?r' @ l"
          "list_all (\<lambda>(c, k, _). c = ?cid \<and> \<not> changing k) l"
          "run_hub r2 = (if drops_snapshot c then hub_Invalidate ?cid (run_hub ?r') else run_hub ?r')"
        using assms(2) [of v] unfolding tail_ok_def by blast
      ultimately show ?thesis using success [of d m st r2 l] by simp
    qed
  qed
qed

lemma answered_Action [answers]:
  assumes "changing c" "on_route rq c" "\<And>v. tail_ok rq c (k v)" "400 \<le> bad"
  shows "answered rq r (Action co rq (ask co rq c bad k) r)"
proof (rule change_executed [where co = co and bad = bad and r = r and k = k, OF assms(1,3)], goal_cases session failed success)
  case (session e w)
  then show ?case
    using MapNATSErrorStatus_bad [of 0 "FromNats e"]
    by (simp add: Action_def answered_def changes_def WriteNATSError_status [symmetric] split: prod.split)
      (metis fst_conv WriteNATSError_status)
next
  case (failed e r')
  then show ?case
    using MapNATSErrorStatus_bad [of bad "FromNats e"] assms
    by (simp add: Action_def answered_def changes_def split: prod.split)
      (metis fst_conv WriteNATSError_status)
next
  case (success d m s r' l)
  have "list_all (\<lambda>(c, k, _). c = RequestCluster rq \<and> (changing k \<longrightarrow> on_route rq k)) l"
    using success(5) by (auto simp: list_all_iff)
  with success assms changes_call_reads [OF assms(1) success(5)] show ?case
    by (auto simp: Action_def answered_def Let_def StatusOK_def IsEmpty_def)
qed

lemma answered_Void [answers]:
  assumes "changing c" "on_route rq c" "\<And>v. tail_ok rq c (k v)" "400 \<le> bad"
  shows "answered rq r (Void co rq (ask co rq c b k) bad r)"
proof (rule change_executed [where co = co and bad = b and r = r and k = k, OF assms(1,3)], goal_cases session failed success)
  case (session e w)
  then show ?case
    using MapNATSErrorStatus_bad [of bad "FromNats e"] assms(4)
    by (simp add: Void_def answered_def changes_def split: prod.split)
      (metis fst_conv WriteNATSError_status)
next
  case (failed e r')
  then show ?case
    using MapNATSErrorStatus_bad [of bad "FromNats e"] assms
    by (simp add: Void_def answered_def changes_def split: prod.split)
      (metis fst_conv WriteNATSError_status)
next
  case (success d m s r' l)
  have "list_all (\<lambda>(c, k, _). c = RequestCluster rq \<and> (changing k \<longrightarrow> on_route rq k)) l"
    using success(5) by (auto simp: list_all_iff)
  with success assms changes_call_reads [OF assms(1) success(5)] show ?case
    by (auto simp: Void_def answered_def StatusNoContent_def)
qed

text \<open>Configurations keep the name that was asked for.\<close>

lemma bind_ok_result: "bind_ok x f = Inr y \<longleftrightarrow> (\<exists>a. x = Inr a \<and> f a = Inr y)"
  by (cases x) (simp_all add: bind_ok_def)

lemma config_names:
  "stream_toNATS L r = Inr c \<Longrightarrow> nc_Name c = rs_Name r"
  "consumer_toNATS L rc = Inr cc \<Longrightarrow> cf_Durable cc = rc_DurableName rc"
  "toKVConfig L rk = Inr kc \<Longrightarrow> kv_Bucket kc = rk_Bucket rk"
  "toObjectConfig L ro = Inr oc \<Longrightarrow> ob_Bucket oc = ro_Bucket ro"
  subgoal by (auto simp: stream_toNATS_def bind_ok_result stream_config_def Let_def)
  subgoal by (auto simp: consumer_toNATS_def bind_ok_result consumer_config_def split: option.splits)
  subgoal by (auto simp: toKVConfig_def bind_ok_result Let_def split: if_splits)
  subgoal by (auto simp: toObjectConfig_def bind_ok_result Let_def split: if_splits)
  done

definition answers_well :: "JsRequest \<Rightarrow> (('w, 'q) Run \<Rightarrow> 'o response \<times> ('w, 'q) Run) \<Rightarrow> bool" where
  "answers_well rq fn \<longleftrightarrow> (\<forall>r. answered rq r (fn r))"

lemma tail_keep: "\<not> drops_snapshot c \<Longrightarrow> s = 0 \<or> 200 \<le> s \<and> s < 300 \<Longrightarrow> tail_ok rq c (finish s d m)"
  by (simp add: tail_ok_def finish_def)

lemma tail_drop:
  "drops_snapshot c \<Longrightarrow> s = 0 \<or> 200 \<le> s \<and> s < 300 \<Longrightarrow> tail_ok rq c (\<lambda>r. finish s d m (InvalidateSnapshot rq r))"
  by (simp add: tail_ok_def finish_def InvalidateSnapshot_def)

lemma tail_last_seq:
  assumes "drops_snapshot c" "s = 0 \<or> 200 \<le> s \<and> s < 300"
  shows "tail_ok rq c (\<lambda>r. with_last_seq co rq stream (\<lambda>n. finish s (f n) m) (InvalidateSnapshot rq r))"
  using assms
  by (auto simp: tail_ok_def with_last_seq_def finish_def InvalidateSnapshot_def call_client_def split: prod.split sum.split)

lemma answers_calls:
  assumes "changing c" "on_route rq c"
  shows "\<not> drops_snapshot c \<Longrightarrow> 400 \<le> bad \<Longrightarrow> s = 0 \<or> 200 \<le> s \<and> s < 300 \<Longrightarrow> answers_well rq (pass_on co rq c bad s)"
    "c = Change ch \<Longrightarrow> drops_snapshot c \<Longrightarrow> s = 0 \<or> 200 \<le> s \<and> s < 300 \<Longrightarrow> answers_well rq (put_stream co rq ch s)"
    "c = Change ch \<Longrightarrow> drops_snapshot c \<Longrightarrow> s = 0 \<or> 200 \<le> s \<and> s < 300 \<Longrightarrow> answers_well rq (put_consumer co rq stream ch s)"
    "c = Change ch \<Longrightarrow> drops_snapshot c \<Longrightarrow> answers_well rq (void_drop co rq ch)"
    "c = Change ch \<Longrightarrow> \<not> drops_snapshot c \<Longrightarrow> answers_well rq (void_keep co rq ch)"
  using assms unfolding answers_well_def pass_on_def put_stream_def put_consumer_def void_drop_def void_keep_def
  by (auto intro!: answered_Action answered_Void tail_keep tail_drop tail_last_seq simp: StatusBadRequest_def)

lemma answers_structure [answers]:
  "answers_well rq (refuse p)"
  "(b \<Longrightarrow> answers_well rq f) \<Longrightarrow> (\<not> b \<Longrightarrow> answers_well rq g) \<Longrightarrow> answers_well rq (if b then f else g)"
  "(x = None \<Longrightarrow> answers_well rq f) \<Longrightarrow> (\<And>y. x = Some y \<Longrightarrow> answers_well rq (h y)) \<Longrightarrow>
     answers_well rq (case x of None \<Rightarrow> f | Some y \<Rightarrow> h y)"
  "(\<And>e. z = Inl e \<Longrightarrow> answers_well rq (k e)) \<Longrightarrow> (\<And>y. z = Inr y \<Longrightarrow> answers_well rq (h' y)) \<Longrightarrow>
     answers_well rq (case z of Inl e \<Rightarrow> k e | Inr y \<Rightarrow> h' y)"
  subgoal by (simp add: answers_well_def answers)
  subgoal by simp
  subgoal by (cases x) simp_all
  subgoal by (cases z) simp_all
  done

lemmas answer_simps = on_route_def drops_snapshot_def status_defs more_status_defs kv_bucket_def durable_def
  stream_name_def config_names IsEmpty_def

lemma handlers_change_streams:
  "answers_well rq (h_CreateStream co rq)" "answers_well rq (h_UpdateStream co rq)"
  "answers_well rq (h_DeleteStream co rq)" "answers_well rq (h_PurgeStream co rq)"
  "answers_well rq (h_CreateConsumer co rq)" "answers_well rq (h_UpdateConsumer co rq)"
  "answers_well rq (h_DeleteConsumer co rq)" "answers_well rq (h_ReplayConsumer co rq)"
  unfolding h_CreateStream_def h_UpdateStream_def h_DeleteStream_def h_PurgeStream_def h_CreateConsumer_def
    h_UpdateConsumer_def h_DeleteConsumer_def h_ReplayConsumer_def with_replay_def Let_def
    pass_on_def [symmetric]
  by (intro answers answers_calls(1) answers_calls(2-5) [OF _ _ refl]; force simp: answer_simps)+

lemma handlers_change_messages:
  "answers_well rq (h_PublishMessage co rq)" "answers_well rq (h_RetryDLQMessages co rq)"
  "answers_well rq (h_CaptureIncidentCapsule co rq)" "answers_well rq (h_CaptureIncidentCapsuleFromDLQ co rq)"
  unfolding h_PublishMessage_def h_RetryDLQMessages_def h_CaptureIncidentCapsule_def
    h_CaptureIncidentCapsuleFromDLQ_def Let_def
  by (intro answers answers_calls(1); force simp: answer_simps)+

lemma handlers_change_buckets:
  "answers_well rq (h_CreateKVBucket co rq)" "answers_well rq (h_UpdateKVBucket co rq)"
  "answers_well rq (h_DeleteKVBucket co rq)" "answers_well rq (h_PutKVEntry co rq)"
  "answers_well rq (h_DeleteKVEntry co rq)" "answers_well rq (h_CreateObjectBucket co rq)"
  "answers_well rq (h_UpdateObjectBucket co rq)" "answers_well rq (h_DeleteObjectBucket co rq)"
  "answers_well rq (h_PutObject co rq)" "answers_well rq (h_DeleteObject co rq)"
  unfolding h_CreateKVBucket_def h_UpdateKVBucket_def h_DeleteKVBucket_def h_PutKVEntry_def h_DeleteKVEntry_def
    h_CreateObjectBucket_def h_UpdateObjectBucket_def h_DeleteObjectBucket_def h_PutObject_def h_DeleteObject_def Let_def
  by (intro answers answers_calls(1) answers_calls(5) [OF _ _ refl]; force simp: answer_simps)+

lemma handlers_change:
  "list_all (\<lambda>(name, h). name \<in> set change_names \<longrightarrow> answers_well rq (h co rq)) js_handlers"
  unfolding js_handlers_def list.pred_inject prod.case
  by (intro conjI)
    ((rule impI, rule handlers_change_streams handlers_change_messages handlers_change_buckets) |
     (simp only: list.pred_inject) | (simp add: change_names_def))+

section \<open>Routes\<close>

lemma get_routes: "list_all (\<lambda>(m, _, name). m = ''GET'' \<longrightarrow> name \<notin> set change_names) routes"
  by code_simp



section \<open>All pages\<close>

text \<open>A server whose lists stay as they are while they are listed.\<close>

definition steady ::
  "('w, 'o) Core \<Rightarrow> string \<Rightarrow> string \<Rightarrow> natsStreamInfo \<Rightarrow> natsConsumerInfo list \<Rightarrow> natsStreamInfo list \<Rightarrow> bool" where
  "steady co cid name i cs ss \<longleftrightarrow>
     (\<forall>w. ac_session co cid w = (None, w)) \<and>
     (\<forall>w. \<exists>tag. ac_call co cid (Forward (GetStreamInfo name)) w = (Inr (RStream i, tag), w)) \<and>
     (\<forall>k w. \<exists>tag. ac_call co cid (View (ListConsumers name (int k) blastRadiusPageSize)) w =
        (Inr (RConsumers (take (nat blastRadiusPageSize) (drop k cs)) (int (length cs)), tag), w)) \<and>
     (\<forall>k w. \<exists>tag. ac_call co cid (View (ListStreams (int k) blastRadiusPageSize)) w =
        (Inr (RStreams (take (nat blastRadiusPageSize) (drop k ss)) (int (length ss)), tag), w))"

lemma list_pages_all:
  assumes call: "\<And>k w. \<exists>tag. ac_call co cid (View (v (int k))) w = (Inr (answer k, tag), w)"
    and page: "\<And>k. rd (answer k) = (take n (drop k xs), int (length xs))" and n: "0 < n"
  shows "k \<le> length xs \<Longrightarrow> \<exists>r'. list_pages co cid v rd (int k) (take k xs) r = Some (Inr xs, r') \<and> run_hub r' = run_hub r"
proof (induction "length xs - k" arbitrary: k r rule: less_induct)
  case less
  obtain tag where c: "ac_call co cid (View (v (int k))) (run_world r) = (Inr (answer k, tag), run_world r)"
    using call by blast
  let ?r = "r\<lparr>run_world := run_world r, run_etag := tag, run_log := run_log r @ [(cid, View (v (int k)), True)]\<rparr>"
  have cc: "call_client co cid (View (v (int k))) r = (Inr (answer k), ?r)" using c by (simp add: call_client_def)
  let ?m = "length (take n (drop k xs))"
  have out: "take k xs @ take n (drop k xs) = take (k + ?m) xs"
    by (simp add: take_add [symmetric] min_def)
  show ?case
  proof (cases "take n (drop k xs) = [] \<or> int k + int ?m \<ge> int (length xs)")
    case True
    then have "take (k + ?m) xs = xs" using n less.prems by auto
    then show ?thesis
      using True cc page [of k] out by (subst list_pages.simps) (simp add: Let_def del: length_take take_eq_Nil)
  next
    case False
    then have l: "k + ?m \<le> length xs" "length xs - (k + ?m) < length xs - k" by auto
    obtain r' where "list_pages co cid v rd (int (k + ?m)) (take (k + ?m) xs) ?r = Some (Inr xs, r')" "run_hub r' = run_hub ?r"
      using less.hyps [OF l(2,1), of ?r] by blast
    then show ?thesis
      using False cc page [of k] out by (subst list_pages.simps) (simp add: Let_def del: length_take take_eq_Nil)
  qed
qed


section \<open>Examples\<close>

definition sample_info :: "nat \<Rightarrow> natsStreamInfo" where
  "sample_info n = \<lparr>ni_Config = sample_stream_config\<lparr>nc_Name := ''s'' @ FormatUint n\<rparr>,
     ni_State = \<lparr>ss_Msgs = 0, ss_Bytes = 0, ss_FirstSeq = 0, ss_LastSeq = of_nat n, ss_Consumers = 0\<rparr>, ni_Created = 0\<rparr>"

text \<open>A server with the streams \<open>ss\<close> and no consumers, whose views carry the tag \<open>e\<close>.\<close>

definition sample_call :: "natsStreamInfo list \<Rightarrow> string \<Rightarrow> payload call \<Rightarrow> unit \<Rightarrow> (NatsErr + string js_reply \<times> string) \<times> unit" where
  "sample_call ss cid c w =
     (case c of
        View v \<Rightarrow>
          (case v of
             ListStreams k n \<Rightarrow> (Inr (RStreams (take (nat n) (drop (nat k) ss)) (int (length ss)), ''e''), w)
           | ListConsumers s k n \<Rightarrow> (Inr (RConsumers [] 0, ''e''), w)
           | _ \<Rightarrow> (Inr (RDone, ''e''), w))
      | Change ch \<Rightarrow> (Inr (RDone, []), w)
      | Forward p \<Rightarrow> (case p of GetStreamInfo s \<Rightarrow> (Inr (RStream (sample_info 7), []), w) | _ \<Rightarrow> (Inr (RDone, []), w)))"

definition sample_core :: "natsStreamInfo list \<Rightarrow> (unit, string) Core" where
  "sample_core ss = \<lparr>ac_session = (\<lambda>_ w. (None, w)), ac_call = sample_call ss, ac_lib = sample_lib, ac_scaled = (\<lambda>n. n),
     ac_thresholds = \<lparr>th_PendingThreshold = 0, th_LagThreshold = 0\<rparr>, ac_DefaultLimit = 50, ac_MaxLimit = 500,
     ac_MaxMonitoringBodyBytes = 1000, ac_BehaviorFingerprintKVBucket = [], ac_formatETag = (\<lambda>t. FormatUint (nat t)),
     ac_stream = (\<lambda>_. Some sample_stream), ac_consumer = (\<lambda>_. None), ac_replay = (\<lambda>_. None), ac_publish = (\<lambda>_. None),
     ac_retry = (\<lambda>_. None), ac_capsule = (\<lambda>_. None), ac_kv = (\<lambda>_. None), ac_object = (\<lambda>_. None), ac_value = (\<lambda>_. None),
     ac_fingerprint = (\<lambda>_. None),
     ac_topology = (\<lambda>raw. Some [[\<lparr>td_Name = raw, td_Config = Some ([], Some ''s7'', [])\<rparr>]])\<rparr>"

definition sample_request :: "string \<Rightarrow> JsRequest" where
  "sample_request tag = \<lparr>jr_Params = [(''clusterId'', ''C1''), (''name'', ''s7'')], jr_Query = [], jr_Body = [], jr_IfNoneMatch = tag\<rparr>"

definition sample_run :: "(unit, unit) Run" where
  "sample_run = \<lparr>run_world = (), run_hub = NewHub, run_etag = [], run_log = []\<rparr>"




text \<open>The stream that is updated is the one of the body, whatever the route names.\<close>

lemma update_other_stream:
  "run_log (snd (h_UpdateStream (sample_core []) (sample_request []) sample_run)) =
     [(''c1'', Change (UpdateStream (PStream sample_stream_config)), True)] \<and>
   nc_Name sample_stream_config \<noteq> RouteParam (sample_request []) ''name''"
  by code_simp

definition sample_hub :: "string \<Rightarrow> (unit, unit) Run" where
  "sample_hub topology = sample_run\<lparr>run_hub := hub_publish ''c1'' \<lparr>sn_CapturedAt = Some 1, sn_Varz = [], sn_Jsz = [],
     sn_JszTopology = topology, sn_Connz = [], sn_ProbeResults = []\<rparr> 1 NewHub\<rparr>"

text \<open>
  An impact that is shown with the streams of the snapshot carries the tag of the consumers only: after another
  snapshot the same tag is still answered with ``not modified'' although the impact is another.
\<close>

lemma impact_tag_of_consumers:
  "fst (h_GetStreamImpact (sample_core []) (sample_request []) (sample_hub ''a'')) \<noteq>
     fst (h_GetStreamImpact (sample_core []) (sample_request []) (sample_hub ''b'')) \<and>
   fst (h_GetStreamImpact (sample_core []) (sample_request ''e'') (sample_hub ''a'')) = NotModified \<and>
   fst (h_GetStreamImpact (sample_core []) (sample_request ''e'') (sample_hub ''b'')) = NotModified"
  by code_simp

end
