(* ===== verification/Configuration.thy ===== *)
theory Configuration
  imports Clusters Floats Numbers
begin

text \<open>
  The configuration (\<^verbatim>\<open>internal/config\<close>: \<^verbatim>\<open>config.go\<close>, \<^verbatim>\<open>setup.go\<close>, and the loader and the audit schema of
  \<^verbatim>\<open>config_env_gen.go\<close>), the keys of sessions (\<^verbatim>\<open>crypto/session_keys.go\<close>), and the checks made before the
  program serves (\<^verbatim>\<open>bootstrap/app.go\<close>, \<^verbatim>\<open>nats/validate.go\<close>, \<^verbatim>\<open>adapter/postgres/validate.go\<close>).

  The environment is a map; the snapshot the loader reads and \<^verbatim>\<open>os.Getenv\<close> see the same one, since the file
  \<^verbatim>\<open>.env\<close> is put into it before.  What the library \<^verbatim>\<open>env\<close> does is the record \<open>EnvLib\<close>: when a value is empty,
  how it is parsed (an error is its text), and the error made of what was collected.
\<close>

section \<open>The settings\<close>

record HTTPConfig =
  hc_Addr :: string
  hc_WriteTimeout :: duration
  hc_ReadTimeout :: duration
  hc_IdleTimeout :: duration
  hc_MaxRequestBodySize :: int
  hc_ResponseCompression :: bool

record DBConfig =
  dc_URL :: string
  dc_MaxConnLifetime :: duration
  dc_HealthCheckPeriod :: duration
  dc_MaxConnIdleTime :: duration
  dc_MaxConns :: int
  dc_MinConns :: int

record NATSConfig =
  ntc_URL :: string
  ntc_CredsFile :: string
  ntc_Token :: string
  ntc_AccountSeed :: string
  ntc_MonitoringURL :: string
  ntc_TlsCAFile :: string
  ntc_TlsCertFile :: string
  ntc_TlsKeyFile :: string
  ntc_TlsServerName :: string
  ntc_ClientCacheTTL :: duration
  ntc_InitialRetryAttempts :: int
  ntc_MaxReconnect :: int
  ntc_ReconnectWait :: duration
  ntc_AllowReconnect :: bool
  ntc_TlsInsecureSkipVerify :: bool
  ntc_DontRandomize :: bool
  ntc_AllowMetrics :: bool
  ntc_AllowTracing :: bool

record AIConfig =
  aic_GeminiAPIBase :: string
  aic_Model :: string
  aic_APIKey :: string
  aic_ContextCacheTTL :: duration
  aic_RequestTimeout :: duration
  aic_MaxTokens :: int
  aic_Enabled :: bool

record SMTPConfig =
  smc_From :: string
  smc_Password :: string
  smc_Username :: string
  smc_Host :: string
  smc_Port :: int
  smc_Timeout :: duration
  smc_Enabled :: bool
  smc_TLS :: bool

record AuthConfig =
  auc_SessionPrivateKey :: string
  auc_SessionPublicKey :: string
  auc_SessionTTL :: duration
  auc_RefreshTokenTTL :: duration
  auc_RateLimitWindow :: duration
  auc_RateLimit :: int

record LiveWSConfig =
  lwc_IdleTimeout :: duration
  lwc_RateLimit :: duration
  lwc_MaxMessages :: int
  lwc_PayloadTruncateBytes :: int

record MetricsSnapshotConfig =
  msc_Interval :: duration
  msc_Retention :: duration
  msc_BottleneckRetention :: duration
  msc_CleanupInterval :: duration

record PprofConfig =
  ppc_CPUMaxSeconds :: int
  ppc_AuthEnabled :: bool
  ppc_Enabled :: bool

record SlowConsumerConfig =
  slc_PendingThreshold :: u64
  slc_LagThreshold :: u64
  slc_AckPendingRatio :: float64

record PaginationConfig =
  pgc_MaxLimit :: int
  pgc_DefaultLimit :: int

record Config =
  cfg_ProjectName :: string
  cfg_HTTP :: HTTPConfig
  cfg_DB :: DBConfig
  cfg_NATS :: NATSConfig
  cfg_AI :: AIConfig
  cfg_SMTP :: SMTPConfig
  cfg_Auth :: AuthConfig
  cfg_LiveWS :: LiveWSConfig
  cfg_MetricsSnapshot :: MetricsSnapshotConfig
  cfg_Pprof :: PprofConfig
  cfg_SlowConsumer :: SlowConsumerConfig
  cfg_Pagination :: PaginationConfig
  cfg_EncryptionKey :: string
  cfg_StaticDir :: string
  cfg_AdminUsername :: string
  cfg_AdminPassword :: string
  cfg_PublicBaseURL :: string
  cfg_DefaultClusterName :: string
  cfg_CORSAllowedOrigins :: string
  cfg_TrustedProxies :: string
  cfg_BehaviorFingerprintKVBucket :: string
  cfg_RequestTimeout :: duration
  cfg_LookBackDuration :: duration
  cfg_HealthCheckTimeout :: duration
  cfg_JetStreamViewCacheTTL :: duration
  cfg_InviteTTL :: duration
  cfg_MaxMonitoringBodyBytes :: int
  cfg_AuditDefaultLimit :: int
  cfg_MetricsAuthEnabled :: bool

text \<open>The zero values.\<close>

definition zero_HTTPConfig :: HTTPConfig where
  "zero_HTTPConfig =
    \<lparr>hc_Addr = [], hc_WriteTimeout = 0, hc_ReadTimeout = 0, hc_IdleTimeout = 0,
      hc_MaxRequestBodySize = 0, hc_ResponseCompression = False\<rparr>"

definition zero_DBConfig :: DBConfig where
  "zero_DBConfig =
    \<lparr>dc_URL = [], dc_MaxConnLifetime = 0, dc_HealthCheckPeriod = 0, dc_MaxConnIdleTime = 0,
      dc_MaxConns = 0, dc_MinConns = 0\<rparr>"

definition zero_NATSConfig :: NATSConfig where
  "zero_NATSConfig =
    \<lparr>ntc_URL = [], ntc_CredsFile = [], ntc_Token = [], ntc_AccountSeed = [], ntc_MonitoringURL = [],
      ntc_TlsCAFile = [], ntc_TlsCertFile = [], ntc_TlsKeyFile = [], ntc_TlsServerName = [],
      ntc_ClientCacheTTL = 0, ntc_InitialRetryAttempts = 0, ntc_MaxReconnect = 0, ntc_ReconnectWait = 0,
      ntc_AllowReconnect = False, ntc_TlsInsecureSkipVerify = False, ntc_DontRandomize = False,
      ntc_AllowMetrics = False, ntc_AllowTracing = False\<rparr>"

definition zero_AIConfig :: AIConfig where
  "zero_AIConfig =
    \<lparr>aic_GeminiAPIBase = [], aic_Model = [], aic_APIKey = [], aic_ContextCacheTTL = 0,
      aic_RequestTimeout = 0, aic_MaxTokens = 0, aic_Enabled = False\<rparr>"

definition zero_SMTPConfig :: SMTPConfig where
  "zero_SMTPConfig =
    \<lparr>smc_From = [], smc_Password = [], smc_Username = [], smc_Host = [], smc_Port = 0, smc_Timeout = 0,
      smc_Enabled = False, smc_TLS = False\<rparr>"

definition zero_AuthConfig :: AuthConfig where
  "zero_AuthConfig =
    \<lparr>auc_SessionPrivateKey = [], auc_SessionPublicKey = [], auc_SessionTTL = 0,
      auc_RefreshTokenTTL = 0, auc_RateLimitWindow = 0, auc_RateLimit = 0\<rparr>"

definition zero_LiveWSConfig :: LiveWSConfig where
  "zero_LiveWSConfig =
    \<lparr>lwc_IdleTimeout = 0, lwc_RateLimit = 0, lwc_MaxMessages = 0, lwc_PayloadTruncateBytes = 0\<rparr>"

definition zero_MetricsSnapshotConfig :: MetricsSnapshotConfig where
  "zero_MetricsSnapshotConfig =
    \<lparr>msc_Interval = 0, msc_Retention = 0, msc_BottleneckRetention = 0, msc_CleanupInterval = 0\<rparr>"

definition zero_PprofConfig :: PprofConfig where
  "zero_PprofConfig =
    \<lparr>ppc_CPUMaxSeconds = 0, ppc_AuthEnabled = False, ppc_Enabled = False\<rparr>"

definition zero_SlowConsumerConfig :: SlowConsumerConfig where
  "zero_SlowConsumerConfig =
    \<lparr>slc_PendingThreshold = 0, slc_LagThreshold = 0, slc_AckPendingRatio = Fin 0\<rparr>"

definition zero_PaginationConfig :: PaginationConfig where
  "zero_PaginationConfig =
    \<lparr>pgc_MaxLimit = 0, pgc_DefaultLimit = 0\<rparr>"

definition zero_Config :: Config where
  "zero_Config =
    \<lparr>cfg_ProjectName = [], cfg_HTTP = zero_HTTPConfig, cfg_DB = zero_DBConfig,
      cfg_NATS = zero_NATSConfig, cfg_AI = zero_AIConfig, cfg_SMTP = zero_SMTPConfig,
      cfg_Auth = zero_AuthConfig, cfg_LiveWS = zero_LiveWSConfig,
      cfg_MetricsSnapshot = zero_MetricsSnapshotConfig, cfg_Pprof = zero_PprofConfig,
      cfg_SlowConsumer = zero_SlowConsumerConfig, cfg_Pagination = zero_PaginationConfig,
      cfg_EncryptionKey = [], cfg_StaticDir = [], cfg_AdminUsername = [], cfg_AdminPassword = [],
      cfg_PublicBaseURL = [], cfg_DefaultClusterName = [], cfg_CORSAllowedOrigins = [],
      cfg_TrustedProxies = [], cfg_BehaviorFingerprintKVBucket = [], cfg_RequestTimeout = 0,
      cfg_LookBackDuration = 0, cfg_HealthCheckTimeout = 0, cfg_JetStreamViewCacheTTL = 0, cfg_InviteTTL = 0,
      cfg_MaxMonitoringBodyBytes = 0, cfg_AuditDefaultLimit = 0, cfg_MetricsAuthEnabled = False\<rparr>"

section \<open>The loader\<close>

type_synonym snapshot = "string \<Rightarrow> string option"

datatype FieldError = RequiredMissing string string | ParseFailed string string string string

record EnvLib =
  el_IsEmpty :: "string \<Rightarrow> bool"
  el_ParseDuration :: "string \<Rightarrow> string + duration"
  el_ParseInt :: "string \<Rightarrow> string + int"
  el_ParseInt64 :: "string \<Rightarrow> string + int"
  el_ParseUint64 :: "string \<Rightarrow> string + u64"
  el_ParseFloat64 :: "string \<Rightarrow> string + float64"
  el_ParseBool :: "string \<Rightarrow> string + bool"
  el_NewError :: "FieldError list \<Rightarrow> string option"
  el_mask :: string

text \<open>
  The loader is a sequence of blocks, each of one of six forms.  A block reads one key, and stores a value or
  adds to the errors.
\<close>

type_synonym loading = "FieldError list \<times> Config"
type_synonym block = "loading \<Rightarrow> loading"

definition given :: "EnvLib \<Rightarrow> snapshot \<Rightarrow> string \<Rightarrow> string option" where
  "given L snap key = (case snap key of None \<Rightarrow> None | Some raw \<Rightarrow> if el_IsEmpty L raw then None else Some raw)"

definition store :: "('v \<Rightarrow> Config \<Rightarrow> Config) \<Rightarrow> string \<Rightarrow> string \<Rightarrow> string \<Rightarrow> (string + 'v) \<Rightarrow> block" where
  "store put field key raw r st =
     (case r of Inl err \<Rightarrow> (fst st @ [ParseFailed field key raw err], snd st) | Inr v \<Rightarrow> (fst st, put v (snd st)))"

definition required_text :: "EnvLib \<Rightarrow> snapshot \<Rightarrow> string \<Rightarrow> string \<Rightarrow> (string \<Rightarrow> Config \<Rightarrow> Config) \<Rightarrow> block" where
  "required_text L snap field key put st =
     (case given L snap key of
        None \<Rightarrow> (fst st @ [RequiredMissing field key], snd st)
      | Some raw \<Rightarrow> (fst st, put raw (snd st)))"

definition default_text :: "EnvLib \<Rightarrow> snapshot \<Rightarrow> string \<Rightarrow> string \<Rightarrow> (string \<Rightarrow> Config \<Rightarrow> Config) \<Rightarrow> block" where
  "default_text L snap key dflt put st =
     (case given L snap key of None \<Rightarrow> (fst st, put dflt (snd st)) | Some raw \<Rightarrow> (fst st, put raw (snd st)))"

definition optional_text :: "EnvLib \<Rightarrow> snapshot \<Rightarrow> string \<Rightarrow> (string \<Rightarrow> Config \<Rightarrow> Config) \<Rightarrow> block" where
  "optional_text L snap key put st =
     (case given L snap key of None \<Rightarrow> st | Some raw \<Rightarrow> (fst st, put raw (snd st)))"

definition required_value ::
  "EnvLib \<Rightarrow> snapshot \<Rightarrow> (string \<Rightarrow> string + 'v) \<Rightarrow> string \<Rightarrow> string \<Rightarrow> ('v \<Rightarrow> Config \<Rightarrow> Config) \<Rightarrow> block" where
  "required_value L snap parse field key put st =
     (case given L snap key of
        None \<Rightarrow> (fst st @ [RequiredMissing field key], snd st)
      | Some raw \<Rightarrow> store put field key raw (parse raw) st)"

definition default_value ::
  "EnvLib \<Rightarrow> snapshot \<Rightarrow> (string \<Rightarrow> string + 'v) \<Rightarrow> string \<Rightarrow> string \<Rightarrow> string \<Rightarrow> ('v \<Rightarrow> Config \<Rightarrow> Config) \<Rightarrow> block"
where
  "default_value L snap parse field key dflt put st =
     (case given L snap key of
        None \<Rightarrow> store put field key dflt (parse dflt) st
      | Some raw \<Rightarrow> store put field key raw (parse raw) st)"

definition optional_value ::
  "EnvLib \<Rightarrow> snapshot \<Rightarrow> (string \<Rightarrow> string + 'v) \<Rightarrow> string \<Rightarrow> string \<Rightarrow> ('v \<Rightarrow> Config \<Rightarrow> Config) \<Rightarrow> block" where
  "optional_value L snap parse field key put st =
     (case given L snap key of None \<Rightarrow> st | Some raw \<Rightarrow> store put field key raw (parse raw) st)"

definition load_top_1 :: "EnvLib \<Rightarrow> snapshot \<Rightarrow> block list" where
  "load_top_1 L snap =
    [required_text L snap ''ProjectName'' ''PROJECT_NAME''
       (\<lambda>v c. c\<lparr>cfg_ProjectName := v\<rparr>)]"

definition load_HTTP :: "EnvLib \<Rightarrow> snapshot \<Rightarrow> block list" where
  "load_HTTP L snap =
    [default_text L snap ''HTTP_ADDR'' '':8080''
       (\<lambda>v c. c\<lparr>cfg_HTTP := (cfg_HTTP c)\<lparr>hc_Addr := v\<rparr>\<rparr>),
     default_value L snap (el_ParseDuration L) ''HTTP.WriteTimeout'' ''HTTP_WRITE_TIMEOUT'' ''30s''
       (\<lambda>v c. c\<lparr>cfg_HTTP := (cfg_HTTP c)\<lparr>hc_WriteTimeout := v\<rparr>\<rparr>),
     default_value L snap (el_ParseDuration L) ''HTTP.ReadTimeout'' ''HTTP_READ_TIMEOUT'' ''10s''
       (\<lambda>v c. c\<lparr>cfg_HTTP := (cfg_HTTP c)\<lparr>hc_ReadTimeout := v\<rparr>\<rparr>),
     default_value L snap (el_ParseDuration L) ''HTTP.IdleTimeout'' ''HTTP_IDLE_TIMEOUT'' ''60s''
       (\<lambda>v c. c\<lparr>cfg_HTTP := (cfg_HTTP c)\<lparr>hc_IdleTimeout := v\<rparr>\<rparr>),
     default_value L snap (el_ParseInt L) ''HTTP.MaxRequestBodySize'' ''MAX_REQUEST_BODY_SIZE'' ''1048576''
       (\<lambda>v c. c\<lparr>cfg_HTTP := (cfg_HTTP c)\<lparr>hc_MaxRequestBodySize := v\<rparr>\<rparr>),
     default_value L snap (el_ParseBool L) ''HTTP.ResponseCompression'' ''HTTP_RESPONSE_COMPRESSION'' ''true''
       (\<lambda>v c. c\<lparr>cfg_HTTP := (cfg_HTTP c)\<lparr>hc_ResponseCompression := v\<rparr>\<rparr>)]"

definition load_DB :: "EnvLib \<Rightarrow> snapshot \<Rightarrow> block list" where
  "load_DB L snap =
    [required_text L snap ''DB.URL'' ''DATABASE_URL''
       (\<lambda>v c. c\<lparr>cfg_DB := (cfg_DB c)\<lparr>dc_URL := v\<rparr>\<rparr>),
     default_value L snap (el_ParseDuration L) ''DB.MaxConnLifetime'' ''DB_MAX_CONN_LIFETIME'' ''1h''
       (\<lambda>v c. c\<lparr>cfg_DB := (cfg_DB c)\<lparr>dc_MaxConnLifetime := v\<rparr>\<rparr>),
     default_value L snap (el_ParseDuration L) ''DB.HealthCheckPeriod'' ''DB_HEALTH_CHECK_PERIOD'' ''1m''
       (\<lambda>v c. c\<lparr>cfg_DB := (cfg_DB c)\<lparr>dc_HealthCheckPeriod := v\<rparr>\<rparr>),
     default_value L snap (el_ParseDuration L) ''DB.MaxConnIdleTime'' ''DB_MAX_CONN_IDLE_TIME'' ''30m''
       (\<lambda>v c. c\<lparr>cfg_DB := (cfg_DB c)\<lparr>dc_MaxConnIdleTime := v\<rparr>\<rparr>),
     default_value L snap (el_ParseInt L) ''DB.MaxConns'' ''DB_MAX_CONNS'' ''25''
       (\<lambda>v c. c\<lparr>cfg_DB := (cfg_DB c)\<lparr>dc_MaxConns := v\<rparr>\<rparr>),
     default_value L snap (el_ParseInt L) ''DB.MinConns'' ''DB_MIN_CONNS'' ''2''
       (\<lambda>v c. c\<lparr>cfg_DB := (cfg_DB c)\<lparr>dc_MinConns := v\<rparr>\<rparr>)]"

definition load_NATS_1 :: "EnvLib \<Rightarrow> snapshot \<Rightarrow> block list" where
  "load_NATS_1 L snap =
    [optional_text L snap ''NATS_URL''
       (\<lambda>v c. c\<lparr>cfg_NATS := (cfg_NATS c)\<lparr>ntc_URL := v\<rparr>\<rparr>),
     optional_text L snap ''NATS_CREDS_FILE''
       (\<lambda>v c. c\<lparr>cfg_NATS := (cfg_NATS c)\<lparr>ntc_CredsFile := v\<rparr>\<rparr>),
     optional_text L snap ''NATS_TOKEN''
       (\<lambda>v c. c\<lparr>cfg_NATS := (cfg_NATS c)\<lparr>ntc_Token := v\<rparr>\<rparr>),
     optional_text L snap ''NATS_ACCOUNT_SEED''
       (\<lambda>v c. c\<lparr>cfg_NATS := (cfg_NATS c)\<lparr>ntc_AccountSeed := v\<rparr>\<rparr>),
     optional_text L snap ''NATS_MONITORING_URL''
       (\<lambda>v c. c\<lparr>cfg_NATS := (cfg_NATS c)\<lparr>ntc_MonitoringURL := v\<rparr>\<rparr>),
     optional_text L snap ''NATS_TLS_CA_FILE''
       (\<lambda>v c. c\<lparr>cfg_NATS := (cfg_NATS c)\<lparr>ntc_TlsCAFile := v\<rparr>\<rparr>),
     optional_text L snap ''NATS_TLS_CERT_FILE''
       (\<lambda>v c. c\<lparr>cfg_NATS := (cfg_NATS c)\<lparr>ntc_TlsCertFile := v\<rparr>\<rparr>),
     optional_text L snap ''NATS_TLS_KEY_FILE''
       (\<lambda>v c. c\<lparr>cfg_NATS := (cfg_NATS c)\<lparr>ntc_TlsKeyFile := v\<rparr>\<rparr>),
     optional_text L snap ''NATS_TLS_SERVER_NAME''
       (\<lambda>v c. c\<lparr>cfg_NATS := (cfg_NATS c)\<lparr>ntc_TlsServerName := v\<rparr>\<rparr>),
     default_value L snap (el_ParseDuration L) ''NATS.ClientCacheTTL'' ''NATS_CLIENT_CACHE_TTL'' ''5m''
       (\<lambda>v c. c\<lparr>cfg_NATS := (cfg_NATS c)\<lparr>ntc_ClientCacheTTL := v\<rparr>\<rparr>),
     default_value L snap (el_ParseInt L) ''NATS.InitialRetryAttempts'' ''NATS_INITIAL_RETRY_ATTEMPTS'' ''0''
       (\<lambda>v c. c\<lparr>cfg_NATS := (cfg_NATS c)\<lparr>ntc_InitialRetryAttempts := v\<rparr>\<rparr>),
     default_value L snap (el_ParseInt L) ''NATS.MaxReconnect'' ''NATS_MAX_RECONNECT'' ''-1''
       (\<lambda>v c. c\<lparr>cfg_NATS := (cfg_NATS c)\<lparr>ntc_MaxReconnect := v\<rparr>\<rparr>),
     default_value L snap (el_ParseDuration L) ''NATS.ReconnectWait'' ''NATS_RECONNECT_WAIT'' ''2s''
       (\<lambda>v c. c\<lparr>cfg_NATS := (cfg_NATS c)\<lparr>ntc_ReconnectWait := v\<rparr>\<rparr>)]"

definition load_NATS_2 :: "EnvLib \<Rightarrow> snapshot \<Rightarrow> block list" where
  "load_NATS_2 L snap =
    [default_value L snap (el_ParseBool L) ''NATS.AllowReconnect'' ''NATS_ALLOW_RECONNECT'' ''true''
       (\<lambda>v c. c\<lparr>cfg_NATS := (cfg_NATS c)\<lparr>ntc_AllowReconnect := v\<rparr>\<rparr>),
     default_value L snap (el_ParseBool L) ''NATS.TlsInsecureSkipVerify'' ''NATS_TLS_INSECURE_SKIP_VERIFY'' ''false''
       (\<lambda>v c. c\<lparr>cfg_NATS := (cfg_NATS c)\<lparr>ntc_TlsInsecureSkipVerify := v\<rparr>\<rparr>),
     default_value L snap (el_ParseBool L) ''NATS.DontRandomize'' ''NATS_DONT_RANDOMIZE'' ''false''
       (\<lambda>v c. c\<lparr>cfg_NATS := (cfg_NATS c)\<lparr>ntc_DontRandomize := v\<rparr>\<rparr>),
     default_value L snap (el_ParseBool L) ''NATS.AllowMetrics'' ''NATS_ALLOW_METRICS'' ''true''
       (\<lambda>v c. c\<lparr>cfg_NATS := (cfg_NATS c)\<lparr>ntc_AllowMetrics := v\<rparr>\<rparr>),
     default_value L snap (el_ParseBool L) ''NATS.AllowTracing'' ''NATS_ALLOW_TRACING'' ''true''
       (\<lambda>v c. c\<lparr>cfg_NATS := (cfg_NATS c)\<lparr>ntc_AllowTracing := v\<rparr>\<rparr>)]"

definition load_AI :: "EnvLib \<Rightarrow> snapshot \<Rightarrow> block list" where
  "load_AI L snap =
    [default_text L snap ''AI_GEMINI_API_BASE'' ''https://generativelanguage.googleapis.com/v1beta''
       (\<lambda>v c. c\<lparr>cfg_AI := (cfg_AI c)\<lparr>aic_GeminiAPIBase := v\<rparr>\<rparr>),
     default_text L snap ''AI_MODEL'' ''gemini-2.5-flash''
       (\<lambda>v c. c\<lparr>cfg_AI := (cfg_AI c)\<lparr>aic_Model := v\<rparr>\<rparr>),
     optional_text L snap ''AI_API_KEY''
       (\<lambda>v c. c\<lparr>cfg_AI := (cfg_AI c)\<lparr>aic_APIKey := v\<rparr>\<rparr>),
     default_value L snap (el_ParseDuration L) ''AI.ContextCacheTTL'' ''AI_CONTEXT_CACHE_TTL'' ''45s''
       (\<lambda>v c. c\<lparr>cfg_AI := (cfg_AI c)\<lparr>aic_ContextCacheTTL := v\<rparr>\<rparr>),
     default_value L snap (el_ParseDuration L) ''AI.RequestTimeout'' ''AI_REQUEST_TIMEOUT'' ''60s''
       (\<lambda>v c. c\<lparr>cfg_AI := (cfg_AI c)\<lparr>aic_RequestTimeout := v\<rparr>\<rparr>),
     default_value L snap (el_ParseInt L) ''AI.MaxTokens'' ''AI_MAX_TOKENS'' ''4096''
       (\<lambda>v c. c\<lparr>cfg_AI := (cfg_AI c)\<lparr>aic_MaxTokens := v\<rparr>\<rparr>),
     default_value L snap (el_ParseBool L) ''AI.Enabled'' ''AI_ENABLED'' ''false''
       (\<lambda>v c. c\<lparr>cfg_AI := (cfg_AI c)\<lparr>aic_Enabled := v\<rparr>\<rparr>)]"

definition load_SMTP :: "EnvLib \<Rightarrow> snapshot \<Rightarrow> block list" where
  "load_SMTP L snap =
    [optional_text L snap ''SMTP_FROM''
       (\<lambda>v c. c\<lparr>cfg_SMTP := (cfg_SMTP c)\<lparr>smc_From := v\<rparr>\<rparr>),
     optional_text L snap ''SMTP_PASSWORD''
       (\<lambda>v c. c\<lparr>cfg_SMTP := (cfg_SMTP c)\<lparr>smc_Password := v\<rparr>\<rparr>),
     optional_text L snap ''SMTP_USERNAME''
       (\<lambda>v c. c\<lparr>cfg_SMTP := (cfg_SMTP c)\<lparr>smc_Username := v\<rparr>\<rparr>),
     required_text L snap ''SMTP.Host'' ''SMTP_HOST''
       (\<lambda>v c. c\<lparr>cfg_SMTP := (cfg_SMTP c)\<lparr>smc_Host := v\<rparr>\<rparr>),
     required_value L snap (el_ParseInt L) ''SMTP.Port'' ''SMTP_PORT''
       (\<lambda>v c. c\<lparr>cfg_SMTP := (cfg_SMTP c)\<lparr>smc_Port := v\<rparr>\<rparr>),
     default_value L snap (el_ParseDuration L) ''SMTP.Timeout'' ''SMTP_TIMEOUT'' ''15s''
       (\<lambda>v c. c\<lparr>cfg_SMTP := (cfg_SMTP c)\<lparr>smc_Timeout := v\<rparr>\<rparr>),
     default_value L snap (el_ParseBool L) ''SMTP.Enabled'' ''SMTP_ENABLED'' ''false''
       (\<lambda>v c. c\<lparr>cfg_SMTP := (cfg_SMTP c)\<lparr>smc_Enabled := v\<rparr>\<rparr>),
     default_value L snap (el_ParseBool L) ''SMTP.TLS'' ''SMTP_TLS'' ''true''
       (\<lambda>v c. c\<lparr>cfg_SMTP := (cfg_SMTP c)\<lparr>smc_TLS := v\<rparr>\<rparr>)]"

definition load_Auth :: "EnvLib \<Rightarrow> snapshot \<Rightarrow> block list" where
  "load_Auth L snap =
    [required_text L snap ''Auth.SessionPrivateKey'' ''SESSION_PRIVATE_KEY''
       (\<lambda>v c. c\<lparr>cfg_Auth := (cfg_Auth c)\<lparr>auc_SessionPrivateKey := v\<rparr>\<rparr>),
     required_text L snap ''Auth.SessionPublicKey'' ''SESSION_PUBLIC_KEY''
       (\<lambda>v c. c\<lparr>cfg_Auth := (cfg_Auth c)\<lparr>auc_SessionPublicKey := v\<rparr>\<rparr>),
     default_value L snap (el_ParseDuration L) ''Auth.SessionTTL'' ''SESSION_TTL'' ''15m''
       (\<lambda>v c. c\<lparr>cfg_Auth := (cfg_Auth c)\<lparr>auc_SessionTTL := v\<rparr>\<rparr>),
     default_value L snap (el_ParseDuration L) ''Auth.RefreshTokenTTL'' ''REFRESH_TOKEN_TTL'' ''168h''
       (\<lambda>v c. c\<lparr>cfg_Auth := (cfg_Auth c)\<lparr>auc_RefreshTokenTTL := v\<rparr>\<rparr>),
     default_value L snap (el_ParseDuration L) ''Auth.RateLimitWindow'' ''AUTH_RATE_LIMIT_WINDOW'' ''1m''
       (\<lambda>v c. c\<lparr>cfg_Auth := (cfg_Auth c)\<lparr>auc_RateLimitWindow := v\<rparr>\<rparr>),
     default_value L snap (el_ParseInt L) ''Auth.RateLimit'' ''AUTH_RATE_LIMIT'' ''10''
       (\<lambda>v c. c\<lparr>cfg_Auth := (cfg_Auth c)\<lparr>auc_RateLimit := v\<rparr>\<rparr>)]"

definition load_LiveWS :: "EnvLib \<Rightarrow> snapshot \<Rightarrow> block list" where
  "load_LiveWS L snap =
    [default_value L snap (el_ParseDuration L) ''LiveWS.IdleTimeout'' ''LIVE_WS_IDLE_TIMEOUT'' ''5m''
       (\<lambda>v c. c\<lparr>cfg_LiveWS := (cfg_LiveWS c)\<lparr>lwc_IdleTimeout := v\<rparr>\<rparr>),
     default_value L snap (el_ParseDuration L) ''LiveWS.RateLimit'' ''LIVE_WS_RATE_LIMIT'' ''100ms''
       (\<lambda>v c. c\<lparr>cfg_LiveWS := (cfg_LiveWS c)\<lparr>lwc_RateLimit := v\<rparr>\<rparr>),
     default_value L snap (el_ParseInt L) ''LiveWS.MaxMessages'' ''LIVE_WS_MAX_MESSAGES'' ''1000''
       (\<lambda>v c. c\<lparr>cfg_LiveWS := (cfg_LiveWS c)\<lparr>lwc_MaxMessages := v\<rparr>\<rparr>),
     default_value L snap (el_ParseInt L) ''LiveWS.PayloadTruncateBytes'' ''LIVE_WS_PAYLOAD_TRUNCATE_BYTES'' ''4096''
       (\<lambda>v c. c\<lparr>cfg_LiveWS := (cfg_LiveWS c)\<lparr>lwc_PayloadTruncateBytes := v\<rparr>\<rparr>)]"

definition load_MetricsSnapshot :: "EnvLib \<Rightarrow> snapshot \<Rightarrow> block list" where
  "load_MetricsSnapshot L snap =
    [default_value L snap (el_ParseDuration L) ''MetricsSnapshot.Interval'' ''METRICS_SNAPSHOT_INTERVAL'' ''60s''
       (\<lambda>v c. c\<lparr>cfg_MetricsSnapshot := (cfg_MetricsSnapshot c)\<lparr>msc_Interval := v\<rparr>\<rparr>),
     default_value L snap (el_ParseDuration L) ''MetricsSnapshot.Retention'' ''METRICS_SNAPSHOT_RETENTION'' ''168h''
       (\<lambda>v c. c\<lparr>cfg_MetricsSnapshot := (cfg_MetricsSnapshot c)\<lparr>msc_Retention := v\<rparr>\<rparr>),
     default_value L snap (el_ParseDuration L) ''MetricsSnapshot.BottleneckRetention'' ''METRICS_SNAPSHOT_BOTTLENECK_RETENTION'' ''672h''
       (\<lambda>v c. c\<lparr>cfg_MetricsSnapshot := (cfg_MetricsSnapshot c)\<lparr>msc_BottleneckRetention := v\<rparr>\<rparr>),
     default_value L snap (el_ParseDuration L) ''MetricsSnapshot.CleanupInterval'' ''METRICS_SNAPSHOT_CLEANUP_INTERVAL'' ''1h''
       (\<lambda>v c. c\<lparr>cfg_MetricsSnapshot := (cfg_MetricsSnapshot c)\<lparr>msc_CleanupInterval := v\<rparr>\<rparr>)]"

definition load_Pprof :: "EnvLib \<Rightarrow> snapshot \<Rightarrow> block list" where
  "load_Pprof L snap =
    [default_value L snap (el_ParseInt L) ''Pprof.CPUMaxSeconds'' ''PPROF_CPU_MAX_SECONDS'' ''120''
       (\<lambda>v c. c\<lparr>cfg_Pprof := (cfg_Pprof c)\<lparr>ppc_CPUMaxSeconds := v\<rparr>\<rparr>),
     default_value L snap (el_ParseBool L) ''Pprof.AuthEnabled'' ''PPROF_AUTH_ENABLED'' ''true''
       (\<lambda>v c. c\<lparr>cfg_Pprof := (cfg_Pprof c)\<lparr>ppc_AuthEnabled := v\<rparr>\<rparr>),
     default_value L snap (el_ParseBool L) ''Pprof.Enabled'' ''PPROF_ENABLED'' ''false''
       (\<lambda>v c. c\<lparr>cfg_Pprof := (cfg_Pprof c)\<lparr>ppc_Enabled := v\<rparr>\<rparr>)]"

definition load_SlowConsumer :: "EnvLib \<Rightarrow> snapshot \<Rightarrow> block list" where
  "load_SlowConsumer L snap =
    [default_value L snap (el_ParseUint64 L) ''SlowConsumer.PendingThreshold'' ''SLOW_CONSUMER_PENDING_THRESHOLD'' ''1000''
       (\<lambda>v c. c\<lparr>cfg_SlowConsumer := (cfg_SlowConsumer c)\<lparr>slc_PendingThreshold := v\<rparr>\<rparr>),
     default_value L snap (el_ParseUint64 L) ''SlowConsumer.LagThreshold'' ''SLOW_CONSUMER_LAG_THRESHOLD'' ''1000''
       (\<lambda>v c. c\<lparr>cfg_SlowConsumer := (cfg_SlowConsumer c)\<lparr>slc_LagThreshold := v\<rparr>\<rparr>),
     default_value L snap (el_ParseFloat64 L) ''SlowConsumer.AckPendingRatio'' ''SLOW_CONSUMER_ACK_PENDING_RATIO'' ''0.9''
       (\<lambda>v c. c\<lparr>cfg_SlowConsumer := (cfg_SlowConsumer c)\<lparr>slc_AckPendingRatio := v\<rparr>\<rparr>)]"

definition load_Pagination :: "EnvLib \<Rightarrow> snapshot \<Rightarrow> block list" where
  "load_Pagination L snap =
    [default_value L snap (el_ParseInt L) ''Pagination.MaxLimit'' ''PAGINATION_MAX_LIMIT'' ''500''
       (\<lambda>v c. c\<lparr>cfg_Pagination := (cfg_Pagination c)\<lparr>pgc_MaxLimit := v\<rparr>\<rparr>),
     default_value L snap (el_ParseInt L) ''Pagination.DefaultLimit'' ''PAGINATION_DEFAULT_LIMIT'' ''100''
       (\<lambda>v c. c\<lparr>cfg_Pagination := (cfg_Pagination c)\<lparr>pgc_DefaultLimit := v\<rparr>\<rparr>)]"

definition load_top_2 :: "EnvLib \<Rightarrow> snapshot \<Rightarrow> block list" where
  "load_top_2 L snap =
    [required_text L snap ''EncryptionKey'' ''ENCRYPTION_KEY''
       (\<lambda>v c. c\<lparr>cfg_EncryptionKey := v\<rparr>),
     optional_text L snap ''STATIC_DIR''
       (\<lambda>v c. c\<lparr>cfg_StaticDir := v\<rparr>),
     default_text L snap ''ADMIN_USERNAME'' ''admin''
       (\<lambda>v c. c\<lparr>cfg_AdminUsername := v\<rparr>),
     required_text L snap ''AdminPassword'' ''ADMIN_PASSWORD''
       (\<lambda>v c. c\<lparr>cfg_AdminPassword := v\<rparr>),
     default_text L snap ''PUBLIC_BASE_URL'' ''http://localhost:8080''
       (\<lambda>v c. c\<lparr>cfg_PublicBaseURL := v\<rparr>),
     default_text L snap ''DEFAULT_CLUSTER_NAME'' ''default''
       (\<lambda>v c. c\<lparr>cfg_DefaultClusterName := v\<rparr>),
     optional_text L snap ''CORS_ALLOWED_ORIGINS''
       (\<lambda>v c. c\<lparr>cfg_CORSAllowedOrigins := v\<rparr>),
     optional_text L snap ''TRUSTED_PROXIES''
       (\<lambda>v c. c\<lparr>cfg_TrustedProxies := v\<rparr>),
     default_text L snap ''BEHAVIOR_FINGERPRINT_KV_BUCKET'' ''nats_consol_fingerprints''
       (\<lambda>v c. c\<lparr>cfg_BehaviorFingerprintKVBucket := v\<rparr>),
     default_value L snap (el_ParseDuration L) ''RequestTimeout'' ''REQUEST_TIMEOUT'' ''10s''
       (\<lambda>v c. c\<lparr>cfg_RequestTimeout := v\<rparr>),
     optional_value L snap (el_ParseDuration L) ''LookBackDuration'' ''LOOKBACK_DURATION''
       (\<lambda>v c. c\<lparr>cfg_LookBackDuration := v\<rparr>),
     default_value L snap (el_ParseDuration L) ''HealthCheckTimeout'' ''HEALTH_CHECK_TIMEOUT'' ''2s''
       (\<lambda>v c. c\<lparr>cfg_HealthCheckTimeout := v\<rparr>)]"

definition load_top_3 :: "EnvLib \<Rightarrow> snapshot \<Rightarrow> block list" where
  "load_top_3 L snap =
    [default_value L snap (el_ParseDuration L) ''JetStreamViewCacheTTL'' ''JETSTREAM_VIEW_CACHE_TTL'' ''3s''
       (\<lambda>v c. c\<lparr>cfg_JetStreamViewCacheTTL := v\<rparr>),
     default_value L snap (el_ParseDuration L) ''InviteTTL'' ''INVITE_TTL'' ''24h''
       (\<lambda>v c. c\<lparr>cfg_InviteTTL := v\<rparr>),
     default_value L snap (el_ParseInt64 L) ''MaxMonitoringBodyBytes'' ''MAX_MONITORING_BODY_BYTES'' ''8388608''
       (\<lambda>v c. c\<lparr>cfg_MaxMonitoringBodyBytes := v\<rparr>),
     default_value L snap (el_ParseInt L) ''AuditDefaultLimit'' ''AUDIT_DEFAULT_LIMIT'' ''50''
       (\<lambda>v c. c\<lparr>cfg_AuditDefaultLimit := v\<rparr>),
     default_value L snap (el_ParseBool L) ''MetricsAuthEnabled'' ''METRICS_AUTH_ENABLED'' ''false''
       (\<lambda>v c. c\<lparr>cfg_MetricsAuthEnabled := v\<rparr>)]"

definition all_blocks :: "EnvLib \<Rightarrow> snapshot \<Rightarrow> block list" where
  "all_blocks L snap =
    load_top_1 L snap @
    load_HTTP L snap @
    load_DB L snap @
    load_NATS_1 L snap @
    load_NATS_2 L snap @
    load_AI L snap @
    load_SMTP L snap @
    load_Auth L snap @
    load_LiveWS L snap @
    load_MetricsSnapshot L snap @
    load_Pprof L snap @
    load_SlowConsumer L snap @
    load_Pagination L snap @
    load_top_2 L snap @
    load_top_3 L snap"

definition run_blocks :: "block list \<Rightarrow> loading \<Rightarrow> loading" where
  "run_blocks blocks st = foldl (\<lambda>st b. b st) st blocks"

text \<open>\<^verbatim>\<open>loadConfig\<close>: the error, if any, and the configuration it leaves.\<close>

definition loadConfig :: "EnvLib \<Rightarrow> snapshot \<Rightarrow> Config \<Rightarrow> string option \<times> Config" where
  "loadConfig L snap cfg =
     (let (errs, cfg) = run_blocks (all_blocks L snap) ([], cfg) in (el_NewError L errs, cfg))"

definition LoadConfig :: "EnvLib \<Rightarrow> snapshot \<Rightarrow> string option \<times> Config" where
  "LoadConfig L snap = loadConfig L snap zero_Config"

text \<open>On an error the configuration in use stays as it is.\<close>

definition ReloadConfig :: "EnvLib \<Rightarrow> snapshot \<Rightarrow> Config \<Rightarrow> string option \<times> Config" where
  "ReloadConfig L snap cfg =
     (case loadConfig L snap zero_Config of (Some err, _) \<Rightarrow> (Some err, cfg) | (None, next) \<Rightarrow> (None, next))"

definition Masked :: "EnvLib \<Rightarrow> Config \<Rightarrow> Config" where
  "Masked L c =
     c\<lparr>cfg_NATS := (cfg_NATS c)\<lparr>ntc_AccountSeed := el_mask L\<rparr>,
       cfg_AI := (cfg_AI c)\<lparr>aic_APIKey := el_mask L\<rparr>,
       cfg_SMTP := (cfg_SMTP c)\<lparr>smc_Password := el_mask L\<rparr>,
       cfg_Auth := (cfg_Auth c)\<lparr>auc_SessionPrivateKey := el_mask L\<rparr>,
       cfg_EncryptionKey := el_mask L, cfg_AdminPassword := el_mask L\<rparr>"

section \<open>The audit schema\<close>

record SchemaField =
  sf_Key :: string
  sf_FieldPath :: string
  sf_Default :: string
  sf_Prefix :: string
  sf_HasDefault :: bool
  sf_Required :: bool
  sf_Sensitive :: bool

definition field :: "string \<Rightarrow> string \<Rightarrow> string \<Rightarrow> string \<Rightarrow> bool \<Rightarrow> bool \<Rightarrow> bool \<Rightarrow> SchemaField" where
  "field k p d f h r s =
     \<lparr>sf_Key = k, sf_FieldPath = p, sf_Default = d, sf_Prefix = f, sf_HasDefault = h, sf_Required = r, sf_Sensitive = s\<rparr>"

text \<open>The rows of the schema: key, path of the field, default, prefix, and whether it has a default, is required,
  is sensitive.\<close>

definition schema_top_1 :: "SchemaField list" where
  "schema_top_1 =
    [field ''PROJECT_NAME'' ''ProjectName'' '''' '''' False True False]"

definition schema_HTTP :: "SchemaField list" where
  "schema_HTTP =
    [field ''HTTP_ADDR'' ''HTTP.Addr'' '':8080'' '''' True False False,
     field ''HTTP_WRITE_TIMEOUT'' ''HTTP.WriteTimeout'' ''30s'' '''' True False False,
     field ''HTTP_READ_TIMEOUT'' ''HTTP.ReadTimeout'' ''10s'' '''' True False False,
     field ''HTTP_IDLE_TIMEOUT'' ''HTTP.IdleTimeout'' ''60s'' '''' True False False,
     field ''MAX_REQUEST_BODY_SIZE'' ''HTTP.MaxRequestBodySize'' ''1048576'' '''' True False False,
     field ''HTTP_RESPONSE_COMPRESSION'' ''HTTP.ResponseCompression'' ''true'' '''' True False False]"

definition schema_DB :: "SchemaField list" where
  "schema_DB =
    [field ''DATABASE_URL'' ''DB.URL'' '''' '''' False True False,
     field ''DB_MAX_CONN_LIFETIME'' ''DB.MaxConnLifetime'' ''1h'' '''' True False False,
     field ''DB_HEALTH_CHECK_PERIOD'' ''DB.HealthCheckPeriod'' ''1m'' '''' True False False,
     field ''DB_MAX_CONN_IDLE_TIME'' ''DB.MaxConnIdleTime'' ''30m'' '''' True False False,
     field ''DB_MAX_CONNS'' ''DB.MaxConns'' ''25'' '''' True False False,
     field ''DB_MIN_CONNS'' ''DB.MinConns'' ''2'' '''' True False False]"

definition schema_NATS_1 :: "SchemaField list" where
  "schema_NATS_1 =
    [field ''NATS_URL'' ''NATS.URL'' '''' ''NATS_'' False False False,
     field ''NATS_CREDS_FILE'' ''NATS.CredsFile'' '''' ''NATS_'' False False False,
     field ''NATS_TOKEN'' ''NATS.Token'' '''' ''NATS_'' False False False,
     field ''NATS_ACCOUNT_SEED'' ''NATS.AccountSeed'' '''' ''NATS_'' False False True,
     field ''NATS_MONITORING_URL'' ''NATS.MonitoringURL'' '''' ''NATS_'' False False False,
     field ''NATS_TLS_CA_FILE'' ''NATS.TlsCAFile'' '''' ''NATS_'' False False False,
     field ''NATS_TLS_CERT_FILE'' ''NATS.TlsCertFile'' '''' ''NATS_'' False False False,
     field ''NATS_TLS_KEY_FILE'' ''NATS.TlsKeyFile'' '''' ''NATS_'' False False False,
     field ''NATS_TLS_SERVER_NAME'' ''NATS.TlsServerName'' '''' ''NATS_'' False False False,
     field ''NATS_CLIENT_CACHE_TTL'' ''NATS.ClientCacheTTL'' ''5m'' ''NATS_'' True False False,
     field ''NATS_INITIAL_RETRY_ATTEMPTS'' ''NATS.InitialRetryAttempts'' ''0'' ''NATS_'' True False False,
     field ''NATS_MAX_RECONNECT'' ''NATS.MaxReconnect'' ''-1'' ''NATS_'' True False False,
     field ''NATS_RECONNECT_WAIT'' ''NATS.ReconnectWait'' ''2s'' ''NATS_'' True False False]"

definition schema_NATS_2 :: "SchemaField list" where
  "schema_NATS_2 =
    [field ''NATS_ALLOW_RECONNECT'' ''NATS.AllowReconnect'' ''true'' ''NATS_'' True False False,
     field ''NATS_TLS_INSECURE_SKIP_VERIFY'' ''NATS.TlsInsecureSkipVerify'' ''false'' ''NATS_'' True False False,
     field ''NATS_DONT_RANDOMIZE'' ''NATS.DontRandomize'' ''false'' ''NATS_'' True False False,
     field ''NATS_ALLOW_METRICS'' ''NATS.AllowMetrics'' ''true'' ''NATS_'' True False False,
     field ''NATS_ALLOW_TRACING'' ''NATS.AllowTracing'' ''true'' ''NATS_'' True False False]"

definition schema_AI :: "SchemaField list" where
  "schema_AI =
    [field ''AI_GEMINI_API_BASE'' ''AI.GeminiAPIBase'' ''https://generativelanguage.googleapis.com/v1beta'' ''AI_'' True False False,
     field ''AI_MODEL'' ''AI.Model'' ''gemini-2.5-flash'' ''AI_'' True False False,
     field ''AI_API_KEY'' ''AI.APIKey'' '''' ''AI_'' False False True,
     field ''AI_CONTEXT_CACHE_TTL'' ''AI.ContextCacheTTL'' ''45s'' ''AI_'' True False False,
     field ''AI_REQUEST_TIMEOUT'' ''AI.RequestTimeout'' ''60s'' ''AI_'' True False False,
     field ''AI_MAX_TOKENS'' ''AI.MaxTokens'' ''4096'' ''AI_'' True False False,
     field ''AI_ENABLED'' ''AI.Enabled'' ''false'' ''AI_'' True False False]"

definition schema_SMTP :: "SchemaField list" where
  "schema_SMTP =
    [field ''SMTP_FROM'' ''SMTP.From'' '''' ''SMTP_'' False False False,
     field ''SMTP_PASSWORD'' ''SMTP.Password'' '''' ''SMTP_'' False False True,
     field ''SMTP_USERNAME'' ''SMTP.Username'' '''' ''SMTP_'' False False False,
     field ''SMTP_HOST'' ''SMTP.Host'' '''' ''SMTP_'' False True False,
     field ''SMTP_PORT'' ''SMTP.Port'' '''' ''SMTP_'' False True False,
     field ''SMTP_TIMEOUT'' ''SMTP.Timeout'' ''15s'' ''SMTP_'' True False False,
     field ''SMTP_ENABLED'' ''SMTP.Enabled'' ''false'' ''SMTP_'' True False False,
     field ''SMTP_TLS'' ''SMTP.TLS'' ''true'' ''SMTP_'' True False False]"

definition schema_Auth :: "SchemaField list" where
  "schema_Auth =
    [field ''SESSION_PRIVATE_KEY'' ''Auth.SessionPrivateKey'' '''' '''' False True True,
     field ''SESSION_PUBLIC_KEY'' ''Auth.SessionPublicKey'' '''' '''' False True False,
     field ''SESSION_TTL'' ''Auth.SessionTTL'' ''15m'' '''' True False False,
     field ''REFRESH_TOKEN_TTL'' ''Auth.RefreshTokenTTL'' ''168h'' '''' True False False,
     field ''AUTH_RATE_LIMIT_WINDOW'' ''Auth.RateLimitWindow'' ''1m'' '''' True False False,
     field ''AUTH_RATE_LIMIT'' ''Auth.RateLimit'' ''10'' '''' True False False]"

definition schema_LiveWS :: "SchemaField list" where
  "schema_LiveWS =
    [field ''LIVE_WS_IDLE_TIMEOUT'' ''LiveWS.IdleTimeout'' ''5m'' ''LIVE_WS_'' True False False,
     field ''LIVE_WS_RATE_LIMIT'' ''LiveWS.RateLimit'' ''100ms'' ''LIVE_WS_'' True False False,
     field ''LIVE_WS_MAX_MESSAGES'' ''LiveWS.MaxMessages'' ''1000'' ''LIVE_WS_'' True False False,
     field ''LIVE_WS_PAYLOAD_TRUNCATE_BYTES'' ''LiveWS.PayloadTruncateBytes'' ''4096'' ''LIVE_WS_'' True False False]"

definition schema_MetricsSnapshot :: "SchemaField list" where
  "schema_MetricsSnapshot =
    [field ''METRICS_SNAPSHOT_INTERVAL'' ''MetricsSnapshot.Interval'' ''60s'' ''METRICS_SNAPSHOT_'' True False False,
     field ''METRICS_SNAPSHOT_RETENTION'' ''MetricsSnapshot.Retention'' ''168h'' ''METRICS_SNAPSHOT_'' True False False,
     field ''METRICS_SNAPSHOT_BOTTLENECK_RETENTION'' ''MetricsSnapshot.BottleneckRetention'' ''672h'' ''METRICS_SNAPSHOT_'' True False False,
     field ''METRICS_SNAPSHOT_CLEANUP_INTERVAL'' ''MetricsSnapshot.CleanupInterval'' ''1h'' ''METRICS_SNAPSHOT_'' True False False]"

definition schema_Pprof :: "SchemaField list" where
  "schema_Pprof =
    [field ''PPROF_CPU_MAX_SECONDS'' ''Pprof.CPUMaxSeconds'' ''120'' ''PPROF_'' True False False,
     field ''PPROF_AUTH_ENABLED'' ''Pprof.AuthEnabled'' ''true'' ''PPROF_'' True False False,
     field ''PPROF_ENABLED'' ''Pprof.Enabled'' ''false'' ''PPROF_'' True False False]"

definition schema_SlowConsumer :: "SchemaField list" where
  "schema_SlowConsumer =
    [field ''SLOW_CONSUMER_PENDING_THRESHOLD'' ''SlowConsumer.PendingThreshold'' ''1000'' ''SLOW_CONSUMER_'' True False False,
     field ''SLOW_CONSUMER_LAG_THRESHOLD'' ''SlowConsumer.LagThreshold'' ''1000'' ''SLOW_CONSUMER_'' True False False,
     field ''SLOW_CONSUMER_ACK_PENDING_RATIO'' ''SlowConsumer.AckPendingRatio'' ''0.9'' ''SLOW_CONSUMER_'' True False False]"

definition schema_Pagination :: "SchemaField list" where
  "schema_Pagination =
    [field ''PAGINATION_MAX_LIMIT'' ''Pagination.MaxLimit'' ''500'' ''PAGINATION_'' True False False,
     field ''PAGINATION_DEFAULT_LIMIT'' ''Pagination.DefaultLimit'' ''100'' ''PAGINATION_'' True False False]"

definition schema_top_2 :: "SchemaField list" where
  "schema_top_2 =
    [field ''ENCRYPTION_KEY'' ''EncryptionKey'' '''' '''' False True True,
     field ''STATIC_DIR'' ''StaticDir'' '''' '''' False False False,
     field ''ADMIN_USERNAME'' ''AdminUsername'' ''admin'' '''' True False False,
     field ''ADMIN_PASSWORD'' ''AdminPassword'' '''' '''' False True True,
     field ''PUBLIC_BASE_URL'' ''PublicBaseURL'' ''http://localhost:8080'' '''' True False False,
     field ''DEFAULT_CLUSTER_NAME'' ''DefaultClusterName'' ''default'' '''' True False False,
     field ''CORS_ALLOWED_ORIGINS'' ''CORSAllowedOrigins'' '''' '''' False False False,
     field ''TRUSTED_PROXIES'' ''TrustedProxies'' '''' '''' False False False,
     field ''BEHAVIOR_FINGERPRINT_KV_BUCKET'' ''BehaviorFingerprintKVBucket'' ''nats_consol_fingerprints'' '''' True False False,
     field ''REQUEST_TIMEOUT'' ''RequestTimeout'' ''10s'' '''' True False False,
     field ''LOOKBACK_DURATION'' ''LookBackDuration'' '''' '''' False False False,
     field ''HEALTH_CHECK_TIMEOUT'' ''HealthCheckTimeout'' ''2s'' '''' True False False]"

definition schema_top_3 :: "SchemaField list" where
  "schema_top_3 =
    [field ''JETSTREAM_VIEW_CACHE_TTL'' ''JetStreamViewCacheTTL'' ''3s'' '''' True False False,
     field ''INVITE_TTL'' ''InviteTTL'' ''24h'' '''' True False False,
     field ''MAX_MONITORING_BODY_BYTES'' ''MaxMonitoringBodyBytes'' ''8388608'' '''' True False False,
     field ''AUDIT_DEFAULT_LIMIT'' ''AuditDefaultLimit'' ''50'' '''' True False False,
     field ''METRICS_AUTH_ENABLED'' ''MetricsAuthEnabled'' ''false'' '''' True False False]"

definition configAuditSchema :: "SchemaField list" where
  "configAuditSchema =
    schema_top_1 @
    schema_HTTP @
    schema_DB @
    schema_NATS_1 @
    schema_NATS_2 @
    schema_AI @
    schema_SMTP @
    schema_Auth @
    schema_LiveWS @
    schema_MetricsSnapshot @
    schema_Pprof @
    schema_SlowConsumer @
    schema_Pagination @
    schema_top_2 @
    schema_top_3"

section \<open>Validation (config.go, setup.go)\<close>

definition TrustedProxyList :: "Config \<Rightarrow> string list" where
  "TrustedProxyList c =
     (if IsEmpty (TrimSpace (cfg_TrustedProxies c)) then []
      else filter (\<lambda>p. \<not> IsEmpty p) (map TrimSpace (Split (CHR '','') (cfg_TrustedProxies c))))"

definition cfg_clampLimit :: "Config \<Rightarrow> int \<Rightarrow> int \<Rightarrow> int" where
  "cfg_clampLimit c limit defaultLimit =
     (let limit = (if limit \<le> 0 then defaultLimit else limit) in
      if pgc_MaxLimit (cfg_Pagination c) > 0 \<and> limit > pgc_MaxLimit (cfg_Pagination c)
      then pgc_MaxLimit (cfg_Pagination c) else limit)"

definition NormalizeAuditLimit :: "Config \<Rightarrow> int \<Rightarrow> int" where
  "NormalizeAuditLimit c limit = cfg_clampLimit c limit (cfg_AuditDefaultLimit c)"

definition AIActive :: "Config \<Rightarrow> bool" where
  "AIActive c \<longleftrightarrow> aic_Enabled (cfg_AI c) \<and> \<not> IsEmpty (aic_APIKey (cfg_AI c))"

definition TLSEnabled :: "Config \<Rightarrow> bool" where
  "TLSEnabled c \<longleftrightarrow> HasPrefix (ToLower (cfg_PublicBaseURL c)) ''https://''"

definition Getenv :: "snapshot \<Rightarrow> string \<Rightarrow> string" where
  "Getenv env key = (case env key of None \<Rightarrow> [] | Some v \<Rightarrow> v)"

definition IsProduction :: "snapshot \<Rightarrow> bool" where
  "IsProduction env \<longleftrightarrow> EqualFold (TrimSpace (Getenv env ''ENV'')) ''production''"

definition validateSMTP :: "Config \<Rightarrow> string list" where
  "validateSMTP c =
     (if IsEmpty (TrimSpace (smc_Host (cfg_SMTP c)))
      then [''SMTP_HOST is required when SMTP_ENABLED is true''] else []) @
     (if IsEmpty (TrimSpace (smc_From (cfg_SMTP c)))
      then [''SMTP_FROM is required when SMTP_ENABLED is true''] else []) @
     (if smc_Port (cfg_SMTP c) \<le> 0 \<or> smc_Port (cfg_SMTP c) > 65535
      then [''SMTP_PORT must be between 1 and 65535 when SMTP_ENABLED is true''] else [])"

text \<open>The sum in the last check is one of 64-bit integers, so it may wrap.\<close>

definition wrap64 :: "int \<Rightarrow> int" where
  "wrap64 n = (n + 2 ^ 63) mod 2 ^ 64 - 2 ^ 63"

definition validateSecurity :: "snapshot \<Rightarrow> Config \<Rightarrow> string list" where
  "validateSecurity env c =
     (if (TLSEnabled c \<or> IsProduction env) \<and> cfg_AdminPassword c = ''admin''
      then [''ADMIN_PASSWORD must be changed from the default''] else []) @
     (if ppc_Enabled (cfg_Pprof c) \<and> \<not> ppc_AuthEnabled (cfg_Pprof c)
      then [''PPROF_AUTH_ENABLED must be true when PPROF_ENABLED is true''] else []) @
     (if ppc_Enabled (cfg_Pprof c) \<and>
         hc_WriteTimeout (cfg_HTTP c)
           < wrap64 (wrap64 (ppc_CPUMaxSeconds (cfg_Pprof c) * Second) + 5 * Second)
      then [''HTTP_WRITE_TIMEOUT must be at least PPROF_CPU_MAX_SECONDS + 5s when PPROF_ENABLED is true'']
      else [])"

section \<open>Keys of sessions (session_keys.go)\<close>

text \<open>
  The parsers of PEM and of the encodings of keys are parameters; a parsed key that is no RSA key is
  \<open>OtherKey\<close>.
\<close>

record RSAPublic =
  ru_N :: int
  ru_E :: int

record RSAPrivate = RSAPublic +
  rp_D :: int

datatype parsed_private = RSAPrivateKey RSAPrivate | OtherPrivateKey
datatype parsed_public = RSAPublicKey RSAPublic | OtherPublicKey

record KeyLib =
  kl_pemDecode :: "string \<Rightarrow> string option"
  kl_ParsePKCS1 :: "string \<Rightarrow> RSAPrivate option"
  kl_ParsePKCS8 :: "string \<Rightarrow> parsed_private option"
  kl_ParsePKIX :: "string \<Rightarrow> parsed_public option"

definition minSessionRSABits :: nat where
  "minSessionRSABits = 2048"

function BitLen_nat :: "nat \<Rightarrow> nat" where
  "BitLen_nat n = (if n = 0 then 0 else 1 + BitLen_nat (n div 2))"
  by pat_completeness auto
termination by (relation "measure id") auto

declare BitLen_nat.simps [simp del]

definition BitLen :: "int \<Rightarrow> nat" where
  "BitLen n = BitLen_nat (nat \<bar>n\<bar>)"

text \<open>\<^verbatim>\<open>strings.ReplaceAll(s, `\n`, "\n")\<close>: a backslash and the letter after it become a line feed.\<close>

fun unescape_newlines :: "string \<Rightarrow> string" where
  "unescape_newlines (a # b # cs) =
     (if a = CHR 0x5C \<and> b = CHR ''n'' then CHR 0x0A # unescape_newlines cs else a # unescape_newlines (b # cs))"
| "unescape_newlines cs = cs"

definition normalizePEM :: "string \<Rightarrow> string" where
  "normalizePEM s = unescape_newlines (TrimSpace s)"

definition parseRSAPrivateKeyPEM :: "KeyLib \<Rightarrow> string \<Rightarrow> string + RSAPrivate" where
  "parseRSAPrivateKeyPEM K pemStr =
     (if IsEmpty (TrimSpace pemStr) then Inl ''is required''
      else case kl_pemDecode K (normalizePEM pemStr) of
          None \<Rightarrow> Inl ''invalid PEM''
        | Some block \<Rightarrow>
            (case kl_ParsePKCS1 K block of
               Some key \<Rightarrow> Inr key
             | None \<Rightarrow>
                 (case kl_ParsePKCS8 K block of
                    None \<Rightarrow> Inl ''must be PKCS#1 or PKCS#8 RSA private key''
                  | Some OtherPrivateKey \<Rightarrow> Inl ''must be an RSA private key''
                  | Some (RSAPrivateKey key) \<Rightarrow> Inr key)))"

definition parseRSAPublicKeyPEM :: "KeyLib \<Rightarrow> string \<Rightarrow> string + RSAPublic" where
  "parseRSAPublicKeyPEM K pemStr =
     (if IsEmpty (TrimSpace pemStr) then Inl ''is required''
      else case kl_pemDecode K (normalizePEM pemStr) of
          None \<Rightarrow> Inl ''invalid PEM''
        | Some block \<Rightarrow>
            (case kl_ParsePKIX K block of
               None \<Rightarrow> Inl ''must be a PKIX RSA public key''
             | Some OtherPublicKey \<Rightarrow> Inl ''must be an RSA public key''
             | Some (RSAPublicKey key) \<Rightarrow> Inr key))"

text \<open>The library never returns a key without a private exponent, so the nil case of the last check is left out.\<close>

definition validateRSAKeyPair :: "RSAPrivate \<Rightarrow> RSAPublic \<Rightarrow> string option" where
  "validateRSAKeyPair priv pub =
     (if BitLen (ru_N priv) < minSessionRSABits
      then Some ''SESSION_PRIVATE_KEY: RSA key must be at least 2048 bits''
      else if BitLen (ru_N pub) < minSessionRSABits
      then Some ''SESSION_PUBLIC_KEY: RSA key must be at least 2048 bits''
      else if ru_N priv \<noteq> ru_N pub \<or> ru_E priv \<noteq> ru_E pub
      then Some ''SESSION_PRIVATE_KEY and SESSION_PUBLIC_KEY do not form a matching pair''
      else if rp_D priv \<le> 0 then Some ''SESSION_PRIVATE_KEY: invalid private exponent''
      else None)"

definition ParseSessionRSAKeyPair :: "KeyLib \<Rightarrow> string \<Rightarrow> string \<Rightarrow> string + RSAPrivate \<times> RSAPublic" where
  "ParseSessionRSAKeyPair K privPEM pubPEM =
     (case parseRSAPrivateKeyPEM K privPEM of
        Inl err \<Rightarrow> Inl (''SESSION_PRIVATE_KEY: '' @ err)
      | Inr priv \<Rightarrow>
          (case parseRSAPublicKeyPEM K pubPEM of
             Inl err \<Rightarrow> Inl (''SESSION_PUBLIC_KEY: '' @ err)
           | Inr pub \<Rightarrow>
               (case validateRSAKeyPair priv pub of Some err \<Rightarrow> Inl err | None \<Rightarrow> Inr (priv, pub))))"

definition join_errors :: "string list \<Rightarrow> string" where
  "join_errors errs = concat (case errs of [] \<Rightarrow> [] | e # es \<Rightarrow> e # map (\<lambda>m. ''; '' @ m) es)"

definition Validate :: "KeyLib \<Rightarrow> snapshot \<Rightarrow> Config \<Rightarrow> string option" where
  "Validate K env c =
     (let errs =
        (case ParseSessionRSAKeyPair K (auc_SessionPrivateKey (cfg_Auth c)) (auc_SessionPublicKey (cfg_Auth c)) of
           Inl err \<Rightarrow> [err] | Inr _ \<Rightarrow> []) @
        (if smc_Enabled (cfg_SMTP c) then validateSMTP c else []) @
        validateSecurity env c in
      if errs = [] then None else Some (join_errors errs))"

definition applyDontRandomizeCompat :: "EnvLib \<Rightarrow> snapshot \<Rightarrow> Config \<Rightarrow> Config" where
  "applyDontRandomizeCompat L env cfg =
     (if \<not> IsEmpty (TrimSpace (Getenv env ''NATS_DONT_RANDOMIZE'')) then cfg
      else case env ''NATS_DDNT_RANDOMIZE'' of
          None \<Rightarrow> cfg
        | Some raw \<Rightarrow>
            if IsEmpty (TrimSpace raw) then cfg
            else (case el_ParseBool L raw of
                Inl _ \<Rightarrow> cfg
              | Inr v \<Rightarrow> cfg\<lparr>cfg_NATS := (cfg_NATS cfg)\<lparr>ntc_DontRandomize := v\<rparr>\<rparr>))"

text \<open>The file \<^verbatim>\<open>.env\<close>, and the environment after it was read.\<close>

datatype dot_env = DotEnvRead | DotEnvMissing | DotEnvBroken string

record Process =
  pr_dotenv :: dot_env
  pr_env :: snapshot

definition Load :: "EnvLib \<Rightarrow> KeyLib \<Rightarrow> Process \<Rightarrow> string + Config" where
  "Load L K pr =
     (case pr_dotenv pr of
        DotEnvBroken err \<Rightarrow> Inl err
      | _ \<Rightarrow>
          (case LoadConfig L (pr_env pr) of
             (Some err, _) \<Rightarrow> Inl err
           | (None, cfg) \<Rightarrow>
               (let cfg = applyDontRandomizeCompat L (pr_env pr) cfg in
                case Validate K (pr_env pr) cfg of Some err \<Rightarrow> Inl err | None \<Rightarrow> Inr cfg)))"

section \<open>Checks before the program serves (app.go, validate.go)\<close>

text \<open>The parsing of URLs: the scheme, and the value of \<^verbatim>\<open>sslmode\<close> in the query.\<close>

record UrlLib =
  ul_Scheme :: "string \<Rightarrow> string option"
  ul_sslmode :: "string \<Rightarrow> string"

definition ValidateSecureClientURL :: "UrlLib \<Rightarrow> string \<Rightarrow> string option" where
  "ValidateSecureClientURL U natsURL =
     (case ul_Scheme U natsURL of
        None \<Rightarrow> Some ''NATS_URL is not a valid URL''
      | Some scheme \<Rightarrow>
          if ToLower scheme \<in> {''tls'', ''wss''} then None else Some ''NATS_URL must use tls:// or wss://'')"

definition ValidateSecureMonitoringURL :: "UrlLib \<Rightarrow> string \<Rightarrow> string option" where
  "ValidateSecureMonitoringURL U monitoringURL =
     (case ul_Scheme U monitoringURL of
        None \<Rightarrow> Some ''NATS_MONITORING_URL is not a valid URL''
      | Some scheme \<Rightarrow>
          if ToLower scheme = ''https'' then None else Some ''NATS_MONITORING_URL must use https://'')"

definition ValidateEnvConfig :: "UrlLib \<Rightarrow> Config \<Rightarrow> string option" where
  "ValidateEnvConfig U cfg =
     (let n = cfg_NATS cfg;
          monitoring = (if \<not> IsEmpty (ntc_MonitoringURL n) then ValidateSecureMonitoringURL U (ntc_MonitoringURL n)
                        else None) in
      if ntc_TlsInsecureSkipVerify n then Some ''NATS_TLS_INSECURE_SKIP_VERIFY must be false''
      else if \<not> IsEmpty (ntc_URL n) then
        (case ValidateSecureClientURL U (ntc_URL n) of
           Some err \<Rightarrow> Some err
         | None \<Rightarrow>
             if IsEmpty (ntc_CredsFile n) \<and> IsEmpty (ntc_Token n)
             then Some ''NATS_CREDS_FILE or NATS_TOKEN is required when NATS_URL is set'' else monitoring)
      else monitoring)"

definition ValidateDatabaseURL :: "UrlLib \<Rightarrow> string \<Rightarrow> string option" where
  "ValidateDatabaseURL U databaseURL =
     (if ul_Scheme U databaseURL = None then Some ''DATABASE_URL is not a valid URL''
      else if ToLower (TrimSpace (ul_sslmode U databaseURL)) \<in> {''require'', ''verify-ca'', ''verify-full''}
      then None else Some ''DATABASE_URL must set sslmode=require, verify-ca, or verify-full'')"

definition boundedInt32 :: "int \<Rightarrow> int" where
  "boundedInt32 n = (if n > 2 ^ 31 - 1 then 2 ^ 31 - 1 else if n < - (2 ^ 31) then - (2 ^ 31) else n)"

record PoolConfig =
  po_MaxConns :: int
  po_MinConns :: int
  po_MaxConnLifetime :: duration
  po_MaxConnIdleTime :: duration
  po_HealthCheckPeriod :: duration

definition poolConfigFrom :: "Config \<Rightarrow> PoolConfig" where
  "poolConfigFrom cfg =
     \<lparr>po_MaxConns = boundedInt32 (dc_MaxConns (cfg_DB cfg)), po_MinConns = boundedInt32 (dc_MinConns (cfg_DB cfg)),
      po_MaxConnLifetime = dc_MaxConnLifetime (cfg_DB cfg), po_MaxConnIdleTime = dc_MaxConnIdleTime (cfg_DB cfg),
      po_HealthCheckPeriod = dc_HealthCheckPeriod (cfg_DB cfg)\<rparr>"

text \<open>\<open>open_db\<close> is \<^verbatim>\<open>repo.Open\<close>: an error, or a database.\<close>

definition OpenWithConfig ::
  "UrlLib \<Rightarrow> (string \<Rightarrow> string \<Rightarrow> PoolConfig \<Rightarrow> string + 'd) \<Rightarrow> Config \<Rightarrow> string \<Rightarrow> string + 'd" where
  "OpenWithConfig U open_db cfg encryptor =
     (case (if TLSEnabled cfg then ValidateDatabaseURL U (dc_URL (cfg_DB cfg)) else None) of
        Some err \<Rightarrow> Inl err
      | None \<Rightarrow> open_db (dc_URL (cfg_DB cfg)) encryptor (poolConfigFrom cfg))"

text \<open>The first part of \<^verbatim>\<open>bootstrap.New\<close>: every failure ends the process.\<close>

datatype start_failure = ConfigFailed string | EncryptorFailed crypto_error | DatabaseFailed string | NATSFailed string

definition startup ::
  "EnvLib \<Rightarrow> KeyLib \<Rightarrow> UrlLib \<Rightarrow> Cipher \<Rightarrow> (string \<Rightarrow> string \<Rightarrow> PoolConfig \<Rightarrow> string + 'd) \<Rightarrow> Process \<Rightarrow>
   start_failure + Config \<times> 'd"
where
  "startup L K U C open_db pr =
     (case Load L K pr of
        Inl err \<Rightarrow> Inl (ConfigFailed err)
      | Inr cfg \<Rightarrow>
          (case crypto_New C (cfg_EncryptionKey cfg) of
             Inl err \<Rightarrow> Inl (EncryptorFailed err)
           | Inr encryptor \<Rightarrow>
               (case OpenWithConfig U open_db cfg encryptor of
                  Inl err \<Rightarrow> Inl (DatabaseFailed err)
                | Inr db \<Rightarrow>
                    (case (if TLSEnabled cfg \<or> IsProduction (pr_env pr) then ValidateEnvConfig U cfg else None) of
                       Some err \<Rightarrow> Inl (NATSFailed err)
                     | None \<Rightarrow> Inr (cfg, db)))))"

section \<open>What the schema says\<close>

text \<open>
  The schema read as a specification: a row says which value its field has in an environment, or which error is
  reported.  How a text is parsed follows from the type of the field in \<^verbatim>\<open>config.go\<close>.
\<close>

datatype setting = Txt string | Num int | Unsigned u64 | Float float64 | Flag bool

datatype kind = KText | KDuration | KInt | KInt64 | KUint64 | KFloat64 | KBool

definition field_kinds :: "(string \<times> kind) list" where
  "field_kinds =
    [(''HTTP.WriteTimeout'', KDuration),
     (''HTTP.ReadTimeout'', KDuration),
     (''HTTP.IdleTimeout'', KDuration),
     (''HTTP.MaxRequestBodySize'', KInt),
     (''HTTP.ResponseCompression'', KBool),
     (''DB.MaxConnLifetime'', KDuration),
     (''DB.HealthCheckPeriod'', KDuration),
     (''DB.MaxConnIdleTime'', KDuration),
     (''DB.MaxConns'', KInt),
     (''DB.MinConns'', KInt),
     (''NATS.ClientCacheTTL'', KDuration),
     (''NATS.InitialRetryAttempts'', KInt),
     (''NATS.MaxReconnect'', KInt),
     (''NATS.ReconnectWait'', KDuration),
     (''NATS.AllowReconnect'', KBool),
     (''NATS.TlsInsecureSkipVerify'', KBool),
     (''NATS.DontRandomize'', KBool),
     (''NATS.AllowMetrics'', KBool),
     (''NATS.AllowTracing'', KBool),
     (''AI.ContextCacheTTL'', KDuration),
     (''AI.RequestTimeout'', KDuration),
     (''AI.MaxTokens'', KInt),
     (''AI.Enabled'', KBool),
     (''SMTP.Port'', KInt),
     (''SMTP.Timeout'', KDuration),
     (''SMTP.Enabled'', KBool),
     (''SMTP.TLS'', KBool),
     (''Auth.SessionTTL'', KDuration),
     (''Auth.RefreshTokenTTL'', KDuration),
     (''Auth.RateLimitWindow'', KDuration),
     (''Auth.RateLimit'', KInt),
     (''LiveWS.IdleTimeout'', KDuration),
     (''LiveWS.RateLimit'', KDuration),
     (''LiveWS.MaxMessages'', KInt),
     (''LiveWS.PayloadTruncateBytes'', KInt),
     (''MetricsSnapshot.Interval'', KDuration),
     (''MetricsSnapshot.Retention'', KDuration),
     (''MetricsSnapshot.BottleneckRetention'', KDuration),
     (''MetricsSnapshot.CleanupInterval'', KDuration),
     (''Pprof.CPUMaxSeconds'', KInt),
     (''Pprof.AuthEnabled'', KBool),
     (''Pprof.Enabled'', KBool),
     (''SlowConsumer.PendingThreshold'', KUint64),
     (''SlowConsumer.LagThreshold'', KUint64),
     (''SlowConsumer.AckPendingRatio'', KFloat64),
     (''Pagination.MaxLimit'', KInt),
     (''Pagination.DefaultLimit'', KInt),
     (''RequestTimeout'', KDuration),
     (''LookBackDuration'', KDuration),
     (''HealthCheckTimeout'', KDuration),
     (''JetStreamViewCacheTTL'', KDuration),
     (''InviteTTL'', KDuration),
     (''MaxMonitoringBodyBytes'', KInt64),
     (''AuditDefaultLimit'', KInt),
     (''MetricsAuthEnabled'', KBool)]"

definition kind_of :: "string \<Rightarrow> kind" where
  "kind_of path = (case map_of field_kinds path of None \<Rightarrow> KText | Some k \<Rightarrow> k)"

fun read_kind :: "EnvLib \<Rightarrow> kind \<Rightarrow> string \<Rightarrow> string + setting" where
  "read_kind L KText raw = Inr (Txt raw)"
| "read_kind L KDuration raw = map_sum id Num (el_ParseDuration L raw)"
| "read_kind L KInt raw = map_sum id Num (el_ParseInt L raw)"
| "read_kind L KInt64 raw = map_sum id Num (el_ParseInt64 L raw)"
| "read_kind L KUint64 raw = map_sum id Unsigned (el_ParseUint64 L raw)"
| "read_kind L KFloat64 raw = map_sum id Float (el_ParseFloat64 L raw)"
| "read_kind L KBool raw = map_sum id Flag (el_ParseBool L raw)"

fun zero_kind :: "kind \<Rightarrow> setting" where
  "zero_kind KText = Txt []"
| "zero_kind KUint64 = Unsigned 0"
| "zero_kind KFloat64 = Float (Fin 0)"
| "zero_kind KBool = Flag False"
| "zero_kind _ = Num 0"

definition parse_row :: "EnvLib \<Rightarrow> SchemaField \<Rightarrow> string \<Rightarrow> FieldError + setting" where
  "parse_row L f raw =
     map_sum (ParseFailed (sf_FieldPath f) (sf_Key f) raw) id (read_kind L (kind_of (sf_FieldPath f)) raw)"

definition schema_read :: "EnvLib \<Rightarrow> snapshot \<Rightarrow> SchemaField \<Rightarrow> FieldError + setting" where
  "schema_read L snap f =
     (case given L snap (sf_Key f) of
        Some raw \<Rightarrow> parse_row L f raw
      | None \<Rightarrow>
          if sf_Required f then Inl (RequiredMissing (sf_FieldPath f) (sf_Key f))
          else if sf_HasDefault f then parse_row L f (sf_Default f)
          else Inr (zero_kind (kind_of (sf_FieldPath f))))"

fun lefts :: "('a + 'b) list \<Rightarrow> 'a list" where
  "lefts [] = []"
| "lefts (Inl e # rs) = e # lefts rs"
| "lefts (Inr v # rs) = lefts rs"

text \<open>The fields of a configuration in the order of the schema.\<close>

definition HTTP_fields :: "HTTPConfig \<Rightarrow> setting list" where
  "HTTP_fields c =
    [Txt (hc_Addr c), Num (hc_WriteTimeout c), Num (hc_ReadTimeout c), Num (hc_IdleTimeout c),
     Num (hc_MaxRequestBodySize c), Flag (hc_ResponseCompression c)]"

definition DB_fields :: "DBConfig \<Rightarrow> setting list" where
  "DB_fields c =
    [Txt (dc_URL c), Num (dc_MaxConnLifetime c), Num (dc_HealthCheckPeriod c), Num (dc_MaxConnIdleTime c),
     Num (dc_MaxConns c), Num (dc_MinConns c)]"

definition NATS_fields :: "NATSConfig \<Rightarrow> setting list" where
  "NATS_fields c =
    [Txt (ntc_URL c), Txt (ntc_CredsFile c), Txt (ntc_Token c), Txt (ntc_AccountSeed c),
     Txt (ntc_MonitoringURL c), Txt (ntc_TlsCAFile c), Txt (ntc_TlsCertFile c), Txt (ntc_TlsKeyFile c),
     Txt (ntc_TlsServerName c), Num (ntc_ClientCacheTTL c), Num (ntc_InitialRetryAttempts c),
     Num (ntc_MaxReconnect c), Num (ntc_ReconnectWait c), Flag (ntc_AllowReconnect c),
     Flag (ntc_TlsInsecureSkipVerify c), Flag (ntc_DontRandomize c), Flag (ntc_AllowMetrics c),
     Flag (ntc_AllowTracing c)]"

definition AI_fields :: "AIConfig \<Rightarrow> setting list" where
  "AI_fields c =
    [Txt (aic_GeminiAPIBase c), Txt (aic_Model c), Txt (aic_APIKey c), Num (aic_ContextCacheTTL c),
     Num (aic_RequestTimeout c), Num (aic_MaxTokens c), Flag (aic_Enabled c)]"

definition SMTP_fields :: "SMTPConfig \<Rightarrow> setting list" where
  "SMTP_fields c =
    [Txt (smc_From c), Txt (smc_Password c), Txt (smc_Username c), Txt (smc_Host c), Num (smc_Port c),
     Num (smc_Timeout c), Flag (smc_Enabled c), Flag (smc_TLS c)]"

definition Auth_fields :: "AuthConfig \<Rightarrow> setting list" where
  "Auth_fields c =
    [Txt (auc_SessionPrivateKey c), Txt (auc_SessionPublicKey c), Num (auc_SessionTTL c),
     Num (auc_RefreshTokenTTL c), Num (auc_RateLimitWindow c), Num (auc_RateLimit c)]"

definition LiveWS_fields :: "LiveWSConfig \<Rightarrow> setting list" where
  "LiveWS_fields c =
    [Num (lwc_IdleTimeout c), Num (lwc_RateLimit c), Num (lwc_MaxMessages c), Num (lwc_PayloadTruncateBytes c)]"

definition MetricsSnapshot_fields :: "MetricsSnapshotConfig \<Rightarrow> setting list" where
  "MetricsSnapshot_fields c =
    [Num (msc_Interval c), Num (msc_Retention c), Num (msc_BottleneckRetention c), Num (msc_CleanupInterval c)]"

definition Pprof_fields :: "PprofConfig \<Rightarrow> setting list" where
  "Pprof_fields c =
    [Num (ppc_CPUMaxSeconds c), Flag (ppc_AuthEnabled c), Flag (ppc_Enabled c)]"

definition SlowConsumer_fields :: "SlowConsumerConfig \<Rightarrow> setting list" where
  "SlowConsumer_fields c =
    [Unsigned (slc_PendingThreshold c), Unsigned (slc_LagThreshold c), Float (slc_AckPendingRatio c)]"

definition Pagination_fields :: "PaginationConfig \<Rightarrow> setting list" where
  "Pagination_fields c =
    [Num (pgc_MaxLimit c), Num (pgc_DefaultLimit c)]"

definition top_fields :: "Config \<Rightarrow> setting list" where
  "top_fields c =
    [Txt (cfg_EncryptionKey c), Txt (cfg_StaticDir c), Txt (cfg_AdminUsername c), Txt (cfg_AdminPassword c),
     Txt (cfg_PublicBaseURL c), Txt (cfg_DefaultClusterName c), Txt (cfg_CORSAllowedOrigins c),
     Txt (cfg_TrustedProxies c), Txt (cfg_BehaviorFingerprintKVBucket c), Num (cfg_RequestTimeout c),
     Num (cfg_LookBackDuration c), Num (cfg_HealthCheckTimeout c), Num (cfg_JetStreamViewCacheTTL c),
     Num (cfg_InviteTTL c), Num (cfg_MaxMonitoringBodyBytes c), Num (cfg_AuditDefaultLimit c),
     Flag (cfg_MetricsAuthEnabled c)]"

definition config_fields :: "Config \<Rightarrow> setting list" where
  "config_fields c =
    Txt (cfg_ProjectName c) # HTTP_fields (cfg_HTTP c) @
    DB_fields (cfg_DB c) @
    NATS_fields (cfg_NATS c) @
    AI_fields (cfg_AI c) @
    SMTP_fields (cfg_SMTP c) @
    Auth_fields (cfg_Auth c) @
    LiveWS_fields (cfg_LiveWS c) @
    MetricsSnapshot_fields (cfg_MetricsSnapshot c) @
    Pprof_fields (cfg_Pprof c) @
    SlowConsumer_fields (cfg_SlowConsumer c) @
    Pagination_fields (cfg_Pagination c) @
    top_fields c"

section \<open>The loader and the schema\<close>

lemma kind_of_path:
  "kind_of ''ProjectName'' = KText"
  "kind_of ''HTTP.Addr'' = KText"
  "kind_of ''HTTP.WriteTimeout'' = KDuration"
  "kind_of ''HTTP.ReadTimeout'' = KDuration"
  "kind_of ''HTTP.IdleTimeout'' = KDuration"
  "kind_of ''HTTP.MaxRequestBodySize'' = KInt"
  "kind_of ''HTTP.ResponseCompression'' = KBool"
  "kind_of ''DB.URL'' = KText"
  "kind_of ''DB.MaxConnLifetime'' = KDuration"
  "kind_of ''DB.HealthCheckPeriod'' = KDuration"
  "kind_of ''DB.MaxConnIdleTime'' = KDuration"
  "kind_of ''DB.MaxConns'' = KInt"
  "kind_of ''DB.MinConns'' = KInt"
  "kind_of ''NATS.URL'' = KText"
  "kind_of ''NATS.CredsFile'' = KText"
  "kind_of ''NATS.Token'' = KText"
  "kind_of ''NATS.AccountSeed'' = KText"
  "kind_of ''NATS.MonitoringURL'' = KText"
  "kind_of ''NATS.TlsCAFile'' = KText"
  "kind_of ''NATS.TlsCertFile'' = KText"
  "kind_of ''NATS.TlsKeyFile'' = KText"
  "kind_of ''NATS.TlsServerName'' = KText"
  "kind_of ''NATS.ClientCacheTTL'' = KDuration"
  "kind_of ''NATS.InitialRetryAttempts'' = KInt"
  "kind_of ''NATS.MaxReconnect'' = KInt"
  "kind_of ''NATS.ReconnectWait'' = KDuration"
  "kind_of ''NATS.AllowReconnect'' = KBool"
  "kind_of ''NATS.TlsInsecureSkipVerify'' = KBool"
  "kind_of ''NATS.DontRandomize'' = KBool"
  "kind_of ''NATS.AllowMetrics'' = KBool"
  "kind_of ''NATS.AllowTracing'' = KBool"
  "kind_of ''AI.GeminiAPIBase'' = KText"
  "kind_of ''AI.Model'' = KText"
  "kind_of ''AI.APIKey'' = KText"
  "kind_of ''AI.ContextCacheTTL'' = KDuration"
  "kind_of ''AI.RequestTimeout'' = KDuration"
  "kind_of ''AI.MaxTokens'' = KInt"
  "kind_of ''AI.Enabled'' = KBool"
  "kind_of ''SMTP.From'' = KText"
  "kind_of ''SMTP.Password'' = KText"
  "kind_of ''SMTP.Username'' = KText"
  "kind_of ''SMTP.Host'' = KText"
  "kind_of ''SMTP.Port'' = KInt"
  "kind_of ''SMTP.Timeout'' = KDuration"
  "kind_of ''SMTP.Enabled'' = KBool"
  "kind_of ''SMTP.TLS'' = KBool"
  "kind_of ''Auth.SessionPrivateKey'' = KText"
  "kind_of ''Auth.SessionPublicKey'' = KText"
  "kind_of ''Auth.SessionTTL'' = KDuration"
  "kind_of ''Auth.RefreshTokenTTL'' = KDuration"
  "kind_of ''Auth.RateLimitWindow'' = KDuration"
  "kind_of ''Auth.RateLimit'' = KInt"
  "kind_of ''LiveWS.IdleTimeout'' = KDuration"
  "kind_of ''LiveWS.RateLimit'' = KDuration"
  "kind_of ''LiveWS.MaxMessages'' = KInt"
  "kind_of ''LiveWS.PayloadTruncateBytes'' = KInt"
  "kind_of ''MetricsSnapshot.Interval'' = KDuration"
  "kind_of ''MetricsSnapshot.Retention'' = KDuration"
  "kind_of ''MetricsSnapshot.BottleneckRetention'' = KDuration"
  "kind_of ''MetricsSnapshot.CleanupInterval'' = KDuration"
  "kind_of ''Pprof.CPUMaxSeconds'' = KInt"
  "kind_of ''Pprof.AuthEnabled'' = KBool"
  "kind_of ''Pprof.Enabled'' = KBool"
  "kind_of ''SlowConsumer.PendingThreshold'' = KUint64"
  "kind_of ''SlowConsumer.LagThreshold'' = KUint64"
  "kind_of ''SlowConsumer.AckPendingRatio'' = KFloat64"
  "kind_of ''Pagination.MaxLimit'' = KInt"
  "kind_of ''Pagination.DefaultLimit'' = KInt"
  "kind_of ''EncryptionKey'' = KText"
  "kind_of ''StaticDir'' = KText"
  "kind_of ''AdminUsername'' = KText"
  "kind_of ''AdminPassword'' = KText"
  "kind_of ''PublicBaseURL'' = KText"
  "kind_of ''DefaultClusterName'' = KText"
  "kind_of ''CORSAllowedOrigins'' = KText"
  "kind_of ''TrustedProxies'' = KText"
  "kind_of ''BehaviorFingerprintKVBucket'' = KText"
  "kind_of ''RequestTimeout'' = KDuration"
  "kind_of ''LookBackDuration'' = KDuration"
  "kind_of ''HealthCheckTimeout'' = KDuration"
  "kind_of ''JetStreamViewCacheTTL'' = KDuration"
  "kind_of ''InviteTTL'' = KDuration"
  "kind_of ''MaxMonitoringBodyBytes'' = KInt64"
  "kind_of ''AuditDefaultLimit'' = KInt"
  "kind_of ''MetricsAuthEnabled'' = KBool"
  by code_simp+

text \<open>The errors of a block do not depend on the configuration built so far.\<close>

lemma lefts_append [simp]: "lefts (xs @ ys) = lefts xs @ lefts ys"
  by (induction xs rule: lefts.induct) simp_all

definition reports :: "EnvLib \<Rightarrow> snapshot \<Rightarrow> block \<Rightarrow> SchemaField \<Rightarrow> bool" where
  "reports L snap b f \<longleftrightarrow> (\<forall>st. fst (b st) = fst st @ lefts [schema_read L snap f])"

lemma field_sel [simp]:
  "sf_Key (field k p d x h r s) = k" "sf_FieldPath (field k p d x h r s) = p"
  "sf_Default (field k p d x h r s) = d" "sf_HasDefault (field k p d x h r s) = h"
  "sf_Required (field k p d x h r s) = r"
  by (simp_all add: field_def)

lemma parse_row_reads:
  assumes "\<And>raw. read_kind L (kind_of p) raw = map_sum id wrap (parse raw)"
  shows "parse_row L (field k p d x h r s) raw =
    (case parse raw of Inl e \<Rightarrow> Inl (ParseFailed p k raw e) | Inr v \<Rightarrow> Inr (wrap v))"
  by (simp add: parse_row_def assms split: sum.split)

lemma parse_row_text: "kind_of p = KText \<Longrightarrow> parse_row L (field k p d x h r s) raw = Inr (Txt raw)"
  by (simp add: parse_row_def)

lemma reports_text:
  assumes "kind_of p = KText"
  shows "reports L snap (required_text L snap p k put) (field k p [] x False True s)"
    "reports L snap (default_text L snap k d put) (field k p d x True False s)"
    "reports L snap (optional_text L snap k put) (field k p [] x False False s)"
  using assms
  by (auto simp: reports_def required_text_def default_text_def optional_text_def schema_read_def
      parse_row_text split: option.split)

lemma reports_value:
  assumes "\<And>raw. read_kind L (kind_of p) raw = map_sum id wrap (parse raw)"
  shows "reports L snap (required_value L snap parse p k put) (field k p [] x False True s)"
    "reports L snap (default_value L snap parse p k d put) (field k p d x True False s)"
    "reports L snap (optional_value L snap parse p k put) (field k p [] x False False s)"
  by (auto simp: reports_def required_value_def default_value_def optional_value_def schema_read_def store_def
      parse_row_reads [of L p wrap parse, OF assms] split: option.split sum.split)

lemmas reports_kinds =
  reports_value [where wrap = Num and parse = "el_ParseDuration L" for L]
  reports_value [where wrap = Num and parse = "el_ParseInt L" for L]
  reports_value [where wrap = Num and parse = "el_ParseInt64 L" for L]
  reports_value [where wrap = Unsigned and parse = "el_ParseUint64 L" for L]
  reports_value [where wrap = Float and parse = "el_ParseFloat64 L" for L]
  reports_value [where wrap = Flag and parse = "el_ParseBool L" for L]

lemma reports_load_top_1: "list_all2 (reports L snap) (load_top_1 L snap) schema_top_1"
  by (simp add: load_top_1_def schema_top_1_def reports_text reports_kinds kind_of_path)

lemma reports_load_HTTP: "list_all2 (reports L snap) (load_HTTP L snap) schema_HTTP"
  by (simp add: load_HTTP_def schema_HTTP_def reports_text reports_kinds kind_of_path)

lemma reports_load_DB: "list_all2 (reports L snap) (load_DB L snap) schema_DB"
  by (simp add: load_DB_def schema_DB_def reports_text reports_kinds kind_of_path)

lemma reports_load_NATS_1: "list_all2 (reports L snap) (load_NATS_1 L snap) schema_NATS_1"
  by (simp add: load_NATS_1_def schema_NATS_1_def reports_text reports_kinds kind_of_path)

lemma reports_load_NATS_2: "list_all2 (reports L snap) (load_NATS_2 L snap) schema_NATS_2"
  by (simp add: load_NATS_2_def schema_NATS_2_def reports_text reports_kinds kind_of_path)

lemma reports_load_AI: "list_all2 (reports L snap) (load_AI L snap) schema_AI"
  by (simp add: load_AI_def schema_AI_def reports_text reports_kinds kind_of_path)

lemma reports_load_SMTP: "list_all2 (reports L snap) (load_SMTP L snap) schema_SMTP"
  by (simp add: load_SMTP_def schema_SMTP_def reports_text reports_kinds kind_of_path)

lemma reports_load_Auth: "list_all2 (reports L snap) (load_Auth L snap) schema_Auth"
  by (simp add: load_Auth_def schema_Auth_def reports_text reports_kinds kind_of_path)

lemma reports_load_LiveWS: "list_all2 (reports L snap) (load_LiveWS L snap) schema_LiveWS"
  by (simp add: load_LiveWS_def schema_LiveWS_def reports_text reports_kinds kind_of_path)

lemma reports_load_MetricsSnapshot: "list_all2 (reports L snap) (load_MetricsSnapshot L snap) schema_MetricsSnapshot"
  by (simp add: load_MetricsSnapshot_def schema_MetricsSnapshot_def reports_text reports_kinds kind_of_path)

lemma reports_load_Pprof: "list_all2 (reports L snap) (load_Pprof L snap) schema_Pprof"
  by (simp add: load_Pprof_def schema_Pprof_def reports_text reports_kinds kind_of_path)

lemma reports_load_SlowConsumer: "list_all2 (reports L snap) (load_SlowConsumer L snap) schema_SlowConsumer"
  by (simp add: load_SlowConsumer_def schema_SlowConsumer_def reports_text reports_kinds kind_of_path)

lemma reports_load_Pagination: "list_all2 (reports L snap) (load_Pagination L snap) schema_Pagination"
  by (simp add: load_Pagination_def schema_Pagination_def reports_text reports_kinds kind_of_path)

lemma reports_load_top_2: "list_all2 (reports L snap) (load_top_2 L snap) schema_top_2"
  by (simp add: load_top_2_def schema_top_2_def reports_text reports_kinds kind_of_path)

lemma reports_load_top_3: "list_all2 (reports L snap) (load_top_3 L snap) schema_top_3"
  by (simp add: load_top_3_def schema_top_3_def reports_text reports_kinds kind_of_path)

lemma reports_all: "list_all2 (reports L snap) (all_blocks L snap) configAuditSchema"
  unfolding all_blocks_def configAuditSchema_def
  by (intro list_all2_appendI reports_load_top_1 reports_load_HTTP reports_load_DB reports_load_NATS_1 reports_load_NATS_2 reports_load_AI reports_load_SMTP reports_load_Auth reports_load_LiveWS reports_load_MetricsSnapshot reports_load_Pprof reports_load_SlowConsumer reports_load_Pagination reports_load_top_2 reports_load_top_3)

lemma run_reports:
  "list_all2 (reports L snap) bs fs \<Longrightarrow> fst (run_blocks bs st) = fst st @ lefts (map (schema_read L snap) fs)"
proof (induction arbitrary: st rule: list_all2_induct)
  case (Cons b bs f fs)
  have "fst (b st) = fst st @ lefts [schema_read L snap f]"
    using Cons.hyps(1) [unfolded reports_def] by (rule spec)
  then show ?case
    using Cons.IH [of "b st"] by (cases "schema_read L snap f") (simp_all add: run_blocks_def)
qed (simp add: run_blocks_def)

text \<open>
  Without errors every block stores a value: the text given, or the default, or what was there before.
\<close>

definition got :: "EnvLib \<Rightarrow> snapshot \<Rightarrow> string \<Rightarrow> string \<Rightarrow> string" where
  "got L snap k d = (case given L snap k of None \<Rightarrow> d | Some raw \<Rightarrow> raw)"

lemma read_default: "schema_read L snap (field k p d x True False s) = parse_row L (field k p d x True False s) (got L snap k d)"
  by (simp add: schema_read_def got_def split: option.split)

lemma read_text:
  assumes "kind_of p = KText"
  shows "schema_read L snap (field k p d x True False s) = Inr (Txt (got L snap k d))"
    "schema_read L snap (field k p [] x False False s) = Inr (Txt (got L snap k []))"
  using assms by (simp_all add: schema_read_def parse_row_text got_def split: option.split)

lemma lefts_set: "set (lefts rs) = {e. Inl e \<in> set rs}"
  by (induction rs rule: lefts.induct) auto

lemma lefts_ok: "lefts (r # rs) = [] \<longleftrightarrow> (\<exists>v. r = Inr v) \<and> lefts rs = []"
  by (cases r) simp_all

lemma run_Cons: "run_blocks (b # bs) st = run_blocks bs (b st)" "run_blocks [] st = st"
  by (simp_all add: run_blocks_def)

lemma run_append: "run_blocks (as @ bs) st = run_blocks bs (run_blocks as st)"
  by (simp add: run_blocks_def)

lemma default_text_got: "default_text L snap k d put st = (fst st, put (got L snap k d) (snd st))"
  by (simp add: default_text_def got_def split: option.split)

lemma optional_text_got:
  "put (get (snd st)) (snd st) = snd st \<Longrightarrow>
   optional_text L snap k put st = (fst st, put (got L snap k (get (snd st))) (snd st))"
  by (cases st) (simp add: optional_text_def got_def split: option.split)

lemma read_given:
  "given L snap k = Some raw \<Longrightarrow> schema_read L snap (field k p d x h r s) = parse_row L (field k p d x h r s) raw"
  by (simp add: schema_read_def)

lemma read_zero:
  "given L snap k = None \<Longrightarrow> schema_read L snap (field k p [] x False False s) = Inr (zero_kind (kind_of p))"
  by (simp add: schema_read_def)

lemma map_sum_eq_Inr: "map_sum f g x = Inr v \<longleftrightarrow> (\<exists>w. x = Inr w \<and> v = g w)"
  by (cases x) auto

lemma parse_row_Inr:
  "(\<exists>v. parse_row L f raw = Inr v) \<longleftrightarrow> (\<exists>v. read_kind L (kind_of (sf_FieldPath f)) raw = Inr v)"
  by (simp add: parse_row_def map_sum_eq_Inr)

lemma read_required:
  "(\<exists>v. schema_read L snap (field k p [] x False True s) = Inr v) \<longleftrightarrow>
   (\<exists>raw. given L snap k = Some raw \<and> (\<exists>v. read_kind L (kind_of p) raw = Inr v))"
  by (auto simp: schema_read_def parse_row_def map_sum_eq_Inr split: option.split)

lemma required_ok:
  "given L snap k = Some raw \<Longrightarrow> required_text L snap p k put st = (fst st, put raw (snd st))"
  "given L snap k = Some raw \<Longrightarrow> parse raw = Inr v \<Longrightarrow>
   required_value L snap parse p k put' st = (fst st, put' v (snd st))"
  by (simp_all add: required_text_def required_value_def store_def)

lemma optional_value_ok:
  "given L snap k = None \<Longrightarrow> optional_value L snap parse p k put st = st"
  "given L snap k = Some raw \<Longrightarrow> parse raw = Inr v \<Longrightarrow>
   optional_value L snap parse p k put st = (fst st, put v (snd st))"
  by (simp_all add: optional_value_def store_def)

lemma default_value_ok:
  assumes "parse (got L snap k d) = Inr v"
  shows "default_value L snap parse p k d put st = (fst st, put v (snd st))"
  using assms by (simp add: default_value_def store_def got_def split: option.splits)


lemma optional_settings:
  fixes st :: loading
  shows
   "optional_text L snap ''NATS_URL''
      (\<lambda>v c. c\<lparr>cfg_NATS := (cfg_NATS c)\<lparr>ntc_URL := v\<rparr>\<rparr>) st =
      (fst st, (\<lambda>v c. c\<lparr>cfg_NATS := (cfg_NATS c)\<lparr>ntc_URL := v\<rparr>\<rparr>) (got L snap ''NATS_URL'' (ntc_URL (cfg_NATS (snd st)))) (snd st))"
   "optional_text L snap ''NATS_CREDS_FILE''
      (\<lambda>v c. c\<lparr>cfg_NATS := (cfg_NATS c)\<lparr>ntc_CredsFile := v\<rparr>\<rparr>) st =
      (fst st, (\<lambda>v c. c\<lparr>cfg_NATS := (cfg_NATS c)\<lparr>ntc_CredsFile := v\<rparr>\<rparr>) (got L snap ''NATS_CREDS_FILE'' (ntc_CredsFile (cfg_NATS (snd st)))) (snd st))"
   "optional_text L snap ''NATS_TOKEN''
      (\<lambda>v c. c\<lparr>cfg_NATS := (cfg_NATS c)\<lparr>ntc_Token := v\<rparr>\<rparr>) st =
      (fst st, (\<lambda>v c. c\<lparr>cfg_NATS := (cfg_NATS c)\<lparr>ntc_Token := v\<rparr>\<rparr>) (got L snap ''NATS_TOKEN'' (ntc_Token (cfg_NATS (snd st)))) (snd st))"
   "optional_text L snap ''NATS_ACCOUNT_SEED''
      (\<lambda>v c. c\<lparr>cfg_NATS := (cfg_NATS c)\<lparr>ntc_AccountSeed := v\<rparr>\<rparr>) st =
      (fst st, (\<lambda>v c. c\<lparr>cfg_NATS := (cfg_NATS c)\<lparr>ntc_AccountSeed := v\<rparr>\<rparr>) (got L snap ''NATS_ACCOUNT_SEED'' (ntc_AccountSeed (cfg_NATS (snd st)))) (snd st))"
   "optional_text L snap ''NATS_MONITORING_URL''
      (\<lambda>v c. c\<lparr>cfg_NATS := (cfg_NATS c)\<lparr>ntc_MonitoringURL := v\<rparr>\<rparr>) st =
      (fst st, (\<lambda>v c. c\<lparr>cfg_NATS := (cfg_NATS c)\<lparr>ntc_MonitoringURL := v\<rparr>\<rparr>) (got L snap ''NATS_MONITORING_URL'' (ntc_MonitoringURL (cfg_NATS (snd st)))) (snd st))"
   "optional_text L snap ''NATS_TLS_CA_FILE''
      (\<lambda>v c. c\<lparr>cfg_NATS := (cfg_NATS c)\<lparr>ntc_TlsCAFile := v\<rparr>\<rparr>) st =
      (fst st, (\<lambda>v c. c\<lparr>cfg_NATS := (cfg_NATS c)\<lparr>ntc_TlsCAFile := v\<rparr>\<rparr>) (got L snap ''NATS_TLS_CA_FILE'' (ntc_TlsCAFile (cfg_NATS (snd st)))) (snd st))"
   "optional_text L snap ''NATS_TLS_CERT_FILE''
      (\<lambda>v c. c\<lparr>cfg_NATS := (cfg_NATS c)\<lparr>ntc_TlsCertFile := v\<rparr>\<rparr>) st =
      (fst st, (\<lambda>v c. c\<lparr>cfg_NATS := (cfg_NATS c)\<lparr>ntc_TlsCertFile := v\<rparr>\<rparr>) (got L snap ''NATS_TLS_CERT_FILE'' (ntc_TlsCertFile (cfg_NATS (snd st)))) (snd st))"
   "optional_text L snap ''NATS_TLS_KEY_FILE''
      (\<lambda>v c. c\<lparr>cfg_NATS := (cfg_NATS c)\<lparr>ntc_TlsKeyFile := v\<rparr>\<rparr>) st =
      (fst st, (\<lambda>v c. c\<lparr>cfg_NATS := (cfg_NATS c)\<lparr>ntc_TlsKeyFile := v\<rparr>\<rparr>) (got L snap ''NATS_TLS_KEY_FILE'' (ntc_TlsKeyFile (cfg_NATS (snd st)))) (snd st))"
   "optional_text L snap ''NATS_TLS_SERVER_NAME''
      (\<lambda>v c. c\<lparr>cfg_NATS := (cfg_NATS c)\<lparr>ntc_TlsServerName := v\<rparr>\<rparr>) st =
      (fst st, (\<lambda>v c. c\<lparr>cfg_NATS := (cfg_NATS c)\<lparr>ntc_TlsServerName := v\<rparr>\<rparr>) (got L snap ''NATS_TLS_SERVER_NAME'' (ntc_TlsServerName (cfg_NATS (snd st)))) (snd st))"
   "optional_text L snap ''AI_API_KEY''
      (\<lambda>v c. c\<lparr>cfg_AI := (cfg_AI c)\<lparr>aic_APIKey := v\<rparr>\<rparr>) st =
      (fst st, (\<lambda>v c. c\<lparr>cfg_AI := (cfg_AI c)\<lparr>aic_APIKey := v\<rparr>\<rparr>) (got L snap ''AI_API_KEY'' (aic_APIKey (cfg_AI (snd st)))) (snd st))"
   "optional_text L snap ''SMTP_FROM''
      (\<lambda>v c. c\<lparr>cfg_SMTP := (cfg_SMTP c)\<lparr>smc_From := v\<rparr>\<rparr>) st =
      (fst st, (\<lambda>v c. c\<lparr>cfg_SMTP := (cfg_SMTP c)\<lparr>smc_From := v\<rparr>\<rparr>) (got L snap ''SMTP_FROM'' (smc_From (cfg_SMTP (snd st)))) (snd st))"
   "optional_text L snap ''SMTP_PASSWORD''
      (\<lambda>v c. c\<lparr>cfg_SMTP := (cfg_SMTP c)\<lparr>smc_Password := v\<rparr>\<rparr>) st =
      (fst st, (\<lambda>v c. c\<lparr>cfg_SMTP := (cfg_SMTP c)\<lparr>smc_Password := v\<rparr>\<rparr>) (got L snap ''SMTP_PASSWORD'' (smc_Password (cfg_SMTP (snd st)))) (snd st))"
   "optional_text L snap ''SMTP_USERNAME''
      (\<lambda>v c. c\<lparr>cfg_SMTP := (cfg_SMTP c)\<lparr>smc_Username := v\<rparr>\<rparr>) st =
      (fst st, (\<lambda>v c. c\<lparr>cfg_SMTP := (cfg_SMTP c)\<lparr>smc_Username := v\<rparr>\<rparr>) (got L snap ''SMTP_USERNAME'' (smc_Username (cfg_SMTP (snd st)))) (snd st))"
   "optional_text L snap ''STATIC_DIR''
      (\<lambda>v c. c\<lparr>cfg_StaticDir := v\<rparr>) st =
      (fst st, (\<lambda>v c. c\<lparr>cfg_StaticDir := v\<rparr>) (got L snap ''STATIC_DIR'' (cfg_StaticDir (snd st))) (snd st))"
   "optional_text L snap ''CORS_ALLOWED_ORIGINS''
      (\<lambda>v c. c\<lparr>cfg_CORSAllowedOrigins := v\<rparr>) st =
      (fst st, (\<lambda>v c. c\<lparr>cfg_CORSAllowedOrigins := v\<rparr>) (got L snap ''CORS_ALLOWED_ORIGINS'' (cfg_CORSAllowedOrigins (snd st))) (snd st))"
   "optional_text L snap ''TRUSTED_PROXIES''
      (\<lambda>v c. c\<lparr>cfg_TrustedProxies := v\<rparr>) st =
      (fst st, (\<lambda>v c. c\<lparr>cfg_TrustedProxies := v\<rparr>) (got L snap ''TRUSTED_PROXIES'' (cfg_TrustedProxies (snd st))) (snd st))"
  by (simp_all add: optional_text_def got_def split: option.split)

lemmas ok_simps = lefts_ok parse_row_Inr read_required map_sum_eq_Inr kind_of_path read_text read_default
  default_text_got default_value_ok required_ok optional_settings read_given parse_row_def

text \<open>All parts of a configuration but the named one are the same.\<close>

definition others :: "string \<Rightarrow> Config \<Rightarrow> Config \<Rightarrow> bool" where
  "others part c c' \<longleftrightarrow>
    (part \<noteq> ''HTTP'' \<longrightarrow> cfg_HTTP c' = cfg_HTTP c) \<and>
    (part \<noteq> ''DB'' \<longrightarrow> cfg_DB c' = cfg_DB c) \<and>
    (part \<noteq> ''NATS'' \<longrightarrow> cfg_NATS c' = cfg_NATS c) \<and>
    (part \<noteq> ''AI'' \<longrightarrow> cfg_AI c' = cfg_AI c) \<and>
    (part \<noteq> ''SMTP'' \<longrightarrow> cfg_SMTP c' = cfg_SMTP c) \<and>
    (part \<noteq> ''Auth'' \<longrightarrow> cfg_Auth c' = cfg_Auth c) \<and>
    (part \<noteq> ''LiveWS'' \<longrightarrow> cfg_LiveWS c' = cfg_LiveWS c) \<and>
    (part \<noteq> ''MetricsSnapshot'' \<longrightarrow> cfg_MetricsSnapshot c' = cfg_MetricsSnapshot c) \<and>
    (part \<noteq> ''Pprof'' \<longrightarrow> cfg_Pprof c' = cfg_Pprof c) \<and>
    (part \<noteq> ''SlowConsumer'' \<longrightarrow> cfg_SlowConsumer c' = cfg_SlowConsumer c) \<and>
    (part \<noteq> ''Pagination'' \<longrightarrow> cfg_Pagination c' = cfg_Pagination c) \<and>
    (part \<noteq> ''ProjectName'' \<longrightarrow> cfg_ProjectName c' = cfg_ProjectName c) \<and>
    (part \<noteq> ''top'' \<longrightarrow>
       cfg_StaticDir c' = cfg_StaticDir c \<and> cfg_CORSAllowedOrigins c' = cfg_CORSAllowedOrigins c \<and>
       cfg_TrustedProxies c' = cfg_TrustedProxies c \<and> cfg_LookBackDuration c' = cfg_LookBackDuration c)"

lemma values_HTTP:
  assumes "lefts (map (schema_read L snap) schema_HTTP) = []"
  obtains c' where "run_blocks (load_HTTP L snap) (es, c) = (es, c')" and "others ''HTTP'' c c'"
    and "map Inr (HTTP_fields (cfg_HTTP c')) = map (schema_read L snap) schema_HTTP"
  using assms
  by (auto simp: run_append run_Cons ok_simps others_def schema_HTTP_def
      load_HTTP_def HTTP_fields_def)

lemma values_DB:
  assumes "lefts (map (schema_read L snap) schema_DB) = []"
  obtains c' where "run_blocks (load_DB L snap) (es, c) = (es, c')" and "others ''DB'' c c'"
    and "map Inr (DB_fields (cfg_DB c')) = map (schema_read L snap) schema_DB"
  using assms
  by (auto simp: run_append run_Cons ok_simps others_def schema_DB_def
      load_DB_def DB_fields_def)

lemma values_NATS:
  assumes "lefts (map (schema_read L snap) (schema_NATS_1 @ schema_NATS_2)) = []" and "cfg_NATS c = zero_NATSConfig"
  obtains c' where "run_blocks (load_NATS_1 L snap @ load_NATS_2 L snap) (es, c) = (es, c')" and "others ''NATS'' c c'"
    and "map Inr (NATS_fields (cfg_NATS c')) = map (schema_read L snap) (schema_NATS_1 @ schema_NATS_2)"
  using assms
  by (auto simp: run_append run_Cons ok_simps others_def schema_NATS_1_def schema_NATS_2_def
      load_NATS_1_def load_NATS_2_def NATS_fields_def zero_NATSConfig_def)

lemma values_AI:
  assumes "lefts (map (schema_read L snap) schema_AI) = []" and "cfg_AI c = zero_AIConfig"
  obtains c' where "run_blocks (load_AI L snap) (es, c) = (es, c')" and "others ''AI'' c c'"
    and "map Inr (AI_fields (cfg_AI c')) = map (schema_read L snap) schema_AI"
  using assms
  by (auto simp: run_append run_Cons ok_simps others_def schema_AI_def
      load_AI_def AI_fields_def zero_AIConfig_def)

lemma values_SMTP:
  assumes "lefts (map (schema_read L snap) schema_SMTP) = []" and "cfg_SMTP c = zero_SMTPConfig"
  obtains c' where "run_blocks (load_SMTP L snap) (es, c) = (es, c')" and "others ''SMTP'' c c'"
    and "map Inr (SMTP_fields (cfg_SMTP c')) = map (schema_read L snap) schema_SMTP"
  using assms
  by (auto simp: run_append run_Cons ok_simps others_def schema_SMTP_def
      load_SMTP_def SMTP_fields_def zero_SMTPConfig_def)

lemma values_Auth:
  assumes "lefts (map (schema_read L snap) schema_Auth) = []"
  obtains c' where "run_blocks (load_Auth L snap) (es, c) = (es, c')" and "others ''Auth'' c c'"
    and "map Inr (Auth_fields (cfg_Auth c')) = map (schema_read L snap) schema_Auth"
  using assms
  by (auto simp: run_append run_Cons ok_simps others_def schema_Auth_def
      load_Auth_def Auth_fields_def)

lemma values_LiveWS:
  assumes "lefts (map (schema_read L snap) schema_LiveWS) = []"
  obtains c' where "run_blocks (load_LiveWS L snap) (es, c) = (es, c')" and "others ''LiveWS'' c c'"
    and "map Inr (LiveWS_fields (cfg_LiveWS c')) = map (schema_read L snap) schema_LiveWS"
  using assms
  by (auto simp: run_append run_Cons ok_simps others_def schema_LiveWS_def
      load_LiveWS_def LiveWS_fields_def)

lemma values_MetricsSnapshot:
  assumes "lefts (map (schema_read L snap) schema_MetricsSnapshot) = []"
  obtains c' where "run_blocks (load_MetricsSnapshot L snap) (es, c) = (es, c')" and "others ''MetricsSnapshot'' c c'"
    and "map Inr (MetricsSnapshot_fields (cfg_MetricsSnapshot c')) = map (schema_read L snap) schema_MetricsSnapshot"
  using assms
  by (auto simp: run_append run_Cons ok_simps others_def schema_MetricsSnapshot_def
      load_MetricsSnapshot_def MetricsSnapshot_fields_def)

lemma values_Pprof:
  assumes "lefts (map (schema_read L snap) schema_Pprof) = []"
  obtains c' where "run_blocks (load_Pprof L snap) (es, c) = (es, c')" and "others ''Pprof'' c c'"
    and "map Inr (Pprof_fields (cfg_Pprof c')) = map (schema_read L snap) schema_Pprof"
  using assms
  by (auto simp: run_append run_Cons ok_simps others_def schema_Pprof_def
      load_Pprof_def Pprof_fields_def)

lemma values_SlowConsumer:
  assumes "lefts (map (schema_read L snap) schema_SlowConsumer) = []"
  obtains c' where "run_blocks (load_SlowConsumer L snap) (es, c) = (es, c')" and "others ''SlowConsumer'' c c'"
    and "map Inr (SlowConsumer_fields (cfg_SlowConsumer c')) = map (schema_read L snap) schema_SlowConsumer"
  using assms
  by (auto simp: run_append run_Cons ok_simps others_def schema_SlowConsumer_def
      load_SlowConsumer_def SlowConsumer_fields_def)

lemma values_Pagination:
  assumes "lefts (map (schema_read L snap) schema_Pagination) = []"
  obtains c' where "run_blocks (load_Pagination L snap) (es, c) = (es, c')" and "others ''Pagination'' c c'"
    and "map Inr (Pagination_fields (cfg_Pagination c')) = map (schema_read L snap) schema_Pagination"
  using assms
  by (auto simp: run_append run_Cons ok_simps others_def schema_Pagination_def
      load_Pagination_def Pagination_fields_def)

lemma value_project:
  assumes "lefts (map (schema_read L snap) schema_top_1) = []"
  obtains c' where "run_blocks (load_top_1 L snap) (es, c) = (es, c')" and "others ''ProjectName'' c c'"
    and "[Inr (Txt (cfg_ProjectName c'))] = map (schema_read L snap) schema_top_1"
  using assms by (auto simp: run_Cons ok_simps others_def schema_top_1_def load_top_1_def)

lemma values_top:
  assumes "lefts (map (schema_read L snap) (schema_top_2 @ schema_top_3)) = []"
    and "cfg_StaticDir c = []" "cfg_CORSAllowedOrigins c = []" "cfg_TrustedProxies c = []" "cfg_LookBackDuration c = 0"
  shows "\<exists>c'. run_blocks (load_top_2 L snap @ load_top_3 L snap) (es, c) = (es, c') \<and> others ''top'' c c' \<and>
    map Inr (top_fields c') = map (schema_read L snap) (schema_top_2 @ schema_top_3)"
  using assms
  by (cases "given L snap ''LOOKBACK_DURATION''")
    (auto simp: run_append run_Cons ok_simps optional_value_ok read_zero others_def schema_top_2_def
      schema_top_3_def load_top_2_def load_top_3_def top_fields_def)
lemma values_services:
  assumes ok: "lefts (map (schema_read L snap) (schema_top_1 @ schema_HTTP @ schema_DB @ schema_NATS_1 @ schema_NATS_2 @ schema_AI @ schema_SMTP)) = []"
    and zero: "cfg_NATS c = zero_NATSConfig" "cfg_AI c = zero_AIConfig" "cfg_SMTP c = zero_SMTPConfig"
  obtains c' where "run_blocks (load_top_1 L snap @
      load_HTTP L snap @
      load_DB L snap @
      load_NATS_1 L snap @ load_NATS_2 L snap @
      load_AI L snap @
      load_SMTP L snap) ([], c) = ([], c')"
    and "cfg_Auth c' = cfg_Auth c"
      "cfg_LiveWS c' = cfg_LiveWS c"
      "cfg_MetricsSnapshot c' = cfg_MetricsSnapshot c"
      "cfg_Pprof c' = cfg_Pprof c"
      "cfg_SlowConsumer c' = cfg_SlowConsumer c"
      "cfg_Pagination c' = cfg_Pagination c"
      "cfg_StaticDir c' = cfg_StaticDir c"
      "cfg_CORSAllowedOrigins c' = cfg_CORSAllowedOrigins c"
      "cfg_TrustedProxies c' = cfg_TrustedProxies c"
      "cfg_LookBackDuration c' = cfg_LookBackDuration c"
    and "map Inr ([Txt (cfg_ProjectName c')] @
      HTTP_fields (cfg_HTTP c') @
      DB_fields (cfg_DB c') @
      NATS_fields (cfg_NATS c') @
      AI_fields (cfg_AI c') @
      SMTP_fields (cfg_SMTP c')) =
      map (schema_read L snap) (schema_top_1 @ schema_HTTP @ schema_DB @ schema_NATS_1 @ schema_NATS_2 @ schema_AI @ schema_SMTP)"
proof -
  have ok: "lefts (map (schema_read L snap) S) = []"
    if "S \<in> {schema_top_1, schema_HTTP, schema_DB, schema_NATS_1 @ schema_NATS_2, schema_AI, schema_SMTP}" for S
    using that ok by auto
  obtain c0 where s0: "run_blocks (load_top_1 L snap) ([], c) = ([], c0)" "others ''ProjectName'' c c0"
    "[Inr (Txt (cfg_ProjectName c0))] = map (schema_read L snap) schema_top_1"
    using value_project [OF ok] by blast
  obtain c1 where s1: "run_blocks (load_HTTP L snap) ([], c0) = ([], c1)"
    "others ''HTTP'' c0 c1" "map Inr (HTTP_fields (cfg_HTTP c1)) = map (schema_read L snap) (schema_HTTP)"
    using values_HTTP [OF ok] by blast
  obtain c2 where s2: "run_blocks (load_DB L snap) ([], c1) = ([], c2)"
    "others ''DB'' c1 c2" "map Inr (DB_fields (cfg_DB c2)) = map (schema_read L snap) (schema_DB)"
    using values_DB [OF ok] by blast
  have "cfg_NATS c2 = zero_NATSConfig" using zero s0(2) s1(2) s2(2) by (simp add: others_def)
  then obtain c3 where s3: "run_blocks (load_NATS_1 L snap @ load_NATS_2 L snap) ([], c2) = ([], c3)"
    "others ''NATS'' c2 c3" "map Inr (NATS_fields (cfg_NATS c3)) = map (schema_read L snap) (schema_NATS_1 @ schema_NATS_2)"
    using values_NATS [OF ok] by blast
  have "cfg_AI c3 = zero_AIConfig" using zero s0(2) s1(2) s2(2) s3(2) by (simp add: others_def)
  then obtain c4 where s4: "run_blocks (load_AI L snap) ([], c3) = ([], c4)"
    "others ''AI'' c3 c4" "map Inr (AI_fields (cfg_AI c4)) = map (schema_read L snap) (schema_AI)"
    using values_AI [OF ok] by blast
  have "cfg_SMTP c4 = zero_SMTPConfig" using zero s0(2) s1(2) s2(2) s3(2) s4(2) by (simp add: others_def)
  then obtain c5 where s5: "run_blocks (load_SMTP L snap) ([], c4) = ([], c5)"
    "others ''SMTP'' c4 c5" "map Inr (SMTP_fields (cfg_SMTP c5)) = map (schema_read L snap) (schema_SMTP)"
    using values_SMTP [OF ok] by blast
  show thesis
    by (rule that [of c5]) (use s0 s1 s2 s3 s4 s5 in \<open>simp_all add: others_def run_append\<close>)
qed

lemma values_limits:
  assumes ok: "lefts (map (schema_read L snap) (schema_Auth @ schema_LiveWS @ schema_MetricsSnapshot @ schema_Pprof @ schema_SlowConsumer @ schema_Pagination)) = []"
  obtains c' where "run_blocks (load_Auth L snap @
      load_LiveWS L snap @
      load_MetricsSnapshot L snap @
      load_Pprof L snap @
      load_SlowConsumer L snap @
      load_Pagination L snap) ([], c) = ([], c')"
    and "cfg_HTTP c' = cfg_HTTP c"
      "cfg_DB c' = cfg_DB c"
      "cfg_NATS c' = cfg_NATS c"
      "cfg_AI c' = cfg_AI c"
      "cfg_SMTP c' = cfg_SMTP c"
      "cfg_ProjectName c' = cfg_ProjectName c"
      "cfg_StaticDir c' = cfg_StaticDir c"
      "cfg_CORSAllowedOrigins c' = cfg_CORSAllowedOrigins c"
      "cfg_TrustedProxies c' = cfg_TrustedProxies c"
      "cfg_LookBackDuration c' = cfg_LookBackDuration c"
    and "map Inr (Auth_fields (cfg_Auth c') @
      LiveWS_fields (cfg_LiveWS c') @
      MetricsSnapshot_fields (cfg_MetricsSnapshot c') @
      Pprof_fields (cfg_Pprof c') @
      SlowConsumer_fields (cfg_SlowConsumer c') @
      Pagination_fields (cfg_Pagination c')) =
      map (schema_read L snap) (schema_Auth @ schema_LiveWS @ schema_MetricsSnapshot @ schema_Pprof @ schema_SlowConsumer @ schema_Pagination)"
proof -
  have ok: "lefts (map (schema_read L snap) S) = []"
    if "S \<in> {schema_Auth, schema_LiveWS, schema_MetricsSnapshot, schema_Pprof, schema_SlowConsumer, schema_Pagination}" for S
    using that ok by auto
  obtain c0 where s0: "run_blocks (load_Auth L snap) ([], c) = ([], c0)"
    "others ''Auth'' c c0" "map Inr (Auth_fields (cfg_Auth c0)) = map (schema_read L snap) (schema_Auth)"
    using values_Auth [OF ok] by blast
  obtain c1 where s1: "run_blocks (load_LiveWS L snap) ([], c0) = ([], c1)"
    "others ''LiveWS'' c0 c1" "map Inr (LiveWS_fields (cfg_LiveWS c1)) = map (schema_read L snap) (schema_LiveWS)"
    using values_LiveWS [OF ok] by blast
  obtain c2 where s2: "run_blocks (load_MetricsSnapshot L snap) ([], c1) = ([], c2)"
    "others ''MetricsSnapshot'' c1 c2" "map Inr (MetricsSnapshot_fields (cfg_MetricsSnapshot c2)) = map (schema_read L snap) (schema_MetricsSnapshot)"
    using values_MetricsSnapshot [OF ok] by blast
  obtain c3 where s3: "run_blocks (load_Pprof L snap) ([], c2) = ([], c3)"
    "others ''Pprof'' c2 c3" "map Inr (Pprof_fields (cfg_Pprof c3)) = map (schema_read L snap) (schema_Pprof)"
    using values_Pprof [OF ok] by blast
  obtain c4 where s4: "run_blocks (load_SlowConsumer L snap) ([], c3) = ([], c4)"
    "others ''SlowConsumer'' c3 c4" "map Inr (SlowConsumer_fields (cfg_SlowConsumer c4)) = map (schema_read L snap) (schema_SlowConsumer)"
    using values_SlowConsumer [OF ok] by blast
  obtain c5 where s5: "run_blocks (load_Pagination L snap) ([], c4) = ([], c5)"
    "others ''Pagination'' c4 c5" "map Inr (Pagination_fields (cfg_Pagination c5)) = map (schema_read L snap) (schema_Pagination)"
    using values_Pagination [OF ok] by blast
  show thesis
    by (rule that [of c5]) (use s0 s1 s2 s3 s4 s5 in \<open>simp_all add: others_def run_append\<close>)
qed

lemma loaded_fields:
  assumes ok: "lefts (map (schema_read L snap) configAuditSchema) = []"
  shows "map Inr (config_fields (snd (LoadConfig L snap))) = map (schema_read L snap) configAuditSchema"
proof -
  note ok' = ok [unfolded configAuditSchema_def map_append lefts_append append_is_Nil_conv]
  obtain c1 where 1: "run_blocks (load_top_1 L snap @
      load_HTTP L snap @
      load_DB L snap @
      load_NATS_1 L snap @ load_NATS_2 L snap @
      load_AI L snap @
      load_SMTP L snap) ([], zero_Config) = ([], c1)"
    "cfg_StaticDir c1 = cfg_StaticDir zero_Config"
    "cfg_CORSAllowedOrigins c1 = cfg_CORSAllowedOrigins zero_Config"
    "cfg_TrustedProxies c1 = cfg_TrustedProxies zero_Config"
    "cfg_LookBackDuration c1 = cfg_LookBackDuration zero_Config"
    "map Inr ([Txt (cfg_ProjectName c1)] @
      HTTP_fields (cfg_HTTP c1) @
      DB_fields (cfg_DB c1) @
      NATS_fields (cfg_NATS c1) @
      AI_fields (cfg_AI c1) @
      SMTP_fields (cfg_SMTP c1)) =
      map (schema_read L snap) (schema_top_1 @ schema_HTTP @ schema_DB @ schema_NATS_1 @ schema_NATS_2 @ schema_AI @ schema_SMTP)"
    by (rule values_services [of L snap zero_Config]) (use ok' in \<open>simp_all add: zero_Config_def\<close>)
  obtain c2 where 2: "run_blocks (load_Auth L snap @
      load_LiveWS L snap @
      load_MetricsSnapshot L snap @
      load_Pprof L snap @
      load_SlowConsumer L snap @
      load_Pagination L snap) ([], c1) = ([], c2)"
    "cfg_HTTP c2 = cfg_HTTP c1"
    "cfg_DB c2 = cfg_DB c1"
    "cfg_NATS c2 = cfg_NATS c1"
    "cfg_AI c2 = cfg_AI c1"
    "cfg_SMTP c2 = cfg_SMTP c1"
    "cfg_ProjectName c2 = cfg_ProjectName c1"
    "cfg_StaticDir c2 = cfg_StaticDir c1"
    "cfg_CORSAllowedOrigins c2 = cfg_CORSAllowedOrigins c1"
    "cfg_TrustedProxies c2 = cfg_TrustedProxies c1"
    "cfg_LookBackDuration c2 = cfg_LookBackDuration c1"
    "map Inr (Auth_fields (cfg_Auth c2) @
      LiveWS_fields (cfg_LiveWS c2) @
      MetricsSnapshot_fields (cfg_MetricsSnapshot c2) @
      Pprof_fields (cfg_Pprof c2) @
      SlowConsumer_fields (cfg_SlowConsumer c2) @
      Pagination_fields (cfg_Pagination c2)) =
      map (schema_read L snap) (schema_Auth @ schema_LiveWS @ schema_MetricsSnapshot @ schema_Pprof @ schema_SlowConsumer @ schema_Pagination)"
    by (rule values_limits [of L snap c1]) (use ok' in simp_all)
  obtain c3 where 3: "run_blocks (load_top_2 L snap @ load_top_3 L snap) ([], c2) = ([], c3)" "others ''top'' c2 c3"
    "map Inr (top_fields c3) = map (schema_read L snap) (schema_top_2 @ schema_top_3)"
    using values_top [of L snap c2 "[]"] ok' 1(2-) 2(2-) by (auto simp: zero_Config_def)
  have "snd (LoadConfig L snap) = c3"
    using 1(1) 2(1) 3(1) by (simp add: LoadConfig_def loadConfig_def all_blocks_def run_append)
  then show ?thesis
    using 1(2-) 2(2-) 3(2-) by (simp add: config_fields_def configAuditSchema_def others_def)
qed

text \<open>C31: the loader does what the audit schema says.  Whatever the environment, the configuration is refused
  with exactly the errors of the rows of the schema, all of them and in their order: a required key that is not
  given, a text or a default that cannot be parsed.  Without errors every field has the value of its row: the
  text given in the environment, else the default, else the zero value.\<close>

theorem loader_implements_schema:
  "fst (LoadConfig L snap) = el_NewError L (lefts (map (schema_read L snap) configAuditSchema)) \<and>
   (lefts (map (schema_read L snap) configAuditSchema) = [] \<longrightarrow>
      map Inr (config_fields (snd (LoadConfig L snap))) = map (schema_read L snap) configAuditSchema)"
proof (intro conjI impI)
  have "fst (run_blocks (all_blocks L snap) ([], zero_Config)) = lefts (map (schema_read L snap) configAuditSchema)"
    using run_reports [OF reports_all, of L snap "([], zero_Config)"] by simp
  then show "fst (LoadConfig L snap) = el_NewError L (lefts (map (schema_read L snap) configAuditSchema))"
    by (simp add: LoadConfig_def loadConfig_def Let_def case_prod_beta)
next
  assume "lefts (map (schema_read L snap) configAuditSchema) = []"
  then show "map Inr (config_fields (snd (LoadConfig L snap))) = map (schema_read L snap) configAuditSchema"
    by (rule loaded_fields)
qed

section \<open>A start in production\<close>

lemma BitLen_nat_ge: "0 < k \<Longrightarrow> k \<le> BitLen_nat n \<longleftrightarrow> 2 ^ (k - 1) \<le> n"
proof (induction n arbitrary: k rule: BitLen_nat.induct)
  case (1 n)
  show ?case
  proof (cases "n = 0 \<or> k = 1")
    case False
    then obtain j where k: "k = Suc j" "0 < j" using 1(2) by (cases k) auto
    have "k \<le> BitLen_nat n \<longleftrightarrow> j \<le> BitLen_nat (n div 2)"
      using False k by (simp add: BitLen_nat.simps [of n])
    also have "\<dots> \<longleftrightarrow> 2 ^ (j - 1) \<le> n div 2" using 1(1) False k by simp
    also have "\<dots> \<longleftrightarrow> 2 * 2 ^ (j - 1) \<le> n" by (simp add: less_eq_div_iff_mult_less_eq mult.commute)
    also have "\<dots> \<longleftrightarrow> 2 ^ (k - 1) \<le> n" using k by (cases j) simp_all
    finally show ?thesis .
  qed (use 1(2) in \<open>auto simp: BitLen_nat.simps [of n]\<close>)
qed

lemma BitLen_ge: "0 < k \<Longrightarrow> k \<le> BitLen n \<longleftrightarrow> 2 ^ (k - 1) \<le> \<bar>n\<bar>"
  by (simp add: BitLen_def BitLen_nat_ge nat_le_iff le_nat_iff)

definition strong_pair :: "RSAPrivate \<Rightarrow> RSAPublic \<Rightarrow> bool" where
  "strong_pair priv pub \<longleftrightarrow>
     ru_N priv = ru_N pub \<and> ru_E priv = ru_E pub \<and> 2 ^ 2047 \<le> \<bar>ru_N priv\<bar> \<and> 0 < rp_D priv"

lemma validate_pair: "validateRSAKeyPair priv pub = None \<longleftrightarrow> strong_pair priv pub"
  using BitLen_ge [of 2048 "ru_N priv"] BitLen_ge [of 2048 "ru_N pub"]
  by (auto simp: validateRSAKeyPair_def strong_pair_def minSessionRSABits_def)

lemma session_pair:
  "ParseSessionRSAKeyPair K a b = Inr (priv, pub) \<longleftrightarrow>
   parseRSAPrivateKeyPEM K a = Inr priv \<and> parseRSAPublicKeyPEM K b = Inr pub \<and> strong_pair priv pub"
  by (auto simp: ParseSessionRSAKeyPair_def validate_pair [symmetric] split: sum.split option.split)

text \<open>What the README promises of a production start.\<close>

definition transport_secure :: "UrlLib \<Rightarrow> NATSConfig \<Rightarrow> bool" where
  "transport_secure U n \<longleftrightarrow>
     \<not> ntc_TlsInsecureSkipVerify n \<and>
     (ntc_URL n \<noteq> [] \<longrightarrow>
        (\<exists>scheme. ul_Scheme U (ntc_URL n) = Some scheme \<and> ToLower scheme \<in> {''tls'', ''wss''}) \<and>
        (ntc_CredsFile n \<noteq> [] \<or> ntc_Token n \<noteq> [])) \<and>
     (ntc_MonitoringURL n \<noteq> [] \<longrightarrow>
        (\<exists>scheme. ul_Scheme U (ntc_MonitoringURL n) = Some scheme \<and> ToLower scheme = ''https''))"

lemma env_config_secure: "ValidateEnvConfig U cfg = None \<longleftrightarrow> transport_secure U (cfg_NATS cfg)"
  by (auto simp: ValidateEnvConfig_def ValidateSecureClientURL_def ValidateSecureMonitoringURL_def
      transport_secure_def Let_def IsEmpty_iff split: option.splits if_splits)

definition reports_errors :: "EnvLib \<Rightarrow> bool" where
  "reports_errors L \<longleftrightarrow> (\<forall>es. el_NewError L es = None \<longleftrightarrow> es = [])"

lemma read_required_text:
  "Inr (Txt v) = schema_read L snap (field k p [] x False True s) \<Longrightarrow> kind_of p = KText \<Longrightarrow>
   given L snap k = Some v"
  by (auto simp: schema_read_def parse_row_text split: option.splits)

lemmas fields_defs = config_fields_def HTTP_fields_def DB_fields_def NATS_fields_def AI_fields_def SMTP_fields_def
  Auth_fields_def LiveWS_fields_def MetricsSnapshot_fields_def Pprof_fields_def SlowConsumer_fields_def
  Pagination_fields_def top_fields_def

lemmas schema_defs = configAuditSchema_def schema_top_1_def schema_HTTP_def schema_DB_def schema_NATS_1_def
  schema_NATS_2_def schema_AI_def schema_SMTP_def schema_Auth_def schema_LiveWS_def schema_MetricsSnapshot_def
  schema_Pprof_def schema_SlowConsumer_def schema_Pagination_def schema_top_2_def schema_top_3_def

lemma required_given:
  assumes "reports_errors L" and "LoadConfig L snap = (None, cfg)"
  shows "given L snap ''ADMIN_PASSWORD'' = Some (cfg_AdminPassword cfg)"
    "given L snap ''ENCRYPTION_KEY'' = Some (cfg_EncryptionKey cfg)"
    "given L snap ''SESSION_PRIVATE_KEY'' = Some (auc_SessionPrivateKey (cfg_Auth cfg))"
    "given L snap ''SESSION_PUBLIC_KEY'' = Some (auc_SessionPublicKey (cfg_Auth cfg))"
    "given L snap ''DATABASE_URL'' = Some (dc_URL (cfg_DB cfg))"
proof -
  have "lefts (map (schema_read L snap) configAuditSchema) = []"
    using assms run_reports [OF reports_all, of L snap "([], zero_Config)"]
    by (simp add: reports_errors_def LoadConfig_def loadConfig_def Let_def case_prod_beta)
  from loaded_fields [OF this] assms(2)
  have "map Inr (config_fields cfg) = map (schema_read L snap) configAuditSchema" by simp
  note rows = this [unfolded fields_defs schema_defs list.map append.simps list.inject]
  show "given L snap ''ADMIN_PASSWORD'' = Some (cfg_AdminPassword cfg)"
    by (insert rows, elim conjE, erule read_required_text, rule kind_of_path)
  show "given L snap ''ENCRYPTION_KEY'' = Some (cfg_EncryptionKey cfg)"
    by (insert rows, elim conjE, erule read_required_text, rule kind_of_path)
  show "given L snap ''SESSION_PRIVATE_KEY'' = Some (auc_SessionPrivateKey (cfg_Auth cfg))"
    by (insert rows, elim conjE, erule read_required_text, rule kind_of_path)
  show "given L snap ''SESSION_PUBLIC_KEY'' = Some (auc_SessionPublicKey (cfg_Auth cfg))"
    by (insert rows, elim conjE, erule read_required_text, rule kind_of_path)
  show "given L snap ''DATABASE_URL'' = Some (dc_URL (cfg_DB cfg))"
    by (insert rows, elim conjE, erule read_required_text, rule kind_of_path)
qed

lemma compat_same:
  "cfg_AdminPassword (applyDontRandomizeCompat L env cfg) = cfg_AdminPassword cfg"
  "cfg_EncryptionKey (applyDontRandomizeCompat L env cfg) = cfg_EncryptionKey cfg"
  "cfg_Auth (applyDontRandomizeCompat L env cfg) = cfg_Auth cfg"
  "cfg_DB (applyDontRandomizeCompat L env cfg) = cfg_DB cfg"
  by (simp_all add: applyDontRandomizeCompat_def split: option.split sum.split)

lemma Load_cases:
  assumes "Load L K pr = Inr cfg"
  obtains c where "LoadConfig L (pr_env pr) = (None, c)" and "cfg = applyDontRandomizeCompat L (pr_env pr) c"
    and "Validate K (pr_env pr) cfg = None"
  using assms by (auto simp: Load_def Let_def split: dot_env.splits prod.splits option.splits)

lemma startup_cases:
  assumes "startup L K U C open_db pr = Inr (cfg, db)"
  shows "Load L K pr = Inr cfg" "16 \<le> length (cfg_EncryptionKey cfg)"
    "TLSEnabled cfg \<Longrightarrow> ValidateDatabaseURL U (dc_URL (cfg_DB cfg)) = None"
    "TLSEnabled cfg \<or> IsProduction (pr_env pr) \<Longrightarrow> ValidateEnvConfig U cfg = None"
  using assms
  by (auto simp: startup_def crypto_New_def OpenWithConfig_def IsEmpty_iff split: sum.splits option.splits if_splits)

text \<open>C12: a start in production is secure.  When the program starts with \<^verbatim>\<open>ENV=production\<close> or a public URL of
  \<^verbatim>\<open>https\<close>, the password of the administrator was given and is not the default; the key of the store was given
  and has 16 characters; the keys of sessions were given and are one pair of at least 2048 bits; the connection
  to NATS is encrypted, verified and authenticated wherever an address is set, its monitoring is \<^verbatim>\<open>https\<close>; the
  profiler asks for a login; and with \<^verbatim>\<open>https\<close> the database is asked for an encrypted connection.\<close>

theorem production_start_secure:
  assumes "startup L K U C open_db pr = Inr (cfg, db)" and "reports_errors L"
    and "TLSEnabled cfg \<or> IsProduction (pr_env pr)"
  shows "given L (pr_env pr) ''ADMIN_PASSWORD'' = Some (cfg_AdminPassword cfg) \<and> cfg_AdminPassword cfg \<noteq> ''admin'' \<and>
    given L (pr_env pr) ''ENCRYPTION_KEY'' = Some (cfg_EncryptionKey cfg) \<and> 16 \<le> length (cfg_EncryptionKey cfg) \<and>
    (\<exists>a b priv pub. given L (pr_env pr) ''SESSION_PRIVATE_KEY'' = Some a \<and>
       given L (pr_env pr) ''SESSION_PUBLIC_KEY'' = Some b \<and>
       ParseSessionRSAKeyPair K a b = Inr (priv, pub) \<and> strong_pair priv pub) \<and>
    transport_secure U (cfg_NATS cfg) \<and>
    (ppc_Enabled (cfg_Pprof cfg) \<longrightarrow> ppc_AuthEnabled (cfg_Pprof cfg)) \<and>
    (TLSEnabled cfg \<longrightarrow> (\<exists>url. given L (pr_env pr) ''DATABASE_URL'' = Some url \<and>
       ToLower (TrimSpace (ul_sslmode U url)) \<in> {''require'', ''verify-ca'', ''verify-full''}))"
proof -
  note s = startup_cases [OF assms(1)]
  obtain c where c: "LoadConfig L (pr_env pr) = (None, c)" "cfg = applyDontRandomizeCompat L (pr_env pr) c"
    and v: "Validate K (pr_env pr) cfg = None" using Load_cases [OF s(1)] by blast
  have g: "cfg_AdminPassword cfg = cfg_AdminPassword c" "cfg_EncryptionKey cfg = cfg_EncryptionKey c"
    "cfg_Auth cfg = cfg_Auth c" "cfg_DB cfg = cfg_DB c"
    unfolding c(2) by (rule compat_same)+
  note given = required_given [OF assms(2) c(1)]
  obtain priv pub where keys: "ParseSessionRSAKeyPair K (auc_SessionPrivateKey (cfg_Auth c))
      (auc_SessionPublicKey (cfg_Auth c)) = Inr (priv, pub)"
    using v g by (auto simp: Validate_def Let_def split: sum.splits if_splits)
  then have pair: "strong_pair priv pub" by (simp add: session_pair)
  have "validateSecurity (pr_env pr) cfg = []"
    using v by (auto simp: Validate_def Let_def split: if_splits)
  then have sec: "cfg_AdminPassword cfg \<noteq> ''admin''" "ppc_Enabled (cfg_Pprof cfg) \<longrightarrow> ppc_AuthEnabled (cfg_Pprof cfg)"
    using assms(3) by (auto simp: validateSecurity_def split: if_splits)
  have "transport_secure U (cfg_NATS cfg)" using s(4) assms(3) by (simp add: env_config_secure)
  moreover have "TLSEnabled cfg \<longrightarrow>
      ToLower (TrimSpace (ul_sslmode U (dc_URL (cfg_DB c)))) \<in> {''require'', ''verify-ca'', ''verify-full''}"
    using s(3) g by (auto simp: ValidateDatabaseURL_def split: if_splits)
  ultimately show ?thesis using given keys pair sec s(2) g by metis
qed

section \<open>Examples\<close>

text \<open>A library that reads numbers by their digits, and a process with what a start needs.\<close>

definition digits_of :: "string \<Rightarrow> int" where
  "digits_of s = (case digits_value 0 (filter (\<lambda>c. char_digit c \<noteq> None) s) of None \<Rightarrow> 0 | Some n \<Rightarrow> int n)"

definition demo_env_lib :: EnvLib where
  "demo_env_lib =
     \<lparr>el_IsEmpty = IsEmpty, el_ParseDuration = (\<lambda>s. Inr (digits_of s * Second)), el_ParseInt = (\<lambda>s. Inr (digits_of s)),
      el_ParseInt64 = (\<lambda>s. Inr (digits_of s)), el_ParseUint64 = (\<lambda>s. Inr (word_of_int (digits_of s))),
      el_ParseFloat64 = (\<lambda>s. Inr (Fin (9 / 10))),
      el_ParseBool = (\<lambda>s. if s = ''true'' then Inr True else if s = ''false'' then Inr False else Inl ''invalid syntax''),
      el_NewError = (\<lambda>es. if es = [] then None else Some ''invalid configuration''), el_mask = ''***''\<rparr>"

definition demo_key :: RSAPrivate where
  "demo_key = \<lparr>ru_N = 2 ^ 2047, ru_E = 65537, rp_D = 1\<rparr>"

definition demo_keys :: KeyLib where
  "demo_keys =
     \<lparr>kl_pemDecode = Some, kl_ParsePKCS1 = (\<lambda>s. Some demo_key), kl_ParsePKCS8 = (\<lambda>s. None),
      kl_ParsePKIX = (\<lambda>s. Some (RSAPublicKey \<lparr>ru_N = 2 ^ 2047, ru_E = 65537\<rparr>))\<rparr>"

definition demo_urls :: UrlLib where
  "demo_urls =
     \<lparr>ul_Scheme = (\<lambda>url. Some (takeWhile (\<lambda>c. c \<noteq> CHR '':'') url)),
      ul_sslmode = (\<lambda>url. drop 1 (dropWhile (\<lambda>c. c \<noteq> CHR ''='') url))\<rparr>"

definition demo_cipher :: Cipher where
  "demo_cipher = \<lparr>cp_sum = id, cp_seal = (\<lambda>k n p. p), cp_open = (\<lambda>k n p. Some p), cp_base64 = id, cp_unbase64 = Some\<rparr>"

definition demo_process :: "string \<Rightarrow> string \<Rightarrow> Process" where
  "demo_process base db =
     \<lparr>pr_dotenv = DotEnvMissing,
      pr_env = map_of
        [(''ENV'', ''production''), (''PUBLIC_BASE_URL'', base), (''PROJECT_NAME'', ''console''),
         (''DATABASE_URL'', db), (''ADMIN_PASSWORD'', ''long-secret''),
         (''ENCRYPTION_KEY'', ''0123456789abcdef''), (''SESSION_PRIVATE_KEY'', ''private''),
         (''SESSION_PUBLIC_KEY'', ''public''), (''NATS_URL'', ''tls://nats''), (''NATS_TOKEN'', ''t''),
         (''SMTP_HOST'', ''mail''), (''SMTP_PORT'', ''587'')]\<rparr>"

definition demo_start :: "string \<Rightarrow> string \<Rightarrow> start_failure + Config \<times> unit" where
  "demo_start base db =
     startup demo_env_lib demo_keys demo_urls demo_cipher (\<lambda>u e p. Inr ()) (demo_process base db)"

lemma demo_pair:
  "ParseSessionRSAKeyPair demo_keys ''private'' ''public'' =
     Inr (demo_key, \<lparr>ru_N = 2 ^ 2047, ru_E = 65537\<rparr>)"
proof -
  have "strong_pair demo_key \<lparr>ru_N = 2 ^ 2047, ru_E = 65537\<rparr>" by (simp add: strong_pair_def demo_key_def)
  moreover have "TrimSpace ''private'' \<noteq> []" "TrimSpace ''public'' \<noteq> []" by code_simp+
  ultimately show ?thesis
    by (simp add: session_pair parseRSAPrivateKeyPEM_def parseRSAPublicKeyPEM_def demo_keys_def IsEmpty_iff)
qed

lemma demo_loads:
  "lefts (map (schema_read demo_env_lib (pr_env (demo_process base db))) configAuditSchema) = []"
  if "base \<noteq> []" "db \<noteq> []"
  using that
  by (simp add: schema_defs ok_simps read_zero demo_env_lib_def demo_process_def given_def got_def IsEmpty_iff)

text \<open>The configuration loaded there.\<close>

definition demo_config :: "string \<Rightarrow> string \<Rightarrow> Config" where
  "demo_config base db = snd (LoadConfig demo_env_lib (pr_env (demo_process base db)))"

lemma demo_LoadConfig:
  assumes "base \<noteq> []" "db \<noteq> []"
  shows "LoadConfig demo_env_lib (pr_env (demo_process base db)) = (None, demo_config base db)"
proof -
  have "fst (LoadConfig demo_env_lib (pr_env (demo_process base db))) = None"
    using run_reports [OF reports_all, of demo_env_lib "pr_env (demo_process base db)" "([], zero_Config)"] demo_loads [OF assms]
    by (simp add: LoadConfig_def loadConfig_def Let_def case_prod_beta) (simp add: demo_env_lib_def)
  then show ?thesis by (simp add: demo_config_def prod_eq_iff)
qed

lemma demo_fields:
  assumes "base \<noteq> []" "db \<noteq> []" and c: "c = demo_config base db"
  shows "cfg_PublicBaseURL c = base \<and> dc_URL (cfg_DB c) = db \<and> cfg_AdminPassword c = ''long-secret'' \<and>
    cfg_EncryptionKey c = ''0123456789abcdef'' \<and> auc_SessionPrivateKey (cfg_Auth c) = ''private'' \<and>
    auc_SessionPublicKey (cfg_Auth c) = ''public'' \<and> \<not> ppc_Enabled (cfg_Pprof c) \<and> \<not> smc_Enabled (cfg_SMTP c) \<and>
    \<not> ntc_TlsInsecureSkipVerify (cfg_NATS c) \<and> ntc_URL (cfg_NATS c) = ''tls://nats'' \<and>
    ntc_Token (cfg_NATS c) = ''t'' \<and> ntc_MonitoringURL (cfg_NATS c) = []"
proof -
  have "map Inr (config_fields c) = map (schema_read demo_env_lib (pr_env (demo_process base db))) configAuditSchema"
    using loaded_fields [OF demo_loads [OF assms(1,2)]] by (simp add: c demo_config_def)
  then show ?thesis using assms(1,2) unfolding fields_defs schema_defs
    by (simp add: ok_simps read_zero demo_env_lib_def demo_process_def given_def got_def IsEmpty_iff)
qed

lemma demo_started:
  assumes "base \<noteq> []" "db \<noteq> []"
    and "HasPrefix (ToLower base) ''https://'' \<Longrightarrow> ValidateDatabaseURL demo_urls db = None"
  shows "demo_start base db = Inr (demo_config base db, ())"
proof -
  define c where "c = demo_config base db"
  note f = demo_fields [OF assms(1,2) c_def]
  have compat: "applyDontRandomizeCompat demo_env_lib (pr_env (demo_process base db)) c = c"
    by (simp add: applyDontRandomizeCompat_def Getenv_def demo_process_def)
  have "Validate demo_keys (pr_env (demo_process base db)) c = None"
    using f demo_pair by (simp add: Validate_def validateSecurity_def)
  then have "Load demo_env_lib demo_keys (demo_process base db) = Inr c"
    using demo_LoadConfig [OF assms(1,2)] compat by (simp add: Load_def c_def demo_process_def)
  moreover have "transport_secure demo_urls (cfg_NATS c)"
  proof -
    have "ToLower (takeWhile (\<lambda>x. x \<noteq> CHR '':'') ''tls://nats'') = ''tls''" by code_simp
    then show ?thesis using f by (simp add: transport_secure_def demo_urls_def)
  qed
  then have "ValidateEnvConfig demo_urls c = None" by (simp only: env_config_secure)
  ultimately show ?thesis
    using f assms(3) by (simp add: demo_start_def startup_def crypto_New_def IsEmpty_iff OpenWithConfig_def
        TLSEnabled_def c_def)
qed

lemma demo_reports: "reports_errors demo_env_lib"
  by (simp add: reports_errors_def demo_env_lib_def)

theorem loader_implements_schema_witness:
  "let env = pr_env (demo_process ''https://console'' ''postgres://db'') in
   fst (LoadConfig demo_env_lib env) = None \<and>
   map Inr (config_fields (snd (LoadConfig demo_env_lib env))) = map (schema_read demo_env_lib env) configAuditSchema"
proof -
  have "lefts (map (schema_read demo_env_lib (pr_env (demo_process ''https://console'' ''postgres://db'')))
      configAuditSchema) = []" by (rule demo_loads) simp_all
  then show ?thesis
    using loader_implements_schema [of demo_env_lib "pr_env (demo_process ''https://console'' ''postgres://db'')"]
    by (simp add: demo_LoadConfig)
qed

theorem production_start_secure_witness:
  "\<exists>cfg. demo_start ''https://console'' ''postgres://db?sslmode=require'' = Inr (cfg, ()) \<and> TLSEnabled cfg \<and>
     cfg_AdminPassword cfg \<noteq> ''admin'' \<and> transport_secure demo_urls (cfg_NATS cfg)"
proof -
  have url: "ValidateDatabaseURL demo_urls ''postgres://db?sslmode=require'' = None" by code_simp
  have tls: "HasPrefix (ToLower ''https://console'') ''https://''" by code_simp
  have s: "demo_start ''https://console'' ''postgres://db?sslmode=require'' =
      Inr (demo_config ''https://console'' ''postgres://db?sslmode=require'', ())"
    by (rule demo_started) (use url in simp_all)
  moreover have "TLSEnabled (demo_config ''https://console'' ''postgres://db?sslmode=require'')"
    using tls demo_fields [of "''https://console''" "''postgres://db?sslmode=require''", OF _ _ refl]
    by (simp add: TLSEnabled_def)
  ultimately show ?thesis
    using production_start_secure [OF s [unfolded demo_start_def] demo_reports] by blast
qed

text \<open>With \<^verbatim>\<open>ENV=production\<close> but a public URL of \<^verbatim>\<open>http\<close> (behind a proxy, say), the program starts on a database
  whose URL switches encryption off: the check of \<^verbatim>\<open>sslmode\<close> is made for \<^verbatim>\<open>https\<close> only, while the README
  promises it for production.\<close>

theorem production_plain_database:
  "IsProduction (pr_env (demo_process ''http://console'' ''postgres://db?sslmode=disable'')) \<and>
   is_ok (demo_start ''http://console'' ''postgres://db?sslmode=disable'') \<and>
   ul_sslmode demo_urls ''postgres://db?sslmode=disable'' = ''disable''"
proof (intro conjI)
  have "\<not> HasPrefix (ToLower ''http://console'') ''https://''" by code_simp
  then show "is_ok (demo_start ''http://console'' ''postgres://db?sslmode=disable'')"
    by (subst demo_started) simp_all
qed code_simp+

text \<open>What is masked: the token of NATS and the password in the URL of the database are shown.\<close>

theorem masked_leaves_token:
  "ntc_Token (cfg_NATS (Masked L c)) = ntc_Token (cfg_NATS c) \<and> dc_URL (cfg_DB (Masked L c)) = dc_URL (cfg_DB c)"
  by (simp add: Masked_def)

text \<open>A server of mail is required even when no mail is to be sent; the check of \<open>validateSMTP\<close> and the README say
  that it is required when mail is enabled, and the README names a default for the port.\<close>

theorem mail_always_required:
  assumes "reports_errors L" and "given L snap ''SMTP_PORT'' = None"
  shows "fst (LoadConfig L snap) \<noteq> None"
proof -
  have "RequiredMissing ''SMTP.Port'' ''SMTP_PORT'' \<in> set (lefts (map (schema_read L snap) schema_SMTP))"
    using assms(2) by (simp add: schema_SMTP_def schema_read_def lefts_set)
  then have "lefts (map (schema_read L snap) configAuditSchema) \<noteq> []" by (auto simp: configAuditSchema_def)
  then show ?thesis
    using assms(1) run_reports [OF reports_all, of L snap "([], zero_Config)"]
    by (simp add: reports_errors_def LoadConfig_def loadConfig_def Let_def case_prod_beta)
qed

end
