(* ===== verification/Spec2Isabelle.thy ===== *)
theory Spec2Isabelle
  imports Refresh_Tokens Zombies Account_Handlers Access_Grants Clusters Live_Mux Live_Session Replay
    Dead_Letters Nats_Sessions Alerts Js_Handlers Configuration
begin

text \<open>
  \<^bold>\<open>The NATS console: a verification library.\<close>

  The program (\<^verbatim>\<open>src/\<close>) is a web console for clusters of NATS servers.  A request passes a
  chain of middleware (\<^verbatim>\<open>internal/api/middleware\<close>: client limits, CORS, authentication, CSRF,
  access check by path) and reaches a handler (\<^verbatim>\<open>internal/api\<close>), which asks a service
  (\<^verbatim>\<open>internal/app\<close>) that works on PostgreSQL (\<^verbatim>\<open>internal/repo\<close>) or on a NATS connection
  (\<^verbatim>\<open>internal/nats\<close>).  What anyone may do is decided by \<^verbatim>\<open>internal/domain\<close> from the roles,
  access rules and grants of the user.  The development models this spine of identity and
  authority, the registry of clusters with its stored secrets, the connections to NATS, the handlers of
  JetStream with their caches and pages, the delivery of live messages and of snapshots, alerts, and
  the parts of the domain that reason about NATS subjects, sequences and dependencies.

  \<^bold>\<open>Theories and sources.\<close>

  \<^item> \<open>Prelude\<close>: Go's string functions as far as the code uses them, on lists of bytes; maps as
    association lists; results as sums with the error on the left; lemmas shared by all.
  \<^item> \<open>Permissions\<close> (\<^verbatim>\<open>domain/user.go\<close>, \<^verbatim>\<open>role.go\<close>, \<^verbatim>\<open>permissions.go\<close>,
    \<^verbatim>\<open>access_rules*.go\<close>, \<^verbatim>\<open>errors.go\<close>): the records of identity, effective permissions and the
    checks of delegation.
  \<^item> \<open>Authz\<close> (\<^verbatim>\<open>domain/authz.go\<close>, \<^verbatim>\<open>access_grant.go\<close>, \<^verbatim>\<open>app/policy\<close>, \<^verbatim>\<open>apikit/rbac.go\<close>): every
    authorization predicate, and the filters of what an actor sees.
  \<^item> \<open>Users\<close> (\<^verbatim>\<open>repo/users.go\<close>, \<^verbatim>\<open>adapter/postgres/db.go\<close>, \<^verbatim>\<open>app/users.go\<close>): the tables with
    their constraints, and the service over them through the locale \<open>user_repository\<close>.
  \<^item> \<open>Rate_Limiter\<close> (\<^verbatim>\<open>middleware/limiter.go\<close>): the limiter by address.
  \<^item> \<open>Ttl_Cache\<close> (\<^verbatim>\<open>auth\<close>): the cache with expiry, and session revocations, both instances of the
    locale \<open>expiring_store\<close>.
  \<^item> \<open>Auth_Service\<close> (\<^verbatim>\<open>auth/auth.go\<close>, \<^verbatim>\<open>repo/auth_persistence.go\<close>): sessions on any number of
    replicas over one database, logins, user versions.
  \<^item> \<open>Refresh_Tokens\<close> (\<^verbatim>\<open>auth/refresh.go\<close>, \<^verbatim>\<open>repo/refresh_tokens.go\<close>, the logout handler): rotation
    of tokens with all interleavings of concurrent requests, as a step relation.
  \<^item> \<open>Rbac_Middleware\<close> (\<^verbatim>\<open>middleware/mw.go\<close>, \<^verbatim>\<open>auth.go\<close>, \<^verbatim>\<open>csrf.go\<close>, \<^verbatim>\<open>cors.go\<close>,
    \<^verbatim>\<open>audit\<close>): paths, authentication of a request, access check, CSRF, and the deletion of clusters.
  \<^item> \<open>Subjects\<close> (\<^verbatim>\<open>subjectauth\<close>, \<^verbatim>\<open>nats/subject.go\<close>): patterns and subject permissions; the locale
    \<open>subject_matcher\<close> is the contract of the matching loop, which the code has twice.
  \<^item> \<open>Zombies\<close> (\<^verbatim>\<open>domain/zombie.go\<close>): the analysis of unused streams, consumers and subjects, with
    the second copy of the matching loop.
  \<^item> \<open>Nats_Accounts\<close> (\<^verbatim>\<open>repo/nats_account.go\<close>, \<^verbatim>\<open>nats_jwt.go\<close>, \<^verbatim>\<open>signing_groups.go\<close>,
    \<^verbatim>\<open>subject_permissions.go\<close>): NATS users, their tokens, signing groups and exports.
  \<^item> \<open>Account_Handlers\<close> (\<^verbatim>\<open>api/accounts/handlers.go\<close>): all handlers of NATS accounts.
  \<^item> \<open>Access_Grants\<close> (\<^verbatim>\<open>repo/access_grants.go\<close>, \<^verbatim>\<open>app/access.go\<close>, \<^verbatim>\<open>api/access_handlers.go\<close>): the
    tables of grants and invitations and their handlers.
  \<^item> \<open>Clusters\<close> (\<^verbatim>\<open>repo/clusters.go\<close>, \<^verbatim>\<open>encryption_rotate.go\<close>, \<^verbatim>\<open>crypto\<close>, \<^verbatim>\<open>app/cluster.go\<close>): the
    registry of clusters, its default, the sealing of tokens and the rotation of the key.
  \<^item> \<open>Live_Mux\<close> (\<^verbatim>\<open>live/mux.go\<close>): sharing of subscriptions between viewers, as a step relation over
    shared memory with one step per critical section or channel operation.
  \<^item> \<open>Live_Session\<close> (\<^verbatim>\<open>live/hub.go\<close>, \<^verbatim>\<open>encode.go\<close>, \<^verbatim>\<open>control.go\<close>): frames, control messages and the
    loops of one session over timed events.
  \<^item> \<open>Numbers\<close>, \<open>Messages\<close> (\<^verbatim>\<open>nats/seq_exists.go\<close>, \<^verbatim>\<open>nats/client.go\<close>): reading of numbers, and the
    navigation between stored messages on 64-bit sequence numbers.
  \<^item> \<open>Jet_Stream\<close> (\<^verbatim>\<open>domain/blast_radius.go\<close>, \<^verbatim>\<open>slow_consumer.go\<close>): the impact of deleting a stream.
  \<^item> \<open>Replay\<close> (\<^verbatim>\<open>domain/replay.go\<close>, \<^verbatim>\<open>replay_dry_run.go\<close>): replay of consumers and its preview.
  \<^item> \<open>Dead_Letters\<close> (\<^verbatim>\<open>domain/dlq.go\<close>, \<^verbatim>\<open>nats/dlq.go\<close>): listing and retrying of dead letters.
  \<^item> \<open>Nats_Sessions\<close> (\<^verbatim>\<open>nats/manager.go\<close>, \<^verbatim>\<open>session.go\<close>, \<^verbatim>\<open>connection.go\<close>): the pool of connections,
    their generations and health, and the channels of status, as a step relation.
  \<^item> \<open>View_Cache\<close> (\<^verbatim>\<open>nats/view_cache.go\<close>, \<^verbatim>\<open>gateway.go\<close>): the cache of views of a cluster, its keys
    and its invalidation by every change that passes the gateway.
  \<^item> \<open>Floats\<close>, \<open>Alerts\<close> (\<^verbatim>\<open>domain/alerts.go\<close>, \<^verbatim>\<open>repo/alerts*.go\<close>, \<^verbatim>\<open>alerter\<close>, \<^verbatim>\<open>api/alerts_handlers.go\<close>):
    comparison of floating point numbers, rules and open alerts, their evaluation and mails, and the
    handlers that list and change them.
  \<^item> \<open>Http_Chain\<close> (\<^verbatim>\<open>api/router.go\<close>, \<^verbatim>\<open>api/middleware\<close>): the table of routes, every middleware in its
    order, and the answer that leaves the chain.
  \<^item> \<open>Js_Config\<close> (\<^verbatim>\<open>domain/jetstream*.go\<close>, \<^verbatim>\<open>apikit/natsconfig.go\<close>, \<^verbatim>\<open>api/jetstream/requests.go\<close>,
    \<^verbatim>\<open>api/kvobj/requests.go\<close>): configurations of streams, consumers and buckets, from request to library
    and back.
  \<^item> \<open>Snapshots\<close> (\<^verbatim>\<open>snapshot/hub.go\<close>, \<^verbatim>\<open>connz_broker.go\<close>): the snapshots of monitoring data and the
    scrapes that run as long as someone listens.
  \<^item> \<open>Api_Core\<close> (\<^verbatim>\<open>api/apikit\<close>): executors of a cluster, errors of NATS as answers, names and pages.
  \<^item> \<open>Js_Handlers\<close> (\<^verbatim>\<open>api/jetstream\<close>, \<^verbatim>\<open>api/kvobj\<close>): every handler of streams, consumers, messages,
    buckets and objects, over the calls it makes on an abstract server.
  \<^item> \<open>Configuration\<close> (\<^verbatim>\<open>config\<close>, \<^verbatim>\<open>crypto/session_keys.go\<close>, \<^verbatim>\<open>nats/validate.go\<close>,
    \<^verbatim>\<open>adapter/postgres/validate.go\<close>, \<^verbatim>\<open>bootstrap/app.go\<close>): the settings, their loader beside the
    audit schema, and the checks before the program serves.

  \<^bold>\<open>Conventions.\<close>  Definitions have the names of the code; fields of records carry a prefix
  of their type.  A Go error is the left side of a sum.  Stateful code passes its state
  explicitly and returns the next one with its answer; a transaction that fails returns the
  state it began with.  Times and durations are integers (nanoseconds).  Counters of the NATS
  server are 64-bit words.  Generated ids, random bytes, the clock and the content of the
  request are arguments, so theorems hold for all of them.

  \<^bold>\<open>What is a parameter.\<close>  Code outside the repository is an argument of the definitions that
  call it: bcrypt and SHA-256, the signing and parsing of session tokens (\<open>AuthParams\<close>), the
  libraries for NATS keys and tokens and the cipher of the store (\<open>NatsLib\<close>), Base64 and the parsing
  of URLs (\<open>Cipher\<close>), the JetStream API as far as navigation and dead letters call it, the router
  library, the compression library, the reading of a UUID by PostgreSQL, the sending of mail, the
  enumerations and times of the NATS library (\<open>JsLib\<close>), and for the handlers of JetStream the executor
  that performs a call, the decoding of bodies and the fingerprints (\<open>Core\<close>); for the configuration the
  library \<^verbatim>\<open>env\<close> (\<open>EnvLib\<close>), the decoding of keys (\<open>KeyLib\<close>) and the parsing of URLs (\<open>UrlLib\<close>).  What a theorem
  needs of them is a named hypothesis, for example that a new token has no permissions set
  (\<open>new_claims_open\<close>) or that decryption inverts encryption, and its witness instantiates them.

  \<^bold>\<open>What is shown.\<close>
  \<^item> \<^emph>\<open>Authority is confined.\<close>  No sequence of administration calls by users other than the root
    gives anyone more than was delegated; the root is fixed; delegation and superset checks are
    exact where they are, and the cases where they are not are theorems too.
  \<^item> \<^emph>\<open>Access checks mean what they say.\<close>  The comparisons of resource keys decide the scopes of
    grants; listings and audit filters show exactly the visible clusters; a request that passes
    the middleware on a cluster path has the right on that cluster.
  \<^item> \<^emph>\<open>Sessions.\<close>  A logout takes effect at once on its replica and after at most five seconds on the
    others; sessions are validated; a refresh token is rotated at most once under concurrency,
    and reuse is punished; a change of rights is seen by the next request.
  \<^item> \<^emph>\<open>Limits and caches.\<close>  The rate limiter bounds every window and refines its sliding-window
    specification; the caches refine the history of their operations.
  \<^item> \<^emph>\<open>NATS accounts.\<close>  Changes are authorized and stay in their account; secrets go to those who
    may download them; the view of subject permissions agrees with the tokens; grants follow
    assignments and deletions.
  \<^item> \<^emph>\<open>Grants, invitations, registry.\<close>  Admin grants come from administrators, an invitation is
    accepted once, changes of grants reach the caches; there is one default cluster, credentials
    come back as stored, and a rotation of the key is all or nothing.
  \<^item> \<^emph>\<open>Live messages.\<close>  No subscription leaks in any interleaving, attaching returns and then
    receives, frames stay with their session; sessions keep their limits; strings survive JSON.
  \<^item> \<^emph>\<open>Streams.\<close>  Navigation ends and names stored neighbours; a valid replay reaches the library
    with consistent options and its preview counts correctly; retrying dead letters loses none,
    and collecting them is complete.
  \<^item> \<^emph>\<open>Connections.\<close>  In every interleaving a connection is in the pool, retired or closed, an
    invalidation is seen by every later request, no status is sent on a closed channel.
  \<^item> \<^emph>\<open>The chain of requests.\<close>  Every protected handler runs for a user with the right of its route;
    the audit log has exactly the successful changes.
  \<^item> \<^emph>\<open>Configuration.\<close>  The loader does what the audit schema says for each of its 85 rows; a start in
    production has secrets of its own and secure connections.
  \<^item> \<^emph>\<open>Handlers of JetStream.\<close>  Reads change nothing on the server or in the snapshots; a change is
    answered as it ended and drops what it makes stale; all pages are collected; every error of NATS
    has its status and code; accepted configurations are in range and come back as they were given.
  \<^item> \<^emph>\<open>Cached views and snapshots.\<close>  A view is never older than its time of life and never misses a
    change made here; the payload of the hub is the last one, scrapes run exactly on demand.
  \<^item> \<^emph>\<open>Alerts.\<close>  One open alert per rule, raised and closed as the rule decides, mailed once, shown to
    those who may see its cluster.
  \<^item> \<^emph>\<open>Subjects.\<close>  Matching decides the meaning of patterns; overlap and unconsumed subjects are
    reported soundly, and exactly for literal subjects.

  \<^bold>\<open>Deviations that modelling found\<close> are theorems that exhibit them: superset checks that ignore
  access to all clusters, a legacy admin minted by a role change, a logout that leaves a
  rotated refresh token, an expired session served from the cache, the deletion of a cluster by
  a grant on an account, audit entries under a spelling no filter selects, credentials handed out
  by rotation, tokens minted without restrictions when the signing group cannot be read,
  overlaps of patterns that are missed, a send on a closed channel that ends the process, invalid
  UTF-8 copied into frames, navigation that skips the nearest message or answers from a stale cache,
  tokens that look encrypted and are lost, a rotation that cannot run on one connection, forgets
  the seeds of users and accepts a wrong current key, URLs shown with their secrets, a manager who
  grants himself downloads, passwords of invitations that are trimmed, alerts of a disabled rule that
  stay open, a listing of alerts for a user without clusters that shows all, a closed session that
  evicts its successor, replays that leave cached views, paths that are no UUID and pass unchecked,
  a stream updated under another name, a payload of topology that loses the account it was asked for,
  a scrape that ends after its data was dropped and is shown as new, a production start on a database
  without encryption, secrets that are not masked, and a server of mail that is required without mail.

  \<^bold>\<open>Bounds and termination.\<close>  All functions are total.  Loops over data are structural recursions;
  the binary search for the previous message recurses on the width of its interval, and a theorem
  bounds its probes by 64; the collection of dead letters recurses on what is still missing to its
  maximum.  The collection of all pages of a listing may not end on a server whose total grows for
  ever: it is a partial function into \<open>option\<close>, and on a server with a fixed listing it is proved to
  return the whole.  The number of replicas, requests, viewers and steps is not bounded; the step relations
  are inductive, and their invariants are proved by rule induction.

  \<^bold>\<open>What is not modelled.\<close>  Connection failures of the database (but for the lookup that decides
  the permissions of a token), the order of rows, cookies, JSON and HTTP encoding, metrics and
  their history, the compression algorithm itself, the text of mails, profiling, the language-model
  assistant, and the web client.  Of the insights (scores, bottlenecks, genome,
  chaos stories, the exports of architecture, replicas and topology) most is floating point scoring
  or assembly of text for display, whose rules have no contract beyond their own text.
\<close>

end
